(* ===== verification/Prelude.thy ===== *)
theory Prelude
  imports Main "HOL-Library.Word"
begin

text \<open>
  Shared vocabulary of the development: the machine integers of the program as word types,
  byte strings, the big-endian byte encoding of a number, and the generic facts about
  codecs that the components share.

  The locale \<open>codec\<close> is the interface between every serialisable type and the code that
  stores or transmits it: a writer, a reader that hands back the rest of the stream, and
  the law that reading undoes writing.
\<close>

section \<open>Machine integers and byte strings\<close>

type_synonym u8 = "8 word"
type_synonym u16 = "16 word"
type_synonym u32 = "32 word"
type_synonym u64 = "64 word"
type_synonym u128 = "128 word"
type_synonym u256 = "256 word"
type_synonym u512 = "512 word"
type_synonym bytes = "u8 list"

named_theorems codec_simps \<open>reading back what was written, for each serialisable type\<close>
named_theorems view_simps \<open>effect of a ledger operation on the typed views of the tables\<close>

section \<open>Big-endian byte encoding of a number\<close>

fun be_bytes :: "nat \<Rightarrow> nat \<Rightarrow> bytes" where
  "be_bytes 0 k = []"
| "be_bytes (Suc n) k = be_bytes n (k div 256) @ [of_nat (k mod 256)]"

definition be_val :: "bytes \<Rightarrow> nat" where
  "be_val bs = foldl (\<lambda>acc b. acc * 256 + unat b) 0 bs"

lemma be_val_Nil [simp]: "be_val [] = 0"
  by (simp add: be_val_def)

lemma be_val_snoc [simp]: "be_val (bs @ [b]) = be_val bs * 256 + unat b"
  by (simp add: be_val_def)

lemma length_be_bytes [simp]: "length (be_bytes n k) = n"
  by (induction n arbitrary: k) auto

lemma unat_u8_less: "unat (b :: u8) < 256"
  using unsigned_less [of b] by simp

lemma be_val_bound: "be_val bs < 256 ^ length bs"
proof (induction bs rule: rev_induct)
  case Nil
  then show ?case by simp
next
  case (snoc b bs)
  have "be_val bs * 256 + unat b < be_val bs * 256 + 256"
    using unat_u8_less [of b] by simp
  also have "\<dots> \<le> 256 ^ length bs * 256"
    using snoc.IH by (simp add: algebra_simps)
  finally show ?case by simp
qed

lemma be_val_be_bytes: "be_val (be_bytes n k) = k mod 256 ^ n"
proof (induction n arbitrary: k)
  case 0
  then show ?case by simp
next
  case (Suc n)
  have "unat (of_nat (k mod 256) :: u8) = k mod 256"
    by (simp add: unat_of_nat)
  then show ?case
    using Suc.IH [of "k div 256"] by (simp add: mod_mult2_eq mult.commute)
qed

lemma be_bytes_be_val: "be_bytes (length bs) (be_val bs) = bs"
proof (induction bs rule: rev_induct)
  case Nil
  then show ?case by simp
next
  case (snoc b bs)
  have "(be_val bs * 256 + unat b) div 256 = be_val bs"
    using unat_u8_less [of b] by simp
  moreover have "(be_val bs * 256 + unat b) mod 256 = unat b"
    using unat_u8_less [of b] by simp
  ultimately show ?case
    using snoc.IH by simp
qed

section \<open>Codecs\<close>

locale codec =
  fixes enc :: "'a \<Rightarrow> bytes"
    and dec :: "bytes \<Rightarrow> ('a \<times> bytes) option"
    and wf :: "'a \<Rightarrow> bool"
  assumes dec_enc: "wf x \<Longrightarrow> dec (enc x @ rest) = Some (x, rest)"
begin

lemma dec_enc_all: "wf x \<Longrightarrow> dec (enc x) = Some (x, [])"
  using dec_enc [of x "[]"] by simp

lemma enc_prefix_free:
  assumes "wf x" "wf y" "enc x @ r = enc y @ s"
  shows "x = y \<and> r = s"
proof -
  have "Some (x, r) = Some (y, s)"
    unfolding dec_enc [OF assms(1), of r, symmetric] dec_enc [OF assms(2), of s, symmetric]
      assms(3) ..
  then show ?thesis by simp
qed

lemma enc_inject: "wf x \<Longrightarrow> wf y \<Longrightarrow> enc x = enc y \<longleftrightarrow> x = y"
  using enc_prefix_free [of x y "[]" "[]"] by auto

end

locale fixed_codec = codec +
  fixes width :: nat
  assumes enc_width: "wf x \<Longrightarrow> length (enc x) = width"
begin

lemma enc_append_inject:
  assumes "wf x" "wf y"
  shows "enc x @ r = enc y @ s \<longleftrightarrow> x = y \<and> r = s"
  using enc_prefix_free [OF assms] by auto

lemma take_enc: "wf x \<Longrightarrow> take width (enc x @ rest) = enc x"
  by (simp add: enc_width)

lemma drop_enc: "wf x \<Longrightarrow> drop width (enc x @ rest) = rest"
  by (simp add: enc_width)

end

section \<open>Numbers of type word read as naturals\<close>

lemma unat_sub_word: "(b :: 'a::len word) \<le> a \<Longrightarrow> unat (a - b) = unat a - unat b"
  by (simp add: unat_sub)

lemma unat_diff_less: "(a :: 'a::len word) < b \<Longrightarrow> unat (b - a) + unat a = unat b"
  by (simp add: unat_sub less_imp_le word_le_nat_alt [symmetric])

lemma unat_add_word:
  "unat (a :: 'a::len word) + unat b < 2 ^ LENGTH('a) \<Longrightarrow> unat (a + b) = unat a + unat b"
  by (simp add: unat_word_ariths)

lemma unat_mult_word:
  "unat (a :: 'a::len word) * unat b < 2 ^ LENGTH('a) \<Longrightarrow> unat (a * b) = unat a * unat b"
  by (simp add: unat_word_ariths)

lemma unat_less: "unat (a :: 'a::len word) < 2 ^ LENGTH('a)"
  by (rule unsigned_less)

lemma unat_ucast_up:
  "LENGTH('a) \<le> LENGTH('b) \<Longrightarrow> unat (ucast (a :: 'a::len word) :: 'b::len word) = unat a"
  by (simp add: unsigned_ucast_eq take_bit_nat_eq_self order_less_le_trans [OF unat_less])

lemma unat_ucast_down:
  "unat (a :: 'a::len word) < 2 ^ LENGTH('b) \<Longrightarrow> unat (ucast a :: 'b::len word) = unat a"
  by (simp add: unsigned_ucast_eq take_bit_nat_eq_self)

lemma word_eq_iff_unat: "(a :: 'a::len word) = b \<longleftrightarrow> unat a = unat b"
  using word_unat_eq_iff by blast

section \<open>Sums over a finite type\<close>

text \<open>Changing a map at one key changes a sum over all keys by the difference at that key.\<close>

lemma sum_fun_upd:
  fixes f :: "'b \<Rightarrow> nat" and m :: "'a::finite \<Rightarrow> 'b"
  shows "(\<Sum>a\<in>UNIV. f ((m(k := x)) a)) + f (m k) = (\<Sum>a\<in>UNIV. f (m a)) + f x"
proof -
  have "(\<Sum>a\<in>UNIV. f (g a)) = f (g k) + (\<Sum>a\<in>UNIV - {k}. f (g a))" for g :: "'a \<Rightarrow> 'b"
    by (rule sum.remove) simp_all
  from this [of m] this [of "m(k := x)"] show ?thesis
    by simp
qed

lemma sum_le_UNIV: "f a \<le> (\<Sum>a\<in>UNIV. (f :: 'a::finite \<Rightarrow> nat) a)"
  by (rule member_le_sum) simp_all

end
