(* ===== verification/Containers.thy ===== *)
theory Containers
  imports Prelude
begin

text \<open>
  The \<open>boost::multi_index_container\<close> as the node uses it: elements with a unique hash, ordered by a
  key that need not be unique. Equal keys keep their order of insertion, as
  \<open>ordered_non_unique\<close> does. The locale \<open>bounded_container\<close> is what the gap caches and the block
  queue promise their clients: whatever is inserted, the size stays within the limit.
\<close>

section \<open>Ordered elements with a unique hash\<close>

definition mi_find :: "('a \<Rightarrow> 'h) \<Rightarrow> 'h \<Rightarrow> 'a list \<Rightarrow> 'a option" where
  "mi_find hash h xs = find (\<lambda>y. hash y = h) xs"

definition mi_place :: "('a \<Rightarrow> 'k::linorder) \<Rightarrow> 'a \<Rightarrow> 'a list \<Rightarrow> 'a list" where
  "mi_place key x xs = takeWhile (\<lambda>y. key y \<le> key x) xs @ x # dropWhile (\<lambda>y. key y \<le> key x) xs"

definition mi_insert :: "('a \<Rightarrow> 'k::linorder) \<Rightarrow> ('a \<Rightarrow> 'h) \<Rightarrow> 'a \<Rightarrow> 'a list \<Rightarrow> bool \<times> 'a list" where
  "mi_insert key hash x xs =
     (case mi_find hash (hash x) xs of
        Some _ \<Rightarrow> (False, xs)
      | None \<Rightarrow> (True, mi_place key x xs))"

definition mi_erase :: "('a \<Rightarrow> 'h) \<Rightarrow> 'h \<Rightarrow> 'a list \<Rightarrow> 'a list" where
  "mi_erase hash h xs = filter (\<lambda>y. hash y \<noteq> h) xs"

definition mi_ok :: "('a \<Rightarrow> 'k::linorder) \<Rightarrow> ('a \<Rightarrow> 'h) \<Rightarrow> 'a list \<Rightarrow> bool" where
  "mi_ok key hash xs \<longleftrightarrow> sorted (map key xs) \<and> distinct (map hash xs)"

lemma mi_find_None: "mi_find hash h xs = None \<longleftrightarrow> h \<notin> hash ` set xs"
  by (auto simp: mi_find_def find_None_iff)

lemma mi_find_mem: "mi_find hash h xs = Some x \<Longrightarrow> x \<in> set xs \<and> hash x = h"
  by (induction xs) (auto simp: mi_find_def split: if_splits)

lemma mi_find_Some:
  assumes "distinct (map hash xs)"
  shows "mi_find hash h xs = Some x \<longleftrightarrow> x \<in> set xs \<and> hash x = h"
  using assms unfolding mi_find_def
  by (induction xs) (auto simp: image_iff)

lemma mi_place_Nil [simp]: "mi_place key x [] = [x]"
  by (simp add: mi_place_def)

lemma mi_place_Cons [simp]:
  "mi_place key x (y # ys) = (if key y \<le> key x then y # mi_place key x ys else x # y # ys)"
  by (simp add: mi_place_def)

lemma set_mi_place [simp]: "set (mi_place key x xs) = insert x (set xs)"
  by (induction xs) auto

lemma length_mi_place [simp]: "length (mi_place key x xs) = Suc (length xs)"
  by (induction xs) auto

lemma sorted_mi_place: "sorted (map key xs) \<Longrightarrow> sorted (map key (mi_place key x xs))"
  by (induction xs) (auto intro: order.trans less_imp_le)

lemma distinct_mi_place:
  "distinct (map hash xs) \<Longrightarrow> hash x \<notin> hash ` set xs \<Longrightarrow> distinct (map hash (mi_place key x xs))"
  by (induction xs) auto

lemma mi_insert_ok:
  assumes "mi_ok key hash xs" "mi_insert key hash x xs = (r, ys)"
  shows "mi_ok key hash ys" "length ys = length xs + (if r then 1 else 0)"
    "set ys = (if r then insert x (set xs) else set xs)" "r \<longleftrightarrow> hash x \<notin> hash ` set xs"
  using assms sorted_mi_place [of key xs x] distinct_mi_place [of hash xs x key]
  by (auto simp: mi_insert_def mi_ok_def mi_find_None split: option.splits)
    (metis mi_find_None option.distinct(1) rev_image_eqI)+

lemma sorted_filter_map: "sorted (map key xs) \<Longrightarrow> sorted (map key (filter P xs))"
  by (induction xs) auto

lemma mi_erase_ok:
  assumes "mi_ok key hash xs"
  shows "mi_ok key hash (mi_erase hash h xs)" "set (mi_erase hash h xs) = {x \<in> set xs. hash x \<noteq> h}"
    "length (mi_erase hash h xs) \<le> length xs"
  using assms by (auto simp: mi_ok_def mi_erase_def sorted_filter_map distinct_map_filter)

section \<open>Bounded containers\<close>

locale bounded_container =
  fixes put :: "'a \<Rightarrow> 'c \<Rightarrow> 'c"
    and elems :: "'c \<Rightarrow> 'a set"
    and size_of :: "'c \<Rightarrow> nat"
    and good :: "'c \<Rightarrow> bool"
    and limit :: nat
  assumes put_good: "good c \<Longrightarrow> good (put x c)"
    and good_size: "good c \<Longrightarrow> size_of c \<le> limit"
    and put_elems: "good c \<Longrightarrow> elems (put x c) \<subseteq> insert x (elems c)"
begin

text \<open>Any number of insertions, in any order: the bound holds and nothing is invented.\<close>

lemma fold_good: "good c \<Longrightarrow> good (fold put xs c)"
  by (induction xs arbitrary: c) (simp_all add: put_good)

lemma fold_bounded: "good c \<Longrightarrow> size_of (fold put xs c) \<le> limit"
  by (rule good_size [OF fold_good])

lemma fold_elems: "good c \<Longrightarrow> elems (fold put xs c) \<subseteq> set xs \<union> elems c"
proof (induction xs arbitrary: c)
  case (Cons x xs)
  from Cons.IH [OF put_good [OF Cons.prems]] put_elems [OF Cons.prems] show ?case by fastforce
qed simp

end

end
