(* ===== verification/Streams.thy ===== *)
theory Streams
  imports Prelude
begin

text \<open>
  The stream layer of \<open>rai/common/util.hpp\<close> and \<open>rai/common/util.cpp\<close>: big-endian readers
  and writers for unsigned integers, enums and byte arrays, the vector and bool readers,
  and the calendar helpers that the block rules use. A stream is the list of bytes not yet
  read; a reader returns \<open>None\<close> where the source returns \<open>true\<close> (error).

  An unsigned integer is written most significant byte first. The unions \<open>uint128_union\<close>,
  \<open>uint256_union\<close> and \<open>uint512_union\<close> of \<open>rai/common/numbers.hpp\<close> keep their bytes in that
  order and \<open>Number()\<close> reads them so; they are modelled by words, and their \<open>.bytes\<close> array is
  the same big-endian encoding.
\<close>

section \<open>Readers and writers\<close>

definition sgetn :: "nat \<Rightarrow> bytes \<Rightarrow> (bytes \<times> bytes) option" where
  "sgetn n s = (if length s < n then None else Some (take n s, drop n s))"

definition Write :: "'a::len word \<Rightarrow> bytes" where
  "Write v = be_bytes (LENGTH('a) div 8) (unat v)"

definition Read :: "bytes \<Rightarrow> ('a::len word \<times> bytes) option" where
  "Read s = (case sgetn (LENGTH('a) div 8) s of
     None \<Rightarrow> None
   | Some (bs, s') \<Rightarrow> Some (of_nat (be_val bs), s'))"

text \<open>\<open>Read(stream, size, data)\<close>: \<open>size\<close> single bytes, each pushed back onto \<open>data\<close>.\<close>

fun Read_vector :: "nat \<Rightarrow> bytes \<Rightarrow> bytes \<Rightarrow> (bytes \<times> bytes) option" where
  "Read_vector 0 data s = Some (data, s)"
| "Read_vector (Suc n) data s = (case s of
     [] \<Rightarrow> None
   | b # s' \<Rightarrow> Read_vector n (data @ [b]) s')"

text \<open>\<open>Write(stream, size, data)\<close>: at most \<open>n = size\<close> bytes of \<open>data\<close>, one at a time.\<close>

definition Write_vector :: "nat \<Rightarrow> bytes \<Rightarrow> bytes" where
  "Write_vector n data = concat (map (\<lambda>b. Write b) (take n data))"

definition Write_bool :: "bool \<Rightarrow> bytes" where
  "Write_bool v = [if v then 1 else 0]"

definition Read_bool :: "bytes \<Rightarrow> (bool \<times> bytes) option" where
  "Read_bool s = (case sgetn 1 s of
     None \<Rightarrow> None
   | Some (bs, s') \<Rightarrow>
       (if hd bs = 0 then Some (False, s')
        else if hd bs = 1 then Some (True, s')
        else None))"

definition StreamEnd :: "bytes \<Rightarrow> bool" where
  "StreamEnd s \<longleftrightarrow> s = []"

section \<open>Calendar helpers\<close>

definition SameDay :: "u64 \<Rightarrow> u64 \<Rightarrow> bool" where
  "SameDay t1 t2 \<longleftrightarrow> t1 div 86400 = t2 div 86400"

definition DayBegin :: "u64 \<Rightarrow> u64" where
  "DayBegin ts = ts - ts mod 86400"

definition DayEnd :: "u64 \<Rightarrow> u64" where
  "DayEnd ts = ts - ts mod 86400 + 86400"

section \<open>Reading undoes writing\<close>

lemma length_Write [simp]: "length (Write (v :: 'a::len word)) = LENGTH('a) div 8"
  by (simp add: Write_def)

lemma pow_256: "8 dvd n \<Longrightarrow> 256 ^ (n div 8) = (2::nat) ^ n"
proof -
  assume "8 dvd n"
  then obtain m where "n = 8 * m" ..
  then show ?thesis by (simp add: power_mult)
qed

lemma Read_Write:
  assumes "8 dvd LENGTH('a)"
  shows "Read (Write (v :: 'a::len word) @ rest) = Some (v, rest)"
proof -
  have "be_val (Write v) = unat v"
    unfolding Write_def be_val_be_bytes pow_256 [OF assms]
    using unsigned_less [of v] by simp
  then show ?thesis
    by (simp add: Read_def sgetn_def)
qed

lemma Read_length:
  "Read s = Some ((v :: 'a::len word), rest) \<Longrightarrow> length s = LENGTH('a) div 8 + length rest"
  by (auto simp: Read_def sgetn_def split: if_splits)

lemma Write_Read:
  assumes "8 dvd LENGTH('a)" "Read s = Some ((v :: 'a::len word), rest)"
  shows "s = Write v @ rest"
proof -
  let ?n = "LENGTH('a) div 8"
  from assms(2) have n: "?n \<le> length s" and v: "v = of_nat (be_val (take ?n s))"
    and rest: "rest = drop ?n s"
    by (auto simp: Read_def sgetn_def split: if_splits)
  have l: "length (take ?n s) = ?n"
    using n by simp
  have "be_val (take ?n s) < 2 ^ LENGTH('a)"
    using be_val_bound [of "take ?n s"] unfolding l pow_256 [OF assms(1)] .
  then have "unat v = be_val (take ?n s)"
    by (simp add: v unat_of_nat)
  then have "Write v = take ?n s"
    using be_bytes_be_val [of "take ?n s"] unfolding l Write_def by simp
  then show ?thesis
    by (simp add: rest)
qed

interpretation u8_codec: fixed_codec "Write :: u8 \<Rightarrow> bytes" Read "\<lambda>_. True" 1
  by unfold_locales (simp_all add: Read_Write)

interpretation u16_codec: fixed_codec "Write :: u16 \<Rightarrow> bytes" Read "\<lambda>_. True" 2
  by unfold_locales (simp_all add: Read_Write)

interpretation u32_codec: fixed_codec "Write :: u32 \<Rightarrow> bytes" Read "\<lambda>_. True" 4
  by unfold_locales (simp_all add: Read_Write)

interpretation u64_codec: fixed_codec "Write :: u64 \<Rightarrow> bytes" Read "\<lambda>_. True" 8
  by unfold_locales (simp_all add: Read_Write)

interpretation u128_codec: fixed_codec "Write :: u128 \<Rightarrow> bytes" Read "\<lambda>_. True" 16
  by unfold_locales (simp_all add: Read_Write)

interpretation u256_codec: fixed_codec "Write :: u256 \<Rightarrow> bytes" Read "\<lambda>_. True" 32
  by unfold_locales (simp_all add: Read_Write)

interpretation u512_codec: fixed_codec "Write :: u512 \<Rightarrow> bytes" Read "\<lambda>_. True" 64
  by unfold_locales (simp_all add: Read_Write)

lemmas Read_Write_widths [codec_simps] =
  u8_codec.dec_enc [OF TrueI] u16_codec.dec_enc [OF TrueI] u32_codec.dec_enc [OF TrueI]
  u64_codec.dec_enc [OF TrueI] u128_codec.dec_enc [OF TrueI] u256_codec.dec_enc [OF TrueI]
  u512_codec.dec_enc [OF TrueI]
  u8_codec.dec_enc_all [OF TrueI] u16_codec.dec_enc_all [OF TrueI]
  u32_codec.dec_enc_all [OF TrueI] u64_codec.dec_enc_all [OF TrueI]
  u128_codec.dec_enc_all [OF TrueI] u256_codec.dec_enc_all [OF TrueI]
  u512_codec.dec_enc_all [OF TrueI]

lemma Read_vector_append:
  "Read_vector (length bs) data (bs @ rest) = Some (data @ bs, rest)"
  by (induction bs arbitrary: data) auto

lemma Read_vector_exact [codec_simps]:
  "n = length bs \<Longrightarrow> Read_vector n [] (bs @ rest) = Some (bs, rest)"
  using Read_vector_append [of bs "[]" rest] by simp

lemma Read_vector_Some:
  "Read_vector n data s = Some (bs, rest) \<Longrightarrow>
   n \<le> length s \<and> bs = data @ take n s \<and> rest = drop n s"
  by (induction n data s rule: Read_vector.induct) (auto split: list.splits)

lemma Write_u8: "Write (b :: u8) = [b]"
proof -
  have "be_bytes (Suc 0) (unat b) = [b]"
    using unat_u8_less [of b] by simp
  then show ?thesis by (simp add: Write_def)
qed

lemma Write_vector_eq: "Write_vector n data = take n data"
proof -
  have "concat (map (\<lambda>b. Write b) bs) = (bs :: bytes)" for bs
    by (induction bs) (simp_all add: Write_u8)
  then show ?thesis by (simp add: Write_vector_def)
qed

lemma Read_bool_Write_bool [codec_simps]: "Read_bool (Write_bool v @ rest) = Some (v, rest)"
  by (simp add: Read_bool_def Write_bool_def sgetn_def)

interpretation bool_codec: fixed_codec Write_bool Read_bool "\<lambda>_. True" 1
  by unfold_locales (simp_all add: Read_bool_Write_bool, simp add: Write_bool_def)

section \<open>Days partition the time line\<close>

lemma SameDay_refl [simp]: "SameDay t t"
  by (simp add: SameDay_def)

lemma SameDay_sym: "SameDay s t \<longleftrightarrow> SameDay t s"
  by (auto simp: SameDay_def)

lemma SameDay_trans: "SameDay s t \<Longrightarrow> SameDay t u \<Longrightarrow> SameDay s u"
  by (simp add: SameDay_def)

lemma SameDay_between: "s \<le> t \<Longrightarrow> t \<le> u \<Longrightarrow> SameDay s u \<Longrightarrow> SameDay s t"
proof -
  assume "s \<le> t" "t \<le> u" "SameDay s u"
  then have "unat s div 86400 \<le> unat t div 86400" "unat t div 86400 \<le> unat u div 86400"
    and "unat s div 86400 = unat u div 86400"
    by (simp_all add: word_le_nat_alt div_le_mono SameDay_def word_eq_iff_unat unat_div)
  then show ?thesis
    by (simp add: SameDay_def word_eq_iff_unat unat_div)
qed

end
