(* ===== verification/Parameters.thy ===== *)
theory Parameters
  imports Streams
begin

text \<open>
  The economic and protocol parameters of \<open>rai/common/parameters.hpp\<close> and
  \<open>rai/common/parameters.cpp\<close>: the three networks, their epochs and genesis balances, the
  credit price and reward rate schedules, and the limits derived from an account's credit.
  The build selects the network (\<open>RAI_NETWORK\<close>), so the network is an argument here.
\<close>

section \<open>Networks and constants\<close>

datatype rai_networks = TEST | BETA | LIVE

definition Colin :: u128 where "Colin = 1"
definition uRAI :: u128 where "uRAI = 1000 * Colin"
definition mRAI :: u128 where "mRAI = 1000000 * Colin"
definition RAI :: u128 where "RAI = 1000000000 * Colin"

definition TEST_EPOCH_TIMESTAMP :: u64 where "TEST_EPOCH_TIMESTAMP = 1577836800"
definition TEST_GENESIS_BALANCE :: u128 where "TEST_GENESIS_BALANCE = 10000000"
definition BETA_EPOCH_TIMESTAMP :: u64 where "BETA_EPOCH_TIMESTAMP = 1585699200"
definition BETA_GENESIS_BALANCE :: u128 where "BETA_GENESIS_BALANCE = 10010000"
definition LIVE_EPOCH_TIMESTAMP :: u64 where "LIVE_EPOCH_TIMESTAMP = 1595894400"
definition LIVE_GENESIS_BALANCE :: u128 where "LIVE_GENESIS_BALANCE = 10010000"

definition MAX_TIMESTAMP_DIFF :: u64 where "MAX_TIMESTAMP_DIFF = 300"
definition MIN_CONFIRM_INTERVAL :: u64 where "MIN_CONFIRM_INTERVAL = 10"
definition TRANSACTIONS_PER_CREDIT :: u32 where "TRANSACTIONS_PER_CREDIT = 20"
definition EXTRA_FORKS_PER_CREDIT :: u64 where "EXTRA_FORKS_PER_CREDIT = 1"
definition MAX_ACCOUNT_CREDIT :: u16 where "MAX_ACCOUNT_CREDIT = 65535"
definition CONFIRM_WEIGHT_PERCENTAGE :: u32 where "CONFIRM_WEIGHT_PERCENTAGE = 80"
definition FORK_ELECTION_ROUNDS_THRESHOLD :: u32 where "FORK_ELECTION_ROUNDS_THRESHOLD = 5"
definition MAX_EXTENSIONS_SIZE :: nat where "MAX_EXTENSIONS_SIZE = 256"
definition BASE_ALLOWED_BINDINGS :: u64 where "BASE_ALLOWED_BINDINGS = 16"
definition EXTRA_BINDINGS_PER_CREDIT :: u64 where "EXTRA_BINDINGS_PER_CREDIT = 1"
definition CROSS_CHAIN_EPOCH_INTERVAL :: u32 where
  "CROSS_CHAIN_EPOCH_INTERVAL = 3 * 24 * 60 * 60"
definition QUALIFIED_REP_WEIGHT :: u128 where "QUALIFIED_REP_WEIGHT = 256 * RAI"

lemmas constant_defs =
  Colin_def uRAI_def mRAI_def RAI_def
  TEST_EPOCH_TIMESTAMP_def TEST_GENESIS_BALANCE_def BETA_EPOCH_TIMESTAMP_def
  BETA_GENESIS_BALANCE_def LIVE_EPOCH_TIMESTAMP_def LIVE_GENESIS_BALANCE_def
  MAX_TIMESTAMP_DIFF_def MIN_CONFIRM_INTERVAL_def TRANSACTIONS_PER_CREDIT_def
  EXTRA_FORKS_PER_CREDIT_def MAX_ACCOUNT_CREDIT_def CONFIRM_WEIGHT_PERCENTAGE_def
  FORK_ELECTION_ROUNDS_THRESHOLD_def MAX_EXTENSIONS_SIZE_def BASE_ALLOWED_BINDINGS_def
  EXTRA_BINDINGS_PER_CREDIT_def CROSS_CHAIN_EPOCH_INTERVAL_def QUALIFIED_REP_WEIGHT_def

fun NetworkString :: "rai_networks \<Rightarrow> string" where
  "NetworkString TEST = ''Test''"
| "NetworkString BETA = ''Beta''"
| "NetworkString LIVE = ''Live''"

fun EpochTimestamp :: "rai_networks \<Rightarrow> u64" where
  "EpochTimestamp TEST = TEST_EPOCH_TIMESTAMP"
| "EpochTimestamp BETA = BETA_EPOCH_TIMESTAMP"
| "EpochTimestamp LIVE = LIVE_EPOCH_TIMESTAMP"

fun GenesisBalance :: "rai_networks \<Rightarrow> u128" where
  "GenesisBalance TEST = TEST_GENESIS_BALANCE * RAI"
| "GenesisBalance BETA = BETA_GENESIS_BALANCE * RAI"
| "GenesisBalance LIVE = LIVE_GENESIS_BALANCE * RAI"

section \<open>Price and reward schedules\<close>

definition quarter :: u64 where
  "quarter = 90 * 24 * 60 * 60"

definition prices :: "u128 list" where
  "prices = [
     1000 * mRAI, 1000 * mRAI, 1000 * mRAI, 1000 * mRAI,
     900 * mRAI, 800 * mRAI, 700 * mRAI, 600 * mRAI,
     500 * mRAI, 500 * mRAI, 400 * mRAI, 400 * mRAI,
     300 * mRAI, 300 * mRAI, 200 * mRAI, 200 * mRAI,
     100 * mRAI, 100 * mRAI, 100 * mRAI, 100 * mRAI,
     90 * mRAI, 80 * mRAI, 70 * mRAI, 60 * mRAI,
     50 * mRAI, 50 * mRAI, 40 * mRAI, 40 * mRAI,
     30 * mRAI, 30 * mRAI, 20 * mRAI, 20 * mRAI,
     10 * mRAI, 10 * mRAI, 10 * mRAI, 10 * mRAI,
     9 * mRAI, 8 * mRAI, 7 * mRAI, 6 * mRAI,
     5 * mRAI, 5 * mRAI, 4 * mRAI, 4 * mRAI,
     3 * mRAI, 3 * mRAI, 2 * mRAI, 2 * mRAI]"

definition CreditPrice :: "rai_networks \<Rightarrow> u64 \<Rightarrow> u128" where
  "CreditPrice net timestamp =
     (if timestamp < EpochTimestamp net then 0
      else if timestamp \<ge> EpochTimestamp net + quarter * 48 then mRAI
      else prices ! unat ((timestamp - EpochTimestamp net) div quarter))"

definition rates :: "u128 list" where
  "rates = [
     7800 * uRAI, 4600 * uRAI, 3200 * uRAI, 2500 * uRAI,
     1500 * uRAI, 1500 * uRAI, 1200 * uRAI, 1200 * uRAI,
     620 * uRAI, 620 * uRAI, 620 * uRAI, 620 * uRAI,
     270 * uRAI, 270 * uRAI, 270 * uRAI, 270 * uRAI]"

definition RewardRate :: "rai_networks \<Rightarrow> u64 \<Rightarrow> u128" where
  "RewardRate net timestamp =
     (if timestamp < EpochTimestamp net then 0
      else if timestamp \<ge> EpochTimestamp net + quarter * 16 then 140 * uRAI
      else rates ! unat ((timestamp - EpochTimestamp net) div quarter))"

text \<open>The product is formed in 256 bits and the quotient is cut to 128 bits.\<close>

definition RewardAmount :: "rai_networks \<Rightarrow> u128 \<Rightarrow> u64 \<Rightarrow> u64 \<Rightarrow> u128" where
  "RewardAmount net balance begin end =
     (if begin > end \<or> begin < EpochTimestamp net then 0
      else let day_s = (24 * 60 * 60 :: u256);
               rai_s = (ucast RAI :: u256);
               rate_s = (ucast (RewardRate net end) :: u256);
               balance_s = (ucast balance :: u256);
               duration_s = (ucast (end - begin) :: u256);
               reward_s = balance_s * rate_s * duration_s div day_s div rai_s
           in ucast reward_s)"

definition RewardTimestamp :: "rai_networks \<Rightarrow> u64 \<Rightarrow> u64 \<Rightarrow> u64" where
  "RewardTimestamp net begin end =
     (if begin > end \<or> begin < EpochTimestamp net then 0
      else let result = begin + (end - begin + 1) div 2 + 24 * 60 * 60
           in if end > result then end else result)"

section \<open>Limits that grow with credit\<close>

definition BaseAllowedForks :: "rai_networks \<Rightarrow> u64 \<Rightarrow> u16" where
  "BaseAllowedForks net timestamp =
     (if timestamp < EpochTimestamp net then 4
      else let forks = (timestamp - EpochTimestamp net) div quarter + 4
           in if forks > 256 then 256 else ucast forks)"

definition MaxAllowedForks :: "rai_networks \<Rightarrow> u64 \<Rightarrow> u32 \<Rightarrow> u64" where
  "MaxAllowedForks net timestamp credit =
     ucast (BaseAllowedForks net timestamp) + ucast credit * EXTRA_FORKS_PER_CREDIT"

definition AllowedBindings :: "u32 \<Rightarrow> u64" where
  "AllowedBindings credit =
     BASE_ALLOWED_BINDINGS + ucast credit * EXTRA_BINDINGS_PER_CREDIT"

definition CrossChainEpoch :: "u64 \<Rightarrow> u32" where
  "CrossChainEpoch now = ucast (now div ucast CROSS_CHAIN_EPOCH_INTERVAL)"

definition CrossChainEpochTimestamp :: "u32 \<Rightarrow> u64" where
  "CrossChainEpochTimestamp epoch = ucast epoch * ucast CROSS_CHAIN_EPOCH_INTERVAL"

section \<open>Schedules that change quarterly\<close>

text \<open>
  \<open>CreditPrice\<close> and \<open>RewardRate\<close> have the same shape: nothing before the epoch, a table
  with one entry per quarter after it, and a final value for ever. The locale states that
  shape once; a descending table gives a schedule that never rises.
\<close>

lemma EpochTimestamp_bounds:
  "1577836800 \<le> unat (EpochTimestamp net)" "unat (EpochTimestamp net) \<le> 1595894400"
  by (cases net; simp add: constant_defs)+

lemma unat_quarter: "unat quarter = 7776000"
  by (simp add: quarter_def)

locale quarterly_schedule =
  fixes value_at :: "rai_networks \<Rightarrow> u64 \<Rightarrow> u128"
    and table :: "u128 list"
    and final_value :: u128
  assumes value_at_eq: "value_at net t =
     (if t < EpochTimestamp net then 0
      else if t \<ge> EpochTimestamp net + quarter * of_nat (length table) then final_value
      else table ! unat ((t - EpochTimestamp net) div quarter))"
    and descending: "sorted_wrt (\<lambda>x y. y \<le> x) (table @ [final_value])"
    and quarters: "length table \<le> 48"
begin

lemma value_at_index:
  assumes "EpochTimestamp net \<le> t"
  shows "value_at net t = (table @ [final_value]) !
           min (length table) ((unat t - unat (EpochTimestamp net)) div 7776000)"
proof -
  let ?e = "EpochTimestamp net" and ?n = "length table"
  have q: "unat (quarter * of_nat ?n) = 7776000 * ?n"
    using quarters by (simp add: unat_word_ariths unat_of_nat unat_quarter)
  have e: "unat (?e + quarter * of_nat ?n) = unat ?e + 7776000 * ?n"
    using quarters EpochTimestamp_bounds [of net] by (subst unat_add_word) (simp_all add: q)
  have idx: "unat ((t - ?e) div quarter) = (unat t - unat ?e) div 7776000"
    using assms by (simp add: unat_div unat_sub_word unat_quarter)
  have le: "?e + quarter * of_nat ?n \<le> t \<longleftrightarrow> ?n \<le> (unat t - unat ?e) div 7776000"
    using assms unfolding word_le_nat_alt e by (auto simp: less_eq_div_iff_mult_less_eq)
  show ?thesis
    using assms by (auto simp: value_at_eq le idx nth_append not_less min_def)
qed

lemma antitone:
  assumes "EpochTimestamp net \<le> s" "s \<le> t"
  shows "value_at net t \<le> value_at net s"
proof -
  let ?i = "\<lambda>t. min (length table) ((unat t - unat (EpochTimestamp net)) div 7776000)"
  have "?i s \<le> ?i t"
    using assms by (intro min.mono div_le_mono diff_le_mono) (simp_all add: word_le_nat_alt)
  moreover have "?i t < length (table @ [final_value])"
    by (simp add: min_def)
  ultimately have "(table @ [final_value]) ! ?i t \<le> (table @ [final_value]) ! ?i s"
    using descending sorted_wrt_nth_less by (metis le_neq_implies_less order_refl)
  then show ?thesis
    using assms by (simp add: value_at_index)
qed

lemma value_in_table:
  assumes "EpochTimestamp net \<le> t"
  shows "value_at net t \<in> set (table @ [final_value])"
  unfolding value_at_index [OF assms] by (rule nth_mem) (simp add: min_def)

lemma at_least_final:
  assumes "EpochTimestamp net \<le> t"
  shows "final_value \<le> value_at net t"
proof -
  have "\<forall>x\<in>set table. final_value \<le> x"
    using descending by (simp add: sorted_wrt_append)
  then show ?thesis
    using value_in_table [OF assms] by auto
qed

lemma at_most_first:
  assumes "EpochTimestamp net \<le> t"
  shows "value_at net t \<le> hd (table @ [final_value])"
proof -
  have "\<forall>x\<in>set (table @ [final_value]). x \<le> hd (table @ [final_value])"
    using descending by (cases table) auto
  then show ?thesis
    using value_in_table [OF assms] by blast
qed

lemma zero_before_epoch: "t < EpochTimestamp net \<Longrightarrow> value_at net t = 0"
  by (simp add: value_at_eq)

end

interpretation credit_price: quarterly_schedule CreditPrice prices mRAI
  by unfold_locales (simp_all add: CreditPrice_def prices_def constant_defs)

interpretation reward_rate: quarterly_schedule RewardRate rates "140 * uRAI"
  by unfold_locales (simp_all add: RewardRate_def rates_def constant_defs)

lemma CreditPrice_bounds:
  assumes "EpochTimestamp net \<le> t"
  shows "1000000 \<le> unat (CreditPrice net t)" "unat (CreditPrice net t) \<le> 1000000000"
  using credit_price.at_least_final [OF assms] credit_price.at_most_first [OF assms]
  by (simp_all add: word_le_nat_alt prices_def constant_defs)

lemma CreditPrice_le: "unat (CreditPrice net t) \<le> 1000000000"
proof (cases "t < EpochTimestamp net")
  case True
  then show ?thesis by (simp add: credit_price.zero_before_epoch)
next
  case False
  then show ?thesis using CreditPrice_bounds(2) [of net t] by simp
qed

lemma RewardRate_le: "unat (RewardRate net t) \<le> 7800000"
proof (cases "t < EpochTimestamp net")
  case True
  then show ?thesis by (simp add: reward_rate.zero_before_epoch)
next
  case False
  then show ?thesis
    using reward_rate.at_most_first [of net t]
    by (simp add: word_le_nat_alt word_less_nat_alt rates_def constant_defs)
qed

section \<open>Rewards\<close>

lemma RewardAmount_zero:
  "end < begin \<or> begin < EpochTimestamp net \<Longrightarrow> RewardAmount net balance begin end = 0"
  by (auto simp: RewardAmount_def)

lemma RewardAmount_nat:
  assumes "begin \<le> end" "EpochTimestamp net \<le> begin"
  shows "unat (RewardAmount net balance begin end) =
     (unat balance * unat (RewardRate net end) * (unat end - unat begin) div 86400 div 1000000000)
       mod 2 ^ 128"
proof -
  let ?b = "unat balance" and ?r = "unat (RewardRate net end)" and ?d = "unat end - unat begin"
  have d: "unat (end - begin) = ?d"
    using assms by (simp add: unat_sub_word)
  have b: "?b < 2 ^ 128" and dd: "?d < 2 ^ 64"
    using unat_less [of balance] unat_less [of "end"] by simp_all
  have r: "?r \<le> 2 ^ 23"
    using RewardRate_le [of net "end"] by simp
  have "?b * ?r \<le> 2 ^ 128 * 2 ^ 23"
    using b r by (intro mult_mono) simp_all
  then have br: "?b * ?r \<le> 2 ^ 151" by simp
  then have "?b * ?r * ?d \<le> 2 ^ 151 * 2 ^ 64"
    using dd by (intro mult_mono) simp_all
  then have brd: "?b * ?r * ?d < 2 ^ 256" by simp
  have "unat (ucast balance * ucast (RewardRate net end) * ucast (end - begin) :: u256) =
      ?b * ?r * ?d"
    using br brd by (simp add: unat_word_ariths unat_ucast_up d)
  then show ?thesis
    using assms
    by (simp add: RewardAmount_def Let_def unat_div unsigned_ucast_eq take_bit_eq_mod constant_defs
        not_less)
qed

lemma RewardAmount_le:
  assumes "unat balance * unat (RewardRate net end) * (unat end - unat begin) \<le> bound"
  shows "unat (RewardAmount net balance begin end) \<le> bound div 86400 div 1000000000"
proof (cases "end < begin \<or> begin < EpochTimestamp net")
  case True
  then show ?thesis by (simp add: RewardAmount_zero)
next
  case False
  have "unat (RewardAmount net balance begin end) \<le>
     unat balance * unat (RewardRate net end) * (unat end - unat begin) div 86400 div 1000000000"
    using False by (simp add: RewardAmount_nat not_less)
  also have "\<dots> \<le> bound div 86400 div 1000000000"
    using assms by (intro div_le_mono)
  finally show ?thesis .
qed

lemma RewardTimestamp_zero:
  "end < begin \<or> begin < EpochTimestamp net \<Longrightarrow> RewardTimestamp net begin end = 0"
  by (auto simp: RewardTimestamp_def)

lemma RewardTimestamp_nat:
  assumes "begin \<le> end" "EpochTimestamp net \<le> begin" "unat end < 2 ^ 63"
  shows "unat (RewardTimestamp net begin end) =
     max (unat end) (unat begin + (unat end - unat begin + 1) div 2 + 86400)"
proof -
  have d: "unat (end - begin + 1) = unat end - unat begin + 1"
    using assms by (simp add: unat_word_ariths unat_sub_word)
  have h: "unat ((end - begin + 1) div 2) = (unat end - unat begin + 1) div 2"
    by (simp add: unat_div d)
  have le: "unat begin \<le> unat end"
    using assms(1) by (simp add: word_le_nat_alt)
  have hb: "(unat end - unat begin + 1) div 2 \<le> unat end - unat begin + 1"
    by simp
  have s: "unat (begin + (end - begin + 1) div 2 + 86400) =
      unat begin + (unat end - unat begin + 1) div 2 + 86400"
  proof -
    have "unat (begin + (end - begin + 1) div 2) =
        unat begin + (unat end - unat begin + 1) div 2"
      using assms(3) le hb by (subst unat_add_word) (simp_all only: h, simp)
    then show ?thesis
      using assms(3) le hb by (subst unat_add_word) simp_all
  qed
  show ?thesis
    using assms(1,2) s by (auto simp: RewardTimestamp_def Let_def word_less_nat_alt word_le_nat_alt)
qed

lemma RewardTimestamp_pos:
  assumes "begin \<le> end" "EpochTimestamp net \<le> begin" "unat end < 2 ^ 63"
  shows "RewardTimestamp net begin end \<noteq> 0"
  using RewardTimestamp_nat [OF assms] by (auto simp: word_eq_iff_unat)

section \<open>Limits\<close>

lemma BaseAllowedForks_bounds:
  "4 \<le> unat (BaseAllowedForks net t)" "unat (BaseAllowedForks net t) \<le> 256"
proof -
  let ?f = "(t - EpochTimestamp net) div quarter + 4"
  have q: "unat ((t - EpochTimestamp net) div quarter) < 2 ^ 62"
    using unat_less [of "t - EpochTimestamp net"]
    by (simp add: unat_div unat_quarter div_less_iff_less_mult)
  then have f: "unat ?f = unat ((t - EpochTimestamp net) div quarter) + 4"
    by (simp add: unat_word_ariths)
  have u: "unat (ucast ?f :: u16) = unat ?f" if "\<not> ?f > 256"
    using that by (intro unat_ucast_down) (simp add: word_less_nat_alt)
  show "4 \<le> unat (BaseAllowedForks net t)" "unat (BaseAllowedForks net t) \<le> 256"
    by (auto simp: BaseAllowedForks_def Let_def u f word_less_nat_alt)
qed

lemma MaxAllowedForks_nat:
  "unat (MaxAllowedForks net t credit) = unat (BaseAllowedForks net t) + unat credit"
proof -
  have c: "unat credit < 2 ^ 32"
    using unat_less [of credit] by simp
  have u: "unat (ucast (BaseAllowedForks net t) :: u64) = unat (BaseAllowedForks net t)"
    "unat (ucast credit :: u64) = unat credit"
    by (simp_all add: unat_ucast_up)
  then show ?thesis
    using c BaseAllowedForks_bounds(2) [of net t]
    by (simp add: MaxAllowedForks_def constant_defs unat_word_ariths)
qed

lemma AllowedBindings_nat: "unat (AllowedBindings credit) = 16 + unat credit"
proof -
  have c: "unat credit < 2 ^ 32"
    using unat_less [of credit] by simp
  have "unat (ucast credit :: u64) = unat credit"
    by (simp add: unat_ucast_up)
  then show ?thesis
    using c by (simp add: AllowedBindings_def constant_defs unat_word_ariths)
qed

lemma CrossChainEpoch_bracket:
  assumes "unat now < 259200 * 2 ^ 32"
  shows "unat (CrossChainEpochTimestamp (CrossChainEpoch now)) \<le> unat now"
    and "unat now < unat (CrossChainEpochTimestamp (CrossChainEpoch now)) + 259200"
proof -
  have i: "(ucast CROSS_CHAIN_EPOCH_INTERVAL :: u64) = 259200"
    by (simp add: constant_defs)
  have "unat now div 259200 < 2 ^ 32"
    using assms by (simp add: div_less_iff_less_mult)
  then have e: "unat (CrossChainEpoch now) = unat now div 259200"
    by (simp add: CrossChainEpoch_def i unsigned_ucast_eq unat_div take_bit_nat_eq_self)
  have u: "unat (ucast (CrossChainEpoch now) :: u64) = unat now div 259200"
    using e by (simp add: unat_ucast_up)
  have "unat now div 259200 * 259200 \<le> unat now" by simp
  moreover have "unat now < 2 ^ 64"
    using unat_less [of now] by simp
  ultimately have t: "unat (CrossChainEpochTimestamp (CrossChainEpoch now)) =
      unat now div 259200 * 259200"
    by (simp add: CrossChainEpochTimestamp_def i unat_word_ariths u)
  show "unat (CrossChainEpochTimestamp (CrossChainEpoch now)) \<le> unat now"
    and "unat now < unat (CrossChainEpochTimestamp (CrossChainEpoch now)) + 259200"
    using div_mult_mod_eq [of "unat now" 259200] mod_less_divisor [of 259200 "unat now"]
    unfolding t by linarith+
qed

end
