(* ===== verification/Errors.thy ===== *)
theory Errors
  imports Prelude
begin

text \<open>
  The result codes of \<open>rai/common/errors.hpp\<close> (enum class \<open>ErrorCode\<close>) that the modelled
  code returns, under the names of the source, and the two early-return macros that nearly
  every function of the program is written with.
\<close>

section \<open>Result codes\<close>

datatype (plugins only: code) error_code =
    SUCCESS
  | STREAM
  | BLOCK_TYPE
  | BLOCK_OPCODE
  | EXTENSIONS_LENGTH
  | SIGNATURE
  | BLOCK_CREDIT
  | BLOCK_COUNTER
  | BLOCK_TIMESTAMP
  | MDB_TXN_BEGIN
  | ACCOUNT_ACTION_CREDIT
  | ACCOUNT_ACTION_BALANCE
  | RECEIVABLE_AMOUNT
  | SEND_AMOUNT
  | BLOCK_CHAIN
  | BLOCK_PROCESS_SIGNATURE
  | BLOCK_PROCESS_EXISTS
  | BLOCK_PROCESS_GAP_PREVIOUS
  | BLOCK_PROCESS_GAP_RECEIVE_SOURCE
  | BLOCK_PROCESS_GAP_REWARD_SOURCE
  | BLOCK_PROCESS_PREVIOUS
  | BLOCK_PROCESS_OPCODE
  | BLOCK_PROCESS_CREDIT
  | BLOCK_PROCESS_COUNTER
  | BLOCK_PROCESS_TIMESTAMP
  | BLOCK_PROCESS_BALANCE
  | BLOCK_PROCESS_UNRECEIVABLE
  | BLOCK_PROCESS_UNREWARDABLE
  | BLOCK_PROCESS_PRUNED
  | BLOCK_PROCESS_FORK
  | BLOCK_PROCESS_TYPE_MISMATCH
  | BLOCK_PROCESS_REPRESENTATIVE
  | BLOCK_PROCESS_LINK
  | BLOCK_PROCESS_LEDGER_BLOCK_PUT
  | BLOCK_PROCESS_LEDGER_SUCCESSOR_SET
  | BLOCK_PROCESS_LEDGER_BLOCK_GET
  | BLOCK_PROCESS_TYPE_UNKNOWN
  | BLOCK_PROCESS_LEDGER_RECEIVABLE_INFO_PUT
  | BLOCK_PROCESS_LEDGER_RECEIVABLE_INFO_DEL
  | BLOCK_PROCESS_ACCOUNT_EXCEED_TRANSACTIONS
  | BLOCK_PROCESS_LEDGER_REWARDABLE_INFO_PUT
  | BLOCK_PROCESS_LEDGER_REWARDABLE_INFO_DEL
  | BLOCK_PROCESS_LEDGER_ACCOUNT_INFO_PUT
  | BLOCK_PROCESS_LEDGER_INCONSISTENT
  | BLOCK_PROCESS_LEDGER_BLOCK_DEL
  | BLOCK_PROCESS_LEDGER_ROLLBACK_BLOCK_PUT
  | BLOCK_PROCESS_LEDGER_ACCOUNT_INFO_DEL
  | BLOCK_PROCESS_CHAIN
  | BLOCK_PROCESS_BINDING_COUNT
  | BLOCK_PROCESS_LEDGER_BINDING_ENTRY_PUT
  | BLOCK_PROCESS_LEDGER_BINDING_COUNT_PUT
  | BLOCK_PROCESS_LEDGER_BINDING_ENTRY_DEL
  | BLOCK_PROCESS_LEDGER_BINDING_COUNT_DEL
  | BLOCK_PROCESS_CONFIRM_BLOCK_MISS
  | BLOCK_PROCESS_PREPEND_IGNORE
  | BLOCK_PROCESS_ROLLBACK_IGNORE
  | BLOCK_PROCESS_ROLLBACK_TAIL
  | BLOCK_PROCESS_ROLLBACK_NON_HEAD
  | BLOCK_PROCESS_ROLLBACK_NOT_EQUAL_TO_HEAD
  | BLOCK_PROCESS_ROLLBACK_REWARDED
  | BLOCK_PROCESS_ROLLBACK_RECEIVED
  | BLOCK_PROCESS_ROLLBACK_SOURCE_PRUNED
  | BLOCK_PROCESS_CONTINUE
  | BLOCK_PROCESS_WAIT
  | BLOCK_PROCESS_UNKNOWN_OPERATION

section \<open>Early returns\<close>

text \<open>
  \<open>IF_ERROR_RETURN (error, st) code k\<close> runs \<open>k\<close> on the new state unless the call reported
  an error, in which case the enclosing function returns \<open>code\<close>;
  \<open>IF_NOT_SUCCESS_RETURN\<close> passes a callee's own code on. Both keep the state reached so
  far: what has been written before an early return stays written until the transaction is
  aborted.
\<close>

definition IF_ERROR_RETURN ::
  "bool \<times> 's \<Rightarrow> error_code \<Rightarrow> ('s \<Rightarrow> error_code \<times> 's) \<Rightarrow> error_code \<times> 's" where
  "IF_ERROR_RETURN r code k = (case r of (error, st) \<Rightarrow> if error then (code, st) else k st)"

definition IF_NOT_SUCCESS_RETURN ::
  "error_code \<times> 's \<Rightarrow> ('s \<Rightarrow> error_code \<times> 's) \<Rightarrow> error_code \<times> 's" where
  "IF_NOT_SUCCESS_RETURN r k = (case r of (code, st) \<Rightarrow> if code \<noteq> SUCCESS then (code, st) else k st)"

text \<open>The same macro around a check that changes no state.\<close>

definition CHECK_RETURN ::
  "error_code \<Rightarrow> 's \<Rightarrow> ('s \<Rightarrow> error_code \<times> 's) \<Rightarrow> error_code \<times> 's" where
  "CHECK_RETURN code st k = (if code \<noteq> SUCCESS then (code, st) else k st)"

text \<open>A reader that may fail: \<open>None\<close> is the error flag of the call.\<close>

definition IF_NONE_RETURN ::
  "'a option \<Rightarrow> error_code \<Rightarrow> 's \<Rightarrow> ('a \<Rightarrow> error_code \<times> 's) \<Rightarrow> error_code \<times> 's" where
  "IF_NONE_RETURN r code st k = (case r of None \<Rightarrow> (code, st) | Some x \<Rightarrow> k x)"

lemma IF_ERROR_RETURN_eq_success:
  "code \<noteq> SUCCESS \<Longrightarrow>
   IF_ERROR_RETURN r code k = (SUCCESS, s') \<longleftrightarrow> (\<exists>s. r = (False, s) \<and> k s = (SUCCESS, s'))"
  by (auto simp: IF_ERROR_RETURN_def split: prod.splits if_splits)

lemma IF_NOT_SUCCESS_RETURN_eq_success:
  "IF_NOT_SUCCESS_RETURN r k = (SUCCESS, s') \<longleftrightarrow> (\<exists>s. r = (SUCCESS, s) \<and> k s = (SUCCESS, s'))"
  by (auto simp: IF_NOT_SUCCESS_RETURN_def split: prod.splits if_splits)

lemma CHECK_RETURN_eq_success:
  "CHECK_RETURN code st k = (SUCCESS, s') \<longleftrightarrow> code = SUCCESS \<and> k st = (SUCCESS, s')"
  by (auto simp: CHECK_RETURN_def)

lemma IF_NONE_RETURN_eq_success:
  "code \<noteq> SUCCESS \<Longrightarrow>
   IF_NONE_RETURN r code st k = (SUCCESS, s') \<longleftrightarrow> (\<exists>x. r = Some x \<and> k x = (SUCCESS, s'))"
  by (auto simp: IF_NONE_RETURN_def split: option.splits)

lemma if_return_eq_success:
  "code \<noteq> SUCCESS \<Longrightarrow>
   (if c then (code, st) else r) = (SUCCESS, s') \<longleftrightarrow> \<not> c \<and> r = (SUCCESS, s')"
  by auto

lemmas success_simps =
  IF_ERROR_RETURN_eq_success IF_NOT_SUCCESS_RETURN_eq_success CHECK_RETURN_eq_success
  IF_NONE_RETURN_eq_success if_return_eq_success

end
