(* ===== verification/Blocks.thy ===== *)
theory Blocks
  imports Parameters Errors
begin

text \<open>
  The block lattice's unit of data, \<open>rai/common/blocks.hpp\<close> and \<open>rai/common/blocks.cpp\<close>: the
  three block classes (transaction, representative, airdrop), their binary serialisation and
  parsing, equality, hashing, the visitor dispatch on the opcode, and the two block builders
  that wallets and representatives use.

  The class hierarchy is a record of the fields every block has, extended per class, and the
  datatype \<open>block\<close> over the three. The hash and signature caches of the base class are memo
  fields and are not part of the model: \<open>Hash\<close> and \<open>CheckSignature\<close> recompute. The JSON form
  of a block is not modelled here. BLAKE2b and Ed25519 (vendored libraries) are fields of
  the environment record.
\<close>

section \<open>Environment\<close>

record env =
  RAI_NETWORK :: rai_networks
  CurrentTimestamp :: u64
  blake2b :: "bytes \<Rightarrow> u256"
  ValidateMessage :: "u256 \<Rightarrow> u256 \<Rightarrow> u512 \<Rightarrow> bool"
  SignMessage :: "u256 \<Rightarrow> u256 \<Rightarrow> u256 \<Rightarrow> u512"

section \<open>Block types and opcodes\<close>

text \<open>
  Both enums have an 8-bit underlying type and are read by a cast, so a variable of the type
  can hold a value with no enumerator; the last constructor stands for those.
\<close>

datatype block_type = TYPE_INVALID | TX_BLOCK | REP_BLOCK | AD_BLOCK | TYPE_OTHER u8

datatype block_opcode =
  OPCODE_INVALID | SEND | RECEIVE | CHANGE | CREDIT | REWARD | DESTROY | BIND | OPCODE_OTHER u8

definition block_type_of :: "u8 \<Rightarrow> block_type" where
  "block_type_of v =
     (if v = 0 then TYPE_INVALID else if v = 1 then TX_BLOCK else if v = 2 then REP_BLOCK
      else if v = 3 then AD_BLOCK else TYPE_OTHER v)"

fun of_block_type :: "block_type \<Rightarrow> u8" where
  "of_block_type TYPE_INVALID = 0"
| "of_block_type TX_BLOCK = 1"
| "of_block_type REP_BLOCK = 2"
| "of_block_type AD_BLOCK = 3"
| "of_block_type (TYPE_OTHER v) = v"

definition block_opcode_of :: "u8 \<Rightarrow> block_opcode" where
  "block_opcode_of v =
     (if v = 0 then OPCODE_INVALID else if v = 1 then SEND else if v = 2 then RECEIVE
      else if v = 3 then CHANGE else if v = 4 then CREDIT else if v = 5 then REWARD
      else if v = 6 then DESTROY else if v = 7 then BIND else OPCODE_OTHER v)"

fun of_block_opcode :: "block_opcode \<Rightarrow> u8" where
  "of_block_opcode OPCODE_INVALID = 0"
| "of_block_opcode SEND = 1"
| "of_block_opcode RECEIVE = 2"
| "of_block_opcode CHANGE = 3"
| "of_block_opcode CREDIT = 4"
| "of_block_opcode REWARD = 5"
| "of_block_opcode DESTROY = 6"
| "of_block_opcode BIND = 7"
| "of_block_opcode (OPCODE_OTHER v) = v"

fun BlockTypeToString :: "block_type \<Rightarrow> string" where
  "BlockTypeToString TYPE_INVALID = ''invalid''"
| "BlockTypeToString TX_BLOCK = ''transaction''"
| "BlockTypeToString REP_BLOCK = ''representative''"
| "BlockTypeToString AD_BLOCK = ''airdrop''"
| "BlockTypeToString (TYPE_OTHER _) = ''unknow''"

definition StringToBlockType :: "string \<Rightarrow> block_type" where
  "StringToBlockType str =
     (if str = ''transaction'' then TX_BLOCK
      else if str = ''representative'' then REP_BLOCK
      else if str = ''airdrop'' then AD_BLOCK
      else TYPE_INVALID)"

text \<open>\<open>std::to_string\<close> on an unsigned value: its decimal digits.\<close>

fun to_string :: "nat \<Rightarrow> string" where
  "to_string n = (if n < 10 then [char_of (n + 48)] else to_string (n div 10) @ [char_of (n mod 10 + 48)])"

declare to_string.simps [simp del]

fun BlockOpcodeToString :: "block_opcode \<Rightarrow> string" where
  "BlockOpcodeToString OPCODE_INVALID = ''invalid''"
| "BlockOpcodeToString SEND = ''send''"
| "BlockOpcodeToString RECEIVE = ''receive''"
| "BlockOpcodeToString CHANGE = ''change''"
| "BlockOpcodeToString CREDIT = ''credit''"
| "BlockOpcodeToString REWARD = ''reward''"
| "BlockOpcodeToString DESTROY = ''destroy''"
| "BlockOpcodeToString BIND = ''bind''"
| "BlockOpcodeToString (OPCODE_OTHER v) = to_string (unat v)"

definition StringToBlockOpcode :: "string \<Rightarrow> block_opcode" where
  "StringToBlockOpcode str =
     (if str = ''send'' then SEND
      else if str = ''receive'' then RECEIVE
      else if str = ''change'' then CHANGE
      else if str = ''credit'' then CREDIT
      else if str = ''reward'' then REWARD
      else if str = ''destroy'' then DESTROY
      else if str = ''bind'' then BIND
      else OPCODE_INVALID)"

section \<open>Blocks\<close>

type_synonym chain = u32

definition Chain_INVALID :: chain where "Chain_INVALID = 0"

definition INVALID_HEIGHT :: u64 where "INVALID_HEIGHT = - 1"

record block_base =
  b_opcode :: block_opcode
  b_credit :: u16
  b_counter :: u32
  b_timestamp :: u64
  b_height :: u64
  b_account :: u256
  b_previous :: u256
  b_balance :: u128
  b_link :: u256
  b_signature :: u512

record tx_block = block_base +
  tx_representative :: u256
  b_extensions_length :: u32
  b_extensions :: bytes

record rep_block = block_base +
  b_chain :: chain

record ad_block = block_base +
  ad_representative :: u256

datatype block = TxBlock tx_block | RepBlock rep_block | AdBlock ad_block

text \<open>The virtual accessors of class \<open>Block\<close>.\<close>

fun Type :: "block \<Rightarrow> block_type" where
  "Type (TxBlock _) = TX_BLOCK" | "Type (RepBlock _) = REP_BLOCK" | "Type (AdBlock _) = AD_BLOCK"

fun Opcode :: "block \<Rightarrow> block_opcode" where
  "Opcode (TxBlock b) = b_opcode b" | "Opcode (RepBlock b) = b_opcode b" | "Opcode (AdBlock b) = b_opcode b"

fun Credit :: "block \<Rightarrow> u16" where
  "Credit (TxBlock b) = b_credit b" | "Credit (RepBlock b) = b_credit b" | "Credit (AdBlock b) = b_credit b"

fun Counter :: "block \<Rightarrow> u32" where
  "Counter (TxBlock b) = b_counter b" | "Counter (RepBlock b) = b_counter b" | "Counter (AdBlock b) = b_counter b"

fun Timestamp :: "block \<Rightarrow> u64" where
  "Timestamp (TxBlock b) = b_timestamp b" | "Timestamp (RepBlock b) = b_timestamp b"
| "Timestamp (AdBlock b) = b_timestamp b"

fun Height :: "block \<Rightarrow> u64" where
  "Height (TxBlock b) = b_height b" | "Height (RepBlock b) = b_height b" | "Height (AdBlock b) = b_height b"

fun Account :: "block \<Rightarrow> u256" where
  "Account (TxBlock b) = b_account b" | "Account (RepBlock b) = b_account b" | "Account (AdBlock b) = b_account b"

fun Previous :: "block \<Rightarrow> u256" where
  "Previous (TxBlock b) = b_previous b" | "Previous (RepBlock b) = b_previous b"
| "Previous (AdBlock b) = b_previous b"

fun Balance :: "block \<Rightarrow> u128" where
  "Balance (TxBlock b) = b_balance b" | "Balance (RepBlock b) = b_balance b" | "Balance (AdBlock b) = b_balance b"

fun Link :: "block \<Rightarrow> u256" where
  "Link (TxBlock b) = b_link b" | "Link (RepBlock b) = b_link b" | "Link (AdBlock b) = b_link b"

fun Signature :: "block \<Rightarrow> u512" where
  "Signature (TxBlock b) = b_signature b" | "Signature (RepBlock b) = b_signature b"
| "Signature (AdBlock b) = b_signature b"

fun Representative :: "block \<Rightarrow> u256" where
  "Representative (TxBlock b) = tx_representative b"
| "Representative (RepBlock _) = 0"
| "Representative (AdBlock b) = ad_representative b"

fun HasRepresentative :: "block \<Rightarrow> bool" where
  "HasRepresentative (TxBlock _) = True"
| "HasRepresentative (RepBlock _) = False"
| "HasRepresentative (AdBlock _) = True"

fun Extensions :: "block \<Rightarrow> bytes" where
  "Extensions (TxBlock b) = b_extensions b" | "Extensions (RepBlock _) = []" | "Extensions (AdBlock _) = []"

definition RepBlock_HasChain :: "('a block_base_scheme) \<Rightarrow> bool" where
  "RepBlock_HasChain b \<longleftrightarrow> b_opcode b = BIND"

fun HasChain :: "block \<Rightarrow> bool" where
  "HasChain (TxBlock _) = False" | "HasChain (RepBlock b) = RepBlock_HasChain b"
| "HasChain (AdBlock _) = False"

fun Chain :: "block \<Rightarrow> chain" where
  "Chain (TxBlock _) = Chain_INVALID" | "Chain (RepBlock b) = b_chain b" | "Chain (AdBlock _) = Chain_INVALID"

definition TxBlock_CheckOpcode :: "block_opcode \<Rightarrow> bool" where
  "TxBlock_CheckOpcode opcode \<longleftrightarrow> opcode \<notin> set [SEND, RECEIVE, CHANGE, CREDIT]"

definition RepBlock_CheckOpcode :: "block_opcode \<Rightarrow> bool" where
  "RepBlock_CheckOpcode opcode \<longleftrightarrow> opcode \<notin> set [SEND, RECEIVE, REWARD, CREDIT, BIND]"

definition AdBlock_CheckOpcode :: "block_opcode \<Rightarrow> bool" where
  "AdBlock_CheckOpcode opcode \<longleftrightarrow> opcode \<notin> set [RECEIVE, CHANGE, DESTROY]"

definition MaxExtensionsLength :: u32 where
  "MaxExtensionsLength = of_nat MAX_EXTENSIONS_SIZE"

definition CheckExtensionsLength :: "u32 \<Rightarrow> bool" where
  "CheckExtensionsLength len \<longleftrightarrow> len > MaxExtensionsLength"

section \<open>Serialisation\<close>

text \<open>
  Each class writes its signed part twice in the source, once in \<open>Hash(state)\<close> and once in
  \<open>Serialize\<close>, field by field.
\<close>

definition TxBlock_Hash :: "tx_block \<Rightarrow> bytes" where
  "TxBlock_Hash b =
     Write (of_block_type TX_BLOCK) @ Write (of_block_opcode (b_opcode b)) @ Write (b_credit b) @
     Write (b_counter b) @ Write (b_timestamp b) @ Write (b_height b) @ Write (b_account b) @
     Write (b_previous b) @ Write (tx_representative b) @ Write (b_balance b) @ Write (b_link b) @
     Write (b_extensions_length b) @ b_extensions b"

definition TxBlock_Serialize :: "tx_block \<Rightarrow> bytes" where
  "TxBlock_Serialize b =
     Write (of_block_type TX_BLOCK) @ Write (of_block_opcode (b_opcode b)) @ Write (b_credit b) @
     Write (b_counter b) @ Write (b_timestamp b) @ Write (b_height b) @ Write (b_account b) @
     Write (b_previous b) @ Write (tx_representative b) @ Write (b_balance b) @ Write (b_link b) @
     Write (b_extensions_length b) @ b_extensions b @ Write (b_signature b)"

definition RepBlock_Hash :: "rep_block \<Rightarrow> bytes" where
  "RepBlock_Hash b =
     Write (of_block_type REP_BLOCK) @ Write (of_block_opcode (b_opcode b)) @ Write (b_credit b) @
     Write (b_counter b) @ Write (b_timestamp b) @ Write (b_height b) @ Write (b_account b) @
     Write (b_previous b) @ Write (b_balance b) @ Write (b_link b) @
     (if RepBlock_HasChain b then Write (b_chain b) else [])"

definition RepBlock_Serialize :: "rep_block \<Rightarrow> bytes" where
  "RepBlock_Serialize b =
     Write (of_block_type REP_BLOCK) @ Write (of_block_opcode (b_opcode b)) @ Write (b_credit b) @
     Write (b_counter b) @ Write (b_timestamp b) @ Write (b_height b) @ Write (b_account b) @
     Write (b_previous b) @ Write (b_balance b) @ Write (b_link b) @
     (if RepBlock_HasChain b then Write (b_chain b) else []) @ Write (b_signature b)"

definition AdBlock_Hash :: "ad_block \<Rightarrow> bytes" where
  "AdBlock_Hash b =
     Write (of_block_type AD_BLOCK) @ Write (of_block_opcode (b_opcode b)) @ Write (b_credit b) @
     Write (b_counter b) @ Write (b_timestamp b) @ Write (b_height b) @ Write (b_account b) @
     Write (b_previous b) @ Write (ad_representative b) @ Write (b_balance b) @ Write (b_link b)"

definition AdBlock_Serialize :: "ad_block \<Rightarrow> bytes" where
  "AdBlock_Serialize b =
     Write (of_block_type AD_BLOCK) @ Write (of_block_opcode (b_opcode b)) @ Write (b_credit b) @
     Write (b_counter b) @ Write (b_timestamp b) @ Write (b_height b) @ Write (b_account b) @
     Write (b_previous b) @ Write (ad_representative b) @ Write (b_balance b) @ Write (b_link b) @
     Write (b_signature b)"

fun HashInput :: "block \<Rightarrow> bytes" where
  "HashInput (TxBlock b) = TxBlock_Hash b"
| "HashInput (RepBlock b) = RepBlock_Hash b"
| "HashInput (AdBlock b) = AdBlock_Hash b"

fun Serialize :: "block \<Rightarrow> bytes" where
  "Serialize (TxBlock b) = TxBlock_Serialize b"
| "Serialize (RepBlock b) = RepBlock_Serialize b"
| "Serialize (AdBlock b) = AdBlock_Serialize b"

definition Hash :: "env \<Rightarrow> block \<Rightarrow> u256" where
  "Hash E b = blake2b E (HashInput b)"

definition CheckSignature :: "env \<Rightarrow> block \<Rightarrow> bool" where
  "CheckSignature E b = ValidateMessage E (Account b) (Hash E b) (Signature b)"

definition Size :: "block \<Rightarrow> nat" where
  "Size b = length (Serialize b)"

section \<open>Parsing\<close>

text \<open>\<open>READ\<close> is a read followed by \<open>IF_ERROR_RETURN\<close>; the continuation gets the value and the
  rest of the stream.\<close>

definition READ ::
  "('a \<times> bytes) option \<Rightarrow> error_code \<Rightarrow> ('a \<Rightarrow> bytes \<Rightarrow> error_code + 'b) \<Rightarrow> error_code + 'b" where
  "READ r code k = (case r of None \<Rightarrow> Inl code | Some (x, s) \<Rightarrow> k x s)"

definition TxBlock_Deserialize :: "bytes \<Rightarrow> error_code + tx_block \<times> bytes" where
  "TxBlock_Deserialize s =
     READ (Read s) STREAM (\<lambda>op s. let opcode = block_opcode_of op in
     if TxBlock_CheckOpcode opcode then Inl BLOCK_OPCODE else
     READ (Read s) STREAM (\<lambda>credit s.
     if credit = 0 then Inl BLOCK_CREDIT else
     READ (Read s) STREAM (\<lambda>counter s.
     if counter = 0 then Inl BLOCK_COUNTER else
     READ (Read s) STREAM (\<lambda>timestamp s.
     READ (Read s) STREAM (\<lambda>height s.
     READ (Read s) STREAM (\<lambda>account s.
     READ (Read s) STREAM (\<lambda>previous s.
     READ (Read s) STREAM (\<lambda>representative s.
     READ (Read s) STREAM (\<lambda>balance s.
     READ (Read s) STREAM (\<lambda>link s.
     READ (Read s) STREAM (\<lambda>extensions_length s.
     if CheckExtensionsLength extensions_length then Inl EXTENSIONS_LENGTH else
     READ (Read_vector (unat extensions_length) [] s) STREAM (\<lambda>extensions s.
     READ (Read s) STREAM (\<lambda>signature s.
     Inr (\<lparr>b_opcode = opcode, b_credit = credit, b_counter = counter, b_timestamp = timestamp,
           b_height = height, b_account = account, b_previous = previous, b_balance = balance,
           b_link = link, b_signature = signature, tx_representative = representative,
           b_extensions_length = extensions_length, b_extensions = extensions\<rparr>, s))))))))))))))"

definition RepBlock_Deserialize :: "bytes \<Rightarrow> error_code + rep_block \<times> bytes" where
  "RepBlock_Deserialize s =
     READ (Read s) STREAM (\<lambda>op s. let opcode = block_opcode_of op in
     if RepBlock_CheckOpcode opcode then Inl BLOCK_OPCODE else
     READ (Read s) STREAM (\<lambda>credit s.
     if credit = 0 then Inl BLOCK_CREDIT else
     READ (Read s) STREAM (\<lambda>counter s.
     READ (Read s) STREAM (\<lambda>timestamp s.
     READ (Read s) STREAM (\<lambda>height s.
     READ (Read s) STREAM (\<lambda>account s.
     READ (Read s) STREAM (\<lambda>previous s.
     READ (Read s) STREAM (\<lambda>balance s.
     READ (Read s) STREAM (\<lambda>link s.
     READ (if opcode = BIND then Read s else Some (Chain_INVALID, s)) STREAM (\<lambda>chain s.
     if opcode = BIND \<and> chain = Chain_INVALID then Inl BLOCK_CHAIN else
     READ (Read s) STREAM (\<lambda>signature s.
     Inr (\<lparr>b_opcode = opcode, b_credit = credit, b_counter = counter, b_timestamp = timestamp,
           b_height = height, b_account = account, b_previous = previous, b_balance = balance,
           b_link = link, b_signature = signature, b_chain = chain\<rparr>, s))))))))))))"

definition AdBlock_Deserialize :: "bytes \<Rightarrow> error_code + ad_block \<times> bytes" where
  "AdBlock_Deserialize s =
     READ (Read s) STREAM (\<lambda>op s. let opcode = block_opcode_of op in
     if AdBlock_CheckOpcode opcode then Inl BLOCK_OPCODE else
     READ (Read s) STREAM (\<lambda>credit s.
     if credit = 0 then Inl BLOCK_CREDIT else
     READ (Read s) STREAM (\<lambda>counter s.
     if counter = 0 then Inl BLOCK_COUNTER else
     READ (Read s) STREAM (\<lambda>timestamp s.
     READ (Read s) STREAM (\<lambda>height s.
     READ (Read s) STREAM (\<lambda>account s.
     READ (Read s) STREAM (\<lambda>previous s.
     READ (Read s) STREAM (\<lambda>representative s.
     READ (Read s) STREAM (\<lambda>balance s.
     READ (Read s) STREAM (\<lambda>link s.
     READ (Read s) STREAM (\<lambda>signature s.
     Inr (\<lparr>b_opcode = opcode, b_credit = credit, b_counter = counter, b_timestamp = timestamp,
           b_height = height, b_account = account, b_previous = previous, b_balance = balance,
           b_link = link, b_signature = signature, ad_representative = representative\<rparr>, s))))))))))))"

definition DeserializeBlockUnverify :: "bytes \<Rightarrow> error_code + block \<times> bytes" where
  "DeserializeBlockUnverify s =
     READ (Read s) STREAM (\<lambda>type s. case block_type_of type of
       TX_BLOCK \<Rightarrow> (case TxBlock_Deserialize s of Inl e \<Rightarrow> Inl e | Inr (b, s) \<Rightarrow> Inr (TxBlock b, s))
     | REP_BLOCK \<Rightarrow> (case RepBlock_Deserialize s of Inl e \<Rightarrow> Inl e | Inr (b, s) \<Rightarrow> Inr (RepBlock b, s))
     | AD_BLOCK \<Rightarrow> (case AdBlock_Deserialize s of Inl e \<Rightarrow> Inl e | Inr (b, s) \<Rightarrow> Inr (AdBlock b, s))
     | _ \<Rightarrow> Inl BLOCK_TYPE)"

definition DeserializeBlock :: "env \<Rightarrow> bytes \<Rightarrow> error_code + block \<times> bytes" where
  "DeserializeBlock E s = (case DeserializeBlockUnverify s of
       Inl e \<Rightarrow> Inl e
     | Inr (b, s) \<Rightarrow> if CheckSignature E b then Inl SIGNATURE else Inr (b, s))"

section \<open>Comparison and derived queries\<close>

fun TxBlock_eq :: "tx_block \<Rightarrow> tx_block \<Rightarrow> bool" where
  "TxBlock_eq a b \<longleftrightarrow>
     b_credit a = b_credit b \<and> b_counter a = b_counter b \<and> b_timestamp a = b_timestamp b \<and>
     b_height a = b_height b \<and> b_account a = b_account b \<and> b_previous a = b_previous b \<and>
     tx_representative a = tx_representative b \<and> b_balance a = b_balance b \<and> b_link a = b_link b \<and>
     b_extensions_length a = b_extensions_length b \<and> b_extensions a = b_extensions b \<and>
     b_signature a = b_signature b"

fun RepBlock_eq :: "rep_block \<Rightarrow> rep_block \<Rightarrow> bool" where
  "RepBlock_eq a b \<longleftrightarrow>
     b_credit a = b_credit b \<and> b_counter a = b_counter b \<and> b_timestamp a = b_timestamp b \<and>
     b_height a = b_height b \<and> b_account a = b_account b \<and> b_previous a = b_previous b \<and>
     b_balance a = b_balance b \<and> b_link a = b_link b \<and> b_chain a = b_chain b \<and>
     b_signature a = b_signature b"

fun AdBlock_eq :: "ad_block \<Rightarrow> ad_block \<Rightarrow> bool" where
  "AdBlock_eq a b \<longleftrightarrow>
     b_credit a = b_credit b \<and> b_counter a = b_counter b \<and> b_timestamp a = b_timestamp b \<and>
     b_height a = b_height b \<and> b_account a = b_account b \<and> b_previous a = b_previous b \<and>
     ad_representative a = ad_representative b \<and> b_balance a = b_balance b \<and>
     b_link a = b_link b \<and> b_signature a = b_signature b"

text \<open>\<open>operator==\<close> on the base class: \<open>BlocksEqual\<close> compares type and opcode before the cast.\<close>

fun BlocksEqual :: "block \<Rightarrow> block \<Rightarrow> bool" where
  "BlocksEqual (TxBlock a) (TxBlock b) \<longleftrightarrow> b_opcode a = b_opcode b \<and> TxBlock_eq b a"
| "BlocksEqual (RepBlock a) (RepBlock b) \<longleftrightarrow> b_opcode a = b_opcode b \<and> RepBlock_eq b a"
| "BlocksEqual (AdBlock a) (AdBlock b) \<longleftrightarrow> b_opcode a = b_opcode b \<and> AdBlock_eq b a"
| "BlocksEqual _ _ \<longleftrightarrow> False"

definition ForkWith :: "block \<Rightarrow> block \<Rightarrow> bool" where
  "ForkWith a b =
     (if Account a \<noteq> Account b then False
      else if Height a \<noteq> Height b then False
      else if BlocksEqual a b then False
      else True)"

definition Limited :: "env \<Rightarrow> block \<Rightarrow> bool" where
  "Limited E b \<longleftrightarrow> SameDay (Timestamp b) (CurrentTimestamp E) \<and>
     Counter b \<ge> ucast (Credit b) * TRANSACTIONS_PER_CREDIT"

text \<open>\<open>Amount\<close> of a first block: balance plus the credit it bought; \<open>None\<close> is the error flag.\<close>

definition Amount_first :: "env \<Rightarrow> block \<Rightarrow> u128 option" where
  "Amount_first E b =
     (if Height b \<noteq> 0 then None
      else let price_s = (ucast (CreditPrice (RAI_NETWORK E) (Timestamp b)) :: u256);
               cost_s = price_s * ucast (Credit b);
               amount_s = cost_s + ucast (Balance b)
           in if amount_s \<le> ucast (- 1 :: u128) then Some (ucast amount_s) else None)"

definition Amount_change :: "block \<Rightarrow> block \<Rightarrow> u128" where
  "Amount_change b previous =
     (if Balance previous > Balance b then Balance previous - Balance b
      else Balance b - Balance previous)"

section \<open>Visitors\<close>

record 'r block_visitor =
  visit_Send :: "block \<Rightarrow> 'r"
  visit_Receive :: "block \<Rightarrow> 'r"
  visit_Change :: "block \<Rightarrow> 'r"
  visit_Credit :: "block \<Rightarrow> 'r"
  visit_Reward :: "block \<Rightarrow> 'r"
  visit_Destroy :: "block \<Rightarrow> 'r"
  visit_Bind :: "block \<Rightarrow> 'r"

text \<open>The last argument is what \<open>BLOCK_OPCODE\<close> amounts to for the visitor's result type.\<close>

definition TxBlock_Visit :: "'r block_visitor \<Rightarrow> block \<Rightarrow> 'r \<Rightarrow> 'r" where
  "TxBlock_Visit v b bad =
     (if Opcode b = SEND then visit_Send v b
      else if Opcode b = RECEIVE then visit_Receive v b
      else if Opcode b = CHANGE then visit_Change v b
      else if Opcode b = CREDIT then visit_Credit v b
      else bad)"

definition RepBlock_Visit :: "'r block_visitor \<Rightarrow> block \<Rightarrow> 'r \<Rightarrow> 'r" where
  "RepBlock_Visit v b bad =
     (if Opcode b = SEND then visit_Send v b
      else if Opcode b = RECEIVE then visit_Receive v b
      else if Opcode b = CREDIT then visit_Credit v b
      else if Opcode b = REWARD then visit_Reward v b
      else if Opcode b = BIND then visit_Bind v b
      else bad)"

definition AdBlock_Visit :: "'r block_visitor \<Rightarrow> block \<Rightarrow> 'r \<Rightarrow> 'r" where
  "AdBlock_Visit v b bad =
     (if Opcode b = RECEIVE then visit_Receive v b
      else if Opcode b = CHANGE then visit_Change v b
      else if Opcode b = DESTROY then visit_Destroy v b
      else bad)"

fun Visit :: "'r block_visitor \<Rightarrow> block \<Rightarrow> 'r \<Rightarrow> 'r" where
  "Visit v (TxBlock b) bad = TxBlock_Visit v (TxBlock b) bad"
| "Visit v (RepBlock b) bad = RepBlock_Visit v (RepBlock b) bad"
| "Visit v (AdBlock b) bad = AdBlock_Visit v (AdBlock b) bad"

section \<open>Well-formed blocks\<close>

text \<open>What every parsed block satisfies.\<close>

fun block_wf :: "block \<Rightarrow> bool" where
  "block_wf (TxBlock b) \<longleftrightarrow> \<not> TxBlock_CheckOpcode (b_opcode b) \<and> b_credit b \<noteq> 0 \<and> b_counter b \<noteq> 0 \<and>
     \<not> CheckExtensionsLength (b_extensions_length b) \<and> length (b_extensions b) = unat (b_extensions_length b)"
| "block_wf (RepBlock b) \<longleftrightarrow> \<not> RepBlock_CheckOpcode (b_opcode b) \<and> b_credit b \<noteq> 0 \<and>
     (b_opcode b = BIND \<longleftrightarrow> b_chain b \<noteq> Chain_INVALID)"
| "block_wf (AdBlock b) \<longleftrightarrow> \<not> AdBlock_CheckOpcode (b_opcode b) \<and> b_credit b \<noteq> 0 \<and> b_counter b \<noteq> 0"

section \<open>Parsing undoes serialisation\<close>

lemma block_opcode_of_of: "(\<And>v. op \<noteq> OPCODE_OTHER v) \<Longrightarrow> block_opcode_of (of_block_opcode op) = op"
  by (cases op) (auto simp: block_opcode_of_def)

lemma block_opcode_of_of_wf:
  "\<not> TxBlock_CheckOpcode op \<Longrightarrow> block_opcode_of (of_block_opcode op) = op"
  "\<not> RepBlock_CheckOpcode op \<Longrightarrow> block_opcode_of (of_block_opcode op) = op"
  "\<not> AdBlock_CheckOpcode op \<Longrightarrow> block_opcode_of (of_block_opcode op) = op"
  by (auto simp: TxBlock_CheckOpcode_def RepBlock_CheckOpcode_def AdBlock_CheckOpcode_def
      intro!: block_opcode_of_of)

lemma of_block_opcode_of: "of_block_opcode (block_opcode_of v) = v"
  by (simp add: block_opcode_of_def)

lemma block_type_of_simps [simp]:
  "block_type_of 0 = TYPE_INVALID" "block_type_of 1 = TX_BLOCK" "block_type_of 2 = REP_BLOCK"
  "block_type_of 3 = AD_BLOCK"
  by (simp_all add: block_type_of_def)

lemma READ_Some [simp]: "READ (Some (x, s)) code k = k x s"
  by (simp add: READ_def)

lemma READ_None [simp]: "READ None code k = Inl code"
  by (simp add: READ_def)

lemma READ_Inr:
  "READ r code k = Inr y \<longleftrightarrow> (\<exists>x s. r = Some (x, s) \<and> k x s = Inr y)"
  by (auto simp: READ_def split: option.splits)

lemma TxBlock_Deserialize_tail:
  assumes "block_wf (TxBlock b)"
  shows "TxBlock_Deserialize (drop 1 (TxBlock_Serialize b) @ rest) = Inr (b, rest)"
  using assms
  by (cases b) (simp add: TxBlock_Serialize_def TxBlock_Deserialize_def codec_simps Let_def
      block_opcode_of_of_wf)

lemma RepBlock_Deserialize_tail:
  assumes "block_wf (RepBlock b)"
  shows "RepBlock_Deserialize (drop 1 (RepBlock_Serialize b) @ rest) = Inr (b, rest)"
  using assms
  by (cases b) (auto simp: RepBlock_Serialize_def RepBlock_Deserialize_def codec_simps Let_def
      block_opcode_of_of_wf RepBlock_HasChain_def Chain_INVALID_def)

lemma AdBlock_Deserialize_tail:
  assumes "block_wf (AdBlock b)"
  shows "AdBlock_Deserialize (drop 1 (AdBlock_Serialize b) @ rest) = Inr (b, rest)"
  using assms
  by (cases b) (simp add: AdBlock_Serialize_def AdBlock_Deserialize_def codec_simps Let_def
      block_opcode_of_of_wf)

lemma Serialize_head:
  "Serialize (TxBlock t) = Write (of_block_type TX_BLOCK) @ drop 1 (TxBlock_Serialize t)"
  "Serialize (RepBlock r) = Write (of_block_type REP_BLOCK) @ drop 1 (RepBlock_Serialize r)"
  "Serialize (AdBlock a) = Write (of_block_type AD_BLOCK) @ drop 1 (AdBlock_Serialize a)"
  by (simp_all add: TxBlock_Serialize_def RepBlock_Serialize_def AdBlock_Serialize_def)

lemma DeserializeBlockUnverify_Serialize:
  assumes "block_wf b"
  shows "DeserializeBlockUnverify (Serialize b @ rest) = Inr (b, rest)"
proof (cases b)
  case (TxBlock t)
  then show ?thesis
    using assms
    by (simp only: Serialize_head DeserializeBlockUnverify_def append_assoc codec_simps)
      (simp add: TxBlock_Deserialize_tail del: One_nat_def block_wf.simps)
next
  case (RepBlock r)
  then show ?thesis
    using assms
    by (simp only: Serialize_head DeserializeBlockUnverify_def append_assoc codec_simps)
      (simp add: RepBlock_Deserialize_tail del: One_nat_def block_wf.simps)
next
  case (AdBlock a)
  then show ?thesis
    using assms
    by (simp only: Serialize_head DeserializeBlockUnverify_def append_assoc codec_simps)
      (simp add: AdBlock_Deserialize_tail del: One_nat_def block_wf.simps)
qed

text \<open>The reader of a stored or received block, seen as a codec.\<close>

definition read_block :: "bytes \<Rightarrow> (block \<times> bytes) option" where
  "read_block s = (case DeserializeBlockUnverify s of Inl _ \<Rightarrow> None | Inr r \<Rightarrow> Some r)"

interpretation block_codec: codec Serialize read_block block_wf
  by unfold_locales (simp add: read_block_def DeserializeBlockUnverify_Serialize)

text \<open>The other direction: only a serialised well-formed block parses.\<close>

lemma Write_Read_widths:
  "Read s = Some ((v8 :: u8), rest) \<Longrightarrow> s = Write v8 @ rest"
  "Read s = Some ((v16 :: u16), rest) \<Longrightarrow> s = Write v16 @ rest"
  "Read s = Some ((v32 :: u32), rest) \<Longrightarrow> s = Write v32 @ rest"
  "Read s = Some ((v64 :: u64), rest) \<Longrightarrow> s = Write v64 @ rest"
  "Read s = Some ((v128 :: u128), rest) \<Longrightarrow> s = Write v128 @ rest"
  "Read s = Some ((v256 :: u256), rest) \<Longrightarrow> s = Write v256 @ rest"
  "Read s = Some ((v512 :: u512), rest) \<Longrightarrow> s = Write v512 @ rest"
  by (rule Write_Read; simp)+

lemma if_Inl_eq_Inr: "(if c then Inl e else r) = Inr y \<longleftrightarrow> \<not> c \<and> r = Inr y"
  by simp

lemma TxBlock_Deserialize_Inr:
  assumes "TxBlock_Deserialize s = Inr (b, rest)"
  shows "block_wf (TxBlock b) \<and> s = drop 1 (TxBlock_Serialize b) @ rest"
  using assms
  by (auto simp: TxBlock_Deserialize_def READ_Inr if_Inl_eq_Inr Let_def TxBlock_Serialize_def
      of_block_opcode_of dest!: Write_Read_widths dest: Read_vector_Some)

lemma block_opcode_of_eq: "block_opcode_of v = op \<Longrightarrow> v = of_block_opcode op"
  using of_block_opcode_of [of v] by simp

lemma RepBlock_Deserialize_Inr:
  assumes "RepBlock_Deserialize s = Inr (b, rest)"
  shows "block_wf (RepBlock b) \<and> s = drop 1 (RepBlock_Serialize b) @ rest"
  using assms
  by (auto simp: RepBlock_Deserialize_def READ_Inr if_Inl_eq_Inr Let_def RepBlock_Serialize_def
      of_block_opcode_of RepBlock_HasChain_def dest!: Write_Read_widths
      dest: block_opcode_of_eq split: if_splits)

lemma AdBlock_Deserialize_Inr:
  assumes "AdBlock_Deserialize s = Inr (b, rest)"
  shows "block_wf (AdBlock b) \<and> s = drop 1 (AdBlock_Serialize b) @ rest"
  using assms
  by (auto simp: AdBlock_Deserialize_def READ_Inr if_Inl_eq_Inr Let_def AdBlock_Serialize_def
      of_block_opcode_of dest!: Write_Read_widths)

lemma DeserializeBlockUnverify_Inr:
  assumes "DeserializeBlockUnverify s = Inr (b, rest)"
  shows "block_wf b \<and> s = Serialize b @ rest"
proof -
  obtain v :: u8 and s' where "Read s = Some (v, s')"
    using assms by (auto simp: DeserializeBlockUnverify_def READ_Inr)
  then have s: "s = Write v @ s'" by (rule Write_Read_widths)
  with assms have r: "DeserializeBlockUnverify (Write v @ s') = Inr (b, rest)" by simp
  consider "v = 1" | "v = 2" | "v = 3" | "v \<noteq> 1" "v \<noteq> 2" "v \<noteq> 3" by blast
  then have "block_wf b \<and> Write v @ s' = Serialize b @ rest"
  proof cases
    case 1
    with r show ?thesis
      by (auto simp: DeserializeBlockUnverify_def codec_simps Serialize_head
          simp del: One_nat_def block_wf.simps Serialize.simps
          split: sum.splits dest!: TxBlock_Deserialize_Inr)
  next
    case 2
    with r show ?thesis
      by (auto simp: DeserializeBlockUnverify_def codec_simps Serialize_head
          simp del: One_nat_def block_wf.simps Serialize.simps
          split: sum.splits dest!: RepBlock_Deserialize_Inr)
  next
    case 3
    with r show ?thesis
      by (auto simp: DeserializeBlockUnverify_def codec_simps Serialize_head
          simp del: One_nat_def block_wf.simps Serialize.simps
          split: sum.splits dest!: AdBlock_Deserialize_Inr)
  next
    case 4
    with r show ?thesis
      by (auto simp: DeserializeBlockUnverify_def codec_simps block_type_of_def split: if_splits)
  qed
  with s show ?thesis by simp
qed

section \<open>Equality, forks and amounts\<close>

lemma BlocksEqual_iff: "BlocksEqual a b \<longleftrightarrow> a = b"
  by (cases a; cases b) (auto intro: tx_block.equality rep_block.equality ad_block.equality)

lemma ForkWith_iff: "ForkWith a b \<longleftrightarrow> Account a = Account b \<and> Height a = Height b \<and> a \<noteq> b"
  by (simp add: ForkWith_def BlocksEqual_iff)

lemma Amount_change_nat:
  "unat (Amount_change b previous) =
     (unat (Balance b) - unat (Balance previous)) + (unat (Balance previous) - unat (Balance b))"
  by (auto simp: Amount_change_def unat_sub_word word_less_nat_alt word_le_nat_alt not_less)

lemma unat_price_credit:
  "unat (ucast (CreditPrice net t) * ucast (credit :: u16) :: u256) =
   unat (CreditPrice net t) * unat credit"
proof -
  have "unat (CreditPrice net t) * unat credit \<le> 1000000000 * 2 ^ 16"
    using CreditPrice_le [of net t] unat_less [of credit] by (intro mult_mono) simp_all
  then show ?thesis
    by (subst unat_mult_word) (simp_all add: unat_ucast_up)
qed

lemma Amount_first_nat:
  assumes "Height b = 0"
    "unat (CreditPrice (RAI_NETWORK E) (Timestamp b)) * unat (Credit b) + unat (Balance b) < 2 ^ 128"
  shows "\<exists>a. Amount_first E b = Some a \<and>
     unat a = unat (CreditPrice (RAI_NETWORK E) (Timestamp b)) * unat (Credit b) + unat (Balance b)"
proof -
  let ?cost = "ucast (CreditPrice (RAI_NETWORK E) (Timestamp b)) * ucast (Credit b) :: u256"
  let ?sum = "?cost + ucast (Balance b) :: u256"
  have s: "unat ?sum =
      unat (CreditPrice (RAI_NETWORK E) (Timestamp b)) * unat (Credit b) + unat (Balance b)"
    using assms(2) by (subst unat_add_word) (simp_all add: unat_price_credit unat_ucast_up)
  have "?sum \<le> ucast (- 1 :: u128)"
    unfolding word_le_nat_alt s using assms(2)
    by (simp add: unat_ucast_up unsigned_minus_1_eq_mask mask_eq_exp_minus_1)
  moreover have "unat (ucast ?sum :: u128) = unat ?sum"
    using assms(2) s by (intro unat_ucast_down) simp
  ultimately show ?thesis
    using assms(1) s by (simp add: Amount_first_def Let_def)
qed

end
