(* ===== verification/Builders.thy ===== *)
theory Builders
  imports Blocks
begin

text \<open>
  \<open>TxBlockBuilder\<close> and \<open>RepBlockBuilder\<close> of \<open>rai/common/blocks.cpp\<close>: the code with which a
  wallet or a representative makes the next block of its own chain. A builder keeps the last
  block it made (\<open>previous_\<close>); a successful call returns the new block and the builder that
  remembers it, a failing call leaves the builder as it was.
\<close>

section \<open>State\<close>

record tx_block_builder =
  tb_has_key :: bool
  tb_account :: u256
  tb_rep :: u256
  tb_private_key :: u256
  tb_previous :: "block option"

record rep_block_builder =
  rb_has_key :: bool
  rb_account :: u256
  rb_private_key :: u256
  rb_previous :: "block option"

section \<open>Constructors of signed and unsigned blocks\<close>

definition TxBlock_new ::
  "block_opcode \<Rightarrow> u16 \<Rightarrow> u32 \<Rightarrow> u64 \<Rightarrow> u64 \<Rightarrow> u256 \<Rightarrow> u256 \<Rightarrow> u256 \<Rightarrow> u128 \<Rightarrow> u256 \<Rightarrow> u32 \<Rightarrow>
   bytes \<Rightarrow> tx_block" where
  "TxBlock_new opcode credit counter timestamp height account previous representative balance link
     extensions_length extensions =
     \<lparr>b_opcode = opcode, b_credit = credit, b_counter = counter, b_timestamp = timestamp,
      b_height = height, b_account = account, b_previous = previous, b_balance = balance,
      b_link = link, b_signature = 0, tx_representative = representative,
      b_extensions_length = extensions_length, b_extensions = extensions\<rparr>"

definition TxBlock_signed :: "env \<Rightarrow> tx_block \<Rightarrow> u256 \<Rightarrow> u256 \<Rightarrow> tx_block" where
  "TxBlock_signed E b private_key public_key =
     b\<lparr>b_signature := SignMessage E private_key public_key (Hash E (TxBlock b))\<rparr>"

definition RepBlock_new ::
  "block_opcode \<Rightarrow> u16 \<Rightarrow> u32 \<Rightarrow> u64 \<Rightarrow> u64 \<Rightarrow> u256 \<Rightarrow> u256 \<Rightarrow> u128 \<Rightarrow> u256 \<Rightarrow> chain \<Rightarrow> rep_block" where
  "RepBlock_new opcode credit counter timestamp height account previous balance link chain =
     \<lparr>b_opcode = opcode, b_credit = credit, b_counter = counter, b_timestamp = timestamp,
      b_height = height, b_account = account, b_previous = previous, b_balance = balance,
      b_link = link, b_signature = 0, b_chain = chain\<rparr>"

definition RepBlock_signed :: "env \<Rightarrow> rep_block \<Rightarrow> u256 \<Rightarrow> u256 \<Rightarrow> rep_block" where
  "RepBlock_signed E b private_key public_key =
     b\<lparr>b_signature := SignMessage E private_key public_key (Hash E (RepBlock b))\<rparr>"

section \<open>TxBlockBuilder\<close>

text \<open>The end of each builder method: make the block, sign it if there is a key, remember it.\<close>

definition tb_finish ::
  "env \<Rightarrow> tx_block_builder \<Rightarrow> tx_block \<Rightarrow> error_code + block \<times> tx_block_builder" where
  "tb_finish E tb b =
     (let block = TxBlock (if tb_has_key tb
                           then TxBlock_signed E b (tb_private_key tb) (tb_account tb) else b)
      in Inr (block, tb\<lparr>tb_previous := Some block\<rparr>))"

definition TxBlockBuilder_Change ::
  "env \<Rightarrow> tx_block_builder \<Rightarrow> u256 \<Rightarrow> u64 \<Rightarrow> bytes \<Rightarrow> error_code + block \<times> tx_block_builder" where
  "TxBlockBuilder_Change E tb rep now extensions = (case tb_previous tb of
     None \<Rightarrow> Inl BLOCK_OPCODE
   | Some prev \<Rightarrow>
     if Type prev \<noteq> TX_BLOCK then Inl BLOCK_TYPE else
     if length extensions > MAX_EXTENSIONS_SIZE then Inl EXTENSIONS_LENGTH else
     let credit = Credit prev;
         timestamp = (if now > Timestamp prev then now else Timestamp prev) in
     if timestamp > now + 60 then Inl BLOCK_TIMESTAMP else
     let counter = (if SameDay timestamp (Timestamp prev) then Counter prev + 1 else 1) in
     if counter > ucast credit * TRANSACTIONS_PER_CREDIT then Inl ACCOUNT_ACTION_CREDIT else
     tb_finish E tb (TxBlock_new CHANGE credit counter timestamp (Height prev + 1) (tb_account tb)
       (Hash E prev) rep (Balance prev) 0 (of_nat (length extensions)) extensions))"

definition TxBlockBuilder_Receive ::
  "env \<Rightarrow> tx_block_builder \<Rightarrow> u256 \<Rightarrow> u128 \<Rightarrow> u64 \<Rightarrow> u64 \<Rightarrow> bytes \<Rightarrow>
   error_code + block \<times> tx_block_builder" where
  "TxBlockBuilder_Receive E tb source amount sent_at now extensions =
     (if length extensions > MAX_EXTENSIONS_SIZE then Inl EXTENSIONS_LENGTH else
      if amount = 0 then Inl RECEIVABLE_AMOUNT else
      case tb_previous tb of
        None \<Rightarrow>
          let timestamp = (if now \<ge> sent_at then now else sent_at) in
          if timestamp > now + 60 then Inl BLOCK_TIMESTAMP else
          if amount < CreditPrice (RAI_NETWORK E) timestamp then Inl RECEIVABLE_AMOUNT else
          tb_finish E tb (TxBlock_new RECEIVE 1 1 timestamp 0 (tb_account tb) 0 (tb_rep tb)
            (amount - CreditPrice (RAI_NETWORK E) timestamp) source
            (of_nat (length extensions)) extensions)
      | Some prev \<Rightarrow>
          if Type prev \<noteq> TX_BLOCK then Inl BLOCK_TYPE else
          let credit = Credit prev;
              timestamp = (if now > Timestamp prev then now else Timestamp prev);
              timestamp = (if timestamp < sent_at then sent_at else timestamp) in
          if timestamp > now + 60 then Inl BLOCK_TIMESTAMP else
          let counter = (if SameDay timestamp (Timestamp prev) then Counter prev + 1 else 1) in
          if counter > ucast credit * TRANSACTIONS_PER_CREDIT then Inl BLOCK_COUNTER else
          let balance = Balance prev + amount in
          if balance < amount then Inl RECEIVABLE_AMOUNT else
          tb_finish E tb (TxBlock_new RECEIVE credit counter timestamp (Height prev + 1)
            (tb_account tb) (Hash E prev) (Representative prev) balance source
            (of_nat (length extensions)) extensions))"

definition TxBlockBuilder_Send ::
  "env \<Rightarrow> tx_block_builder \<Rightarrow> u256 \<Rightarrow> u128 \<Rightarrow> u64 \<Rightarrow> bytes \<Rightarrow> error_code + block \<times> tx_block_builder" where
  "TxBlockBuilder_Send E tb destination amount now extensions = (case tb_previous tb of
     None \<Rightarrow> Inl BLOCK_OPCODE
   | Some prev \<Rightarrow>
     if Type prev \<noteq> TX_BLOCK then Inl BLOCK_TYPE else
     if amount = 0 then Inl SEND_AMOUNT else
     if length extensions > MAX_EXTENSIONS_SIZE then Inl EXTENSIONS_LENGTH else
     let credit = Credit prev;
         timestamp = (if now > Timestamp prev then now else Timestamp prev) in
     if timestamp > now + 60 then Inl BLOCK_TIMESTAMP else
     let counter = (if SameDay timestamp (Timestamp prev) then Counter prev + 1 else 1) in
     if counter > ucast credit * TRANSACTIONS_PER_CREDIT then Inl BLOCK_COUNTER else
     if Balance prev < amount then Inl SEND_AMOUNT else
     tb_finish E tb (TxBlock_new SEND credit counter timestamp (Height prev + 1) (tb_account tb)
       (Hash E prev) (Representative prev) (Balance prev - amount) destination
       (of_nat (length extensions)) extensions))"

section \<open>RepBlockBuilder\<close>

definition rb_finish ::
  "env \<Rightarrow> rep_block_builder \<Rightarrow> rep_block \<Rightarrow> error_code + block \<times> rep_block_builder" where
  "rb_finish E rb b =
     (let block = RepBlock (if rb_has_key rb
                            then RepBlock_signed E b (rb_private_key rb) (rb_account rb) else b)
      in Inr (block, rb\<lparr>rb_previous := Some block\<rparr>))"

definition RepBlockBuilder_Bind ::
  "env \<Rightarrow> rep_block_builder \<Rightarrow> chain \<Rightarrow> u256 \<Rightarrow> u64 \<Rightarrow> error_code + block \<times> rep_block_builder" where
  "RepBlockBuilder_Bind E rb chain signer now = (case rb_previous rb of
     None \<Rightarrow> Inl BLOCK_OPCODE
   | Some prev \<Rightarrow>
     if Type prev \<noteq> REP_BLOCK then Inl BLOCK_TYPE else
     let credit = Credit prev;
         timestamp = (if now > Timestamp prev then now else Timestamp prev) in
     if timestamp > now + 60 then Inl BLOCK_TIMESTAMP else
     let counter = (if SameDay timestamp (Timestamp prev) then Counter prev + 1 else 1) in
     if counter > ucast credit * TRANSACTIONS_PER_CREDIT then Inl BLOCK_COUNTER else
     rb_finish E rb (RepBlock_new BIND credit counter timestamp (Height prev + 1) (rb_account rb)
       (Hash E prev) (Balance prev) signer chain))"

definition RepBlockBuilder_Credit ::
  "env \<Rightarrow> rep_block_builder \<Rightarrow> u16 \<Rightarrow> u64 \<Rightarrow> error_code + block \<times> rep_block_builder" where
  "RepBlockBuilder_Credit E rb credit_inc now = (case rb_previous rb of
     None \<Rightarrow> Inl BLOCK_OPCODE
   | Some prev \<Rightarrow>
     if Type prev \<noteq> REP_BLOCK then Inl BLOCK_TYPE else
     let credit = Credit prev + credit_inc in
     if credit \<le> Credit prev then Inl BLOCK_CREDIT else
     let timestamp = (if now > Timestamp prev then now else Timestamp prev) in
     if timestamp > now + 60 then Inl BLOCK_TIMESTAMP else
     let counter = (if SameDay timestamp (Timestamp prev) then Counter prev + 1 else 1) in
     if counter > ucast credit * TRANSACTIONS_PER_CREDIT then Inl BLOCK_COUNTER else
     let cost = CreditPrice (RAI_NETWORK E) timestamp * ucast credit_inc in
     if cost > Balance prev then Inl ACCOUNT_ACTION_BALANCE else
     rb_finish E rb (RepBlock_new CREDIT credit counter timestamp (Height prev + 1) (rb_account rb)
       (Hash E prev) (Balance prev - cost) 0 Chain_INVALID))"

definition RepBlockBuilder_Receive ::
  "env \<Rightarrow> rep_block_builder \<Rightarrow> u256 \<Rightarrow> u128 \<Rightarrow> u64 \<Rightarrow> u64 \<Rightarrow> error_code + block \<times> rep_block_builder" where
  "RepBlockBuilder_Receive E rb source amount sent_at now =
     (if amount = 0 then Inl RECEIVABLE_AMOUNT else
      case rb_previous rb of
        None \<Rightarrow>
          let timestamp = (if now \<ge> sent_at then now else sent_at) in
          if timestamp > now + 60 then Inl BLOCK_TIMESTAMP else
          if amount < CreditPrice (RAI_NETWORK E) timestamp then Inl RECEIVABLE_AMOUNT else
          rb_finish E rb (RepBlock_new RECEIVE 1 1 timestamp 0 (rb_account rb) 0
            (amount - CreditPrice (RAI_NETWORK E) timestamp) source Chain_INVALID)
      | Some prev \<Rightarrow>
          if Type prev \<noteq> REP_BLOCK then Inl BLOCK_TYPE else
          let credit = Credit prev;
              timestamp = (if now > Timestamp prev then now else Timestamp prev);
              timestamp = (if timestamp < sent_at then sent_at else timestamp) in
          if timestamp > now + 60 then Inl BLOCK_TIMESTAMP else
          let counter = (if SameDay timestamp (Timestamp prev) then Counter prev + 1 else 1) in
          if counter > ucast credit * TRANSACTIONS_PER_CREDIT then Inl BLOCK_COUNTER else
          let balance = Balance prev + amount in
          if balance < amount then Inl RECEIVABLE_AMOUNT else
          rb_finish E rb (RepBlock_new RECEIVE credit counter timestamp (Height prev + 1)
            (rb_account rb) (Hash E prev) balance source Chain_INVALID))"

section \<open>What a built block satisfies\<close>

text \<open>A block made on top of \<open>prev\<close> at time \<open>now\<close>: the chain fields, the clock and the daily
  counter the way the ledger will check them.\<close>

definition next_block :: "env \<Rightarrow> u64 \<Rightarrow> u256 \<Rightarrow> block \<Rightarrow> block \<Rightarrow> bool" where
  "next_block E now account prev b \<longleftrightarrow>
     Type b = Type prev \<and> Account b = account \<and> Previous b = Hash E prev \<and>
     Height b = Height prev + 1 \<and>
     now \<le> Timestamp b \<and> Timestamp prev \<le> Timestamp b \<and> Timestamp b \<le> now + 60 \<and>
     Counter b = (if SameDay (Timestamp b) (Timestamp prev) then Counter prev + 1 else 1) \<and>
     Counter b \<le> ucast (Credit b) * TRANSACTIONS_PER_CREDIT"

definition signed_by :: "env \<Rightarrow> bool \<Rightarrow> u256 \<Rightarrow> u256 \<Rightarrow> block \<Rightarrow> bool" where
  "signed_by E has_key private_key account b \<longleftrightarrow>
     (if has_key then Signature b = SignMessage E private_key account (Hash E b)
      else Signature b = 0)"

lemma tb_finish_fields:
  assumes "tb_finish E tb (TxBlock_new op credit counter ts h acc prev rep bal lnk len ext) = Inr (b, tb')"
  shows "tb' = tb\<lparr>tb_previous := Some b\<rparr> \<and>
    signed_by E (tb_has_key tb) (tb_private_key tb) (tb_account tb) b \<and>
    Type b = TX_BLOCK \<and> Opcode b = op \<and> Credit b = credit \<and> Counter b = counter \<and>
    Timestamp b = ts \<and> Height b = h \<and> Account b = acc \<and> Previous b = prev \<and>
    Representative b = rep \<and> Balance b = bal \<and> Link b = lnk \<and> Extensions b = ext \<and>
    (\<not> TxBlock_CheckOpcode op \<and> credit \<noteq> 0 \<and> counter \<noteq> 0 \<and> \<not> CheckExtensionsLength len \<and>
       length ext = unat len \<longrightarrow> block_wf b)"
  using assms
  by (auto simp: tb_finish_def signed_by_def TxBlock_signed_def Hash_def Let_def TxBlock_new_def TxBlock_Hash_def
      split: if_splits)

lemma rb_finish_fields:
  assumes "rb_finish E rb (RepBlock_new op credit counter ts h acc prev bal lnk chn) = Inr (b, rb')"
  shows "rb' = rb\<lparr>rb_previous := Some b\<rparr> \<and>
    signed_by E (rb_has_key rb) (rb_private_key rb) (rb_account rb) b \<and>
    Type b = REP_BLOCK \<and> Opcode b = op \<and> Credit b = credit \<and> Counter b = counter \<and>
    Timestamp b = ts \<and> Height b = h \<and> Account b = acc \<and> Previous b = prev \<and>
    Balance b = bal \<and> Link b = lnk \<and> Chain b = chn \<and>
    (\<not> RepBlock_CheckOpcode op \<and> credit \<noteq> 0 \<and> (op = BIND \<longleftrightarrow> chn \<noteq> Chain_INVALID) \<longrightarrow> block_wf b)"
  using assms
  by (auto simp: rb_finish_def signed_by_def RepBlock_signed_def Hash_def Let_def RepBlock_new_def RepBlock_Hash_def
      RepBlock_HasChain_def
      split: if_splits)

text \<open>The clock of a new block: not before the caller's time, the previous block or the send.\<close>

lemma clock_bounds [simp]:
  fixes now t s :: u64
  shows "now \<le> (if now > t then now else t)" "t \<le> (if now > t then now else t)"
    "now \<le> (if (if now > t then now else t) < s then s else (if now > t then now else t))"
    "t \<le> (if (if now > t then now else t) < s then s else (if now > t then now else t))"
    "s \<le> (if (if now > t then now else t) < s then s else (if now > t then now else t))"
  by auto

lemma extensions_length_ok:
  assumes "length ext \<le> MAX_EXTENSIONS_SIZE"
  shows "\<not> CheckExtensionsLength (of_nat (length ext))" "unat (of_nat (length ext) :: u32) = length ext"
  using assms
  by (auto simp: CheckExtensionsLength_def MaxExtensionsLength_def MAX_EXTENSIONS_SIZE_def
      unat_of_nat word_less_nat_alt)

lemma counter_wraps [simp]: "c + 1 = (0 :: u32) \<longleftrightarrow> c = - 1"
  by (simp add: add_eq_0_iff2)

lemma first_clock_bounds [simp]:
  fixes now s :: u64
  shows "now \<le> (if s \<le> now then now else s)" "s \<le> (if s \<le> now then now else s)"
  by auto

lemmas built_simps = next_block_def Let_def if_Inl_eq_Inr not_less extensions_length_ok
  TxBlock_CheckOpcode_def RepBlock_CheckOpcode_def

text \<open>The tail all successful calls share.\<close>

definition tx_built :: "env \<Rightarrow> tx_block_builder \<Rightarrow> block \<Rightarrow> tx_block_builder \<Rightarrow> bool" where
  "tx_built E tb b tb' \<longleftrightarrow> tb' = tb\<lparr>tb_previous := Some b\<rparr> \<and> Account b = tb_account tb \<and>
     signed_by E (tb_has_key tb) (tb_private_key tb) (tb_account tb) b \<and>
     (\<forall>prev. tb_previous tb = Some prev \<longrightarrow> Credit prev \<noteq> 0 \<and> Counter prev \<noteq> - 1 \<longrightarrow> block_wf b) \<and>
     (tb_previous tb = None \<longrightarrow> block_wf b)"

definition rep_built :: "env \<Rightarrow> rep_block_builder \<Rightarrow> block \<Rightarrow> rep_block_builder \<Rightarrow> bool" where
  "rep_built E rb b rb' \<longleftrightarrow> rb' = rb\<lparr>rb_previous := Some b\<rparr> \<and> Account b = rb_account rb \<and>
     signed_by E (rb_has_key rb) (rb_private_key rb) (rb_account rb) b \<and>
     (\<forall>prev. rb_previous rb = Some prev \<longrightarrow> Credit prev \<noteq> 0 \<longrightarrow> block_wf b) \<and>
     (rb_previous rb = None \<longrightarrow> block_wf b)"

lemma TxBlockBuilder_Send_Inr:
  assumes "TxBlockBuilder_Send E tb destination amount now extensions = Inr (b, tb')"
  shows "\<exists>prev. tb_previous tb = Some prev \<and> Type prev = TX_BLOCK \<and>
    next_block E now (tb_account tb) prev b \<and> Opcode b = SEND \<and> Credit b = Credit prev \<and>
    Representative b = Representative prev \<and> Link b = destination \<and> Extensions b = extensions \<and>
    amount \<noteq> 0 \<and> amount \<le> Balance prev \<and> Balance b = Balance prev - amount \<and>
    tx_built E tb b tb'"
proof (cases "tb_previous tb")
  case (Some prev)
  with assms show ?thesis
    by (auto simp: TxBlockBuilder_Send_def built_simps tx_built_def dest!: tb_finish_fields)
qed (use assms in \<open>simp add: TxBlockBuilder_Send_def\<close>)

lemma TxBlockBuilder_Change_Inr:
  assumes "TxBlockBuilder_Change E tb rep now extensions = Inr (b, tb')"
  shows "\<exists>prev. tb_previous tb = Some prev \<and> Type prev = TX_BLOCK \<and>
    next_block E now (tb_account tb) prev b \<and> Opcode b = CHANGE \<and> Credit b = Credit prev \<and>
    Representative b = rep \<and> Link b = 0 \<and> Extensions b = extensions \<and> Balance b = Balance prev \<and>
    tx_built E tb b tb'"
proof (cases "tb_previous tb")
  case (Some prev)
  with assms show ?thesis
    by (auto simp: TxBlockBuilder_Change_def built_simps tx_built_def dest!: tb_finish_fields)
qed (use assms in \<open>simp add: TxBlockBuilder_Change_def\<close>)

lemma TxBlockBuilder_Receive_Inr:
  assumes "TxBlockBuilder_Receive E tb source amount sent_at now extensions = Inr (b, tb')"
    and "tb_previous tb = Some prev"
  shows "Type prev = TX_BLOCK \<and> next_block E now (tb_account tb) prev b \<and> sent_at \<le> Timestamp b \<and>
    Opcode b = RECEIVE \<and> Credit b = Credit prev \<and> Representative b = Representative prev \<and>
    Link b = source \<and> Extensions b = extensions \<and> amount \<noteq> 0 \<and>
    amount \<le> Balance prev + amount \<and> Balance b = Balance prev + amount \<and> tx_built E tb b tb'"
  using assms
  by (auto simp: TxBlockBuilder_Receive_def built_simps tx_built_def dest!: tb_finish_fields)

lemma TxBlockBuilder_Receive_first:
  assumes "TxBlockBuilder_Receive E tb source amount sent_at now extensions = Inr (b, tb')"
    and "tb_previous tb = None"
  shows "Type b = TX_BLOCK \<and> Opcode b = RECEIVE \<and> Height b = 0 \<and> Previous b = 0 \<and> Credit b = 1 \<and>
    Counter b = 1 \<and> now \<le> Timestamp b \<and> sent_at \<le> Timestamp b \<and> Timestamp b \<le> now + 60 \<and>
    Representative b = tb_rep tb \<and> Link b = source \<and> Extensions b = extensions \<and>
    CreditPrice (RAI_NETWORK E) (Timestamp b) \<le> amount \<and>
    Balance b = amount - CreditPrice (RAI_NETWORK E) (Timestamp b) \<and> tx_built E tb b tb'"
  using assms
  by (auto simp: TxBlockBuilder_Receive_def built_simps tx_built_def dest!: tb_finish_fields)

lemma RepBlockBuilder_Bind_Inr:
  assumes "RepBlockBuilder_Bind E rb chain signer now = Inr (b, rb')"
  shows "\<exists>prev. rb_previous rb = Some prev \<and> Type prev = REP_BLOCK \<and>
    next_block E now (rb_account rb) prev b \<and> Opcode b = BIND \<and> Credit b = Credit prev \<and>
    Link b = signer \<and> Chain b = chain \<and> Balance b = Balance prev \<and>
    (chain \<noteq> Chain_INVALID \<longrightarrow> rep_built E rb b rb')"
proof (cases "rb_previous rb")
  case (Some prev)
  with assms show ?thesis
    by (auto simp: RepBlockBuilder_Bind_def built_simps rep_built_def dest!: rb_finish_fields)
qed (use assms in \<open>simp add: RepBlockBuilder_Bind_def\<close>)

lemma RepBlockBuilder_Credit_Inr:
  assumes "RepBlockBuilder_Credit E rb credit_inc now = Inr (b, rb')"
  shows "\<exists>prev. rb_previous rb = Some prev \<and> Type prev = REP_BLOCK \<and>
    next_block E now (rb_account rb) prev b \<and> Opcode b = CREDIT \<and>
    Credit b = Credit prev + credit_inc \<and> Credit prev < Credit b \<and> Link b = 0 \<and>
    CreditPrice (RAI_NETWORK E) (Timestamp b) * ucast credit_inc \<le> Balance prev \<and>
    Balance b = Balance prev - CreditPrice (RAI_NETWORK E) (Timestamp b) * ucast credit_inc \<and>
    rep_built E rb b rb'"
proof (cases "rb_previous rb")
  case (Some prev)
  with assms show ?thesis
    by (auto simp: RepBlockBuilder_Credit_def built_simps rep_built_def not_le
        dest!: rb_finish_fields)
qed (use assms in \<open>simp add: RepBlockBuilder_Credit_def\<close>)

lemma RepBlockBuilder_Receive_Inr:
  assumes "RepBlockBuilder_Receive E rb source amount sent_at now = Inr (b, rb')"
    and "rb_previous rb = Some prev"
  shows "Type prev = REP_BLOCK \<and> next_block E now (rb_account rb) prev b \<and> sent_at \<le> Timestamp b \<and>
    Opcode b = RECEIVE \<and> Credit b = Credit prev \<and> Link b = source \<and> amount \<noteq> 0 \<and>
    amount \<le> Balance prev + amount \<and> Balance b = Balance prev + amount \<and> rep_built E rb b rb'"
  using assms
  by (auto simp: RepBlockBuilder_Receive_def built_simps rep_built_def dest!: rb_finish_fields)

lemma RepBlockBuilder_Receive_first:
  assumes "RepBlockBuilder_Receive E rb source amount sent_at now = Inr (b, rb')"
    and "rb_previous rb = None"
  shows "Type b = REP_BLOCK \<and> Opcode b = RECEIVE \<and> Height b = 0 \<and> Previous b = 0 \<and> Credit b = 1 \<and>
    Counter b = 1 \<and> now \<le> Timestamp b \<and> sent_at \<le> Timestamp b \<and> Timestamp b \<le> now + 60 \<and>
    Link b = source \<and> CreditPrice (RAI_NETWORK E) (Timestamp b) \<le> amount \<and>
    Balance b = amount - CreditPrice (RAI_NETWORK E) (Timestamp b) \<and> rep_built E rb b rb'"
  using assms
  by (auto simp: RepBlockBuilder_Receive_def built_simps rep_built_def dest!: rb_finish_fields)

end
