(* ===== verification/GapCache.thy ===== *)
theory GapCache
  imports Containers Builders
begin

text \<open>
  The gap caches, \<open>rai/node/gapcache.cpp\<close>: blocks that wait for a missing predecessor or source,
  under the hash they wait for. The model keeps the list in the order of the arrival index.
  A cache never holds more than \<open>MAX_CACHES\<close> entries, nor more than
  \<open>MAX_CACHES_PER_ACCOUNT\<close> of one account, nor two for one hash.
\<close>

section \<open>The cache\<close>

type_synonym time_point = int

record gap_info =
  gap_hash :: u256
  gap_account :: u256
  gap_arrival :: time_point
  gap_block :: block

definition GapInfo_new :: "time_point \<Rightarrow> u256 \<Rightarrow> block \<Rightarrow> gap_info" where
  "GapInfo_new now gap block =
     \<lparr>gap_hash = gap, gap_account = Account block, gap_arrival = now, gap_block = block\<rparr>"

type_synonym gap_cache = "gap_info list"

definition MAX_CACHES_PER_ACCOUNT :: nat where "MAX_CACHES_PER_ACCOUNT = 16"
definition MAX_CACHES :: nat where "MAX_CACHES = 128 * 1024"

definition gap_count :: "gap_cache \<Rightarrow> u256 \<Rightarrow> nat" where
  "gap_count caches account = length (filter (\<lambda>i. gap_account i = account) caches)"

text \<open>\<open>Insert\<close> returns \<open>True\<close> when the entry was not inserted.\<close>

definition GapCache_Insert :: "gap_cache \<Rightarrow> gap_info \<Rightarrow> bool \<times> gap_cache" where
  "GapCache_Insert caches info =
     (if length caches \<ge> MAX_CACHES then (True, caches)
      else if gap_count caches (gap_account info) \<ge> MAX_CACHES_PER_ACCOUNT then (True, caches)
      else case mi_insert gap_arrival gap_hash info caches of (ret, caches) \<Rightarrow> (\<not> ret, caches))"

definition GapCache_Remove :: "gap_cache \<Rightarrow> u256 \<Rightarrow> gap_cache" where
  "GapCache_Remove caches hash = mi_erase gap_hash hash caches"

definition GapCache_Query :: "gap_cache \<Rightarrow> u256 \<Rightarrow> gap_info option" where
  "GapCache_Query caches hash = mi_find gap_hash hash caches"

text \<open>Times are in nanoseconds; the entries up to the lower bound of the cutoff leave the cache.\<close>

definition GapCache_Age :: "time_point \<Rightarrow> gap_cache \<Rightarrow> u64 \<Rightarrow> gap_info list \<times> gap_cache" where
  "GapCache_Age now caches seconds =
     (let cutoff = now - int (unat seconds) * 1000000000 in
      (takeWhile (\<lambda>i. gap_arrival i < cutoff) caches, dropWhile (\<lambda>i. gap_arrival i < cutoff) caches))"

section \<open>The invariant\<close>

definition gap_ok :: "gap_cache \<Rightarrow> bool" where
  "gap_ok caches \<longleftrightarrow> mi_ok gap_arrival gap_hash caches \<and> length caches \<le> MAX_CACHES \<and>
     (\<forall>a. gap_count caches a \<le> MAX_CACHES_PER_ACCOUNT)"

lemma gap_ok_Nil [simp]: "gap_ok []"
  by (simp add: gap_ok_def mi_ok_def gap_count_def)

lemma gap_count_place:
  "gap_count (mi_place key x xs) a = gap_count xs a + (if gap_account x = a then 1 else 0)"
  by (induction xs) (auto simp: gap_count_def)

lemma GapCache_Insert_ok:
  assumes "gap_ok caches" "GapCache_Insert caches info = (err, caches')"
  shows "gap_ok caches'" "set caches' = (if err then set caches else insert info (set caches))"
proof -
  have ok: "mi_ok gap_arrival gap_hash caches" using assms(1) by (simp add: gap_ok_def)
  show "set caches' = (if err then set caches else insert info (set caches))"
    using assms(2) mi_insert_ok(3) [OF ok, of info]
    by (auto simp: GapCache_Insert_def split: if_splits prod.splits)
  show "gap_ok caches'"
  proof (cases "err")
    case True
    then have "caches' = caches"
      using assms(2) by (auto simp: GapCache_Insert_def mi_insert_def split: if_splits option.splits)
    with assms(1) show ?thesis by simp
  next
    case False
    with assms(2) have f: "length caches < MAX_CACHES" "gap_count caches (gap_account info) < MAX_CACHES_PER_ACCOUNT"
      "mi_insert gap_arrival gap_hash info caches = (True, caches')"
      by (auto simp: GapCache_Insert_def split: if_splits prod.splits)
    then have p: "caches' = mi_place gap_arrival info caches"
      by (auto simp: mi_insert_def split: option.splits)
    have "gap_count caches' a \<le> MAX_CACHES_PER_ACCOUNT" for a
      using assms(1) f(2) by (cases "a = gap_account info") (simp_all add: p gap_count_place gap_ok_def)
    with f mi_insert_ok(1,2) [OF ok f(3)] show ?thesis by (simp add: gap_ok_def)
  qed
qed

lemma gap_count_subseq: "gap_count (filter P xs) a \<le> gap_count xs a"
  by (induction xs) (auto simp: gap_count_def)

lemma gap_ok_filter:
  assumes "gap_ok caches"
  shows "gap_ok (filter P caches)"
proof -
  have "gap_count (filter P caches) a \<le> MAX_CACHES_PER_ACCOUNT" for a
    using assms gap_count_subseq order.trans unfolding gap_ok_def by blast
  moreover have "length (filter P caches) \<le> MAX_CACHES"
    using assms length_filter_le order.trans unfolding gap_ok_def by blast
  ultimately show ?thesis
    using assms by (simp add: gap_ok_def mi_ok_def sorted_filter_map distinct_map_filter)
qed

lemma GapCache_Remove_ok: "gap_ok caches \<Longrightarrow> gap_ok (GapCache_Remove caches h)"
  by (simp add: GapCache_Remove_def mi_erase_def gap_ok_filter)

lemma sorted_split_less:
  assumes "sorted (map key xs)"
  shows "takeWhile (\<lambda>x. key x < c) xs = filter (\<lambda>x. key x < c) xs"
    "dropWhile (\<lambda>x. key x < c) xs = filter (\<lambda>x. \<not> key x < c) xs"
proof -
  have "takeWhile (\<lambda>x. key x < c) xs = filter (\<lambda>x. key x < c) xs \<and>
      dropWhile (\<lambda>x. key x < c) xs = filter (\<lambda>x. \<not> key x < c) xs"
    using assms
  proof (induction xs)
    case (Cons x xs)
    show ?case
    proof (cases "key x < c")
      case False
      with Cons.prems have "\<not> key y < c" if "y \<in> set xs" for y using that by auto
      with False show ?thesis by (simp add: filter_empty_conv filter_id_conv)
    qed (use Cons in simp)
  qed simp
  then show "takeWhile (\<lambda>x. key x < c) xs = filter (\<lambda>x. key x < c) xs"
    "dropWhile (\<lambda>x. key x < c) xs = filter (\<lambda>x. \<not> key x < c) xs" by blast+
qed

text \<open>Ageing splits the cache at the cutoff, whatever the order of insertion was.\<close>

lemma GapCache_Age_filter:
  assumes "gap_ok caches"
  shows "GapCache_Age now caches seconds =
    (filter (\<lambda>i. gap_arrival i < now - int (unat seconds) * 1000000000) caches,
     filter (\<lambda>i. \<not> gap_arrival i < now - int (unat seconds) * 1000000000) caches)"
  using assms by (simp add: GapCache_Age_def gap_ok_def mi_ok_def sorted_split_less Let_def)

lemma GapCache_Age_ok:
  assumes "gap_ok caches" "GapCache_Age now caches seconds = (old, caches')"
  shows "gap_ok caches'"
  using assms(2) gap_ok_filter [OF assms(1)] unfolding GapCache_Age_filter [OF assms(1)] by blast

interpretation gap_cache: bounded_container "\<lambda>info caches. snd (GapCache_Insert caches info)" set length
    gap_ok MAX_CACHES
proof
  fix c x
  assume "gap_ok c"
  then show "gap_ok (snd (GapCache_Insert c x))" "length c \<le> MAX_CACHES"
    "set (snd (GapCache_Insert c x)) \<subseteq> insert x (set c)"
    using GapCache_Insert_ok [of c x] by (cases "GapCache_Insert c x"; auto simp: gap_ok_def split: if_splits)+
qed

text \<open>What was inserted is found until it is removed.\<close>

lemma GapCache_Query_Insert:
  assumes "gap_ok caches" "GapCache_Insert caches info = (False, caches')"
  shows "GapCache_Query caches' h = (if h = gap_hash info then Some info else GapCache_Query caches h)"
proof -
  note ok = GapCache_Insert_ok [OF assms]
  have d: "distinct (map gap_hash caches)" "distinct (map gap_hash caches')"
    using assms(1) ok(1) by (simp_all add: gap_ok_def mi_ok_def)
  have "gap_hash info \<notin> gap_hash ` set caches"
    using assms(2) by (auto simp: GapCache_Insert_def mi_insert_def mi_find_None split: if_splits option.splits)
  then have "GapCache_Query caches' h = Some x \<longleftrightarrow>
      (if h = gap_hash info then Some info else GapCache_Query caches h) = Some x" for x
    using ok(2) by (auto simp: GapCache_Query_def mi_find_Some [OF d(1)] mi_find_Some [OF d(2)] image_iff)
  then show ?thesis by (metis option.exhaust)
qed

lemma GapCache_Query_Remove:
  assumes "gap_ok caches"
  shows "GapCache_Query (GapCache_Remove caches h) h' = (if h' = h then None else GapCache_Query caches h')"
proof -
  have d: "distinct (map gap_hash caches)" "distinct (map gap_hash (GapCache_Remove caches h))"
    using assms GapCache_Remove_ok [OF assms] by (simp_all add: gap_ok_def mi_ok_def)
  have "GapCache_Query (GapCache_Remove caches h) h' = Some x \<longleftrightarrow>
      (if h' = h then None else GapCache_Query caches h') = Some x" for x
    by (auto simp: GapCache_Query_def mi_find_Some [OF d(1)] mi_find_Some [OF d(2)])
      (auto simp: GapCache_Remove_def mi_erase_def)
  then show ?thesis by (metis option.exhaust)
qed

end
