(* ===== verification/WorkQueue.thy ===== *)
theory WorkQueue
  imports GapCache
begin

text \<open>
  The queues of \<open>rai/node/blockprocessor.cpp\<close>: operations and their names, the
  priority of a block, the ordered queue of ordinary blocks with its limit, the queues of forced
  operations and of forks, and the choice that the processor's loop makes between them.
\<close>

section \<open>Operations\<close>

datatype block_operation = INVALID | APPEND | PREPEND | ROLLBACK | DROP | CONFIRM | DYNAMIC_BEGIN

fun of_block_operation :: "block_operation \<Rightarrow> u64" where
  "of_block_operation INVALID = 0"
| "of_block_operation APPEND = 1"
| "of_block_operation PREPEND = 2"
| "of_block_operation ROLLBACK = 3"
| "of_block_operation DROP = 4"
| "of_block_operation CONFIRM = 5"
| "of_block_operation DYNAMIC_BEGIN = 6"

fun BlockOperationToString :: "block_operation \<Rightarrow> string" where
  "BlockOperationToString INVALID = ''invalid''"
| "BlockOperationToString APPEND = ''append''"
| "BlockOperationToString PREPEND = ''prepend''"
| "BlockOperationToString ROLLBACK = ''rollback''"
| "BlockOperationToString DROP = ''drop''"
| "BlockOperationToString CONFIRM = ''confirm''"
| "BlockOperationToString DYNAMIC_BEGIN = ''6''"

definition StringToBlockOperation :: "string \<Rightarrow> block_operation" where
  "StringToBlockOperation str =
     (if str = ''append'' then APPEND
      else if str = ''prepend'' then PREPEND
      else if str = ''rollback'' then ROLLBACK
      else if str = ''drop'' then DROP
      else if str = ''confirm'' then CONFIRM
      else INVALID)"

record block_forced =
  fc_operation :: u64
  fc_block :: block

record block_fork =
  fk_first :: block
  fk_second :: block
  fk_from_local :: bool

record block_process_result =
  pr_operation :: block_operation
  pr_error_code :: error_code
  pr_last_confirm_height :: u64

section \<open>Priorities\<close>

definition max_priority :: u64 where
  "max_priority = ucast (ucast MAX_ACCOUNT_CREDIT * TRANSACTIONS_PER_CREDIT)"

definition Priority :: "env \<Rightarrow> block \<Rightarrow> u64" where
  "Priority E block =
     (if CurrentTimestamp E > Timestamp block + 3600 then max_priority
      else if Opcode block = REWARD then max_priority div 2
      else let credit = ucast (Credit block) :: u64; counter = ucast (Counter block) :: u64 in
        if counter = 0 \<or> credit = 0 then max_priority
        else let total = credit * ucast TRANSACTIONS_PER_CREDIT in
          if counter > total then max_priority
          else counter * max_priority div total)"

datatype ordered_key = OrderedKey (key_priority: u64) (key_arrival: time_point)

instantiation ordered_key :: linorder
begin

fun less_eq_ordered_key :: "ordered_key \<Rightarrow> ordered_key \<Rightarrow> bool" where
  "OrderedKey p a \<le> OrderedKey q b \<longleftrightarrow> p < q \<or> p = q \<and> a \<le> b"

text \<open>\<open>OrderedKey::operator<\<close>.\<close>

fun less_ordered_key :: "ordered_key \<Rightarrow> ordered_key \<Rightarrow> bool" where
  "OrderedKey p a < OrderedKey q b \<longleftrightarrow> (if p \<noteq> q then p < q else a < b)"

instance
proof
  fix x y z :: ordered_key
  show "(x < y) = (x \<le> y \<and> \<not> y \<le> x)" by (cases x; cases y) auto
  show "x \<le> x" by (cases x) simp
  show "x \<le> y \<Longrightarrow> y \<le> z \<Longrightarrow> x \<le> z" by (cases x; cases y; cases z) auto
  show "x \<le> y \<Longrightarrow> y \<le> x \<Longrightarrow> x = y" by (cases x; cases y) auto
  show "x \<le> y \<or> y \<le> x" by (cases x; cases y) auto
qed

end

record block_info =
  bi_key :: ordered_key
  bi_hash :: u256
  bi_block :: block

section \<open>The queues\<close>

record work_queues =
  wq_blocks :: "block_info list"
  wq_forced :: "block_forced list"
  wq_fork :: "block_fork list"

definition MAX_BLOCKS :: nat where "MAX_BLOCKS = 256 * 1024"
definition MAX_BLOCKS_FORK :: nat where "MAX_BLOCKS_FORK = 128 * 1024"
definition BUSY_PERCENTAGE :: nat where "BUSY_PERCENTAGE = 60"

text \<open>\<open>Add\<close>; the list holds the blocks reported to the observer as dropped.\<close>

definition BlockProcessor_Add ::
  "env \<Rightarrow> time_point \<Rightarrow> work_queues \<Rightarrow> block \<Rightarrow> block list \<times> work_queues" where
  "BlockProcessor_Add E now q block =
     (let info = \<lparr>bi_key = OrderedKey (Priority E block) now, bi_hash = Hash E block, bi_block = block\<rparr> in
      case mi_insert bi_key bi_hash info (wq_blocks q) of (ret, blocks) \<Rightarrow>
        if \<not> ret then ([block], q)
        else if length blocks > MAX_BLOCKS
        then ([bi_block (last blocks)], q\<lparr>wq_blocks := butlast blocks\<rparr>)
        else ([], q\<lparr>wq_blocks := blocks\<rparr>))"

definition BlockProcessor_AddForced :: "work_queues \<Rightarrow> block_forced \<Rightarrow> work_queues" where
  "BlockProcessor_AddForced q forced = q\<lparr>wq_forced := wq_forced q @ [forced]\<rparr>"

definition BlockProcessor_AddFork :: "work_queues \<Rightarrow> block_fork \<Rightarrow> work_queues" where
  "BlockProcessor_AddFork q fork =
     (if length (wq_fork q) \<ge> MAX_BLOCKS_FORK then q else q\<lparr>wq_fork := wq_fork q @ [fork]\<rparr>)"

definition BlockProcessor_Busy :: "work_queues \<Rightarrow> bool" where
  "BlockProcessor_Busy q \<longleftrightarrow>
     (if length (wq_blocks q) * 100 \<ge> MAX_BLOCKS * BUSY_PERCENTAGE then True
      else if length (wq_fork q) * 100 \<ge> MAX_BLOCKS_FORK * BUSY_PERCENTAGE then True
      else False)"

text \<open>One turn of \<open>Run\<close>: forks first, then forced operations, then the first ordinary block.\<close>

datatype work = Work_Fork block_fork | Work_Forced block_forced | Work_Block block

definition Run_next :: "work_queues \<Rightarrow> (work \<times> work_queues) option" where
  "Run_next q = (case wq_fork q of
     fork # forks \<Rightarrow> Some (Work_Fork fork, q\<lparr>wq_fork := forks\<rparr>)
   | [] \<Rightarrow> (case wq_forced q of
       forced # rest \<Rightarrow> Some (Work_Forced forced, q\<lparr>wq_forced := rest\<rparr>)
     | [] \<Rightarrow> (case wq_blocks q of
         info # blocks \<Rightarrow> Some (Work_Block (bi_block info), q\<lparr>wq_blocks := blocks\<rparr>)
       | [] \<Rightarrow> None)))"

section \<open>The order and the limit\<close>

definition queue_ok :: "env \<Rightarrow> work_queues \<Rightarrow> bool" where
  "queue_ok E q \<longleftrightarrow> mi_ok bi_key bi_hash (wq_blocks q) \<and> length (wq_blocks q) \<le> MAX_BLOCKS \<and>
     length (wq_fork q) \<le> MAX_BLOCKS_FORK \<and> (\<forall>i \<in> set (wq_blocks q). bi_hash i = Hash E (bi_block i))"

definition queued :: "work_queues \<Rightarrow> block set" where
  "queued q = bi_block ` set (wq_blocks q)"

lemma butlast_ok:
  assumes "mi_ok key hash xs" "xs \<noteq> []"
  shows "mi_ok key hash (butlast xs)" "set xs = insert (last xs) (set (butlast xs))"
    "last xs \<notin> set (butlast xs)" "\<forall>x \<in> set (butlast xs). key x \<le> key (last xs)"
proof -
  have x: "xs = butlast xs @ [last xs]" using assms(2) by simp
  then show "set xs = insert (last xs) (set (butlast xs))" by (metis Un_insert_right list.simps(15) set_append sup_bot.right_neutral empty_set)
  have ok: "mi_ok key hash (butlast xs @ [last xs])" using assms(1) x by simp
  then show "mi_ok key hash (butlast xs)" "\<forall>x \<in> set (butlast xs). key x \<le> key (last xs)"
    by (auto simp: mi_ok_def sorted_append)
  show "last xs \<notin> set (butlast xs)" using ok by (auto simp: mi_ok_def)
qed

text \<open>What \<open>Add\<close> does: a known block is refused; otherwise it is queued, and when the queue was full
  the last block in the order is dropped, which may be the new one.\<close>

lemma BlockProcessor_Add_cases:
  assumes ok: "queue_ok E q" and add: "BlockProcessor_Add E now q b = (dropped, q')"
  defines "i \<equiv> \<lparr>bi_key = OrderedKey (Priority E b) now, bi_hash = Hash E b, bi_block = b\<rparr>"
  obtains (known) "Hash E b \<in> bi_hash ` set (wq_blocks q)" "dropped = [b]" "q' = q"
  | (full) j blocks where "length (wq_blocks q) = MAX_BLOCKS" "dropped = [bi_block j]" "q' = q\<lparr>wq_blocks := blocks\<rparr>"
      "insert j (set blocks) = insert i (set (wq_blocks q))" "j \<notin> set blocks"
      "\<forall>x \<in> set blocks. bi_key x \<le> bi_key j" "mi_ok bi_key bi_hash blocks" "length blocks = MAX_BLOCKS"
  | (room) blocks where "length (wq_blocks q) < MAX_BLOCKS" "dropped = []" "q' = q\<lparr>wq_blocks := blocks\<rparr>"
      "set blocks = insert i (set (wq_blocks q))" "mi_ok bi_key bi_hash blocks" "length blocks = Suc (length (wq_blocks q))"
proof -
  obtain r xs where m: "mi_insert bi_key bi_hash i (wq_blocks q) = (r, xs)" by fastforce
  have q: "mi_ok bi_key bi_hash (wq_blocks q)" "length (wq_blocks q) \<le> MAX_BLOCKS"
    using ok by (simp_all add: queue_ok_def)
  note mi = mi_insert_ok [OF q(1) m]
  consider "\<not> r" "dropped = [b]" "q' = q"
    | "r" "length xs > MAX_BLOCKS" "dropped = [bi_block (last xs)]" "q' = q\<lparr>wq_blocks := butlast xs\<rparr>"
    | "r" "length xs \<le> MAX_BLOCKS" "dropped = []" "q' = q\<lparr>wq_blocks := xs\<rparr>"
    using add by (auto simp: BlockProcessor_Add_def Let_def m [unfolded i_def] split: if_splits)
  then show thesis
  proof cases
    case 1
    with mi(4) show thesis by (intro known) (simp_all add: i_def)
  next
    case 2
    then have "xs \<noteq> []" by auto
    note bl = butlast_ok [OF mi(1) this]
    show thesis
      by (rule full [OF _ 2(3,4) _ bl(3,4,1)]) (use 2 mi(2,3) q(2) bl(2) in auto)
  next
    case 3
    with mi show thesis by (intro room) simp_all
  qed
qed

lemma BlockProcessor_Add_ok:
  assumes ok: "queue_ok E q" and add: "BlockProcessor_Add E now q b = (dropped, q')"
  shows "queue_ok E q'" "wq_forced q' = wq_forced q" "wq_fork q' = wq_fork q"
    "queued q' \<union> set dropped = insert b (queued q)"
proof -
  have "queue_ok E q' \<and> wq_forced q' = wq_forced q \<and> wq_fork q' = wq_fork q \<and>
    queued q' \<union> set dropped = insert b (queued q)"
    using ok add
  proof (cases rule: BlockProcessor_Add_cases)
    case known
    with ok show ?thesis by (auto simp: queued_def)
  next
    case (full j blocks)
    let ?i = "\<lparr>bi_key = OrderedKey (Priority E b) now, bi_hash = Hash E b, bi_block = b\<rparr>"
    have "queued q' \<union> set dropped = insert b (queued q)"
      using arg_cong [OF full(4), of "image bi_block"] full(2,3) by (simp add: queued_def)
    moreover have "bi_hash x = Hash E (bi_block x)" if "x \<in> set blocks" for x
    proof -
      have "x = ?i \<or> x \<in> set (wq_blocks q)" using that full(4) by blast
      with ok show ?thesis by (auto simp: queue_ok_def)
    qed
    ultimately show ?thesis using ok full(3,7,8) by (simp add: queue_ok_def)
  next
    case (room blocks)
    with ok show ?thesis by (auto simp: queue_ok_def queued_def)
  qed
  then show "queue_ok E q'" "wq_forced q' = wq_forced q" "wq_fork q' = wq_fork q"
    "queued q' \<union> set dropped = insert b (queued q)" by blast+
qed

lemma BlockProcessor_AddFork_ok: "queue_ok E q \<Longrightarrow> queue_ok E (BlockProcessor_AddFork q f)"
  by (simp add: BlockProcessor_AddFork_def queue_ok_def)

lemma BlockProcessor_AddForced_ok: "queue_ok E q \<Longrightarrow> queue_ok E (BlockProcessor_AddForced q f)"
  by (simp add: BlockProcessor_AddForced_def queue_ok_def)

lemma Run_next_ok:
  assumes "queue_ok E q" "Run_next q = Some (w, q')"
  shows "queue_ok E q'"
  using assms by (auto simp: Run_next_def queue_ok_def mi_ok_def split: list.splits)

interpretation block_queue: bounded_container "\<lambda>b q. snd (BlockProcessor_Add E now q b)" queued
    "\<lambda>q. length (wq_blocks q)" "queue_ok E" MAX_BLOCKS for E now
proof
  fix q b
  assume ok: "queue_ok E q"
  obtain dropped q' where add: "BlockProcessor_Add E now q b = (dropped, q')" by fastforce
  from BlockProcessor_Add_ok [OF ok add] add ok
  show "queue_ok E (snd (BlockProcessor_Add E now q b))" "length (wq_blocks q) \<le> MAX_BLOCKS"
    "queued (snd (BlockProcessor_Add E now q b)) \<subseteq> insert b (queued q)"
    by (auto simp: queue_ok_def)
qed

section \<open>The loop serves everything\<close>

text \<open>The items that \<open>n\<close> turns of the loop take when nothing is added.\<close>

fun drain :: "nat \<Rightarrow> work_queues \<Rightarrow> work list" where
  "drain 0 q = []"
| "drain (Suc n) q = (case Run_next q of None \<Rightarrow> [] | Some (w, q') \<Rightarrow> w # drain n q')"

lemma drain_blocks:
  "wq_fork q = [] \<Longrightarrow> wq_forced q = [] \<Longrightarrow>
   drain n q = map (\<lambda>i. Work_Block (bi_block i)) (take n (wq_blocks q))"
proof (induction n arbitrary: q)
  case (Suc n)
  then show ?case by (cases "wq_blocks q") (simp_all add: Run_next_def)
qed simp

lemma drain_forced:
  "wq_fork q = [] \<Longrightarrow>
   drain (length (wq_forced q) + n) q =
   map Work_Forced (wq_forced q) @ map (\<lambda>i. Work_Block (bi_block i)) (take n (wq_blocks q))"
proof (induction "wq_forced q" arbitrary: q)
  case Nil
  then show ?case by (simp add: drain_blocks)
next
  case (Cons f fs)
  have "Run_next q = Some (Work_Forced f, q\<lparr>wq_forced := fs\<rparr>)"
    using Cons.hyps(2) [symmetric] Cons.prems by (simp add: Run_next_def)
  with Cons.hyps(1) [of "q\<lparr>wq_forced := fs\<rparr>"] Cons.hyps(2) [symmetric] Cons.prems show ?case by simp
qed

lemma drain_all:
  "drain (length (wq_fork q) + length (wq_forced q) + length (wq_blocks q)) q =
   map Work_Fork (wq_fork q) @ map Work_Forced (wq_forced q) @ map (\<lambda>i. Work_Block (bi_block i)) (wq_blocks q)"
proof (induction "wq_fork q" arbitrary: q)
  case Nil
  then show ?case using drain_forced [of q "length (wq_blocks q)"] by simp
next
  case (Cons f fs)
  have "Run_next q = Some (Work_Fork f, q\<lparr>wq_fork := fs\<rparr>)"
    using Cons.hyps(2) [symmetric] by (simp add: Run_next_def)
  with Cons.hyps(1) [of "q\<lparr>wq_fork := fs\<rparr>"] Cons.hyps(2) [symmetric] show ?case by simp
qed

section \<open>The bounds of a priority\<close>

lemma unat_widen:
  "unat (ucast (c :: u32) :: u64) = unat c" "unat (ucast (d :: u16) :: u64) = unat d"
  by (simp_all add: unsigned_ucast_eq take_bit_nat_eq_self_iff order.strict_trans [OF unat_less])

lemma max_priority_value: "max_priority = 1310700"
  by (simp add: max_priority_def MAX_ACCOUNT_CREDIT_def TRANSACTIONS_PER_CREDIT_def)

lemma Priority_product:
  fixes c :: u32
  shows "unat (ucast c * max_priority :: u64) = unat c * 1310700"
proof -
  have "unat c < 2 ^ 32" using unat_less [of c] by simp
  then have "unat c * 1310700 < 2 ^ 64" by simp
  then show ?thesis by (simp add: max_priority_value unat_word_ariths unat_widen)
qed

lemma Priority_le: "Priority E b \<le> max_priority"
proof -
  have "ucast c * max_priority div t \<le> max_priority" if "ucast c \<le> t" "t \<noteq> 0" for c :: u32 and t :: u64
  proof -
    have "unat c \<le> unat t" using that(1) by (simp add: word_le_nat_alt unat_widen)
    then have "unat c * 1310700 \<le> unat t * 1310700" by simp
    then have "unat c * 1310700 div unat t \<le> 1310700"
      using that(2) by (metis div_le_mono nonzero_mult_div_cancel_left unat_eq_zero)
    then show ?thesis
      by (simp only: word_le_nat_alt unat_div Priority_product) (simp add: max_priority_value)
  qed
  moreover have "max_priority div 2 \<le> max_priority" by (simp add: max_priority_value word_le_nat_alt unat_div)
  moreover have "ucast x * ucast TRANSACTIONS_PER_CREDIT \<noteq> (0 :: u64)" if "ucast x \<noteq> (0 :: u64)" for x :: u16
  proof -
    have "x \<noteq> 0" using that by auto
    moreover have "unat (ucast x * ucast TRANSACTIONS_PER_CREDIT :: u64) = unat x * 20"
      using unat_less [of x]
      by (simp add: TRANSACTIONS_PER_CREDIT_def unat_word_ariths unat_widen)
    ultimately show "ucast x * ucast TRANSACTIONS_PER_CREDIT \<noteq> (0 :: u64)"
      by (metis mult_eq_0_iff unat_0 unat_eq_zero zero_neq_numeral)
  qed
  ultimately show ?thesis by (auto simp: Priority_def Let_def not_less)
qed

end
