(* ===== verification/Store.thy ===== *)
theory Store
  imports Builders "HOL-Library.Monad_Syntax"
begin

text \<open>
  The persistent store, \<open>rai/secure/store.cpp\<close> and \<open>rai/secure/lmdb.cpp\<close>, and the transaction
  object of \<open>rai/secure/ledger.cpp\<close>.

  LMDB itself is not part of the repository: it is the record \<open>lmdb\<close> of the functions the
  code calls, over an arbitrary type of database states, and \<open>lmdb_laws\<close> is what its
  documentation promises of them. A call may fail (\<open>None\<close>), for instance when the map is full.

  The locale \<open>typed_table\<close> is the interface between a raw table and the code that stores values
  of one type under keys of another: distinct keys have distinct encodings and a stored value
  reads back. Each table of the ledger interprets it.
\<close>

section \<open>LMDB\<close>

datatype table =
  ACCOUNTS | BLOCKS | BLOCKS_INDEX | RECEIVABLES | REWARDABLES | ROLLBACKS | FORKS
| BINDING_COUNT_TABLE | BINDING_ENTRIES

record 'db lmdb =
  mdb_put :: "'db \<Rightarrow> table \<Rightarrow> bytes \<Rightarrow> bytes \<Rightarrow> 'db option"
  mdb_get :: "'db \<Rightarrow> table \<Rightarrow> bytes \<Rightarrow> bytes option"
  mdb_del :: "'db \<Rightarrow> table \<Rightarrow> bytes \<Rightarrow> 'db option"
  mdb_entries :: "'db \<Rightarrow> table \<Rightarrow> (bytes \<times> bytes) list"
  mdb_txn_begin :: "'db \<Rightarrow> bool"
  mdb_txn_commit :: "'db \<Rightarrow> bool"

definition lmdb_laws :: "'db lmdb \<Rightarrow> bool" where
  "lmdb_laws M \<longleftrightarrow>
     (\<forall>db t k v db'. mdb_put M db t k v = Some db' \<longrightarrow>
        (\<forall>t' k'. mdb_get M db' t' k' = (if t' = t \<and> k' = k then Some v else mdb_get M db t' k'))) \<and>
     (\<forall>db t k db'. mdb_del M db t k = Some db' \<longrightarrow> mdb_get M db t k \<noteq> None \<and>
        (\<forall>t' k'. mdb_get M db' t' k' = (if t' = t \<and> k' = k then None else mdb_get M db t' k'))) \<and>
     (\<forall>db t. distinct (map fst (mdb_entries M db t)) \<and>
        (\<forall>k v. (k, v) \<in> set (mdb_entries M db t) \<longleftrightarrow> mdb_get M db t k = Some v))"

text \<open>A store that accepts every write: no operation but the deletion of an absent key fails.\<close>

definition lmdb_never_full :: "'db lmdb \<Rightarrow> bool" where
  "lmdb_never_full M \<longleftrightarrow>
     (\<forall>db t k v. mdb_put M db t k v \<noteq> None) \<and>
     (\<forall>db t k. mdb_get M db t k \<noteq> None \<longrightarrow> mdb_del M db t k \<noteq> None)"

lemma mdb_get_put:
  assumes "lmdb_laws M" "mdb_put M db t k v = Some db'"
  shows "mdb_get M db' t' k' = (if t' = t \<and> k' = k then Some v else mdb_get M db t' k')"
  using assms unfolding lmdb_laws_def by blast

lemma mdb_get_del:
  assumes "lmdb_laws M" "mdb_del M db t k = Some db'"
  shows "mdb_get M db' t' k' = (if t' = t \<and> k' = k then None else mdb_get M db t' k')"
    and "mdb_get M db t k \<noteq> None"
  using assms unfolding lmdb_laws_def by blast+

lemma mdb_entries_get:
  assumes "lmdb_laws M"
  shows "(k, v) \<in> set (mdb_entries M db t) \<longleftrightarrow> mdb_get M db t k = Some v"
    and "distinct (map fst (mdb_entries M db t))"
  using assms unfolding lmdb_laws_def by blast+

section \<open>Typed tables\<close>

text \<open>
  \<open>table_rel M db t key enc ok m\<close>: table \<open>t\<close> of the database holds exactly the map \<open>m\<close>, each
  key and value in its encoding, and every stored value is well-formed.
\<close>

definition table_rel ::
  "'db lmdb \<Rightarrow> 'db \<Rightarrow> table \<Rightarrow> ('k \<Rightarrow> bytes) \<Rightarrow> ('v \<Rightarrow> bytes) \<Rightarrow> ('v \<Rightarrow> bool) \<Rightarrow> ('k \<Rightarrow> 'v option) \<Rightarrow> bool"
where
  "table_rel M db t key enc ok m \<longleftrightarrow>
     (\<forall>k. mdb_get M db t (key k) = map_option enc (m k)) \<and>
     (\<forall>k v. m k = Some v \<longrightarrow> ok v) \<and>
     (\<forall>kb v. mdb_get M db t kb = Some v \<longrightarrow> kb \<in> range key)"

lemma table_rel_value:
  assumes "table_rel M db t key enc ok m"
  shows "mdb_get M db t (key k) = map_option enc (m k)"
    and "m k = Some v \<Longrightarrow> ok v"
  using assms unfolding table_rel_def by metis+

lemma table_rel_put_other:
  assumes "lmdb_laws M" "mdb_put M db t' kb vb = Some db'" "t' \<noteq> t"
  shows "table_rel M db' t key enc ok m \<longleftrightarrow> table_rel M db t key enc ok m"
  using assms(3) by (simp add: table_rel_def mdb_get_put [OF assms(1,2)])

lemma table_rel_del_other:
  assumes "lmdb_laws M" "mdb_del M db t' kb = Some db'" "t' \<noteq> t"
  shows "table_rel M db' t key enc ok m \<longleftrightarrow> table_rel M db t key enc ok m"
  using assms(3) by (simp add: table_rel_def mdb_get_del [OF assms(1,2)])

locale typed_table =
  fixes key :: "'k \<Rightarrow> bytes"
    and enc :: "'v \<Rightarrow> bytes"
    and dec :: "bytes \<Rightarrow> 'v option"
    and ok :: "'v \<Rightarrow> bool"
  assumes key_inject: "key k = key k' \<longleftrightarrow> k = k'"
    and dec_enc: "ok v \<Longrightarrow> dec (enc v) = Some v"
begin

lemma tbl_get:
  assumes "table_rel M db t key enc ok m"
  shows "Option.bind (mdb_get M db t (key k)) dec = m k"
  using assms by (cases "m k") (auto simp: table_rel_def dec_enc)

lemma tbl_exists:
  assumes "table_rel M db t key enc ok m"
  shows "mdb_get M db t (key k) = None \<longleftrightarrow> m k = None"
  using assms by (cases "m k") (auto simp: table_rel_def)

lemma tbl_put:
  assumes "lmdb_laws M" "table_rel M db t key enc ok m" "ok v"
    "mdb_put M db t (key k) (enc v) = Some db'"
  shows "table_rel M db' t key enc ok (m(k \<mapsto> v))"
  using assms(2,3) by (auto simp: table_rel_def mdb_get_put [OF assms(1,4)] key_inject)

lemma tbl_del:
  assumes "lmdb_laws M" "table_rel M db t key enc ok m" "mdb_del M db t (key k) = Some db'"
  shows "table_rel M db' t key enc ok (m(k := None))" "m k \<noteq> None"
proof -
  show "table_rel M db' t key enc ok (m(k := None))"
    using assms(2) by (auto simp: table_rel_def mdb_get_del(1) [OF assms(1,3)] key_inject)
  show "m k \<noteq> None"
    using mdb_get_del(2) [OF assms(1,3)] assms(2) by (simp add: table_rel_def)
qed

text \<open>The relation determines the map.\<close>

lemma tbl_unique:
  assumes "table_rel M db t key enc ok m" "table_rel M db t key enc ok m'"
  shows "m = m'"
  using tbl_get [OF assms(1)] tbl_get [OF assms(2)] by (intro ext) (metis option.exhaust)

end

section \<open>In-memory tables and transactions\<close>

record rep_weight_operation =
  rw_add :: bool
  rw_representative :: u256
  rw_weight :: u128

record delegator_list_entry =
  de_rep :: u256
  de_weight :: u128
  de_type :: block_type

record ledger_memory =
  total_rep_weight :: u128
  rep_weights :: "u256 \<Rightarrow> u128 option"
  enable_rich_list :: bool
  rich_list :: "u256 \<Rightarrow> u128 option"
  enable_delegator_list :: bool
  delegator_list :: "u256 \<Rightarrow> delegator_list_entry option"

record 'db ledger =
  l_store :: 'db
  l_memory :: ledger_memory

record 'db transaction =
  txn_write :: bool
  txn_aborted :: bool
  txn_db :: 'db
  txn_memory :: ledger_memory
  rep_weight_operations :: "rep_weight_operation list"

text \<open>\<open>Store::Put\<close>, \<open>Store::Get\<close>, \<open>Store::Del\<close>; \<open>True\<close> is an error.\<close>

definition Store_Put ::
  "'db lmdb \<Rightarrow> 'db transaction \<Rightarrow> table \<Rightarrow> bytes \<Rightarrow> bytes \<Rightarrow> bool \<times> 'db transaction" where
  "Store_Put M txn dbi key val = (case mdb_put M (txn_db txn) dbi key val of
       None \<Rightarrow> (True, txn)
     | Some db \<Rightarrow> (False, txn\<lparr>txn_db := db\<rparr>))"

definition Store_Get :: "'db lmdb \<Rightarrow> 'db transaction \<Rightarrow> table \<Rightarrow> bytes \<Rightarrow> bytes option" where
  "Store_Get M txn dbi key = mdb_get M (txn_db txn) dbi key"

definition Store_Del ::
  "'db lmdb \<Rightarrow> 'db transaction \<Rightarrow> table \<Rightarrow> bytes \<Rightarrow> bool \<times> 'db transaction" where
  "Store_Del M txn dbi key = (case mdb_del M (txn_db txn) dbi key of
       None \<Rightarrow> (True, txn)
     | Some db \<Rightarrow> (False, txn\<lparr>txn_db := db\<rparr>))"

definition RepWeightAdd :: "'db transaction \<Rightarrow> u256 \<Rightarrow> u128 \<Rightarrow> 'db transaction" where
  "RepWeightAdd txn representative weight =
     txn\<lparr>rep_weight_operations := rep_weight_operations txn @
       [\<lparr>rw_add = True, rw_representative = representative, rw_weight = weight\<rparr>]\<rparr>"

definition RepWeightSub :: "'db transaction \<Rightarrow> u256 \<Rightarrow> u128 \<Rightarrow> 'db transaction" where
  "RepWeightSub txn representative weight =
     txn\<lparr>rep_weight_operations := rep_weight_operations txn @
       [\<lparr>rw_add = False, rw_representative = representative, rw_weight = weight\<rparr>]\<rparr>"

text \<open>One step of \<open>RepWeightsCommit_\<close>. The third branch is written as the source has it: the
  entry is erased first, and \<open>operator[]\<close> of the map then re-creates it as zero.\<close>

definition RepWeightsCommit_step :: "ledger_memory \<Rightarrow> rep_weight_operation \<Rightarrow> ledger_memory" where
  "RepWeightsCommit_step m op =
     (let r = rw_representative op; w = rw_weight op in
      if w = 0 then m
      else if rw_add op then
        m\<lparr>rep_weights := (rep_weights m)(r \<mapsto> (case rep_weights m r of None \<Rightarrow> w | Some x \<Rightarrow> x + w)),
          total_rep_weight := total_rep_weight m + w\<rparr>
      else (case rep_weights m r of
          None \<Rightarrow> m
        | Some x \<Rightarrow>
            if w > x then
              m\<lparr>rep_weights := (rep_weights m)(r \<mapsto> 0), total_rep_weight := total_rep_weight m - 0\<rparr>
            else if w = x then
              m\<lparr>rep_weights := (rep_weights m)(r := None), total_rep_weight := total_rep_weight m - w\<rparr>
            else
              m\<lparr>rep_weights := (rep_weights m)(r \<mapsto> x - w),
                total_rep_weight := total_rep_weight m - w\<rparr>))"

definition RepWeightsCommit :: "ledger_memory \<Rightarrow> rep_weight_operation list \<Rightarrow> ledger_memory" where
  "RepWeightsCommit m ops = foldl RepWeightsCommit_step m ops"

definition RepWeightGet :: "ledger_memory \<Rightarrow> u256 \<Rightarrow> u128 option" where
  "RepWeightGet m representative = rep_weights m representative"

definition Transaction_new :: "'db ledger \<Rightarrow> bool \<Rightarrow> 'db transaction" where
  "Transaction_new l write =
     \<lparr>txn_write = write, txn_aborted = False, txn_db = l_store l, txn_memory = l_memory l,
      rep_weight_operations = []\<rparr>"

definition Transaction_Abort :: "'db transaction \<Rightarrow> 'db transaction" where
  "Transaction_Abort txn = txn\<lparr>txn_aborted := True\<rparr>"

text \<open>The destructor: the weights are committed first, then LMDB; an abort drops both, but not
  what the in-memory lists were told during the transaction.\<close>

definition Transaction_end :: "'db lmdb \<Rightarrow> 'db ledger \<Rightarrow> 'db transaction \<Rightarrow> 'db ledger" where
  "Transaction_end M l txn =
     (if txn_aborted txn then l\<lparr>l_memory := txn_memory txn\<rparr>
      else \<lparr>l_store = (if mdb_txn_commit M (txn_db txn) then txn_db txn else l_store l),
            l_memory = RepWeightsCommit (txn_memory txn) (rep_weight_operations txn)\<rparr>)"

end
