(* ===== verification/Elections.thy ===== *)
theory Elections
  imports WorkQueue Store "HOL-Library.AList" "HOL-Library.Product_Lexorder"
begin

text \<open>
  Elections, \<open>rai/node/election.hpp\<close> and \<open>rai/node/election.cpp\<close>: the votes of the representatives for
  the block at one height of an account, their tally, and the state machine that asks for votes, forces
  the winner into the ledger and gives up. An \<open>unordered_map\<close> is an association list in the order of iteration,
  a \<open>std::set\<close> an ascending list, and \<open>elections_\<close> a list in the order of its wake-up index. What the election asks
  the rest of the node to do is recorded as events.
\<close>

section \<open>Data\<close>

record vote =
  vt_timestamp :: u64
  vt_signature :: u512
  vt_hash :: u256

record rep_vote_info =
  ri_conflict_found :: bool
  ri_weight :: u128
  ri_last_vote :: vote

record block_reference =
  br_refs :: u32
  br_block :: block

record election =
  el_account :: u256
  el_height :: u64
  el_fork_found :: bool
  el_broadcast :: bool
  el_rounds :: u32
  el_rounds_fork :: u32
  el_wins :: u32
  el_confirms :: u32
  el_fork_broadcast_delay :: u32
  el_winner :: u256
  el_wakeup :: time_point
  el_blocks :: "(u256 \<times> block_reference) list"
  el_votes :: "(u256 \<times> rep_vote_info) list"
  el_conflicts :: "(u256 \<times> vote) list"

record election_status =
  st_error :: bool
  st_win :: bool
  st_confirm :: bool
  st_valid :: u128
  st_invalid :: u128
  st_conflict :: u128
  st_not_voting :: u128
  st_block :: "block option"

record account_weight =
  aw_account :: u256
  aw_weight :: u128

record election_stats =
  es_stat_rounds :: "(u32 \<times> u64) list"
  es_stat_rounds_fork :: "(u32 \<times> u64) list"
  es_slow_reps :: "(u256 \<times> u64) list"
  es_slow_reps_enabled :: bool

datatype election_event =
  Force_Confirmed "block option"
| Force_Appended "block option"
| Confirm_Sent u256 u64 u512 block
| Conflict_Sent u256 u64 u64 u512 u512 block block
| Own_Confirm_Sent u256 u64
| Confirms_Requested_Except block "u256 list"
| Confirms_Requested_From block "u256 list"
| Election_Cutoff u256
| Election_Assertion
| Election_End_Read

record elections =
  es_last_update :: u64
  es_online_reps :: "u256 list"
  es_weight_total :: u128
  es_weight_online :: u128
  es_weights :: "account_weight list"
  es_weights_top :: "(u64 \<times> u256 list) list"
  es_elections :: "election list"
  es_concurrency :: nat
  es_actives :: "u256 list"
  es_forks :: "u256 list"
  es_stats :: election_stats
  es_events :: "election_event list"

text \<open>What a step reads of the rest of the node: the steady clock, random numbers, the weight of the node's own
  account, the online peers, the representative weights of the ledger, and whether the node runs.\<close>

record surroundings =
  sr_now :: time_point
  sr_Random :: "u64 \<Rightarrow> u64 \<Rightarrow> u64"
  sr_GenerateWord32 :: "u32 \<Rightarrow> u32 \<Rightarrow> u32"
  sr_self_weight :: u128
  sr_peers :: "u256 list"
  sr_memory :: ledger_memory
  sr_run :: bool

definition seconds :: "nat \<Rightarrow> time_point" where
  "seconds n = int n * 1000000000"

definition FORK_ELECTION_DELAY :: nat where "FORK_ELECTION_DELAY = 32"
definition FORK_ELECTION_INTERVAL :: nat where "FORK_ELECTION_INTERVAL = 32"
definition NON_FORK_ELECTION_DELAY :: nat where "NON_FORK_ELECTION_DELAY = 1"
definition NON_FORK_ELECTION_INTERVAL :: nat where "NON_FORK_ELECTION_INTERVAL = 1"
definition FORK_CONCURRENCY :: nat where "FORK_CONCURRENCY = 4"
definition ELECTION_CONCURRENCY :: nat where "ELECTION_CONCURRENCY = 16"
definition CUTOFF_ROUNDS :: u32 where "CUTOFF_ROUNDS = 10"

lemmas election_constants =
  FORK_ELECTION_DELAY_def FORK_ELECTION_INTERVAL_def NON_FORK_ELECTION_DELAY_def NON_FORK_ELECTION_INTERVAL_def
  FORK_CONCURRENCY_def ELECTION_CONCURRENCY_def CUTOFF_ROUNDS_def

section \<open>Votes\<close>

text \<open>The value that \<open>WeightFactor\<close> computes before its assertion: full weight for a vote within
  \<open>allow\<close> seconds of now, none beyond twice that, linear in between.\<close>

definition WeightFactor_result :: "env \<Rightarrow> rep_vote_info \<Rightarrow> u64 \<Rightarrow> u64" where
  "WeightFactor_result E info allow =
     (let now = CurrentTimestamp E; t = vt_timestamp (ri_last_vote info) in
      if allow = 0 \<or> allow > MAX_TIMESTAMP_DIFF then 0
      else if t \<le> now - allow * 2 then 0
      else if t \<le> now - allow then (t + allow * 2 - now) * 100 div allow
      else if t \<le> now + allow then 100
      else if t \<le> now + allow * 2 then (now + allow * 2 - t) * 100 div allow
      else 0)"

definition WeightFactor :: "env \<Rightarrow> rep_vote_info \<Rightarrow> u64 \<Rightarrow> u64" where
  "WeightFactor E info allow =
     (let result = WeightFactor_result E info allow in if result > 100 then 0 else result)"

definition CheckConflict :: "vote \<Rightarrow> vote \<Rightarrow> bool" where
  "CheckConflict first second =
     (if vt_timestamp first = vt_timestamp second \<and> vt_hash first = vt_hash second then False
      else (let diff = (if vt_timestamp first > vt_timestamp second then vt_timestamp first - vt_timestamp second
                        else vt_timestamp second - vt_timestamp first)
            in diff < MIN_CONFIRM_INTERVAL))"

section \<open>One election\<close>

definition Election_new :: "surroundings \<Rightarrow> election" where
  "Election_new N = \<lparr>el_account = 0, el_height = INVALID_HEIGHT, el_fork_found = False, el_broadcast = True,
     el_rounds = 0, el_rounds_fork = 0, el_wins = 0, el_confirms = 0,
     el_fork_broadcast_delay = sr_GenerateWord32 N 1 (of_nat FORK_ELECTION_DELAY - 8), el_winner = 0,
     el_wakeup = sr_now N - seconds NON_FORK_ELECTION_DELAY, el_blocks = [], el_votes = [], el_conflicts = []\<rparr>"

definition Election_AddBlock :: "env \<Rightarrow> surroundings \<Rightarrow> block \<Rightarrow> election \<Rightarrow> election" where
  "Election_AddBlock E N block e = (case map_of (el_blocks e) (Hash E block) of
     None \<Rightarrow>
       (let e = e\<lparr>el_blocks := AList.update (Hash E block) \<lparr>br_refs = 1, br_block = block\<rparr> (el_blocks e)\<rparr> in
        if \<not> el_fork_found e \<and> length (el_blocks e) > 1
        then e\<lparr>el_fork_found := True,
               el_wakeup := sr_now N + seconds FORK_ELECTION_DELAY + seconds (unat (el_fork_broadcast_delay e)),
               el_broadcast := True\<rparr>
        else e)
   | Some r \<Rightarrow> e\<lparr>el_blocks := AList.update (Hash E block) (r\<lparr>br_refs := br_refs r + 1\<rparr>) (el_blocks e)\<rparr>)"

definition Election_DelBlock :: "u256 \<Rightarrow> election \<Rightarrow> election" where
  "Election_DelBlock hash e = (case map_of (el_blocks e) hash of
     None \<Rightarrow> e
   | Some r \<Rightarrow>
       if br_refs r = 0 then e
       else (let r = r\<lparr>br_refs := br_refs r - 1\<rparr>;
                 e = e\<lparr>el_blocks := AList.update hash r (el_blocks e)\<rparr>
             in if br_refs r = 0 \<and> length (el_blocks e) > 1
                then e\<lparr>el_blocks := AList.delete hash (el_blocks e)\<rparr> else e))"

definition Election_TimeDiff :: "election \<Rightarrow> u64" where
  "Election_TimeDiff e =
     (if el_fork_found e then of_nat FORK_ELECTION_INTERVAL * ucast FORK_ELECTION_ROUNDS_THRESHOLD
      else of_nat FORK_ELECTION_DELAY)"

text \<open>The first loop of \<open>PurgeOutdatedVotes\<close> collects the accounts and releases their blocks, the second erases.\<close>

fun PurgeOutdatedVotes_collect ::
  "env \<Rightarrow> u64 \<Rightarrow> (u256 \<times> rep_vote_info) list \<Rightarrow> u256 list \<Rightarrow> election \<Rightarrow> u256 list \<times> election" where
  "PurgeOutdatedVotes_collect E time_diff [] accounts e = (accounts, e)"
| "PurgeOutdatedVotes_collect E time_diff ((rep, info) # is) accounts e =
     (if WeightFactor E info time_diff > 0 then PurgeOutdatedVotes_collect E time_diff is accounts e
      else if map_of (el_conflicts e) rep \<noteq> None then PurgeOutdatedVotes_collect E time_diff is accounts e
      else PurgeOutdatedVotes_collect E time_diff is (accounts @ [rep])
             (Election_DelBlock (vt_hash (ri_last_vote info)) e))"

definition PurgeOutdatedVotes :: "env \<Rightarrow> election \<Rightarrow> election" where
  "PurgeOutdatedVotes E e =
     (case PurgeOutdatedVotes_collect E (Election_TimeDiff e) (el_votes e) [] e of (accounts, e) \<Rightarrow>
        fold (\<lambda>account e. e\<lparr>el_votes := AList.delete account (el_votes e)\<rparr>) accounts e)"

section \<open>The container of elections\<close>

text \<open>\<open>modify\<close> of an ordered index: the element stays where it is when the order allows it.\<close>

definition mi_modify :: "('a \<Rightarrow> 'k::linorder) \<Rightarrow> ('a \<Rightarrow> 'h) \<Rightarrow> 'h \<Rightarrow> ('a \<Rightarrow> 'a) \<Rightarrow> 'a list \<Rightarrow> 'a list" where
  "mi_modify key hash h f xs = (case mi_find hash h xs of
     None \<Rightarrow> xs
   | Some x \<Rightarrow>
       (let ys = map (\<lambda>y. if hash y = h then f y else y) xs in
        if sorted (map key ys) then ys else mi_place key (f x) (mi_erase hash h xs)))"

definition el_find :: "elections \<Rightarrow> u256 \<Rightarrow> election option" where
  "el_find es account = mi_find el_account account (es_elections es)"

definition el_modify :: "u256 \<Rightarrow> (election \<Rightarrow> election) \<Rightarrow> elections \<Rightarrow> elections" where
  "el_modify account f es = es\<lparr>es_elections := mi_modify el_wakeup el_account account f (es_elections es)\<rparr>"

definition es_emit :: "election_event \<Rightarrow> elections \<Rightarrow> elections" where
  "es_emit ev es = es\<lparr>es_events := es_events es @ [ev]\<rparr>"

definition std_set_insert :: "'a::linorder \<Rightarrow> 'a list \<Rightarrow> 'a list" where
  "std_set_insert x xs = (if x \<in> set xs then xs else insort x xs)"

definition Elections_Erase :: "u256 \<Rightarrow> elections \<Rightarrow> elections" where
  "Elections_Erase account es =
     es\<lparr>es_elections := mi_erase el_account account (es_elections es),
        es_actives := remove1 account (es_actives es), es_forks := remove1 account (es_forks es)\<rparr>"

text \<open>\<open>TryConcurrency_\<close> returns \<open>True\<close> when the election has to wait for its turn.\<close>

definition TryConcurrency :: "election \<Rightarrow> elections \<Rightarrow> bool \<times> elections" where
  "TryConcurrency e es =
     (let account = el_account e in
      if el_fork_found e then
        (let es = es\<lparr>es_actives := remove1 account (es_actives es)\<rparr> in
         if account \<in> set (es_forks es) then (False, es)
         else (let forks = std_set_insert account (es_forks es);
                   forks = (if length forks > FORK_CONCURRENCY then butlast forks else forks)
               in (account \<notin> set forks, es\<lparr>es_forks := forks\<rparr>)))
      else
        (let es = es\<lparr>es_forks := remove1 account (es_forks es)\<rparr> in
         if account \<in> set (es_actives es) then (False, es)
         else if length (es_actives es) \<ge> es_concurrency es then (True, es)
         else (False, es\<lparr>es_actives := std_set_insert account (es_actives es)\<rparr>)))"

definition Elections_AddBlock :: "env \<Rightarrow> surroundings \<Rightarrow> u256 \<Rightarrow> block \<Rightarrow> elections \<Rightarrow> elections" where
  "Elections_AddBlock E N account block es = (case el_find es account of
     None \<Rightarrow> es
   | Some data \<Rightarrow>
       (let forked = el_fork_found data; data = Election_AddBlock E N block data;
            es = el_modify account (\<lambda>_. data) es
        in if \<not> forked \<and> el_fork_found data then snd (TryConcurrency data es) else es))"

definition Elections_DelBlock :: "u256 \<Rightarrow> u256 \<Rightarrow> elections \<Rightarrow> elections" where
  "Elections_DelBlock account hash es = el_modify account (Election_DelBlock hash) es"

definition Elections_GetBlock :: "elections \<Rightarrow> u256 \<Rightarrow> u256 \<Rightarrow> block option" where
  "Elections_GetBlock es account hash = (case el_find es account of
     None \<Rightarrow> None
   | Some e \<Rightarrow> map_option br_block (map_of (el_blocks e) hash))"

definition AddConflict :: "u256 \<Rightarrow> u256 \<Rightarrow> vote \<Rightarrow> elections \<Rightarrow> elections" where
  "AddConflict account rep v es =
     el_modify account (\<lambda>e. e\<lparr>el_conflicts := AList.update rep v (el_conflicts e)\<rparr>) es"

definition GetConflict :: "elections \<Rightarrow> u256 \<Rightarrow> u256 \<Rightarrow> vote option" where
  "GetConflict es account rep = (case el_find es account of
     None \<Rightarrow> None
   | Some e \<Rightarrow> map_of (el_conflicts e) rep)"

definition AddRepVoteInfo :: "u256 \<Rightarrow> u256 \<Rightarrow> rep_vote_info \<Rightarrow> elections \<Rightarrow> elections" where
  "AddRepVoteInfo account rep info es =
     el_modify account (\<lambda>e. e\<lparr>el_votes := AList.update rep info (el_votes e)\<rparr>) es"

text \<open>A reference to an element of \<open>elections_\<close> shows what the calls since have made of it.\<close>

definition with_election :: "u256 \<Rightarrow> elections \<Rightarrow> (election \<Rightarrow> elections) \<Rightarrow> elections" where
  "with_election account es f = (case el_find es account of None \<Rightarrow> es | Some e \<Rightarrow> f e)"


section \<open>The tally\<close>

definition weight_of :: "elections \<Rightarrow> u256 \<Rightarrow> u128 option" where
  "weight_of es account = map_option aw_weight (mi_find aw_account account (es_weights es))"

record tally =
  ta_not_voting :: "u256 list"
  ta_candidates :: "(u256 \<times> u128) list"
  ta_status :: election_status

definition candidate_add :: "u256 \<Rightarrow> u128 \<Rightarrow> (u256 \<times> u128) list \<Rightarrow> (u256 \<times> u128) list" where
  "candidate_add hash w candidates =
     AList.update hash ((case map_of candidates hash of None \<Rightarrow> 0 | Some x \<Rightarrow> x) + w) candidates"

text \<open>One vote: a conflict counts as invalid, another vote with the part of its weight that its age leaves.\<close>

definition Tally_vote :: "env \<Rightarrow> elections \<Rightarrow> u64 \<Rightarrow> u256 \<times> rep_vote_info \<Rightarrow> tally \<Rightarrow> tally" where
  "Tally_vote E es time_diff v ta = (case v of (rep, info) \<Rightarrow>
     let ta = ta\<lparr>ta_not_voting := removeAll rep (ta_not_voting ta)\<rparr>; status = ta_status ta in
     case weight_of es rep of
       None \<Rightarrow> ta
     | Some w \<Rightarrow>
         if ri_conflict_found info
         then ta\<lparr>ta_status := status\<lparr>st_conflict := st_conflict status + w, st_invalid := st_invalid status + w\<rparr>\<rparr>
         else
           (let factor = WeightFactor E info time_diff;
                weight = (ucast w :: u256) * ucast factor div 100;
                adjust = (ucast weight :: u128);
                loss = w - adjust;
                ta = (if adjust \<noteq> 0
                      then ta\<lparr>ta_candidates := candidate_add (vt_hash (ri_last_vote info)) adjust (ta_candidates ta),
                              ta_status := status\<lparr>st_valid := st_valid status + adjust\<rparr>\<rparr>
                      else ta);
                status = ta_status ta
            in if loss \<noteq> 0 then ta\<lparr>ta_status := status\<lparr>st_invalid := st_invalid status + loss\<rparr>\<rparr> else ta))"

definition Tally_absent :: "elections \<Rightarrow> u256 list \<Rightarrow> u128" where
  "Tally_absent es reps = fold (\<lambda>i sum. case weight_of es i of None \<Rightarrow> sum | Some w \<Rightarrow> sum + w) reps 0"

definition EnoughOnlineWeight :: "elections \<Rightarrow> bool" where
  "EnoughOnlineWeight es \<longleftrightarrow>
     (ucast (es_weight_online es) :: u256) * 100 > ucast (es_weight_total es) * ucast CONFIRM_WEIGHT_PERCENTAGE"

definition EnoughVotingWeight :: "elections \<Rightarrow> u128 \<Rightarrow> bool" where
  "EnoughVotingWeight es valid \<longleftrightarrow>
     (ucast valid :: u256) * 100 > ucast (es_weight_total es) * ucast CONFIRM_WEIGHT_PERCENTAGE"

definition ElectionStatus_new :: election_status where
  "ElectionStatus_new = \<lparr>st_error = False, st_win = False, st_confirm = False, st_valid = 0, st_invalid = 0,
     st_conflict = 0, st_not_voting = 0, st_block = None\<rparr>"

definition Tally_collect :: "env \<Rightarrow> elections \<Rightarrow> election \<Rightarrow> tally" where
  "Tally_collect E es e = fold (Tally_vote E es (Election_TimeDiff e)) (el_votes e)
     \<lparr>ta_not_voting = es_online_reps es, ta_candidates = [], ta_status = ElectionStatus_new\<rparr>"

text \<open>Candidates by descending weight, then by descending hash.\<close>

definition Tally_sort :: "(u256 \<times> u128) list \<Rightarrow> (u256 \<times> u128) list" where
  "Tally_sort candidates = rev (sort_key (\<lambda>c. (snd c, fst c)) candidates)"

definition Tally :: "env \<Rightarrow> elections \<Rightarrow> election \<Rightarrow> election_status" where
  "Tally E es e =
     (let ta = Tally_collect E es e;
          result = (ta_status ta)\<lparr>st_not_voting := Tally_absent es (ta_not_voting ta)\<rparr> in
      case Tally_sort (ta_candidates ta) of
        [] \<Rightarrow> result
      | first # others \<Rightarrow>
          (let first_s = (ucast (snd first) :: u256);
               second_s = (case others of [] \<Rightarrow> 0 | second # _ \<Rightarrow> (ucast (snd second) :: u256));
               total_s = (ucast (es_weight_total es) :: u256);
               confirm = first_s * 100 > total_s * ucast CONFIRM_WEIGHT_PERCENTAGE;
               win = (confirm
                 \<or> EnoughOnlineWeight es \<and> first_s > second_s + ucast (st_not_voting result)
                 \<or> EnoughVotingWeight es (st_valid result) \<and> el_rounds_fork e > FORK_ELECTION_ROUNDS_THRESHOLD * 2 \<and>
                   first_s > second_s);
               result = result\<lparr>st_confirm := confirm, st_win := win\<rparr>
           in case map_of (el_blocks e) (fst first) of
                None \<Rightarrow> result\<lparr>st_error := True\<rparr>
              | Some r \<Rightarrow> result\<lparr>st_block := Some (br_block r)\<rparr>))"

section \<open>Asking for votes\<close>

fun TopOnlineReps_collect :: "u256 \<Rightarrow> u256 \<Rightarrow> account_weight list \<Rightarrow> u256 list" where
  "TopOnlineReps_collect enough weight [] = []"
| "TopOnlineReps_collect enough weight (i # is) =
     (let weight = weight + ucast (aw_weight i) in
      aw_account i # (if weight * 100 \<ge> enough then [] else TopOnlineReps_collect enough weight is))"

definition TopOnlineReps :: "u64 \<Rightarrow> elections \<Rightarrow> u256 list \<times> elections" where
  "TopOnlineReps percent es =
     (let percent = (if percent = 0 then 1 else percent); percent = (if percent > 100 then 100 else percent) in
      case map_of (es_weights_top es) percent of
        Some accounts \<Rightarrow> (accounts, es)
      | None \<Rightarrow>
          (let accounts = TopOnlineReps_collect (ucast (es_weight_total es) * ucast percent) 0 (es_weights es)
           in (accounts, es\<lparr>es_weights_top := AList.update percent accounts (es_weights_top es)\<rparr>)))"

definition stat_inc :: "'a \<Rightarrow> ('a \<times> u64) list \<Rightarrow> ('a \<times> u64) list" where
  "stat_inc k xs = AList.update k (case map_of xs k of None \<Rightarrow> 1 | Some n \<Rightarrow> n + 1) xs"

definition IncRounds :: "u32 \<Rightarrow> election_stats \<Rightarrow> election_stats" where
  "IncRounds n s = s\<lparr>es_stat_rounds := stat_inc n (es_stat_rounds s)\<rparr>"

definition IncRoundsFork :: "u32 \<Rightarrow> election_stats \<Rightarrow> election_stats" where
  "IncRoundsFork n s = s\<lparr>es_stat_rounds_fork := stat_inc n (es_stat_rounds_fork s)\<rparr>"

definition IncSlowReps :: "u256 \<Rightarrow> election_stats \<Rightarrow> election_stats" where
  "IncSlowReps rep s = s\<lparr>es_slow_reps := stat_inc rep (es_slow_reps s)\<rparr>"

definition RequestConfirms_target :: "u32 \<Rightarrow> u256 \<Rightarrow> elections \<Rightarrow> elections" where
  "RequestConfirms_target rounds rep es =
     (if es_slow_reps_enabled (es_stats es) \<and> rounds > 0 then
        (case weight_of es rep of
           None \<Rightarrow> es_emit Election_End_Read es
         | Some w \<Rightarrow> if w > RAI * 200000 then es\<lparr>es_stats := IncSlowReps rep (es_stats es)\<rparr> else es)
      else es)"

definition RequestConfirms_filter :: "env \<Rightarrow> election \<Rightarrow> u256 list" where
  "RequestConfirms_filter E e = map fst (filter (\<lambda>(rep, info). ri_conflict_found info \<or>
     vt_timestamp (ri_last_vote info) \<ge> CurrentTimestamp E - MIN_CONFIRM_INTERVAL) (el_votes e))"

definition RequestConfirms :: "env \<Rightarrow> election \<Rightarrow> elections \<Rightarrow> elections" where
  "RequestConfirms E e es = (case el_blocks e of
     [] \<Rightarrow> es_emit Election_Assertion es
   | (_, r) # _ \<Rightarrow>
       (let except = RequestConfirms_filter E e in
        if el_rounds e \<ge> 3 then es_emit (Confirms_Requested_Except (br_block r) except) es
        else (case TopOnlineReps 95 es of (reps, es) \<Rightarrow>
          let targets = filter (\<lambda>rep. rep \<notin> set except) reps;
              es = fold (RequestConfirms_target (el_rounds e)) targets es
          in es_emit (Confirms_Requested_From (br_block r) targets) es)))"

definition BroadcastConfirms_vote :: "u256 \<Rightarrow> u256 \<times> rep_vote_info \<Rightarrow> elections \<Rightarrow> elections" where
  "BroadcastConfirms_vote account v es = (case v of (rep, info) \<Rightarrow>
     let v = ri_last_vote info in
     if ri_weight info < QUALIFIED_REP_WEIGHT then es
     else case Elections_GetBlock es account (vt_hash v) of
       None \<Rightarrow> es
     | Some block \<Rightarrow>
         if \<not> ri_conflict_found info then es_emit (Confirm_Sent rep (vt_timestamp v) (vt_signature v) block) es
         else case GetConflict es account rep of
           None \<Rightarrow> es
         | Some conflict \<Rightarrow>
             case Elections_GetBlock es account (vt_hash conflict) of
               None \<Rightarrow> es
             | Some block_conflict \<Rightarrow>
                 es_emit (Conflict_Sent rep (vt_timestamp v) (vt_timestamp conflict) (vt_signature v)
                   (vt_signature conflict) block block_conflict) es)"

definition BroadcastConfirms :: "election \<Rightarrow> elections \<Rightarrow> elections" where
  "BroadcastConfirms e es = fold (BroadcastConfirms_vote (el_account e)) (el_votes e) es"

definition NextWakeup :: "surroundings \<Rightarrow> election \<Rightarrow> time_point" where
  "NextWakeup N e =
     (if el_fork_found e then
        (if el_broadcast e then sr_now N + seconds (unat (el_fork_broadcast_delay e))
         else sr_now N + seconds FORK_ELECTION_INTERVAL - seconds (unat (el_fork_broadcast_delay e)))
      else
        (let shift = el_rounds e div 5; shift = (if shift > 4 then 4 else shift);
             delay = (push_bit (unat shift) (of_nat NON_FORK_ELECTION_INTERVAL) :: u64);
             delay = (if delay > 1 then sr_Random N 1 delay else delay)
         in sr_now N + seconds (unat delay)))"


section \<open>One turn of an election\<close>

definition ProcessElection_restart :: "surroundings \<Rightarrow> u256 \<Rightarrow> elections \<Rightarrow> elections" where
  "ProcessElection_restart N account es =
     el_modify account (\<lambda>e. e\<lparr>el_wins := 0, el_confirms := 0, el_rounds := 0, el_rounds_fork := 0, el_broadcast := True,
       el_wakeup := sr_now N + seconds (unat (sr_Random N 1 (Election_TimeDiff e)))\<rparr>) es"

definition ProcessElection_plain ::
  "env \<Rightarrow> surroundings \<Rightarrow> u256 \<Rightarrow> election \<Rightarrow> election_status \<Rightarrow> elections \<Rightarrow> elections" where
  "ProcessElection_plain E N account e status es =
     (if st_confirm status then
        (let es = es_emit (Force_Confirmed (st_block status)) es;
             es = es\<lparr>es_stats := IncRounds (el_rounds e) (es_stats es)\<rparr>
         in Elections_Erase account es)
      else
        (let es = (if el_broadcast e then
                     (let es = el_modify account (\<lambda>e. e\<lparr>el_broadcast := False\<rparr>) es;
                          es = with_election account es (\<lambda>e. RequestConfirms E e es)
                      in el_modify account (\<lambda>e. e\<lparr>el_wakeup := sr_now N + seconds 1\<rparr>) es)
                   else
                     (let es = el_modify account (\<lambda>e. e\<lparr>el_broadcast := True\<rparr>) es;
                          es = el_modify account (\<lambda>e. e\<lparr>el_rounds := el_rounds e + 1\<rparr>) es
                      in el_modify account (\<lambda>e. e\<lparr>el_wakeup := NextWakeup N e\<rparr>) es))
         in with_election account es (\<lambda>e.
              if el_rounds e \<ge> CUTOFF_ROUNDS then es_emit (Election_Cutoff account) (Elections_Erase account es)
              else es)))"

text \<open>How a finished round of a fork counts: wins and confirms of the same block in a row.\<close>

definition count_round :: "env \<Rightarrow> election_status \<Rightarrow> election \<Rightarrow> election" where
  "count_round E status e =
     (let hash = (case st_block status of None \<Rightarrow> 0 | Some b \<Rightarrow> Hash E b);
          e = (if st_win status then
                 (if hash = el_winner e
                  then e\<lparr>el_wins := el_wins e + 1, el_confirms := (if st_confirm status then el_confirms e + 1 else 0)\<rparr>
                  else e\<lparr>el_wins := 1, el_confirms := (if st_confirm status then 1 else 0), el_winner := hash\<rparr>)
               else e\<lparr>el_wins := 0, el_confirms := 0\<rparr>)
      in e\<lparr>el_rounds := el_rounds e + 1, el_rounds_fork := el_rounds_fork e + 1\<rparr>)"

definition ProcessElection_fork ::
  "env \<Rightarrow> surroundings \<Rightarrow> u256 \<Rightarrow> election \<Rightarrow> election_status \<Rightarrow> elections \<Rightarrow> elections" where
  "ProcessElection_fork E N account e status es =
     (if el_broadcast e then
        (let es = el_modify account (\<lambda>e. e\<lparr>el_broadcast := False\<rparr>) es;
             es = with_election account es (\<lambda>e. BroadcastConfirms e es);
             es = (if sr_self_weight N \<ge> QUALIFIED_REP_WEIGHT
                   then es_emit (Own_Confirm_Sent account (el_height e)) es else es)
         in el_modify account (\<lambda>e. e\<lparr>el_wakeup := NextWakeup N e\<rparr>) es)
      else
        (let es = el_modify account (\<lambda>e. e\<lparr>el_broadcast := True\<rparr>) es;
             es = el_modify account (count_round E status) es
         in with_election account es (\<lambda>e.
              if el_confirms e \<ge> FORK_ELECTION_ROUNDS_THRESHOLD then
                (let es = es_emit (Force_Confirmed (st_block status)) es;
                     es = es\<lparr>es_stats := IncRoundsFork (el_rounds e) (es_stats es)\<rparr>
                 in Elections_Erase account es)
              else
                (let es = (if el_wins e = FORK_ELECTION_ROUNDS_THRESHOLD
                           then es_emit (Force_Appended (st_block status)) es else es);
                     es = (if el_rounds_fork e > FORK_ELECTION_ROUNDS_THRESHOLD then RequestConfirms E e es else es)
                 in el_modify account (\<lambda>e. e\<lparr>el_wakeup := NextWakeup N e\<rparr>) es))))"

definition ProcessElection :: "env \<Rightarrow> surroundings \<Rightarrow> u256 \<Rightarrow> elections \<Rightarrow> elections" where
  "ProcessElection E N account es =
     (let es = el_modify account (PurgeOutdatedVotes E) es in
      with_election account es (\<lambda>e.
        case TryConcurrency e es of (wait, es) \<Rightarrow>
          if wait then ProcessElection_restart N account es
          else (let status = Tally E es e in
            if st_error status then Elections_Erase account (es_emit Election_Assertion es)
            else if \<not> el_fork_found e then ProcessElection_plain E N account e status es
            else ProcessElection_fork E N account e status es)))"

definition UpdateWeightInfo :: "env \<Rightarrow> surroundings \<Rightarrow> elections \<Rightarrow> elections" where
  "UpdateWeightInfo E N es =
     (if CurrentTimestamp E < es_last_update es + 10 then es
      else (let online = filter (\<lambda>i. rep_weights (sr_memory N) i \<noteq> None) (sr_peers N);
                weight = (\<lambda>i. case rep_weights (sr_memory N) i of None \<Rightarrow> 0 | Some w \<Rightarrow> w) in
        es\<lparr>es_last_update := CurrentTimestamp E, es_online_reps := sr_peers N,
           es_weight_total := total_rep_weight (sr_memory N),
           es_weight_online := fold (\<lambda>i sum. sum + weight i) online 0,
           es_weights := fold (\<lambda>i ws. snd (mi_insert (\<lambda>a. - uint (aw_weight a)) aw_account
             \<lparr>aw_account = i, aw_weight = weight i\<rparr> ws)) online [],
           es_weights_top := []\<rparr>))"

text \<open>One turn of \<open>Elections::Run\<close>: the election that wakes up first, when its time has come.\<close>

definition Elections_Run_step :: "env \<Rightarrow> surroundings \<Rightarrow> elections \<Rightarrow> elections" where
  "Elections_Run_step E N es =
     (if \<not> sr_run N then es
      else if es_elections es = [] then es
      else (let es = UpdateWeightInfo E N es in
        case es_elections es of
          [] \<Rightarrow> es
        | e # _ \<Rightarrow> if el_wakeup e \<le> sr_now N then ProcessElection E N (el_account e) es else es))"

section \<open>Blocks and votes from the rest of the node\<close>

definition Elections_Add :: "env \<Rightarrow> surroundings \<Rightarrow> block list \<Rightarrow> elections \<Rightarrow> elections" where
  "Elections_Add E N blocks es = (case blocks of
     [] \<Rightarrow> es
   | block # _ \<Rightarrow>
       (let account = Account block; height = Height block in
        if \<exists>i \<in> set blocks. Account i \<noteq> account \<or> Height i \<noteq> height then es
        else
          (let start = (\<lambda>es.
             (let e = fold (Election_AddBlock E N) blocks ((Election_new N)\<lparr>el_account := account, el_height := height\<rparr>);
                  es = es\<lparr>es_elections := snd (mi_insert el_wakeup el_account e (es_elections es))\<rparr>
              in if el_fork_found e then snd (TryConcurrency e es) else es))
           in case el_find es account of
                None \<Rightarrow> start es
              | Some e \<Rightarrow>
                  if el_height e < height then es
                  else if el_height e > height then start (Elections_Erase account es)
                  else fold (Elections_AddBlock E N account) blocks es)))"

definition ProcessConfirm ::
  "env \<Rightarrow> surroundings \<Rightarrow> u256 \<Rightarrow> u64 \<Rightarrow> u512 \<Rightarrow> block \<Rightarrow> u128 \<Rightarrow> elections \<Rightarrow> elections" where
  "ProcessConfirm E N representative timestamp signature block weight es =
     (let account = Account block in
      with_election account es (\<lambda>e.
        if el_height e \<noteq> Height block then es
        else
          (let vote = \<lparr>vt_timestamp = timestamp, vt_signature = signature, vt_hash = Hash E block\<rparr>;
               send = (\<lambda>es. with_election account es (\<lambda>e.
                 if el_fork_found e \<and> weight \<ge> QUALIFIED_REP_WEIGHT
                 then es_emit (Confirm_Sent representative timestamp signature block) es else es))
           in case map_of (el_votes e) representative of
                None \<Rightarrow>
                  (let es = AddRepVoteInfo account representative
                         \<lparr>ri_conflict_found = False, ri_weight = weight, ri_last_vote = vote\<rparr> es;
                       es = Elections_AddBlock E N account block es
                   in send es)
              | Some info \<Rightarrow>
                  if ri_conflict_found info then es
                  else if CheckConflict (ri_last_vote info) vote then
                    (let last_vote = ri_last_vote info;
                         es = AddRepVoteInfo account representative
                           \<lparr>ri_conflict_found = True, ri_weight = weight, ri_last_vote = last_vote\<rparr> es;
                         es = AddConflict account representative vote es;
                         es = Elections_AddBlock E N account block es
                     in with_election account es (\<lambda>e.
                       if el_fork_found e \<and> weight \<ge> QUALIFIED_REP_WEIGHT then
                         (case Elections_GetBlock es account (vt_hash last_vote) of
                            None \<Rightarrow> es_emit Election_Assertion es
                          | Some last_block \<Rightarrow>
                              es_emit (Conflict_Sent representative (vt_timestamp last_vote) timestamp
                                (vt_signature last_vote) signature last_block block) es)
                       else es))
                  else if vt_timestamp (ri_last_vote info) \<ge> timestamp then es
                  else
                    (let es = Elections_DelBlock account (vt_hash (ri_last_vote info)) es;
                         es = AddRepVoteInfo account representative
                           \<lparr>ri_conflict_found = False, ri_weight = weight, ri_last_vote = vote\<rparr> es;
                         es = Elections_AddBlock E N account block es
                     in send es))))"

definition ProcessConflict ::
  "env \<Rightarrow> surroundings \<Rightarrow> u256 \<Rightarrow> u64 \<Rightarrow> u64 \<Rightarrow> u512 \<Rightarrow> u512 \<Rightarrow> block \<Rightarrow> block \<Rightarrow> u128 \<Rightarrow> elections \<Rightarrow> elections" where
  "ProcessConflict E N representative timestamp_first timestamp_second signature_first signature_second
     block_first block_second weight es =
     (if Account block_first \<noteq> Account block_second \<or> Height block_first \<noteq> Height block_second then es
      else
        (let account = Account block_first;
             vote_first = \<lparr>vt_timestamp = timestamp_first, vt_signature = signature_first, vt_hash = Hash E block_first\<rparr>;
             vote_second = \<lparr>vt_timestamp = timestamp_second, vt_signature = signature_second, vt_hash = Hash E block_second\<rparr>
         in if \<not> CheckConflict vote_first vote_second then es
            else with_election account es (\<lambda>e.
              if el_height e \<noteq> Height block_first then es
              else
                (let record_both = (\<lambda>es.
                   (let es = AddRepVoteInfo account representative
                          \<lparr>ri_conflict_found = True, ri_weight = weight, ri_last_vote = vote_first\<rparr> es;
                        es = Elections_AddBlock E N account block_first es;
                        es = AddConflict account representative vote_second es;
                        es = Elections_AddBlock E N account block_second es
                    in with_election account es (\<lambda>e.
                      if el_fork_found e \<and> weight \<ge> QUALIFIED_REP_WEIGHT
                      then es_emit (Conflict_Sent representative timestamp_first timestamp_second signature_first
                        signature_second block_first block_second) es
                      else es)))
                 in case map_of (el_votes e) representative of
                      None \<Rightarrow> record_both es
                    | Some info \<Rightarrow>
                        if ri_conflict_found info then es
                        else record_both (Elections_DelBlock account (vt_hash (ri_last_vote info)) es)))))"

end
