(* ===== verification/Rounds.thy ===== *)
theory Rounds
  imports Elections
begin

text \<open>
  The rounds of a forked election: \<open>ProcessElection\<close> confirms a block of a fork only after five rounds in a row that
  it won and that were confirmed, and any other round starts the count again.
\<close>

section \<open>Rounds of a fork\<close>

text \<open>The counters of \<open>count_round\<close> are the lengths of the current streaks: rounds won in a row by one block, and
  among the latest of them those that were confirmed.\<close>

definition status_hash :: "env \<Rightarrow> election_status \<Rightarrow> u256" where
  "status_hash E status = (case st_block status of None \<Rightarrow> 0 | Some b \<Rightarrow> Hash E b)"

lemma count_round_fields:
  "el_wins (count_round E s e) = (if \<not> st_win s then 0 else if status_hash E s = el_winner e then el_wins e + 1 else 1)"
  "el_confirms (count_round E s e) = (if \<not> (st_win s \<and> st_confirm s) then 0
     else if status_hash E s = el_winner e then el_confirms e + 1 else 1)"
  "el_winner (count_round E s e) = (if st_win s then status_hash E s else el_winner e)"
  by (auto simp: count_round_def status_hash_def Let_def)

definition streak :: "env \<Rightarrow> u256 \<Rightarrow> (election_status \<Rightarrow> bool) \<Rightarrow> election_status list \<Rightarrow> nat" where
  "streak E h P ss = length (takeWhile (\<lambda>s. P s \<and> status_hash E s = h) (rev ss))"

lemma streak_snoc: "streak E h P (ss @ [s]) = (if P s \<and> status_hash E s = h then Suc (streak E h P ss) else 0)"
  by (simp add: streak_def)

lemma streak_le: "streak E h P ss \<le> length ss"
  unfolding streak_def by (metis length_rev length_takeWhile_le)

lemma takeWhile_ge: "n \<le> length (takeWhile P xs) \<longleftrightarrow> n \<le> length xs \<and> (\<forall>x \<in> set (take n xs). P x)"
proof (induction xs arbitrary: n)
  case (Cons x xs)
  then show ?case by (cases n) auto
qed simp

lemma streak_ge: "n \<le> streak E h P ss \<longleftrightarrow> n \<le> length ss \<and> (\<forall>s \<in> set (take n (rev ss)). P s \<and> status_hash E s = h)"
  by (simp add: streak_def takeWhile_ge)

lemma count_rounds:
  assumes "length ss < 2 ^ 32" "el_wins e = 0" "el_confirms e = 0"
  shows "unat (el_wins (fold (count_round E) ss e)) = streak E (el_winner (fold (count_round E) ss e)) st_win ss"
    "unat (el_confirms (fold (count_round E) ss e)) =
       streak E (el_winner (fold (count_round E) ss e)) (\<lambda>s. st_win s \<and> st_confirm s) ss"
proof -
  let ?P = "\<lambda>s. st_win s \<and> st_confirm s"
  have "(ss \<noteq> [] \<longrightarrow> st_win (last ss) \<longrightarrow> status_hash E (last ss) = el_winner (fold (count_round E) ss e)) \<and>
    unat (el_wins (fold (count_round E) ss e)) = streak E (el_winner (fold (count_round E) ss e)) st_win ss \<and>
    unat (el_confirms (fold (count_round E) ss e)) = streak E (el_winner (fold (count_round E) ss e)) ?P ss"
    using assms(1)
  proof (induction ss rule: rev_induct)
    case Nil
    with assms(2,3) show ?case by (simp add: streak_def)
  next
    case (snoc s ss)
    let ?e = "fold (count_round E) ss e"
    have IH: "ss \<noteq> [] \<longrightarrow> st_win (last ss) \<longrightarrow> status_hash E (last ss) = el_winner ?e"
      "unat (el_wins ?e) = streak E (el_winner ?e) st_win ss" "unat (el_confirms ?e) = streak E (el_winner ?e) ?P ss"
      using snoc by simp_all
    have less: "unat (el_wins ?e) < 2 ^ 32 - 1" "unat (el_confirms ?e) < 2 ^ 32 - 1"
      using snoc.prems streak_le [of E "el_winner ?e" _ ss] le_less_trans [OF streak_le, of ss] by (simp_all add: IH)
    have suc: "unat (el_wins ?e + 1) = Suc (unat (el_wins ?e))" "unat (el_confirms ?e + 1) = Suc (unat (el_confirms ?e))"
      using less by (simp_all add: unat_word_ariths)
    have fresh: "streak E h st_win ss = 0 \<and> streak E h ?P ss = 0" if "h \<noteq> el_winner ?e" for h
      using that IH(1) by (cases ss rule: rev_cases) (auto simp: streak_def)
    show ?case
      using suc IH(2,3) fresh [of "status_hash E s"]
      by (simp add: count_round_fields streak_snoc)
  qed
  then show "unat (el_wins (fold (count_round E) ss e)) = streak E (el_winner (fold (count_round E) ss e)) st_win ss"
    "unat (el_confirms (fold (count_round E) ss e)) = streak E (el_winner (fold (count_round E) ss e)) ?P ss" by simp_all
qed

lemma count_rounds_winner: "ss \<noteq> [] \<Longrightarrow> st_win (last ss) \<Longrightarrow> el_winner (fold (count_round E) ss e) = status_hash E (last ss)"
  by (cases ss rule: rev_cases) (simp_all add: count_round_fields)

lemma fork_confirms:
  assumes "length ss < 2 ^ 32" "el_wins e = 0" "el_confirms e = 0"
  shows "FORK_ELECTION_ROUNDS_THRESHOLD \<le> el_confirms (fold (count_round E) ss e) \<longleftrightarrow>
    5 \<le> length ss \<and> (\<exists>h. \<forall>s \<in> set (take 5 (rev ss)). st_win s \<and> st_confirm s \<and> status_hash E s = h)"
proof -
  let ?e = "fold (count_round E) ss e" and ?P = "\<lambda>s. st_win s \<and> st_confirm s"
  have "FORK_ELECTION_ROUNDS_THRESHOLD \<le> el_confirms ?e \<longleftrightarrow> 5 \<le> streak E (el_winner ?e) ?P ss"
    by (simp add: word_le_nat_alt constant_defs count_rounds(2) [OF assms])
  also have "\<dots> \<longleftrightarrow> 5 \<le> length ss \<and> (\<forall>s \<in> set (take 5 (rev ss)). ?P s \<and> status_hash E s = el_winner ?e)"
    by (rule streak_ge)
  also have "\<dots> \<longleftrightarrow> 5 \<le> length ss \<and> (\<exists>h. \<forall>s \<in> set (take 5 (rev ss)). ?P s \<and> status_hash E s = h)"
  proof -
    have "status_hash E (last ss) = el_winner ?e \<and> h = el_winner ?e"
      if len: "5 \<le> length ss" and all: "\<forall>s \<in> set (take 5 (rev ss)). ?P s \<and> status_hash E s = h" for h
    proof -
      obtain s ss' where ss: "ss = ss' @ [s]" using len by (cases ss rule: rev_cases) auto
      then have "last ss \<in> set (take 5 (rev ss))" by (simp add: numeral_eq_Suc)
      with all count_rounds_winner [of ss E e] ss show ?thesis by auto
    qed
    then show ?thesis by blast
  qed
  finally show ?thesis by simp
qed

end
