(* ===== verification/Ledger.thy ===== *)
theory Ledger
  imports Store
begin

text \<open>
  The ledger's tables that the block lattice uses, from \<open>rai/secure/ledger.cpp\<close>: the stored
  records with their serialisation, and the Put/Get/Del operations on accounts, blocks (with
  the successor hash kept behind the block and the sparse height index), receivables,
  rewardables, rolled-back blocks, forks and bindings, plus the rich list and delegator list.

  Every operation works on encoded keys and values of the store. The record \<open>ledger_view\<close> holds
  the same tables as typed maps, \<open>ledger_rel\<close> relates the two, and each operation is shown
  to act on the view as a plain map update or lookup.
\<close>

section \<open>Stored records\<close>

record account_info =
  ai_type :: block_type
  ai_forks :: u16
  ai_head_height :: u64
  ai_tail_height :: u64
  ai_confirmed_height :: u64
  ai_head :: u256
  ai_tail :: u256

definition AccountInfo_new :: "block_type \<Rightarrow> u256 \<Rightarrow> account_info" where
  "AccountInfo_new type hash =
     \<lparr>ai_type = type, ai_forks = 0, ai_head_height = 0, ai_tail_height = 0,
      ai_confirmed_height = INVALID_HEIGHT, ai_head = hash, ai_tail = hash\<rparr>"

definition AccountInfo_Serialize :: "account_info \<Rightarrow> bytes" where
  "AccountInfo_Serialize i =
     Write (of_block_type (ai_type i)) @ Write (ai_forks i) @ Write (ai_head_height i) @
     Write (ai_tail_height i) @ Write (ai_confirmed_height i) @ Write (ai_head i) @ Write (ai_tail i)"

definition AccountInfo_Deserialize :: "bytes \<Rightarrow> account_info option" where
  "AccountInfo_Deserialize s =
     do {
       (type, s) \<leftarrow> Read s;
       (forks, s) \<leftarrow> Read s;
       (head_height, s) \<leftarrow> Read s;
       (tail_height, s) \<leftarrow> Read s;
       (confirmed_height, s) \<leftarrow> Read s;
       (head, s) \<leftarrow> Read s;
       (tail, s) \<leftarrow> Read s;
       Some \<lparr>ai_type = block_type_of type, ai_forks = forks, ai_head_height = head_height,
         ai_tail_height = tail_height, ai_confirmed_height = confirmed_height,
         ai_head = head, ai_tail = tail\<rparr>
     }"

definition AccountInfo_Valid :: "account_info \<Rightarrow> bool" where
  "AccountInfo_Valid i =
     (if ai_head_height i = INVALID_HEIGHT \<or> ai_tail_height i = INVALID_HEIGHT then False
      else if ai_head i = 0 \<or> ai_tail i = 0 then False
      else True)"

definition AccountInfo_Confirmed :: "account_info \<Rightarrow> u64 \<Rightarrow> bool" where
  "AccountInfo_Confirmed i height =
     (if \<not> AccountInfo_Valid i then False
      else if ai_confirmed_height i = INVALID_HEIGHT then False
      else if ai_confirmed_height i \<ge> height then True
      else False)"

definition AccountInfo_Restricted :: "env \<Rightarrow> account_info \<Rightarrow> u32 \<Rightarrow> bool" where
  "AccountInfo_Restricted E i credit \<longleftrightarrow>
     ucast (ai_forks i) > MaxAllowedForks (RAI_NETWORK E) (CurrentTimestamp E) credit"

record receivable_info =
  ri_source :: u256
  ri_amount :: u128
  ri_timestamp :: u64

definition ReceivableInfo_Serialize :: "receivable_info \<Rightarrow> bytes" where
  "ReceivableInfo_Serialize i = Write (ri_source i) @ Write (ri_amount i) @ Write (ri_timestamp i)"

definition ReceivableInfo_Deserialize :: "bytes \<Rightarrow> receivable_info option" where
  "ReceivableInfo_Deserialize s =
     do {
       (source, s) \<leftarrow> Read s;
       (amount, s) \<leftarrow> Read s;
       (timestamp, s) \<leftarrow> Read s;
       Some \<lparr>ri_source = source, ri_amount = amount, ri_timestamp = timestamp\<rparr>
     }"

record rewardable_info =
  wi_source :: u256
  wi_amount :: u128
  wi_valid_timestamp :: u64

definition RewardableInfo_Serialize :: "rewardable_info \<Rightarrow> bytes" where
  "RewardableInfo_Serialize i =
     Write (wi_source i) @ Write (wi_amount i) @ Write (wi_valid_timestamp i)"

definition RewardableInfo_Deserialize :: "bytes \<Rightarrow> rewardable_info option" where
  "RewardableInfo_Deserialize s =
     do {
       (source, s) \<leftarrow> Read s;
       (amount, s) \<leftarrow> Read s;
       (valid_timestamp, s) \<leftarrow> Read s;
       Some \<lparr>wi_source = source, wi_amount = amount, wi_valid_timestamp = valid_timestamp\<rparr>
     }"

record binding_key =
  bk_account :: u256
  bk_chain :: chain
  bk_height :: u64

text \<open>The height is complemented, so that the newest binding of a chain comes first.\<close>

definition BindingKey_Serialize :: "binding_key \<Rightarrow> bytes" where
  "BindingKey_Serialize k = Write (bk_account k) @ Write (bk_chain k) @ Write (not (bk_height k))"

definition BindingKey_Deserialize :: "bytes \<Rightarrow> binding_key option" where
  "BindingKey_Deserialize s =
     do {
       (account, s) \<leftarrow> Read s;
       (chain, s) \<leftarrow> Read s;
       (height, s) \<leftarrow> Read s;
       Some \<lparr>bk_account = account, bk_chain = chain, bk_height = not height\<rparr>
     }"

section \<open>Accounts\<close>

definition AccountInfoPut ::
  "'db lmdb \<Rightarrow> 'db transaction \<Rightarrow> u256 \<Rightarrow> account_info \<Rightarrow> bool \<times> 'db transaction" where
  "AccountInfoPut M txn account info =
     (if \<not> txn_write txn then (True, txn)
      else Store_Put M txn ACCOUNTS (Write account) (AccountInfo_Serialize info))"

definition AccountInfoGet :: "'db lmdb \<Rightarrow> 'db transaction \<Rightarrow> u256 \<Rightarrow> account_info option" where
  "AccountInfoGet M txn account =
     Option.bind (Store_Get M txn ACCOUNTS (Write account)) AccountInfo_Deserialize"

definition AccountInfoDel :: "'db lmdb \<Rightarrow> 'db transaction \<Rightarrow> u256 \<Rightarrow> bool \<times> 'db transaction" where
  "AccountInfoDel M txn account =
     (if \<not> txn_write txn then (True, txn) else Store_Del M txn ACCOUNTS (Write account))"

section \<open>Blocks\<close>

definition BLOCKS_PER_INDEX :: u64 where "BLOCKS_PER_INDEX = 8"

definition height_key :: "u256 \<times> u64 \<Rightarrow> bytes" where
  "height_key k = Write (fst k) @ Write (snd k)"

definition BlockIndexPut ::
  "'db lmdb \<Rightarrow> 'db transaction \<Rightarrow> u256 \<Rightarrow> u64 \<Rightarrow> u256 \<Rightarrow> bool \<times> 'db transaction" where
  "BlockIndexPut M txn account height hash =
     Store_Put M txn BLOCKS_INDEX (height_key (account, height)) (Write hash)"

text \<open>\<open>MdbVal::uint256_union\<close>: zero unless the value has exactly 32 bytes.\<close>

definition MdbVal_uint256_union :: "bytes \<Rightarrow> u256" where
  "MdbVal_uint256_union v =
     (if length v \<noteq> 32 then 0 else case Read v of None \<Rightarrow> 0 | Some (h, _) \<Rightarrow> h)"

definition BlockIndexGet :: "'db lmdb \<Rightarrow> 'db transaction \<Rightarrow> u256 \<Rightarrow> u64 \<Rightarrow> u256 option" where
  "BlockIndexGet M txn account height =
     map_option MdbVal_uint256_union (Store_Get M txn BLOCKS_INDEX (height_key (account, height)))"

definition BlockIndexDel ::
  "'db lmdb \<Rightarrow> 'db transaction \<Rightarrow> u256 \<Rightarrow> u64 \<Rightarrow> bool \<times> 'db transaction" where
  "BlockIndexDel M txn account height = Store_Del M txn BLOCKS_INDEX (height_key (account, height))"

definition BlockPut_successor ::
  "'db lmdb \<Rightarrow> env \<Rightarrow> 'db transaction \<Rightarrow> u256 \<Rightarrow> block \<Rightarrow> u256 \<Rightarrow> bool \<times> 'db transaction" where
  "BlockPut_successor M E txn hash block successor =
     (if \<not> txn_write txn then (True, txn)
      else case Store_Put M txn BLOCKS (Write hash) (Serialize block @ Write successor) of
        (error, txn) \<Rightarrow>
          if error then (error, txn)
          else if Height block mod BLOCKS_PER_INDEX = 0
          then BlockIndexPut M txn (Account block) (Height block) (Hash E block)
          else (False, txn))"

definition BlockPut ::
  "'db lmdb \<Rightarrow> env \<Rightarrow> 'db transaction \<Rightarrow> u256 \<Rightarrow> block \<Rightarrow> bool \<times> 'db transaction" where
  "BlockPut M E txn hash block = BlockPut_successor M E txn hash block 0"

definition BlockGet :: "'db lmdb \<Rightarrow> 'db transaction \<Rightarrow> u256 \<Rightarrow> block option" where
  "BlockGet M txn hash =
     do {
       v \<leftarrow> Store_Get M txn BLOCKS (Write hash);
       case DeserializeBlockUnverify v of Inl _ \<Rightarrow> None | Inr (block, _) \<Rightarrow> Some block
     }"

definition BlockGet_successor ::
  "'db lmdb \<Rightarrow> 'db transaction \<Rightarrow> u256 \<Rightarrow> (block \<times> u256) option" where
  "BlockGet_successor M txn hash =
     do {
       v \<leftarrow> Store_Get M txn BLOCKS (Write hash);
       (block, s) \<leftarrow> (case DeserializeBlockUnverify v of Inl _ \<Rightarrow> None | Inr r \<Rightarrow> Some r);
       (successor, _) \<leftarrow> Read s;
       Some (block, successor)
     }"

text \<open>The two loops of \<open>BlockGet\<close> by height; the last argument counts the iterations left.\<close>

fun BlockGet_forward ::
  "'db lmdb \<Rightarrow> 'db transaction \<Rightarrow> u256 \<Rightarrow> u64 \<Rightarrow> u256 \<Rightarrow> nat \<Rightarrow> (block \<times> u256) option" where
  "BlockGet_forward M txn account height hash 0 = None"
| "BlockGet_forward M txn account height hash (Suc n) = (case BlockGet_successor M txn hash of
     None \<Rightarrow> None
   | Some (block, successor) \<Rightarrow>
       if height = Height block \<and> account = Account block then Some (block, successor)
       else BlockGet_forward M txn account height successor n)"

fun BlockGet_backward ::
  "'db lmdb \<Rightarrow> 'db transaction \<Rightarrow> u256 \<Rightarrow> u64 \<Rightarrow> u256 \<Rightarrow> nat \<Rightarrow> (block \<times> u256) option" where
  "BlockGet_backward M txn account height hash 0 = None"
| "BlockGet_backward M txn account height hash (Suc n) = (case BlockGet_successor M txn hash of
     None \<Rightarrow> None
   | Some (block, successor) \<Rightarrow>
       if height = Height block \<and> account = Account block then Some (block, successor)
       else BlockGet_backward M txn account height (Previous block) n)"

definition BlockGet_height_successor ::
  "'db lmdb \<Rightarrow> 'db transaction \<Rightarrow> u256 \<Rightarrow> u64 \<Rightarrow> (block \<times> u256) option" where
  "BlockGet_height_successor M txn account height = (case AccountInfoGet M txn account of
     None \<Rightarrow> None
   | Some info \<Rightarrow>
       if height < ai_tail_height info \<or> height > ai_head_height info then None else
       let start0 = (height div BLOCKS_PER_INDEX) * BLOCKS_PER_INDEX;
           end0 = start0 + BLOCKS_PER_INDEX;
           start = (if start0 < ai_tail_height info then ai_tail_height info else start0);
           end = (if end0 > ai_head_height info then ai_head_height info else end0) in
       if height - start < end - height then
         case (if start \<noteq> ai_tail_height info then BlockIndexGet M txn account start
               else Some (ai_tail info)) of
           None \<Rightarrow> None
         | Some hash \<Rightarrow> BlockGet_forward M txn account height hash (unat (height - start) + 1)
       else
         case (if end \<noteq> ai_head_height info then BlockIndexGet M txn account end
               else Some (ai_head info)) of
           None \<Rightarrow> None
         | Some hash \<Rightarrow> BlockGet_backward M txn account height hash (unat (end - height) + 1))"

definition BlockGet_height :: "'db lmdb \<Rightarrow> 'db transaction \<Rightarrow> u256 \<Rightarrow> u64 \<Rightarrow> block option" where
  "BlockGet_height M txn account height =
     map_option fst (BlockGet_height_successor M txn account height)"

definition BlockDel :: "'db lmdb \<Rightarrow> 'db transaction \<Rightarrow> u256 \<Rightarrow> bool \<times> 'db transaction" where
  "BlockDel M txn hash =
     (if \<not> txn_write txn then (True, txn)
      else case BlockGet M txn hash of
        None \<Rightarrow> (True, txn)
      | Some block \<Rightarrow>
          (case (if Height block mod BLOCKS_PER_INDEX = 0
                 then BlockIndexDel M txn (Account block) (Height block) else (False, txn)) of
             (error, txn) \<Rightarrow> if error then (error, txn) else Store_Del M txn BLOCKS (Write hash)))"

definition BlockExists :: "'db lmdb \<Rightarrow> 'db transaction \<Rightarrow> u256 \<Rightarrow> bool" where
  "BlockExists M txn hash = (case Store_Get M txn BLOCKS (Write hash) of None \<Rightarrow> False | Some _ \<Rightarrow> True)"

text \<open>The successor occupies the last 32 bytes of the stored value and is overwritten in place.\<close>

definition BlockSuccessorSet ::
  "'db lmdb \<Rightarrow> 'db transaction \<Rightarrow> u256 \<Rightarrow> u256 \<Rightarrow> bool \<times> 'db transaction" where
  "BlockSuccessorSet M txn hash successor =
     (if \<not> txn_write txn then (True, txn)
      else case Store_Get M txn BLOCKS (Write hash) of
        None \<Rightarrow> (True, txn)
      | Some v \<Rightarrow> Store_Put M txn BLOCKS (Write hash) (take (length v - 32) v @ Write successor))"

definition BlockSuccessorGet :: "'db lmdb \<Rightarrow> 'db transaction \<Rightarrow> u256 \<Rightarrow> u256 option" where
  "BlockSuccessorGet M txn hash =
     do {
       v \<leftarrow> Store_Get M txn BLOCKS (Write hash);
       (successor, _) \<leftarrow> Read (drop (length v - 32) v);
       Some successor
     }"

section \<open>Receivables, rewardables, rolled-back blocks\<close>

definition hash_key :: "u256 \<times> u256 \<Rightarrow> bytes" where
  "hash_key k = Write (fst k) @ Write (snd k)"

definition ReceivableInfoPut ::
  "'db lmdb \<Rightarrow> 'db transaction \<Rightarrow> u256 \<Rightarrow> u256 \<Rightarrow> receivable_info \<Rightarrow> bool \<times> 'db transaction" where
  "ReceivableInfoPut M txn destination hash info =
     (if \<not> txn_write txn then (True, txn)
      else Store_Put M txn RECEIVABLES (hash_key (destination, hash)) (ReceivableInfo_Serialize info))"

definition ReceivableInfoGet ::
  "'db lmdb \<Rightarrow> 'db transaction \<Rightarrow> u256 \<Rightarrow> u256 \<Rightarrow> receivable_info option" where
  "ReceivableInfoGet M txn destination hash =
     Option.bind (Store_Get M txn RECEIVABLES (hash_key (destination, hash))) ReceivableInfo_Deserialize"

definition ReceivableInfoDel ::
  "'db lmdb \<Rightarrow> 'db transaction \<Rightarrow> u256 \<Rightarrow> u256 \<Rightarrow> bool \<times> 'db transaction" where
  "ReceivableInfoDel M txn destination hash =
     (if \<not> txn_write txn then (True, txn)
      else Store_Del M txn RECEIVABLES (hash_key (destination, hash)))"

definition RewardableInfoPut ::
  "'db lmdb \<Rightarrow> 'db transaction \<Rightarrow> u256 \<Rightarrow> u256 \<Rightarrow> rewardable_info \<Rightarrow> bool \<times> 'db transaction" where
  "RewardableInfoPut M txn representative hash info =
     (if \<not> txn_write txn then (True, txn)
      else Store_Put M txn REWARDABLES (hash_key (representative, hash)) (RewardableInfo_Serialize info))"

definition RewardableInfoGet ::
  "'db lmdb \<Rightarrow> 'db transaction \<Rightarrow> u256 \<Rightarrow> u256 \<Rightarrow> rewardable_info option" where
  "RewardableInfoGet M txn representative hash =
     Option.bind (Store_Get M txn REWARDABLES (hash_key (representative, hash)))
       RewardableInfo_Deserialize"

definition RewardableInfoDel ::
  "'db lmdb \<Rightarrow> 'db transaction \<Rightarrow> u256 \<Rightarrow> u256 \<Rightarrow> bool \<times> 'db transaction" where
  "RewardableInfoDel M txn representative hash =
     (if \<not> txn_write txn then (True, txn)
      else Store_Del M txn REWARDABLES (hash_key (representative, hash)))"

definition RollbackBlockPut ::
  "'db lmdb \<Rightarrow> 'db transaction \<Rightarrow> u256 \<Rightarrow> block \<Rightarrow> bool \<times> 'db transaction" where
  "RollbackBlockPut M txn hash block =
     (if \<not> txn_write txn then (True, txn)
      else Store_Put M txn ROLLBACKS (Write hash) (Serialize block))"

definition decode_block :: "bytes \<Rightarrow> block option" where
  "decode_block v = (case DeserializeBlockUnverify v of Inl _ \<Rightarrow> None | Inr (block, _) \<Rightarrow> Some block)"

definition RollbackBlockGet :: "'db lmdb \<Rightarrow> 'db transaction \<Rightarrow> u256 \<Rightarrow> block option" where
  "RollbackBlockGet M txn hash = Option.bind (Store_Get M txn ROLLBACKS (Write hash)) decode_block"

section \<open>Forks\<close>

definition ForkPut ::
  "'db lmdb \<Rightarrow> 'db transaction \<Rightarrow> u256 \<Rightarrow> u64 \<Rightarrow> block \<Rightarrow> block \<Rightarrow> bool \<times> 'db transaction" where
  "ForkPut M txn account height first second =
     (if \<not> txn_write txn then (True, txn)
      else Store_Put M txn FORKS (height_key (account, height)) (Serialize first @ Serialize second))"

definition decode_fork :: "bytes \<Rightarrow> (block \<times> block) option" where
  "decode_fork v =
     (case DeserializeBlockUnverify v of
        Inl _ \<Rightarrow> None
      | Inr (first, s) \<Rightarrow>
          (case DeserializeBlockUnverify s of Inl _ \<Rightarrow> None | Inr (second, _) \<Rightarrow> Some (first, second)))"

definition ForkGet :: "'db lmdb \<Rightarrow> 'db transaction \<Rightarrow> u256 \<Rightarrow> u64 \<Rightarrow> (block \<times> block) option" where
  "ForkGet M txn account height =
     Option.bind (Store_Get M txn FORKS (height_key (account, height))) decode_fork"

definition ForkDel_height :: "'db lmdb \<Rightarrow> 'db transaction \<Rightarrow> u256 \<Rightarrow> u64 \<Rightarrow> bool \<times> 'db transaction" where
  "ForkDel_height M txn account height =
     (if \<not> txn_write txn then (True, txn)
      else Store_Del M txn FORKS (height_key (account, height)))"

definition ForkExists :: "'db lmdb \<Rightarrow> 'db transaction \<Rightarrow> u256 \<Rightarrow> u64 \<Rightarrow> bool" where
  "ForkExists M txn account height =
     (case Store_Get M txn FORKS (height_key (account, height)) of None \<Rightarrow> False | Some _ \<Rightarrow> True)"

section \<open>Bindings\<close>

definition BindingCountPut ::
  "'db lmdb \<Rightarrow> 'db transaction \<Rightarrow> u256 \<Rightarrow> u64 \<Rightarrow> bool \<times> 'db transaction" where
  "BindingCountPut M txn account count =
     (if \<not> txn_write txn then (True, txn)
      else Store_Put M txn BINDING_COUNT_TABLE (Write account) (Write count))"

definition BindingCountGet :: "'db lmdb \<Rightarrow> 'db transaction \<Rightarrow> u256 \<Rightarrow> u64 option" where
  "BindingCountGet M txn account =
     Option.bind (Store_Get M txn BINDING_COUNT_TABLE (Write account)) (\<lambda>v. map_option fst (Read v))"

definition BindingCountDel :: "'db lmdb \<Rightarrow> 'db transaction \<Rightarrow> u256 \<Rightarrow> bool \<times> 'db transaction" where
  "BindingCountDel M txn account =
     (if \<not> txn_write txn then (True, txn) else Store_Del M txn BINDING_COUNT_TABLE (Write account))"

definition BindingPut ::
  "'db lmdb \<Rightarrow> 'db transaction \<Rightarrow> binding_key \<Rightarrow> u256 \<Rightarrow> bool \<times> 'db transaction" where
  "BindingPut M txn k signer =
     (if \<not> txn_write txn then (True, txn)
      else Store_Put M txn BINDING_ENTRIES (BindingKey_Serialize k) (Write signer))"

definition BindingGet :: "'db lmdb \<Rightarrow> 'db transaction \<Rightarrow> binding_key \<Rightarrow> u256 option" where
  "BindingGet M txn k =
     Option.bind (Store_Get M txn BINDING_ENTRIES (BindingKey_Serialize k)) (\<lambda>v. map_option fst (Read v))"

definition BindingDel :: "'db lmdb \<Rightarrow> 'db transaction \<Rightarrow> binding_key \<Rightarrow> bool \<times> 'db transaction" where
  "BindingDel M txn k =
     (if \<not> txn_write txn then (True, txn)
      else Store_Del M txn BINDING_ENTRIES (BindingKey_Serialize k))"

section \<open>Rich list and delegator list\<close>

definition RICH_LIST_MINIMUM :: u128 where "RICH_LIST_MINIMUM = 10 * RAI"

definition UpdateRichList_entry :: "ledger_memory \<Rightarrow> u256 \<Rightarrow> u128 \<Rightarrow> ledger_memory" where
  "UpdateRichList_entry m account balance = (case rich_list m account of
     None \<Rightarrow> if balance < RICH_LIST_MINIMUM then m
             else m\<lparr>rich_list := (rich_list m)(account \<mapsto> balance)\<rparr>
   | Some _ \<Rightarrow> if balance < RICH_LIST_MINIMUM then m\<lparr>rich_list := (rich_list m)(account := None)\<rparr>
               else m\<lparr>rich_list := (rich_list m)(account \<mapsto> balance)\<rparr>)"

definition UpdateRichList :: "'db transaction \<Rightarrow> block \<Rightarrow> 'db transaction" where
  "UpdateRichList txn block =
     (if \<not> enable_rich_list (txn_memory txn) \<or> Type block \<noteq> TX_BLOCK then txn
      else txn\<lparr>txn_memory := UpdateRichList_entry (txn_memory txn) (Account block) (Balance block)\<rparr>)"

definition UpdateDelegatorList_entry ::
  "ledger_memory \<Rightarrow> u256 \<Rightarrow> u256 \<Rightarrow> u128 \<Rightarrow> block_type \<Rightarrow> ledger_memory" where
  "UpdateDelegatorList_entry m account rep weight type =
     m\<lparr>delegator_list := (delegator_list m)(account \<mapsto>
         (case delegator_list m account of
            None \<Rightarrow> \<lparr>de_rep = rep, de_weight = weight, de_type = type\<rparr>
          | Some data \<Rightarrow> data\<lparr>de_rep := rep, de_weight := weight, de_type := type\<rparr>))\<rparr>"

definition UpdateDelegatorList :: "'db transaction \<Rightarrow> block \<Rightarrow> 'db transaction" where
  "UpdateDelegatorList txn block =
     (if \<not> enable_delegator_list (txn_memory txn) \<or> \<not> HasRepresentative block then txn
      else txn\<lparr>txn_memory := UpdateDelegatorList_entry (txn_memory txn) (Account block)
             (Representative block) (Balance block) (Type block)\<rparr>)"

end
