(* ===== verification/LedgerView.thy ===== *)
theory LedgerView
  imports Ledger
begin

text \<open>
  The ledger's promise to its callers. \<open>ledger_view\<close> is the abstract state: every table a
  partial map between typed keys and values, together with the in-memory tables and the
  pending weight operations of the transaction. \<open>ledger_rel M txn L\<close> says that the bytes in the
  store encode exactly the view \<open>L\<close>. Reads are then lookups in the view, and a write that reports
  no error leads to the store of the updated view.
\<close>

section \<open>The abstract ledger\<close>

record ledger_view =
  v_accounts :: "u256 \<Rightarrow> account_info option"
  v_blocks :: "u256 \<Rightarrow> (block \<times> u256) option"
  v_index :: "u256 \<times> u64 \<Rightarrow> u256 option"
  v_receivables :: "u256 \<times> u256 \<Rightarrow> receivable_info option"
  v_rewardables :: "u256 \<times> u256 \<Rightarrow> rewardable_info option"
  v_rollbacks :: "u256 \<Rightarrow> block option"
  v_forks :: "u256 \<times> u64 \<Rightarrow> (block \<times> block) option"
  v_binding_count :: "u256 \<Rightarrow> u64 option"
  v_bindings :: "binding_key \<Rightarrow> u256 option"
  v_memory :: ledger_memory
  v_operations :: "rep_weight_operation list"

definition info_ok :: "account_info \<Rightarrow> bool" where
  "info_ok i \<longleftrightarrow> block_type_of (of_block_type (ai_type i)) = ai_type i"

definition enc_entry :: "block \<times> u256 \<Rightarrow> bytes" where
  "enc_entry e = Serialize (fst e) @ Write (snd e)"

definition dec_entry :: "bytes \<Rightarrow> (block \<times> u256) option" where
  "dec_entry v =
     do {
       (block, s) \<leftarrow> (case DeserializeBlockUnverify v of Inl _ \<Rightarrow> None | Inr r \<Rightarrow> Some r);
       (successor, _) \<leftarrow> Read s;
       Some (block, successor)
     }"

definition enc_fork :: "block \<times> block \<Rightarrow> bytes" where
  "enc_fork f = Serialize (fst f) @ Serialize (snd f)"

definition fork_ok :: "block \<times> block \<Rightarrow> bool" where
  "fork_ok f \<longleftrightarrow> block_wf (fst f) \<and> block_wf (snd f)"

definition ledger_rel :: "'db lmdb \<Rightarrow> 'db transaction \<Rightarrow> ledger_view \<Rightarrow> bool" where
  "ledger_rel M txn L \<longleftrightarrow>
     table_rel M (txn_db txn) ACCOUNTS Write AccountInfo_Serialize info_ok (v_accounts L) \<and>
     table_rel M (txn_db txn) BLOCKS Write enc_entry (\<lambda>e. block_wf (fst e)) (v_blocks L) \<and>
     table_rel M (txn_db txn) BLOCKS_INDEX height_key Write (\<lambda>_. True) (v_index L) \<and>
     table_rel M (txn_db txn) RECEIVABLES hash_key ReceivableInfo_Serialize (\<lambda>_. True) (v_receivables L) \<and>
     table_rel M (txn_db txn) REWARDABLES hash_key RewardableInfo_Serialize (\<lambda>_. True) (v_rewardables L) \<and>
     table_rel M (txn_db txn) ROLLBACKS Write Serialize block_wf (v_rollbacks L) \<and>
     table_rel M (txn_db txn) FORKS height_key enc_fork fork_ok (v_forks L) \<and>
     table_rel M (txn_db txn) BINDING_COUNT_TABLE Write Write (\<lambda>_. True) (v_binding_count L) \<and>
     table_rel M (txn_db txn) BINDING_ENTRIES BindingKey_Serialize Write (\<lambda>_. True) (v_bindings L) \<and>
     v_memory L = txn_memory txn \<and> v_operations L = rep_weight_operations txn"

section \<open>Keys and values of each table\<close>

lemma Write_inject:
  "Write (a :: u256) = Write b \<longleftrightarrow> a = b"
  using u256_codec.enc_inject [of a b] by auto

lemma Write_inject_u64: "Write (c :: u64) = Write d \<longleftrightarrow> c = d"
  using u64_codec.enc_inject [of c d] by auto

lemma Write_inject_u32: "Write (c :: u32) = Write d \<longleftrightarrow> c = d"
  using u32_codec.enc_inject [of c d] by auto

lemma height_key_inject: "height_key k = height_key k' \<longleftrightarrow> k = k'"
  by (cases k; cases k') (auto simp: height_key_def Write_inject Write_inject_u64)

lemma hash_key_inject: "hash_key k = hash_key k' \<longleftrightarrow> k = k'"
  by (cases k; cases k') (auto simp: hash_key_def Write_inject)

lemma not_word_eq: "not (a :: 'a::len word) = not b \<longleftrightarrow> a = b"
  using bit.compl_eq_compl_iff by blast

lemma BindingKey_inject: "BindingKey_Serialize k = BindingKey_Serialize k' \<longleftrightarrow> k = k'"
  by (cases k; cases k')
    (auto simp: BindingKey_Serialize_def Write_inject Write_inject_u32 Write_inject_u64 not_word_eq)

lemma AccountInfo_codec: "info_ok i \<Longrightarrow> AccountInfo_Deserialize (AccountInfo_Serialize i) = Some i"
  using Read_Write_widths
  by (cases i) (simp add: AccountInfo_Serialize_def AccountInfo_Deserialize_def info_ok_def)

lemma ReceivableInfo_codec: "ReceivableInfo_Deserialize (ReceivableInfo_Serialize i) = Some i"
  using Read_Write_widths
  by (cases i) (simp add: ReceivableInfo_Serialize_def ReceivableInfo_Deserialize_def)

lemma RewardableInfo_codec: "RewardableInfo_Deserialize (RewardableInfo_Serialize i) = Some i"
  using Read_Write_widths
  by (cases i) (simp add: RewardableInfo_Serialize_def RewardableInfo_Deserialize_def)

lemma BindingKey_codec: "BindingKey_Deserialize (BindingKey_Serialize k) = Some k"
  using Read_Write_widths
  by (cases k) (simp add: BindingKey_Serialize_def BindingKey_Deserialize_def)

lemma entry_codec: "block_wf (fst e) \<Longrightarrow> dec_entry (enc_entry e) = Some e"
  by (cases e) (simp add: dec_entry_def enc_entry_def DeserializeBlockUnverify_Serialize codec_simps)

lemma fork_codec: "fork_ok f \<Longrightarrow> decode_fork (enc_fork f) = Some f"
  using DeserializeBlockUnverify_Serialize [of "snd f" "[]"]
  by (cases f) (simp add: fork_ok_def decode_fork_def enc_fork_def DeserializeBlockUnverify_Serialize)

lemma block_codec_all: "block_wf b \<Longrightarrow> decode_block (Serialize b) = Some b"
  using DeserializeBlockUnverify_Serialize [of b "[]"] by (simp add: decode_block_def)

lemma MdbVal_Write: "MdbVal_uint256_union (Write h) = h"
  by (simp add: MdbVal_uint256_union_def codec_simps)

interpretation accounts: typed_table "Write :: u256 \<Rightarrow> bytes" AccountInfo_Serialize
    AccountInfo_Deserialize info_ok
  by unfold_locales (simp_all add: Write_inject AccountInfo_codec)

interpretation blocks: typed_table "Write :: u256 \<Rightarrow> bytes" enc_entry dec_entry "\<lambda>e. block_wf (fst e)"
  by unfold_locales (simp_all add: Write_inject entry_codec)

interpretation block_index: typed_table height_key "Write :: u256 \<Rightarrow> bytes"
    "\<lambda>v. Some (MdbVal_uint256_union v)" "\<lambda>_. True"
  by unfold_locales (simp_all add: height_key_inject MdbVal_Write)

interpretation receivables: typed_table hash_key ReceivableInfo_Serialize
    ReceivableInfo_Deserialize "\<lambda>_. True"
  by unfold_locales (simp_all add: hash_key_inject ReceivableInfo_codec)

interpretation rewardables: typed_table hash_key RewardableInfo_Serialize
    RewardableInfo_Deserialize "\<lambda>_. True"
  by unfold_locales (simp_all add: hash_key_inject RewardableInfo_codec)

interpretation rollbacks: typed_table "Write :: u256 \<Rightarrow> bytes" Serialize decode_block block_wf
  by unfold_locales (simp_all add: Write_inject block_codec_all)

interpretation forks: typed_table height_key enc_fork decode_fork fork_ok
  by unfold_locales (simp_all add: height_key_inject fork_codec)

interpretation binding_count: typed_table "Write :: u256 \<Rightarrow> bytes" "Write :: u64 \<Rightarrow> bytes"
    "\<lambda>v. map_option fst (Read v)" "\<lambda>_. True"
  by unfold_locales (simp_all add: Write_inject codec_simps)

interpretation bindings: typed_table BindingKey_Serialize "Write :: u256 \<Rightarrow> bytes"
    "\<lambda>v. map_option fst (Read v)" "\<lambda>_. True"
  by unfold_locales (simp_all add: BindingKey_inject codec_simps)

section \<open>Reads are lookups\<close>

lemma AccountInfoGet_rel: "ledger_rel M txn L \<Longrightarrow> AccountInfoGet M txn a = v_accounts L a"
  by (simp add: AccountInfoGet_def Store_Get_def ledger_rel_def accounts.tbl_get)

lemma BlockGet_successor_rel: "ledger_rel M txn L \<Longrightarrow> BlockGet_successor M txn h = v_blocks L h"
  using blocks.tbl_get [of M "txn_db txn" BLOCKS "v_blocks L" h]
  by (simp add: BlockGet_successor_def Store_Get_def ledger_rel_def dec_entry_def [abs_def])

text \<open>The bytes behind an entry of the block table.\<close>

lemma ledger_rel_block:
  assumes "ledger_rel M txn L"
  shows "mdb_get M (txn_db txn) BLOCKS (Write h) = map_option enc_entry (v_blocks L h)"
    and "v_blocks L h = Some e \<Longrightarrow> block_wf (fst e)"
  using table_rel_value [OF assms [unfolded ledger_rel_def, THEN conjunct2, THEN conjunct1]] by simp_all

lemma BlockGet_rel: "ledger_rel M txn L \<Longrightarrow> BlockGet M txn h = map_option fst (v_blocks L h)"
  using ledger_rel_block(2) [of M txn L h]
  by (cases "v_blocks L h")
    (auto simp: BlockGet_def Store_Get_def ledger_rel_block(1) enc_entry_def
      DeserializeBlockUnverify_Serialize)

lemma BlockExists_rel: "ledger_rel M txn L \<Longrightarrow> BlockExists M txn h \<longleftrightarrow> v_blocks L h \<noteq> None"
  using blocks.tbl_exists [of M "txn_db txn" BLOCKS "v_blocks L" h]
  by (auto simp: BlockExists_def Store_Get_def ledger_rel_def split: option.splits)

lemma BlockIndexGet_rel: "ledger_rel M txn L \<Longrightarrow> BlockIndexGet M txn a n = v_index L (a, n)"
  using block_index.tbl_get [of M "txn_db txn" BLOCKS_INDEX "v_index L" "(a, n)"]
  by (cases "mdb_get M (txn_db txn) BLOCKS_INDEX (height_key (a, n))")
    (simp_all add: BlockIndexGet_def Store_Get_def ledger_rel_def)

lemma BlockSuccessorGet_rel:
  "ledger_rel M txn L \<Longrightarrow> BlockSuccessorGet M txn h = map_option snd (v_blocks L h)"
  by (cases "v_blocks L h")
    (auto simp: BlockSuccessorGet_def Store_Get_def ledger_rel_block(1) enc_entry_def codec_simps)

lemma ReceivableInfoGet_rel:
  "ledger_rel M txn L \<Longrightarrow> ReceivableInfoGet M txn a h = v_receivables L (a, h)"
  by (simp add: ReceivableInfoGet_def Store_Get_def ledger_rel_def receivables.tbl_get)

lemma RewardableInfoGet_rel:
  "ledger_rel M txn L \<Longrightarrow> RewardableInfoGet M txn a h = v_rewardables L (a, h)"
  by (simp add: RewardableInfoGet_def Store_Get_def ledger_rel_def rewardables.tbl_get)

lemma RollbackBlockGet_rel: "ledger_rel M txn L \<Longrightarrow> RollbackBlockGet M txn h = v_rollbacks L h"
  by (simp add: RollbackBlockGet_def Store_Get_def ledger_rel_def rollbacks.tbl_get)

lemma ForkGet_rel: "ledger_rel M txn L \<Longrightarrow> ForkGet M txn a n = v_forks L (a, n)"
  by (simp add: ForkGet_def Store_Get_def ledger_rel_def forks.tbl_get)

lemma ForkExists_rel: "ledger_rel M txn L \<Longrightarrow> ForkExists M txn a n \<longleftrightarrow> v_forks L (a, n) \<noteq> None"
  using forks.tbl_exists [of M "txn_db txn" FORKS "v_forks L" "(a, n)"]
  by (auto simp: ForkExists_def Store_Get_def ledger_rel_def split: option.splits)

lemma BindingCountGet_rel: "ledger_rel M txn L \<Longrightarrow> BindingCountGet M txn a = v_binding_count L a"
  by (simp add: BindingCountGet_def Store_Get_def ledger_rel_def binding_count.tbl_get)

lemma BindingGet_rel: "ledger_rel M txn L \<Longrightarrow> BindingGet M txn k = v_bindings L k"
  by (simp add: BindingGet_def Store_Get_def ledger_rel_def bindings.tbl_get)

lemmas get_rels = AccountInfoGet_rel BlockGet_successor_rel BlockGet_rel BlockExists_rel
  BlockIndexGet_rel BlockSuccessorGet_rel ReceivableInfoGet_rel RewardableInfoGet_rel
  RollbackBlockGet_rel ForkGet_rel ForkExists_rel BindingCountGet_rel BindingGet_rel

section \<open>Writes are updates\<close>

lemma Store_Put_eq_False:
  "Store_Put M txn t k v = (False, txn') \<longleftrightarrow>
   (\<exists>db. mdb_put M (txn_db txn) t k v = Some db \<and> txn' = txn\<lparr>txn_db := db\<rparr>)"
  by (auto simp: Store_Put_def split: option.splits)

lemma Store_Del_eq_False:
  "Store_Del M txn t k = (False, txn') \<longleftrightarrow>
   (\<exists>db. mdb_del M (txn_db txn) t k = Some db \<and> txn' = txn\<lparr>txn_db := db\<rparr>)"
  by (auto simp: Store_Del_def split: option.splits)

lemma if_error_eq_False: "(if c then (True, t) else r) = (False, t') \<longleftrightarrow> \<not> c \<and> r = (False, t')"
  by simp

lemmas write_simps = Store_Put_eq_False Store_Del_eq_False if_error_eq_False ledger_rel_def
  table_rel_put_other table_rel_del_other

lemma AccountInfoPut_rel:
  assumes "AccountInfoPut M txn a i = (False, txn')" "lmdb_laws M" "ledger_rel M txn L" "info_ok i"
  shows "ledger_rel M txn' (L\<lparr>v_accounts := (v_accounts L)(a \<mapsto> i)\<rparr>)"
  using assms by (auto simp: AccountInfoPut_def write_simps intro: accounts.tbl_put)

lemma AccountInfoDel_rel:
  assumes "AccountInfoDel M txn a = (False, txn')" "lmdb_laws M" "ledger_rel M txn L"
  shows "ledger_rel M txn' (L\<lparr>v_accounts := (v_accounts L)(a := None)\<rparr>)"
  using assms by (auto simp: AccountInfoDel_def write_simps intro: accounts.tbl_del)

lemma ReceivableInfoPut_rel:
  assumes "ReceivableInfoPut M txn a h i = (False, txn')" "lmdb_laws M" "ledger_rel M txn L"
  shows "ledger_rel M txn' (L\<lparr>v_receivables := (v_receivables L)((a, h) \<mapsto> i)\<rparr>)"
  using assms by (auto simp: ReceivableInfoPut_def write_simps intro: receivables.tbl_put)

lemma ReceivableInfoDel_rel:
  assumes "ReceivableInfoDel M txn a h = (False, txn')" "lmdb_laws M" "ledger_rel M txn L"
  shows "ledger_rel M txn' (L\<lparr>v_receivables := (v_receivables L)((a, h) := None)\<rparr>)"
  using assms by (auto simp: ReceivableInfoDel_def write_simps intro: receivables.tbl_del)

lemma RewardableInfoPut_rel:
  assumes "RewardableInfoPut M txn a h i = (False, txn')" "lmdb_laws M" "ledger_rel M txn L"
  shows "ledger_rel M txn' (L\<lparr>v_rewardables := (v_rewardables L)((a, h) \<mapsto> i)\<rparr>)"
  using assms by (auto simp: RewardableInfoPut_def write_simps intro: rewardables.tbl_put)

lemma RewardableInfoDel_rel:
  assumes "RewardableInfoDel M txn a h = (False, txn')" "lmdb_laws M" "ledger_rel M txn L"
  shows "ledger_rel M txn' (L\<lparr>v_rewardables := (v_rewardables L)((a, h) := None)\<rparr>)"
  using assms by (auto simp: RewardableInfoDel_def write_simps intro: rewardables.tbl_del)

lemma RollbackBlockPut_rel:
  assumes "RollbackBlockPut M txn h b = (False, txn')" "lmdb_laws M" "ledger_rel M txn L" "block_wf b"
  shows "ledger_rel M txn' (L\<lparr>v_rollbacks := (v_rollbacks L)(h \<mapsto> b)\<rparr>)"
  using assms by (auto simp: RollbackBlockPut_def write_simps intro: rollbacks.tbl_put)

lemma ForkPut_rel:
  assumes "ForkPut M txn a n f s = (False, txn')" "lmdb_laws M" "ledger_rel M txn L"
    "block_wf f" "block_wf s"
  shows "ledger_rel M txn' (L\<lparr>v_forks := (v_forks L)((a, n) \<mapsto> (f, s))\<rparr>)"
  using assms forks.tbl_put [of M "txn_db txn" FORKS "v_forks L" "(f, s)" "(a, n)"]
  by (auto simp: ForkPut_def write_simps enc_fork_def fork_ok_def)

lemma ForkDel_height_rel:
  assumes "ForkDel_height M txn a n = (False, txn')" "lmdb_laws M" "ledger_rel M txn L"
  shows "ledger_rel M txn' (L\<lparr>v_forks := (v_forks L)((a, n) := None)\<rparr>)"
  using assms by (auto simp: ForkDel_height_def write_simps intro: forks.tbl_del)

lemma BindingCountPut_rel:
  assumes "BindingCountPut M txn a c = (False, txn')" "lmdb_laws M" "ledger_rel M txn L"
  shows "ledger_rel M txn' (L\<lparr>v_binding_count := (v_binding_count L)(a \<mapsto> c)\<rparr>)"
  using assms by (auto simp: BindingCountPut_def write_simps intro: binding_count.tbl_put)

lemma BindingCountDel_rel:
  assumes "BindingCountDel M txn a = (False, txn')" "lmdb_laws M" "ledger_rel M txn L"
  shows "ledger_rel M txn' (L\<lparr>v_binding_count := (v_binding_count L)(a := None)\<rparr>)"
  using assms by (auto simp: BindingCountDel_def write_simps intro: binding_count.tbl_del)

lemma BindingPut_rel:
  assumes "BindingPut M txn k s = (False, txn')" "lmdb_laws M" "ledger_rel M txn L"
  shows "ledger_rel M txn' (L\<lparr>v_bindings := (v_bindings L)(k \<mapsto> s)\<rparr>)"
  using assms by (auto simp: BindingPut_def write_simps intro: bindings.tbl_put)

lemma BindingDel_rel:
  assumes "BindingDel M txn k = (False, txn')" "lmdb_laws M" "ledger_rel M txn L"
  shows "ledger_rel M txn' (L\<lparr>v_bindings := (v_bindings L)(k := None)\<rparr>)"
  using assms by (auto simp: BindingDel_def write_simps intro: bindings.tbl_del)

text \<open>Storing a block also maintains the height index; the successor is rewritten in place.\<close>

definition index_put :: "env \<Rightarrow> block \<Rightarrow> (u256 \<times> u64 \<Rightarrow> u256 option) \<Rightarrow> u256 \<times> u64 \<Rightarrow> u256 option" where
  "index_put E b m = (if Height b mod BLOCKS_PER_INDEX = 0
                      then m((Account b, Height b) \<mapsto> Hash E b) else m)"

definition index_del :: "block \<Rightarrow> (u256 \<times> u64 \<Rightarrow> u256 option) \<Rightarrow> u256 \<times> u64 \<Rightarrow> u256 option" where
  "index_del b m = (if Height b mod BLOCKS_PER_INDEX = 0
                    then m((Account b, Height b) := None) else m)"

lemma BlockIndexPut_rel:
  assumes "BlockIndexPut M txn a n h = (False, txn')" "lmdb_laws M" "ledger_rel M txn L"
  shows "ledger_rel M txn' (L\<lparr>v_index := (v_index L)((a, n) \<mapsto> h)\<rparr>)"
  using assms by (auto simp: BlockIndexPut_def write_simps intro: block_index.tbl_put)

lemma BlockIndexDel_rel:
  assumes "BlockIndexDel M txn a n = (False, txn')" "lmdb_laws M" "ledger_rel M txn L"
  shows "ledger_rel M txn' (L\<lparr>v_index := (v_index L)((a, n) := None)\<rparr>)"
  using assms by (auto simp: BlockIndexDel_def write_simps intro: block_index.tbl_del)

lemma blocks_put_rel:
  assumes "Store_Put M txn BLOCKS (Write h) (Serialize b @ Write s) = (False, txn')"
    "lmdb_laws M" "ledger_rel M txn L" "block_wf b"
  shows "ledger_rel M txn' (L\<lparr>v_blocks := (v_blocks L)(h \<mapsto> (b, s))\<rparr>)"
  using assms blocks.tbl_put [of M "txn_db txn" BLOCKS "v_blocks L" "(b, s)" h]
  by (auto simp: write_simps enc_entry_def)

lemma blocks_del_rel:
  assumes "Store_Del M txn BLOCKS (Write h) = (False, txn')" "lmdb_laws M" "ledger_rel M txn L"
  shows "ledger_rel M txn' (L\<lparr>v_blocks := (v_blocks L)(h := None)\<rparr>)"
  using assms by (auto simp: write_simps intro: blocks.tbl_del)

lemma BlockPut_successor_rel:
  assumes "BlockPut_successor M E txn h b s = (False, txn')" "lmdb_laws M" "ledger_rel M txn L"
    "block_wf b"
  shows "ledger_rel M txn'
    (L\<lparr>v_blocks := (v_blocks L)(h \<mapsto> (b, s)), v_index := index_put E b (v_index L)\<rparr>)"
proof -
  from assms(1) obtain t where t: "Store_Put M txn BLOCKS (Write h) (Serialize b @ Write s) = (False, t)"
    and i: "(if Height b mod BLOCKS_PER_INDEX = 0
       then BlockIndexPut M t (Account b) (Height b) (Hash E b) else (False, t)) = (False, txn')"
    by (auto simp: BlockPut_successor_def split: prod.splits if_splits)
  note r = blocks_put_rel [OF t assms(2-4)]
  show ?thesis
    using i BlockIndexPut_rel [OF _ assms(2) r] r by (auto simp: index_put_def split: if_splits)
qed

lemma BlockPut_rel:
  assumes "BlockPut M E txn h b = (False, txn')" "lmdb_laws M" "ledger_rel M txn L" "block_wf b"
  shows "ledger_rel M txn'
    (L\<lparr>v_blocks := (v_blocks L)(h \<mapsto> (b, 0)), v_index := index_put E b (v_index L)\<rparr>)"
  using BlockPut_successor_rel [OF assms(1) [unfolded BlockPut_def] assms(2-4)] .

lemma BlockSuccessorSet_rel:
  assumes "BlockSuccessorSet M txn h s = (False, txn')" "lmdb_laws M" "ledger_rel M txn L"
  shows "\<exists>b s0. v_blocks L h = Some (b, s0) \<and>
    ledger_rel M txn' (L\<lparr>v_blocks := (v_blocks L)(h \<mapsto> (b, s))\<rparr>)"
proof -
  obtain v where v: "mdb_get M (txn_db txn) BLOCKS (Write h) = Some v"
    and p: "Store_Put M txn BLOCKS (Write h) (take (length v - 32) v @ Write s) = (False, txn')"
    using assms(1) by (auto simp: BlockSuccessorSet_def Store_Get_def split: if_splits option.splits)
  obtain b s0 where b: "v_blocks L h = Some (b, s0)" "block_wf b" "v = Serialize b @ Write s0"
    using ledger_rel_block [OF assms(3), of h] v
    by (cases "v_blocks L h") (auto simp: enc_entry_def)
  with p blocks_put_rel [of M txn h b s txn' L] assms(2,3) show ?thesis
    by auto
qed

lemma BlockDel_rel:
  assumes "BlockDel M txn h = (False, txn')" "lmdb_laws M" "ledger_rel M txn L"
  shows "\<exists>b s. v_blocks L h = Some (b, s) \<and>
    ledger_rel M txn' (L\<lparr>v_index := index_del b (v_index L), v_blocks := (v_blocks L)(h := None)\<rparr>)"
proof -
  obtain b s where b: "v_blocks L h = Some (b, s)"
    using assms by (auto simp: BlockDel_def get_rels split: if_splits option.splits)
  from assms(1) obtain t where i: "(if Height b mod BLOCKS_PER_INDEX = 0
      then BlockIndexDel M txn (Account b) (Height b) else (False, txn)) = (False, t)"
    and d: "Store_Del M t BLOCKS (Write h) = (False, txn')"
    using b get_rels [OF assms(3)] by (auto simp: BlockDel_def split: prod.splits if_splits)
  have "ledger_rel M t (L\<lparr>v_index := index_del b (v_index L)\<rparr>)"
    using i BlockIndexDel_rel [OF _ assms(2,3)] assms(3)
    by (cases "Height b mod BLOCKS_PER_INDEX = 0") (auto simp: index_del_def)
  from blocks_del_rel [OF d assms(2) this] b show ?thesis
    by auto
qed

lemma RepWeight_rel:
  assumes "ledger_rel M txn L"
  shows "ledger_rel M (RepWeightAdd txn r w) (L\<lparr>v_operations := v_operations L @
           [\<lparr>rw_add = True, rw_representative = r, rw_weight = w\<rparr>]\<rparr>)"
    and "ledger_rel M (RepWeightSub txn r w) (L\<lparr>v_operations := v_operations L @
           [\<lparr>rw_add = False, rw_representative = r, rw_weight = w\<rparr>]\<rparr>)"
  using assms by (simp_all add: ledger_rel_def RepWeightAdd_def RepWeightSub_def)

text \<open>The in-memory lists.\<close>

definition rich_update :: "block \<Rightarrow> ledger_memory \<Rightarrow> ledger_memory" where
  "rich_update b m = (if \<not> enable_rich_list m \<or> Type b \<noteq> TX_BLOCK then m
                      else UpdateRichList_entry m (Account b) (Balance b))"

definition delegator_update :: "block \<Rightarrow> ledger_memory \<Rightarrow> ledger_memory" where
  "delegator_update b m = (if \<not> enable_delegator_list m \<or> \<not> HasRepresentative b then m
     else UpdateDelegatorList_entry m (Account b) (Representative b) (Balance b) (Type b))"

lemma UpdateList_rel:
  assumes "ledger_rel M txn L"
  shows "ledger_rel M (UpdateRichList txn b) (L\<lparr>v_memory := rich_update b (v_memory L)\<rparr>)"
    and "ledger_rel M (UpdateDelegatorList txn b) (L\<lparr>v_memory := delegator_update b (v_memory L)\<rparr>)"
  using assms
  by (auto simp: ledger_rel_def UpdateRichList_def UpdateDelegatorList_def rich_update_def
      delegator_update_def)

text \<open>A stored value has passed its well-formedness condition.\<close>

lemma ledger_rel_wf:
  assumes "ledger_rel M txn L"
  shows "v_accounts L a = Some i \<Longrightarrow> info_ok i"
    and "v_rollbacks L h = Some b \<Longrightarrow> block_wf b"
    and "v_forks L k = Some f \<Longrightarrow> fork_ok f"
  using assms by (simp_all add: ledger_rel_def) (elim conjE, erule (1) table_rel_value(2))+

lemma info_ok_update [simp]:
  "info_ok (i\<lparr>ai_forks := f\<rparr>) = info_ok i" "info_ok (i\<lparr>ai_head_height := n\<rparr>) = info_ok i"
  "info_ok (i\<lparr>ai_tail_height := n\<rparr>) = info_ok i" "info_ok (i\<lparr>ai_confirmed_height := n\<rparr>) = info_ok i"
  "info_ok (i\<lparr>ai_head := h\<rparr>) = info_ok i" "info_ok (i\<lparr>ai_tail := h\<rparr>) = info_ok i"
  by (simp_all add: info_ok_def)

lemma info_ok_new [simp]: "info_ok (AccountInfo_new (Type b) h)"
  by (cases b) (simp_all add: info_ok_def AccountInfo_new_def)

text \<open>The view is unique: two views of one transaction agree.\<close>

lemma ledger_rel_unique:
  assumes "ledger_rel M txn L" "ledger_rel M txn L'"
  shows "L = L'"
  using assms unfolding ledger_rel_def
  by (intro ledger_view.equality)
    (auto intro: accounts.tbl_unique blocks.tbl_unique block_index.tbl_unique
      receivables.tbl_unique rewardables.tbl_unique rollbacks.tbl_unique forks.tbl_unique
      binding_count.tbl_unique bindings.tbl_unique)

end
