(* ===== verification/Append.thy ===== *)
theory Append
  imports LedgerView
begin

text \<open>
  Appending a block to its account chain: class \<open>AppendBlockVisitor\<close> and the functions
  \<open>AppendBlock_\<close> and \<open>PrependBlock_\<close> of \<open>rai/node/blockprocessor.cpp\<close>. Each visitor method checks
  the block against the head of the account and then writes the block, the account's new
  head, the weight operations and the receivable or rewardable entries. A method returns an
  error code and the transaction it has written to so far.
\<close>

section \<open>Checks\<close>

definition CheckCommon :: "'db lmdb \<Rightarrow> env \<Rightarrow> 'db transaction \<Rightarrow> block \<Rightarrow> error_code" where
  "CheckCommon M E txn block =
     (if Type block \<noteq> TX_BLOCK \<and> Type block \<noteq> REP_BLOCK \<and> Type block \<noteq> AD_BLOCK
      then BLOCK_PROCESS_TYPE_UNKNOWN
      else if CheckSignature E block then BLOCK_PROCESS_SIGNATURE
      else if Timestamp block < EpochTimestamp (RAI_NETWORK E)
           \<or> Timestamp block > CurrentTimestamp E + MAX_TIMESTAMP_DIFF
      then BLOCK_PROCESS_TIMESTAMP
      else if BlockExists M txn (Hash E block) then BLOCK_PROCESS_EXISTS
      else SUCCESS)"

definition CheckFirstCommon :: "block \<Rightarrow> error_code" where
  "CheckFirstCommon block =
     (if Height block \<noteq> 0 then BLOCK_PROCESS_GAP_PREVIOUS
      else if Credit block = 0 then BLOCK_PROCESS_CREDIT
      else if Previous block \<noteq> 0 then BLOCK_PROCESS_PREVIOUS
      else SUCCESS)"

definition CheckSuccessorCommon :: "block \<Rightarrow> block \<Rightarrow> account_info \<Rightarrow> error_code" where
  "CheckSuccessorCommon block head_block info =
     (if Height block < ai_tail_height info then BLOCK_PROCESS_PRUNED
      else if Height block \<le> ai_head_height info then BLOCK_PROCESS_FORK
      else if Height block > ai_head_height info + 1 then BLOCK_PROCESS_GAP_PREVIOUS
      else if Type block \<noteq> ai_type info then BLOCK_PROCESS_TYPE_MISMATCH
      else if Previous block \<noteq> ai_head info then BLOCK_PROCESS_PREVIOUS
      else if Timestamp block < Timestamp head_block then BLOCK_PROCESS_TIMESTAMP
      else SUCCESS)"

definition CheckCounterSame :: "block \<Rightarrow> block \<Rightarrow> error_code" where
  "CheckCounterSame previous block =
     (if SameDay (Timestamp block) (Timestamp previous) then
        if Counter block = Counter previous then SUCCESS else BLOCK_PROCESS_COUNTER
      else
        if Counter block = 0 then SUCCESS else BLOCK_PROCESS_COUNTER)"

definition CheckCounterIncrease :: "block \<Rightarrow> block \<Rightarrow> error_code" where
  "CheckCounterIncrease previous block =
     (if SameDay (Timestamp block) (Timestamp previous) then
        if Counter block \<noteq> Counter previous + 1 then BLOCK_PROCESS_COUNTER
        else if Counter block > ucast (Credit block) * TRANSACTIONS_PER_CREDIT
        then BLOCK_PROCESS_ACCOUNT_EXCEED_TRANSACTIONS
        else SUCCESS
      else
        if Counter block \<noteq> 1 then BLOCK_PROCESS_COUNTER else SUCCESS)"

definition CheckRepresentativeSame :: "block \<Rightarrow> block \<Rightarrow> error_code" where
  "CheckRepresentativeSame previous block =
     (if \<not> HasRepresentative block then SUCCESS
      else if Representative previous = Representative block then SUCCESS
      else BLOCK_PROCESS_REPRESENTATIVE)"

section \<open>Ledger updates shared by the visitors\<close>

definition PutRewardableInfo ::
  "'db lmdb \<Rightarrow> env \<Rightarrow> 'db transaction \<Rightarrow> block \<Rightarrow> block \<Rightarrow> error_code \<times> 'db transaction" where
  "PutRewardableInfo M E txn block successor =
     (if \<not> HasRepresentative block then (SUCCESS, txn)
      else
        let reward_amount = RewardAmount (RAI_NETWORK E) (Balance block) (Timestamp block)
                              (Timestamp successor);
            reward_timestamp = RewardTimestamp (RAI_NETWORK E) (Timestamp block) (Timestamp successor) in
        if reward_amount \<noteq> 0 \<and> reward_timestamp \<noteq> 0 then
          IF_ERROR_RETURN
            (RewardableInfoPut M txn (Representative block) (Hash E block)
               \<lparr>wi_source = Account block, wi_amount = reward_amount,
                wi_valid_timestamp = reward_timestamp\<rparr>)
            BLOCK_PROCESS_LEDGER_REWARDABLE_INFO_PUT
            (\<lambda>txn. (SUCCESS, txn))
        else (SUCCESS, txn))"

definition PutBlockSuccessor ::
  "'db lmdb \<Rightarrow> env \<Rightarrow> 'db transaction \<Rightarrow> block \<Rightarrow> error_code \<times> 'db transaction" where
  "PutBlockSuccessor M E txn block =
     IF_ERROR_RETURN (BlockPut M E txn (Hash E block) block) BLOCK_PROCESS_LEDGER_BLOCK_PUT (\<lambda>txn.
     IF_ERROR_RETURN (BlockSuccessorSet M txn (Previous block) (Hash E block))
       BLOCK_PROCESS_LEDGER_SUCCESSOR_SET (\<lambda>txn.
     (SUCCESS, txn)))"

definition UpdateAccountInfo ::
  "'db lmdb \<Rightarrow> env \<Rightarrow> 'db transaction \<Rightarrow> block \<Rightarrow> account_info \<Rightarrow> error_code \<times> 'db transaction" where
  "UpdateAccountInfo M E txn block info =
     (let info_l = info\<lparr>ai_head_height := Height block, ai_head := Hash E block\<rparr> in
      IF_ERROR_RETURN (AccountInfoPut M txn (Account block) info_l)
        BLOCK_PROCESS_LEDGER_ACCOUNT_INFO_PUT (\<lambda>txn.
      (SUCCESS, UpdateRichList txn block)))"

definition UpdateRepInfo :: "'db transaction \<Rightarrow> block \<Rightarrow> block \<Rightarrow> 'db transaction" where
  "UpdateRepInfo txn previous block =
     (if \<not> HasRepresentative block then txn
      else
        let txn = RepWeightSub txn (Representative previous) (Balance previous);
            txn = RepWeightAdd txn (Representative block) (Balance block)
        in UpdateDelegatorList txn block)"

text \<open>\<open>account_exists\<close>: the account's record, if it is there and valid.\<close>

definition account_exists :: "'db lmdb \<Rightarrow> 'db transaction \<Rightarrow> block \<Rightarrow> account_info option" where
  "account_exists M txn block = (case AccountInfoGet M txn (Account block) of
     None \<Rightarrow> None
   | Some info \<Rightarrow> if AccountInfo_Valid info then Some info else None)"

section \<open>Visitor methods\<close>

definition Append_Send ::
  "'db lmdb \<Rightarrow> env \<Rightarrow> 'db transaction \<Rightarrow> block \<Rightarrow> error_code \<times> 'db transaction" where
  "Append_Send M E txn block =
     CHECK_RETURN (CheckCommon M E txn block) txn (\<lambda>txn.
     case account_exists M txn block of
       None \<Rightarrow> (if Height block \<noteq> 0 then BLOCK_PROCESS_GAP_PREVIOUS else BLOCK_PROCESS_OPCODE, txn)
     | Some account_info \<Rightarrow>
       IF_NONE_RETURN (BlockGet M txn (ai_head account_info)) BLOCK_PROCESS_LEDGER_BLOCK_GET txn
         (\<lambda>head_block.
       CHECK_RETURN (CheckSuccessorCommon block head_block account_info) txn (\<lambda>txn.
       if Credit block \<noteq> Credit head_block then (BLOCK_PROCESS_CREDIT, txn) else
       CHECK_RETURN (CheckCounterIncrease head_block block) txn (\<lambda>txn.
       CHECK_RETURN (CheckRepresentativeSame head_block block) txn (\<lambda>txn.
       if Balance block \<ge> Balance head_block then (BLOCK_PROCESS_BALANCE, txn) else
       IF_NOT_SUCCESS_RETURN (PutBlockSuccessor M E txn block) (\<lambda>txn.
       IF_NOT_SUCCESS_RETURN (UpdateAccountInfo M E txn block account_info) (\<lambda>txn.
       let txn = UpdateRepInfo txn head_block block in
       IF_NOT_SUCCESS_RETURN (PutRewardableInfo M E txn head_block block) (\<lambda>txn.
       let send_amount = Balance head_block - Balance block in
       IF_ERROR_RETURN
         (ReceivableInfoPut M txn (Link block) (Hash E block)
            \<lparr>ri_source = Account block, ri_amount = send_amount, ri_timestamp = Timestamp block\<rparr>)
         BLOCK_PROCESS_LEDGER_RECEIVABLE_INFO_PUT (\<lambda>txn.
       (SUCCESS, txn))))))))))"

definition Append_Receive ::
  "'db lmdb \<Rightarrow> env \<Rightarrow> 'db transaction \<Rightarrow> block \<Rightarrow> error_code \<times> 'db transaction" where
  "Append_Receive M E txn block =
     CHECK_RETURN (CheckCommon M E txn block) txn (\<lambda>txn.
     case account_exists M txn block of
       None \<Rightarrow>
         CHECK_RETURN (CheckFirstCommon block) txn (\<lambda>txn.
         if Counter block \<noteq> 1 then (BLOCK_PROCESS_COUNTER, txn) else
         IF_NONE_RETURN (BlockGet M txn (Link block)) BLOCK_PROCESS_GAP_RECEIVE_SOURCE txn (\<lambda>source.
         if Timestamp block < Timestamp source then (BLOCK_PROCESS_TIMESTAMP, txn) else
         IF_NONE_RETURN (ReceivableInfoGet M txn (Account block) (Link block))
           BLOCK_PROCESS_UNRECEIVABLE txn (\<lambda>receivable_info.
         let price = CreditPrice (RAI_NETWORK E) (Timestamp block);
             available_s = (ucast (ri_amount receivable_info) :: u256);
             balance_s = (ucast (Balance block) :: u256);
             price_s = (ucast price :: u256);
             total_s = price_s * ucast (Credit block) + balance_s in
         if available_s \<noteq> total_s then (BLOCK_PROCESS_BALANCE, txn) else
         IF_ERROR_RETURN (BlockPut M E txn (Hash E block) block)
           BLOCK_PROCESS_LEDGER_BLOCK_PUT (\<lambda>txn.
         IF_ERROR_RETURN
           (AccountInfoPut M txn (Account block) (AccountInfo_new (Type block) (Hash E block)))
           BLOCK_PROCESS_LEDGER_ACCOUNT_INFO_PUT (\<lambda>txn.
         let txn = UpdateRichList txn block;
             txn = (if HasRepresentative block
                    then UpdateDelegatorList
                           (RepWeightAdd txn (Representative block) (Balance block)) block
                    else txn) in
         IF_ERROR_RETURN (ReceivableInfoDel M txn (Account block) (Link block))
           BLOCK_PROCESS_LEDGER_RECEIVABLE_INFO_DEL (\<lambda>txn.
         (SUCCESS, txn)))))))
     | Some account_info \<Rightarrow>
         IF_NONE_RETURN (BlockGet M txn (ai_head account_info)) BLOCK_PROCESS_LEDGER_BLOCK_GET txn
           (\<lambda>head_block.
         CHECK_RETURN (CheckSuccessorCommon block head_block account_info) txn (\<lambda>txn.
         if Credit block \<noteq> Credit head_block then (BLOCK_PROCESS_CREDIT, txn) else
         CHECK_RETURN (CheckCounterIncrease head_block block) txn (\<lambda>txn.
         CHECK_RETURN (CheckRepresentativeSame head_block block) txn (\<lambda>txn.
         IF_NONE_RETURN (BlockGet M txn (Link block)) BLOCK_PROCESS_GAP_RECEIVE_SOURCE txn (\<lambda>source.
         if Timestamp block < Timestamp source then (BLOCK_PROCESS_TIMESTAMP, txn) else
         if Balance block \<le> Balance head_block then (BLOCK_PROCESS_BALANCE, txn) else
         IF_NONE_RETURN (ReceivableInfoGet M txn (Account block) (Link block))
           BLOCK_PROCESS_UNRECEIVABLE txn (\<lambda>receivable_info.
         let receive_amount = Balance block - Balance head_block in
         if ri_amount receivable_info \<noteq> receive_amount then (BLOCK_PROCESS_BALANCE, txn) else
         IF_NOT_SUCCESS_RETURN (PutBlockSuccessor M E txn block) (\<lambda>txn.
         IF_NOT_SUCCESS_RETURN (UpdateAccountInfo M E txn block account_info) (\<lambda>txn.
         let txn = UpdateRepInfo txn head_block block in
         IF_NOT_SUCCESS_RETURN (PutRewardableInfo M E txn head_block block) (\<lambda>txn.
         IF_ERROR_RETURN (ReceivableInfoDel M txn (Account block) (Link block))
           BLOCK_PROCESS_LEDGER_RECEIVABLE_INFO_DEL (\<lambda>txn.
         (SUCCESS, txn))))))))))))"

definition Append_Change ::
  "'db lmdb \<Rightarrow> env \<Rightarrow> 'db transaction \<Rightarrow> block \<Rightarrow> error_code \<times> 'db transaction" where
  "Append_Change M E txn block =
     CHECK_RETURN (CheckCommon M E txn block) txn (\<lambda>txn.
     case account_exists M txn block of
       None \<Rightarrow> (if Height block \<noteq> 0 then BLOCK_PROCESS_GAP_PREVIOUS else BLOCK_PROCESS_OPCODE, txn)
     | Some account_info \<Rightarrow>
       IF_NONE_RETURN (BlockGet M txn (ai_head account_info)) BLOCK_PROCESS_LEDGER_BLOCK_GET txn
         (\<lambda>head_block.
       CHECK_RETURN (CheckSuccessorCommon block head_block account_info) txn (\<lambda>txn.
       if Credit block \<noteq> Credit head_block then (BLOCK_PROCESS_CREDIT, txn) else
       CHECK_RETURN (CheckCounterIncrease head_block block) txn (\<lambda>txn.
       if Balance block \<noteq> Balance head_block then (BLOCK_PROCESS_BALANCE, txn) else
       if Link block \<noteq> 0 then (BLOCK_PROCESS_LINK, txn) else
       IF_NOT_SUCCESS_RETURN (PutBlockSuccessor M E txn block) (\<lambda>txn.
       IF_NOT_SUCCESS_RETURN (UpdateAccountInfo M E txn block account_info) (\<lambda>txn.
       let txn = UpdateRepInfo txn head_block block in
       IF_NOT_SUCCESS_RETURN (PutRewardableInfo M E txn head_block block) (\<lambda>txn.
       (SUCCESS, txn))))))))"

definition Append_Credit ::
  "'db lmdb \<Rightarrow> env \<Rightarrow> 'db transaction \<Rightarrow> block \<Rightarrow> error_code \<times> 'db transaction" where
  "Append_Credit M E txn block =
     CHECK_RETURN (CheckCommon M E txn block) txn (\<lambda>txn.
     case account_exists M txn block of
       None \<Rightarrow> (if Height block \<noteq> 0 then BLOCK_PROCESS_GAP_PREVIOUS else BLOCK_PROCESS_OPCODE, txn)
     | Some account_info \<Rightarrow>
       IF_NONE_RETURN (BlockGet M txn (ai_head account_info)) BLOCK_PROCESS_LEDGER_BLOCK_GET txn
         (\<lambda>head_block.
       CHECK_RETURN (CheckSuccessorCommon block head_block account_info) txn (\<lambda>txn.
       if Credit block \<le> Credit head_block then (BLOCK_PROCESS_CREDIT, txn) else
       CHECK_RETURN (CheckCounterIncrease head_block block) txn (\<lambda>txn.
       CHECK_RETURN (CheckRepresentativeSame head_block block) txn (\<lambda>txn.
       let price_s = (ucast (CreditPrice (RAI_NETWORK E) (Timestamp block)) :: u256);
           total_s = (ucast (Balance head_block) :: u256);
           balance_s = (ucast (Balance block) :: u256) in
       if total_s \<noteq> balance_s + price_s * ucast (Credit block - Credit head_block)
       then (BLOCK_PROCESS_BALANCE, txn) else
       if Link block \<noteq> 0 then (BLOCK_PROCESS_LINK, txn) else
       IF_NOT_SUCCESS_RETURN (PutBlockSuccessor M E txn block) (\<lambda>txn.
       IF_NOT_SUCCESS_RETURN (UpdateAccountInfo M E txn block account_info) (\<lambda>txn.
       let txn = UpdateRepInfo txn head_block block in
       IF_NOT_SUCCESS_RETURN (PutRewardableInfo M E txn head_block block) (\<lambda>txn.
       (SUCCESS, txn)))))))))"

definition Append_Reward ::
  "'db lmdb \<Rightarrow> env \<Rightarrow> 'db transaction \<Rightarrow> block \<Rightarrow> error_code \<times> 'db transaction" where
  "Append_Reward M E txn block =
     CHECK_RETURN (CheckCommon M E txn block) txn (\<lambda>txn.
     case account_exists M txn block of
       None \<Rightarrow>
         CHECK_RETURN (CheckFirstCommon block) txn (\<lambda>txn.
         if Counter block \<noteq> 0 then (BLOCK_PROCESS_COUNTER, txn) else
         IF_NONE_RETURN (BlockGet M txn (Link block)) BLOCK_PROCESS_GAP_REWARD_SOURCE txn (\<lambda>source.
         if Timestamp block < Timestamp source then (BLOCK_PROCESS_TIMESTAMP, txn) else
         IF_NONE_RETURN (RewardableInfoGet M txn (Account block) (Link block))
           BLOCK_PROCESS_UNREWARDABLE txn (\<lambda>rewardable_info.
         if Timestamp block < wi_valid_timestamp rewardable_info then (BLOCK_PROCESS_TIMESTAMP, txn) else
         let price = CreditPrice (RAI_NETWORK E) (Timestamp block);
             available_s = (ucast (wi_amount rewardable_info) :: u256);
             balance_s = (ucast (Balance block) :: u256);
             price_s = (ucast price :: u256);
             total_s = price_s * ucast (Credit block) + balance_s in
         if available_s \<noteq> total_s then (BLOCK_PROCESS_BALANCE, txn) else
         IF_ERROR_RETURN (BlockPut M E txn (Hash E block) block)
           BLOCK_PROCESS_LEDGER_BLOCK_PUT (\<lambda>txn.
         IF_ERROR_RETURN
           (AccountInfoPut M txn (Account block) (AccountInfo_new (Type block) (Hash E block)))
           BLOCK_PROCESS_LEDGER_ACCOUNT_INFO_PUT (\<lambda>txn.
         IF_ERROR_RETURN (RewardableInfoDel M txn (Account block) (Link block))
           BLOCK_PROCESS_LEDGER_REWARDABLE_INFO_DEL (\<lambda>txn.
         (SUCCESS, txn)))))))
     | Some account_info \<Rightarrow>
         IF_NONE_RETURN (BlockGet M txn (ai_head account_info)) BLOCK_PROCESS_LEDGER_BLOCK_GET txn
           (\<lambda>head_block.
         CHECK_RETURN (CheckSuccessorCommon block head_block account_info) txn (\<lambda>txn.
         if Credit block \<noteq> Credit head_block then (BLOCK_PROCESS_CREDIT, txn) else
         CHECK_RETURN (CheckCounterSame head_block block) txn (\<lambda>txn.
         IF_NONE_RETURN (BlockGet M txn (Link block)) BLOCK_PROCESS_GAP_REWARD_SOURCE txn (\<lambda>source.
         if Timestamp block < Timestamp source then (BLOCK_PROCESS_TIMESTAMP, txn) else
         if Balance block \<le> Balance head_block then (BLOCK_PROCESS_BALANCE, txn) else
         IF_NONE_RETURN (RewardableInfoGet M txn (Account block) (Link block))
           BLOCK_PROCESS_UNREWARDABLE txn (\<lambda>rewardable_info.
         if Timestamp block < wi_valid_timestamp rewardable_info then (BLOCK_PROCESS_TIMESTAMP, txn) else
         let reward_amount = Balance block - Balance head_block in
         if wi_amount rewardable_info \<noteq> reward_amount then (BLOCK_PROCESS_BALANCE, txn) else
         IF_NOT_SUCCESS_RETURN (PutBlockSuccessor M E txn block) (\<lambda>txn.
         IF_NOT_SUCCESS_RETURN (UpdateAccountInfo M E txn block account_info) (\<lambda>txn.
         IF_ERROR_RETURN (RewardableInfoDel M txn (Account block) (Link block))
           BLOCK_PROCESS_LEDGER_REWARDABLE_INFO_DEL (\<lambda>txn.
         (SUCCESS, txn))))))))))"

definition Append_Destroy ::
  "'db lmdb \<Rightarrow> env \<Rightarrow> 'db transaction \<Rightarrow> block \<Rightarrow> error_code \<times> 'db transaction" where
  "Append_Destroy M E txn block =
     CHECK_RETURN (CheckCommon M E txn block) txn (\<lambda>txn.
     case account_exists M txn block of
       None \<Rightarrow> (if Height block \<noteq> 0 then BLOCK_PROCESS_GAP_PREVIOUS else BLOCK_PROCESS_OPCODE, txn)
     | Some account_info \<Rightarrow>
       IF_NONE_RETURN (BlockGet M txn (ai_head account_info)) BLOCK_PROCESS_LEDGER_BLOCK_GET txn
         (\<lambda>head_block.
       CHECK_RETURN (CheckSuccessorCommon block head_block account_info) txn (\<lambda>txn.
       if Credit block \<noteq> Credit head_block then (BLOCK_PROCESS_CREDIT, txn) else
       CHECK_RETURN (CheckCounterIncrease head_block block) txn (\<lambda>txn.
       CHECK_RETURN (CheckRepresentativeSame head_block block) txn (\<lambda>txn.
       if Balance block \<ge> Balance head_block then (BLOCK_PROCESS_BALANCE, txn) else
       IF_NOT_SUCCESS_RETURN (PutBlockSuccessor M E txn block) (\<lambda>txn.
       IF_NOT_SUCCESS_RETURN (UpdateAccountInfo M E txn block account_info) (\<lambda>txn.
       let txn = UpdateRepInfo txn head_block block in
       IF_NOT_SUCCESS_RETURN (PutRewardableInfo M E txn head_block block) (\<lambda>txn.
       (SUCCESS, txn)))))))))"

definition Append_Bind ::
  "'db lmdb \<Rightarrow> env \<Rightarrow> 'db transaction \<Rightarrow> block \<Rightarrow> error_code \<times> 'db transaction" where
  "Append_Bind M E txn block =
     CHECK_RETURN (CheckCommon M E txn block) txn (\<lambda>txn.
     case account_exists M txn block of
       None \<Rightarrow> (if Height block \<noteq> 0 then BLOCK_PROCESS_GAP_PREVIOUS else BLOCK_PROCESS_OPCODE, txn)
     | Some account_info \<Rightarrow>
       IF_NONE_RETURN (BlockGet M txn (ai_head account_info)) BLOCK_PROCESS_LEDGER_BLOCK_GET txn
         (\<lambda>head_block.
       CHECK_RETURN (CheckSuccessorCommon block head_block account_info) txn (\<lambda>txn.
       if Credit block \<noteq> Credit head_block then (BLOCK_PROCESS_CREDIT, txn) else
       CHECK_RETURN (CheckCounterIncrease head_block block) txn (\<lambda>txn.
       if Balance block \<noteq> Balance head_block then (BLOCK_PROCESS_BALANCE, txn) else
       if \<not> HasChain block \<or> Chain block = Chain_INVALID then (BLOCK_PROCESS_CHAIN, txn) else
       if (case BindingCountGet M txn (Account block) of
             None \<Rightarrow> False | Some count \<Rightarrow> count \<ge> AllowedBindings (ucast (Credit head_block)))
       then (BLOCK_PROCESS_BINDING_COUNT, txn) else
       let count = (case BindingCountGet M txn (Account block) of None \<Rightarrow> 0 | Some count \<Rightarrow> count);
           binding_key = \<lparr>bk_account = Account block, bk_chain = Chain block,
                          bk_height = Height block\<rparr> in
       IF_ERROR_RETURN (BindingPut M txn binding_key (Link block))
         BLOCK_PROCESS_LEDGER_BINDING_ENTRY_PUT (\<lambda>txn.
       IF_ERROR_RETURN (BindingCountPut M txn (Account block) (count + 1))
         BLOCK_PROCESS_LEDGER_BINDING_COUNT_PUT (\<lambda>txn.
       IF_NOT_SUCCESS_RETURN (PutBlockSuccessor M E txn block) (\<lambda>txn.
       IF_NOT_SUCCESS_RETURN (UpdateAccountInfo M E txn block account_info) (\<lambda>txn.
       let txn = UpdateRepInfo txn head_block block in
       IF_NOT_SUCCESS_RETURN (PutRewardableInfo M E txn head_block block) (\<lambda>txn.
       (SUCCESS, txn))))))))))"

definition AppendBlockVisitor ::
  "'db lmdb \<Rightarrow> env \<Rightarrow> 'db transaction \<Rightarrow> (error_code \<times> 'db transaction) block_visitor" where
  "AppendBlockVisitor M E txn =
     \<lparr>visit_Send = Append_Send M E txn, visit_Receive = Append_Receive M E txn,
      visit_Change = Append_Change M E txn, visit_Credit = Append_Credit M E txn,
      visit_Reward = Append_Reward M E txn, visit_Destroy = Append_Destroy M E txn,
      visit_Bind = Append_Bind M E txn\<rparr>"

definition AppendBlock ::
  "'db lmdb \<Rightarrow> env \<Rightarrow> 'db transaction \<Rightarrow> block \<Rightarrow> error_code \<times> 'db transaction" where
  "AppendBlock M E txn block = Visit (AppendBlockVisitor M E txn) block (BLOCK_OPCODE, txn)"

definition PrependBlock ::
  "'db lmdb \<Rightarrow> env \<Rightarrow> 'db transaction \<Rightarrow> block \<Rightarrow> error_code \<times> 'db transaction" where
  "PrependBlock M E txn block =
     (if CheckSignature E block then (BLOCK_PROCESS_SIGNATURE, txn) else
      IF_NONE_RETURN (AccountInfoGet M txn (Account block)) BLOCK_PROCESS_PREPEND_IGNORE txn (\<lambda>info.
      if ai_tail_height info \<noteq> Height block + 1 then (BLOCK_PROCESS_PREPEND_IGNORE, txn) else
      IF_NONE_RETURN (BlockGet M txn (ai_tail info)) BLOCK_PROCESS_LEDGER_BLOCK_GET txn (\<lambda>block_tail.
      if Previous block_tail \<noteq> Hash E block then (BLOCK_PROCESS_PREPEND_IGNORE, txn) else
      IF_ERROR_RETURN (BlockPut_successor M E txn (Hash E block) block (ai_tail info))
        BLOCK_PROCESS_LEDGER_BLOCK_PUT (\<lambda>txn.
      IF_ERROR_RETURN
        (AccountInfoPut M txn (Account block)
           (info\<lparr>ai_tail := Hash E block, ai_tail_height := Height block\<rparr>))
        BLOCK_PROCESS_LEDGER_ACCOUNT_INFO_PUT (\<lambda>txn.
      (SUCCESS, txn))))))"

end
