(* ===== verification/AppendView.thy ===== *)
theory AppendView
  imports Append
begin

text \<open>
  What appending a block does to the abstract ledger. \<open>successor_view\<close> and \<open>first_view\<close> are the
  effects on the view, \<open>common_ok\<close> and \<open>successor_ok\<close> the conditions; the \<open>_success\<close> lemmas show that
  a visitor method that returns \<open>SUCCESS\<close> found its conditions true and led to exactly that view.
\<close>

section \<open>Effects on the view\<close>

definition put_block_view :: "env \<Rightarrow> block \<Rightarrow> block \<Rightarrow> ledger_view \<Rightarrow> ledger_view" where
  "put_block_view E p b L =
     L\<lparr>v_index := index_put E b (v_index L),
       v_blocks := (v_blocks L)(Hash E b \<mapsto> (b, 0), Previous b \<mapsto> (p, Hash E b))\<rparr>"

definition account_view :: "env \<Rightarrow> account_info \<Rightarrow> block \<Rightarrow> ledger_view \<Rightarrow> ledger_view" where
  "account_view E info b L =
     L\<lparr>v_accounts := (v_accounts L)(Account b \<mapsto>
         info\<lparr>ai_head_height := Height b, ai_head := Hash E b\<rparr>),
       v_memory := rich_update b (v_memory L)\<rparr>"

definition rep_view :: "block \<Rightarrow> block \<Rightarrow> ledger_view \<Rightarrow> ledger_view" where
  "rep_view p b L =
     (if HasRepresentative b then
        L\<lparr>v_operations := v_operations L @
            [\<lparr>rw_add = False, rw_representative = Representative p, rw_weight = Balance p\<rparr>,
             \<lparr>rw_add = True, rw_representative = Representative b, rw_weight = Balance b\<rparr>],
          v_memory := delegator_update b (v_memory L)\<rparr>
      else L)"

definition reward_of :: "env \<Rightarrow> block \<Rightarrow> block \<Rightarrow> rewardable_info option" where
  "reward_of E p b =
     (let amount = RewardAmount (RAI_NETWORK E) (Balance p) (Timestamp p) (Timestamp b);
          timestamp = RewardTimestamp (RAI_NETWORK E) (Timestamp p) (Timestamp b) in
      if HasRepresentative p \<and> amount \<noteq> 0 \<and> timestamp \<noteq> 0
      then Some \<lparr>wi_source = Account p, wi_amount = amount, wi_valid_timestamp = timestamp\<rparr>
      else None)"

definition reward_view :: "env \<Rightarrow> block \<Rightarrow> block \<Rightarrow> ledger_view \<Rightarrow> ledger_view" where
  "reward_view E p b L = (case reward_of E p b of
     None \<Rightarrow> L
   | Some wi \<Rightarrow> L\<lparr>v_rewardables := (v_rewardables L)((Representative p, Hash E p) \<mapsto> wi)\<rparr>)"

text \<open>A successor block of an ordinary kind: block, account, weights, reward of the old head.\<close>

definition successor_view ::
  "env \<Rightarrow> account_info \<Rightarrow> block \<Rightarrow> block \<Rightarrow> ledger_view \<Rightarrow> ledger_view" where
  "successor_view E info p b L =
     reward_view E p b (rep_view p b (account_view E info b (put_block_view E p b L)))"

text \<open>A first block: the block and a fresh account record.\<close>

definition first_view :: "env \<Rightarrow> block \<Rightarrow> ledger_view \<Rightarrow> ledger_view" where
  "first_view E b L =
     L\<lparr>v_blocks := (v_blocks L)(Hash E b \<mapsto> (b, 0)), v_index := index_put E b (v_index L),
       v_accounts := (v_accounts L)(Account b \<mapsto> AccountInfo_new (Type b) (Hash E b))\<rparr>"

definition first_rep_view :: "block \<Rightarrow> ledger_view \<Rightarrow> ledger_view" where
  "first_rep_view b L =
     (let m = rich_update b (v_memory L) in
      if HasRepresentative b then
        L\<lparr>v_operations := v_operations L @
            [\<lparr>rw_add = True, rw_representative = Representative b, rw_weight = Balance b\<rparr>],
          v_memory := delegator_update b m\<rparr>
      else L\<lparr>v_memory := m\<rparr>)"

section \<open>Fields of the views\<close>

lemma put_block_view_fields [simp]:
  "v_accounts (put_block_view E p b L) = v_accounts L"
  "v_blocks (put_block_view E p b L) =
     (v_blocks L)(Hash E b \<mapsto> (b, 0), Previous b \<mapsto> (p, Hash E b))"
  "v_index (put_block_view E p b L) = index_put E b (v_index L)"
  "v_receivables (put_block_view E p b L) = v_receivables L"
  "v_rewardables (put_block_view E p b L) = v_rewardables L"
  "v_operations (put_block_view E p b L) = v_operations L"
  "v_memory (put_block_view E p b L) = v_memory L"
  "v_bindings (put_block_view E p b L) = v_bindings L"
  "v_binding_count (put_block_view E p b L) = v_binding_count L"
  "v_rollbacks (put_block_view E p b L) = v_rollbacks L"
  "v_forks (put_block_view E p b L) = v_forks L"
  by (simp_all add: put_block_view_def)

lemma account_view_fields [simp]:
  "v_accounts (account_view E info b L) =
     (v_accounts L)(Account b \<mapsto> info\<lparr>ai_head_height := Height b, ai_head := Hash E b\<rparr>)"
  "v_blocks (account_view E info b L) = v_blocks L"
  "v_index (account_view E info b L) = v_index L"
  "v_receivables (account_view E info b L) = v_receivables L"
  "v_rewardables (account_view E info b L) = v_rewardables L"
  "v_operations (account_view E info b L) = v_operations L"
  "v_memory (account_view E info b L) = rich_update b (v_memory L)"
  "v_bindings (account_view E info b L) = v_bindings L"
  "v_binding_count (account_view E info b L) = v_binding_count L"
  "v_rollbacks (account_view E info b L) = v_rollbacks L"
  "v_forks (account_view E info b L) = v_forks L"
  by (simp_all add: account_view_def)

lemma rep_view_fields [simp]:
  "v_accounts (rep_view p b L) = v_accounts L"
  "v_blocks (rep_view p b L) = v_blocks L"
  "v_index (rep_view p b L) = v_index L"
  "v_receivables (rep_view p b L) = v_receivables L"
  "v_rewardables (rep_view p b L) = v_rewardables L"
  "v_bindings (rep_view p b L) = v_bindings L"
  "v_binding_count (rep_view p b L) = v_binding_count L"
  "v_rollbacks (rep_view p b L) = v_rollbacks L"
  "v_forks (rep_view p b L) = v_forks L"
  by (simp_all add: rep_view_def)

lemma reward_view_fields [simp]:
  "v_accounts (reward_view E p b L) = v_accounts L"
  "v_blocks (reward_view E p b L) = v_blocks L"
  "v_index (reward_view E p b L) = v_index L"
  "v_receivables (reward_view E p b L) = v_receivables L"
  "v_operations (reward_view E p b L) = v_operations L"
  "v_memory (reward_view E p b L) = v_memory L"
  "v_bindings (reward_view E p b L) = v_bindings L"
  "v_binding_count (reward_view E p b L) = v_binding_count L"
  "v_rollbacks (reward_view E p b L) = v_rollbacks L"
  "v_forks (reward_view E p b L) = v_forks L"
  by (simp_all add: reward_view_def split: option.splits)

lemma successor_view_fields [simp]:
  "v_accounts (successor_view E info p b L) =
     (v_accounts L)(Account b \<mapsto> info\<lparr>ai_head_height := Height b, ai_head := Hash E b\<rparr>)"
  "v_blocks (successor_view E info p b L) =
     (v_blocks L)(Hash E b \<mapsto> (b, 0), Previous b \<mapsto> (p, Hash E b))"
  "v_index (successor_view E info p b L) = index_put E b (v_index L)"
  "v_receivables (successor_view E info p b L) = v_receivables L"
  "v_bindings (successor_view E info p b L) = v_bindings L"
  "v_binding_count (successor_view E info p b L) = v_binding_count L"
  "v_rollbacks (successor_view E info p b L) = v_rollbacks L"
  "v_forks (successor_view E info p b L) = v_forks L"
  by (simp_all add: successor_view_def)

lemma first_view_fields [simp]:
  "v_accounts (first_view E b L) =
     (v_accounts L)(Account b \<mapsto> AccountInfo_new (Type b) (Hash E b))"
  "v_blocks (first_view E b L) = (v_blocks L)(Hash E b \<mapsto> (b, 0))"
  "v_index (first_view E b L) = index_put E b (v_index L)"
  "v_receivables (first_view E b L) = v_receivables L"
  "v_rewardables (first_view E b L) = v_rewardables L"
  "v_operations (first_view E b L) = v_operations L"
  "v_memory (first_view E b L) = v_memory L"
  "v_bindings (first_view E b L) = v_bindings L"
  "v_binding_count (first_view E b L) = v_binding_count L"
  "v_rollbacks (first_view E b L) = v_rollbacks L"
  "v_forks (first_view E b L) = v_forks L"
  by (simp_all add: first_view_def)

lemma first_rep_view_fields [simp]:
  "v_accounts (first_rep_view b L) = v_accounts L"
  "v_blocks (first_rep_view b L) = v_blocks L"
  "v_index (first_rep_view b L) = v_index L"
  "v_receivables (first_rep_view b L) = v_receivables L"
  "v_rewardables (first_rep_view b L) = v_rewardables L"
  "v_bindings (first_rep_view b L) = v_bindings L"
  "v_binding_count (first_rep_view b L) = v_binding_count L"
  "v_rollbacks (first_rep_view b L) = v_rollbacks L"
  "v_forks (first_rep_view b L) = v_forks L"
  by (simp_all add: first_rep_view_def Let_def)

section \<open>Conditions\<close>

definition common_ok :: "env \<Rightarrow> ledger_view \<Rightarrow> block \<Rightarrow> bool" where
  "common_ok E L b \<longleftrightarrow> \<not> CheckSignature E b \<and> EpochTimestamp (RAI_NETWORK E) \<le> Timestamp b \<and>
     Timestamp b \<le> CurrentTimestamp E + MAX_TIMESTAMP_DIFF \<and> v_blocks L (Hash E b) = None"

definition no_account :: "ledger_view \<Rightarrow> u256 \<Rightarrow> bool" where
  "no_account L a \<longleftrightarrow> (\<forall>info. v_accounts L a = Some info \<longrightarrow> \<not> AccountInfo_Valid info)"

definition successor_ok :: "env \<Rightarrow> ledger_view \<Rightarrow> account_info \<Rightarrow> block \<Rightarrow> block \<Rightarrow> bool" where
  "successor_ok E L info p b \<longleftrightarrow>
     common_ok E L b \<and> v_accounts L (Account b) = Some info \<and> AccountInfo_Valid info \<and>
     (\<exists>s. v_blocks L (ai_head info) = Some (p, s)) \<and>
     Height b = ai_head_height info + 1 \<and> ai_tail_height info \<le> Height b \<and>
     ai_head_height info < Height b \<and>
     Type b = ai_type info \<and> Previous b = ai_head info \<and> Timestamp p \<le> Timestamp b"

definition counter_increases :: "block \<Rightarrow> block \<Rightarrow> bool" where
  "counter_increases p b \<longleftrightarrow>
     (if SameDay (Timestamp b) (Timestamp p)
      then Counter b = Counter p + 1 \<and> Counter b \<le> ucast (Credit b) * TRANSACTIONS_PER_CREDIT
      else Counter b = 1)"

definition counter_stays :: "block \<Rightarrow> block \<Rightarrow> bool" where
  "counter_stays p b \<longleftrightarrow>
     (if SameDay (Timestamp b) (Timestamp p) then Counter b = Counter p else Counter b = 0)"

definition same_representative :: "block \<Rightarrow> block \<Rightarrow> bool" where
  "same_representative p b \<longleftrightarrow> (HasRepresentative b \<longrightarrow> Representative p = Representative b)"

lemma CheckCommon_SUCCESS:
  assumes "ledger_rel M txn L"
  shows "CheckCommon M E txn b = SUCCESS \<longleftrightarrow> common_ok E L b"
proof -
  have "Type b = TX_BLOCK \<or> Type b = REP_BLOCK \<or> Type b = AD_BLOCK"
    by (cases b) simp_all
  then show ?thesis
    by (cases "v_blocks L (Hash E b)")
      (auto simp: CheckCommon_def common_ok_def BlockExists_rel [OF assms] not_less)
qed

lemma word_step:
  fixes m n :: "'a::len word"
  shows "\<not> n \<le> m \<and> \<not> n > m + 1 \<longleftrightarrow> n = m + 1 \<and> m < n"
  by (metis inc_le le_less not_less order.asym)

lemma CheckSuccessorCommon_SUCCESS:
  "CheckSuccessorCommon b p info = SUCCESS \<longleftrightarrow>
     Height b = ai_head_height info + 1 \<and> ai_tail_height info \<le> Height b \<and>
     ai_head_height info < Height b \<and>
     Type b = ai_type info \<and> Previous b = ai_head info \<and> Timestamp p \<le> Timestamp b"
  using word_step [of "Height b" "ai_head_height info"]
  by (auto simp: CheckSuccessorCommon_def not_less not_le)

lemma counter_cases:
  fixes c d x e :: u32
  assumes "A \<noteq> C" "B \<noteq> C"
  shows "(if S then if c \<noteq> d then A else if c > x then B else C
          else if c \<noteq> e then A else C) = C \<longleftrightarrow> (if S then c = d \<and> c \<le> x else c = e)"
  using assms by (auto simp: not_less)

lemma CheckCounterIncrease_SUCCESS: "CheckCounterIncrease p b = SUCCESS \<longleftrightarrow> counter_increases p b"
  unfolding CheckCounterIncrease_def counter_increases_def by (rule counter_cases) simp_all

lemma CheckCounterSame_SUCCESS: "CheckCounterSame p b = SUCCESS \<longleftrightarrow> counter_stays p b"
  by (auto simp: CheckCounterSame_def counter_stays_def)

lemma CheckRepresentativeSame_SUCCESS:
  "CheckRepresentativeSame p b = SUCCESS \<longleftrightarrow> same_representative p b"
  by (auto simp: CheckRepresentativeSame_def same_representative_def)

lemma CheckFirstCommon_SUCCESS:
  "CheckFirstCommon b = SUCCESS \<longleftrightarrow> Height b = 0 \<and> Credit b \<noteq> 0 \<and> Previous b = 0"
  by (auto simp: CheckFirstCommon_def)

lemma account_exists_rel:
  assumes "ledger_rel M txn L"
  shows "account_exists M txn b = Some info \<longleftrightarrow>
           v_accounts L (Account b) = Some info \<and> AccountInfo_Valid info"
    and "account_exists M txn b = None \<longleftrightarrow> no_account L (Account b)"
  by (auto simp: account_exists_def AccountInfoGet_rel [OF assms] no_account_def split: option.splits)

lemmas check_SUCCESS = CheckSuccessorCommon_SUCCESS CheckCounterIncrease_SUCCESS
  CheckCounterSame_SUCCESS CheckRepresentativeSame_SUCCESS CheckFirstCommon_SUCCESS

section \<open>Steps\<close>

lemma PutBlockSuccessor_rel:
  assumes "PutBlockSuccessor M E txn b = (SUCCESS, txn')" "lmdb_laws M" "ledger_rel M txn L"
    "block_wf b" "v_blocks L (Hash E b) = None" "v_blocks L (Previous b) = Some (p, s)"
  shows "ledger_rel M txn' (put_block_view E p b L)"
proof -
  from assms(1) obtain t where put: "BlockPut M E txn (Hash E b) b = (False, t)"
    and set: "BlockSuccessorSet M t (Previous b) (Hash E b) = (False, txn')"
    by (auto simp: PutBlockSuccessor_def success_simps)
  have ne: "Hash E b \<noteq> Previous b" using assms(5,6) by auto
  note r = BlockPut_rel [OF put assms(2-4)]
  from BlockSuccessorSet_rel [OF set assms(2) r] ne assms(6) show ?thesis
    by (auto simp: put_block_view_def fun_upd_twist)
qed

lemma UpdateAccountInfo_rel:
  assumes "UpdateAccountInfo M E txn b info = (SUCCESS, txn')" "lmdb_laws M" "ledger_rel M txn L"
    "info_ok info"
  shows "ledger_rel M txn' (account_view E info b L)"
proof -
  from assms(1) obtain t where
    put: "AccountInfoPut M txn (Account b) (info\<lparr>ai_head_height := Height b, ai_head := Hash E b\<rparr>)
            = (False, t)" and t': "txn' = UpdateRichList t b"
    by (auto simp: UpdateAccountInfo_def success_simps)
  show ?thesis
    using UpdateList_rel(1) [OF AccountInfoPut_rel [OF put assms(2,3)]] assms(4)
    by (simp add: t' account_view_def)
qed

lemma UpdateRepInfo_rel:
  assumes "ledger_rel M txn L"
  shows "ledger_rel M (UpdateRepInfo txn p b) (rep_view p b L)"
  using UpdateList_rel(2) [OF RepWeight_rel(1) [OF RepWeight_rel(2) [OF assms]]] assms
  by (simp add: UpdateRepInfo_def rep_view_def Let_def)

lemma PutRewardableInfo_rel:
  assumes "PutRewardableInfo M E txn p b = (SUCCESS, txn')" "lmdb_laws M" "ledger_rel M txn L"
  shows "ledger_rel M txn' (reward_view E p b L)"
  using assms RewardableInfoPut_rel [OF _ assms(2,3)]
  by (auto simp: PutRewardableInfo_def reward_view_def reward_of_def Let_def success_simps
      split: if_splits)

lemma successor_steps_rel:
  assumes "PutBlockSuccessor M E txn b = (SUCCESS, t1)"
    and "UpdateAccountInfo M E t1 b info = (SUCCESS, t2)"
    and "PutRewardableInfo M E (UpdateRepInfo t2 p b) p b = (SUCCESS, t3)"
    and "lmdb_laws M" "ledger_rel M txn L" "block_wf b" "v_accounts L (Account b) = Some info"
    and "v_blocks L (Hash E b) = None" "v_blocks L (Previous b) = Some (p, s)"
  shows "ledger_rel M t3 (successor_view E info p b L)"
  unfolding successor_view_def
  using PutBlockSuccessor_rel [OF assms(1) assms(4-6,8,9)] ledger_rel_wf(1) [OF assms(5,7)]
  by (meson PutRewardableInfo_rel UpdateAccountInfo_rel UpdateRepInfo_rel assms(2-4))

section \<open>Successful appends\<close>

lemma map_option_fst_Some: "map_option fst r = Some p \<longleftrightarrow> (\<exists>s. r = Some (p, s))"
  by (cases r) auto

lemma case_none_SUCCESS:
  assumes "code \<noteq> SUCCESS"
  shows "(case o' of None \<Rightarrow> (code, t) | Some x \<Rightarrow> k x) = (SUCCESS, t') \<longleftrightarrow>
         (\<exists>x. o' = Some x \<and> k x = (SUCCESS, t'))"
  using assms by (auto split: option.splits)

lemmas append_simps = success_simps case_none_SUCCESS Let_def map_option_fst_Some check_SUCCESS not_le not_less

lemma successor_ok_facts:
  assumes "successor_ok E L info p b"
  shows "v_accounts L (Account b) = Some info" "v_blocks L (Hash E b) = None"
    and "\<exists>s. v_blocks L (Previous b) = Some (p, s)"
  using assms by (auto simp: successor_ok_def common_ok_def)

lemma successor_rel:
  assumes "successor_ok E L info p b" "ledger_rel M txn L" "lmdb_laws M" "block_wf b"
    "PutBlockSuccessor M E txn b = (SUCCESS, t1)"
    "UpdateAccountInfo M E t1 b info = (SUCCESS, t2)"
    "PutRewardableInfo M E (UpdateRepInfo t2 p b) p b = (SUCCESS, t3)"
  shows "ledger_rel M t3 (successor_view E info p b L)"
  using successor_ok_facts [OF assms(1)] successor_steps_rel [OF assms(5-7) assms(3,2,4)] by blast

text \<open>The step relation of the block lattice: \<open>append_step E L b L'\<close> when block \<open>b\<close> may be appended
  in \<open>L\<close> and leads to \<open>L'\<close>.\<close>

definition receivable_of :: "block \<Rightarrow> block \<Rightarrow> receivable_info" where
  "receivable_of p b =
     \<lparr>ri_source = Account b, ri_amount = Balance p - Balance b, ri_timestamp = Timestamp b\<rparr>"

definition binding_of :: "block \<Rightarrow> binding_key" where
  "binding_of b = \<lparr>bk_account = Account b, bk_chain = Chain b, bk_height = Height b\<rparr>"

definition binding_total :: "ledger_view \<Rightarrow> u256 \<Rightarrow> u64" where
  "binding_total L a = (case v_binding_count L a of None \<Rightarrow> 0 | Some n \<Rightarrow> n)"

definition bind_view :: "block \<Rightarrow> ledger_view \<Rightarrow> ledger_view" where
  "bind_view b L =
     L\<lparr>v_bindings := (v_bindings L)(binding_of b \<mapsto> Link b),
       v_binding_count := (v_binding_count L)(Account b \<mapsto> binding_total L (Account b) + 1)\<rparr>"

definition price_of :: "env \<Rightarrow> block \<Rightarrow> u256" where
  "price_of E b = ucast (CreditPrice (RAI_NETWORK E) (Timestamp b))"

definition source_ok :: "ledger_view \<Rightarrow> block \<Rightarrow> bool" where
  "source_ok L b \<longleftrightarrow> (\<exists>source s. v_blocks L (Link b) = Some (source, s) \<and> Timestamp source \<le> Timestamp b)"

definition first_ok :: "env \<Rightarrow> ledger_view \<Rightarrow> block \<Rightarrow> bool" where
  "first_ok E L b \<longleftrightarrow> common_ok E L b \<and> no_account L (Account b) \<and> Height b = 0 \<and> Credit b \<noteq> 0 \<and>
     Previous b = 0 \<and> source_ok L b"

inductive append_step :: "env \<Rightarrow> ledger_view \<Rightarrow> block \<Rightarrow> ledger_view \<Rightarrow> bool" for E where
  send: "Opcode b = SEND \<Longrightarrow> successor_ok E L info p b \<Longrightarrow> Credit b = Credit p \<Longrightarrow>
     counter_increases p b \<Longrightarrow> same_representative p b \<Longrightarrow> Balance b < Balance p \<Longrightarrow>
     L1 = successor_view E info p b L \<Longrightarrow>
     append_step E L b
       (L1\<lparr>v_receivables := (v_receivables L1)((Link b, Hash E b) \<mapsto> receivable_of p b)\<rparr>)"
| receive: "Opcode b = RECEIVE \<Longrightarrow> successor_ok E L info p b \<Longrightarrow> Credit b = Credit p \<Longrightarrow>
     counter_increases p b \<Longrightarrow> same_representative p b \<Longrightarrow> source_ok L b \<Longrightarrow>
     v_receivables L (Account b, Link b) = Some ri \<Longrightarrow>
     Balance p < Balance b \<Longrightarrow> ri_amount ri = Balance b - Balance p \<Longrightarrow>
     L1 = successor_view E info p b L \<Longrightarrow>
     append_step E L b (L1\<lparr>v_receivables := (v_receivables L1)((Account b, Link b) := None)\<rparr>)"
| receive_first: "Opcode b = RECEIVE \<Longrightarrow> first_ok E L b \<Longrightarrow> Counter b = 1 \<Longrightarrow>
     v_receivables L (Account b, Link b) = Some ri \<Longrightarrow>
     ucast (ri_amount ri) = price_of E b * ucast (Credit b) + ucast (Balance b) \<Longrightarrow>
     L1 = first_rep_view b (first_view E b L) \<Longrightarrow>
     append_step E L b (L1\<lparr>v_receivables := (v_receivables L1)((Account b, Link b) := None)\<rparr>)"
| change: "Opcode b = CHANGE \<Longrightarrow> successor_ok E L info p b \<Longrightarrow> Credit b = Credit p \<Longrightarrow>
     counter_increases p b \<Longrightarrow> Balance b = Balance p \<Longrightarrow> Link b = 0 \<Longrightarrow>
     append_step E L b (successor_view E info p b L)"
| credit: "Opcode b = CREDIT \<Longrightarrow> successor_ok E L info p b \<Longrightarrow> Credit p < Credit b \<Longrightarrow>
     counter_increases p b \<Longrightarrow> same_representative p b \<Longrightarrow>
     ucast (Balance p) = ucast (Balance b) + price_of E b * ucast (Credit b - Credit p) \<Longrightarrow>
     Link b = 0 \<Longrightarrow>
     append_step E L b (successor_view E info p b L)"
| reward: "Opcode b = REWARD \<Longrightarrow> successor_ok E L info p b \<Longrightarrow> Credit b = Credit p \<Longrightarrow>
     counter_stays p b \<Longrightarrow> source_ok L b \<Longrightarrow>
     v_rewardables L (Account b, Link b) = Some wi \<Longrightarrow> wi_valid_timestamp wi \<le> Timestamp b \<Longrightarrow>
     Balance p < Balance b \<Longrightarrow> wi_amount wi = Balance b - Balance p \<Longrightarrow>
     L1 = account_view E info b (put_block_view E p b L) \<Longrightarrow>
     append_step E L b (L1\<lparr>v_rewardables := (v_rewardables L1)((Account b, Link b) := None)\<rparr>)"
| reward_first: "Opcode b = REWARD \<Longrightarrow> first_ok E L b \<Longrightarrow> Counter b = 0 \<Longrightarrow>
     v_rewardables L (Account b, Link b) = Some wi \<Longrightarrow> wi_valid_timestamp wi \<le> Timestamp b \<Longrightarrow>
     ucast (wi_amount wi) = price_of E b * ucast (Credit b) + ucast (Balance b) \<Longrightarrow>
     L1 = first_view E b L \<Longrightarrow>
     append_step E L b (L1\<lparr>v_rewardables := (v_rewardables L1)((Account b, Link b) := None)\<rparr>)"
| destroy: "Opcode b = DESTROY \<Longrightarrow> successor_ok E L info p b \<Longrightarrow> Credit b = Credit p \<Longrightarrow>
     counter_increases p b \<Longrightarrow> same_representative p b \<Longrightarrow> Balance b < Balance p \<Longrightarrow>
     append_step E L b (successor_view E info p b L)"
| bind: "Opcode b = BIND \<Longrightarrow> successor_ok E L info p b \<Longrightarrow> Credit b = Credit p \<Longrightarrow>
     counter_increases p b \<Longrightarrow> Balance b = Balance p \<Longrightarrow> HasChain b \<Longrightarrow> Chain b \<noteq> Chain_INVALID \<Longrightarrow>
     (v_binding_count L (Account b) = None \<or>
      binding_total L (Account b) < AllowedBindings (ucast (Credit p))) \<Longrightarrow>
     append_step E L b (successor_view E info p b (bind_view b L))"

text \<open>The common shape of the proofs below: unfold the method, read off its checks in the view,
  and follow its writes.\<close>

lemma Append_Send_success:
  assumes "Append_Send M E txn b = (SUCCESS, txn')" "lmdb_laws M" "ledger_rel M txn L" "block_wf b"
    "Opcode b = SEND"
  shows "\<exists>L'. append_step E L b L' \<and> ledger_rel M txn' L'"
proof -
  note rel = assms(3)
  obtain info p t1 t2 t3 where ok: "successor_ok E L info p b"
    and g: "Credit b = Credit p" "counter_increases p b" "same_representative p b" "Balance b < Balance p"
    and t1: "PutBlockSuccessor M E txn b = (SUCCESS, t1)"
    and t2: "UpdateAccountInfo M E t1 b info = (SUCCESS, t2)"
    and t3: "PutRewardableInfo M E (UpdateRepInfo t2 p b) p b = (SUCCESS, t3)"
    and t4: "ReceivableInfoPut M t3 (Link b) (Hash E b) (receivable_of p b) = (False, txn')"
    using assms(1)
    by (auto simp: Append_Send_def append_simps CheckCommon_SUCCESS [OF rel] account_exists_rel [OF rel]
        BlockGet_rel [OF rel] successor_ok_def receivable_of_def)
  note ReceivableInfoPut_rel [OF t4 assms(2) successor_rel [OF ok rel assms(2,4) t1 t2 t3]]
  with append_step.send [OF assms(5) ok g refl] show ?thesis by blast
qed

lemma Append_Change_success:
  assumes "Append_Change M E txn b = (SUCCESS, txn')" "lmdb_laws M" "ledger_rel M txn L" "block_wf b"
    "Opcode b = CHANGE"
  shows "\<exists>L'. append_step E L b L' \<and> ledger_rel M txn' L'"
proof -
  note rel = assms(3)
  obtain info p t1 t2 where ok: "successor_ok E L info p b"
    and g: "Credit b = Credit p" "counter_increases p b" "Balance b = Balance p" "Link b = 0"
    and t1: "PutBlockSuccessor M E txn b = (SUCCESS, t1)"
    and t2: "UpdateAccountInfo M E t1 b info = (SUCCESS, t2)"
    and t3: "PutRewardableInfo M E (UpdateRepInfo t2 p b) p b = (SUCCESS, txn')"
    using assms(1)
    by (auto simp: Append_Change_def append_simps CheckCommon_SUCCESS [OF rel] account_exists_rel [OF rel]
        BlockGet_rel [OF rel] successor_ok_def)
  from append_step.change [OF assms(5) ok g] successor_rel [OF ok rel assms(2,4) t1 t2 t3]
  show ?thesis by blast
qed

lemma Append_Credit_success:
  assumes "Append_Credit M E txn b = (SUCCESS, txn')" "lmdb_laws M" "ledger_rel M txn L" "block_wf b"
    "Opcode b = CREDIT"
  shows "\<exists>L'. append_step E L b L' \<and> ledger_rel M txn' L'"
proof -
  note rel = assms(3)
  obtain info p t1 t2 where ok: "successor_ok E L info p b"
    and g: "Credit p < Credit b" "counter_increases p b" "same_representative p b"
      "ucast (Balance p) = ucast (Balance b) + price_of E b * ucast (Credit b - Credit p)" "Link b = 0"
    and t1: "PutBlockSuccessor M E txn b = (SUCCESS, t1)"
    and t2: "UpdateAccountInfo M E t1 b info = (SUCCESS, t2)"
    and t3: "PutRewardableInfo M E (UpdateRepInfo t2 p b) p b = (SUCCESS, txn')"
    using assms(1)
    by (auto simp: Append_Credit_def append_simps CheckCommon_SUCCESS [OF rel] account_exists_rel [OF rel]
        BlockGet_rel [OF rel] successor_ok_def price_of_def)
  from append_step.credit [OF assms(5) ok g] successor_rel [OF ok rel assms(2,4) t1 t2 t3]
  show ?thesis by blast
qed

lemma Append_Destroy_success:
  assumes "Append_Destroy M E txn b = (SUCCESS, txn')" "lmdb_laws M" "ledger_rel M txn L" "block_wf b"
    "Opcode b = DESTROY"
  shows "\<exists>L'. append_step E L b L' \<and> ledger_rel M txn' L'"
proof -
  note rel = assms(3)
  obtain info p t1 t2 where ok: "successor_ok E L info p b"
    and g: "Credit b = Credit p" "counter_increases p b" "same_representative p b" "Balance b < Balance p"
    and t1: "PutBlockSuccessor M E txn b = (SUCCESS, t1)"
    and t2: "UpdateAccountInfo M E t1 b info = (SUCCESS, t2)"
    and t3: "PutRewardableInfo M E (UpdateRepInfo t2 p b) p b = (SUCCESS, txn')"
    using assms(1)
    by (auto simp: Append_Destroy_def append_simps CheckCommon_SUCCESS [OF rel] account_exists_rel [OF rel]
        BlockGet_rel [OF rel] successor_ok_def)
  from append_step.destroy [OF assms(5) ok g] successor_rel [OF ok rel assms(2,4) t1 t2 t3]
  show ?thesis by blast
qed

lemma successor_ok_bind_view [simp]:
  "successor_ok E (bind_view b L) info p c = successor_ok E L info p c"
  by (simp add: successor_ok_def common_ok_def bind_view_def)

lemma Append_Bind_success:
  assumes "Append_Bind M E txn b = (SUCCESS, txn')" "lmdb_laws M" "ledger_rel M txn L" "block_wf b"
    "Opcode b = BIND"
  shows "\<exists>L'. append_step E L b L' \<and> ledger_rel M txn' L'"
proof -
  note rel = assms(3)
  obtain info p s1 s2 t1 t2 where ok: "successor_ok E L info p b"
    and g: "Credit b = Credit p" "counter_increases p b" "Balance b = Balance p" "HasChain b"
      "Chain b \<noteq> Chain_INVALID"
      "v_binding_count L (Account b) = None \<or>
       binding_total L (Account b) < AllowedBindings (ucast (Credit p))"
    and s1: "BindingPut M txn (binding_of b) (Link b) = (False, s1)"
    and s2: "BindingCountPut M s1 (Account b) (binding_total L (Account b) + 1) = (False, s2)"
    and t1: "PutBlockSuccessor M E s2 b = (SUCCESS, t1)"
    and t2: "UpdateAccountInfo M E t1 b info = (SUCCESS, t2)"
    and t3: "PutRewardableInfo M E (UpdateRepInfo t2 p b) p b = (SUCCESS, txn')"
    using assms(1)
    by (auto simp: Append_Bind_def append_simps CheckCommon_SUCCESS [OF rel] account_exists_rel [OF rel]
        BlockGet_rel [OF rel] BindingCountGet_rel [OF rel] successor_ok_def binding_of_def
        binding_total_def split: option.splits)
  have rel2: "ledger_rel M s2 (bind_view b L)"
    using BindingCountPut_rel [OF s2 assms(2) BindingPut_rel [OF s1 assms(2) rel]]
    by (simp add: bind_view_def)
  from append_step.bind [OF assms(5) ok g] successor_rel [OF _ rel2 assms(2,4) t1 t2 t3] ok
  show ?thesis by auto
qed

lemma first_rel:
  assumes "BlockPut M E txn (Hash E b) b = (False, t1)"
    "AccountInfoPut M t1 (Account b) (AccountInfo_new (Type b) (Hash E b)) = (False, t2)"
    "lmdb_laws M" "ledger_rel M txn L" "block_wf b"
  shows "ledger_rel M t2 (first_view E b L)"
  using AccountInfoPut_rel [OF assms(2,3) BlockPut_rel [OF assms(1,3-5)]] by (simp add: first_view_def)

lemma first_rep_rel:
  assumes "ledger_rel M txn L"
  shows "ledger_rel M
    (if HasRepresentative b
     then UpdateDelegatorList (RepWeightAdd (UpdateRichList txn b) (Representative b) (Balance b)) b
     else UpdateRichList txn b) (first_rep_view b L)"
proof -
  note r = UpdateList_rel(1) [OF assms, of b]
  from UpdateList_rel(2) [OF RepWeight_rel(1) [OF r, of "Representative b" "Balance b"], of b] r
  show ?thesis by (simp add: first_rep_view_def Let_def)
qed

lemma Append_Receive_first_success:
  assumes "Append_Receive M E txn b = (SUCCESS, txn')" "lmdb_laws M" "ledger_rel M txn L" "block_wf b"
    "Opcode b = RECEIVE" "account_exists M txn b = None"
  shows "\<exists>L'. append_step E L b L' \<and> ledger_rel M txn' L'"
proof -
  note rel = assms(3)
  obtain ri t1 t2 where ok: "first_ok E L b" and g: "Counter b = 1"
      "v_receivables L (Account b, Link b) = Some ri"
      "ucast (ri_amount ri) = price_of E b * ucast (Credit b) + ucast (Balance b)"
    and t: "BlockPut M E txn (Hash E b) b = (False, t1)"
      "AccountInfoPut M t1 (Account b) (AccountInfo_new (Type b) (Hash E b)) = (False, t2)"
    and t3: "ReceivableInfoDel M
      (if HasRepresentative b
       then UpdateDelegatorList (RepWeightAdd (UpdateRichList t2 b) (Representative b) (Balance b)) b
       else UpdateRichList t2 b) (Account b) (Link b) = (False, txn')"
    using assms(1,6)
    by (auto simp: Append_Receive_def append_simps CheckCommon_SUCCESS [OF rel]
        account_exists_rel(2) [OF rel] BlockGet_rel [OF rel] ReceivableInfoGet_rel [OF rel]
        first_ok_def source_ok_def price_of_def simp del: if_cancel split: option.splits)
  note ReceivableInfoDel_rel [OF t3 assms(2) first_rep_rel [OF first_rel [OF t assms(2) rel assms(4)]]]
  with append_step.receive_first [OF assms(5) ok g refl] show ?thesis by blast
qed

lemma Append_Receive_next_success:
  assumes "Append_Receive M E txn b = (SUCCESS, txn')" "lmdb_laws M" "ledger_rel M txn L" "block_wf b"
    "Opcode b = RECEIVE" "account_exists M txn b = Some info"
  shows "\<exists>L'. append_step E L b L' \<and> ledger_rel M txn' L'"
proof -
  note rel = assms(3)
  obtain p ri t1 t2 t3 where ok: "successor_ok E L info p b"
    and g: "Credit b = Credit p" "counter_increases p b" "same_representative p b" "source_ok L b"
      "v_receivables L (Account b, Link b) = Some ri" "Balance p < Balance b"
      "ri_amount ri = Balance b - Balance p"
    and t1: "PutBlockSuccessor M E txn b = (SUCCESS, t1)"
    and t2: "UpdateAccountInfo M E t1 b info = (SUCCESS, t2)"
    and t3: "PutRewardableInfo M E (UpdateRepInfo t2 p b) p b = (SUCCESS, t3)"
    and t4: "ReceivableInfoDel M t3 (Account b) (Link b) = (False, txn')"
    using assms(1,6) account_exists_rel(1) [OF rel, of b info]
    by (auto simp: Append_Receive_def append_simps CheckCommon_SUCCESS [OF rel]
        BlockGet_rel [OF rel] ReceivableInfoGet_rel [OF rel] source_ok_def successor_ok_def)
  note ReceivableInfoDel_rel [OF t4 assms(2) successor_rel [OF ok rel assms(2,4) t1 t2 t3]]
  with append_step.receive [OF assms(5) ok g refl] show ?thesis by blast
qed

lemma Append_Reward_first_success:
  assumes "Append_Reward M E txn b = (SUCCESS, txn')" "lmdb_laws M" "ledger_rel M txn L" "block_wf b"
    "Opcode b = REWARD" "account_exists M txn b = None"
  shows "\<exists>L'. append_step E L b L' \<and> ledger_rel M txn' L'"
proof -
  note rel = assms(3)
  obtain wi t1 t2 where ok: "first_ok E L b" and g: "Counter b = 0"
      "v_rewardables L (Account b, Link b) = Some wi" "wi_valid_timestamp wi \<le> Timestamp b"
      "ucast (wi_amount wi) = price_of E b * ucast (Credit b) + ucast (Balance b)"
    and t: "BlockPut M E txn (Hash E b) b = (False, t1)"
      "AccountInfoPut M t1 (Account b) (AccountInfo_new (Type b) (Hash E b)) = (False, t2)"
    and t3: "RewardableInfoDel M t2 (Account b) (Link b) = (False, txn')"
    using assms(1,6)
    by (auto simp: Append_Reward_def append_simps CheckCommon_SUCCESS [OF rel]
        account_exists_rel(2) [OF rel] BlockGet_rel [OF rel] RewardableInfoGet_rel [OF rel]
        first_ok_def source_ok_def price_of_def split: option.splits)
  note RewardableInfoDel_rel [OF t3 assms(2) first_rel [OF t assms(2) rel assms(4)]]
  with append_step.reward_first [OF assms(5) ok g refl] show ?thesis by blast
qed

lemma Append_Reward_next_success:
  assumes "Append_Reward M E txn b = (SUCCESS, txn')" "lmdb_laws M" "ledger_rel M txn L" "block_wf b"
    "Opcode b = REWARD" "account_exists M txn b = Some info"
  shows "\<exists>L'. append_step E L b L' \<and> ledger_rel M txn' L'"
proof -
  note rel = assms(3)
  obtain p s wi t1 t2 where ok: "successor_ok E L info p b"
    and s: "v_blocks L (Previous b) = Some (p, s)"
    and g: "Credit b = Credit p" "counter_stays p b" "source_ok L b"
      "v_rewardables L (Account b, Link b) = Some wi" "wi_valid_timestamp wi \<le> Timestamp b"
      "Balance p < Balance b" "wi_amount wi = Balance b - Balance p"
    and t1: "PutBlockSuccessor M E txn b = (SUCCESS, t1)"
    and t2: "UpdateAccountInfo M E t1 b info = (SUCCESS, t2)"
    and t3: "RewardableInfoDel M t2 (Account b) (Link b) = (False, txn')"
    using assms(1,6) account_exists_rel(1) [OF rel, of b info]
    by (auto simp: Append_Reward_def append_simps CheckCommon_SUCCESS [OF rel]
        BlockGet_rel [OF rel] RewardableInfoGet_rel [OF rel] source_ok_def successor_ok_def)
  have "info_ok info"
    using ledger_rel_wf(1) [OF rel] successor_ok_facts(1) [OF ok] by blast
  with UpdateAccountInfo_rel [OF t2 assms(2) PutBlockSuccessor_rel [OF t1 assms(2) rel assms(4)
        successor_ok_facts(2) [OF ok] s]]
  have "ledger_rel M t2 (account_view E info b (put_block_view E p b L))" by blast
  note RewardableInfoDel_rel [OF t3 assms(2) this]
  with append_step.reward [OF assms(5) ok g refl] show ?thesis by blast
qed

text \<open>On a well-formed block the dispatch depends on the opcode alone.\<close>

lemma Visit_wf:
  assumes "block_wf b"
  shows "Visit v b bad = (case Opcode b of
      SEND \<Rightarrow> visit_Send v b | RECEIVE \<Rightarrow> visit_Receive v b | CHANGE \<Rightarrow> visit_Change v b
    | CREDIT \<Rightarrow> visit_Credit v b | REWARD \<Rightarrow> visit_Reward v b | DESTROY \<Rightarrow> visit_Destroy v b
    | BIND \<Rightarrow> visit_Bind v b | _ \<Rightarrow> bad)"
  using assms
  by (cases b; cases "Opcode b")
    (auto simp: TxBlock_Visit_def RepBlock_Visit_def AdBlock_Visit_def TxBlock_CheckOpcode_def
      RepBlock_CheckOpcode_def AdBlock_CheckOpcode_def)

lemma AppendBlock_sound:
  assumes "AppendBlock M E txn b = (SUCCESS, txn')" "lmdb_laws M" "ledger_rel M txn L" "block_wf b"
  shows "\<exists>L'. append_step E L b L' \<and> ledger_rel M txn' L'"
proof (cases "Opcode b")
  case RECEIVE
  then show ?thesis
    using assms Append_Receive_first_success Append_Receive_next_success
    by (cases "account_exists M txn b")
      (fastforce simp: AppendBlock_def Visit_wf AppendBlockVisitor_def)+
next
  case REWARD
  then show ?thesis
    using assms Append_Reward_first_success Append_Reward_next_success
    by (cases "account_exists M txn b")
      (fastforce simp: AppendBlock_def Visit_wf AppendBlockVisitor_def)+
qed (use assms in \<open>auto simp: AppendBlock_def Visit_wf AppendBlockVisitor_def
      intro: Append_Send_success Append_Change_success Append_Credit_success
        Append_Destroy_success Append_Bind_success\<close>)
end
