(* ===== verification/AppendComplete.thy ===== *)
theory AppendComplete
  imports AppendView
begin

text \<open>
  The converse direction: on a store that accepts writes, every block whose conditions hold
  in the view is appended, so \<open>append_step\<close> is exactly what \<open>AppendBlock\<close> does; and a block
  that a builder made on top of the account's head meets those conditions.
\<close>

section \<open>Operations that cannot fail\<close>

definition writable :: "'db lmdb \<Rightarrow> 'db transaction \<Rightarrow> bool" where
  "writable M txn \<longleftrightarrow> lmdb_laws M \<and> lmdb_never_full M \<and> txn_write txn \<and> \<not> txn_aborted txn"

lemma writable_laws: "writable M txn \<Longrightarrow> lmdb_laws M"
  by (simp add: writable_def)

lemma Store_Put_total: "writable M txn \<Longrightarrow> \<exists>t. Store_Put M txn tbl k v = (False, t) \<and> writable M t"
  by (auto simp: writable_def lmdb_never_full_def Store_Put_def split: option.splits)

lemma Store_Del_total:
  "writable M txn \<Longrightarrow> mdb_get M (txn_db txn) tbl k \<noteq> None \<Longrightarrow>
   \<exists>t. Store_Del M txn tbl k = (False, t) \<and> writable M t"
  by (auto simp: writable_def lmdb_never_full_def Store_Del_def split: option.splits)

lemma put_totals:
  assumes "writable M txn"
  shows "\<exists>t. AccountInfoPut M txn a i = (False, t) \<and> writable M t"
    and "\<exists>t. ReceivableInfoPut M txn a h ri = (False, t) \<and> writable M t"
    and "\<exists>t. RewardableInfoPut M txn a h wi = (False, t) \<and> writable M t"
    and "\<exists>t. BindingPut M txn k h = (False, t) \<and> writable M t"
    and "\<exists>t. BindingCountPut M txn a n = (False, t) \<and> writable M t"
    and "\<exists>t. RollbackBlockPut M txn h b = (False, t) \<and> writable M t"
    and "\<exists>t. BlockIndexPut M txn a c h = (False, t) \<and> writable M t"
  using assms Store_Put_total [OF assms]
  by (simp_all add: AccountInfoPut_def ReceivableInfoPut_def RewardableInfoPut_def BindingPut_def
      BindingCountPut_def RollbackBlockPut_def BlockIndexPut_def writable_def)

lemma BlockPut_total:
  assumes "writable M txn"
  shows "\<exists>t. BlockPut M E txn h b = (False, t) \<and> writable M t"
proof -
  obtain t where t: "Store_Put M txn BLOCKS (Write h) (Serialize b @ Write (0 :: u256)) = (False, t)" "writable M t"
    using Store_Put_total [OF assms] by blast
  with put_totals(7) [OF t(2)] assms show ?thesis
    by (simp add: BlockPut_def BlockPut_successor_def writable_def)
qed

lemma BlockSuccessorSet_total:
  assumes "writable M txn" "ledger_rel M txn L" "v_blocks L h \<noteq> None"
  shows "\<exists>t. BlockSuccessorSet M txn h s = (False, t) \<and> writable M t"
  using assms Store_Put_total [OF assms(1)]
  by (auto simp: BlockSuccessorSet_def Store_Get_def ledger_rel_block(1) writable_def)

lemma del_totals:
  assumes "writable M txn" "ledger_rel M txn L"
  shows "v_receivables L (a, h) \<noteq> None \<Longrightarrow>
           \<exists>t. ReceivableInfoDel M txn a h = (False, t) \<and> writable M t"
    and "v_rewardables L (a, h) \<noteq> None \<Longrightarrow>
           \<exists>t. RewardableInfoDel M txn a h = (False, t) \<and> writable M t"
proof -
  have "table_rel M (txn_db txn) RECEIVABLES hash_key ReceivableInfo_Serialize (\<lambda>_. True) (v_receivables L)"
    "table_rel M (txn_db txn) REWARDABLES hash_key RewardableInfo_Serialize (\<lambda>_. True) (v_rewardables L)"
    using assms(2) by (simp_all add: ledger_rel_def)
  note e = receivables.tbl_exists [OF this(1), of "(a, h)"] rewardables.tbl_exists [OF this(2), of "(a, h)"]
  show "v_receivables L (a, h) \<noteq> None \<Longrightarrow>
      \<exists>t. ReceivableInfoDel M txn a h = (False, t) \<and> writable M t"
    using Store_Del_total [OF assms(1), of RECEIVABLES "hash_key (a, h)"] assms(1)
    unfolding e ReceivableInfoDel_def by (simp add: writable_def)
  show "v_rewardables L (a, h) \<noteq> None \<Longrightarrow>
      \<exists>t. RewardableInfoDel M txn a h = (False, t) \<and> writable M t"
    using Store_Del_total [OF assms(1), of REWARDABLES "hash_key (a, h)"] assms(1)
    unfolding e RewardableInfoDel_def by (simp add: writable_def)
qed

lemma memory_writable [simp]:
  "writable M (RepWeightAdd txn r w) = writable M txn"
  "writable M (RepWeightSub txn r w) = writable M txn"
  "writable M (UpdateRichList txn b) = writable M txn"
  "writable M (UpdateDelegatorList txn b) = writable M txn"
  "writable M (UpdateRepInfo txn p b) = writable M txn"
  by (simp_all add: writable_def RepWeightAdd_def RepWeightSub_def UpdateRichList_def
      UpdateDelegatorList_def UpdateRepInfo_def Let_def)

section \<open>The steps of an append cannot fail\<close>

lemma PutBlockSuccessor_total:
  assumes "writable M txn" "ledger_rel M txn L" "block_wf b" "v_blocks L (Previous b) \<noteq> None"
  shows "\<exists>t. PutBlockSuccessor M E txn b = (SUCCESS, t) \<and> writable M t"
proof -
  obtain t where t: "BlockPut M E txn (Hash E b) b = (False, t)" "writable M t"
    using BlockPut_total [OF assms(1)] by blast
  note r = BlockPut_rel [OF t(1) writable_laws [OF assms(1)] assms(2,3)]
  obtain t' where "BlockSuccessorSet M t (Previous b) (Hash E b) = (False, t')" "writable M t'"
    using BlockSuccessorSet_total [OF t(2) r, of "Previous b" "Hash E b"] assms(4)
    by (cases "Previous b = Hash E b") auto
  with t show ?thesis by (simp add: PutBlockSuccessor_def IF_ERROR_RETURN_def)
qed

lemma UpdateAccountInfo_total:
  assumes "writable M txn"
  shows "\<exists>t. UpdateAccountInfo M E txn b info = (SUCCESS, t) \<and> writable M t"
  using put_totals(1) [OF assms, of "Account b" "info\<lparr>ai_head_height := Height b, ai_head := Hash E b\<rparr>"]
  by (auto simp: UpdateAccountInfo_def IF_ERROR_RETURN_def)

lemma PutRewardableInfo_total:
  assumes "writable M txn"
  shows "\<exists>t. PutRewardableInfo M E txn p b = (SUCCESS, t) \<and> writable M t"
proof -
  obtain amount ts where a: "RewardAmount (RAI_NETWORK E) (Balance p) (Timestamp p) (Timestamp b) = amount"
    "RewardTimestamp (RAI_NETWORK E) (Timestamp p) (Timestamp b) = ts" by simp
  from put_totals(3) [OF assms, of "Representative p" "Hash E p"
      "\<lparr>wi_source = Account p, wi_amount = amount, wi_valid_timestamp = ts\<rparr>"] assms
  show ?thesis
    by (auto simp: PutRewardableInfo_def Let_def a IF_ERROR_RETURN_def)
qed

lemma successor_total:
  assumes "successor_ok E L info p b" "ledger_rel M txn L" "writable M txn" "block_wf b"
  shows "\<exists>t1 t2 t3. PutBlockSuccessor M E txn b = (SUCCESS, t1) \<and>
    UpdateAccountInfo M E t1 b info = (SUCCESS, t2) \<and>
    PutRewardableInfo M E (UpdateRepInfo t2 p b) p b = (SUCCESS, t3) \<and>
    writable M t2 \<and> writable M t3 \<and> ledger_rel M t3 (successor_view E info p b L)"
proof -
  obtain t1 where t1: "PutBlockSuccessor M E txn b = (SUCCESS, t1)" "writable M t1"
    using PutBlockSuccessor_total [OF assms(3,2,4)] successor_ok_facts(3) [OF assms(1)] by fastforce
  obtain t2 where t2: "UpdateAccountInfo M E t1 b info = (SUCCESS, t2)" "writable M t2"
    using UpdateAccountInfo_total [OF t1(2)] by blast
  obtain t3 where t3: "PutRewardableInfo M E (UpdateRepInfo t2 p b) p b = (SUCCESS, t3)" "writable M t3"
    using PutRewardableInfo_total [of M "UpdateRepInfo t2 p b" E p b] t2(2) by auto
  from successor_rel [OF assms(1,2) writable_laws [OF assms(3)] assms(4) t1(1) t2(1) t3(1)] t1 t2 t3
  show ?thesis by blast
qed

lemma first_total:
  assumes "writable M txn" "ledger_rel M txn L" "block_wf b"
  shows "\<exists>t1 t2. BlockPut M E txn (Hash E b) b = (False, t1) \<and>
    AccountInfoPut M t1 (Account b) (AccountInfo_new (Type b) (Hash E b)) = (False, t2) \<and>
    writable M t2 \<and> ledger_rel M t2 (first_view E b L)"
  by (metis BlockPut_total assms first_rel put_totals(1) writable_laws)

section \<open>Each kind of block\<close>

text \<open>What the methods read, when the conditions hold in the view.\<close>

lemma successor_reads:
  assumes "ledger_rel M txn L" "successor_ok E L info p b"
  shows "CheckCommon M E txn b = SUCCESS" "account_exists M txn b = Some info"
    "BlockGet M txn (ai_head info) = Some p" "CheckSuccessorCommon b p info = SUCCESS"
  using assms
  by (auto simp: successor_ok_def CheckCommon_SUCCESS account_exists_rel BlockGet_rel check_SUCCESS)

lemma first_reads:
  assumes "ledger_rel M txn L" "first_ok E L b"
  shows "CheckCommon M E txn b = SUCCESS" "account_exists M txn b = None"
    "CheckFirstCommon b = SUCCESS"
  using assms by (auto simp: first_ok_def CheckCommon_SUCCESS account_exists_rel check_SUCCESS)

lemma first_source: "first_ok E L b \<Longrightarrow> source_ok L b"
  by (simp add: first_ok_def)

lemma source_reads:
  assumes "ledger_rel M txn L" "source_ok L b"
  shows "\<exists>source. BlockGet M txn (Link b) = Some source \<and> Timestamp source \<le> Timestamp b"
  using assms by (auto simp: source_ok_def BlockGet_rel)

lemmas run_simps = CHECK_RETURN_def IF_NONE_RETURN_def IF_ERROR_RETURN_def IF_NOT_SUCCESS_RETURN_def
  Let_def not_le not_less CheckCounterIncrease_SUCCESS CheckCounterSame_SUCCESS
  CheckRepresentativeSame_SUCCESS

lemma Append_Send_complete:
  assumes "writable M txn" "ledger_rel M txn L" "block_wf b" "successor_ok E L info p b"
    "Credit b = Credit p" "counter_increases p b" "same_representative p b" "Balance b < Balance p"
  shows "\<exists>txn'. Append_Send M E txn b = (SUCCESS, txn')"
proof -
  obtain t1 t2 t3 where t: "PutBlockSuccessor M E txn b = (SUCCESS, t1)"
    "UpdateAccountInfo M E t1 b info = (SUCCESS, t2)"
    "PutRewardableInfo M E (UpdateRepInfo t2 p b) p b = (SUCCESS, t3)" "writable M t3"
    using successor_total [OF assms(4,2,1,3)] by blast
  obtain t4 where "ReceivableInfoPut M t3 (Link b) (Hash E b)
     \<lparr>ri_source = Account b, ri_amount = Balance p - Balance b, ri_timestamp = Timestamp b\<rparr> = (False, t4)"
    using put_totals(2) [OF t(4)] by blast
  with t assms(5-) show ?thesis
    by (simp add: Append_Send_def run_simps successor_reads [OF assms(2,4)])
qed

lemma Append_Change_complete:
  assumes "writable M txn" "ledger_rel M txn L" "block_wf b" "successor_ok E L info p b"
    "Credit b = Credit p" "counter_increases p b" "Balance b = Balance p" "Link b = 0"
  shows "\<exists>txn'. Append_Change M E txn b = (SUCCESS, txn')"
  using successor_total [OF assms(4,2,1,3)] assms(5-)
  by (auto simp: Append_Change_def run_simps successor_reads [OF assms(2,4)])

lemma Append_Credit_complete:
  assumes "writable M txn" "ledger_rel M txn L" "block_wf b" "successor_ok E L info p b"
    "Credit p < Credit b" "counter_increases p b" "same_representative p b"
    "ucast (Balance p) = ucast (Balance b) + price_of E b * ucast (Credit b - Credit p)" "Link b = 0"
  shows "\<exists>txn'. Append_Credit M E txn b = (SUCCESS, txn')"
  using successor_total [OF assms(4,2,1,3)] assms(5-)
  by (auto simp: Append_Credit_def run_simps price_of_def successor_reads [OF assms(2,4)])

lemma Append_Destroy_complete:
  assumes "writable M txn" "ledger_rel M txn L" "block_wf b" "successor_ok E L info p b"
    "Credit b = Credit p" "counter_increases p b" "same_representative p b" "Balance b < Balance p"
  shows "\<exists>txn'. Append_Destroy M E txn b = (SUCCESS, txn')"
  using successor_total [OF assms(4,2,1,3)] assms(5-)
  by (auto simp: Append_Destroy_def run_simps successor_reads [OF assms(2,4)])

lemma Append_Bind_complete:
  assumes "writable M txn" "ledger_rel M txn L" "block_wf b" "successor_ok E L info p b"
    "Credit b = Credit p" "counter_increases p b" "Balance b = Balance p" "HasChain b"
    "Chain b \<noteq> Chain_INVALID"
    "v_binding_count L (Account b) = None \<or>
     binding_total L (Account b) < AllowedBindings (ucast (Credit p))"
  shows "\<exists>txn'. Append_Bind M E txn b = (SUCCESS, txn')"
proof -
  note laws = writable_laws [OF assms(1)]
  obtain s1 where s1: "BindingPut M txn (binding_of b) (Link b) = (False, s1)" "writable M s1"
    using put_totals(4) [OF assms(1)] by blast
  obtain s2 where s2: "BindingCountPut M s1 (Account b) (binding_total L (Account b) + 1) = (False, s2)"
    "writable M s2"
    using put_totals(5) [OF s1(2)] by blast
  have rel2: "ledger_rel M s2 (bind_view b L)"
    using BindingCountPut_rel [OF s2(1) laws BindingPut_rel [OF s1(1) laws assms(2)]]
    by (simp add: bind_view_def)
  have "\<exists>t1 t2 t3. PutBlockSuccessor M E s2 b = (SUCCESS, t1) \<and>
    UpdateAccountInfo M E t1 b info = (SUCCESS, t2) \<and>
    PutRewardableInfo M E (UpdateRepInfo t2 p b) p b = (SUCCESS, t3)"
    using successor_total [OF _ rel2 s2(2) assms(3)] assms(4) by (metis successor_ok_bind_view)
  with s1 s2 assms(5-) show ?thesis
    by (auto simp: Append_Bind_def run_simps successor_reads [OF assms(2,4)]
        BindingCountGet_rel [OF assms(2)] binding_of_def binding_total_def split: option.splits)
qed

lemma Append_Receive_complete:
  assumes "writable M txn" "ledger_rel M txn L" "block_wf b" "successor_ok E L info p b"
    "Credit b = Credit p" "counter_increases p b" "same_representative p b" "source_ok L b"
    "v_receivables L (Account b, Link b) = Some ri" "Balance p < Balance b"
    "ri_amount ri = Balance b - Balance p"
  shows "\<exists>txn'. Append_Receive M E txn b = (SUCCESS, txn')"
proof -
  obtain t1 t2 t3 where t: "PutBlockSuccessor M E txn b = (SUCCESS, t1)"
    "UpdateAccountInfo M E t1 b info = (SUCCESS, t2)"
    "PutRewardableInfo M E (UpdateRepInfo t2 p b) p b = (SUCCESS, t3)" "writable M t3"
    and r: "ledger_rel M t3 (successor_view E info p b L)"
    using successor_total [OF assms(4,2,1,3)] by blast
  obtain t4 where "ReceivableInfoDel M t3 (Account b) (Link b) = (False, t4)"
    using del_totals(1) [OF t(4) r, of "Account b" "Link b"] assms(9)
    by auto
  with t assms(5-) source_reads [OF assms(2,8)] show ?thesis
    by (auto simp: Append_Receive_def run_simps successor_reads [OF assms(2,4)]
        ReceivableInfoGet_rel [OF assms(2)])
qed

lemma Append_Receive_first_complete:
  assumes "writable M txn" "ledger_rel M txn L" "block_wf b" "first_ok E L b" "Counter b = 1"
    "v_receivables L (Account b, Link b) = Some ri"
    "ucast (ri_amount ri) = price_of E b * ucast (Credit b) + ucast (Balance b)"
  shows "\<exists>txn'. Append_Receive M E txn b = (SUCCESS, txn')"
proof -
  obtain t1 t2 where t: "BlockPut M E txn (Hash E b) b = (False, t1)"
    "AccountInfoPut M t1 (Account b) (AccountInfo_new (Type b) (Hash E b)) = (False, t2)"
    "writable M t2" and r: "ledger_rel M t2 (first_view E b L)"
    using first_total [OF assms(1-3)] by blast
  define t3 where "t3 = (if HasRepresentative b
     then UpdateDelegatorList (RepWeightAdd (UpdateRichList t2 b) (Representative b) (Balance b)) b
     else UpdateRichList t2 b)"
  have "writable M t3" using t(3) by (simp add: t3_def)
  moreover have "ledger_rel M t3 (first_rep_view b (first_view E b L))"
    unfolding t3_def by (rule first_rep_rel [OF r])
  ultimately obtain t4 where "ReceivableInfoDel M t3 (Account b) (Link b) = (False, t4)"
    using del_totals(1) [of M t3 "first_rep_view b (first_view E b L)" "Account b" "Link b"] assms(6)
    by auto
  with t assms(5-) source_reads [OF assms(2) first_source [OF assms(4)]] show ?thesis
    by (auto simp: Append_Receive_def run_simps first_reads [OF assms(2,4)] price_of_def
        ReceivableInfoGet_rel [OF assms(2)] t3_def split: if_splits)
qed

lemma Append_Reward_complete:
  assumes "writable M txn" "ledger_rel M txn L" "block_wf b" "successor_ok E L info p b"
    "Credit b = Credit p" "counter_stays p b" "source_ok L b"
    "v_rewardables L (Account b, Link b) = Some wi" "wi_valid_timestamp wi \<le> Timestamp b"
    "Balance p < Balance b" "wi_amount wi = Balance b - Balance p"
  shows "\<exists>txn'. Append_Reward M E txn b = (SUCCESS, txn')"
proof -
  note laws = writable_laws [OF assms(1)]
  obtain t1 t2 where t: "PutBlockSuccessor M E txn b = (SUCCESS, t1)"
    "UpdateAccountInfo M E t1 b info = (SUCCESS, t2)" "writable M t2"
    using successor_total [OF assms(4,2,1,3)] by blast
  obtain s where s: "v_blocks L (Previous b) = Some (p, s)"
    using successor_ok_facts(3) [OF assms(4)] by blast
  have "info_ok info"
    using ledger_rel_wf(1) [OF assms(2)] successor_ok_facts(1) [OF assms(4)] by blast
  with UpdateAccountInfo_rel [OF t(2) laws PutBlockSuccessor_rel [OF t(1) laws assms(2,3)
        successor_ok_facts(2) [OF assms(4)] s]]
  have "ledger_rel M t2 (account_view E info b (put_block_view E p b L))" by blast
  then obtain t3 where "RewardableInfoDel M t2 (Account b) (Link b) = (False, t3)"
    using del_totals(2) [OF t(3), of _ "Account b" "Link b"] assms(8)
    by fastforce
  with t assms(5-) source_reads [OF assms(2,7)] show ?thesis
    by (auto simp: Append_Reward_def run_simps successor_reads [OF assms(2,4)]
        RewardableInfoGet_rel [OF assms(2)])
qed

lemma Append_Reward_first_complete:
  assumes "writable M txn" "ledger_rel M txn L" "block_wf b" "first_ok E L b" "Counter b = 0"
    "v_rewardables L (Account b, Link b) = Some wi" "wi_valid_timestamp wi \<le> Timestamp b"
    "ucast (wi_amount wi) = price_of E b * ucast (Credit b) + ucast (Balance b)"
  shows "\<exists>txn'. Append_Reward M E txn b = (SUCCESS, txn')"
proof -
  obtain t1 t2 where t: "BlockPut M E txn (Hash E b) b = (False, t1)"
    "AccountInfoPut M t1 (Account b) (AccountInfo_new (Type b) (Hash E b)) = (False, t2)"
    "writable M t2" and r: "ledger_rel M t2 (first_view E b L)"
    using first_total [OF assms(1-3)] by blast
  obtain t3 where "RewardableInfoDel M t2 (Account b) (Link b) = (False, t3)"
    using del_totals(2) [OF t(3) r, of "Account b" "Link b"] assms(6) by auto
  with t assms(5-) source_reads [OF assms(2) first_source [OF assms(4)]] show ?thesis
    by (auto simp: Append_Reward_def run_simps first_reads [OF assms(2,4)] price_of_def
        RewardableInfoGet_rel [OF assms(2)])
qed

lemma AppendBlock_complete:
  assumes "append_step E L b L'" "writable M txn" "ledger_rel M txn L" "block_wf b"
  shows "\<exists>txn'. AppendBlock M E txn b = (SUCCESS, txn')"
  using assms(1)
  by cases
    (simp_all add: AppendBlock_def Visit_wf AppendBlockVisitor_def assms(4)
      Append_Send_complete [OF assms(2-4)] Append_Receive_complete [OF assms(2-4)]
      Append_Receive_first_complete [OF assms(2-4)] Append_Change_complete [OF assms(2-4)]
      Append_Credit_complete [OF assms(2-4)] Append_Reward_complete [OF assms(2-4)]
      Append_Reward_first_complete [OF assms(2-4)] Append_Destroy_complete [OF assms(2-4)]
      Append_Bind_complete [OF assms(2-4)])

end
