(* ===== verification/Genesis.thy ===== *)
theory Genesis
  imports AppendComplete
begin

text \<open>
  The first state of a ledger: the checks on the built-in genesis block (class \<open>Genesis\<close> in
  \<open>rai/secure/common.cpp\<close>) and \<open>Node::InitLedger\<close> of \<open>rai/node/node.cpp\<close>, which stores that block
  in an empty ledger. \<open>genesis_view\<close> is the abstract ledger it leaves.
\<close>

text \<open>The constructor of \<open>Genesis\<close> throws unless all of these hold.\<close>

definition Genesis_check :: "env \<Rightarrow> u256 \<Rightarrow> block \<Rightarrow> bool" where
  "Genesis_check E public_key block \<longleftrightarrow>
     Type block = TX_BLOCK \<and> Opcode block = RECEIVE \<and> Credit block = 512 \<and> Counter block = 1 \<and>
     Timestamp block = EpochTimestamp (RAI_NETWORK E) \<and> Height block = 0 \<and>
     Account block = public_key \<and> Previous block = 0 \<and>
     Balance block = GenesisBalance (RAI_NETWORK E) \<and> Link block = public_key"

definition Ledger_Empty :: "'db lmdb \<Rightarrow> 'db transaction \<Rightarrow> bool" where
  "Ledger_Empty M txn =
     (if length (mdb_entries M (txn_db txn) ACCOUNTS) > 0 then False
      else if length (mdb_entries M (txn_db txn) BLOCKS) > 0 then False
      else True)"

definition InitLedger ::
  "'db lmdb \<Rightarrow> env \<Rightarrow> 'db transaction \<Rightarrow> block \<Rightarrow> error_code \<times> 'db transaction" where
  "InitLedger M E txn block =
     (if \<not> Ledger_Empty M txn then (SUCCESS, txn)
      else
        let r =
          IF_ERROR_RETURN (BlockPut M E txn (Hash E block) block) BLOCK_PROCESS_LEDGER_BLOCK_PUT (\<lambda>txn.
          let txn = RepWeightAdd txn (Representative block) (Balance block) in
          IF_ERROR_RETURN
            (AccountInfoPut M txn (Account block) (AccountInfo_new (Type block) (Hash E block)))
            BLOCK_PROCESS_LEDGER_ACCOUNT_INFO_PUT (\<lambda>txn.
          (SUCCESS, txn)))
        in if fst r \<noteq> SUCCESS then (fst r, Transaction_Abort (snd r)) else r)"

text \<open>A view with no entries, whose memory tables are those the node starts with.\<close>

definition empty_view :: "ledger_memory \<Rightarrow> ledger_view" where
  "empty_view m =
     \<lparr>v_accounts = (\<lambda>_. None), v_blocks = (\<lambda>_. None), v_index = (\<lambda>_. None), v_receivables = (\<lambda>_. None),
      v_rewardables = (\<lambda>_. None), v_rollbacks = (\<lambda>_. None), v_forks = (\<lambda>_. None),
      v_binding_count = (\<lambda>_. None), v_bindings = (\<lambda>_. None), v_memory = m, v_operations = []\<rparr>"

definition genesis_view :: "env \<Rightarrow> block \<Rightarrow> ledger_memory \<Rightarrow> ledger_view" where
  "genesis_view E b m =
     (first_view E b (empty_view m))\<lparr>v_operations :=
       [\<lparr>rw_add = True, rw_representative = Representative b, rw_weight = Balance b\<rparr>]\<rparr>"

lemma Ledger_Empty_empty_view:
  assumes "lmdb_laws M" "ledger_rel M txn (empty_view m)"
  shows "Ledger_Empty M txn"
proof -
  have no: "mdb_get M (txn_db txn) ACCOUNTS k = None" "mdb_get M (txn_db txn) BLOCKS k = None" for k
    using assms(2) unfolding ledger_rel_def table_rel_def
    by (auto simp: empty_view_def)
  have "(k, v) \<notin> set (mdb_entries M (txn_db txn) t)" if "t = ACCOUNTS \<or> t = BLOCKS" for t k v
    using that by (auto simp: mdb_entries_get(1) [OF assms(1)] no)
  then have "mdb_entries M (txn_db txn) t = []" if "t = ACCOUNTS \<or> t = BLOCKS" for t
    using that by (metis list.set_intros(1) neq_Nil_conv surj_pair)
  then show ?thesis by (simp add: Ledger_Empty_def)
qed

lemma InitLedger_rel:
  assumes "InitLedger M E txn b = (SUCCESS, txn')" "lmdb_laws M" "ledger_rel M txn (empty_view m)"
    "block_wf b"
  shows "ledger_rel M txn' (genesis_view E b m)"
proof -
  obtain t1 where t1: "BlockPut M E txn (Hash E b) b = (False, t1)"
    and t2: "AccountInfoPut M (RepWeightAdd t1 (Representative b) (Balance b)) (Account b)
        (AccountInfo_new (Type b) (Hash E b)) = (False, txn')"
    using assms(1) Ledger_Empty_empty_view [OF assms(2,3)]
    by (auto simp: InitLedger_def Let_def IF_ERROR_RETURN_def split: prod.splits if_splits)
  note RepWeight_rel(1) [OF BlockPut_rel [OF t1 assms(2-4)], of "Representative b" "Balance b"]
  from AccountInfoPut_rel [OF t2 assms(2) this] show ?thesis
    by (simp add: genesis_view_def first_view_def empty_view_def)
qed

lemma InitLedger_total:
  assumes "writable M txn" "ledger_rel M txn (empty_view m)" "block_wf b"
  shows "\<exists>txn'. InitLedger M E txn b = (SUCCESS, txn') \<and> writable M txn' \<and>
    ledger_rel M txn' (genesis_view E b m)"
proof -
  obtain t1 where t1: "BlockPut M E txn (Hash E b) b = (False, t1)" "writable M t1"
    using BlockPut_total [OF assms(1)] by blast
  then have "writable M (RepWeightAdd t1 (Representative b) (Balance b))" by simp
  then obtain t2 where "AccountInfoPut M (RepWeightAdd t1 (Representative b) (Balance b)) (Account b)
      (AccountInfo_new (Type b) (Hash E b)) = (False, t2)" "writable M t2"
    using put_totals(1) by blast
  with t1 Ledger_Empty_empty_view [OF writable_laws [OF assms(1)] assms(2)]
  have i: "InitLedger M E txn b = (SUCCESS, t2)"
    by (simp add: InitLedger_def IF_ERROR_RETURN_def)
  with \<open>writable M t2\<close> InitLedger_rel [OF i writable_laws [OF assms(1)] assms(2,3)] show ?thesis by blast
qed

end
