(* ===== verification/Invariants.thy ===== *)
theory Invariants
  imports Genesis
begin

text \<open>
  What every reachable ledger satisfies. \<open>ledger_inv\<close> ties the tables together: the stored blocks
  of an account form a doubly linked list from its tail to its head with consecutive
  heights, the height index points into it, a receivable entry belongs to a stored send block, a
  rewardable entry to a stored block with a successor, a binding to a stored block.
  The lemmas show that every step of the block lattice keeps it.
\<close>

section \<open>The invariant\<close>

definition head_of :: "ledger_view \<Rightarrow> u256 \<Rightarrow> block option" where
  "head_of L a = (case v_accounts L a of
     None \<Rightarrow> None
   | Some info \<Rightarrow> if AccountInfo_Valid info then map_option fst (v_blocks L (ai_head info)) else None)"

definition blocks_inv :: "env \<Rightarrow> ledger_view \<Rightarrow> bool" where
  "blocks_inv E L \<longleftrightarrow> (\<forall>h b s. v_blocks L h = Some (b, s) \<longrightarrow> Hash E b = h \<and> h \<noteq> 0)"

text \<open>The record of an account: its head is the last block of its chain.\<close>

definition info_inv :: "ledger_view \<Rightarrow> u256 \<Rightarrow> account_info \<Rightarrow> bool" where
  "info_inv L a info \<longleftrightarrow>
     (\<exists>b. v_blocks L (ai_head info) = Some (b, 0) \<and> Account b = a \<and>
        Height b = ai_head_height info \<and> Type b = ai_type info) \<and>
     ai_tail_height info \<le> ai_head_height info \<and>
     (ai_confirmed_height info = INVALID_HEIGHT \<or> ai_confirmed_height info \<le> ai_head_height info)"

definition heads_inv :: "ledger_view \<Rightarrow> bool" where
  "heads_inv L \<longleftrightarrow>
     (\<forall>a info. v_accounts L a = Some info \<longrightarrow> AccountInfo_Valid info \<longrightarrow> info_inv L a info)"

definition valid_inv :: "ledger_view \<Rightarrow> bool" where
  "valid_inv L \<longleftrightarrow> (\<forall>a info. v_accounts L a = Some info \<longrightarrow> AccountInfo_Valid info)"

text \<open>Every stored block lies between the tail and the head of its account, there is one block per
  height, and each is linked with its predecessor in both directions.\<close>

definition range_inv :: "ledger_view \<Rightarrow> bool" where
  "range_inv L \<longleftrightarrow> (\<forall>h b s. v_blocks L h = Some (b, s) \<longrightarrow>
     (\<exists>info. v_accounts L (Account b) = Some info \<and> AccountInfo_Valid info \<and>
        ai_tail_height info \<le> Height b \<and> Height b \<le> ai_head_height info))"

definition unique_inv :: "ledger_view \<Rightarrow> bool" where
  "unique_inv L \<longleftrightarrow> (\<forall>h b s h' b' s'. v_blocks L h = Some (b, s) \<longrightarrow> v_blocks L h' = Some (b', s') \<longrightarrow>
     Account b = Account b' \<longrightarrow> Height b = Height b' \<longrightarrow> h = h')"

definition linked :: "ledger_view \<Rightarrow> u256 \<Rightarrow> block \<Rightarrow> bool" where
  "linked L h b \<longleftrightarrow> (\<exists>p. v_blocks L (Previous b) = Some (p, h) \<and> Account p = Account b \<and>
     Type p = Type b \<and> Height b = Height p + 1 \<and> Height p < Height b)"

definition links_inv :: "ledger_view \<Rightarrow> bool" where
  "links_inv L \<longleftrightarrow> (\<forall>h b s info. v_blocks L h = Some (b, s) \<longrightarrow>
     v_accounts L (Account b) = Some info \<longrightarrow> ai_tail_height info < Height b \<longrightarrow> linked L h b)"

definition index_inv :: "ledger_view \<Rightarrow> bool" where
  "index_inv L \<longleftrightarrow>
     (\<forall>a n h. v_index L (a, n) = Some h \<longrightarrow>
        (\<exists>b s. v_blocks L h = Some (b, s) \<and> Account b = a \<and> Height b = n)) \<and>
     (\<forall>h b s. v_blocks L h = Some (b, s) \<longrightarrow> Height b mod BLOCKS_PER_INDEX = 0 \<longrightarrow>
        v_index L (Account b, Height b) = Some h)"

definition receivables_inv :: "ledger_view \<Rightarrow> bool" where
  "receivables_inv L \<longleftrightarrow> (\<forall>d h ri. v_receivables L (d, h) = Some ri \<longrightarrow>
     (\<exists>b s. v_blocks L h = Some (b, s) \<and> Opcode b = SEND \<and> Link b = d \<and>
        Account b = ri_source ri \<and> Timestamp b = ri_timestamp ri))"

definition rewardables_inv :: "env \<Rightarrow> ledger_view \<Rightarrow> bool" where
  "rewardables_inv E L \<longleftrightarrow> (\<forall>r h wi. v_rewardables L (r, h) = Some wi \<longrightarrow>
     (\<exists>b s c t. v_blocks L h = Some (b, s) \<and> s \<noteq> 0 \<and> v_blocks L s = Some (c, t) \<and>
        HasRepresentative b \<and> Representative b = r \<and> Account b = wi_source wi \<and>
        RewardAmount (RAI_NETWORK E) (Balance b) (Timestamp b) (Timestamp c) \<noteq> 0 \<and>
        wi_valid_timestamp wi = RewardTimestamp (RAI_NETWORK E) (Timestamp b) (Timestamp c)))"

text \<open>The binding table holds the bindings of the stored bind blocks, and the count of an account is
  the number of its stored bind blocks; an account without any has no count.\<close>

definition bind_blocks :: "ledger_view \<Rightarrow> u256 \<Rightarrow> u256 set" where
  "bind_blocks L a = {h. \<exists>b s. v_blocks L h = Some (b, s) \<and> Account b = a \<and> Opcode b = BIND}"

definition bindings_inv :: "ledger_view \<Rightarrow> bool" where
  "bindings_inv L \<longleftrightarrow>
     (\<forall>k signer. v_bindings L k = Some signer \<longrightarrow>
        (\<exists>h b s. v_blocks L h = Some (b, s) \<and> Opcode b = BIND \<and> binding_of b = k \<and> Link b = signer)) \<and>
     (\<forall>h b s. v_blocks L h = Some (b, s) \<longrightarrow> Opcode b = BIND \<longrightarrow>
        v_bindings L (binding_of b) = Some (Link b)) \<and>
     (\<forall>a. unat (binding_total L a) = card (bind_blocks L a)) \<and>
     (\<forall>a. v_binding_count L a \<noteq> Some 0)"

definition ledger_inv :: "env \<Rightarrow> ledger_view \<Rightarrow> bool" where
  "ledger_inv E L \<longleftrightarrow> blocks_inv E L \<and> heads_inv L \<and> valid_inv L \<and> range_inv L \<and> unique_inv L \<and>
     links_inv L \<and> index_inv L \<and> receivables_inv L \<and> rewardables_inv E L \<and> bindings_inv L"

lemmas inv_defs = ledger_inv_def blocks_inv_def heads_inv_def info_inv_def valid_inv_def range_inv_def unique_inv_def
  links_inv_def index_inv_def receivables_inv_def rewardables_inv_def bindings_inv_def

lemma index_put_other:
  assumes "k \<noteq> (Account b, Height b)"
  shows "index_put E b m k = m k"
  unfolding index_put_def using assms by (cases "Height b mod BLOCKS_PER_INDEX = 0") simp_all

lemma index_put_cases:
  assumes "index_put E b m k = Some h"
  shows "k = (Account b, Height b) \<and> h = Hash E b \<or> m k = Some h"
proof (cases "k = (Account b, Height b)")
  case True
  show ?thesis
  proof (cases "Height b mod BLOCKS_PER_INDEX = 0")
    case m: True
    from assms True show ?thesis unfolding index_put_def if_P [OF m] by simp
  next
    case m: False
    from assms show ?thesis unfolding index_put_def if_not_P [OF m] by simp
  qed
next
  case False
  with assms index_put_other [OF False] show ?thesis by simp
qed

lemma index_inv_get:
  assumes "index_inv L" "v_index L (a, n) = Some h"
  obtains b s where "v_blocks L h = Some (b, s)" "Account b = a" "Height b = n"
  using assms(2) assms(1) [unfolded index_inv_def, THEN conjunct1, rule_format, of a n h] by auto

lemma index_inv_put:
  assumes "index_inv L" "v_blocks L h = Some (b, s)" "Height b mod BLOCKS_PER_INDEX = 0"
  shows "v_index L (Account b, Height b) = Some h"
  using assms(1) [unfolded index_inv_def, THEN conjunct2, rule_format, of h b s] assms(2,3) by simp

text \<open>Two assumptions on a new block that the code does not check: its hash is not the all-zero
  value that stands for no block, and its height is not the value that stands for no height.\<close>

definition sane :: "env \<Rightarrow> block \<Rightarrow> bool" where
  "sane E b \<longleftrightarrow> Hash E b \<noteq> 0 \<and> Height b \<noteq> INVALID_HEIGHT"

section \<open>What a step changes\<close>

text \<open>A step on an account that has a head \<open>p\<close>, and one that opens an account.\<close>

definition extends :: "env \<Rightarrow> ledger_view \<Rightarrow> block \<Rightarrow> block \<Rightarrow> ledger_view \<Rightarrow> bool" where
  "extends E L p b L' \<longleftrightarrow> (\<exists>info. successor_ok E L info p b \<and>
     v_accounts L' = (v_accounts L)(Account b \<mapsto> info\<lparr>ai_head_height := Height b, ai_head := Hash E b\<rparr>) \<and>
     v_blocks L' = (v_blocks L)(Hash E b \<mapsto> (b, 0), Previous b \<mapsto> (p, Hash E b)) \<and>
     v_index L' = index_put E b (v_index L))"

definition opens :: "env \<Rightarrow> ledger_view \<Rightarrow> block \<Rightarrow> ledger_view \<Rightarrow> bool" where
  "opens E L b L' \<longleftrightarrow> first_ok E L b \<and>
     v_accounts L' = (v_accounts L)(Account b \<mapsto> AccountInfo_new (Type b) (Hash E b)) \<and>
     v_blocks L' = (v_blocks L)(Hash E b \<mapsto> (b, 0)) \<and>
     v_index L' = index_put E b (v_index L)"

lemma bind_view_fields [simp]:
  "v_accounts (bind_view b L) = v_accounts L" "v_blocks (bind_view b L) = v_blocks L"
  "v_index (bind_view b L) = v_index L" "v_receivables (bind_view b L) = v_receivables L"
  "v_rewardables (bind_view b L) = v_rewardables L" "v_operations (bind_view b L) = v_operations L"
  "v_memory (bind_view b L) = v_memory L"
  by (simp_all add: bind_view_def)

lemma append_step_shape:
  assumes "append_step E L b L'"
  shows "(\<exists>p. extends E L p b L') \<or> opens E L b L'"
  using assms by cases (auto simp: extends_def opens_def)

lemma AccountInfo_Valid_update:
  assumes "AccountInfo_Valid info" "sane E b"
  shows "AccountInfo_Valid (info\<lparr>ai_head_height := Height b, ai_head := Hash E b\<rparr>)"
  using assms by (auto simp: AccountInfo_Valid_def sane_def split: if_splits)

lemma AccountInfo_Valid_new:
  assumes "sane E b"
  shows "AccountInfo_Valid (AccountInfo_new t (Hash E b))"
  using assms by (auto simp: AccountInfo_Valid_def AccountInfo_new_def sane_def INVALID_HEIGHT_def)

lemma head_of_info:
  assumes "heads_inv L" "v_accounts L a = Some info" "AccountInfo_Valid info"
  obtains b where "v_blocks L (ai_head info) = Some (b, 0)" "Account b = a" "head_of L a = Some b"
    "Height b = ai_head_height info" "Type b = ai_type info" "ai_tail_height info \<le> ai_head_height info"
    "ai_confirmed_height info = INVALID_HEIGHT \<or> ai_confirmed_height info \<le> ai_head_height info"
  using assms unfolding heads_inv_def info_inv_def head_of_def by fastforce

lemma extends_head:
  assumes "heads_inv L" "extends E L p b L'"
  shows "head_of L (Account b) = Some p" "Account p = Account b" "Type p = Type b"
    "Height b = Height p + 1" "Height p < Height b" "v_blocks L (Previous b) = Some (p, 0)"
    "v_blocks L (Hash E b) = None" "Previous b \<noteq> Hash E b"
  using assms head_of_info [OF assms(1)]
  by (fastforce simp: extends_def successor_ok_def common_ok_def)+

lemma opens_head:
  assumes "opens E L b L'"
  shows "head_of L (Account b) = None" "v_blocks L (Hash E b) = None"
  using assms by (auto simp: opens_def first_ok_def no_account_def head_of_def common_ok_def
      split: option.splits)

lemma heads_after_extends:
  assumes "heads_inv L" "extends E L p b L'" "sane E b"
  shows "head_of L' = (head_of L)(Account b \<mapsto> b)"
proof
  fix a
  note h = extends_head [OF assms(1,2)]
  obtain info where info: "v_accounts L (Account b) = Some info" "AccountInfo_Valid info"
    and acc: "v_accounts L' = (v_accounts L)(Account b \<mapsto> info\<lparr>ai_head_height := Height b, ai_head := Hash E b\<rparr>)"
    and blk: "v_blocks L' = (v_blocks L)(Hash E b \<mapsto> (b, 0), Previous b \<mapsto> (p, Hash E b))"
    using assms(2) by (auto simp: extends_def successor_ok_def)
  show "head_of L' a = ((head_of L)(Account b \<mapsto> b)) a"
  proof (cases "a = Account b")
    case True
    then show ?thesis
      using AccountInfo_Valid_update [OF info(2) assms(3)] h(8) by (simp add: head_of_def acc blk)
  next
    case False
    have "v_blocks L' (ai_head i) = v_blocks L (ai_head i)"
      if i: "v_accounts L a = Some i" "AccountInfo_Valid i" for i
    proof -
      obtain c where "v_blocks L (ai_head i) = Some (c, 0)" "Account c = a"
        by (rule head_of_info [OF assms(1) i])
      with False h(2,6,7) have "ai_head i \<noteq> Hash E b" "ai_head i \<noteq> Previous b" by auto
      then show ?thesis by (simp add: blk)
    qed
    with False show ?thesis by (auto simp: head_of_def acc split: option.splits)
  qed
qed

lemma heads_after_opens:
  assumes "heads_inv L" "opens E L b L'" "sane E b"
  shows "head_of L' = (head_of L)(Account b \<mapsto> b)"
proof
  fix a
  have acc: "v_accounts L' = (v_accounts L)(Account b \<mapsto> AccountInfo_new (Type b) (Hash E b))"
    and blk: "v_blocks L' = (v_blocks L)(Hash E b \<mapsto> (b, 0))"
    using assms(2) by (auto simp: opens_def)
  show "head_of L' a = ((head_of L)(Account b \<mapsto> b)) a"
  proof (cases "a = Account b")
    case True
    then show ?thesis
      using AccountInfo_Valid_new [OF assms(3)]
      by (simp add: head_of_def acc blk) (simp add: AccountInfo_new_def)
  next
    case False
    have "v_blocks L' (ai_head i) = v_blocks L (ai_head i)"
      if i: "v_accounts L a = Some i" "AccountInfo_Valid i" for i
    proof -
      obtain c where "v_blocks L (ai_head i) = Some (c, 0)"
        by (rule head_of_info [OF assms(1) i])
      with opens_head(2) [OF assms(2)] have "ai_head i \<noteq> Hash E b" by auto
      then show ?thesis by (simp add: blk)
    qed
    with False show ?thesis by (auto simp: head_of_def acc split: option.splits)
  qed
qed

lemma head_of_step:
  assumes "heads_inv L" "append_step E L b L'" "sane E b"
  shows "head_of L' = (head_of L)(Account b \<mapsto> b)"
  using append_step_shape [OF assms(2)] heads_after_extends [OF assms(1) _ assms(3)]
    heads_after_opens [OF assms(1) _ assms(3)] by blast

section \<open>Extending a chain\<close>

text \<open>Facts about a step on an account whose head is \<open>p\<close>, under the invariant.\<close>

lemma extends_cases:
  assumes "heads_inv L" "extends E L p b L'" "v_blocks L' x = Some (c, s)"
  obtains "x = Hash E b" "c = b" "s = 0"
  | s0 where "x \<noteq> Hash E b" "v_blocks L x = Some (c, s0)" "s = (if x = Previous b then Hash E b else s0)"
proof (cases "x = Hash E b")
  case True
  with assms(2,3) extends_head(8) [OF assms(1,2)] show thesis
    by (intro that(1)) (auto simp: extends_def)
next
  case False
  show thesis
  proof (cases "x = Previous b")
    case True
    with False assms(2,3) extends_head(6) [OF assms(1,2)] show thesis
      by (intro that(2) [of 0]) (auto simp: extends_def)
  next
    case ne: False
    with False assms(2,3) show thesis
      by (intro that(2) [of s]) (auto simp: extends_def)
  qed
qed

lemma extends_keeps:
  assumes "heads_inv L" "extends E L p b L'" "v_blocks L x = Some (c, s)"
  shows "v_blocks L' x = Some (c, if x = Previous b then Hash E b else s)"
  using extends_head(6,7) [OF assms(1,2)] assms(2,3) by (auto simp: extends_def)

lemma extends_below:
  assumes "heads_inv L" "range_inv L" "extends E L p b L'" "v_blocks L x = Some (c, s)"
    "Account c = Account b"
  shows "Height c < Height b"
proof -
  obtain info where "v_accounts L (Account b) = Some info" "Height c \<le> ai_head_height info"
    using assms(2,4,5) unfolding range_inv_def by metis
  with assms(3) show ?thesis by (auto simp: extends_def successor_ok_def)
qed

lemma extends_info:
  assumes "heads_inv L" "extends E L p b L'"
  obtains info where "v_accounts L (Account b) = Some info" "AccountInfo_Valid info"
    "v_accounts L' = (v_accounts L)(Account b \<mapsto> info\<lparr>ai_head_height := Height b, ai_head := Hash E b\<rparr>)"
    "Type b = ai_type info" "ai_tail_height info \<le> Height b" "ai_head_height info < Height b"
  using assms(2) unfolding extends_def successor_ok_def by blast

lemma extends_linked:
  assumes "heads_inv L" "extends E L p b L'" "linked L x c" "x \<noteq> 0"
  shows "linked L' x c"
proof -
  obtain q where q: "v_blocks L (Previous c) = Some (q, x)" "Account q = Account c" "Type q = Type c"
    "Height c = Height q + 1" "Height q < Height c"
    using assms(3) unfolding linked_def by blast
  have "Previous c \<noteq> Previous b" using extends_head(6) [OF assms(1,2)] q(1) assms(4) by auto
  with extends_keeps [OF assms(1,2) q(1)] q show ?thesis unfolding linked_def by auto
qed

lemma extends_chain_inv:
  assumes inv: "ledger_inv E L" and ext: "extends E L p b L'" and sane: "sane E b"
  shows "blocks_inv E L'" "range_inv L'" "unique_inv L'" "links_inv L'" "index_inv L'"
proof -
  have i: "blocks_inv E L" "heads_inv L" "range_inv L" "unique_inv L" "links_inv L" "index_inv L"
    using inv by (simp_all add: ledger_inv_def)
  note h = extends_head [OF i(2) ext] and cases = extends_cases [OF i(2) ext]
    and below = extends_below [OF i(2,3) ext] and keeps = extends_keeps [OF i(2) ext]
  obtain info where info: "v_accounts L (Account b) = Some info" "AccountInfo_Valid info"
    "v_accounts L' = (v_accounts L)(Account b \<mapsto> info\<lparr>ai_head_height := Height b, ai_head := Hash E b\<rparr>)"
    "ai_tail_height info \<le> Height b"
    by (rule extends_info [OF i(2) ext])
  note valid = AccountInfo_Valid_update [OF info(2) sane]
  show "blocks_inv E L'"
    unfolding blocks_inv_def
  proof (intro allI impI)
    fix x c s
    assume "v_blocks L' x = Some (c, s)"
    then show "Hash E c = x \<and> x \<noteq> 0"
      by (rule cases) (use i(1) sane in \<open>auto simp: blocks_inv_def sane_def\<close>)
  qed
  show "range_inv L'"
    unfolding range_inv_def
  proof (intro allI impI)
    fix x c s
    assume "v_blocks L' x = Some (c, s)"
    then show "\<exists>i. v_accounts L' (Account c) = Some i \<and> AccountInfo_Valid i \<and>
      ai_tail_height i \<le> Height c \<and> Height c \<le> ai_head_height i"
    proof (rule cases)
      assume "c = b"
      then show ?thesis using info valid by simp
    next
      fix s0
      assume c: "v_blocks L x = Some (c, s0)"
      obtain j where j: "v_accounts L (Account c) = Some j" "AccountInfo_Valid j"
        "ai_tail_height j \<le> Height c" "Height c \<le> ai_head_height j"
        using i(3) c unfolding range_inv_def by blast
      show ?thesis
      proof (cases "Account c = Account b")
        case True
        with j info valid below [OF c True] show ?thesis by auto
      next
        case False
        with j info(3) show ?thesis by simp
      qed
    qed
  qed
  show "unique_inv L'"
    unfolding unique_inv_def
  proof (intro allI impI)
    fix x c s x' c' s'
    assume x: "v_blocks L' x = Some (c, s)" and x': "v_blocks L' x' = Some (c', s')"
      and eq: "Account c = Account c'" "Height c = Height c'"
    from x x' show "x = x'"
      using below i(4) eq unfolding unique_inv_def by (metis cases less_irrefl)
  qed
  show "links_inv L'"
    unfolding links_inv_def
  proof (intro allI impI)
    fix x c s j
    assume x: "v_blocks L' x = Some (c, s)" and j: "v_accounts L' (Account c) = Some j"
      and t: "ai_tail_height j < Height c"
    show "linked L' x c"
      using x
    proof (rule cases)
      assume "x = Hash E b" "c = b"
      then show ?thesis using h(2-5) keeps [OF h(6)] by (auto simp: linked_def)
    next
      fix s0
      assume c: "v_blocks L x = Some (c, s0)"
      have "\<exists>j0. v_accounts L (Account c) = Some j0 \<and> ai_tail_height j0 = ai_tail_height j"
        using j info by (cases "Account c = Account b") auto
      then have "linked L x c" using i(5) c t unfolding links_inv_def by metis
      moreover have "x \<noteq> 0" using i(1) c unfolding blocks_inv_def by blast
      ultimately show ?thesis by (rule extends_linked [OF i(2) ext])
    qed
  qed
  have idx: "v_index L' = index_put E b (v_index L)" using ext by (auto simp: extends_def)
  have new: "v_blocks L' (Hash E b) = Some (b, 0)" using ext h(8) by (auto simp: extends_def)
  show "index_inv L'"
    unfolding index_inv_def
  proof (intro conjI allI impI)
    fix a n x
    assume "v_index L' (a, n) = Some x"
    then consider "a = Account b" "n = Height b" "x = Hash E b" | "v_index L (a, n) = Some x"
      unfolding idx using index_put_cases by blast
    then show "\<exists>c s. v_blocks L' x = Some (c, s) \<and> Account c = a \<and> Height c = n"
    proof cases
      case 2
      from i(6) 2 obtain c s where c: "v_blocks L x = Some (c, s)" "Account c = a" "Height c = n"
        by (rule index_inv_get)
      from keeps [OF c(1)] c(2,3) show ?thesis by blast
    qed (use new in blast)
  next
    fix x c s
    assume x: "v_blocks L' x = Some (c, s)" and m: "Height c mod BLOCKS_PER_INDEX = 0"
    from x show "v_index L' (Account c, Height c) = Some x"
    proof (rule cases)
      assume "x = Hash E b" "c = b"
      then show ?thesis using m unfolding idx index_put_def by (simp only: if_P fun_upd_same)
    next
      fix s0
      assume c: "v_blocks L x = Some (c, s0)"
      from i(6) c m have "v_index L (Account c, Height c) = Some x" by (rule index_inv_put)
      moreover have "(Account c, Height c) \<noteq> (Account b, Height b)" using below [OF c] by auto
      ultimately show ?thesis by (simp add: idx index_put_other)
    qed
  qed
qed

lemma extends_heads_inv:
  assumes inv: "ledger_inv E L" and ext: "extends E L p b L'"
  shows "heads_inv L'"
  unfolding heads_inv_def
proof (intro allI impI)
  have i: "heads_inv L" using inv by (simp add: ledger_inv_def)
  note h = extends_head [OF i ext]
  obtain info where info: "v_accounts L (Account b) = Some info" "AccountInfo_Valid info"
    "v_accounts L' = (v_accounts L)(Account b \<mapsto> info\<lparr>ai_head_height := Height b, ai_head := Hash E b\<rparr>)"
    "Type b = ai_type info" "ai_tail_height info \<le> Height b" "ai_head_height info < Height b"
    by (rule extends_info [OF i ext])
  fix a j
  assume j: "v_accounts L' a = Some j" "AccountInfo_Valid j"
  show "info_inv L' a j"
  proof (cases "a = Account b")
    case True
    have "ai_confirmed_height info = INVALID_HEIGHT \<or> ai_confirmed_height info \<le> Height b"
      using i info(1,2,6) unfolding heads_inv_def info_inv_def by (meson le_less_trans less_imp_le)
    moreover have "v_blocks L' (Hash E b) = Some (b, 0)" using ext h(8) by (auto simp: extends_def)
    ultimately show ?thesis
      using True j info unfolding info_inv_def by auto
  next
    case False
    then have "v_accounts L a = Some j" using j(1) info(3) by simp
    then have old: "info_inv L a j" using i j(2) unfolding heads_inv_def by blast
    then obtain c where c: "v_blocks L (ai_head j) = Some (c, 0)" "Account c = a"
      unfolding info_inv_def by blast
    with h(2,6) False have "ai_head j \<noteq> Previous b" by auto
    with extends_keeps [OF i ext c(1)] c old show ?thesis unfolding info_inv_def by auto
  qed
qed

section \<open>Opening a chain\<close>

lemma opens_no_blocks:
  assumes "range_inv L" "opens E L b L'" "v_blocks L x = Some (c, s)"
  shows "Account c \<noteq> Account b"
proof
  assume "Account c = Account b"
  with assms(1,3) obtain info where "v_accounts L (Account b) = Some info" "AccountInfo_Valid info"
    unfolding range_inv_def by metis
  with assms(2) show False by (auto simp: opens_def first_ok_def no_account_def)
qed

lemma opens_chain_inv:
  assumes inv: "ledger_inv E L" and op: "opens E L b L'" and sane: "sane E b"
  shows "blocks_inv E L'" "heads_inv L'" "range_inv L'" "unique_inv L'" "links_inv L'" "index_inv L'"
proof -
  have i: "blocks_inv E L" "heads_inv L" "range_inv L" "unique_inv L" "links_inv L" "index_inv L"
    using inv by (simp_all add: ledger_inv_def)
  have acc: "v_accounts L' = (v_accounts L)(Account b \<mapsto> AccountInfo_new (Type b) (Hash E b))"
    and blk: "v_blocks L' = (v_blocks L)(Hash E b \<mapsto> (b, 0))"
    and idx: "v_index L' = index_put E b (v_index L)" and z: "Height b = 0"
    using op by (auto simp: opens_def first_ok_def)
  have fresh: "v_blocks L (Hash E b) = None" by (rule opens_head(2) [OF op])
  note other = opens_no_blocks [OF i(3) op]
  have keeps: "v_blocks L' x = Some e" if "v_blocks L x = Some e" for x e
    using that fresh by (auto simp: blk)
  have valid: "AccountInfo_Valid (AccountInfo_new (Type b) (Hash E b))" by (rule AccountInfo_Valid_new [OF sane])
  show "blocks_inv E L'"
    using i(1) sane by (auto simp: blocks_inv_def blk sane_def)
  show "heads_inv L'"
    unfolding heads_inv_def
  proof (intro allI impI)
    fix a j
    assume j: "v_accounts L' a = Some j" "AccountInfo_Valid j"
    show "info_inv L' a j"
    proof (cases "a = Account b")
      case True
      with j z show ?thesis by (auto simp: acc blk info_inv_def AccountInfo_new_def)
    next
      case False
      with j have "info_inv L a j" using i(2) by (simp add: acc heads_inv_def)
      with keeps show ?thesis unfolding info_inv_def by blast
    qed
  qed
  show "range_inv L'"
    unfolding range_inv_def
  proof (intro allI impI)
    fix x c s
    assume x: "v_blocks L' x = Some (c, s)"
    show "\<exists>i. v_accounts L' (Account c) = Some i \<and> AccountInfo_Valid i \<and>
      ai_tail_height i \<le> Height c \<and> Height c \<le> ai_head_height i"
    proof (cases "x = Hash E b")
      case True
      with x valid z show ?thesis by (auto simp: acc blk AccountInfo_new_def)
    next
      case False
      with x have c: "v_blocks L x = Some (c, s)" by (simp add: blk)
      with i(3) obtain j where "v_accounts L (Account c) = Some j" "AccountInfo_Valid j"
        "ai_tail_height j \<le> Height c" "Height c \<le> ai_head_height j"
        unfolding range_inv_def by blast
      with other [OF c] show ?thesis by (simp add: acc)
    qed
  qed
  show "unique_inv L'"
    using i(4) other unfolding unique_inv_def blk by (auto split: if_splits) metis+
  show "links_inv L'"
    unfolding links_inv_def
  proof (intro allI impI)
    fix x c s j
    assume x: "v_blocks L' x = Some (c, s)" and j: "v_accounts L' (Account c) = Some j"
      and t: "ai_tail_height j < Height c"
    show "linked L' x c"
    proof (cases "x = Hash E b")
      case True
      with x j t z show ?thesis by (auto simp: acc blk AccountInfo_new_def)
    next
      case False
      with x have c: "v_blocks L x = Some (c, s)" by (simp add: blk)
      with j other [OF c] have "v_accounts L (Account c) = Some j" by (simp add: acc)
      with i(5) c t have "linked L x c" unfolding links_inv_def by blast
      with keeps show ?thesis unfolding linked_def by blast
    qed
  qed
  show "index_inv L'"
    unfolding index_inv_def
  proof (intro conjI allI impI)
    fix a n x
    assume "v_index L' (a, n) = Some x"
    then consider "a = Account b" "n = Height b" "x = Hash E b" | "v_index L (a, n) = Some x"
      unfolding idx using index_put_cases by blast
    then show "\<exists>c s. v_blocks L' x = Some (c, s) \<and> Account c = a \<and> Height c = n"
    proof cases
      case 2
      from i(6) 2 obtain c s where c: "v_blocks L x = Some (c, s)" "Account c = a" "Height c = n"
        by (rule index_inv_get)
      from keeps [OF c(1)] c(2,3) show ?thesis by blast
    qed (simp add: blk)
  next
    fix x c s
    assume x: "v_blocks L' x = Some (c, s)" and m: "Height c mod BLOCKS_PER_INDEX = 0"
    show "v_index L' (Account c, Height c) = Some x"
    proof (cases "x = Hash E b")
      case True
      with x m show ?thesis by (simp add: blk idx index_put_def)
    next
      case False
      with x have c: "v_blocks L x = Some (c, s)" by (simp add: blk)
      from index_inv_put [OF i(6) c m] other [OF c] show ?thesis by (simp add: idx index_put_other)
    qed
  qed
qed

section \<open>Every step keeps the invariant\<close>

definition blocks_grow :: "ledger_view \<Rightarrow> ledger_view \<Rightarrow> bool" where
  "blocks_grow L L' \<longleftrightarrow> (\<forall>h b s. v_blocks L h = Some (b, s) \<longrightarrow>
     (\<exists>s'. v_blocks L' h = Some (b, s') \<and> (s \<noteq> 0 \<longrightarrow> s' = s)))"

lemma append_step_chain_inv:
  assumes "ledger_inv E L" "append_step E L b L'" "sane E b"
  shows "blocks_inv E L'" "heads_inv L'" "range_inv L'" "unique_inv L'" "links_inv L'" "index_inv L'"
  using append_step_shape [OF assms(2)] extends_chain_inv [OF assms(1) _ assms(3)]
    extends_heads_inv [OF assms(1)] opens_chain_inv [OF assms(1) _ assms(3)] by blast+

lemma append_step_valid_inv:
  assumes "ledger_inv E L" "append_step E L b L'" "sane E b"
  shows "valid_inv L'"
proof -
  have v: "valid_inv L" using assms(1) by (simp add: ledger_inv_def)
  from append_step_shape [OF assms(2)] show ?thesis
  proof (elim disjE exE)
    fix p assume "extends E L p b L'"
    then show ?thesis
      using v AccountInfo_Valid_update [OF _ assms(3)]
      by (auto simp: extends_def successor_ok_def valid_inv_def split: if_splits)
  next
    assume "opens E L b L'"
    then show ?thesis
      using v AccountInfo_Valid_new [OF assms(3), of "Type b"] by (auto simp: opens_def valid_inv_def split: if_splits)
  qed
qed

lemma append_step_blocks:
  assumes "ledger_inv E L" "append_step E L b L'"
  shows "blocks_grow L L'" "v_blocks L' (Hash E b) = Some (b, 0)"
proof -
  have inv: "blocks_inv E L" "heads_inv L" using assms(1) by (simp_all add: ledger_inv_def)
  from append_step_shape [OF assms(2)] consider p where "extends E L p b L'" | "opens E L b L'" by blast
  then have "blocks_grow L L' \<and> v_blocks L' (Hash E b) = Some (b, 0)"
  proof cases
    case (1 p)
    note h = extends_head [OF inv(2) 1]
    have blk: "v_blocks L' = (v_blocks L)(Hash E b \<mapsto> (b, 0), Previous b \<mapsto> (p, Hash E b))"
      using 1 by (auto simp: extends_def)
    with h(6-8) show ?thesis by (auto simp: blk blocks_grow_def)
  next
    case 2
    have "v_blocks L' = (v_blocks L)(Hash E b \<mapsto> (b, 0))" using 2 by (simp add: opens_def)
    with opens_head(2) [OF 2] show ?thesis by (auto simp: blocks_grow_def)
  qed
  then show "blocks_grow L L'" "v_blocks L' (Hash E b) = Some (b, 0)" by blast+
qed

lemma blocks_growD:
  assumes "blocks_grow L L'" "v_blocks L h = Some (b, s)"
  obtains s' where "v_blocks L' h = Some (b, s')" "s \<noteq> 0 \<Longrightarrow> s' = s"
  using assms unfolding blocks_grow_def by blast

lemma successor_view_rewardables [simp]:
  "v_rewardables (successor_view E info p b L) = (case reward_of E p b of
     None \<Rightarrow> v_rewardables L
   | Some wi \<Rightarrow> (v_rewardables L)((Representative p, Hash E p) \<mapsto> wi))"
  by (simp add: successor_view_def reward_view_def split: option.splits)

lemma append_step_receivables:
  assumes "append_step E L b L'" "v_receivables L' k = Some ri"
  shows "v_receivables L k = Some ri \<or>
    (\<exists>p. k = (Link b, Hash E b) \<and> Opcode b = SEND \<and> ri = receivable_of p b)"
  using assms by cases (auto split: if_splits)

lemma append_step_rewardables:
  assumes "append_step E L b L'" "v_rewardables L' k = Some wi"
  shows "v_rewardables L k = Some wi \<or>
    (\<exists>p. extends E L p b L' \<and> k = (Representative p, Hash E p) \<and> reward_of E p b = Some wi)"
  using assms by cases (auto simp: extends_def split: if_splits option.splits)

lemma append_step_receivables_inv:
  assumes "ledger_inv E L" "append_step E L b L'"
  shows "receivables_inv L'"
  unfolding receivables_inv_def
proof (intro allI impI)
  fix d h ri
  assume "v_receivables L' (d, h) = Some ri"
  from append_step_receivables [OF assms(2) this]
  consider "v_receivables L (d, h) = Some ri"
    | p where "d = Link b" "h = Hash E b" "Opcode b = SEND" "ri = receivable_of p b"
    by auto
  then show "\<exists>c s. v_blocks L' h = Some (c, s) \<and> Opcode c = SEND \<and> Link c = d \<and>
    Account c = ri_source ri \<and> Timestamp c = ri_timestamp ri"
  proof cases
    case 1
    have "receivables_inv L" using assms(1) by (simp add: ledger_inv_def)
    with 1 append_step_blocks(1) [OF assms] show ?thesis
      unfolding receivables_inv_def by (metis blocks_growD)
  next
    case (2 p)
    with append_step_blocks(2) [OF assms] show ?thesis by (auto simp: receivable_of_def)
  qed
qed

lemma reward_of_Some:
  "reward_of E p b = Some wi \<Longrightarrow> HasRepresentative p \<and> wi_source wi = Account p \<and>
     RewardAmount (RAI_NETWORK E) (Balance p) (Timestamp p) (Timestamp b) \<noteq> 0 \<and>
     wi_valid_timestamp wi = RewardTimestamp (RAI_NETWORK E) (Timestamp p) (Timestamp b)"
  by (auto simp: reward_of_def Let_def split: if_splits)

lemma append_step_rewardables_inv:
  assumes "ledger_inv E L" "append_step E L b L'" "sane E b"
  shows "rewardables_inv E L'"
  unfolding rewardables_inv_def
proof (intro allI impI)
  fix r h wi
  assume "v_rewardables L' (r, h) = Some wi"
  from append_step_rewardables [OF assms(2) this]
  consider "v_rewardables L (r, h) = Some wi"
    | p where "extends E L p b L'" "r = Representative p" "h = Hash E p" "reward_of E p b = Some wi"
    by auto
  then show "\<exists>b s c t. v_blocks L' h = Some (b, s) \<and> s \<noteq> 0 \<and> v_blocks L' s = Some (c, t) \<and>
        HasRepresentative b \<and> Representative b = r \<and> Account b = wi_source wi \<and>
        RewardAmount (RAI_NETWORK E) (Balance b) (Timestamp b) (Timestamp c) \<noteq> 0 \<and>
        wi_valid_timestamp wi = RewardTimestamp (RAI_NETWORK E) (Timestamp b) (Timestamp c)"
  proof cases
    case 1
    have "rewardables_inv E L" using assms(1) by (simp add: ledger_inv_def)
    with 1 obtain d s c t where d: "v_blocks L h = Some (d, s)" "s \<noteq> 0" "v_blocks L s = Some (c, t)"
      and r: "HasRepresentative d" "Representative d = r" "Account d = wi_source wi"
        "RewardAmount (RAI_NETWORK E) (Balance d) (Timestamp d) (Timestamp c) \<noteq> 0"
        "wi_valid_timestamp wi = RewardTimestamp (RAI_NETWORK E) (Timestamp d) (Timestamp c)"
      unfolding rewardables_inv_def by blast
    note grow = append_step_blocks(1) [OF assms(1,2)]
    have "v_blocks L' h = Some (d, s)" using blocks_growD [OF grow d(1)] d(2) by metis
    moreover obtain t' where "v_blocks L' s = Some (c, t')" by (rule blocks_growD [OF grow d(3)])
    ultimately show ?thesis using d(2) r by blast
  next
    case (2 p)
    have inv: "heads_inv L" "blocks_inv E L" using assms(1) by (simp_all add: ledger_inv_def)
    note hd = extends_head [OF inv(1) 2(1)]
    have "h = Previous b" using inv(2) hd(6) 2(3) by (simp add: blocks_inv_def)
    moreover have "v_blocks L' (Previous b) = Some (p, Hash E b)" using 2(1) by (auto simp: extends_def)
    ultimately show ?thesis
      using reward_of_Some [OF 2(4)] append_step_blocks(2) [OF assms(1,2)] assms(3) 2(2)
      by (simp add: sane_def)
  qed
qed

lemma no_block_at_next:
  assumes "ledger_inv E L" "append_step E L b L'" "v_blocks L h = Some (c, s)" "Account c = Account b"
  shows "Height c \<noteq> Height b"
proof -
  have inv: "heads_inv L" "range_inv L" using assms(1) by (simp_all add: ledger_inv_def)
  from append_step_shape [OF assms(2)] show ?thesis
  proof (elim disjE exE)
    fix p assume "extends E L p b L'"
    from extends_below [OF inv this assms(3,4)] show ?thesis by simp
  next
    assume "opens E L b L'"
    from opens_no_blocks [OF inv(2) this assms(3)] assms(4) show ?thesis by simp
  qed
qed

lemma append_step_block_cases:
  assumes "ledger_inv E L" "append_step E L b L'" "v_blocks L' x = Some (c, s)"
  shows "x = Hash E b \<and> c = b \<or> (\<exists>s0. v_blocks L x = Some (c, s0))"
proof -
  have "heads_inv L" using assms(1) by (simp add: ledger_inv_def)
  then show ?thesis
    using append_step_shape [OF assms(2)] extends_cases [of L E _ b L' x c s] assms(3)
    by (auto simp: opens_def split: if_splits)
qed

lemma append_step_fresh:
  assumes "ledger_inv E L" "append_step E L b L'"
  shows "v_blocks L (Hash E b) = None"
  using append_step_shape [OF assms(2)] extends_head(7) opens_head(2) assms(1)
  unfolding ledger_inv_def by blast

lemma bind_blocks_step:
  assumes "ledger_inv E L" "append_step E L b L'"
  shows "bind_blocks L' a =
    (if Opcode b = BIND \<and> a = Account b then insert (Hash E b) (bind_blocks L a) else bind_blocks L a)"
    and "Hash E b \<notin> bind_blocks L a"
proof -
  note old = append_step_block_cases [OF assms] and blk = append_step_blocks [OF assms]
  show "Hash E b \<notin> bind_blocks L a" using append_step_fresh [OF assms] by (simp add: bind_blocks_def)
  have sub: "h \<in> bind_blocks L' a" if "h \<in> bind_blocks L a" for h
    using that blk(1) unfolding bind_blocks_def mem_Collect_eq by (metis blocks_growD)
  have "h \<in> bind_blocks L a \<or> h = Hash E b \<and> Opcode b = BIND \<and> a = Account b" if "h \<in> bind_blocks L' a" for h
    using that old unfolding bind_blocks_def mem_Collect_eq by metis
  moreover have "Opcode b = BIND \<Longrightarrow> a = Account b \<Longrightarrow> Hash E b \<in> bind_blocks L' a"
    using blk(2) by (simp add: bind_blocks_def)
  ultimately show "bind_blocks L' a =
    (if Opcode b = BIND \<and> a = Account b then insert (Hash E b) (bind_blocks L a) else bind_blocks L a)"
    using sub by auto
qed

lemma append_step_bindings:
  assumes "append_step E L b L'"
  shows "Opcode b \<noteq> BIND \<and> v_bindings L' = v_bindings L \<and> v_binding_count L' = v_binding_count L \<or>
    Opcode b = BIND \<and> v_bindings L' = (v_bindings L)(binding_of b \<mapsto> Link b) \<and>
    v_binding_count L' = (v_binding_count L)(Account b \<mapsto> binding_total L (Account b) + 1) \<and>
    (v_binding_count L (Account b) = None \<or> (\<exists>n. binding_total L (Account b) < n))"
  using assms by cases (auto simp: bind_view_def)

lemma append_step_bindings_inv:
  assumes "ledger_inv E L" "append_step E L b L'"
  shows "bindings_inv L'"
proof -
  have inv: "bindings_inv L" using assms(1) by (simp add: ledger_inv_def)
  note blk = append_step_blocks [OF assms] and old = append_step_block_cases [OF assms]
    and bb = bind_blocks_step [OF assms]
  have keys: "\<exists>h c s. v_blocks L' h = Some (c, s) \<and> Opcode c = BIND \<and> binding_of c = k \<and> Link c = signer"
    if "v_bindings L k = Some signer" for k signer
    using inv that blk(1) unfolding bindings_inv_def by (metis blocks_growD)
  have fresh: "binding_of c \<noteq> binding_of b" if "v_blocks L h = Some (c, s)" for h c s
    using no_block_at_next [OF assms that] by (auto simp: binding_of_def)
  from append_step_bindings [OF assms(2)] show ?thesis
  proof (rule disjE)
    assume "Opcode b \<noteq> BIND \<and> v_bindings L' = v_bindings L \<and> v_binding_count L' = v_binding_count L"
    then show ?thesis
      using inv keys bb old unfolding bindings_inv_def binding_total_def by (auto, metis)
  next
    assume "Opcode b = BIND \<and> v_bindings L' = (v_bindings L)(binding_of b \<mapsto> Link b) \<and>
      v_binding_count L' = (v_binding_count L)(Account b \<mapsto> binding_total L (Account b) + 1) \<and>
      (v_binding_count L (Account b) = None \<or> (\<exists>n. binding_total L (Account b) < n))"
    then have b: "Opcode b = BIND" "v_bindings L' = (v_bindings L)(binding_of b \<mapsto> Link b)"
      "v_binding_count L' = (v_binding_count L)(Account b \<mapsto> binding_total L (Account b) + 1)"
      "v_binding_count L (Account b) = None \<or> (\<exists>n. binding_total L (Account b) < n)"
      by blast+
    let ?n = "binding_total L (Account b)"
    have nz: "?n + 1 \<noteq> 0"
      using b(4) by (auto simp: binding_total_def) (metis max_word_wrap word_order.extremum_strict)
    then have suc: "unat (?n + 1) = Suc (unat ?n)" using unatSuc [of ?n] by (simp add: add.commute)
    have "\<exists>h c s. v_blocks L' h = Some (c, s) \<and> Opcode c = BIND \<and> binding_of c = k \<and> Link c = signer"
      if "v_bindings L' k = Some signer" for k signer
      using that keys blk(2) b(1,2) by (auto split: if_splits)
    moreover have "v_bindings L' (binding_of c) = Some (Link c)"
      if "v_blocks L' h = Some (c, s)" "Opcode c = BIND" for h c s
      using old [OF that(1)]
    proof (elim disjE conjE exE)
      fix s0 assume c: "v_blocks L h = Some (c, s0)"
      then have "v_bindings L (binding_of c) = Some (Link c)"
        using inv that(2) unfolding bindings_inv_def by blast
      with fresh [OF c] b(2) show ?thesis by simp
    qed (simp add: b(2))
    moreover have "unat (binding_total L' a) = card (bind_blocks L' a)" for a
    proof (cases "a = Account b")
      case True
      have "unat ?n = card (bind_blocks L (Account b))" using inv by (simp add: bindings_inv_def)
      with True b(1,3) suc bb(1) [of a] bb(2) [of a] show ?thesis by (simp add: binding_total_def)
    next
      case False
      with inv b(3) bb(1) [of a] show ?thesis by (simp add: binding_total_def bindings_inv_def)
    qed
    moreover have "v_binding_count L' a \<noteq> Some 0" for a
      using inv nz b(3) by (simp add: bindings_inv_def)
    ultimately show ?thesis unfolding bindings_inv_def by blast
  qed
qed

lemma append_step_inv:
  assumes "ledger_inv E L" "append_step E L b L'" "sane E b"
  shows "ledger_inv E L'"
  unfolding ledger_inv_def
  using append_step_chain_inv [OF assms] append_step_valid_inv [OF assms] append_step_receivables_inv [OF assms(1,2)]
    append_step_rewardables_inv [OF assms] append_step_bindings_inv [OF assms(1,2)] by blast

lemma genesis_inv:
  assumes "sane E b" "Height b = 0" "Opcode b \<noteq> BIND"
  shows "ledger_inv E (genesis_view E b m)"
  using assms AccountInfo_Valid_new [OF assms(1)]
  by (auto simp: inv_defs genesis_view_def empty_view_def AccountInfo_new_def index_put_def sane_def
      bind_blocks_def binding_total_def
      split: if_splits)

end
