(* ===== verification/Money.thy ===== *)
theory Money
  imports Invariants
begin

text \<open>
  Conservation of value. \<open>money\<close> adds the balances of all account heads and the amounts of all
  receivable entries, over every possible key. An appended block changes it only by what it
  pays for credit, destroys or is rewarded.
\<close>

definition balance_of :: "block option \<Rightarrow> nat" where
  "balance_of h = (case h of None \<Rightarrow> 0 | Some b \<Rightarrow> unat (Balance b))"

definition amount_of :: "receivable_info option \<Rightarrow> nat" where
  "amount_of r = (case r of None \<Rightarrow> 0 | Some ri \<Rightarrow> unat (ri_amount ri))"

definition reward_amount_of :: "rewardable_info option \<Rightarrow> nat" where
  "reward_amount_of r = (case r of None \<Rightarrow> 0 | Some wi \<Rightarrow> unat (wi_amount wi))"

definition balances :: "ledger_view \<Rightarrow> nat" where
  "balances L = (\<Sum>a\<in>UNIV. balance_of (head_of L a))"

definition pending :: "ledger_view \<Rightarrow> nat" where
  "pending L = (\<Sum>k\<in>UNIV. amount_of (v_receivables L k))"

definition money :: "ledger_view \<Rightarrow> nat" where
  "money L = balances L + pending L"

text \<open>What a block takes out of circulation, and what it brings in.\<close>

definition burned :: "env \<Rightarrow> ledger_view \<Rightarrow> block \<Rightarrow> nat" where
  "burned E L b = (case head_of L (Account b) of
     None \<Rightarrow> unat (CreditPrice (RAI_NETWORK E) (Timestamp b)) * unat (Credit b)
   | Some p \<Rightarrow>
       if Opcode b = CREDIT
       then unat (CreditPrice (RAI_NETWORK E) (Timestamp b)) * (unat (Credit b) - unat (Credit p))
       else if Opcode b = DESTROY then unat (Balance p) - unat (Balance b)
       else 0)"

definition minted :: "ledger_view \<Rightarrow> block \<Rightarrow> nat" where
  "minted L b = (if Opcode b = REWARD then reward_amount_of (v_rewardables L (Account b, Link b)) else 0)"

section \<open>Single changes\<close>

lemma balances_step:
  assumes "ledger_inv E L" "append_step E L b L'" "sane E b"
  shows "balances L' + balance_of (head_of L (Account b)) = balances L + unat (Balance b)"
proof -
  have "heads_inv L" using assms(1) by (simp add: ledger_inv_def)
  then have "head_of L' = (head_of L)(Account b \<mapsto> b)" by (rule head_of_step [OF _ assms(2,3)])
  then show ?thesis
    using sum_fun_upd [of balance_of "head_of L" "Account b" "Some b"]
    by (simp add: balances_def balance_of_def)
qed

lemma pending_put:
  assumes "v_receivables L' = (v_receivables L)(k \<mapsto> ri)" "v_receivables L k = None"
  shows "pending L' = pending L + unat (ri_amount ri)"
  using sum_fun_upd [of amount_of "v_receivables L" k "Some ri"] assms
  by (simp add: pending_def amount_of_def)

lemma pending_del:
  assumes "v_receivables L' = (v_receivables L)(k := None)" "v_receivables L k = Some ri"
  shows "pending L' + unat (ri_amount ri) = pending L"
  using sum_fun_upd [of amount_of "v_receivables L" k None] assms
  by (simp add: pending_def amount_of_def)

lemma pending_same: "v_receivables L' = v_receivables L \<Longrightarrow> pending L' = pending L"
  by (simp add: pending_def)

text \<open>The receivable of a new block cannot be there already.\<close>

lemma receivable_fresh:
  assumes "ledger_inv E L" "v_blocks L h = None"
  shows "v_receivables L (d, h) = None"
  using assms unfolding ledger_inv_def receivables_inv_def by (metis option.exhaust option.distinct(1))

lemma first_amount_nat:
  fixes a b :: u128 and c :: u16
  assumes "ucast a = (ucast (CreditPrice net t) * ucast c + ucast b :: u256)"
  shows "unat a = unat (CreditPrice net t) * unat c + unat b"
proof -
  have "unat (CreditPrice net t) * unat c \<le> 1000000000 * 2 ^ 16"
    using CreditPrice_le [of net t] unat_less [of c] by (intro mult_mono) simp_all
  then have "unat (ucast (CreditPrice net t) * ucast c + ucast b :: u256) =
      unat (CreditPrice net t) * unat c + unat b"
    using unat_less [of b] by (subst unat_add_word) (simp_all add: unat_price_credit unat_ucast_up)
  moreover have "unat (ucast a :: u256) = unat a" by (simp add: unat_ucast_up)
  ultimately show ?thesis unfolding assms by simp
qed

lemma opens_of_first:
  "append_step E L b L' \<Longrightarrow> first_ok E L b \<Longrightarrow> head_of L (Account b) = None"
  by (auto simp: first_ok_def no_account_def head_of_def split: option.splits)

lemma head_of_successor:
  assumes "ledger_inv E L" "successor_ok E L info p b"
  shows "head_of L (Account b) = Some p"
  using assms head_of_info [of L "Account b" info]
  by (force simp: ledger_inv_def successor_ok_def)

section \<open>Every kind of block\<close>

lemma append_step_money:
  assumes inv: "ledger_inv E L" and step: "append_step E L b L'" and "sane E b"
  shows "money L' + burned E L b = money L + minted L b"
proof -
  note bal = balances_step [OF inv step assms(3)]
  from step show ?thesis
  proof cases
    case (send info p L1)
    have p: "head_of L (Account b) = Some p" by (rule head_of_successor [OF inv send(3)])
    have "v_blocks L (Hash E b) = None" using send(3) by (simp add: successor_ok_def common_ok_def)
    then have "pending L' = pending L + unat (Balance p - Balance b)"
      using receivable_fresh [OF inv] by (simp add: send(1,8) pending_put receivable_of_def)
    with bal p send(2) unat_diff_less [OF send(7)] show ?thesis
      by (simp add: money_def burned_def minted_def balance_of_def)
  next
    case (receive info p ri L1)
    have p: "head_of L (Account b) = Some p" by (rule head_of_successor [OF inv receive(3)])
    have "pending L' + unat (ri_amount ri) = pending L"
      using receive(1,8,11) by (intro pending_del) simp_all
    with bal p receive(2,10) unat_diff_less [OF receive(9)] show ?thesis
      by (simp add: money_def burned_def minted_def balance_of_def)
  next
    case (receive_first ri L1)
    have n: "head_of L (Account b) = None" by (rule opens_of_first [OF step receive_first(3)])
    have "pending L' + unat (ri_amount ri) = pending L"
      using receive_first(1,5,7) by (intro pending_del) simp_all
    with bal n receive_first(2) first_amount_nat [OF receive_first(6) [unfolded price_of_def]] show ?thesis
      by (simp add: money_def burned_def minted_def balance_of_def)
  next
    case (change info p)
    have p: "head_of L (Account b) = Some p" by (rule head_of_successor [OF inv change(3)])
    have "pending L' = pending L" by (rule pending_same) (simp add: change(1))
    with bal p change show ?thesis
      by (simp add: money_def burned_def minted_def balance_of_def)
  next
    case (credit info p)
    have p: "head_of L (Account b) = Some p" by (rule head_of_successor [OF inv credit(3)])
    have "pending L' = pending L" by (rule pending_same) (simp add: credit(1))
    moreover have "unat (Balance p) =
        unat (CreditPrice (RAI_NETWORK E) (Timestamp b)) * unat (Credit b - Credit p) + unat (Balance b)"
      using credit(7) by (intro first_amount_nat) (simp add: price_of_def add.commute)
    ultimately show ?thesis
      using bal p credit(2) unat_sub_word [OF less_imp_le [OF credit(4)]]
      by (simp add: money_def burned_def minted_def balance_of_def)
  next
    case (reward info p wi L1)
    have p: "head_of L (Account b) = Some p" by (rule head_of_successor [OF inv reward(3)])
    have "pending L' = pending L" by (rule pending_same) (simp add: reward(1,11))
    with bal p reward(2,7,10) unat_diff_less [OF reward(9)] show ?thesis
      by (simp add: money_def burned_def minted_def balance_of_def reward_amount_of_def)
  next
    case (reward_first wi L1)
    have n: "head_of L (Account b) = None" by (rule opens_of_first [OF step reward_first(3)])
    have "pending L' = pending L" by (rule pending_same) (simp add: reward_first(1,8))
    with bal n reward_first(2,5) first_amount_nat [OF reward_first(7) [unfolded price_of_def]] show ?thesis
      by (simp add: money_def burned_def minted_def balance_of_def reward_amount_of_def)
  next
    case (destroy info p)
    have p: "head_of L (Account b) = Some p" by (rule head_of_successor [OF inv destroy(3)])
    have "pending L' = pending L" by (rule pending_same) (simp add: destroy(1))
    with bal p destroy(2) unat_diff_less [OF destroy(7)] show ?thesis
      by (simp add: money_def burned_def minted_def balance_of_def)
  next
    case (bind info p)
    have p: "head_of L (Account b) = Some p" by (rule head_of_successor [OF inv bind(3)])
    have "pending L' = pending L" by (rule pending_same) (simp add: bind(1))
    with bal p bind show ?thesis
      by (simp add: money_def burned_def minted_def balance_of_def)
  qed
qed

end
