(* ===== verification/Weights.thy ===== *)
theory Weights
  imports Money
begin

text \<open>
  Representative weights. The node keeps the weight of every representative in memory and
  updates it from the operations a transaction has collected. The lemmas show that committing
  them leaves every weight equal to the sum of the balances delegated to that representative,
  and the total equal to the sum over all of them.
\<close>

section \<open>Weights as sums of balances\<close>

definition delegated :: "u256 \<Rightarrow> block option \<Rightarrow> nat" where
  "delegated r h = (case h of None \<Rightarrow> 0
     | Some b \<Rightarrow> if HasRepresentative b \<and> Representative b = r then unat (Balance b) else 0)"

definition voting :: "block option \<Rightarrow> nat" where
  "voting h = (case h of None \<Rightarrow> 0 | Some b \<Rightarrow> if HasRepresentative b then unat (Balance b) else 0)"

definition weight :: "ledger_view \<Rightarrow> u256 \<Rightarrow> nat" where
  "weight L r = (\<Sum>a\<in>UNIV. delegated r (head_of L a))"

definition total_weight :: "ledger_view \<Rightarrow> nat" where
  "total_weight L = (\<Sum>a\<in>UNIV. voting (head_of L a))"

definition recorded :: "ledger_memory \<Rightarrow> u256 \<Rightarrow> nat" where
  "recorded m r = (case RepWeightGet m r of None \<Rightarrow> 0 | Some w \<Rightarrow> unat w)"

definition weights_agree :: "ledger_memory \<Rightarrow> ledger_view \<Rightarrow> bool" where
  "weights_agree m L \<longleftrightarrow>
     (\<forall>r. recorded m r = weight L r) \<and> unat (total_rep_weight m) = total_weight L"

text \<open>The memory a transaction will leave when it commits.\<close>

definition committed :: "ledger_view \<Rightarrow> ledger_memory" where
  "committed L = RepWeightsCommit (v_memory L) (v_operations L)"

section \<open>One operation\<close>

definition add_op :: "u256 \<Rightarrow> u128 \<Rightarrow> rep_weight_operation" where
  "add_op r w = \<lparr>rw_add = True, rw_representative = r, rw_weight = w\<rparr>"

definition sub_op :: "u256 \<Rightarrow> u128 \<Rightarrow> rep_weight_operation" where
  "sub_op r w = \<lparr>rw_add = False, rw_representative = r, rw_weight = w\<rparr>"

lemma commit_add:
  assumes "recorded m r + unat w < 2 ^ 128" "unat (total_rep_weight m) + unat w < 2 ^ 128"
  shows "recorded (RepWeightsCommit_step m (add_op r w)) r' =
           recorded m r' + (if r' = r then unat w else 0)"
    and "unat (total_rep_weight (RepWeightsCommit_step m (add_op r w))) =
           unat (total_rep_weight m) + unat w"
  using assms
  by (auto simp: RepWeightsCommit_step_def add_op_def recorded_def RepWeightGet_def Let_def
      unat_add_word split: option.splits)

lemma commit_sub:
  assumes "unat w \<le> recorded m r" "unat w \<le> unat (total_rep_weight m)"
  shows "recorded (RepWeightsCommit_step m (sub_op r w)) r' =
           recorded m r' - (if r' = r then unat w else 0)"
    and "unat (total_rep_weight (RepWeightsCommit_step m (sub_op r w))) =
           unat (total_rep_weight m) - unat w"
proof -
  have t: "unat (total_rep_weight m - w) = unat (total_rep_weight m) - unat w"
    using assms(2) by (simp add: unat_sub_word word_le_nat_alt)
  have "(recorded (RepWeightsCommit_step m (sub_op r w)) r' =
           recorded m r' - (if r' = r then unat w else 0)) \<and>
        unat (total_rep_weight (RepWeightsCommit_step m (sub_op r w))) =
           unat (total_rep_weight m) - unat w"
  proof (cases "w = 0")
    case True
    then show ?thesis by (simp add: RepWeightsCommit_step_def sub_op_def)
  next
    case False
    then have "unat w \<noteq> 0" by (simp add: unat_eq_zero)
    with assms(1) obtain x where x: "rep_weights m r = Some x" "unat w \<le> unat x"
      by (auto simp: recorded_def RepWeightGet_def split: option.splits)
    then have le: "w \<le> x" by (simp add: word_le_nat_alt)
    show ?thesis
    proof (cases "w = x")
      case True
      with x False t show ?thesis
        by (simp add: RepWeightsCommit_step_def sub_op_def recorded_def RepWeightGet_def Let_def)
    next
      case neq: False
      with le have "\<not> w > x" by simp
      with x neq False t unat_sub_word [OF le] show ?thesis
        by (simp add: RepWeightsCommit_step_def sub_op_def recorded_def RepWeightGet_def Let_def)
    qed
  qed
  then show "recorded (RepWeightsCommit_step m (sub_op r w)) r' =
           recorded m r' - (if r' = r then unat w else 0)"
    and "unat (total_rep_weight (RepWeightsCommit_step m (sub_op r w))) =
           unat (total_rep_weight m) - unat w"
    by blast+
qed

section \<open>Memory that differs in its lists only\<close>

definition same_weights :: "ledger_memory \<Rightarrow> ledger_memory \<Rightarrow> bool" where
  "same_weights m m' \<longleftrightarrow> rep_weights m = rep_weights m' \<and> total_rep_weight m = total_rep_weight m'"

lemma same_weights_step:
  "same_weights m m' \<Longrightarrow> same_weights (RepWeightsCommit_step m o1) (RepWeightsCommit_step m' o1)"
  by (auto simp: same_weights_def RepWeightsCommit_step_def Let_def split: option.splits)

lemma same_weights_commit:
  "same_weights m m' \<Longrightarrow> same_weights (RepWeightsCommit m ops) (RepWeightsCommit m' ops)"
  by (induction ops arbitrary: m m') (simp_all add: RepWeightsCommit_def same_weights_step)

lemma same_weights_agree: "same_weights m m' \<Longrightarrow> weights_agree m L \<longleftrightarrow> weights_agree m' L"
  by (simp add: same_weights_def weights_agree_def recorded_def RepWeightGet_def)

lemma list_update_weights [simp]:
  "rep_weights (rich_update b m) = rep_weights m"
  "total_rep_weight (rich_update b m) = total_rep_weight m"
  "rep_weights (delegator_update b m) = rep_weights m"
  "total_rep_weight (delegator_update b m) = total_rep_weight m"
  by (auto simp: rich_update_def delegator_update_def UpdateRichList_entry_def
      UpdateDelegatorList_entry_def split: option.splits)

section \<open>Operations of an append\<close>

definition weight_ops :: "block option \<Rightarrow> block \<Rightarrow> rep_weight_operation list" where
  "weight_ops h b = (if HasRepresentative b then
     (case h of None \<Rightarrow> [add_op (Representative b) (Balance b)]
      | Some p \<Rightarrow> [sub_op (Representative p) (Balance p), add_op (Representative b) (Balance b)])
     else [])"

lemma successor_view_memory:
  "same_weights (v_memory (successor_view E info p b L)) (v_memory L)"
  "v_operations (successor_view E info p b L) = v_operations L @ weight_ops (Some p) b"
  by (auto simp: successor_view_def rep_view_def weight_ops_def add_op_def sub_op_def
      same_weights_def)

lemma first_rep_view_memory:
  "same_weights (v_memory (first_rep_view b L)) (v_memory L)"
  "v_operations (first_rep_view b L) = v_operations L @ weight_ops None b"
  by (auto simp: first_rep_view_def weight_ops_def add_op_def Let_def same_weights_def)

lemma reward_is_rep: "block_wf b \<Longrightarrow> Opcode b = REWARD \<Longrightarrow> \<not> HasRepresentative b"
  by (cases b) (simp_all add: TxBlock_CheckOpcode_def AdBlock_CheckOpcode_def)

lemma append_step_weights:
  assumes "ledger_inv E L" "append_step E L b L'" "block_wf b"
  shows "same_weights (v_memory L') (v_memory L) \<and>
    v_operations L' = v_operations L @ weight_ops (head_of L (Account b)) b"
proof -
  have sv: "same_weights (v_memory (successor_view E info p b L0)) (v_memory L)"
    "v_operations (successor_view E info p b L0) = v_operations L @ weight_ops (head_of L (Account b)) b"
    if "successor_ok E L info p b" "v_memory L0 = v_memory L" "v_operations L0 = v_operations L"
    for info p L0
    using successor_view_memory [of E info p b L0] head_of_successor [OF assms(1) that(1)] that(2,3)
    by simp_all
  from assms(2) show ?thesis
  proof cases
    case receive_first
    then show ?thesis
      using opens_of_first [OF assms(2)] first_rep_view_memory [of b "first_view E b L"] by simp
  next
    case reward
    then show ?thesis
      using reward_is_rep [OF assms(3)] by (simp add: weight_ops_def same_weights_def)
  next
    case reward_first
    then show ?thesis
      using reward_is_rep [OF assms(3)] by (simp add: weight_ops_def same_weights_def)
  qed (simp_all add: sv)
qed

section \<open>Weights follow the heads\<close>

lemma weight_step:
  assumes "head_of L' = (head_of L)(a \<mapsto> b)"
  shows "weight L' r + delegated r (head_of L a) = weight L r + delegated r (Some b)"
    and "total_weight L' + voting (head_of L a) = total_weight L + voting (Some b)"
  using sum_fun_upd [of "delegated r" "head_of L" a "Some b"]
    sum_fun_upd [of voting "head_of L" a "Some b"]
  by (simp_all add: weight_def total_weight_def assms)

lemma weight_bounds:
  "delegated r (head_of L a) \<le> weight L r" "voting (head_of L a) \<le> total_weight L"
  "weight L r \<le> total_weight L" "total_weight L \<le> money L"
proof -
  show "delegated r (head_of L a) \<le> weight L r" "voting (head_of L a) \<le> total_weight L"
    unfolding weight_def total_weight_def by (rule sum_le_UNIV)+
  show "weight L r \<le> total_weight L"
    unfolding weight_def total_weight_def
    by (rule sum_mono) (simp add: delegated_def voting_def split: option.splits)
  have "total_weight L \<le> balances L"
    unfolding total_weight_def balances_def
    by (rule sum_mono) (simp add: balance_of_def voting_def split: option.splits)
  then show "total_weight L \<le> money L" by (simp add: money_def)
qed

text \<open>The last operation of an append adds the new head's balance.\<close>

lemma weights_agree_add:
  assumes e: "\<And>r. recorded m r + delegated r (Some b) = weight L' r"
    "unat (total_rep_weight m) + unat (Balance b) = total_weight L'"
    and "HasRepresentative b" "\<And>r. weight L' r < 2 ^ 128" "total_weight L' < 2 ^ 128"
  shows "weights_agree (RepWeightsCommit_step m (add_op (Representative b) (Balance b))) L'"
proof -
  have "recorded m (Representative b) + unat (Balance b) < 2 ^ 128"
    using e(1) [of "Representative b"] assms(3) assms(4) [of "Representative b"]
    by (simp add: delegated_def)
  moreover have "unat (total_rep_weight m) + unat (Balance b) < 2 ^ 128"
    using e(2) assms(5) by simp
  ultimately have "recorded (RepWeightsCommit_step m (add_op (Representative b) (Balance b))) r = weight L' r"
    "unat (total_rep_weight (RepWeightsCommit_step m (add_op (Representative b) (Balance b)))) =
       total_weight L'" for r
    using commit_add [of m "Representative b" "Balance b"] e(1) [of r] e(2) assms(3)
    by (auto simp: delegated_def)
  then show ?thesis by (simp add: weights_agree_def)
qed

lemma weight_ops_commit:
  assumes agree: "weights_agree m L" and heads: "head_of L' = (head_of L)(a \<mapsto> b)"
    and small: "money L' < 2 ^ 128"
    and type: "\<And>p. head_of L a = Some p \<Longrightarrow> HasRepresentative p = HasRepresentative b"
  shows "weights_agree (RepWeightsCommit m (weight_ops (head_of L a) b)) L'"
proof (cases "HasRepresentative b")
  case False
  then have "delegated r (head_of L a) = 0" "voting (head_of L a) = 0" for r
    using type by (auto simp: delegated_def voting_def split: option.splits)
  with False agree weight_step [OF heads] show ?thesis
    by (simp add: weight_ops_def RepWeightsCommit_def weights_agree_def delegated_def voting_def)
next
  case True
  have small': "weight L' r < 2 ^ 128" "total_weight L' < 2 ^ 128" for r
    using weight_bounds(3) [of L' r] weight_bounds(4) [of L'] small by linarith+
  note w = weight_step [OF heads] and rec = agree [unfolded weights_agree_def]
  show ?thesis
  proof (cases "head_of L a")
    case None
    then have e: "recorded m r + delegated r (Some b) = weight L' r"
      "unat (total_rep_weight m) + unat (Balance b) = total_weight L'" for r
      using w(1) [of r] w(2) rec True by (simp_all add: delegated_def voting_def)
    from weights_agree_add [OF e True small'] None True show ?thesis
      by (simp add: weight_ops_def RepWeightsCommit_def)
  next
    case (Some p)
    let ?m1 = "RepWeightsCommit_step m (sub_op (Representative p) (Balance p))"
    have p: "HasRepresentative p" using type [OF Some] True by simp
    have b: "unat (Balance p) \<le> recorded m (Representative p)"
      "unat (Balance p) \<le> unat (total_rep_weight m)"
      using weight_bounds(1) [of "Representative p" L a] weight_bounds(2) [of L a] rec Some p
      by (simp_all add: delegated_def voting_def)
    note s = commit_sub [OF b]
    have e: "recorded ?m1 r + delegated r (Some b) = weight L' r"
      "unat (total_rep_weight ?m1) + unat (Balance b) = total_weight L'" for r
      using w(1) [of r] w(2) rec b s Some p True by (auto simp: delegated_def voting_def)
    from weights_agree_add [OF e True small'] Some True show ?thesis
      by (simp add: weight_ops_def RepWeightsCommit_def)
  qed
qed

lemma append_step_committed:
  assumes "ledger_inv E L" "append_step E L b L'" "sane E b" "block_wf b"
    and "weights_agree (committed L) L" "money L' < 2 ^ 128"
  shows "weights_agree (committed L') L'"
proof -
  have inv: "heads_inv L" using assms(1) by (simp add: ledger_inv_def)
  have w: "same_weights (v_memory L') (v_memory L)"
    "v_operations L' = v_operations L @ weight_ops (head_of L (Account b)) b"
    using append_step_weights [OF assms(1,2,4)] by blast+
  have "HasRepresentative p = HasRepresentative b" if "head_of L (Account b) = Some p" for p
    using append_step_shape [OF assms(2)] extends_head(1,3) [OF inv] opens_head(1) that
    by (cases p; cases b) fastforce+
  from weight_ops_commit [OF assms(5) head_of_step [OF inv assms(2,3)] assms(6) this]
  have "weights_agree (RepWeightsCommit (v_memory L) (v_operations L')) L'"
    by (simp add: w(2) committed_def RepWeightsCommit_def)
  with same_weights_agree [OF same_weights_commit [OF w(1)]] show ?thesis
    by (simp add: committed_def)
qed

end
