(* ===== verification/AppendFrame.thy ===== *)
theory AppendFrame
  imports AppendComplete
begin

text \<open>
  What an append leaves alone: it never changes the mode of the transaction, and a block that is
  rejected leaves the transaction exactly as it was, because every check comes before the
  first write. Together with determinism of the step relation this gives the outcome of
  \<open>AppendBlock\<close> for every block.
\<close>

section \<open>The mode of the transaction\<close>

definition txn_mode :: "'db transaction \<Rightarrow> bool \<times> bool" where
  "txn_mode txn = (txn_write txn, txn_aborted txn)"

lemma write_return [simp]:
  "(\<And>s. txn_mode (snd (k s)) = txn_mode s) \<Longrightarrow> txn_mode (snd (IF_ERROR_RETURN r c k)) = txn_mode (snd r)"
  "(\<And>s. txn_mode (snd (k s)) = txn_mode s) \<Longrightarrow> txn_mode (snd (IF_NOT_SUCCESS_RETURN r' k)) = txn_mode (snd r')"
  "(\<And>s. txn_mode (snd (k s)) = txn_mode s) \<Longrightarrow> txn_mode (snd (CHECK_RETURN c t k)) = txn_mode t"
  "(\<And>x. txn_mode (snd (f x)) = txn_mode t) \<Longrightarrow> txn_mode (snd (IF_NONE_RETURN x c t f)) = txn_mode t"
  by (simp_all add: IF_ERROR_RETURN_def IF_NOT_SUCCESS_RETURN_def CHECK_RETURN_def IF_NONE_RETURN_def
      split: prod.splits option.splits)

lemma write_ops [simp]:
  "txn_mode (snd (Store_Put M txn t k v)) = txn_mode txn"
  "txn_mode (snd (Store_Del M txn t k)) = txn_mode txn"
  "txn_mode (RepWeightAdd txn r w) = txn_mode txn"
  "txn_mode (RepWeightSub txn r w) = txn_mode txn"
  "txn_mode (UpdateRichList txn b) = txn_mode txn"
  "txn_mode (UpdateDelegatorList txn b) = txn_mode txn"
  by (simp_all add: txn_mode_def Store_Put_def Store_Del_def RepWeightAdd_def RepWeightSub_def UpdateRichList_def
      UpdateDelegatorList_def split: option.splits)

lemma write_tables [simp]:
  "txn_mode (snd (AccountInfoPut M txn a i)) = txn_mode txn"
  "txn_mode (snd (AccountInfoDel M txn a)) = txn_mode txn"
  "txn_mode (snd (ReceivableInfoPut M txn a h ri)) = txn_mode txn"
  "txn_mode (snd (ReceivableInfoDel M txn a h)) = txn_mode txn"
  "txn_mode (snd (RewardableInfoPut M txn a h wi)) = txn_mode txn"
  "txn_mode (snd (RewardableInfoDel M txn a h)) = txn_mode txn"
  "txn_mode (snd (RollbackBlockPut M txn h b)) = txn_mode txn"
  "txn_mode (snd (BindingPut M txn bk h)) = txn_mode txn"
  "txn_mode (snd (BindingDel M txn bk)) = txn_mode txn"
  "txn_mode (snd (BindingCountPut M txn a n)) = txn_mode txn"
  "txn_mode (snd (BindingCountDel M txn a)) = txn_mode txn"
  "txn_mode (snd (BlockIndexPut M txn a n h)) = txn_mode txn"
  "txn_mode (snd (BlockIndexDel M txn a n)) = txn_mode txn"
  "txn_mode (snd (ForkPut M txn a n f1 f2)) = txn_mode txn"
  "txn_mode (snd (ForkDel_height M txn a n)) = txn_mode txn"
  by (simp_all add: AccountInfoPut_def AccountInfoDel_def ReceivableInfoPut_def ReceivableInfoDel_def
      RewardableInfoPut_def RewardableInfoDel_def RollbackBlockPut_def BindingPut_def BindingDel_def
      BindingCountPut_def BindingCountDel_def BlockIndexPut_def BlockIndexDel_def ForkPut_def ForkDel_height_def)

lemma write_case [simp]:
  "txn_mode (snd (case r of (e, t) \<Rightarrow> if e then (e', t) else k t)) = txn_mode (snd r)"
  if "\<And>s. txn_mode (snd (k s)) = txn_mode s"
  using that by (simp split: prod.splits)

lemma write_blocks [simp]:
  "txn_mode (snd (BlockPut_successor M E txn h b s)) = txn_mode txn"
  "txn_mode (snd (BlockPut M E txn h b)) = txn_mode txn"
  "txn_mode (snd (BlockDel M txn h)) = txn_mode txn"
  "txn_mode (snd (BlockSuccessorSet M txn h s)) = txn_mode txn"
  by (simp_all add: BlockPut_def BlockPut_successor_def BlockDel_def BlockSuccessorSet_def
      split: option.splits prod.splits if_splits)
    (auto, (metis write_ops write_tables snd_conv)+)

lemma write_steps [simp]:
  "txn_mode (snd (PutRewardableInfo M E txn p b)) = txn_mode txn"
  "txn_mode (snd (PutBlockSuccessor M E txn b)) = txn_mode txn"
  "txn_mode (snd (UpdateAccountInfo M E txn b i)) = txn_mode txn"
  "txn_mode (UpdateRepInfo txn p b) = txn_mode txn"
  by (simp_all add: PutRewardableInfo_def PutBlockSuccessor_def UpdateAccountInfo_def UpdateRepInfo_def Let_def)

lemma write_Append:
  "txn_mode (snd (Append_Send M E txn b)) = txn_mode txn"
  "txn_mode (snd (Append_Receive M E txn b)) = txn_mode txn"
  "txn_mode (snd (Append_Change M E txn b)) = txn_mode txn"
  "txn_mode (snd (Append_Credit M E txn b)) = txn_mode txn"
  "txn_mode (snd (Append_Reward M E txn b)) = txn_mode txn"
  "txn_mode (snd (Append_Destroy M E txn b)) = txn_mode txn"
  "txn_mode (snd (Append_Bind M E txn b)) = txn_mode txn"
  by (simp_all add: Append_Send_def Append_Receive_def Append_Change_def Append_Credit_def Append_Reward_def
    Append_Destroy_def Append_Bind_def Let_def split: option.splits)

lemma AppendBlock_writable:
  assumes "writable M txn" "AppendBlock M E txn b = (e, txn')"
  shows "writable M txn'"
proof -
  have "txn_mode (snd (AppendBlock M E txn b)) = txn_mode txn"
    by (cases b) (auto simp: AppendBlock_def AppendBlockVisitor_def TxBlock_Visit_def RepBlock_Visit_def
        AdBlock_Visit_def write_Append split: block_opcode.splits)
  with assms show ?thesis by (simp add: writable_def txn_mode_def)
qed

section \<open>Rejected blocks\<close>

text \<open>Peeling the checks off a method: a failed check returns the transaction as it was.\<close>

lemma peelE:
  "CHECK_RETURN c t k = (e, t') \<Longrightarrow> (t' = t \<Longrightarrow> P) \<Longrightarrow> (c = SUCCESS \<Longrightarrow> k t = (e, t') \<Longrightarrow> P) \<Longrightarrow> P"
  "IF_NONE_RETURN r c t f = (e, t') \<Longrightarrow> (t' = t \<Longrightarrow> P) \<Longrightarrow> (\<And>x. r = Some x \<Longrightarrow> f x = (e, t') \<Longrightarrow> P) \<Longrightarrow> P"
  "(if q then (d, t) else s) = (e, t') \<Longrightarrow> (t' = t \<Longrightarrow> P) \<Longrightarrow> (\<not> q \<Longrightarrow> s = (e, t') \<Longrightarrow> P) \<Longrightarrow> P"
  "(case x of None \<Rightarrow> s | Some y \<Rightarrow> g y) = (e, t') \<Longrightarrow> (x = None \<Longrightarrow> s = (e, t') \<Longrightarrow> P) \<Longrightarrow>
     (\<And>y. x = Some y \<Longrightarrow> g y = (e, t') \<Longrightarrow> P) \<Longrightarrow> P"
  "(d, t) = (e, t') \<Longrightarrow> (t' = t \<Longrightarrow> P) \<Longrightarrow> P"
  by (auto simp: CHECK_RETURN_def IF_NONE_RETURN_def split: if_splits option.splits)

lemma successor_okI:
  assumes "ledger_rel M txn L" "CheckCommon M E txn b = SUCCESS" "account_exists M txn b = Some info"
    "BlockGet M txn (ai_head info) = Some p" "CheckSuccessorCommon b p info = SUCCESS"
  shows "successor_ok E L info p b"
  using assms(2-) by (auto simp: successor_ok_def CheckCommon_SUCCESS [OF assms(1)] account_exists_rel [OF assms(1)]
      get_rels [OF assms(1)] CheckSuccessorCommon_SUCCESS map_option_fst_Some split: if_splits option.splits)

lemma first_okI:
  assumes "ledger_rel M txn L" "CheckCommon M E txn b = SUCCESS" "account_exists M txn b = None"
    "CheckFirstCommon b = SUCCESS" "BlockGet M txn (Link b) = Some source" "Timestamp source \<le> Timestamp b"
  shows "first_ok E L b"
  using assms(2-) by (auto simp: first_ok_def no_account_def CheckCommon_SUCCESS [OF assms(1)] account_exists_rel [OF assms(1)]
      get_rels [OF assms(1)] CheckFirstCommon_SUCCESS map_option_fst_Some source_ok_def split: if_splits option.splits)

lemma source_okI:
  assumes "ledger_rel M txn L" "BlockGet M txn (Link b) = Some source" "Timestamp source \<le> Timestamp b"
  shows "source_ok L b"
  using assms(2-) by (auto simp: source_ok_def get_rels [OF assms(1)] map_option_fst_Some)

lemmas counter_simps = CheckCounterIncrease_SUCCESS CheckCounterSame_SUCCESS CheckRepresentativeSame_SUCCESS
  not_le not_less not_not

lemma Append_rejects:
  assumes "ledger_rel M txn L" "\<nexists>L'. append_step E L b L'"
  shows "Append_Send M E txn b = (e, txn') \<Longrightarrow> Opcode b = SEND \<Longrightarrow> txn' = txn"
    and "Append_Change M E txn b = (e, txn') \<Longrightarrow> Opcode b = CHANGE \<Longrightarrow> txn' = txn"
    and "Append_Destroy M E txn b = (e, txn') \<Longrightarrow> Opcode b = DESTROY \<Longrightarrow> txn' = txn"
    and "Append_Credit M E txn b = (e, txn') \<Longrightarrow> Opcode b = CREDIT \<Longrightarrow> txn' = txn"
  subgoal
    using assms(2) append_step.send [OF _ _ _ _ _ _ refl] successor_okI [OF assms(1)]
    unfolding Append_Send_def by (elim peelE; (unfold counter_simps)?; blast)
  subgoal
    using assms(2) append_step.change successor_okI [OF assms(1)]
    unfolding Append_Change_def by (elim peelE; (unfold counter_simps)?; blast)
  subgoal
    using assms(2) append_step.destroy successor_okI [OF assms(1)]
    unfolding Append_Destroy_def by (elim peelE; (unfold counter_simps)?; blast)
  subgoal
    using assms(2) append_step.credit successor_okI [OF assms(1)]
    unfolding Append_Credit_def Let_def price_of_def by (elim peelE; (unfold counter_simps)?; blast)
  done

lemma Append_Bind_rejects:
  assumes "ledger_rel M txn L" "\<nexists>L'. append_step E L b L'" "Append_Bind M E txn b = (e, txn')" "Opcode b = BIND"
  shows "txn' = txn"
proof -
  have count: "\<not> (case BindingCountGet M txn (Account b) of None \<Rightarrow> False | Some count \<Rightarrow> n \<le> count) \<longleftrightarrow>
    v_binding_count L (Account b) = None \<or> binding_total L (Account b) < n" for n
    by (auto simp: get_rels [OF assms(1)] binding_total_def not_le split: option.splits)
  show ?thesis
    using assms(2-4) append_step.bind successor_okI [OF assms(1)]
    unfolding Append_Bind_def Let_def by (elim peelE; (unfold counter_simps count)?; blast)
qed

lemma Append_Receive_rejects:
  assumes "ledger_rel M txn L" "\<nexists>L'. append_step E L b L'" "Append_Receive M E txn b = (e, txn')" "Opcode b = RECEIVE"
  shows "txn' = txn"
    using assms(2-4) append_step.receive [OF _ _ _ _ _ _ _ _ _ refl] append_step.receive_first [OF _ _ _ _ _ refl]
     successor_okI [OF assms(1)] first_okI [OF assms(1)] source_okI [OF assms(1)]
    unfolding Append_Receive_def Let_def price_of_def
   by (elim peelE; (unfold counter_simps ReceivableInfoGet_rel [OF assms(1)])?; blast)

lemma Append_Reward_rejects:
  assumes "ledger_rel M txn L" "\<nexists>L'. append_step E L b L'" "Append_Reward M E txn b = (e, txn')" "Opcode b = REWARD"
  shows "txn' = txn"
    using assms(2-4) append_step.reward [OF _ _ _ _ _ _ _ _ _ refl] append_step.reward_first [OF _ _ _ _ _ _ refl]
     successor_okI [OF assms(1)] first_okI [OF assms(1)] source_okI [OF assms(1)]
    unfolding Append_Reward_def Let_def price_of_def
   by (elim peelE; (unfold counter_simps RewardableInfoGet_rel [OF assms(1)])?; blast)
lemma AppendBlock_rejects:
  assumes "AppendBlock M E txn b = (e, txn')" "\<nexists>L'. append_step E L b L'" "ledger_rel M txn L" "block_wf b"
  shows "txn' = txn"
  using assms(1) Append_rejects [OF assms(3,2)] Append_Bind_rejects [OF assms(3,2)]
    Append_Receive_rejects [OF assms(3,2)] Append_Reward_rejects [OF assms(3,2)]
  by (cases "Opcode b") (auto simp: AppendBlock_def Visit_wf [OF assms(4)] AppendBlockVisitor_def)

section \<open>Determinism\<close>

lemma successor_ok_unique:
  assumes "successor_ok E L info p b" "successor_ok E L info' p' b"
  shows "info' = info" "p' = p"
  using assms by (auto simp: successor_ok_def)

lemma first_not_successor: "first_ok E L b \<Longrightarrow> \<not> successor_ok E L info p b"
  by (auto simp: first_ok_def no_account_def successor_ok_def)

lemma append_step_deterministic:
  assumes "append_step E L b L1" "append_step E L b L2"
  shows "L2 = L1"
  using assms
  by (elim append_step.cases; simp; metis successor_ok_unique first_not_successor)

lemma AppendBlock_outcome:
  assumes "append_step E L b L'" "writable M txn" "ledger_rel M txn L" "block_wf b"
  shows "\<exists>txn'. AppendBlock M E txn b = (SUCCESS, txn') \<and> writable M txn' \<and> ledger_rel M txn' L'"
proof -
  obtain txn' where t: "AppendBlock M E txn b = (SUCCESS, txn')"
    using AppendBlock_complete [OF assms] by blast
  obtain L'' where "append_step E L b L''" "ledger_rel M txn' L''"
    using AppendBlock_sound [OF t writable_laws [OF assms(2)] assms(3,4)] by blast
  with append_step_deterministic [OF assms(1)] t AppendBlock_writable [OF assms(2) t] show ?thesis by blast
qed

end
