(* ===== verification/Rollback.thy ===== *)
theory Rollback
  imports AppendFrame
begin

text \<open>
  Taking the head block off an account chain: class \<open>RollbackBlockVisitor\<close> and the functions
  \<open>RollbackBlock_\<close> and \<open>ConfirmBlock_\<close> of \<open>rai/node/blockprocessor.cpp\<close>. The second half
  gives the effect of each method on the view of the ledger, as the relation
  \<open>rollback_step\<close>, and shows that \<open>RollbackBlock\<close> does exactly that.
\<close>

section \<open>The visitor\<close>

text \<open>What \<open>Check\<close> leaves in the members of the visitor for the methods that follow.\<close>

record rollback_visitor =
  rv_previous :: "block option"
  rv_delete_rewardable :: bool
  rv_account_info :: account_info

definition Rollback_Check ::
  "'db lmdb \<Rightarrow> env \<Rightarrow> 'db transaction \<Rightarrow> block \<Rightarrow> error_code + rollback_visitor" where
  "Rollback_Check M E txn block =
     (if \<not> BlockExists M txn (Hash E block) then Inl BLOCK_PROCESS_ROLLBACK_IGNORE else
      case AccountInfoGet M txn (Account block) of
        None \<Rightarrow> Inl BLOCK_PROCESS_LEDGER_INCONSISTENT
      | Some info \<Rightarrow>
      if \<not> AccountInfo_Valid info then Inl BLOCK_PROCESS_LEDGER_INCONSISTENT else
      if Height block < ai_tail_height info \<or> Height block > ai_head_height info
      then Inl BLOCK_PROCESS_LEDGER_INCONSISTENT else
      if ai_tail_height info = ai_head_height info \<and> ai_tail_height info \<noteq> 0
      then Inl BLOCK_PROCESS_ROLLBACK_TAIL else
      if Height block \<noteq> ai_head_height info then Inl BLOCK_PROCESS_ROLLBACK_NON_HEAD else
      if Hash E block \<noteq> ai_head info then Inl BLOCK_PROCESS_LEDGER_INCONSISTENT else
      case BlockGet M txn (ai_head info) of
        None \<Rightarrow> Inl BLOCK_PROCESS_LEDGER_INCONSISTENT
      | Some head \<Rightarrow>
      if \<not> BlocksEqual block head then Inl BLOCK_PROCESS_ROLLBACK_NOT_EQUAL_TO_HEAD else
      if Height block = 0
      then Inr \<lparr>rv_previous = None, rv_delete_rewardable = False, rv_account_info = info\<rparr> else
      case BlockGet M txn (Previous block) of
        None \<Rightarrow> Inl BLOCK_PROCESS_LEDGER_INCONSISTENT
      | Some previous \<Rightarrow>
      if HasRepresentative block
         \<and> RewardAmount (RAI_NETWORK E) (Balance previous) (Timestamp previous) (Timestamp block) \<noteq> 0
      then
        case RewardableInfoGet M txn (Representative previous) (Hash E previous) of
          None \<Rightarrow> Inl BLOCK_PROCESS_ROLLBACK_REWARDED
        | Some _ \<Rightarrow>
            Inr \<lparr>rv_previous = Some previous, rv_delete_rewardable = True, rv_account_info = info\<rparr>
      else Inr \<lparr>rv_previous = Some previous, rv_delete_rewardable = False, rv_account_info = info\<rparr>)"

definition UpdateRepWeight :: "rollback_visitor \<Rightarrow> 'db transaction \<Rightarrow> block \<Rightarrow> 'db transaction" where
  "UpdateRepWeight v txn block =
     (if \<not> HasRepresentative block then txn
      else
        let txn = RepWeightSub txn (Representative block) (Balance block) in
        case rv_previous v of
          None \<Rightarrow> txn
        | Some previous \<Rightarrow> RepWeightAdd txn (Representative previous) (Balance previous))"

definition DeleteRewardableInfo ::
  "'db lmdb \<Rightarrow> env \<Rightarrow> rollback_visitor \<Rightarrow> 'db transaction \<Rightarrow> block \<Rightarrow> error_code \<times> 'db transaction" where
  "DeleteRewardableInfo M E v txn block =
     (if \<not> rv_delete_rewardable v then (SUCCESS, txn)
      else
        let previous = the (rv_previous v) in
        IF_ERROR_RETURN (RewardableInfoDel M txn (Representative previous) (Hash E previous))
          BLOCK_PROCESS_LEDGER_REWARDABLE_INFO_DEL (\<lambda>txn.
        (SUCCESS, txn)))"

definition Rollback_UpdateAccountInfo ::
  "'db lmdb \<Rightarrow> rollback_visitor \<Rightarrow> 'db transaction \<Rightarrow> block \<Rightarrow> error_code \<times> 'db transaction" where
  "Rollback_UpdateAccountInfo M v txn block =
     (if Height block = 0 then
        IF_ERROR_RETURN (AccountInfoDel M txn (Account block))
          BLOCK_PROCESS_LEDGER_ACCOUNT_INFO_DEL (\<lambda>txn. (SUCCESS, txn))
      else
        let info = (rv_account_info v)\<lparr>ai_head := Previous block, ai_head_height := Height block - 1\<rparr>;
            info = (if ai_confirmed_height info \<noteq> INVALID_HEIGHT
                       \<and> ai_confirmed_height info > ai_head_height info
                    then info\<lparr>ai_confirmed_height := INVALID_HEIGHT\<rparr> else info) in
        IF_ERROR_RETURN (AccountInfoPut M txn (Account block) info)
          BLOCK_PROCESS_LEDGER_ACCOUNT_INFO_PUT (\<lambda>txn. (SUCCESS, txn)))"

definition DeleteBlockSuccessor ::
  "'db lmdb \<Rightarrow> env \<Rightarrow> 'db transaction \<Rightarrow> block \<Rightarrow> error_code \<times> 'db transaction" where
  "DeleteBlockSuccessor M E txn block =
     IF_ERROR_RETURN (BlockDel M txn (Hash E block)) BLOCK_PROCESS_LEDGER_BLOCK_DEL (\<lambda>txn.
     if Height block \<noteq> 0 then
       IF_ERROR_RETURN (BlockSuccessorSet M txn (Previous block) 0)
         BLOCK_PROCESS_LEDGER_SUCCESSOR_SET (\<lambda>txn. (SUCCESS, txn))
     else (SUCCESS, txn))"

definition PutRollbackBlock ::
  "'db lmdb \<Rightarrow> env \<Rightarrow> 'db transaction \<Rightarrow> block \<Rightarrow> error_code \<times> 'db transaction" where
  "PutRollbackBlock M E txn block =
     IF_ERROR_RETURN (RollbackBlockPut M txn (Hash E block) block)
       BLOCK_PROCESS_LEDGER_ROLLBACK_BLOCK_PUT (\<lambda>txn. (SUCCESS, txn))"

text \<open>\<open>Check(block)\<close> and its \<open>IF_NOT_SUCCESS_RETURN\<close>, and the five calls that end every method.\<close>

definition VISITOR_RETURN ::
  "error_code + 'v \<Rightarrow> 's \<Rightarrow> ('v \<Rightarrow> error_code \<times> 's) \<Rightarrow> error_code \<times> 's" where
  "VISITOR_RETURN r st k = (case r of Inl code \<Rightarrow> (code, st) | Inr v \<Rightarrow> k v)"

definition Rollback_Finish ::
  "'db lmdb \<Rightarrow> env \<Rightarrow> rollback_visitor \<Rightarrow> 'db transaction \<Rightarrow> block \<Rightarrow> error_code \<times> 'db transaction" where
  "Rollback_Finish M E v txn block =
     IF_NOT_SUCCESS_RETURN (DeleteBlockSuccessor M E txn block) (\<lambda>txn.
     IF_NOT_SUCCESS_RETURN (PutRollbackBlock M E txn block) (\<lambda>txn.
     IF_NOT_SUCCESS_RETURN (Rollback_UpdateAccountInfo M v txn block) (\<lambda>txn.
     IF_NOT_SUCCESS_RETURN (DeleteRewardableInfo M E v txn block) (\<lambda>txn.
     (SUCCESS, UpdateRepWeight v txn block)))))"

text \<open>What a receive or reward block took: the change of the balance, or on a first block the
  balance and the price of the credit, in 128 bits.\<close>

definition Rollback_amount :: "env \<Rightarrow> rollback_visitor \<Rightarrow> block \<Rightarrow> u128" where
  "Rollback_amount E v block =
     (if Height block \<noteq> 0 then Balance block - Balance (the (rv_previous v))
      else CreditPrice (RAI_NETWORK E) (Timestamp block) * ucast (Credit block) + Balance block)"

definition Rollback_Send ::
  "'db lmdb \<Rightarrow> env \<Rightarrow> 'db transaction \<Rightarrow> block \<Rightarrow> error_code \<times> 'db transaction" where
  "Rollback_Send M E txn block =
     VISITOR_RETURN (Rollback_Check M E txn block) txn (\<lambda>v.
     IF_NONE_RETURN (ReceivableInfoGet M txn (Link block) (Hash E block))
       BLOCK_PROCESS_ROLLBACK_RECEIVED txn (\<lambda>_.
     IF_ERROR_RETURN (ReceivableInfoDel M txn (Link block) (Hash E block))
       BLOCK_PROCESS_LEDGER_RECEIVABLE_INFO_DEL (\<lambda>txn.
     Rollback_Finish M E v txn block)))"

definition Rollback_Receive ::
  "'db lmdb \<Rightarrow> env \<Rightarrow> 'db transaction \<Rightarrow> block \<Rightarrow> error_code \<times> 'db transaction" where
  "Rollback_Receive M E txn block =
     VISITOR_RETURN (Rollback_Check M E txn block) txn (\<lambda>v.
     IF_NONE_RETURN (BlockGet M txn (Link block)) BLOCK_PROCESS_ROLLBACK_SOURCE_PRUNED txn (\<lambda>source.
     IF_ERROR_RETURN
       (ReceivableInfoPut M txn (Account block) (Link block)
          \<lparr>ri_source = Account source, ri_amount = Rollback_amount E v block,
           ri_timestamp = Timestamp source\<rparr>)
       BLOCK_PROCESS_LEDGER_RECEIVABLE_INFO_PUT (\<lambda>txn.
     Rollback_Finish M E v txn block)))"

definition Rollback_Change ::
  "'db lmdb \<Rightarrow> env \<Rightarrow> 'db transaction \<Rightarrow> block \<Rightarrow> error_code \<times> 'db transaction" where
  "Rollback_Change M E txn block =
     VISITOR_RETURN (Rollback_Check M E txn block) txn (\<lambda>v. Rollback_Finish M E v txn block)"

definition Rollback_Credit ::
  "'db lmdb \<Rightarrow> env \<Rightarrow> 'db transaction \<Rightarrow> block \<Rightarrow> error_code \<times> 'db transaction" where
  "Rollback_Credit M E txn block =
     VISITOR_RETURN (Rollback_Check M E txn block) txn (\<lambda>v. Rollback_Finish M E v txn block)"

definition Rollback_Reward ::
  "'db lmdb \<Rightarrow> env \<Rightarrow> 'db transaction \<Rightarrow> block \<Rightarrow> error_code \<times> 'db transaction" where
  "Rollback_Reward M E txn block =
     VISITOR_RETURN (Rollback_Check M E txn block) txn (\<lambda>v.
     IF_NONE_RETURN (BlockGet_successor M txn (Link block)) BLOCK_PROCESS_ROLLBACK_SOURCE_PRUNED txn
       (\<lambda>(source, successor_hash).
     IF_NONE_RETURN (BlockGet M txn successor_hash) BLOCK_PROCESS_LEDGER_INCONSISTENT txn (\<lambda>successor.
     let timestamp = RewardTimestamp (RAI_NETWORK E) (Timestamp source) (Timestamp successor) in
     IF_ERROR_RETURN
       (RewardableInfoPut M txn (Account block) (Link block)
          \<lparr>wi_source = Account source, wi_amount = Rollback_amount E v block,
           wi_valid_timestamp = timestamp\<rparr>)
       BLOCK_PROCESS_LEDGER_REWARDABLE_INFO_PUT (\<lambda>txn.
     Rollback_Finish M E v txn block))))"

definition Rollback_Destroy ::
  "'db lmdb \<Rightarrow> env \<Rightarrow> 'db transaction \<Rightarrow> block \<Rightarrow> error_code \<times> 'db transaction" where
  "Rollback_Destroy M E txn block =
     VISITOR_RETURN (Rollback_Check M E txn block) txn (\<lambda>v. Rollback_Finish M E v txn block)"

definition Rollback_Bind ::
  "'db lmdb \<Rightarrow> env \<Rightarrow> 'db transaction \<Rightarrow> block \<Rightarrow> error_code \<times> 'db transaction" where
  "Rollback_Bind M E txn block =
     VISITOR_RETURN (Rollback_Check M E txn block) txn (\<lambda>v.
     let binding_key = \<lparr>bk_account = Account block, bk_chain = Chain block,
                        bk_height = Height block\<rparr> in
     IF_NONE_RETURN (BindingGet M txn binding_key) BLOCK_PROCESS_LEDGER_INCONSISTENT txn (\<lambda>_.
     IF_NONE_RETURN (BindingCountGet M txn (Account block)) BLOCK_PROCESS_LEDGER_INCONSISTENT txn (\<lambda>count.
     if count = 0 then (BLOCK_PROCESS_LEDGER_INCONSISTENT, txn) else
     IF_ERROR_RETURN (BindingDel M txn binding_key) BLOCK_PROCESS_LEDGER_BINDING_ENTRY_DEL (\<lambda>txn.
     IF_NOT_SUCCESS_RETURN
       (if count - 1 = 0 then
          IF_ERROR_RETURN (BindingCountDel M txn (Account block))
            BLOCK_PROCESS_LEDGER_BINDING_COUNT_DEL (\<lambda>txn. (SUCCESS, txn))
        else
          IF_ERROR_RETURN (BindingCountPut M txn (Account block) (count - 1))
            BLOCK_PROCESS_LEDGER_BINDING_COUNT_PUT (\<lambda>txn. (SUCCESS, txn))) (\<lambda>txn.
     Rollback_Finish M E v txn block)))))"

definition RollbackBlockVisitor ::
  "'db lmdb \<Rightarrow> env \<Rightarrow> 'db transaction \<Rightarrow> (error_code \<times> 'db transaction) block_visitor" where
  "RollbackBlockVisitor M E txn =
     \<lparr>visit_Send = Rollback_Send M E txn, visit_Receive = Rollback_Receive M E txn,
      visit_Change = Rollback_Change M E txn, visit_Credit = Rollback_Credit M E txn,
      visit_Reward = Rollback_Reward M E txn, visit_Destroy = Rollback_Destroy M E txn,
      visit_Bind = Rollback_Bind M E txn\<rparr>"

definition RollbackBlock ::
  "'db lmdb \<Rightarrow> env \<Rightarrow> 'db transaction \<Rightarrow> block \<Rightarrow> error_code \<times> 'db transaction" where
  "RollbackBlock M E txn block = Visit (RollbackBlockVisitor M E txn) block (BLOCK_OPCODE, txn)"

section \<open>Confirming a block\<close>

text \<open>The result carries \<open>last_confirm_height\<close>, which is set only once the account was found.\<close>

definition ConfirmBlock ::
  "'db lmdb \<Rightarrow> env \<Rightarrow> 'db transaction \<Rightarrow> block \<Rightarrow> u64 \<Rightarrow> (error_code \<times> u64) \<times> 'db transaction" where
  "ConfirmBlock M E txn block last_confirm_height =
     (if \<not> BlockExists M txn (Hash E block)
      then ((BLOCK_PROCESS_CONFIRM_BLOCK_MISS, last_confirm_height), txn) else
      case AccountInfoGet M txn (Account block) of
        None \<Rightarrow> ((BLOCK_PROCESS_LEDGER_INCONSISTENT, last_confirm_height), txn)
      | Some info \<Rightarrow>
      let last_confirm_height = ai_confirmed_height info in
      if ai_confirmed_height info = INVALID_HEIGHT \<or> Height block > ai_confirmed_height info then
        (case AccountInfoPut M txn (Account block) (info\<lparr>ai_confirmed_height := Height block\<rparr>) of
           (error, txn) \<Rightarrow>
             ((if error then BLOCK_PROCESS_LEDGER_ACCOUNT_INFO_PUT else SUCCESS, last_confirm_height), txn))
      else ((SUCCESS, last_confirm_height), txn))"

section \<open>The effect on the view\<close>

definition rollback_info :: "account_info \<Rightarrow> block \<Rightarrow> account_info" where
  "rollback_info info b =
     (let info = info\<lparr>ai_head := Previous b, ai_head_height := Height b - 1\<rparr> in
      if ai_confirmed_height info \<noteq> INVALID_HEIGHT \<and> ai_confirmed_height info > ai_head_height info
      then info\<lparr>ai_confirmed_height := INVALID_HEIGHT\<rparr> else info)"

definition remove_view :: "env \<Rightarrow> rollback_visitor \<Rightarrow> block \<Rightarrow> ledger_view \<Rightarrow> ledger_view" where
  "remove_view E v b L =
     L\<lparr>v_index := index_del b (v_index L),
       v_blocks := (case rv_previous v of
           None \<Rightarrow> (v_blocks L)(Hash E b := None)
         | Some p \<Rightarrow> (v_blocks L)(Hash E b := None, Previous b \<mapsto> (p, 0))),
       v_rollbacks := (v_rollbacks L)(Hash E b \<mapsto> b),
       v_accounts := (v_accounts L)(Account b :=
         if rv_previous v = None then None else Some (rollback_info (rv_account_info v) b)),
       v_rewardables := (case rv_previous v of
           Some p \<Rightarrow> if rv_delete_rewardable v
             then (v_rewardables L)((Representative p, Hash E p) := None) else v_rewardables L
         | None \<Rightarrow> v_rewardables L),
       v_operations := v_operations L @
         (if HasRepresentative b then
            \<lparr>rw_add = False, rw_representative = Representative b, rw_weight = Balance b\<rparr> #
            (case rv_previous v of None \<Rightarrow> []
             | Some p \<Rightarrow> [\<lparr>rw_add = True, rw_representative = Representative p, rw_weight = Balance p\<rparr>])
          else [])\<rparr>"

definition rollback_ok :: "env \<Rightarrow> ledger_view \<Rightarrow> block \<Rightarrow> rollback_visitor \<Rightarrow> bool" where
  "rollback_ok E L b v \<longleftrightarrow>
     (\<exists>s. v_blocks L (Hash E b) = Some (b, s)) \<and>
     v_accounts L (Account b) = Some (rv_account_info v) \<and> AccountInfo_Valid (rv_account_info v) \<and>
     ai_tail_height (rv_account_info v) \<le> Height b \<and> ai_head_height (rv_account_info v) = Height b \<and>
     (ai_tail_height (rv_account_info v) = Height b \<longrightarrow> Height b = 0) \<and>
     ai_head (rv_account_info v) = Hash E b \<and>
     (case rv_previous v of
        None \<Rightarrow> Height b = 0 \<and> \<not> rv_delete_rewardable v
      | Some p \<Rightarrow> Height b \<noteq> 0 \<and> (\<exists>s. v_blocks L (Previous b) = Some (p, s)) \<and>
          (rv_delete_rewardable v \<longleftrightarrow> HasRepresentative b \<and>
             RewardAmount (RAI_NETWORK E) (Balance p) (Timestamp p) (Timestamp b) \<noteq> 0) \<and>
          (rv_delete_rewardable v \<longrightarrow> v_rewardables L (Representative p, Hash E p) \<noteq> None))"

lemma Rollback_Check_Inr:
  assumes "ledger_rel M txn L"
  shows "Rollback_Check M E txn b = Inr v \<longleftrightarrow> rollback_ok E L b v"
proof
  assume "Rollback_Check M E txn b = Inr v"
  then show "rollback_ok E L b v"
    by (auto simp: Rollback_Check_def rollback_ok_def get_rels [OF assms] map_option_fst_Some
        BlocksEqual_iff not_less split: if_splits option.splits)
next
  assume ok: "rollback_ok E L b v"
  obtain prev del info where v: "v = \<lparr>rv_previous = prev, rv_delete_rewardable = del, rv_account_info = info\<rparr>"
    by (cases v)
  from ok show "Rollback_Check M E txn b = Inr v"
    by (cases prev) (auto simp: v Rollback_Check_def rollback_ok_def get_rels [OF assms]
        BlocksEqual_iff not_less)
qed

lemma DeleteBlockSuccessor_rel:
  assumes "DeleteBlockSuccessor M E txn b = (SUCCESS, txn')" "lmdb_laws M" "ledger_rel M txn L"
    "rollback_ok E L b v"
  shows "ledger_rel M txn' (L\<lparr>v_index := index_del b (v_index L),
       v_blocks := (case rv_previous v of
           None \<Rightarrow> (v_blocks L)(Hash E b := None)
         | Some p \<Rightarrow> (v_blocks L)(Hash E b := None, Previous b \<mapsto> (p, 0)))\<rparr>)"
proof -
  obtain t1 where t1: "BlockDel M txn (Hash E b) = (False, t1)"
    and t2: "if Height b \<noteq> 0 then BlockSuccessorSet M t1 (Previous b) 0 = (False, txn') else txn' = t1"
    using assms(1) by (auto simp: DeleteBlockSuccessor_def success_simps split: if_splits)
  have b: "\<exists>s. v_blocks L (Hash E b) = Some (b, s)" using assms(4) by (simp add: rollback_ok_def)
  with BlockDel_rel [OF t1 assms(2,3)]
  have r1: "ledger_rel M t1 (L\<lparr>v_index := index_del b (v_index L), v_blocks := (v_blocks L)(Hash E b := None)\<rparr>)"
    by auto
  show ?thesis
  proof (cases "rv_previous v")
    case None
    with assms(4) t2 r1 show ?thesis by (simp add: rollback_ok_def)
  next
    case (Some p)
    with assms(4) obtain s where h: "Height b \<noteq> 0" "v_blocks L (Previous b) = Some (p, s)"
      by (auto simp: rollback_ok_def)
    with t2 have "BlockSuccessorSet M t1 (Previous b) 0 = (False, txn')" by simp
    from BlockSuccessorSet_rel [OF this assms(2) r1] Some h show ?thesis
      by (auto split: if_splits)
  qed
qed

lemma Rollback_UpdateAccountInfo_rel:
  assumes "Rollback_UpdateAccountInfo M v txn b = (SUCCESS, txn')" "lmdb_laws M" "ledger_rel M txn L"
    "info_ok (rv_account_info v)" "rv_previous v = None \<longleftrightarrow> Height b = 0"
  shows "ledger_rel M txn' (L\<lparr>v_accounts := (v_accounts L)(Account b :=
         if rv_previous v = None then None else Some (rollback_info (rv_account_info v) b))\<rparr>)"
proof (cases "rv_previous v")
  case None
  with assms(1,5) have "AccountInfoDel M txn (Account b) = (False, txn')"
    by (auto simp: Rollback_UpdateAccountInfo_def success_simps)
  from AccountInfoDel_rel [OF this assms(2,3)] None show ?thesis by simp
next
  case (Some p)
  with assms(1,5) have "AccountInfoPut M txn (Account b) (rollback_info (rv_account_info v) b) = (False, txn')"
    by (auto simp: Rollback_UpdateAccountInfo_def success_simps rollback_info_def Let_def)
  from AccountInfoPut_rel [OF this assms(2,3)] assms(4) Some show ?thesis
    by (simp add: rollback_info_def Let_def)
qed

lemma DeleteRewardableInfo_rel:
  assumes "DeleteRewardableInfo M E v txn b = (SUCCESS, txn')" "lmdb_laws M" "ledger_rel M txn L"
    "rv_delete_rewardable v \<Longrightarrow> rv_previous v \<noteq> None"
  shows "ledger_rel M txn' (L\<lparr>v_rewardables := (case rv_previous v of
           Some p \<Rightarrow> if rv_delete_rewardable v
             then (v_rewardables L)((Representative p, Hash E p) := None) else v_rewardables L
         | None \<Rightarrow> v_rewardables L)\<rparr>)"
proof (cases "rv_delete_rewardable v")
  case True
  with assms(4) obtain p where p: "rv_previous v = Some p" by auto
  with True assms(1) have "RewardableInfoDel M txn (Representative p) (Hash E p) = (False, txn')"
    by (auto simp: DeleteRewardableInfo_def success_simps)
  from RewardableInfoDel_rel [OF this assms(2,3)] True p show ?thesis by simp
next
  case False
  with assms(1,3) show ?thesis by (cases "rv_previous v") (simp_all add: DeleteRewardableInfo_def)
qed

lemma rollback_ok_previous:
  assumes "rollback_ok E L b v"
  shows "rv_previous v = None \<longleftrightarrow> Height b = 0" "rv_delete_rewardable v \<Longrightarrow> rv_previous v \<noteq> None"
  using assms by (auto simp: rollback_ok_def split: option.splits)

lemma Rollback_Finish_rel:
  assumes "Rollback_Finish M E v txn b = (SUCCESS, txn')" "lmdb_laws M" "ledger_rel M txn L"
    "rollback_ok E L b v" "block_wf b"
  shows "ledger_rel M txn' (remove_view E v b L)"
proof -
  obtain t1 t2 t3 t4 where t1: "DeleteBlockSuccessor M E txn b = (SUCCESS, t1)"
    and t2: "PutRollbackBlock M E t1 b = (SUCCESS, t2)"
    and t3: "Rollback_UpdateAccountInfo M v t2 b = (SUCCESS, t3)"
    and t4: "DeleteRewardableInfo M E v t3 b = (SUCCESS, t4)"
    and t5: "UpdateRepWeight v t4 b = txn'"
    using assms(1) by (auto simp: Rollback_Finish_def success_simps)
  note prev = rollback_ok_previous [OF assms(4)]
  have info: "info_ok (rv_account_info v)"
    using ledger_rel_wf(1) [OF assms(3)] assms(4) by (auto simp: rollback_ok_def)
  have p2: "RollbackBlockPut M t1 (Hash E b) b = (False, t2)"
    using t2 by (auto simp: PutRollbackBlock_def success_simps)
  note r1 = DeleteBlockSuccessor_rel [OF t1 assms(2-4)]
  note r2 = RollbackBlockPut_rel [OF p2 assms(2) r1 assms(5)]
  note r3 = Rollback_UpdateAccountInfo_rel [OF t3 assms(2) r2 info prev(1)]
  note r4 = DeleteRewardableInfo_rel [OF t4 assms(2) r3 prev(2)]
  note r5 = RepWeight_rel(2) [OF r4, of "Representative b" "Balance b"]
  show ?thesis
    using r4 r5 RepWeight_rel(1) [OF r5] t5
    by (cases "rv_previous v") (auto simp: UpdateRepWeight_def remove_view_def split: if_splits)
qed

section \<open>The rollback relation\<close>

text \<open>\<open>rollback_step E L b L'\<close>: the head block \<open>b\<close> may be taken off in \<open>L\<close>, which leads to \<open>L'\<close>.\<close>

definition unbind_view :: "block \<Rightarrow> ledger_view \<Rightarrow> ledger_view" where
  "unbind_view b L =
     L\<lparr>v_bindings := (v_bindings L)(binding_of b := None),
       v_binding_count := (v_binding_count L)(Account b :=
         if binding_total L (Account b) - 1 = 0 then None
         else Some (binding_total L (Account b) - 1))\<rparr>"

inductive rollback_step :: "env \<Rightarrow> ledger_view \<Rightarrow> block \<Rightarrow> ledger_view \<Rightarrow> bool" for E where
  send: "Opcode b = SEND \<Longrightarrow> rollback_ok E L b v \<Longrightarrow> v_receivables L (Link b, Hash E b) = Some ri \<Longrightarrow>
     rollback_step E L b
       (remove_view E v b (L\<lparr>v_receivables := (v_receivables L)((Link b, Hash E b) := None)\<rparr>))"
| receive: "Opcode b = RECEIVE \<Longrightarrow> rollback_ok E L b v \<Longrightarrow> v_blocks L (Link b) = Some (source, s) \<Longrightarrow>
     rollback_step E L b (remove_view E v b (L\<lparr>v_receivables := (v_receivables L)((Account b, Link b) \<mapsto>
       \<lparr>ri_source = Account source, ri_amount = Rollback_amount E v b, ri_timestamp = Timestamp source\<rparr>)\<rparr>))"
| plain: "Opcode b \<in> {CHANGE, CREDIT, DESTROY} \<Longrightarrow> rollback_ok E L b v \<Longrightarrow>
     rollback_step E L b (remove_view E v b L)"
| reward: "Opcode b = REWARD \<Longrightarrow> rollback_ok E L b v \<Longrightarrow> v_blocks L (Link b) = Some (source, s) \<Longrightarrow>
     v_blocks L s = Some (successor, s') \<Longrightarrow>
     rollback_step E L b (remove_view E v b (L\<lparr>v_rewardables := (v_rewardables L)((Account b, Link b) \<mapsto>
       \<lparr>wi_source = Account source, wi_amount = Rollback_amount E v b, wi_valid_timestamp =
          RewardTimestamp (RAI_NETWORK E) (Timestamp source) (Timestamp successor)\<rparr>)\<rparr>))"
| bind: "Opcode b = BIND \<Longrightarrow> rollback_ok E L b v \<Longrightarrow> v_bindings L (binding_of b) = Some signer \<Longrightarrow>
     v_binding_count L (Account b) = Some n \<Longrightarrow> n \<noteq> 0 \<Longrightarrow>
     rollback_step E L b (remove_view E v b (unbind_view b L))"

lemma VISITOR_RETURN_eq:
  "VISITOR_RETURN r st k = (SUCCESS, st') \<longleftrightarrow>
     (\<exists>v. r = Inr v \<and> k v = (SUCCESS, st')) \<or> r = Inl SUCCESS \<and> st' = st"
  by (auto simp: VISITOR_RETURN_def split: sum.splits)

lemma Rollback_Check_not_SUCCESS: "Rollback_Check M E txn b \<noteq> Inl SUCCESS"
  by (auto simp: Rollback_Check_def split: option.splits)

lemma Rollback_Check_return:
  assumes "ledger_rel M txn L"
  shows "VISITOR_RETURN (Rollback_Check M E txn b) txn k = (SUCCESS, txn') \<longleftrightarrow>
     (\<exists>v. rollback_ok E L b v \<and> k v = (SUCCESS, txn'))"
  by (auto simp: VISITOR_RETURN_eq Rollback_Check_Inr [OF assms] Rollback_Check_not_SUCCESS)

text \<open>The conditions do not depend on the entries that a method rewrites first.\<close>

lemma rollback_ok_other [simp]:
  "rollback_ok E (L\<lparr>v_receivables := r\<rparr>) b v = rollback_ok E L b v"
  "rollback_ok E (unbind_view b L) b v = rollback_ok E L b v"
  by (simp_all add: rollback_ok_def unbind_view_def split: option.splits)

lemma rollback_ok_rewardable:
  "rollback_ok E L b v \<Longrightarrow> rollback_ok E (L\<lparr>v_rewardables := (v_rewardables L)(k \<mapsto> wi)\<rparr>) b v"
  by (auto simp: rollback_ok_def split: option.splits)

lemma Rollback_Bind_success:
  assumes "Rollback_Bind M E txn b = (SUCCESS, txn')" "lmdb_laws M" "ledger_rel M txn L" "block_wf b"
    "Opcode b = BIND"
  shows "\<exists>L'. rollback_step E L b L' \<and> ledger_rel M txn' L'"
proof -
  note rel = assms(3)
  obtain v signer n t1 t2 where ok: "rollback_ok E L b v"
    and n: "v_bindings L (binding_of b) = Some signer" "v_binding_count L (Account b) = Some n" "n \<noteq> 0"
    and t1: "BindingDel M txn (binding_of b) = (False, t1)"
    and t2: "(if n - 1 = 0 then IF_ERROR_RETURN (BindingCountDel M t1 (Account b))
            BLOCK_PROCESS_LEDGER_BINDING_COUNT_DEL (\<lambda>txn. (SUCCESS, txn))
        else IF_ERROR_RETURN (BindingCountPut M t1 (Account b) (n - 1))
            BLOCK_PROCESS_LEDGER_BINDING_COUNT_PUT (\<lambda>txn. (SUCCESS, txn))) = (SUCCESS, t2)"
    and t3: "Rollback_Finish M E v t2 b = (SUCCESS, txn')"
    using assms(1)
    by (auto simp: Rollback_Bind_def Rollback_Check_return [OF rel] success_simps Let_def get_rels [OF rel]
        binding_of_def)
  note r1 = BindingDel_rel [OF t1 assms(2) rel]
  have r2: "ledger_rel M t2 (unbind_view b L)"
    using t2 BindingCountDel_rel [OF _ assms(2) r1] BindingCountPut_rel [OF _ assms(2) r1] n
    by (cases "n - 1 = 0") (auto simp: unbind_view_def binding_total_def success_simps)
  from Rollback_Finish_rel [OF t3 assms(2) r2] ok assms(4) have "ledger_rel M txn' (remove_view E v b (unbind_view b L))"
    by simp
  with rollback_step.bind [OF assms(5) ok n] show ?thesis by blast
qed

lemma RollbackBlock_sound:
  assumes "RollbackBlock M E txn b = (SUCCESS, txn')" "lmdb_laws M" "ledger_rel M txn L" "block_wf b"
  shows "\<exists>L'. rollback_step E L b L' \<and> ledger_rel M txn' L'"
proof -
  note rel = assms(3) and finish = Rollback_Finish_rel [OF _ assms(2) _ _ assms(4)]
  note run = Rollback_Check_return [OF rel] success_simps Let_def get_rels [OF rel] map_option_fst_Some
  consider (send) "Opcode b = SEND" "Rollback_Send M E txn b = (SUCCESS, txn')"
    | (receive) "Opcode b = RECEIVE" "Rollback_Receive M E txn b = (SUCCESS, txn')"
    | (plain) "Opcode b \<in> {CHANGE, CREDIT, DESTROY}" "Rollback_Change M E txn b = (SUCCESS, txn')"
    | (reward) "Opcode b = REWARD" "Rollback_Reward M E txn b = (SUCCESS, txn')"
    | (bind) "Opcode b = BIND" "Rollback_Bind M E txn b = (SUCCESS, txn')"
    using assms(1,4) unfolding Rollback_Change_def
    by (cases "Opcode b") (auto simp: RollbackBlock_def Visit_wf RollbackBlockVisitor_def
        Rollback_Change_def Rollback_Credit_def Rollback_Destroy_def)
  then show ?thesis
  proof cases
    case send
    then obtain v ri t where "rollback_ok E L b v" "v_receivables L (Link b, Hash E b) = Some ri"
      "ReceivableInfoDel M txn (Link b) (Hash E b) = (False, t)" "Rollback_Finish M E v t b = (SUCCESS, txn')"
      by (auto simp: Rollback_Send_def run)
    with finish [OF _ ReceivableInfoDel_rel [OF _ assms(2) rel]] rollback_step.send [OF send(1)]
    show ?thesis by (metis rollback_ok_other(1))
  next
    case receive
    then obtain v source s t where "rollback_ok E L b v" "v_blocks L (Link b) = Some (source, s)"
      "ReceivableInfoPut M txn (Account b) (Link b) \<lparr>ri_source = Account source,
         ri_amount = Rollback_amount E v b, ri_timestamp = Timestamp source\<rparr> = (False, t)"
      "Rollback_Finish M E v t b = (SUCCESS, txn')"
      by (auto simp: Rollback_Receive_def run)
    with finish [OF _ ReceivableInfoPut_rel [OF _ assms(2) rel]] rollback_step.receive [OF receive(1)]
    show ?thesis by (metis rollback_ok_other(1))
  next
    case plain
    then obtain v where "rollback_ok E L b v" "Rollback_Finish M E v txn b = (SUCCESS, txn')"
      by (auto simp: Rollback_Change_def run)
    with finish [OF _ rel] rollback_step.plain [OF plain(1)] show ?thesis by blast
  next
    case reward
    then obtain v source s successor s' t where "rollback_ok E L b v" "v_blocks L (Link b) = Some (source, s)"
      "v_blocks L s = Some (successor, s')"
      "RewardableInfoPut M txn (Account b) (Link b) \<lparr>wi_source = Account source,
         wi_amount = Rollback_amount E v b, wi_valid_timestamp =
          RewardTimestamp (RAI_NETWORK E) (Timestamp source) (Timestamp successor)\<rparr> = (False, t)"
      "Rollback_Finish M E v t b = (SUCCESS, txn')"
      by (auto simp: Rollback_Reward_def run split: prod.splits)
    with finish [OF _ RewardableInfoPut_rel [OF _ assms(2) rel]] rollback_step.reward [OF reward(1)]
    show ?thesis by (metis rollback_ok_rewardable)
  next
    case bind
    from Rollback_Bind_success [OF bind(2) assms(2-4) bind(1)] show ?thesis .
  qed
qed

section \<open>Rollbacks that cannot fail\<close>

lemma ledger_rel_stored:
  assumes "ledger_rel M txn L"
  shows "mdb_get M (txn_db txn) ACCOUNTS (Write a) = map_option AccountInfo_Serialize (v_accounts L a)"
    and "mdb_get M (txn_db txn) BLOCKS_INDEX (height_key (a, n)) = map_option Write (v_index L (a, n))"
    and "mdb_get M (txn_db txn) BINDING_ENTRIES (BindingKey_Serialize k) = map_option Write (v_bindings L k)"
    and "mdb_get M (txn_db txn) BINDING_COUNT_TABLE (Write a) = map_option Write (v_binding_count L a)"
    and "mdb_get M (txn_db txn) BLOCKS (Write h) = map_option enc_entry (v_blocks L h)"
  using assms [unfolded ledger_rel_def] by - (elim conjE, erule table_rel_value(1))+

lemma table_Del_total:
  assumes "writable M txn" "ledger_rel M txn L"
  shows "v_accounts L a \<noteq> None \<Longrightarrow> \<exists>t. AccountInfoDel M txn a = (False, t) \<and> writable M t"
    and "v_index L (a, n) \<noteq> None \<Longrightarrow> \<exists>t. BlockIndexDel M txn a n = (False, t) \<and> writable M t"
    and "v_bindings L k \<noteq> None \<Longrightarrow> \<exists>t. BindingDel M txn k = (False, t) \<and> writable M t"
    and "v_binding_count L a \<noteq> None \<Longrightarrow> \<exists>t. BindingCountDel M txn a = (False, t) \<and> writable M t"
    and "v_blocks L h \<noteq> None \<Longrightarrow> \<exists>t. Store_Del M txn BLOCKS (Write h) = (False, t) \<and> writable M t"
proof -
  have w: "txn_write txn" using assms(1) by (simp add: writable_def)
  note defs = AccountInfoDel_def BlockIndexDel_def BindingDel_def BindingCountDel_def
  show "v_accounts L a \<noteq> None \<Longrightarrow> \<exists>t. AccountInfoDel M txn a = (False, t) \<and> writable M t"
    "v_index L (a, n) \<noteq> None \<Longrightarrow> \<exists>t. BlockIndexDel M txn a n = (False, t) \<and> writable M t"
    "v_bindings L k \<noteq> None \<Longrightarrow> \<exists>t. BindingDel M txn k = (False, t) \<and> writable M t"
    "v_binding_count L a \<noteq> None \<Longrightarrow> \<exists>t. BindingCountDel M txn a = (False, t) \<and> writable M t"
    "v_blocks L h \<noteq> None \<Longrightarrow> \<exists>t. Store_Del M txn BLOCKS (Write h) = (False, t) \<and> writable M t"
    using w by (auto simp: defs ledger_rel_stored [OF assms(2)] intro!: Store_Del_total [OF assms(1)])
qed

text \<open>With the index entry of the block in place, no step of a rollback can fail.\<close>

definition indexed :: "ledger_view \<Rightarrow> block \<Rightarrow> bool" where
  "indexed L b \<longleftrightarrow> (Height b mod BLOCKS_PER_INDEX = 0 \<longrightarrow> v_index L (Account b, Height b) \<noteq> None)"

lemma BlockDel_total:
  assumes "writable M txn" "ledger_rel M txn L" "v_blocks L h = Some (b, s)" "indexed L b"
  shows "\<exists>t. BlockDel M txn h = (False, t) \<and> writable M t"
proof -
  have w: "txn_write txn" using assms(1) by (simp add: writable_def)
  obtain t where t: "(if Height b mod BLOCKS_PER_INDEX = 0
      then BlockIndexDel M txn (Account b) (Height b) else (False, txn)) = (False, t)" "writable M t"
    using assms(1,4) table_Del_total(2) [OF assms(1,2)] by (metis indexed_def)
  have "ledger_rel M t (L\<lparr>v_index := index_del b (v_index L)\<rparr>)"
    using t(1) BlockIndexDel_rel [OF _ writable_laws [OF assms(1)] assms(2)] assms(2)
    by (cases "Height b mod BLOCKS_PER_INDEX = 0") (auto simp: index_del_def)
  from table_Del_total(5) [OF t(2) this, of h] assms(3)
  obtain t' where "Store_Del M t BLOCKS (Write h) = (False, t')" "writable M t'" by auto
  with t w assms(3) show ?thesis by (simp add: BlockDel_def get_rels [OF assms(2)])
qed

lemma DeleteBlockSuccessor_total:
  assumes "writable M txn" "ledger_rel M txn L" "rollback_ok E L b v" "indexed L b"
    "Height b \<noteq> 0 \<Longrightarrow> Previous b \<noteq> Hash E b"
  shows "\<exists>t. DeleteBlockSuccessor M E txn b = (SUCCESS, t) \<and> writable M t"
proof -
  obtain s where b: "v_blocks L (Hash E b) = Some (b, s)" using assms(3) by (auto simp: rollback_ok_def)
  obtain t where t: "BlockDel M txn (Hash E b) = (False, t)" "writable M t"
    using BlockDel_total [OF assms(1,2) b assms(4)] by blast
  from BlockDel_rel [OF t(1) writable_laws [OF assms(1)] assms(2)] b
  have r: "ledger_rel M t (L\<lparr>v_index := index_del b (v_index L), v_blocks := (v_blocks L)(Hash E b := None)\<rparr>)"
    by auto
  have "Height b \<noteq> 0 \<Longrightarrow> v_blocks L (Previous b) \<noteq> None"
    using assms(3) by (auto simp: rollback_ok_def split: option.splits)
  with t BlockSuccessorSet_total [OF t(2) r, of "Previous b" 0] assms(5) show ?thesis
    by (cases "Height b = 0") (auto simp: DeleteBlockSuccessor_def IF_ERROR_RETURN_def)
qed

lemma UpdateRepWeight_writable [simp]: "writable M (UpdateRepWeight v txn b) = writable M txn"
  by (simp add: UpdateRepWeight_def Let_def split: option.splits)

lemma Rollback_Finish_total:
  assumes "writable M txn" "ledger_rel M txn L" "rollback_ok E L b v" "indexed L b"
    "Height b \<noteq> 0 \<Longrightarrow> Previous b \<noteq> Hash E b" "block_wf b"
  shows "\<exists>t. Rollback_Finish M E v txn b = (SUCCESS, t) \<and> writable M t \<and>
    ledger_rel M t (remove_view E v b L)"
proof -
  note laws = writable_laws [OF assms(1)] and prev = rollback_ok_previous [OF assms(3)]
  obtain t1 where t1: "DeleteBlockSuccessor M E txn b = (SUCCESS, t1)" "writable M t1"
    using DeleteBlockSuccessor_total [OF assms(1-5)] by blast
  obtain t2 where t2: "RollbackBlockPut M t1 (Hash E b) b = (False, t2)" "writable M t2"
    using put_totals(6) [OF t1(2)] by blast
  note r2 = RollbackBlockPut_rel [OF t2(1) laws DeleteBlockSuccessor_rel [OF t1(1) laws assms(2,3)] assms(6)]
  have info: "info_ok (rv_account_info v)" "v_accounts L (Account b) \<noteq> None"
    using ledger_rel_wf(1) [OF assms(2)] assms(3) by (auto simp: rollback_ok_def)
  obtain t3 where t3: "Rollback_UpdateAccountInfo M v t2 b = (SUCCESS, t3)" "writable M t3"
  proof (cases "Height b = 0")
    case True
    with table_Del_total(1) [OF t2(2) r2, of "Account b"] info(2) show thesis
      by (auto simp: Rollback_UpdateAccountInfo_def IF_ERROR_RETURN_def intro: that)
  next
    case False
    with put_totals(1) [OF t2(2), of "Account b" "rollback_info (rv_account_info v) b"] show thesis
      by (auto simp: Rollback_UpdateAccountInfo_def IF_ERROR_RETURN_def rollback_info_def Let_def intro: that
          split: if_splits)
  qed
  note r3 = Rollback_UpdateAccountInfo_rel [OF t3(1) laws r2 info(1) prev(1)]
  obtain t4 where t4: "DeleteRewardableInfo M E v t3 b = (SUCCESS, t4)" "writable M t4"
  proof (cases "rv_delete_rewardable v")
    case True
    with assms(3) obtain p where p: "rv_previous v = Some p" "v_rewardables L (Representative p, Hash E p) \<noteq> None"
      by (auto simp: rollback_ok_def split: option.splits)
    with del_totals(2) [OF t3(2) r3, of "Representative p" "Hash E p"] True show thesis
      by (auto simp: DeleteRewardableInfo_def IF_ERROR_RETURN_def intro: that)
  qed (use t3(2) in \<open>auto simp: DeleteRewardableInfo_def intro: that\<close>)
  have f: "Rollback_Finish M E v txn b = (SUCCESS, UpdateRepWeight v t4 b)"
    using t1 t2 t3 t4 by (simp add: Rollback_Finish_def PutRollbackBlock_def IF_ERROR_RETURN_def
        IF_NOT_SUCCESS_RETURN_def)
  from Rollback_Finish_rel [OF f laws assms(2,3,6)] f t4(2) show ?thesis by auto
qed

lemma indexed_other [simp]:
  "indexed (L\<lparr>v_receivables := r\<rparr>) b = indexed L b" "indexed (L\<lparr>v_rewardables := w\<rparr>) b = indexed L b"
  "indexed (unbind_view b L) b = indexed L b"
  by (simp_all add: indexed_def unbind_view_def)

text \<open>The methods once \<open>Check\<close> has passed: the work before the common tail, then the tail.\<close>

lemma RollbackBlock_complete:
  assumes "rollback_step E L b L'" "writable M txn" "ledger_rel M txn L" "block_wf b" "indexed L b"
    "Height b \<noteq> 0 \<Longrightarrow> Previous b \<noteq> Hash E b"
  shows "\<exists>t. RollbackBlock M E txn b = (SUCCESS, t) \<and> writable M t \<and> ledger_rel M t L'"
proof -
  note rel = assms(3) and laws = writable_laws [OF assms(2)]
  note finish = Rollback_Finish_total [OF _ _ _ _ assms(6,4)]
  note run = RollbackBlock_def Visit_wf [OF assms(4)] RollbackBlockVisitor_def Rollback_Check_Inr [OF rel, THEN iffD2]
    VISITOR_RETURN_def get_rels [OF rel] IF_NONE_RETURN_def IF_ERROR_RETURN_def IF_NOT_SUCCESS_RETURN_def Let_def
  from assms(1) show ?thesis
  proof cases
    case (send v ri)
    obtain t where t: "ReceivableInfoDel M txn (Link b) (Hash E b) = (False, t)" "writable M t"
      using del_totals(1) [OF assms(2) rel, of "Link b" "Hash E b"] send(4) by auto
    from finish [OF t(2) ReceivableInfoDel_rel [OF t(1) laws rel], of v] send t assms(5)
    show ?thesis by (simp add: run Rollback_Send_def)
  next
    case (receive v source s)
    let ?ri = "\<lparr>ri_source = Account source, ri_amount = Rollback_amount E v b, ri_timestamp = Timestamp source\<rparr>"
    obtain t where t: "ReceivableInfoPut M txn (Account b) (Link b) ?ri = (False, t)" "writable M t"
      using put_totals(2) [OF assms(2)] by blast
    from finish [OF t(2) ReceivableInfoPut_rel [OF t(1) laws rel], of v] receive t assms(5)
    show ?thesis by (simp add: run Rollback_Receive_def)
  next
    case (plain v)
    from finish [OF assms(2) rel plain(3) assms(5)] plain show ?thesis
      by (auto simp: run Rollback_Change_def Rollback_Credit_def Rollback_Destroy_def)
  next
    case (reward v source s successor s')
    let ?wi = "\<lparr>wi_source = Account source, wi_amount = Rollback_amount E v b, wi_valid_timestamp =
          RewardTimestamp (RAI_NETWORK E) (Timestamp source) (Timestamp successor)\<rparr>"
    obtain t where t: "RewardableInfoPut M txn (Account b) (Link b) ?wi = (False, t)" "writable M t"
      using put_totals(3) [OF assms(2)] by blast
    from finish [OF t(2) RewardableInfoPut_rel [OF t(1) laws rel] rollback_ok_rewardable [OF reward(3)]] reward t assms(5)
    show ?thesis by (simp add: run Rollback_Reward_def)
  next
    case (bind v signer n)
    obtain t where t: "BindingDel M txn (binding_of b) = (False, t)" "writable M t"
      using table_Del_total(3) [OF assms(2) rel, of "binding_of b"] bind(4) by auto
    note r = BindingDel_rel [OF t(1) laws rel]
    obtain t' where t': "if n - 1 = 0 then BindingCountDel M t (Account b) = (False, t')
        else BindingCountPut M t (Account b) (n - 1) = (False, t')" "writable M t'"
      using table_Del_total(4) [OF t(2) r, of "Account b"] put_totals(5) [OF t(2), of "Account b" "n - 1"] bind(5)
      by (cases "n - 1 = 0") auto
    have "ledger_rel M t' (unbind_view b L)"
      using t'(1) BindingCountDel_rel [OF _ laws r] BindingCountPut_rel [OF _ laws r] bind(5,6)
      by (cases "n - 1 = 0") (auto simp: unbind_view_def binding_total_def)
    from finish [OF t'(2) this, of v] bind t t' assms(5) show ?thesis
      by (cases "n - 1 = 0") (simp_all add: run Rollback_Bind_def binding_of_def)
  qed
qed

section \<open>Confirmation\<close>

text \<open>Confirming a stored block raises the confirmed height of its account to the block's height,
  or leaves it when it is there already; nothing else changes.\<close>

definition confirmed_info :: "account_info \<Rightarrow> block \<Rightarrow> account_info" where
  "confirmed_info info b =
     (if ai_confirmed_height info = INVALID_HEIGHT \<or> Height b > ai_confirmed_height info
      then info\<lparr>ai_confirmed_height := Height b\<rparr> else info)"

lemma ConfirmBlock_rel:
  assumes "ledger_rel M txn L" "v_blocks L (Hash E b) \<noteq> None" "v_accounts L (Account b) = Some info"
    "writable M txn"
  shows "\<exists>t. ConfirmBlock M E txn b c = ((SUCCESS, ai_confirmed_height info), t) \<and> writable M t \<and>
    ledger_rel M t (L\<lparr>v_accounts := (v_accounts L)(Account b \<mapsto> confirmed_info info b)\<rparr>)"
proof (cases "ai_confirmed_height info = INVALID_HEIGHT \<or> Height b > ai_confirmed_height info")
  case True
  let ?i = "info\<lparr>ai_confirmed_height := Height b\<rparr>"
  obtain t where t: "AccountInfoPut M txn (Account b) ?i = (False, t)" "writable M t"
    using put_totals(1) [OF assms(4)] by blast
  from AccountInfoPut_rel [OF t(1) writable_laws [OF assms(4)] assms(1)] ledger_rel_wf(1) [OF assms(1,3)]
  have "ledger_rel M t (L\<lparr>v_accounts := (v_accounts L)(Account b \<mapsto> ?i)\<rparr>)" by simp
  with True t assms(2,3) show ?thesis
    by (auto simp: ConfirmBlock_def get_rels [OF assms(1)] confirmed_info_def Let_def)
next
  case False
  have "L\<lparr>v_accounts := (v_accounts L)(Account b \<mapsto> info)\<rparr> = L"
    using assms(3) by (intro ledger_view.equality) (simp_all add: fun_upd_idem)
  with False assms show ?thesis
    by (auto simp: ConfirmBlock_def get_rels [OF assms(1)] confirmed_info_def Let_def)
qed

end
