(* ===== verification/Reversal.thy ===== *)
theory Reversal
  imports Money Rollback
begin

text \<open>
  A rollback undoes an append. After any accepted block the same block can be rolled back, and
  every table the consensus depends on returns to what it was: accounts, blocks, height index,
  receivables, rewardables and bindings. What stays is the copy of the block in the
  rollback table, the in-memory lists, and pending weight operations that cancel.
\<close>

section \<open>Undoing the changes of single tables\<close>

definition same_tables :: "ledger_view \<Rightarrow> ledger_view \<Rightarrow> bool" where
  "same_tables L L' \<longleftrightarrow> v_accounts L = v_accounts L' \<and> v_blocks L = v_blocks L' \<and>
     v_index L = v_index L' \<and> v_receivables L = v_receivables L' \<and>
     v_rewardables L = v_rewardables L' \<and> v_binding_count L = v_binding_count L' \<and>
     v_bindings L = v_bindings L' \<and> v_forks L = v_forks L'"

lemma index_del_put:
  assumes "m (Account b, Height b) = None"
  shows "index_del b (index_put E b m) = m"
proof (cases "Height b mod BLOCKS_PER_INDEX = 0")
  case True
  have "m((Account b, Height b) := None) = m" using assms by (simp add: fun_upd_idem)
  then show ?thesis unfolding index_del_def index_put_def by (simp only: if_P [OF True] fun_upd_upd)
next
  case False
  then show ?thesis unfolding index_del_def index_put_def by (simp only: if_not_P if_False)
qed

lemma RewardTimestamp_of_amount:
  assumes "RewardAmount net balance begin end \<noteq> 0"
  shows "RewardTimestamp net begin end \<noteq> 0"
proof -
  have b: "begin \<le> end" "EpochTimestamp net \<le> begin"
    using assms RewardAmount_zero [of "end" "begin" net balance] by (auto simp: not_less [symmetric])
  then have "0 < end" using EpochTimestamp_bounds [of net] by (simp add: word_le_nat_alt word_less_nat_alt)
  with b show ?thesis
    by (auto simp: RewardTimestamp_def Let_def not_less dest: word_coorder.extremum_uniqueI)
qed

lemma rollback_info_append:
  assumes "successor_ok E L info p b" "info_inv L (Account b) info"
  shows "rollback_info (info\<lparr>ai_head_height := Height b, ai_head := Hash E b\<rparr>) b = info"
  using assms by (auto simp: successor_ok_def info_inv_def rollback_info_def Let_def not_less
      intro!: account_info.equality)

lemma HasRepresentative_Type: "Type a = Type b \<Longrightarrow> HasRepresentative a = HasRepresentative b"
  by (cases a; cases b) simp_all

section \<open>Fresh keys of a new block\<close>

lemma no_index_at_next:
  assumes "ledger_inv E L" "append_step E L b L'"
  shows "v_index L (Account b, Height b) = None"
proof (rule ccontr)
  assume "v_index L (Account b, Height b) \<noteq> None"
  then obtain h where h: "v_index L (Account b, Height b) = Some h" by blast
  have inv: "index_inv L" "heads_inv L" "range_inv L" using assms(1) by (simp_all add: ledger_inv_def)
  obtain c s where c: "v_blocks L h = Some (c, s)" "Account c = Account b" "Height c = Height b"
    by (rule index_inv_get [OF inv(1) h])
  from append_step_shape [OF assms(2)] show False
  proof (elim disjE exE)
    fix p assume "extends E L p b L'"
    from extends_below [OF inv(2,3) this c(1,2)] c(3) show False by simp
  next
    assume "opens E L b L'"
    from opens_no_blocks [OF inv(3) this c(1)] c(2) show False by simp
  qed
qed

lemma no_binding_at_next:
  assumes "ledger_inv E L" "append_step E L b L'"
  shows "v_bindings L (binding_of b) = None"
proof (rule ccontr)
  assume "v_bindings L (binding_of b) \<noteq> None"
  then obtain signer where "v_bindings L (binding_of b) = Some signer" by blast
  moreover have "bindings_inv L" using assms(1) by (simp add: ledger_inv_def)
  ultimately obtain h c s where "v_blocks L h = Some (c, s)" "binding_of c = binding_of b"
    unfolding bindings_inv_def by blast
  then have "v_blocks L h = Some (c, s)" "Account c = Account b" "Height c = Height b"
    by (simp_all add: binding_of_def)
  with no_block_at_next [OF assms] show False by blast
qed

lemma no_rewardable_of_head:
  assumes "ledger_inv E L" "v_blocks L h = Some (p, 0)"
  shows "v_rewardables L (r, h) = None"
proof (rule ccontr)
  assume "v_rewardables L (r, h) \<noteq> None"
  then obtain wi where "v_rewardables L (r, h) = Some wi" by blast
  with assms show False unfolding ledger_inv_def rewardables_inv_def by fastforce
qed

section \<open>The visitor on the block just appended\<close>

definition undo_visitor :: "env \<Rightarrow> ledger_view \<Rightarrow> block \<Rightarrow> block option \<Rightarrow> rollback_visitor" where
  "undo_visitor E L' b prev =
     \<lparr>rv_previous = prev, rv_delete_rewardable = (case prev of None \<Rightarrow> False | Some p \<Rightarrow>
        HasRepresentative b \<and> RewardAmount (RAI_NETWORK E) (Balance p) (Timestamp p) (Timestamp b) \<noteq> 0),
      rv_account_info = the (v_accounts L' (Account b))\<rparr>"

lemma undo_visitor_extends:
  assumes "ledger_inv E L" "extends E L p b L'" "sane E b"
    "HasRepresentative b \<Longrightarrow> RewardAmount (RAI_NETWORK E) (Balance p) (Timestamp p) (Timestamp b) \<noteq> 0 \<Longrightarrow>
       v_rewardables L' (Representative p, Hash E p) \<noteq> None"
  shows "rollback_ok E L' b (undo_visitor E L' b (Some p))"
proof -
  have i: "heads_inv L" using assms(1) by (simp add: ledger_inv_def)
  note h = extends_head [OF i assms(2)]
  obtain info where info: "v_accounts L (Account b) = Some info" "AccountInfo_Valid info"
    "v_accounts L' = (v_accounts L)(Account b \<mapsto> info\<lparr>ai_head_height := Height b, ai_head := Hash E b\<rparr>)"
    "ai_tail_height info \<le> Height b" "ai_head_height info < Height b"
    by (rule extends_info [OF i assms(2)])
  have tail: "ai_tail_height info < Height b"
    using i info(1,2,5) by (meson heads_inv_def info_inv_def le_less_trans)
  have "v_blocks L' (Hash E b) = Some (b, 0)" "v_blocks L' (Previous b) = Some (p, Hash E b)"
    using assms(2) h(8) by (auto simp: extends_def)
  moreover have "Height b \<noteq> 0" using h(5) by auto
  ultimately show ?thesis
    using info tail AccountInfo_Valid_update [OF info(2) assms(3)] assms(4)
    by (auto simp: rollback_ok_def undo_visitor_def)
qed

lemma undo_visitor_opens:
  assumes "opens E L b L'" "sane E b"
  shows "rollback_ok E L' b (undo_visitor E L' b None)"
proof -
  have "Height b = 0" using assms(1) by (simp add: opens_def first_ok_def)
  moreover have "ai_tail_height (AccountInfo_new (Type b) (Hash E b)) = 0"
    "ai_head_height (AccountInfo_new (Type b) (Hash E b)) = 0"
    "ai_head (AccountInfo_new (Type b) (Hash E b)) = Hash E b"
    by (simp_all add: AccountInfo_new_def)
  ultimately show ?thesis
    using assms(1) AccountInfo_Valid_new [OF assms(2), of "Type b"]
    by (auto simp: rollback_ok_def undo_visitor_def opens_def)
qed

section \<open>What the visitor leaves\<close>

lemma remove_view_fields [simp]:
  "v_receivables (remove_view E v b L) = v_receivables L"
  "v_bindings (remove_view E v b L) = v_bindings L"
  "v_binding_count (remove_view E v b L) = v_binding_count L"
  "v_forks (remove_view E v b L) = v_forks L"
  "v_memory (remove_view E v b L) = v_memory L"
  "v_rollbacks (remove_view E v b L) = (v_rollbacks L)(Hash E b \<mapsto> b)"
  by (simp_all add: remove_view_def)

lemma unbind_view_fields [simp]:
  "v_accounts (unbind_view b L) = v_accounts L" "v_blocks (unbind_view b L) = v_blocks L"
  "v_index (unbind_view b L) = v_index L" "v_receivables (unbind_view b L) = v_receivables L"
  "v_rewardables (unbind_view b L) = v_rewardables L" "v_forks (unbind_view b L) = v_forks L"
  "v_memory (unbind_view b L) = v_memory L" "v_rollbacks (unbind_view b L) = v_rollbacks L"
  "v_operations (unbind_view b L) = v_operations L"
  by (simp_all add: unbind_view_def)

definition same_chain :: "ledger_view \<Rightarrow> ledger_view \<Rightarrow> bool" where
  "same_chain L L' \<longleftrightarrow> v_accounts L = v_accounts L' \<and> v_blocks L = v_blocks L' \<and> v_index L = v_index L'"

lemma undo_extends:
  assumes inv: "ledger_inv E L" and step: "append_step E L b L'" and ext: "extends E L p b L'"
    and "same_chain L1 L'"
  shows "same_chain (remove_view E (undo_visitor E L' b (Some p)) b L1) L"
proof -
  have i: "heads_inv L" using inv by (simp add: ledger_inv_def)
  note h = extends_head [OF i ext]
  obtain info where ok: "successor_ok E L info p b"
    and acc: "v_accounts L' = (v_accounts L)(Account b \<mapsto> info\<lparr>ai_head_height := Height b, ai_head := Hash E b\<rparr>)"
    and blk: "v_blocks L' = (v_blocks L)(Hash E b \<mapsto> (b, 0), Previous b \<mapsto> (p, Hash E b))"
    and idx: "v_index L' = index_put E b (v_index L)"
    using ext unfolding extends_def by blast
  have info: "v_accounts L (Account b) = Some info" "info_inv L (Account b) info"
    using ok i by (auto simp: successor_ok_def heads_inv_def)
  have "(v_blocks L)(Hash E b := None, Previous b \<mapsto> (p, 0)) = v_blocks L"
    using h(6,7) by (simp add: fun_upd_idem)
  moreover have "(v_blocks L)(Hash E b \<mapsto> (b, 0), Previous b \<mapsto> (p, Hash E b), Hash E b := None,
      Previous b \<mapsto> (p, 0)) = (v_blocks L)(Hash E b := None, Previous b \<mapsto> (p, 0))"
    using h(8) by (simp add: fun_eq_iff)
  moreover have "(v_accounts L)(Account b \<mapsto> info) = v_accounts L" using info(1) by (simp add: fun_upd_idem)
  moreover have "index_del b (v_index L') = v_index L"
    unfolding idx using no_index_at_next [OF inv step] by (rule index_del_put)
  ultimately show ?thesis
    using assms(4) rollback_info_append [OF ok info(2)] acc blk
    by (simp add: same_chain_def remove_view_def undo_visitor_def)
qed

lemma undo_opens:
  assumes inv: "ledger_inv E L" and step: "append_step E L b L'" and op: "opens E L b L'"
    and "same_chain L1 L'"
  shows "same_chain (remove_view E (undo_visitor E L' b None) b L1) L"
proof -
  have "v_accounts L (Account b) = None"
    using op inv unfolding opens_def first_ok_def no_account_def ledger_inv_def valid_inv_def
    by (metis not_None_eq)
  then have "(v_accounts L)(Account b := None) = v_accounts L" by (simp add: fun_upd_idem)
  moreover have "(v_blocks L)(Hash E b := None) = v_blocks L"
    using opens_head(2) [OF op] by (simp add: fun_upd_idem)
  moreover have "index_del b (v_index L') = v_index L"
    using op index_del_put [of "v_index L" b E] no_index_at_next [OF inv step] by (simp add: opens_def)
  ultimately show ?thesis
    using assms(4) op by (simp add: same_chain_def remove_view_def undo_visitor_def opens_def)
qed

lemma successor_extends:
  assumes "successor_ok E L info p b" "same_chain L' (successor_view E info p b L)"
  shows "extends E L p b L'"
  using assms by (auto simp: extends_def same_chain_def)

lemma first_opens:
  assumes "first_ok E L b" "same_chain L' (first_view E b L)"
  shows "opens E L b L'"
  using assms by (simp add: opens_def same_chain_def)

text \<open>The reward of the old head is written on append exactly when a rollback deletes it.\<close>

lemma reward_of_None:
  assumes "HasRepresentative p = HasRepresentative b"
  shows "reward_of E p b = None \<longleftrightarrow> \<not> (HasRepresentative b \<and>
    RewardAmount (RAI_NETWORK E) (Balance p) (Timestamp p) (Timestamp b) \<noteq> 0)"
  using assms RewardTimestamp_of_amount by (auto simp: reward_of_def Let_def)

lemma undo_rewardables:
  assumes inv: "ledger_inv E L" and ext: "extends E L p b L'"
    and r: "v_rewardables L1 = (case reward_of E p b of
     None \<Rightarrow> v_rewardables L
   | Some wi \<Rightarrow> (v_rewardables L)((Representative p, Hash E p) \<mapsto> wi))"
  shows "v_rewardables (remove_view E (undo_visitor E L' b (Some p)) b L1) = v_rewardables L"
proof -
  have i: "heads_inv L" "blocks_inv E L" using inv by (simp_all add: ledger_inv_def)
  note h = extends_head [OF i(1) ext]
  have hp: "Hash E p = Previous b" using i(2) h(6) unfolding blocks_inv_def by blast
  note rn = reward_of_None [OF HasRepresentative_Type [OF h(3)], of E]
  have "v_rewardables L (Representative p, Hash E p) = None"
    unfolding hp by (rule no_rewardable_of_head [OF inv h(6)])
  then have "(v_rewardables L)((Representative p, Hash E p) := None) = v_rewardables L"
    by (simp add: fun_upd_idem)
  with rn r show ?thesis
    by (cases "reward_of E p b") (auto simp: remove_view_def undo_visitor_def)
qed

lemma undo_visitor_successor:
  assumes "ledger_inv E L" "extends E L p b L'" "sane E b"
    "v_rewardables L' = v_rewardables (successor_view E info p b L)"
  shows "rollback_ok E L' b (undo_visitor E L' b (Some p))"
proof (rule undo_visitor_extends [OF assms(1-3)])
  have "heads_inv L" using assms(1) by (simp add: ledger_inv_def)
  from reward_of_None [OF HasRepresentative_Type [OF extends_head(3) [OF this assms(2)]], of E]
  show "HasRepresentative b \<Longrightarrow> RewardAmount (RAI_NETWORK E) (Balance p) (Timestamp p) (Timestamp b) \<noteq> 0 \<Longrightarrow>
       v_rewardables L' (Representative p, Hash E p) \<noteq> None"
    by (auto simp: assms(4) split: option.splits)
qed

section \<open>Rollback undoes append\<close>

definition undone :: "env \<Rightarrow> ledger_view \<Rightarrow> block \<Rightarrow> ledger_view \<Rightarrow> ledger_view \<Rightarrow> bool" where
  "undone E L b L' L'' \<longleftrightarrow> same_tables L'' L \<and> v_memory L'' = v_memory L' \<and>
     v_rollbacks L'' = (v_rollbacks L)(Hash E b \<mapsto> b)"

lemma undoneI:
  assumes "same_chain L'' L" "v_receivables L'' = v_receivables L" "v_rewardables L'' = v_rewardables L"
    "v_bindings L'' = v_bindings L" "v_binding_count L'' = v_binding_count L" "v_forks L'' = v_forks L"
    "v_memory L'' = v_memory L'" "v_rollbacks L'' = (v_rollbacks L)(Hash E b \<mapsto> b)"
  shows "undone E L b L' L''"
  using assms by (simp add: undone_def same_tables_def same_chain_def)

text \<open>A receive block puts back the entry it took.\<close>

lemma receivable_again:
  assumes "ledger_inv E L" "append_step E L b L'" "v_receivables L (Account b, Link b) = Some ri"
  obtains source s where "v_blocks L' (Link b) = Some (source, s)"
    "ri_source ri = Account source" "ri_timestamp ri = Timestamp source"
proof -
  obtain source s where "v_blocks L (Link b) = Some (source, s)"
    "Account source = ri_source ri" "Timestamp source = ri_timestamp ri"
    using assms(1,3) unfolding ledger_inv_def receivables_inv_def by blast
  with append_step_blocks(1) [OF assms(1,2)] show thesis by (metis blocks_growD that)
qed

lemma rewardable_again:
  assumes "ledger_inv E L" "append_step E L b L'" "v_rewardables L (Account b, Link b) = Some wi"
  obtains source s successor s' where "v_blocks L' (Link b) = Some (source, s)"
    "v_blocks L' s = Some (successor, s')" "wi_source wi = Account source"
    "wi_valid_timestamp wi = RewardTimestamp (RAI_NETWORK E) (Timestamp source) (Timestamp successor)"
proof -
  have "rewardables_inv E L" using assms(1) by (simp add: ledger_inv_def)
  with assms(3) obtain d s c t where d: "v_blocks L (Link b) = Some (d, s)" "s \<noteq> 0" "v_blocks L s = Some (c, t)"
    "Account d = wi_source wi"
    "wi_valid_timestamp wi = RewardTimestamp (RAI_NETWORK E) (Timestamp d) (Timestamp c)"
    unfolding rewardables_inv_def by blast
  note grow = append_step_blocks(1) [OF assms(1,2)]
  have "v_blocks L' (Link b) = Some (d, s)" using blocks_growD [OF grow d(1)] d(2) by metis
  moreover obtain t' where "v_blocks L' s = Some (c, t')" by (rule blocks_growD [OF grow d(3)])
  ultimately show thesis using that d(4,5) by metis
qed

lemma first_amount_word:
  fixes a b :: u128 and c :: u16
  assumes "ucast a = (ucast (CreditPrice net t) * ucast c + ucast b :: u256)"
  shows "a = CreditPrice net t * ucast c + b"
proof -
  have "unat (CreditPrice net t * ucast c + b) = unat a mod 2 ^ 128"
    unfolding first_amount_nat [OF assms] by (simp add: unat_word_ariths unat_ucast_up mod_add_left_eq)
  then show ?thesis using unat_less [of a] by (simp add: word_eq_iff_unat)
qed

text \<open>A block without an effect beyond its chain.\<close>

lemma undo_plain:
  assumes inv: "ledger_inv E L" and step: "append_step E L b (successor_view E info p b L)"
    and ok: "successor_ok E L info p b" and "sane E b" and "Opcode b \<in> {CHANGE, CREDIT, DESTROY}"
  shows "\<exists>L''. rollback_step E (successor_view E info p b L) b L'' \<and>
    undone E L b (successor_view E info p b L) L''"
proof -
  let ?L' = "successor_view E info p b L"
  have ext: "extends E L p b ?L'" by (rule successor_extends [OF ok]) (simp add: same_chain_def)
  let ?v = "undo_visitor E ?L' b (Some p)"
  have "rollback_ok E ?L' b ?v" by (rule undo_visitor_successor [OF inv ext assms(4) refl])
  then have "rollback_step E ?L' b (remove_view E ?v b ?L')" by (rule rollback_step.plain [OF assms(5)])
  moreover have "undone E L b ?L' (remove_view E ?v b ?L')"
    by (rule undoneI) (use undo_extends [OF inv step ext] undo_rewardables [OF inv ext] in
        \<open>simp_all add: same_chain_def\<close>)
  ultimately show ?thesis by blast
qed

lemma undo_send:
  assumes inv: "ledger_inv E L" and step: "append_step E L b L'"
    and L': "L' = L1\<lparr>v_receivables := (v_receivables L1)((Link b, Hash E b) \<mapsto> ri)\<rparr>"
    and L1: "L1 = successor_view E info p b L"
    and ok: "successor_ok E L info p b" and "sane E b" and "Opcode b = SEND"
  shows "\<exists>L''. rollback_step E L' b L'' \<and> undone E L b L' L''"
proof -
  have ext: "extends E L p b L'" by (rule successor_extends [OF ok]) (simp add: same_chain_def L' L1)
  let ?v = "undo_visitor E L' b (Some p)"
  let ?L2 = "L'\<lparr>v_receivables := (v_receivables L')((Link b, Hash E b) := None)\<rparr>"
  have "rollback_ok E L' b ?v"
    by (rule undo_visitor_successor [OF inv ext assms(6), of info]) (simp add: L' L1)
  then have "rollback_step E L' b (remove_view E ?v b ?L2)"
    by (rule rollback_step.send [OF assms(7)]) (simp add: L')
  moreover have "v_blocks L (Hash E b) = None" using ok by (simp add: successor_ok_def common_ok_def)
  then have "v_receivables L (Link b, Hash E b) = None" by (rule receivable_fresh [OF inv])
  then have "undone E L b L' (remove_view E ?v b ?L2)"
    by (intro undoneI; use undo_extends [OF inv step ext] undo_rewardables [OF inv ext] in
        \<open>simp add: same_chain_def L' L1 fun_upd_idem\<close>)
  ultimately show ?thesis by blast
qed

lemma undo_receive:
  assumes inv: "ledger_inv E L" and step: "append_step E L b L'"
    and L': "L' = L1\<lparr>v_receivables := (v_receivables L1)((Account b, Link b) := None)\<rparr>"
    and ri: "v_receivables L (Account b, Link b) = Some ri" "v_receivables L1 = v_receivables L"
    and amount: "ri_amount ri = Rollback_amount E v b" and "Opcode b = RECEIVE"
    and ok: "rollback_ok E L' b v"
    and chain: "\<And>L2. same_chain L2 L' \<Longrightarrow> same_chain (remove_view E v b L2) L"
    and rewards: "\<And>L2. v_rewardables L2 = v_rewardables L' \<Longrightarrow>
      v_rewardables (remove_view E v b L2) = v_rewardables L"
    and others: "v_bindings L1 = v_bindings L" "v_binding_count L1 = v_binding_count L"
      "v_forks L1 = v_forks L" "v_rollbacks L1 = v_rollbacks L"
  shows "\<exists>L''. rollback_step E L' b L'' \<and> undone E L b L' L''"
proof -
  obtain source s where source: "v_blocks L' (Link b) = Some (source, s)"
    "ri_source ri = Account source" "ri_timestamp ri = Timestamp source"
    by (rule receivable_again [OF inv step ri(1)])
  let ?ri = "\<lparr>ri_source = Account source, ri_amount = Rollback_amount E v b, ri_timestamp = Timestamp source\<rparr>"
  let ?L2 = "L'\<lparr>v_receivables := (v_receivables L')((Account b, Link b) \<mapsto> ?ri)\<rparr>"
  have "?ri = ri" using source(2,3) amount by (intro receivable_info.equality) simp_all
  then have put: "v_receivables ?L2 = v_receivables L" using ri by (simp add: L' fun_upd_idem)
  have "rollback_step E L' b (remove_view E v b ?L2)"
    by (rule rollback_step.receive [OF assms(7) ok source(1)])
  moreover have "undone E L b L' (remove_view E v b ?L2)"
    by (rule undoneI) (use chain [of ?L2] rewards [of ?L2] put others in \<open>simp_all add: same_chain_def L'\<close>)
  ultimately show ?thesis by blast
qed

lemma undo_reward:
  assumes inv: "ledger_inv E L" and step: "append_step E L b L'"
    and L': "L' = L1\<lparr>v_rewardables := (v_rewardables L1)((Account b, Link b) := None)\<rparr>"
    and wi: "v_rewardables L (Account b, Link b) = Some wi" "v_rewardables L1 = v_rewardables L"
    and amount: "wi_amount wi = Rollback_amount E v b" and "Opcode b = REWARD"
    and ok: "rollback_ok E L' b v" and keep: "\<not> rv_delete_rewardable v"
    and chain: "\<And>L2. same_chain L2 L' \<Longrightarrow> same_chain (remove_view E v b L2) L"
    and others: "v_receivables L1 = v_receivables L" "v_bindings L1 = v_bindings L"
      "v_binding_count L1 = v_binding_count L" "v_forks L1 = v_forks L" "v_rollbacks L1 = v_rollbacks L"
  shows "\<exists>L''. rollback_step E L' b L'' \<and> undone E L b L' L''"
proof -
  obtain source s successor s' where source: "v_blocks L' (Link b) = Some (source, s)"
    "v_blocks L' s = Some (successor, s')" "wi_source wi = Account source"
    "wi_valid_timestamp wi = RewardTimestamp (RAI_NETWORK E) (Timestamp source) (Timestamp successor)"
    by (rule rewardable_again [OF inv step wi(1)])
  let ?wi = "\<lparr>wi_source = Account source, wi_amount = Rollback_amount E v b, wi_valid_timestamp =
    RewardTimestamp (RAI_NETWORK E) (Timestamp source) (Timestamp successor)\<rparr>"
  let ?L2 = "L'\<lparr>v_rewardables := (v_rewardables L')((Account b, Link b) \<mapsto> ?wi)\<rparr>"
  have "?wi = wi" using source(3,4) amount by (intro rewardable_info.equality) simp_all
  then have put: "v_rewardables ?L2 = v_rewardables L" using wi by (simp add: L' fun_upd_idem)
  have same: "v_rewardables (remove_view E v b ?L2) = v_rewardables ?L2"
    using keep by (simp add: remove_view_def split: option.splits)
  have "rollback_step E L' b (remove_view E v b ?L2)"
    by (rule rollback_step.reward [OF assms(7) ok source(1,2)])
  moreover have "undone E L b L' (remove_view E v b ?L2)"
    by (rule undoneI) (use chain [of ?L2] same [unfolded put] others in \<open>simp_all add: same_chain_def L'\<close>)
  ultimately show ?thesis by blast
qed

lemma undo_bind:
  assumes inv: "ledger_inv E L" and step: "append_step E L b L'"
    and L': "L' = successor_view E info p b (bind_view b L)"
    and ok: "successor_ok E L info p b" and "sane E b" and "Opcode b = BIND"
    and limit: "v_binding_count L (Account b) = None \<or> binding_total L (Account b) < n"
  shows "\<exists>L''. rollback_step E L' b L'' \<and> undone E L b L' L''"
proof -
  let ?n = "binding_total L (Account b)" and ?v = "undo_visitor E L' b (Some p)"
  have ext: "extends E L p b L'" by (rule successor_extends [OF ok]) (simp add: same_chain_def L')
  have ok': "rollback_ok E L' b ?v"
    by (rule undo_visitor_successor [OF inv ext assms(5), of info]) (simp add: L' split: option.splits)
  have nz: "?n + 1 \<noteq> 0"
    using limit by (auto simp: binding_total_def) (metis max_word_wrap word_order.extremum_strict)
  have count: "v_binding_count L' = (v_binding_count L)(Account b \<mapsto> ?n + 1)"
    "v_bindings L' = (v_bindings L)(binding_of b \<mapsto> Link b)"
    by (simp_all add: L' bind_view_def)
  have "v_binding_count L (Account b) = (if ?n = 0 then None else Some ?n)"
    using inv unfolding ledger_inv_def bindings_inv_def binding_total_def
    by (auto split: option.splits)
  then have b1: "v_binding_count (unbind_view b L') = v_binding_count L"
    using count(1) by (auto simp: unbind_view_def binding_total_def fun_upd_idem)
  have b2: "v_bindings (unbind_view b L') = v_bindings L"
    using count(2) no_binding_at_next [OF inv step] by (simp add: unbind_view_def fun_upd_idem)
  have step': "rollback_step E L' b (remove_view E ?v b (unbind_view b L'))"
    using count nz by (intro rollback_step.bind [OF assms(6) ok']) simp_all
  have "same_chain (remove_view E ?v b (unbind_view b L')) L"
    by (rule undo_extends [OF inv step ext]) (simp add: same_chain_def)
  moreover have "v_rewardables (remove_view E ?v b (unbind_view b L')) = v_rewardables L"
    by (rule undo_rewardables [OF inv ext]) (simp add: L' split: option.splits)
  moreover have "v_forks L' = v_forks L" "v_rollbacks L' = v_rollbacks L" "v_receivables L' = v_receivables L"
    by (simp_all add: L' bind_view_def)
  ultimately have "undone E L b L' (remove_view E ?v b (unbind_view b L'))"
    using b1 b2 by (intro undoneI) simp_all
  with step' show ?thesis by blast
qed

lemma rollback_undoes_append:
  assumes inv: "ledger_inv E L" and step: "append_step E L b L'" and sane: "sane E b" and ok: "block_wf b"
  shows "\<exists>L''. rollback_step E L' b L'' \<and> undone E L b L' L''"
  using step
proof cases
  case (send info p L1)
  show ?thesis by (rule undo_send [OF inv step send(1,8,3) sane send(2)])
next
  case (receive info p ri L1)
  have ext: "extends E L p b L'"
    by (rule successor_extends [OF receive(3)]) (simp add: same_chain_def receive(1,11))
  have "Height b \<noteq> 0" using receive(3) by (auto simp: successor_ok_def)
  with receive(10) have "ri_amount ri = Rollback_amount E (undo_visitor E L' b (Some p)) b"
    by (simp add: Rollback_amount_def undo_visitor_def)
  moreover have "rollback_ok E L' b (undo_visitor E L' b (Some p))"
    by (rule undo_visitor_successor [OF inv ext sane, of info]) (simp add: receive(1,11))
  ultimately show ?thesis
    by (intro undo_receive [OF inv step receive(1,8) _ _ receive(2)])
      (use undo_extends [OF inv step ext] undo_rewardables [OF inv ext] in \<open>simp_all add: receive(1,11)\<close>)
next
  case (receive_first ri L1)
  have op: "opens E L b L'"
    by (rule first_opens [OF receive_first(3)]) (simp add: same_chain_def receive_first(1,7))
  have "Height b = 0" using receive_first(3) by (simp add: first_ok_def)
  with first_amount_word [OF receive_first(6) [unfolded price_of_def]]
  have "ri_amount ri = Rollback_amount E (undo_visitor E L' b None) b" by (simp add: Rollback_amount_def)
  then show ?thesis
    by (intro undo_receive [OF inv step receive_first(1,5) _ _ receive_first(2) undo_visitor_opens [OF op sane]])
      (use undo_opens [OF inv step op] in \<open>simp_all add: receive_first(1,7) remove_view_def undo_visitor_def\<close>)
next
  case (change info p)
  then show ?thesis using undo_plain [OF inv _ change(3) sane] step by simp
next
  case (credit info p)
  then show ?thesis using undo_plain [OF inv _ credit(3) sane] step by simp
next
  case (reward info p wi L1)
  have ext: "extends E L p b L'"
    by (rule successor_extends [OF reward(3)]) (simp add: same_chain_def reward(1,11))
  have rep: "\<not> HasRepresentative b" using ok reward(2) by (cases b) (auto simp: TxBlock_CheckOpcode_def AdBlock_CheckOpcode_def)
  have "Height b \<noteq> 0" using reward(3) by (auto simp: successor_ok_def)
  with reward(10) have "wi_amount wi = Rollback_amount E (undo_visitor E L' b (Some p)) b"
    by (simp add: Rollback_amount_def undo_visitor_def)
  moreover have "rollback_ok E L' b (undo_visitor E L' b (Some p))"
    by (rule undo_visitor_extends [OF inv ext sane]) (simp add: rep)
  moreover have "\<not> rv_delete_rewardable (undo_visitor E L' b (Some p))" using rep by (simp add: undo_visitor_def)
  ultimately show ?thesis
    by (intro undo_reward [OF inv step reward(1,7) _ _ reward(2)])
      (use undo_extends [OF inv step ext] in \<open>simp_all add: reward(1,11)\<close>)
next
  case (reward_first wi L1)
  have op: "opens E L b L'"
    by (rule first_opens [OF reward_first(3)]) (simp add: same_chain_def reward_first(1,8))
  have "Height b = 0" using reward_first(3) by (simp add: first_ok_def)
  with first_amount_word [OF reward_first(7) [unfolded price_of_def]]
  have "wi_amount wi = Rollback_amount E (undo_visitor E L' b None) b" by (simp add: Rollback_amount_def)
  then show ?thesis
    by (intro undo_reward [OF inv step reward_first(1,5) _ _ reward_first(2) undo_visitor_opens [OF op sane]])
      (use undo_opens [OF inv step op] in \<open>simp_all add: reward_first(1,8) undo_visitor_def\<close>)
next
  case (destroy info p)
  then show ?thesis using undo_plain [OF inv _ destroy(3) sane] step by simp
next
  case (bind info p)
  show ?thesis by (rule undo_bind [OF inv step bind(1,3) sane bind(2,9)])
qed

section \<open>The outcome of a rollback\<close>

lemma rollback_step_visitor:
  assumes "rollback_step E L b L'"
  obtains v where "rollback_ok E L b v"
  using assms by cases blast+

lemma rollback_ok_stored:
  assumes "ledger_inv E L" "rollback_ok E L b v"
  shows "indexed L b" "Height b \<noteq> 0 \<Longrightarrow> Previous b \<noteq> Hash E b"
proof -
  have i: "index_inv L" "links_inv L" using assms(1) by (simp_all add: ledger_inv_def)
  obtain s where b: "v_blocks L (Hash E b) = Some (b, s)"
    and acc: "v_accounts L (Account b) = Some (rv_account_info v)"
    and tail: "ai_tail_height (rv_account_info v) \<le> Height b"
      "ai_tail_height (rv_account_info v) = Height b \<longrightarrow> Height b = 0"
    using assms(2) unfolding rollback_ok_def by blast
  from index_inv_put [OF i(1) b] show "indexed L b" by (simp add: indexed_def)
  assume "Height b \<noteq> 0"
  with tail have "ai_tail_height (rv_account_info v) < Height b" by (auto simp: le_less)
  with i(2) b acc have "linked L (Hash E b) b" unfolding links_inv_def by blast
  then show "Previous b \<noteq> Hash E b" using b unfolding linked_def by auto
qed

lemma RollbackBlock_outcome:
  assumes "rollback_step E L b L'" "writable M txn" "ledger_rel M txn L" "block_wf b" "ledger_inv E L"
  shows "\<exists>t. RollbackBlock M E txn b = (SUCCESS, t) \<and> writable M t \<and> ledger_rel M t L'"
proof -
  obtain v where "rollback_ok E L b v" by (rule rollback_step_visitor [OF assms(1)])
  from RollbackBlock_complete [OF assms(1-4) rollback_ok_stored [OF assms(5) this]] show ?thesis .
qed

text \<open>The same for the code: after a successful append, the rollback of that block succeeds.\<close>

lemma RollbackBlock_after_AppendBlock:
  assumes "append_step E L b L'" "writable M txn" "ledger_rel M txn L" "block_wf b" "ledger_inv E L" "sane E b"
  shows "\<exists>txn' txn'' L''. AppendBlock M E txn b = (SUCCESS, txn') \<and>
    RollbackBlock M E txn' b = (SUCCESS, txn'') \<and> ledger_rel M txn'' L'' \<and> undone E L b L' L''"
proof -
  obtain txn' where t: "AppendBlock M E txn b = (SUCCESS, txn')" "writable M txn'" "ledger_rel M txn' L'"
    using AppendBlock_outcome [OF assms(1-4)] by blast
  obtain L'' where undo: "rollback_step E L' b L''" "undone E L b L' L''"
    using rollback_undoes_append [OF assms(5,1,6,4)] by blast
  note inv = append_step_inv [OF assms(5,1,6)]
  from RollbackBlock_outcome [OF undo(1) t(2,3) assms(4) inv] t(1) undo(2) show ?thesis by blast
qed

end
