(* ===== verification/Reachable.thy ===== *)
theory Reachable
  imports Weights Reversal
begin

text \<open>
  Whole histories of a ledger. \<open>ledger_run E g L burnt made\<close> holds of every ledger that the genesis
  block \<open>g\<close> leads to by appending well-formed blocks, confirming blocks and committing the weight
  operations of a transaction, at any sequence of clock readings; \<open>burnt\<close> and \<open>made\<close>
  account for what the blocks took out of circulation and brought in. By induction every
  such ledger satisfies the invariant, its money is accounted for, and its representative weights are
  the sums of the delegated balances.
\<close>

section \<open>The clock does not matter to the stored data\<close>

definition at_time :: "env \<Rightarrow> u64 \<Rightarrow> env" where
  "at_time E t = E\<lparr>CurrentTimestamp := t\<rparr>"

lemma at_time_fields [simp]:
  "RAI_NETWORK (at_time E t) = RAI_NETWORK E" "Hash (at_time E t) b = Hash E b"
  "sane (at_time E t) b = sane E b" "burned (at_time E t) L b = burned E L b"
  by (simp_all add: at_time_def Hash_def sane_def burned_def split: option.splits)

lemma at_time_inv [simp]: "ledger_inv (at_time E t) L = ledger_inv E L"
  by (simp add: ledger_inv_def blocks_inv_def rewardables_inv_def)

section \<open>Commits and confirmations\<close>

definition commit_view :: "ledger_view \<Rightarrow> ledger_view" where
  "commit_view L = L\<lparr>v_memory := committed L, v_operations := []\<rparr>"

definition confirm_view :: "account_info \<Rightarrow> block \<Rightarrow> ledger_view \<Rightarrow> ledger_view" where
  "confirm_view info b L = L\<lparr>v_accounts := (v_accounts L)(Account b \<mapsto> confirmed_info info b)\<rparr>"

lemma confirmed_info_fields [simp]:
  "ai_head (confirmed_info info b) = ai_head info" "ai_tail (confirmed_info info b) = ai_tail info"
  "ai_head_height (confirmed_info info b) = ai_head_height info"
  "ai_tail_height (confirmed_info info b) = ai_tail_height info"
  "ai_type (confirmed_info info b) = ai_type info"
  "AccountInfo_Valid (confirmed_info info b) = AccountInfo_Valid info"
  by (simp_all add: confirmed_info_def AccountInfo_Valid_def)

lemma commit_view_fields [simp]:
  "v_accounts (commit_view L) = v_accounts L" "v_blocks (commit_view L) = v_blocks L"
  "v_receivables (commit_view L) = v_receivables L" "v_operations (commit_view L) = []"
  "v_memory (commit_view L) = committed L"
  by (simp_all add: commit_view_def)

lemma commit_view_inv: "ledger_inv E (commit_view L) = ledger_inv E L"
  by (simp add: inv_defs linked_def commit_view_def binding_total_def bind_blocks_def)

lemma confirm_view_inv:
  assumes inv: "ledger_inv E L" and b: "v_blocks L h = Some (b, s)" and info: "v_accounts L (Account b) = Some info"
  shows "ledger_inv E (confirm_view info b L)"
proof -
  have i: "heads_inv L" "valid_inv L" "range_inv L" "links_inv L" using inv by (simp_all add: ledger_inv_def)
  obtain j where "v_accounts L (Account b) = Some j" "AccountInfo_Valid j" "Height b \<le> ai_head_height j"
    using i(3) b unfolding range_inv_def by blast
  with info have v: "AccountInfo_Valid info" "Height b \<le> ai_head_height info" by simp_all
  with i(1) info have "info_inv L (Account b) info" by (simp add: heads_inv_def)
  with v have "info_inv L (Account b) (confirmed_info info b)"
    unfolding info_inv_def by (auto simp: confirmed_info_def)
  with i(1) have "heads_inv (confirm_view info b L)"
    unfolding heads_inv_def by (simp add: confirm_view_def info_inv_def)
  moreover have "valid_inv (confirm_view info b L)"
    using i(2) v(1) by (simp add: valid_inv_def confirm_view_def)
  moreover have "range_inv (confirm_view info b L)"
    using i(3) info unfolding range_inv_def by (auto simp: confirm_view_def) (metis option.inject)+
  moreover have "links_inv (confirm_view info b L)"
    using i(4) info unfolding links_inv_def linked_def by (auto simp: confirm_view_def) metis
  ultimately show ?thesis
    using inv unfolding ledger_inv_def
    by (simp add: blocks_inv_def unique_inv_def index_inv_def receivables_inv_def rewardables_inv_def
        bindings_inv_def bind_blocks_def binding_total_def confirm_view_def)
qed

lemma head_of_commit: "head_of (commit_view L) = head_of L"
  by (simp add: fun_eq_iff head_of_def split: option.splits)

lemma head_of_confirm:
  assumes "v_accounts L (Account b) = Some info"
  shows "head_of (confirm_view info b L) = head_of L"
  using assms by (auto simp: fun_eq_iff head_of_def confirm_view_def split: option.splits)

section \<open>Runs\<close>

inductive ledger_run :: "env \<Rightarrow> block \<Rightarrow> ledger_view \<Rightarrow> nat \<Rightarrow> nat \<Rightarrow> bool" for E g where
  genesis: "rep_weights m = (\<lambda>_. None) \<Longrightarrow> total_rep_weight m = 0 \<Longrightarrow>
     ledger_run E g (genesis_view E g m) 0 0"
| append: "ledger_run E g L burnt made \<Longrightarrow> append_step (at_time E t) L b L' \<Longrightarrow> sane E b \<Longrightarrow> block_wf b \<Longrightarrow>
     ledger_run E g L' (burnt + burned E L b) (made + minted L b)"
| confirm: "ledger_run E g L burnt made \<Longrightarrow> v_blocks L (Hash E b) = Some (b, s) \<Longrightarrow>
     v_accounts L (Account b) = Some info \<Longrightarrow> ledger_run E g (confirm_view info b L) burnt made"
| commit: "ledger_run E g L burnt made \<Longrightarrow> ledger_run E g (commit_view L) burnt made"

text \<open>What the node knows of its genesis block.\<close>

definition genesis_ok :: "env \<Rightarrow> block \<Rightarrow> bool" where
  "genesis_ok E g \<longleftrightarrow> sane E g \<and> Height g = 0 \<and> Opcode g = RECEIVE \<and> HasRepresentative g"

lemma ledger_run_inv:
  assumes "ledger_run E g L burnt made" "genesis_ok E g"
  shows "ledger_inv E L"
  using assms
proof induction
  case (genesis m)
  then show ?case by (intro genesis_inv) (simp_all add: genesis_ok_def)
next
  case (append L burnt made t b L')
  then show ?case using append_step_inv [of "at_time E t" L b L'] by simp
next
  case (confirm L burnt made b s info)
  then show ?case using confirm_view_inv by blast
next
  case (commit L burnt made)
  then show ?case by (simp add: commit_view_inv)
qed

lemma head_of_genesis:
  assumes "genesis_ok E g"
  shows "head_of (genesis_view E g m) = (\<lambda>_. None)(Account g \<mapsto> g)"
  using assms AccountInfo_Valid_new [of E g "Type g"]
  by (auto simp: fun_eq_iff head_of_def genesis_view_def empty_view_def genesis_ok_def AccountInfo_new_def)

lemma sum_single: "(\<Sum>a\<in>UNIV. f (((\<lambda>_. None)(c \<mapsto> x)) a)) = (f (Some x) :: nat)" if "f None = 0" for c :: "'a::finite"
  using sum_fun_upd [of f "\<lambda>_. None" c "Some x"] that by simp

lemma ledger_run_money:
  assumes "ledger_run E g L burnt made" "genesis_ok E g"
  shows "money L + burnt = unat (Balance g) + made"
  using assms
proof induction
  case (genesis m)
  have "balances (genesis_view E g m) = unat (Balance g)"
    using sum_single [of balance_of "Account g" g]
    by (simp add: balances_def head_of_genesis [OF genesis(3)] balance_of_def)
  then show ?case
    by (simp add: money_def pending_def amount_of_def genesis_view_def empty_view_def first_view_def)
next
  case (append L burnt made t b L')
  from append_step_money [of "at_time E t" L b L'] ledger_run_inv [OF append(1,6)] append
  have "money L' + burned E L b = money L + minted L b" by simp
  with append.IH [OF append.prems] show ?case by simp
next
  case (confirm L burnt made b s info)
  then show ?case
    by (simp add: money_def balances_def head_of_confirm) (simp add: pending_def confirm_view_def)
next
  case (commit L burnt made)
  then show ?case by (simp add: money_def balances_def head_of_commit pending_def)
qed

lemma ledger_run_weights:
  assumes "ledger_run E g L burnt made" "genesis_ok E g" "unat (Balance g) + made < 2 ^ 128"
  shows "weights_agree (committed L) L"
  using assms
proof induction
  case (genesis m)
  have h: "head_of (genesis_view E g m) = (\<lambda>_. None)(Account g \<mapsto> g)" by (rule head_of_genesis [OF genesis(3)])
  have rep: "HasRepresentative g" using genesis(3) by (simp add: genesis_ok_def)
  have w: "weight (genesis_view E g m) r = delegated r (Some g)"
    "total_weight (genesis_view E g m) = unat (Balance g)" for r
    using sum_single [of "delegated r" "Account g" g] sum_single [of voting "Account g" g] rep
    by (simp_all add: weight_def total_weight_def h delegated_def voting_def)
  have "committed (genesis_view E g m) =
      RepWeightsCommit_step m (add_op (Representative g) (Balance g))"
    by (simp add: committed_def genesis_view_def empty_view_def first_view_def RepWeightsCommit_def add_op_def)
  moreover have "recorded m r = 0" for r using genesis(1) by (simp add: recorded_def RepWeightGet_def)
  ultimately show ?case
    using weights_agree_add [of m g "genesis_view E g m"] w genesis(2) rep unat_less [of "Balance g"]
    by (auto simp: delegated_def)
next
  case (append L burnt made t b L')
  from append_step_money [of "at_time E t" L b L'] ledger_run_inv [OF append(1,6)] append
    ledger_run_money [OF ledger_run.append [OF append(1-4)] append(6)]
  have "money L' < 2 ^ 128" by simp
  moreover have "weights_agree (committed L) L" using append by simp
  ultimately show ?case
    using append_step_committed [of "at_time E t" L b L'] ledger_run_inv [OF append(1,6)] append(2-4) by simp
next
  case (confirm L burnt made b s info)
  then have "weights_agree (committed L) L" by simp
  then show ?case
    using confirm(3) by (simp add: weights_agree_def weight_def total_weight_def head_of_confirm)
      (simp add: confirm_view_def committed_def)
next
  case (commit L burnt made)
  then have "weights_agree (committed L) L" by simp
  then show ?case
    by (simp add: weights_agree_def weight_def total_weight_def head_of_commit)
      (simp add: committed_def RepWeightsCommit_def)
qed

end
