(* ===== verification/History.thy ===== *)
theory History
  imports Reachable
begin

text \<open>
  The invariant under rollback. A rollback restores entries that an earlier receive or reward block
  consumed, so the invariant has to remember what was consumed: every stored receive block has its
  send block stored and its receivable gone, every stored reward block its source, successor and a
  missing rewardable, and no entry was consumed twice. With that history every rollback
  keeps the invariant, whatever happened on other accounts in between.
\<close>

section \<open>What has been consumed\<close>

definition received_inv :: "block \<Rightarrow> ledger_view \<Rightarrow> bool" where
  "received_inv g L \<longleftrightarrow> (\<forall>h b s. v_blocks L h = Some (b, s) \<longrightarrow> Opcode b = RECEIVE \<longrightarrow> b \<noteq> g \<longrightarrow>
     (\<exists>c t. v_blocks L (Link b) = Some (c, t) \<and> Opcode c = SEND \<and> Link c = Account b) \<and>
     v_receivables L (Account b, Link b) = None)"

definition rewarded_inv :: "env \<Rightarrow> ledger_view \<Rightarrow> bool" where
  "rewarded_inv E L \<longleftrightarrow> (\<forall>h b s. v_blocks L h = Some (b, s) \<longrightarrow> Opcode b = REWARD \<longrightarrow>
     (\<exists>d r c t. v_blocks L (Link b) = Some (d, r) \<and> r \<noteq> 0 \<and> v_blocks L r = Some (c, t) \<and>
        HasRepresentative d \<and> Representative d = Account b \<and>
        RewardAmount (RAI_NETWORK E) (Balance d) (Timestamp d) (Timestamp c) \<noteq> 0) \<and>
     v_rewardables L (Account b, Link b) = None)"

definition once_inv :: "block \<Rightarrow> ledger_view \<Rightarrow> bool" where
  "once_inv g L \<longleftrightarrow> (\<forall>h b s h' b' s'. v_blocks L h = Some (b, s) \<longrightarrow> v_blocks L h' = Some (b', s') \<longrightarrow>
     Opcode b \<in> {RECEIVE, REWARD} \<longrightarrow> Opcode b' = Opcode b \<longrightarrow> b \<noteq> g \<longrightarrow> b' \<noteq> g \<longrightarrow>
     Account b' = Account b \<longrightarrow> Link b' = Link b \<longrightarrow> h' = h)"

definition successors_inv :: "ledger_view \<Rightarrow> bool" where
  "successors_inv L \<longleftrightarrow> (\<forall>h b s. v_blocks L h = Some (b, s) \<longrightarrow> s \<noteq> 0 \<longrightarrow>
     (\<exists>c t. v_blocks L s = Some (c, t) \<and> Previous c = h \<and> Height c \<noteq> 0))"

definition aligned :: "ledger_view \<Rightarrow> bool" where
  "aligned L \<longleftrightarrow> (\<forall>a n. v_index L (a, n) \<noteq> None \<longrightarrow> n mod BLOCKS_PER_INDEX = 0)"

definition stored_inv :: "block \<Rightarrow> ledger_view \<Rightarrow> bool" where
  "stored_inv g L \<longleftrightarrow> (\<forall>h b s. v_blocks L h = Some (b, s) \<longrightarrow> block_wf b) \<and> v_blocks L (Link g) = None \<and>
     (\<forall>a info. v_accounts L a = Some info \<longrightarrow> ai_tail_height info = 0)"

definition history_inv :: "env \<Rightarrow> block \<Rightarrow> ledger_view \<Rightarrow> bool" where
  "history_inv E g L \<longleftrightarrow> ledger_inv E L \<and> received_inv g L \<and> rewarded_inv E L \<and> once_inv g L \<and>
     successors_inv L \<and> stored_inv g L \<and> aligned L"

lemma history_parts:
  assumes "history_inv E g L"
  shows "ledger_inv E L" "received_inv g L" "rewarded_inv E L" "once_inv g L" "successors_inv L" "stored_inv g L"
    "blocks_inv E L" "heads_inv L" "valid_inv L" "range_inv L" "unique_inv L" "links_inv L" "index_inv L"
    "receivables_inv L" "rewardables_inv E L" "bindings_inv L" "aligned L"
  using assms by (simp_all add: history_inv_def ledger_inv_def)

lemma receivedD:
  assumes "received_inv g L" "v_blocks L h = Some (b, s)" "Opcode b = RECEIVE" "b \<noteq> g"
  obtains c t where "v_blocks L (Link b) = Some (c, t)" "Opcode c = SEND" "Link c = Account b"
    "v_receivables L (Account b, Link b) = None"
  using assms unfolding received_inv_def by blast

lemma rewardedD:
  assumes "rewarded_inv E L" "v_blocks L h = Some (b, s)" "Opcode b = REWARD"
  obtains d r c t where "v_blocks L (Link b) = Some (d, r)" "r \<noteq> 0" "v_blocks L r = Some (c, t)"
    "HasRepresentative d" "Representative d = Account b"
    "RewardAmount (RAI_NETWORK E) (Balance d) (Timestamp d) (Timestamp c) \<noteq> 0"
    "v_rewardables L (Account b, Link b) = None"
  using assms unfolding rewarded_inv_def by blast

section \<open>Appending keeps the history\<close>

text \<open>What a receive or reward block consumes was there, and is gone afterwards.\<close>

lemma append_step_consumes:
  assumes "append_step E L b L'"
  shows "Opcode b = RECEIVE \<Longrightarrow> v_receivables L (Account b, Link b) \<noteq> None \<and> v_receivables L' (Account b, Link b) = None"
    and "Opcode b = REWARD \<Longrightarrow> v_rewardables L (Account b, Link b) \<noteq> None \<and> v_rewardables L' (Account b, Link b) = None"
  using assms by (cases; simp)+

lemma append_received_inv:
  assumes inv: "history_inv E g L" and step: "append_step E L b L'" and "sane E b"
  shows "received_inv g L'"
  unfolding received_inv_def
proof (intro allI impI)
  note i = history_parts [OF inv] and grow = append_step_blocks(1) [OF history_parts(1) [OF inv] step]
  fix h c s
  assume c: "v_blocks L' h = Some (c, s)" "Opcode c = RECEIVE" "c \<noteq> g"
  from append_step_block_cases [OF i(1) step c(1)]
  show "(\<exists>e t. v_blocks L' (Link c) = Some (e, t) \<and> Opcode e = SEND \<and> Link e = Account c) \<and>
    v_receivables L' (Account c, Link c) = None"
  proof (elim disjE conjE exE)
    assume "c = b"
    then obtain ri where ri: "v_receivables L (Account c, Link c) = Some ri" "v_receivables L' (Account c, Link c) = None"
      using append_step_consumes(1) [OF step] c(2) by auto
    obtain e t where "v_blocks L (Link c) = Some (e, t)" "Opcode e = SEND" "Link e = Account c"
      using i(14) ri(1) unfolding receivables_inv_def by blast
    with ri(2) grow show ?thesis by (metis blocks_growD)
  next
    fix s0
    assume "v_blocks L h = Some (c, s0)"
    from i(2) this c(2,3) obtain e t where e: "v_blocks L (Link c) = Some (e, t)" "Opcode e = SEND" "Link e = Account c"
      "v_receivables L (Account c, Link c) = None"
      by (rule receivedD)
    have "Link c \<noteq> Hash E b" using e(1) append_step_fresh [OF i(1) step] by auto
    then have "v_receivables L' (Account c, Link c) = None"
      using append_step_receivables [OF step, of "(Account c, Link c)"] e(4) by fastforce
    with e(1-3) grow show ?thesis by (metis blocks_growD)
  qed
qed

lemma append_rewarded_inv:
  assumes inv: "history_inv E g L" and step: "append_step E L b L'" and "sane E b"
  shows "rewarded_inv E L'"
  unfolding rewarded_inv_def
proof (intro allI impI)
  note i = history_parts [OF inv] and grow = append_step_blocks(1) [OF history_parts(1) [OF inv] step]
  have keep: "\<exists>d r c t. v_blocks L' h = Some (d, r) \<and> r \<noteq> 0 \<and> v_blocks L' r = Some (c, t) \<and>
        HasRepresentative d \<and> Representative d = a \<and>
        RewardAmount (RAI_NETWORK E) (Balance d) (Timestamp d) (Timestamp c) \<noteq> 0"
    if d: "v_blocks L h = Some (d, r)" "r \<noteq> 0" "v_blocks L r = Some (c, t)" "HasRepresentative d" "Representative d = a"
      "RewardAmount (RAI_NETWORK E) (Balance d) (Timestamp d) (Timestamp c) \<noteq> 0" for h d r c t a
  proof -
    have "v_blocks L' h = Some (d, r)" using blocks_growD [OF grow d(1)] d(2) by metis
    moreover obtain t' where "v_blocks L' r = Some (c, t')" by (rule blocks_growD [OF grow d(3)])
    ultimately show ?thesis using d(2,4-6) by blast
  qed
  fix h c s
  assume c: "v_blocks L' h = Some (c, s)" "Opcode c = REWARD"
  from append_step_block_cases [OF i(1) step c(1)]
  show "(\<exists>d r e t. v_blocks L' (Link c) = Some (d, r) \<and> r \<noteq> 0 \<and> v_blocks L' r = Some (e, t) \<and>
        HasRepresentative d \<and> Representative d = Account c \<and>
        RewardAmount (RAI_NETWORK E) (Balance d) (Timestamp d) (Timestamp e) \<noteq> 0) \<and>
     v_rewardables L' (Account c, Link c) = None"
  proof (elim disjE conjE exE)
    assume "c = b"
    then obtain wi where wi: "v_rewardables L (Account c, Link c) = Some wi" "v_rewardables L' (Account c, Link c) = None"
      using append_step_consumes(2) [OF step] c(2) by auto
    then obtain d r e t where "v_blocks L (Link c) = Some (d, r)" "r \<noteq> 0" "v_blocks L r = Some (e, t)"
      "HasRepresentative d" "Representative d = Account c"
      "RewardAmount (RAI_NETWORK E) (Balance d) (Timestamp d) (Timestamp e) \<noteq> 0"
      using i(15) unfolding rewardables_inv_def by blast
    from keep [OF this] wi(2) show ?thesis by blast
  next
    fix s0
    assume "v_blocks L h = Some (c, s0)"
    from i(3) this c(2) obtain d r e t where d: "v_blocks L (Link c) = Some (d, r)" "r \<noteq> 0" "v_blocks L r = Some (e, t)"
      "HasRepresentative d" "Representative d = Account c"
      "RewardAmount (RAI_NETWORK E) (Balance d) (Timestamp d) (Timestamp e) \<noteq> 0"
      "v_rewardables L (Account c, Link c) = None"
      by (rule rewardedD)
    have "v_rewardables L' (Account c, Link c) = None"
    proof (rule ccontr)
      assume "v_rewardables L' (Account c, Link c) \<noteq> None"
      then obtain wi where "v_rewardables L' (Account c, Link c) = Some wi" by blast
      with append_step_rewardables [OF step this] d(7) obtain p where p: "extends E L p b L'" "Link c = Hash E p"
        by auto
      note hp = extends_head(6) [OF i(8) p(1)]
      then have "Hash E p = Previous b" using i(7) unfolding blocks_inv_def by blast
      with hp p(2) d(1,2) show False by simp
    qed
    with keep [OF d(1-6)] show ?thesis by blast
  qed
qed

lemma append_once_inv:
  assumes inv: "history_inv E g L" and step: "append_step E L b L'"
  shows "once_inv g L'"
proof -
  note i = history_parts [OF inv]
  have new: "False" if c: "v_blocks L h = Some (c, s)" "Opcode c = Opcode b" "Account c = Account b" "Link c = Link b"
    "Opcode b \<in> {RECEIVE, REWARD}" "c \<noteq> g" for h c s
  proof (cases "Opcode b = RECEIVE")
    case True
    then have "v_receivables L (Account b, Link b) \<noteq> None" using append_step_consumes(1) [OF step] by blast
    moreover have "v_receivables L (Account c, Link c) = None"
      using receivedD [OF i(2) c(1) _ c(6)] c(2) True by metis
    ultimately show False using c(3,4) by simp
  next
    case False
    with c(5) have r: "Opcode b = REWARD" by simp
    then have "v_rewardables L (Account b, Link b) \<noteq> None" using append_step_consumes(2) [OF step] by blast
    moreover have "v_rewardables L (Account c, Link c) = None"
      using rewardedD [OF i(3) c(1)] c(2) r by metis
    ultimately show False using c(3,4) by simp
  qed
  show ?thesis
    unfolding once_inv_def
  proof (intro allI impI)
    fix h c s h' c' s'
    assume c: "v_blocks L' h = Some (c, s)" "v_blocks L' h' = Some (c', s')" "Opcode c \<in> {RECEIVE, REWARD}"
      "Opcode c' = Opcode c" "c \<noteq> g" "c' \<noteq> g" "Account c' = Account c" "Link c' = Link c"
    consider "h = Hash E b" "c = b" "h' = Hash E b" | s0 where "h = Hash E b" "c = b" "v_blocks L h' = Some (c', s0)"
      | s0 where "h' = Hash E b" "c' = b" "v_blocks L h = Some (c, s0)"
      | s0 s1 where "v_blocks L h = Some (c, s0)" "v_blocks L h' = Some (c', s1)"
      using append_step_block_cases [OF i(1) step c(1)] append_step_block_cases [OF i(1) step c(2)] by blast
    then show "h' = h"
    proof cases
      case (2 s0)
      with new [OF 2(3)] c show ?thesis by simp
    next
      case (3 s0)
      with new [OF 3(3)] c show ?thesis by simp
    next
      case (4 s0 s1)
      from i(4) [unfolded once_inv_def, rule_format, OF 4 c(3-8)] show ?thesis .
    qed simp
  qed
qed

lemma append_successors_inv:
  assumes inv: "history_inv E g L" and step: "append_step E L b L'"
  shows "successors_inv L'"
  unfolding successors_inv_def
proof (intro allI impI)
  note i = history_parts [OF inv]
  have old: "\<exists>e t. v_blocks L' s = Some (e, t) \<and> Previous e = h \<and> Height e \<noteq> 0" if c: "v_blocks L h = Some (c, s)" "s \<noteq> 0" for h c s
  proof -
    obtain e t where "v_blocks L s = Some (e, t)" "Previous e = h" "Height e \<noteq> 0"
      using i(5) c unfolding successors_inv_def by blast
    with blocks_growD [OF append_step_blocks(1) [OF i(1) step]] show ?thesis by metis
  qed
  fix h c s
  assume c: "v_blocks L' h = Some (c, s)" "s \<noteq> 0"
  from append_step_shape [OF step] show "\<exists>e t. v_blocks L' s = Some (e, t) \<and> Previous e = h \<and> Height e \<noteq> 0"
  proof (elim disjE exE)
    fix p assume ext: "extends E L p b L'"
    from c(1) show ?thesis
    proof (rule extends_cases [OF i(8) ext])
      fix s0 assume "v_blocks L h = Some (c, s0)" "s = (if h = Previous b then Hash E b else s0)"
      with old c(2) append_step_blocks(2) [OF i(1) step] extends_head(5) [OF i(8) ext] show ?thesis
        by (auto split: if_splits)
    qed (use c(2) in simp)
  next
    assume "opens E L b L'"
    with c have "v_blocks L h = Some (c, s)" by (auto simp: opens_def split: if_splits)
    then show ?thesis using c(2) by (rule old)
  qed
qed

lemma append_stored_inv:
  assumes inv: "history_inv E g L" and step: "append_step E L b L'" and "block_wf b" "Hash E b \<noteq> Link g"
  shows "stored_inv g L'"
proof -
  note i = history_parts [OF inv]
  have "block_wf c" if "v_blocks L' h = Some (c, s)" for h c s
    using append_step_block_cases [OF i(1) step that] i(6) assms(3) unfolding stored_inv_def by blast
  moreover have "v_blocks L' (Link g) = None"
  proof (rule ccontr)
    assume "v_blocks L' (Link g) \<noteq> None"
    then obtain c s where "v_blocks L' (Link g) = Some (c, s)" by fastforce
    from append_step_block_cases [OF i(1) step this] i(6) assms(4) show False by (auto simp: stored_inv_def)
  qed
  moreover have "ai_tail_height info = 0" if "v_accounts L' a = Some info" for a info
    using append_step_shape [OF step] i(6) that
    by (auto simp: extends_def opens_def stored_inv_def successor_ok_def AccountInfo_new_def split: if_splits)
  ultimately show ?thesis by (simp add: stored_inv_def)
qed

lemma append_aligned:
  assumes "aligned L" "append_step E L b L'"
  shows "aligned L'"
  unfolding aligned_def
proof (intro allI impI)
  have idx: "v_index L' = index_put E b (v_index L)"
    using append_step_shape [OF assms(2)] by (auto simp: extends_def opens_def)
  fix a n
  assume "v_index L' (a, n) \<noteq> None"
  show "n mod BLOCKS_PER_INDEX = 0"
  proof (cases "v_index L (a, n)")
    case None
    with \<open>v_index L' (a, n) \<noteq> None\<close> show ?thesis
      unfolding idx index_put_def by (cases "Height b mod BLOCKS_PER_INDEX = 0") (simp_all split: if_splits)
  next
    case (Some h)
    then show ?thesis using assms(1) unfolding aligned_def by blast
  qed
qed

lemma append_history_inv:
  assumes "history_inv E g L" "append_step E L b L'" "sane E b" "block_wf b" "Hash E b \<noteq> Link g"
  shows "history_inv E g L'"
  unfolding history_inv_def
  using append_step_inv [OF history_parts(1) [OF assms(1)] assms(2,3)] append_received_inv [OF assms(1-3)]
    append_rewarded_inv [OF assms(1-3)] append_once_inv [OF assms(1,2)] append_successors_inv [OF assms(1,2)]
    append_stored_inv [OF assms(1,2,4,5)]
    append_aligned [OF history_parts(17) [OF assms(1)] assms(2)] by blast

lemma genesis_history_inv:
  assumes "genesis_ok E g" "block_wf g" "Hash E g \<noteq> Link g"
  shows "history_inv E g (genesis_view E g m)"
proof -
  have "ledger_inv E (genesis_view E g m)"
    using assms(1) by (intro genesis_inv) (simp_all add: genesis_ok_def)
  then show ?thesis
    using assms by (auto simp: history_inv_def received_inv_def rewarded_inv_def once_inv_def successors_inv_def
        stored_inv_def aligned_def index_put_def genesis_view_def empty_view_def AccountInfo_new_def genesis_ok_def split: if_splits)
qed

end
