(* ===== verification/RollbackInv.thy ===== *)
theory RollbackInv
  imports History
begin

text \<open>
  Every rollback keeps the invariant and the history of what has been consumed. The first part
  treats the chain of the account, the second the tables a rolled-back block puts entries back to.
\<close>

section \<open>Taking the head off a chain\<close>

definition retracts :: "env \<Rightarrow> ledger_view \<Rightarrow> block \<Rightarrow> rollback_visitor \<Rightarrow> ledger_view \<Rightarrow> bool" where
  "retracts E L b v L' \<longleftrightarrow> rollback_ok E L b v \<and>
     v_accounts L' = (v_accounts L)(Account b :=
       if rv_previous v = None then None else Some (rollback_info (rv_account_info v) b)) \<and>
     v_blocks L' = (case rv_previous v of
         None \<Rightarrow> (v_blocks L)(Hash E b := None)
       | Some p \<Rightarrow> (v_blocks L)(Hash E b := None, Previous b \<mapsto> (p, 0))) \<and>
     v_index L' = index_del b (v_index L)"

lemma rollback_step_shape:
  assumes "rollback_step E L b L'"
  obtains v where "retracts E L b v L'"
proof -
  have remove: "retracts E L b v (remove_view E v b L1)" if "rollback_ok E L b v" "same_chain L1 L" for v L1
    using that by (auto simp: retracts_def remove_view_def same_chain_def split: option.splits)
  from assms have "\<exists>v. retracts E L b v L'"
    by cases (hypsubst, rule exI, rule remove, assumption, simp add: same_chain_def unbind_view_def)+
  with that show thesis by blast
qed

lemma retracts_head:
  assumes "ledger_inv E L" "retracts E L b v L'"
  shows "v_blocks L (Hash E b) = Some (b, 0)" "v_accounts L (Account b) = Some (rv_account_info v)"
    "ai_head_height (rv_account_info v) = Height b" "ai_type (rv_account_info v) = Type b"
proof -
  have ok: "rollback_ok E L b v" using assms(2) by (simp add: retracts_def)
  then have a: "v_accounts L (Account b) = Some (rv_account_info v)" "AccountInfo_Valid (rv_account_info v)"
    "ai_head (rv_account_info v) = Hash E b" "ai_head_height (rv_account_info v) = Height b"
    "\<exists>s. v_blocks L (Hash E b) = Some (b, s)"
    by (simp_all add: rollback_ok_def)
  have "heads_inv L" using assms(1) by (simp add: ledger_inv_def)
  then obtain c where c: "v_blocks L (Hash E b) = Some (c, 0)" "Type c = ai_type (rv_account_info v)"
    by (rule head_of_info [OF _ a(1,2), unfolded a(3)])
  moreover have "c = b" using a(5) c(1) by auto
  ultimately have "v_blocks L (Hash E b) = Some (b, 0)" "ai_type (rv_account_info v) = Type b" by simp_all
  with a show "v_blocks L (Hash E b) = Some (b, 0)" "v_accounts L (Account b) = Some (rv_account_info v)"
    "ai_head_height (rv_account_info v) = Height b" "ai_type (rv_account_info v) = Type b" by simp_all
qed

lemma retracts_previous:
  assumes "ledger_inv E L" "retracts E L b v L'" "rv_previous v = Some p"
  shows "v_blocks L (Previous b) = Some (p, Hash E b)" "Account p = Account b" "Type p = Type b"
    "Height b = Height p + 1" "Height p < Height b" "ai_tail_height (rv_account_info v) < Height b"
    "Previous b \<noteq> Hash E b" "Hash E p = Previous b" "Previous b \<noteq> 0"
proof -
  have i: "links_inv L" "blocks_inv E L" using assms(1) by (simp_all add: ledger_inv_def)
  note h = retracts_head [OF assms(1,2)]
  have ok: "rollback_ok E L b v" using assms(2) by (simp add: retracts_def)
  with assms(3) obtain s where p: "v_blocks L (Previous b) = Some (p, s)" "Height b \<noteq> 0"
    by (auto simp: rollback_ok_def)
  show t: "ai_tail_height (rv_account_info v) < Height b"
    using ok p(2) by (auto simp: rollback_ok_def le_less)
  have "linked L (Hash E b) b" using i(1) h(1,2) t unfolding links_inv_def by blast
  with p(1) show "v_blocks L (Previous b) = Some (p, Hash E b)" "Account p = Account b" "Type p = Type b"
    "Height b = Height p + 1" "Height p < Height b" "Previous b \<noteq> Hash E b"
    using h(1) by (auto simp: linked_def)
  show "Hash E p = Previous b" "Previous b \<noteq> 0" using i(2) p(1) unfolding blocks_inv_def by blast+
qed

text \<open>Exactly the head is gone, and its predecessor has no successor any more.\<close>

lemma retracts_blocks:
  assumes inv: "history_inv E g L" and r: "retracts E L b v L'"
  shows "v_blocks L' x = Some (c, s) \<longleftrightarrow> x \<noteq> Hash E b \<and>
    (\<exists>s0. v_blocks L x = Some (c, s0) \<and> s = (if s0 = Hash E b then 0 else s0))"
proof -
  note i = history_parts [OF inv] and h = retracts_head [OF history_parts(1) [OF inv] r]
  have nz: "Hash E b \<noteq> 0" using i(7) h(1) unfolding blocks_inv_def by blast
  have succ: "Previous b = y \<and> Height b \<noteq> 0" if y: "v_blocks L y = Some (d, Hash E b)" for y d
  proof -
    obtain e t where "v_blocks L (Hash E b) = Some (e, t)" "Previous e = y" "Height e \<noteq> 0"
      using i(5) y nz unfolding successors_inv_def by blast
    with h(1) show ?thesis by simp
  qed
  show ?thesis
  proof (cases "rv_previous v")
    case None
    then have "Height b = 0" using r rollback_ok_previous(1) by (auto simp: retracts_def)
    with succ have "v_blocks L y \<noteq> Some (d, Hash E b)" for y d by blast
    moreover have "v_blocks L' = (v_blocks L)(Hash E b := None)" using None r by (simp add: retracts_def)
    ultimately show ?thesis by (cases "x = Hash E b") (simp_all, metis)
  next
    case (Some p)
    note p = retracts_previous [OF i(1) r Some]
    have "v_blocks L' = (v_blocks L)(Hash E b := None, Previous b \<mapsto> (p, 0))"
      using Some r by (simp add: retracts_def)
    moreover have "v_blocks L x \<noteq> Some (c, Hash E b)" if "x \<noteq> Previous b" using succ that by blast
    ultimately show ?thesis using p(1,7) by (cases "x = Previous b"; cases "x = Hash E b") (simp_all, metis+)
  qed
qed

lemma retracts_keeps:
  assumes "history_inv E g L" "retracts E L b v L'" "v_blocks L x = Some (c, s)" "x \<noteq> Hash E b"
  shows "v_blocks L' x = Some (c, if s = Hash E b then 0 else s)"
  using retracts_blocks [OF assms(1,2)] assms(3,4) by blast

lemma retracts_old:
  assumes "history_inv E g L" "retracts E L b v L'" "v_blocks L' x = Some (c, s)"
  obtains s0 where "v_blocks L x = Some (c, s0)" "x \<noteq> Hash E b" "s = (if s0 = Hash E b then 0 else s0)"
  using retracts_blocks [OF assms(1,2)] assms(3) by blast

lemma retracts_info:
  assumes "ledger_inv E L" "retracts E L b v L'" "v_accounts L' a = Some j"
  obtains "a \<noteq> Account b" "v_accounts L a = Some j"
  | p where "a = Account b" "rv_previous v = Some p" "j = rollback_info (rv_account_info v) b"
  using assms(2,3) by (auto simp: retracts_def split: if_splits)

lemma rollback_info_fields [simp]:
  "ai_head (rollback_info info b) = Previous b" "ai_head_height (rollback_info info b) = Height b - 1"
  "ai_tail (rollback_info info b) = ai_tail info" "ai_tail_height (rollback_info info b) = ai_tail_height info"
  "ai_type (rollback_info info b) = ai_type info"
  by (simp_all add: rollback_info_def Let_def)

lemma rollback_info_confirmed:
  "ai_confirmed_height (rollback_info info b) = INVALID_HEIGHT \<or>
   ai_confirmed_height (rollback_info info b) \<le> Height b - 1"
  by (auto simp: rollback_info_def Let_def)

lemma word_between:
  fixes x y :: u64
  assumes "x < y + 1" "y < y + 1"
  shows "x \<le> y"
  using assms inc_le linorder_not_le by blast

lemma retracts_below:
  assumes inv: "history_inv E g L" and r: "retracts E L b v L'"
    and c: "v_blocks L x = Some (c, s)" "x \<noteq> Hash E b" "Account c = Account b"
  obtains p where "rv_previous v = Some p" "Height c \<le> Height p"
proof -
  note i = history_parts [OF inv] and h = retracts_head [OF history_parts(1) [OF inv] r]
  have "Height c \<noteq> Height b" using i(11) c h(1) unfolding unique_inv_def by metis
  moreover have "Height c \<le> Height b" using i(10) c(1,3) h(2,3) unfolding range_inv_def by fastforce
  ultimately have lt: "Height c < Height b" by simp
  then have "Height b \<noteq> 0" by auto
  then obtain p where p: "rv_previous v = Some p"
    using r rollback_ok_previous(1) [of E L b v] unfolding retracts_def by blast
  note q = retracts_previous [OF i(1) r p]
  have "Height c \<le> Height p" using lt q(5) unfolding q(4) by (rule word_between)
  with p that show thesis by blast
qed

section \<open>The chain after a rollback\<close>

lemma retracts_chain_inv:
  assumes inv: "history_inv E g L" and r: "retracts E L b v L'"
  shows "blocks_inv E L'" "unique_inv L'" "range_inv L'" "links_inv L'" "heads_inv L'" "valid_inv L'"
proof -
  note i = history_parts [OF inv] and h = retracts_head [OF history_parts(1) [OF inv] r]
    and old = retracts_old [OF inv r] and keeps = retracts_keeps [OF inv r]
  have nz: "Hash E b \<noteq> 0" using i(7) h(1) unfolding blocks_inv_def by blast
  have wf: "AccountInfo_Valid (rv_account_info v)" using i(9) h(2) by (simp add: valid_inv_def)
  show "blocks_inv E L'" using i(7) unfolding blocks_inv_def by (metis old)
  show "unique_inv L'" using i(11) unfolding unique_inv_def by (metis old)
  have valid: "AccountInfo_Valid (rollback_info (rv_account_info v) b)" if "rv_previous v = Some p" for p
  proof -
    note q = retracts_previous [OF i(1) r that]
    have "Height b - 1 = Height p" using q(4) by simp
    with q(5,9) wf show ?thesis
      by (auto simp: AccountInfo_Valid_def INVALID_HEIGHT_def split: if_splits)
  qed
  show "valid_inv L'"
    unfolding valid_inv_def
  proof (intro allI impI)
    fix a j
    assume "v_accounts L' a = Some j"
    then show "AccountInfo_Valid j"
      by (rule retracts_info [OF i(1) r]) (use i(9) valid in \<open>auto simp: valid_inv_def\<close>)
  qed
  show "range_inv L'"
    unfolding range_inv_def
  proof (intro allI impI)
    fix x c s
    assume "v_blocks L' x = Some (c, s)"
    then obtain s0 where c: "v_blocks L x = Some (c, s0)" "x \<noteq> Hash E b" by (rule old)
    obtain j where j: "v_accounts L (Account c) = Some j" "AccountInfo_Valid j" "ai_tail_height j \<le> Height c"
      "Height c \<le> ai_head_height j"
      using i(10) c(1) unfolding range_inv_def by blast
    show "\<exists>j. v_accounts L' (Account c) = Some j \<and> AccountInfo_Valid j \<and>
      ai_tail_height j \<le> Height c \<and> Height c \<le> ai_head_height j"
    proof (cases "Account c = Account b")
      case True
      obtain p where p: "rv_previous v = Some p" "Height c \<le> Height p"
        by (rule retracts_below [OF inv r c True])
      have "Height b - 1 = Height p" using retracts_previous(4) [OF i(1) r p(1)] by simp
      moreover have "v_accounts L' (Account c) = Some (rollback_info (rv_account_info v) b)"
        using r True p(1) by (simp add: retracts_def)
      ultimately show ?thesis using valid [OF p(1)] p(2) j(1,3) h(2) True by simp
    next
      case False
      then have "v_accounts L' (Account c) = v_accounts L (Account c)" using r by (simp add: retracts_def)
      with j show ?thesis by simp
    qed
  qed
  show "links_inv L'"
    unfolding links_inv_def
  proof (intro allI impI)
    fix x c s j
    assume x: "v_blocks L' x = Some (c, s)" and j: "v_accounts L' (Account c) = Some j"
      and t: "ai_tail_height j < Height c"
    from x obtain s0 where c: "v_blocks L x = Some (c, s0)" "x \<noteq> Hash E b" by (rule old)
    have xz: "x \<noteq> 0" using i(7) c(1) unfolding blocks_inv_def by blast
    have "\<exists>k. v_accounts L (Account c) = Some k \<and> ai_tail_height k < Height c"
      using j by (rule retracts_info [OF i(1) r]) (use t h(2) in auto)
    then have "linked L x c" using i(12) c(1) unfolding links_inv_def by blast
    then obtain q where q: "v_blocks L (Previous c) = Some (q, x)" "Account q = Account c" "Type q = Type c"
      "Height c = Height q + 1" "Height q < Height c"
      unfolding linked_def by blast
    have "Previous c \<noteq> Hash E b" using q(1) h(1) xz by auto
    from keeps [OF q(1) this] c(2) q show "linked L' x c" unfolding linked_def by auto
  qed
  show "heads_inv L'"
    unfolding heads_inv_def
  proof (intro allI impI)
    fix a j
    assume j: "v_accounts L' a = Some j"
    then show "info_inv L' a j"
    proof (rule retracts_info [OF i(1) r])
      assume a: "a \<noteq> Account b" "v_accounts L a = Some j"
      then have "info_inv L a j" using i(8,9) unfolding heads_inv_def valid_inv_def by blast
      then obtain c where c: "v_blocks L (ai_head j) = Some (c, 0)" "Account c = a" "Height c = ai_head_height j"
        "Type c = ai_type j" and rest: "ai_tail_height j \<le> ai_head_height j"
        "ai_confirmed_height j = INVALID_HEIGHT \<or> ai_confirmed_height j \<le> ai_head_height j"
        unfolding info_inv_def by blast
      have "ai_head j \<noteq> Hash E b" using c(1,2) h(1) a(1) by auto
      from keeps [OF c(1) this] c rest show ?thesis unfolding info_inv_def by (auto simp: nz [symmetric])
    next
      fix p
      assume a: "a = Account b" "rv_previous v = Some p" "j = rollback_info (rv_account_info v) b"
      note q = retracts_previous [OF i(1) r a(2)]
      have hp: "Height b - 1 = Height p" using q(4) by simp
      have "ai_tail_height (rv_account_info v) \<le> Height p" using q(6,5) unfolding q(4) by (rule word_between)
      moreover have "v_blocks L' (Previous b) = Some (p, 0)" using keeps [OF q(1,7)] by simp
      ultimately show ?thesis
        using a q(2,3) h(4) hp rollback_info_confirmed [of "rv_account_info v" b]
        unfolding info_inv_def by simp
    qed
  qed
qed

lemma retracts_index:
  assumes inv: "history_inv E g L" and r: "retracts E L b v L'"
  shows "index_inv L'" "aligned L'"
proof -
  note i = history_parts [OF inv] and h = retracts_head [OF history_parts(1) [OF inv] r]
    and old = retracts_old [OF inv r] and keeps = retracts_keeps [OF inv r]
  have idx: "v_index L' = index_del b (v_index L)" using r by (simp add: retracts_def)
  have get: "v_index L (a, n) = Some x \<and> n mod BLOCKS_PER_INDEX = 0 \<and> x \<noteq> Hash E b"
    if x: "v_index L' (a, n) = Some x" for a n x
  proof (cases "Height b mod BLOCKS_PER_INDEX = 0")
    case True
    from x have o: "v_index L (a, n) = Some x" "(a, n) \<noteq> (Account b, Height b)"
      unfolding idx index_del_def if_P [OF True] by (auto split: if_splits)
    from i(13) o(1) obtain c s where "v_blocks L x = Some (c, s)" "Account c = a" "Height c = n"
      by (rule index_inv_get)
    with o(2) h(1) have "x \<noteq> Hash E b" by auto
    with o(1) i(17) show ?thesis unfolding aligned_def by blast
  next
    case False
    from x have o: "v_index L (a, n) = Some x" unfolding idx index_del_def if_not_P [OF False] .
    then have m: "n mod BLOCKS_PER_INDEX = 0" using i(17) unfolding aligned_def by blast
    from i(13) o obtain c s where c: "v_blocks L x = Some (c, s)" "Account c = a" "Height c = n"
      by (rule index_inv_get)
    have "x = Hash E b \<Longrightarrow> n = Height b" using c h(1) by simp
    then have "x \<noteq> Hash E b" using False m by blast
    with o m show ?thesis by blast
  qed
  show "aligned L'" unfolding aligned_def using get by blast
  have put: "v_index L' k = v_index L k" if "k \<noteq> (Account b, Height b)" for k
    unfolding idx index_del_def using that by (cases "Height b mod BLOCKS_PER_INDEX = 0") simp_all
  show "index_inv L'"
    unfolding index_inv_def
  proof (intro conjI allI impI)
    fix a n x
    assume "v_index L' (a, n) = Some x"
    from get [OF this] have "v_index L (a, n) = Some x" and ne: "x \<noteq> Hash E b" by blast+
    from i(13) this(1) obtain c s where c: "v_blocks L x = Some (c, s)" "Account c = a" "Height c = n"
      by (rule index_inv_get)
    from keeps [OF c(1) ne] c(2,3) show "\<exists>c s. v_blocks L' x = Some (c, s) \<and> Account c = a \<and> Height c = n"
      by blast
  next
    fix x c s
    assume x: "v_blocks L' x = Some (c, s)" and m: "Height c mod BLOCKS_PER_INDEX = 0"
    from x obtain s0 where c: "v_blocks L x = Some (c, s0)" "x \<noteq> Hash E b" by (rule old)
    have "(Account c, Height c) \<noteq> (Account b, Height b)"
      using i(11) c h(1) unfolding unique_inv_def by blast
    from put [OF this] index_inv_put [OF i(13) c(1) m] show "v_index L' (Account c, Height c) = Some x" by simp
  qed
qed

section \<open>The entries after a rollback\<close>

lemma remove_view_rewardables:
  "v_rewardables (remove_view E v b L) = (case rv_previous v of
     Some p \<Rightarrow> if rv_delete_rewardable v
       then (v_rewardables L)((Representative p, Hash E p) := None) else v_rewardables L
   | None \<Rightarrow> v_rewardables L)"
  by (simp add: remove_view_def)

lemma REWARD_no_representative:
  assumes "block_wf b" "Opcode b = REWARD"
  shows "\<not> HasRepresentative b"
  using assms by (cases b) (auto simp: TxBlock_CheckOpcode_def AdBlock_CheckOpcode_def)

text \<open>The head that gives its predecessor a reward entry takes it back when it is rolled back.\<close>

lemma retracts_reward_kept:
  assumes inv: "history_inv E g L" and r: "retracts E L b v L'"
    and d: "v_blocks L h = Some (d, Hash E b)" "HasRepresentative d"
      "RewardAmount (RAI_NETWORK E) (Balance d) (Timestamp d) (Timestamp b) \<noteq> 0"
  shows "rv_previous v = Some d" "rv_delete_rewardable v" "Hash E d = h" "HasRepresentative b"
    "v_rewardables L (Representative d, h) \<noteq> None"
proof -
  note i = history_parts [OF inv] and hd = retracts_head [OF history_parts(1) [OF inv] r]
  have nz: "Hash E b \<noteq> 0" using i(7) hd(1) unfolding blocks_inv_def by blast
  then obtain e t where "v_blocks L (Hash E b) = Some (e, t)" "Previous e = h" "Height e \<noteq> 0"
    using i(5) d(1) unfolding successors_inv_def by blast
  with hd(1) have b: "Previous b = h" "Height b \<noteq> 0" by simp_all
  then obtain p where p: "rv_previous v = Some p"
    using r rollback_ok_previous(1) [of E L b v] unfolding retracts_def by blast
  note q = retracts_previous [OF i(1) r p]
  have pd: "p = d" using q(1) d(1) b(1) by simp
  with p show "rv_previous v = Some d" by simp
  show hh: "Hash E d = h" using q(8) b(1) pd by simp
  show rep: "HasRepresentative b" using HasRepresentative_Type [OF q(3)] d(2) pd by simp
  have ok: "rollback_ok E L b v" using r by (simp add: retracts_def)
  with p pd d(3) rep show del: "rv_delete_rewardable v" by (simp add: rollback_ok_def)
  with ok p pd hh show "v_rewardables L (Representative d, h) \<noteq> None" by (simp add: rollback_ok_def)
qed

lemma rollback_send_entry:
  assumes "rollback_step E L b L'" "Opcode b = SEND"
  shows "v_receivables L (Link b, Hash E b) \<noteq> None"
  using assms by cases auto

lemma rollback_receivables:
  assumes "rollback_step E L b L'" "v_receivables L' k = Some ri"
  shows "v_receivables L k = Some ri \<and> (Opcode b = SEND \<longrightarrow> k \<noteq> (Link b, Hash E b)) \<or>
    (\<exists>c t. Opcode b = RECEIVE \<and> k = (Account b, Link b) \<and> v_blocks L (Link b) = Some (c, t) \<and>
       ri_source ri = Account c \<and> ri_timestamp ri = Timestamp c)"
  using assms by cases (auto simp: unbind_view_def split: if_splits)

lemma rollback_rewardables:
  assumes "rollback_step E L b L'" "v_rewardables L' k = Some wi"
  shows "v_rewardables L k = Some wi \<or>
    (\<exists>d r c t. Opcode b = REWARD \<and> k = (Account b, Link b) \<and> v_blocks L (Link b) = Some (d, r) \<and>
       v_blocks L r = Some (c, t) \<and> wi_source wi = Account d \<and>
       wi_valid_timestamp wi = RewardTimestamp (RAI_NETWORK E) (Timestamp d) (Timestamp c))"
  using assms by cases (auto simp: unbind_view_def remove_view_rewardables split: if_splits option.splits)

lemma rollback_deletes_rewardable:
  assumes "rollback_step E L b L'" "retracts E L b v L'" "rv_previous v = Some p" "rv_delete_rewardable v"
    "Opcode b \<noteq> REWARD"
  shows "v_rewardables L' (Representative p, Hash E p) = None"
proof -
  have ok: "rollback_ok E L b v" using assms(2) by (simp add: retracts_def)
  have same: "rv_previous w = rv_previous v \<and> rv_delete_rewardable w = rv_delete_rewardable v"
    if "rollback_ok E L b w" for w
    using ok that by (auto simp: rollback_ok_def split: option.splits)
  from assms(1) show ?thesis
    by cases (use same assms(3-5) in \<open>auto simp: remove_view_rewardables\<close>)
qed

lemma rollback_genesis:
  assumes "history_inv E g L" "rollback_step E L b L'" "Opcode g = RECEIVE"
  shows "b \<noteq> g"
  using assms(2,3) history_parts(6) [OF assms(1)] by cases (auto simp: stored_inv_def)

lemma rollback_receivables_inv:
  assumes inv: "history_inv E g L" and step: "rollback_step E L b L'" and g: "Opcode g = RECEIVE"
  shows "receivables_inv L'"
  unfolding receivables_inv_def
proof (intro allI impI)
  note i = history_parts [OF inv]
  obtain v where r: "retracts E L b v L'" by (rule rollback_step_shape [OF step])
  note h = retracts_head [OF i(1) r] and keeps = retracts_keeps [OF inv r]
  fix d x ri
  assume ri: "v_receivables L' (d, x) = Some ri"
  have "\<exists>c s. v_blocks L x = Some (c, s) \<and> x \<noteq> Hash E b \<and> Opcode c = SEND \<and> Link c = d \<and>
    Account c = ri_source ri \<and> Timestamp c = ri_timestamp ri"
    using rollback_receivables [OF step ri]
  proof (elim disjE conjE exE)
    assume o: "v_receivables L (d, x) = Some ri" "Opcode b = SEND \<longrightarrow> (d, x) \<noteq> (Link b, Hash E b)"
    then obtain c s where c: "v_blocks L x = Some (c, s)" "Opcode c = SEND" "Link c = d"
      "Account c = ri_source ri" "Timestamp c = ri_timestamp ri"
      using i(14) unfolding receivables_inv_def by blast
    moreover have "x \<noteq> Hash E b" using c(1-3) h(1) o(2) by auto
    ultimately show ?thesis by blast
  next
    fix c t
    assume n: "Opcode b = RECEIVE" "(d, x) = (Account b, Link b)" "v_blocks L (Link b) = Some (c, t)"
      "ri_source ri = Account c" "ri_timestamp ri = Timestamp c"
    from i(2) h(1) n(1) rollback_genesis [OF inv step g]
    obtain e u where "v_blocks L (Link b) = Some (e, u)" "Opcode e = SEND" "Link e = Account b"
      by (rule receivedD)
    moreover have "e = c" using n(3) calculation(1) by simp
    moreover have "Link b \<noteq> Hash E b" using calculation(1,2) h(1) n(1) by auto
    ultimately show ?thesis using n by auto
  qed
  then show "\<exists>c s. v_blocks L' x = Some (c, s) \<and> Opcode c = SEND \<and> Link c = d \<and>
    Account c = ri_source ri \<and> Timestamp c = ri_timestamp ri"
    using keeps by blast
qed

lemma rollback_rewardables_inv:
  assumes inv: "history_inv E g L" and step: "rollback_step E L b L'" and wf: "block_wf b"
  shows "rewardables_inv E L'"
  unfolding rewardables_inv_def
proof (intro allI impI)
  note i = history_parts [OF inv]
  obtain v where r: "retracts E L b v L'" by (rule rollback_step_shape [OF step])
  note h = retracts_head [OF i(1) r] and keeps = retracts_keeps [OF inv r]
    and kept = retracts_reward_kept [OF inv r]
  fix a x wi
  assume wi: "v_rewardables L' (a, x) = Some wi"
  have "\<exists>d s c t. v_blocks L x = Some (d, s) \<and> s \<noteq> 0 \<and> v_blocks L s = Some (c, t) \<and>
      HasRepresentative d \<and> Representative d = a \<and> Account d = wi_source wi \<and>
      RewardAmount (RAI_NETWORK E) (Balance d) (Timestamp d) (Timestamp c) \<noteq> 0 \<and>
      wi_valid_timestamp wi = RewardTimestamp (RAI_NETWORK E) (Timestamp d) (Timestamp c)"
    using rollback_rewardables [OF step wi]
  proof (elim disjE conjE exE)
    assume "v_rewardables L (a, x) = Some wi"
    then show ?thesis using i(15) unfolding rewardables_inv_def by blast
  next
    fix d0 r0 c0 t0
    assume n: "Opcode b = REWARD" "(a, x) = (Account b, Link b)" "v_blocks L (Link b) = Some (d0, r0)"
      "v_blocks L r0 = Some (c0, t0)" "wi_source wi = Account d0"
      "wi_valid_timestamp wi = RewardTimestamp (RAI_NETWORK E) (Timestamp d0) (Timestamp c0)"
    from i(3) h(1) n(1) show ?thesis by (rule rewardedD) (use n in auto)
  qed
  then obtain d s c t where d: "v_blocks L x = Some (d, s)" "s \<noteq> 0" "v_blocks L s = Some (c, t)"
      "HasRepresentative d" "Representative d = a" "Account d = wi_source wi"
      "RewardAmount (RAI_NETWORK E) (Balance d) (Timestamp d) (Timestamp c) \<noteq> 0"
      "wi_valid_timestamp wi = RewardTimestamp (RAI_NETWORK E) (Timestamp d) (Timestamp c)"
    by blast
  have x: "x \<noteq> Hash E b" using d(1,2) h(1) by auto
  have s: "s \<noteq> Hash E b"
  proof
    assume s: "s = Hash E b"
    with d(3) h(1) have "c = b" by simp
    with s d kept [of x d] have k: "rv_previous v = Some d" "rv_delete_rewardable v" "Hash E d = x"
      "HasRepresentative b"
      by simp_all
    have "Opcode b \<noteq> REWARD" using REWARD_no_representative [OF wf] k(4) by blast
    from rollback_deletes_rewardable [OF step r k(1,2) this] k(3) d(5) wi show False by simp
  qed
  from keeps [OF d(1) x] keeps [OF d(3) s] s d
  show "\<exists>d s c t. v_blocks L' x = Some (d, s) \<and> s \<noteq> 0 \<and> v_blocks L' s = Some (c, t) \<and>
      HasRepresentative d \<and> Representative d = a \<and> Account d = wi_source wi \<and>
      RewardAmount (RAI_NETWORK E) (Balance d) (Timestamp d) (Timestamp c) \<noteq> 0 \<and>
      wi_valid_timestamp wi = RewardTimestamp (RAI_NETWORK E) (Timestamp d) (Timestamp c)"
    by auto
qed

lemma rollback_bindings:
  assumes "rollback_step E L b L'"
  shows "Opcode b \<noteq> BIND \<and> v_bindings L' = v_bindings L \<and> v_binding_count L' = v_binding_count L \<or>
    Opcode b = BIND \<and> v_bindings L' = (v_bindings L)(binding_of b := None) \<and>
    binding_total L (Account b) \<noteq> 0 \<and>
    v_binding_count L' = (v_binding_count L)(Account b :=
      if binding_total L (Account b) - 1 = 0 then None else Some (binding_total L (Account b) - 1))"
  using assms by cases (auto simp: unbind_view_def binding_total_def)

lemma rollback_bindings_inv:
  assumes inv: "history_inv E g L" and step: "rollback_step E L b L'"
  shows "bindings_inv L'"
proof -
  note i = history_parts [OF inv]
  obtain v where r: "retracts E L b v L'" by (rule rollback_step_shape [OF step])
  note h = retracts_head [OF i(1) r] and keeps = retracts_keeps [OF inv r] and old = retracts_old [OF inv r]
  have b1: "v_bindings L k = Some signer \<Longrightarrow> \<exists>x c s. v_blocks L x = Some (c, s) \<and> Opcode c = BIND \<and>
      binding_of c = k \<and> Link c = signer" for k signer
    using i(16) unfolding bindings_inv_def by blast
  have b2: "v_blocks L x = Some (c, s) \<Longrightarrow> Opcode c = BIND \<Longrightarrow> v_bindings L (binding_of c) = Some (Link c)" for x c s
    using i(16) unfolding bindings_inv_def by blast
  have b3: "unat (binding_total L a) = card (bind_blocks L a)" "v_binding_count L a \<noteq> Some 0" for a
    using i(16) unfolding bindings_inv_def by blast+
  have fin: "finite (bind_blocks L a)" for a by (rule finite)
  have bb: "bind_blocks L' a = bind_blocks L a - {Hash E b}" for a
  proof (rule set_eqI)
    fix x
    show "x \<in> bind_blocks L' a \<longleftrightarrow> x \<in> bind_blocks L a - {Hash E b}"
      unfolding bind_blocks_def using keeps old by blast
  qed
  have other: "binding_of c \<noteq> binding_of b" if "v_blocks L x = Some (c, s)" "x \<noteq> Hash E b" for x c s
    using i(11) that h(1) unfolding unique_inv_def binding_of_def by blast
  have mem: "Hash E b \<in> bind_blocks L a \<longleftrightarrow> Opcode b = BIND \<and> a = Account b" for a
    using h(1) by (auto simp: bind_blocks_def)
  from rollback_bindings [OF step] show ?thesis
  proof (elim disjE conjE)
    assume n: "Opcode b \<noteq> BIND" "v_bindings L' = v_bindings L" "v_binding_count L' = v_binding_count L"
    have "bind_blocks L' a = bind_blocks L a" for a using bb mem n(1) by auto
    moreover have "\<exists>x c s. v_blocks L' x = Some (c, s) \<and> Opcode c = BIND \<and> binding_of c = k \<and> Link c = signer"
      if k: "v_bindings L k = Some signer" for k signer
    proof -
      from b1 [OF k] obtain x c s where c: "v_blocks L x = Some (c, s)" "Opcode c = BIND" "binding_of c = k"
        "Link c = signer"
        by blast
      have "x \<noteq> Hash E b" using c(1,2) h(1) n(1) by auto
      from keeps [OF c(1) this] c show ?thesis by blast
    qed
    moreover have "v_bindings L (binding_of c) = Some (Link c)" if "v_blocks L' x = Some (c, s)" "Opcode c = BIND" for x c s
      using that(1) by (rule old) (use b2 that(2) in blast)
    ultimately show ?thesis using b3 unfolding bindings_inv_def by (simp add: n(2,3) binding_total_def)
  next
    let ?n = "binding_total L (Account b)"
    assume n: "Opcode b = BIND" "v_bindings L' = (v_bindings L)(binding_of b := None)" "?n \<noteq> 0"
      "v_binding_count L' = (v_binding_count L)(Account b := if ?n - 1 = 0 then None else Some (?n - 1))"
    have "\<exists>x c s. v_blocks L' x = Some (c, s) \<and> Opcode c = BIND \<and> binding_of c = k \<and> Link c = signer"
      if k: "v_bindings L' k = Some signer" for k signer
    proof -
      from k n(2) have k': "v_bindings L k = Some signer" "k \<noteq> binding_of b" by (auto split: if_splits)
      from b1 [OF k'(1)] obtain x c s where c: "v_blocks L x = Some (c, s)" "Opcode c = BIND" "binding_of c = k"
        "Link c = signer"
        by blast
      have "x \<noteq> Hash E b" using c(1,3) h(1) k'(2) by auto
      from keeps [OF c(1) this] c show ?thesis by blast
    qed
    moreover have "v_bindings L' (binding_of c) = Some (Link c)" if x: "v_blocks L' x = Some (c, s)" "Opcode c = BIND" for x c s
    proof -
      from x(1) obtain s0 where "v_blocks L x = Some (c, s0)" "x \<noteq> Hash E b" by (rule old)
      with b2 [OF this(1) x(2)] other [OF this] show ?thesis by (simp add: n(2))
    qed
    moreover have "unat (binding_total L' a) = card (bind_blocks L' a)" for a
    proof (cases "a = Account b")
      case True
      have "binding_total L' a = ?n - 1" using True by (simp add: binding_total_def n(4))
      moreover have "unat (?n - 1) = unat ?n - 1" using n(3) by (simp add: unat_sub word_le_sub1 unat_eq_zero unatSuc word_gt_0)
      moreover have "card (bind_blocks L' a) = card (bind_blocks L a) - 1"
        unfolding bb using mem n(1) True fin by (simp add: card_Diff_singleton)
      ultimately show ?thesis using b3(1) [of a] True by simp
    next
      case False
      with bb [of a] mem [of a] have "bind_blocks L' a = bind_blocks L a" by simp
      with False b3(1) [of a] show ?thesis by (simp add: binding_total_def n(4))
    qed
    moreover have "v_binding_count L' a \<noteq> Some 0" for a
      using b3(2) [of a] by (simp add: n(4))
    ultimately show ?thesis unfolding bindings_inv_def by blast
  qed
qed

section \<open>The history after a rollback\<close>

lemma rollback_received_inv:
  assumes inv: "history_inv E g L" and step: "rollback_step E L b L'" and g: "Opcode g = RECEIVE"
  shows "received_inv g L'"
  unfolding received_inv_def
proof (intro allI impI)
  note i = history_parts [OF inv] and ng = rollback_genesis [OF inv step g]
  obtain v where r: "retracts E L b v L'" by (rule rollback_step_shape [OF step])
  note h = retracts_head [OF i(1) r] and keeps = retracts_keeps [OF inv r]
  fix x c s
  assume x: "v_blocks L' x = Some (c, s)" "Opcode c = RECEIVE" "c \<noteq> g"
  from x(1) obtain s0 where c: "v_blocks L x = Some (c, s0)" "x \<noteq> Hash E b" by (rule retracts_old [OF inv r])
  from i(2) c(1) x(2,3) obtain e t where e: "v_blocks L (Link c) = Some (e, t)" "Opcode e = SEND"
    "Link e = Account c" "v_receivables L (Account c, Link c) = None"
    by (rule receivedD)
  have "Link c \<noteq> Hash E b"
  proof
    assume l: "Link c = Hash E b"
    with e h(1) have "Opcode b = SEND" "Link b = Account c" by simp_all
    with rollback_send_entry [OF step] e(4) l show False by simp
  qed
  from keeps [OF e(1) this] have "\<exists>t. v_blocks L' (Link c) = Some (e, t)" by blast
  moreover have "v_receivables L' (Account c, Link c) = None"
  proof (rule ccontr)
    assume "v_receivables L' (Account c, Link c) \<noteq> None"
    then obtain ri where "v_receivables L' (Account c, Link c) = Some ri" by blast
    with rollback_receivables [OF step this] e(4)
    have "Opcode b = RECEIVE" "Account c = Account b" "Link c = Link b" by auto
    with i(4) [unfolded once_inv_def, rule_format, OF h(1) c(1)] x(2,3) ng have "x = Hash E b" by simp
    with c(2) show False by simp
  qed
  ultimately show "(\<exists>e t. v_blocks L' (Link c) = Some (e, t) \<and> Opcode e = SEND \<and> Link e = Account c) \<and>
    v_receivables L' (Account c, Link c) = None"
    using e(2,3) by blast
qed

lemma rollback_rewarded_inv:
  assumes inv: "history_inv E g L" and step: "rollback_step E L b L'" and g: "Opcode g = RECEIVE"
  shows "rewarded_inv E L'"
  unfolding rewarded_inv_def
proof (intro allI impI)
  note i = history_parts [OF inv]
  obtain v where r: "retracts E L b v L'" by (rule rollback_step_shape [OF step])
  note h = retracts_head [OF i(1) r] and keeps = retracts_keeps [OF inv r]
    and kept = retracts_reward_kept [OF inv r]
  fix x c s
  assume x: "v_blocks L' x = Some (c, s)" "Opcode c = REWARD"
  from x(1) obtain s0 where c: "v_blocks L x = Some (c, s0)" "x \<noteq> Hash E b" by (rule retracts_old [OF inv r])
  from i(3) c(1) x(2) obtain d u e t where d: "v_blocks L (Link c) = Some (d, u)" "u \<noteq> 0" "v_blocks L u = Some (e, t)"
      "HasRepresentative d" "Representative d = Account c"
      "RewardAmount (RAI_NETWORK E) (Balance d) (Timestamp d) (Timestamp e) \<noteq> 0"
      "v_rewardables L (Account c, Link c) = None"
    by (rule rewardedD)
  have l: "Link c \<noteq> Hash E b" using d(1,2) h(1) by auto
  have u: "u \<noteq> Hash E b"
  proof
    assume u: "u = Hash E b"
    with d(3) h(1) have "e = b" by simp
    with u d kept(5) [of "Link c" d] show False by simp
  qed
  have "v_rewardables L' (Account c, Link c) = None"
  proof (rule ccontr)
    assume "v_rewardables L' (Account c, Link c) \<noteq> None"
    then obtain wi where "v_rewardables L' (Account c, Link c) = Some wi" by blast
    with rollback_rewardables [OF step this] d(7)
    have o: "Opcode b = REWARD" "Account c = Account b" "Link c = Link b" by auto
    have "b \<noteq> g" "c \<noteq> g" using g o(1) x(2) by auto
    with i(4) [unfolded once_inv_def, rule_format, OF h(1) c(1)] x(2) o have "x = Hash E b" by simp
    with c(2) show False by simp
  qed
  with keeps [OF d(1) l] keeps [OF d(3) u] u d(2,4-6)
  show "(\<exists>d u e t. v_blocks L' (Link c) = Some (d, u) \<and> u \<noteq> 0 \<and> v_blocks L' u = Some (e, t) \<and>
        HasRepresentative d \<and> Representative d = Account c \<and>
        RewardAmount (RAI_NETWORK E) (Balance d) (Timestamp d) (Timestamp e) \<noteq> 0) \<and>
     v_rewardables L' (Account c, Link c) = None"
    by auto
qed

lemma rollback_rest_inv:
  assumes inv: "history_inv E g L" and step: "rollback_step E L b L'"
  shows "once_inv g L'" "successors_inv L'" "stored_inv g L'"
proof -
  note i = history_parts [OF inv]
  obtain v where r: "retracts E L b v L'" by (rule rollback_step_shape [OF step])
  note h = retracts_head [OF i(1) r] and keeps = retracts_keeps [OF inv r] and old = retracts_old [OF inv r]
  show "once_inv g L'"
    unfolding once_inv_def
  proof (intro allI impI)
    fix x c s y d t
    assume o: "v_blocks L' x = Some (c, s)" "v_blocks L' y = Some (d, t)" and p: "Opcode c \<in> {RECEIVE, REWARD}"
      "Opcode d = Opcode c" "c \<noteq> g" "d \<noteq> g" "Account d = Account c" "Link d = Link c"
    obtain s0 where s: "v_blocks L x = Some (c, s0)" by (rule old [OF o(1)])
    obtain t0 where t: "v_blocks L y = Some (d, t0)" by (rule old [OF o(2)])
    from i(4) [unfolded once_inv_def, rule_format, OF s t p] show "y = x" .
  qed
  show "successors_inv L'"
    unfolding successors_inv_def
  proof (intro allI impI)
    fix x c s
    assume x: "v_blocks L' x = Some (c, s)" "s \<noteq> 0"
    from x(1) obtain s0 where s0: "v_blocks L x = Some (c, s0)" "s = (if s0 = Hash E b then 0 else s0)" by (rule old)
    with x(2) have s: "s0 = s" "s \<noteq> Hash E b" by (auto split: if_splits)
    obtain e t where e: "v_blocks L s = Some (e, t)" "Previous e = x" "Height e \<noteq> 0"
      using i(5) s0(1) x(2) s(1) unfolding successors_inv_def by blast
    from keeps [OF e(1) s(2)] e(2,3) show "\<exists>e t. v_blocks L' s = Some (e, t) \<and> Previous e = x \<and> Height e \<noteq> 0"
      by blast
  qed
  have "block_wf c" if "v_blocks L' x = Some (c, s)" for x c s
    using that by (rule old) (use i(6) in \<open>auto simp: stored_inv_def\<close>)
  moreover have "v_blocks L' (Link g) = None"
  proof (rule ccontr)
    assume "v_blocks L' (Link g) \<noteq> None"
    then obtain c s where "v_blocks L' (Link g) = Some (c, s)" by fastforce
    then show False by (rule old) (use i(6) in \<open>simp add: stored_inv_def\<close>)
  qed
  moreover have "ai_tail_height j = 0" if "v_accounts L' a = Some j" for a j
    using that by (rule retracts_info [OF i(1) r]) (use i(6) h(2) in \<open>auto simp: stored_inv_def\<close>)
  ultimately show "stored_inv g L'" unfolding stored_inv_def by blast
qed

lemma rollback_history_inv:
  assumes inv: "history_inv E g L" and step: "rollback_step E L b L'" and g: "Opcode g = RECEIVE"
  shows "history_inv E g L'"
proof -
  obtain v where r: "retracts E L b v L'" by (rule rollback_step_shape [OF step])
  have "block_wf b"
    using history_parts(6) [OF inv] retracts_head(1) [OF history_parts(1) [OF inv] r] unfolding stored_inv_def by blast
  then show ?thesis
    unfolding history_inv_def ledger_inv_def
    using retracts_chain_inv [OF inv r] retracts_index [OF inv r] rollback_receivables_inv [OF assms]
      rollback_rewardables_inv [OF inv step] rollback_bindings_inv [OF inv step] rollback_received_inv [OF assms]
      rollback_rewarded_inv [OF assms] rollback_rest_inv [OF inv step] by blast
qed

section \<open>Histories with rollbacks\<close>

text \<open>\<open>reachable E U g L\<close>: the genesis block \<open>g\<close> leads to \<open>L\<close> by appends, rollbacks,
  confirmations and commits of weight operations, in any order and at any clock readings. \<open>U\<close> is the
  set of all blocks that ever occur. Its blocks are well-formed and their hashes do not
  collide, neither with each other nor with the link of the genesis block, which names no block.\<close>

text \<open>Steps on the fork table also keep a count of forks in the account records.\<close>

definition same_but_forks :: "ledger_view \<Rightarrow> ledger_view \<Rightarrow> bool" where
  "same_but_forks L L' \<longleftrightarrow> (\<exists>f acc. L' = L\<lparr>v_forks := f, v_accounts := acc\<rparr> \<and>
     (\<forall>a. rel_option (\<lambda>i j. j = i\<lparr>ai_forks := ai_forks j\<rparr>) (v_accounts L a) (acc a)))"

definition admissible :: "env \<Rightarrow> block \<Rightarrow> block \<Rightarrow> bool" where
  "admissible E g b \<longleftrightarrow> sane E b \<and> block_wf b \<and> Hash E b \<noteq> Link g"

definition universe :: "env \<Rightarrow> block \<Rightarrow> block set \<Rightarrow> bool" where
  "universe E g U \<longleftrightarrow> genesis_ok E g \<and> g \<in> U \<and> inj_on (Hash E) U \<and> (\<forall>b \<in> U. admissible E g b)"

inductive reachable :: "env \<Rightarrow> block set \<Rightarrow> block \<Rightarrow> ledger_view \<Rightarrow> bool" for E U g where
  genesis: "reachable E U g (genesis_view E g m)"
| append: "reachable E U g L \<Longrightarrow> append_step (at_time E t) L b L' \<Longrightarrow> b \<in> U \<Longrightarrow> reachable E U g L'"
| rollback: "reachable E U g L \<Longrightarrow> rollback_step (at_time E t) L b L' \<Longrightarrow> reachable E U g L'"
| confirm: "reachable E U g L \<Longrightarrow> v_blocks L (Hash E b) = Some (b, s) \<Longrightarrow>
     v_accounts L (Account b) = Some info \<Longrightarrow> reachable E U g (confirm_view info b L)"
| commit: "reachable E U g L \<Longrightarrow> reachable E U g (commit_view L)"
| forks: "reachable E U g L \<Longrightarrow> same_but_forks L L' \<Longrightarrow> reachable E U g L'"

lemma at_time_history [simp]: "history_inv (at_time E t) g L = history_inv E g L"
  by (simp add: history_inv_def rewarded_inv_def)

lemma commit_history_inv: "history_inv E g (commit_view L) = history_inv E g L"
  unfolding history_inv_def commit_view_inv
  by (simp add: received_inv_def rewarded_inv_def once_inv_def successors_inv_def stored_inv_def aligned_def
      commit_view_def)

lemma confirm_history_inv:
  assumes "history_inv E g L" "v_blocks L h = Some (b, s)" "v_accounts L (Account b) = Some info"
  shows "history_inv E g (confirm_view info b L)"
proof -
  note i = history_parts [OF assms(1)]
  have "stored_inv g (confirm_view info b L)"
    using i(6) assms(3) by (auto simp: stored_inv_def confirm_view_def)
  with confirm_view_inv [OF i(1) assms(2,3)] i show ?thesis
    by (simp add: history_inv_def received_inv_def rewarded_inv_def once_inv_def successors_inv_def aligned_def)
      (simp add: confirm_view_def)
qed

lemma same_but_forks_accounts:
  assumes "same_but_forks L L'"
  shows "v_accounts L' a = Some j \<Longrightarrow> \<exists>i n. v_accounts L a = Some i \<and> j = i\<lparr>ai_forks := n\<rparr>"
    and "v_accounts L a = Some i \<Longrightarrow> \<exists>n. v_accounts L' a = Some (i\<lparr>ai_forks := n\<rparr>)"
proof -
  obtain f acc where L': "L' = L\<lparr>v_forks := f, v_accounts := acc\<rparr>"
    and rel: "rel_option (\<lambda>i j. j = i\<lparr>ai_forks := ai_forks j\<rparr>) (v_accounts L a) (acc a)"
    using assms by (auto simp: same_but_forks_def)
  show "v_accounts L' a = Some j \<Longrightarrow> \<exists>i n. v_accounts L a = Some i \<and> j = i\<lparr>ai_forks := n\<rparr>"
    using rel by (auto simp: L' elim!: option.rel_cases)
  show "v_accounts L a = Some i \<Longrightarrow> \<exists>n. v_accounts L' a = Some (i\<lparr>ai_forks := n\<rparr>)"
    using rel by (auto simp: L' elim!: option.rel_cases)
qed

lemma AccountInfo_Valid_forks [simp]: "AccountInfo_Valid (i\<lparr>ai_forks := n\<rparr>) = AccountInfo_Valid i"
  by (simp add: AccountInfo_Valid_def)

lemma forks_history_inv:
  assumes inv: "history_inv E g L" and s: "same_but_forks L L'"
  shows "history_inv E g L'"
proof -
  note i = history_parts [OF inv] and acc = same_but_forks_accounts [OF s]
  obtain f ac where L': "L' = L\<lparr>v_forks := f, v_accounts := ac\<rparr>" using s by (auto simp: same_but_forks_def)
  have older: "\<exists>i n. v_accounts L a = Some i \<and> j = i\<lparr>ai_forks := n\<rparr>" if "ac a = Some j" for a j
    using acc(1) [of a j] that by (simp add: L')
  have newer: "\<exists>n. ac a = Some (i\<lparr>ai_forks := n\<rparr>)" if "v_accounts L a = Some i" for a i
    using acc(2) [of a i] that by (simp add: L')
  have "heads_inv L'"
    using i(8) unfolding heads_inv_def info_inv_def by (auto simp: L' dest!: older) fastforce+
  moreover have "valid_inv L'" using i(9) unfolding valid_inv_def by (auto simp: L' dest!: older)
  moreover have "range_inv L'"
    unfolding range_inv_def
  proof (intro allI impI)
    fix h b t
    assume "v_blocks L' h = Some (b, t)"
    then obtain j where "v_accounts L (Account b) = Some j" "AccountInfo_Valid j" "ai_tail_height j \<le> Height b"
      "Height b \<le> ai_head_height j"
      using i(10) unfolding range_inv_def by (auto simp: L')
    with newer [OF this(1)] show "\<exists>j. v_accounts L' (Account b) = Some j \<and> AccountInfo_Valid j \<and>
      ai_tail_height j \<le> Height b \<and> Height b \<le> ai_head_height j"
      by (auto simp: L')
  qed
  moreover have "links_inv L'"
    using i(12) unfolding links_inv_def linked_def by (auto simp: L' dest!: older)
  moreover have "stored_inv g L'" using i(6) unfolding stored_inv_def by (auto simp: L' dest!: older)
  ultimately show ?thesis
    using i unfolding history_inv_def ledger_inv_def
    by (simp add: L' received_inv_def rewarded_inv_def once_inv_def successors_inv_def aligned_def
        blocks_inv_def unique_inv_def index_inv_def receivables_inv_def rewardables_inv_def bindings_inv_def
        bind_blocks_def binding_total_def)
qed

lemma reachable_history:
  assumes "reachable E U g L" "universe E g U"
  shows "history_inv E g L"
  using assms
proof induction
  case (genesis m)
  then show ?case by (intro genesis_history_inv) (simp_all add: universe_def admissible_def)
next
  case (append L t b L')
  then show ?case using append_history_inv [of "at_time E t" g L b L'] by (simp add: universe_def admissible_def)
next
  case (rollback L t b L')
  then show ?case using rollback_history_inv [of "at_time E t" g L b L'] by (simp add: universe_def genesis_ok_def)
next
  case (confirm L b s info)
  then show ?case using confirm_history_inv by blast
next
  case (commit L)
  then show ?case by (simp add: commit_history_inv)
next
  case (forks L L')
  then show ?case using forks_history_inv by blast
qed

lemma reachable_stored:
  assumes "reachable E U g L" "universe E g U" "v_blocks L h = Some (b, s)"
  shows "b \<in> U"
  using assms
proof (induction arbitrary: h b s)
  case (genesis m)
  then show ?case by (auto simp: genesis_view_def empty_view_def universe_def split: if_splits)
next
  case (append L t d L')
  have "ledger_inv (at_time E t) L" using history_parts(1) [OF reachable_history [OF append(1,5)]] by simp
  from append_step_block_cases [OF this append(2) append.prems(2)] append show ?case by blast
next
  case (rollback L t d L')
  have inv: "history_inv (at_time E t) g L" using reachable_history [OF rollback(1,4)] by simp
  obtain v where r: "retracts (at_time E t) L d v L'" by (rule rollback_step_shape [OF rollback(2)])
  from rollback.prems(2) show ?case by (rule retracts_old [OF inv r]) (use rollback in blast)
next
  case (forks L L')
  then show ?case by (auto simp: same_but_forks_def)
qed (auto simp: confirm_view_def commit_view_def)

end
