(* ===== verification/Causality.thy ===== *)
theory Causality
  imports RollbackInv
begin

text \<open>
  Cause and effect between stored blocks. \<open>settled_inv\<close>: a send block whose receivable is gone has been received, and a
  block whose reward is gone has been rewarded, by blocks that are still stored. \<open>causal\<close>: some ranking of the stored
  blocks puts every block above its predecessor, its source and, for a reward, the successor of its
  source. Both hold in every reachable ledger; they are why a cascade of rollbacks ends.
\<close>

section \<open>Definitions\<close>

definition settled_inv :: "env \<Rightarrow> ledger_view \<Rightarrow> bool" where
  "settled_inv E L \<longleftrightarrow>
     (\<forall>h b s. v_blocks L h = Some (b, s) \<longrightarrow> Opcode b = SEND \<longrightarrow> v_receivables L (Link b, h) = None \<longrightarrow>
        (\<exists>x c t. v_blocks L x = Some (c, t) \<and> Opcode c = RECEIVE \<and> Account c = Link b \<and> Link c = h)) \<and>
     (\<forall>h d r c t. v_blocks L h = Some (d, r) \<longrightarrow> r \<noteq> 0 \<longrightarrow> v_blocks L r = Some (c, t) \<longrightarrow> HasRepresentative c \<longrightarrow>
        RewardAmount (RAI_NETWORK E) (Balance d) (Timestamp d) (Timestamp c) \<noteq> 0 \<longrightarrow>
        v_rewardables L (Representative d, h) = None \<longrightarrow>
        (\<exists>x w t. v_blocks L x = Some (w, t) \<and> Opcode w = REWARD \<and> Account w = Representative d \<and> Link w = h))"

definition rank_ok :: "block \<Rightarrow> (u256 \<Rightarrow> nat) \<Rightarrow> ledger_view \<Rightarrow> bool" where
  "rank_ok g rank L \<longleftrightarrow> (\<forall>h b s. v_blocks L h = Some (b, s) \<longrightarrow>
     (Height b \<noteq> 0 \<longrightarrow> rank (Previous b) < rank h) \<and>
     (Opcode b = RECEIVE \<longrightarrow> b \<noteq> g \<longrightarrow> rank (Link b) < rank h) \<and>
     (Opcode b = REWARD \<longrightarrow> (\<forall>d r. v_blocks L (Link b) = Some (d, r) \<longrightarrow> rank r < rank h)))"

definition causal :: "env \<Rightarrow> block \<Rightarrow> ledger_view \<Rightarrow> bool" where
  "causal E g L \<longleftrightarrow> settled_inv E L \<and> (\<exists>rank. rank_ok g rank L)"

lemma settled_received:
  assumes "settled_inv E L" "v_blocks L h = Some (b, s)" "Opcode b = SEND" "v_receivables L (Link b, h) = None"
  obtains x c t where "v_blocks L x = Some (c, t)" "Opcode c = RECEIVE" "Account c = Link b" "Link c = h"
  using assms unfolding settled_inv_def by blast

lemma settled_rewarded:
  assumes "settled_inv E L" "v_blocks L h = Some (d, r)" "r \<noteq> 0" "v_blocks L r = Some (c, t)" "HasRepresentative c"
    "RewardAmount (RAI_NETWORK E) (Balance d) (Timestamp d) (Timestamp c) \<noteq> 0"
    "v_rewardables L (Representative d, h) = None"
  obtains x w t where "v_blocks L x = Some (w, t)" "Opcode w = REWARD" "Account w = Representative d" "Link w = h"
  using assms unfolding settled_inv_def by blast

section \<open>Appending\<close>

lemma append_settles:
  assumes "append_step E L b L'"
  shows "Opcode b = SEND \<Longrightarrow> v_receivables L' (Link b, Hash E b) \<noteq> None"
    "v_receivables L k \<noteq> None \<Longrightarrow> v_receivables L' k = None \<Longrightarrow> Opcode b = RECEIVE \<and> k = (Account b, Link b)"
    "v_rewardables L k \<noteq> None \<Longrightarrow> v_rewardables L' k = None \<Longrightarrow> Opcode b = REWARD \<and> k = (Account b, Link b)"
  using assms by (cases; auto split: if_splits option.splits)+

lemma RewardTimestamp_nonzero:
  assumes "RewardAmount net balance from_time till \<noteq> 0"
  shows "RewardTimestamp net from_time till \<noteq> 0"
proof -
  have b: "from_time \<le> till" "EpochTimestamp net \<le> from_time"
    using assms RewardAmount_zero [of till from_time net balance] by force+
  have "0 < unat from_time" using b(2) EpochTimestamp_bounds(1) [of net] by (simp add: word_le_nat_alt)
  then have "till \<noteq> 0" using b(1) by (auto simp: word_le_nat_alt)
  then have "0 < till" by (simp add: word_neq_0_conv)
  then show ?thesis using b by (auto simp: RewardTimestamp_def Let_def)
qed

lemma append_reward_entry:
  assumes "append_step E L b L'" "extends E L p b L'" "HasRepresentative p" "Opcode b \<noteq> REWARD"
    "RewardAmount (RAI_NETWORK E) (Balance p) (Timestamp p) (Timestamp b) \<noteq> 0"
  shows "v_rewardables L' (Representative p, Hash E p) \<noteq> None"
proof -
  have r: "reward_of E p b \<noteq> None"
    using assms(3,5) RewardTimestamp_nonzero [OF assms(5)] by (simp add: reward_of_def Let_def)
  have same: "q = p" if "successor_ok E L info q b" for info q
    using that assms(2) by (auto simp: extends_def successor_ok_def)
  from assms(1) show ?thesis
  proof cases
    case (receive_first ri L1)
    with assms(2) have False by (auto simp: extends_def successor_ok_def first_ok_def no_account_def)
    then show ?thesis ..
  qed (use r same assms(4) in auto)
qed

lemma append_successors:
  assumes inv: "ledger_inv E L" and step: "append_step E L b L'" and d: "v_blocks L' h = Some (d, r)" "r \<noteq> 0"
  shows "v_blocks L h = Some (d, r) \<or> (extends E L d b L' \<and> r = Hash E b \<and> h = Hash E d)"
  using append_step_shape [OF step]
proof (elim disjE exE)
  have heads: "heads_inv L" and blocks: "blocks_inv E L" using inv by (simp_all add: ledger_inv_def)
  fix p assume e: "extends E L p b L'"
  then have "v_blocks L' = (v_blocks L)(Hash E b \<mapsto> (b, 0), Previous b \<mapsto> (p, Hash E b))" by (auto simp: extends_def)
  moreover have "Hash E p = Previous b" using extends_head(6) [OF heads e] blocks unfolding blocks_inv_def by blast
  ultimately show ?thesis using d e by (auto split: if_splits)
next
  assume "opens E L b L'"
  then show ?thesis using d by (auto simp: opens_def split: if_splits)
qed

lemma append_settled:
  assumes inv: "history_inv E g L" and step: "append_step E L b L'" and wf: "block_wf b" and settled: "settled_inv E L"
  shows "settled_inv E L'"
  unfolding settled_inv_def
proof (intro conjI allI impI)
  note i = history_parts [OF inv] and grow = append_step_blocks [OF history_parts(1) [OF inv] step]
  fix h c s
  assume c: "v_blocks L' h = Some (c, s)" "Opcode c = SEND" "v_receivables L' (Link c, h) = None"
  from append_step_block_cases [OF i(1) step c(1)]
  show "\<exists>x d t. v_blocks L' x = Some (d, t) \<and> Opcode d = RECEIVE \<and> Account d = Link c \<and> Link d = h"
  proof (elim disjE conjE exE)
    assume "h = Hash E b" "c = b"
    with append_settles(1) [OF step] c(2,3) show ?thesis by simp
  next
    fix s0 assume old: "v_blocks L h = Some (c, s0)"
    show ?thesis
    proof (cases "v_receivables L (Link c, h) = None")
      case True
      then show ?thesis using settled_received [OF settled old c(2)] blocks_growD [OF grow(1)] by metis
    next
      case False
      with append_settles(2) [OF step, of "(Link c, h)"] c(3) grow(2) show ?thesis by auto
    qed
  qed
next
  note i = history_parts [OF inv] and grow = append_step_blocks [OF history_parts(1) [OF inv] step]
  fix h d r c t
  assume d: "v_blocks L' h = Some (d, r)" "r \<noteq> 0" and c: "v_blocks L' r = Some (c, t)" "HasRepresentative c"
    and a: "RewardAmount (RAI_NETWORK E) (Balance d) (Timestamp d) (Timestamp c) \<noteq> 0"
    and none: "v_rewardables L' (Representative d, h) = None"
  from append_successors [OF i(1) step d]
  show "\<exists>x w t. v_blocks L' x = Some (w, t) \<and> Opcode w = REWARD \<and> Account w = Representative d \<and> Link w = h"
  proof (elim disjE conjE)
    assume old: "v_blocks L h = Some (d, r)"
    obtain c' t' where c': "v_blocks L r = Some (c', t')"
      using i(5) old d(2) unfolding successors_inv_def by blast
    with blocks_growD [OF grow(1) c'] c(1) have "c' = c" by auto
    note c' = c' [unfolded this]
    show ?thesis
    proof (cases "v_rewardables L (Representative d, h) = None")
      case True
      from settled_rewarded [OF settled old d(2) c' c(2) a True] blocks_growD [OF grow(1)] show ?thesis by metis
    next
      case False
      with append_settles(3) [OF step, of "(Representative d, h)"] none grow(2) show ?thesis by auto
    qed
  next
    assume e: "extends E L d b L'" and r: "r = Hash E b" and h: "h = Hash E d"
    with c(1) grow(2) have cb: "c = b" by simp
    have "Type d = Type b" using extends_head [OF i(8) e] by simp
    then have "HasRepresentative d" using c(2) cb by (cases d; cases b) simp_all
    moreover have "Opcode b \<noteq> REWARD" using REWARD_no_representative [OF wf] c(2) cb by blast
    ultimately show ?thesis using append_reward_entry [OF step e] a none cb h by simp
  qed
qed

lemma stored_previous:
  assumes inv: "history_inv E g L" and c: "v_blocks L h = Some (c, s)" "Height c \<noteq> 0"
  obtains p where "v_blocks L (Previous c) = Some (p, h)" "Account p = Account c" "Height c = Height p + 1" "Height p < Height c"
proof -
  note i = history_parts [OF inv]
  obtain info where info: "v_accounts L (Account c) = Some info" using i(10) c(1) unfolding range_inv_def by blast
  have "ai_tail_height info = 0" using i(6) info unfolding stored_inv_def by blast
  then have "ai_tail_height info < Height c" using c(2) by (simp add: word_neq_0_conv)
  then have "linked L h c" using i(12) c(1) info unfolding links_inv_def by blast
  then show thesis using that unfolding linked_def by blast
qed

text \<open>No stored block refers to the block just appended.\<close>

lemma append_unreferenced:
  assumes inv: "history_inv E g L" and inv': "history_inv E g L'" and step: "append_step E L b L'" and wf: "block_wf b"
    and c: "v_blocks L' h = Some (c, s)"
  shows "Height c \<noteq> 0 \<Longrightarrow> Previous c \<noteq> Hash E b"
    "Opcode c = RECEIVE \<Longrightarrow> c \<noteq> g \<Longrightarrow> Link c \<noteq> Hash E b"
    "Opcode c = REWARD \<Longrightarrow> v_blocks L' (Link c) = Some (d, r) \<Longrightarrow> r \<noteq> Hash E b \<and> v_blocks L (Link c) = Some (d, r)"
proof -
  note i = history_parts [OF inv] and i' = history_parts [OF inv']
    and grow = append_step_blocks [OF history_parts(1) [OF inv] step]
  have h0: "h \<noteq> 0" using i'(7) c unfolding blocks_inv_def by blast
  show "Previous c \<noteq> Hash E b" if nz: "Height c \<noteq> 0"
  proof -
    obtain p where "v_blocks L' (Previous c) = Some (p, h)" by (rule stored_previous [OF inv' c nz])
    with grow(2) h0 show ?thesis by auto
  qed
  show "Link c \<noteq> Hash E b" if "Opcode c = RECEIVE" "c \<noteq> g"
  proof
    assume l: "Link c = Hash E b"
    from receivedD [OF i'(2) c that] obtain e t where "v_blocks L' (Link c) = Some (e, t)" "Opcode e = SEND"
      "Link e = Account c" "v_receivables L' (Account c, Link c) = None" .
    with l grow(2) append_settles(1) [OF step] show False by auto
  qed
  show "r \<noteq> Hash E b \<and> v_blocks L (Link c) = Some (d, r)" if "Opcode c = REWARD" "v_blocks L' (Link c) = Some (d, r)"
  proof -
    from rewardedD [OF i'(3) c that(1)] that(2) obtain e t where r: "r \<noteq> 0" "v_blocks L' r = Some (e, t)"
      "HasRepresentative d" "Representative d = Account c"
      "RewardAmount (RAI_NETWORK E) (Balance d) (Timestamp d) (Timestamp e) \<noteq> 0"
      "v_rewardables L' (Account c, Link c) = None"
      by (metis option.inject prod.inject)
    from append_successors [OF i(1) step that(2) r(1)] show ?thesis
    proof (elim disjE conjE)
      assume e: "extends E L d b L'" and rb: "r = Hash E b" and l: "Link c = Hash E d"
      with r(2) grow(2) have eb: "e = b" by simp
      have "Type d = Type b" using extends_head [OF i(8) e] by simp
      then have "HasRepresentative b" using r(3) by (cases d; cases b) simp_all
      then have "Opcode b \<noteq> REWARD" using REWARD_no_representative [OF wf] by blast
      from append_reward_entry [OF step e r(3) this] r(4-6) eb l show ?thesis by simp
    next
      assume old: "v_blocks L (Link c) = Some (d, r)"
      have "v_blocks L r \<noteq> None" using i(5) old r(1) unfolding successors_inv_def by blast
      with old append_step_fresh [OF i(1) step] show ?thesis by auto
    qed
  qed
qed

lemma append_rank:
  assumes inv: "history_inv E g L" and inv': "history_inv E g L'" and step: "append_step E L b L'" and wf: "block_wf b"
    and rank: "rank_ok g rank L"
  shows "\<exists>rank. rank_ok g rank L'"
proof -
  let ?r = "case v_blocks L (Link b) of Some (d, r) \<Rightarrow> r | None \<Rightarrow> 0"
  let ?top = "Suc (max (rank (Previous b)) (max (rank (Link b)) (rank ?r)))"
  have fresh: "v_blocks L (Hash E b) = None" by (rule append_step_fresh [OF history_parts(1) [OF inv] step])
  note un = append_unreferenced [OF inv inv' step wf]
  have "rank_ok g (rank(Hash E b := ?top)) L'"
    unfolding rank_ok_def
  proof (intro allI impI)
    fix h c s
    assume c: "v_blocks L' h = Some (c, s)"
    from append_step_block_cases [OF history_parts(1) [OF inv] step c]
    show "(Height c \<noteq> 0 \<longrightarrow> (rank(Hash E b := ?top)) (Previous c) < (rank(Hash E b := ?top)) h) \<and>
      (Opcode c = RECEIVE \<longrightarrow> c \<noteq> g \<longrightarrow> (rank(Hash E b := ?top)) (Link c) < (rank(Hash E b := ?top)) h) \<and>
      (Opcode c = REWARD \<longrightarrow> (\<forall>d r. v_blocks L' (Link c) = Some (d, r) \<longrightarrow>
         (rank(Hash E b := ?top)) r < (rank(Hash E b := ?top)) h))"
    proof (elim disjE conjE exE)
      assume "h = Hash E b" "c = b"
      with un [OF c] show ?thesis by (auto simp: less_Suc_eq_le)
    next
      fix s0 assume old: "v_blocks L h = Some (c, s0)"
      with fresh have "h \<noteq> Hash E b" by auto
      with old rank un [OF c] show ?thesis unfolding rank_ok_def by auto
    qed
  qed
  then show ?thesis by blast
qed

section \<open>Rolling back\<close>

lemma rollback_settles:
  assumes "rollback_step E L b L'" "block_wf b"
  shows "v_receivables L k \<noteq> None \<Longrightarrow> v_receivables L' k = None \<Longrightarrow> Opcode b = SEND \<and> k = (Link b, Hash E b)"
    "Opcode b = RECEIVE \<Longrightarrow> v_receivables L' (Account b, Link b) \<noteq> None"
    "v_rewardables L k \<noteq> None \<Longrightarrow> v_rewardables L' k = None \<Longrightarrow>
      \<exists>v p. rollback_ok E L b v \<and> rv_previous v = Some p \<and> k = (Representative p, Hash E p)"
    "Opcode b = REWARD \<Longrightarrow> v_rewardables L' (Account b, Link b) \<noteq> None"
proof -
  have "\<not> rv_delete_rewardable v" if "rollback_ok E L b v" "Opcode b = REWARD" for v
    using that REWARD_no_representative [OF assms(2)] by (auto simp: rollback_ok_def split: option.splits)
  with assms(1) show "Opcode b = REWARD \<Longrightarrow> v_rewardables L' (Account b, Link b) \<noteq> None"
    by cases (auto simp: remove_view_rewardables split: option.splits)
  show "v_receivables L k \<noteq> None \<Longrightarrow> v_receivables L' k = None \<Longrightarrow> Opcode b = SEND \<and> k = (Link b, Hash E b)"
    "Opcode b = RECEIVE \<Longrightarrow> v_receivables L' (Account b, Link b) \<noteq> None"
    using assms(1) by (cases; auto simp: unbind_view_def split: if_splits)+
  show "v_rewardables L k \<noteq> None \<Longrightarrow> v_rewardables L' k = None \<Longrightarrow>
      \<exists>v p. rollback_ok E L b v \<and> rv_previous v = Some p \<and> k = (Representative p, Hash E p)"
    using assms(1) by cases (auto simp: unbind_view_def remove_view_rewardables split: if_splits option.splits)
qed

lemma rollback_settled:
  assumes inv: "history_inv E g L" and step: "rollback_step E L b L'" and settled: "settled_inv E L"
  shows "settled_inv E L'"
  unfolding settled_inv_def
proof (intro conjI allI impI)
  note i = history_parts [OF inv]
  obtain v where r: "retracts E L b v L'" by (rule rollback_step_shape [OF step])
  note h = retracts_head [OF i(1) r] and keeps = retracts_keeps [OF inv r] and old = retracts_old [OF inv r]
  have wf: "block_wf b" using i(6) h(1) unfolding stored_inv_def by blast
  note set = rollback_settles [OF step wf]
  fix x c s
  assume c: "v_blocks L' x = Some (c, s)" "Opcode c = SEND" "v_receivables L' (Link c, x) = None"
  obtain s0 where c0: "v_blocks L x = Some (c, s0)" "x \<noteq> Hash E b" by (rule old [OF c(1)])
  have "v_receivables L (Link c, x) = None" using set(1) [of "(Link c, x)"] c(3) c0(2) by fastforce
  from settled_received [OF settled c0(1) c(2) this] obtain y d t where
    d: "v_blocks L y = Some (d, t)" "Opcode d = RECEIVE" "Account d = Link c" "Link d = x" .
  have "y \<noteq> Hash E b" using d h(1) set(2) c(3) by auto
  from keeps [OF d(1) this] d(2-4)
  show "\<exists>y d t. v_blocks L' y = Some (d, t) \<and> Opcode d = RECEIVE \<and> Account d = Link c \<and> Link d = x" by blast
next
  note i = history_parts [OF inv]
  obtain v where r: "retracts E L b v L'" by (rule rollback_step_shape [OF step])
  note h = retracts_head [OF i(1) r] and keeps = retracts_keeps [OF inv r] and old = retracts_old [OF inv r]
  have wf: "block_wf b" using i(6) h(1) unfolding stored_inv_def by blast
  note set = rollback_settles [OF step wf]
  fix x d y c t
  assume d: "v_blocks L' x = Some (d, y)" "y \<noteq> 0" and c: "v_blocks L' y = Some (c, t)" "HasRepresentative c"
    and a: "RewardAmount (RAI_NETWORK E) (Balance d) (Timestamp d) (Timestamp c) \<noteq> 0"
    and none: "v_rewardables L' (Representative d, x) = None"
  have d0: "v_blocks L x = Some (d, y)" "y \<noteq> Hash E b" using old [OF d(1)] d(2) by (metis, metis)
  obtain t0 where c0: "v_blocks L y = Some (c, t0)" by (rule old [OF c(1)])
  have "v_rewardables L (Representative d, x) = None"
  proof (rule ccontr)
    assume "v_rewardables L (Representative d, x) \<noteq> None"
    from set(3) [OF this none] obtain w p where w: "rollback_ok E L b w" "rv_previous w = Some p" "x = Hash E p" by auto
    then have "Height b \<noteq> 0" "v_blocks L (Previous b) \<noteq> None" by (auto simp: rollback_ok_def)
    from stored_previous [OF inv h(1) this(1)] obtain q where q: "v_blocks L (Previous b) = Some (q, Hash E b)" .
    with w have "q = p" by (auto simp: rollback_ok_def)
    moreover have "Hash E q = Previous b" using i(7) q unfolding blocks_inv_def by blast
    ultimately show False using d0 q w(3) by auto
  qed
  from settled_rewarded [OF settled d0(1) d(2) c0 c(2) a this] obtain z w t where
    w: "v_blocks L z = Some (w, t)" "Opcode w = REWARD" "Account w = Representative d" "Link w = x" .
  have "z \<noteq> Hash E b" using w h(1) set(4) none by auto
  from keeps [OF w(1) this] w(2-4)
  show "\<exists>z w t. v_blocks L' z = Some (w, t) \<and> Opcode w = REWARD \<and> Account w = Representative d \<and> Link w = x" by blast
qed

lemma rollback_rank:
  assumes inv: "history_inv E g L" and inv': "history_inv E g L'" and step: "rollback_step E L b L'" and rank: "rank_ok g rank L"
  shows "rank_ok g rank L'"
  unfolding rank_ok_def
proof (intro allI impI)
  obtain v where r: "retracts E L b v L'" by (rule rollback_step_shape [OF step])
  note old = retracts_old [OF inv r] and i' = history_parts [OF inv']
  fix h c s
  assume c: "v_blocks L' h = Some (c, s)"
  obtain s0 where c0: "v_blocks L h = Some (c, s0)" by (rule old [OF c])
  have "rank y < rank h" if "Opcode c = REWARD" "v_blocks L' (Link c) = Some (d, y)" for d y
  proof -
    have "y \<noteq> 0" using rewardedD [OF i'(3) c that(1)] that(2) by (metis option.inject prod.inject)
    then have "v_blocks L (Link c) = Some (d, y)" using old [OF that(2)] by metis
    with rank c0 that(1) show ?thesis unfolding rank_ok_def by blast
  qed
  with rank c0 show "(Height c \<noteq> 0 \<longrightarrow> rank (Previous c) < rank h) \<and> (Opcode c = RECEIVE \<longrightarrow> c \<noteq> g \<longrightarrow> rank (Link c) < rank h) \<and>
    (Opcode c = REWARD \<longrightarrow> (\<forall>d r. v_blocks L' (Link c) = Some (d, r) \<longrightarrow> rank r < rank h))"
    unfolding rank_ok_def by blast
qed

section \<open>Reachable ledgers\<close>

lemma causal_cong:
  assumes "v_blocks L' = v_blocks L" "v_receivables L' = v_receivables L" "v_rewardables L' = v_rewardables L"
  shows "causal E g L' = causal E g L"
  using assms by (simp add: causal_def settled_inv_def rank_ok_def)

lemma causal_at_time [simp]: "causal (at_time E t) g L = causal E g L"
  by (simp add: causal_def settled_inv_def)

lemma reachable_causal:
  assumes "reachable E U g L" "universe E g U"
  shows "causal E g L"
  using assms
proof induction
  case (genesis m)
  have g: "Opcode g = RECEIVE" "Height g = 0" using genesis by (simp_all add: universe_def genesis_ok_def)
  have "v_blocks (genesis_view E g m) = [Hash E g \<mapsto> (g, 0)]"
    by (simp add: genesis_view_def empty_view_def first_view_def)
  with g have "settled_inv E (genesis_view E g m)" "rank_ok g (\<lambda>_. 0) (genesis_view E g m)"
    by (auto simp: settled_inv_def rank_ok_def split: if_splits)
  then show ?case by (auto simp: causal_def)
next
  case (append L t b L')
  have b: "sane E b" "block_wf b" using append by (auto simp: universe_def admissible_def)
  have inv: "history_inv (at_time E t) g L" "history_inv (at_time E t) g L'"
    using reachable_history [OF append(1,5)] reachable_history [OF reachable.append [OF append(1-3)] append(5)] by simp_all
  have "causal (at_time E t) g L" using append by simp
  then have "causal (at_time E t) g L'"
    using append_settled [OF inv(1) append(2) b(2)] append_rank [OF inv append(2) b(2)] by (auto simp: causal_def)
  then show ?case by simp
next
  case (rollback L t b L')
  have inv: "history_inv (at_time E t) g L" "history_inv (at_time E t) g L'"
    using reachable_history [OF rollback(1,4)] reachable_history [OF reachable.rollback [OF rollback(1,2)] rollback(4)] by simp_all
  have "causal (at_time E t) g L" using rollback by simp
  then have "causal (at_time E t) g L'"
    using rollback_settled [OF inv(1) rollback(2)] rollback_rank [OF inv rollback(2)] by (auto simp: causal_def)
  then show ?case by simp
next
  case (confirm L b s info)
  then show ?case using causal_cong [of "confirm_view info b L" L] by (simp add: confirm_view_def)
next
  case (commit L)
  then show ?case using causal_cong [of "commit_view L" L] by (simp add: commit_view_def)
next
  case (forks L L')
  then show ?case using causal_cong [of L' L] by (auto simp: same_but_forks_def)
qed

end
