(* ===== verification/Forks.thy ===== *)
theory Forks
  imports AppendComplete
begin

text \<open>
  Iteration over the fork table, from \<open>rai/secure/ledger.cpp\<close>: the cursor range of one account, and
  the deletion of all its forks. The store orders its keys bytewise, so the entries between the
  lower and the upper bound of an account are those with its 32 bytes in front; the lemmas
  read the range off the view of the ledger.
\<close>

section \<open>Keys in the order of the store\<close>

fun bytes_less :: "bytes \<Rightarrow> bytes \<Rightarrow> bool" where
  "bytes_less xs [] \<longleftrightarrow> False"
| "bytes_less [] (y # ys) \<longleftrightarrow> True"
| "bytes_less (x # xs) (y # ys) \<longleftrightarrow> x < y \<or> x = y \<and> bytes_less xs ys"

definition ForkLowerBound :: "u256 \<Rightarrow> bytes" where
  "ForkLowerBound account = height_key (account, 0)"

definition ForkUpperBound :: "u256 \<Rightarrow> bytes" where
  "ForkUpperBound account = height_key (account, - 1)"

text \<open>The entries that a cursor visits from the lower bound until it meets the upper bound.\<close>

definition ForkRange :: "'db lmdb \<Rightarrow> 'db transaction \<Rightarrow> u256 \<Rightarrow> (bytes \<times> bytes) list" where
  "ForkRange M txn account =
     filter (\<lambda>e. \<not> bytes_less (fst e) (ForkLowerBound account) \<and> bytes_less (fst e) (ForkUpperBound account))
       (mdb_entries M (txn_db txn) FORKS)"

definition ForkGet_iterator :: "bytes \<times> bytes \<Rightarrow> (block \<times> block) option" where
  "ForkGet_iterator it = (if snd it = [] then None else decode_fork (snd it))"

fun ForkDel_heights ::
  "'db lmdb \<Rightarrow> 'db transaction \<Rightarrow> u256 \<Rightarrow> u64 list \<Rightarrow> bool \<times> 'db transaction" where
  "ForkDel_heights M txn account [] = (False, txn)"
| "ForkDel_heights M txn account (height # heights) =
     (case ForkDel_height M txn account height of (error, txn) \<Rightarrow>
        if error then (True, txn) else ForkDel_heights M txn account heights)"

fun ForkDel_collect :: "u256 \<Rightarrow> (bytes \<times> bytes) list \<Rightarrow> u64 list option" where
  "ForkDel_collect account [] = Some []"
| "ForkDel_collect account (it # its) = (case ForkGet_iterator it of
     None \<Rightarrow> None
   | Some (first, second) \<Rightarrow>
       if Account first \<noteq> account then None
       else map_option (\<lambda>heights. Height first # heights) (ForkDel_collect account its))"

definition ForkDel :: "'db lmdb \<Rightarrow> 'db transaction \<Rightarrow> u256 \<Rightarrow> bool \<times> 'db transaction" where
  "ForkDel M txn account =
     (if \<not> txn_write txn then (True, txn)
      else case ForkDel_collect account (ForkRange M txn account) of
        None \<Rightarrow> (True, txn)
      | Some heights \<Rightarrow> ForkDel_heights M txn account heights)"

section \<open>The range on the view\<close>

lemma be_val_Cons: "be_val (x # xs) = unat x * 256 ^ length xs + be_val xs"
proof (induction xs rule: rev_induct)
  case (snoc y ys)
  then show ?case using be_val_snoc [of "x # ys" y] by (simp add: algebra_simps)
qed (simp add: be_val_def)

lemma be_val_append: "be_val (xs @ ys) = be_val xs * 256 ^ length ys + be_val ys"
  by (induction xs) (simp_all add: be_val_Cons power_add algebra_simps)

lemma bytes_less_be_val: "length xs = length ys \<Longrightarrow> bytes_less xs ys \<longleftrightarrow> be_val xs < be_val ys"
proof (induction xs ys rule: list_induct2)
  case (Cons x xs y ys)
  let ?n = "256 ^ length ys :: nat"
  have b: "be_val xs < ?n" "be_val ys < ?n" using be_val_bound [of xs] be_val_bound [of ys] Cons.hyps by simp_all
  have lt: "unat u * ?n + p < unat w * ?n + q" if "u < w" "p < ?n" for u w :: u8 and p q
  proof -
    have "Suc (unat u) * ?n \<le> unat w * ?n"
      using that(1) by (intro mult_le_mono1) (simp add: word_less_nat_alt)
    with that(2) show ?thesis by simp
  qed
  consider "x < y" | "x = y" | "y < x" by fastforce
  then show ?case
    using Cons lt [of x y "be_val xs" "be_val ys"] lt [of y x "be_val ys" "be_val xs"] b
    by cases (auto simp: be_val_Cons)
qed simp

lemma be_val_Write: "be_val (Write (w :: 'a::len word)) = unat w" if "8 dvd LENGTH('a)"
  using unat_less [of w] by (simp add: Write_def be_val_be_bytes pow_256 [OF that])

lemma height_key_less:
  "bytes_less (height_key (a, n)) (height_key (b, m)) \<longleftrightarrow> a < b \<or> a = b \<and> n < m"
proof -
  have "bytes_less (height_key (a, n)) (height_key (b, m)) \<longleftrightarrow>
      unat a * 2 ^ 64 + unat n < unat b * 2 ^ 64 + unat m"
    by (simp add: height_key_def bytes_less_be_val be_val_append be_val_Write)
  also have "\<dots> \<longleftrightarrow> unat a < unat b \<or> unat a = unat b \<and> unat n < unat m"
    using unat_less [of n] unat_less [of m] by auto
  finally show ?thesis by (simp add: word_less_nat_alt word_unat_eq_iff)
qed

lemma height_key_in_range:
  "\<not> bytes_less (height_key (b, n)) (ForkLowerBound a) \<and> bytes_less (height_key (b, n)) (ForkUpperBound a) \<longleftrightarrow>
   b = a \<and> n \<noteq> - 1"
  by (auto simp: ForkLowerBound_def ForkUpperBound_def height_key_less word_order.not_eq_extremum)

definition fork_heights :: "ledger_view \<Rightarrow> u256 \<Rightarrow> u64 set" where
  "fork_heights L a = {n. v_forks L (a, n) \<noteq> None \<and> n \<noteq> INVALID_HEIGHT}"

lemma ForkRange_view:
  assumes "lmdb_laws M" "ledger_rel M txn L"
  obtains hs where "distinct hs" "set hs = fork_heights L a"
    "ForkRange M txn a = map (\<lambda>n. (height_key (a, n), enc_fork (the (v_forks L (a, n))))) hs"
proof -
  let ?es = "mdb_entries M (txn_db txn) FORKS" and ?R = "ForkRange M txn a"
  have t: "table_rel M (txn_db txn) FORKS height_key enc_fork fork_ok (v_forks L)"
    using assms(2) by (simp add: ledger_rel_def)
  note ent = mdb_entries_get [OF assms(1)]
  have entry: "\<exists>n. n \<noteq> INVALID_HEIGHT \<and> v_forks L (a, n) \<noteq> None \<and>
      e = (height_key (a, n), enc_fork (the (v_forks L (a, n))))" if "e \<in> set ?R" for e
  proof -
    obtain k v where e: "e = (k, v)" by fastforce
    have in_e: "(k, v) \<in> set ?es" using that e by (simp add: ForkRange_def)
    then have get: "mdb_get M (txn_db txn) FORKS k = Some v" using ent(1) by blast
    then obtain b n where k: "k = height_key (b, n)" using t unfolding table_rel_def by fastforce
    with that e have "b = a" "n \<noteq> - 1" using height_key_in_range [of b n a] by (simp_all add: ForkRange_def)
    moreover have "map_option enc_fork (v_forks L (b, n)) = Some v" using get k table_rel_value(1) [OF t] by metis
    ultimately show ?thesis using e k by (auto simp: INVALID_HEIGHT_def)
  qed
  let ?F = "\<lambda>n. (height_key (a, n), enc_fork (the (v_forks L (a, n))))"
  from entry have "\<exists>hs. ?R = map ?F hs" unfolding ex_map_conv by blast
  then obtain hs where hs: "?R = map ?F hs" ..
  have mem: "n \<in> set hs \<longleftrightarrow> ?F n \<in> set ?R" for n unfolding hs by (auto simp: height_key_inject)
  have "distinct (map fst ?R)" using ent(2) by (simp add: ForkRange_def distinct_map_filter)
  then have "distinct (map (\<lambda>n. height_key (a, n)) hs)" by (simp add: hs comp_def)
  then have "distinct hs" by (simp add: distinct_map)
  moreover have "set hs = fork_heights L a"
  proof (intro set_eqI iffI)
    fix n assume "n \<in> set hs"
    then have "?F n \<in> set ?R" using mem by blast
    from entry [OF this] show "n \<in> fork_heights L a" by (auto simp: fork_heights_def height_key_inject)
  next
    fix n assume "n \<in> fork_heights L a"
    then obtain f where f: "v_forks L (a, n) = Some f" "n \<noteq> - 1" by (auto simp: fork_heights_def INVALID_HEIGHT_def)
    have "mdb_get M (txn_db txn) FORKS (height_key (a, n)) = Some (enc_fork f)"
      using table_rel_value(1) [OF t, of "(a, n)"] f by simp
    then have "?F n \<in> set ?R"
      using ent(1) height_key_in_range [of a n a] f by (simp add: ForkRange_def)
    then show "n \<in> set hs" using mem by blast
  qed
  ultimately show thesis using hs by (rule that)
qed

text \<open>A stored fork is a pair of blocks of the account and the height it is stored under.\<close>

definition forks_inv :: "ledger_view \<Rightarrow> bool" where
  "forks_inv L \<longleftrightarrow> (\<forall>a n f s. v_forks L (a, n) = Some (f, s) \<longrightarrow>
     Account f = a \<and> Height f = n \<and> Account s = a \<and> Height s = n)"

lemma ForkGet_iterator_view:
  assumes "ledger_rel M txn L" "v_forks L k = Some f"
  shows "ForkGet_iterator (height_key k, enc_fork f) = Some f"
proof -
  have "fork_ok f" using assms unfolding ledger_rel_def table_rel_def by blast
  moreover have "Serialize b \<noteq> []" for b by (cases b) (auto simp: TxBlock_Serialize_def RepBlock_Serialize_def AdBlock_Serialize_def Write_def)
  then have "enc_fork f \<noteq> []" by (simp add: enc_fork_def)
  ultimately show ?thesis by (simp add: ForkGet_iterator_def fork_codec)
qed

lemma ForkDel_collect_view:
  assumes "ledger_rel M txn L" "forks_inv L" "set hs \<subseteq> fork_heights L a"
  shows "ForkDel_collect a (map (\<lambda>n. (height_key (a, n), enc_fork (the (v_forks L (a, n))))) hs) = Some hs"
  using assms(3)
proof (induction hs)
  case (Cons n hs)
  then obtain f s where "v_forks L (a, n) = Some (f, s)" by (auto simp: fork_heights_def)
  with Cons assms(2) ForkGet_iterator_view [OF assms(1), of "(a, n)"] show ?case
    by (auto simp: forks_inv_def)
qed simp

lemma ForkDel_heights_rel:
  assumes "lmdb_laws M" "ledger_rel M txn L" "ForkDel_heights M txn a hs = (False, txn')"
  shows "ledger_rel M txn' (L\<lparr>v_forks := (\<lambda>k. if fst k = a \<and> snd k \<in> set hs then None else v_forks L k)\<rparr>)"
  using assms(2,3)
proof (induction hs arbitrary: txn L)
  case Nil
  then show ?case by simp
next
  case (Cons n hs)
  obtain t where t: "ForkDel_height M txn a n = (False, t)" "ForkDel_heights M t a hs = (False, txn')"
    using Cons.prems(2) by (auto split: prod.splits if_splits)
  from Cons.IH [OF ForkDel_height_rel [OF t(1) assms(1) Cons.prems(1)] t(2)]
  show ?case by (simp add: fun_eq_iff cong: if_cong) (rule back_subst [of "\<lambda>f. ledger_rel M txn' (L\<lparr>v_forks := f\<rparr>)"], assumption, auto simp: fun_eq_iff)
qed

lemma ForkDel_heights_total:
  assumes "writable M txn" "ledger_rel M txn L" "distinct hs" "set hs \<subseteq> {n. v_forks L (a, n) \<noteq> None}"
  shows "\<exists>t. ForkDel_heights M txn a hs = (False, t) \<and> writable M t"
  using assms
proof (induction hs arbitrary: txn L)
  case (Cons n hs)
  have "mdb_get M (txn_db txn) FORKS (height_key (a, n)) \<noteq> None"
    using Cons.prems(2,4) forks.tbl_exists [of M "txn_db txn" FORKS "v_forks L" "(a, n)"] by (auto simp: ledger_rel_def)
  then obtain t where t: "ForkDel_height M txn a n = (False, t)" "writable M t"
    using Store_Del_total [OF Cons.prems(1)] Cons.prems(1) by (fastforce simp: ForkDel_height_def writable_def)
  have "set hs \<subseteq> {m. ((v_forks L)((a, n) := None)) (a, m) \<noteq> None}" using Cons.prems(3,4) by auto
  with Cons.IH [OF t(2) ForkDel_height_rel [OF t(1) writable_laws [OF Cons.prems(1)] Cons.prems(2)]] Cons.prems(3) t
  show ?case by (simp del: fun_upd_apply)
qed simp

end
