(* ===== verification/Processor.thy ===== *)
theory Processor
  imports WorkQueue Forks RollbackInv
begin

text \<open>
  Class \<open>BlockProcessor\<close> of \<open>rai/node/blockprocessor.cpp\<close> around the ledger operations: what it does
  with an ordinary block, a fork, and a forced operation. A forced operation keeps a stack
  of blocks to append, roll back, prepend or confirm, and may have to wait for a block that is
  queried from the network; the loop over the stack takes fuel and returns \<open>None\<close> when it
  runs out.

  The calls to the rest of the node (observers, publishing, queries, elections) are recorded
  as events in the order they are made. A failed \<open>assert(0)\<close> and the use of a null block are events
  too, so that a theorem can say that they do not happen. While one work item
  is processed the clocks do not advance.
\<close>

section \<open>State\<close>

datatype event =
  Block_Observed block_process_result block
| Block_Published block
| Block_Queried u256 u64 u256 bool u64
| Fork_Observed bool block block
| Fork_Broadcast block block
| Election_Started block block
| Assertion_Failed
| Null_Block

record block_dynamic =
  bd_operation :: block_operation
  bd_block :: "block option"

record 'db processor =
  bp_ledger :: "'db ledger"
  bp_operation :: u64
  blocks_dynamic :: "u64 \<Rightarrow> block_dynamic list option"
  accounts_dynamic :: "u64 \<Rightarrow> u256 list option"
  roots_dynamic :: "u64 \<Rightarrow> u256 option"
  bp_queues :: work_queues
  previous_gap_cache :: gap_cache
  receive_source_gap_cache :: gap_cache
  reward_source_gap_cache :: gap_cache
  bp_events :: "event list"

definition emit :: "event \<Rightarrow> 'db processor \<Rightarrow> 'db processor" where
  "emit e p = p\<lparr>bp_events := bp_events p @ [e]\<rparr>"

text \<open>\<open>block_observer_\<close> and the dumper that is called beside it.\<close>

definition block_observer :: "block_operation \<Rightarrow> error_code \<Rightarrow> u64 \<Rightarrow> block \<Rightarrow> 'db processor \<Rightarrow> 'db processor" where
  "block_observer operation error_code last_confirm_height block =
     emit (Block_Observed \<lparr>pr_operation = operation, pr_error_code = error_code,
       pr_last_confirm_height = last_confirm_height\<rparr> block)"

text \<open>A transaction over the ledger: the destructor commits or drops what it wrote.\<close>

definition close :: "'db lmdb \<Rightarrow> 'db transaction \<Rightarrow> 'db processor \<Rightarrow> 'db processor" where
  "close M txn p = p\<lparr>bp_ledger := Transaction_end M (bp_ledger p) txn\<rparr>"

definition Processor_Add :: "env \<Rightarrow> time_point \<Rightarrow> 'db processor \<Rightarrow> block \<Rightarrow> 'db processor" where
  "Processor_Add E now p block =
     (case BlockProcessor_Add E now (bp_queues p) block of (dropped, q) \<Rightarrow>
        fold (block_observer DROP SUCCESS 0) dropped (p\<lparr>bp_queues := q\<rparr>))"

definition QueueGapCaches :: "env \<Rightarrow> time_point \<Rightarrow> 'db processor \<Rightarrow> u256 \<Rightarrow> 'db processor" where
  "QueueGapCaches E now p hash =
     (let p = (case GapCache_Query (previous_gap_cache p) hash of
            None \<Rightarrow> p
          | Some gap \<Rightarrow> (Processor_Add E now p (gap_block gap))
              \<lparr>previous_gap_cache := GapCache_Remove (previous_gap_cache p) hash\<rparr>);
          p = (case GapCache_Query (receive_source_gap_cache p) hash of
            None \<Rightarrow> p
          | Some gap \<Rightarrow> (Processor_Add E now p (gap_block gap))
              \<lparr>receive_source_gap_cache := GapCache_Remove (receive_source_gap_cache p) hash\<rparr>)
      in (case GapCache_Query (reward_source_gap_cache p) hash of
            None \<Rightarrow> p
          | Some gap \<Rightarrow> (Processor_Add E now p (gap_block gap))
              \<lparr>reward_source_gap_cache := GapCache_Remove (reward_source_gap_cache p) hash\<rparr>))"

section \<open>Ordinary blocks\<close>

text \<open>The codes that the switch of \<open>ProcessBlock_\<close> lists without further work.\<close>

definition rejected_codes :: "error_code list" where
  "rejected_codes =
     [BLOCK_PROCESS_SIGNATURE, BLOCK_PROCESS_EXISTS, BLOCK_PROCESS_PREVIOUS, BLOCK_PROCESS_OPCODE,
      BLOCK_PROCESS_CREDIT, BLOCK_PROCESS_COUNTER, BLOCK_PROCESS_TIMESTAMP, BLOCK_PROCESS_BALANCE,
      BLOCK_PROCESS_UNRECEIVABLE, BLOCK_PROCESS_UNREWARDABLE, BLOCK_PROCESS_PRUNED,
      BLOCK_PROCESS_TYPE_MISMATCH, BLOCK_PROCESS_REPRESENTATIVE, BLOCK_PROCESS_LINK,
      BLOCK_PROCESS_LEDGER_BLOCK_PUT, BLOCK_PROCESS_LEDGER_SUCCESSOR_SET,
      BLOCK_PROCESS_LEDGER_BLOCK_GET, BLOCK_PROCESS_TYPE_UNKNOWN,
      BLOCK_PROCESS_LEDGER_RECEIVABLE_INFO_PUT, BLOCK_PROCESS_LEDGER_RECEIVABLE_INFO_DEL,
      BLOCK_PROCESS_ACCOUNT_EXCEED_TRANSACTIONS, BLOCK_PROCESS_LEDGER_REWARDABLE_INFO_PUT,
      BLOCK_PROCESS_LEDGER_REWARDABLE_INFO_DEL, BLOCK_PROCESS_LEDGER_ACCOUNT_INFO_PUT,
      BLOCK_PROCESS_CHAIN, BLOCK_PROCESS_BINDING_COUNT, BLOCK_PROCESS_LEDGER_BINDING_ENTRY_PUT,
      BLOCK_PROCESS_LEDGER_BINDING_COUNT_PUT]"

definition ProcessBlock_switch ::
  "'db lmdb \<Rightarrow> env \<Rightarrow> time_point \<Rightarrow> 'db transaction \<Rightarrow> block \<Rightarrow> error_code \<Rightarrow> 'db processor \<Rightarrow>
     error_code \<times> 'db processor" where
  "ProcessBlock_switch M E now txn block error_code p =
     (if error_code = SUCCESS
      then (error_code, emit (Block_Published block) (QueueGapCaches E now p (Hash E block)))
      else if error_code \<in> set rejected_codes then (error_code, p)
      else if error_code = BLOCK_PROCESS_GAP_PREVIOUS
      then (error_code, p\<lparr>previous_gap_cache :=
        snd (GapCache_Insert (previous_gap_cache p) (GapInfo_new now (Previous block) block))\<rparr>)
      else if error_code = BLOCK_PROCESS_GAP_RECEIVE_SOURCE
      then (error_code, p\<lparr>receive_source_gap_cache :=
        snd (GapCache_Insert (receive_source_gap_cache p) (GapInfo_new now (Link block) block))\<rparr>)
      else if error_code = BLOCK_PROCESS_GAP_REWARD_SOURCE
      then (error_code, p\<lparr>reward_source_gap_cache :=
        snd (GapCache_Insert (reward_source_gap_cache p) (GapInfo_new now (Link block) block))\<rparr>)
      else if error_code = BLOCK_PROCESS_FORK
      then (case BlockGet_height M txn (Account block) (Height block) of
          None \<Rightarrow> (BLOCK_PROCESS_LEDGER_INCONSISTENT, p)
        | Some block_l \<Rightarrow> (error_code, p\<lparr>bp_queues := BlockProcessor_AddFork (bp_queues p)
            \<lparr>fk_first = block_l, fk_second = block, fk_from_local = True\<rparr>\<rparr>))
      else (error_code, emit Assertion_Failed p))"

definition ProcessBlock ::
  "'db lmdb \<Rightarrow> env \<Rightarrow> time_point \<Rightarrow> 'db processor \<Rightarrow> block \<Rightarrow> bool \<Rightarrow> 'db processor" where
  "ProcessBlock M E now p block ignore_fork =
     (if \<not> mdb_txn_begin M (l_store (bp_ledger p)) then block_observer DROP MDB_TXN_BEGIN 0 block p
      else case AppendBlock M E (Transaction_new (bp_ledger p) True) block of (error_code, txn) \<Rightarrow>
        if error_code = BLOCK_PROCESS_FORK \<and> ignore_fork then close M (Transaction_Abort txn) p
        else case ProcessBlock_switch M E now txn block error_code p of (error_code, p) \<Rightarrow>
          let p = close M (if error_code \<noteq> SUCCESS then Transaction_Abort txn else txn) p
          in block_observer APPEND error_code 0 block p)"

section \<open>Forks\<close>

record fork_outcome =
  fo_del :: "(block \<times> block) option"
  fo_broadcast :: bool
  fo_election :: bool

text \<open>How the \<open>do\<close> block of \<open>ProcessBlockFork_\<close> ends: a \<open>return\<close> from the function, a failed \<open>assert(0)\<close>
  before the return, or falling out of the block.\<close>

datatype fork_result = Fork_Return | Fork_Assert | Fork_Done fork_outcome

fun Fork_highest ::
  "u256 \<Rightarrow> (bytes \<times> bytes) list \<Rightarrow> u64 \<Rightarrow> (block \<times> block) option \<Rightarrow> (u64 \<times> (block \<times> block) option) option" where
  "Fork_highest account [] max_height del = Some (max_height, del)"
| "Fork_highest account (it # its) max_height del = (case ForkGet_iterator it of
     None \<Rightarrow> None
   | Some (first, second) \<Rightarrow>
       if Account first \<noteq> account then None
       else if Height first > max_height then Fork_highest account its (Height first) (Some (first, second))
       else Fork_highest account its max_height del)"

definition ProcessBlockFork_body ::
  "'db lmdb \<Rightarrow> env \<Rightarrow> 'db transaction \<Rightarrow> block \<Rightarrow> block \<Rightarrow> fork_result \<times> 'db transaction" where
  "ProcessBlockFork_body M E txn first second =
     (let account = Account first; height = Height first in
      case AccountInfoGet M txn account of
        None \<Rightarrow> (Fork_Return, txn)
      | Some info \<Rightarrow>
      if \<not> AccountInfo_Valid info \<or> height > ai_head_height info then (Fork_Return, txn) else
      let election = (ai_confirmed_height info = INVALID_HEIGHT \<or> ai_confirmed_height info < height) in
      if ForkExists M txn account height
      then (Fork_Done \<lparr>fo_del = None, fo_broadcast = False, fo_election = election\<rparr>, txn) else
      case BlockGet M txn (ai_head info) of
        None \<Rightarrow> (Fork_Return, txn)
      | Some head \<Rightarrow>
      if ucast (ai_forks info) < MaxAllowedForks (RAI_NETWORK E) (CurrentTimestamp E) (ucast (Credit head)) + 2
      then
        (case ForkPut M txn account height first second of (error, txn) \<Rightarrow>
          if error then (Fork_Return, Transaction_Abort txn) else
          case AccountInfoPut M txn account (info\<lparr>ai_forks := ai_forks info + 1\<rparr>) of (error, txn) \<Rightarrow>
          if error then (Fork_Return, Transaction_Abort txn) else
          (Fork_Done \<lparr>fo_del = None, fo_broadcast = True, fo_election = election\<rparr>, txn))
      else
        case Fork_highest account (ForkRange M txn account) height None of
          None \<Rightarrow> (Fork_Assert, Transaction_Abort txn)
        | Some (max_height, del) \<Rightarrow>
        if max_height = height then (Fork_Return, txn) else
        case del of
          None \<Rightarrow> (Fork_Assert, Transaction_Abort txn)
        | Some (del_first, del_second) \<Rightarrow>
        if Height del_first \<noteq> max_height then (Fork_Assert, Transaction_Abort txn) else
        (case ForkDel_height M txn account max_height of (error, txn) \<Rightarrow>
          if error then (Fork_Return, Transaction_Abort txn) else
          case ForkPut M txn account height first second of (error, txn) \<Rightarrow>
          if error then (Fork_Return, Transaction_Abort txn) else
          (Fork_Done \<lparr>fo_del = del, fo_broadcast = True, fo_election = election\<rparr>, txn)))"

definition ProcessBlockFork ::
  "'db lmdb \<Rightarrow> env \<Rightarrow> 'db processor \<Rightarrow> block \<Rightarrow> block \<Rightarrow> 'db processor" where
  "ProcessBlockFork M E p first second =
     (if \<not> ForkWith first second then p
      else if \<not> mdb_txn_begin M (l_store (bp_ledger p)) then p
      else case ProcessBlockFork_body M E (Transaction_new (bp_ledger p) True) first second of (outcome, txn) \<Rightarrow>
        let p = close M txn p in
        case outcome of
          Fork_Return \<Rightarrow> p
        | Fork_Assert \<Rightarrow> emit Assertion_Failed p
        | Fork_Done out \<Rightarrow>
            let p = (case fo_del out of None \<Rightarrow> p
                     | Some (del_first, del_second) \<Rightarrow> emit (Fork_Observed False del_first del_second) p);
                p = (if fo_broadcast out
                     then emit (Fork_Observed True first second) (emit (Fork_Broadcast first second) p) else p)
            in if fo_election out then emit (Election_Started first second) p else p)"

text \<open>\<open>UpdateForks_\<close> for one account: entries above the head go, the rest are counted in 16 bits.
  Errors are only logged.\<close>

fun UpdateForks_scan :: "u256 \<Rightarrow> u64 \<Rightarrow> (bytes \<times> bytes) list \<Rightarrow> u16 \<Rightarrow> u64 list \<Rightarrow> u16 \<times> u64 list" where
  "UpdateForks_scan account head_height [] count heights = (count, heights)"
| "UpdateForks_scan account head_height (it # its) count heights = (case ForkGet_iterator it of
     None \<Rightarrow> UpdateForks_scan account head_height its count heights
   | Some (first, second) \<Rightarrow>
       if Account first \<noteq> account then UpdateForks_scan account head_height its count heights
       else if Height first > head_height
       then UpdateForks_scan account head_height its count (heights @ [Height first])
       else UpdateForks_scan account head_height its (count + 1) heights)"

fun UpdateForks_delete :: "'db lmdb \<Rightarrow> 'db transaction \<Rightarrow> u256 \<Rightarrow> u64 list \<Rightarrow> 'db transaction" where
  "UpdateForks_delete M txn account [] = txn"
| "UpdateForks_delete M txn account (height # heights) =
     UpdateForks_delete M (snd (ForkDel_height M txn account height)) account heights"

definition UpdateForks_account :: "'db lmdb \<Rightarrow> 'db transaction \<Rightarrow> u256 \<Rightarrow> 'db transaction" where
  "UpdateForks_account M txn account = (case AccountInfoGet M txn account of
     None \<Rightarrow> snd (ForkDel M txn account)
   | Some info \<Rightarrow>
       if \<not> AccountInfo_Valid info then snd (ForkDel M txn account)
       else case UpdateForks_scan account (ai_head_height info) (ForkRange M txn account) 0 [] of
         (count, heights) \<Rightarrow>
           let txn = UpdateForks_delete M txn account heights in
           if count \<noteq> ai_forks info
           then snd (AccountInfoPut M txn account (info\<lparr>ai_forks := count\<rparr>)) else txn)"

definition UpdateForks :: "'db lmdb \<Rightarrow> 'db processor \<Rightarrow> u256 list \<Rightarrow> 'db processor" where
  "UpdateForks M p accounts =
     (if \<not> mdb_txn_begin M (l_store (bp_ledger p)) then p
      else close M (fold (\<lambda>a txn. UpdateForks_account M txn a) accounts (Transaction_new (bp_ledger p) True)) p)"

end
