(* ===== verification/Dynamic.thy ===== *)
theory Dynamic
  imports Processor
begin

text \<open>
  The forced operations of \<open>rai/node/blockprocessor.cpp\<close>: \<open>ProcessBlockForced_\<close>,
  \<open>ProcessBlockDynamic_\<close> with its four operations on the ledger, and the queries for missing blocks.
  The top of a stack is the head of the list.
\<close>

section \<open>Operation numbers\<close>

text \<open>\<open>operation_++\<close> until the number is not one of the fixed operations.\<close>

function DynamicOpration :: "u64 \<Rightarrow> u64 \<times> u64" where
  "DynamicOpration operation =
     (if operation < of_block_operation DYNAMIC_BEGIN then DynamicOpration (operation + 1)
      else (operation, operation + 1))"
  by auto
termination
proof (relation "measure (\<lambda>x. 6 - unat x)")
  fix operation :: u64
  assume "operation < of_block_operation DYNAMIC_BEGIN"
  then have "unat operation < 6" by (simp add: word_less_nat_alt)
  moreover from this have "unat (operation + 1) = unat operation + 1" by (simp add: unat_word_ariths)
  ultimately show "(operation + 1, operation) \<in> measure (\<lambda>x. 6 - unat x)" by simp
qed simp

declare DynamicOpration.simps [simp del]

section \<open>Queries\<close>

definition QueryPrevious :: "'db processor \<Rightarrow> u64 \<Rightarrow> block \<Rightarrow> bool \<times> 'db processor" where
  "QueryPrevious p operation block =
     (if Height block = 0 then (True, p)
      else (False, emit (Block_Queried (Account block) (Height block - 1) (Previous block) False operation) p))"

definition QueryPrevious_account ::
  "'db lmdb \<Rightarrow> 'db transaction \<Rightarrow> 'db processor \<Rightarrow> u64 \<Rightarrow> u256 \<Rightarrow> bool \<times> 'db processor" where
  "QueryPrevious_account M txn p operation account = (case AccountInfoGet M txn account of
     None \<Rightarrow> (True, p)
   | Some info \<Rightarrow>
       if ai_tail_height info = INVALID_HEIGHT \<or> ai_tail_height info = 0 then (True, p)
       else case BlockGet M txn (ai_tail info) of
         None \<Rightarrow> (True, p)
       | Some block \<Rightarrow>
           (False, emit (Block_Queried (Account block) (Height block - 1) (Previous block) True operation) p))"

definition QuerySource :: "'db processor \<Rightarrow> u64 \<Rightarrow> u256 \<Rightarrow> 'db processor" where
  "QuerySource p operation hash = emit (Block_Queried 0 INVALID_HEIGHT hash False operation) p"

section \<open>One operation on the ledger\<close>

type_synonym dynamic_stack = "block_dynamic list"

definition push :: "block_operation \<Rightarrow> block option \<Rightarrow> dynamic_stack \<Rightarrow> dynamic_stack" where
  "push operation block stack = \<lparr>bd_operation = operation, bd_block = block\<rparr> # stack"

definition accounts_insert :: "u64 \<Rightarrow> u256 \<Rightarrow> 'db processor \<Rightarrow> 'db processor" where
  "accounts_insert operation account p =
     p\<lparr>accounts_dynamic := (accounts_dynamic p)(operation \<mapsto>
       List.insert account (case accounts_dynamic p operation of None \<Rightarrow> [] | Some as \<Rightarrow> as))\<rparr>"

definition ProcessBlockDynamicAppend ::
  "'db lmdb \<Rightarrow> env \<Rightarrow> time_point \<Rightarrow> u64 \<Rightarrow> dynamic_stack \<Rightarrow> block \<Rightarrow> 'db processor \<Rightarrow>
     error_code \<times> dynamic_stack \<times> 'db processor" where
  "ProcessBlockDynamicAppend M E now operation stack block p =
     (if \<not> mdb_txn_begin M (l_store (bp_ledger p)) then (MDB_TXN_BEGIN, stack, p)
      else case AppendBlock M E (Transaction_new (bp_ledger p) True) block of (error_code, txn) \<Rightarrow>
        if error_code = SUCCESS then (SUCCESS, stack, close M txn (QueueGapCaches E now p (Hash E block)))
        else if error_code \<in> {BLOCK_PROCESS_PREVIOUS, BLOCK_PROCESS_GAP_PREVIOUS, BLOCK_PROCESS_TYPE_MISMATCH}
        then (case QueryPrevious p operation block of (error, p) \<Rightarrow>
            if error then (error_code, stack, close M txn p)
            else (BLOCK_PROCESS_WAIT, push APPEND None stack, close M txn p))
        else if error_code = BLOCK_PROCESS_PRUNED
        then (case QueryPrevious_account M txn p operation (Account block) of (error, p) \<Rightarrow>
            if error then (error_code, stack, close M txn p)
            else (BLOCK_PROCESS_WAIT, push PREPEND None stack, close M txn p))
        else if error_code \<in> {BLOCK_PROCESS_GAP_RECEIVE_SOURCE, BLOCK_PROCESS_GAP_REWARD_SOURCE}
        then (BLOCK_PROCESS_WAIT, push APPEND None stack, close M txn (QuerySource p operation (Link block)))
        else if error_code = BLOCK_PROCESS_FORK
        then (case BlockGet_height M txn (Account block) (Height block) of
            None \<Rightarrow> (BLOCK_PROCESS_LEDGER_BLOCK_GET, stack, close M txn p)
          | Some fork_block \<Rightarrow> (BLOCK_PROCESS_CONTINUE, push ROLLBACK (Some fork_block) stack,
              close M txn (accounts_insert operation (Account fork_block) p)))
        else if error_code = BLOCK_PROCESS_EXISTS then (error_code, stack, close M txn p)
        else if error_code \<in> set rejected_codes then (error_code, stack, close M (Transaction_Abort txn) p)
        else (error_code, stack, close M (Transaction_Abort txn) (emit Assertion_Failed p)))"

definition ProcessBlockDynamicPrepend ::
  "'db lmdb \<Rightarrow> env \<Rightarrow> u64 \<Rightarrow> dynamic_stack \<Rightarrow> block \<Rightarrow> 'db processor \<Rightarrow>
     error_code \<times> dynamic_stack \<times> 'db processor" where
  "ProcessBlockDynamicPrepend M E operation stack block p =
     (if \<not> mdb_txn_begin M (l_store (bp_ledger p)) then (MDB_TXN_BEGIN, stack, p)
      else case PrependBlock M E (Transaction_new (bp_ledger p) True) block of (error_code, txn) \<Rightarrow>
        if error_code \<in> {SUCCESS, BLOCK_PROCESS_PREPEND_IGNORE} then (error_code, stack, close M txn p)
        else if error_code \<in> {BLOCK_PROCESS_LEDGER_BLOCK_GET, BLOCK_PROCESS_LEDGER_BLOCK_PUT,
          BLOCK_PROCESS_LEDGER_ACCOUNT_INFO_PUT, BLOCK_PROCESS_SIGNATURE}
        then (error_code, stack, close M (Transaction_Abort txn) p)
        else (error_code, stack, close M (Transaction_Abort txn) (emit Assertion_Failed p)))"

definition rollback_failures :: "error_code list" where
  "rollback_failures =
     [BLOCK_PROCESS_LEDGER_INCONSISTENT, BLOCK_PROCESS_ROLLBACK_NOT_EQUAL_TO_HEAD,
      BLOCK_PROCESS_LEDGER_RECEIVABLE_INFO_DEL, BLOCK_PROCESS_LEDGER_ACCOUNT_INFO_DEL,
      BLOCK_PROCESS_LEDGER_ACCOUNT_INFO_PUT, BLOCK_PROCESS_LEDGER_BLOCK_DEL,
      BLOCK_PROCESS_LEDGER_SUCCESSOR_SET, BLOCK_PROCESS_LEDGER_ROLLBACK_BLOCK_PUT,
      BLOCK_PROCESS_LEDGER_RECEIVABLE_INFO_PUT, BLOCK_PROCESS_LEDGER_REWARDABLE_INFO_PUT,
      BLOCK_PROCESS_LEDGER_BINDING_COUNT_PUT, BLOCK_PROCESS_LEDGER_BINDING_ENTRY_DEL,
      BLOCK_PROCESS_LEDGER_BINDING_COUNT_DEL]"

text \<open>The head block of an account, as two cases of the rollback look it up.\<close>

definition account_head :: "'db lmdb \<Rightarrow> 'db transaction \<Rightarrow> u256 \<Rightarrow> block option" where
  "account_head M txn account =
     (case AccountInfoGet M txn account of None \<Rightarrow> None | Some info \<Rightarrow> BlockGet M txn (ai_head info))"

definition push_rollback ::
  "'db lmdb \<Rightarrow> 'db transaction \<Rightarrow> u64 \<Rightarrow> dynamic_stack \<Rightarrow> error_code \<Rightarrow> block option \<Rightarrow> 'db processor \<Rightarrow>
     error_code \<times> dynamic_stack \<times> 'db processor" where
  "push_rollback M txn operation stack error_code found p = (case found of
     None \<Rightarrow> (error_code, stack, close M txn p)
   | Some b \<Rightarrow> (BLOCK_PROCESS_CONTINUE, push ROLLBACK (Some b) stack,
       close M txn (accounts_insert operation (Account b) p)))"

definition ProcessBlockDynamicRollback ::
  "'db lmdb \<Rightarrow> env \<Rightarrow> u64 \<Rightarrow> dynamic_stack \<Rightarrow> block \<Rightarrow> 'db processor \<Rightarrow>
     error_code \<times> dynamic_stack \<times> 'db processor" where
  "ProcessBlockDynamicRollback M E operation stack block p =
     (if \<not> mdb_txn_begin M (l_store (bp_ledger p)) then (MDB_TXN_BEGIN, stack, p)
      else case RollbackBlock M E (Transaction_new (bp_ledger p) True) block of (error_code, txn) \<Rightarrow>
        if error_code \<in> {SUCCESS, BLOCK_PROCESS_ROLLBACK_IGNORE} then (error_code, stack, close M txn p)
        else if error_code = BLOCK_PROCESS_ROLLBACK_TAIL
        then (case QueryPrevious_account M txn p operation (Account block) of (error, p) \<Rightarrow>
            if error then (error_code, stack, close M txn p)
            else (BLOCK_PROCESS_WAIT, push PREPEND None stack, close M txn p))
        else if error_code = BLOCK_PROCESS_ROLLBACK_NON_HEAD
        then push_rollback M txn operation stack error_code
          (case BlockSuccessorGet M txn (Hash E block) of None \<Rightarrow> None | Some hash \<Rightarrow> BlockGet M txn hash) p
        else if error_code = BLOCK_PROCESS_ROLLBACK_REWARDED
        then push_rollback M txn operation stack error_code
          (case BlockGet M txn (Previous block) of None \<Rightarrow> None
           | Some previous \<Rightarrow> account_head M txn (Representative previous)) p
        else if error_code = BLOCK_PROCESS_ROLLBACK_RECEIVED
        then push_rollback M txn operation stack error_code (account_head M txn (Link block)) p
        else if error_code = BLOCK_PROCESS_ROLLBACK_SOURCE_PRUNED
        then (BLOCK_PROCESS_WAIT, push APPEND None stack, close M txn (QuerySource p operation (Link block)))
        else if error_code \<in> set rollback_failures then (error_code, stack, close M (Transaction_Abort txn) p)
        else (error_code, stack, close M (Transaction_Abort txn) (emit Assertion_Failed p)))"

definition ProcessBlockDynamicConfirm ::
  "'db lmdb \<Rightarrow> env \<Rightarrow> u64 \<Rightarrow> dynamic_stack \<Rightarrow> block \<Rightarrow> u64 \<Rightarrow> 'db processor \<Rightarrow>
     error_code \<times> dynamic_stack \<times> u64 \<times> 'db processor" where
  "ProcessBlockDynamicConfirm M E operation stack block last_confirm_height p =
     (if \<not> mdb_txn_begin M (l_store (bp_ledger p)) then (MDB_TXN_BEGIN, stack, last_confirm_height, p)
      else case ConfirmBlock M E (Transaction_new (bp_ledger p) True) block last_confirm_height of
        ((error_code, last_confirm_height), txn) \<Rightarrow>
        if error_code = SUCCESS then (error_code, stack, last_confirm_height, close M txn p)
        else if error_code = BLOCK_PROCESS_CONFIRM_BLOCK_MISS
        then (BLOCK_PROCESS_CONTINUE, push APPEND (Some block) stack, last_confirm_height,
          close M txn (accounts_insert operation (Account block) p))
        else if error_code \<in> {BLOCK_PROCESS_LEDGER_INCONSISTENT, BLOCK_PROCESS_LEDGER_ACCOUNT_INFO_PUT}
        then (error_code, stack, last_confirm_height, close M (Transaction_Abort txn) p)
        else (error_code, stack, last_confirm_height, close M (Transaction_Abort txn) (emit Assertion_Failed p)))"

section \<open>The loop over the stack\<close>

definition ProcessBlockDynamic_top ::
  "'db lmdb \<Rightarrow> env \<Rightarrow> time_point \<Rightarrow> u64 \<Rightarrow> dynamic_stack \<Rightarrow> block_operation \<Rightarrow> block \<Rightarrow> u64 \<Rightarrow> 'db processor \<Rightarrow>
     error_code \<times> dynamic_stack \<times> u64 \<times> 'db processor" where
  "ProcessBlockDynamic_top M E now operation stack top_operation block last_height p =
     (if top_operation = APPEND then
        (case ProcessBlockDynamicAppend M E now operation stack block p of (c, s, p) \<Rightarrow> (c, s, last_height, p))
      else if top_operation = CONFIRM then ProcessBlockDynamicConfirm M E operation stack block last_height p
      else if top_operation = PREPEND then
        (case ProcessBlockDynamicPrepend M E operation stack block p of (c, s, p) \<Rightarrow> (c, s, last_height, p))
      else if top_operation = ROLLBACK then
        (case ProcessBlockDynamicRollback M E operation stack block p of (c, s, p) \<Rightarrow> (c, s, last_height, p))
      else (BLOCK_PROCESS_UNKNOWN_OPERATION, stack, last_height, emit Assertion_Failed p))"

text \<open>How the loop goes on: \<open>True\<close> when it has to wait for a queried block.\<close>

datatype loop_exit = Loop_Again dynamic_stack | Loop_Wait dynamic_stack | Loop_Break

definition ProcessBlockDynamic_next :: "block_operation \<Rightarrow> error_code \<Rightarrow> dynamic_stack \<Rightarrow> loop_exit" where
  "ProcessBlockDynamic_next top_operation error_code stack =
     (if error_code = SUCCESS then Loop_Again (tl stack)
      else if error_code = BLOCK_PROCESS_CONTINUE then Loop_Again stack
      else if error_code = BLOCK_PROCESS_WAIT then Loop_Wait stack
      else if error_code = BLOCK_PROCESS_EXISTS then
        (if top_operation = APPEND \<or> top_operation = PREPEND then Loop_Again (tl stack) else Loop_Break)
      else if error_code = BLOCK_PROCESS_PREPEND_IGNORE then Loop_Again (tl stack)
      else if error_code = BLOCK_PROCESS_ROLLBACK_IGNORE then Loop_Again (tl stack)
      else Loop_Break)"

fun ProcessBlockDynamic_loop ::
  "'db lmdb \<Rightarrow> env \<Rightarrow> time_point \<Rightarrow> nat \<Rightarrow> u64 \<Rightarrow> dynamic_stack \<Rightarrow> u64 \<Rightarrow> 'db processor \<Rightarrow>
     (dynamic_stack option \<times> 'db processor) option" where
  "ProcessBlockDynamic_loop M E now 0 operation stack last_height p = None"
| "ProcessBlockDynamic_loop M E now (Suc fuel) operation [] last_height p = Some (None, p)"
| "ProcessBlockDynamic_loop M E now (Suc fuel) operation (top_entry # rest) last_height p =
     (case bd_block top_entry of
        None \<Rightarrow> Some (None, emit Null_Block p)
      | Some block \<Rightarrow>
          (case ProcessBlockDynamic_top M E now operation (top_entry # rest) (bd_operation top_entry) block last_height p of
             (error_code, stack, last_height, p) \<Rightarrow>
               let p = block_observer (bd_operation top_entry) error_code last_height block p in
               case ProcessBlockDynamic_next (bd_operation top_entry) error_code stack of
                 Loop_Again stack \<Rightarrow> ProcessBlockDynamic_loop M E now fuel operation stack last_height p
               | Loop_Wait stack \<Rightarrow> Some (Some stack, p)
               | Loop_Break \<Rightarrow> Some (None, p)))"

definition ProcessBlockDynamic_finish :: "'db lmdb \<Rightarrow> u64 \<Rightarrow> 'db processor \<Rightarrow> 'db processor" where
  "ProcessBlockDynamic_finish M operation p =
     (let p = p\<lparr>blocks_dynamic := (blocks_dynamic p)(operation := None)\<rparr>;
          p = UpdateForks M p (case accounts_dynamic p operation of None \<Rightarrow> [] | Some as \<Rightarrow> as)
      in p\<lparr>accounts_dynamic := (accounts_dynamic p)(operation := None),
           roots_dynamic := (roots_dynamic p)(operation := None)\<rparr>)"

definition ProcessBlockDynamic ::
  "'db lmdb \<Rightarrow> env \<Rightarrow> time_point \<Rightarrow> nat \<Rightarrow> u64 \<Rightarrow> 'db processor \<Rightarrow> 'db processor option" where
  "ProcessBlockDynamic M E now fuel operation p = (case blocks_dynamic p operation of
     None \<Rightarrow> Some p
   | Some stack \<Rightarrow>
       (case ProcessBlockDynamic_loop M E now fuel operation stack 0 p of
          None \<Rightarrow> None
        | Some (Some stack, p) \<Rightarrow> Some (p\<lparr>blocks_dynamic := (blocks_dynamic p)(operation \<mapsto> stack)\<rparr>)
        | Some (None, p) \<Rightarrow> Some (ProcessBlockDynamic_finish M operation p)))"

section \<open>Forced operations and the main loop\<close>

definition start_dynamic :: "block_operation \<Rightarrow> block \<Rightarrow> 'db processor \<Rightarrow> u64 \<times> 'db processor" where
  "start_dynamic kind block p = (case DynamicOpration (bp_operation p) of (operation_new, counter) \<Rightarrow>
     (operation_new,
      p\<lparr>bp_operation := counter,
        accounts_dynamic := (accounts_dynamic p)(operation_new \<mapsto> [Account block]),
        blocks_dynamic := (blocks_dynamic p)(operation_new \<mapsto> push kind (Some block) []),
        roots_dynamic := (roots_dynamic p)(operation_new \<mapsto> Account block)\<rparr>))"

definition ProcessBlockForced ::
  "'db lmdb \<Rightarrow> env \<Rightarrow> time_point \<Rightarrow> nat \<Rightarrow> u64 \<Rightarrow> block \<Rightarrow> 'db processor \<Rightarrow> 'db processor option" where
  "ProcessBlockForced M E now fuel operation block p =
     (if operation \<ge> of_block_operation DYNAMIC_BEGIN then
        (case blocks_dynamic p operation of
           None \<Rightarrow> Some p
         | Some [] \<Rightarrow> Some (emit Null_Block p)
         | Some (top_entry # rest) \<Rightarrow>
             ProcessBlockDynamic M E now fuel operation
               ((accounts_insert operation (Account block) p)
                \<lparr>blocks_dynamic := (blocks_dynamic p)(operation \<mapsto> top_entry\<lparr>bd_block := Some block\<rparr> # rest)\<rparr>))
      else if operation = of_block_operation APPEND then
        (case start_dynamic APPEND block p of (n, p) \<Rightarrow> ProcessBlockDynamic M E now fuel n p)
      else if operation = of_block_operation CONFIRM then
        (case start_dynamic CONFIRM block p of (n, p) \<Rightarrow> ProcessBlockDynamic M E now fuel n p)
      else Some (emit Assertion_Failed p))"

text \<open>One turn of \<open>Run\<close>; an idle processor stays as it is.\<close>

definition Run_step ::
  "'db lmdb \<Rightarrow> env \<Rightarrow> time_point \<Rightarrow> nat \<Rightarrow> 'db processor \<Rightarrow> 'db processor option" where
  "Run_step M E now fuel p = (case Run_next (bp_queues p) of
     None \<Rightarrow> Some p
   | Some (work, q) \<Rightarrow>
       (let p = p\<lparr>bp_queues := q\<rparr> in
        case work of
          Work_Fork fork \<Rightarrow>
            Some (ProcessBlockFork M E
              (if fk_from_local fork then p
               else ProcessBlock M E now (ProcessBlock M E now p (fk_first fork) True) (fk_second fork) True)
              (fk_first fork) (fk_second fork))
        | Work_Forced forced \<Rightarrow> ProcessBlockForced M E now fuel (fc_operation forced) (fc_block forced) p
        | Work_Block block \<Rightarrow> Some (ProcessBlock M E now p block False)))"

end
