(* ===== verification/Codes.thy ===== *)
theory Codes
  imports Dynamic
begin

text \<open>
  Which codes the ledger operations return, and when they have written. A caller that does not
  abort the transaction on some code relies on the operation not having written anything
  when it returns that code. \<open>codes S W st r\<close> says it of one result: the code is success or one
  of the write failures \<open>W\<close>, or it is one of the refusals \<open>S\<close> and the transaction is \<open>st\<close>
  itself.
\<close>

section \<open>Results of an operation\<close>

definition codes :: "error_code set \<Rightarrow> error_code set \<Rightarrow> 's \<Rightarrow> error_code \<times> 's \<Rightarrow> bool" where
  "codes S W st r \<longleftrightarrow> fst r = SUCCESS \<or> fst r \<in> W \<or> fst r \<in> S \<and> snd r = st"

definition wcodes :: "error_code set \<Rightarrow> error_code \<times> 's \<Rightarrow> bool" where
  "wcodes W r \<longleftrightarrow> fst r = SUCCESS \<or> fst r \<in> W"

lemma codes_intros:
  "(c = SUCCESS \<or> c \<in> S) \<Longrightarrow> codes S W st (k st) \<Longrightarrow> codes S W st (CHECK_RETURN c st k)"
  "c \<in> S \<Longrightarrow> (\<And>x. codes S W st (f x)) \<Longrightarrow> codes S W st (IF_NONE_RETURN r c st f)"
  "c \<in> S \<Longrightarrow> codes S W st s \<Longrightarrow> codes S W st (if q then (c, st) else s)"
  "codes S W st s \<Longrightarrow> (\<And>y. codes S W st (g y)) \<Longrightarrow> codes S W st (case x of None \<Rightarrow> s | Some y \<Rightarrow> g y)"
  "c \<in> S \<Longrightarrow> codes S W st (c, st)"
  by (auto simp: codes_def CHECK_RETURN_def IF_NONE_RETURN_def split: option.splits)

lemma wcodes_intros:
  "c \<in> W \<Longrightarrow> (\<And>s. wcodes W (k s)) \<Longrightarrow> wcodes W (IF_ERROR_RETURN r c k)"
  "wcodes W r' \<Longrightarrow> (\<And>s. wcodes W (k' s)) \<Longrightarrow> wcodes W (IF_NOT_SUCCESS_RETURN r' k')"
  "wcodes W r' \<Longrightarrow> wcodes W r'' \<Longrightarrow> wcodes W (if q then r' else r'')"
  "wcodes W (SUCCESS, s)"
  by (auto simp: wcodes_def IF_ERROR_RETURN_def IF_NOT_SUCCESS_RETURN_def split: prod.splits)

lemma codes_write: "wcodes W r \<Longrightarrow> codes S W st r"
  by (auto simp: codes_def wcodes_def)

section \<open>Appending\<close>

definition append_refusals :: "error_code set" where
  "append_refusals =
     {BLOCK_PROCESS_TYPE_UNKNOWN, BLOCK_PROCESS_SIGNATURE, BLOCK_PROCESS_TIMESTAMP, BLOCK_PROCESS_EXISTS,
      BLOCK_PROCESS_GAP_PREVIOUS, BLOCK_PROCESS_CREDIT, BLOCK_PROCESS_PREVIOUS, BLOCK_PROCESS_PRUNED,
      BLOCK_PROCESS_FORK, BLOCK_PROCESS_TYPE_MISMATCH, BLOCK_PROCESS_COUNTER,
      BLOCK_PROCESS_ACCOUNT_EXCEED_TRANSACTIONS, BLOCK_PROCESS_REPRESENTATIVE, BLOCK_PROCESS_OPCODE,
      BLOCK_PROCESS_LEDGER_BLOCK_GET, BLOCK_PROCESS_BALANCE, BLOCK_PROCESS_LINK,
      BLOCK_PROCESS_GAP_RECEIVE_SOURCE, BLOCK_PROCESS_GAP_REWARD_SOURCE, BLOCK_PROCESS_UNRECEIVABLE,
      BLOCK_PROCESS_UNREWARDABLE, BLOCK_PROCESS_CHAIN, BLOCK_PROCESS_BINDING_COUNT}"

definition append_failures :: "error_code set" where
  "append_failures =
     {BLOCK_PROCESS_LEDGER_BLOCK_PUT, BLOCK_PROCESS_LEDGER_SUCCESSOR_SET,
      BLOCK_PROCESS_LEDGER_ACCOUNT_INFO_PUT, BLOCK_PROCESS_LEDGER_REWARDABLE_INFO_PUT,
      BLOCK_PROCESS_LEDGER_REWARDABLE_INFO_DEL, BLOCK_PROCESS_LEDGER_RECEIVABLE_INFO_PUT,
      BLOCK_PROCESS_LEDGER_RECEIVABLE_INFO_DEL, BLOCK_PROCESS_LEDGER_BINDING_ENTRY_PUT,
      BLOCK_PROCESS_LEDGER_BINDING_COUNT_PUT}"

lemma check_codes:
  "CheckCommon M E txn b = SUCCESS \<or> CheckCommon M E txn b \<in> append_refusals"
  "CheckFirstCommon b = SUCCESS \<or> CheckFirstCommon b \<in> append_refusals"
  "CheckSuccessorCommon b p info = SUCCESS \<or> CheckSuccessorCommon b p info \<in> append_refusals"
  "CheckCounterSame p b = SUCCESS \<or> CheckCounterSame p b \<in> append_refusals"
  "CheckCounterIncrease p b = SUCCESS \<or> CheckCounterIncrease p b \<in> append_refusals"
  "CheckRepresentativeSame p b = SUCCESS \<or> CheckRepresentativeSame p b \<in> append_refusals"
  by (simp_all add: CheckCommon_def CheckFirstCommon_def CheckSuccessorCommon_def CheckCounterSame_def
      CheckCounterIncrease_def CheckRepresentativeSame_def append_refusals_def)

lemma update_codes:
  "wcodes append_failures (PutRewardableInfo M E txn p b)"
  "wcodes append_failures (PutBlockSuccessor M E txn b)"
  "wcodes append_failures (UpdateAccountInfo M E txn b info)"
  by (simp_all add: PutRewardableInfo_def PutBlockSuccessor_def UpdateAccountInfo_def Let_def wcodes_intros
      append_failures_def)

lemma Append_codes:
  "codes append_refusals append_failures txn (Append_Send M E txn b)"
  "codes append_refusals append_failures txn (Append_Receive M E txn b)"
  "codes append_refusals append_failures txn (Append_Change M E txn b)"
  "codes append_refusals append_failures txn (Append_Credit M E txn b)"
  "codes append_refusals append_failures txn (Append_Reward M E txn b)"
  "codes append_refusals append_failures txn (Append_Destroy M E txn b)"
  "codes append_refusals append_failures txn (Append_Bind M E txn b)"
  unfolding Append_Send_def Append_Receive_def Append_Change_def Append_Credit_def Append_Reward_def
    Append_Destroy_def Append_Bind_def Let_def
  by (intro codes_intros check_codes codes_write wcodes_intros update_codes;
      simp add: append_refusals_def append_failures_def)+

lemma block_wf_opcode:
  assumes "block_wf b"
  shows "Opcode b \<in> {SEND, RECEIVE, CHANGE, CREDIT, REWARD, DESTROY, BIND}"
  using assms by (cases b) (auto simp: TxBlock_CheckOpcode_def RepBlock_CheckOpcode_def AdBlock_CheckOpcode_def)

lemma AppendBlock_codes:
  assumes "block_wf b"
  shows "codes append_refusals append_failures txn (AppendBlock M E txn b)"
  using block_wf_opcode [OF assms] Append_codes [of txn M E b]
  by (auto simp: AppendBlock_def Visit_wf [OF assms] AppendBlockVisitor_def)

section \<open>Rolling back, prepending and confirming\<close>

definition rollback_refusals :: "error_code set" where
  "rollback_refusals =
     {BLOCK_PROCESS_ROLLBACK_IGNORE, BLOCK_PROCESS_LEDGER_INCONSISTENT, BLOCK_PROCESS_ROLLBACK_TAIL,
      BLOCK_PROCESS_ROLLBACK_NON_HEAD, BLOCK_PROCESS_ROLLBACK_NOT_EQUAL_TO_HEAD,
      BLOCK_PROCESS_ROLLBACK_REWARDED, BLOCK_PROCESS_ROLLBACK_RECEIVED, BLOCK_PROCESS_ROLLBACK_SOURCE_PRUNED}"

definition rollback_write_failures :: "error_code set" where
  "rollback_write_failures =
     {BLOCK_PROCESS_LEDGER_BLOCK_DEL, BLOCK_PROCESS_LEDGER_SUCCESSOR_SET,
      BLOCK_PROCESS_LEDGER_ROLLBACK_BLOCK_PUT, BLOCK_PROCESS_LEDGER_ACCOUNT_INFO_DEL,
      BLOCK_PROCESS_LEDGER_ACCOUNT_INFO_PUT, BLOCK_PROCESS_LEDGER_REWARDABLE_INFO_DEL,
      BLOCK_PROCESS_LEDGER_RECEIVABLE_INFO_DEL, BLOCK_PROCESS_LEDGER_RECEIVABLE_INFO_PUT,
      BLOCK_PROCESS_LEDGER_REWARDABLE_INFO_PUT, BLOCK_PROCESS_LEDGER_BINDING_ENTRY_DEL,
      BLOCK_PROCESS_LEDGER_BINDING_COUNT_DEL, BLOCK_PROCESS_LEDGER_BINDING_COUNT_PUT}"

lemma codes_VISITOR:
  assumes "\<And>c. r = Inl c \<Longrightarrow> c \<in> S" "\<And>v. codes S W st (k v)"
  shows "codes S W st (VISITOR_RETURN r st k)"
  using assms by (auto simp: VISITOR_RETURN_def codes_def split: sum.splits)

lemma Rollback_Check_codes: "Rollback_Check M E txn b = Inl c \<Longrightarrow> c \<in> rollback_refusals"
  by (auto simp: Rollback_Check_def rollback_refusals_def split: if_splits option.splits)

lemma Rollback_Finish_codes: "wcodes rollback_write_failures (Rollback_Finish M E v txn b)"
  by (simp add: Rollback_Finish_def DeleteBlockSuccessor_def PutRollbackBlock_def Rollback_UpdateAccountInfo_def
      DeleteRewardableInfo_def Let_def wcodes_intros rollback_write_failures_def)

lemma Rollback_codes:
  "codes rollback_refusals rollback_write_failures txn (Rollback_Send M E txn b)"
  "codes rollback_refusals rollback_write_failures txn (Rollback_Receive M E txn b)"
  "codes rollback_refusals rollback_write_failures txn (Rollback_Change M E txn b)"
  "codes rollback_refusals rollback_write_failures txn (Rollback_Reward M E txn b)"
  "codes rollback_refusals rollback_write_failures txn (Rollback_Bind M E txn b)"
  unfolding Rollback_Send_def Rollback_Receive_def Rollback_Change_def Rollback_Reward_def Rollback_Bind_def
    Let_def split_beta
  by (intro codes_VISITOR codes_intros codes_write wcodes_intros Rollback_Finish_codes;
      (erule Rollback_Check_codes | simp add: rollback_refusals_def rollback_write_failures_def))+

lemma RollbackBlock_codes:
  assumes "block_wf b"
  shows "codes rollback_refusals rollback_write_failures txn (RollbackBlock M E txn b)"
  using block_wf_opcode [OF assms] Rollback_codes [of txn M E b]
  by (auto simp: RollbackBlock_def Visit_wf [OF assms] RollbackBlockVisitor_def Rollback_Change_def
      Rollback_Credit_def Rollback_Destroy_def)

lemma PrependBlock_codes:
  "codes {BLOCK_PROCESS_SIGNATURE, BLOCK_PROCESS_PREPEND_IGNORE, BLOCK_PROCESS_LEDGER_BLOCK_GET}
     {BLOCK_PROCESS_LEDGER_BLOCK_PUT, BLOCK_PROCESS_LEDGER_ACCOUNT_INFO_PUT} txn (PrependBlock M E txn b)"
  unfolding PrependBlock_def by (intro codes_intros codes_write wcodes_intros; simp)

section \<open>No assertion fails on a code\<close>

lemma append_codes_handled:
  "append_refusals \<union> append_failures = set rejected_codes \<union>
     {BLOCK_PROCESS_GAP_PREVIOUS, BLOCK_PROCESS_GAP_RECEIVE_SOURCE, BLOCK_PROCESS_GAP_REWARD_SOURCE, BLOCK_PROCESS_FORK}"
  by (auto simp: append_refusals_def append_failures_def rejected_codes_def)

end
