(* ===== verification/Outcomes.thy ===== *)
theory Outcomes
  imports Codes
begin

text \<open>
  What a closed transaction leaves of each ledger operation when the store is reliable: a
  transaction either commits exactly one step of the block lattice or leaves the ledger as it
  was. \<open>ledger_state M l L\<close> reads the committed ledger \<open>l\<close> as the view \<open>L\<close>.
\<close>

section \<open>Committed ledgers\<close>

definition reliable :: "'db lmdb \<Rightarrow> bool" where
  "reliable M \<longleftrightarrow> lmdb_laws M \<and> lmdb_never_full M \<and> (\<forall>db. mdb_txn_begin M db \<and> mdb_txn_commit M db)"

definition ledger_state :: "'db lmdb \<Rightarrow> 'db ledger \<Rightarrow> ledger_view \<Rightarrow> bool" where
  "ledger_state M l L \<longleftrightarrow> ledger_rel M (Transaction_new l True) L"

lemma reliable_begin [simp]: "reliable M \<Longrightarrow> mdb_txn_begin M db"
  by (simp add: reliable_def)

lemma Transaction_new_fields [simp]:
  "txn_db (Transaction_new l w) = l_store l" "txn_memory (Transaction_new l w) = l_memory l"
  "txn_write (Transaction_new l w) = w" "\<not> txn_aborted (Transaction_new l w)"
  "rep_weight_operations (Transaction_new l w) = []"
  by (simp_all add: Transaction_new_def)

lemma reliable_writable: "reliable M \<Longrightarrow> writable M (Transaction_new l True)"
  by (simp add: reliable_def writable_def)

lemma Transaction_end_unchanged:
  "Transaction_end M l (Transaction_new l True) = l"
  "Transaction_end M l (Transaction_Abort (Transaction_new l True)) = l"
  by (simp_all add: Transaction_end_def Transaction_Abort_def RepWeightsCommit_def)

lemma Transaction_end_abort:
  "txn_memory txn = l_memory l \<Longrightarrow> Transaction_end M l (Transaction_Abort txn) = l"
  by (simp add: Transaction_end_def Transaction_Abort_def)

lemma Transaction_end_commit:
  assumes "reliable M" "writable M txn" "ledger_rel M txn L"
  shows "ledger_state M (Transaction_end M l txn) (commit_view L)"
  using assms
  by (auto simp: ledger_state_def reliable_def writable_def Transaction_end_def ledger_rel_def commit_view_def
      committed_def)

section \<open>Append\<close>

lemma AppendBlock_either:
  assumes "reliable M" "ledger_state M l L" "block_wf b"
  obtains (step) L' txn where "append_step E L b L'" "AppendBlock M E (Transaction_new l True) b = (SUCCESS, txn)"
      "ledger_state M (Transaction_end M l txn) (commit_view L')"
  | (refused) c where "c \<noteq> SUCCESS" "c \<in> append_refusals \<union> append_failures"
      "AppendBlock M E (Transaction_new l True) b = (c, Transaction_new l True)"
proof -
  note w = reliable_writable [OF assms(1), of l]
  have rel: "ledger_rel M (Transaction_new l True) L" using assms(2) by (simp add: ledger_state_def)
  obtain c txn where a: "AppendBlock M E (Transaction_new l True) b = (c, txn)" by fastforce
  show thesis
  proof (cases "\<exists>L'. append_step E L b L'")
    case True
    then obtain L' where s: "append_step E L b L'" ..
    obtain t where "AppendBlock M E (Transaction_new l True) b = (SUCCESS, t)" "writable M t" "ledger_rel M t L'"
      using AppendBlock_outcome [OF s w rel assms(3)] by blast
    with step [OF s] Transaction_end_commit [OF assms(1)] show thesis by blast
  next
    case False
    have "c \<noteq> SUCCESS"
      using AppendBlock_sound [of M E "Transaction_new l True" b txn L] a writable_laws [OF w] rel assms(3) False by blast
    moreover have "txn = Transaction_new l True" by (rule AppendBlock_rejects [OF a False rel assms(3)])
    moreover have "c \<in> append_refusals \<union> append_failures"
      using AppendBlock_codes [OF assms(3), of "Transaction_new l True" M E] a \<open>c \<noteq> SUCCESS\<close> by (auto simp: codes_def)
    ultimately show thesis using refused a by blast
  qed
qed

section \<open>Rollback\<close>

lemma Rollback_refuses:
  assumes "ledger_rel M txn L" "\<nexists>L'. rollback_step E L b L'"
  shows "Opcode b = SEND \<Longrightarrow> \<exists>c \<in> rollback_refusals. Rollback_Send M E txn b = (c, txn)"
    and "Opcode b = RECEIVE \<Longrightarrow> \<exists>c \<in> rollback_refusals. Rollback_Receive M E txn b = (c, txn)"
    and "Opcode b \<in> {CHANGE, CREDIT, DESTROY} \<Longrightarrow> \<exists>c \<in> rollback_refusals. Rollback_Change M E txn b = (c, txn)"
    and "Opcode b = REWARD \<Longrightarrow> \<exists>c \<in> rollback_refusals. Rollback_Reward M E txn b = (c, txn)"
    and "Opcode b = BIND \<Longrightarrow> \<exists>c \<in> rollback_refusals. Rollback_Bind M E txn b = (c, txn)"
proof -
  note run = VISITOR_RETURN_def IF_NONE_RETURN_def get_rels [OF assms(1)] Let_def
  have none: "\<exists>c \<in> rollback_refusals. f (Rollback_Check M E txn b) = (c, txn)"
    if "\<And>c. f (Inl c) = (c, txn)" "\<And>v. rollback_ok E L b v \<Longrightarrow> \<exists>c \<in> rollback_refusals. f (Inr v) = (c, txn)" for f
  proof (cases "Rollback_Check M E txn b")
    case (Inl c)
    have "f (Rollback_Check M E txn b) = (c, txn)" unfolding Inl by (rule that(1))
    with Rollback_Check_codes [OF Inl] show ?thesis by blast
  next
    case (Inr v)
    then have "rollback_ok E L b v" using Rollback_Check_Inr [OF assms(1), of E b v] by blast
    from that(2) [OF this] show ?thesis unfolding Inr .
  qed
  note visit = none [of "\<lambda>r. VISITOR_RETURN r txn k" for k]
  show "\<exists>c \<in> rollback_refusals. Rollback_Send M E txn b = (c, txn)" if "Opcode b = SEND"
  proof -
    have "v_receivables L (Link b, Hash E b) = None" if "rollback_ok E L b v" for v
      using assms(2) rollback_step.send [OF \<open>Opcode b = SEND\<close> that] by (cases "v_receivables L (Link b, Hash E b)") blast+
    then show ?thesis unfolding Rollback_Send_def by (intro visit) (simp_all add: run rollback_refusals_def)
  qed
  show "\<exists>c \<in> rollback_refusals. Rollback_Receive M E txn b = (c, txn)" if "Opcode b = RECEIVE"
  proof -
    have "v_blocks L (Link b) = None" if "rollback_ok E L b v" for v
      using assms(2) rollback_step.receive [OF \<open>Opcode b = RECEIVE\<close> that]
      by (cases "v_blocks L (Link b)") (blast, metis surj_pair)
    then show ?thesis unfolding Rollback_Receive_def by (intro visit) (simp_all add: run rollback_refusals_def)
  qed
  show "\<exists>c \<in> rollback_refusals. Rollback_Change M E txn b = (c, txn)" if "Opcode b \<in> {CHANGE, CREDIT, DESTROY}"
  proof -
    have "\<not> rollback_ok E L b v" for v using assms(2) rollback_step.plain [OF that] by blast
    then show ?thesis unfolding Rollback_Change_def by (intro visit) (simp_all add: run)
  qed
  show "\<exists>c \<in> rollback_refusals. Rollback_Reward M E txn b = (c, txn)" if "Opcode b = REWARD"
  proof -
    have "v_blocks L s = None" if "rollback_ok E L b v" "v_blocks L (Link b) = Some (d, s)" for v d s
      using assms(2) rollback_step.reward [OF \<open>Opcode b = REWARD\<close> that]
      by (cases "v_blocks L s") (blast, metis surj_pair)
    then show ?thesis
      unfolding Rollback_Reward_def
      by (intro visit) (auto simp: run rollback_refusals_def split: option.splits)
  qed
  show "\<exists>c \<in> rollback_refusals. Rollback_Bind M E txn b = (c, txn)" if "Opcode b = BIND"
  proof -
    have "n = 0" if "rollback_ok E L b v" "v_bindings L (binding_of b) = Some x" "v_binding_count L (Account b) = Some n" for v x n
      using assms(2) rollback_step.bind [OF \<open>Opcode b = BIND\<close> that] by blast
    then show ?thesis
      unfolding Rollback_Bind_def
      by (intro visit) (auto simp: run rollback_refusals_def binding_of_def split: option.splits)
  qed
qed

lemma RollbackBlock_refuses:
  assumes "ledger_rel M txn L" "\<nexists>L'. rollback_step E L b L'" "block_wf b"
  obtains c where "c \<in> rollback_refusals" "RollbackBlock M E txn b = (c, txn)"
  using block_wf_opcode [OF assms(3)] Rollback_refuses [OF assms(1,2)]
  by (auto simp: RollbackBlock_def Visit_wf [OF assms(3)] RollbackBlockVisitor_def Rollback_Change_def
      Rollback_Credit_def Rollback_Destroy_def)

lemma RollbackBlock_either:
  assumes "reliable M" "ledger_state M l L" "block_wf b" "ledger_inv E L"
  obtains (step) L' txn where "rollback_step E L b L'" "RollbackBlock M E (Transaction_new l True) b = (SUCCESS, txn)"
      "ledger_state M (Transaction_end M l txn) (commit_view L')"
  | (refused) c where "c \<in> rollback_refusals"
      "RollbackBlock M E (Transaction_new l True) b = (c, Transaction_new l True)"
proof -
  note w = reliable_writable [OF assms(1), of l]
  have rel: "ledger_rel M (Transaction_new l True) L" using assms(2) by (simp add: ledger_state_def)
  show thesis
  proof (cases "\<exists>L'. rollback_step E L b L'")
    case True
    then obtain L' where s: "rollback_step E L b L'" ..
    obtain t where "RollbackBlock M E (Transaction_new l True) b = (SUCCESS, t)" "writable M t" "ledger_rel M t L'"
      using RollbackBlock_outcome [OF s w rel assms(3,4)] by blast
    with step [OF s] Transaction_end_commit [OF assms(1)] show thesis by blast
  next
    case False
    from RollbackBlock_refuses [OF rel False assms(3)] refused show thesis by blast
  qed
qed

section \<open>Confirm and prepend\<close>

lemma ConfirmBlock_either:
  assumes "reliable M" "ledger_state M l L" "ledger_inv E L" "\<And>c s. v_blocks L (Hash E b) = Some (c, s) \<Longrightarrow> c = b"
  obtains (step) info s txn where "v_blocks L (Hash E b) = Some (b, s)" "v_accounts L (Account b) = Some info"
      "ConfirmBlock M E (Transaction_new l True) b n = ((SUCCESS, ai_confirmed_height info), txn)"
      "ledger_state M (Transaction_end M l txn) (commit_view (confirm_view info b L))"
  | (missing) "v_blocks L (Hash E b) = None"
      "ConfirmBlock M E (Transaction_new l True) b n = ((BLOCK_PROCESS_CONFIRM_BLOCK_MISS, n), Transaction_new l True)"
proof -
  note w = reliable_writable [OF assms(1), of l]
  have rel: "ledger_rel M (Transaction_new l True) L" using assms(2) by (simp add: ledger_state_def)
  show thesis
  proof (cases "v_blocks L (Hash E b)")
    case None
    then show thesis by (intro missing) (simp_all add: ConfirmBlock_def get_rels [OF rel])
  next
    case (Some e)
    then obtain s where e: "v_blocks L (Hash E b) = Some (b, s)" using assms(4) by (cases e) auto
    have "range_inv L" using assms(3) by (simp add: ledger_inv_def)
    then obtain info where info: "v_accounts L (Account b) = Some info" using e unfolding range_inv_def by blast
    obtain t where t: "ConfirmBlock M E (Transaction_new l True) b n = ((SUCCESS, ai_confirmed_height info), t)"
      "writable M t" "ledger_rel M t (confirm_view info b L)"
      using ConfirmBlock_rel [OF rel _ info w, of E n] Some by (auto simp: confirm_view_def)
    from step [OF e info t(1)] Transaction_end_commit [OF assms(1) t(2,3)] show thesis by blast
  qed
qed

text \<open>Every stored chain starts at height zero, so there is never anything to prepend.\<close>

lemma PrependBlock_refuses:
  assumes "ledger_state M l L" "stored_inv g L" "sane E b"
  obtains c where "c \<in> {BLOCK_PROCESS_SIGNATURE, BLOCK_PROCESS_PREPEND_IGNORE}"
    "PrependBlock M E (Transaction_new l True) b = (c, Transaction_new l True)"
proof -
  have rel: "ledger_rel M (Transaction_new l True) L" using assms(1) by (simp add: ledger_state_def)
  have "Height b + 1 \<noteq> 0" using assms(3) by (auto simp: sane_def INVALID_HEIGHT_def eq_neg_iff_add_eq_0)
  then have "ai_tail_height info \<noteq> Height b + 1" if "v_accounts L a = Some info" for a info
    using assms(2) that by (auto simp: stored_inv_def)
  then show thesis
    by (intro that [of "fst (PrependBlock M E (Transaction_new l True) b)"])
      (auto simp: PrependBlock_def get_rels [OF rel] IF_NONE_RETURN_def split: option.splits)
qed

end
