(* ===== verification/ForkView.thy ===== *)
theory ForkView
  imports Outcomes
begin

text \<open>
  The fork table under \<open>ProcessBlockFork_\<close> and \<open>UpdateForks_\<close>. \<open>fork_record\<close> is the
  effect of a reported fork on the view of the ledger: it is kept if its height is free and the
  account has room for it, or in place of the highest fork when that one is higher;
  \<open>fork_update\<close> is the clean-up after a forced operation. The code is shown to do exactly
  that on a reliable store.
\<close>

section \<open>The effect on the view\<close>

definition fork_limit :: "env \<Rightarrow> block \<Rightarrow> u64" where
  "fork_limit E head = MaxAllowedForks (RAI_NETWORK E) (CurrentTimestamp E) (ucast (Credit head)) + 2"

definition fork_record :: "env \<Rightarrow> ledger_view \<Rightarrow> block \<Rightarrow> block \<Rightarrow> ledger_view" where
  "fork_record E L first second =
     (let a = Account first; n = Height first in
      case v_accounts L a of None \<Rightarrow> L | Some info \<Rightarrow>
      if \<not> AccountInfo_Valid info \<or> n > ai_head_height info \<or> v_forks L (a, n) \<noteq> None then L else
      case v_blocks L (ai_head info) of None \<Rightarrow> L | Some (head, _) \<Rightarrow>
      if ucast (ai_forks info) < fork_limit E head
      then L\<lparr>v_forks := (v_forks L)((a, n) \<mapsto> (first, second)),
             v_accounts := (v_accounts L)(a \<mapsto> info\<lparr>ai_forks := ai_forks info + 1\<rparr>)\<rparr>
      else let m = Max (insert n (fork_heights L a)) in
        if m = n then L
        else L\<lparr>v_forks := (v_forks L)((a, m) := None, (a, n) \<mapsto> (first, second))\<rparr>)"

definition fork_update :: "u256 \<Rightarrow> ledger_view \<Rightarrow> ledger_view" where
  "fork_update a L = (case v_accounts L a of
     None \<Rightarrow> L\<lparr>v_forks := (\<lambda>k. if fst k = a \<and> snd k \<in> fork_heights L a then None else v_forks L k)\<rparr>
   | Some info \<Rightarrow>
       if \<not> AccountInfo_Valid info
       then L\<lparr>v_forks := (\<lambda>k. if fst k = a \<and> snd k \<in> fork_heights L a then None else v_forks L k)\<rparr>
       else L\<lparr>v_forks := (\<lambda>k. if fst k = a \<and> snd k \<in> fork_heights L a \<and> snd k > ai_head_height info
                              then None else v_forks L k),
              v_accounts := (v_accounts L)(a \<mapsto>
                info\<lparr>ai_forks := of_nat (card {n \<in> fork_heights L a. n \<le> ai_head_height info})\<rparr>)\<rparr>)"

lemma commit_view_idle: "v_operations L = [] \<Longrightarrow> commit_view L = L"
  by (simp add: commit_view_def committed_def RepWeightsCommit_def)

lemma ledger_state_operations: "ledger_state M l L \<Longrightarrow> v_operations L = [] \<and> v_memory L = l_memory l"
  by (simp add: ledger_state_def ledger_rel_def)

text \<open>A transaction that only wrote to tables of the ledger.\<close>

lemma Transaction_end_tables:
  assumes "reliable M" "writable M txn" "ledger_rel M txn L'" "v_operations L' = []"
  shows "ledger_state M (Transaction_end M l txn) L'"
  using Transaction_end_commit [OF assms(1-3), of l] commit_view_idle [OF assms(4)] by simp

section \<open>Recording a fork\<close>

abbreviation fork_item :: "ledger_view \<Rightarrow> u256 \<Rightarrow> u64 \<Rightarrow> bytes \<times> bytes" where
  "fork_item L a n \<equiv> (height_key (a, n), enc_fork (the (v_forks L (a, n))))"

lemma fork_item_get:
  assumes "ledger_rel M txn L" "forks_inv L" "n \<in> fork_heights L a"
  obtains f s where "v_forks L (a, n) = Some (f, s)" "ForkGet_iterator (fork_item L a n) = Some (f, s)"
    "Account f = a" "Height f = n"
proof -
  obtain f s where "v_forks L (a, n) = Some (f, s)" using assms(3) by (auto simp: fork_heights_def)
  with that ForkGet_iterator_view [OF assms(1) this] assms(2) show thesis by (auto simp: forks_inv_def)
qed

lemma Fork_highest_view:
  assumes "ledger_rel M txn L" "forks_inv L" "set hs \<subseteq> fork_heights L a"
  shows "\<exists>d'. Fork_highest a (map (fork_item L a) hs) m d = Some (Max (insert m (set hs)), d') \<and>
    (if Max (insert m (set hs)) = m then d' = d else d' = v_forks L (a, Max (insert m (set hs))))"
  using assms(3)
proof (induction hs arbitrary: m d)
  case Nil
  then show ?case by simp
next
  case (Cons n hs)
  then have n: "n \<in> fork_heights L a" by simp
  obtain f s where f: "v_forks L (a, n) = Some (f, s)" "ForkGet_iterator (fork_item L a n) = Some (f, s)"
    "Account f = a" "Height f = n"
    by (rule fork_item_get [OF assms(1,2) n])
  let ?m = "max m n" and ?d = "if n > m then Some (f, s) else d"
  have max: "Max (insert m (set (n # hs))) = Max (insert ?m (set hs))"
    by (cases "hs = []") (simp_all add: max.assoc)
  obtain d' where d': "Fork_highest a (map (fork_item L a) hs) ?m ?d = Some (Max (insert ?m (set hs)), d')"
    "if Max (insert ?m (set hs)) = ?m then d' = ?d else d' = v_forks L (a, Max (insert ?m (set hs)))"
    using Cons.IH [of ?m ?d] Cons.prems by auto
  have step: "Fork_highest a (map (fork_item L a) (n # hs)) m d = Fork_highest a (map (fork_item L a) hs) ?m ?d"
    using f by (cases "n > m") (auto simp: max_def)
  have "Max (insert ?m (set hs)) \<ge> ?m" by (rule Max_ge) simp_all
  then have "if Max (insert ?m (set hs)) = m then d' = d else d' = v_forks L (a, Max (insert ?m (set hs)))"
    using d'(2) f(1) by (auto simp: max_def split: if_splits)
  then show ?case using d'(1) unfolding max step by blast
qed

lemma ForkPut_total: "writable M txn \<Longrightarrow> \<exists>t. ForkPut M txn a n f s = (False, t) \<and> writable M t"
  using Store_Put_total [of M txn] by (simp add: ForkPut_def writable_def)

lemma ForkDel_height_total:
  assumes "writable M txn" "ledger_rel M txn L" "v_forks L (a, n) \<noteq> None"
  shows "\<exists>t. ForkDel_height M txn a n = (False, t) \<and> writable M t"
proof -
  have "mdb_get M (txn_db txn) FORKS (height_key (a, n)) \<noteq> None"
    using assms(2,3) forks.tbl_exists [of M "txn_db txn" FORKS "v_forks L" "(a, n)"] by (auto simp: ledger_rel_def)
  with Store_Del_total [OF assms(1)] assms(1) show ?thesis by (simp add: ForkDel_height_def writable_def)
qed

lemma ProcessBlockFork_body_view:
  assumes "writable M txn" "ledger_rel M txn L" "forks_inv L" "block_wf first" "block_wf second"
  shows "\<exists>out txn'. ProcessBlockFork_body M E txn first second = (out, txn') \<and> out \<noteq> Fork_Assert \<and> writable M txn' \<and>
    ledger_rel M txn' (fork_record E L first second)"
proof -
  let ?a = "Account first" and ?n = "Height first"
  note rel = assms(2) and laws = writable_laws [OF assms(1)] and run = ProcessBlockFork_body_def Let_def get_rels [OF assms(2)]
  show ?thesis
  proof (cases "v_accounts L ?a")
    case None
    with assms(1,2) show ?thesis by (simp add: run fork_record_def)
  next
    case (Some info)
    show ?thesis
    proof (cases "\<not> AccountInfo_Valid info \<or> ?n > ai_head_height info \<or> v_forks L (?a, ?n) \<noteq> None")
      case True
      with Some assms(1,2) show ?thesis by (auto simp: run fork_record_def)
    next
      case False
      note f = False
      show ?thesis
      proof (cases "v_blocks L (ai_head info)")
        case None
        with Some f assms(1,2) show ?thesis by (auto simp: run fork_record_def)
      next
        case hd: (Some e)
        obtain head s where e: "e = (head, s)" by fastforce
        show ?thesis
        proof (cases "ucast (ai_forks info) < fork_limit E head")
          case True
          let ?i = "info\<lparr>ai_forks := ai_forks info + 1\<rparr>"
          obtain t where t: "ForkPut M txn ?a ?n first second = (False, t)" "writable M t"
            using ForkPut_total [OF assms(1)] by blast
          note r1 = ForkPut_rel [OF t(1) laws rel assms(4,5)]
          obtain t' where t': "AccountInfoPut M t ?a ?i = (False, t')" "writable M t'"
            using put_totals(1) [OF t(2)] by blast
          have "info_ok ?i" using ledger_rel_wf(1) [OF rel Some] by (simp add: info_ok_def)
          from AccountInfoPut_rel [OF t'(1) laws r1 this] t t' True f Some hd e
          show ?thesis by (auto simp: run fork_record_def fork_limit_def)
        next
          case full: False
          obtain hs where hs: "distinct hs" "set hs = fork_heights L ?a" "ForkRange M txn ?a = map (fork_item L ?a) hs"
            by (rule ForkRange_view [OF laws rel])
          let ?m = "Max (insert ?n (set hs))"
          obtain d where d: "Fork_highest ?a (ForkRange M txn ?a) ?n None = Some (?m, d)"
            "if ?m = ?n then d = None else d = v_forks L (?a, ?m)"
            using Fork_highest_view [OF rel assms(3), of hs ?a ?n None] hs(2,3) by auto
          show ?thesis
          proof (cases "?m = ?n")
            case True
            with d(1) full f Some hd e hs(2) assms(1,2) show ?thesis by (auto simp: run fork_record_def fork_limit_def)
          next
            case ne: False
            have "?m \<in> insert ?n (set hs)" by (rule Max_in) simp_all
            with ne have "?m \<in> fork_heights L ?a" using hs(2) by auto
            then obtain f' s' where v: "v_forks L (?a, ?m) = Some (f', s')" "Height f' = ?m"
              by (rule fork_item_get [OF rel assms(3)])
            obtain t where t: "ForkDel_height M txn ?a ?m = (False, t)" "writable M t"
              using ForkDel_height_total [OF assms(1) rel] v(1) by (metis option.distinct(1))
            note r1 = ForkDel_height_rel [OF t(1) laws rel]
            obtain t' where t': "ForkPut M t ?a ?n first second = (False, t')" "writable M t'"
              using ForkPut_total [OF t(2)] by blast
            from ForkPut_rel [OF t'(1) laws r1 assms(4,5)] t t' d v ne full f Some hd e hs(2)
            show ?thesis by (auto simp: run fork_record_def fork_limit_def)
          qed
        qed
      qed
    qed
  qed
qed

section \<open>Cleaning up\<close>

lemma UpdateForks_scan_view:
  assumes "ledger_rel M txn L" "forks_inv L" "set hs \<subseteq> fork_heights L a"
  shows "UpdateForks_scan a top_height (map (fork_item L a) hs) count heights =
    (count + of_nat (length (filter (\<lambda>n. n \<le> top_height) hs)), heights @ filter (\<lambda>n. n > top_height) hs)"
  using assms(3)
proof (induction hs arbitrary: count heights)
  case (Cons n hs)
  then have n: "n \<in> fork_heights L a" by simp
  obtain f s where "ForkGet_iterator (fork_item L a n) = Some (f, s)" "Account f = a" "Height f = n"
    by (rule fork_item_get [OF assms(1,2) n])
  with Cons show ?case by (auto simp: not_le)
qed simp

lemma UpdateForks_delete_view:
  assumes "writable M txn" "ledger_rel M txn L" "distinct hs" "set hs \<subseteq> {n. v_forks L (a, n) \<noteq> None}"
  shows "writable M (UpdateForks_delete M txn a hs) \<and> ledger_rel M (UpdateForks_delete M txn a hs)
    (L\<lparr>v_forks := (\<lambda>k. if fst k = a \<and> snd k \<in> set hs then None else v_forks L k)\<rparr>)"
proof -
  obtain t where t: "ForkDel_heights M txn a hs = (False, t)" "writable M t"
    using ForkDel_heights_total [OF assms] by blast
  have "UpdateForks_delete M txn a hs = t"
    using t(1) by (induction hs arbitrary: txn) (auto split: prod.splits if_splits)
  with t(2) ForkDel_heights_rel [OF writable_laws [OF assms(1)] assms(2) t(1)] show ?thesis by simp
qed

lemma UpdateForks_account_view:
  assumes w: "writable M txn" and rel: "ledger_rel M txn L" and inv: "forks_inv L"
  shows "writable M (UpdateForks_account M txn a) \<and> ledger_rel M (UpdateForks_account M txn a) (fork_update a L)"
proof -
  note laws = writable_laws [OF w]
  obtain hs where hs: "distinct hs" "set hs = fork_heights L a" "ForkRange M txn a = map (fork_item L a) hs"
    by (rule ForkRange_view [OF laws rel])
  have sub: "set hs \<subseteq> {n. v_forks L (a, n) \<noteq> None}" using hs(2) by (auto simp: fork_heights_def)
  have all: "writable M (snd (ForkDel M txn a)) \<and> ledger_rel M (snd (ForkDel M txn a))
    (L\<lparr>v_forks := (\<lambda>k. if fst k = a \<and> snd k \<in> fork_heights L a then None else v_forks L k)\<rparr>)"
  proof -
    obtain t where t: "ForkDel_heights M txn a hs = (False, t)" "writable M t"
      using ForkDel_heights_total [OF w rel hs(1) sub] by blast
    have "ForkDel M txn a = (False, t)"
      using t(1) w ForkDel_collect_view [OF rel inv, of hs a] hs(2,3) by (simp add: ForkDel_def writable_def)
    with t(2) ForkDel_heights_rel [OF laws rel t(1)] hs(2) show ?thesis by simp
  qed
  show ?thesis
  proof (cases "v_accounts L a")
    case None
    with all show ?thesis by (simp add: UpdateForks_account_def get_rels [OF rel] fork_update_def)
  next
    case (Some info)
    show ?thesis
    proof (cases "AccountInfo_Valid info")
      case False
      with Some all show ?thesis by (simp add: UpdateForks_account_def get_rels [OF rel] fork_update_def)
    next
      case True
      let ?h = "ai_head_height info"
      let ?over = "filter (\<lambda>n. n > ?h) hs" and ?count = "of_nat (length (filter (\<lambda>n. n \<le> ?h) hs)) :: u16"
      let ?t = "UpdateForks_delete M txn a ?over"
      let ?L = "L\<lparr>v_forks := (\<lambda>k. if fst k = a \<and> snd k \<in> set ?over then None else v_forks L k)\<rparr>"
      have scan: "UpdateForks_scan a ?h (ForkRange M txn a) 0 [] = (?count, ?over)"
        using UpdateForks_scan_view [OF rel inv, of hs a ?h 0 "[]"] hs(2,3) by simp
      have t: "writable M ?t" "ledger_rel M ?t ?L"
        using UpdateForks_delete_view [OF w rel, of ?over a] hs(1) sub by auto
      have card: "length (filter (\<lambda>n. n \<le> ?h) hs) = card {n \<in> fork_heights L a. n \<le> ?h}"
        using distinct_card [OF distinct_filter [OF hs(1)], of "\<lambda>n. n \<le> ?h"] hs(2) by simp
      let ?i = "info\<lparr>ai_forks := ?count\<rparr>"
      have upd: "fork_update a L = ?L\<lparr>v_accounts := (v_accounts L)(a \<mapsto> ?i)\<rparr>"
        using Some True hs(2) card by (auto simp: fork_update_def)
      show ?thesis
      proof (cases "?count = ai_forks info")
        case same: True
        then have "?i = info" by simp
        then have "(v_accounts L)(a \<mapsto> ?i) = v_accounts L" using Some by (simp only: fun_upd_idem)
        then have "fork_update a L = ?L" unfolding upd by simp
        with t scan same Some True show ?thesis by (simp add: UpdateForks_account_def get_rels [OF rel] Let_def)
      next
        case differ: False
        obtain t' where t': "AccountInfoPut M ?t a ?i = (False, t')" "writable M t'"
          using put_totals(1) [OF t(1)] by blast
        have "info_ok ?i" using ledger_rel_wf(1) [OF rel Some] by (simp add: info_ok_def)
        from AccountInfoPut_rel [OF t'(1) laws t(2) this] t' scan differ Some True show ?thesis
          unfolding upd by (simp add: UpdateForks_account_def get_rels [OF rel] Let_def)
      qed
    qed
  qed
qed

end
