(* ===== verification/NodeInv.thy ===== *)
theory NodeInv
  imports ForkView
begin

text \<open>
  The block processor as a whole keeps the ledger sound. \<open>node_inv M E U g p\<close>: the committed ledger
  of the processor is reachable from the genesis block by steps of the block lattice, the queues
  and gap caches are within their limits, every stack of a forced operation is well-formed and no
  assertion has failed. Each turn of the main loop keeps it, for every block, fork and forced
  operation, whatever code the ledger operations return.
\<close>

section \<open>The invariant\<close>

definition forks_in :: "block set \<Rightarrow> ledger_view \<Rightarrow> bool" where
  "forks_in U L \<longleftrightarrow> forks_inv L \<and> (\<forall>k f s. v_forks L k = Some (f, s) \<longrightarrow> f \<in> U \<and> s \<in> U)"

definition ledger_ok :: "'db lmdb \<Rightarrow> env \<Rightarrow> block set \<Rightarrow> block \<Rightarrow> 'db ledger \<Rightarrow> bool" where
  "ledger_ok M E U g l \<longleftrightarrow> (\<exists>L. ledger_state M l L \<and> reachable E U g L \<and> forks_in U L)"

text \<open>Numbers of dynamic operations.\<close>

abbreviation dyn :: "u64 \<Rightarrow> bool" where
  "dyn n \<equiv> of_block_operation DYNAMIC_BEGIN \<le> n"

text \<open>What the processor hands to the rest of the node are known blocks and queries of dynamic operations.\<close>

fun event_ok :: "block set \<Rightarrow> event \<Rightarrow> bool" where
  "event_ok U (Block_Observed r b) = (b \<in> U)"
| "event_ok U (Block_Published b) = (b \<in> U)"
| "event_ok U (Block_Queried a h k o' n) = dyn n"
| "event_ok U (Fork_Observed o' f s) = True"
| "event_ok U (Fork_Broadcast f s) = (f \<in> U \<and> s \<in> U)"
| "event_ok U (Election_Started f s) = (f \<in> U \<and> s \<in> U)"
| "event_ok U Assertion_Failed = False"
| "event_ok U Null_Block = False"

definition entry_ok :: "block set \<Rightarrow> block_dynamic \<Rightarrow> bool" where
  "entry_ok U d \<longleftrightarrow> bd_operation d \<in> {APPEND, PREPEND, ROLLBACK, CONFIRM} \<and>
     (\<forall>b. bd_block d = Some b \<longrightarrow> b \<in> U)"

text \<open>Only the top of a stack may wait for its block.\<close>

definition stack_ok :: "block set \<Rightarrow> dynamic_stack \<Rightarrow> bool" where
  "stack_ok U st \<longleftrightarrow> (\<forall>d \<in> set st. entry_ok U d) \<and> (\<forall>d \<in> set (tl st). bd_block d \<noteq> None)"

definition cache_ok :: "block set \<Rightarrow> gap_cache \<Rightarrow> bool" where
  "cache_ok U c \<longleftrightarrow> gap_ok c \<and> (\<forall>i \<in> set c. gap_block i \<in> U)"

definition queues_ok :: "env \<Rightarrow> block set \<Rightarrow> work_queues \<Rightarrow> bool" where
  "queues_ok E U q \<longleftrightarrow> queue_ok E q \<and> (queued q \<subseteq> U) \<and>
     (\<forall>f \<in> set (wq_fork q). fk_first f \<in> U \<and> fk_second f \<in> U) \<and>
     (\<forall>f \<in> set (wq_forced q). fc_block f \<in> U \<and>
        (fc_operation f \<in> {of_block_operation APPEND, of_block_operation CONFIRM} \<or> dyn (fc_operation f)))"

definition rest_inv :: "env \<Rightarrow> block set \<Rightarrow> 'db processor \<Rightarrow> bool" where
  "rest_inv E U p \<longleftrightarrow> queues_ok E U (bp_queues p) \<and> cache_ok U (previous_gap_cache p) \<and>
     cache_ok U (receive_source_gap_cache p) \<and> cache_ok U (reward_source_gap_cache p) \<and>
     (\<forall>n st. blocks_dynamic p n = Some st \<longrightarrow> dyn n \<and> st \<noteq> [] \<and> stack_ok U st) \<and> list_all (event_ok U) (bp_events p)"

definition node_inv :: "'db lmdb \<Rightarrow> env \<Rightarrow> block set \<Rightarrow> block \<Rightarrow> 'db processor \<Rightarrow> bool" where
  "node_inv M E U g p \<longleftrightarrow> ledger_ok M E U g (bp_ledger p) \<and> rest_inv E U p"

lemma admissible_at_time [simp]: "admissible (at_time E t) g b = admissible E g b"
  by (simp add: admissible_def)

lemma queue_ok_at_time [simp]: "queue_ok (at_time E t) q = queue_ok E q"
  by (simp add: queue_ok_def)

lemma universe_at_time [simp]: "universe (at_time E t) g U = universe E g U"
  by (simp add: universe_def genesis_ok_def inj_on_def)

lemma universeD:
  assumes "universe E g U" "b \<in> U"
  shows "block_wf b" "sane E b" "admissible E g b"
  using assms by (auto simp: universe_def admissible_def)

section \<open>Services of the node\<close>

lemma emit_fields [simp]:
  "bp_ledger (emit e p) = bp_ledger p" "bp_queues (emit e p) = bp_queues p"
  "previous_gap_cache (emit e p) = previous_gap_cache p"
  "receive_source_gap_cache (emit e p) = receive_source_gap_cache p"
  "reward_source_gap_cache (emit e p) = reward_source_gap_cache p"
  "blocks_dynamic (emit e p) = blocks_dynamic p" "accounts_dynamic (emit e p) = accounts_dynamic p"
  "bp_events (emit e p) = bp_events p @ [e]"
  by (simp_all add: emit_def)

lemma emit_rest: "event_ok U e \<Longrightarrow> rest_inv E U (emit e p) = rest_inv E U p"
  by (simp add: rest_inv_def)

lemma block_observer_fields [simp]:
  "bp_ledger (block_observer o' c n b p) = bp_ledger p" "blocks_dynamic (block_observer o' c n b p) = blocks_dynamic p"
  "b \<in> U \<Longrightarrow> rest_inv E U (block_observer o' c n b p) = rest_inv E U p"
  by (simp_all add: block_observer_def emit_rest)

lemma close_fields [simp]:
  "bp_ledger (close M txn p) = Transaction_end M (bp_ledger p) txn"
  "blocks_dynamic (close M txn p) = blocks_dynamic p"
  "rest_inv E U (close M txn p) = rest_inv E U p"
  by (simp_all add: close_def rest_inv_def)

lemma observers_fields [simp]:
  "bp_ledger (fold (block_observer o' c n) bs p) = bp_ledger p"
  "blocks_dynamic (fold (block_observer o' c n) bs p) = blocks_dynamic p"
  "set bs \<subseteq> U \<Longrightarrow> rest_inv E U (fold (block_observer o' c n) bs p) = rest_inv E U p"
  by (induction bs arbitrary: p) simp_all

lemma Processor_Add_inv:
  assumes "rest_inv E U p" "b \<in> U"
  shows "rest_inv E U (Processor_Add (at_time E t) now p b)"
    "bp_ledger (Processor_Add (at_time E t) now p b) = bp_ledger p"
    "blocks_dynamic (Processor_Add (at_time E t) now p b) = blocks_dynamic p"
proof -
  obtain dropped q where add: "BlockProcessor_Add (at_time E t) now (bp_queues p) b = (dropped, q)" by fastforce
  have ok: "queue_ok (at_time E t) (bp_queues p)" using assms(1) by (simp add: rest_inv_def queues_ok_def)
  note a = BlockProcessor_Add_ok [OF ok add]
  have "queues_ok E U q"
    using assms a unfolding rest_inv_def queues_ok_def by auto
  moreover have "set dropped \<subseteq> U" using assms a(4) unfolding rest_inv_def queues_ok_def by auto
  ultimately show "rest_inv E U (Processor_Add (at_time E t) now p b)"
    using assms(1) by (simp add: Processor_Add_def add) (simp add: rest_inv_def)
  show "bp_ledger (Processor_Add (at_time E t) now p b) = bp_ledger p"
    "blocks_dynamic (Processor_Add (at_time E t) now p b) = blocks_dynamic p"
    by (simp_all add: Processor_Add_def add)
qed

lemma cache_ok_Remove: "cache_ok U c \<Longrightarrow> cache_ok U (GapCache_Remove c h)"
  using GapCache_Remove_ok [of c h] by (auto simp: cache_ok_def GapCache_Remove_def mi_erase_def)

lemma cache_ok_Insert:
  assumes "cache_ok U c" "b \<in> U"
  shows "cache_ok U (snd (GapCache_Insert c (GapInfo_new now h b)))"
proof -
  obtain e c' where "GapCache_Insert c (GapInfo_new now h b) = (e, c')" by fastforce
  with GapCache_Insert_ok [OF _ this] assms show ?thesis
    by (auto simp: cache_ok_def GapInfo_new_def split: if_splits)
qed

lemma cache_ok_Query: "cache_ok U c \<Longrightarrow> GapCache_Query c h = Some i \<Longrightarrow> gap_block i \<in> U"
  by (auto simp: cache_ok_def GapCache_Query_def dest: mi_find_mem)

lemma rest_inv_caches:
  assumes "rest_inv E U p" "cache_ok U c"
  shows "rest_inv E U (p\<lparr>previous_gap_cache := c\<rparr>)" "rest_inv E U (p\<lparr>receive_source_gap_cache := c\<rparr>)"
    "rest_inv E U (p\<lparr>reward_source_gap_cache := c\<rparr>)"
  using assms by (simp_all add: rest_inv_def)

lemma rest_inv_parts:
  assumes "rest_inv E U p"
  shows "cache_ok U (previous_gap_cache p)" "cache_ok U (receive_source_gap_cache p)"
    "cache_ok U (reward_source_gap_cache p)" "queues_ok E U (bp_queues p)"
    "blocks_dynamic p n = Some st \<Longrightarrow> stack_ok U st \<and> st \<noteq> []" "blocks_dynamic p n = Some st \<Longrightarrow> dyn n"
  using assms by (auto simp: rest_inv_def)

lemma QueueGapCaches_inv:
  assumes "rest_inv E U p"
  shows "rest_inv E U (QueueGapCaches (at_time E t) now p h)"
    "bp_ledger (QueueGapCaches (at_time E t) now p h) = bp_ledger p"
    "blocks_dynamic (QueueGapCaches (at_time E t) now p h) = blocks_dynamic p"
proof -
  note add = Processor_Add_inv [of E U _ _ t now] and parts = rest_inv_parts
  define p1 where "p1 = (case GapCache_Query (previous_gap_cache p) h of
            None \<Rightarrow> p
          | Some gap \<Rightarrow> (Processor_Add (at_time E t) now p (gap_block gap))
              \<lparr>previous_gap_cache := GapCache_Remove (previous_gap_cache p) h\<rparr>)"
  have 1: "rest_inv E U p1" "bp_ledger p1 = bp_ledger p" "blocks_dynamic p1 = blocks_dynamic p"
    using assms add [OF assms cache_ok_Query [OF parts(1) [OF assms]]] cache_ok_Remove [OF parts(1) [OF assms]]
    by (auto simp: p1_def rest_inv_caches split: option.splits)
  define p2 where "p2 = (case GapCache_Query (receive_source_gap_cache p1) h of
            None \<Rightarrow> p1
          | Some gap \<Rightarrow> (Processor_Add (at_time E t) now p1 (gap_block gap))
              \<lparr>receive_source_gap_cache := GapCache_Remove (receive_source_gap_cache p1) h\<rparr>)"
  have 2: "rest_inv E U p2" "bp_ledger p2 = bp_ledger p" "blocks_dynamic p2 = blocks_dynamic p"
    using 1 add [OF 1(1) cache_ok_Query [OF parts(2) [OF 1(1)]]] cache_ok_Remove [OF parts(2) [OF 1(1)]]
    by (auto simp: p2_def rest_inv_caches split: option.splits)
  have q: "QueueGapCaches (at_time E t) now p h = (case GapCache_Query (reward_source_gap_cache p2) h of
            None \<Rightarrow> p2
          | Some gap \<Rightarrow> (Processor_Add (at_time E t) now p2 (gap_block gap))
              \<lparr>reward_source_gap_cache := GapCache_Remove (reward_source_gap_cache p2) h\<rparr>)"
    unfolding QueueGapCaches_def Let_def p2_def p1_def ..
  show "rest_inv E U (QueueGapCaches (at_time E t) now p h)"
    "bp_ledger (QueueGapCaches (at_time E t) now p h) = bp_ledger p"
    "blocks_dynamic (QueueGapCaches (at_time E t) now p h) = blocks_dynamic p"
    using 2 add [OF 2(1) cache_ok_Query [OF parts(3) [OF 2(1)]]] cache_ok_Remove [OF parts(3) [OF 2(1)]]
    by (auto simp: q rest_inv_caches split: option.splits)
qed

section \<open>The ledger after a transaction\<close>

lemma ledger_ok_history:
  assumes "ledger_ok M E U g l" "universe E g U"
  obtains L where "ledger_state M l L" "reachable E U g L" "forks_in U L" "history_inv E g L"
  using assms reachable_history unfolding ledger_ok_def by blast

lemma step_forks:
  "append_step E L b L' \<Longrightarrow> v_forks L' = v_forks L"
  "rollback_step E L b L' \<Longrightarrow> v_forks L' = v_forks L"
  by (erule append_step.cases; simp add: bind_view_def) (erule rollback_step.cases; simp add: unbind_view_def)

lemma forks_in_cong: "v_forks L' = v_forks L \<Longrightarrow> forks_in U L' = forks_in U L"
  by (simp add: forks_in_def forks_inv_def)

lemma ledger_ok_append:
  assumes "reliable M" "ledger_ok M E U g l" "b \<in> U" "universe E g U"
    "AppendBlock M (at_time E t) (Transaction_new l True) b = (c, txn)"
  shows "c = SUCCESS \<and> ledger_ok M E U g (Transaction_end M l txn) \<or>
    c \<in> append_refusals \<union> append_failures \<and> c \<noteq> SUCCESS \<and> txn = Transaction_new l True"
proof -
  obtain L where L: "ledger_state M l L" "reachable E U g L" "forks_in U L" using assms(2) by (auto simp: ledger_ok_def)
  have wf: "block_wf b" using universeD [OF assms(4,3)] by simp
  show ?thesis
  proof (cases rule: AppendBlock_either [OF assms(1) L(1) wf, of "at_time E t"])
    case (1 L' t')
    have "reachable E U g (commit_view L')" by (rule reachable.commit [OF reachable.append [OF L(2) 1(1) assms(3)]])
    moreover have "forks_in U (commit_view L')" using L(3) step_forks(1) [OF 1(1)]
      by (simp add: forks_in_def forks_inv_def commit_view_def)
    ultimately show ?thesis using 1 assms(5) by (auto simp: ledger_ok_def)
  next
    case (2 c')
    then show ?thesis using assms(5) by auto
  qed
qed

lemma ledger_ok_rollback:
  assumes "reliable M" "ledger_ok M E U g l" "universe E g U" "block_wf b"
    "RollbackBlock M (at_time E t) (Transaction_new l True) b = (c, txn)"
  shows "c = SUCCESS \<and> ledger_ok M E U g (Transaction_end M l txn) \<or>
    c \<in> rollback_refusals \<and> txn = Transaction_new l True"
proof -
  obtain L where L: "ledger_state M l L" "reachable E U g L" "forks_in U L" "history_inv E g L"
    by (rule ledger_ok_history [OF assms(2,3)])
  have inv: "ledger_inv (at_time E t) L" using history_parts(1) [OF L(4)] by simp
  show ?thesis
  proof (cases rule: RollbackBlock_either [OF assms(1) L(1) assms(4) inv])
    case (1 L' t')
    have "reachable E U g (commit_view L')" by (rule reachable.commit [OF reachable.rollback [OF L(2) 1(1)]])
    moreover have "forks_in U (commit_view L')" using L(3) step_forks(2) [OF 1(1)]
      by (simp add: forks_in_def forks_inv_def commit_view_def)
    ultimately show ?thesis using 1 assms(5) by (auto simp: ledger_ok_def)
  next
    case (2 c')
    then show ?thesis using assms(5) by auto
  qed
qed

lemma ledger_ok_confirm:
  assumes "reliable M" "ledger_ok M E U g l" "universe E g U" "b \<in> U"
    "ConfirmBlock M (at_time E t) (Transaction_new l True) b n = ((c, n'), txn)"
  shows "c = SUCCESS \<and> ledger_ok M E U g (Transaction_end M l txn) \<or>
    c = BLOCK_PROCESS_CONFIRM_BLOCK_MISS \<and> txn = Transaction_new l True"
proof -
  obtain L where L: "ledger_state M l L" "reachable E U g L" "forks_in U L" "history_inv E g L"
    by (rule ledger_ok_history [OF assms(2,3)])
  have inv: "ledger_inv (at_time E t) L" using history_parts(1) [OF L(4)] by simp
  have same: "c = b" if "v_blocks L (Hash (at_time E t) b) = Some (c, s)" for c s
  proof -
    have c: "c \<in> U" by (rule reachable_stored [OF L(2) assms(3) that])
    have "Hash E c = Hash E b" using history_parts(7) [OF L(4)] that by (simp add: blocks_inv_def)
    with c assms(3,4) show ?thesis unfolding universe_def by (meson inj_onD)
  qed
  show ?thesis
  proof (cases rule: ConfirmBlock_either [OF assms(1) L(1) inv same, where n = n])
    case (2 info s t')
    from reachable.commit [OF reachable.confirm [OF L(2) _ 2(2)]] 2(1)
    have "reachable E U g (commit_view (confirm_view info b L))" by simp
    moreover have "forks_in U (commit_view (confirm_view info b L))"
      using L(3) by (simp add: forks_in_def forks_inv_def commit_view_def confirm_view_def)
    ultimately show ?thesis using 2 assms(5) by (auto simp: ledger_ok_def)
  next
    case 3
    then show ?thesis using assms(5) by auto
  qed
qed

lemma fork_record_forks:
  assumes "forks_in U L" "ForkWith f s" "f \<in> U" "s \<in> U"
  shows "same_but_forks L (fork_record E L f s)" "forks_in U (fork_record E L f s)"
proof -
  have refl: "rel_option (\<lambda>i j. j = i\<lparr>ai_forks := ai_forks j\<rparr>) x x" for x :: "account_info option"
    by (cases x) simp_all
  have id: "same_but_forks L L"
    unfolding same_but_forks_def
    by (rule exI [of _ "v_forks L"], rule exI [of _ "v_accounts L"]) (simp add: refl)
  have put: "same_but_forks L (L\<lparr>v_forks := f, v_accounts := (v_accounts L)(a \<mapsto> i\<lparr>ai_forks := n\<rparr>)\<rparr>)"
    if "v_accounts L a = Some i" for f a i n
    unfolding same_but_forks_def
    by (rule exI [of _ f], rule exI [of _ "(v_accounts L)(a \<mapsto> i\<lparr>ai_forks := n\<rparr>)"]) (simp add: that refl)
  have only: "same_but_forks L (L\<lparr>v_forks := f\<rparr>)" for f
    unfolding same_but_forks_def
    by (rule exI [of _ f], rule exI [of _ "v_accounts L"]) (simp add: refl)
  show "same_but_forks L (fork_record E L f s)"
    using id put only by (auto simp: fork_record_def Let_def split: option.splits prod.splits)
  show "forks_in U (fork_record E L f s)"
    using assms by (auto simp: fork_record_def forks_in_def forks_inv_def ForkWith_iff Let_def split: option.splits prod.splits)
qed

lemma fork_update_forks:
  assumes "forks_in U L"
  shows "same_but_forks L (fork_update a L)" "forks_in U (fork_update a L)"
proof -
  have refl: "rel_option (\<lambda>i j. j = i\<lparr>ai_forks := ai_forks j\<rparr>) x x" for x :: "account_info option"
    by (cases x) simp_all
  have put: "same_but_forks L (L\<lparr>v_forks := f, v_accounts := (v_accounts L)(a \<mapsto> i\<lparr>ai_forks := n\<rparr>)\<rparr>)"
    if "v_accounts L a = Some i" for f i n
    unfolding same_but_forks_def
    by (rule exI [of _ f], rule exI [of _ "(v_accounts L)(a \<mapsto> i\<lparr>ai_forks := n\<rparr>)"]) (simp add: that refl)
  have only: "same_but_forks L (L\<lparr>v_forks := f\<rparr>)" for f
    unfolding same_but_forks_def
    by (rule exI [of _ f], rule exI [of _ "v_accounts L"]) (simp add: refl)
  show "same_but_forks L (fork_update a L)" "forks_in U (fork_update a L)"
    using put only assms by (auto simp: fork_update_def forks_in_def forks_inv_def split: option.splits)
qed

lemma fork_record_operations [simp]: "v_operations (fork_record E L f s) = v_operations L"
  by (simp add: fork_record_def Let_def split: option.splits)

lemma fork_update_operations [simp]: "v_operations (fork_update a L) = v_operations L"
  by (simp add: fork_update_def split: option.splits)

lemma ledger_ok_fork:
  assumes "reliable M" "ledger_ok M E U g l" "universe E g U" "f \<in> U" "s \<in> U" "ForkWith f s"
    "ProcessBlockFork_body M (at_time E t) (Transaction_new l True) f s = (out, txn)"
  shows "ledger_ok M E U g (Transaction_end M l txn) \<and> out \<noteq> Fork_Assert"
proof -
  obtain L where L: "ledger_state M l L" "reachable E U g L" "forks_in U L" using assms(2) by (auto simp: ledger_ok_def)
  have rel: "ledger_rel M (Transaction_new l True) L" using L(1) by (simp add: ledger_state_def)
  let ?L = "fork_record (at_time E t) L f s"
  have w: "writable M txn" "ledger_rel M txn ?L" "out \<noteq> Fork_Assert"
    using ProcessBlockFork_body_view [OF reliable_writable [OF assms(1)] rel _ universeD(1) [OF assms(3,4)] universeD(1) [OF assms(3,5)],
      of "at_time E t"] assms(7) L(3) by (auto simp: forks_in_def)
  have "ledger_state M (Transaction_end M l txn) ?L"
    using Transaction_end_tables [OF assms(1) w(1,2)] ledger_state_operations [OF L(1)] by simp
  with w(3) reachable.forks [OF L(2)] fork_record_forks [OF L(3) assms(6,4,5)] show ?thesis by (auto simp: ledger_ok_def)
qed

lemma ledger_ok_UpdateForks:
  assumes "reliable M" "ledger_ok M E U g l"
  shows "ledger_ok M E U g
    (Transaction_end M l (fold (\<lambda>a txn. UpdateForks_account M txn a) as (Transaction_new l True)))"
proof -
  obtain L where L: "ledger_state M l L" "reachable E U g L" "forks_in U L" using assms(2) by (auto simp: ledger_ok_def)
  have rel: "ledger_rel M (Transaction_new l True) L" using L(1) by (simp add: ledger_state_def)
  have "\<exists>L'. writable M (fold (\<lambda>a txn. UpdateForks_account M txn a) as txn) \<and>
      ledger_rel M (fold (\<lambda>a txn. UpdateForks_account M txn a) as txn) L' \<and> reachable E U g L' \<and> forks_in U L' \<and>
      v_operations L' = v_operations L"
    if "writable M txn" "ledger_rel M txn L" "reachable E U g L" "forks_in U L" for txn L
    using that
  proof (induction as arbitrary: txn L)
    case (Cons a as)
    note u = UpdateForks_account_view [OF Cons.prems(1,2) conjunct1 [OF Cons.prems(4) [unfolded forks_in_def]], of a] and f = fork_update_forks [OF Cons.prems(4), of a]
    from Cons.IH [OF conjunct1 [OF u] conjunct2 [OF u] reachable.forks [OF Cons.prems(3) f(1)] f(2)]
    show ?case by simp
  qed auto
  from this [OF reliable_writable [OF assms(1)] rel L(2,3)] obtain L' where
    "writable M (fold (\<lambda>a txn. UpdateForks_account M txn a) as (Transaction_new l True))"
    "ledger_rel M (fold (\<lambda>a txn. UpdateForks_account M txn a) as (Transaction_new l True)) L'"
    "reachable E U g L'" "forks_in U L'" "v_operations L' = v_operations L"
    by blast
  with Transaction_end_tables [OF assms(1)] ledger_state_operations [OF L(1)] show ?thesis
    unfolding ledger_ok_def by metis
qed

section \<open>Ordinary blocks and forks\<close>

lemma BlockGet_forward_stored:
  assumes "ledger_rel M txn L"
  shows "BlockGet_forward M txn a n h k = Some (b, s) \<Longrightarrow> \<exists>x. v_blocks L x = Some (b, s) \<and> Account b = a \<and> Height b = n"
proof (induction k arbitrary: h)
  case (Suc k)
  then obtain c u where c: "v_blocks L h = Some (c, u)"
    by (auto simp: get_rels [OF assms] split: option.splits)
  show ?case
  proof (cases "n = Height c \<and> a = Account c")
    case True
    with Suc.prems c show ?thesis by (auto simp: get_rels [OF assms])
  next
    case False
    with Suc.prems c have "BlockGet_forward M txn a n u k = Some (b, s)" by (simp add: get_rels [OF assms])
    then show ?thesis by (rule Suc.IH)
  qed
qed simp

lemma BlockGet_backward_stored:
  assumes "ledger_rel M txn L"
  shows "BlockGet_backward M txn a n h k = Some (b, s) \<Longrightarrow> \<exists>x. v_blocks L x = Some (b, s) \<and> Account b = a \<and> Height b = n"
proof (induction k arbitrary: h)
  case (Suc k)
  then obtain c u where c: "v_blocks L h = Some (c, u)"
    by (auto simp: get_rels [OF assms] split: option.splits)
  show ?case
  proof (cases "n = Height c \<and> a = Account c")
    case True
    with Suc.prems c show ?thesis by (auto simp: get_rels [OF assms])
  next
    case False
    with Suc.prems c have "BlockGet_backward M txn a n (Previous c) k = Some (b, s)" by (simp add: get_rels [OF assms])
    then show ?thesis by (rule Suc.IH)
  qed
qed simp

lemma BlockGet_height_stored:
  assumes "ledger_rel M txn L" "BlockGet_height M txn a n = Some b"
  obtains h s where "v_blocks L h = Some (b, s)" "Account b = a" "Height b = n"
proof -
  obtain s where "BlockGet_height_successor M txn a n = Some (b, s)"
    using assms(2) by (auto simp: BlockGet_height_def)
  then have "(\<exists>h k. BlockGet_forward M txn a n h k = Some (b, s)) \<or> (\<exists>h k. BlockGet_backward M txn a n h k = Some (b, s))"
    unfolding BlockGet_height_successor_def Let_def
    by (simp only: split: option.split_asm if_split_asm) blast+
  then show thesis
    using BlockGet_forward_stored [OF assms(1)] BlockGet_backward_stored [OF assms(1)] that by blast
qed

lemma ledger_ok_stored:
  assumes "ledger_ok M E U g l" "universe E g U" "BlockGet_height M (Transaction_new l True) a n = Some b"
  shows "b \<in> U" "Account b = a" "Height b = n"
proof -
  obtain L where L: "ledger_state M l L" "reachable E U g L" using assms(1) by (auto simp: ledger_ok_def)
  have rel: "ledger_rel M (Transaction_new l True) L" using L(1) by (simp add: ledger_state_def)
  obtain h s where b: "v_blocks L h = Some (b, s)" "Account b = a" "Height b = n"
    by (rule BlockGet_height_stored [OF rel assms(3)])
  from reachable_stored [OF L(2) assms(2) b(1)] b(2,3) show "b \<in> U" "Account b = a" "Height b = n" by simp_all
qed

lemma rest_inv_AddFork:
  assumes "rest_inv E U p" "fk_first f \<in> U" "fk_second f \<in> U"
  shows "rest_inv E U (p\<lparr>bp_queues := BlockProcessor_AddFork (bp_queues p) f\<rparr>)"
  using assms BlockProcessor_AddFork_ok [of E "bp_queues p" f]
  by (auto simp: rest_inv_def queues_ok_def BlockProcessor_AddFork_def queued_def split: if_splits)

lemma ProcessBlock_switch_inv:
  assumes "rest_inv E U p" "b \<in> U" "c = SUCCESS \<or> c \<in> append_refusals \<union> append_failures"
    "\<And>d. c = BLOCK_PROCESS_FORK \<Longrightarrow> BlockGet_height M txn (Account b) (Height b) = Some d \<Longrightarrow> d \<in> U"
    "ProcessBlock_switch M (at_time E t) now txn b c p = (c', p')"
  shows "rest_inv E U p'" "bp_ledger p' = bp_ledger p" "c' = SUCCESS \<longleftrightarrow> c = SUCCESS"
proof -
  note q = QueueGapCaches_inv [OF assms(1), of t now "Hash E b"]
  note pub = emit_rest [of U "Block_Published b" E "QueueGapCaches (at_time E t) now p (Hash E b)"]
  have known: "c = SUCCESS \<or> c \<in> set rejected_codes \<or> c = BLOCK_PROCESS_GAP_PREVIOUS \<or>
      c = BLOCK_PROCESS_GAP_RECEIVE_SOURCE \<or> c = BLOCK_PROCESS_GAP_REWARD_SOURCE \<or> c = BLOCK_PROCESS_FORK"
    using assms(3) append_codes_handled by blast
  have n: "SUCCESS \<notin> set rejected_codes" by (simp add: rejected_codes_def)
  show "rest_inv E U p'"
    using assms(5) q(1) pub known assms(1,2,4) cache_ok_Insert [OF rest_inv_parts(1) [OF assms(1)] assms(2)]
      cache_ok_Insert [OF rest_inv_parts(2) [OF assms(1)] assms(2)]
      cache_ok_Insert [OF rest_inv_parts(3) [OF assms(1)] assms(2)]
    by (auto simp: ProcessBlock_switch_def rest_inv_caches intro!: rest_inv_AddFork
        split: if_splits option.splits)
  show "bp_ledger p' = bp_ledger p" "c' = SUCCESS \<longleftrightarrow> c = SUCCESS"
    using assms(5) q(2) n by (auto simp: ProcessBlock_switch_def split: if_splits option.splits)
qed

lemma ProcessBlock_inv:
  assumes "reliable M" "node_inv M E U g p" "universe E g U" "b \<in> U"
  shows "node_inv M E U g (ProcessBlock M (at_time E t) now p b ignore_fork)"
proof -
  let ?E = "at_time E t" and ?l = "bp_ledger p"
  have ok: "ledger_ok M E U g ?l" "rest_inv E U p" using assms(2) by (simp_all add: node_inv_def)
  obtain c txn where a: "AppendBlock M ?E (Transaction_new ?l True) b = (c, txn)" by fastforce
  note r = ledger_ok_append [OF assms(1) ok(1) assms(4,3) a]
  obtain c' p' where s: "ProcessBlock_switch M ?E now txn b c p = (c', p')" by fastforce
  have code: "c = SUCCESS \<or> c \<in> append_refusals \<union> append_failures" using r by blast
  have stored: "d \<in> U" if "c = BLOCK_PROCESS_FORK" "BlockGet_height M txn (Account b) (Height b) = Some d" for d
    using ledger_ok_stored(1) [OF ok(1) assms(3), of _ _ d] that r by auto
  note sw = ProcessBlock_switch_inv [OF ok(2) assms(4) code stored s]
  show ?thesis
    using sw r ok Transaction_end_unchanged [of M ?l] a s assms(4)
    by (auto simp: ProcessBlock_def assms(1) node_inv_def Let_def)
qed

lemma node_inv_emit [simp]: "event_ok U e \<Longrightarrow> node_inv M E U g (emit e p) = node_inv M E U g p"
  by (simp add: node_inv_def emit_rest)

lemma ProcessBlockFork_inv:
  assumes "reliable M" "node_inv M E U g p" "universe E g U" "f \<in> U" "s \<in> U"
  shows "node_inv M E U g (ProcessBlockFork M (at_time E t) p f s)"
proof (cases "ForkWith f s")
  case True
  let ?l = "bp_ledger p"
  have ok: "ledger_ok M E U g ?l" "rest_inv E U p" using assms(2) by (simp_all add: node_inv_def)
  obtain out txn where b: "ProcessBlockFork_body M (at_time E t) (Transaction_new ?l True) f s = (out, txn)" by fastforce
  have l: "ledger_ok M E U g (Transaction_end M ?l txn) \<and> out \<noteq> Fork_Assert"
    by (rule ledger_ok_fork [OF assms(1) ok(1) assms(3,4,5) True b])
  then have closed: "node_inv M E U g (close M txn p)" using ok(2) by (simp add: node_inv_def)
  show ?thesis
  proof (cases out)
    case Fork_Return
    with closed b True show ?thesis by (simp add: ProcessBlockFork_def assms(1))
  next
    case Fork_Assert
    with l show ?thesis by simp
  next
    case (Fork_Done r)
    then have "ProcessBlockFork M (at_time E t) p f s =
      (let p = (case fo_del r of None \<Rightarrow> close M txn p
                | Some (del_first, del_second) \<Rightarrow> emit (Fork_Observed False del_first del_second) (close M txn p));
           p = (if fo_broadcast r then emit (Fork_Observed True f s) (emit (Fork_Broadcast f s) p) else p)
       in if fo_election r then emit (Election_Started f s) p else p)"
      by (simp add: ProcessBlockFork_def assms(1) True b Let_def)
    with closed assms(4,5) show ?thesis by (cases "fo_del r") (simp_all add: Let_def split: prod.split)
  qed
next
  case False
  with assms(2) show ?thesis by (simp add: ProcessBlockFork_def)
qed

end
