(* ===== verification/ForcedInv.thy ===== *)
theory ForcedInv
  imports NodeInv
begin

text \<open>
  Forced operations keep the invariant of the node: each operation on the ledger hands a
  well-formed stack back to the loop, and the loop ends with no assertion failed and no null block used.
\<close>

section \<open>Forced operations\<close>

definition ready :: "block set \<Rightarrow> dynamic_stack \<Rightarrow> bool" where
  "ready U st \<longleftrightarrow> (\<forall>d \<in> set st. entry_ok U d \<and> bd_block d \<noteq> None)"

definition waiting :: "block set \<Rightarrow> dynamic_stack \<Rightarrow> bool" where
  "waiting U st \<longleftrightarrow> st \<noteq> [] \<and> entry_ok U (hd st) \<and> ready U (tl st)"

lemma waiting_stack_ok: "waiting U st \<Longrightarrow> st \<noteq> [] \<and> stack_ok U st"
  by (cases st) (auto simp: waiting_def stack_ok_def ready_def)

lemma ready_push: "ready U st \<Longrightarrow> o' \<in> {APPEND, PREPEND, ROLLBACK, CONFIRM} \<Longrightarrow> b \<in> U \<Longrightarrow> ready U (push o' (Some b) st)"
  by (auto simp: ready_def push_def entry_ok_def)

lemma waiting_push: "ready U st \<Longrightarrow> o' \<in> {APPEND, PREPEND, ROLLBACK, CONFIRM} \<Longrightarrow> waiting U (push o' None st)"
  by (auto simp: waiting_def push_def entry_ok_def)

text \<open>What each operation on the ledger hands to the loop: after \<open>BLOCK_PROCESS_CONTINUE\<close> a stack whose blocks
  are all there, after \<open>BLOCK_PROCESS_WAIT\<close> one whose top waits, after any other code the same stack.\<close>

definition handed :: "block set \<Rightarrow> dynamic_stack \<Rightarrow> error_code \<Rightarrow> dynamic_stack \<Rightarrow> bool" where
  "handed U st c st' \<longleftrightarrow>
     (if c = BLOCK_PROCESS_CONTINUE then ready U st'
      else if c = BLOCK_PROCESS_WAIT then waiting U st' else st' = st)"

lemma accounts_insert_fields [simp]:
  "bp_ledger (accounts_insert n a p) = bp_ledger p" "blocks_dynamic (accounts_insert n a p) = blocks_dynamic p"
  "rest_inv E U (accounts_insert n a p) = rest_inv E U p"
  by (simp_all add: accounts_insert_def rest_inv_def)

lemma QueryPrevious_inv:
  assumes "QueryPrevious p n b = (e, p')" "dyn n"
  shows "bp_ledger p' = bp_ledger p" "rest_inv E U p' = rest_inv E U p" "blocks_dynamic p' = blocks_dynamic p"
  using assms by (auto simp: QueryPrevious_def emit_rest split: if_splits)

lemma QueryPrevious_account_inv:
  assumes "QueryPrevious_account M txn p n a = (e, p')" "dyn n"
  shows "bp_ledger p' = bp_ledger p" "rest_inv E U p' = rest_inv E U p" "blocks_dynamic p' = blocks_dynamic p"
  using assms by (auto simp: QueryPrevious_account_def emit_rest split: if_splits option.splits)

lemma QuerySource_inv [simp]:
  "bp_ledger (QuerySource p n h) = bp_ledger p" "dyn n \<Longrightarrow> rest_inv E U (QuerySource p n h) = rest_inv E U p"
  "blocks_dynamic (QuerySource p n h) = blocks_dynamic p"
  by (simp_all add: QuerySource_def emit_rest)

lemma SUCCESS_codes [simp]:
  "SUCCESS \<noteq> BLOCK_PROCESS_CONTINUE" "SUCCESS \<noteq> BLOCK_PROCESS_WAIT"
  "c \<in> append_refusals \<union> append_failures \<Longrightarrow> c \<noteq> BLOCK_PROCESS_CONTINUE \<and> c \<noteq> BLOCK_PROCESS_WAIT"
  "c \<in> rollback_refusals \<Longrightarrow> c \<noteq> BLOCK_PROCESS_CONTINUE \<and> c \<noteq> BLOCK_PROCESS_WAIT"
  by (auto simp: append_refusals_def append_failures_def rollback_refusals_def)

text \<open>The result of an operation on the ledger, for the loop that called it.\<close>

definition op_result ::
  "'db lmdb \<Rightarrow> env \<Rightarrow> block set \<Rightarrow> block \<Rightarrow> 'db processor \<Rightarrow> dynamic_stack \<Rightarrow>
     error_code \<times> dynamic_stack \<times> 'db processor \<Rightarrow> bool" where
  "op_result M E U g p st r \<longleftrightarrow> (case r of (c, st', p') \<Rightarrow>
     node_inv M E U g p' \<and> handed U st c st' \<and> blocks_dynamic p' = blocks_dynamic p)"

lemma op_result_if:
  "(q \<Longrightarrow> op_result M E U g p st x) \<Longrightarrow> (\<not> q \<Longrightarrow> op_result M E U g p st y) \<Longrightarrow>
   op_result M E U g p st (if q then x else y)"
  by simp

lemma op_result_unchanged:
  assumes "node_inv M E U g p" "bp_ledger p' = bp_ledger p" "rest_inv E U p'" "blocks_dynamic p' = blocks_dynamic p"
    "handed U st c st'" "txn \<in> {Transaction_new (bp_ledger p) True, Transaction_Abort (Transaction_new (bp_ledger p) True)}"
  shows "op_result M E U g p st (c, st', close M txn p')"
  using assms Transaction_end_unchanged [of M "bp_ledger p"] by (auto simp: op_result_def node_inv_def)

lemma handed_simps [simp]:
  "handed U st BLOCK_PROCESS_CONTINUE st' = ready U st'" "handed U st BLOCK_PROCESS_WAIT st' = waiting U st'"
  "c \<noteq> BLOCK_PROCESS_CONTINUE \<and> c \<noteq> BLOCK_PROCESS_WAIT \<Longrightarrow> handed U st c st' = (st' = st)"
  by (simp_all add: handed_def)

lemma op_result_wait:
  assumes "node_inv M E U g p" "bp_ledger p' = bp_ledger p" "rest_inv E U p'" "blocks_dynamic p' = blocks_dynamic p"
    "ready U st" "o' \<in> {APPEND, PREPEND, ROLLBACK, CONFIRM}"
  shows "op_result M E U g p st (BLOCK_PROCESS_WAIT, push o' None st, close M (Transaction_new (bp_ledger p) True) p')"
  by (rule op_result_unchanged [OF assms(1-4)]) (simp_all add: waiting_push [OF assms(5,6)])

lemma op_result_push:
  assumes "node_inv M E U g p" "ready U st" "o' \<in> {APPEND, PREPEND, ROLLBACK, CONFIRM}" "b \<in> U"
  shows "op_result M E U g p st (BLOCK_PROCESS_CONTINUE, push o' (Some b) st,
    close M (Transaction_new (bp_ledger p) True) (accounts_insert n (Account b) p))"
  using assms(1) by (intro op_result_unchanged) (simp_all add: ready_push [OF assms(2-4)] node_inv_def)

lemma op_result_query:
  assumes "node_inv M E U g p" "ready U st" "c \<noteq> BLOCK_PROCESS_CONTINUE \<and> c \<noteq> BLOCK_PROCESS_WAIT"
    "query = (e, p')" "bp_ledger p' = bp_ledger p" "rest_inv E U p'" "blocks_dynamic p' = blocks_dynamic p"
    "o' \<in> {APPEND, PREPEND, ROLLBACK, CONFIRM}"
  shows "op_result M E U g p st (case query of (error, p') \<Rightarrow>
     if error then (c, st, close M (Transaction_new (bp_ledger p) True) p')
     else (BLOCK_PROCESS_WAIT, push o' None st, close M (Transaction_new (bp_ledger p) True) p'))"
proof (cases e)
  case True
  then show ?thesis using op_result_unchanged [OF assms(1,5,6,7), of st c st] assms(3,4) by simp
next
  case False
  then show ?thesis using op_result_wait [OF assms(1,5,6,7,2,8)] assms(4) by simp
qed

lemma op_result_previous:
  assumes "node_inv M E U g p" "ready U st" "c \<noteq> BLOCK_PROCESS_CONTINUE \<and> c \<noteq> BLOCK_PROCESS_WAIT"
    "o' \<in> {APPEND, PREPEND, ROLLBACK, CONFIRM}" "dyn n"
  shows "op_result M E U g p st (case QueryPrevious p n b of (error, p') \<Rightarrow>
     if error then (c, st, close M (Transaction_new (bp_ledger p) True) p')
     else (BLOCK_PROCESS_WAIT, push o' None st, close M (Transaction_new (bp_ledger p) True) p'))"
    "op_result M E U g p st (case QueryPrevious_account M txn p n a of (error, p') \<Rightarrow>
     if error then (c, st, close M (Transaction_new (bp_ledger p) True) p')
     else (BLOCK_PROCESS_WAIT, push o' None st, close M (Transaction_new (bp_ledger p) True) p'))"
proof -
  have rest: "rest_inv E U p" using assms(1) by (simp add: node_inv_def)
  obtain e p' where q: "QueryPrevious p n b = (e, p')" by fastforce
  from op_result_query [OF assms(1-3) q] rest QueryPrevious_inv [OF q assms(5)] assms(4)
  show "op_result M E U g p st (case QueryPrevious p n b of (error, p') \<Rightarrow>
     if error then (c, st, close M (Transaction_new (bp_ledger p) True) p')
     else (BLOCK_PROCESS_WAIT, push o' None st, close M (Transaction_new (bp_ledger p) True) p'))" by simp
  obtain e p' where q: "QueryPrevious_account M txn p n a = (e, p')" by fastforce
  from op_result_query [OF assms(1-3) q] rest QueryPrevious_account_inv [OF q assms(5)] assms(4)
  show "op_result M E U g p st (case QueryPrevious_account M txn p n a of (error, p') \<Rightarrow>
     if error then (c, st, close M (Transaction_new (bp_ledger p) True) p')
     else (BLOCK_PROCESS_WAIT, push o' None st, close M (Transaction_new (bp_ledger p) True) p'))" by simp
qed

lemma DynamicAppend_inv:
  assumes "reliable M" "node_inv M E U g p" "universe E g U" "b \<in> U" "ready U st" "dyn n"
  shows "op_result M E U g p st (ProcessBlockDynamicAppend M (at_time E t) now n st b p)"
proof -
  let ?E = "at_time E t" and ?l = "bp_ledger p"
  have ok: "ledger_ok M E U g ?l" "rest_inv E U p" using assms(2) by (simp_all add: node_inv_def)
  obtain c txn where a: "AppendBlock M ?E (Transaction_new ?l True) b = (c, txn)" by fastforce
  note r = ledger_ok_append [OF assms(1) ok(1) assms(4,3) a]
  note q = QueueGapCaches_inv [OF ok(2), of t now "Hash E b"]
  show ?thesis
  proof (cases "c = SUCCESS")
    case True
    with a r ok q assms(1) show ?thesis
      by (simp add: ProcessBlockDynamicAppend_def op_result_def node_inv_def)
  next
    case False
    with r have t: "txn = Transaction_new ?l True" and code: "c \<in> append_refusals \<union> append_failures" by auto
    note plain = SUCCESS_codes(3) [OF code]
    note eq = ProcessBlockDynamicAppend_def a t assms(1)
    consider "c \<in> {BLOCK_PROCESS_PREVIOUS, BLOCK_PROCESS_GAP_PREVIOUS, BLOCK_PROCESS_TYPE_MISMATCH}"
      | "c = BLOCK_PROCESS_PRUNED" | "c \<in> {BLOCK_PROCESS_GAP_RECEIVE_SOURCE, BLOCK_PROCESS_GAP_REWARD_SOURCE}"
      | "c = BLOCK_PROCESS_FORK" | "c = BLOCK_PROCESS_EXISTS"
      | "c \<in> set rejected_codes" "c \<notin> {BLOCK_PROCESS_PREVIOUS, BLOCK_PROCESS_GAP_PREVIOUS, BLOCK_PROCESS_TYPE_MISMATCH,
          BLOCK_PROCESS_PRUNED, BLOCK_PROCESS_GAP_RECEIVE_SOURCE, BLOCK_PROCESS_GAP_REWARD_SOURCE,
          BLOCK_PROCESS_FORK, BLOCK_PROCESS_EXISTS}"
      using append_codes_handled code by blast
    then show ?thesis
    proof cases
      case 1
      with False op_result_previous(1) [OF assms(2,5) plain _ assms(6)] show ?thesis by (simp add: eq)
    next
      case 2
      with op_result_previous(2) [OF assms(2,5) plain _ assms(6), of PREPEND] show ?thesis by (auto simp: eq)
    next
      case 3
      with False op_result_wait [OF assms(2) _ _ _ assms(5), of "QuerySource p n (Link b)" APPEND] ok(2) assms(6)
      show ?thesis by (auto simp: eq)
    next
      case 4
      show ?thesis
      proof (cases "BlockGet_height M (Transaction_new ?l True) (Account b) (Height b)")
        case None
        with 4 op_result_unchanged [OF assms(2) refl ok(2) refl] show ?thesis by (simp add: eq)
      next
        case (Some d)
        with 4 op_result_push [OF assms(2,5) _ ledger_ok_stored(1) [OF ok(1) assms(3) Some]]
        show ?thesis by (simp add: eq)
      qed
    next
      case 5
      with op_result_unchanged [OF assms(2) refl ok(2) refl] show ?thesis by (simp add: eq)
    next
      case 6
      with False plain op_result_unchanged [OF assms(2) refl ok(2) refl] show ?thesis by (simp add: eq)
    qed
  qed
qed

lemma DynamicPrepend_inv:
  assumes "reliable M" "node_inv M E U g p" "universe E g U" "b \<in> U"
  shows "op_result M E U g p st (ProcessBlockDynamicPrepend M (at_time E t) n st b p)"
proof -
  have ok: "ledger_ok M E U g (bp_ledger p)" "rest_inv E U p" using assms(2) by (simp_all add: node_inv_def)
  obtain L where L: "ledger_state M (bp_ledger p) L" "history_inv E g L" by (rule ledger_ok_history [OF ok(1) assms(3)])
  have "sane (at_time E t) b" using universeD(2) [OF assms(3,4)] by simp
  from PrependBlock_refuses [OF L(1) history_parts(6) [OF L(2)] this]
  obtain c where c: "c \<in> {BLOCK_PROCESS_SIGNATURE, BLOCK_PROCESS_PREPEND_IGNORE}"
    "PrependBlock M (at_time E t) (Transaction_new (bp_ledger p) True) b = (c, Transaction_new (bp_ledger p) True)" .
  then show ?thesis
    using op_result_unchanged [OF assms(2) refl ok(2) refl, of st c st] assms(1)
    by (auto simp: ProcessBlockDynamicPrepend_def)
qed

lemma ledger_ok_BlockGet:
  assumes "ledger_ok M E U g l" "universe E g U" "BlockGet M (Transaction_new l True) h = Some b"
  shows "b \<in> U"
proof -
  obtain L where L: "ledger_state M l L" "reachable E U g L" using assms(1) by (auto simp: ledger_ok_def)
  have rel: "ledger_rel M (Transaction_new l True) L" using L(1) by (simp add: ledger_state_def)
  from assms(3) obtain s where "v_blocks L h = Some (b, s)" by (auto simp: get_rels [OF rel])
  then show ?thesis by (rule reachable_stored [OF L(2) assms(2)])
qed

lemma push_rollback_inv:
  assumes "node_inv M E U g p" "ready U st" "c \<noteq> BLOCK_PROCESS_CONTINUE \<and> c \<noteq> BLOCK_PROCESS_WAIT"
    "\<And>b. found = Some b \<Longrightarrow> b \<in> U"
  shows "op_result M E U g p st (push_rollback M (Transaction_new (bp_ledger p) True) n st c found p)"
proof (cases found)
  case None
  with op_result_unchanged [OF assms(1) refl _ refl, of st c st] assms(1,3) show ?thesis
    by (simp add: push_rollback_def node_inv_def)
next
  case (Some b)
  with op_result_push [OF assms(1,2), of ROLLBACK b n] assms(4) show ?thesis by (simp add: push_rollback_def)
qed

lemma DynamicRollback_inv:
  assumes "reliable M" "node_inv M E U g p" "universe E g U" "b \<in> U" "ready U st" "dyn n"
  shows "op_result M E U g p st (ProcessBlockDynamicRollback M (at_time E t) n st b p)"
proof -
  let ?E = "at_time E t" and ?l = "bp_ledger p"
  have ok: "ledger_ok M E U g ?l" "rest_inv E U p" using assms(2) by (simp_all add: node_inv_def)
  obtain c txn where a: "RollbackBlock M ?E (Transaction_new ?l True) b = (c, txn)" by fastforce
  note r = ledger_ok_rollback [OF assms(1) ok(1) assms(3) universeD(1) [OF assms(3,4)] a]
  note eq = ProcessBlockDynamicRollback_def a assms(1) and get = ledger_ok_BlockGet [OF ok(1) assms(3)]
  show ?thesis
  proof (cases "c = SUCCESS")
    case True
    with r have "ledger_ok M E U g (Transaction_end M ?l txn)" by (auto simp: rollback_refusals_def)
    with True ok show ?thesis by (simp add: eq op_result_def node_inv_def)
  next
    case False
    with r have t: "txn = Transaction_new ?l True" and code: "c \<in> rollback_refusals" by auto
    note plain = SUCCESS_codes(4) [OF code] and push = push_rollback_inv [OF assms(2,5) SUCCESS_codes(4) [OF code]]
    consider "c = BLOCK_PROCESS_ROLLBACK_IGNORE" | "c = BLOCK_PROCESS_ROLLBACK_TAIL"
      | "c = BLOCK_PROCESS_ROLLBACK_NON_HEAD" | "c = BLOCK_PROCESS_ROLLBACK_REWARDED"
      | "c = BLOCK_PROCESS_ROLLBACK_RECEIVED" | "c = BLOCK_PROCESS_ROLLBACK_SOURCE_PRUNED"
      | "c \<in> {BLOCK_PROCESS_LEDGER_INCONSISTENT, BLOCK_PROCESS_ROLLBACK_NOT_EQUAL_TO_HEAD}"
      using code unfolding rollback_refusals_def by blast
    then show ?thesis
    proof cases
      case 1
      with op_result_unchanged [OF assms(2) refl ok(2) refl] show ?thesis by (simp add: eq t)
    next
      case 2
      with op_result_previous(2) [OF assms(2,5) plain _ assms(6), of PREPEND] show ?thesis by (auto simp: eq t)
    next
      case 3
      have "op_result M E U g p st (push_rollback M (Transaction_new ?l True) n st c
        (case BlockSuccessorGet M (Transaction_new ?l True) (Hash ?E b) of None \<Rightarrow> None
         | Some hash \<Rightarrow> BlockGet M (Transaction_new ?l True) hash) p)"
        by (rule push) (auto split: option.splits dest: get)
      with 3 show ?thesis by (simp add: eq t)
    next
      case 4
      have "op_result M E U g p st (push_rollback M (Transaction_new ?l True) n st c
        (case BlockGet M (Transaction_new ?l True) (Previous b) of None \<Rightarrow> None
         | Some previous \<Rightarrow> account_head M (Transaction_new ?l True) (Representative previous)) p)"
        by (rule push) (auto simp: account_head_def split: option.splits dest: get)
      with 4 show ?thesis by (simp add: eq t)
    next
      case 5
      have "op_result M E U g p st (push_rollback M (Transaction_new ?l True) n st c
        (account_head M (Transaction_new ?l True) (Link b)) p)"
        by (rule push) (auto simp: account_head_def split: option.splits dest: get)
      with 5 show ?thesis by (simp add: eq t)
    next
      case 6
      with op_result_wait [OF assms(2) _ _ _ assms(5), of "QuerySource p n (Link b)" APPEND] ok(2) assms(6)
      show ?thesis by (simp add: eq t)
    next
      case 7
      with op_result_unchanged [OF assms(2) refl ok(2) refl] show ?thesis
        by (auto simp: eq t rollback_failures_def)
    qed
  qed
qed

lemma DynamicConfirm_inv:
  assumes "reliable M" "node_inv M E U g p" "universe E g U" "b \<in> U" "ready U st"
    "ProcessBlockDynamicConfirm M (at_time E t) n st b k p = (c, st', k', p')"
  shows "op_result M E U g p st (c, st', p')"
proof -
  let ?E = "at_time E t" and ?l = "bp_ledger p"
  have ok: "ledger_ok M E U g ?l" "rest_inv E U p" using assms(2) by (simp_all add: node_inv_def)
  obtain c0 k0 txn where a: "ConfirmBlock M ?E (Transaction_new ?l True) b k = ((c0, k0), txn)" by (metis prod.exhaust)
  from ledger_ok_confirm [OF assms(1) ok(1) assms(3,4) a] show ?thesis
  proof
    assume "c0 = SUCCESS \<and> ledger_ok M E U g (Transaction_end M ?l txn)"
    with assms(1,6) ok a show ?thesis by (auto simp: ProcessBlockDynamicConfirm_def op_result_def node_inv_def)
  next
    assume m: "c0 = BLOCK_PROCESS_CONFIRM_BLOCK_MISS \<and> txn = Transaction_new ?l True"
    with op_result_push [OF assms(2,5) _ assms(4), of APPEND n] assms(1,6) a show ?thesis
      by (auto simp: ProcessBlockDynamicConfirm_def)
  qed
qed

section \<open>The loop\<close>

lemma ProcessBlockDynamic_top_inv:
  assumes "reliable M" "node_inv M E U g p" "universe E g U" "b \<in> U" "ready U st"
    "o' \<in> {APPEND, PREPEND, ROLLBACK, CONFIRM}" "dyn n"
    "ProcessBlockDynamic_top M (at_time E t) now n st o' b k p = (c, st', k', p')"
  shows "op_result M E U g p st (c, st', p')"
  using assms(6,8) DynamicAppend_inv [OF assms(1-5,7), of t now] DynamicPrepend_inv [OF assms(1-4), of st t n]
    DynamicRollback_inv [OF assms(1-5,7), of t] DynamicConfirm_inv [OF assms(1-5), of t n k c st' k' p']
  by (auto simp: ProcessBlockDynamic_top_def split: prod.splits)

lemma ready_tl: "ready U st \<Longrightarrow> ready U (tl st)"
  by (cases st) (auto simp: ready_def)

lemma ProcessBlockDynamic_next_inv:
  assumes "handed U st c st'" "ready U st"
  shows "ProcessBlockDynamic_next o' c st' = Loop_Again st'' \<Longrightarrow> ready U st''"
    "ProcessBlockDynamic_next o' c st' = Loop_Wait st'' \<Longrightarrow> waiting U st''"
  using assms ready_tl [OF assms(2)]
  by (auto simp: ProcessBlockDynamic_next_def handed_def split: if_splits)

lemma ProcessBlockDynamic_loop_inv:
  assumes "reliable M" "universe E g U" "dyn n"
  shows "ProcessBlockDynamic_loop M (at_time E t) now fuel n st k p = Some (r, p') \<Longrightarrow> node_inv M E U g p \<Longrightarrow>
     ready U st \<Longrightarrow> node_inv M E U g p' \<and> blocks_dynamic p' = blocks_dynamic p \<and> (\<forall>st'. r = Some st' \<longrightarrow> waiting U st')"
proof (induction fuel arbitrary: st k p)
  case (Suc fuel)
  show ?case
  proof (cases st)
    case Nil
    with Suc.prems show ?thesis by simp
  next
    case (Cons d rest)
    from Suc.prems(3) Cons obtain b where b: "bd_block d = Some b" "b \<in> U" "bd_operation d \<in> {APPEND, PREPEND, ROLLBACK, CONFIRM}"
      by (auto simp: ready_def entry_ok_def)
    obtain c st1 k1 p1 where s: "ProcessBlockDynamic_top M (at_time E t) now n st (bd_operation d) b k p = (c, st1, k1, p1)"
      by (metis prod.exhaust)
    from ProcessBlockDynamic_top_inv [OF assms(1) Suc.prems(2) assms(2) b(2) Suc.prems(3) b(3) assms(3) s]
    have p1: "node_inv M E U g p1" "handed U st c st1" "blocks_dynamic p1 = blocks_dynamic p" by (simp_all add: op_result_def)
    let ?p = "block_observer (bd_operation d) c k1 b p1"
    have p2: "node_inv M E U g ?p" "blocks_dynamic ?p = blocks_dynamic p" using p1 b(2) by (simp_all add: node_inv_def)
    note next_inv = ProcessBlockDynamic_next_inv [OF p1(2) Suc.prems(3)]
    show ?thesis
    proof (cases "ProcessBlockDynamic_next (bd_operation d) c st1")
      case (Loop_Again st2)
      with Suc.prems(1) Cons b s have "ProcessBlockDynamic_loop M (at_time E t) now fuel n st2 k1 ?p = Some (r, p')"
        by (simp add: Let_def)
      from Suc.IH [OF this p2(1) next_inv(1) [OF Loop_Again]] p2(2) show ?thesis by simp
    next
      case (Loop_Wait st2)
      with Suc.prems(1) Cons b s p2 next_inv(2) [OF Loop_Wait] show ?thesis by (auto simp: Let_def)
    next
      case Loop_Break
      with Suc.prems(1) Cons b s p2 show ?thesis by (auto simp: Let_def)
    qed
  qed
qed simp

lemma UpdateForks_inv:
  assumes "reliable M" "node_inv M E U g p"
  shows "node_inv M E U g (UpdateForks M p as)"
  using assms ledger_ok_UpdateForks [OF assms(1), of E U g "bp_ledger p" as]
  by (simp add: UpdateForks_def node_inv_def)

lemma node_inv_fields [simp]:
  "node_inv M E U g (p\<lparr>accounts_dynamic := x\<rparr>) = node_inv M E U g p"
  "node_inv M E U g (p\<lparr>roots_dynamic := y\<rparr>) = node_inv M E U g p"
  "node_inv M E U g (p\<lparr>bp_operation := z\<rparr>) = node_inv M E U g p"
  by (simp_all add: node_inv_def rest_inv_def)

lemma node_inv_stack:
  assumes "node_inv M E U g p" "\<And>st. s = Some st \<Longrightarrow> waiting U st \<and> dyn n"
  shows "node_inv M E U g (p\<lparr>blocks_dynamic := (blocks_dynamic p)(n := s)\<rparr>)"
  using assms waiting_stack_ok by (auto simp: node_inv_def rest_inv_def)

lemma ready_waiting: "ready U st \<Longrightarrow> st \<noteq> [] \<Longrightarrow> waiting U st"
  by (cases st) (auto simp: ready_def waiting_def)

lemma ProcessBlockDynamic_inv:
  assumes "reliable M" "universe E g U" "node_inv M E U g p"
    "\<And>st. blocks_dynamic p n = Some st \<Longrightarrow> ready U st"
    "ProcessBlockDynamic M (at_time E t) now fuel n p = Some p'"
  shows "node_inv M E U g p'"
proof (cases "blocks_dynamic p n")
  case None
  with assms show ?thesis by (simp add: ProcessBlockDynamic_def)
next
  case (Some st)
  with assms(5) obtain r p1 where l: "ProcessBlockDynamic_loop M (at_time E t) now fuel n st 0 p = Some (r, p1)"
    by (auto simp: ProcessBlockDynamic_def split: option.splits)
  have n: "dyn n" using assms(3) rest_inv_parts(6) [OF _ Some] by (auto simp: node_inv_def)
  note p1 = ProcessBlockDynamic_loop_inv [OF assms(1,2) n l assms(3) assms(4) [OF Some]]
  show ?thesis
  proof (cases r)
    case (Some st')
    with assms(5) \<open>blocks_dynamic p n = Some st\<close> l p1 node_inv_stack [of M E U g p1 "Some st'" n] n show ?thesis
      by (simp add: ProcessBlockDynamic_def)
  next
    case None
    have "node_inv M E U g (ProcessBlockDynamic_finish M n p1)"
      using UpdateForks_inv [OF assms(1) node_inv_stack [of M E U g p1 None n]] p1
      by (simp add: ProcessBlockDynamic_finish_def Let_def)
    with assms(5) \<open>blocks_dynamic p n = Some st\<close> l None show ?thesis by (simp add: ProcessBlockDynamic_def)
  qed
qed

lemma DynamicOpration_dyn: "dyn (fst (DynamicOpration k))"
proof (induction k rule: DynamicOpration.induct)
  case (1 k)
  then show ?case by (subst DynamicOpration.simps) auto
qed

lemma start_dynamic_inv:
  assumes "node_inv M E U g p" "o' \<in> {APPEND, CONFIRM}" "b \<in> U" "start_dynamic o' b p = (n, p')"
  shows "node_inv M E U g p'" "blocks_dynamic p' n = Some st \<Longrightarrow> ready U st"
proof -
  have st: "ready U (push o' (Some b) [])" using assms(2,3) by (auto simp: ready_def push_def entry_ok_def)
  obtain c where c: "DynamicOpration (bp_operation p) = (n, c)"
    using assms(4) by (auto simp: start_dynamic_def split: prod.splits)
  have n: "dyn n" using DynamicOpration_dyn [of "bp_operation p"] c by simp
  have "waiting U (push o' (Some b) [])" using ready_waiting [OF st] by (simp add: push_def)
  from node_inv_stack [OF assms(1), of "Some (push o' (Some b) [])" n] this n
  have "node_inv M E U g (p\<lparr>blocks_dynamic := (blocks_dynamic p)(n \<mapsto> push o' (Some b) [])\<rparr>)" by simp
  moreover have "p' = p\<lparr>blocks_dynamic := (blocks_dynamic p)(n \<mapsto> push o' (Some b) [])\<rparr>
      \<lparr>accounts_dynamic := (accounts_dynamic p)(n \<mapsto> [Account b])\<rparr>
      \<lparr>roots_dynamic := (roots_dynamic p)(n \<mapsto> Account b)\<rparr>\<lparr>bp_operation := c\<rparr>"
    using assms(4) c by (auto simp: start_dynamic_def intro!: processor.equality)
  ultimately show "node_inv M E U g p'" by (simp only: node_inv_fields)
  show "ready U st" if "blocks_dynamic p' n = Some st"
    using that assms(4) c st by (auto simp: start_dynamic_def)
qed

section \<open>The main loop\<close>

lemma ProcessBlockForced_inv:
  assumes "reliable M" "universe E g U" "node_inv M E U g p" "b \<in> U"
    "n \<in> {of_block_operation APPEND, of_block_operation CONFIRM} \<or> dyn n"
    "ProcessBlockForced M (at_time E t) now fuel n b p = Some p'"
  shows "node_inv M E U g p'"
proof (cases "dyn n")
  case True
  show ?thesis
  proof (cases "blocks_dynamic p n")
    case None
    with True assms(3,6) show ?thesis by (simp add: ProcessBlockForced_def)
  next
    case (Some st)
    have ok: "st \<noteq> []" "stack_ok U st" using rest_inv_parts(5) [OF _ Some] assms(3) by (auto simp: node_inv_def)
    then obtain d rest where st: "st = d # rest" by (cases st) auto
    have rdy: "ready U (d\<lparr>bd_block := Some b\<rparr> # rest)"
      using ok(2) assms(4) by (auto simp: st ready_def stack_ok_def entry_ok_def)
    let ?p = "(accounts_insert n (Account b) p)\<lparr>blocks_dynamic := (blocks_dynamic p)(n \<mapsto> d\<lparr>bd_block := Some b\<rparr> # rest)\<rparr>"
    have "node_inv M E U g (accounts_insert n (Account b) p)" using assms(3) by (simp add: node_inv_def)
    from node_inv_stack [OF this, of "Some (d\<lparr>bd_block := Some b\<rparr> # rest)" n] ready_waiting [OF rdy] True
    have inv: "node_inv M E U g ?p" by simp
    have run: "ProcessBlockDynamic M (at_time E t) now fuel n ?p = Some p'"
      using assms(6) True Some st by (simp add: ProcessBlockForced_def)
    show ?thesis by (rule ProcessBlockDynamic_inv [OF assms(1,2) inv _ run]) (use rdy in auto)
  qed
next
  case False
  with assms(5) obtain o' where o': "o' \<in> {APPEND, CONFIRM}" "n = of_block_operation o'" by blast
  obtain m q where q: "start_dynamic o' b p = (m, q)" by fastforce
  have "ProcessBlockDynamic M (at_time E t) now fuel m q = Some p'"
    using assms(6) False o' q by (auto simp: ProcessBlockForced_def)
  with start_dynamic_inv [OF assms(3) o'(1) assms(4) q] show ?thesis
    by (blast intro: ProcessBlockDynamic_inv [OF assms(1,2)])
qed

lemma Run_next_queues:
  assumes "queues_ok E U q" "Run_next q = Some (w, q')"
  shows "queues_ok E U q'"
    "w = Work_Fork f \<Longrightarrow> fk_first f \<in> U \<and> fk_second f \<in> U"
    "w = Work_Forced fc \<Longrightarrow> fc_block fc \<in> U \<and>
        (fc_operation fc \<in> {of_block_operation APPEND, of_block_operation CONFIRM} \<or> dyn (fc_operation fc))"
    "w = Work_Block b \<Longrightarrow> b \<in> U"
  using assms Run_next_ok [of E q w q'] 
  by (auto simp: queues_ok_def Run_next_def queued_def split: list.splits if_splits)

lemma Run_step_inv:
  assumes "reliable M" "universe E g U" "node_inv M E U g p" "Run_step M (at_time E t) now fuel p = Some p'"
  shows "node_inv M E U g p'"
proof (cases "Run_next (bp_queues p)")
  case None
  with assms(3,4) show ?thesis by (simp add: Run_step_def)
next
  case (Some wq)
  then obtain w q where n: "Run_next (bp_queues p) = Some (w, q)" by (cases wq) auto
  have "queues_ok E U (bp_queues p)" using assms(3) by (simp add: node_inv_def rest_inv_def)
  note q = Run_next_queues [OF this n]
  have inv: "node_inv M E U g (p\<lparr>bp_queues := q\<rparr>)" using assms(3) q(1) by (simp add: node_inv_def rest_inv_def)
  note block = ProcessBlock_inv [OF assms(1) _ assms(2)] and fork = ProcessBlockFork_inv [OF assms(1) _ assms(2)]
  show ?thesis
  proof (cases w)
    case (Work_Fork f)
    with q(2) have "fk_first f \<in> U" "fk_second f \<in> U" by auto
    then have "node_inv M E U g (ProcessBlockFork M (at_time E t)
        (if fk_from_local f then p\<lparr>bp_queues := q\<rparr>
         else ProcessBlock M (at_time E t) now (ProcessBlock M (at_time E t) now (p\<lparr>bp_queues := q\<rparr>) (fk_first f) True)
           (fk_second f) True) (fk_first f) (fk_second f))"
      using inv by (intro fork) (simp_all add: block)
    with assms(4) n Work_Fork show ?thesis by (simp add: Run_step_def Let_def)
  next
    case (Work_Forced fc)
    with assms(4) n q(3) have "ProcessBlockForced M (at_time E t) now fuel (fc_operation fc) (fc_block fc) (p\<lparr>bp_queues := q\<rparr>) = Some p'"
      by (simp add: Run_step_def Let_def)
    with q(3) [OF Work_Forced] show ?thesis by (blast intro: ProcessBlockForced_inv [OF assms(1,2) inv])
  next
    case (Work_Block b)
    with assms(4) n q(4) block [OF inv, of b t now False] show ?thesis by (auto simp: Run_step_def Let_def)
  qed
qed

end
