(* ===== verification/Cascade.thy ===== *)
theory Cascade
  imports Causality ForcedInv
begin

text \<open>
  Why forced operations end. A refused rollback names another block that has to go first: the successor, or the head of
  the account that used up the block. That block ranks above the refused one, so the rollbacks on a stack
  form an ascending chain of stored blocks. Each turn of the loop over the stack decreases, in this order, the work
  that is left below the rollbacks, the number of stored blocks, and the room left for the chain.
\<close>

section \<open>Why a rollback is refused\<close>

lemma Rollback_Check_reason:
  assumes "ledger_rel M txn L" "Rollback_Check M E txn b = Inl c"
  shows "c \<noteq> BLOCK_PROCESS_ROLLBACK_IGNORE \<Longrightarrow> v_blocks L (Hash E b) \<noteq> None"
    "c = BLOCK_PROCESS_ROLLBACK_IGNORE \<Longrightarrow> v_blocks L (Hash E b) \<noteq> Some (d, s)"
    "c = BLOCK_PROCESS_ROLLBACK_TAIL \<Longrightarrow> \<exists>info. v_accounts L (Account b) = Some info \<and> ai_tail_height info \<noteq> 0"
    "c = BLOCK_PROCESS_ROLLBACK_REWARDED \<Longrightarrow> \<exists>info p s. v_accounts L (Account b) = Some info \<and>
       ai_head info = Hash E b \<and> Height b \<noteq> 0 \<and> v_blocks L (Previous b) = Some (p, s) \<and> HasRepresentative b \<and>
       RewardAmount (RAI_NETWORK E) (Balance p) (Timestamp p) (Timestamp b) \<noteq> 0 \<and>
       v_rewardables L (Representative p, Hash E p) = None"
    "c \<noteq> BLOCK_PROCESS_ROLLBACK_RECEIVED" "c \<noteq> BLOCK_PROCESS_ROLLBACK_SOURCE_PRUNED" "c \<noteq> SUCCESS"
  using assms(2) by (auto simp: Rollback_Check_def get_rels [OF assms(1)] split: if_splits option.splits)

lemma RollbackBlock_reason:
  assumes rel: "ledger_rel M txn L" and none: "\<nexists>L'. rollback_step E L b L'" and wf: "block_wf b"
    and run: "RollbackBlock M E txn b = (c, txn')"
  shows "Rollback_Check M E txn b = Inl c \<or> c = BLOCK_PROCESS_LEDGER_INCONSISTENT \<or>
    c = BLOCK_PROCESS_ROLLBACK_RECEIVED \<and> v_blocks L (Hash E b) \<noteq> None \<and> Opcode b = SEND \<and>
      v_receivables L (Link b, Hash E b) = None \<or>
    c = BLOCK_PROCESS_ROLLBACK_SOURCE_PRUNED \<and> Opcode b \<in> {RECEIVE, REWARD} \<and> v_blocks L (Link b) = None"
proof (cases "Rollback_Check M E txn b")
  case (Inl c')
  with run block_wf_opcode [OF wf] show ?thesis
    by (auto simp: RollbackBlock_def Visit_wf [OF wf] RollbackBlockVisitor_def Rollback_Send_def Rollback_Receive_def
        Rollback_Change_def Rollback_Credit_def Rollback_Reward_def Rollback_Destroy_def Rollback_Bind_def VISITOR_RETURN_def)
next
  case (Inr v)
  then have ok: "rollback_ok E L b v" using Rollback_Check_Inr [OF rel] by blast
  then have st: "v_blocks L (Hash E b) \<noteq> None" by (auto simp: rollback_ok_def)
  note run' = run [unfolded RollbackBlock_def Visit_wf [OF wf] RollbackBlockVisitor_def] Inr
  note eqs = VISITOR_RETURN_def IF_NONE_RETURN_def get_rels [OF rel] Let_def
  from block_wf_opcode [OF wf] consider "Opcode b = SEND" | "Opcode b = RECEIVE" | "Opcode b \<in> {CHANGE, CREDIT, DESTROY}"
    | "Opcode b = REWARD" | "Opcode b = BIND" by blast
  then show ?thesis
  proof cases
    case 1
    then have "v_receivables L (Link b, Hash E b) = None"
      using none rollback_step.send [OF 1 ok] by (cases "v_receivables L (Link b, Hash E b)") blast+
    with 1 run' st show ?thesis by (simp add: Rollback_Send_def eqs)
  next
    case 2
    then have "v_blocks L (Link b) = None"
      using none rollback_step.receive [OF 2 ok] by (cases "v_blocks L (Link b)") (blast, metis surj_pair)
    with 2 run' show ?thesis by (simp add: Rollback_Receive_def eqs)
  next
    case 3
    with none rollback_step.plain [OF 3 ok] show ?thesis by blast
  next
    case 4
    have "v_blocks L s = None" if "v_blocks L (Link b) = Some (d, s)" for d s
      using none rollback_step.reward [OF 4 ok that] by (cases "v_blocks L s") (blast, metis surj_pair)
    with 4 run' show ?thesis by (auto simp: Rollback_Reward_def eqs split: option.splits)
  next
    case 5
    have "n = 0" if "v_bindings L (binding_of b) = Some x" "v_binding_count L (Account b) = Some n" for x n
      using none rollback_step.bind [OF 5 ok that] by blast
    with 5 run' show ?thesis by (auto simp: Rollback_Bind_def eqs binding_of_def split: option.splits)
  qed
qed

section \<open>The chain of rollbacks ascends\<close>

lemma rank_chain:
  assumes inv: "history_inv E g L" and rank: "rank_ok g rank L" and c: "v_blocks L x = Some (c, s)"
  shows "v_blocks L y = Some (d, t) \<Longrightarrow> Account d = Account c \<Longrightarrow> unat (Height d) = unat (Height c) + n \<Longrightarrow> rank x \<le> rank y"
proof (induction n arbitrary: y d t)
  case 0
  then have "Height d = Height c" by (simp add: word_eq_iff_unat)
  with 0 c have "y = x" using history_parts(11) [OF inv] unfolding unique_inv_def by blast
  then show ?case by simp
next
  case (Suc n)
  then have "Height d \<noteq> 0" by auto
  obtain p where p: "v_blocks L (Previous d) = Some (p, y)" "Account p = Account d" "Height d = Height p + 1" "Height p < Height d"
    by (rule stored_previous [OF inv Suc.prems(1) \<open>Height d \<noteq> 0\<close>])
  have "unat (Height d) = unat (Height p) + 1"
    using p(3,4) by (metis unatSuc add.commute Suc_eq_plus1 word_not_simps(1) word_less_nat_alt)
  with Suc.prems(2,3) p(2) have "rank x \<le> rank (Previous d)" by (intro Suc.IH [OF p(1)]) simp_all
  also have "rank (Previous d) < rank y" using rank Suc.prems(1) \<open>Height d \<noteq> 0\<close> unfolding rank_ok_def by blast
  finally show ?case by simp
qed

lemma rank_head:
  assumes inv: "history_inv E g L" and rank: "rank_ok g rank L" and c: "v_blocks L x = Some (c, s)"
    and info: "v_accounts L (Account c) = Some info"
  shows "rank x \<le> rank (ai_head info)"
proof -
  note i = history_parts [OF inv]
  have valid: "AccountInfo_Valid info" using i(9) info unfolding valid_inv_def by blast
  have "Height c \<le> ai_head_height info" using i(10) c info unfolding range_inv_def by fastforce
  moreover obtain d where d: "v_blocks L (ai_head info) = Some (d, 0)" "Account d = Account c" "Height d = ai_head_height info"
    using i(8) info valid unfolding heads_inv_def info_inv_def by blast
  ultimately have "unat (Height d) = unat (Height c) + (unat (Height d) - unat (Height c))" by (simp add: word_le_nat_alt)
  from rank_chain [OF inv rank c d(1,2) this] show ?thesis .
qed

text \<open>The block that a refused rollback asks for is stored and ranks higher.\<close>

lemma successor_ranks_higher:
  assumes inv: "history_inv E g L" and rank: "rank_ok g rank L" and b: "v_blocks L (Hash E b) = Some (b, h)"
    and d: "v_blocks L h = Some (d, t)"
  shows "rank (Hash E b) < rank (Hash E d) \<and> v_blocks L (Hash E d) = Some (d, t)"
proof -
  note i = history_parts [OF inv]
  have h: "Hash E d = h" "h \<noteq> 0" using i(7) d unfolding blocks_inv_def by blast+
  with i(5) b d have "Previous d = Hash E b" "Height d \<noteq> 0" unfolding successors_inv_def by (metis option.inject prod.inject)+
  with rank d h show ?thesis unfolding rank_ok_def by metis
qed

lemma account_head_ranks:
  assumes rel: "ledger_rel M txn L" and inv: "history_inv E g L" and rank: "rank_ok g rank L"
    and c: "v_blocks L x = Some (c, s)" "rank y < rank x" and d: "account_head M txn (Account c) = Some d"
  shows "rank y < rank (Hash E d) \<and> v_blocks L (Hash E d) \<noteq> None"
proof -
  obtain info t where info: "v_accounts L (Account c) = Some info" and h: "v_blocks L (ai_head info) = Some (d, t)"
    using d by (auto simp: account_head_def get_rels [OF rel] split: option.splits)
  have "Hash E d = ai_head info" using history_parts(7) [OF inv] h unfolding blocks_inv_def by blast
  with rank_head [OF inv rank c(1) info] c(2) h show ?thesis by simp
qed

lemma received_ranks_higher:
  assumes rel: "ledger_rel M txn L" and inv: "history_inv E g L" and rank: "rank_ok g rank L" and settled: "settled_inv E L"
    and b: "v_blocks L (Hash E b) = Some (b, s)" "Opcode b = SEND" "v_receivables L (Link b, Hash E b) = None"
    and d: "account_head M txn (Link b) = Some d" and nolink: "v_blocks L (Link g) = None"
  shows "rank (Hash E b) < rank (Hash E d) \<and> v_blocks L (Hash E d) \<noteq> None"
proof -
  obtain x c t where c: "v_blocks L x = Some (c, t)" "Opcode c = RECEIVE" "Account c = Link b" "Link c = Hash E b"
    by (rule settled_received [OF settled b])
  have "c \<noteq> g" using nolink b(1) c(4) by auto
  then have "rank (Hash E b) < rank x" using rank c unfolding rank_ok_def by metis
  from account_head_ranks [OF rel inv rank c(1) this] d c(3) show ?thesis by simp
qed

lemma rewarded_ranks_higher:
  assumes rel: "ledger_rel M txn L" and inv: "history_inv E g L" and rank: "rank_ok g rank L" and settled: "settled_inv E L"
    and b: "v_blocks L (Hash E b) = Some (b, s)" "Height b \<noteq> 0" and p: "v_blocks L (Previous b) = Some (p, s')"
    and r: "HasRepresentative b" "RewardAmount (RAI_NETWORK E) (Balance p) (Timestamp p) (Timestamp b) \<noteq> 0"
      "v_rewardables L (Representative p, Hash E p) = None"
    and d: "account_head M txn (Representative p) = Some d"
  shows "rank (Hash E b) < rank (Hash E d) \<and> v_blocks L (Hash E d) \<noteq> None"
proof -
  obtain q where q: "v_blocks L (Previous b) = Some (q, Hash E b)" by (rule stored_previous [OF inv b])
  with p have p': "v_blocks L (Previous b) = Some (p, Hash E b)" by simp
  have h: "Hash E p = Previous b" "Hash E b \<noteq> 0" using history_parts(7) [OF inv] p b(1) unfolding blocks_inv_def by blast+
  obtain x w t where w: "v_blocks L x = Some (w, t)" "Opcode w = REWARD" "Account w = Representative p" "Link w = Previous b"
    by (rule settled_rewarded [OF settled p' h(2) b(1) r(1,2)]) (use r(3) h(1) in simp)
  then have "rank (Hash E b) < rank x" using rank p' unfolding rank_ok_def by metis
  from account_head_ranks [OF rel inv rank w(1) this] d w(3) show ?thesis by simp
qed

section \<open>What one turn does\<close>

lemma AppendBlock_exists:
  assumes "block_wf b" "AppendBlock M E txn b = (BLOCK_PROCESS_EXISTS, txn')"
  shows "BlockExists M txn (Hash E b)"
proof (rule ccontr)
  assume "\<not> BlockExists M txn (Hash E b)"
  let ?S = "append_refusals - {BLOCK_PROCESS_EXISTS}"
  have checks: "CheckCommon M E txn b = SUCCESS \<or> CheckCommon M E txn b \<in> ?S"
    "CheckFirstCommon b = SUCCESS \<or> CheckFirstCommon b \<in> ?S"
    "CheckSuccessorCommon b p info = SUCCESS \<or> CheckSuccessorCommon b p info \<in> ?S"
    "CheckCounterSame p b = SUCCESS \<or> CheckCounterSame p b \<in> ?S"
    "CheckCounterIncrease p b = SUCCESS \<or> CheckCounterIncrease p b \<in> ?S"
    "CheckRepresentativeSame p b = SUCCESS \<or> CheckRepresentativeSame p b \<in> ?S" for p info
    using \<open>\<not> BlockExists M txn (Hash E b)\<close>
    by (simp_all add: CheckCommon_def CheckFirstCommon_def CheckSuccessorCommon_def CheckCounterSame_def
        CheckCounterIncrease_def CheckRepresentativeSame_def append_refusals_def)
  have "codes ?S append_failures txn (Append_Send M E txn b)"
    "codes ?S append_failures txn (Append_Receive M E txn b)"
    "codes ?S append_failures txn (Append_Change M E txn b)"
    "codes ?S append_failures txn (Append_Credit M E txn b)"
    "codes ?S append_failures txn (Append_Reward M E txn b)"
    "codes ?S append_failures txn (Append_Destroy M E txn b)"
    "codes ?S append_failures txn (Append_Bind M E txn b)"
    unfolding Append_Send_def Append_Receive_def Append_Change_def Append_Credit_def Append_Reward_def
      Append_Destroy_def Append_Bind_def Let_def
    by (intro codes_intros checks codes_write wcodes_intros update_codes;
        simp add: append_refusals_def append_failures_def)+
  with block_wf_opcode [OF assms(1)] have "codes ?S append_failures txn (AppendBlock M E txn b)"
    by (auto simp: AppendBlock_def Visit_wf [OF assms(1)] AppendBlockVisitor_def)
  with assms(2) show False by (simp add: codes_def append_failures_def)
qed

definition stored :: "env \<Rightarrow> ledger_view \<Rightarrow> block \<Rightarrow> bool" where
  "stored E L b \<longleftrightarrow> v_blocks L (Hash E b) \<noteq> None"

definition current :: "'db lmdb \<Rightarrow> env \<Rightarrow> block set \<Rightarrow> block \<Rightarrow> 'db processor \<Rightarrow> ledger_view \<Rightarrow> bool" where
  "current M E U g p L \<longleftrightarrow> ledger_state M (bp_ledger p) L \<and> reachable E U g L"

lemma current_unchanged: "bp_ledger p' = bp_ledger p \<Longrightarrow> current M E U g p' L = current M E U g p L"
  by (simp add: current_def)

lemma current_rel: "current M E U g p L \<Longrightarrow> ledger_rel M (Transaction_new (bp_ledger p) True) L"
  by (simp add: current_def ledger_state_def)

declare Transaction_end_unchanged [simp]

text \<open>The outcomes of one operation of the loop, in terms of the ledger before and after.\<close>

inductive turn :: "'db lmdb \<Rightarrow> env \<Rightarrow> block set \<Rightarrow> block \<Rightarrow> 'db processor \<Rightarrow> ledger_view \<Rightarrow> block_operation \<Rightarrow> block \<Rightarrow> dynamic_stack \<Rightarrow>
    error_code \<Rightarrow> dynamic_stack \<Rightarrow> 'db processor \<Rightarrow> bool" for M E U g p L where
  stop: "ProcessBlockDynamic_next o' c st' = Loop_Break \<Longrightarrow> turn M E U g p L o' b st c st' p'"
| wait: "o' \<noteq> CONFIRM \<Longrightarrow> o'' \<in> {APPEND, PREPEND} \<Longrightarrow>
     turn M E U g p L o' b st BLOCK_PROCESS_WAIT (push o'' None st) p'"
| append: "current M E U g p' L' \<Longrightarrow> stored E L' b \<Longrightarrow> ProcessBlockDynamic_next APPEND c st = Loop_Again (tl st) \<Longrightarrow>
     turn M E U g p L APPEND b st c st p'"
| prepend: "bp_ledger p' = bp_ledger p \<Longrightarrow> ProcessBlockDynamic_next PREPEND c st = Loop_Again (tl st) \<Longrightarrow>
     turn M E U g p L PREPEND b st c st p'"
| confirm: "current M E U g p' L' \<Longrightarrow> turn M E U g p L CONFIRM b st SUCCESS st p'"
| missing: "bp_ledger p' = bp_ledger p \<Longrightarrow> \<not> stored E L b \<Longrightarrow>
     turn M E U g p L CONFIRM b st BLOCK_PROCESS_CONTINUE (push APPEND (Some b) st) p'"
| fork: "bp_ledger p' = bp_ledger p \<Longrightarrow> stored E L d \<Longrightarrow>
     turn M E U g p L APPEND b st BLOCK_PROCESS_CONTINUE (push ROLLBACK (Some d) st) p'"
| rolled: "current M E U g p' (commit_view L') \<Longrightarrow> rollback_step (at_time E t) L b L' \<Longrightarrow>
     turn M E U g p L ROLLBACK b st SUCCESS st p'"
| ignored: "bp_ledger p' = bp_ledger p \<Longrightarrow> \<not> stored E L b \<Longrightarrow>
     turn M E U g p L ROLLBACK b st BLOCK_PROCESS_ROLLBACK_IGNORE st p'"
| cascade: "bp_ledger p' = bp_ledger p \<Longrightarrow> stored E L b \<Longrightarrow> stored E L d \<Longrightarrow>
     (\<And>rank. rank_ok g rank L \<Longrightarrow> rank (Hash E b) < rank (Hash E d)) \<Longrightarrow>
     turn M E U g p L ROLLBACK b st BLOCK_PROCESS_CONTINUE (push ROLLBACK (Some d) st) p'"

lemma append_turn:
  assumes "reliable M" "current M E U g p L" "node_inv M E U g p" "universe E g U" "b \<in> U" "ready U st"
    "ProcessBlockDynamicAppend M (at_time E t) now n st b p = (c, st', p')"
  shows "turn M E U g p L APPEND b st c st' p'"
proof -
  let ?E = "at_time E t" and ?l = "bp_ledger p"
  have wf: "block_wf b" by (rule universeD(1) [OF assms(4,5)])
  have rest: "rest_inv E U p" and ok: "ledger_ok M E U g ?l" using assms(3) by (simp_all add: node_inv_def)
  have L: "ledger_state M ?l L" "reachable E U g L" using assms(2) by (simp_all add: current_def)
  note rel = current_rel [OF assms(2)]
  have inv: "history_inv E g L" by (rule reachable_history [OF L(2) assms(4)])
  note q = QueueGapCaches_inv [OF rest, of t now "Hash E b"]
  show ?thesis
  proof (cases rule: AppendBlock_either [OF assms(1) L(1) wf, of ?E])
    case (1 L' txn)
    have "reachable E U g (commit_view L')" by (rule reachable.commit [OF reachable.append [OF L(2) 1(1) assms(5)]])
    moreover have "stored E (commit_view L') b"
      using append_step_blocks(2) [OF _ 1(1)] history_parts(1) [OF inv] by (simp add: stored_def commit_view_def)
    moreover have "c = SUCCESS" "st' = st" "bp_ledger p' = Transaction_end M ?l txn"
      using assms(1,7) 1(2) q(2) by (auto simp: ProcessBlockDynamicAppend_def)
    ultimately show ?thesis
      using 1(3) by (auto intro!: turn.append simp: current_def ProcessBlockDynamic_next_def)
  next
    case (2 c0)
    note plain = SUCCESS_codes(3) [OF 2(2)]
    note eq = ProcessBlockDynamicAppend_def 2(3) assms(1)
    consider "c0 \<in> {BLOCK_PROCESS_PREVIOUS, BLOCK_PROCESS_GAP_PREVIOUS, BLOCK_PROCESS_TYPE_MISMATCH}"
      | "c0 = BLOCK_PROCESS_PRUNED" | "c0 \<in> {BLOCK_PROCESS_GAP_RECEIVE_SOURCE, BLOCK_PROCESS_GAP_REWARD_SOURCE}"
      | "c0 = BLOCK_PROCESS_FORK" | "c0 = BLOCK_PROCESS_EXISTS"
      | "c0 \<in> set rejected_codes" "c0 \<notin> {BLOCK_PROCESS_PREVIOUS, BLOCK_PROCESS_GAP_PREVIOUS, BLOCK_PROCESS_TYPE_MISMATCH,
          BLOCK_PROCESS_PRUNED, BLOCK_PROCESS_GAP_RECEIVE_SOURCE, BLOCK_PROCESS_GAP_REWARD_SOURCE,
          BLOCK_PROCESS_FORK, BLOCK_PROCESS_EXISTS}"
      using append_codes_handled 2(2) by blast
    then show ?thesis
    proof cases
      case 1
      obtain e q1 where q1: "QueryPrevious p n b = (e, q1)" by fastforce
      show ?thesis
      proof (cases e)
        case True
        with 1 q1 assms(7) show ?thesis by (auto simp: eq ProcessBlockDynamic_next_def intro!: turn.stop)
      next
        case False
        with 1 q1 assms(7) show ?thesis by (auto simp: eq intro!: turn.wait)
      qed
    next
      case 2
      obtain e q1 where q1: "QueryPrevious_account M (Transaction_new ?l True) p n (Account b) = (e, q1)" by fastforce
      show ?thesis
      proof (cases e)
        case True
        with 2 q1 assms(7) show ?thesis by (auto simp: eq ProcessBlockDynamic_next_def intro!: turn.stop)
      next
        case False
        with 2 q1 assms(7) show ?thesis by (auto simp: eq intro!: turn.wait)
      qed
    next
      case 3
      with assms(7) show ?thesis by (auto simp: eq intro!: turn.wait)
    next
      case 4
      show ?thesis
      proof (cases "BlockGet_height M (Transaction_new ?l True) (Account b) (Height b)")
        case None
        with 4 assms(7) show ?thesis by (auto simp: eq ProcessBlockDynamic_next_def intro!: turn.stop)
      next
        case (Some d)
        obtain h s where "v_blocks L h = Some (d, s)" by (rule BlockGet_height_stored [OF rel Some])
        moreover from this have "Hash E d = h" using history_parts(7) [OF inv] unfolding blocks_inv_def by blast
        ultimately show ?thesis using Some 4 assms(7) by (auto simp: eq stored_def intro!: turn.fork)
      qed
    next
      case 5
      have "stored E L b" using AppendBlock_exists [OF wf, of M ?E "Transaction_new ?l True" "Transaction_new ?l True"] 2(3) 5 by (simp add: get_rels [OF rel] stored_def)
      with 5 assms(2,7) show ?thesis
        by (auto simp: eq ProcessBlockDynamic_next_def current_def intro!: turn.append)
    next
      case 6
      with 2(1) plain assms(7) show ?thesis
        by (auto simp: eq ProcessBlockDynamic_next_def rejected_codes_def intro!: turn.stop)
    qed
  qed
qed

lemma prepend_turn:
  assumes "reliable M" "current M E U g p L" "universe E g U" "b \<in> U"
    "ProcessBlockDynamicPrepend M (at_time E t) n st b p = (c, st', p')"
  shows "turn M E U g p L PREPEND b st c st' p'"
proof -
  have L: "ledger_state M (bp_ledger p) L" "reachable E U g L" using assms(2) by (simp_all add: current_def)
  have "stored_inv g L" using history_parts(6) [OF reachable_history [OF L(2) assms(3)]] .
  moreover have "sane (at_time E t) b" using universeD(2) [OF assms(3,4)] by simp
  ultimately obtain c0 where "c0 \<in> {BLOCK_PROCESS_SIGNATURE, BLOCK_PROCESS_PREPEND_IGNORE}"
    "PrependBlock M (at_time E t) (Transaction_new (bp_ledger p) True) b = (c0, Transaction_new (bp_ledger p) True)"
    by (rule PrependBlock_refuses [OF L(1)])
  then consider "c = BLOCK_PROCESS_SIGNATURE" | "c = BLOCK_PROCESS_PREPEND_IGNORE" "st' = st" "bp_ledger p' = bp_ledger p"
    using assms(1,5) by (auto simp: ProcessBlockDynamicPrepend_def)
  then show ?thesis
  proof cases
    case 1
    then show ?thesis by (auto simp: ProcessBlockDynamic_next_def intro!: turn.stop)
  next
    case 2
    then show ?thesis by (auto simp: ProcessBlockDynamic_next_def intro!: turn.prepend)
  qed
qed

lemma confirm_turn:
  assumes "reliable M" "current M E U g p L" "universe E g U" "b \<in> U"
    "ProcessBlockDynamicConfirm M (at_time E t) n st b k p = (c, st', k', p')"
  shows "turn M E U g p L CONFIRM b st c st' p'"
proof -
  have L: "ledger_state M (bp_ledger p) L" "reachable E U g L" using assms(2) by (simp_all add: current_def)
  have inv: "history_inv E g L" by (rule reachable_history [OF L(2) assms(3)])
  have same: "d = b" if "v_blocks L (Hash (at_time E t) b) = Some (d, s)" for d s
  proof -
    have d: "d \<in> U" by (rule reachable_stored [OF L(2) assms(3) that])
    have "Hash E d = Hash E b" using history_parts(7) [OF inv] that by (simp add: blocks_inv_def)
    with d assms(3,4) show ?thesis unfolding universe_def by (meson inj_onD)
  qed
  have linv: "ledger_inv (at_time E t) L" using history_parts(1) [OF inv] by simp
  show ?thesis
  proof (cases rule: ConfirmBlock_either [OF assms(1) L(1) linv same, where n = k])
    case step: (2 info s txn)
    have "reachable E U g (commit_view (confirm_view info b L))"
      using reachable.commit [OF reachable.confirm [OF L(2) _ step(2)]] step(1) by simp
    moreover have "c = SUCCESS" "st' = st" "bp_ledger p' = Transaction_end M (bp_ledger p) txn"
      using step(3) assms(1,5) by (auto simp: ProcessBlockDynamicConfirm_def)
    ultimately show ?thesis using step(4) by (auto intro!: turn.confirm simp: current_def)
  next
    case 3
    then show ?thesis
      using assms(1,5) by (auto simp: ProcessBlockDynamicConfirm_def stored_def intro!: turn.missing)
  qed
qed

lemma push_rollback_turn:
  assumes "push_rollback M (Transaction_new (bp_ledger p) True) n st c found p = (c', st', p')"
    "ProcessBlockDynamic_next ROLLBACK c st = Loop_Break" "stored E L b"
    "\<And>d rank. found = Some d \<Longrightarrow> rank_ok g rank L \<Longrightarrow> stored E L d \<and> rank (Hash E b) < rank (Hash E d)"
    "causal E g L"
  shows "turn M E U g p L ROLLBACK b st c' st' p'"
proof (cases found)
  case None
  with assms(1,2) show ?thesis by (auto simp: push_rollback_def intro!: turn.stop)
next
  case (Some d)
  then have "stored E L d" using assms(4,5) unfolding causal_def by blast
  with Some assms show ?thesis by (auto simp: push_rollback_def intro!: turn.cascade)
qed

lemma rollback_turn:
  assumes "reliable M" "current M E U g p L" "universe E g U" "b \<in> U"
    "ProcessBlockDynamicRollback M (at_time E t) n st b p = (c, st', p')"
  shows "turn M E U g p L ROLLBACK b st c st' p'"
proof -
  let ?E = "at_time E t" and ?l = "bp_ledger p"
  have wf: "block_wf b" by (rule universeD(1) [OF assms(3,4)])
  have L: "ledger_state M ?l L" "reachable E U g L" using assms(2) by (simp_all add: current_def)
  note rel = current_rel [OF assms(2)]
  have inv: "history_inv E g L" by (rule reachable_history [OF L(2) assms(3)])
  note i = history_parts [OF inv]
  have causal: "causal E g L" by (rule reachable_causal [OF L(2) assms(3)])
  then have settled: "settled_inv E L" by (simp add: causal_def)
  have linv: "ledger_inv ?E L" using i(1) by simp
  have same: "d = b" if "v_blocks L (Hash E b) = Some (d, s)" for d s
  proof -
    have d: "d \<in> U" by (rule reachable_stored [OF L(2) assms(3) that])
    have "Hash E d = Hash E b" using i(7) that by (simp add: blocks_inv_def)
    with d assms(3,4) show ?thesis unfolding universe_def by (meson inj_onD)
  qed
  show ?thesis
  proof (cases rule: RollbackBlock_either [OF assms(1) L(1) wf linv])
    case (1 L' txn)
    have "reachable E U g (commit_view L')" by (rule reachable.commit [OF reachable.rollback [OF L(2) 1(1)]])
    moreover have "c = SUCCESS" "st' = st" "bp_ledger p' = Transaction_end M ?l txn"
      using 1(2) assms(1,5) by (auto simp: ProcessBlockDynamicRollback_def)
    ultimately show ?thesis using 1 by (auto intro!: turn.rolled simp: current_def)
  next
    case (2 c0)
    have none: "\<nexists>L'. rollback_step ?E L b L'"
    proof
      assume "\<exists>L'. rollback_step ?E L b L'"
      then obtain L' where "rollback_step ?E L b L'" ..
      from RollbackBlock_outcome [OF this reliable_writable [OF assms(1)] rel wf linv] 2 show False
        by (auto simp: rollback_refusals_def)
    qed
    note why = RollbackBlock_reason [OF rel none wf 2(2)] and check = Rollback_Check_reason [OF rel, of ?E b c0]
    note eq = ProcessBlockDynamicRollback_def 2(2) assms(1)
    have st: "\<exists>s. v_blocks L (Hash E b) = Some (b, s)" if "v_blocks L (Hash E b) \<noteq> None" using that same by auto
    consider "c0 = BLOCK_PROCESS_ROLLBACK_IGNORE" | "c0 = BLOCK_PROCESS_ROLLBACK_TAIL"
      | "c0 = BLOCK_PROCESS_ROLLBACK_NON_HEAD" | "c0 = BLOCK_PROCESS_ROLLBACK_REWARDED"
      | "c0 = BLOCK_PROCESS_ROLLBACK_RECEIVED" | "c0 = BLOCK_PROCESS_ROLLBACK_SOURCE_PRUNED"
      | "c0 \<in> {BLOCK_PROCESS_LEDGER_INCONSISTENT, BLOCK_PROCESS_ROLLBACK_NOT_EQUAL_TO_HEAD}"
      using 2(1) unfolding rollback_refusals_def by blast
    then show ?thesis
    proof cases
      case 1
      with why check(2) have "v_blocks L (Hash E b) = None" by (cases "v_blocks L (Hash E b)") auto
      with 1 assms(5) show ?thesis by (auto simp: eq stored_def intro!: turn.ignored)
    next
      case 2
      obtain e q1 where q1: "QueryPrevious_account M (Transaction_new ?l True) p n (Account b) = (e, q1)" by fastforce
      show ?thesis
      proof (cases e)
        case True
        with 2 q1 assms(5) show ?thesis by (auto simp: eq ProcessBlockDynamic_next_def intro!: turn.stop)
      next
        case False
        with 2 q1 assms(5) show ?thesis by (auto simp: eq intro!: turn.wait)
      qed
    next
      case 3
      with why check(1) st obtain s where b: "v_blocks L (Hash E b) = Some (b, s)" by auto
      have "push_rollback M (Transaction_new ?l True) n st c0
        (case BlockSuccessorGet M (Transaction_new ?l True) (Hash ?E b) of None \<Rightarrow> None
         | Some hash \<Rightarrow> BlockGet M (Transaction_new ?l True) hash) p = (c, st', p')"
        using 3 assms(5) by (simp add: eq)
      then show ?thesis
        by (rule push_rollback_turn [OF _ _ _ _ causal])
          (use 3 b successor_ranks_higher [OF inv _ b] in \<open>auto simp: ProcessBlockDynamic_next_def stored_def get_rels [OF rel]
            split: option.splits\<close>)
    next
      case 4
      with why check(4) obtain q s' where q: "Height b \<noteq> 0" "v_blocks L (Previous b) = Some (q, s')" "HasRepresentative b"
        "RewardAmount (RAI_NETWORK E) (Balance q) (Timestamp q) (Timestamp b) \<noteq> 0" "v_rewardables L (Representative q, Hash E q) = None"
        by auto
      from 4 why check(1) st obtain s where b: "v_blocks L (Hash E b) = Some (b, s)" by auto
      note higher = rewarded_ranks_higher [OF rel inv _ settled b q(1,2,3,4,5)]
      have "push_rollback M (Transaction_new ?l True) n st c0
        (case BlockGet M (Transaction_new ?l True) (Previous b) of None \<Rightarrow> None
         | Some previous \<Rightarrow> account_head M (Transaction_new ?l True) (Representative previous)) p = (c, st', p')"
        using 4 assms(5) by (simp add: eq)
      then show ?thesis
        by (rule push_rollback_turn [OF _ _ _ _ causal])
          (use 4 b higher q(2) in \<open>simp_all add: ProcessBlockDynamic_next_def stored_def get_rels [OF rel]\<close>)
    next
      case 5
      with why check(5) have r: "Opcode b = SEND" "v_receivables L (Link b, Hash E b) = None" "v_blocks L (Hash E b) \<noteq> None"
        by auto
      from r(3) st obtain s where b: "v_blocks L (Hash E b) = Some (b, s)" by auto
      have nolink: "v_blocks L (Link g) = None" using i(6) by (simp add: stored_inv_def)
      note higher = received_ranks_higher [OF rel inv _ settled b r(1,2) _ nolink]
      have "push_rollback M (Transaction_new ?l True) n st c0 (account_head M (Transaction_new ?l True) (Link b)) p = (c, st', p')"
        using 5 assms(5) by (simp add: eq)
      then show ?thesis
        by (rule push_rollback_turn [OF _ _ _ _ causal])
          (use 5 b higher in \<open>simp_all add: ProcessBlockDynamic_next_def stored_def\<close>)
    next
      case 6
      with assms(5) show ?thesis by (auto simp: eq intro!: turn.wait)
    next
      case 7
      with assms(5) show ?thesis by (auto simp: eq ProcessBlockDynamic_next_def rollback_failures_def intro!: turn.stop)
    qed
  qed
qed

end
