(* ===== verification/Progress.thy ===== *)
theory Progress
  imports Cascade
begin

text \<open>
  The loop over the stack of a forced operation ends: every turn that goes on decreases the work left on the stack, or
  keeps it and removes a stored block, or keeps both and uses up room for a longer chain of rollbacks.
\<close>

section \<open>The shape of a stack\<close>

text \<open>A confirmation is only ever the bottom of a stack, and what is right above it appends the block to confirm.\<close>

fun shape :: "dynamic_stack \<Rightarrow> bool" where
  "shape [] = True"
| "shape [d] = True"
| "shape (e # d # rest) = (bd_operation e \<noteq> CONFIRM \<and>
     (bd_operation d = CONFIRM \<longrightarrow> bd_operation e = APPEND \<and> bd_block e = bd_block d) \<and> shape (d # rest))"

fun wait_shape :: "dynamic_stack \<Rightarrow> bool" where
  "wait_shape (e # d # rest) = (bd_operation e \<in> {APPEND, PREPEND} \<and> bd_operation d \<noteq> CONFIRM \<and> shape (d # rest))"
| "wait_shape st = False"

lemma shape_tl: "shape (d # rest) \<Longrightarrow> shape rest"
  by (cases rest) auto

lemma shape_confirm: "shape (d # rest) \<Longrightarrow> bd_operation d = CONFIRM \<Longrightarrow> rest = []"
  by (cases rest) auto

lemma wait_shape_push:
  "shape (d # rest) \<Longrightarrow> bd_operation d \<noteq> CONFIRM \<Longrightarrow> o' \<in> {APPEND, PREPEND} \<Longrightarrow> wait_shape (push o' None (d # rest))"
  by (auto simp: push_def)

lemma wait_shape_filled: "wait_shape (e # rest) \<Longrightarrow> shape (e\<lparr>bd_block := b\<rparr> # rest)"
  by (cases rest) auto

section \<open>What a turn leaves\<close>

definition work :: "env \<Rightarrow> ledger_view \<Rightarrow> dynamic_stack \<Rightarrow> nat" where
  "work E L st = length (filter (\<lambda>e. bd_operation e \<noteq> ROLLBACK) st) +
     (case st of [d] \<Rightarrow> if bd_operation d = CONFIRM \<and> \<not> stored E L (the (bd_block d)) then 2 else 0 | _ \<Rightarrow> 0)"

definition hashes :: "env \<Rightarrow> dynamic_stack \<Rightarrow> u256 list" where
  "hashes E st = map (\<lambda>e. Hash E (the (bd_block e))) st"

text \<open>The top entries that are rollbacks of stored blocks, each of a higher rank than the one below.\<close>

definition live :: "env \<Rightarrow> block \<Rightarrow> ledger_view \<Rightarrow> nat \<Rightarrow> dynamic_stack \<Rightarrow> bool" where
  "live E g L c st \<longleftrightarrow> c \<le> length (filter (\<lambda>e. bd_operation e = ROLLBACK) st) \<and>
     (\<forall>e \<in> set (take c st). bd_operation e = ROLLBACK \<and> stored E L (the (bd_block e))) \<and>
     (\<forall>rank. rank_ok g rank L \<longrightarrow> sorted_wrt (\<lambda>x y. rank y < rank x) (hashes E (take c st)))"

definition room :: "ledger_view \<Rightarrow> nat \<Rightarrow> dynamic_stack \<Rightarrow> nat" where
  "room L c st = (length (filter (\<lambda>e. bd_operation e = ROLLBACK) st) - c) + (card (dom (v_blocks L)) - c)"

lemma live_0: "live E g L 0 st"
  by (simp add: live_def hashes_def)

lemma descending_distinct: "sorted_wrt (\<lambda>x y. r y < (r x :: nat)) xs \<Longrightarrow> distinct xs"
  by (induction xs) auto

lemma live_bound:
  assumes "causal E g L" "live E g L c st"
  shows "c \<le> card (dom (v_blocks L))"
proof -
  obtain rank where rank: "rank_ok g rank L" using assms(1) by (auto simp: causal_def)
  let ?hs = "hashes E (take c st)"
  have "sorted_wrt (\<lambda>x y. rank y < rank x) ?hs" using assms(2) rank by (auto simp: live_def)
  then have "distinct ?hs" by (rule descending_distinct)
  moreover have "set ?hs \<subseteq> dom (v_blocks L)" using assms(2) by (auto simp: live_def hashes_def stored_def)
  moreover have "c \<le> length st"
    using assms(2) length_filter_le [of "\<lambda>e. bd_operation e = ROLLBACK" st] unfolding live_def by linarith
  then have "length ?hs = c" by (simp add: hashes_def)
  ultimately show ?thesis by (metis card_mono distinct_card finite)
qed

lemma live_zero:
  assumes "live E g L c (d # rest)" "bd_operation d \<noteq> ROLLBACK \<or> \<not> stored E L (the (bd_block d))"
  shows "c = 0"
  using assms by (cases c) (auto simp: live_def)

lemma live_push:
  assumes "live E g L c (d # rest)" "0 < c" "stored E L b"
    "\<And>rank. rank_ok g rank L \<Longrightarrow> rank (Hash E (the (bd_block d))) < rank (Hash E b)"
  shows "live E g L (Suc c) (push ROLLBACK (Some b) (d # rest))"
proof -
  obtain c' where c: "c = Suc c'" using assms(2) by (cases c) auto
  have "sorted_wrt (\<lambda>x y. rank y < rank x) (Hash E b # hashes E (take c (d # rest)))" if r: "rank_ok g rank L" for rank
  proof -
    have "sorted_wrt (\<lambda>x y. rank y < rank x) (hashes E (take c (d # rest)))" using assms(1) r by (simp add: live_def)
    with assms(4) [OF r] show ?thesis by (auto simp: c hashes_def intro: less_trans)
  qed
  with assms(1,3) show ?thesis by (simp add: live_def push_def hashes_def)
qed

lemma live_one:
  assumes "stored E L b"
  shows "live E g L 1 (push ROLLBACK (Some b) st)"
  using assms by (simp add: live_def push_def hashes_def)

lemma live_start:
  assumes "bd_operation d = ROLLBACK" "stored E L (the (bd_block d))"
  shows "live E g L 1 (d # rest)"
  using assms by (simp add: live_def hashes_def)


text \<open>Rolling a block back removes it and stores no other.\<close>

lemma rollback_shrinks:
  assumes "history_inv E g L" "rollback_step (at_time E t) L b L'"
  shows "card (dom (v_blocks L')) < card (dom (v_blocks L))"
proof -
  have inv: "history_inv (at_time E t) g L" using assms(1) by simp
  obtain v where r: "retracts (at_time E t) L b v L'" by (rule rollback_step_shape [OF assms(2)])
  note blocks = retracts_blocks [OF inv r]
  have "x \<in> dom (v_blocks L) \<and> x \<noteq> Hash E b" if "x \<in> dom (v_blocks L')" for x
    using that blocks by (auto simp: dom_def)
  moreover have "Hash E b \<in> dom (v_blocks L)"
    using retracts_head(1) [OF history_parts(1) [OF inv] r] by auto
  ultimately have "dom (v_blocks L') \<subset> dom (v_blocks L)" by blast
  then show ?thesis by (intro psubset_card_mono) auto
qed

section \<open>A turn that goes on makes progress\<close>

abbreviation measures_of :: "env \<Rightarrow> ledger_view \<Rightarrow> nat \<Rightarrow> dynamic_stack \<Rightarrow> nat \<times> nat \<times> nat" where
  "measures_of E L c st \<equiv> (work E L st, card (dom (v_blocks L)), room L c st)"

abbreviation progress :: "((nat \<times> nat \<times> nat) \<times> (nat \<times> nat \<times> nat)) set" where
  "progress \<equiv> less_than <*lex*> less_than <*lex*> less_than"


lemma work_push_rollback: "bd_operation d \<noteq> CONFIRM \<Longrightarrow> work E L (push ROLLBACK b (d # rest)) = work E L (d # rest)"
  by (cases rest) (auto simp: work_def push_def)

lemma work_pop_rollback:
  "shape (d # rest) \<Longrightarrow> bd_operation d = ROLLBACK \<Longrightarrow> work E L' rest = work E L (d # rest)"
  by (cases rest rule: shape.cases) (auto simp: work_def)

lemma work_pop:
  assumes "shape (d # rest)" "bd_operation d \<noteq> ROLLBACK" "bd_operation d = APPEND \<Longrightarrow> stored E L' (the (bd_block d))"
  shows "work E L' rest < work E L (d # rest)"
  using assms by (cases rest rule: shape.cases) (auto simp: work_def)

lemma shape_push_rollback:
  "shape (d # rest) \<Longrightarrow> bd_operation d \<noteq> CONFIRM \<Longrightarrow> shape (push ROLLBACK b (d # rest))"
  by (simp add: push_def)

lemma less_progress:
  "a < a' \<Longrightarrow> ((a, b, c), (a', b', c')) \<in> progress"
  "b < b' \<Longrightarrow> ((a, b, c), (a, b', c')) \<in> progress"
  "c < c' \<Longrightarrow> ((a, b, c), (a, b, c')) \<in> progress"
  by simp_all

lemma turn_progress:
  assumes turn: "turn M E U g p L (bd_operation d) b (d # rest) c st1 p1" and b: "bd_block d = Some b"
    and again: "ProcessBlockDynamic_next (bd_operation d) c st1 = Loop_Again st2"
    and cur: "current M E U g p L" and uni: "universe E g U"
    and shape: "shape (d # rest)" and live: "live E g L n (d # rest)"
  obtains L2 n2 where "current M E U g p1 L2" "shape st2" "live E g L2 n2 st2"
    "(measures_of E L2 n2 st2, measures_of E L n (d # rest)) \<in> progress"
proof -
  have inv: "history_inv E g L" and causal: "causal E g L"
    using cur reachable_history [OF _ uni] reachable_causal [OF _ uni] by (auto simp: current_def)
  note tail = shape_tl [OF shape] and bound = live_bound [OF causal] and goal = that
  have same: "current M E U g p1 L" if "bp_ledger p1 = bp_ledger p" using cur current_unchanged [OF that] by simp
  from turn show thesis
  proof cases
    case (stop)
    with again show ?thesis by simp
  next
    case (wait o'')
    with again show ?thesis by (simp add: ProcessBlockDynamic_next_def)
  next
    case (append L')
    with again have "st2 = rest" by simp
    moreover have cur': "current M E U g p1 L'" using append by simp
    moreover have "work E L' rest < work E L (d # rest)" using append b by (intro work_pop [OF shape]) simp_all
    ultimately show ?thesis using goal [OF cur' _ live_0] tail less_progress(1) by blast
  next
    case prepend
    have cur': "current M E U g p1 L" using prepend same by simp
    from prepend again have "st2 = rest" by simp
    moreover have "work E L rest < work E L (d # rest)" using prepend by (intro work_pop [OF shape]) simp_all
    ultimately show ?thesis using goal [OF cur' _ live_0] tail less_progress(1) by blast
  next
    case (confirm L')
    have cur': "current M E U g p1 L'" using confirm by simp
    from confirm again have "st2 = rest" by (simp add: ProcessBlockDynamic_next_def)
    moreover have "work E L' rest < work E L (d # rest)" using confirm by (intro work_pop [OF shape]) simp_all
    ultimately show ?thesis using goal [OF cur' _ live_0] tail less_progress(1) by blast
  next
    case missing
    have cur': "current M E U g p1 L" using missing same by simp
    have rest: "rest = []" using shape_confirm [OF shape] missing by simp
    have st2: "st2 = push APPEND (Some b) [d]" using again missing rest by (simp add: ProcessBlockDynamic_next_def)
    have "shape st2" "work E L st2 < work E L (d # rest)"
      using missing b by (auto simp: st2 rest push_def work_def)
    then show ?thesis using goal [OF cur' _ live_0] less_progress(1) by blast
  next
    case (fork x)
    have cur': "current M E U g p1 L" using fork same by simp
    have st2: "st2 = push ROLLBACK (Some x) (d # rest)" using again fork by (simp add: ProcessBlockDynamic_next_def)
    have n: "n = 0" by (rule live_zero [OF live]) (use fork in simp)
    have "live E g L 1 st2" unfolding st2 by (rule live_one) (use fork in simp)
    moreover from bound [OF this] have "room L 1 st2 < room L n (d # rest)"
      by (auto simp: st2 room_def push_def n)
    ultimately show ?thesis
      using goal [OF cur', of 1] shape_push_rollback [OF shape] work_push_rollback [of d] fork(1) less_progress(3)
      by (simp add: st2)
  next
    case (rolled L' t)
    have cur': "current M E U g p1 (commit_view L')" and step: "rollback_step (at_time E t) L b L'" using rolled by simp_all
    from rolled again have st2: "st2 = rest" by (simp add: ProcessBlockDynamic_next_def)
    have "card (dom (v_blocks (commit_view L'))) < card (dom (v_blocks L))"
      using rollback_shrinks [OF inv step] by (simp add: commit_view_def)
    then show ?thesis
      using goal [OF cur' _ live_0] tail work_pop_rollback [OF shape rolled(1)] less_progress(2) by (simp add: st2)
  next
    case ignored
    have cur': "current M E U g p1 L" using ignored same by simp
    from ignored again have st2: "st2 = rest"
      by (simp add: ProcessBlockDynamic_next_def)
    have n: "n = 0" by (rule live_zero [OF live]) (use ignored b in simp)
    have "room L 0 rest < room L n (d # rest)" using ignored by (simp add: room_def n)
    then show ?thesis
      using goal [OF cur' _ live_0] tail work_pop_rollback [OF shape ignored(1)] less_progress(3) by (simp add: st2)
  next
    case (cascade x)
    have cur': "current M E U g p1 L" using cascade same by simp
    have st2: "st2 = push ROLLBACK (Some x) (d # rest)" using again cascade by (simp add: ProcessBlockDynamic_next_def)
    define m where "m = (if n = 0 then 1 else n)"
    have m: "live E g L m (d # rest)" using live live_start [of d E L g rest] cascade b by (simp add: m_def)
    have x: "stored E L x" "\<And>rank. rank_ok g rank L \<Longrightarrow> rank (Hash E b) < rank (Hash E x)" using cascade by simp_all
    have up: "live E g L (Suc m) st2" unfolding st2
      by (rule live_push [OF m _ x(1)]) (use x(2) b in \<open>auto simp: m_def\<close>)
    have "room L (Suc m) st2 < room L n (d # rest)"
      using bound [OF up] m cascade(1) by (auto simp: st2 room_def push_def m_def live_def split: if_splits)
    then show ?thesis
      using goal [OF cur' _ up] shape_push_rollback [OF shape] work_push_rollback [of d] cascade(1) less_progress(3)
      by (simp add: st2)
  qed
qed

lemma turn_waits:
  assumes "turn M E U g p L (bd_operation d) b (d # rest) c st1 p1" "shape (d # rest)"
    "ProcessBlockDynamic_next (bd_operation d) c st1 = Loop_Wait st2"
  shows "wait_shape st2"
  using assms(1)
proof cases
  case (wait o'')
  with assms(2,3) wait_shape_push show ?thesis by (auto simp: ProcessBlockDynamic_next_def)
qed (use assms(3) in \<open>auto simp: ProcessBlockDynamic_next_def\<close>)


section \<open>The loop ends\<close>

lemma top_turn:
  assumes "reliable M" "current M E U g p L" "node_inv M E U g p" "universe E g U" "b \<in> U" "ready U st"
    "o' \<in> {APPEND, PREPEND, ROLLBACK, CONFIRM}"
    "ProcessBlockDynamic_top M (at_time E t) now n st o' b k p = (c, st', k', p')"
  shows "turn M E U g p L o' b st c st' p'"
proof -
  consider "o' = APPEND" | "o' = PREPEND" | "o' = ROLLBACK" | "o' = CONFIRM" using assms(7) by blast
  then show ?thesis
  proof cases
    case 1
    with assms(8) have "ProcessBlockDynamicAppend M (at_time E t) now n st b p = (c, st', p')"
      by (auto simp: ProcessBlockDynamic_top_def split: prod.splits)
    from append_turn [OF assms(1-6) this] 1 show ?thesis by simp
  next
    case 2
    with assms(8) have "ProcessBlockDynamicPrepend M (at_time E t) n st b p = (c, st', p')"
      by (auto simp: ProcessBlockDynamic_top_def split: prod.splits)
    from prepend_turn [OF assms(1,2,4,5) this] 2 show ?thesis by simp
  next
    case 3
    with assms(8) have "ProcessBlockDynamicRollback M (at_time E t) n st b p = (c, st', p')"
      by (auto simp: ProcessBlockDynamic_top_def split: prod.splits)
    from rollback_turn [OF assms(1,2,4,5) this] 3 show ?thesis by simp
  next
    case 4
    with assms(8) have "ProcessBlockDynamicConfirm M (at_time E t) n st b k p = (c, st', k', p')"
      by (simp add: ProcessBlockDynamic_top_def)
    from confirm_turn [OF assms(1,2,4,5) this] 4 show ?thesis by simp
  qed
qed

lemma block_observer_keeps [simp]:
  "bp_ledger (block_observer o' c k b p) = bp_ledger p" "blocks_dynamic (block_observer o' c k b p) = blocks_dynamic p"
  "b \<in> U \<Longrightarrow> node_inv M E U g (block_observer o' c k b p) = node_inv M E U g p"
  by (simp_all add: node_inv_def)

text \<open>Some fuel is enough, and then any larger fuel gives the same result.\<close>

definition loop_ends where
  "loop_ends M E now n st k p \<longleftrightarrow> (\<exists>fuel0 r p'. (\<forall>fuel \<ge> fuel0. ProcessBlockDynamic_loop M E now fuel n st k p = Some (r, p')) \<and>
     (\<forall>st'. r = Some st' \<longrightarrow> wait_shape st'))"

lemma loop_endsI:
  assumes "\<And>fuel. ProcessBlockDynamic_loop M E now (Suc fuel) n st k p = Some (r, p')" "\<And>st'. r = Some st' \<Longrightarrow> wait_shape st'"
  shows "loop_ends M E now n st k p"
proof -
  have "ProcessBlockDynamic_loop M E now fuel n st k p = Some (r, p')" if "1 \<le> fuel" for fuel
    using that assms(1) by (cases fuel) auto
  with assms(2) show ?thesis unfolding loop_ends_def by blast
qed

lemma loop_ends_again:
  assumes "\<And>fuel. ProcessBlockDynamic_loop M E now (Suc fuel) n st k p = ProcessBlockDynamic_loop M E now fuel n st2 k2 p2"
    "loop_ends M E now n st2 k2 p2"
  shows "loop_ends M E now n st k p"
proof -
  obtain fuel0 r p' where run: "\<forall>fuel \<ge> fuel0. ProcessBlockDynamic_loop M E now fuel n st2 k2 p2 = Some (r, p')"
    and r: "\<forall>st'. r = Some st' \<longrightarrow> wait_shape st'"
    using assms(2) unfolding loop_ends_def by blast
  have "ProcessBlockDynamic_loop M E now fuel n st k p = Some (r, p')" if "Suc fuel0 \<le> fuel" for fuel
    using that assms(1) run by (cases fuel) auto
  with r show ?thesis unfolding loop_ends_def by blast
qed

lemma ProcessBlockDynamic_loop_ends:
  assumes "reliable M" "universe E g U" "dyn n"
  shows "current M E U g p L \<Longrightarrow> node_inv M E U g p \<Longrightarrow> ready U st \<Longrightarrow> shape st \<Longrightarrow> live E g L c st \<Longrightarrow>
     loop_ends M (at_time E t) now n st k p"
proof (induction "measures_of E L c st" arbitrary: st p L c k rule: wf_induct_rule [of progress, OF wf_lex_prod [OF wf_less_than wf_lex_prod [OF wf_less_than wf_less_than]]])
  case 1
  note IH = 1(1) and cur = 1(2) and inv = 1(3) and ready = 1(4) and shape = 1(5) and live = 1(6)
  show ?case
  proof (cases st)
    case Nil
    show ?thesis by (rule loop_endsI [where r = None and p' = p]) (simp_all add: Nil)
  next
    case (Cons d rest)
    from ready Cons obtain b where b: "bd_block d = Some b" "b \<in> U" "bd_operation d \<in> {APPEND, PREPEND, ROLLBACK, CONFIRM}"
      by (auto simp: ready_def entry_ok_def)
    obtain e st1 k1 p1 where s: "ProcessBlockDynamic_top M (at_time E t) now n st (bd_operation d) b k p = (e, st1, k1, p1)"
      by (metis prod.exhaust)
    have turn: "turn M E U g p L (bd_operation d) b (d # rest) e st1 p1"
      using top_turn [OF assms(1) cur inv assms(2) b(2) ready b(3) s] Cons by simp
    from ProcessBlockDynamic_top_inv [OF assms(1) inv assms(2) b(2) ready b(3) assms(3) s]
    have p1: "node_inv M E U g p1" "handed U st e st1" by (simp_all add: op_result_def)
    let ?p = "block_observer (bd_operation d) e k1 b p1"
    note next_inv = ProcessBlockDynamic_next_inv [OF p1(2) ready]
    show ?thesis
    proof (cases "ProcessBlockDynamic_next (bd_operation d) e st1")
      case (Loop_Again st2)
      obtain L2 c2 where L2: "current M E U g p1 L2" "shape st2" "live E g L2 c2 st2"
        "(measures_of E L2 c2 st2, measures_of E L c (d # rest)) \<in> progress"
        by (rule turn_progress [OF turn b(1) Loop_Again cur assms(2)]) (use shape live Cons in auto)
      have "loop_ends M (at_time E t) now n st2 k1 ?p"
        by (rule IH [OF _ _ _ next_inv(1) [OF Loop_Again] L2(2,3)])
          (use L2(1,4) Cons p1(1) b(2) current_unchanged [of ?p p1] in simp_all)
      then show ?thesis by (rule loop_ends_again [rotated]) (use Cons b s Loop_Again in \<open>simp add: Let_def\<close>)
    next
      case (Loop_Wait st2)
      show ?thesis
        by (rule loop_endsI [where r = "Some st2" and p' = ?p])
          (use Cons b s Loop_Wait turn_waits [OF turn _ Loop_Wait] shape in \<open>simp_all add: Let_def\<close>)
    next
      case Loop_Break
      show ?thesis
        by (rule loop_endsI [where r = None and p' = ?p]) (use Cons b s Loop_Break in \<open>simp_all add: Let_def\<close>)
    qed
  qed
qed


section \<open>A turn of the main loop ends\<close>

definition stacks_wait :: "'db processor \<Rightarrow> bool" where
  "stacks_wait p \<longleftrightarrow> (\<forall>n st. blocks_dynamic p n = Some st \<longrightarrow> wait_shape st)"

lemma ProcessBlockDynamic_ends:
  assumes "reliable M" "universe E g U" "node_inv M E U g p"
    "\<And>st. blocks_dynamic p n = Some st \<Longrightarrow> ready U st \<and> shape st"
    "\<And>m st. blocks_dynamic p m = Some st \<Longrightarrow> m \<noteq> n \<Longrightarrow> wait_shape st"
  shows "\<exists>fuel0 p'. stacks_wait p' \<and> (\<forall>fuel \<ge> fuel0. ProcessBlockDynamic M (at_time E t) now fuel n p = Some p')"
proof (cases "blocks_dynamic p n")
  case None
  have "stacks_wait p" using assms(5) None unfolding stacks_wait_def by (metis option.distinct(1))
  with None show ?thesis by (auto simp: ProcessBlockDynamic_def)
next
  case (Some st)
  note st = assms(4) [OF Some]
  have n: "dyn n" using assms(3) rest_inv_parts(6) [OF _ Some] by (auto simp: node_inv_def)
  obtain L where "current M E U g p L" using assms(3) by (auto simp: node_inv_def ledger_ok_def current_def)
  from ProcessBlockDynamic_loop_ends [OF assms(1,2) n this assms(3) conjunct1 [OF st] conjunct2 [OF st] live_0, of t now 0]
  obtain fuel0 r p1 where run: "\<And>fuel. fuel0 \<le> fuel \<Longrightarrow> ProcessBlockDynamic_loop M (at_time E t) now fuel n st 0 p = Some (r, p1)"
    and r: "\<And>st'. r = Some st' \<Longrightarrow> wait_shape st'"
    unfolding loop_ends_def by blast
  have dyn: "blocks_dynamic p1 = blocks_dynamic p"
    using ProcessBlockDynamic_loop_inv [OF assms(1,2) n run [OF order_refl] assms(3) conjunct1 [OF st]] by blast
  define p' where "p' = (case r of Some st' \<Rightarrow> p1\<lparr>blocks_dynamic := (blocks_dynamic p1)(n \<mapsto> st')\<rparr>
    | None \<Rightarrow> ProcessBlockDynamic_finish M n p1)"
  have "stacks_wait p'" using r assms(5)
    by (auto simp: p'_def stacks_wait_def dyn ProcessBlockDynamic_finish_def UpdateForks_def Let_def split: option.splits)
  moreover have "ProcessBlockDynamic M (at_time E t) now fuel n p = Some p'" if "fuel0 \<le> fuel" for fuel
    using run [OF that] Some by (simp add: ProcessBlockDynamic_def p'_def split: option.splits)
  ultimately show ?thesis by blast
qed

lemma start_dynamic_stacks:
  assumes "stacks_wait p" "start_dynamic o' b p = (n, p')"
  shows "blocks_dynamic p' n = Some st \<Longrightarrow> shape st" "blocks_dynamic p' m = Some st \<Longrightarrow> m \<noteq> n \<Longrightarrow> wait_shape st"
  using assms by (auto simp: start_dynamic_def stacks_wait_def push_def split: prod.splits)

lemma ProcessBlockForced_ends:
  assumes "reliable M" "universe E g U" "node_inv M E U g p" "b \<in> U" "stacks_wait p"
    "n \<in> {of_block_operation APPEND, of_block_operation CONFIRM} \<or> dyn n"
  shows "\<exists>fuel0 p'. stacks_wait p' \<and> (\<forall>fuel \<ge> fuel0. ProcessBlockForced M (at_time E t) now fuel n b p = Some p')"
proof (cases "n \<ge> of_block_operation DYNAMIC_BEGIN")
  case True
  show ?thesis
  proof (cases "blocks_dynamic p n")
    case None
    with True assms(5) show ?thesis by (auto simp: ProcessBlockForced_def)
  next
    case (Some st)
    have ok: "st \<noteq> []" "stack_ok U st" using rest_inv_parts(5) [OF _ Some] assms(3) by (auto simp: node_inv_def)
    then obtain d rest where st: "st = d # rest" by (cases st) auto
    let ?st = "d\<lparr>bd_block := Some b\<rparr> # rest"
    let ?p = "(accounts_insert n (Account b) p)\<lparr>blocks_dynamic := (blocks_dynamic p)(n \<mapsto> ?st)\<rparr>"
    have rdy: "ready U ?st" using ok(2) assms(4) by (auto simp: st ready_def stack_ok_def entry_ok_def)
    have shp: "shape ?st" using assms(5) Some wait_shape_filled unfolding stacks_wait_def st by blast
    have "node_inv M E U g (accounts_insert n (Account b) p)" using assms(3) by (simp add: node_inv_def)
    from node_inv_stack [OF this, of "Some ?st" n] ready_waiting [OF rdy] True have inv: "node_inv M E U g ?p" by simp
    have "ProcessBlockForced M (at_time E t) now fuel n b p = ProcessBlockDynamic M (at_time E t) now fuel n ?p" for fuel
      using True Some st by (simp add: ProcessBlockForced_def)
    moreover have "\<exists>fuel0 p'. stacks_wait p' \<and> (\<forall>fuel \<ge> fuel0. ProcessBlockDynamic M (at_time E t) now fuel n ?p = Some p')"
      by (rule ProcessBlockDynamic_ends [OF assms(1,2) inv]) (use rdy shp assms(5) in \<open>auto simp: stacks_wait_def\<close>)
    ultimately show ?thesis by simp
  qed
next
  case False
  with assms(6) obtain o' where o': "o' \<in> {APPEND, CONFIRM}" "n = of_block_operation o'" by blast
  obtain m q where q: "start_dynamic o' b p = (m, q)" by fastforce
  have "ProcessBlockForced M (at_time E t) now fuel n b p = ProcessBlockDynamic M (at_time E t) now fuel m q" for fuel
    using False o' q by (auto simp: ProcessBlockForced_def)
  moreover have "\<exists>fuel0 p'. stacks_wait p' \<and> (\<forall>fuel \<ge> fuel0. ProcessBlockDynamic M (at_time E t) now fuel m q = Some p')"
    by (rule ProcessBlockDynamic_ends [OF assms(1,2) start_dynamic_inv(1) [OF assms(3) o'(1) assms(4) q]])
      (use start_dynamic_inv(2) [OF assms(3) o'(1) assms(4) q] start_dynamic_stacks [OF assms(5) q] in auto)
  ultimately show ?thesis by simp
qed

text \<open>Ordinary blocks and forks leave the stacks alone.\<close>

lemma Processor_Add_stacks [simp]: "blocks_dynamic (Processor_Add E now p b) = blocks_dynamic p"
  by (simp add: Processor_Add_def split: prod.split)

lemma QueueGapCaches_stacks [simp]: "blocks_dynamic (QueueGapCaches E now p h) = blocks_dynamic p"
  by (simp add: QueueGapCaches_def Let_def split: option.split)

lemma ProcessBlock_stacks [simp]: "blocks_dynamic (ProcessBlock M E now p b f) = blocks_dynamic p"
  by (simp add: ProcessBlock_def ProcessBlock_switch_def Let_def split: prod.split option.split)

lemma ProcessBlockFork_stacks [simp]: "blocks_dynamic (ProcessBlockFork M E p f s) = blocks_dynamic p"
  by (simp add: ProcessBlockFork_def Let_def split: prod.split option.split fork_result.split)

lemma Run_step_ends:
  assumes "reliable M" "universe E g U" "node_inv M E U g p" "stacks_wait p"
  shows "\<exists>fuel0 p'. stacks_wait p' \<and> (\<forall>fuel \<ge> fuel0. Run_step M (at_time E t) now fuel p = Some p')"
proof (cases "Run_next (bp_queues p)")
  case None
  with assms(4) show ?thesis by (auto simp: Run_step_def)
next
  case (Some wq)
  then obtain w q where n: "Run_next (bp_queues p) = Some (w, q)" by (cases wq) auto
  have "queues_ok E U (bp_queues p)" using assms(3) by (simp add: node_inv_def rest_inv_def)
  note q = Run_next_queues [OF this n]
  have inv: "node_inv M E U g (p\<lparr>bp_queues := q\<rparr>)" using assms(3) q(1) by (simp add: node_inv_def rest_inv_def)
  have waits: "stacks_wait (p\<lparr>bp_queues := q\<rparr>)" using assms(4) by (simp add: stacks_wait_def)
  show ?thesis
  proof (cases w)
    case (Work_Forced fc)
    then have "Run_step M (at_time E t) now fuel p =
        ProcessBlockForced M (at_time E t) now fuel (fc_operation fc) (fc_block fc) (p\<lparr>bp_queues := q\<rparr>)" for fuel
      using n by (simp add: Run_step_def Let_def)
    with q(3) [OF Work_Forced] ProcessBlockForced_ends [OF assms(1,2) inv _ waits] show ?thesis by auto
  next
    case (Work_Fork f)
    define p' where "p' = ProcessBlockFork M (at_time E t)
        (if fk_from_local f then p\<lparr>bp_queues := q\<rparr>
         else ProcessBlock M (at_time E t) now (ProcessBlock M (at_time E t) now (p\<lparr>bp_queues := q\<rparr>) (fk_first f) True)
           (fk_second f) True) (fk_first f) (fk_second f)"
    have "stacks_wait p'" using waits by (simp add: p'_def stacks_wait_def)
    moreover have "Run_step M (at_time E t) now fuel p = Some p'" for fuel
      using n Work_Fork by (simp add: Run_step_def Let_def p'_def)
    ultimately show ?thesis by blast
  next
    case (Work_Block b)
    have "stacks_wait (ProcessBlock M (at_time E t) now (p\<lparr>bp_queues := q\<rparr>) b False)" using waits by (simp add: stacks_wait_def)
    moreover have "Run_step M (at_time E t) now fuel p = Some (ProcessBlock M (at_time E t) now (p\<lparr>bp_queues := q\<rparr>) b False)" for fuel
      using n Work_Block by (simp add: Run_step_def Let_def)
    ultimately show ?thesis by blast
  qed
qed

end
