(* ===== verification/Acceptance.thy ===== *)
theory Acceptance
  imports Builders AppendFrame Invariants
begin

text \<open>
  Builders and the ledger agree: a block that a builder makes on top of the head of an account, with the
  account's key and a clock that is not ahead of the node's, passes every check of \<open>AppendBlock\<close>.
  \<open>chain_head\<close> says that a builder continues the stored chain of its account.
\<close>

definition honest_key :: "env \<Rightarrow> u256 \<Rightarrow> u256 \<Rightarrow> bool" where
  "honest_key E private_key account \<longleftrightarrow>
     (\<forall>h. \<not> ValidateMessage E account h (SignMessage E private_key account h))"

definition chain_head :: "ledger_view \<Rightarrow> u256 \<Rightarrow> block \<Rightarrow> bool" where
  "chain_head L account prev \<longleftrightarrow> (\<exists>info s. v_accounts L account = Some info \<and> AccountInfo_Valid info \<and>
     v_blocks L (ai_head info) = Some (prev, s))"

definition clock_ok :: "env \<Rightarrow> u64 \<Rightarrow> bool" where
  "clock_ok E now \<longleftrightarrow> EpochTimestamp (RAI_NETWORK E) \<le> now \<and> now \<le> CurrentTimestamp E \<and>
     unat (CurrentTimestamp E) < 2 ^ 63"

lemma built_timestamp:
  assumes "clock_ok E now" "now \<le> t" "t \<le> now + 60"
  shows "EpochTimestamp (RAI_NETWORK E) \<le> t" "t \<le> CurrentTimestamp E + MAX_TIMESTAMP_DIFF"
proof -
  show "EpochTimestamp (RAI_NETWORK E) \<le> t" using assms by (auto simp: clock_ok_def)
  have "unat now \<le> unat (CurrentTimestamp E)" "unat (CurrentTimestamp E) < 2 ^ 63"
    using assms(1) by (simp_all add: clock_ok_def word_le_nat_alt)
  then show "t \<le> CurrentTimestamp E + MAX_TIMESTAMP_DIFF"
    using assms(3) by (simp add: word_le_nat_alt unat_word_ariths MAX_TIMESTAMP_DIFF_def)
qed

lemma next_block_successor_ok:
  assumes "ledger_inv E L" "chain_head L account prev" "next_block E now account prev b" "clock_ok E now"
    "honest_key E private_key account" "signed_by E True private_key account b" "v_blocks L (Hash E b) = None"
  obtains info where "successor_ok E L info prev b"
proof -
  obtain info s where i: "v_accounts L account = Some info" "AccountInfo_Valid info"
    "v_blocks L (ai_head info) = Some (prev, s)"
    using assms(2) by (auto simp: chain_head_def)
  note n = assms(3) [unfolded next_block_def]
  have "info_inv L account info" "blocks_inv E L" using assms(1) i(1,2) by (auto simp: ledger_inv_def heads_inv_def)
  then have head: "ai_head info = Hash E prev" "Height prev = ai_head_height info" "Type prev = ai_type info"
    "ai_tail_height info \<le> ai_head_height info"
    using i(3) unfolding info_inv_def blocks_inv_def by (metis, auto)
  have "1 + ai_head_height info \<noteq> 0"
    using i(2) by (auto simp: AccountInfo_Valid_def INVALID_HEIGHT_def add_eq_0_iff)
  then have lt: "ai_head_height info < ai_head_height info + 1"
    using unatSuc [of "ai_head_height info"] by (simp add: word_less_nat_alt add.commute)
  have "common_ok E L b"
    using built_timestamp [OF assms(4), of "Timestamp b"] n assms(5,6,7)
    by (simp add: common_ok_def CheckSignature_def honest_key_def signed_by_def)
  then have "successor_ok E L info prev b"
    using n i head lt by (auto simp: successor_ok_def)
  then show thesis by (rule that)
qed

text \<open>What a builder needs to know of the ledger it builds on.\<close>

definition builds_on :: "env \<Rightarrow> ledger_view \<Rightarrow> tx_block_builder \<Rightarrow> block \<Rightarrow> u64 \<Rightarrow> bool" where
  "builds_on E L tb prev now \<longleftrightarrow> ledger_inv E L \<and> chain_head L (tb_account tb) prev \<and> tb_previous tb = Some prev \<and>
     tb_has_key tb \<and> honest_key E (tb_private_key tb) (tb_account tb) \<and> clock_ok E now \<and> Counter prev \<noteq> - 1"

lemma next_block_counter: "next_block E now account prev b \<Longrightarrow> counter_increases prev b"
  by (auto simp: next_block_def counter_increases_def split: if_splits)

lemma built_wf:
  assumes "ledger_rel M txn L" "builds_on E L tb prev now" "tx_built E tb b tb'"
  shows "block_wf b" "signed_by E True (tb_private_key tb) (tb_account tb) b"
proof -
  obtain h s where "v_blocks L h = Some (prev, s)" using assms(2) by (auto simp: builds_on_def chain_head_def)
  then have "block_wf prev" using ledger_rel_block(2) [OF assms(1)] by fastforce
  then have "Credit prev \<noteq> 0" by (cases prev) auto
  with assms(2,3) show "block_wf b" "signed_by E True (tb_private_key tb) (tb_account tb) b"
    by (auto simp: tx_built_def builds_on_def)
qed

lemma Send_accepted:
  assumes "writable M txn" "ledger_rel M txn L" "builds_on E L tb prev now"
    "TxBlockBuilder_Send E tb destination amount now extensions = Inr (b, tb')" "v_blocks L (Hash E b) = None"
  shows "\<exists>txn'. AppendBlock M E txn b = (SUCCESS, txn')"
proof -
  from TxBlockBuilder_Send_Inr [OF assms(4)] assms(3) have b: "next_block E now (tb_account tb) prev b"
    "Opcode b = SEND" "Credit b = Credit prev" "Representative b = Representative prev" "amount \<noteq> 0"
    "amount \<le> Balance prev" "Balance b = Balance prev - amount" "tx_built E tb b tb'"
    by (auto simp: builds_on_def)
  note wf = built_wf [OF assms(2,3) b(8)]
  obtain info where s: "successor_ok E L info prev b"
    using next_block_successor_ok [OF _ _ b(1) _ _ wf(2) assms(5)] assms(3) unfolding builds_on_def by blast
  have "unat (Balance b) = unat (Balance prev) - unat amount" "unat amount \<le> unat (Balance prev)"
    using b(6,7) by (simp_all add: unat_sub_word word_le_nat_alt)
  moreover have "unat amount \<noteq> 0" using b(5) by (simp add: unat_eq_zero)
  ultimately have "Balance b < Balance prev" by (simp add: word_less_nat_alt)
  from append_step.send [OF b(2) s b(3) next_block_counter [OF b(1)] _ this refl] b(4)
  obtain L' where "append_step E L b L'" by (auto simp: same_representative_def)
  with AppendBlock_outcome [OF _ assms(1,2) wf(1)] show ?thesis by blast
qed

lemma Change_accepted:
  assumes "writable M txn" "ledger_rel M txn L" "builds_on E L tb prev now"
    "TxBlockBuilder_Change E tb rep now extensions = Inr (b, tb')" "v_blocks L (Hash E b) = None"
  shows "\<exists>txn'. AppendBlock M E txn b = (SUCCESS, txn')"
proof -
  from TxBlockBuilder_Change_Inr [OF assms(4)] assms(3) have b: "next_block E now (tb_account tb) prev b"
    "Opcode b = CHANGE" "Credit b = Credit prev" "Link b = 0" "Balance b = Balance prev" "tx_built E tb b tb'"
    by (auto simp: builds_on_def)
  note wf = built_wf [OF assms(2,3) b(6)]
  obtain info where s: "successor_ok E L info prev b"
    using next_block_successor_ok [OF _ _ b(1) _ _ wf(2) assms(5)] assms(3) unfolding builds_on_def by blast
  from append_step.change [OF b(2) s b(3) next_block_counter [OF b(1)] b(5,4)]
  show ?thesis using AppendBlock_outcome [OF _ assms(1,2) wf(1)] by blast
qed

lemma Receive_accepted:
  assumes "writable M txn" "ledger_rel M txn L" "builds_on E L tb prev now"
    "v_receivables L (tb_account tb, source) = Some ri"
    "v_blocks L source = Some (sent, t)" "sent_at = Timestamp sent"
    "TxBlockBuilder_Receive E tb source (ri_amount ri) sent_at now extensions = Inr (b, tb')"
    "v_blocks L (Hash E b) = None"
  shows "\<exists>txn'. AppendBlock M E txn b = (SUCCESS, txn')"
proof -
  have "tb_previous tb = Some prev" using assms(3) by (simp add: builds_on_def)
  from TxBlockBuilder_Receive_Inr [OF assms(7) this] have b: "next_block E now (tb_account tb) prev b"
    "Opcode b = RECEIVE" "Credit b = Credit prev" "Representative b = Representative prev" "Link b = source"
    "ri_amount ri \<noteq> 0" "ri_amount ri \<le> Balance prev + ri_amount ri" "Balance b = Balance prev + ri_amount ri"
    "tx_built E tb b tb'" "sent_at \<le> Timestamp b"
    by auto
  note wf = built_wf [OF assms(2,3) b(9)]
  obtain info where s: "successor_ok E L info prev b"
    using next_block_successor_ok [OF _ _ b(1) _ _ wf(2) assms(8)] assms(3) unfolding builds_on_def by blast
  have a: "Account b = tb_account tb" using b(1) by (simp add: next_block_def)
  have "unat (Balance b) = unat (Balance prev) + unat (ri_amount ri)"
    using b(7,8) by (metis add.commute word_le_nat_alt unat_plus_simple)
  moreover have "unat (ri_amount ri) \<noteq> 0" using b(6) by (simp add: unat_eq_zero)
  ultimately have "Balance prev < Balance b" by (simp add: word_less_nat_alt)
  from append_step.receive [OF b(2) s b(3) next_block_counter [OF b(1)] _ _ _ this _ refl, of ri] b(4,5,8,10) a assms(4-6)
  obtain L' where "append_step E L b L'" by (auto simp: same_representative_def source_ok_def)
  with AppendBlock_outcome [OF _ assms(1,2) wf(1)] show ?thesis by blast
qed

end
