(* ===== verification/ElectionInv.thy ===== *)
theory ElectionInv
  imports Elections
begin

text \<open>
  What every operation on elections keeps. In one election (\<open>election_ok\<close>): a block is held for each vote and
  each conflict that names it, because its count of references covers them; so the tally and the broadcasts always find
  the block they look for. For all elections (\<open>elections_ok\<close>): one election per account, in the order of their
  wake-up, and the two sets of running elections stay within their limits.
\<close>

declare map_of_eq_Some_iff [simp del] Some_eq_map_of_iff [simp del]

section \<open>One election\<close>

definition refs_of :: "election \<Rightarrow> u256 \<Rightarrow> nat" where
  "refs_of e h = length (filter (\<lambda>v. vt_hash (ri_last_vote (snd v)) = h) (el_votes e)) +
     length (filter (\<lambda>v. vt_hash (snd v) = h) (el_conflicts e))"

definition held :: "election \<Rightarrow> u256 \<Rightarrow> nat" where
  "held e h = (case map_of (el_blocks e) h of None \<Rightarrow> 0 | Some r \<Rightarrow> unat (br_refs r))"

text \<open>Up to \<open>n\<close> references to a block; \<open>hs\<close> are references that are still to be added.\<close>

definition blocks_ok :: "env \<Rightarrow> nat \<Rightarrow> election \<Rightarrow> bool" where
  "blocks_ok E n e \<longleftrightarrow> distinct (map fst (el_blocks e)) \<and> el_blocks e \<noteq> [] \<and>
     (\<not> el_fork_found e \<longrightarrow> length (el_blocks e) = 1) \<and>
     (\<forall>h r. map_of (el_blocks e) h = Some r \<longrightarrow> Hash E (br_block r) = h \<and> Account (br_block r) = el_account e \<and>
        Height (br_block r) = el_height e \<and> unat (br_refs r) \<le> n)"

definition covers :: "u256 list \<Rightarrow> election \<Rightarrow> bool" where
  "covers hs e \<longleftrightarrow> (\<forall>h. refs_of e h \<le> held e h + count_list hs h)"

definition votes_ok :: "election \<Rightarrow> bool" where
  "votes_ok e \<longleftrightarrow> distinct (map fst (el_votes e)) \<and> distinct (map fst (el_conflicts e)) \<and>
     (\<forall>rep. map_of (el_conflicts e) rep \<noteq> None \<longleftrightarrow>
        (\<exists>i. map_of (el_votes e) rep = Some i \<and> ri_conflict_found i))"

definition election_ok :: "env \<Rightarrow> nat \<Rightarrow> election \<Rightarrow> bool" where
  "election_ok E n e \<longleftrightarrow> blocks_ok E n e \<and> covers [] e \<and> votes_ok e"

lemma count_filter_update:
  assumes "distinct (map fst al)"
  shows "length (filter (\<lambda>v. f (snd v) = h) (AList.update k x al)) +
      (case map_of al k of None \<Rightarrow> 0 | Some y \<Rightarrow> if f y = h then 1 else 0) =
    length (filter (\<lambda>v. f (snd v) = h) al) + (if f x = h then 1 else 0)"
  using assms
proof (induction al)
  case (Cons p al)
  obtain a b where p: "p = (a, b)" by fastforce
  show ?case
  proof (cases "a = k")
    case True
    with Cons.prems have "map_of al k = None" by (simp add: p map_of_eq_None_iff)
    with True show ?thesis by (simp add: p)
  next
    case False
    with Cons show ?thesis by (simp add: p)
  qed
qed simp

lemma held_refs: "0 < held e h \<Longrightarrow> map_of (el_blocks e) h \<noteq> None"
  by (auto simp: held_def split: option.splits)

lemma el_blocks_length: "distinct (map fst al) \<Longrightarrow> map_of al k = None \<Longrightarrow> length (AList.update k v al) = Suc (length al)"
  by (induction al) (auto split: if_splits)

lemma update_length_same: "map_of al k \<noteq> None \<Longrightarrow> length (AList.update k v al) = length al"
  by (induction al) (auto split: if_splits)

lemma delete_length: "distinct (map fst al) \<Longrightarrow> map_of al k \<noteq> None \<Longrightarrow> Suc (length (AList.delete k al)) = length al"
proof (induction al)
  case (Cons p al)
  then show ?case
    by (cases "fst p = k") (auto simp: map_of_eq_None_iff [symmetric])
qed simp

section \<open>Adding and releasing a block\<close>

lemma Election_AddBlock_fields [simp]:
  "el_account (Election_AddBlock E N b e) = el_account e" "el_height (Election_AddBlock E N b e) = el_height e"
  "el_votes (Election_AddBlock E N b e) = el_votes e" "el_conflicts (Election_AddBlock E N b e) = el_conflicts e"
  "el_rounds (Election_AddBlock E N b e) = el_rounds e"
  by (simp_all add: Election_AddBlock_def Let_def split: option.split)

lemma Election_DelBlock_fields [simp]:
  "el_account (Election_DelBlock h e) = el_account e" "el_height (Election_DelBlock h e) = el_height e"
  "el_votes (Election_DelBlock h e) = el_votes e" "el_conflicts (Election_DelBlock h e) = el_conflicts e"
  "el_fork_found (Election_DelBlock h e) = el_fork_found e" "el_wakeup (Election_DelBlock h e) = el_wakeup e"
  by (simp_all add: Election_DelBlock_def Let_def split: option.split)

lemma votes_ok_blocks [simp]:
  "votes_ok (Election_AddBlock E N b e) = votes_ok e" "votes_ok (Election_DelBlock h e) = votes_ok e"
  by (simp_all add: votes_ok_def)

lemma refs_of_blocks [simp]:
  "refs_of (Election_AddBlock E N b e) k = refs_of e k" "refs_of (Election_DelBlock h e) k = refs_of e k"
  by (simp_all add: refs_of_def)

lemma unat_inc: "unat (w :: u32) \<le> n \<Longrightarrow> Suc n < 2 ^ 32 \<Longrightarrow> unat (w + 1) = Suc (unat w)"
  by (simp add: unat_word_ariths)

lemma unat_inc_le: "unat (w :: u32) \<le> n \<Longrightarrow> unat (w + 1) \<le> Suc n"
  using mod_less_eq_dividend [of "Suc (unat w)" "2 ^ 32"] by (simp add: unat_word_ariths)

lemma AddBlock_held:
  assumes "blocks_ok E n e" "Suc n < 2 ^ 32"
  shows "held (Election_AddBlock E N b e) h = held e h + (if h = Hash E b then 1 else 0)"
proof (cases "map_of (el_blocks e) (Hash E b)")
  case None
  then show ?thesis by (auto simp: held_def Election_AddBlock_def Let_def update_conv')
next
  case (Some r)
  then have "unat (br_refs r) \<le> n" using assms(1) by (auto simp: blocks_ok_def)
  with Some assms(2) show ?thesis by (auto simp: held_def Election_AddBlock_def update_conv' unat_inc)
qed

lemma AddBlock_el_blocks:
  "el_blocks (Election_AddBlock E N b e) = AList.update (Hash E b)
     (case map_of (el_blocks e) (Hash E b) of None \<Rightarrow> \<lparr>br_refs = 1, br_block = b\<rparr> | Some r \<Rightarrow> r\<lparr>br_refs := br_refs r + 1\<rparr>)
     (el_blocks e)"
  by (simp add: Election_AddBlock_def Let_def split: option.split)

lemma AddBlock_fork:
  "el_fork_found (Election_AddBlock E N b e) \<longleftrightarrow> el_fork_found e \<or>
     map_of (el_blocks e) (Hash E b) = None \<and> 1 < length (el_blocks (Election_AddBlock E N b e))"
  by (simp add: Election_AddBlock_def Let_def split: option.split)

lemma AddBlock_blocks:
  assumes "blocks_ok E n e \<or> el_blocks e = [] \<and> \<not> el_fork_found e" "Suc n < 2 ^ 32" "Account b = el_account e" "Height b = el_height e"
  shows "blocks_ok E (Suc n) (Election_AddBlock E N b e)"
proof -
  let ?e = "Election_AddBlock E N b e"
  have d: "distinct (map fst (el_blocks e))" using assms(1) by (auto simp: blocks_ok_def)
  have old: "Hash E (br_block r) = h \<and> Account (br_block r) = el_account e \<and> Height (br_block r) = el_height e \<and> unat (br_refs r) \<le> n"
    if "map_of (el_blocks e) h = Some r" for h r
    using that assms(1) by (auto simp: blocks_ok_def)
  have "Hash E (br_block r) = h \<and> Account (br_block r) = el_account ?e \<and> Height (br_block r) = el_height ?e \<and> unat (br_refs r) \<le> Suc n"
    if r: "map_of (el_blocks ?e) h = Some r" for h r
  proof (cases "h = Hash E b")
    case False
    with r old [of h r] show ?thesis by (simp add: AddBlock_el_blocks update_conv')
  next
    case True
    with r assms(2-4) old show ?thesis
      by (auto simp: AddBlock_el_blocks update_conv' unat_inc_le split: option.splits)
  qed
  moreover have "length (el_blocks ?e) = 1" if "\<not> el_fork_found ?e"
  proof (cases "map_of (el_blocks e) (Hash E b)")
    case None
    from that None have "\<not> 1 < length (el_blocks ?e)" by (simp add: AddBlock_fork)
    moreover have "el_blocks ?e \<noteq> []" by (simp add: AddBlock_el_blocks)
    ultimately show ?thesis by (cases "el_blocks ?e") auto
  next
    case (Some r)
    with that assms(1) have "length (el_blocks e) = 1" by (auto simp: AddBlock_fork blocks_ok_def)
    with Some show ?thesis by (simp add: AddBlock_el_blocks update_length_same)
  qed
  moreover have "distinct (map fst (el_blocks ?e))" "el_blocks ?e \<noteq> []"
    by (simp_all add: AddBlock_el_blocks distinct_update d)
  ultimately show ?thesis unfolding blocks_ok_def by blast
qed

lemma AddBlock_covers:
  assumes "blocks_ok E n e" "Suc n < 2 ^ 32" "covers (Hash E b # hs) e"
  shows "covers hs (Election_AddBlock E N b e)"
  unfolding covers_def
proof
  fix h
  have "refs_of e h \<le> held e h + count_list (Hash E b # hs) h" using assms(3) by (simp add: covers_def)
  then show "refs_of (Election_AddBlock E N b e) h \<le> held (Election_AddBlock E N b e) h + count_list hs h"
    by (auto simp: AddBlock_held [OF assms(1,2)] split: if_splits)
qed

lemma DelBlock_held: "held e h \<le> held (Election_DelBlock k e) h + (if h = k then 1 else 0)"
proof (cases "map_of (el_blocks e) k")
  case None
  then show ?thesis by (simp add: Election_DelBlock_def)
next
  case (Some r)
  show ?thesis
  proof (cases "br_refs r = 0")
    case True
    with Some show ?thesis by (simp add: Election_DelBlock_def)
  next
    case False
    then have "unat (br_refs r - 1) = unat (br_refs r) - 1" by (simp add: unat_minus_one)
    with Some False show ?thesis
      by (auto simp: Election_DelBlock_def Let_def held_def update_conv' delete_conv' unat_eq_zero)
  qed
qed

lemma DelBlock_covers:
  assumes "covers hs e"
  shows "covers (k # hs) (Election_DelBlock k e)"
  unfolding covers_def
proof
  fix h
  have "refs_of e h \<le> held e h + count_list hs h" using assms by (simp add: covers_def)
  with DelBlock_held [of e h k]
  show "refs_of (Election_DelBlock k e) h \<le> held (Election_DelBlock k e) h + count_list (k # hs) h"
    by (auto split: if_splits)
qed

lemma DelBlock_blocks:
  assumes "blocks_ok E n e"
  shows "blocks_ok E n (Election_DelBlock k e)"
proof (cases "map_of (el_blocks e) k")
  case None
  with assms show ?thesis by (simp add: Election_DelBlock_def)
next
  case (Some r)
  have d: "distinct (map fst (el_blocks e))" using assms by (simp add: blocks_ok_def)
  have r: "unat (br_refs r) \<le> n" "Hash E (br_block r) = k" "Account (br_block r) = el_account e" "Height (br_block r) = el_height e"
    using Some assms by (auto simp: blocks_ok_def)
  have dec: "br_refs r \<noteq> 0 \<Longrightarrow> unat (br_refs r - 1) \<le> n" using r(1) by (simp add: unat_minus_one)
  have len: "length (AList.update k x (el_blocks e)) = length (el_blocks e)" for x using Some by (simp add: update_length_same)
  have del: "Suc (length (AList.delete k (el_blocks e))) = length (el_blocks e)"
    by (rule delete_length [OF d]) (simp add: Some)
  then have "AList.delete k (el_blocks e) \<noteq> []" if "Suc 0 < length (el_blocks e)"
    using that by (metis less_irrefl list.size(3))
  then show ?thesis
    using assms r dec len d Some
    by (simp add: blocks_ok_def Election_DelBlock_def Let_def update_conv' delete_conv' distinct_update distinct_delete
        delete_update_same) auto
qed


section \<open>Recording a vote\<close>

abbreviation with_vote :: "u256 \<Rightarrow> rep_vote_info \<Rightarrow> election \<Rightarrow> election" where
  "with_vote rep info e \<equiv> e\<lparr>el_votes := AList.update rep info (el_votes e)\<rparr>"

abbreviation with_conflict :: "u256 \<Rightarrow> vote \<Rightarrow> election \<Rightarrow> election" where
  "with_conflict rep v e \<equiv> e\<lparr>el_conflicts := AList.update rep v (el_conflicts e)\<rparr>"

lemma held_votes [simp]:
  "held (e\<lparr>el_votes := vs\<rparr>) h = held e h" "held (e\<lparr>el_conflicts := cs\<rparr>) h = held e h"
  "blocks_ok E n (e\<lparr>el_votes := vs\<rparr>) = blocks_ok E n e" "blocks_ok E n (e\<lparr>el_conflicts := cs\<rparr>) = blocks_ok E n e"
  by (simp_all add: held_def blocks_ok_def)

lemma covers_new_vote:
  assumes "covers hs e" "votes_ok e" "map_of (el_votes e) rep = None"
  shows "covers (vt_hash (ri_last_vote info) # hs) (with_vote rep info e)"
  unfolding covers_def
proof
  fix h
  have le: "refs_of e h \<le> held e h + count_list hs h" using assms(1) unfolding covers_def by blast
  have d: "distinct (map fst (el_votes e))" using assms(2) by (simp add: votes_ok_def)
  from le count_filter_update [OF d, of "\<lambda>i. vt_hash (ri_last_vote i)" h rep info] assms(3)
  show "refs_of (with_vote rep info e) h \<le> held (with_vote rep info e) h + count_list (vt_hash (ri_last_vote info) # hs) h"
    by (auto simp: refs_of_def split: if_splits)
qed

lemma covers_replaced_vote:
  assumes "covers (vt_hash (ri_last_vote old) # hs) e" "votes_ok e" "map_of (el_votes e) rep = Some old"
  shows "covers (vt_hash (ri_last_vote info) # hs) (with_vote rep info e)"
  unfolding covers_def
proof
  fix h
  have le: "refs_of e h \<le> held e h + count_list (vt_hash (ri_last_vote old) # hs) h" using assms(1) unfolding covers_def by blast
  have d: "distinct (map fst (el_votes e))" using assms(2) by (simp add: votes_ok_def)
  from le count_filter_update [OF d, of "\<lambda>i. vt_hash (ri_last_vote i)" h rep info] assms(3)
  show "refs_of (with_vote rep info e) h \<le> held (with_vote rep info e) h + count_list (vt_hash (ri_last_vote info) # hs) h"
    by (auto simp: refs_of_def split: if_splits)
qed

lemma covers_same_vote:
  assumes "covers hs e" "votes_ok e" "map_of (el_votes e) rep = Some old" "ri_last_vote info = ri_last_vote old"
  shows "covers hs (with_vote rep info e)"
  unfolding covers_def
proof
  fix h
  have le: "refs_of e h \<le> held e h + count_list hs h" using assms(1) unfolding covers_def by blast
  have d: "distinct (map fst (el_votes e))" using assms(2) by (simp add: votes_ok_def)
  from le count_filter_update [OF d, of "\<lambda>i. vt_hash (ri_last_vote i)" h rep info] assms(3,4)
  show "refs_of (with_vote rep info e) h \<le> held (with_vote rep info e) h + count_list hs h"
    by (auto simp: refs_of_def split: if_splits)
qed

lemma covers_new_conflict:
  assumes "covers hs e" "distinct (map fst (el_conflicts e))" "map_of (el_conflicts e) rep = None"
  shows "covers (vt_hash v # hs) (with_conflict rep v e)"
  unfolding covers_def
proof
  fix h
  have le: "refs_of e h \<le> held e h + count_list hs h" using assms(1) unfolding covers_def by blast
  from le count_filter_update [OF assms(2), of vt_hash h rep v] assms(3)
  show "refs_of (with_conflict rep v e) h \<le> held (with_conflict rep v e) h + count_list (vt_hash v # hs) h"
    by (auto simp: refs_of_def split: if_splits)
qed

lemma votes_ok_plain_vote:
  assumes "votes_ok e" "\<not> ri_conflict_found info" "\<And>i. map_of (el_votes e) rep = Some i \<Longrightarrow> \<not> ri_conflict_found i"
  shows "votes_ok (with_vote rep info e)"
  using assms by (auto simp: votes_ok_def update_conv' distinct_update)

lemma votes_ok_conflict_vote:
  assumes "votes_ok e" "ri_conflict_found info"
  shows "votes_ok (with_conflict rep v (with_vote rep info e))"
  using assms by (auto simp: votes_ok_def update_conv' distinct_update)

lemma no_conflict:
  assumes "votes_ok e" "\<And>i. map_of (el_votes e) rep = Some i \<Longrightarrow> \<not> ri_conflict_found i"
  shows "map_of (el_conflicts e) rep = None"
  using assms unfolding votes_ok_def by metis

section \<open>Dropping outdated votes\<close>

definition outdated :: "env \<Rightarrow> u64 \<Rightarrow> (u256 \<times> vote) list \<Rightarrow> u256 \<times> rep_vote_info \<Rightarrow> bool" where
  "outdated E time_diff conflicts v \<longleftrightarrow> \<not> WeightFactor E (snd v) time_diff > 0 \<and> map_of conflicts (fst v) = None"

lemma PurgeOutdatedVotes_collect_eq:
  "PurgeOutdatedVotes_collect E d is accounts e =
     (accounts @ map fst (filter (outdated E d (el_conflicts e)) is),
      fold Election_DelBlock (map (\<lambda>v. vt_hash (ri_last_vote (snd v))) (filter (outdated E d (el_conflicts e)) is)) e)"
  by (induction "is" arbitrary: accounts e) (auto simp: outdated_def)

lemma fold_DelBlock_fields [simp]:
  "el_votes (fold Election_DelBlock hs e) = el_votes e" "el_conflicts (fold Election_DelBlock hs e) = el_conflicts e"
  "el_account (fold Election_DelBlock hs e) = el_account e" "el_height (fold Election_DelBlock hs e) = el_height e"
  "el_fork_found (fold Election_DelBlock hs e) = el_fork_found e" "el_wakeup (fold Election_DelBlock hs e) = el_wakeup e"
  by (induction hs arbitrary: e) simp_all

lemma fold_delete_votes:
  "fold (\<lambda>account e. e\<lparr>el_votes := AList.delete account (el_votes e)\<rparr>) accounts e =
     e\<lparr>el_votes := filter (\<lambda>v. fst v \<notin> set accounts) (el_votes e)\<rparr>"
proof (induction accounts arbitrary: e)
  case (Cons a as)
  have "filter (\<lambda>v. fst v \<notin> set as) (AList.delete a vs) = filter (\<lambda>v. fst v \<noteq> a \<and> fst v \<notin> set as) vs" for vs :: "(u256 \<times> rep_vote_info) list"
    by (auto simp: AList.delete_eq intro: filter_cong)
  then show ?case by (simp add: Cons)
qed simp

text \<open>Purging releases the blocks of the outdated votes and keeps the other votes.\<close>

lemma PurgeOutdatedVotes_eq:
  assumes "distinct (map fst (el_votes e))"
  shows "PurgeOutdatedVotes E e =
    (fold Election_DelBlock (map (\<lambda>v. vt_hash (ri_last_vote (snd v)))
       (filter (outdated E (Election_TimeDiff e) (el_conflicts e)) (el_votes e))) e)
    \<lparr>el_votes := filter (\<lambda>v. \<not> outdated E (Election_TimeDiff e) (el_conflicts e) v) (el_votes e)\<rparr>"
proof -
  let ?o = "outdated E (Election_TimeDiff e) (el_conflicts e)"
  have "v = w" if "v \<in> set (el_votes e)" "w \<in> set (el_votes e)" "fst v = fst w" for v w
    using assms that by (metis distinct_map inj_onD)
  note unique = this
  have "fst v \<notin> set (map fst (filter ?o (el_votes e))) \<longleftrightarrow> \<not> ?o v" if v: "v \<in> set (el_votes e)" for v
  proof
    assume "\<not> ?o v"
    show "fst v \<notin> set (map fst (filter ?o (el_votes e)))"
    proof
      assume "fst v \<in> set (map fst (filter ?o (el_votes e)))"
      then obtain w where w: "fst v = fst w" "w \<in> set (filter ?o (el_votes e))" unfolding set_map by (rule imageE)
      then have "w \<in> set (el_votes e)" "?o w" by simp_all
      with unique [OF v this(1) w(1)] \<open>\<not> ?o v\<close> show False by simp
    qed
  qed (use v in auto)
  then have "filter (\<lambda>v. fst v \<notin> set (map fst (filter ?o (el_votes e)))) (el_votes e) = filter (\<lambda>v. \<not> ?o v) (el_votes e)"
    by (intro filter_cong refl)
  then show ?thesis by (simp add: PurgeOutdatedVotes_def PurgeOutdatedVotes_collect_eq fold_delete_votes)
qed

lemma fold_DelBlock_ok:
  "blocks_ok E n e \<Longrightarrow> covers hs e \<Longrightarrow>
     blocks_ok E n (fold Election_DelBlock ks e) \<and> covers (rev ks @ hs) (fold Election_DelBlock ks e)"
  by (induction ks arbitrary: e hs) (auto dest: DelBlock_blocks DelBlock_covers)

lemma length_filter_split:
  "length (filter P xs) = length (filter (\<lambda>x. P x \<and> Q x) xs) + length (filter (\<lambda>x. P x \<and> \<not> Q x) xs)"
  by (induction xs) auto

lemma count_list_map_filter: "count_list (map f xs) h = length (filter (\<lambda>x. f x = h) xs)"
  by (induction xs) auto

lemma PurgeOutdatedVotes_ok:
  assumes "election_ok E n e"
  shows "election_ok E n (PurgeOutdatedVotes E e)" "el_account (PurgeOutdatedVotes E e) = el_account e"
    "el_fork_found (PurgeOutdatedVotes E e) = el_fork_found e" "el_height (PurgeOutdatedVotes E e) = el_height e"
    "el_wakeup (PurgeOutdatedVotes E e) = el_wakeup e"
proof -
  let ?o = "outdated E (Election_TimeDiff e) (el_conflicts e)"
  let ?f = "\<lambda>v. vt_hash (ri_last_vote (snd v))"
  let ?ks = "map ?f (filter ?o (el_votes e))"
  let ?d = "fold Election_DelBlock ?ks e"
  have ok: "blocks_ok E n e" "covers [] e" "votes_ok e" using assms by (simp_all add: election_ok_def)
  have dist: "distinct (map fst (el_votes e))" using ok(3) by (simp add: votes_ok_def)
  note eq = PurgeOutdatedVotes_eq [OF dist, of E]
  have d: "blocks_ok E n ?d" "covers (rev ?ks) ?d" using fold_DelBlock_ok [OF ok(1,2), of ?ks] by simp_all
  have "refs_of (PurgeOutdatedVotes E e) h \<le> held ?d h" for h
  proof -
    have "refs_of e h \<le> held ?d h + count_list ?ks h" using d(2) by (simp add: covers_def refs_of_def)
    moreover have "refs_of e h = refs_of (PurgeOutdatedVotes E e) h + count_list ?ks h"
      using length_filter_split [of "\<lambda>v. ?f v = h" "el_votes e" ?o]
      by (simp add: eq refs_of_def count_list_map_filter conj_commute)
    ultimately show ?thesis by simp
  qed
  then have "covers [] (PurgeOutdatedVotes E e)" by (simp add: covers_def) (simp add: eq)
  moreover have "votes_ok (PurgeOutdatedVotes E e)"
  proof -
    have "map_of (filter (\<lambda>v. \<not> ?o v) (el_votes e)) rep = Some i \<longleftrightarrow> map_of (el_votes e) rep = Some i \<and> \<not> ?o (rep, i)" for rep i
      using dist by (auto simp: map_of_eq_Some_iff distinct_map_filter)
    then show ?thesis using ok(3) by (auto simp: eq votes_ok_def outdated_def distinct_map_filter)
  qed
  moreover have "blocks_ok E n (PurgeOutdatedVotes E e)" using d(1) by (simp add: eq)
  ultimately show "election_ok E n (PurgeOutdatedVotes E e)" by (simp add: election_ok_def)
  show "el_account (PurgeOutdatedVotes E e) = el_account e"
    "el_fork_found (PurgeOutdatedVotes E e) = el_fork_found e" "el_height (PurgeOutdatedVotes E e) = el_height e"
    "el_wakeup (PurgeOutdatedVotes E e) = el_wakeup e"
    by (simp_all add: eq)
qed

end
