(* ===== verification/ElectionRun.thy ===== *)
theory ElectionRun
  imports ElectionInv
begin

text \<open>
  The operations of \<open>Elections\<close> on the whole container. \<open>around\<close> states what holds of all elections but one and
  what is known of that one in the middle of an operation, so that an operation is proved by following its calls.
\<close>

section \<open>The multi-index container of elections\<close>

lemma mi_found: "mi_ok key hash xs \<Longrightarrow> mi_find hash k xs = Some x \<longleftrightarrow> x \<in> set xs \<and> hash x = k"
  by (simp add: mi_ok_def mi_find_Some)

lemma mi_find_map:
  assumes "mi_ok key hash xs" "mi_ok key' hash ys" "\<And>x. hash x = k \<Longrightarrow> x \<in> set ys \<longleftrightarrow> x \<in> set xs"
  shows "mi_find hash k ys = mi_find hash k xs"
proof -
  have "mi_find hash k ys = Some x \<longleftrightarrow> mi_find hash k xs = Some x" for x
    using assms(3) by (auto simp: mi_found [OF assms(1)] mi_found [OF assms(2)])
  then show ?thesis by (metis option.exhaust)
qed

lemma mi_erase_find:
  assumes "mi_ok key hash xs"
  shows "mi_find hash k (mi_erase hash h xs) = (if k = h then None else mi_find hash k xs)"
proof (cases "k = h")
  case True
  with mi_erase_ok(2) [OF assms, of h] show ?thesis by (auto simp: mi_find_None)
next
  case False
  have "mi_find hash k (mi_erase hash h xs) = mi_find hash k xs"
    by (rule mi_find_map [OF assms mi_erase_ok(1) [OF assms]]) (use False mi_erase_ok(2) [OF assms, of h] in auto)
  with False show ?thesis by simp
qed

lemma mi_place_find:
  assumes "mi_ok key hash xs" "hash x \<notin> hash ` set xs"
  shows "mi_ok key hash (mi_place key x xs)"
    "mi_find hash k (mi_place key x xs) = (if k = hash x then Some x else mi_find hash k xs)"
proof -
  show ok: "mi_ok key hash (mi_place key x xs)"
    using assms by (simp add: mi_ok_def sorted_mi_place distinct_mi_place)
  show "mi_find hash k (mi_place key x xs) = (if k = hash x then Some x else mi_find hash k xs)"
  proof (cases "k = hash x")
    case True
    then have "mi_find hash k (mi_place key x xs) = Some x" by (simp add: mi_found [OF ok])
    with True show ?thesis by simp
  next
    case False
    then have "mi_find hash k (mi_place key x xs) = mi_find hash k xs" by (intro mi_find_map [OF assms(1) ok]) auto
    with False show ?thesis by simp
  qed
qed

lemma mi_modify_ok:
  assumes "mi_ok key hash xs" "\<And>x. mi_find hash h xs = Some x \<Longrightarrow> hash (f x) = h"
  shows "mi_ok key hash (mi_modify key hash h f xs)"
    "mi_find hash k (mi_modify key hash h f xs) = (if k = h then map_option f (mi_find hash h xs) else mi_find hash k xs)"
proof -
  have "mi_ok key hash (mi_modify key hash h f xs) \<and>
    mi_find hash k (mi_modify key hash h f xs) = (if k = h then map_option f (mi_find hash h xs) else mi_find hash k xs)"
  proof (cases "mi_find hash h xs")
    case None
    with assms(1) show ?thesis by (simp add: mi_modify_def)
  next
    case (Some x)
    have x: "x \<in> set xs" "hash x = h" "hash (f x) = h" using mi_find_mem [OF Some] assms(2) [OF Some] by auto
    have only: "y = x" if "y \<in> set xs" "hash y = h" for y
      using that Some mi_found [OF assms(1), of h y] by simp
    let ?ys = "map (\<lambda>y. if hash y = h then f y else y) xs"
    show ?thesis
    proof (cases "sorted (map key ?ys)")
      case True
      have "map hash ?ys = map hash xs" using only x(3) by auto
      with True assms(1) have ok: "mi_ok key hash ?ys" by (simp add: mi_ok_def del: map_map)
      have set: "set ?ys = insert (f x) {y \<in> set xs. hash y \<noteq> h}" using only x by (force simp: image_iff)
      have "mi_find hash k ?ys = (if k = h then Some (f x) else mi_find hash k xs)"
      proof (cases "k = h")
        case True
        then have "mi_find hash k ?ys = Some (f x)" unfolding mi_found [OF ok] set using x(3) by simp
        with True show ?thesis by simp
      next
        case False
        then have "mi_find hash k ?ys = mi_find hash k xs" by (intro mi_find_map [OF assms(1) ok]) (use x(3) in \<open>auto simp: set simp del: set_map\<close>)
        with False show ?thesis by simp
      qed
      moreover have "mi_modify key hash h f xs = ?ys"
        using True Some by (simp only: mi_modify_def option.case Let_def if_True)
      ultimately show ?thesis using ok Some by (simp only: option.map)
    next
      case False
      have er: "mi_ok key hash (mi_erase hash h xs)" "hash (f x) \<notin> hash ` set (mi_erase hash h xs)"
        unfolding mi_erase_ok(2) [OF assms(1)] x(3) by (rule mi_erase_ok(1) [OF assms(1)]) blast
      have eq: "mi_modify key hash h f xs = mi_place key (f x) (mi_erase hash h xs)"
        using False Some by (simp only: mi_modify_def option.case Let_def if_False)
      show ?thesis unfolding eq mi_place_find(2) [OF er, of k] mi_erase_find [OF assms(1), of k h] x(3) Some
        using mi_place_find(1) [OF er] by simp
    qed
  qed
  then show "mi_ok key hash (mi_modify key hash h f xs)"
    "mi_find hash k (mi_modify key hash h f xs) = (if k = h then map_option f (mi_find hash h xs) else mi_find hash k xs)"
    by simp_all
qed

section \<open>The invariant\<close>

definition slots_except :: "u256 set \<Rightarrow> elections \<Rightarrow> bool" where
  "slots_except A es \<longleftrightarrow> sorted (es_actives es) \<and> distinct (es_actives es) \<and> length (es_actives es) \<le> es_concurrency es \<and>
     sorted (es_forks es) \<and> distinct (es_forks es) \<and> length (es_forks es) \<le> FORK_CONCURRENCY \<and>
     (\<forall>a \<in> set (es_actives es) - A. \<exists>e. el_find es a = Some e \<and> \<not> el_fork_found e) \<and>
     (\<forall>a \<in> set (es_forks es) - A. \<exists>e. el_find es a = Some e \<and> el_fork_found e)"

definition weights_ok :: "elections \<Rightarrow> bool" where
  "weights_ok es \<longleftrightarrow> mi_ok (\<lambda>a. - uint (aw_weight a)) aw_account (es_weights es) \<and> distinct (es_online_reps es) \<and>
     aw_account ` set (es_weights es) \<subseteq> set (es_online_reps es) \<and>
     es_weight_online es = sum_list (map aw_weight (es_weights es)) \<and>
     (\<forall>p as. map_of (es_weights_top es) p = Some as \<longrightarrow> set as \<subseteq> aw_account ` set (es_weights es))"

fun event_fine :: "election_event \<Rightarrow> bool" where
  "event_fine (Force_Confirmed b) = (b \<noteq> None)"
| "event_fine (Force_Appended b) = (b \<noteq> None)"
| "event_fine Election_Assertion = False"
| "event_fine Election_End_Read = False"
| "event_fine _ = True"

definition around :: "env \<Rightarrow> nat \<Rightarrow> u256 \<Rightarrow> (election \<Rightarrow> bool) \<Rightarrow> elections \<Rightarrow> bool" where
  "around E n a P es \<longleftrightarrow> mi_ok el_wakeup el_account (es_elections es) \<and> slots_except {} es \<and> weights_ok es \<and>
     list_all event_fine (es_events es) \<and>
     (\<forall>b e. el_find es b = Some e \<longrightarrow> (if b = a then P e else election_ok E n e))"

definition elections_ok :: "env \<Rightarrow> nat \<Rightarrow> elections \<Rightarrow> bool" where
  "elections_ok E n es \<longleftrightarrow> around E n 0 (election_ok E n) es"

lemma elections_ok_around: "elections_ok E n es = around E n a (election_ok E n) es"
  by (simp add: elections_ok_def around_def)

lemma election_ok_mono: "election_ok E n e \<Longrightarrow> n \<le> m \<Longrightarrow> election_ok E m e"
  unfolding election_ok_def blocks_ok_def by (metis le_trans)

lemma around_elections_ok:
  assumes "around E n a P es" "\<And>e. P e \<Longrightarrow> election_ok E m e" "n \<le> m"
  shows "elections_ok E m es"
proof -
  have "election_ok E m e" if "el_find es b = Some e" for b e
  proof (cases "b = a")
    case True
    with assms(1,2) that show ?thesis by (simp add: around_def)
  next
    case False
    with assms(1) that have "election_ok E n e" by (simp add: around_def)
    with assms(3) show ?thesis by (rule election_ok_mono [rotated])
  qed
  with assms(1) show ?thesis by (simp add: elections_ok_def around_def)
qed

lemma el_find_account: "el_find es a = Some e \<Longrightarrow> el_account e = a"
  unfolding el_find_def by (drule mi_find_mem) simp

lemma around_found: "around E n a P es \<Longrightarrow> el_find es a = Some e \<Longrightarrow> P e"
  by (simp add: around_def)

lemma around_weaken: "around E n a P es \<Longrightarrow> (\<And>e. el_find es a = Some e \<Longrightarrow> P e \<Longrightarrow> Q e) \<Longrightarrow> around E n a Q es"
  by (simp add: around_def)

lemma around_none: "around E n a P es \<Longrightarrow> el_find es a = None \<Longrightarrow> around E n a Q es"
  by (rule around_weaken) simp_all

lemma around_pin: "around E n a P es \<Longrightarrow> el_find es a = Some e \<Longrightarrow> around E n a (\<lambda>x. x = e) es"
  by (rule around_weaken) simp_all

lemma around_emit [simp]: "event_fine ev \<Longrightarrow> around E n a P (es_emit ev es) = around E n a P es"
  by (simp add: around_def es_emit_def slots_except_def weights_ok_def el_find_def)

lemma around_stats [simp]: "around E n a P (es\<lparr>es_stats := s\<rparr>) = around E n a P es"
  by (simp add: around_def slots_except_def weights_ok_def el_find_def)

lemma around_with:
  assumes "around E n a P es" "\<And>e. el_find es a = Some e \<Longrightarrow> P e \<Longrightarrow> around E n a Q (f e)"
  shows "around E n a Q (with_election a es f)"
proof (cases "el_find es a")
  case None
  with assms(1) around_none show ?thesis by (simp add: with_election_def)
next
  case (Some e)
  with assms(2) [OF Some around_found [OF assms(1) Some]] show ?thesis by (simp add: with_election_def)
qed


section \<open>Changing one election\<close>

lemma el_modify_fields [simp]:
  "es_actives (el_modify a f es) = es_actives es" "es_forks (el_modify a f es) = es_forks es"
  "es_concurrency (el_modify a f es) = es_concurrency es" "es_events (el_modify a f es) = es_events es"
  "weights_ok (el_modify a f es) = weights_ok es" "es_weights (el_modify a f es) = es_weights es"
  by (simp_all add: el_modify_def weights_ok_def)

lemma el_modify_find:
  assumes "mi_ok el_wakeup el_account (es_elections es)" "\<And>e. el_find es a = Some e \<Longrightarrow> el_account (f e) = a"
  shows "mi_ok el_wakeup el_account (es_elections (el_modify a f es))"
    "el_find (el_modify a f es) b = (if b = a then map_option f (el_find es a) else el_find es b)"
  using mi_modify_ok [of el_wakeup el_account "es_elections es" a f] assms by (simp_all add: el_modify_def el_find_def)

text \<open>A change that may find a fork leaves the slot of that account to \<open>TryConcurrency\<close>.\<close>

lemma modify_open:
  assumes "around E n a P es" "el_find es a = Some e" "el_account (f e) = a"
  shows "mi_ok el_wakeup el_account (es_elections (el_modify a f es))" "slots_except {a} (el_modify a f es)"
    "el_find (el_modify a f es) b = (if b = a then Some (f e) else el_find es b)"
proof -
  have ok: "mi_ok el_wakeup el_account (es_elections es)" "slots_except {} es" using assms(1) by (simp_all add: around_def)
  have f: "\<And>x. el_find es a = Some x \<Longrightarrow> el_account (f x) = a" using assms(2,3) by simp
  show "mi_ok el_wakeup el_account (es_elections (el_modify a f es))" by (rule el_modify_find(1) [OF ok(1) f])
  have find: "el_find (el_modify a f es) b = (if b = a then Some (f e) else el_find es b)" for b
    using el_modify_find(2) [OF ok(1) f] assms(2) by simp
  then show "el_find (el_modify a f es) b = (if b = a then Some (f e) else el_find es b)" .
  show "slots_except {a} (el_modify a f es)" using ok(2) by (simp add: slots_except_def find)
qed

lemma around_modify:
  assumes "around E n a P es" "\<And>e. el_find es a = Some e \<Longrightarrow> P e \<Longrightarrow>
     Q (f e) \<and> el_account (f e) = el_account e \<and> el_fork_found (f e) = el_fork_found e"
  shows "around E n a Q (el_modify a f es)"
proof (cases "el_find es a")
  case None
  have "el_modify a f es = es" using None by (simp add: el_modify_def mi_modify_def el_find_def)
  with around_none [OF assms(1) None] show ?thesis by simp
next
  case (Some e)
  have f: "Q (f e)" "el_account (f e) = a" "el_fork_found (f e) = el_fork_found e"
    using assms(2) [OF Some around_found [OF assms(1) Some]] el_find_account [OF Some] by simp_all
  note m = modify_open [OF assms(1) Some, where f = f, OF f(2)]
  have "slots_except {} es" using assms(1) by (simp add: around_def)
  then have "slots_except {} (el_modify a f es)" using f(3) Some by (fastforce simp: slots_except_def m(3))
  with assms(1) m f(1) show ?thesis by (simp add: around_def)
qed

lemma sorted_std_set_insert:
  assumes "sorted xs" "distinct xs"
  shows "sorted (std_set_insert x xs)" "distinct (std_set_insert x xs)" "set (std_set_insert x xs) = insert x (set xs)"
    "length (std_set_insert x xs) \<le> Suc (length xs)"
  using assms by (auto simp: std_set_insert_def sorted_insort distinct_insort set_insort_key)

lemma sorted_butlast: "sorted xs \<Longrightarrow> sorted (butlast xs)"
  by (cases xs rule: rev_cases) (simp_all add: sorted_append)

lemma TryConcurrency_shape:
  assumes "TryConcurrency e es = (w, es')"
  obtains as fs where "es' = es\<lparr>es_actives := as, es_forks := fs\<rparr>"
proof -
  have "es' = es\<lparr>es_actives := es_actives es', es_forks := es_forks es'\<rparr>"
    using assms by (simp add: TryConcurrency_def Let_def split: if_splits) auto
  with that show thesis by blast
qed

lemma TryConcurrency_keeps:
  assumes "TryConcurrency e es = (w, es')"
  shows "es_elections es' = es_elections es" "es_events es' = es_events es" "weights_ok es' = weights_ok es"
    "es_weights es' = es_weights es" "es_weight_total es' = es_weight_total es" "es_online_reps es' = es_online_reps es"
    "es_weight_online es' = es_weight_online es" "es_concurrency es' = es_concurrency es" "es_stats es' = es_stats es"
  by (rule TryConcurrency_shape [OF assms]; simp add: weights_ok_def)+

lemma TryConcurrency_slots:
  assumes "slots_except {a} es" "el_find es a = Some e" "TryConcurrency e es = (w, es')"
  shows "slots_except {} es'"
proof -
  have a: "el_account e = a" by (rule el_find_account [OF assms(2)])
  have find: "el_find es' b = el_find es b" for b using TryConcurrency_keeps(1) [OF assms(3)] by (simp add: el_find_def)
  note s = assms(1) [unfolded slots_except_def]
  have act: "sorted (remove1 a (es_actives es))" "distinct (remove1 a (es_actives es))"
    "length (remove1 a (es_actives es)) \<le> es_concurrency es" "set (remove1 a (es_actives es)) = set (es_actives es) - {a}"
    using s by (auto simp: sorted_remove1 length_remove1)
  have frk: "sorted (remove1 a (es_forks es))" "distinct (remove1 a (es_forks es))"
    "length (remove1 a (es_forks es)) \<le> FORK_CONCURRENCY" "set (remove1 a (es_forks es)) = set (es_forks es) - {a}"
    using s by (auto simp: sorted_remove1 length_remove1)
  show ?thesis
  proof (cases "el_fork_found e")
    case True
    define fs where "fs = (if a \<in> set (es_forks es) then es_forks es
      else let forks = std_set_insert a (es_forks es) in if length forks > FORK_CONCURRENCY then butlast forks else forks)"
    have es': "es_forks es' = fs" "es_actives es' = remove1 a (es_actives es)"
      using assms(3) True a by (simp_all add: TryConcurrency_def Let_def fs_def split: if_splits) auto
    note ins = sorted_std_set_insert [of "es_forks es" a]
    have "sorted fs" "distinct fs" "length fs \<le> FORK_CONCURRENCY" "set fs \<subseteq> insert a (set (es_forks es))"
      using s ins by (auto simp: fs_def Let_def sorted_butlast distinct_butlast dest: in_set_butlastD)
    with s act True assms(2) TryConcurrency_keeps(8) [OF assms(3)] show ?thesis
      by (auto simp: slots_except_def es' find)
  next
    case False
    define as where "as = (if a \<in> set (es_actives es) then es_actives es
      else if length (es_actives es) \<ge> es_concurrency es then es_actives es else std_set_insert a (es_actives es))"
    have es': "es_actives es' = as" "es_forks es' = remove1 a (es_forks es)"
      using assms(3) False a by (simp_all add: TryConcurrency_def Let_def as_def split: if_splits) auto
    note ins = sorted_std_set_insert [of "es_actives es" a]
    have "sorted as" "distinct as" "length as \<le> es_concurrency es" "set as \<subseteq> insert a (set (es_actives es))"
      using s ins by (auto simp: as_def)
    with s frk False assms(2) TryConcurrency_keeps(8) [OF assms(3)] show ?thesis
      by (auto simp: slots_except_def es' find)
  qed
qed

lemma slots_weaken: "slots_except {} es \<Longrightarrow> slots_except A es"
  by (auto simp: slots_except_def)

lemma TryConcurrency_around:
  assumes "around E n a P es" "el_find es a = Some e" "TryConcurrency e es = (w, es')"
  shows "around E n a P es'" "el_find es' b = el_find es b"
proof -
  note k = TryConcurrency_keeps [OF assms(3)]
  show f: "el_find es' b = el_find es b" for b by (simp add: el_find_def k)
  have "slots_except {a} es" using assms(1) slots_weaken by (simp add: around_def)
  from TryConcurrency_slots [OF this assms(2,3)] assms(1) show "around E n a P es'" by (simp add: around_def k f)
qed

lemma around_AddBlock:
  assumes "around E n a P es" "\<And>e. el_find es a = Some e \<Longrightarrow> P e \<Longrightarrow> Q (Election_AddBlock E N b e)"
  shows "around E n a Q (Elections_AddBlock E N a b es)"
proof (cases "el_find es a")
  case None
  with around_none [OF assms(1) None] show ?thesis by (simp add: Elections_AddBlock_def)
next
  case (Some e)
  let ?d = "Election_AddBlock E N b e" and ?m = "el_modify a (\<lambda>_. Election_AddBlock E N b e) es"
  have q: "Q ?d" by (rule assms(2) [OF Some around_found [OF assms(1) Some]])
  have acc: "el_account ?d = a" using el_find_account [OF Some] by simp
  note m = modify_open [OF assms(1) Some, of "\<lambda>_. ?d", OF acc]
  show ?thesis
  proof (cases "\<not> el_fork_found e \<and> el_fork_found ?d")
    case True
    obtain w es' where t: "TryConcurrency ?d ?m = (w, es')" by fastforce
    have "el_find ?m a = Some ?d" by (simp add: m(3))
    from TryConcurrency_slots [OF m(2) this t] have "slots_except {} es'" .
    moreover have "el_find es' c = el_find ?m c" for c using TryConcurrency_keeps(1) [OF t] by (simp add: el_find_def)
    ultimately have "around E n a Q es'"
      using assms(1) m(1) q TryConcurrency_keeps(1-3) [OF t] by (simp add: around_def m(3))
    with Some True t show ?thesis by (simp add: Elections_AddBlock_def Let_def)
  next
    case False
    then have same: "el_fork_found ?d = el_fork_found e" by (auto simp: AddBlock_fork)
    have "around E n a Q ?m"
      by (rule around_modify [OF assms(1)]) (use Some q acc same el_find_account [OF Some] in simp)
    with Some False show ?thesis by (auto simp: Elections_AddBlock_def Let_def)
  qed
qed

lemma around_DelBlock:
  assumes "around E n a P es" "\<And>e. el_find es a = Some e \<Longrightarrow> P e \<Longrightarrow> Q (Election_DelBlock h e)"
  shows "around E n a Q (Elections_DelBlock a h es)"
  unfolding Elections_DelBlock_def by (rule around_modify [OF assms(1)]) (use assms(2) in simp)

lemma around_erase:
  assumes "around E n a P es"
  shows "around E n a Q (Elections_Erase a es)"
proof -
  have ok: "mi_ok el_wakeup el_account (es_elections es)" "slots_except {} es" using assms by (simp_all add: around_def)
  have find: "el_find (Elections_Erase a es) b = (if b = a then None else el_find es b)" for b
    using mi_erase_find [OF ok(1)] by (simp add: el_find_def Elections_Erase_def)
  have "slots_except {} (Elections_Erase a es)"
    using ok(2) by (auto simp: slots_except_def find) (auto simp: Elections_Erase_def sorted_remove1 length_remove1)
  with assms mi_erase_ok(1) [OF ok(1), of a] find show ?thesis
    by (auto simp: around_def weights_ok_def Elections_Erase_def)
qed

end
