(* ===== verification/ElectionSteps.thy ===== *)
theory ElectionSteps
  imports ElectionRun
begin

text \<open>
  Every operation on elections keeps \<open>elections_ok\<close>: the tally finds the block of its first candidate, no assertion
  fails, no iterator is read past the end, and what is forced into the ledger is never a null block.
\<close>

section \<open>The tally finds its block\<close>

definition tally_fine :: "election \<Rightarrow> tally \<Rightarrow> bool" where
  "tally_fine e ta \<longleftrightarrow> \<not> st_error (ta_status ta) \<and> \<not> st_win (ta_status ta) \<and> \<not> st_confirm (ta_status ta) \<and>
     st_block (ta_status ta) = None \<and>
     fst ` set (ta_candidates ta) \<subseteq> (\<lambda>v. vt_hash (ri_last_vote (snd v))) ` set (el_votes e)"

lemma Tally_vote_fine:
  assumes "tally_fine e ta" "v \<in> set (el_votes e)"
  shows "tally_fine e (Tally_vote E es d v ta)"
proof -
  obtain rep info where v: "v = (rep, info)" by fastforce
  have hash: "vt_hash (ri_last_vote info) \<in> (\<lambda>v. vt_hash (ri_last_vote (snd v))) ` set (el_votes e)"
    using assms(2) v by force
  show ?thesis
  proof (cases "weight_of es rep")
    case None
    with assms(1) show ?thesis by (simp add: Tally_vote_def v tally_fine_def Let_def)
  next
    case (Some w)
    with assms(1) hash show ?thesis
      by (simp add: Tally_vote_def v tally_fine_def Let_def candidate_add_def dom_update)
  qed
qed

lemma Tally_collect_fine: "tally_fine e (Tally_collect E es e)"
proof -
  have "tally_fine e (fold (Tally_vote E es d) vs ta)" if "set vs \<subseteq> set (el_votes e)" "tally_fine e ta" for d vs ta
    using that by (induction vs arbitrary: ta) (auto intro: Tally_vote_fine)
  then show ?thesis by (simp add: Tally_collect_def) (simp add: tally_fine_def ElectionStatus_new_def)
qed

lemma Tally_sort_set [simp]: "set (Tally_sort cs) = set cs" "length (Tally_sort cs) = length cs"
  by (simp_all add: Tally_sort_def)

lemma covered_vote:
  assumes "covers [] e" "v \<in> set (el_votes e)"
  shows "map_of (el_blocks e) (vt_hash (ri_last_vote (snd v))) \<noteq> None"
proof -
  let ?h = "vt_hash (ri_last_vote (snd v))"
  have "v \<in> set (filter (\<lambda>v. vt_hash (ri_last_vote (snd v)) = ?h) (el_votes e))" using assms(2) by simp
  then have "0 < refs_of e ?h" unfolding refs_of_def by (metis add_gr_0 length_pos_if_in_set)
  with assms(1) have "0 < held e ?h" by (simp add: covers_def) (metis le_0_eq neq0_conv)
  then show ?thesis by (rule held_refs)
qed

lemma Tally_ok:
  assumes "election_ok E n e"
  shows "\<not> st_error (Tally E es e)"
    "st_win (Tally E es e) \<or> st_confirm (Tally E es e) \<Longrightarrow> \<exists>h r. map_of (el_blocks e) h = Some r \<and> st_block (Tally E es e) = Some (br_block r)"
proof -
  have cov: "covers [] e" using assms by (simp add: election_ok_def)
  note fine = Tally_collect_fine [of e E es, unfolded tally_fine_def]
  show "\<not> st_error (Tally E es e)"
    "st_win (Tally E es e) \<or> st_confirm (Tally E es e) \<Longrightarrow> \<exists>h r. map_of (el_blocks e) h = Some r \<and> st_block (Tally E es e) = Some (br_block r)"
  proof (atomize (full), cases "Tally_sort (ta_candidates (Tally_collect E es e))")
    case Nil
    with fine show "\<not> st_error (Tally E es e) \<and> (st_win (Tally E es e) \<or> st_confirm (Tally E es e) \<longrightarrow>
      (\<exists>h r. map_of (el_blocks e) h = Some r \<and> st_block (Tally E es e) = Some (br_block r)))"
      by (simp add: Tally_def Let_def)
  next
    case (Cons first others)
    then have "first \<in> set (ta_candidates (Tally_collect E es e))" by (metis Tally_sort_set(1) list.set_intros(1))
    then obtain v where "v \<in> set (el_votes e)" "fst first = vt_hash (ri_last_vote (snd v))" using fine by force
    with covered_vote [OF cov] obtain r where "map_of (el_blocks e) (fst first) = Some r" by fastforce
    with Cons fine show "\<not> st_error (Tally E es e) \<and> (st_win (Tally E es e) \<or> st_confirm (Tally E es e) \<longrightarrow>
      (\<exists>h r. map_of (el_blocks e) h = Some r \<and> st_block (Tally E es e) = Some (br_block r)))"
      by (auto simp: Tally_def Let_def)
  qed
qed

section \<open>Asking and telling\<close>

lemma around_top [simp]:
  "weights_ok es \<Longrightarrow> set as \<subseteq> aw_account ` set (es_weights es) \<Longrightarrow>
     around E n a P (es\<lparr>es_weights_top := AList.update p as (es_weights_top es)\<rparr>) = around E n a P es"
  by (auto simp: around_def weights_ok_def slots_except_def el_find_def update_conv')

lemma TopOnlineReps_collect_set: "set (TopOnlineReps_collect x w ws) \<subseteq> aw_account ` set ws"
  by (induction ws arbitrary: w) (auto simp: Let_def)

lemma TopOnlineReps_ok:
  assumes "around E n a P es" "TopOnlineReps p es = (reps, es')"
  shows "around E n a P es'" "set reps \<subseteq> aw_account ` set (es_weights es')"
proof -
  have w: "weights_ok es" using assms(1) by (simp add: around_def)
  define q where "q = (if (if p = 0 then 1 else p) > 100 then 100 else (if p = 0 then 1 else p))"
  define as where "as = TopOnlineReps_collect (ucast (es_weight_total es) * ucast q) 0 (es_weights es)"
  have as: "set as \<subseteq> aw_account ` set (es_weights es)" unfolding as_def by (rule TopOnlineReps_collect_set)
  have eq: "TopOnlineReps p es = (case map_of (es_weights_top es) q of Some accounts \<Rightarrow> (accounts, es)
      | None \<Rightarrow> (as, es\<lparr>es_weights_top := AList.update q as (es_weights_top es)\<rparr>))"
    unfolding TopOnlineReps_def Let_def q_def as_def ..
  show "around E n a P es'" "set reps \<subseteq> aw_account ` set (es_weights es')"
    using assms w as by (auto simp: eq weights_ok_def split: option.splits)
qed

lemma weight_of_known: "rep \<in> aw_account ` set (es_weights es) \<Longrightarrow> weight_of es rep \<noteq> None"
  by (auto simp: weight_of_def mi_find_None)

lemma RequestConfirms_targets_ok:
  "around E n a P es \<Longrightarrow> set reps \<subseteq> aw_account ` set (es_weights es) \<Longrightarrow>
     around E n a P (fold (RequestConfirms_target k) reps es)"
proof (induction reps arbitrary: es)
  case (Cons rep reps)
  have "weight_of es rep \<noteq> None" using Cons.prems(2) by (intro weight_of_known) simp
  then have "around E n a P (RequestConfirms_target k rep es)" "es_weights (RequestConfirms_target k rep es) = es_weights es"
    using Cons.prems(1) by (auto simp: RequestConfirms_target_def)
  with Cons show ?case by simp
qed simp

lemma RequestConfirms_ok:
  assumes "around E n a P es" "el_blocks e \<noteq> []"
  shows "around E n a P (RequestConfirms E e es)"
proof -
  obtain h r bs where b: "el_blocks e = (h, r) # bs" using assms(2) by (metis neq_Nil_conv surj_pair)
  obtain reps es' where t: "TopOnlineReps 95 es = (reps, es')" by fastforce
  note top = TopOnlineReps_ok [OF assms(1) t]
  show ?thesis
  proof (cases "3 \<le> el_rounds e")
    case True
    with assms(1) show ?thesis by (simp add: RequestConfirms_def b Let_def)
  next
    case False
    have "set (filter (\<lambda>rep. rep \<notin> set (RequestConfirms_filter E e)) reps) \<subseteq> aw_account ` set (es_weights es')"
      using top(2) by auto
    from RequestConfirms_targets_ok [OF top(1) this] False show ?thesis
      by (simp add: RequestConfirms_def b t Let_def)
  qed
qed

lemma BroadcastConfirms_ok:
  assumes "around E n a P es"
  shows "around E n a P (BroadcastConfirms e es)"
proof -
  have "around E n a P (BroadcastConfirms_vote b v es)" if "around E n a P es" for b v es
    using that by (auto simp: BroadcastConfirms_vote_def Let_def split: prod.split option.split)
  then have "around E n a P (fold (BroadcastConfirms_vote b) vs es)" if "around E n a P es" for b vs es
    using that by (induction vs arbitrary: es) simp_all
  with assms show ?thesis by (simp add: BroadcastConfirms_def)
qed


section \<open>One turn\<close>

lemma election_ok_fields [simp]:
  "election_ok E n (e\<lparr>el_broadcast := x1\<rparr>) = election_ok E n e" "election_ok E n (e\<lparr>el_rounds := x2\<rparr>) = election_ok E n e"
  "election_ok E n (e\<lparr>el_rounds_fork := x2\<rparr>) = election_ok E n e" "election_ok E n (e\<lparr>el_wins := x2\<rparr>) = election_ok E n e"
  "election_ok E n (e\<lparr>el_confirms := x2\<rparr>) = election_ok E n e" "election_ok E n (e\<lparr>el_winner := x3\<rparr>) = election_ok E n e"
  "election_ok E n (e\<lparr>el_wakeup := x4\<rparr>) = election_ok E n e"
  by (simp_all add: election_ok_def blocks_ok_def covers_def refs_of_def held_def votes_ok_def)

lemma count_round_ok [simp]:
  "election_ok E n (count_round F status e) = election_ok E n e" "el_account (count_round F status e) = el_account e"
  "el_fork_found (count_round F status e) = el_fork_found e" "el_blocks (count_round F status e) = el_blocks e"
  by (simp_all add: count_round_def Let_def)

lemma ok_blocks: "election_ok E n e \<Longrightarrow> el_blocks e \<noteq> []"
  by (simp add: election_ok_def blocks_ok_def)

lemma ProcessElection_restart_ok:
  "around E n a (election_ok E n) es \<Longrightarrow> around E n a (election_ok E n) (ProcessElection_restart N a es)"
  unfolding ProcessElection_restart_def by (rule around_modify) simp_all

lemma ProcessElection_plain_ok:
  assumes "around E n a (election_ok E n) es" "st_confirm status \<Longrightarrow> st_block status \<noteq> None"
  shows "around E n a (election_ok E n) (ProcessElection_plain E N a e status es)"
proof (cases "st_confirm status")
  case True
  with assms show ?thesis by (simp add: ProcessElection_plain_def Let_def around_erase [where P = "election_ok E n"])
next
  case False
  define es1 where "es1 = (if el_broadcast e then
                     (let es = el_modify a (\<lambda>e. e\<lparr>el_broadcast := False\<rparr>) es;
                          es = with_election a es (\<lambda>e. RequestConfirms E e es)
                      in el_modify a (\<lambda>e. e\<lparr>el_wakeup := sr_now N + seconds 1\<rparr>) es)
                   else
                     (let es = el_modify a (\<lambda>e. e\<lparr>el_broadcast := True\<rparr>) es;
                          es = el_modify a (\<lambda>e. e\<lparr>el_rounds := el_rounds e + 1\<rparr>) es
                      in el_modify a (\<lambda>e. e\<lparr>el_wakeup := NextWakeup N e\<rparr>) es))"
  have "around E n a (election_ok E n) es1"
    unfolding es1_def Let_def
    by (auto intro!: around_modify [where P = "election_ok E n"] around_with [where P = "election_ok E n"]
        RequestConfirms_ok assms(1) dest: ok_blocks)
  then have "around E n a (election_ok E n) (with_election a es1 (\<lambda>e.
      if el_rounds e \<ge> CUTOFF_ROUNDS then es_emit (Election_Cutoff a) (Elections_Erase a es1) else es1))"
    by (auto intro!: around_with around_erase)
  with False show ?thesis by (simp add: ProcessElection_plain_def es1_def [symmetric] Let_def)
qed

text \<open>A count of confirms or wins that reaches the threshold was raised by the tally of this very round.\<close>

lemma count_round_confirms:
  assumes "el_confirms (count_round E status e) \<ge> FORK_ELECTION_ROUNDS_THRESHOLD \<or>
    el_wins (count_round E status e) = FORK_ELECTION_ROUNDS_THRESHOLD"
  shows "st_win status"
  using assms by (auto simp: count_round_def Let_def FORK_ELECTION_ROUNDS_THRESHOLD_def split: if_splits)

lemma ProcessElection_fork_ok:
  assumes "around E n a (election_ok E n) es" "st_win status \<Longrightarrow> st_block status \<noteq> None"
  shows "around E n a (election_ok E n) (ProcessElection_fork E N a e status es)"
proof (cases "el_broadcast e")
  case True
  define es1 where "es1 = with_election a (el_modify a (\<lambda>e. e\<lparr>el_broadcast := False\<rparr>) es)
    (\<lambda>e. BroadcastConfirms e (el_modify a (\<lambda>e. e\<lparr>el_broadcast := False\<rparr>) es))"
  have b: "around E n a (election_ok E n) (el_modify a (\<lambda>e. e\<lparr>el_broadcast := False\<rparr>) es)"
    by (rule around_modify [OF assms(1)]) simp
  have "around E n a (election_ok E n) es1" unfolding es1_def
    by (rule around_with [OF b BroadcastConfirms_ok [OF b]])
  then have "around E n a (election_ok E n) (el_modify a (\<lambda>e. e\<lparr>el_wakeup := NextWakeup N e\<rparr>)
      (if sr_self_weight N \<ge> QUALIFIED_REP_WEIGHT then es_emit (Own_Confirm_Sent a (el_height e)) es1 else es1))"
    by (intro around_modify) (auto split: if_splits)
  with True show ?thesis unfolding ProcessElection_fork_def Let_def es1_def by simp
next
  case False
  define es1 where "es1 = el_modify a (count_round E status) (el_modify a (\<lambda>e. e\<lparr>el_broadcast := True\<rparr>) es)"
  have b: "around E n a (election_ok E n) (el_modify a (\<lambda>e. e\<lparr>el_broadcast := True\<rparr>) es)"
    by (rule around_modify [OF assms(1)]) simp
  have es1: "around E n a (\<lambda>e. election_ok E n e \<and> (el_confirms e \<ge> FORK_ELECTION_ROUNDS_THRESHOLD \<or>
      el_wins e = FORK_ELECTION_ROUNDS_THRESHOLD \<longrightarrow> st_win status)) es1"
    unfolding es1_def by (rule around_modify [OF b]) (use count_round_confirms in auto)
  note weak = around_weaken [OF es1, of "election_ok E n"]
  have "around E n a (election_ok E n)
    (if el_confirms e \<ge> FORK_ELECTION_ROUNDS_THRESHOLD then
        (let es = es_emit (Force_Confirmed (st_block status)) es1;
             es = es\<lparr>es_stats := IncRoundsFork (el_rounds e) (es_stats es)\<rparr>
         in Elections_Erase a es)
      else
        (let es = (if el_wins e = FORK_ELECTION_ROUNDS_THRESHOLD
                   then es_emit (Force_Appended (st_block status)) es1 else es1);
             es = (if el_rounds_fork e > FORK_ELECTION_ROUNDS_THRESHOLD then RequestConfirms E e es else es)
         in el_modify a (\<lambda>e. e\<lparr>el_wakeup := NextWakeup N e\<rparr>) es))"
    if e: "election_ok E n e \<and> (el_confirms e \<ge> FORK_ELECTION_ROUNDS_THRESHOLD \<or>
      el_wins e = FORK_ELECTION_ROUNDS_THRESHOLD \<longrightarrow> st_win status)" for e
  proof (cases "el_confirms e \<ge> FORK_ELECTION_ROUNDS_THRESHOLD")
    case True
    with e assms(2) have "event_fine (Force_Confirmed (st_block status))" by simp
    with True es1 show ?thesis by (simp add: Let_def around_erase [where P = "\<lambda>e. election_ok E n e \<and> (el_confirms e \<ge> FORK_ELECTION_ROUNDS_THRESHOLD \<or>
      el_wins e = FORK_ELECTION_ROUNDS_THRESHOLD \<longrightarrow> st_win status)"])
  next
    case False
    define es2 where "es2 = (if el_wins e = FORK_ELECTION_ROUNDS_THRESHOLD
                   then es_emit (Force_Appended (st_block status)) es1 else es1)"
    have "around E n a (election_ok E n) es2" using weak e assms(2) by (auto simp: es2_def)
    then have "around E n a (election_ok E n) (if el_rounds_fork e > FORK_ELECTION_ROUNDS_THRESHOLD then RequestConfirms E e es2 else es2)"
      using RequestConfirms_ok ok_blocks e by auto
    then have "around E n a (election_ok E n) (el_modify a (\<lambda>e. e\<lparr>el_wakeup := NextWakeup N e\<rparr>)
        (if el_rounds_fork e > FORK_ELECTION_ROUNDS_THRESHOLD then RequestConfirms E e es2 else es2))"
      by (rule around_modify) simp
    with False show ?thesis unfolding Let_def es2_def by simp
  qed
  then have "around E n a (election_ok E n) (with_election a es1 (\<lambda>e.
      if el_confirms e \<ge> FORK_ELECTION_ROUNDS_THRESHOLD then
        (let es = es_emit (Force_Confirmed (st_block status)) es1;
             es = es\<lparr>es_stats := IncRoundsFork (el_rounds e) (es_stats es)\<rparr>
         in Elections_Erase a es)
      else
        (let es = (if el_wins e = FORK_ELECTION_ROUNDS_THRESHOLD
                   then es_emit (Force_Appended (st_block status)) es1 else es1);
             es = (if el_rounds_fork e > FORK_ELECTION_ROUNDS_THRESHOLD then RequestConfirms E e es else es)
         in el_modify a (\<lambda>e. e\<lparr>el_wakeup := NextWakeup N e\<rparr>) es)))"
    by (rule around_with [OF es1])
  with False show ?thesis unfolding ProcessElection_fork_def Let_def es1_def by simp
qed


lemma ProcessElection_ok:
  assumes "elections_ok E n es"
  shows "elections_ok E n (ProcessElection E N a es)"
proof -
  define es1 where "es1 = el_modify a (PurgeOutdatedVotes E) es"
  have "around E n a (election_ok E n) es" using assms elections_ok_around by blast
  then have es1: "around E n a (election_ok E n) es1"
    unfolding es1_def by (rule around_modify) (simp add: PurgeOutdatedVotes_ok)
  have "around E n a (election_ok E n) (with_election a es1 (\<lambda>e.
        case TryConcurrency e es1 of (wait, es) \<Rightarrow>
          if wait then ProcessElection_restart N a es
          else (let status = Tally E es e in
            if st_error status then Elections_Erase a (es_emit Election_Assertion es)
            else if \<not> el_fork_found e then ProcessElection_plain E N a e status es
            else ProcessElection_fork E N a e status es)))"
  proof (rule around_with [OF es1])
    fix e assume e: "el_find es1 a = Some e" "election_ok E n e"
    obtain w es2 where t: "TryConcurrency e es1 = (w, es2)" by fastforce
    note es2 = TryConcurrency_around(1) [OF es1 e(1) t]
    note tally = Tally_ok [OF e(2), of es2]
    have block: "st_win (Tally E es2 e) \<or> st_confirm (Tally E es2 e) \<Longrightarrow> st_block (Tally E es2 e) \<noteq> None"
      using tally(2) by auto
    show "around E n a (election_ok E n) (case TryConcurrency e es1 of (wait, es) \<Rightarrow>
          if wait then ProcessElection_restart N a es
          else (let status = Tally E es e in
            if st_error status then Elections_Erase a (es_emit Election_Assertion es)
            else if \<not> el_fork_found e then ProcessElection_plain E N a e status es
            else ProcessElection_fork E N a e status es))"
      using es2 tally(1) block ProcessElection_restart_ok [OF es2] ProcessElection_plain_ok [OF es2]
        ProcessElection_fork_ok [OF es2]
      by (simp add: t Let_def)
  qed
  then show ?thesis
    using elections_ok_around [of E n _ a] by (simp add: ProcessElection_def es1_def [symmetric])
qed

section \<open>The weights\<close>

lemma UpdateWeightInfo_weights:
  assumes "distinct is" "\<And>i. i \<in> set is \<Longrightarrow> i \<notin> aw_account ` set ws"
    "mi_ok (\<lambda>a. - uint (aw_weight a)) aw_account ws"
  shows "let ws' = fold (\<lambda>i ws. snd (mi_insert (\<lambda>a. - uint (aw_weight a)) aw_account
             \<lparr>aw_account = i, aw_weight = f i\<rparr> ws)) is ws in
    mi_ok (\<lambda>a. - uint (aw_weight a)) aw_account ws' \<and> aw_account ` set ws' = set is \<union> aw_account ` set ws \<and>
    sum_list (map aw_weight ws') = sum_list (map f is) + sum_list (map aw_weight ws)"
  using assms
proof (induction "is" arbitrary: ws)
  case (Cons i "is")
  let ?x = "\<lparr>aw_account = i, aw_weight = f i\<rparr>"
  let ?ws = "mi_place (\<lambda>a. - uint (aw_weight a)) ?x ws"
  have new: "i \<notin> aw_account ` set ws" using Cons.prems(2) by simp
  then have "mi_find aw_account i ws = None" by (simp add: mi_find_None)
  then have ins: "snd (mi_insert (\<lambda>a. - uint (aw_weight a)) aw_account ?x ws) = ?ws"
    by (simp add: mi_insert_def)
  have ok: "mi_ok (\<lambda>a. - uint (aw_weight a)) aw_account ?ws" using mi_place_find(1) [OF Cons.prems(3)] new by simp
  have sum: "sum_list (map aw_weight (mi_place k x xs)) = aw_weight x + sum_list (map aw_weight xs)" for k :: "account_weight \<Rightarrow> int" and x xs
    by (induction xs) (simp_all add: ac_simps)
  have "let ws' = fold (\<lambda>i ws. snd (mi_insert (\<lambda>a. - uint (aw_weight a)) aw_account
             \<lparr>aw_account = i, aw_weight = f i\<rparr> ws)) is ?ws in
    mi_ok (\<lambda>a. - uint (aw_weight a)) aw_account ws' \<and> aw_account ` set ws' = set is \<union> aw_account ` set ?ws \<and>
    sum_list (map aw_weight ws') = sum_list (map f is) + sum_list (map aw_weight ?ws)"
    using Cons.prems by (intro Cons.IH ok) auto
  then show ?case by (simp add: Let_def ins sum ac_simps)
qed simp

lemma UpdateWeightInfo_ok:
  assumes "around E n a P es" "distinct (sr_peers N)"
  shows "around E n a P (UpdateWeightInfo E N es)" "es_elections (UpdateWeightInfo E N es) = es_elections es"
proof -
  show elections: "es_elections (UpdateWeightInfo E N es) = es_elections es"
    by (simp add: UpdateWeightInfo_def Let_def)
  show "around E n a P (UpdateWeightInfo E N es)"
  proof (cases "CurrentTimestamp E < es_last_update es + 10")
    case True
    with assms(1) show ?thesis by (simp add: UpdateWeightInfo_def)
  next
    case False
    let ?online = "filter (\<lambda>i. rep_weights (sr_memory N) i \<noteq> None) (sr_peers N)"
    let ?weight = "\<lambda>i. case rep_weights (sr_memory N) i of None \<Rightarrow> 0 | Some w \<Rightarrow> w"
    have sum: "fold (\<lambda>i sum. sum + ?weight i) is s = sum_list (map ?weight is) + s" for "is" and s :: u128
      by (induction "is" arbitrary: s) (simp_all add: ac_simps)
    have "mi_ok (\<lambda>a. - uint (aw_weight a)) aw_account []" by (simp add: mi_ok_def)
    from UpdateWeightInfo_weights [OF _ _ this, of ?online ?weight] assms(2)
    have "weights_ok (UpdateWeightInfo E N es)" using False
      by (simp add: UpdateWeightInfo_def weights_ok_def Let_def sum)
    moreover have "slots_except {} (UpdateWeightInfo E N es) = slots_except {} es"
      by (simp add: slots_except_def el_find_def elections) (simp add: UpdateWeightInfo_def Let_def)
    moreover have "es_events (UpdateWeightInfo E N es) = es_events es" by (simp add: UpdateWeightInfo_def Let_def)
    ultimately show ?thesis using assms(1) by (simp add: around_def el_find_def elections)
  qed
qed

lemma Elections_Run_step_ok:
  assumes "elections_ok E n es" "distinct (sr_peers N)"
  shows "elections_ok E n (Elections_Run_step E N es)"
proof -
  have "elections_ok E n (UpdateWeightInfo E N es)"
    using assms UpdateWeightInfo_ok(1) by (simp add: elections_ok_def)
  with assms(1) ProcessElection_ok show ?thesis
    by (simp add: Elections_Run_step_def Let_def split: list.split)
qed


section \<open>Blocks and votes\<close>

text \<open>An election for blocks of one account and height, from the first block on.\<close>

lemma fold_AddBlock_ok:
  assumes "\<forall>b \<in> set bs. Account b = el_account e \<and> Height b = el_height e" "n + length bs < 2 ^ 32" "election_ok E n e"
  shows "election_ok E (n + length bs) (fold (Election_AddBlock E N) bs e) \<and>
    el_account (fold (Election_AddBlock E N) bs e) = el_account e"
  using assms
proof (induction bs arbitrary: e n)
  case (Cons b bs)
  have e: "blocks_ok E n e" "covers [] e" "votes_ok e" using Cons.prems(3) by (simp_all add: election_ok_def)
  have "covers (Hash E b # []) e" using e(2) by (fastforce simp: covers_def intro: le_SucI)
  then have "election_ok E (Suc n) (Election_AddBlock E N b e)"
    using AddBlock_blocks [of E n e b] AddBlock_covers [of E n e b "[]"] e Cons.prems(1,2) by (simp add: election_ok_def)
  with Cons.IH [of "Election_AddBlock E N b e" "Suc n"] Cons.prems show ?case by simp
qed simp

lemma first_AddBlock_ok:
  assumes "Account b = a" "Height b = h" "1 \<le> n" "n < 2 ^ 32"
  shows "election_ok E n (Election_AddBlock E N b ((Election_new N)\<lparr>el_account := a, el_height := h\<rparr>))"
proof -
  let ?e = "(Election_new N)\<lparr>el_account := a, el_height := h\<rparr>"
  have "el_blocks ?e = [] \<and> \<not> el_fork_found ?e" "votes_ok ?e" by (simp_all add: Election_new_def votes_ok_def)
  moreover have "blocks_ok E 1 (Election_AddBlock E N b ?e)"
    using AddBlock_blocks [of E 0 ?e b N] calculation assms(1,2) by simp
  moreover have "covers [] (Election_AddBlock E N b ?e)" by (simp add: covers_def) (simp add: refs_of_def Election_new_def)
  ultimately have "election_ok E 1 (Election_AddBlock E N b ?e)" by (simp add: election_ok_def)
  then show ?thesis using assms(3) by (rule election_ok_mono)
qed

lemma start_election_ok:
  assumes "around E n a P es" "el_find es a = None" "election_ok E m e" "el_account e = a"
    "es1 = es\<lparr>es_elections := snd (mi_insert el_wakeup el_account e (es_elections es))\<rparr>"
  shows "around E n a (election_ok E m) (if el_fork_found e then snd (TryConcurrency e es1) else es1)"
proof -
  have ok: "mi_ok el_wakeup el_account (es_elections es)" "slots_except {} es" using assms(1) by (simp_all add: around_def)
  have new: "el_account e \<notin> el_account ` set (es_elections es)" using assms(2,4) by (simp add: el_find_def mi_find_None)
  have ins: "es_elections es1 = mi_place el_wakeup e (es_elections es)"
    using assms(2,4) by (simp add: assms(5) mi_insert_def el_find_def)
  note place = mi_place_find [OF ok(1) new, folded ins]
  have find: "el_find es1 b = (if b = a then Some e else el_find es b)" for b
    using place(2) assms(4) by (simp add: el_find_def)
  have "es_actives es1 = es_actives es" "es_forks es1 = es_forks es" "es_concurrency es1 = es_concurrency es"
    by (simp_all add: assms(5))
  then have "slots_except {} es1"
    using ok(2) assms(2) by (auto simp: slots_except_def find)
  with assms(1,3,5) place(1) find have es1: "around E n a (election_ok E m) es1"
    by (simp add: around_def weights_ok_def)
  obtain w es2 where t: "TryConcurrency e es1 = (w, es2)" by fastforce
  have "el_find es1 a = Some e" by (simp add: find)
  from TryConcurrency_around(1) [OF es1 this t] es1 show ?thesis by (simp add: t)
qed

lemma Elections_Add_ok:
  assumes "elections_ok E n es" "n + length blocks < 2 ^ 32"
  shows "elections_ok E (n + length blocks) (Elections_Add E N blocks es)"
proof (cases blocks)
  case Nil
  with assms show ?thesis by (simp add: Elections_Add_def)
next
  case (Cons b bs)
  let ?a = "Account b" and ?h = "Height b"
  have same: "elections_ok E (n + length blocks) es"
    using around_elections_ok [OF assms(1) [unfolded elections_ok_def]] election_ok_mono by (metis le_add1)
  show ?thesis
  proof (cases "\<exists>i \<in> set blocks. Account i \<noteq> ?a \<or> Height i \<noteq> ?h")
    case True
    with Cons same show ?thesis by (simp add: Elections_Add_def Let_def)
  next
    case False
    define e where "e = fold (Election_AddBlock E N) blocks ((Election_new N)\<lparr>el_account := ?a, el_height := ?h\<rparr>)"
    define start where "start es = (let es = es\<lparr>es_elections := snd (mi_insert el_wakeup el_account e (es_elections es))\<rparr>
      in if el_fork_found e then snd (TryConcurrency e es) else es)" for es
    have blocks: "Account i = ?a" "Height i = ?h" if "i \<in> set bs" for i using False Cons that by auto
    let ?e1 = "Election_AddBlock E N b ((Election_new N)\<lparr>el_account := ?a, el_height := ?h\<rparr>)"
    have "election_ok E (n + 1) ?e1" by (rule first_AddBlock_ok) (use assms(2) Cons in simp_all)
    from fold_AddBlock_ok [OF _ _ this, of bs N] blocks assms(2) Cons
    have e: "election_ok E (n + length blocks) e" "el_account e = ?a" by (simp_all add: e_def)
    have start: "elections_ok E (n + length blocks) (start es')" if "around E n ?a P es'" "el_find es' ?a = None" for P es'
      using start_election_ok [OF that e refl] around_elections_ok [of E n ?a "election_ok E (n + length blocks)"]
      by (simp add: start_def Let_def)
    have es: "around E n ?a (election_ok E n) es" using assms(1) elections_ok_around by blast
    have eq: "Elections_Add E N blocks es = (case el_find es ?a of None \<Rightarrow> start es
      | Some e \<Rightarrow> if el_height e < ?h then es
          else if el_height e > ?h then start (Elections_Erase ?a es)
          else fold (Elections_AddBlock E N ?a) blocks es)"
      using False by (simp only: Elections_Add_def Cons list.case Let_def if_False e_def start_def)
    show ?thesis
    proof (cases "el_find es ?a")
      case None
      with start [OF es] show ?thesis by (simp add: eq)
    next
      case (Some old)
      have gone: "el_find (Elections_Erase ?a es) ?a = None"
        using es mi_erase_find [of el_wakeup el_account "es_elections es" ?a ?a]
        by (simp add: around_def el_find_def Elections_Erase_def)
      have acc: "el_account old = ?a" by (rule el_find_account [OF Some])
      have add: "around E n ?a (\<lambda>x. x = fold (Election_AddBlock E N) cs o') (fold (Elections_AddBlock E N ?a) cs es')"
        if "around E n ?a (\<lambda>x. x = o') es'" for cs o' es'
        using that
      proof (induction cs arbitrary: o' es')
        case (Cons c cs)
        have "around E n ?a (\<lambda>x. x = Election_AddBlock E N c o') (Elections_AddBlock E N ?a c es')"
          by (rule around_AddBlock [OF Cons.prems]) simp
        from Cons.IH [OF this] show ?case by simp
      qed simp
      have "election_ok E (n + length blocks) (fold (Election_AddBlock E N) blocks old)" if "el_height old = ?h"
        using fold_AddBlock_ok [of blocks old n E N] around_found [OF es Some] acc that False assms(2) by auto
      then have "elections_ok E (n + length blocks) (fold (Elections_AddBlock E N ?a) blocks es)" if "el_height old = ?h"
        using around_elections_ok [OF add [OF around_pin [OF es Some], of blocks]] that by auto
      moreover have "elections_ok E (n + length blocks) (start (Elections_Erase ?a es))"
        by (rule start [OF around_erase [OF es] gone])
      ultimately show ?thesis using same Some by (simp add: eq)
    qed
  qed
qed


lemma around_step:
  assumes "around E n a (\<lambda>x. x = e) es" "el_account (f e) = el_account e" "el_fork_found (f e) = el_fork_found e"
  shows "around E n a (\<lambda>x. x = f e) (el_modify a f es)"
  by (rule around_modify [OF assms(1)]) (use assms(2,3) in simp)

lemma around_AddBlock_step:
  assumes "around E n a (\<lambda>x. x = e) es"
  shows "around E n a (\<lambda>x. x = Election_AddBlock E N b e) (Elections_AddBlock E N a b es)"
  by (rule around_AddBlock [OF assms]) simp

text \<open>The four ways in which votes change, on the election itself.\<close>

lemma new_vote_ok:
  assumes "election_ok E n e" "Suc n < 2 ^ 32" "Account b = el_account e" "Height b = el_height e"
    "map_of (el_votes e) rep = None" "\<not> ri_conflict_found info" "vt_hash (ri_last_vote info) = Hash E b"
  shows "election_ok E (Suc n) (Election_AddBlock E N b (with_vote rep info e))"
proof -
  have e: "blocks_ok E n e" "covers [] e" "votes_ok e" using assms(1) by (simp_all add: election_ok_def)
  have "votes_ok (with_vote rep info e)" by (rule votes_ok_plain_vote [OF e(3) assms(6)]) (simp add: assms(5))
  moreover have "covers [Hash E b] (with_vote rep info e)" using covers_new_vote [OF e(2,3) assms(5), of info] assms(7) by simp
  ultimately show ?thesis
    using AddBlock_blocks [of E n "with_vote rep info e" b N] AddBlock_covers [of E n "with_vote rep info e" b "[]" N] e(1) assms(2-4)
    by (simp add: election_ok_def)
qed

lemma later_vote_ok:
  assumes "election_ok E n e" "Suc n < 2 ^ 32" "Account b = el_account e" "Height b = el_height e"
    "map_of (el_votes e) rep = Some old" "\<not> ri_conflict_found old" "\<not> ri_conflict_found info"
    "vt_hash (ri_last_vote info) = Hash E b"
  shows "election_ok E (Suc n) (Election_AddBlock E N b (with_vote rep info (Election_DelBlock (vt_hash (ri_last_vote old)) e)))"
proof -
  let ?d = "Election_DelBlock (vt_hash (ri_last_vote old)) e"
  have e: "blocks_ok E n ?d" "covers [vt_hash (ri_last_vote old)] ?d" "votes_ok ?d"
    using assms(1) DelBlock_blocks DelBlock_covers [of "[]"] by (simp_all add: election_ok_def)
  have "votes_ok (with_vote rep info ?d)" by (rule votes_ok_plain_vote [OF e(3) assms(7)]) (use assms(5,6) in simp)
  moreover have "covers [Hash E b] (with_vote rep info ?d)"
    using covers_replaced_vote [OF e(2,3), of rep info] assms(5,8) by simp
  ultimately show ?thesis
    using AddBlock_blocks [of E n "with_vote rep info ?d" b N] AddBlock_covers [of E n "with_vote rep info ?d" b "[]" N] e(1) assms(2-4)
    by (simp add: election_ok_def)
qed

lemma conflicting_vote_ok:
  assumes "election_ok E n e" "Suc n < 2 ^ 32" "Account b = el_account e" "Height b = el_height e"
    "map_of (el_votes e) rep = Some old" "\<not> ri_conflict_found old" "ri_conflict_found info"
    "ri_last_vote info = ri_last_vote old" "vt_hash v = Hash E b"
  shows "election_ok E (Suc n) (Election_AddBlock E N b (with_conflict rep v (with_vote rep info e)))"
proof -
  let ?d = "with_conflict rep v (with_vote rep info e)"
  have e: "blocks_ok E n e" "covers [] e" "votes_ok e" using assms(1) by (simp_all add: election_ok_def)
  have none: "map_of (el_conflicts e) rep = None" by (rule no_conflict [OF e(3)]) (use assms(5,6) in simp)
  have "distinct (map fst (el_conflicts e))" using e(3) by (simp add: votes_ok_def)
  then have "covers [Hash E b] ?d"
    using covers_new_conflict [OF covers_same_vote [OF e(2,3) assms(5,8)], of rep v] none assms(9) by simp
  moreover have "votes_ok ?d" by (rule votes_ok_conflict_vote [OF e(3) assms(7)])
  ultimately show ?thesis
    using AddBlock_blocks [of E n ?d b N] AddBlock_covers [of E n ?d b "[]" N] e(1) assms(2-4)
    by (simp add: election_ok_def)
qed

lemma conflict_ok:
  assumes "blocks_ok E n e" "covers hs e" "votes_ok e" "Suc (Suc n) < 2 ^ 32" "Account b = el_account e" "Height b = el_height e"
    "Account c = el_account e" "Height c = el_height e" "ri_conflict_found info"
    "vt_hash (ri_last_vote info) = Hash E b" "vt_hash v = Hash E c"
    "map_of (el_votes e) rep = None \<and> hs = [] \<or>
       (\<exists>old. map_of (el_votes e) rep = Some old \<and> \<not> ri_conflict_found old \<and> hs = [vt_hash (ri_last_vote old)])"
  shows "election_ok E (Suc (Suc n)) (Election_AddBlock E N c (with_conflict rep v (Election_AddBlock E N b (with_vote rep info e))))"
proof -
  let ?w = "with_vote rep info e"
  let ?b = "Election_AddBlock E N b ?w"
  let ?d = "with_conflict rep v ?b"
  have none: "map_of (el_conflicts e) rep = None" by (rule no_conflict [OF assms(3)]) (use assms(12) in auto)
  have w: "covers [Hash E b] ?w" "blocks_ok E n ?w"
    using assms(1,2,3,10,12) covers_new_vote [of "[]" e rep info] covers_replaced_vote [of _ "[]" e rep info] by auto
  have "covers [] ?b" "blocks_ok E (Suc n) ?b"
    using AddBlock_covers [OF w(2) _ w(1)] AddBlock_blocks [of E n ?w b N] w(2) assms(4-6) by simp_all
  moreover have "distinct (map fst (el_conflicts ?b))" using assms(3) by (simp add: votes_ok_def)
  ultimately have d: "covers [Hash E c] ?d" "blocks_ok E (Suc n) ?d"
    using covers_new_conflict [of "[]" ?b rep v] none assms(11) by simp_all
  have "votes_ok ?d"
    using votes_ok_conflict_vote [OF assms(3,9), of rep v] by (simp add: votes_ok_def)
  then show ?thesis
    using AddBlock_covers [OF d(2) _ d(1)] AddBlock_blocks [of E "Suc n" ?d c N] d(2) assms(4,7,8)
    by (simp add: election_ok_def)
qed

end
