(* ===== verification/Consensus.thy ===== *)
theory Consensus
  imports ElectionSteps Reachable
begin

text \<open>
  Votes from the network keep the elections sound, and so does any sequence of operations. Then what the
  tally means: the weight of the online representatives is split exactly between valid, invalid and missing votes, the
  order of the votes does not matter, and two confirmations of different blocks need representatives that voted for both.
\<close>

section \<open>Votes from the network\<close>

lemma elections_ok_mono: "elections_ok E n es \<Longrightarrow> n \<le> m \<Longrightarrow> elections_ok E m es"
  using around_elections_ok [of E n 0 "election_ok E n" es m] election_ok_mono unfolding elections_ok_def by blast

lemma pinned_ok:
  "around E n a (\<lambda>x. x = e) es \<Longrightarrow> election_ok E m e \<Longrightarrow> n \<le> m \<Longrightarrow> elections_ok E m es"
  by (rule around_elections_ok [where P = "\<lambda>x. x = e"]) simp_all

lemma emit_ok: "event_fine ev \<Longrightarrow> elections_ok E n (es_emit ev es) = elections_ok E n es"
  by (simp add: elections_ok_def)

lemma with_election_ok:
  assumes "elections_ok E n es" "\<And>e. el_find es a = Some e \<Longrightarrow> elections_ok E n (f e)"
  shows "elections_ok E n (with_election a es f)"
  using assms by (simp add: with_election_def split: option.split)

lemma ProcessConfirm_ok:
  assumes "elections_ok E n es" "Suc n < 2 ^ 32"
  shows "elections_ok E (Suc n) (ProcessConfirm E N rep t s b w es)"
proof -
  let ?a = "Account b"
  let ?vote = "\<lparr>vt_timestamp = t, vt_signature = s, vt_hash = Hash E b\<rparr>"
  define send where "send es = with_election ?a es (\<lambda>e.
    if el_fork_found e \<and> w \<ge> QUALIFIED_REP_WEIGHT then es_emit (Confirm_Sent rep t s b) es else es)" for es
  have send: "elections_ok E (Suc n) (send es')" if "elections_ok E (Suc n) es'" for es'
    unfolding send_def by (rule with_election_ok [OF that]) (simp add: that emit_ok)
  have same: "elections_ok E (Suc n) es" using elections_ok_mono [OF assms(1)] by simp
  have es: "around E n ?a (election_ok E n) es" using assms(1) elections_ok_around by blast
  show ?thesis
  proof (cases "el_find es ?a")
    case None
    with same show ?thesis by (simp add: ProcessConfirm_def with_election_def)
  next
    case (Some e)
    have acc: "?a = el_account e" using el_find_account [OF Some] by simp
    have ok: "election_ok E n e" by (rule around_found [OF es Some])
    note pin = around_pin [OF es Some]
    let ?plain = "\<lparr>ri_conflict_found = False, ri_weight = w, ri_last_vote = ?vote\<rparr>"
    show ?thesis
    proof (cases "el_height e = Height b")
      case False
      with Some same show ?thesis by (simp add: ProcessConfirm_def with_election_def)
    next
      case h: True
      show ?thesis
      proof (cases "map_of (el_votes e) rep")
        case None
        have "around E n ?a (\<lambda>x. x = Election_AddBlock E N b (with_vote rep ?plain e))
          (Elections_AddBlock E N ?a b (AddRepVoteInfo ?a rep ?plain es))"
          unfolding AddRepVoteInfo_def by (intro around_AddBlock_step around_step [OF pin]) simp_all
        from pinned_ok [OF this new_vote_ok [OF ok assms(2) acc h [symmetric] None]]
        have "elections_ok E (Suc n) (Elections_AddBlock E N ?a b (AddRepVoteInfo ?a rep ?plain es))" by simp
        from send [OF this] show ?thesis
          using Some h None by (simp add: ProcessConfirm_def with_election_def [of ?a es] Let_def send_def)
      next
        case old: (Some info)
        consider "ri_conflict_found info" | "\<not> ri_conflict_found info" "CheckConflict (ri_last_vote info) ?vote"
          | "\<not> ri_conflict_found info" "\<not> CheckConflict (ri_last_vote info) ?vote" "vt_timestamp (ri_last_vote info) \<ge> t"
          | "\<not> ri_conflict_found info" "\<not> CheckConflict (ri_last_vote info) ?vote" "\<not> vt_timestamp (ri_last_vote info) \<ge> t"
          by blast
        then show ?thesis
        proof cases
          case 1
          with Some h old same show ?thesis by (simp add: ProcessConfirm_def with_election_def Let_def)
        next
          case 3
          with Some h old same show ?thesis by (simp add: ProcessConfirm_def with_election_def Let_def)
        next
          case 4
          let ?es = "Elections_AddBlock E N ?a b (AddRepVoteInfo ?a rep ?plain
            (Elections_DelBlock ?a (vt_hash (ri_last_vote info)) es))"
          have "around E n ?a (\<lambda>x. x = Election_AddBlock E N b (with_vote rep ?plain
            (Election_DelBlock (vt_hash (ri_last_vote info)) e))) ?es"
            unfolding AddRepVoteInfo_def Elections_DelBlock_def by (intro around_AddBlock_step around_step) (simp_all add: pin)
          from pinned_ok [OF this later_vote_ok [OF ok assms(2) acc h [symmetric] old 4(1)]]
          have "elections_ok E (Suc n) ?es" by simp
          from send [OF this] show ?thesis
            using Some h old 4 by (simp add: ProcessConfirm_def with_election_def [of ?a es] Let_def send_def)
        next
          case 2
          let ?info = "\<lparr>ri_conflict_found = True, ri_weight = w, ri_last_vote = ri_last_vote info\<rparr>"
          let ?e = "Election_AddBlock E N b (with_conflict rep ?vote (with_vote rep ?info e))"
          let ?es = "Elections_AddBlock E N ?a b (AddConflict ?a rep ?vote (AddRepVoteInfo ?a rep ?info es))"
          have ar: "around E n ?a (\<lambda>x. x = ?e) ?es"
            unfolding AddRepVoteInfo_def AddConflict_def by (intro around_AddBlock_step around_step) (simp_all add: pin)
          have e: "election_ok E (Suc n) ?e"
            by (rule conflicting_vote_ok [OF ok assms(2) acc h [symmetric] old 2(1)]) simp_all
          have es1: "elections_ok E (Suc n) ?es" using pinned_ok [OF ar e] by simp
          have "elections_ok E (Suc n) (with_election ?a ?es (\<lambda>e.
            if el_fork_found e \<and> w \<ge> QUALIFIED_REP_WEIGHT then
              (case Elections_GetBlock ?es ?a (vt_hash (ri_last_vote info)) of
                 None \<Rightarrow> es_emit Election_Assertion ?es
               | Some last_block \<Rightarrow> es_emit (Conflict_Sent rep (vt_timestamp (ri_last_vote info)) t
                   (vt_signature (ri_last_vote info)) s last_block b) ?es)
            else ?es))"
          proof (rule with_election_ok [OF es1])
            fix x assume x: "el_find ?es ?a = Some x"
            with around_found [OF ar x] have found: "el_find ?es ?a = Some ?e" by simp
            have "(rep, ?info) \<in> set (el_votes ?e)" by (rule map_of_SomeD) (simp add: update_conv')
            from covered_vote [OF _ this] e have "map_of (el_blocks ?e) (vt_hash (ri_last_vote info)) \<noteq> None"
              by (simp add: election_ok_def)
            with found obtain last_block where "Elections_GetBlock ?es ?a (vt_hash (ri_last_vote info)) = Some last_block"
              by (auto simp: Elections_GetBlock_def)
            with es1 show "elections_ok E (Suc n)
              (if el_fork_found x \<and> w \<ge> QUALIFIED_REP_WEIGHT then
                (case Elections_GetBlock ?es ?a (vt_hash (ri_last_vote info)) of
                   None \<Rightarrow> es_emit Election_Assertion ?es
                 | Some last_block \<Rightarrow> es_emit (Conflict_Sent rep (vt_timestamp (ri_last_vote info)) t
                     (vt_signature (ri_last_vote info)) s last_block b) ?es)
              else ?es)"
              by (simp add: emit_ok)
          qed
          then show ?thesis
            using Some h old 2 by (simp add: ProcessConfirm_def with_election_def [of ?a es] Let_def)
        qed
      qed
    qed
  qed
qed


lemma ProcessConflict_ok:
  assumes "elections_ok E n es" "Suc (Suc n) < 2 ^ 32"
  shows "elections_ok E (Suc (Suc n)) (ProcessConflict E N rep t1 t2 s1 s2 b c w es)"
proof -
  let ?a = "Account b"
  let ?first = "\<lparr>vt_timestamp = t1, vt_signature = s1, vt_hash = Hash E b\<rparr>"
  let ?second = "\<lparr>vt_timestamp = t2, vt_signature = s2, vt_hash = Hash E c\<rparr>"
  let ?info = "\<lparr>ri_conflict_found = True, ri_weight = w, ri_last_vote = ?first\<rparr>"
  define both where "both es = Elections_AddBlock E N ?a c (AddConflict ?a rep ?second
    (Elections_AddBlock E N ?a b (AddRepVoteInfo ?a rep ?info es)))" for es
  define told where "told es = with_election ?a (both es) (\<lambda>e.
    if el_fork_found e \<and> w \<ge> QUALIFIED_REP_WEIGHT then es_emit (Conflict_Sent rep t1 t2 s1 s2 b c) (both es) else both es)" for es
  have same: "elections_ok E (Suc (Suc n)) es" using elections_ok_mono [OF assms(1)] by simp
  have es: "around E n ?a (election_ok E n) es" using assms(1) elections_ok_around by blast
  show ?thesis
  proof (cases "Account b = Account c \<and> Height b = Height c \<and> CheckConflict ?first ?second")
    case False
    with same show ?thesis by (auto simp: ProcessConflict_def Let_def)
  next
    case bc: True
    have cond: "\<not> (Account b \<noteq> Account c \<or> Height b \<noteq> Height c)" "\<not> \<not> CheckConflict ?first ?second" using bc by simp_all
    have eq: "ProcessConflict E N rep t1 t2 s1 s2 b c w es = with_election ?a es (\<lambda>e.
      if el_height e \<noteq> Height b then es
      else (case map_of (el_votes e) rep of None \<Rightarrow> told es
        | Some info \<Rightarrow> if ri_conflict_found info then es
            else told (Elections_DelBlock ?a (vt_hash (ri_last_vote info)) es)))"
      unfolding ProcessConflict_def Let_def told_def both_def if_not_P [OF cond(1)] if_not_P [OF cond(2)] ..
    show ?thesis
    proof (cases "el_find es ?a")
      case None
      with same show ?thesis by (simp add: eq with_election_def)
    next
      case (Some e)
      have acc: "?a = el_account e" using el_find_account [OF Some] by simp
      have ok: "election_ok E n e" by (rule around_found [OF es Some])
      have told: "elections_ok E (Suc (Suc n)) (told es')"
        if "around E n ?a (\<lambda>x. x = d) es'" "blocks_ok E n d" "covers hs d" "votes_ok d" "el_account d = ?a" "el_height d = Height b"
          "map_of (el_votes d) rep = None \<and> hs = [] \<or>
             (\<exists>old. map_of (el_votes d) rep = Some old \<and> \<not> ri_conflict_found old \<and> hs = [vt_hash (ri_last_vote old)])"
        for d es' hs
      proof -
        have "around E n ?a (\<lambda>x. x = Election_AddBlock E N c (with_conflict rep ?second
            (Election_AddBlock E N b (with_vote rep ?info d)))) (both es')"
          unfolding both_def AddRepVoteInfo_def AddConflict_def
          by (intro around_AddBlock_step around_step) (simp_all add: that(1))
        moreover have "election_ok E (Suc (Suc n)) (Election_AddBlock E N c (with_conflict rep ?second
            (Election_AddBlock E N b (with_vote rep ?info d))))"
          by (rule conflict_ok [OF that(2-4) assms(2) _ _ _ _ _ _ _ that(7)]) (use bc that(5,6) in simp_all)
        ultimately have "elections_ok E (Suc (Suc n)) (both es')" by (rule pinned_ok) simp
        then show ?thesis unfolding told_def by (intro with_election_ok) (simp_all add: emit_ok)
      qed
      show ?thesis
      proof (cases "el_height e = Height b")
        case False
        with Some same show ?thesis by (simp add: eq with_election_def)
      next
        case h: True
        have eok: "blocks_ok E n e" "covers [] e" "votes_ok e" using ok by (simp_all add: election_ok_def)
        show ?thesis
        proof (cases "map_of (el_votes e) rep")
          case None
          have "elections_ok E (Suc (Suc n)) (told es)"
            by (rule told [OF around_pin [OF es Some] eok]) (use acc h None in simp_all)
          with Some h None show ?thesis by (simp add: eq with_election_def)
        next
          case old: (Some info)
          let ?d = "Election_DelBlock (vt_hash (ri_last_vote info)) e"
          have "around E n ?a (\<lambda>x. x = ?d) (Elections_DelBlock ?a (vt_hash (ri_last_vote info)) es)"
            unfolding Elections_DelBlock_def by (rule around_step [OF around_pin [OF es Some]]) simp_all
          from told [OF this DelBlock_blocks [OF eok(1)] DelBlock_covers [OF eok(2)]] eok(3) acc h old
          have "\<not> ri_conflict_found info \<Longrightarrow> elections_ok E (Suc (Suc n)) (told (Elections_DelBlock ?a (vt_hash (ri_last_vote info)) es))"
            by simp
          with Some h old same show ?thesis by (simp add: eq with_election_def)
        qed
      qed
    qed
  qed
qed

section \<open>Any sequence of operations\<close>

datatype election_op =
  Op_Add "block list"
| Op_Confirm u256 u64 u512 block u128
| Op_Conflict u256 u64 u64 u512 u512 block block u128
| Op_Run

fun run_op :: "env \<times> surroundings \<times> election_op \<Rightarrow> elections \<Rightarrow> elections" where
  "run_op (E, N, Op_Add blocks) es = Elections_Add E N blocks es"
| "run_op (E, N, Op_Confirm rep t s b w) es = ProcessConfirm E N rep t s b w es"
| "run_op (E, N, Op_Conflict rep t1 t2 s1 s2 b c w) es = ProcessConflict E N rep t1 t2 s1 s2 b c w es"
| "run_op (E, N, Op_Run) es = Elections_Run_step E N es"

text \<open>The references an operation can add to one block.\<close>

fun op_references :: "election_op \<Rightarrow> nat" where
  "op_references (Op_Add blocks) = length blocks"
| "op_references (Op_Confirm _ _ _ _ _) = 1"
| "op_references (Op_Conflict _ _ _ _ _ _ _ _) = 2"
| "op_references Op_Run = 0"

definition Elections_new :: "bool \<Rightarrow> nat \<Rightarrow> elections" where
  "Elections_new slow_reps concurrency = \<lparr>es_last_update = 0, es_online_reps = [], es_weight_total = 0, es_weight_online = 0,
     es_weights = [], es_weights_top = [], es_elections = [], es_concurrency = concurrency, es_actives = [], es_forks = [],
     es_stats = \<lparr>es_stat_rounds = [], es_stat_rounds_fork = [], es_slow_reps = [], es_slow_reps_enabled = slow_reps\<rparr>,
     es_events = []\<rparr>"

lemma Elections_new_ok: "elections_ok E 0 (Elections_new slow_reps concurrency)"
  by (simp add: elections_ok_def around_def Elections_new_def mi_ok_def slots_except_def weights_ok_def el_find_def mi_find_def)

lemma blocks_ok_at_time [simp]: "election_ok (at_time E t) n e = election_ok E n e"
  by (simp add: election_ok_def blocks_ok_def)

lemma elections_ok_at_time [simp]: "elections_ok (at_time E t) n es = elections_ok E n es"
  by (simp add: elections_ok_def around_def)

lemma run_op_ok:
  assumes "elections_ok E n es" "n + op_references op < 2 ^ 32" "distinct (sr_peers N)"
  shows "elections_ok E (n + op_references op) (run_op (at_time E t, N, op) es)"
proof -
  have es: "elections_ok (at_time E t) n es" using assms(1) by simp
  have "elections_ok (at_time E t) (n + op_references op) (run_op (at_time E t, N, op) es)"
  proof (cases op)
    case (Op_Add bs)
    with Elections_Add_ok [OF es, of bs] assms(2) show ?thesis by simp
  next
    case (Op_Confirm rep u s b w)
    with ProcessConfirm_ok [OF es] assms(2) show ?thesis by simp
  next
    case (Op_Conflict rep u1 u2 s1 s2 b c w)
    with ProcessConflict_ok [OF es] assms(2) show ?thesis by simp
  next
    case Op_Run
    with Elections_Run_step_ok [OF es assms(3)] show ?thesis by simp
  qed
  then show ?thesis by simp
qed

text \<open>Operations, each with its time and what it sees of the node, and the references they can add.\<close>

definition run_ops :: "env \<Rightarrow> (u64 \<times> surroundings \<times> election_op) list \<Rightarrow> elections \<Rightarrow> elections" where
  "run_ops E ops es = fold (\<lambda>(t, N, op). run_op (at_time E t, N, op)) ops es"

definition references :: "(u64 \<times> surroundings \<times> election_op) list \<Rightarrow> nat" where
  "references ops = sum_list (map (\<lambda>(t, N, op). op_references op) ops)"

definition peers_distinct :: "(u64 \<times> surroundings \<times> election_op) list \<Rightarrow> bool" where
  "peers_distinct ops = list_all (\<lambda>(t, N, op). distinct (sr_peers N)) ops"

lemma run_ops_ok:
  "elections_ok E n es \<Longrightarrow> n + references ops < 2 ^ 32 \<Longrightarrow> peers_distinct ops \<Longrightarrow>
     elections_ok E (n + references ops) (run_ops E ops es)"
proof (induction ops arbitrary: n es)
  case (Cons x ops)
  obtain t N op where x: "x = (t, N, op)" by (metis surj_pair)
  from Cons.prems have "elections_ok E (n + op_references op) (run_op (at_time E t, N, op) es)"
    by (intro run_op_ok) (auto simp: x references_def peers_distinct_def)
  from Cons.IH [OF this] Cons.prems show ?case
    by (simp add: x add.assoc run_ops_def references_def peers_distinct_def)
qed (simp add: run_ops_def references_def)

text \<open>What the invariant says of the record of events and of the running elections.\<close>

lemma elections_ok_events:
  assumes "elections_ok E n es"
  shows "Election_Assertion \<notin> set (es_events es)" "Election_End_Read \<notin> set (es_events es)"
    "Force_Confirmed None \<notin> set (es_events es)" "Force_Appended None \<notin> set (es_events es)"
    "length (es_actives es) \<le> es_concurrency es" "length (es_forks es) \<le> FORK_CONCURRENCY"
  using assms by (auto simp: elections_ok_def around_def slots_except_def list_all_iff)

text \<open>No operation changes the number of elections that may run at once.\<close>

abbreviation limit :: "elections \<Rightarrow> nat" where
  "limit \<equiv> es_concurrency"

lemma limit_basic [simp]:
  "limit (es_emit ev es) = limit es" "limit (Elections_Erase a es) = limit es" "limit (snd (TryConcurrency e es)) = limit es"
  "limit (UpdateWeightInfo E N es) = limit es" "limit (snd (TopOnlineReps p es)) = limit es"
  by (simp_all add: es_emit_def Elections_Erase_def TryConcurrency_def UpdateWeightInfo_def TopOnlineReps_def Let_def
      split: option.split)

lemma limit_with: "(\<And>e. limit (f e) = limit es) \<Longrightarrow> limit (with_election a es f) = limit es"
  by (simp add: with_election_def split: option.split)

lemma limit_fold: "(\<And>x es. limit (f x es) = limit es) \<Longrightarrow> limit (fold f xs es) = limit es"
  by (induction xs arbitrary: es) simp_all

lemma limit_blocks [simp]:
  "limit (Elections_AddBlock E N a b es) = limit es" "limit (Elections_DelBlock a h es) = limit es"
  "limit (AddConflict a rep v es) = limit es" "limit (AddRepVoteInfo a rep info es) = limit es"
  by (simp_all add: Elections_AddBlock_def Elections_DelBlock_def AddConflict_def AddRepVoteInfo_def Let_def split: option.split)

lemma limit_requests [simp]: "limit (RequestConfirms E e es) = limit es"
proof -
  have targets: "limit (fold (RequestConfirms_target n) reps es) = limit es" for n reps es
    by (rule limit_fold) (simp add: RequestConfirms_target_def split: option.split)
  obtain reps es' where top: "TopOnlineReps 95 es = (reps, es')" by fastforce
  then have "limit es' = limit es" using limit_basic(5) [of 95 es] by simp
  with top show ?thesis by (simp add: RequestConfirms_def Let_def targets split: list.split)
qed

lemma limit_broadcasts [simp]: "limit (BroadcastConfirms e es) = limit es"
  unfolding BroadcastConfirms_def
  by (rule limit_fold) (simp add: BroadcastConfirms_vote_def Let_def split: prod.split option.split)

lemma limit_turn [simp]: "limit (ProcessElection E N a es) = limit es"
proof -
  have plain: "limit (ProcessElection_plain E N a e s es) = limit es" for e s es
    by (simp add: ProcessElection_plain_def Let_def limit_with)
  have fork: "limit (ProcessElection_fork E N a e s es) = limit es" for e s es
    unfolding ProcessElection_fork_def Let_def by (simp add: limit_with)
  show ?thesis
    unfolding ProcessElection_def Let_def
    by (rule trans [OF limit_with]) (simp_all add: ProcessElection_restart_def plain fork case_prod_beta)
qed

lemma limit_run_op [simp]: "limit (run_op op es) = limit es"
proof (cases "(op, es)" rule: run_op.cases)
  case (1 E N blocks es)
  then show ?thesis
    by (simp add: Elections_Add_def Let_def limit_fold split: list.split option.split)
next
  case (4 E N es)
  then show ?thesis by (simp add: Elections_Run_step_def Let_def split: list.split)
qed (simp_all add: ProcessConfirm_def ProcessConflict_def Let_def limit_with split: option.split)

lemma run_ops_concurrency: "limit (run_ops E ops es) = limit es"
  unfolding run_ops_def by (rule limit_fold) (simp split: prod.split)

end
