(* ===== verification/Tallies.thy ===== *)
theory Tallies
  imports ElectionSteps Weights "HOL-Library.Multiset"
begin

text \<open>
  What a tally means: the age of a vote as a symmetric tent, the tally as sums over the votes, the exact split of
  the online weight, the independence of the order of iteration, and the overlap of any two confirmations.
\<close>

section \<open>The weight of a vote\<close>

definition tent :: "nat \<Rightarrow> nat \<Rightarrow> nat" where
  "tent allow distance =
     (if distance \<le> allow then 100 else if distance \<le> 2 * allow then (2 * allow - distance) * 100 div allow else 0)"

lemma tent_le: "tent allow distance \<le> 100"
proof -
  have "(2 * allow - distance) * 100 div allow \<le> 100" if "allow < distance"
  proof (cases "allow = 0")
    case False
    have "(2 * allow - distance) * 100 div allow \<le> (100 * allow) div allow"
      using that by (intro div_le_mono) simp
    with False show ?thesis by simp
  qed simp
  then show ?thesis by (simp add: tent_def)
qed

abbreviation age :: "env \<Rightarrow> rep_vote_info \<Rightarrow> nat" where
  "age E info \<equiv> (unat (CurrentTimestamp E) - unat (vt_timestamp (ri_last_vote info))) +
     (unat (vt_timestamp (ri_last_vote info)) - unat (CurrentTimestamp E))"

text \<open>A clock that is far enough from both ends of 64 bits.\<close>

definition sane_clock :: "env \<Rightarrow> bool" where
  "sane_clock E \<longleftrightarrow> 600 \<le> unat (CurrentTimestamp E) \<and> unat (CurrentTimestamp E) + 600 < 2 ^ 64"

lemma percent_of: "unat (x :: u64) \<le> 600 \<Longrightarrow> unat (x * 100 div allow) = unat x * 100 div unat allow"
  unfolding unat_div by (subst unat_mult_word) simp_all

lemma WeightFactor_nat:
  assumes "sane_clock E" "allow \<noteq> 0" "allow \<le> MAX_TIMESTAMP_DIFF"
  shows "unat (WeightFactor_result E info allow) = tent (unat allow) (age E info)"
    "unat (WeightFactor E info allow) = tent (unat allow) (age E info)"
proof -
  let ?now = "CurrentTimestamp E" and ?t = "vt_timestamp (ri_last_vote info)"
  have a: "0 < unat allow" "unat allow \<le> 300"
    using assms(2,3) by (simp_all add: MAX_TIMESTAMP_DIFF_def word_le_nat_alt unat_gt_0)
  have n: "600 \<le> unat ?now" "unat ?now + 600 < 2 ^ 64" using assms(1) by (simp_all add: sane_clock_def)
  have twice: "unat (allow * 2) = 2 * unat allow" using a by (simp add: unat_mult_word)
  have minus: "unat (?now - allow * 2) = unat ?now - 2 * unat allow" "unat (?now - allow) = unat ?now - unat allow"
    using a n by (simp_all add: unat_sub_word word_le_nat_alt twice)
  have plus: "unat (?now + allow * 2) = unat ?now + 2 * unat allow" "unat (?now + allow) = unat ?now + unat allow"
    using a n by (simp_all add: unat_add_word twice)
  have early: "unat ((?t + allow * 2 - ?now) * 100 div allow) = (2 * unat allow - (unat ?now - unat ?t)) * 100 div unat allow"
    if "unat ?now - 2 * unat allow < unat ?t" "unat ?t \<le> unat ?now - unat allow"
  proof -
    have "unat (?t + allow * 2) = unat ?t + 2 * unat allow" using that a n by (simp add: unat_add_word twice)
    moreover from this have "unat (?t + allow * 2 - ?now) = unat ?t + 2 * unat allow - unat ?now"
      using that by (simp add: unat_sub_word word_le_nat_alt)
    ultimately have d: "unat (?t + allow * 2 - ?now) = 2 * unat allow - (unat ?now - unat ?t)" using that a n by simp
    with a have "unat (?t + allow * 2 - ?now) \<le> 600" by simp
    from percent_of [OF this] show ?thesis unfolding d .
  qed
  have late: "unat ((?now + allow * 2 - ?t) * 100 div allow) = (2 * unat allow - (unat ?t - unat ?now)) * 100 div unat allow"
    if "unat ?now + unat allow < unat ?t" "unat ?t \<le> unat ?now + 2 * unat allow"
  proof -
    have d: "unat (?now + allow * 2 - ?t) = 2 * unat allow - (unat ?t - unat ?now)"
      using that by (simp add: unat_sub_word word_le_nat_alt plus)
    with a have "unat (?now + allow * 2 - ?t) \<le> 600" by simp
    from percent_of [OF this] show ?thesis unfolding d .
  qed
  have guard: "\<not> (allow = 0 \<or> MAX_TIMESTAMP_DIFF < allow)" using assms(2,3) by auto
  have res: "WeightFactor_result E info allow = (if ?t \<le> ?now - allow * 2 then 0
      else if ?t \<le> ?now - allow then (?t + allow * 2 - ?now) * 100 div allow
      else if ?t \<le> ?now + allow then 100
      else if ?t \<le> ?now + allow * 2 then (?now + allow * 2 - ?t) * 100 div allow else 0)"
    unfolding WeightFactor_result_def Let_def if_not_P [OF guard] ..
  consider "unat ?t \<le> unat ?now - 2 * unat allow"
    | "unat ?now - 2 * unat allow < unat ?t" "unat ?t \<le> unat ?now - unat allow"
    | "unat ?now - unat allow < unat ?t" "unat ?t \<le> unat ?now + unat allow"
    | "unat ?now + unat allow < unat ?t" "unat ?t \<le> unat ?now + 2 * unat allow"
    | "unat ?now + 2 * unat allow < unat ?t" by linarith
  then show *: "unat (WeightFactor_result E info allow) = tent (unat allow) (age E info)"
  proof cases
    case 1
    then have "2 * unat allow \<le> age E info" using a n by linarith
    then have "tent (unat allow) (age E info) = 0" using a by (simp add: tent_def)
    with 1 show ?thesis by (simp add: res word_le_nat_alt minus)
  next
    case 2
    have "unat (WeightFactor_result E info allow) = (2 * unat allow - (unat ?now - unat ?t)) * 100 div unat allow"
    proof -
      have c: "\<not> ?t \<le> ?now - allow * 2" "?t \<le> ?now - allow" using 2 by (simp_all add: word_le_nat_alt minus)
      from early [OF 2] show ?thesis unfolding res if_not_P [OF c(1)] if_P [OF c(2)] .
    qed
    also have "\<dots> = tent (unat allow) (age E info)"
    proof (cases "age E info \<le> unat allow")
      case True
      with 2 a n have "unat ?now - unat ?t = unat allow" by simp
      with a True show ?thesis by (simp add: tent_def)
    next
      case False
      with 2 a n show ?thesis by (simp add: tent_def)
    qed
    finally show ?thesis .
  next
    case 3
    then have "\<not> unat ?t \<le> unat ?now - 2 * unat allow" "age E info \<le> unat allow" using a n by linarith+
    with 3 show ?thesis by (simp add: res word_le_nat_alt minus plus tent_def)
  next
    case 4
    have "\<not> ?t \<le> ?now - allow * 2" "\<not> ?t \<le> ?now - allow" "\<not> ?t \<le> ?now + allow" "?t \<le> ?now + allow * 2"
      using 4 a n by (simp_all add: word_le_nat_alt minus plus)
    with late [OF 4] have "unat (WeightFactor_result E info allow) = (2 * unat allow - (unat ?t - unat ?now)) * 100 div unat allow"
      unfolding res by (simp only: if_True if_False)
    moreover have "\<not> age E info \<le> unat allow" "age E info \<le> 2 * unat allow" "age E info = unat ?t - unat ?now"
      using 4 a n by linarith+
    ultimately show ?thesis unfolding tent_def by (simp only: if_True if_False)
  next
    case 5
    then have "2 * unat allow < age E info" "\<not> unat ?t \<le> unat ?now - 2 * unat allow" "\<not> unat ?t \<le> unat ?now - unat allow"
      "\<not> unat ?t \<le> unat ?now + unat allow" using a n by linarith+
    with 5 show ?thesis by (simp add: res word_le_nat_alt minus plus tent_def)
  qed
  have "\<not> WeightFactor_result E info allow > 100"
    using * tent_le [of "unat allow" "age E info"] by (simp add: word_less_nat_alt)
  then show "unat (WeightFactor E info allow) = tent (unat allow) (age E info)"
    using * by (simp add: WeightFactor_def Let_def)
qed

lemma WeightFactor_le: "unat (WeightFactor E info allow) \<le> 100"
  by (simp add: WeightFactor_def Let_def word_less_nat_alt not_less)


section \<open>The tally as sums over the votes\<close>

lemma Tally_collect_not_voting: "st_not_voting (ta_status (Tally_collect E es e)) = 0"
proof -
  have "st_not_voting (ta_status (Tally_vote E es d v ta)) = st_not_voting (ta_status ta)" for d v ta
    by (cases v) (simp add: Tally_vote_def Let_def split: option.split)
  then have "st_not_voting (ta_status (fold (Tally_vote E es d) vs ta)) = st_not_voting (ta_status ta)" for d vs ta
    by (induction vs arbitrary: ta) simp_all
  then show ?thesis by (simp add: Tally_collect_def ElectionStatus_new_def)
qed

definition counted :: "env \<Rightarrow> elections \<Rightarrow> election \<Rightarrow> u256 \<times> rep_vote_info \<Rightarrow> u128" where
  "counted E es e v = (case weight_of es (fst v) of
     None \<Rightarrow> 0
   | Some w \<Rightarrow> if ri_conflict_found (snd v) then 0
       else ucast ((ucast w :: u256) * ucast (WeightFactor E (snd v) (Election_TimeDiff e)) div 100))"

definition uncounted :: "env \<Rightarrow> elections \<Rightarrow> election \<Rightarrow> u256 \<times> rep_vote_info \<Rightarrow> u128" where
  "uncounted E es e v = (case weight_of es (fst v) of None \<Rightarrow> 0 | Some w \<Rightarrow> w - counted E es e v)"

definition in_conflict :: "elections \<Rightarrow> u256 \<times> rep_vote_info \<Rightarrow> u128" where
  "in_conflict es v = (case weight_of es (fst v) of None \<Rightarrow> 0 | Some w \<Rightarrow> if ri_conflict_found (snd v) then w else 0)"

abbreviation vote_hash :: "u256 \<times> rep_vote_info \<Rightarrow> u256" where
  "vote_hash v \<equiv> vt_hash (ri_last_vote (snd v))"

definition value_of :: "(u256 \<times> u128) list \<Rightarrow> u256 \<Rightarrow> u128" where
  "value_of cs h = (case map_of cs h of None \<Rightarrow> 0 | Some x \<Rightarrow> x)"

lemma value_of_Nil [simp]: "value_of [] h = 0"
  by (simp add: value_of_def)

lemma Tally_vote_sums:
  fixes e :: election
  defines "d \<equiv> Election_TimeDiff e"
  shows "ta_not_voting (Tally_vote E es d v ta) = removeAll (fst v) (ta_not_voting ta)"
    "st_valid (ta_status (Tally_vote E es d v ta)) = st_valid (ta_status ta) + counted E es e v"
    "st_invalid (ta_status (Tally_vote E es d v ta)) = st_invalid (ta_status ta) + uncounted E es e v"
    "st_conflict (ta_status (Tally_vote E es d v ta)) = st_conflict (ta_status ta) + in_conflict es v"
    "ta_candidates (Tally_vote E es d v ta) =
       (if counted E es e v = 0 then ta_candidates ta else candidate_add (vote_hash v) (counted E es e v) (ta_candidates ta))"
proof -
  obtain rep info where v: "v = (rep, info)" by fastforce
  consider "weight_of es rep = None" | w where "weight_of es rep = Some w" "ri_conflict_found info"
    | w where "weight_of es rep = Some w" "\<not> ri_conflict_found info" by fastforce
  note cases = this
  show "ta_not_voting (Tally_vote E es d v ta) = removeAll (fst v) (ta_not_voting ta)"
    by (cases rule: cases) (simp_all add: Tally_vote_def Let_def v)
  show "st_valid (ta_status (Tally_vote E es d v ta)) = st_valid (ta_status ta) + counted E es e v"
    by (cases rule: cases) (simp_all add: Tally_vote_def Let_def v counted_def d_def)
  show "st_invalid (ta_status (Tally_vote E es d v ta)) = st_invalid (ta_status ta) + uncounted E es e v"
    by (cases rule: cases) (simp_all add: Tally_vote_def Let_def v counted_def uncounted_def d_def)
  show "st_conflict (ta_status (Tally_vote E es d v ta)) = st_conflict (ta_status ta) + in_conflict es v"
    by (cases rule: cases) (simp_all add: Tally_vote_def Let_def v in_conflict_def)
  show "ta_candidates (Tally_vote E es d v ta) =
       (if counted E es e v = 0 then ta_candidates ta else candidate_add (vote_hash v) (counted E es e v) (ta_candidates ta))"
    by (cases rule: cases) (simp_all add: Tally_vote_def Let_def v counted_def d_def)
qed

lemma candidate_add_value:
  "value_of (candidate_add h w cs) k = value_of cs k + (if k = h then w else 0)"
  "fst ` set (candidate_add h w cs) = insert h (fst ` set cs)"
  "distinct (map fst cs) \<Longrightarrow> distinct (map fst (candidate_add h w cs))"
  by (auto simp: candidate_add_def value_of_def update_conv' dom_update distinct_update)

lemma Tally_fold_sums:
  fixes e :: election
  defines "d \<equiv> Election_TimeDiff e"
  assumes "distinct (map fst (ta_candidates ta))"
  shows "ta_not_voting (fold (Tally_vote E es d) vs ta) = filter (\<lambda>r. r \<notin> fst ` set vs) (ta_not_voting ta)"
    "st_valid (ta_status (fold (Tally_vote E es d) vs ta)) = st_valid (ta_status ta) + sum_list (map (counted E es e) vs)"
    "st_invalid (ta_status (fold (Tally_vote E es d) vs ta)) = st_invalid (ta_status ta) + sum_list (map (uncounted E es e) vs)"
    "st_conflict (ta_status (fold (Tally_vote E es d) vs ta)) = st_conflict (ta_status ta) + sum_list (map (in_conflict es) vs)"
    "value_of (ta_candidates (fold (Tally_vote E es d) vs ta)) h =
       value_of (ta_candidates ta) h + sum_list (map (counted E es e) (filter (\<lambda>v. vote_hash v = h) vs))"
    "fst ` set (ta_candidates (fold (Tally_vote E es d) vs ta)) =
       fst ` set (ta_candidates ta) \<union> vote_hash ` {v \<in> set vs. counted E es e v \<noteq> 0}"
    "distinct (map fst (ta_candidates (fold (Tally_vote E es d) vs ta)))"
proof -
  note sums = Tally_vote_sums [of E es e, folded d_def]
  show "ta_not_voting (fold (Tally_vote E es d) vs ta) = filter (\<lambda>r. r \<notin> fst ` set vs) (ta_not_voting ta)"
    by (induction vs arbitrary: ta) (auto simp: sums removeAll_filter_not_eq intro!: filter_cong)
  show "st_valid (ta_status (fold (Tally_vote E es d) vs ta)) = st_valid (ta_status ta) + sum_list (map (counted E es e) vs)"
    by (induction vs arbitrary: ta) (simp_all add: sums)
  show "st_invalid (ta_status (fold (Tally_vote E es d) vs ta)) = st_invalid (ta_status ta) + sum_list (map (uncounted E es e) vs)"
    by (induction vs arbitrary: ta) (simp_all add: sums)
  show "st_conflict (ta_status (fold (Tally_vote E es d) vs ta)) = st_conflict (ta_status ta) + sum_list (map (in_conflict es) vs)"
    by (induction vs arbitrary: ta) (simp_all add: sums)
  show "value_of (ta_candidates (fold (Tally_vote E es d) vs ta)) h =
       value_of (ta_candidates ta) h + sum_list (map (counted E es e) (filter (\<lambda>v. vote_hash v = h) vs))"
    by (induction vs arbitrary: ta) (auto simp: sums candidate_add_value)
  show "fst ` set (ta_candidates (fold (Tally_vote E es d) vs ta)) =
       fst ` set (ta_candidates ta) \<union> vote_hash ` {v \<in> set vs. counted E es e v \<noteq> 0}"
  proof (induction vs arbitrary: ta)
    case (Cons v vs)
    have "fst ` set (ta_candidates (Tally_vote E es d v ta)) =
        fst ` set (ta_candidates ta) \<union> (if counted E es e v = 0 then {} else {vote_hash v})"
      by (simp add: sums candidate_add_value(2))
    moreover have "{w \<in> set (v # vs). counted E es e w \<noteq> 0} =
        (if counted E es e v = 0 then {} else {v}) \<union> {w \<in> set vs. counted E es e w \<noteq> 0}" by auto
    ultimately show ?case by (simp add: Cons image_Un Un_assoc)
  qed simp
  show "distinct (map fst (ta_candidates (fold (Tally_vote E es d) vs ta)))"
    using assms(2) by (induction vs arbitrary: ta) (simp_all add: sums candidate_add_value(3))
qed

lemmas collect_sums = Tally_fold_sums [where ta = "\<lparr>ta_not_voting = es_online_reps es, ta_candidates = [], ta_status = ElectionStatus_new\<rparr>"
    and es = es and e = e and vs = "el_votes e" for es e, folded Tally_collect_def, simplified]


section \<open>Where the online weight goes\<close>

definition weight_or_0 :: "elections \<Rightarrow> u256 \<Rightarrow> u128" where
  "weight_or_0 es r = (case weight_of es r of None \<Rightarrow> 0 | Some w \<Rightarrow> w)"

lemma unknown_weight: "r \<notin> aw_account ` set (es_weights es) \<Longrightarrow> weight_or_0 es r = 0"
proof -
  assume "r \<notin> aw_account ` set (es_weights es)"
  then have "mi_find aw_account r (es_weights es) = None" by (simp add: mi_find_None)
  then show ?thesis by (simp add: weight_or_0_def weight_of_def)
qed

lemma Tally_absent_sum: "Tally_absent es reps = sum_list (map (weight_or_0 es) reps)"
proof -
  have "fold (\<lambda>i sum. case weight_of es i of None \<Rightarrow> sum | Some w \<Rightarrow> sum + w) reps s = sum_list (map (weight_or_0 es) reps) + s" for s
    by (induction reps arbitrary: s) (auto simp: weight_or_0_def ac_simps split: option.split)
  then show ?thesis by (simp add: Tally_absent_def)
qed

lemma Tally_fields:
  "st_valid (Tally E es e) = sum_list (map (counted E es e) (el_votes e))"
  "st_invalid (Tally E es e) = sum_list (map (uncounted E es e) (el_votes e))"
  "st_conflict (Tally E es e) = sum_list (map (in_conflict es) (el_votes e))"
  "st_not_voting (Tally E es e) = sum_list (map (weight_or_0 es) (filter (\<lambda>r. r \<notin> fst ` set (el_votes e)) (es_online_reps es)))"
  by (simp_all add: Tally_def Let_def collect_sums ElectionStatus_new_def Tally_absent_sum split: list.split option.split)

lemma sum_list_split:
  "sum_list (map f (filter P xs)) + sum_list (map f (filter (\<lambda>x. \<not> P x) xs)) = (sum_list (map f xs) :: 'a::comm_monoid_add)"
  by (induction xs) (simp_all add: ac_simps)

lemma sum_list_word:
  fixes f :: "'b \<Rightarrow> 'a::len word"
  shows "distinct xs \<Longrightarrow> sum_list (map f xs) = sum f (set xs)"
  by (induction xs) simp_all

lemma weights_sum:
  assumes "weights_ok es"
  shows "sum_list (map (weight_or_0 es) (es_online_reps es)) = es_weight_online es"
proof -
  let ?A = "aw_account ` set (es_weights es)"
  note w = assms [unfolded weights_ok_def mi_ok_def]
  have known: "weight_or_0 es (aw_account x) = aw_weight x" if "x \<in> set (es_weights es)" for x
    using that w mi_find_Some [of aw_account "es_weights es" "aw_account x" x] by (simp add: weight_or_0_def weight_of_def)
  note zero = unknown_weight [of _ es]
  have inj: "inj_on aw_account (set (es_weights es))" "distinct (es_weights es)" using w by (simp_all add: distinct_map)
  have "sum_list (map (weight_or_0 es) (es_online_reps es)) = sum (weight_or_0 es) (set (es_online_reps es))"
    using w by (simp add: sum_list_word)
  also have "\<dots> = sum (weight_or_0 es) ?A"
    using w zero by (intro sum.mono_neutral_right) auto
  also have "\<dots> = sum aw_weight (set (es_weights es))"
    using known by (simp add: sum.reindex [OF inj(1)] comp_def)
  also have "\<dots> = sum_list (map aw_weight (es_weights es))" using inj(2) by (simp add: sum_list_word)
  finally show ?thesis using w by simp
qed

text \<open>The weight of each vote is counted or not; votes of unknown representatives have none.\<close>

lemma counted_uncounted: "counted E es e v + uncounted E es e v = weight_or_0 es (fst v)"
  by (simp add: uncounted_def weight_or_0_def counted_def split: option.split)

lemma voters_weight:
  assumes "weights_ok es" "distinct (map fst (el_votes e))"
  shows "sum_list (map (\<lambda>v. weight_or_0 es (fst v)) (el_votes e)) =
    sum_list (map (weight_or_0 es) (filter (\<lambda>r. r \<in> fst ` set (el_votes e)) (es_online_reps es)))"
proof -
  let ?V = "fst ` set (el_votes e)" and ?O = "set (es_online_reps es)"
  have o: "distinct (es_online_reps es)" "aw_account ` set (es_weights es) \<subseteq> ?O" using assms(1) by (simp_all add: weights_ok_def)
  have zero: "weight_or_0 es r = 0" if "r \<notin> ?O" for r
  proof -
    have "r \<notin> aw_account ` set (es_weights es)" using that o(2) by blast
    then show ?thesis by (rule unknown_weight)
  qed
  have "sum_list (map (\<lambda>v. weight_or_0 es (fst v)) (el_votes e)) = sum_list (map (weight_or_0 es) (map fst (el_votes e)))"
    by (simp add: comp_def)
  also have "\<dots> = sum (weight_or_0 es) ?V" using sum_list_word [OF assms(2), of "weight_or_0 es"] by simp
  also have "\<dots> = sum (weight_or_0 es) (?V \<inter> ?O)" using zero by (intro sum.mono_neutral_right) auto
  also have "?V \<inter> ?O = set (filter (\<lambda>r. r \<in> ?V) (es_online_reps es))" by auto
  also have "sum (weight_or_0 es) \<dots> = sum_list (map (weight_or_0 es) (filter (\<lambda>r. r \<in> ?V) (es_online_reps es)))"
    by (rule sum_list_word [symmetric]) (simp add: o(1))
  finally show ?thesis .
qed

lemma Tally_partition:
  assumes "weights_ok es" "distinct (map fst (el_votes e))"
  shows "st_valid (Tally E es e) + st_invalid (Tally E es e) + st_not_voting (Tally E es e) = es_weight_online es"
proof -
  have "st_valid (Tally E es e) + st_invalid (Tally E es e) = sum_list (map (\<lambda>v. weight_or_0 es (fst v)) (el_votes e))"
    by (simp add: Tally_fields sum_list_addf [symmetric] counted_uncounted)
  then show ?thesis
    using weights_sum [OF assms(1)] voters_weight [OF assms]
      sum_list_split [of "weight_or_0 es" "\<lambda>r. r \<in> fst ` set (el_votes e)" "es_online_reps es"]
    by (simp add: Tally_fields)
qed

section \<open>The order of the votes\<close>

lemma Tally_sort_unique:
  assumes "distinct (map fst cs)" "distinct (map fst ds)" "set cs = set ds"
  shows "Tally_sort cs = Tally_sort ds"
proof -
  have d: "distinct cs" "distinct ds" using assms(1,2) by (simp_all add: distinct_map)
  have m: "mset cs = mset ds" using d assms(3) by (simp add: set_eq_iff_mset_eq_distinct)
  let ?f = "\<lambda>c :: u256 \<times> u128. (snd c, fst c)"
  have "sort_key ?f cs = sort_key ?f ds"
  proof (rule properties_for_sort_key)
    show "mset (sort_key ?f ds) = mset cs" using m by simp
    show "sorted (map ?f (sort_key ?f ds))" by simp
    fix k assume "k \<in> set (sort_key ?f ds)"
    have "{x \<in> set xs. ?f k = ?f x} = (if k \<in> set xs then {k} else {})" for xs by auto
    moreover have "filter (\<lambda>x. ?f k = ?f x) xs = (if k \<in> set xs then [k] else [])" if "distinct xs" for xs
      using that by (induction xs) (auto simp: filter_empty_conv prod_eq_iff)
    ultimately show "filter (\<lambda>x. ?f k = ?f x) (sort_key ?f ds) = filter (\<lambda>x. ?f k = ?f x) cs"
      using d assms(3) by simp
  qed
  then show ?thesis by (simp add: Tally_sort_def)
qed

lemma value_of_set:
  assumes "distinct (map fst cs)"
  shows "(h, x) \<in> set cs \<longleftrightarrow> h \<in> fst ` set cs \<and> value_of cs h = x"
proof (cases "map_of cs h")
  case None
  then have "h \<notin> fst ` set cs" by (simp add: map_of_eq_None_iff)
  then show ?thesis by force
next
  case (Some y)
  then have "(h, y) \<in> set cs" by (rule map_of_SomeD)
  then have "h \<in> fst ` set cs" by force
  with Some show ?thesis unfolding map_of_eq_Some_iff [OF assms, symmetric] value_of_def by simp
qed

lemma sum_list_order:
  fixes f :: "'a \<Rightarrow> 'b::comm_monoid_add"
  assumes "mset xs = mset ys"
  shows "sum_list (map f (filter P xs)) = sum_list (map f (filter P ys))"
  by (metis assms mset_filter mset_map sum_mset_sum_list)

text \<open>The tally is the same for every order in which the votes, their election and the online peers are iterated.\<close>

lemma Tally_order:
  assumes "mset (el_votes e') = mset (el_votes e)" "distinct (map fst (el_votes e))"
    "map_of (el_blocks e') = map_of (el_blocks e)" "el_fork_found e' = el_fork_found e" "el_rounds_fork e' = el_rounds_fork e"
    "mset (es_online_reps es') = mset (es_online_reps es)" "es' = es\<lparr>es_online_reps := es_online_reps es'\<rparr>"
  shows "Tally E es' e' = Tally E es e"
proof -
  have td: "Election_TimeDiff e' = Election_TimeDiff e" by (simp add: Election_TimeDiff_def assms(4))
  have es: "es_weights es' = es_weights es" "es_weight_total es' = es_weight_total es" "es_weight_online es' = es_weight_online es"
    by (subst assms(7); simp)+
  have w: "weight_of es' = weight_of es" by (rule ext) (simp add: weight_of_def es)
  have c1: "counted E es' e' = counted E es e" unfolding fun_eq_iff counted_def w td by simp
  have "uncounted E es' e' = uncounted E es e" "in_conflict es' = in_conflict es"
    unfolding fun_eq_iff uncounted_def in_conflict_def w c1 by simp_all
  note c = c1 this
  have sums: "sum_list (map f (el_votes e')) = sum_list (map f (el_votes e))" for f :: "u256 \<times> rep_vote_info \<Rightarrow> u128"
    using sum_list_order [OF assms(1), of f "\<lambda>_. True"] by simp
  have filters: "sum_list (map f (filter P (el_votes e'))) = sum_list (map f (filter P (el_votes e)))" for f :: "u256 \<times> rep_vote_info \<Rightarrow> u128" and P
    by (rule sum_list_order [OF assms(1)])
  have set: "set (el_votes e') = set (el_votes e)" using assms(1) by (rule mset_eq_setD)
  let ?c' = "ta_candidates (Tally_collect E es' e')" and ?c = "ta_candidates (Tally_collect E es e)"
  have vals: "value_of ?c' h = value_of ?c h" for h by (simp add: collect_sums c filters)
  have keys: "fst ` set ?c' = fst ` set ?c" by (simp add: collect_sums c set)
  have "set ?c' = set ?c"
  proof (rule set_eqI)
    fix x :: "u256 \<times> u128"
    obtain h y where x: "x = (h, y)" by fastforce
    show "x \<in> set ?c' \<longleftrightarrow> x \<in> set ?c" unfolding x value_of_set [OF collect_sums(7)] vals keys ..
  qed
  then have sort: "Tally_sort ?c' = Tally_sort ?c" by (rule Tally_sort_unique [OF collect_sums(7) collect_sums(7)])
  have wo: "weight_or_0 es' = weight_or_0 es" by (rule ext) (simp add: weight_or_0_def w)
  have absent: "Tally_absent es' (ta_not_voting (Tally_collect E es' e')) = Tally_absent es (ta_not_voting (Tally_collect E es e))"
    unfolding Tally_absent_sum wo collect_sums set by (rule sum_list_order [OF assms(6)])
  have status: "ta_status (Tally_collect E es' e') = ta_status (Tally_collect E es e)"
  proof (rule election_status.equality)
    note fine = Tally_collect_fine [of _ E, unfolded tally_fine_def]
    show "st_error (ta_status (Tally_collect E es' e')) = st_error (ta_status (Tally_collect E es e))"
      "st_win (ta_status (Tally_collect E es' e')) = st_win (ta_status (Tally_collect E es e))"
      "st_confirm (ta_status (Tally_collect E es' e')) = st_confirm (ta_status (Tally_collect E es e))"
      "st_block (ta_status (Tally_collect E es' e')) = st_block (ta_status (Tally_collect E es e))"
      using fine [of es' e'] fine [of es e] by simp_all
    show "st_not_voting (ta_status (Tally_collect E es' e')) = st_not_voting (ta_status (Tally_collect E es e))"
      by (simp add: Tally_collect_not_voting)
  qed (simp_all add: collect_sums c sums)
  show ?thesis unfolding Tally_def Let_def status absent sort es assms(3,5) EnoughOnlineWeight_def EnoughVotingWeight_def ..
qed


section \<open>Two confirmations overlap\<close>

text \<open>The representatives whose votes an election counts for a block.\<close>

definition supporters :: "election \<Rightarrow> u256 \<Rightarrow> u256 set" where
  "supporters e h = {r. \<exists>i. map_of (el_votes e) r = Some i \<and> \<not> ri_conflict_found i \<and> vt_hash (ri_last_vote i) = h}"

definition weight_nat :: "elections \<Rightarrow> u256 \<Rightarrow> nat" where
  "weight_nat es r = unat (weight_or_0 es r)"

lemma counted_le: "unat (counted E es e v) \<le> weight_nat es (fst v)"
proof -
  have "unat (ucast ((ucast w :: u256) * ucast f div 100) :: u128) \<le> unat w" if "unat f \<le> 100" for w :: u128 and f :: u64
  proof -
    have "unat (ucast w :: u256) = unat w" "unat (ucast f :: u256) = unat f" by (simp_all add: unat_ucast_up)
    moreover have "unat w * unat f < 2 ^ 256"
    proof -
      have "unat w * unat f \<le> unat w * 100" using that by simp
      also have "\<dots> < 2 ^ 128 * 100" using unat_less [of w] by simp
      finally show ?thesis by simp
    qed
    ultimately have "unat ((ucast w :: u256) * ucast f div 100) = unat w * unat f div 100"
      by (simp add: unat_div unat_mult_word)
    also have "\<dots> \<le> unat w * 100 div 100" using that by (intro div_le_mono) simp
    finally have le: "unat ((ucast w :: u256) * ucast f div 100) \<le> unat w" by simp
    then have "unat ((ucast w :: u256) * ucast f div 100) < 2 ^ LENGTH(128)" using unat_less [of w] by simp
    from unat_ucast_down [OF this] le show ?thesis by simp
  qed
  then show ?thesis
    using WeightFactor_le by (simp add: counted_def weight_nat_def weight_or_0_def split: option.split)
qed

lemma unat_sum_list_le: "unat (sum_list (map f xs) :: 'a::len word) \<le> sum_list (map (\<lambda>x. unat (f x)) xs)"
proof (induction xs)
  case (Cons x xs)
  have "unat (f x + sum_list (map f xs)) \<le> unat (f x) + unat (sum_list (map f xs))"
    by (simp add: unat_word_ariths)
  with Cons show ?case by simp
qed simp

lemma candidate_support:
  assumes "distinct (map fst (el_votes e))"
  shows "unat (value_of (ta_candidates (Tally_collect E es e)) h) \<le> sum (weight_nat es) (supporters e h)"
proof -
  let ?vs = "filter (\<lambda>v. vote_hash v = h \<and> \<not> ri_conflict_found (snd v)) (el_votes e)"
  have "sum_list (map (counted E es e) (filter (\<lambda>v. vote_hash v = h) vs)) =
      sum_list (map (counted E es e) (filter (\<lambda>v. vote_hash v = h \<and> \<not> ri_conflict_found (snd v)) vs))" for vs
    by (induction vs) (auto simp: counted_def split: option.split)
  then have "unat (value_of (ta_candidates (Tally_collect E es e)) h) \<le> sum_list (map (\<lambda>v. unat (counted E es e v)) ?vs)"
    using unat_sum_list_le [of "counted E es e" ?vs] by (simp add: collect_sums)
  also have "\<dots> \<le> sum_list (map (\<lambda>v. weight_nat es (fst v)) ?vs)"
    by (intro sum_list_mono counted_le)
  also have "\<dots> = sum_list (map (weight_nat es) (map fst ?vs))" by (simp add: comp_def)
  also have "\<dots> = sum (weight_nat es) (fst ` set ?vs)"
    using assms by (subst sum_list_distinct_conv_sum_set) (simp_all add: distinct_map_filter)
  also have "fst ` set ?vs = supporters e h"
    using assms by (auto simp: supporters_def map_of_eq_Some_iff image_iff)
  finally show ?thesis .
qed

lemma Tally_confirm_support:
  assumes "election_ok E n e" "st_confirm (Tally E es e)" "st_block (Tally E es e) = Some b"
  shows "unat (es_weight_total es) * 80 < sum (weight_nat es) (supporters e (Hash E b)) * 100"
proof -
  have ok: "blocks_ok E n e" "distinct (map fst (el_votes e))" using assms(1) by (simp_all add: election_ok_def votes_ok_def)
  note fine = Tally_collect_fine [of e E es, unfolded tally_fine_def]
  obtain first others where s: "Tally_sort (ta_candidates (Tally_collect E es e)) = first # others"
    using assms(2) fine by (cases "Tally_sort (ta_candidates (Tally_collect E es e))") (simp_all add: Tally_def Let_def)
  obtain r where r: "map_of (el_blocks e) (fst first) = Some r" "b = br_block r"
    using assms(3) fine by (auto simp: Tally_def Let_def s split: option.splits)
  then have h: "Hash E b = fst first" using ok(1) by (simp add: blocks_ok_def)
  have confirm: "(ucast (snd first) :: u256) * 100 > ucast (es_weight_total es) * ucast CONFIRM_WEIGHT_PERCENTAGE"
    using assms(2) r by (simp add: Tally_def Let_def s)
  have small: "unat (ucast w * (k :: u256)) = unat w * unat k" if "unat k \<le> 100" for w :: u128 and k
  proof -
    have "unat w * unat k \<le> unat w * 100" using that by simp
    also have "\<dots> < 2 ^ 128 * 100" using unat_less [of w] by simp
    finally have "unat w * unat k < 2 ^ 256" by simp
    then show ?thesis by (simp add: unat_mult_word unat_ucast_up)
  qed
  have "unat (ucast CONFIRM_WEIGHT_PERCENTAGE :: u256) = 80" by (simp add: CONFIRM_WEIGHT_PERCENTAGE_def)
  with confirm have "unat (es_weight_total es) * 80 < unat (snd first) * 100"
    by (simp add: word_less_nat_alt small)
  also have "first \<in> set (ta_candidates (Tally_collect E es e))" using s by (metis Tally_sort_set(1) list.set_intros(1))
  then have "snd first = value_of (ta_candidates (Tally_collect E es e)) (fst first)"
    using value_of_set [OF collect_sums(7)] by (metis prod.collapse)
  also have "unat \<dots> * 100 \<le> sum (weight_nat es) (supporters e (Hash E b)) * 100"
    unfolding h by (intro mult_le_mono1 candidate_support ok(2))
  finally show ?thesis .
qed

text \<open>Weights that fit into the total: what the ledger keeps of the representative weights.\<close>

definition weights_fit :: "elections \<Rightarrow> bool" where
  "weights_fit es \<longleftrightarrow> sum (weight_nat es) UNIV \<le> unat (es_weight_total es)"

lemma UpdateWeightInfo_weight:
  assumes "distinct (sr_peers N)" "\<not> CurrentTimestamp E < es_last_update es + 10"
  shows "weight_nat (UpdateWeightInfo E N es) r = (if r \<in> set (sr_peers N) then recorded (sr_memory N) r else 0)"
    "es_weight_total (UpdateWeightInfo E N es) = total_rep_weight (sr_memory N)"
proof -
  let ?online = "filter (\<lambda>i. rep_weights (sr_memory N) i \<noteq> None) (sr_peers N)"
  let ?weight = "\<lambda>i. case rep_weights (sr_memory N) i of None \<Rightarrow> 0 | Some w \<Rightarrow> w"
  let ?key = "\<lambda>a. - uint (aw_weight a)"
  let ?fold = "\<lambda>is ws. fold (\<lambda>i ws. snd (mi_insert ?key aw_account \<lparr>aw_account = i, aw_weight = ?weight i\<rparr> ws)) is ws"
  have find: "mi_find aw_account r (?fold is ws) = (if r \<in> set is then Some \<lparr>aw_account = r, aw_weight = ?weight r\<rparr> else mi_find aw_account r ws)"
    if "distinct is" "\<And>i. i \<in> set is \<Longrightarrow> i \<notin> aw_account ` set ws" "mi_ok ?key aw_account ws" for "is" ws
    using that
  proof (induction "is" arbitrary: ws)
    case (Cons i "is")
    have new: "i \<notin> aw_account ` set ws" using Cons.prems(2) by simp
    then have none: "mi_find aw_account i ws = None" by (simp add: mi_find_None)
    let ?ws = "mi_place ?key \<lparr>aw_account = i, aw_weight = ?weight i\<rparr> ws"
    have ins: "snd (mi_insert ?key aw_account \<lparr>aw_account = i, aw_weight = ?weight i\<rparr> ws) = ?ws" using none by (simp add: mi_insert_def)
    have place: "mi_ok ?key aw_account ?ws"
      "mi_find aw_account r ?ws = (if r = i then Some \<lparr>aw_account = i, aw_weight = ?weight i\<rparr> else mi_find aw_account r ws)"
      using mi_place_find [OF Cons.prems(3), of "\<lparr>aw_account = i, aw_weight = ?weight i\<rparr>"] new by simp_all
    have "mi_find aw_account r (?fold is ?ws) = (if r \<in> set is then Some \<lparr>aw_account = r, aw_weight = ?weight r\<rparr> else mi_find aw_account r ?ws)"
      using Cons.prems by (intro Cons.IH place(1)) auto
    also have "\<dots> = (if r \<in> set (i # is) then Some \<lparr>aw_account = r, aw_weight = ?weight r\<rparr> else mi_find aw_account r ws)"
      unfolding place(2) by simp
    finally show ?case unfolding fold_Cons o_apply ins .
  qed simp
  have "es_weights (UpdateWeightInfo E N es) = ?fold ?online []" using assms(2) by (simp add: UpdateWeightInfo_def Let_def)
  moreover have "mi_find aw_account r (?fold ?online []) = (if r \<in> set ?online then Some \<lparr>aw_account = r, aw_weight = ?weight r\<rparr> else None)"
    using find [of ?online "[]"] assms(1) by (simp add: mi_ok_def mi_find_def)
  ultimately show "weight_nat (UpdateWeightInfo E N es) r = (if r \<in> set (sr_peers N) then recorded (sr_memory N) r else 0)"
    by (auto simp: weight_nat_def weight_or_0_def weight_of_def recorded_def RepWeightGet_def split: option.splits)
  show "es_weight_total (UpdateWeightInfo E N es) = total_rep_weight (sr_memory N)"
    using assms(2) by (simp add: UpdateWeightInfo_def Let_def)
qed

text \<open>Weights that agree with the delegations of a ledger fit.\<close>

lemma total_weight_sum: "total_weight L = sum (weight L) UNIV"
proof -
  have head: "(\<Sum>r\<in>UNIV. delegated r h) = voting h" for h
  proof (cases h)
    case (Some b)
    have "(\<Sum>r\<in>UNIV. delegated r h) = (\<Sum>r\<in>UNIV. if r = Representative b then voting h else 0)"
      by (rule sum.cong) (auto simp: Some delegated_def voting_def)
    then show ?thesis by simp
  qed (simp add: delegated_def voting_def)
  have "sum (weight L) UNIV = (\<Sum>a\<in>UNIV. \<Sum>r\<in>UNIV. delegated r (head_of L a))"
    unfolding weight_def by (rule sum.swap)
  then show ?thesis by (simp add: head total_weight_def)
qed

lemma UpdateWeightInfo_fit:
  assumes "distinct (sr_peers N)" "\<not> CurrentTimestamp E < es_last_update es + 10" "weights_agree (sr_memory N) L"
  shows "weights_fit (UpdateWeightInfo E N es)"
proof -
  note w = UpdateWeightInfo_weight [OF assms(1,2)]
  have "sum (weight_nat (UpdateWeightInfo E N es)) UNIV \<le> sum (recorded (sr_memory N)) UNIV"
    by (rule sum_mono) (simp add: w)
  also have "\<dots> = unat (total_rep_weight (sr_memory N))"
    using assms(3) by (simp add: weights_agree_def total_weight_sum)
  finally show ?thesis by (simp add: weights_fit_def w)
qed

lemma confirmations_overlap:
  assumes "election_ok E n e" "st_confirm (Tally E es e)" "st_block (Tally E es e) = Some b"
    "election_ok E' n' e'" "st_confirm (Tally E' es' e')" "st_block (Tally E' es' e') = Some b'"
    "weight_nat es' = weight_nat es" "es_weight_total es' = es_weight_total es" "weights_fit es"
  shows "unat (es_weight_total es) * 60 < sum (weight_nat es) (supporters e (Hash E b) \<inter> supporters e' (Hash E' b')) * 100"
proof -
  let ?w = "sum (weight_nat es)" and ?S = "supporters e (Hash E b)" and ?S' = "supporters e' (Hash E' b')"
  have "?w ?S + ?w ?S' = ?w (?S \<union> ?S') + ?w (?S \<inter> ?S')" by (rule sum.union_inter [symmetric]) simp_all
  moreover have "?w (?S \<union> ?S') \<le> unat (es_weight_total es)"
    using assms(9) sum_mono2 [of UNIV "?S \<union> ?S'" "weight_nat es"] by (simp add: weights_fit_def)
  moreover note Tally_confirm_support [OF assms(1-3)] Tally_confirm_support [OF assms(4-6)]
  ultimately show ?thesis unfolding assms(7,8) by linarith
qed

end
