(* ===== verification/Samples.thy ===== *)
theory Samples
  imports Progress Acceptance Consensus Tallies
begin

text \<open>
  Concrete values for the parameters of the development: an association list as the store, an
  environment whose hash reads the height of the block and whose signature check accepts
  every signature, a genesis block and blocks on top of it. They show that the
  hypotheses of the theorems can hold together.
\<close>

section \<open>A store\<close>

type_synonym alist_db = "((table \<times> bytes) \<times> bytes) list"

definition alist_lmdb :: "alist_db lmdb" where
  "alist_lmdb =
     \<lparr>mdb_put = (\<lambda>db t k v. Some (((t, k), v) # filter (\<lambda>e. fst e \<noteq> (t, k)) db)),
      mdb_get = (\<lambda>db t k. map_of db (t, k)),
      mdb_del = (\<lambda>db t k. if map_of db (t, k) = None then None
                          else Some (filter (\<lambda>e. fst e \<noteq> (t, k)) db)),
      mdb_entries = (\<lambda>db t. map (\<lambda>e. (snd (fst e), snd e))
                       (filter (\<lambda>e. fst (fst e) = t) (AList.clearjunk db))),
      mdb_txn_begin = (\<lambda>_. True), mdb_txn_commit = (\<lambda>_. True)\<rparr>"

lemma map_of_filter_neq:
  "map_of (filter (\<lambda>e. fst e \<noteq> k) db) k' = (if k' = k then None else map_of db k')"
  by (induction db) auto

lemma distinct_entries:
  "distinct (map fst db) \<Longrightarrow>
   distinct (map fst (map (\<lambda>e. (snd (fst e), snd e)) (filter (\<lambda>e. fst (fst e) = t) db)))"
  by (induction db) (auto simp: image_iff prod_eq_iff)

lemma entries_iff:
  assumes "distinct (map fst db)"
  shows "(k, v) \<in> set (map (\<lambda>e. (snd (fst e), snd e)) (filter (\<lambda>e. fst (fst e) = t) db)) \<longleftrightarrow>
         map_of db (t, k) = Some v"
  using assms by (auto simp: image_iff dest: map_of_SomeD)

lemma alist_laws: "lmdb_laws alist_lmdb"
  unfolding lmdb_laws_def
proof (intro conjI allI impI)
  fix db t and k v :: bytes
  show "distinct (map fst (mdb_entries alist_lmdb db t))"
    unfolding alist_lmdb_def lmdb.simps
    using distinct_entries [OF distinct_clearjunk [of db], of t] by simp
  show "(k, v) \<in> set (mdb_entries alist_lmdb db t) \<longleftrightarrow> mdb_get alist_lmdb db t k = Some v"
    unfolding alist_lmdb_def lmdb.simps
    using entries_iff [OF distinct_clearjunk [of db], of k v t] by (simp add: map_of_clearjunk)
qed (auto simp: alist_lmdb_def map_of_filter_neq split: if_splits)

lemma alist_never_full: "lmdb_never_full alist_lmdb"
  by (simp add: lmdb_never_full_def alist_lmdb_def)

section \<open>An environment and a ledger\<close>

text \<open>The sample hash is one more than the height, read from its place in the hashed bytes.\<close>

definition sample_env :: env where
  "sample_env = \<lparr>RAI_NETWORK = TEST, CurrentTimestamp = TEST_EPOCH_TIMESTAMP + 864000,
     blake2b = (\<lambda>bs. of_nat (be_val (take 8 (drop 16 bs))) + 1),
     ValidateMessage = (\<lambda>_ _ _. False), SignMessage = (\<lambda>_ _ _. 7)\<rparr>"

lemma sample_Hash: "Hash sample_env b = ucast (Height b) + 1"
proof -
  have "take 8 (drop 16 (HashInput b)) = Write (Height b)"
    by (cases b) (simp_all add: TxBlock_Hash_def RepBlock_Hash_def AdBlock_Hash_def)
  moreover have "be_val (Write (Height b)) = unat (Height b)"
    using unat_less [of "Height b"] by (simp add: Write_def be_val_be_bytes)
  ultimately show ?thesis
    by (simp add: Hash_def sample_env_def)
qed

definition sample_memory :: ledger_memory where
  "sample_memory = \<lparr>total_rep_weight = 0, rep_weights = (\<lambda>_. None), enable_rich_list = True,
     rich_list = (\<lambda>_. None), enable_delegator_list = True, delegator_list = (\<lambda>_. None)\<rparr>"

definition sample_txn :: "alist_db transaction" where
  "sample_txn = \<lparr>txn_write = True, txn_aborted = False, txn_db = [], txn_memory = sample_memory,
     rep_weight_operations = []\<rparr>"

lemma sample_writable: "writable alist_lmdb sample_txn"
  by (simp add: writable_def alist_laws alist_never_full sample_txn_def)

lemma sample_rel: "ledger_rel alist_lmdb sample_txn (empty_view sample_memory)"
  by (simp add: ledger_rel_def table_rel_def sample_txn_def alist_lmdb_def empty_view_def)

definition sample_genesis :: block where
  "sample_genesis = TxBlock \<lparr>b_opcode = RECEIVE, b_credit = 512, b_counter = 1,
     b_timestamp = TEST_EPOCH_TIMESTAMP, b_height = 0, b_account = 5, b_previous = 0,
     b_balance = GenesisBalance TEST, b_link = 5, b_signature = 7, tx_representative = 9,
     b_extensions_length = 0, b_extensions = []\<rparr>"

lemma sample_genesis_check: "Genesis_check sample_env 5 sample_genesis"
  by (simp add: Genesis_check_def sample_genesis_def sample_env_def)

lemma sample_genesis_wf: "block_wf sample_genesis"
  by (simp add: sample_genesis_def TxBlock_CheckOpcode_def CheckExtensionsLength_def)

text \<open>The genesis account sends 1000 units to account 6.\<close>

definition sample_send :: block where
  "sample_send = TxBlock \<lparr>b_opcode = SEND, b_credit = 512, b_counter = 2,
     b_timestamp = TEST_EPOCH_TIMESTAMP, b_height = 1, b_account = 5, b_previous = 1,
     b_balance = GenesisBalance TEST - 1000, b_link = 6, b_signature = 7, tx_representative = 9,
     b_extensions_length = 0, b_extensions = []\<rparr>"

lemma sample_send_wf: "block_wf sample_send"
  by (simp add: sample_send_def TxBlock_CheckOpcode_def CheckExtensionsLength_def)

definition sample_view :: ledger_view where
  "sample_view = genesis_view sample_env sample_genesis sample_memory"

lemma sample_genesis_ledger:
  "\<exists>txn. InitLedger alist_lmdb sample_env sample_txn sample_genesis = (SUCCESS, txn) \<and>
     writable alist_lmdb txn \<and> ledger_rel alist_lmdb txn sample_view"
  unfolding sample_view_def
  by (rule InitLedger_total [OF sample_writable sample_rel sample_genesis_wf])

lemma sample_hashes: "Hash sample_env sample_genesis = 1" "Hash sample_env sample_send = 2"
  by (simp_all add: sample_Hash sample_genesis_def sample_send_def)

definition sample_info :: account_info where
  "sample_info = AccountInfo_new TX_BLOCK 1"

lemma sample_send_ok: "successor_ok sample_env sample_view sample_info sample_genesis sample_send"
  by (simp add: successor_ok_def common_ok_def CheckSignature_def sample_hashes sample_view_def
      genesis_view_def empty_view_def sample_info_def AccountInfo_new_def AccountInfo_Valid_def
      INVALID_HEIGHT_def, simp add: sample_env_def sample_genesis_def sample_send_def constant_defs)

lemma sample_step: "\<exists>L'. append_step sample_env sample_view sample_send L'"
  by (rule exI, rule append_step.send [OF _ sample_send_ok _ _ _ _ refl])
    (simp_all add: sample_genesis_def sample_send_def counter_increases_def
      same_representative_def constant_defs RAI_def)

text \<open>The ledger after the sample block, and the facts the theorems ask of both.\<close>

definition sample_next :: ledger_view where
  "sample_next =
     (let L1 = successor_view sample_env sample_info sample_genesis sample_send sample_view in
      L1\<lparr>v_receivables := (v_receivables L1)((6, 2) \<mapsto> receivable_of sample_genesis sample_send)\<rparr>)"

lemma sample_append: "append_step sample_env sample_view sample_send sample_next"
proof -
  have "append_step sample_env sample_view sample_send
      ((successor_view sample_env sample_info sample_genesis sample_send sample_view)\<lparr>v_receivables :=
        (v_receivables (successor_view sample_env sample_info sample_genesis sample_send sample_view))
          ((Link sample_send, Hash sample_env sample_send) \<mapsto> receivable_of sample_genesis sample_send)\<rparr>)"
    by (rule append_step.send [OF _ sample_send_ok _ _ _ _ refl])
      (simp_all add: sample_genesis_def sample_send_def counter_increases_def
        same_representative_def constant_defs RAI_def)
  moreover have "Link sample_send = 6" by (simp add: sample_send_def)
  ultimately show ?thesis by (simp add: sample_next_def Let_def sample_hashes)
qed

lemma sample_sane: "sane sample_env sample_genesis" "sane sample_env sample_send"
  by (simp_all add: sane_def sample_hashes) (simp_all add: sample_genesis_def sample_send_def INVALID_HEIGHT_def)

lemma sample_genesis_ok: "genesis_ok sample_env sample_genesis"
  by (simp add: genesis_ok_def sample_sane) (simp add: sample_genesis_def)

lemma sample_run: "ledger_run sample_env sample_genesis sample_view 0 0"
  unfolding sample_view_def by (rule ledger_run.genesis) (simp_all add: sample_memory_def)

lemma sample_inv: "ledger_inv sample_env sample_view"
  by (rule ledger_run_inv [OF sample_run sample_genesis_ok])

lemma sample_at_time: "at_time sample_env (CurrentTimestamp sample_env) = sample_env"
  by (simp add: at_time_def)

lemma sample_next_run:
  "ledger_run sample_env sample_genesis sample_next
     (0 + burned sample_env sample_view sample_send) (0 + minted sample_view sample_send)"
  by (rule ledger_run.append [OF sample_run _ sample_sane(2) sample_send_wf,
        where t = "CurrentTimestamp sample_env"])
    (simp only: sample_at_time sample_append)

lemma sample_minted: "minted sample_view sample_send = 0"
  by (simp add: minted_def sample_send_def)

section \<open>A block processor\<close>

lemma alist_reliable: "reliable alist_lmdb"
  unfolding reliable_def using alist_laws alist_never_full by (simp add: alist_lmdb_def)

definition sample_universe :: "block set" where
  "sample_universe = {sample_genesis, sample_send}"

lemma sample_universe_ok: "universe sample_env sample_genesis sample_universe"
proof -
  have "inj_on (Hash sample_env) sample_universe"
    by (simp add: sample_universe_def inj_on_def sample_hashes)
  moreover have "Link sample_genesis = 5" by (simp add: sample_genesis_def)
  ultimately show ?thesis
    by (simp add: universe_def sample_genesis_ok admissible_def sample_sane sample_genesis_wf sample_send_wf
        sample_hashes sample_universe_def)
qed

definition sample_ledger :: "alist_db ledger" where
  "sample_ledger = Transaction_end alist_lmdb \<lparr>l_store = [], l_memory = sample_memory\<rparr>
     (snd (InitLedger alist_lmdb sample_env sample_txn sample_genesis))"

lemma sample_ledger_state: "ledger_state alist_lmdb sample_ledger (commit_view sample_view)"
proof -
  obtain txn where "InitLedger alist_lmdb sample_env sample_txn sample_genesis = (SUCCESS, txn)"
    "writable alist_lmdb txn" "ledger_rel alist_lmdb txn sample_view"
    using sample_genesis_ledger by blast
  with Transaction_end_commit [OF alist_reliable] show ?thesis by (simp add: sample_ledger_def)
qed

lemma sample_reachable: "reachable sample_env sample_universe sample_genesis (commit_view sample_view)"
  unfolding sample_view_def by (intro reachable.commit reachable.genesis)

lemma sample_ledger_ok: "ledger_ok alist_lmdb sample_env sample_universe sample_genesis sample_ledger"
proof -
  have "forks_in sample_universe (commit_view sample_view)"
    by (simp add: forks_in_def forks_inv_def commit_view_def sample_view_def genesis_view_def empty_view_def)
  with sample_ledger_state sample_reachable show ?thesis by (auto simp: ledger_ok_def)
qed

text \<open>A processor with the sample block in its queue.\<close>

definition sample_queues :: work_queues where
  "sample_queues = snd (BlockProcessor_Add sample_env 0
     \<lparr>wq_blocks = [], wq_forced = [], wq_fork = []\<rparr> sample_send)"

definition sample_processor :: "alist_db processor" where
  "sample_processor = \<lparr>bp_ledger = sample_ledger, bp_operation = 0, blocks_dynamic = (\<lambda>_. None),
     accounts_dynamic = (\<lambda>_. None), roots_dynamic = (\<lambda>_. None), bp_queues = sample_queues,
     previous_gap_cache = [], receive_source_gap_cache = [], reward_source_gap_cache = [], bp_events = []\<rparr>"

lemma sample_queues_eq: "wq_forced sample_queues = []" "wq_fork sample_queues = []"
  "wq_blocks sample_queues =
     [\<lparr>bi_key = OrderedKey (Priority sample_env sample_send) 0, bi_hash = 2, bi_block = sample_send\<rparr>]"
  by (simp_all add: sample_queues_def BlockProcessor_Add_def mi_insert_def mi_find_def MAX_BLOCKS_def sample_hashes)

lemma sample_node_inv: "node_inv alist_lmdb sample_env sample_universe sample_genesis sample_processor"
proof -
  have "queues_ok sample_env sample_universe sample_queues"
    by (simp add: queues_ok_def queue_ok_def queued_def mi_ok_def sample_queues_eq MAX_BLOCKS_def sample_hashes
        sample_universe_def)
  then show ?thesis
    by (simp add: node_inv_def rest_inv_def sample_processor_def sample_ledger_ok cache_ok_def)
qed

lemma sample_run_step: "\<exists>p. Run_step alist_lmdb (at_time sample_env t) now fuel sample_processor = Some p"
  by (simp add: Run_step_def Run_next_def sample_processor_def sample_queues_eq)

text \<open>A processor that is asked to confirm the sample block, which the ledger does not hold yet.\<close>

definition sample_forced :: "alist_db processor" where
  "sample_forced = sample_processor\<lparr>bp_queues := BlockProcessor_AddForced sample_queues
     \<lparr>fc_operation = of_block_operation CONFIRM, fc_block = sample_send\<rparr>\<rparr>"

lemma sample_forced_inv: "node_inv alist_lmdb sample_env sample_universe sample_genesis sample_forced"
  using sample_node_inv
  by (simp add: node_inv_def rest_inv_def sample_forced_def sample_processor_def queues_ok_def queue_ok_def
      BlockProcessor_AddForced_def queued_def sample_queues_eq sample_universe_def)

lemma sample_forced_waits: "stacks_wait sample_forced"
  by (simp add: stacks_wait_def sample_forced_def sample_processor_def)

section \<open>A block builder\<close>

definition sample_builder :: tx_block_builder where
  "sample_builder = \<lparr>tb_has_key = True, tb_account = 5, tb_rep = 9, tb_private_key = 3, tb_previous = Some sample_genesis\<rparr>"

abbreviation sample_now :: u64 where
  "sample_now \<equiv> TEST_EPOCH_TIMESTAMP + 432000"

lemma sample_builds_on: "builds_on sample_env sample_view sample_builder sample_genesis sample_now"
proof -
  have "chain_head sample_view 5 sample_genesis"
    by (simp add: chain_head_def sample_view_def genesis_view_def empty_view_def first_view_def AccountInfo_new_def
        AccountInfo_Valid_def INVALID_HEIGHT_def sample_hashes)
      (simp add: sample_genesis_def AccountInfo_new_def)
  moreover have "clock_ok sample_env sample_now" by (simp add: clock_ok_def sample_env_def constant_defs)
  moreover have "honest_key sample_env k a" for k a by (simp add: honest_key_def sample_env_def)
  ultimately show ?thesis
    by (simp add: builds_on_def sample_builder_def sample_inv) (simp add: sample_genesis_def)
qed

lemma sample_built: "\<exists>b tb. TxBlockBuilder_Send sample_env sample_builder 6 1000 sample_now [] = Inr (b, tb) \<and>
    v_blocks sample_view (Hash sample_env b) = None"
proof -
  obtain b tb where b: "TxBlockBuilder_Send sample_env sample_builder 6 1000 sample_now [] = Inr (b, tb)"
    by (simp add: TxBlockBuilder_Send_def sample_builder_def tb_finish_def sample_genesis_def Let_def constant_defs
        SameDay_def MAX_EXTENSIONS_SIZE_def RAI_def)
  from TxBlockBuilder_Send_Inr [OF b] have "Height b = 1"
    by (auto simp: next_block_def sample_builder_def sample_genesis_def)
  with b show ?thesis
    by (auto simp: sample_Hash sample_view_def genesis_view_def first_view_def empty_view_def sample_genesis_def)
qed

section \<open>An election\<close>

text \<open>The ledger after the sample block is what the node reads its weights from; representative 9 is online.\<close>

definition sample_around :: "time_point \<Rightarrow> surroundings" where
  "sample_around t = \<lparr>sr_now = t, sr_Random = (\<lambda>a b. a), sr_GenerateWord32 = (\<lambda>a b. a), sr_self_weight = 0,
     sr_peers = [9], sr_memory = committed sample_next, sr_run = True\<rparr>"

text \<open>An election for the sample block is started, its representative votes for it, and the weights are updated.\<close>

definition sample_ops :: "(u64 \<times> surroundings \<times> election_op) list" where
  "sample_ops =
     [(CurrentTimestamp sample_env, sample_around (seconds 10), Op_Add [sample_send]),
      (CurrentTimestamp sample_env, sample_around (seconds 10),
       Op_Confirm 9 (CurrentTimestamp sample_env) 7 sample_send (RAI * 1000)),
      (CurrentTimestamp sample_env, sample_around 0, Op_Run)]"

definition sample_polls :: elections where
  "sample_polls = run_ops sample_env sample_ops (Elections_new False ELECTION_CONCURRENCY)"

lemma sample_references: "references sample_ops = 2" "peers_distinct sample_ops"
  by (simp_all add: references_def peers_distinct_def sample_ops_def sample_around_def)

lemma sample_polls_ok: "elections_ok sample_env 2 sample_polls"
proof -
  have "elections_ok sample_env (0 + references sample_ops) sample_polls"
    unfolding sample_polls_def by (rule run_ops_ok [OF Elections_new_ok]) (simp_all add: sample_references)
  then show ?thesis unfolding sample_references add_0 .
qed

definition sample_vote :: rep_vote_info where
  "sample_vote = \<lparr>ri_conflict_found = False, ri_weight = RAI * 1000,
     ri_last_vote = \<lparr>vt_timestamp = CurrentTimestamp sample_env, vt_signature = 7, vt_hash = 2\<rparr>\<rparr>"

definition sample_election :: election where
  "sample_election = \<lparr>el_account = 5, el_height = 1, el_fork_found = False, el_broadcast = True,
     el_rounds = 0, el_rounds_fork = 0, el_wins = 0, el_confirms = 0, el_fork_broadcast_delay = 1, el_winner = 0,
     el_wakeup = seconds 9, el_blocks = [(2, \<lparr>br_refs = 2, br_block = sample_send\<rparr>)], el_votes = [(9, sample_vote)],
     el_conflicts = []\<rparr>"

lemma sample_operations: "v_operations sample_next =
    [add_op 9 (GenesisBalance TEST), sub_op 9 (GenesisBalance TEST), add_op 9 (GenesisBalance TEST - 1000)]"
  by (simp add: sample_next_def successor_view_memory weight_ops_def sample_view_def genesis_view_def empty_view_def add_op_def)
    (simp add: sample_genesis_def sample_send_def)

lemma sample_weights: "same_weights (v_memory sample_next) sample_memory"
proof -
  have "v_memory sample_view = sample_memory" by (simp add: sample_view_def genesis_view_def empty_view_def)
  with successor_view_memory(1) [of sample_env sample_info sample_genesis sample_send sample_view] show ?thesis
    by (simp add: sample_next_def)
qed

lemma sample_weight: "rep_weights (committed sample_next) 9 = Some (GenesisBalance TEST - 1000)"
  "total_rep_weight (committed sample_next) = GenesisBalance TEST - 1000"
proof -
  have "same_weights (committed sample_next) (RepWeightsCommit sample_memory (v_operations sample_next))"
    unfolding committed_def by (rule same_weights_commit [OF sample_weights])
  moreover have "GenesisBalance TEST \<noteq> 0" "GenesisBalance TEST - 1000 \<noteq> 0" by (simp_all add: constant_defs RAI_def Colin_def)
  ultimately show "rep_weights (committed sample_next) 9 = Some (GenesisBalance TEST - 1000)"
    "total_rep_weight (committed sample_next) = GenesisBalance TEST - 1000"
    by (simp_all add: same_weights_def sample_operations RepWeightsCommit_def RepWeightsCommit_step_def add_op_def sub_op_def
        sample_memory_def Let_def del: GenesisBalance.simps)
qed

text \<open>The election waits, held by the vote of the only representative online.\<close>

lemma sample_polls_eq:
  "el_find sample_polls 5 = Some sample_election"
  "es_weights sample_polls = [\<lparr>aw_account = 9, aw_weight = GenesisBalance TEST - 1000\<rparr>]"
  "es_weight_total sample_polls = GenesisBalance TEST - 1000"
proof -
  define start where "start = Elections_Add sample_env (sample_around (seconds 10)) [sample_send] (Elections_new False ELECTION_CONCURRENCY)"
  have b: "Account sample_send = 5" "Height sample_send = 1" by (simp_all add: sample_send_def)
  have start: "start = (Elections_new False ELECTION_CONCURRENCY)\<lparr>es_elections :=
      [sample_election\<lparr>el_votes := [], el_blocks := [(2, \<lparr>br_refs = 1, br_block = sample_send\<rparr>)]\<rparr>]\<rparr>"
    by (simp add: start_def Elections_Add_def Let_def b Elections_new_def el_find_def mi_find_def mi_insert_def Election_new_def
        Election_AddBlock_def sample_hashes sample_election_def sample_around_def seconds_def election_constants)
  define voted where "voted = ProcessConfirm sample_env (sample_around (seconds 10)) 9 (CurrentTimestamp sample_env) 7 sample_send (RAI * 1000) start"
  have voted: "voted = (Elections_new False ELECTION_CONCURRENCY)\<lparr>es_elections := [sample_election]\<rparr>"
    by (simp add: voted_def start ProcessConfirm_def Let_def b with_election_def el_find_def mi_find_def sample_election_def
        AddRepVoteInfo_def el_modify_def mi_modify_def Elections_AddBlock_def Election_AddBlock_def sample_hashes Elections_new_def
        sample_vote_def)
  have elections: "es_elections (UpdateWeightInfo E N es) = es_elections es" for E N es by (simp add: UpdateWeightInfo_def Let_def)
  have waits: "sr_run (sample_around 0)" "\<not> el_wakeup sample_election \<le> sr_now (sample_around 0)"
    by (simp_all add: sample_around_def sample_election_def seconds_def)
  have "sample_polls = Elections_Run_step sample_env (sample_around 0) voted"
    by (simp add: sample_polls_def run_ops_def sample_ops_def sample_at_time voted_def start_def)
  then have polls: "sample_polls = UpdateWeightInfo sample_env (sample_around 0) voted"
    using waits by (simp add: voted Elections_Run_step_def Let_def elections del: surroundings.simps)
  show "el_find sample_polls 5 = Some sample_election"
    by (simp add: polls voted UpdateWeightInfo_def Let_def el_find_def mi_find_def) (simp add: sample_election_def)
  show "es_weights sample_polls = [\<lparr>aw_account = 9, aw_weight = GenesisBalance TEST - 1000\<rparr>]"
    "es_weight_total sample_polls = GenesisBalance TEST - 1000"
    by (simp_all add: polls voted UpdateWeightInfo_def Elections_new_def sample_around_def sample_weight Let_def mi_insert_def mi_find_def
        sample_env_def constant_defs del: GenesisBalance.simps)
qed

lemma sample_weight_of: "weight_of sample_polls 9 = Some (GenesisBalance TEST - 1000)"
  by (simp add: weight_of_def mi_find_def sample_polls_eq)

lemma sample_clock: "sane_clock sample_env" "age sample_env sample_vote = 0"
  by (simp_all add: sane_clock_def sample_vote_def) (simp add: sample_env_def constant_defs)

lemma sample_factor: "WeightFactor sample_env sample_vote (Election_TimeDiff sample_election) = 100"
proof -
  have "unat (WeightFactor sample_env sample_vote (Election_TimeDiff sample_election)) = 100"
    by (subst WeightFactor_nat(2) [OF sample_clock(1)])
      (simp_all add: sample_clock(2) tent_def Election_TimeDiff_def sample_election_def election_constants constant_defs)
  then show ?thesis by (simp add: word_unat_eq_iff)
qed

lemma sample_confirms: "st_confirm (Tally sample_env sample_polls sample_election)"
    "st_block (Tally sample_env sample_polls sample_election) = Some sample_send"
proof -
  have votes: "el_votes sample_election = [(9, sample_vote)]" "map_of (el_blocks sample_election) 2 = Some \<lparr>br_refs = 2, br_block = sample_send\<rparr>"
    "vt_hash (ri_last_vote sample_vote) = 2" "\<not> ri_conflict_found sample_vote"
    by (simp_all add: sample_election_def sample_vote_def)
  have adjust: "(ucast ((ucast (GenesisBalance TEST - 1000) :: u256) * ucast (100 :: u64) div 100) :: u128) = GenesisBalance TEST - 1000"
    "(ucast (GenesisBalance TEST - 1000) :: u256) * ucast CONFIRM_WEIGHT_PERCENTAGE < ucast (GenesisBalance TEST - 1000) * 100"
    "GenesisBalance TEST - 1000 \<noteq> 0"
    by (simp_all add: constant_defs)
  have collected: "ta_candidates (Tally_collect sample_env sample_polls sample_election) = [(2, GenesisBalance TEST - 1000)]"
    unfolding Tally_collect_def votes using adjust
    by (simp add: Tally_vote_def sample_weight_of sample_factor votes Let_def candidate_add_def del: GenesisBalance.simps)
  show "st_confirm (Tally sample_env sample_polls sample_election)"
    "st_block (Tally sample_env sample_polls sample_election) = Some sample_send"
    using adjust(2) by (simp_all add: Tally_def collected Tally_sort_def votes Let_def sample_polls_eq del: GenesisBalance.simps)
qed

lemma sample_fit: "weights_fit sample_polls"
proof -
  have "weight_nat sample_polls = (\<lambda>r. if r = 9 then unat (GenesisBalance TEST - 1000) else 0)"
    by (intro ext) (simp add: weight_nat_def weight_or_0_def sample_weight_of weight_of_def [of sample_polls] sample_polls_eq
      mi_find_def del: GenesisBalance.simps)
  then show ?thesis by (simp add: weights_fit_def sample_polls_eq del: GenesisBalance.simps)
qed

end
