(* ===== verification/NodeCaches.thy ===== *)
theory NodeCaches
  imports ElectionRun Reachable
begin

text \<open>
  The small containers of \<open>rai/node/node.cpp\<close>: the hashes of recent blocks and forks, the accounts that asked for a
  vote on a block, the votes the node has signed (\<open>ConfirmManager\<close>), and the accounts that were active lately.
  \<open>ConfirmManager\<close> promises that the node never contradicts itself; the promise is proved on the abstract book of votes,
  which the ordered container refines.
\<close>

section \<open>Recent blocks and forks\<close>

record recent_block =
  rb_hash :: u256
  rb_arrival :: time_point

type_synonym recent_blocks = "recent_block list"

definition RECENT_MAX_SIZE :: nat where "RECENT_MAX_SIZE = 1024 * 1024"
definition RECENT_AGE_TIME :: nat where "RECENT_AGE_TIME = 60"

definition RecentBlocks_Insert :: "time_point \<Rightarrow> u256 \<Rightarrow> recent_blocks \<Rightarrow> bool \<times> recent_blocks" where
  "RecentBlocks_Insert now hash blocks =
     (case mi_insert rb_arrival rb_hash \<lparr>rb_hash = hash, rb_arrival = now\<rparr> blocks of (inserted, blocks) \<Rightarrow>
        if \<not> inserted then (True, blocks)
        else (False, if length blocks > RECENT_MAX_SIZE then tl blocks else blocks))"

definition RecentBlocks_Exists :: "u256 \<Rightarrow> recent_blocks \<Rightarrow> bool" where
  "RecentBlocks_Exists hash blocks = (mi_find rb_hash hash blocks \<noteq> None)"

definition RecentBlocks_Remove :: "u256 \<Rightarrow> recent_blocks \<Rightarrow> recent_blocks" where
  "RecentBlocks_Remove hash blocks = mi_erase rb_hash hash blocks"

definition RecentBlocks_Age :: "time_point \<Rightarrow> recent_blocks \<Rightarrow> recent_blocks" where
  "RecentBlocks_Age now blocks =
     (let cutoff = now - seconds RECENT_AGE_TIME in dropWhile (\<lambda>b. rb_arrival b < cutoff) blocks)"

definition RecentForks_Insert :: "time_point \<Rightarrow> time_point \<Rightarrow> u256 \<Rightarrow> u256 \<Rightarrow> recent_blocks \<Rightarrow> bool \<times> recent_blocks" where
  "RecentForks_Insert now_first now_second first second blocks =
     (case RecentBlocks_Insert now_first first blocks of (error_first, blocks) \<Rightarrow>
      case RecentBlocks_Insert now_second second blocks of (error_second, blocks) \<Rightarrow>
        (error_first \<and> error_second, blocks))"

definition RecentForks_Exists :: "u256 \<Rightarrow> u256 \<Rightarrow> recent_blocks \<Rightarrow> bool" where
  "RecentForks_Exists first second blocks \<longleftrightarrow> RecentBlocks_Exists first blocks \<and> RecentBlocks_Exists second blocks"

definition RecentForks_Remove :: "u256 \<Rightarrow> u256 \<Rightarrow> recent_blocks \<Rightarrow> recent_blocks" where
  "RecentForks_Remove first second blocks = RecentBlocks_Remove second (RecentBlocks_Remove first blocks)"

section \<open>Accounts that wait for a vote\<close>

type_synonym confirm_requests = "u256 \<Rightarrow> u256 list option"

definition MAX_CONFIRMATIONS_PER_BLOCK :: nat where "MAX_CONFIRMATIONS_PER_BLOCK = 8"

definition ConfirmRequests_Insert_account :: "u256 \<Rightarrow> u256 \<Rightarrow> confirm_requests \<Rightarrow> bool \<times> confirm_requests" where
  "ConfirmRequests_Insert_account hash account items = (case items hash of
     None \<Rightarrow> (False, items(hash \<mapsto> [account]))
   | Some accounts \<Rightarrow>
       if length accounts \<ge> MAX_CONFIRMATIONS_PER_BLOCK then (True, items)
       else if account \<in> set accounts then (True, items)
       else (False, items(hash \<mapsto> accounts @ [account])))"

definition ConfirmRequests_Append :: "u256 \<Rightarrow> u256 \<Rightarrow> confirm_requests \<Rightarrow> bool \<times> confirm_requests" where
  "ConfirmRequests_Append hash account items = (case items hash of
     None \<Rightarrow> (True, items)
   | Some _ \<Rightarrow> ConfirmRequests_Insert_account hash account items)"

definition ConfirmRequests_Insert :: "u256 \<Rightarrow> confirm_requests \<Rightarrow> bool \<times> confirm_requests" where
  "ConfirmRequests_Insert hash items = (case items hash of
     Some _ \<Rightarrow> (True, items)
   | None \<Rightarrow> (False, items(hash \<mapsto> [])))"

definition ConfirmRequests_Query :: "u256 \<Rightarrow> confirm_requests \<Rightarrow> u256 list" where
  "ConfirmRequests_Query hash items = (case items hash of None \<Rightarrow> [] | Some accounts \<Rightarrow> accounts)"

definition ConfirmRequests_Remove :: "u256 \<Rightarrow> confirm_requests \<Rightarrow> u256 list \<times> confirm_requests" where
  "ConfirmRequests_Remove hash items = (ConfirmRequests_Query hash items, items(hash := None))"

definition requests_ok :: "confirm_requests \<Rightarrow> bool" where
  "requests_ok items \<longleftrightarrow> (\<forall>accounts \<in> ran items. length accounts \<le> MAX_CONFIRMATIONS_PER_BLOCK \<and> distinct accounts)"

section \<open>Active accounts\<close>

record active_account =
  aa_account :: u256
  aa_active :: time_point

type_synonym active_accounts = "active_account list"

definition ACTIVE_AGE_TIME :: nat where "ACTIVE_AGE_TIME = 600"

text \<open>The list is in the order of the index by account; the one by activity only serves \<open>Age\<close>.\<close>

definition ActiveAccounts_Add :: "time_point \<Rightarrow> u256 \<Rightarrow> active_accounts \<Rightarrow> active_accounts" where
  "ActiveAccounts_Add now account accounts = (case mi_find aa_account account accounts of
     None \<Rightarrow> mi_place aa_account \<lparr>aa_account = account, aa_active = now\<rparr> accounts
   | Some _ \<Rightarrow> map (\<lambda>a. if aa_account a = account then a\<lparr>aa_active := now\<rparr> else a) accounts)"

definition ActiveAccounts_Age :: "time_point \<Rightarrow> active_accounts \<Rightarrow> active_accounts" where
  "ActiveAccounts_Age now accounts =
     (let cutoff = now - seconds ACTIVE_AGE_TIME in filter (\<lambda>a. \<not> aa_active a < cutoff) accounts)"

definition ActiveAccounts_Next :: "u256 \<Rightarrow> active_accounts \<Rightarrow> u256 option" where
  "ActiveAccounts_Next account accounts = map_option aa_account (find (\<lambda>a. account \<le> aa_account a) accounts)"

section \<open>The votes the node signs\<close>

record confirm_info =
  ci_account :: u256
  ci_height :: u64
  ci_timestamp :: u64
  ci_hash :: u256

type_synonym confirm_manager = "confirm_info list"

definition ci_key :: "confirm_info \<Rightarrow> u256 \<times> u64" where
  "ci_key i = (ci_account i, ci_height i)"

definition GetTimestamp :: "env \<Rightarrow> u256 \<Rightarrow> u64 \<Rightarrow> u256 \<Rightarrow> confirm_manager \<Rightarrow> u64 \<times> confirm_manager" where
  "GetTimestamp E account height hash confirms =
     (let now = CurrentTimestamp E in
      case mi_find ci_key (account, height) confirms of
        None \<Rightarrow> (now, snd (mi_insert ci_timestamp ci_key
          \<lparr>ci_account = account, ci_height = height, ci_timestamp = now, ci_hash = hash\<rparr> confirms))
      | Some it \<Rightarrow>
          if ci_timestamp it + MIN_CONFIRM_INTERVAL \<le> now
          then (now, mi_modify ci_timestamp ci_key (account, height) (\<lambda>data. data\<lparr>ci_timestamp := now, ci_hash := hash\<rparr>) confirms)
          else if ci_hash it = hash then (ci_timestamp it, confirms)
          else let result = ci_timestamp it + MIN_CONFIRM_INTERVAL in
            (result, mi_modify ci_timestamp ci_key (account, height)
               (\<lambda>data. data\<lparr>ci_timestamp := result, ci_hash := hash\<rparr>) confirms))"

definition ConfirmManager_Age :: "env \<Rightarrow> confirm_manager \<Rightarrow> confirm_manager" where
  "ConfirmManager_Age E confirms =
     (let cutoff = CurrentTimestamp E - MIN_CONFIRM_INTERVAL in dropWhile (\<lambda>i. ci_timestamp i < cutoff) confirms)"


section \<open>The book of votes\<close>

text \<open>What the container stands for: per account and height the last vote, with times that do not wrap around.\<close>

type_synonym vote_book = "u256 \<times> u64 \<Rightarrow> (nat \<times> u256) option"

definition book_of :: "confirm_manager \<Rightarrow> vote_book" where
  "book_of confirms k = map_option (\<lambda>i. (unat (ci_timestamp i), ci_hash i)) (mi_find ci_key k confirms)"

definition book_stamp :: "nat \<Rightarrow> u256 \<times> u64 \<Rightarrow> u256 \<Rightarrow> vote_book \<Rightarrow> nat \<times> vote_book" where
  "book_stamp now k h B = (case B k of
     None \<Rightarrow> (now, B(k \<mapsto> (now, h)))
   | Some (t, h') \<Rightarrow>
       if t + 10 \<le> now then (now, B(k \<mapsto> (now, h)))
       else if h' = h then (t, B)
       else (t + 10, B(k \<mapsto> (t + 10, h))))"

definition book_age :: "nat \<Rightarrow> vote_book \<Rightarrow> vote_book" where
  "book_age now B k = (case B k of Some (t, h) \<Rightarrow> if t + 10 < now then None else Some (t, h) | None \<Rightarrow> None)"

definition confirms_ok :: "confirm_manager \<Rightarrow> bool" where
  "confirms_ok confirms \<longleftrightarrow> mi_ok ci_timestamp ci_key confirms"

lemma confirms_ok_Nil [simp]: "confirms_ok []" "book_of [] k = None"
  by (simp_all add: confirms_ok_def mi_ok_def book_of_def mi_find_def)

lemma mi_find_dropWhile:
  assumes "mi_ok key hash xs"
  shows "mi_ok key hash (dropWhile (\<lambda>x. key x < c) xs)"
    "mi_find hash k (dropWhile (\<lambda>x. key x < c) xs) =
       (case mi_find hash k xs of Some x \<Rightarrow> if key x < c then None else Some x | None \<Rightarrow> None)"
proof -
  have eq: "dropWhile (\<lambda>x. key x < c) xs = filter (\<lambda>x. \<not> key x < c) xs"
    using assms by (simp add: mi_ok_def sorted_split_less)
  show ok: "mi_ok key hash (dropWhile (\<lambda>x. key x < c) xs)"
    using assms unfolding eq by (simp add: mi_ok_def sorted_filter_map distinct_map_filter)
  show "mi_find hash k (dropWhile (\<lambda>x. key x < c) xs) =
       (case mi_find hash k xs of Some x \<Rightarrow> if key x < c then None else Some x | None \<Rightarrow> None)"
  proof (cases "mi_find hash k xs")
    case None
    then have "mi_find hash k (filter (\<lambda>x. \<not> key x < c) xs) = None" by (auto simp: mi_find_None)
    with None show ?thesis by (simp add: eq)
  next
    case (Some x)
    then have x: "x \<in> set xs" "hash x = k" using mi_find_mem by metis+
    have only: "y = x" if "y \<in> set xs" "hash y = k" for y using that x assms by (auto simp: mi_ok_def distinct_map inj_on_def)
    show ?thesis
    proof (cases "key x < c")
      case True
      then have "mi_find hash k (filter (\<lambda>x. \<not> key x < c) xs) = None" using only by (auto simp: mi_find_None)
      with True Some show ?thesis by (simp add: eq)
    next
      case False
      then have "mi_find hash k (filter (\<lambda>x. \<not> key x < c) xs) = Some x"
        using x ok by (simp add: mi_found eq)
      with False Some show ?thesis by (simp add: eq)
    qed
  qed
qed

text \<open>Both operations refine the book as long as the sums stay below \<open>2 ^ 64\<close>.\<close>

lemma GetTimestamp_refines:
  assumes "confirms_ok confirms" "GetTimestamp E account height hash confirms = (t, confirms')"
    "\<And>t' h'. book_of confirms (account, height) = Some (t', h') \<Longrightarrow> t' + 10 < 2 ^ 64"
  shows "confirms_ok confirms' \<and>
    book_stamp (unat (CurrentTimestamp E)) (account, height) hash (book_of confirms) = (unat t, book_of confirms')"
proof (cases "mi_find ci_key (account, height) confirms")
  case None
  define i where "i = \<lparr>ci_account = account, ci_height = height, ci_timestamp = CurrentTimestamp E, ci_hash = hash\<rparr>"
  have key: "ci_key i = (account, height)" by (simp add: i_def ci_key_def)
  have fresh: "ci_key i \<notin> ci_key ` set confirms" using None unfolding key by (simp add: mi_find_None)
  have c: "confirms' = mi_place ci_timestamp i confirms" "t = CurrentTimestamp E"
    using assms(2) None unfolding GetTimestamp_def Let_def None option.case i_def [symmetric] by (simp_all add: mi_insert_def key None)
  have ok: "mi_ok ci_timestamp ci_key confirms" using assms(1) by (simp add: confirms_ok_def)
  have "book_of confirms' = (book_of confirms)((account, height) \<mapsto> (unat t, hash))"
    by (rule ext) (simp only: c book_of_def mi_place_find(2) [OF ok fresh] key, simp add: i_def book_of_def)
  with None c mi_place_find(1) [OF ok fresh] show ?thesis by (simp add: confirms_ok_def book_stamp_def book_of_def)
next
  case (Some it)
  have ok: "mi_ok ci_timestamp ci_key confirms" using assms(1) by (simp add: confirms_ok_def)
  have it: "ci_key it = (account, height)" using mi_find_mem [OF Some] by simp
  have bound: "unat (ci_timestamp it) + 10 < 2 ^ 64" using assms(3) Some by (simp add: book_of_def)
  have sum: "unat (ci_timestamp it + MIN_CONFIRM_INTERVAL) = unat (ci_timestamp it) + 10"
    using bound by (subst unat_add_lem [THEN iffD1]) (simp_all add: MIN_CONFIRM_INTERVAL_def)
  have upd: "confirms_ok (mi_modify ci_timestamp ci_key (account, height) (\<lambda>d. d\<lparr>ci_timestamp := u, ci_hash := hash\<rparr>) confirms) \<and>
    book_of (mi_modify ci_timestamp ci_key (account, height) (\<lambda>d. d\<lparr>ci_timestamp := u, ci_hash := hash\<rparr>) confirms) =
      (book_of confirms)((account, height) \<mapsto> (unat u, hash))" for u
  proof -
    have k: "ci_key (x\<lparr>ci_timestamp := u, ci_hash := hash\<rparr>) = (account, height)"
      if "mi_find ci_key (account, height) confirms = Some x" for x
      using mi_find_mem [OF that] by (simp add: ci_key_def)
    let ?ys = "mi_modify ci_timestamp ci_key (account, height) (\<lambda>d. d\<lparr>ci_timestamp := u, ci_hash := hash\<rparr>) confirms"
    have m: "mi_ok ci_timestamp ci_key ?ys" by (rule mi_modify_ok(1) [OF ok], erule k)
    have find: "mi_find ci_key j ?ys = (if j = (account, height)
      then map_option (\<lambda>d. d\<lparr>ci_timestamp := u, ci_hash := hash\<rparr>) (mi_find ci_key (account, height) confirms)
      else mi_find ci_key j confirms)" for j
      by (rule mi_modify_ok(2) [OF ok], erule k)
    have "book_of ?ys = (book_of confirms)((account, height) \<mapsto> (unat u, hash))"
      by (rule ext) (simp only: book_of_def find, simp add: Some book_of_def)
    with m show ?thesis by (simp add: confirms_ok_def)
  qed
  have book: "book_of confirms (account, height) = Some (unat (ci_timestamp it), ci_hash it)" using Some by (simp add: book_of_def)
  show ?thesis
  proof (cases "unat (ci_timestamp it) + 10 \<le> unat (CurrentTimestamp E)")
    case True
    then have "ci_timestamp it + MIN_CONFIRM_INTERVAL \<le> CurrentTimestamp E" by (simp add: word_le_nat_alt sum)
    with assms(2) Some have "t = CurrentTimestamp E"
      "confirms' = mi_modify ci_timestamp ci_key (account, height) (\<lambda>d. d\<lparr>ci_timestamp := t, ci_hash := hash\<rparr>) confirms"
      by (auto simp: GetTimestamp_def Let_def)
    with upd [of t] book True show ?thesis by (simp add: book_stamp_def)
  next
    case False
    then have late: "\<not> ci_timestamp it + MIN_CONFIRM_INTERVAL \<le> CurrentTimestamp E" by (simp add: word_le_nat_alt sum)
    show ?thesis
    proof (cases "ci_hash it = hash")
      case True
      with late assms(1,2) Some book False show ?thesis by (simp add: GetTimestamp_def book_stamp_def)
    next
      case diff: False
      with late assms(2) Some have "t = ci_timestamp it + MIN_CONFIRM_INTERVAL"
        "confirms' = mi_modify ci_timestamp ci_key (account, height) (\<lambda>d. d\<lparr>ci_timestamp := t, ci_hash := hash\<rparr>) confirms"
        by (auto simp: GetTimestamp_def Let_def)
      with upd [of t] book False diff sum show ?thesis by (simp add: book_stamp_def)
    qed
  qed
qed

lemma ConfirmManager_Age_refines:
  assumes "confirms_ok confirms" "10 \<le> unat (CurrentTimestamp E)"
  shows "confirms_ok (ConfirmManager_Age E confirms)"
    "book_of (ConfirmManager_Age E confirms) = book_age (unat (CurrentTimestamp E)) (book_of confirms)"
proof -
  have ok: "mi_ok ci_timestamp ci_key confirms" using assms(1) by (simp add: confirms_ok_def)
  have cut: "unat (CurrentTimestamp E - MIN_CONFIRM_INTERVAL) = unat (CurrentTimestamp E) - 10"
    using assms(2) by (subst unat_sub) (simp_all add: word_le_nat_alt MIN_CONFIRM_INTERVAL_def)
  note d = mi_find_dropWhile [OF ok]
  show "confirms_ok (ConfirmManager_Age E confirms)" by (simp add: confirms_ok_def ConfirmManager_Age_def d(1))
  have less: "t < CurrentTimestamp E - MIN_CONFIRM_INTERVAL \<longleftrightarrow> unat t + 10 < unat (CurrentTimestamp E)" for t
    using assms(2) by (simp add: word_less_nat_alt cut less_diff_conv)
  show "book_of (ConfirmManager_Age E confirms) = book_age (unat (CurrentTimestamp E)) (book_of confirms)"
    by (rule ext) (simp only: book_of_def book_age_def ConfirmManager_Age_def Let_def d(2), simp add: less split: option.split)
qed


section \<open>The node never contradicts itself\<close>

text \<open>Votes for one key are the same vote or at least the interval apart.\<close>

type_synonym signed = "(u256 \<times> u64) \<times> nat \<times> u256"

definition apart :: "signed \<Rightarrow> signed \<Rightarrow> bool" where
  "apart v w \<longleftrightarrow> fst v = fst w \<longrightarrow> snd v = snd w \<or> fst (snd v) + 10 \<le> fst (snd w) \<or> fst (snd w) + 10 \<le> fst (snd v)"

definition separated :: "signed list \<Rightarrow> bool" where
  "separated vs \<longleftrightarrow> (\<forall>v \<in> set vs. \<forall>w \<in> set vs. apart v w)"

text \<open>The entry of a key is its latest vote; without an entry all its votes are at least the interval old.\<close>

definition latest :: "nat \<Rightarrow> signed list \<Rightarrow> vote_book \<Rightarrow> bool" where
  "latest now vs B \<longleftrightarrow> (\<forall>(k, t, h) \<in> set vs. case B k of
     Some (t', h') \<Rightarrow> t = t' \<and> h = h' \<or> t + 10 \<le> t'
   | None \<Rightarrow> t + 10 \<le> now)"

definition timely :: "nat \<Rightarrow> vote_book \<Rightarrow> bool" where
  "timely limit B \<longleftrightarrow> (\<forall>k t h. B k = Some (t, h) \<longrightarrow> t \<le> limit)"

lemma apart_refl: "apart v v"
  by (simp add: apart_def)

lemma apart_sym: "apart v w \<Longrightarrow> apart w v"
  by (auto simp: apart_def)

lemma book_stamp_latest:
  assumes "latest now vs B" "now \<le> now'" "book_stamp now' k h B = (t, B')"
  shows "latest now' ((k, t, h) # vs) B'" "v \<in> set vs \<Longrightarrow> apart (k, t, h) v"
proof -
  have *: "latest now' ((k, t, h) # vs) B' \<and> (\<forall>v \<in> set vs. apart (k, t, h) v)"
    using assms by (fastforce simp: latest_def book_stamp_def apart_def split: option.splits if_splits prod.splits)
  then show "latest now' ((k, t, h) # vs) B'" "v \<in> set vs \<Longrightarrow> apart (k, t, h) v" by auto
qed

lemma book_stamp_timely:
  assumes "timely limit B" "book_stamp now k h B = (t, B')"
  shows "timely (max limit now + 10) B'"
  using assms unfolding timely_def book_stamp_def
  by (fastforce split: option.splits if_splits prod.splits)

lemma book_age_latest: "latest now vs B \<Longrightarrow> now \<le> now' \<Longrightarrow> latest now' vs (book_age now' B)"
  by (fastforce simp: latest_def book_age_def split: option.splits if_splits prod.splits)

lemma book_age_timely: "timely limit B \<Longrightarrow> timely (max limit now + 10) (book_age now B)"
  by (fastforce simp: timely_def book_age_def split: option.splits if_splits prod.splits)

text \<open>The calls the node makes, with the time of each: \<open>Confirm\<close> and \<open>BroadcastConfirm\<close> ask for a timestamp, the
  alarm ages the container.\<close>

datatype confirm_call = Ask_Vote u256 u64 u256 | Age_Votes

fun confirm_run :: "env \<Rightarrow> (u64 \<times> confirm_call) list \<Rightarrow> confirm_manager \<Rightarrow> ((u256 \<times> u64) \<times> u64 \<times> u256) list" where
  "confirm_run E [] confirms = []"
| "confirm_run E ((now, Ask_Vote account height hash) # calls) confirms =
     (case GetTimestamp (at_time E now) account height hash confirms of (timestamp, confirms) \<Rightarrow>
        ((account, height), timestamp, hash) # confirm_run E calls confirms)"
| "confirm_run E ((now, Age_Votes) # calls) confirms =
     confirm_run E calls (ConfirmManager_Age (at_time E now) confirms)"

definition as_signed :: "(u256 \<times> u64) \<times> u64 \<times> u256 \<Rightarrow> signed" where
  "as_signed v = (fst v, unat (fst (snd v)), snd (snd v))"

definition asks_ok :: "(u64 \<times> confirm_call) list \<Rightarrow> bool" where
  "asks_ok calls \<longleftrightarrow> sorted (map fst calls) \<and> list_all (\<lambda>(t, _). 10 \<le> t \<and> unat t + 10 * length calls < 2 ^ 64) calls"

lemma at_time_clock [simp]: "CurrentTimestamp (at_time E t) = t"
  by (simp add: at_time_def)

lemma asks_ok_Cons:
  assumes "asks_ok ((t, call) # calls)"
  shows "asks_ok calls" "10 \<le> t" "unat t + 10 * Suc (length calls) < 2 ^ 64" "\<forall>(t', _) \<in> set calls. unat t \<le> unat t'"
  using assms by (auto simp: asks_ok_def list_all_iff word_le_nat_alt)

lemma confirm_run_separated:
  assumes "asks_ok calls" "\<forall>(t, _) \<in> set calls. now \<le> unat t" "confirms_ok confirms"
    "latest now vs (book_of confirms)" "timely limit (book_of confirms)" "limit + 10 * length calls < 2 ^ 64" "separated vs"
  shows "separated (map as_signed (confirm_run E calls confirms) @ vs)"
  using assms
proof (induction calls arbitrary: confirms vs now limit)
  case (Cons tc calls)
  obtain t call where tc: "tc = (t, call)" by (cases tc)
  note clock = asks_ok_Cons [OF Cons.prems(1) [unfolded tc]]
  have now: "now \<le> unat t" using Cons.prems(2) tc by auto
  have limit: "max limit (unat t) + 10 + 10 * length calls < 2 ^ 64" using clock(3) Cons.prems(6) tc by simp
  show ?case
  proof (cases call)
    case (Ask_Vote account height hash)
    obtain ts confirms' where g: "GetTimestamp (at_time E t) account height hash confirms = (ts, confirms')" by fastforce
    have "t' + 10 < 2 ^ 64" if "book_of confirms (account, height) = Some (t', h')" for t' h'
      using that Cons.prems(5,6) tc unfolding timely_def by fastforce
    from GetTimestamp_refines [OF Cons.prems(3) g this]
    have r: "confirms_ok confirms'" "book_stamp (unat t) (account, height) hash (book_of confirms) = (unat ts, book_of confirms')"
      by simp_all
    note step = book_stamp_latest [OF Cons.prems(4) now r(2)]
    have sep: "separated (((account, height), unat ts, hash) # vs)"
      using Cons.prems(7) step(2) apart_sym unfolding separated_def by (auto simp del: split_paired_All intro: apart_refl)
    have "separated (map as_signed (confirm_run E calls confirms') @ ((account, height), unat ts, hash) # vs)"
      by (rule Cons.IH [OF clock(1,4) r(1) step(1) book_stamp_timely [OF Cons.prems(5) r(2)] limit sep])
    then show ?thesis by (simp add: tc Ask_Vote g as_signed_def separated_def)
  next
    case Age_Votes
    have "10 \<le> unat (CurrentTimestamp (at_time E t))" using clock(2) by (simp add: word_le_nat_alt)
    note r = ConfirmManager_Age_refines [OF Cons.prems(3) this, unfolded at_time_clock]
    have "separated (map as_signed (confirm_run E calls (ConfirmManager_Age (at_time E t) confirms)) @ vs)"
      by (rule Cons.IH [OF clock(1,4) r(1), unfolded r(2), OF book_age_latest [OF Cons.prems(4) now]
          book_age_timely [OF Cons.prems(5)] limit Cons.prems(7)])
    then show ?thesis by (simp add: tc Age_Votes)
  qed
qed simp

text \<open>Votes that are apart are no conflict in the eyes of the elections.\<close>

lemma apart_no_conflict:
  assumes "apart (k, unat t, h) (k, unat t', h')"
  shows "\<not> CheckConflict \<lparr>vt_timestamp = t, vt_signature = s, vt_hash = h\<rparr> \<lparr>vt_timestamp = t', vt_signature = s', vt_hash = h'\<rparr>"
  using assms by (auto simp: apart_def CheckConflict_def Let_def word_less_nat_alt unat_sub word_le_nat_alt MIN_CONFIRM_INTERVAL_def
      word_unat_eq_iff)

lemma honest_votes:
  assumes "asks_ok calls" "(k, t, h) \<in> set (confirm_run E calls [])" "(k, t', h') \<in> set (confirm_run E calls [])"
  shows "\<not> CheckConflict \<lparr>vt_timestamp = t, vt_signature = s, vt_hash = h\<rparr> \<lparr>vt_timestamp = t', vt_signature = s', vt_hash = h'\<rparr>"
proof (rule apart_no_conflict)
  have limit: "0 + 10 * length calls < 2 ^ 64"
    using assms(1,2) by (cases calls) (auto simp: asks_ok_def)
  have "separated (map as_signed (confirm_run E calls []))"
    using confirm_run_separated [OF assms(1), of 0 "[]" "[]" 0 E] limit
    by (simp add: latest_def timely_def separated_def book_of_def mi_find_def)
  moreover have "(k, unat t, h) \<in> set (map as_signed (confirm_run E calls []))"
    "(k, unat t', h') \<in> set (map as_signed (confirm_run E calls []))"
    using assms(2,3) by (force simp: as_signed_def)+
  ultimately show "apart (k, unat t, h) (k, unat t', h')" unfolding separated_def by blast
qed

end
