(* ===== verification/Messages.thy ===== *)
theory Messages
  imports Blocks
begin

text \<open>
  The messages nodes exchange, \<open>rai/node/message.hpp\<close> and \<open>rai/node/message.cpp\<close>: the header with its flags and the
  proxy fields, one record per message class with its constructors, serialisation and parsing, and the parser that dispatches on
  the type. A member that a constructor leaves unset is 0 here; nothing reads it. Parsing returns the message that the
  visitor is called with, or the code.
\<close>

section \<open>Codes, enums and flags\<close>

text \<open>The codes of \<open>ErrorCode\<close> that only the messages use; \<open>Code\<close> passes on those of the blocks.\<close>

datatype message_code =
  Code error_code
| MAGIC_NUMBER | OUTDATED_VERSION | UNKNOWN_VERSION | INVALID_MESSAGE | UNKNOWN_MESSAGE | HANDSHAKE_TYPE
| KEEPLIVE_PEERS | KEEPLIVE_REACHABLE_PEERS | PUBLISH_NEED_CONFIRM | MESSAGE_CONFIRM_SIGNATURE
| MESSAGE_QUERY_BY | MESSAGE_QUERY_STATUS | MESSAGE_QUERY_BLOCK
| MESSAGE_FORK_ACCOUNT | MESSAGE_FORK_HEIGHT | MESSAGE_FORK_BLOCK_EQUAL
| MESSAGE_CONFLICT_BLOCK | MESSAGE_CONFLICT_TIMESTAMP | MESSAGE_CONFLICT_SIGNATURE | BOOTSTRAP_TYPE

definition PROTOCOL_VERSION_MIN :: u8 where "PROTOCOL_VERSION_MIN = 1"
definition PROTOCOL_VERSION_USING :: u8 where "PROTOCOL_VERSION_USING = 2"

datatype message_type =
  MESSAGE_INVALID | HANDSHAKE | KEEPLIVE | PUBLISH | CONFIRM_VOTE | QUERY | FORK_FOUND | CONFLICT | BOOTSTRAP | WEIGHT | CROSSCHAIN
| MESSAGE_OTHER u8

definition message_type_of :: "u8 \<Rightarrow> message_type" where
  "message_type_of v =
     (if v = 0 then MESSAGE_INVALID else if v = 1 then HANDSHAKE else if v = 2 then KEEPLIVE else if v = 3 then PUBLISH
      else if v = 4 then CONFIRM_VOTE else if v = 5 then QUERY else if v = 6 then FORK_FOUND else if v = 7 then CONFLICT
      else if v = 8 then BOOTSTRAP else if v = 9 then WEIGHT else if v = 10 then CROSSCHAIN else MESSAGE_OTHER v)"

fun of_message_type :: "message_type \<Rightarrow> u8" where
  "of_message_type MESSAGE_INVALID = 0" | "of_message_type HANDSHAKE = 1" | "of_message_type KEEPLIVE = 2"
| "of_message_type PUBLISH = 3" | "of_message_type CONFIRM_VOTE = 4" | "of_message_type QUERY = 5"
| "of_message_type FORK_FOUND = 6" | "of_message_type CONFLICT = 7" | "of_message_type BOOTSTRAP = 8"
| "of_message_type WEIGHT = 9" | "of_message_type CROSSCHAIN = 10" | "of_message_type (MESSAGE_OTHER v) = v"

datatype message_flag = PROXY | RELAY | ACK

fun FlagToIndex :: "message_flag \<Rightarrow> nat" where
  "FlagToIndex PROXY = 0" | "FlagToIndex RELAY = 1" | "FlagToIndex ACK = 2"

section \<open>The header\<close>

record endpoint =
  ep_ip :: u32
  ep_port :: u16

record message_header =
  version_using :: u8
  version_min :: u8
  mh_type :: message_type
  mh_flags :: u8
  mh_extension :: u16
  peer_endpoint :: endpoint
  payload_length :: u16

definition Endpoint_new :: endpoint where
  "Endpoint_new = \<lparr>ep_ip = 0, ep_port = 0\<rparr>"

definition MessageHeader_new :: "message_type \<Rightarrow> u16 \<Rightarrow> message_header" where
  "MessageHeader_new type extension =
     \<lparr>version_using = PROTOCOL_VERSION_USING, version_min = PROTOCOL_VERSION_MIN, mh_type = type, mh_flags = 0,
      mh_extension = extension, peer_endpoint = Endpoint_new, payload_length = 0\<rparr>"

definition SetFlag :: "message_flag \<Rightarrow> message_header \<Rightarrow> message_header" where
  "SetFlag flag h = h\<lparr>mh_flags := set_bit (FlagToIndex flag) (mh_flags h)\<rparr>"

definition ClearFlag :: "message_flag \<Rightarrow> message_header \<Rightarrow> message_header" where
  "ClearFlag flag h = h\<lparr>mh_flags := unset_bit (FlagToIndex flag) (mh_flags h)\<rparr>"

definition GetFlag :: "message_flag \<Rightarrow> message_header \<Rightarrow> bool" where
  "GetFlag flag h = bit (mh_flags h) (FlagToIndex flag)"

definition MagicNumber :: "rai_networks \<Rightarrow> bytes" where
  "MagicNumber net = (if net = LIVE then [0x52, 0x5A] else if net = BETA then [0x52, 0x59] else [0x52, 0x58])"

definition Endpoint_Write :: "endpoint \<Rightarrow> bytes" where
  "Endpoint_Write e = Write (ep_ip e) @ Write (ep_port e)"

definition MessageHeader_Serialize :: "env \<Rightarrow> message_header \<Rightarrow> bytes" where
  "MessageHeader_Serialize E h =
     MagicNumber (RAI_NETWORK E) @ Write (version_using h) @ Write (version_min h) @ Write (of_message_type (mh_type h)) @
     Write (mh_flags h) @ Write (mh_extension h) @
     (if GetFlag PROXY h then Endpoint_Write (peer_endpoint h) @ Write (payload_length h) else [])"

text \<open>A read and its early return, for the codes of this file.\<close>

definition READ_FIELD ::
  "('a \<times> bytes) option \<Rightarrow> ('a \<Rightarrow> bytes \<Rightarrow> message_code + 'b) \<Rightarrow> message_code + 'b" where
  "READ_FIELD r k = (case r of None \<Rightarrow> Inl (Code STREAM) | Some (x, s) \<Rightarrow> k x s)"

definition READ_BLOCK ::
  "error_code + block \<times> bytes \<Rightarrow> (error_code \<Rightarrow> message_code) \<Rightarrow> (block \<Rightarrow> bytes \<Rightarrow> message_code + 'b) \<Rightarrow> message_code + 'b" where
  "READ_BLOCK r code k = (case r of Inl c \<Rightarrow> Inl (code c) | Inr (b, s) \<Rightarrow> k b s)"

definition MessageHeader_Deserialize :: "env \<Rightarrow> bytes \<Rightarrow> message_code + message_header \<times> bytes" where
  "MessageHeader_Deserialize E s =
     READ_FIELD (sgetn 2 s) (\<lambda>magic_number s.
     if magic_number \<noteq> MagicNumber (RAI_NETWORK E) then Inl MAGIC_NUMBER else
     READ_FIELD (Read s) (\<lambda>using s.
     if using < PROTOCOL_VERSION_MIN then Inl OUTDATED_VERSION else
     READ_FIELD (Read s) (\<lambda>min s.
     if min > PROTOCOL_VERSION_USING then Inl UNKNOWN_VERSION else
     READ_FIELD (Read s) (\<lambda>type s.
     if type = 0 then Inl INVALID_MESSAGE else
     if type \<ge> 11 then Inl UNKNOWN_MESSAGE else
     READ_FIELD (Read s) (\<lambda>flags s.
     READ_FIELD (Read s) (\<lambda>extension s.
     let h = \<lparr>version_using = using, version_min = min, mh_type = message_type_of type, mh_flags = flags,
              mh_extension = extension, peer_endpoint = Endpoint_new, payload_length = 0\<rparr> in
     if GetFlag PROXY h then
       READ_FIELD (Read s) (\<lambda>ip s.
       READ_FIELD (Read s) (\<lambda>port s.
       READ_FIELD (Read s) (\<lambda>len s.
       Inr (h\<lparr>peer_endpoint := \<lparr>ep_ip = ip, ep_port = port\<rparr>, payload_length := len\<rparr>, s))))
     else Inr (h, s)))))))"

section \<open>Handshake\<close>

record handshake_message =
  hs_header :: message_header
  hs_timestamp :: u64
  hs_cookie :: u256
  hs_account :: u256
  hs_signature :: u512

definition REQUEST :: u16 where "REQUEST = 1"
definition RESPONSE :: u16 where "RESPONSE = 2"

definition HandshakeMessage_request :: "env \<Rightarrow> u256 \<Rightarrow> u256 \<Rightarrow> handshake_message" where
  "HandshakeMessage_request E account cookie =
     \<lparr>hs_header = MessageHeader_new HANDSHAKE REQUEST, hs_timestamp = CurrentTimestamp E, hs_cookie = cookie,
      hs_account = account, hs_signature = 0\<rparr>"

definition HandshakeMessage_response :: "u256 \<Rightarrow> u512 \<Rightarrow> handshake_message" where
  "HandshakeMessage_response account signature =
     \<lparr>hs_header = MessageHeader_new HANDSHAKE RESPONSE, hs_timestamp = 0, hs_cookie = 0, hs_account = account,
      hs_signature = signature\<rparr>"

definition HandshakeMessage_Serialize :: "env \<Rightarrow> handshake_message \<Rightarrow> bytes" where
  "HandshakeMessage_Serialize E m =
     MessageHeader_Serialize E (hs_header m) @
     (if mh_extension (hs_header m) = REQUEST
      then Write (hs_timestamp m) @ Write (hs_cookie m) @ Write (hs_account m)
      else Write (hs_account m) @ Write (hs_signature m))"

definition HandshakeMessage_parse :: "message_header \<Rightarrow> bytes \<Rightarrow> message_code + handshake_message \<times> bytes" where
  "HandshakeMessage_parse h s =
     (if mh_extension h \<noteq> REQUEST \<and> mh_extension h \<noteq> RESPONSE then Inl HANDSHAKE_TYPE
      else if mh_extension h = REQUEST then
        READ_FIELD (Read s) (\<lambda>timestamp s.
        READ_FIELD (Read s) (\<lambda>cookie s.
        READ_FIELD (Read s) (\<lambda>account s.
        Inr (\<lparr>hs_header = h, hs_timestamp = timestamp, hs_cookie = cookie, hs_account = account, hs_signature = 0\<rparr>, s))))
      else
        READ_FIELD (Read s) (\<lambda>account s.
        READ_FIELD (Read s) (\<lambda>signature s.
        Inr (\<lparr>hs_header = h, hs_timestamp = 0, hs_cookie = 0, hs_account = account, hs_signature = signature\<rparr>, s))))"

section \<open>Keeplive\<close>

record keeplive_message =
  kl_header :: message_header
  kl_peers :: "(u256 \<times> endpoint) list"
  kl_timestamp :: u64
  kl_account :: u256
  kl_signature :: u512
  kl_hash :: u256

definition MAX_PEERS :: nat where "MAX_PEERS = 8"

definition peer_total :: "message_header \<Rightarrow> u8" where
  "peer_total h = ucast (mh_extension h)"

definition ReachablePeers :: "message_header \<Rightarrow> u8" where
  "ReachablePeers h = ucast (drop_bit 8 (mh_extension h))"

text \<open>The constructor throws when there are too many peers.\<close>

definition KeepliveMessage_new :: "env \<Rightarrow> (u256 \<times> endpoint) list \<Rightarrow> u256 \<Rightarrow> u8 \<Rightarrow> keeplive_message option" where
  "KeepliveMessage_new E peers account reachable =
     (if length peers > MAX_PEERS then None
      else Some \<lparr>kl_header = MessageHeader_new KEEPLIVE (push_bit 8 (ucast reachable) + of_nat (length peers)),
        kl_peers = peers, kl_timestamp = CurrentTimestamp E, kl_account = account, kl_signature = 0, kl_hash = 0\<rparr>)"

definition KeepliveMessage_ack :: "u256 \<Rightarrow> u256 \<Rightarrow> keeplive_message" where
  "KeepliveMessage_ack hash account =
     \<lparr>kl_header = SetFlag ACK (MessageHeader_new KEEPLIVE 0), kl_peers = [], kl_timestamp = 0, kl_account = account,
      kl_signature = 0, kl_hash = hash\<rparr>"

definition KeepliveMessage_body :: "keeplive_message \<Rightarrow> bytes" where
  "KeepliveMessage_body m =
     (if GetFlag ACK (kl_header m) then Write (kl_hash m) @ Write (kl_account m)
      else concat (map (\<lambda>(account, endpoint). Write account @ Endpoint_Write endpoint) (kl_peers m)) @
        Write (kl_timestamp m) @ Write (kl_account m) @ Write (kl_signature m))"

definition KeepliveMessage_Serialize :: "env \<Rightarrow> keeplive_message \<Rightarrow> bytes" where
  "KeepliveMessage_Serialize E m = MessageHeader_Serialize E (kl_header m) @ KeepliveMessage_body m"

definition KeepliveMessage_Hash :: "env \<Rightarrow> keeplive_message \<Rightarrow> u256" where
  "KeepliveMessage_Hash E m =
     (let bytes = KeepliveMessage_body m in blake2b E (take (length bytes - 64) bytes))"

definition KeepliveMessage_CheckSignature :: "env \<Rightarrow> keeplive_message \<Rightarrow> bool" where
  "KeepliveMessage_CheckSignature E m = ValidateMessage E (kl_account m) (KeepliveMessage_Hash E m) (kl_signature m)"

fun KeepliveMessage_peers ::
  "nat \<Rightarrow> (u256 \<times> endpoint) list \<Rightarrow> bytes \<Rightarrow> message_code + (u256 \<times> endpoint) list \<times> bytes" where
  "KeepliveMessage_peers 0 peers s = Inr (peers, s)"
| "KeepliveMessage_peers (Suc n) peers s =
     READ_FIELD (Read s) (\<lambda>account s.
     READ_FIELD (Read s) (\<lambda>ip s.
     READ_FIELD (Read s) (\<lambda>port s.
     KeepliveMessage_peers n (peers @ [(account, \<lparr>ep_ip = ip, ep_port = port\<rparr>)]) s)))"

definition KeepliveMessage_parse :: "message_header \<Rightarrow> bytes \<Rightarrow> message_code + keeplive_message \<times> bytes" where
  "KeepliveMessage_parse h s =
     (if unat (peer_total h) > MAX_PEERS then Inl KEEPLIVE_PEERS
      else if ReachablePeers h > peer_total h then Inl KEEPLIVE_REACHABLE_PEERS
      else if GetFlag ACK h then
        READ_FIELD (Read s) (\<lambda>hash s.
        READ_FIELD (Read s) (\<lambda>account s.
        Inr (\<lparr>kl_header = h, kl_peers = [], kl_timestamp = 0, kl_account = account, kl_signature = 0, kl_hash = hash\<rparr>, s)))
      else (case KeepliveMessage_peers (unat (peer_total h)) [] s of
        Inl code \<Rightarrow> Inl code
      | Inr (peers, s) \<Rightarrow>
          READ_FIELD (Read s) (\<lambda>timestamp s.
          READ_FIELD (Read s) (\<lambda>account s.
          READ_FIELD (Read s) (\<lambda>signature s.
          Inr (\<lparr>kl_header = h, kl_peers = peers, kl_timestamp = timestamp, kl_account = account,
                kl_signature = signature, kl_hash = 0\<rparr>, s))))))"

section \<open>Relay\<close>

record relay_message =
  rl_header :: message_header
  rl_payload :: bytes

definition RelayMessage_Serialize :: "env \<Rightarrow> relay_message \<Rightarrow> bytes" where
  "RelayMessage_Serialize E m = MessageHeader_Serialize E (rl_header m) @ rl_payload m"

definition RelayMessage_parse :: "message_header \<Rightarrow> bytes \<Rightarrow> message_code + relay_message \<times> bytes" where
  "RelayMessage_parse h s =
     READ_FIELD (Read_vector (unat (payload_length h)) [] s) (\<lambda>payload s.
     Inr (\<lparr>rl_header = SetFlag RELAY h, rl_payload = payload\<rparr>, s))"

section \<open>Publish\<close>

record publish_message =
  pb_header :: message_header
  pb_account :: u256
  pb_block :: block

definition PublishMessage_new :: "block \<Rightarrow> publish_message" where
  "PublishMessage_new block = \<lparr>pb_header = MessageHeader_new PUBLISH 0, pb_account = 0, pb_block = block\<rparr>"

definition PublishMessage_confirm :: "block \<Rightarrow> u256 \<Rightarrow> publish_message" where
  "PublishMessage_confirm block account =
     \<lparr>pb_header = MessageHeader_new PUBLISH 1, pb_account = account, pb_block = block\<rparr>"

definition NeedConfirm :: "publish_message \<Rightarrow> bool" where
  "NeedConfirm m = (if mh_extension (pb_header m) = 1 then True else False)"

definition PublishMessage_Serialize :: "env \<Rightarrow> publish_message \<Rightarrow> bytes" where
  "PublishMessage_Serialize E m =
     MessageHeader_Serialize E (pb_header m) @ (if NeedConfirm m then Write (pb_account m) else []) @ Serialize (pb_block m)"

definition PublishMessage_parse :: "message_header \<Rightarrow> bytes \<Rightarrow> message_code + publish_message \<times> bytes" where
  "PublishMessage_parse h s =
     (if mh_extension h \<noteq> 0 \<and> mh_extension h \<noteq> 1 then Inl PUBLISH_NEED_CONFIRM
      else
        READ_FIELD (if mh_extension h = 1 then Read s else Some (0, s)) (\<lambda>account s.
        READ_BLOCK (DeserializeBlockUnverify s) Code (\<lambda>block s.
        Inr (\<lparr>pb_header = h, pb_account = account, pb_block = block\<rparr>, s))))"

section \<open>Confirm\<close>

record confirm_message =
  cf_header :: message_header
  cf_timestamp :: u64
  cf_representative :: u256
  cf_signature :: u512
  cf_block :: block

definition ConfirmMessage_new :: "u64 \<Rightarrow> u256 \<Rightarrow> u512 \<Rightarrow> block \<Rightarrow> confirm_message" where
  "ConfirmMessage_new timestamp representative signature block =
     \<lparr>cf_header = MessageHeader_new CONFIRM_VOTE 0, cf_timestamp = timestamp, cf_representative = representative,
      cf_signature = signature, cf_block = block\<rparr>"

definition ConfirmMessage_Serialize :: "env \<Rightarrow> confirm_message \<Rightarrow> bytes" where
  "ConfirmMessage_Serialize E m =
     MessageHeader_Serialize E (cf_header m) @ Write (cf_timestamp m) @ Write (cf_representative m) @
     Write (cf_signature m) @ Serialize (cf_block m)"

definition ConfirmMessage_Hash :: "env \<Rightarrow> confirm_message \<Rightarrow> u256" where
  "ConfirmMessage_Hash E m =
     blake2b E (Write (cf_timestamp m) @ Write (cf_representative m) @ Write (Hash E (cf_block m)))"

definition ConfirmMessage_parse :: "env \<Rightarrow> message_header \<Rightarrow> bytes \<Rightarrow> message_code + confirm_message \<times> bytes" where
  "ConfirmMessage_parse E h s =
     READ_FIELD (Read s) (\<lambda>timestamp s.
     READ_FIELD (Read s) (\<lambda>representative s.
     READ_FIELD (Read s) (\<lambda>signature s.
     READ_BLOCK (DeserializeBlock E s) Code (\<lambda>block s.
     let m = \<lparr>cf_header = h, cf_timestamp = timestamp, cf_representative = representative, cf_signature = signature,
              cf_block = block\<rparr> in
     if ValidateMessage E representative (ConfirmMessage_Hash E m) signature then Inl MESSAGE_CONFIRM_SIGNATURE
     else Inr (m, s)))))"

section \<open>Query\<close>

datatype query_by = BY_INVALID | BY_HASH | BY_HEIGHT | BY_PREVIOUS

datatype query_status =
  STATUS_INVALID | STATUS_SUCCESS | STATUS_MISS | STATUS_PRUNED | STATUS_FORK | STATUS_PENDING | STATUS_TIMEOUT

fun of_query_by :: "query_by \<Rightarrow> u8" where
  "of_query_by BY_INVALID = 0" | "of_query_by BY_HASH = 1" | "of_query_by BY_HEIGHT = 2" | "of_query_by BY_PREVIOUS = 3"

fun of_query_status :: "query_status \<Rightarrow> u8" where
  "of_query_status STATUS_INVALID = 0" | "of_query_status STATUS_SUCCESS = 1" | "of_query_status STATUS_MISS = 2"
| "of_query_status STATUS_PRUNED = 3" | "of_query_status STATUS_FORK = 4" | "of_query_status STATUS_PENDING = 254"
| "of_query_status STATUS_TIMEOUT = 255"

record query_message =
  qr_header :: message_header
  qr_sequence :: u64
  qr_account :: u256
  qr_height :: u64
  qr_hash :: u256
  qr_block :: "block option"

definition QueryBy :: "message_header \<Rightarrow> query_by" where
  "QueryBy h =
     (let by = (ucast (drop_bit 8 (mh_extension h)) :: u8) in
      if by \<ge> 4 then BY_INVALID
      else if by = 1 then BY_HASH else if by = 2 then BY_HEIGHT else if by = 3 then BY_PREVIOUS else BY_INVALID)"

definition QueryStatus :: "message_header \<Rightarrow> query_status" where
  "QueryStatus h =
     (let status = (ucast (mh_extension h) :: u8) in
      if status \<ge> 5 then STATUS_INVALID
      else if status = 1 then STATUS_SUCCESS else if status = 2 then STATUS_MISS else if status = 3 then STATUS_PRUNED
      else if status = 4 then STATUS_FORK else STATUS_INVALID)"

definition ToExtention :: "query_by \<Rightarrow> query_status \<Rightarrow> u16" where
  "ToExtention by status = or (push_bit 8 (ucast (of_query_by by))) (ucast (of_query_status status))"

definition SetStatus :: "query_status \<Rightarrow> query_message \<Rightarrow> query_message" where
  "SetStatus status m = m\<lparr>qr_header := (qr_header m)\<lparr>mh_extension :=
     or (and (mh_extension (qr_header m)) 0xFF00) (ucast (of_query_status status))\<rparr>\<rparr>"

definition QueryMessage_new :: "u64 \<Rightarrow> query_by \<Rightarrow> u256 \<Rightarrow> u64 \<Rightarrow> u256 \<Rightarrow> query_message" where
  "QueryMessage_new sequence by account height hash =
     \<lparr>qr_header = MessageHeader_new QUERY (ToExtention by STATUS_INVALID), qr_sequence = sequence, qr_account = account,
      qr_height = height, qr_hash = hash, qr_block = None\<rparr>"

definition query_has_hash :: "message_header \<Rightarrow> bool" where
  "query_has_hash h \<longleftrightarrow> QueryBy h = BY_HASH \<or> QueryBy h = BY_PREVIOUS"

definition query_has_block :: "message_header \<Rightarrow> bool" where
  "query_has_block h \<longleftrightarrow> QueryStatus h = STATUS_SUCCESS \<or> QueryStatus h = STATUS_FORK"

definition QueryMessage_Serialize :: "env \<Rightarrow> query_message \<Rightarrow> bytes" where
  "QueryMessage_Serialize E m =
     (let h = qr_header m in
      MessageHeader_Serialize E h @ Write (qr_sequence m) @ Write (qr_account m) @ Write (qr_height m) @
      (if query_has_hash h then Write (qr_hash m) else []) @
      (case qr_block m of
         None \<Rightarrow> []
       | Some block \<Rightarrow> if GetFlag ACK h \<and> query_has_block h then Serialize block else []))"

definition QueryMessage_Check :: "env \<Rightarrow> query_message \<Rightarrow> message_code" where
  "QueryMessage_Check E m = (case qr_block m of
     None \<Rightarrow> Code SUCCESS
   | Some block \<Rightarrow>
       (let by = QueryBy (qr_header m); status = QueryStatus (qr_header m) in
        if by = BY_HASH then
          (if status \<noteq> STATUS_SUCCESS then MESSAGE_QUERY_STATUS
           else if Account block \<noteq> qr_account m \<and> qr_account m \<noteq> 0 then MESSAGE_QUERY_BLOCK
           else if Height block \<noteq> qr_height m \<and> qr_height m \<noteq> INVALID_HEIGHT then MESSAGE_QUERY_BLOCK
           else if Hash E block \<noteq> qr_hash m then MESSAGE_QUERY_BLOCK
           else Code SUCCESS)
        else if by = BY_HEIGHT then
          (if status \<noteq> STATUS_SUCCESS then MESSAGE_QUERY_STATUS
           else if Account block \<noteq> qr_account m then MESSAGE_QUERY_BLOCK
           else if Height block \<noteq> qr_height m then MESSAGE_QUERY_BLOCK
           else Code SUCCESS)
        else if by = BY_PREVIOUS then
          (if status = STATUS_SUCCESS then
             (if Account block \<noteq> qr_account m then MESSAGE_QUERY_BLOCK
              else if Height block \<noteq> qr_height m then MESSAGE_QUERY_BLOCK
              else if Previous block \<noteq> qr_hash m then MESSAGE_QUERY_BLOCK
              else Code SUCCESS)
           else if status = STATUS_FORK then
             (if Account block \<noteq> qr_account m then MESSAGE_QUERY_BLOCK
              else if Height block + 1 \<noteq> qr_height m then MESSAGE_QUERY_BLOCK
              else if Hash E block = qr_hash m then MESSAGE_QUERY_BLOCK
              else Code SUCCESS)
           else MESSAGE_QUERY_STATUS)
        else MESSAGE_QUERY_BY))"

definition QueryMessage_parse :: "env \<Rightarrow> message_header \<Rightarrow> bytes \<Rightarrow> message_code + query_message \<times> bytes" where
  "QueryMessage_parse E h s =
     (if QueryBy h = BY_INVALID then Inl MESSAGE_QUERY_BY
      else if GetFlag ACK h \<and> QueryStatus h = STATUS_INVALID then Inl MESSAGE_QUERY_STATUS
      else
        READ_FIELD (Read s) (\<lambda>sequence s.
        READ_FIELD (Read s) (\<lambda>account s.
        READ_FIELD (Read s) (\<lambda>height s.
        READ_FIELD (if query_has_hash h then Read s else Some (0, s)) (\<lambda>hash s.
        let check = (\<lambda>block s.
          let m = \<lparr>qr_header = h, qr_sequence = sequence, qr_account = account, qr_height = height, qr_hash = hash,
                   qr_block = block\<rparr> in
          if QueryMessage_Check E m \<noteq> Code SUCCESS then Inl (QueryMessage_Check E m) else Inr (m, s)) in
        if GetFlag ACK h \<and> query_has_block h
        then READ_BLOCK (DeserializeBlock E s) Code (\<lambda>block s. check (Some block) s)
        else check None s)))))"

section \<open>Fork\<close>

record fork_message =
  fm_header :: message_header
  fm_first :: block
  fm_second :: block

definition ForkMessage_new :: "block \<Rightarrow> block \<Rightarrow> fork_message" where
  "ForkMessage_new first second = \<lparr>fm_header = MessageHeader_new FORK_FOUND 0, fm_first = first, fm_second = second\<rparr>"

definition ForkMessage_Serialize :: "env \<Rightarrow> fork_message \<Rightarrow> bytes" where
  "ForkMessage_Serialize E m =
     MessageHeader_Serialize E (fm_header m) @ Serialize (fm_first m) @ Serialize (fm_second m)"

definition ForkMessage_parse :: "env \<Rightarrow> message_header \<Rightarrow> bytes \<Rightarrow> message_code + fork_message \<times> bytes" where
  "ForkMessage_parse E h s =
     READ_BLOCK (DeserializeBlock E s) Code (\<lambda>first s.
     READ_BLOCK (DeserializeBlock E s) Code (\<lambda>second s.
     if Account first \<noteq> Account second then Inl MESSAGE_FORK_ACCOUNT
     else if Height first \<noteq> Height second then Inl MESSAGE_FORK_HEIGHT
     else if BlocksEqual first second then Inl MESSAGE_FORK_BLOCK_EQUAL
     else Inr (\<lparr>fm_header = h, fm_first = first, fm_second = second\<rparr>, s)))"

section \<open>Conflict\<close>

record conflict_message =
  cx_header :: message_header
  cx_representative :: u256
  cx_timestamp_first :: u64
  cx_timestamp_second :: u64
  cx_signature_first :: u512
  cx_signature_second :: u512
  cx_block_first :: block
  cx_block_second :: block

definition ConflictMessage_new ::
  "u256 \<Rightarrow> u64 \<Rightarrow> u64 \<Rightarrow> u512 \<Rightarrow> u512 \<Rightarrow> block \<Rightarrow> block \<Rightarrow> conflict_message" where
  "ConflictMessage_new representative timestamp_first timestamp_second signature_first signature_second block_first block_second =
     \<lparr>cx_header = MessageHeader_new CONFLICT 0, cx_representative = representative, cx_timestamp_first = timestamp_first,
      cx_timestamp_second = timestamp_second, cx_signature_first = signature_first,
      cx_signature_second = signature_second, cx_block_first = block_first, cx_block_second = block_second\<rparr>"

definition ConflictMessage_Serialize :: "env \<Rightarrow> conflict_message \<Rightarrow> bytes" where
  "ConflictMessage_Serialize E m =
     MessageHeader_Serialize E (cx_header m) @ Write (cx_representative m) @ Write (cx_timestamp_first m) @
     Write (cx_timestamp_second m) @ Write (cx_signature_first m) @ Write (cx_signature_second m) @
     Serialize (cx_block_first m) @ Serialize (cx_block_second m)"

definition ConflictMessage_Hash :: "env \<Rightarrow> u64 \<Rightarrow> u256 \<Rightarrow> block \<Rightarrow> u256" where
  "ConflictMessage_Hash E timestamp representative block =
     blake2b E (Write timestamp @ Write representative @ Write (Hash E block))"

definition ConflictMessage_Check :: "env \<Rightarrow> conflict_message \<Rightarrow> message_code" where
  "ConflictMessage_Check E m =
     (let rep = cx_representative m; first = cx_block_first m; second = cx_block_second m;
          diff = (if cx_timestamp_first m > cx_timestamp_second m then cx_timestamp_first m - cx_timestamp_second m
                  else cx_timestamp_second m - cx_timestamp_first m) in
      if Account first \<noteq> Account second then MESSAGE_CONFLICT_BLOCK
      else if Height first \<noteq> Height second then MESSAGE_CONFLICT_BLOCK
      else if diff = 0 \<and> BlocksEqual first second then MESSAGE_CONFLICT_BLOCK
      else if diff \<ge> MIN_CONFIRM_INTERVAL then MESSAGE_CONFLICT_TIMESTAMP
      else if ValidateMessage E rep (ConflictMessage_Hash E (cx_timestamp_first m) rep first) (cx_signature_first m)
        then MESSAGE_CONFLICT_SIGNATURE
      else if ValidateMessage E rep (ConflictMessage_Hash E (cx_timestamp_second m) rep second) (cx_signature_second m)
        then MESSAGE_CONFLICT_SIGNATURE
      else Code SUCCESS)"

definition ConflictMessage_parse :: "env \<Rightarrow> message_header \<Rightarrow> bytes \<Rightarrow> message_code + conflict_message \<times> bytes" where
  "ConflictMessage_parse E h s =
     READ_FIELD (Read s) (\<lambda>representative s.
     READ_FIELD (Read s) (\<lambda>timestamp_first s.
     READ_FIELD (Read s) (\<lambda>timestamp_second s.
     READ_FIELD (Read s) (\<lambda>signature_first s.
     READ_FIELD (Read s) (\<lambda>signature_second s.
     READ_BLOCK (DeserializeBlock E s) (\<lambda>_. MESSAGE_CONFLICT_BLOCK) (\<lambda>block_first s.
     READ_BLOCK (DeserializeBlock E s) (\<lambda>_. MESSAGE_CONFLICT_BLOCK) (\<lambda>block_second s.
     let m = \<lparr>cx_header = h, cx_representative = representative, cx_timestamp_first = timestamp_first,
              cx_timestamp_second = timestamp_second, cx_signature_first = signature_first,
              cx_signature_second = signature_second, cx_block_first = block_first, cx_block_second = block_second\<rparr> in
     if ConflictMessage_Check E m \<noteq> Code SUCCESS then Inl (ConflictMessage_Check E m) else Inr (m, s))))))))"

section \<open>Bootstrap\<close>

datatype bootstrap_type = BOOTSTRAP_INVALID | BOOTSTRAP_FULL | BOOTSTRAP_LIGHT | BOOTSTRAP_FORK | BOOTSTRAP_OTHER u8

definition bootstrap_type_of :: "u8 \<Rightarrow> bootstrap_type" where
  "bootstrap_type_of v =
     (if v = 0 then BOOTSTRAP_INVALID else if v = 1 then BOOTSTRAP_FULL else if v = 2 then BOOTSTRAP_LIGHT
      else if v = 3 then BOOTSTRAP_FORK else BOOTSTRAP_OTHER v)"

fun of_bootstrap_type :: "bootstrap_type \<Rightarrow> u8" where
  "of_bootstrap_type BOOTSTRAP_INVALID = 0" | "of_bootstrap_type BOOTSTRAP_FULL = 1" | "of_bootstrap_type BOOTSTRAP_LIGHT = 2"
| "of_bootstrap_type BOOTSTRAP_FORK = 3" | "of_bootstrap_type (BOOTSTRAP_OTHER v) = v"

record bootstrap_message =
  bt_header :: message_header
  bt_type :: bootstrap_type
  bt_start :: u256
  bt_height :: u64

definition BootstrapMessage_new :: "bootstrap_type \<Rightarrow> u256 \<Rightarrow> u64 \<Rightarrow> u16 \<Rightarrow> bootstrap_message" where
  "BootstrapMessage_new type start height max_size =
     \<lparr>bt_header = MessageHeader_new BOOTSTRAP max_size, bt_type = type, bt_start = start, bt_height = height\<rparr>"

definition MaxSize :: "bootstrap_message \<Rightarrow> u16" where
  "MaxSize m = mh_extension (bt_header m)"

definition BootstrapMessage_Serialize :: "env \<Rightarrow> bootstrap_message \<Rightarrow> bytes" where
  "BootstrapMessage_Serialize E m =
     MessageHeader_Serialize E (bt_header m) @ Write (of_bootstrap_type (bt_type m)) @ Write (bt_start m) @ Write (bt_height m)"

definition BootstrapMessage_parse :: "message_header \<Rightarrow> bytes \<Rightarrow> message_code + bootstrap_message \<times> bytes" where
  "BootstrapMessage_parse h s =
     READ_FIELD (Read s) (\<lambda>type s.
     READ_FIELD (Read s) (\<lambda>start s.
     READ_FIELD (Read s) (\<lambda>height s.
     if type = 0 \<or> type \<ge> 4 then Inl BOOTSTRAP_TYPE
     else Inr (\<lparr>bt_header = h, bt_type = bootstrap_type_of type, bt_start = start, bt_height = height\<rparr>, s))))"

section \<open>Weight\<close>

record weight_message =
  wm_header :: message_header
  wm_request_id :: u256
  wm_rep :: u256
  wm_epoch :: u32
  wm_weight :: u128
  wm_replier :: u256

definition WeightMessage_new :: "u256 \<Rightarrow> u256 \<Rightarrow> weight_message" where
  "WeightMessage_new request_id rep =
     \<lparr>wm_header = MessageHeader_new WEIGHT 0, wm_request_id = request_id, wm_rep = rep, wm_epoch = 0, wm_weight = 0, wm_replier = 0\<rparr>"

definition WeightMessage_Serialize :: "env \<Rightarrow> weight_message \<Rightarrow> bytes" where
  "WeightMessage_Serialize E m =
     MessageHeader_Serialize E (wm_header m) @ Write (wm_request_id m) @ Write (wm_rep m) @
     (if GetFlag ACK (wm_header m) then Write (wm_epoch m) @ Write (wm_weight m) @ Write (wm_replier m) else [])"

definition WeightMessage_parse :: "message_header \<Rightarrow> bytes \<Rightarrow> message_code + weight_message \<times> bytes" where
  "WeightMessage_parse h s =
     READ_FIELD (Read s) (\<lambda>request_id s.
     READ_FIELD (Read s) (\<lambda>rep s.
     if GetFlag ACK h then
       READ_FIELD (Read s) (\<lambda>epoch s.
       READ_FIELD (Read s) (\<lambda>weight s.
       READ_FIELD (Read s) (\<lambda>replier s.
       Inr (\<lparr>wm_header = h, wm_request_id = request_id, wm_rep = rep, wm_epoch = epoch, wm_weight = weight,
             wm_replier = replier\<rparr>, s))))
     else Inr (\<lparr>wm_header = h, wm_request_id = request_id, wm_rep = rep, wm_epoch = 0, wm_weight = 0, wm_replier = 0\<rparr>, s)))"

section \<open>Crosschain\<close>

record crosschain_message =
  cc_header :: message_header
  cc_source :: u256
  cc_destination :: u256
  cc_chain :: chain
  cc_payload :: bytes

definition CrosschainMessage_new :: "u256 \<Rightarrow> u256 \<Rightarrow> chain \<Rightarrow> bytes \<Rightarrow> crosschain_message" where
  "CrosschainMessage_new source destination chain payload =
     \<lparr>cc_header = MessageHeader_new CROSSCHAIN 0, cc_source = source, cc_destination = destination, cc_chain = chain,
      cc_payload = payload\<rparr>"

definition CrosschainMessage_Serialize :: "env \<Rightarrow> crosschain_message \<Rightarrow> bytes" where
  "CrosschainMessage_Serialize E m =
     (let len = (of_nat (length (cc_payload m)) :: u16) in
      MessageHeader_Serialize E (cc_header m) @ Write (cc_source m) @ Write (cc_destination m) @ Write (cc_chain m) @
      Write len @ (if len > 0 then Write_vector (unat len) (cc_payload m) else []))"

definition CrosschainMessage_parse :: "message_header \<Rightarrow> bytes \<Rightarrow> message_code + crosschain_message \<times> bytes" where
  "CrosschainMessage_parse h s =
     READ_FIELD (Read s) (\<lambda>source s.
     READ_FIELD (Read s) (\<lambda>destination s.
     READ_FIELD (Read s) (\<lambda>chain s.
     READ_FIELD (Read s) (\<lambda>len s.
     READ_FIELD (if len > 0 then Read_vector (unat (len :: u16)) [] s else Some ([], s)) (\<lambda>payload s.
     Inr (\<lparr>cc_header = h, cc_source = source, cc_destination = destination, cc_chain = chain, cc_payload = payload\<rparr>, s))))))"

section \<open>Messages and the parser\<close>

datatype message =
  Handshake handshake_message
| Keeplive keeplive_message
| Relay relay_message
| Publish publish_message
| Confirm confirm_message
| Query query_message
| Fork fork_message
| Conflict conflict_message
| Weight weight_message
| Crosschain crosschain_message

fun header_of :: "message \<Rightarrow> message_header" where
  "header_of (Handshake m) = hs_header m" | "header_of (Keeplive m) = kl_header m" | "header_of (Relay m) = rl_header m"
| "header_of (Publish m) = pb_header m" | "header_of (Confirm m) = cf_header m" | "header_of (Query m) = qr_header m"
| "header_of (Fork m) = fm_header m" | "header_of (Conflict m) = cx_header m" | "header_of (Weight m) = wm_header m"
| "header_of (Crosschain m) = cc_header m"

fun map_header :: "(message_header \<Rightarrow> message_header) \<Rightarrow> message \<Rightarrow> message" where
  "map_header f (Handshake m) = Handshake (m\<lparr>hs_header := f (hs_header m)\<rparr>)"
| "map_header f (Keeplive m) = Keeplive (m\<lparr>kl_header := f (kl_header m)\<rparr>)"
| "map_header f (Relay m) = Relay (m\<lparr>rl_header := f (rl_header m)\<rparr>)"
| "map_header f (Publish m) = Publish (m\<lparr>pb_header := f (pb_header m)\<rparr>)"
| "map_header f (Confirm m) = Confirm (m\<lparr>cf_header := f (cf_header m)\<rparr>)"
| "map_header f (Query m) = Query (m\<lparr>qr_header := f (qr_header m)\<rparr>)"
| "map_header f (Fork m) = Fork (m\<lparr>fm_header := f (fm_header m)\<rparr>)"
| "map_header f (Conflict m) = Conflict (m\<lparr>cx_header := f (cx_header m)\<rparr>)"
| "map_header f (Weight m) = Weight (m\<lparr>wm_header := f (wm_header m)\<rparr>)"
| "map_header f (Crosschain m) = Crosschain (m\<lparr>cc_header := f (cc_header m)\<rparr>)"

fun ToBytes :: "env \<Rightarrow> message \<Rightarrow> bytes" where
  "ToBytes E (Handshake m) = HandshakeMessage_Serialize E m"
| "ToBytes E (Keeplive m) = KeepliveMessage_Serialize E m"
| "ToBytes E (Relay m) = RelayMessage_Serialize E m"
| "ToBytes E (Publish m) = PublishMessage_Serialize E m"
| "ToBytes E (Confirm m) = ConfirmMessage_Serialize E m"
| "ToBytes E (Query m) = QueryMessage_Serialize E m"
| "ToBytes E (Fork m) = ForkMessage_Serialize E m"
| "ToBytes E (Conflict m) = ConflictMessage_Serialize E m"
| "ToBytes E (Weight m) = WeightMessage_Serialize E m"
| "ToBytes E (Crosschain m) = CrosschainMessage_Serialize E m"

definition EnableProxy :: "env \<Rightarrow> endpoint \<Rightarrow> message \<Rightarrow> message" where
  "EnableProxy E e m =
     (let m = map_header (\<lambda>h. (SetFlag PROXY h)\<lparr>peer_endpoint := e\<rparr>) m;
          header_bytes = MessageHeader_Serialize E (header_of m); all_bytes = ToBytes E m
      in map_header (\<lambda>h. h\<lparr>payload_length := of_nat (length all_bytes - length header_bytes)\<rparr>) m)"

definition DisableProxy :: "message \<Rightarrow> message" where
  "DisableProxy m = map_header (ClearFlag PROXY) m"

text \<open>\<open>Parse<T>\<close>: a message is handed to the visitor only when its bytes end with it.\<close>

definition Parse_as :: "('m \<Rightarrow> message) \<Rightarrow> message_code + 'm \<times> bytes \<Rightarrow> message_code + message" where
  "Parse_as wrap r = (case r of
     Inl code \<Rightarrow> Inl code
   | Inr (m, s) \<Rightarrow> if \<not> StreamEnd s then Inl (Code STREAM) else Inr (wrap m))"

definition MessageParser_Parse :: "env \<Rightarrow> bytes \<Rightarrow> message_code + message" where
  "MessageParser_Parse E s = (case MessageHeader_Deserialize E s of
     Inl code \<Rightarrow> Inl code
   | Inr (h, s) \<Rightarrow>
       if GetFlag PROXY h \<and> \<not> GetFlag RELAY h then Parse_as Relay (RelayMessage_parse h s)
       else (case mh_type h of
         HANDSHAKE \<Rightarrow> Parse_as Handshake (HandshakeMessage_parse h s)
       | KEEPLIVE \<Rightarrow> Parse_as Keeplive (KeepliveMessage_parse h s)
       | PUBLISH \<Rightarrow> Parse_as Publish (PublishMessage_parse h s)
       | CONFIRM_VOTE \<Rightarrow> Parse_as Confirm (ConfirmMessage_parse E h s)
       | QUERY \<Rightarrow> Parse_as Query (QueryMessage_parse E h s)
       | FORK_FOUND \<Rightarrow> Parse_as Fork (ForkMessage_parse E h s)
       | CONFLICT \<Rightarrow> Parse_as Conflict (ConflictMessage_parse E h s)
       | WEIGHT \<Rightarrow> Parse_as Weight (WeightMessage_parse h s)
       | CROSSCHAIN \<Rightarrow> Parse_as Crosschain (CrosschainMessage_parse h s)
       | _ \<Rightarrow> Inl UNKNOWN_MESSAGE))"

end
