(* ===== verification/MessageCodecs.thy ===== *)
theory MessageCodecs
  imports Messages
begin

text \<open>
  The parser of messages accepts exactly what the serialiser writes: \<open>message_ok\<close> characterises the messages the visitor
  sees, every one of them is parsed back from its bytes, and no other byte string is accepted.
\<close>

section \<open>Flags and headers\<close>

lemma flag_simps [simp]:
  "GetFlag f (SetFlag g h) \<longleftrightarrow> f = g \<or> GetFlag f h"
  "GetFlag f (ClearFlag g h) \<longleftrightarrow> f \<noteq> g \<and> GetFlag f h"
  by (cases f; cases g; simp add: GetFlag_def SetFlag_def ClearFlag_def bit_set_bit_iff bit_unset_bit_iff)+

lemma flag_fields [simp]:
  "mh_type (SetFlag f h) = mh_type h" "mh_extension (SetFlag f h) = mh_extension h"
  "version_using (SetFlag f h) = version_using h" "version_min (SetFlag f h) = version_min h"
  "peer_endpoint (SetFlag f h) = peer_endpoint h" "payload_length (SetFlag f h) = payload_length h"
  "mh_type (ClearFlag f h) = mh_type h" "mh_extension (ClearFlag f h) = mh_extension h"
  "version_using (ClearFlag f h) = version_using h" "version_min (ClearFlag f h) = version_min h"
  "peer_endpoint (ClearFlag f h) = peer_endpoint h" "payload_length (ClearFlag f h) = payload_length h"
  by (simp_all add: SetFlag_def ClearFlag_def)

lemma flag_fields_only [simp]:
  "GetFlag f (h\<lparr>peer_endpoint := e\<rparr>) = GetFlag f h" "GetFlag f (h\<lparr>payload_length := n\<rparr>) = GetFlag f h"
  by (simp_all add: GetFlag_def)

lemma unset_set_bit: "\<not> bit w k \<Longrightarrow> unset_bit k (set_bit k w) = (w :: 'a::len word)"
  by (rule bit_word_eqI) (metis bit_set_bit_iff bit_unset_bit_iff)

lemma set_unset_bit: "bit w k \<Longrightarrow> set_bit k (unset_bit k w) = (w :: 'a::len word)"
  by (rule bit_word_eqI) (auto simp: bit_set_bit_iff bit_unset_bit_iff)

lemma Clear_Set_flag: "\<not> GetFlag f h \<Longrightarrow> ClearFlag f (SetFlag f h) = h"
  by (simp add: GetFlag_def SetFlag_def ClearFlag_def unset_set_bit)

lemma Set_Clear_flag: "GetFlag f h \<Longrightarrow> SetFlag f (ClearFlag f h) = h"
  by (simp add: GetFlag_def SetFlag_def ClearFlag_def set_unset_bit)

lemma READ_FIELD_simps [simp]: "READ_FIELD (Some (x, s)) k = k x s" "READ_FIELD None k = Inl (Code STREAM)"
  by (simp_all add: READ_FIELD_def)

lemma READ_BLOCK_simps [simp]: "READ_BLOCK (Inr (b, s)) c k = k b s" "READ_BLOCK (Inl e) c k = Inl (c e)"
  by (simp_all add: READ_BLOCK_def)

lemma READ_FIELD_Inr: "READ_FIELD r k = Inr y \<longleftrightarrow> (\<exists>x s. r = Some (x, s) \<and> k x s = Inr y)"
  by (auto simp: READ_FIELD_def split: option.splits)

lemma READ_BLOCK_Inr: "READ_BLOCK r c k = Inr y \<longleftrightarrow> (\<exists>b s. r = Inr (b, s) \<and> k b s = Inr y)"
  by (auto simp: READ_BLOCK_def split: sum.splits)

lemma sgetn_2: "sgetn 2 s = Some (m, rest) \<longleftrightarrow> length m = 2 \<and> s = m @ rest"
  by (auto simp: sgetn_def)

lemma sgetn_magic [simp]: "sgetn 2 (MagicNumber net @ s) = Some (MagicNumber net, s)"
  by (simp add: sgetn_2 MagicNumber_def)

definition header_ok :: "message_header \<Rightarrow> bool" where
  "header_ok h \<longleftrightarrow> PROTOCOL_VERSION_MIN \<le> version_using h \<and> version_min h \<le> PROTOCOL_VERSION_USING \<and>
     (\<forall>v. mh_type h \<noteq> MESSAGE_OTHER v) \<and> mh_type h \<noteq> MESSAGE_INVALID \<and>
     (\<not> GetFlag PROXY h \<longrightarrow> peer_endpoint h = Endpoint_new \<and> payload_length h = 0)"

lemma message_type_round_trip:
  "(\<forall>v. t \<noteq> MESSAGE_OTHER v) \<Longrightarrow> message_type_of (of_message_type t) = t"
  "of_message_type (message_type_of v) = v"
  by (cases t; simp add: message_type_of_def) (simp add: message_type_of_def)

lemma Write_not_Nil [simp]: "Write (v :: u16) \<noteq> []" "Write (v' :: u32) \<noteq> []"
  by (auto dest: arg_cong [where f = length])

lemma known_type_values:
  assumes "\<forall>v. t \<noteq> MESSAGE_OTHER v" "t \<noteq> MESSAGE_INVALID"
  shows "of_message_type t \<noteq> 0" "\<not> 11 \<le> of_message_type t" "message_type_of (of_message_type t) = t"
proof -
  show "of_message_type t \<noteq> 0" using assms by (cases t) simp_all
  show "\<not> 11 \<le> of_message_type t" using assms by (cases t) (simp_all add: word_le_nat_alt)
  show "message_type_of (of_message_type t) = t" using assms by (simp add: message_type_round_trip)
qed

lemma header_parses:
  assumes "header_ok h"
  shows "MessageHeader_Deserialize E (MessageHeader_Serialize E h @ rest) = Inr (h, rest)"
proof -
  obtain u m t f x ip port n where h: "h = \<lparr>version_using = u, version_min = m, mh_type = t, mh_flags = f, mh_extension = x,
    peer_endpoint = \<lparr>ep_ip = ip, ep_port = port\<rparr>, payload_length = n\<rparr>" by (metis message_header.surjective endpoint.surjective old.unit.exhaust)
  have known: "\<forall>v. t \<noteq> MESSAGE_OTHER v" "t \<noteq> MESSAGE_INVALID" using assms by (simp_all add: header_ok_def h)
  have t: "of_message_type t \<noteq> 0" "\<not> 11 \<le> of_message_type t" "message_type_of (of_message_type t) = t"
    using known_type_values [OF known] by simp_all
  have v: "\<not> u < PROTOCOL_VERSION_MIN" "\<not> PROTOCOL_VERSION_USING < m" using assms by (simp_all add: header_ok_def h not_less)
  show ?thesis
  proof (cases "bit f 0")
    case True
    then show ?thesis
      by (simp add: h MessageHeader_Serialize_def MessageHeader_Deserialize_def codec_simps Let_def Endpoint_Write_def t v GetFlag_def)
  next
    case False
    then have "\<lparr>ep_ip = ip, ep_port = port\<rparr> = Endpoint_new" "n = 0" using assms by (simp_all add: header_ok_def h GetFlag_def)
    with False show ?thesis
      by (simp add: h MessageHeader_Serialize_def MessageHeader_Deserialize_def codec_simps Let_def Endpoint_Write_def t v GetFlag_def)
  qed
qed

lemma known_message_type:
  assumes "v \<noteq> 0" "\<not> 11 \<le> v"
  shows "(\<forall>u. message_type_of v \<noteq> MESSAGE_OTHER u) \<and> message_type_of v \<noteq> MESSAGE_INVALID"
proof -
  have "unat v \<in> {1, 2, 3, 4, 5, 6, 7, 8, 9, 10}"
    using assms by (simp add: word_le_nat_alt word_unat_eq_iff) arith
  then show ?thesis by (auto simp: message_type_of_def word_unat_eq_iff)
qed

lemma header_only:
  assumes "MessageHeader_Deserialize E s = Inr (h, rest)"
  shows "header_ok h \<and> s = MessageHeader_Serialize E h @ rest"
proof (cases "GetFlag PROXY h")
  case True
  with assms known_message_type show ?thesis
    by (auto simp: MessageHeader_Deserialize_def READ_FIELD_Inr Let_def MessageHeader_Serialize_def sgetn_2 GetFlag_def
      message_type_round_trip header_ok_def Endpoint_Write_def dest!: Write_Read_widths split: if_split_asm)
next
  case False
  with assms known_message_type show ?thesis
    by (auto simp: MessageHeader_Deserialize_def READ_FIELD_Inr Let_def MessageHeader_Serialize_def sgetn_2 GetFlag_def
      message_type_round_trip header_ok_def Endpoint_Write_def dest!: Write_Read_widths split: if_split_asm)
qed

section \<open>What the visitor sees\<close>

definition block_ok :: "env \<Rightarrow> block \<Rightarrow> bool" where
  "block_ok E b \<longleftrightarrow> block_wf b \<and> \<not> CheckSignature E b"

lemma DeserializeBlock_ok: "block_ok E b \<Longrightarrow> DeserializeBlock E (Serialize b @ rest) = Inr (b, rest)"
  by (simp add: block_ok_def DeserializeBlock_def DeserializeBlockUnverify_Serialize)

lemma DeserializeBlock_only: "DeserializeBlock E s = Inr (b, rest) \<Longrightarrow> block_ok E b \<and> s = Serialize b @ rest"
  by (auto simp: DeserializeBlock_def block_ok_def dest!: DeserializeBlockUnverify_Inr split: sum.splits if_splits)

fun message_ok :: "env \<Rightarrow> message \<Rightarrow> bool" where
  "message_ok E (Handshake m) \<longleftrightarrow> mh_type (hs_header m) = HANDSHAKE \<and>
     (mh_extension (hs_header m) = REQUEST \<and> hs_signature m = 0 \<or>
      mh_extension (hs_header m) = RESPONSE \<and> hs_timestamp m = 0 \<and> hs_cookie m = 0)"
| "message_ok E (Keeplive m) \<longleftrightarrow> mh_type (kl_header m) = KEEPLIVE \<and>
     unat (peer_total (kl_header m)) \<le> MAX_PEERS \<and> ReachablePeers (kl_header m) \<le> peer_total (kl_header m) \<and>
     (if GetFlag ACK (kl_header m) then kl_peers m = [] \<and> kl_timestamp m = 0 \<and> kl_signature m = 0
      else length (kl_peers m) = unat (peer_total (kl_header m)) \<and> kl_hash m = 0)"
| "message_ok E (Relay m) \<longleftrightarrow> GetFlag RELAY (rl_header m) \<and> GetFlag PROXY (rl_header m) \<and>
     length (rl_payload m) = unat (payload_length (rl_header m))"
| "message_ok E (Publish m) \<longleftrightarrow> mh_type (pb_header m) = PUBLISH \<and> block_wf (pb_block m) \<and>
     (mh_extension (pb_header m) = 1 \<or> mh_extension (pb_header m) = 0 \<and> pb_account m = 0)"
| "message_ok E (Confirm m) \<longleftrightarrow> mh_type (cf_header m) = CONFIRM_VOTE \<and> block_ok E (cf_block m) \<and>
     \<not> ValidateMessage E (cf_representative m) (ConfirmMessage_Hash E m) (cf_signature m)"
| "message_ok E (Query m) \<longleftrightarrow> mh_type (qr_header m) = QUERY \<and> QueryBy (qr_header m) \<noteq> BY_INVALID \<and>
     (GetFlag ACK (qr_header m) \<longrightarrow> QueryStatus (qr_header m) \<noteq> STATUS_INVALID) \<and>
     (\<not> query_has_hash (qr_header m) \<longrightarrow> qr_hash m = 0) \<and>
     (if GetFlag ACK (qr_header m) \<and> query_has_block (qr_header m) then \<exists>b. qr_block m = Some b \<and> block_ok E b
      else qr_block m = None) \<and> QueryMessage_Check E m = Code SUCCESS"
| "message_ok E (Fork m) \<longleftrightarrow> mh_type (fm_header m) = FORK_FOUND \<and> block_ok E (fm_first m) \<and> block_ok E (fm_second m) \<and>
     ForkWith (fm_first m) (fm_second m)"
| "message_ok E (Conflict m) \<longleftrightarrow> mh_type (cx_header m) = CONFLICT \<and> block_ok E (cx_block_first m) \<and>
     block_ok E (cx_block_second m) \<and> ConflictMessage_Check E m = Code SUCCESS"
| "message_ok E (Weight m) \<longleftrightarrow> mh_type (wm_header m) = WEIGHT \<and>
     (\<not> GetFlag ACK (wm_header m) \<longrightarrow> wm_epoch m = 0 \<and> wm_weight m = 0 \<and> wm_replier m = 0)"
| "message_ok E (Crosschain m) \<longleftrightarrow> mh_type (cc_header m) = CROSSCHAIN \<and> length (cc_payload m) < 2 ^ 16"

definition accepted :: "env \<Rightarrow> message \<Rightarrow> bool" where
  "accepted E m \<longleftrightarrow> header_ok (header_of m) \<and> message_ok E m \<and>
     ((\<exists>r. m = Relay r) \<or> \<not> (GetFlag PROXY (header_of m) \<and> \<not> GetFlag RELAY (header_of m)))"

text \<open>The bytes of a message after its header.\<close>

fun body :: "message \<Rightarrow> bytes" where
  "body (Handshake m) = (if mh_extension (hs_header m) = REQUEST
      then Write (hs_timestamp m) @ Write (hs_cookie m) @ Write (hs_account m)
      else Write (hs_account m) @ Write (hs_signature m))"
| "body (Keeplive m) = KeepliveMessage_body m"
| "body (Relay m) = rl_payload m"
| "body (Publish m) = (if NeedConfirm m then Write (pb_account m) else []) @ Serialize (pb_block m)"
| "body (Confirm m) = Write (cf_timestamp m) @ Write (cf_representative m) @ Write (cf_signature m) @ Serialize (cf_block m)"
| "body (Query m) = Write (qr_sequence m) @ Write (qr_account m) @ Write (qr_height m) @
     (if query_has_hash (qr_header m) then Write (qr_hash m) else []) @
     (case qr_block m of None \<Rightarrow> []
      | Some block \<Rightarrow> if GetFlag ACK (qr_header m) \<and> query_has_block (qr_header m) then Serialize block else [])"
| "body (Fork m) = Serialize (fm_first m) @ Serialize (fm_second m)"
| "body (Conflict m) = Write (cx_representative m) @ Write (cx_timestamp_first m) @ Write (cx_timestamp_second m) @
     Write (cx_signature_first m) @ Write (cx_signature_second m) @ Serialize (cx_block_first m) @ Serialize (cx_block_second m)"
| "body (Weight m) = Write (wm_request_id m) @ Write (wm_rep m) @
     (if GetFlag ACK (wm_header m) then Write (wm_epoch m) @ Write (wm_weight m) @ Write (wm_replier m) else [])"
| "body (Crosschain m) = Write (cc_source m) @ Write (cc_destination m) @ Write (cc_chain m) @
     Write (of_nat (length (cc_payload m)) :: u16) @
     (if (of_nat (length (cc_payload m)) :: u16) > 0
      then Write_vector (unat (of_nat (length (cc_payload m)) :: u16)) (cc_payload m) else [])"

lemma ToBytes_body: "ToBytes E m = MessageHeader_Serialize E (header_of m) @ body m"
  by (cases m) (simp_all add: HandshakeMessage_Serialize_def KeepliveMessage_Serialize_def RelayMessage_Serialize_def
    PublishMessage_Serialize_def ConfirmMessage_Serialize_def QueryMessage_Serialize_def ForkMessage_Serialize_def
    ConflictMessage_Serialize_def WeightMessage_Serialize_def CrosschainMessage_Serialize_def Let_def)

section \<open>Each class\<close>

lemma Handshake_parses:
  assumes "message_ok E (Handshake m)"
  shows "HandshakeMessage_parse (hs_header m) (body (Handshake m) @ rest) = Inr (m, rest)"
  using assms by (cases m) (auto simp: HandshakeMessage_parse_def codec_simps REQUEST_def RESPONSE_def)

lemma Handshake_only:
  assumes "HandshakeMessage_parse h s = Inr (m, rest)" "mh_type h = HANDSHAKE"
  shows "hs_header m = h \<and> message_ok E (Handshake m) \<and> s = body (Handshake m) @ rest"
  using assms by (auto simp: HandshakeMessage_parse_def READ_FIELD_Inr REQUEST_def RESPONSE_def dest!: Write_Read_widths split: if_splits)

lemma peers_parse:
  "KeepliveMessage_peers (length ps) acc (concat (map (\<lambda>(account, endpoint). Write account @ Endpoint_Write endpoint) ps) @ rest)
     = Inr (acc @ ps, rest)"
  by (induction ps arbitrary: acc) (auto simp: Endpoint_Write_def codec_simps)

lemma peers_only:
  "KeepliveMessage_peers n acc s = Inr (ps, rest) \<Longrightarrow> \<exists>qs. ps = acc @ qs \<and> length qs = n \<and>
     s = concat (map (\<lambda>(account, endpoint). Write account @ Endpoint_Write endpoint) qs) @ rest"
proof (induction n arbitrary: acc s)
  case (Suc n)
  then obtain a ip port s' where s: "s = Write a @ Write ip @ Write port @ s'"
    "KeepliveMessage_peers n (acc @ [(a, \<lparr>ep_ip = ip, ep_port = port\<rparr>)]) s' = Inr (ps, rest)"
    by (auto simp: READ_FIELD_Inr dest!: Write_Read_widths)
  from Suc.IH [OF s(2)] obtain qs where "ps = (acc @ [(a, \<lparr>ep_ip = ip, ep_port = port\<rparr>)]) @ qs" "length qs = n"
    "s' = concat (map (\<lambda>(account, endpoint). Write account @ Endpoint_Write endpoint) qs) @ rest" by blast
  with s(1) show ?case by (intro exI [of _ "(a, \<lparr>ep_ip = ip, ep_port = port\<rparr>) # qs"]) (simp add: Endpoint_Write_def)
qed simp

lemma Keeplive_parses:
  assumes "message_ok E (Keeplive m)"
  shows "KeepliveMessage_parse (kl_header m) (body (Keeplive m) @ rest) = Inr (m, rest)"
proof (cases "GetFlag ACK (kl_header m)")
  case True
  with assms show ?thesis
    by (cases m) (simp add: KeepliveMessage_parse_def KeepliveMessage_body_def codec_simps not_less)
next
  case False
  with assms have len: "unat (peer_total (kl_header m)) = length (kl_peers m)" by simp
  show ?thesis
    using assms False peers_parse [of "kl_peers m" "[]"]
    by (cases m) (simp add: KeepliveMessage_parse_def KeepliveMessage_body_def codec_simps not_less)
qed

lemma Keeplive_only:
  assumes "KeepliveMessage_parse h s = Inr (m, rest)" "mh_type h = KEEPLIVE"
  shows "kl_header m = h \<and> message_ok E (Keeplive m) \<and> s = body (Keeplive m) @ rest"
  using assms
  by (auto simp: KeepliveMessage_parse_def READ_FIELD_Inr not_less KeepliveMessage_body_def dest!: Write_Read_widths peers_only
    split: if_splits sum.splits)

lemma Relay_parses:
  assumes "GetFlag RELAY (rl_header m)" "length (rl_payload m) = unat (payload_length (rl_header m))"
  shows "RelayMessage_parse (ClearFlag RELAY (rl_header m)) (body (Relay m) @ rest) = Inr (m, rest)"
  using assms by (simp add: RelayMessage_parse_def codec_simps Set_Clear_flag)

lemma Relay_only:
  assumes "RelayMessage_parse h s = Inr (m, rest)" "GetFlag PROXY h"
  shows "rl_header m = SetFlag RELAY h \<and> message_ok E (Relay m) \<and> s = body (Relay m) @ rest"
  using assms by (auto simp: RelayMessage_parse_def READ_FIELD_Inr dest!: Read_vector_Some)

lemma Publish_parses:
  assumes "message_ok E (Publish m)"
  shows "PublishMessage_parse (pb_header m) (body (Publish m) @ rest) = Inr (m, rest)"
  using assms
  by (cases m) (auto simp: PublishMessage_parse_def NeedConfirm_def codec_simps DeserializeBlockUnverify_Serialize)

lemma Publish_only:
  assumes "PublishMessage_parse h s = Inr (m, rest)" "mh_type h = PUBLISH"
  shows "pb_header m = h \<and> message_ok E (Publish m) \<and> s = body (Publish m) @ rest"
  using assms
  by (auto simp: PublishMessage_parse_def NeedConfirm_def READ_FIELD_Inr READ_BLOCK_Inr
    dest!: Write_Read_widths DeserializeBlockUnverify_Inr split: if_splits)

lemma Confirm_parses:
  assumes "message_ok E (Confirm m)"
  shows "ConfirmMessage_parse E (cf_header m) (body (Confirm m) @ rest) = Inr (m, rest)"
  using assms by (cases m) (simp add: ConfirmMessage_parse_def codec_simps DeserializeBlock_ok Let_def)

lemma Confirm_only:
  assumes "ConfirmMessage_parse E h s = Inr (m, rest)" "mh_type h = CONFIRM_VOTE"
  shows "cf_header m = h \<and> message_ok E (Confirm m) \<and> s = body (Confirm m) @ rest"
  using assms
  by (auto simp: ConfirmMessage_parse_def READ_FIELD_Inr READ_BLOCK_Inr Let_def
    dest!: Write_Read_widths DeserializeBlock_only split: if_splits)

lemma Query_parses:
  assumes "message_ok E (Query m)"
  shows "QueryMessage_parse E (qr_header m) (body (Query m) @ rest) = Inr (m, rest)"
proof (cases m)
  case (fields h sequence account height hash block)
  show ?thesis
  proof (cases "GetFlag ACK h \<and> query_has_block h")
    case True
    with assms obtain b where b: "block = Some b" "block_ok E b" by (auto simp: fields)
    show ?thesis
      using assms True
      by (cases "query_has_hash h") (auto simp: QueryMessage_parse_def codec_simps DeserializeBlock_ok Let_def fields b)
  next
    case False
    with assms have b: "block = None" by (auto simp: fields)
    show ?thesis
      using assms False by (auto simp: QueryMessage_parse_def codec_simps Let_def fields b)
  qed
qed

lemma Query_only:
  assumes "QueryMessage_parse E h s = Inr (m, rest)" "mh_type h = QUERY"
  shows "qr_header m = h \<and> message_ok E (Query m) \<and> s = body (Query m) @ rest"
proof -
  define checked where "checked block s sequence account height hash =
    (let m = \<lparr>qr_header = h, qr_sequence = sequence, qr_account = account, qr_height = height, qr_hash = hash, qr_block = block\<rparr>
     in if QueryMessage_Check E m \<noteq> Code SUCCESS then Inl (QueryMessage_Check E m) else Inr (m, s))"
    for block and s :: bytes and sequence account height hash
  have guard: "QueryBy h \<noteq> BY_INVALID" "\<not> (GetFlag ACK h \<and> QueryStatus h = STATUS_INVALID)"
    using assms(1) by (auto simp: QueryMessage_parse_def split: if_split_asm)
  have eq: "QueryMessage_parse E h s =
    READ_FIELD (Read s) (\<lambda>sequence s. READ_FIELD (Read s) (\<lambda>account s. READ_FIELD (Read s) (\<lambda>height s.
      READ_FIELD (if query_has_hash h then Read s else Some (0, s)) (\<lambda>hash s.
        if GetFlag ACK h \<and> query_has_block h
        then READ_BLOCK (DeserializeBlock E s) Code (\<lambda>block s. checked (Some block) s sequence account height hash)
        else checked None s sequence account height hash))))"
    unfolding QueryMessage_parse_def if_not_P [OF guard(1)] if_not_P [OF guard(2)] checked_def Let_def ..
  obtain sequence account height s1 sa sb where "Read s = Some (sequence, sa)" "Read sa = Some (account, sb)"
    "Read sb = Some (height, s1)" and
    k1: "READ_FIELD (if query_has_hash h then Read s1 else Some (0, s1)) (\<lambda>hash s.
        if GetFlag ACK h \<and> query_has_block h
        then READ_BLOCK (DeserializeBlock E s) Code (\<lambda>block s. checked (Some block) s sequence account height hash)
        else checked None s sequence account height hash) = Inr (m, rest)"
    using assms(1) unfolding eq READ_FIELD_Inr [of "Read _"] by blast
  then have s: "s = Write sequence @ Write account @ Write height @ s1" by (auto dest!: Write_Read_widths)
  from k1 obtain hash s2 where s1: "(if query_has_hash h then Read s1 else Some (0, s1)) = Some (hash, s2)" and
    k: "(if GetFlag ACK h \<and> query_has_block h
        then READ_BLOCK (DeserializeBlock E s2) Code (\<lambda>block s. checked (Some block) s sequence account height hash)
        else checked None s2 sequence account height hash) = Inr (m, rest)"
    unfolding READ_FIELD_Inr by blast
  have s1': "s1 = (if query_has_hash h then Write hash else []) @ s2 \<and> (\<not> query_has_hash h \<longrightarrow> hash = 0)"
    using s1 by (cases "query_has_hash h") (auto dest: Write_Read_widths)
  show ?thesis
  proof (cases "GetFlag ACK h \<and> query_has_block h")
    case True
    then obtain b s3 where b: "DeserializeBlock E s2 = Inr (b, s3)" and "checked (Some b) s3 sequence account height hash = Inr (m, rest)"
      using k unfolding if_P [OF True] READ_BLOCK_Inr by blast
    then have "m = \<lparr>qr_header = h, qr_sequence = sequence, qr_account = account, qr_height = height, qr_hash = hash, qr_block = Some b\<rparr> \<and>
      s3 = rest \<and> QueryMessage_Check E m = Code SUCCESS"
      by (auto simp: checked_def Let_def split: if_split_asm)
    with DeserializeBlock_only [OF b] True guard s s1' assms(2) show ?thesis by (cases "query_has_hash h") auto
  next
    case False
    then have "checked None s2 sequence account height hash = Inr (m, rest)" using k unfolding if_not_P [OF False] by blast
    then have "m = \<lparr>qr_header = h, qr_sequence = sequence, qr_account = account, qr_height = height, qr_hash = hash, qr_block = None\<rparr> \<and>
      s2 = rest \<and> QueryMessage_Check E m = Code SUCCESS"
      by (auto simp: checked_def Let_def split: if_split_asm)
    with False guard s s1' assms(2) show ?thesis by auto
  qed
qed

lemma Fork_parses:
  assumes "message_ok E (Fork m)"
  shows "ForkMessage_parse E (fm_header m) (body (Fork m) @ rest) = Inr (m, rest)"
  using assms by (cases m) (simp add: ForkMessage_parse_def DeserializeBlock_ok ForkWith_iff BlocksEqual_iff)

lemma Fork_only:
  assumes "ForkMessage_parse E h s = Inr (m, rest)" "mh_type h = FORK_FOUND"
  shows "fm_header m = h \<and> message_ok E (Fork m) \<and> s = body (Fork m) @ rest"
  using assms
  by (auto simp: ForkMessage_parse_def READ_BLOCK_Inr ForkWith_iff BlocksEqual_iff dest!: DeserializeBlock_only split: if_splits)

lemma Conflict_parses:
  assumes "message_ok E (Conflict m)"
  shows "ConflictMessage_parse E (cx_header m) (body (Conflict m) @ rest) = Inr (m, rest)"
  using assms by (cases m) (simp add: ConflictMessage_parse_def codec_simps DeserializeBlock_ok Let_def)

lemma Conflict_only:
  assumes "ConflictMessage_parse E h s = Inr (m, rest)" "mh_type h = CONFLICT"
  shows "cx_header m = h \<and> message_ok E (Conflict m) \<and> s = body (Conflict m) @ rest"
  using assms
  by (auto simp: ConflictMessage_parse_def READ_FIELD_Inr READ_BLOCK_Inr Let_def
    dest!: Write_Read_widths DeserializeBlock_only split: if_splits)

lemma Weight_parses:
  assumes "message_ok E (Weight m)"
  shows "WeightMessage_parse (wm_header m) (body (Weight m) @ rest) = Inr (m, rest)"
  using assms by (cases m) (auto simp: WeightMessage_parse_def codec_simps)

lemma Weight_only:
  assumes "WeightMessage_parse h s = Inr (m, rest)" "mh_type h = WEIGHT"
  shows "wm_header m = h \<and> message_ok E (Weight m) \<and> s = body (Weight m) @ rest"
  using assms by (auto simp: WeightMessage_parse_def READ_FIELD_Inr dest!: Write_Read_widths split: if_splits)

lemma Crosschain_parses:
  assumes "message_ok E (Crosschain m)"
  shows "CrosschainMessage_parse (cc_header m) (body (Crosschain m) @ rest) = Inr (m, rest)"
proof (cases m)
  case (fields h source destination chain payload)
  have len: "unat (of_nat (length payload) :: u16) = length payload"
    using assms by (simp add: fields unat_of_nat)
  then have zero: "(of_nat (length payload) :: u16) > 0 \<longleftrightarrow> payload \<noteq> []"
    by (metis length_greater_0_conv word_greater_zero_iff unat_gt_0)
  show ?thesis by (simp add: CrosschainMessage_parse_def codec_simps fields Write_vector_eq len zero)
qed

lemma Crosschain_only:
  assumes "CrosschainMessage_parse h s = Inr (m, rest)" "mh_type h = CROSSCHAIN"
  shows "cc_header m = h \<and> message_ok E (Crosschain m) \<and> s = body (Crosschain m) @ rest"
proof -
  obtain source destination chain and n :: u16 and payload s' where
    s: "s = Write source @ Write destination @ Write chain @ Write n @ s'" and
    p: "(if n > 0 then Read_vector (unat n) [] s' else Some ([], s')) = Some (payload, rest)" and
    m: "m = \<lparr>cc_header = h, cc_source = source, cc_destination = destination, cc_chain = chain, cc_payload = payload\<rparr>"
    using assms(1) by (auto simp: CrosschainMessage_parse_def READ_FIELD_Inr dest!: Write_Read_widths)
  have "length payload = unat n \<and> s' = payload @ rest"
    using p by (auto dest!: Read_vector_Some simp: word_greater_zero_iff split: if_splits)
  moreover from this have "(of_nat (length payload) :: u16) = n" by simp
  ultimately show ?thesis
    using assms(2) unsigned_less [of n] p by (auto simp: s m Write_vector_eq split: if_splits)
qed

section \<open>The parser\<close>

text \<open>The bytes that make a peer's visitor see \<open>m\<close>: a relayed message travels without the \<open>RELAY\<close> flag that the proxy sets.\<close>

fun wire :: "env \<Rightarrow> message \<Rightarrow> bytes" where
  "wire E (Relay m) = ToBytes E (Relay (m\<lparr>rl_header := ClearFlag RELAY (rl_header m)\<rparr>))"
| "wire E m = ToBytes E m"

lemma Parse_as_Inr: "Parse_as wrap r = Inr m \<longleftrightarrow> (\<exists>x. r = Inr (x, []) \<and> m = wrap x)"
  by (auto simp: Parse_as_def StreamEnd_def split: sum.splits)

lemma Parse_as_done: "Parse_as wrap (Inr (x, [])) = Inr (wrap x)"
  by (simp add: Parse_as_def StreamEnd_def)

lemma header_ok_Clear_RELAY: "header_ok (ClearFlag RELAY h) = header_ok h"
  by (simp add: header_ok_def)

lemma parser_accepts:
  assumes "accepted E m"
  shows "MessageParser_Parse E (wire E m) = Inr m"
proof (cases "\<exists>r. m = Relay r")
  case True
  then obtain r where m: "m = Relay r" by blast
  let ?h = "ClearFlag RELAY (rl_header r)"
  have ok: "header_ok ?h" "GetFlag RELAY (rl_header r)" "GetFlag PROXY (rl_header r)"
    "length (rl_payload r) = unat (payload_length (rl_header r))"
    using assms by (simp_all add: accepted_def m header_ok_Clear_RELAY)
  have "wire E m = MessageHeader_Serialize E ?h @ body m" by (simp add: m RelayMessage_Serialize_def)
  with header_parses [OF ok(1), of E "body m"] Relay_parses [OF ok(2,4), of "[]"] ok(3) show ?thesis
    by (simp add: MessageParser_Parse_def m Parse_as_done)
next
  case False
  have ok: "header_ok (header_of m)" "message_ok E m" "\<not> (GetFlag PROXY (header_of m) \<and> \<not> GetFlag RELAY (header_of m))"
    using assms False by (auto simp: accepted_def)
  have "wire E m = MessageHeader_Serialize E (header_of m) @ body m" using False ToBytes_body [of E m] by (cases m) simp_all
  then have parse: "MessageHeader_Deserialize E (wire E m) = Inr (header_of m, body m)" using header_parses [OF ok(1)] by simp
  note route = MessageParser_Parse_def parse sum.case prod.case if_not_P [OF ok(3)]
  show ?thesis
  proof (cases m)
    case (Handshake x)
    with ok(2) Handshake_parses [of E x "[]"] show ?thesis unfolding route by (simp add: Parse_as_done del: body.simps)
  next
    case (Keeplive x)
    with ok(2) Keeplive_parses [of E x "[]"] show ?thesis unfolding route by (simp add: Parse_as_done del: body.simps)
  next
    case (Relay x)
    with False show ?thesis by simp
  next
    case (Publish x)
    with ok(2) Publish_parses [of E x "[]"] show ?thesis unfolding route by (simp add: Parse_as_done del: body.simps)
  next
    case (Confirm x)
    with ok(2) Confirm_parses [of E x "[]"] show ?thesis unfolding route by (simp add: Parse_as_done del: body.simps)
  next
    case (Query x)
    with ok(2) Query_parses [of E x "[]"] show ?thesis unfolding route by (simp add: Parse_as_done del: body.simps)
  next
    case (Fork x)
    with ok(2) Fork_parses [of E x "[]"] show ?thesis unfolding route by (simp add: Parse_as_done del: body.simps)
  next
    case (Conflict x)
    with ok(2) Conflict_parses [of E x "[]"] show ?thesis unfolding route by (simp add: Parse_as_done del: body.simps)
  next
    case (Weight x)
    with ok(2) Weight_parses [of E x "[]"] show ?thesis unfolding route by (simp add: Parse_as_done del: body.simps)
  next
    case (Crosschain x)
    with ok(2) Crosschain_parses [of E x "[]"] show ?thesis unfolding route by (simp add: Parse_as_done del: body.simps)
  qed
qed

lemma parser_only:
  assumes "MessageParser_Parse E s = Inr m"
  shows "accepted E m \<and> s = wire E m"
proof -
  obtain h s' where d: "MessageHeader_Deserialize E s = Inr (h, s')"
    using assms by (auto simp: MessageParser_Parse_def split: sum.splits)
  note h = header_only [OF d]
  show ?thesis
  proof (cases "GetFlag PROXY h \<and> \<not> GetFlag RELAY h")
    case True
    with assms d obtain r where "RelayMessage_parse h s' = Inr (r, [])" "m = Relay r"
      by (auto simp: MessageParser_Parse_def Parse_as_Inr)
    with Relay_only [of h s' r "[]"] h True show ?thesis
      by (auto simp: accepted_def RelayMessage_Serialize_def Clear_Set_flag header_ok_def)
  next
    case False
    have route: "(case mh_type h of
         HANDSHAKE \<Rightarrow> Parse_as Handshake (HandshakeMessage_parse h s')
       | KEEPLIVE \<Rightarrow> Parse_as Keeplive (KeepliveMessage_parse h s')
       | PUBLISH \<Rightarrow> Parse_as Publish (PublishMessage_parse h s')
       | CONFIRM_VOTE \<Rightarrow> Parse_as Confirm (ConfirmMessage_parse E h s')
       | QUERY \<Rightarrow> Parse_as Query (QueryMessage_parse E h s')
       | FORK_FOUND \<Rightarrow> Parse_as Fork (ForkMessage_parse E h s')
       | CONFLICT \<Rightarrow> Parse_as Conflict (ConflictMessage_parse E h s')
       | WEIGHT \<Rightarrow> Parse_as Weight (WeightMessage_parse h s')
       | CROSSCHAIN \<Rightarrow> Parse_as Crosschain (CrosschainMessage_parse h s')
       | _ \<Rightarrow> Inl UNKNOWN_MESSAGE) = Inr m"
      using assms unfolding MessageParser_Parse_def d sum.case prod.case if_not_P [OF False] .
    have "header_of m = h \<and> message_ok E m \<and> s' = body m \<and> (\<forall>r. m \<noteq> Relay r)"
    proof (cases "mh_type h")
      case HANDSHAKE
      with route obtain x where "HandshakeMessage_parse h s' = Inr (x, [])" "m = Handshake x" by (auto simp: Parse_as_Inr)
      with Handshake_only [OF _ HANDSHAKE] show ?thesis by fastforce
    next
      case KEEPLIVE
      with route obtain x where "KeepliveMessage_parse h s' = Inr (x, [])" "m = Keeplive x" by (auto simp: Parse_as_Inr)
      with Keeplive_only [OF _ KEEPLIVE] show ?thesis by fastforce
    next
      case PUBLISH
      with route obtain x where "PublishMessage_parse h s' = Inr (x, [])" "m = Publish x" by (auto simp: Parse_as_Inr)
      with Publish_only [OF _ PUBLISH] show ?thesis by fastforce
    next
      case CONFIRM_VOTE
      with route obtain x where "ConfirmMessage_parse E h s' = Inr (x, [])" "m = Confirm x" by (auto simp: Parse_as_Inr)
      with Confirm_only [OF _ CONFIRM_VOTE] show ?thesis by fastforce
    next
      case QUERY
      with route obtain x where "QueryMessage_parse E h s' = Inr (x, [])" "m = Query x" by (auto simp: Parse_as_Inr)
      with Query_only [OF _ QUERY] show ?thesis by fastforce
    next
      case FORK_FOUND
      with route obtain x where "ForkMessage_parse E h s' = Inr (x, [])" "m = Fork x" by (auto simp: Parse_as_Inr)
      with Fork_only [OF _ FORK_FOUND] show ?thesis by fastforce
    next
      case CONFLICT
      with route obtain x where "ConflictMessage_parse E h s' = Inr (x, [])" "m = Conflict x" by (auto simp: Parse_as_Inr)
      with Conflict_only [OF _ CONFLICT] show ?thesis by fastforce
    next
      case WEIGHT
      with route obtain x where "WeightMessage_parse h s' = Inr (x, [])" "m = Weight x" by (auto simp: Parse_as_Inr)
      with Weight_only [OF _ WEIGHT] show ?thesis by fastforce
    next
      case CROSSCHAIN
      with route obtain x where "CrosschainMessage_parse h s' = Inr (x, [])" "m = Crosschain x" by (auto simp: Parse_as_Inr)
      with Crosschain_only [OF _ CROSSCHAIN] show ?thesis by fastforce
    qed (use route in simp_all)
    then have "header_of m = h" "message_ok E m" "s' = body m" "wire E m = ToBytes E m" by (cases m; simp)+
    with h False ToBytes_body [of E m] show ?thesis by (simp add: accepted_def)
  qed
qed

end
