(* ===== verification/BlockQueries.thy ===== *)
theory BlockQueries
  imports NodeCaches MessageCodecs
begin

text \<open>
  The queries for missing blocks, \<open>rai/node/blockquery.cpp\<close>. A query is sent to random peers, or to the peers that it names,
  until its callback is content with the answers; it waits in a container ordered by its wake-up time. The callbacks are
  those of the block processor and of the syncer; what they do to the rest of the node follows in \<open>Syncer\<close> and \<open>Node\<close>.
\<close>

section \<open>Queries\<close>

record query_from =
  qf_endpoint :: endpoint
  qf_proxy_endpoint :: "endpoint option"

record query_ack =
  qa_status :: query_status
  qa_block :: "block option"

definition QueryAck_new :: query_ack where
  "QueryAck_new = \<lparr>qa_status = STATUS_PENDING, qa_block = None\<rparr>"

datatype query_callback_status = CALLBACK_CONTINUE | CALLBACK_FINISH

text \<open>The closures: the block processor's with its operation, the syncer's with the account, the query id and the
  count of answers without a block that they carry.\<close>

datatype query_callback =
  Processor_Callback u64
| Sync_Account_Callback u256 u64 nat
| Sync_Hash_Callback u64 nat

record block_query =
  bq_sequence :: u64
  bq_wakeup :: time_point
  bq_by :: query_by
  bq_account :: u256
  bq_height :: u64
  bq_hash :: u256
  bq_only_full_node :: bool
  bq_only_specified_node :: bool
  bq_count :: u32
  bq_from :: "query_from list"
  bq_ack :: "query_ack list"
  bq_callback :: query_callback

record block_queries =
  qs_sequence :: u64
  qs_queries :: "block_query list"

definition BlockQuery_new ::
  "time_point \<Rightarrow> u64 \<Rightarrow> query_by \<Rightarrow> u256 \<Rightarrow> u64 \<Rightarrow> u256 \<Rightarrow> bool \<Rightarrow> bool \<Rightarrow> query_from list \<Rightarrow> query_callback \<Rightarrow> block_query" where
  "BlockQuery_new now sequence by account height hash only_full_node only_specified_node from callback =
     \<lparr>bq_sequence = sequence, bq_wakeup = now, bq_by = by, bq_account = account, bq_height = height, bq_hash = hash,
      bq_only_full_node = only_full_node, bq_only_specified_node = only_specified_node, bq_count = 0, bq_from = from,
      bq_ack = replicate (length from) QueryAck_new, bq_callback = callback\<rparr>"

definition Queries_Insert :: "block_query \<Rightarrow> block_queries \<Rightarrow> block_queries" where
  "Queries_Insert query qs = qs\<lparr>qs_queries := snd (mi_insert bq_wakeup bq_sequence query (qs_queries qs))\<rparr>"

definition Sequence :: "block_queries \<Rightarrow> u64 \<times> block_queries" where
  "Sequence qs = (qs_sequence qs, qs\<lparr>qs_sequence := qs_sequence qs + 1\<rparr>)"

definition QueryByHash ::
  "time_point \<Rightarrow> u256 \<Rightarrow> u64 \<Rightarrow> u256 \<Rightarrow> bool \<Rightarrow> query_callback \<Rightarrow> block_queries \<Rightarrow> block_queries" where
  "QueryByHash now account height hash only_full_node callback qs = (case Sequence qs of (sequence, qs) \<Rightarrow>
     Queries_Insert (BlockQuery_new now sequence BY_HASH account height hash only_full_node False [] callback) qs)"

definition QueryByHash_from ::
  "time_point \<Rightarrow> u256 \<Rightarrow> u64 \<Rightarrow> u256 \<Rightarrow> query_from list \<Rightarrow> query_callback \<Rightarrow> block_queries \<Rightarrow> block_queries" where
  "QueryByHash_from now account height hash from callback qs =
     (if from = [] then qs
      else case Sequence qs of (sequence, qs) \<Rightarrow>
        Queries_Insert (BlockQuery_new now sequence BY_HASH account height hash False True from callback) qs)"

definition QueryByHeight :: "time_point \<Rightarrow> u256 \<Rightarrow> u64 \<Rightarrow> bool \<Rightarrow> query_callback \<Rightarrow> block_queries \<Rightarrow> block_queries" where
  "QueryByHeight now account height only_full_node callback qs = (case Sequence qs of (sequence, qs) \<Rightarrow>
     Queries_Insert (BlockQuery_new now sequence BY_HEIGHT account height 0 only_full_node False [] callback) qs)"

definition QueryByHeight_from ::
  "time_point \<Rightarrow> u256 \<Rightarrow> u64 \<Rightarrow> query_from list \<Rightarrow> query_callback \<Rightarrow> block_queries \<Rightarrow> block_queries" where
  "QueryByHeight_from now account height from callback qs =
     (if from = [] then qs
      else case Sequence qs of (sequence, qs) \<Rightarrow>
        Queries_Insert (BlockQuery_new now sequence BY_HEIGHT account height 0 False True from callback) qs)"

definition QueryByPrevious ::
  "time_point \<Rightarrow> u256 \<Rightarrow> u64 \<Rightarrow> u256 \<Rightarrow> bool \<Rightarrow> query_callback \<Rightarrow> block_queries \<Rightarrow> block_queries" where
  "QueryByPrevious now account height hash only_full_node callback qs = (case Sequence qs of (sequence, qs) \<Rightarrow>
     Queries_Insert (BlockQuery_new now sequence BY_PREVIOUS account height hash only_full_node False [] callback) qs)"

definition QueryByPrevious_from ::
  "time_point \<Rightarrow> u256 \<Rightarrow> u64 \<Rightarrow> u256 \<Rightarrow> query_from list \<Rightarrow> query_callback \<Rightarrow> block_queries \<Rightarrow> block_queries" where
  "QueryByPrevious_from now account height hash from callback qs =
     (if from = [] then qs
      else case Sequence qs of (sequence, qs) \<Rightarrow>
        Queries_Insert (BlockQuery_new now sequence BY_PREVIOUS account height hash False True from callback) qs)"

section \<open>Sending\<close>

text \<open>The delay until a query is looked at again, in seconds.\<close>

definition query_delay :: "nat \<Rightarrow> u32 \<Rightarrow> u32" where
  "query_delay queries count =
     (let max_doubles = (if queries \<ge> 256 then 8 else 4); doubles = count div 3
      in if doubles < max_doubles then push_bit (unat doubles) 1 else push_bit (unat max_doubles) 1)"

definition UpdateWakeup :: "time_point \<Rightarrow> block_queries \<Rightarrow> block_query \<Rightarrow> block_query" where
  "UpdateWakeup now qs query =
     query\<lparr>bq_wakeup := now + seconds (unat (query_delay (length (qs_queries qs)) (bq_count query)))\<rparr>"

definition BlockQuery_message :: "env \<Rightarrow> block_query \<Rightarrow> query_from \<Rightarrow> endpoint \<times> message" where
  "BlockQuery_message E query from =
     (let m = Query (QueryMessage_new (bq_sequence query) (bq_by query) (bq_account query) (bq_height query) (bq_hash query))
      in case qf_proxy_endpoint from of
           None \<Rightarrow> (qf_endpoint from, m)
         | Some proxy \<Rightarrow> (proxy, EnableProxy E (qf_endpoint from) m))"

text \<open>\<open>SendQuery_\<close>; \<open>peer\<close> is the random peer, a full node if that is asked for. \<open>None\<close> is the failed assertion.\<close>

definition SendQuery ::
  "env \<Rightarrow> (bool \<Rightarrow> query_from option) \<Rightarrow> block_query \<Rightarrow> ((endpoint \<times> message) list \<times> block_query) option" where
  "SendQuery E peer query =
     (if bq_only_specified_node query then
        (if bq_from query = [] then None
         else Some (map (BlockQuery_message E query \<circ> fst)
             (filter (\<lambda>(from, ack). qa_status ack = STATUS_PENDING) (zip (bq_from query) (bq_ack query))),
           query\<lparr>bq_count := bq_count query + 1\<rparr>))
      else (case peer (bq_only_full_node query) of
          None \<Rightarrow> Some ([], query)
        | Some from \<Rightarrow> Some ([BlockQuery_message E query from],
            query\<lparr>bq_from := [from], bq_ack := [QueryAck_new], bq_count := bq_count query + 1\<rparr>)))"

end
