(* ===== verification/NodeState.thy ===== *)
theory NodeState
  imports BlockQueries Consensus Dynamic
begin

text \<open>
  The node that owns the components, \<open>rai/node/node.hpp\<close>, and how it sends messages, \<open>rai/node/node.cpp\<close>. Work that the
  source posts to the thread pool with \<open>Background\<close> waits in \<open>nd_background\<close>; a thread may take any of it. What a step
  sees of the peers, which are not part of the model, is the record \<open>outside\<close>.
\<close>

section \<open>State\<close>

record route =
  rt_use_proxy :: bool
  rt_peer_endpoint :: endpoint
  rt_proxy_endpoint :: endpoint

text \<open>The peers as a step of the node sees them, with the steady clock and what the elections see.\<close>

record outside =
  out_now :: time_point
  out_around :: surroundings
  out_random_peer :: "bool \<Rightarrow> query_from option"
  out_random_routes :: "route list"
  out_route :: "u256 \<Rightarrow> route option"
  out_routes_except :: "u256 list \<Rightarrow> route list"
  out_routes_of :: "u256 list \<Rightarrow> route list"
  out_reachable :: "endpoint \<Rightarrow> bool"

text \<open>Accounts that are brought up to date: the syncer's part of the state.\<close>

datatype sync_status = SYNC_QUERY | SYNC_PROCESS

record sync_info =
  sy_status :: sync_status
  sy_first :: bool
  sy_batch_id :: u32
  sy_height :: u64
  sy_previous :: u256
  sy_current :: u256

record syncer =
  sn_current_query_id :: u64
  sn_total :: u64
  sn_miss :: u64
  sn_syncs :: "u256 \<Rightarrow> sync_info option"
  sn_queries :: "(u64 \<times> u32) list"

datatype job =
  Notify_Block block_process_result block
| Broadcast_Message message
| Start_Election "block list"
| Request_Confirms_Except block "u256 list"
| Request_Confirms_Of block "u256 list"

record 'db node =
  nd_account :: u256
  nd_private_key :: u256
  nd_processor :: "'db processor"
  nd_recent_blocks :: recent_blocks
  nd_recent_forks :: recent_blocks
  nd_confirm_requests :: confirm_requests
  nd_confirms :: confirm_manager
  nd_active_accounts :: active_accounts
  nd_queries :: block_queries
  nd_syncer :: syncer
  nd_elections :: elections
  nd_background :: "job list"
  nd_sent :: "(endpoint \<times> message) list"
  nd_asserted :: bool

abbreviation nd_ledger :: "'db node \<Rightarrow> 'db ledger" where
  "nd_ledger n \<equiv> bp_ledger (nd_processor n)"

definition Background :: "job \<Rightarrow> 'db node \<Rightarrow> 'db node" where
  "Background j n = n\<lparr>nd_background := nd_background n @ [j]\<rparr>"

definition fail_assert :: "'db node \<Rightarrow> 'db node" where
  "fail_assert n = n\<lparr>nd_asserted := True\<rparr>"

section \<open>Reading the ledger\<close>

text \<open>A read transaction over the node's ledger; \<open>None\<close> when it could not be begun.\<close>

definition read_transaction :: "'db lmdb \<Rightarrow> 'db node \<Rightarrow> 'db transaction option" where
  "read_transaction M n =
     (if mdb_txn_begin M (l_store (nd_ledger n)) then Some (Transaction_new (nd_ledger n) False) else None)"

definition Node_RepWeight :: "u256 \<Rightarrow> 'db node \<Rightarrow> u128" where
  "Node_RepWeight account n = (case RepWeightGet (l_memory (nd_ledger n)) account of None \<Rightarrow> 0 | Some w \<Rightarrow> w)"

definition NextFork :: "'db lmdb \<Rightarrow> 'db transaction \<Rightarrow> u256 \<Rightarrow> u64 \<Rightarrow> (u256 \<times> u64 \<times> block \<times> block) option" where
  "NextFork M txn account height =
     (case find (\<lambda>e. \<not> bytes_less (fst e) (height_key (account, height))) (mdb_entries M (txn_db txn) FORKS) of
        None \<Rightarrow> None
      | Some (key, value) \<Rightarrow>
          (case Read key of None \<Rightarrow> None | Some (account, s) \<Rightarrow>
           case Read s of None \<Rightarrow> None | Some (height, s :: bytes) \<Rightarrow>
           if value = [] then None
           else case decode_fork value of None \<Rightarrow> None
              | Some (first, second) \<Rightarrow> Some (account, height, first, second)))"

section \<open>Sending\<close>

definition Node_Send :: "message \<Rightarrow> endpoint \<Rightarrow> 'db node \<Rightarrow> 'db node" where
  "Node_Send message remote n = n\<lparr>nd_sent := nd_sent n @ [(remote, message)]\<rparr>"

text \<open>\<open>SendByRoute\<close> changes the message it is given, which the caller may send again.\<close>

definition SendByRoute :: "env \<Rightarrow> route \<Rightarrow> message \<Rightarrow> 'db node \<Rightarrow> message \<times> 'db node" where
  "SendByRoute E route message n =
     (let receiver = rt_peer_endpoint route in
      if rt_use_proxy route
      then (let message = EnableProxy E receiver message in (message, Node_Send message (rt_proxy_endpoint route) n))
      else (let message = DisableProxy message in (message, Node_Send message receiver n)))"

fun SendByRoutes :: "env \<Rightarrow> route list \<Rightarrow> message \<Rightarrow> 'db node \<Rightarrow> 'db node" where
  "SendByRoutes E [] message n = n"
| "SendByRoutes E (route # routes) message n = (case SendByRoute E route message n of (message, n) \<Rightarrow>
     SendByRoutes E routes message n)"

definition Node_Broadcast :: "env \<Rightarrow> outside \<Rightarrow> message \<Rightarrow> 'db node \<Rightarrow> 'db node" where
  "Node_Broadcast E V message n = SendByRoutes E (out_random_routes V) message n"

definition BroadcastFork :: "block \<Rightarrow> block \<Rightarrow> 'db node \<Rightarrow> 'db node" where
  "BroadcastFork first second = Background (Broadcast_Message (Fork (ForkMessage_new first second)))"

definition BroadcastConfirm_signed :: "u256 \<Rightarrow> u64 \<Rightarrow> u512 \<Rightarrow> block \<Rightarrow> 'db node \<Rightarrow> 'db node" where
  "BroadcastConfirm_signed representative timestamp signature block =
     Background (Broadcast_Message (Confirm (ConfirmMessage_new timestamp representative signature block)))"

definition BroadcastConflict :: "u256 \<Rightarrow> u64 \<Rightarrow> u64 \<Rightarrow> u512 \<Rightarrow> u512 \<Rightarrow> block \<Rightarrow> block \<Rightarrow> 'db node \<Rightarrow> 'db node" where
  "BroadcastConflict representative timestamp_first timestamp_second signature_first signature_second block_first block_second =
     Background (Broadcast_Message (Conflict (ConflictMessage_new representative timestamp_first timestamp_second
       signature_first signature_second block_first block_second)))"

definition Node_Publish :: "block \<Rightarrow> 'db node \<Rightarrow> 'db node" where
  "Node_Publish block = Background (Broadcast_Message (Publish (PublishMessage_new block)))"

definition Node_Sign :: "env \<Rightarrow> u256 \<Rightarrow> 'db node \<Rightarrow> u512" where
  "Node_Sign E data n = SignMessage E (nd_private_key n) (nd_account n) data"

section \<open>Votes of the node\<close>

text \<open>\<open>Node::Confirm\<close>: a vote for the block, sent to those accounts that are peers.\<close>

fun Confirm_send :: "env \<Rightarrow> outside \<Rightarrow> u256 list \<Rightarrow> message \<Rightarrow> 'db node \<Rightarrow> 'db node" where
  "Confirm_send E V [] message n = n"
| "Confirm_send E V (i # to) message n = (case out_route V i of
     None \<Rightarrow> Confirm_send E V to message n
   | Some route \<Rightarrow> (case SendByRoute E route message n of (message, n) \<Rightarrow> Confirm_send E V to message n))"

definition sign_vote :: "env \<Rightarrow> block \<Rightarrow> u64 \<Rightarrow> 'db node \<Rightarrow> confirm_message" where
  "sign_vote E block timestamp n =
     (let message = ConfirmMessage_new timestamp (nd_account n) 0 block
      in message\<lparr>cf_signature := Node_Sign E (ConfirmMessage_Hash E message) n\<rparr>)"

definition Node_Confirm :: "env \<Rightarrow> outside \<Rightarrow> u256 list \<Rightarrow> block \<Rightarrow> 'db node \<Rightarrow> 'db node" where
  "Node_Confirm E V to block n =
     (if to = [] then n
      else (case GetTimestamp E (Account block) (Height block) (Hash E block) (nd_confirms n) of (timestamp, confirms) \<Rightarrow>
        let n = n\<lparr>nd_confirms := confirms\<rparr> in Confirm_send E V to (Confirm (sign_vote E block timestamp n)) n))"

text \<open>\<open>Node::BroadcastConfirm\<close>: a vote for the block that the ledger has at a height.\<close>

definition BroadcastConfirm :: "'db lmdb \<Rightarrow> env \<Rightarrow> u256 \<Rightarrow> u64 \<Rightarrow> 'db node \<Rightarrow> 'db node" where
  "BroadcastConfirm M E account height n = (case read_transaction M n of
     None \<Rightarrow> n
   | Some txn \<Rightarrow> (case BlockGet_height M txn account height of
       None \<Rightarrow> n
     | Some block \<Rightarrow> (case GetTimestamp E account height (Hash E block) (nd_confirms n) of (timestamp, confirms) \<Rightarrow>
         let n = n\<lparr>nd_confirms := confirms\<rparr>; m = sign_vote E block timestamp n
         in BroadcastConfirm_signed (nd_account n) timestamp (cf_signature m) block n)))"

section \<open>Work for the block processor\<close>

text \<open>The calls of the processor and the observers it notifies become work of the node.\<close>

definition Node_Add :: "env \<Rightarrow> outside \<Rightarrow> block \<Rightarrow> 'db node \<Rightarrow> 'db node" where
  "Node_Add E V block n =
     (case BlockProcessor_Add E (out_now V) (bp_queues (nd_processor n)) block of (dropped, q) \<Rightarrow>
        fold (\<lambda>b. Background (Notify_Block \<lparr>pr_operation = DROP, pr_error_code = SUCCESS, pr_last_confirm_height = 0\<rparr> b))
          dropped (n\<lparr>nd_processor := (nd_processor n)\<lparr>bp_queues := q\<rparr>\<rparr>))"

definition Node_AddForced :: "block_forced \<Rightarrow> 'db node \<Rightarrow> 'db node" where
  "Node_AddForced forced n =
     n\<lparr>nd_processor := (nd_processor n)\<lparr>bp_queues := BlockProcessor_AddForced (bp_queues (nd_processor n)) forced\<rparr>\<rparr>"

definition Node_AddFork :: "block_fork \<Rightarrow> 'db node \<Rightarrow> 'db node" where
  "Node_AddFork fork n =
     n\<lparr>nd_processor := (nd_processor n)\<lparr>bp_queues := BlockProcessor_AddFork (bp_queues (nd_processor n)) fork\<rparr>\<rparr>"

definition ForceConfirmBlock :: "block \<Rightarrow> 'db node \<Rightarrow> 'db node" where
  "ForceConfirmBlock block = Node_AddForced \<lparr>fc_operation = of_block_operation CONFIRM, fc_block = block\<rparr>"

definition ForceAppendBlock :: "block \<Rightarrow> 'db node \<Rightarrow> 'db node" where
  "ForceAppendBlock block = Node_AddForced \<lparr>fc_operation = of_block_operation APPEND, fc_block = block\<rparr>"

end
