(* ===== verification/Syncer.thy ===== *)
theory Syncer
  imports NodeState
begin

text \<open>
  The syncer, \<open>rai/node/syncer.cpp\<close>, and the turns of the block queries that run its callbacks and the one of the block
  processor. An account that is behind is in one of two states: the next block is being queried, or it was handed to the
  block processor. A failed assertion sets \<open>nd_asserted\<close>; so does a callback that uses an answer without a block.
\<close>

section \<open>The syncer's tables\<close>

definition DEFAULT_BATCH_ID :: u32 where "DEFAULT_BATCH_ID = - 1"
definition BUSY_SIZE :: nat where "BUSY_SIZE = 10240"

definition syncer_update :: "(syncer \<Rightarrow> syncer) \<Rightarrow> 'db node \<Rightarrow> 'db node" where
  "syncer_update f n = n\<lparr>nd_syncer := f (nd_syncer n)\<rparr>"

definition queries_update :: "(block_queries \<Rightarrow> block_queries) \<Rightarrow> 'db node \<Rightarrow> 'db node" where
  "queries_update f n = n\<lparr>nd_queries := f (nd_queries n)\<rparr>"

text \<open>A free id is found after at most as many attempts as there are queries, plus one.\<close>

fun AddQuery_loop :: "nat \<Rightarrow> u64 \<Rightarrow> u32 \<Rightarrow> syncer \<Rightarrow> u64 \<times> syncer" where
  "AddQuery_loop 0 query_id batch_id s = (query_id, s)"
| "AddQuery_loop (Suc fuel) query_id batch_id s =
     (if query_id \<in> fst ` set (sn_queries s)
      then AddQuery_loop fuel (sn_current_query_id s) batch_id (s\<lparr>sn_current_query_id := sn_current_query_id s + 1\<rparr>)
      else (query_id, s\<lparr>sn_queries := sn_queries s @ [(query_id, batch_id)]\<rparr>))"

definition AddQuery :: "u32 \<Rightarrow> syncer \<Rightarrow> u64 \<times> syncer" where
  "AddQuery batch_id s =
     AddQuery_loop (Suc (length (sn_queries s))) (sn_current_query_id s) batch_id
       (s\<lparr>sn_current_query_id := sn_current_query_id s + 1\<rparr>)"

definition BatchId :: "u64 \<Rightarrow> syncer \<Rightarrow> u32" where
  "BatchId query_id s = (case map_of (sn_queries s) query_id of Some batch_id \<Rightarrow> batch_id | None \<Rightarrow> DEFAULT_BATCH_ID)"

definition Syncer_Erase :: "u256 \<Rightarrow> syncer \<Rightarrow> syncer" where
  "Syncer_Erase account s = s\<lparr>sn_syncs := (sn_syncs s)(account := None)\<rparr>"

definition EraseQuery :: "u64 \<Rightarrow> syncer \<Rightarrow> syncer" where
  "EraseQuery query_id s = s\<lparr>sn_queries := filter (\<lambda>(id, _). id \<noteq> query_id) (sn_queries s)\<rparr>"

definition Syncer_Exists :: "u256 \<Rightarrow> syncer \<Rightarrow> bool" where
  "Syncer_Exists account s \<longleftrightarrow> sn_syncs s account \<noteq> None"

definition ResetStat :: "syncer \<Rightarrow> syncer" where
  "ResetStat s = s\<lparr>sn_total := 0, sn_miss := 0, sn_syncs := (\<lambda>a. map_option (\<lambda>i. i\<lparr>sy_first := False\<rparr>) (sn_syncs s a))\<rparr>"

section \<open>Asking for the next block\<close>

definition Syncer_BlockQuery :: "outside \<Rightarrow> u256 \<Rightarrow> sync_info \<Rightarrow> u32 \<Rightarrow> 'db node \<Rightarrow> 'db node" where
  "Syncer_BlockQuery V account info batch_id n =
     (case AddQuery batch_id (nd_syncer n) of (query_id, s) \<Rightarrow>
        let n = n\<lparr>nd_syncer := s\<rparr>; callback = Sync_Account_Callback account query_id 0 in
        if sy_height info = 0 \<or> sy_previous info = 0
        then queries_update (QueryByHeight (out_now V) account (sy_height info) False callback) n
        else queries_update (QueryByPrevious (out_now V) account (sy_height info) (sy_previous info) False callback) n)"

definition Syncer_BlockQuery_hash :: "outside \<Rightarrow> u256 \<Rightarrow> u32 \<Rightarrow> 'db node \<Rightarrow> 'db node" where
  "Syncer_BlockQuery_hash V hash batch_id n =
     (case AddQuery batch_id (nd_syncer n) of (query_id, s) \<Rightarrow>
        queries_update (QueryByHash (out_now V) 0 INVALID_HEIGHT hash True (Sync_Hash_Callback query_id 0)) (n\<lparr>nd_syncer := s\<rparr>))"

definition Syncer_Add :: "outside \<Rightarrow> u256 \<Rightarrow> u64 \<Rightarrow> u256 \<Rightarrow> bool \<Rightarrow> u32 \<Rightarrow> 'db node \<Rightarrow> 'db node" where
  "Syncer_Add V account height previous stat batch_id n =
     (let info = \<lparr>sy_status = SYNC_QUERY, sy_first = stat, sy_batch_id = batch_id, sy_height = height,
                  sy_previous = previous, sy_current = 0\<rparr> in
      if sn_syncs (nd_syncer n) account \<noteq> None then n
      else Syncer_BlockQuery V account info batch_id
        (syncer_update (\<lambda>s. s\<lparr>sn_syncs := (sn_syncs s)(account \<mapsto> info),
           sn_total := (if stat then sn_total s + 1 else sn_total s)\<rparr>) n))"

definition SyncAccount :: "'db lmdb \<Rightarrow> outside \<Rightarrow> 'db transaction \<Rightarrow> u256 \<Rightarrow> u32 \<Rightarrow> 'db node \<Rightarrow> 'db node" where
  "SyncAccount M V txn account batch_id n = (case AccountInfoGet M txn account of
     None \<Rightarrow> Syncer_Add V account 0 0 False batch_id n
   | Some info \<Rightarrow>
       if \<not> AccountInfo_Valid info then Syncer_Add V account 0 0 False batch_id n
       else Syncer_Add V account (ai_head_height info + 1) (ai_head info) False batch_id n)"

definition SyncRelated :: "'db lmdb \<Rightarrow> env \<Rightarrow> outside \<Rightarrow> block \<Rightarrow> u32 \<Rightarrow> 'db node \<Rightarrow> 'db node" where
  "SyncRelated M E V block batch_id n =
     (if \<not> HasRepresentative block \<and> Opcode block \<noteq> SEND then n
      else case read_transaction M n of
        None \<Rightarrow> n
      | Some txn \<Rightarrow>
          (let n = (if Opcode block = SEND then SyncAccount M V txn (Link block) batch_id n else n) in
           if HasRepresentative block \<and> Height block > 0 then
             (case (if Opcode block = CHANGE
                    then map_option Representative (BlockGet M txn (Previous block)) else Some (Representative block)) of
                None \<Rightarrow> n
              | Some rep \<Rightarrow> (case RewardableInfoGet M txn rep (Previous block) of
                  None \<Rightarrow> n
                | Some info \<Rightarrow>
                    if wi_valid_timestamp info > CurrentTimestamp E then n
                    else SyncAccount M V txn rep batch_id n))
           else n))"

section \<open>Results of the block processor\<close>

definition source_miss_codes :: "error_code list" where
  "source_miss_codes = [BLOCK_PROCESS_GAP_RECEIVE_SOURCE, BLOCK_PROCESS_GAP_REWARD_SOURCE, BLOCK_PROCESS_UNREWARDABLE]"

definition ProcessorCallback ::
  "'db lmdb \<Rightarrow> env \<Rightarrow> outside \<Rightarrow> block_process_result \<Rightarrow> block \<Rightarrow> 'db node \<Rightarrow> 'db node" where
  "ProcessorCallback M E V result block n =
     (if pr_operation result \<noteq> APPEND \<and> pr_operation result \<noteq> DROP then n
      else case sn_syncs (nd_syncer n) (Account block) of
        None \<Rightarrow> n
      | Some it \<Rightarrow>
          if sy_status it \<noteq> SYNC_PROCESS then n
          else if sy_current it \<noteq> Hash E block then n
          else if pr_operation result = DROP then
            (let info = it\<lparr>sy_status := SYNC_QUERY, sy_current := 0\<rparr>
             in Syncer_BlockQuery V (Account block) info (sy_batch_id info)
                  (syncer_update (\<lambda>s. s\<lparr>sn_syncs := (sn_syncs s)(Account block \<mapsto> info)\<rparr>) n))
          else if pr_error_code result = SUCCESS \<or> pr_error_code result = BLOCK_PROCESS_EXISTS then
            (let info = it\<lparr>sy_status := SYNC_QUERY, sy_current := 0, sy_height := Height block + 1, sy_previous := Hash E block\<rparr>;
                 n = Syncer_BlockQuery V (Account block) info (sy_batch_id info)
                   (syncer_update (\<lambda>s. s\<lparr>sn_syncs := (sn_syncs s)(Account block \<mapsto> info)\<rparr>) n)
             in SyncRelated M E V block (sy_batch_id info) n)
          else if pr_error_code result \<in> set source_miss_codes then
            Syncer_BlockQuery_hash V (Link block) (sy_batch_id it) (syncer_update (Syncer_Erase (Account block)) n)
          else syncer_update (Syncer_Erase (Account block)) n)"

section \<open>Callbacks of queries\<close>

text \<open>\<open>Syncer::QueryCallback\<close>. Adding a null block to the processor counts as a failed assertion.\<close>

definition Syncer_QueryCallback :: "env \<Rightarrow> outside \<Rightarrow> u256 \<Rightarrow> query_status \<Rightarrow> block option \<Rightarrow> 'db node \<Rightarrow> 'db node" where
  "Syncer_QueryCallback E V account status block n = (case sn_syncs (nd_syncer n) account of
     None \<Rightarrow> n
   | Some it \<Rightarrow>
       if sy_status it \<noteq> SYNC_QUERY then n
       else if status = STATUS_MISS then
         syncer_update (\<lambda>s. Syncer_Erase account (s\<lparr>sn_miss := (if sy_first it then sn_miss s + 1 else sn_miss s)\<rparr>)) n
       else if status = STATUS_SUCCESS then
         (case block of
            None \<Rightarrow> fail_assert n
          | Some block \<Rightarrow>
              (let info = it\<lparr>sy_first := False, sy_status := SYNC_PROCESS, sy_current := Hash E block\<rparr>;
                   n = syncer_update (\<lambda>s. s\<lparr>sn_syncs := (sn_syncs s)(account \<mapsto> info)\<rparr>) n;
                   n = (if sy_height it \<noteq> Height block then fail_assert n else n)
               in Node_Add E V block n))
       else if status = STATUS_FORK then
         (case block of
            None \<Rightarrow> fail_assert n
          | Some block \<Rightarrow> Node_Add E V block (syncer_update (Syncer_Erase account) n))
       else fail_assert (syncer_update (Syncer_Erase account) n))"

text \<open>A callback returns one status per answer and the closure with its new count.\<close>

definition first_success :: "query_ack list \<Rightarrow> query_ack option" where
  "first_success acks = find (\<lambda>ack. qa_status ack = STATUS_SUCCESS) acks"

definition QueryCallback_processor :: "u64 \<Rightarrow> query_ack list \<Rightarrow> 'db node \<Rightarrow> query_callback_status list \<times> 'db node" where
  "QueryCallback_processor operation acks n = (case first_success acks of
     None \<Rightarrow> (replicate (length acks) CALLBACK_CONTINUE, n)
   | Some ack \<Rightarrow> (replicate (length acks) CALLBACK_FINISH,
       (case qa_block ack of
          None \<Rightarrow> fail_assert n
        | Some block \<Rightarrow> Node_AddForced \<lparr>fc_operation = operation, fc_block = block\<rparr> n)))"

definition QueryCallbackByAccount ::
  "env \<Rightarrow> outside \<Rightarrow> u256 \<Rightarrow> u64 \<Rightarrow> nat \<Rightarrow> query_ack list \<Rightarrow> 'db node \<Rightarrow> query_callback_status list \<times> nat \<times> 'db node" where
  "QueryCallbackByAccount E V account query_id count acks n =
     (case acks of
        [ack] \<Rightarrow>
          if qa_status ack = STATUS_FORK \<or> qa_status ack = STATUS_SUCCESS then
            ([CALLBACK_FINISH], count,
             syncer_update (EraseQuery query_id) (Syncer_QueryCallback E V account (qa_status ack) (qa_block ack) n))
          else if qa_status ack = STATUS_MISS then
            (if count + 1 \<ge> 5 then
               ([CALLBACK_FINISH], count + 1,
                syncer_update (EraseQuery query_id) (Syncer_QueryCallback E V account (qa_status ack) (qa_block ack) n))
             else ([CALLBACK_CONTINUE], count + 1, n))
          else if qa_status ack = STATUS_PRUNED \<or> qa_status ack = STATUS_TIMEOUT then ([CALLBACK_CONTINUE], count, n)
          else ([CALLBACK_FINISH], count, syncer_update (EraseQuery query_id) (syncer_update (Syncer_Erase account) n))
      | _ \<Rightarrow> (replicate (length acks) CALLBACK_FINISH, count,
          syncer_update (EraseQuery query_id) (syncer_update (Syncer_Erase account) n)))"

definition QueryCallbackByHash ::
  "'db lmdb \<Rightarrow> outside \<Rightarrow> u64 \<Rightarrow> nat \<Rightarrow> query_ack list \<Rightarrow> 'db node \<Rightarrow> query_callback_status list \<times> nat \<times> 'db node" where
  "QueryCallbackByHash M V query_id count acks n =
     (case acks of
        [ack] \<Rightarrow>
          if qa_status ack = STATUS_SUCCESS then
            ([CALLBACK_FINISH], count,
             syncer_update (EraseQuery query_id)
               (case read_transaction M n of
                  None \<Rightarrow> n
                | Some txn \<Rightarrow> (case qa_block ack of
                    None \<Rightarrow> fail_assert n
                  | Some block \<Rightarrow> SyncAccount M V txn (Account block) (BatchId query_id (nd_syncer n)) n)))
          else if qa_status ack = STATUS_MISS then
            (if count + 1 \<ge> 5 then ([CALLBACK_FINISH], count + 1, syncer_update (EraseQuery query_id) n)
             else ([CALLBACK_CONTINUE], count + 1, n))
          else if qa_status ack = STATUS_TIMEOUT \<or> qa_status ack = STATUS_FORK \<or> qa_status ack = STATUS_PRUNED
          then ([CALLBACK_CONTINUE], count, n)
          else ([CALLBACK_FINISH], count, syncer_update (EraseQuery query_id) n)
      | _ \<Rightarrow> (replicate (length acks) CALLBACK_FINISH, count, syncer_update (EraseQuery query_id) n))"

fun run_callback ::
  "'db lmdb \<Rightarrow> env \<Rightarrow> outside \<Rightarrow> query_callback \<Rightarrow> query_ack list \<Rightarrow> 'db node \<Rightarrow>
     query_callback_status list \<times> query_callback \<times> 'db node" where
  "run_callback M E V (Processor_Callback operation) acks n =
     (case QueryCallback_processor operation acks n of (result, n) \<Rightarrow> (result, Processor_Callback operation, n))"
| "run_callback M E V (Sync_Account_Callback account query_id count) acks n =
     (case QueryCallbackByAccount E V account query_id count acks n of (result, count, n) \<Rightarrow>
        (result, Sync_Account_Callback account query_id count, n))"
| "run_callback M E V (Sync_Hash_Callback query_id count) acks n =
     (case QueryCallbackByHash M V query_id count acks n of (result, count, n) \<Rightarrow>
        (result, Sync_Hash_Callback query_id count, n))"

section \<open>Turns of the queries\<close>

definition resend :: "env \<Rightarrow> outside \<Rightarrow> block_query \<Rightarrow> 'db node \<Rightarrow> 'db node" where
  "resend E V query n = (case SendQuery E (out_random_peer V) query of
     None \<Rightarrow> queries_update (Queries_Insert (UpdateWakeup (out_now V) (nd_queries n) query)) (fail_assert n)
   | Some (messages, query) \<Rightarrow>
       queries_update (Queries_Insert (UpdateWakeup (out_now V) (nd_queries n) query))
         (fold (\<lambda>(endpoint, message). Node_Send message endpoint) messages n))"

text \<open>What both entry points do with the result of a callback; \<open>reset\<close> prepares an answer to be asked for again.\<close>

definition after_callback ::
  "'db lmdb \<Rightarrow> env \<Rightarrow> outside \<Rightarrow> (query_ack \<Rightarrow> query_ack) \<Rightarrow> block_query \<Rightarrow> 'db node \<Rightarrow> 'db node" where
  "after_callback M E V reset query n =
     (case run_callback M E V (bq_callback query) (bq_ack query) n of (callback_status, callback, n) \<Rightarrow>
        if length callback_status \<noteq> length (bq_ack query) then fail_assert n
        else let query = query\<lparr>bq_callback := callback,
               bq_ack := map2 (\<lambda>status ack. if status = CALLBACK_CONTINUE then reset ack else ack) callback_status (bq_ack query)\<rparr>
          in if CALLBACK_CONTINUE \<in> set callback_status then resend E V query n else n)"

definition ProcessQuery :: "'db lmdb \<Rightarrow> env \<Rightarrow> outside \<Rightarrow> block_query \<Rightarrow> 'db node \<Rightarrow> 'db node" where
  "ProcessQuery M E V query n =
     (if bq_count query = 0 then resend E V query n
      else
        let acks = map (\<lambda>ack. if qa_status ack = STATUS_PENDING then ack\<lparr>qa_status := STATUS_TIMEOUT\<rparr> else ack) (bq_ack query);
            query = query\<lparr>bq_ack := acks,
              bq_only_full_node := (bq_only_full_node query \<or> STATUS_PRUNED \<in> set (map qa_status acks))\<rparr>
        in after_callback M E V (\<lambda>ack. ack\<lparr>qa_status := STATUS_PENDING\<rparr>) query n)"

definition ProcessQueryAck ::
  "'db lmdb \<Rightarrow> env \<Rightarrow> outside \<Rightarrow> u64 \<Rightarrow> query_by \<Rightarrow> u256 \<Rightarrow> u64 \<Rightarrow> u256 \<Rightarrow> query_status \<Rightarrow> block option \<Rightarrow>
     endpoint \<Rightarrow> endpoint option \<Rightarrow> 'db node \<Rightarrow> 'db node" where
  "ProcessQueryAck M E V sequence by account height hash status block endpoint proxy n =
     (case mi_find bq_sequence sequence (qs_queries (nd_queries n)) of
        None \<Rightarrow> n
      | Some it \<Rightarrow>
          if bq_by it \<noteq> by \<or> bq_account it \<noteq> account \<or> bq_height it \<noteq> height \<or> bq_hash it \<noteq> hash then n
          else
            let from = \<lparr>qf_endpoint = endpoint, qf_proxy_endpoint = proxy\<rparr>;
                query = it\<lparr>bq_ack := map2 (\<lambda>f ack. if f = from then \<lparr>qa_status = status, qa_block = block\<rparr> else ack)
                    (bq_from it) (bq_ack it),
                  bq_only_full_node := (bq_only_full_node it \<or> status = STATUS_PRUNED \<and> from \<in> set (bq_from it))\<rparr>
            in if STATUS_PENDING \<in> set (map qa_status (bq_ack query))
               then queries_update (\<lambda>qs. qs\<lparr>qs_queries := mi_modify bq_wakeup bq_sequence sequence (\<lambda>_. query) (qs_queries qs)\<rparr>) n
               else after_callback M E V (\<lambda>_. \<lparr>qa_status = STATUS_PENDING, qa_block = None\<rparr>) query
                 (queries_update (\<lambda>qs. qs\<lparr>qs_queries := mi_erase bq_sequence sequence (qs_queries qs)\<rparr>) n))"

text \<open>One turn of the thread of the queries: the query that wakes up first, if it is time.\<close>

definition Queries_Run_step :: "'db lmdb \<Rightarrow> env \<Rightarrow> outside \<Rightarrow> 'db node \<Rightarrow> 'db node" where
  "Queries_Run_step M E V n = (case qs_queries (nd_queries n) of
     [] \<Rightarrow> n
   | query # rest \<Rightarrow>
       if bq_wakeup query \<le> out_now V
       then ProcessQuery M E V query (queries_update (\<lambda>qs. qs\<lparr>qs_queries := rest\<rparr>) n)
       else n)"

end
