(* ===== verification/Node.thy ===== *)
theory Node
  imports Syncer
begin

text \<open>
  What a node does, \<open>rai/node/node.cpp\<close>: the visitor of incoming messages, the observer of processed blocks, and the turns
  of the block processor and the elections with the calls they make on the rest of the node. Handshakes and
  keeplives only change the table of peers (theory \<open>PeerOps\<close>); weight and crosschain messages belong to the validator, which
  is not modelled: they leave this state unchanged.
\<close>

section \<open>Blocks from the network\<close>

definition ReceiveBlock :: "env \<Rightarrow> outside \<Rightarrow> block \<Rightarrow> u256 option \<Rightarrow> 'db node \<Rightarrow> 'db node" where
  "ReceiveBlock E V block confirm_to n =
     (let hash = Hash E block;
          known = RecentBlocks_Exists hash (nd_recent_blocks n);
          appended = (case confirm_to of
              Some account \<Rightarrow> if known then Some (ConfirmRequests_Append hash account (nd_confirm_requests n)) else None
            | None \<Rightarrow> None)
      in if known \<and> confirm_to = None then n
         else if (\<exists>requests. appended = Some (False, requests))
         then n\<lparr>nd_confirm_requests := snd (the appended)\<rparr>
         else
           (let n = (case appended of Some (_, requests) \<Rightarrow> n\<lparr>nd_confirm_requests := requests\<rparr> | None \<Rightarrow> n) in
            if CheckSignature E block then n
            else
              let requests = (case confirm_to of
                  Some account \<Rightarrow> snd (ConfirmRequests_Insert_account hash account (nd_confirm_requests n))
                | None \<Rightarrow> snd (ConfirmRequests_Insert hash (nd_confirm_requests n)))
              in Node_Add E V block
                   (n\<lparr>nd_confirm_requests := requests,
                      nd_recent_blocks := snd (RecentBlocks_Insert (out_now V) hash (nd_recent_blocks n))\<rparr>)))"

definition ReceiveBlockFork :: "env \<Rightarrow> outside \<Rightarrow> block \<Rightarrow> block \<Rightarrow> 'db node \<Rightarrow> 'db node" where
  "ReceiveBlockFork E V first second n =
     (if RecentForks_Exists (Hash E first) (Hash E second) (nd_recent_forks n) then n
      else Node_AddFork \<lparr>fk_first = first, fk_second = second, fk_from_local = False\<rparr>
        (n\<lparr>nd_recent_forks := snd (RecentForks_Insert (out_now V) (out_now V) (Hash E first) (Hash E second) (nd_recent_forks n))\<rparr>))"

section \<open>Calls of the elections\<close>

fun on_election_event :: "'db lmdb \<Rightarrow> env \<Rightarrow> election_event \<Rightarrow> 'db node \<Rightarrow> 'db node" where
  "on_election_event M E (Force_Confirmed block) n = (case block of None \<Rightarrow> fail_assert n | Some b \<Rightarrow> ForceConfirmBlock b n)"
| "on_election_event M E (Force_Appended block) n = (case block of None \<Rightarrow> fail_assert n | Some b \<Rightarrow> ForceAppendBlock b n)"
| "on_election_event M E (Confirm_Sent representative timestamp signature block) n =
     BroadcastConfirm_signed representative timestamp signature block n"
| "on_election_event M E (Conflict_Sent representative t1 t2 s1 s2 first second) n =
     BroadcastConflict representative t1 t2 s1 s2 first second n"
| "on_election_event M E (Own_Confirm_Sent account height) n = BroadcastConfirm M E account height n"
| "on_election_event M E (Confirms_Requested_Except block reps) n = Background (Request_Confirms_Except block reps) n"
| "on_election_event M E (Confirms_Requested_From block reps) n = Background (Request_Confirms_Of block reps) n"
| "on_election_event M E (Election_Cutoff account) n = n"
| "on_election_event M E Election_Assertion n = fail_assert n"
| "on_election_event M E Election_End_Read n = fail_assert n"

text \<open>Elections run with their calls on the node recorded; the node then makes them, in order.\<close>

definition after_elections :: "'db lmdb \<Rightarrow> env \<Rightarrow> 'db node \<Rightarrow> 'db node" where
  "after_elections M E n =
     fold (on_election_event M E) (es_events (nd_elections n)) (n\<lparr>nd_elections := (nd_elections n)\<lparr>es_events := []\<rparr>\<rparr>)"

section \<open>The visitor of messages\<close>

definition Visitor_Publish :: "'db lmdb \<Rightarrow> env \<Rightarrow> outside \<Rightarrow> publish_message \<Rightarrow> 'db node \<Rightarrow> 'db node" where
  "Visitor_Publish M E V m n = (case read_transaction M n of
     None \<Rightarrow> n
   | Some txn \<Rightarrow>
       (let block = pb_block m;
            stored = (if NeedConfirm m then BlockGet_height M txn (Account block) (Height block) else None);
            n = (case stored of None \<Rightarrow> n | Some block_l \<Rightarrow> Node_Confirm E V [pb_account m] block_l n);
            confirmed = (stored \<noteq> None);
            receive = (if NeedConfirm m \<and> \<not> confirmed then ReceiveBlock E V block (Some (pb_account m)) n
                       else ReceiveBlock E V block None n)
        in if Timestamp block < CurrentTimestamp E - 86400 then n
           else case AccountInfoGet M txn (Account block) of
             None \<Rightarrow> receive
           | Some info \<Rightarrow>
               if \<not> AccountInfo_Valid info then receive
               else case BlockGet M txn (ai_head info) of
                 None \<Rightarrow> n
               | Some head \<Rightarrow>
                   if AccountInfo_Restricted E info (ucast (Credit head)) \<and> Opcode block \<noteq> CREDIT then n
                   else receive))"

definition Visitor_Relay :: "outside \<Rightarrow> endpoint \<Rightarrow> relay_message \<Rightarrow> 'db node \<Rightarrow> 'db node" where
  "Visitor_Relay V sender m n =
     (let receiver = peer_endpoint (rl_header m) in
      if \<not> out_reachable V receiver then n
      else Node_Send (Relay (m\<lparr>rl_header := (rl_header m)\<lparr>peer_endpoint := sender\<rparr>\<rparr>)) receiver n)"

definition Visitor_Confirm :: "'db lmdb \<Rightarrow> env \<Rightarrow> outside \<Rightarrow> confirm_message \<Rightarrow> 'db node \<Rightarrow> 'db node" where
  "Visitor_Confirm M E V m n =
     (let now = CurrentTimestamp E in
      if cf_timestamp m > now + MAX_TIMESTAMP_DIFF * 2 \<or> cf_timestamp m < now - MAX_TIMESTAMP_DIFF * 2 then n
      else let weight = Node_RepWeight (cf_representative m) n in
        if weight < QUALIFIED_REP_WEIGHT then n
        else after_elections M E (n\<lparr>nd_elections := ProcessConfirm E (out_around V) (cf_representative m) (cf_timestamp m) (cf_signature m)
                 (cf_block m) weight (nd_elections n)\<rparr>))"

definition Visitor_Conflict :: "'db lmdb \<Rightarrow> env \<Rightarrow> outside \<Rightarrow> conflict_message \<Rightarrow> 'db node \<Rightarrow> 'db node" where
  "Visitor_Conflict M E V m n =
     (let weight = Node_RepWeight (cx_representative m) n in
      if weight < QUALIFIED_REP_WEIGHT then n
      else after_elections M E (n\<lparr>nd_elections := ProcessConflict E (out_around V) (cx_representative m) (cx_timestamp_first m)
               (cx_timestamp_second m) (cx_signature_first m) (cx_signature_second m) (cx_block_first m)
               (cx_block_second m) weight (nd_elections n)\<rparr>))"

text \<open>The answer to a query: its status and block; \<open>None\<close> where the visitor returns without an answer.\<close>

definition Query_by_hash ::
  "'db lmdb \<Rightarrow> 'db transaction \<Rightarrow> query_message \<Rightarrow> account_info option \<Rightarrow> query_status \<times> block option" where
  "Query_by_hash M txn m account_info = (case RollbackBlockGet M txn (qr_hash m) of
     Some block \<Rightarrow> (STATUS_SUCCESS, Some block)
   | None \<Rightarrow>
       let stored = (case BlockGet M txn (qr_hash m) of
             Some block \<Rightarrow> (STATUS_SUCCESS, Some block) | None \<Rightarrow> (STATUS_MISS, None))
       in case account_info of
            None \<Rightarrow> stored
          | Some info \<Rightarrow>
              if qr_height m = INVALID_HEIGHT then stored
              else if qr_height m < ai_tail_height info then (STATUS_PRUNED, None)
              else if qr_height m > ai_head_height info then (STATUS_MISS, None)
              else stored)"

definition Query_by_height ::
  "'db lmdb \<Rightarrow> 'db transaction \<Rightarrow> query_message \<Rightarrow> account_info option \<Rightarrow> (query_status \<times> block option) option" where
  "Query_by_height M txn m account_info =
     (if qr_height m = INVALID_HEIGHT then None
      else case account_info of
        None \<Rightarrow> Some (STATUS_MISS, None)
      | Some info \<Rightarrow>
          if qr_height m < ai_tail_height info then Some (STATUS_PRUNED, None)
          else if qr_height m > ai_head_height info then Some (STATUS_MISS, None)
          else case BlockGet_height M txn (qr_account m) (qr_height m) of
            Some block \<Rightarrow> Some (STATUS_SUCCESS, Some block)
          | None \<Rightarrow> Some (STATUS_MISS, None))"

definition Query_by_previous ::
  "'db lmdb \<Rightarrow> 'db transaction \<Rightarrow> query_message \<Rightarrow> account_info option \<Rightarrow> (query_status \<times> block option) option" where
  "Query_by_previous M txn m account_info =
     (if qr_height m = INVALID_HEIGHT then None
      else case account_info of
        None \<Rightarrow> Some (STATUS_MISS, None)
      | Some info \<Rightarrow>
          if qr_height m < ai_tail_height info + 1 then Some (STATUS_PRUNED, None)
          else if qr_height m > ai_head_height info + 1 then Some (STATUS_MISS, None)
          else case BlockSuccessorGet M txn (qr_hash m) of
            None \<Rightarrow> (case BlockGet_height M txn (qr_account m) (qr_height m - 1) of
                Some block \<Rightarrow> Some (STATUS_FORK, Some block)
              | None \<Rightarrow> Some (STATUS_MISS, None))
          | Some successor \<Rightarrow>
              if successor = 0 then Some (STATUS_MISS, None)
              else (case BlockGet M txn successor of
                  Some block \<Rightarrow> Some (STATUS_SUCCESS, Some block)
                | None \<Rightarrow> Some (STATUS_MISS, None)))"

definition query_account_info :: "'db lmdb \<Rightarrow> 'db transaction \<Rightarrow> u256 \<Rightarrow> account_info option" where
  "query_account_info M txn account =
     (if account = 0 then None
      else case AccountInfoGet M txn account of
        None \<Rightarrow> None
      | Some info \<Rightarrow> if AccountInfo_Valid info then Some info else None)"

definition query_response :: "'db lmdb \<Rightarrow> 'db transaction \<Rightarrow> query_message \<Rightarrow> query_message option" where
  "query_response M txn m =
     (let response = m\<lparr>qr_header := SetFlag ACK (ClearFlag RELAY (qr_header m))\<rparr>;
          account_info = query_account_info M txn (qr_account m);
          by = QueryBy (qr_header m);
          answer = (if by = BY_HASH then Some (Query_by_hash M txn m account_info)
                    else if by = BY_HEIGHT then Query_by_height M txn m account_info
                    else if by = BY_PREVIOUS then Query_by_previous M txn m account_info
                    else None)
      in map_option (\<lambda>(status, block). SetStatus status (response\<lparr>qr_block := (case block of
           Some b \<Rightarrow> Some b | None \<Rightarrow> qr_block m)\<rparr>)) answer)"

definition Visitor_Query :: "'db lmdb \<Rightarrow> env \<Rightarrow> outside \<Rightarrow> endpoint \<Rightarrow> query_message \<Rightarrow> 'db node \<Rightarrow> 'db node" where
  "Visitor_Query M E V sender m n =
     (let h = qr_header m in
      if GetFlag ACK h then
        (let from_proxy = GetFlag PROXY h in
         ProcessQueryAck M E V (qr_sequence m) (QueryBy h) (qr_account m) (qr_height m) (qr_hash m) (QueryStatus h)
           (qr_block m) (if from_proxy then peer_endpoint h else sender) (if from_proxy then Some sender else None) n)
      else case read_transaction M n of
        None \<Rightarrow> n
      | Some txn \<Rightarrow> (case query_response M txn m of
            None \<Rightarrow> n
          | Some response \<Rightarrow> Node_Send (Query response) sender n))"

fun Visit :: "'db lmdb \<Rightarrow> env \<Rightarrow> outside \<Rightarrow> endpoint \<Rightarrow> message \<Rightarrow> 'db node \<Rightarrow> 'db node" where
  "Visit M E V sender (Publish m) n = Visitor_Publish M E V m n"
| "Visit M E V sender (Relay m) n = Visitor_Relay V sender m n"
| "Visit M E V sender (Confirm m) n = Visitor_Confirm M E V m n"
| "Visit M E V sender (Query m) n = Visitor_Query M E V sender m n"
| "Visit M E V sender (Fork m) n = ReceiveBlockFork E V (fm_first m) (fm_second m) n"
| "Visit M E V sender (Conflict m) n = Visitor_Conflict M E V m n"
| "Visit M E V sender (Handshake m) n = n"
| "Visit M E V sender (Keeplive m) n = n"
| "Visit M E V sender (Weight m) n = n"
| "Visit M E V sender (Crosschain m) n = n"

definition ProcessMessage :: "'db lmdb \<Rightarrow> env \<Rightarrow> outside \<Rightarrow> endpoint \<Rightarrow> bytes \<Rightarrow> 'db node \<Rightarrow> 'db node" where
  "ProcessMessage M E V remote stream n = (case MessageParser_Parse E stream of
     Inl _ \<Rightarrow> n
   | Inr m \<Rightarrow> Visit M E V remote m n)"

section \<open>Processed blocks\<close>

definition ConfirmRequestAck :: "env \<Rightarrow> outside \<Rightarrow> block_process_result \<Rightarrow> block \<Rightarrow> 'db node \<Rightarrow> 'db node" where
  "ConfirmRequestAck E V result block n =
     (if pr_operation result \<noteq> APPEND then n
      else if pr_error_code result \<noteq> SUCCESS \<and> pr_error_code result \<noteq> BLOCK_PROCESS_EXISTS then n
      else case ConfirmRequests_Remove (Hash E block) (nd_confirm_requests n) of (to, requests) \<Rightarrow>
        Node_Confirm E V to block (n\<lparr>nd_confirm_requests := requests\<rparr>))"

definition ElectNextFork :: "'db lmdb \<Rightarrow> block_process_result \<Rightarrow> block \<Rightarrow> 'db node \<Rightarrow> 'db node" where
  "ElectNextFork M result block n =
     (if pr_operation result \<noteq> CONFIRM then n
      else if pr_error_code result \<noteq> SUCCESS then n
      else case read_transaction M n of
        None \<Rightarrow> n
      | Some txn \<Rightarrow> (case NextFork M txn (Account block) (Height block + 1) of
          None \<Rightarrow> n
        | Some (account, height, first, second) \<Rightarrow>
            if account \<noteq> Account block then n
            else case AccountInfoGet M txn account of
              None \<Rightarrow> n
            | Some info \<Rightarrow>
                if \<not> AccountInfo_Valid info then n
                else if height > ai_head_height info then n
                else if ai_confirmed_height info \<noteq> INVALID_HEIGHT \<and> ai_confirmed_height info \<ge> height then n
                else Background (Start_Election [first, second]) n))"

definition UpdateActiveAccounts :: "outside \<Rightarrow> block_process_result \<Rightarrow> block \<Rightarrow> 'db node \<Rightarrow> 'db node" where
  "UpdateActiveAccounts V result block n =
     (if pr_error_code result \<noteq> SUCCESS then n
      else if pr_operation result \<noteq> APPEND \<and> pr_operation result \<noteq> ROLLBACK then n
      else n\<lparr>nd_active_accounts := ActiveAccounts_Add (out_now V) (Account block) (nd_active_accounts n)\<rparr>)"

text \<open>Receivables of the node's own account start an election; handing confirmed ones to the rewarder is left out.\<close>

definition ProcessReceivable :: "block_process_result \<Rightarrow> block \<Rightarrow> 'db node \<Rightarrow> 'db node" where
  "ProcessReceivable result block n =
     (if pr_error_code result \<noteq> SUCCESS then n
      else if Opcode block \<noteq> SEND \<or> Link block \<noteq> nd_account n then n
      else if pr_operation result = APPEND then Background (Start_Election [block]) n
      else n)"

definition OnBlockProcessed :: "'db lmdb \<Rightarrow> env \<Rightarrow> outside \<Rightarrow> block_process_result \<Rightarrow> block \<Rightarrow> 'db node \<Rightarrow> 'db node" where
  "OnBlockProcessed M E V result block n =
     (let n = ConfirmRequestAck E V result block n;
          n = ElectNextFork M result block n;
          n = UpdateActiveAccounts V result block n;
          n = ProcessReceivable result block n
      in if pr_operation result = DROP
         then n\<lparr>nd_recent_blocks := RecentBlocks_Remove (Hash E block) (nd_recent_blocks n)\<rparr>
         else n)"

section \<open>Turns of the components\<close>

text \<open>What the calls and notifications of the block processor, in order, make the node do.\<close>

fun on_event :: "outside \<Rightarrow> event \<Rightarrow> 'db node \<Rightarrow> 'db node" where
  "on_event V (Block_Observed result block) n = Background (Notify_Block result block) n"
| "on_event V (Block_Published block) n = Node_Publish block n"
| "on_event V (Block_Queried account height hash only_full_node operation) n =
     queries_update (QueryByHash (out_now V) account height hash only_full_node (Processor_Callback operation)) n"
| "on_event V (Fork_Observed add first second) n = n"
| "on_event V (Fork_Broadcast first second) n = BroadcastFork first second n"
| "on_event V (Election_Started first second) n = Background (Start_Election [first, second]) n"
| "on_event V Assertion_Failed n = fail_assert n"
| "on_event V Null_Block n = fail_assert n"

definition Processor_turn :: "'db lmdb \<Rightarrow> env \<Rightarrow> outside \<Rightarrow> nat \<Rightarrow> 'db node \<Rightarrow> 'db node option" where
  "Processor_turn M E V fuel n = (case Run_step M E (out_now V) fuel ((nd_processor n)\<lparr>bp_events := []\<rparr>) of
     None \<Rightarrow> None
   | Some p \<Rightarrow> Some (fold (on_event V) (bp_events p) (n\<lparr>nd_processor := p\<lparr>bp_events := []\<rparr>\<rparr>)))"

definition Elections_turn :: "'db lmdb \<Rightarrow> env \<Rightarrow> outside \<Rightarrow> 'db node \<Rightarrow> 'db node" where
  "Elections_turn M E V n =
     after_elections M E (n\<lparr>nd_elections := Elections_Run_step E (out_around V) (nd_elections n)\<rparr>)"

section \<open>Posted work\<close>

definition RequestConfirm :: "env \<Rightarrow> route \<Rightarrow> block \<Rightarrow> 'db node \<Rightarrow> 'db node" where
  "RequestConfirm E route block n = snd (SendByRoute E route (Publish (PublishMessage_confirm block (nd_account n))) n)"

fun do_job :: "'db lmdb \<Rightarrow> env \<Rightarrow> outside \<Rightarrow> job \<Rightarrow> 'db node \<Rightarrow> 'db node" where
  "do_job M E V (Notify_Block result block) n =
     OnBlockProcessed M E V result block (ProcessorCallback M E V result block n)"
| "do_job M E V (Broadcast_Message message) n = Node_Broadcast E V message n"
| "do_job M E V (Start_Election blocks) n =
     after_elections M E (n\<lparr>nd_elections := Elections_Add E (out_around V) blocks (nd_elections n)\<rparr>)"
| "do_job M E V (Request_Confirms_Except block reps) n =
     fold (\<lambda>route. RequestConfirm E route block) (out_routes_except V reps) n"
| "do_job M E V (Request_Confirms_Of block reps) n =
     fold (\<lambda>route. RequestConfirm E route block) (out_routes_of V reps) n"

definition take_job :: "nat \<Rightarrow> 'db node \<Rightarrow> (job \<times> 'db node) option" where
  "take_job k n =
     (if k < length (nd_background n)
      then Some (nd_background n ! k, n\<lparr>nd_background := take k (nd_background n) @ drop (Suc k) (nd_background n)\<rparr>)
      else None)"

text \<open>Periodic work of the alarm.\<close>

datatype ageing = Age_Recent_Blocks | Age_Recent_Forks | Age_Confirms | Age_Active_Accounts

fun on_alarm :: "env \<Rightarrow> outside \<Rightarrow> ageing \<Rightarrow> 'db node \<Rightarrow> 'db node" where
  "on_alarm E V Age_Recent_Blocks n = n\<lparr>nd_recent_blocks := RecentBlocks_Age (out_now V) (nd_recent_blocks n)\<rparr>"
| "on_alarm E V Age_Recent_Forks n = n\<lparr>nd_recent_forks := RecentBlocks_Age (out_now V) (nd_recent_forks n)\<rparr>"
| "on_alarm E V Age_Confirms n = n\<lparr>nd_confirms := ConfirmManager_Age E (nd_confirms n)\<rparr>"
| "on_alarm E V Age_Active_Accounts n = n\<lparr>nd_active_accounts := ActiveAccounts_Age (out_now V) (nd_active_accounts n)\<rparr>"

definition AgeGapCaches :: "'db lmdb \<Rightarrow> outside \<Rightarrow> 'db node \<Rightarrow> 'db node" where
  "AgeGapCaches M V n =
     (let p = nd_processor n in
      case GapCache_Age (out_now V) (previous_gap_cache p) 5 of (previous, c1) \<Rightarrow>
      case GapCache_Age (out_now V) (receive_source_gap_cache p) 5 of (receive_source, c2) \<Rightarrow>
      case GapCache_Age (out_now V) (reward_source_gap_cache p) 5 of (reward_source, c3) \<Rightarrow>
        let n = n\<lparr>nd_processor := p\<lparr>previous_gap_cache := c1, receive_source_gap_cache := c2, reward_source_gap_cache := c3\<rparr>\<rparr> in
        if \<not> sr_run (out_around V) then n
        else case read_transaction M n of
          None \<Rightarrow> n
        | Some txn \<Rightarrow> fold (\<lambda>i. SyncAccount M V txn (gap_account i) DEFAULT_BATCH_ID)
            (previous @ receive_source @ reward_source) n)"

end
