(* ===== verification/Evidence.thy ===== *)
theory Evidence
  imports Node
begin

text \<open>
  Votes as evidence: a conflict message is accepted exactly when its halves are confirm messages that every node accepts and
  that contradict each other.
\<close>

definition vote_in :: "env \<Rightarrow> u64 \<Rightarrow> u512 \<Rightarrow> block \<Rightarrow> vote" where
  "vote_in E timestamp signature block = \<lparr>vt_timestamp = timestamp, vt_signature = signature, vt_hash = Hash E block\<rparr>"

lemma header_ok_new [simp]:
  "(\<forall>v. type \<noteq> MESSAGE_OTHER v) \<Longrightarrow> type \<noteq> MESSAGE_INVALID \<Longrightarrow> header_ok (MessageHeader_new type extension)"
  by (simp add: header_ok_def MessageHeader_new_def PROTOCOL_VERSION_MIN_def PROTOCOL_VERSION_USING_def)

lemma fresh_flags [simp]: "\<not> GetFlag f (MessageHeader_new type extension)"
  by (simp add: GetFlag_def MessageHeader_new_def)

lemma fresh_fields [simp]:
  "mh_type (MessageHeader_new type extension) = type" "mh_extension (MessageHeader_new type extension) = extension"
  by (simp_all add: MessageHeader_new_def)

lemma accepted_Confirm_new:
  "accepted E (Confirm (ConfirmMessage_new t rep s b)) \<longleftrightarrow>
     block_ok E b \<and> \<not> ValidateMessage E rep (blake2b E (Write t @ Write rep @ Write (Hash E b))) s"
  by (simp add: accepted_def ConfirmMessage_new_def ConfirmMessage_Hash_def)

lemma accepted_Conflict_new:
  "accepted E (Conflict (ConflictMessage_new rep t1 t2 s1 s2 b1 b2)) \<longleftrightarrow>
     block_ok E b1 \<and> block_ok E b2 \<and> ConflictMessage_Check E (ConflictMessage_new rep t1 t2 s1 s2 b1 b2) = Code SUCCESS"
  by (simp add: accepted_def ConflictMessage_new_def)

definition distance :: "u64 \<Rightarrow> u64 \<Rightarrow> u64" where
  "distance a b = (if a > b then a - b else b - a)"

lemma distance_0 [simp]: "distance a b = 0 \<longleftrightarrow> a = b"
  by (auto simp: distance_def)

lemma ConflictMessage_Check_new:
  "ConflictMessage_Check E (ConflictMessage_new rep t1 t2 s1 s2 b1 b2) = Code SUCCESS \<longleftrightarrow>
     Account b1 = Account b2 \<and> Height b1 = Height b2 \<and> \<not> (t1 = t2 \<and> BlocksEqual b1 b2) \<and>
     distance t1 t2 < MIN_CONFIRM_INTERVAL \<and>
     \<not> ValidateMessage E rep (blake2b E (Write t1 @ Write rep @ Write (Hash E b1))) s1 \<and>
     \<not> ValidateMessage E rep (blake2b E (Write t2 @ Write rep @ Write (Hash E b2))) s2"
  unfolding ConflictMessage_Check_def Let_def distance_def [symmetric]
  by (simp add: ConflictMessage_new_def ConflictMessage_Hash_def flip: not_le)

lemma CheckConflict_distance:
  "CheckConflict (vote_in E t1 s1 b1) (vote_in E t2 s2 b2) \<longleftrightarrow>
     \<not> (t1 = t2 \<and> Hash E b1 = Hash E b2) \<and> distance t1 t2 < MIN_CONFIRM_INTERVAL"
  by (simp add: CheckConflict_def vote_in_def Let_def distance_def)

lemma conflict_evidence:
  "accepted E (Conflict (ConflictMessage_new rep t1 t2 s1 s2 b1 b2)) \<longleftrightarrow>
     accepted E (Confirm (ConfirmMessage_new t1 rep s1 b1)) \<and> accepted E (Confirm (ConfirmMessage_new t2 rep s2 b2)) \<and>
     Account b1 = Account b2 \<and> Height b1 = Height b2 \<and>
     (CheckConflict (vote_in E t1 s1 b1) (vote_in E t2 s2 b2) \<or>
      t1 = t2 \<and> Hash E b1 = Hash E b2 \<and> \<not> BlocksEqual b1 b2)"
  unfolding accepted_Confirm_new accepted_Conflict_new ConflictMessage_Check_new CheckConflict_distance
  by (auto simp: BlocksEqual_iff MIN_CONFIRM_INTERVAL_def) (simp add: distance_def)

end
