(* ===== verification/Lookup.thy ===== *)
theory Lookup
  imports NodeInv
begin

text \<open>
  Finding the block at a height. \<open>Ledger::BlockGet\<close> starts at the nearest entry of the height index, or at an end of the
  chain, and walks forward or backward; on every reachable ledger it finds exactly the stored block. For this the tail of an
  account has to be stored, and the rolled-back blocks have to be filed under their hashes.
\<close>

lemma unat_u64_less: "unat (x :: u64) < 18446744073709551616"
  using unsigned_less [of x] by simp

section \<open>Tails and rolled-back blocks\<close>

definition tails_inv :: "ledger_view \<Rightarrow> bool" where
  "tails_inv L \<longleftrightarrow> (\<forall>a info. v_accounts L a = Some info \<longrightarrow>
     (\<exists>b s. v_blocks L (ai_tail info) = Some (b, s) \<and> Account b = a \<and> Height b = 0))"

definition rollbacks_inv :: "env \<Rightarrow> block set \<Rightarrow> ledger_view \<Rightarrow> bool" where
  "rollbacks_inv E U L \<longleftrightarrow> (\<forall>h b. v_rollbacks L h = Some b \<longrightarrow> Hash E b = h \<and> b \<in> U)"

lemma append_step_rollbacks: "append_step E L b L' \<Longrightarrow> v_rollbacks L' = v_rollbacks L"
  by (erule append_step.cases) (simp_all add: bind_view_def)

lemma rollback_step_rollbacks:
  assumes "rollback_step E L b L'"
  shows "v_rollbacks L' = (v_rollbacks L)(Hash E b \<mapsto> b)" "\<exists>s. v_blocks L (Hash E b) = Some (b, s)"
  using assms by (cases; auto simp: rollback_ok_def remove_view_def unbind_view_def)+

lemma reachable_rollbacks:
  assumes "reachable E U g L" "universe E g U"
  shows "rollbacks_inv E U L"
  using assms
proof induction
  case (append L t b L')
  then show ?case by (simp add: rollbacks_inv_def append_step_rollbacks)
next
  case (rollback L t b L')
  note r = rollback_step_rollbacks [OF rollback(2)]
  from r(2) reachable_stored [OF rollback(1,4)] have "b \<in> U" by auto
  with rollback r(1) show ?case by (simp add: rollbacks_inv_def)
qed (auto simp: rollbacks_inv_def genesis_view_def first_view_def empty_view_def confirm_view_def commit_view_def same_but_forks_def)

lemma reachable_tails:
  assumes "reachable E U g L" "universe E g U"
  shows "tails_inv L"
  using assms
proof induction
  case (genesis m)
  then show ?case
    by (auto simp: tails_inv_def genesis_view_def first_view_def empty_view_def universe_def genesis_ok_def AccountInfo_new_def)
next
  case (append L t b L')
  let ?E = "at_time E t"
  have inv: "ledger_inv ?E L" using history_parts(1) [OF reachable_history [OF append(1,5)]] by simp
  have old: "tails_inv L" by (rule append.IH [OF append.prems])
  have grow: "\<exists>s'. v_blocks L' h = Some (c, s')" if "v_blocks L h = Some (c, s)" for h c s
    using append_step_blocks(1) [OF inv append(2)] that unfolding blocks_grow_def by blast
  have here: "v_blocks L' (Hash E b) = Some (b, 0)" using append_step_blocks(2) [OF inv append(2)] by simp
  from append_step_shape [OF append(2)] show ?case
  proof (elim disjE exE)
    fix p assume e: "extends ?E L p b L'"
    then obtain info where info: "v_accounts L (Account b) = Some info"
      "v_accounts L' = (v_accounts L)(Account b \<mapsto> info\<lparr>ai_head_height := Height b, ai_head := Hash E b\<rparr>)"
      by (auto simp: extends_def successor_ok_def)
    with old grow show ?thesis unfolding tails_inv_def by (auto split: if_splits) (metis+)
  next
    assume o: "opens ?E L b L'"
    then have "v_accounts L' = (v_accounts L)(Account b \<mapsto> AccountInfo_new (Type b) (Hash E b))" "Height b = 0"
      by (auto simp: opens_def first_ok_def)
    with old grow here show ?thesis
      unfolding tails_inv_def by (auto simp: AccountInfo_new_def split: if_splits) (metis+)
  qed
next
  case (rollback L t b L')
  have inv: "history_inv (at_time E t) g L" using reachable_history [OF rollback(1,4)] by simp
  obtain v where r: "retracts (at_time E t) L b v L'" by (rule rollback_step_shape [OF rollback(2)])
  note h = retracts_head [OF history_parts(1) [OF inv] r]
  have old: "tails_inv L" by (rule rollback.IH [OF rollback.prems])
  show ?case
    unfolding tails_inv_def
  proof (intro allI impI)
    fix a j assume j: "v_accounts L' a = Some j"
    have keep: "\<exists>c s. v_blocks L' x = Some (c, s) \<and> Account c = a \<and> Height c = 0"
      if "v_blocks L x = Some (d, s)" "Account d = a" "Height d = 0" "x \<noteq> Hash (at_time E t) b" for x d s
      using retracts_keeps [OF inv r that(1,4)] that by blast
    from j show "\<exists>c s. v_blocks L' (ai_tail j) = Some (c, s) \<and> Account c = a \<and> Height c = 0"
    proof (rule retracts_info [OF history_parts(1) [OF inv] r])
      assume a: "a \<noteq> Account b" "v_accounts L a = Some j"
      then obtain d s where "v_blocks L (ai_tail j) = Some (d, s)" "Account d = a" "Height d = 0"
        using old unfolding tails_inv_def by blast
      with keep a(1) h(1) show ?thesis by fastforce
    next
      fix p assume p: "a = Account b" "rv_previous v = Some p" "j = rollback_info (rv_account_info v) b"
      then obtain d s where d: "v_blocks L (ai_tail j) = Some (d, s)" "Account d = a" "Height d = 0"
        using old h(2) unfolding tails_inv_def by fastforce
      have "Height b \<noteq> 0" using retracts_previous(5) [OF history_parts(1) [OF inv] r p(2)] by auto
      with keep d h(1) show ?thesis by fastforce
    qed
  qed
next
  case (confirm L b s info)
  then show ?case by (auto simp: tails_inv_def confirm_view_def confirmed_info_def split: if_splits)
next
  case (commit L)
  then show ?case by (simp add: tails_inv_def commit_view_def)
next
  case (forks L L')
  have "v_blocks L' = v_blocks L" using forks(2) by (auto simp: same_but_forks_def)
  with forks show ?case unfolding tails_inv_def by (fastforce dest: same_but_forks_accounts(1))
qed

section \<open>Walking the chain\<close>

definition stands :: "ledger_view \<Rightarrow> u256 \<Rightarrow> u64 \<Rightarrow> u256 \<Rightarrow> block \<Rightarrow> u256 \<Rightarrow> bool" where
  "stands L a n h b s \<longleftrightarrow> v_blocks L h = Some (b, s) \<and> Account b = a \<and> Height b = n"

lemma stands_unique:
  assumes "history_inv E g L" "stands L a n h b s" "stands L a n h' b' s'"
  shows "h' = h" "b' = b" "s' = s"
proof -
  show "h' = h" using history_parts(11) [OF assms(1)] assms(2,3) unfolding unique_inv_def stands_def by metis
  with assms(2,3) show "b' = b" "s' = s" by (simp_all add: stands_def)
qed

lemma stands_below:
  assumes inv: "history_inv E g L" and b: "stands L a n h b s" and "n \<noteq> 0"
  obtains p where "stands L a (n - 1) (Previous b) p h"
proof -
  note i = history_parts [OF inv]
  obtain info where info: "v_accounts L a = Some info"
    using i(10) b unfolding range_inv_def stands_def by blast
  have "ai_tail_height info < Height b"
    using i(6) info b assms(3) unfolding stored_inv_def stands_def by (auto simp: word_neq_0_conv)
  then have "linked L h b" using i(12) info b unfolding links_inv_def stands_def by blast
  with b that show thesis by (auto simp: linked_def stands_def)
qed

lemma stands_above:
  assumes inv: "history_inv E g L" and b: "stands L a n h b s" and c: "stands L a (n + 1) h' c s'" and "n + 1 \<noteq> 0"
  shows "s = h'"
proof -
  obtain p where "stands L a (n + 1 - 1) (Previous c) p h'" by (rule stands_below [OF inv c assms(4)])
  with stands_unique [OF inv b] show ?thesis by simp
qed

text \<open>Every height from 0 to the head is taken.\<close>

lemma stands_all:
  assumes inv: "history_inv E g L" and info: "v_accounts L a = Some info" and n: "n \<le> ai_head_height info"
  obtains h b s where "stands L a n h b s"
proof -
  note i = history_parts [OF inv]
  have down: "\<exists>h b s. stands L a (ai_head_height info - of_nat k) h b s" if "k \<le> unat (ai_head_height info)" for k
    using that
  proof (induction k)
    case 0
    have "info_inv L a info" using i(8,9) info unfolding heads_inv_def valid_inv_def by blast
    then show ?case by (auto simp: info_inv_def stands_def)
  next
    case (Suc k)
    then obtain h b s where b: "stands L a (ai_head_height info - of_nat k) h b s" by auto
    have "ai_head_height info - of_nat k \<noteq> 0"
    proof
      have "k < 18446744073709551616" using Suc.prems unat_u64_less [of "ai_head_height info"] by simp
      then have k: "unat (of_nat k :: u64) = k" by (simp add: unat_of_nat)
      assume "ai_head_height info - of_nat k = 0"
      then have "ai_head_height info = of_nat k" by simp
      with k Suc.prems show False by simp
    qed
    from stands_below [OF inv b this] show ?case by (metis of_nat_Suc diff_diff_add add.commute)
  qed
  have "ai_head_height info - of_nat (unat (ai_head_height info - n)) = n" by simp
  moreover have "unat (ai_head_height info - n) \<le> unat (ai_head_height info)"
    using n by (simp add: unat_sub word_le_nat_alt)
  ultimately show thesis using down [of "unat (ai_head_height info - n)"] that by metis
qed


section \<open>The two loops\<close>

lemma BlockGet_backward_finds:
  assumes rel: "ledger_rel M txn L" and inv: "history_inv E g L"
  shows "stands L a m h c u \<Longrightarrow> unat m = unat n + k \<Longrightarrow>
    \<exists>x b s. stands L a n x b s \<and> BlockGet_backward M txn a n h (Suc k) = Some (b, s)"
proof (induction k arbitrary: m h c u)
  case 0
  then have "m = n" by (simp add: word_unat_eq_iff)
  with 0(1) show ?case by (auto simp: stands_def get_rels [OF rel])
next
  case (Suc k)
  then have m: "m \<noteq> 0" "n \<noteq> m" by (auto simp: word_unat_eq_iff)
  obtain p where p: "stands L a (m - 1) (Previous c) p h" by (rule stands_below [OF inv Suc.prems(1) m(1)])
  have "unat (m - 1) = unat n + k" using Suc.prems(2) m(1) by (simp add: unat_minus_one)
  from Suc.IH [OF p this] Suc.prems(1) m(2) show ?case by (auto simp: stands_def get_rels [OF rel])
qed

lemma BlockGet_forward_finds:
  assumes rel: "ledger_rel M txn L" and inv: "history_inv E g L" and info: "v_accounts L a = Some info"
    and n: "n \<le> ai_head_height info"
  shows "stands L a m h c u \<Longrightarrow> unat n = unat m + k \<Longrightarrow>
    \<exists>x b s. stands L a n x b s \<and> BlockGet_forward M txn a n h (Suc k) = Some (b, s)"
proof (induction k arbitrary: m h c u)
  case 0
  then have "m = n" by (simp add: word_unat_eq_iff)
  with 0(1) show ?case by (auto simp: stands_def get_rels [OF rel])
next
  case (Suc k)
  then have m: "n \<noteq> m" "m < n" by (auto simp: word_unat_eq_iff word_less_nat_alt)
  have "unat m + 1 < 18446744073709551616" using m(2) unat_u64_less [of n] by (simp add: word_less_nat_alt)
  then have m1: "unat (m + 1) = Suc (unat m)" by (simp add: unat_word_ariths)
  have "m + 1 \<le> ai_head_height info" using n m(2) m1 by (simp add: word_le_nat_alt word_less_nat_alt)
  then obtain h' c' u' where c': "stands L a (m + 1) h' c' u'" by (rule stands_all [OF inv info])
  have "m + 1 \<noteq> 0" using m1 by auto
  from stands_above [OF inv Suc.prems(1) c' this] have u: "u = h'" .
  have "unat n = unat (m + 1) + k" using Suc.prems(2) m1 by simp
  from Suc.IH [OF c' this] Suc.prems(1) m(1) show ?case by (auto simp: stands_def get_rels [OF rel] u)
qed

section \<open>The lookup\<close>

lemma BlockIndexGet_stands:
  assumes "ledger_rel M txn L" "history_inv E g L" "stands L a n h b s" "n mod BLOCKS_PER_INDEX = 0"
  shows "BlockIndexGet M txn a n = Some h"
  using index_inv_put [OF history_parts(13) [OF assms(2)], of h b s] assms(3,4)
  by (simp add: stands_def get_rels [OF assms(1)])

lemma BlockGet_height_finds:
  assumes rel: "ledger_rel M txn L" and r: "reachable E U g L" "universe E g U"
    and info: "v_accounts L a = Some info" and n: "n \<le> ai_head_height info" and bound: "unat (ai_head_height info) + 8 < 2 ^ 64"
  shows "\<exists>h b s. stands L a n h b s \<and> BlockGet_height_successor M txn a n = Some (b, s)"
proof -
  have inv: "history_inv E g L" by (rule reachable_history [OF r])
  note i = history_parts [OF inv]
  have tail: "ai_tail_height info = 0" using i(6) info by (simp add: stored_inv_def)
  have head: "info_inv L a info" using i(8,9) info unfolding heads_inv_def valid_inv_def by blast
  define start where "start = (n div BLOCKS_PER_INDEX) * BLOCKS_PER_INDEX"
  define end' where "end' = start + BLOCKS_PER_INDEX"
  define stop where "stop = (if end' > ai_head_height info then ai_head_height info else end')"
  have start: "unat start = unat n div 8 * 8"
    using unat_u64_less [of n] div_times_less_eq_dividend [of "unat n" 8]
    by (simp add: start_def BLOCKS_PER_INDEX_def unat_word_ariths unat_div)
  then have start_n: "unat start \<le> unat n" "start mod BLOCKS_PER_INDEX = 0"
    by (simp_all add: word_unat_eq_iff unat_mod BLOCKS_PER_INDEX_def)
  have end': "unat end' = unat start + 8"
    using start_n n bound by (simp add: end'_def BLOCKS_PER_INDEX_def unat_word_ariths word_le_nat_alt)
  then have mod: "end' mod BLOCKS_PER_INDEX = 0" using start_n(2)
    by (simp add: word_unat_eq_iff unat_mod BLOCKS_PER_INDEX_def)
  have n_stop: "unat n \<le> unat stop"
    using n start end' by (simp add: stop_def word_le_nat_alt) linarith
  have "start \<le> ai_head_height info" using start_n n by (simp add: word_le_nat_alt)
  then obtain h1 b1 s1 where b1: "stands L a start h1 b1 s1" by (rule stands_all [OF inv info])
  have first: "(if start \<noteq> 0 then BlockIndexGet M txn a start else Some (ai_tail info)) = Some h1"
  proof (cases "start = 0")
    case True
    then obtain b s where "stands L a start (ai_tail info) b s"
      using reachable_tails [OF r] info unfolding tails_inv_def stands_def by blast
    with True stands_unique [OF inv b1] show ?thesis by simp
  next
    case False
    with BlockIndexGet_stands [OF rel inv b1 start_n(2)] show ?thesis by simp
  qed
  have "stop \<le> ai_head_height info" by (simp add: stop_def not_less)
  then obtain h2 b2 s2 where b2: "stands L a stop h2 b2 s2" by (rule stands_all [OF inv info])
  have last: "(if stop \<noteq> ai_head_height info then BlockIndexGet M txn a stop else Some (ai_head info)) = Some h2"
  proof (cases "stop = ai_head_height info")
    case True
    then obtain b where "stands L a stop (ai_head info) b 0" using head by (auto simp: info_inv_def stands_def)
    with True stands_unique [OF inv b2] show ?thesis by simp
  next
    case False
    with BlockIndexGet_stands [OF rel inv b2] mod show ?thesis by (auto simp: stop_def split: if_splits)
  qed
  have eq: "BlockGet_height_successor M txn a n =
    (if n - start < stop - n then BlockGet_forward M txn a n h1 (unat (n - start) + 1)
     else BlockGet_backward M txn a n h2 (unat (stop - n) + 1))"
  proof -
    have guard: "\<not> (n < 0 \<or> ai_head_height info < n)" using n by (simp add: not_less)
    have low: "(if start < 0 then 0 else start) = start" by simp
    show ?thesis
      unfolding BlockGet_height_successor_def Let_def AccountInfoGet_rel [OF rel] info option.case tail start_def [symmetric]
        low end'_def [symmetric] stop_def [symmetric] if_not_P [OF guard] first last ..
  qed
  have "unat n = unat start + unat (n - start)" "unat stop = unat n + unat (stop - n)"
    using start_n(1) n_stop by (simp_all add: unat_sub word_le_nat_alt)
  with BlockGet_forward_finds [OF rel inv info n b1] BlockGet_backward_finds [OF rel inv b2] show ?thesis
    unfolding eq by (cases "n - start < stop - n") auto
qed

lemma BlockGet_height_exact:
  assumes "ledger_rel M txn L" "reachable E U g L" "universe E g U"
    "\<forall>info. v_accounts L a = Some info \<longrightarrow> unat (ai_head_height info) + 8 < 2 ^ 64"
  shows "BlockGet_height M txn a n = Some b \<longleftrightarrow> (\<exists>h s. v_blocks L h = Some (b, s) \<and> Account b = a \<and> Height b = n)"
proof
  assume "BlockGet_height M txn a n = Some b"
  then show "\<exists>h s. v_blocks L h = Some (b, s) \<and> Account b = a \<and> Height b = n"
    by (meson BlockGet_height_stored [OF assms(1)])
next
  have inv: "history_inv E g L" by (rule reachable_history [OF assms(2,3)])
  assume "\<exists>h s. v_blocks L h = Some (b, s) \<and> Account b = a \<and> Height b = n"
  then obtain h s where b: "stands L a n h b s" by (auto simp: stands_def)
  then obtain info where info: "v_accounts L a = Some info" "n \<le> ai_head_height info"
    using history_parts(10) [OF inv] unfolding range_inv_def stands_def by blast
  from BlockGet_height_finds [OF assms(1-3) info] assms(4) info(1) stands_unique [OF inv b]
  show "BlockGet_height M txn a n = Some b" by (fastforce simp: BlockGet_height_def)
qed

end
