(* ===== verification/Relays.thy ===== *)
theory Relays
  imports Evidence Lookup
begin

text \<open>
  Messages through a proxy, and answers to queries. A peer that cannot be reached directly is written to through a proxy: the
  proxy relays the payload without parsing it. What the receiver sees is the original message, marked as relayed, with the
  sender's endpoint. The visitor answers a query from the ledger, and the one who asked accepts the answer.
\<close>

section \<open>Changing only the header\<close>

text \<open>A change of the header that the class of a message does not notice.\<close>

definition transparent :: "(message_header \<Rightarrow> message_header) \<Rightarrow> message_header \<Rightarrow> bool" where
  "transparent f h \<longleftrightarrow> mh_type (f h) = mh_type h \<and> mh_extension (f h) = mh_extension h \<and> GetFlag ACK (f h) = GetFlag ACK h"

lemma header_reads:
  assumes "transparent f h"
  shows "QueryBy (f h) = QueryBy h" "QueryStatus (f h) = QueryStatus h" "query_has_hash (f h) = query_has_hash h"
    "query_has_block (f h) = query_has_block h" "peer_total (f h) = peer_total h" "ReachablePeers (f h) = ReachablePeers h"
  using assms by (simp_all add: transparent_def QueryBy_def QueryStatus_def query_has_hash_def query_has_block_def
      peer_total_def ReachablePeers_def)

lemma header_of_map_header [simp]: "header_of (map_header f m) = f (header_of m)"
  by (cases m) simp_all

lemma body_map_header:
  assumes "transparent f (header_of m)"
  shows "body (map_header f m) = body m"
  using assms header_reads [OF assms]
  by (cases m) (simp_all add: transparent_def KeepliveMessage_body_def NeedConfirm_def split: option.split)

lemma message_ok_map_header:
  assumes "transparent f (header_of m)" "\<forall>r. m \<noteq> Relay r"
  shows "message_ok E (map_header f m) = message_ok E m"
proof (cases m)
  case (Query q)
  have "QueryMessage_Check E (q\<lparr>qr_header := f (qr_header q)\<rparr>) = QueryMessage_Check E q"
    using header_reads [of f "qr_header q"] assms(1) Query by (simp add: QueryMessage_Check_def Let_def split: option.split)
  with Query assms header_reads [of f "qr_header q"] show ?thesis by (simp add: transparent_def)
next
  case (Conflict c)
  have "ConflictMessage_Check E (c\<lparr>cx_header := f (cx_header c)\<rparr>) = ConflictMessage_Check E c"
    by (simp add: ConflictMessage_Check_def Let_def)
  with Conflict assms show ?thesis by (simp add: transparent_def)
qed (use assms header_reads [OF assms(1)] in \<open>simp_all add: transparent_def ConfirmMessage_Hash_def\<close>)

section \<open>Relaying\<close>

text \<open>What the receiver of a relayed message sees.\<close>

definition relayed :: "endpoint \<Rightarrow> message \<Rightarrow> message" where
  "relayed sender m = map_header (\<lambda>h. (SetFlag RELAY (SetFlag PROXY h))
     \<lparr>peer_endpoint := sender, payload_length := of_nat (length (body m))\<rparr>) m"

lemma EnableProxy_header:
  "EnableProxy E e m = map_header (\<lambda>h. (SetFlag PROXY h)\<lparr>peer_endpoint := e, payload_length := of_nat (length (body m))\<rparr>) m"
proof -
  have t: "transparent (\<lambda>h. (SetFlag PROXY h)\<lparr>peer_endpoint := e\<rparr>) (header_of m)" by (simp add: transparent_def)
  have two: "map_header g (map_header f m) = map_header (\<lambda>h. g (f h)) m" for f g by (cases m) simp_all
  show ?thesis
    unfolding EnableProxy_def Let_def two by (simp add: ToBytes_body body_map_header [OF t])
qed

lemma header_ok_flags [simp]:
  "header_ok (SetFlag RELAY h) = header_ok h"
  "GetFlag PROXY h \<Longrightarrow> header_ok (h\<lparr>peer_endpoint := e\<rparr>) \<longleftrightarrow> header_ok (h\<lparr>peer_endpoint := e'\<rparr>)"
  by (simp_all add: header_ok_def)

lemma RelayMessage_parse_exact:
  "RelayMessage_parse h (p @ rest) = Inr (\<lparr>rl_header = SetFlag RELAY h, rl_payload = p\<rparr>, rest)"
  if "length p = unat (payload_length h)"
  using that by (simp add: RelayMessage_parse_def Read_vector_exact [of _ p])

lemma relay_transparent:
  assumes "accepted E m" "\<not> GetFlag PROXY (header_of m)" "\<not> GetFlag RELAY (header_of m)" "length (body m) < 2 ^ 16"
    "out_reachable V receiver"
  obtains r r' where "MessageParser_Parse E (ToBytes E (EnableProxy E receiver m)) = Inr (Relay r)"
    "nd_sent (Visit M E V sender (Relay r) n) = nd_sent n @ [(receiver, Relay r')]"
    "MessageParser_Parse E (ToBytes E (Relay r')) = Inr (relayed sender m)"
proof -
  let ?len = "of_nat (length (body m)) :: u16"
  let ?h = "(SetFlag PROXY (header_of m))\<lparr>peer_endpoint := receiver, payload_length := ?len\<rparr>"
  define r where "r = \<lparr>rl_header = SetFlag RELAY ?h, rl_payload = body m\<rparr>"
  define r' where "r' = r\<lparr>rl_header := (rl_header r)\<lparr>peer_endpoint := sender\<rparr>\<rparr>"
  have no_relay: "\<forall>x. m \<noteq> Relay x" using assms(1,2) by (cases m) (simp_all add: accepted_def)
  have ok: "header_ok (header_of m)" "message_ok E m" using assms(1) by (simp_all add: accepted_def)
  have hok: "header_ok ?h" using ok(1) by (simp add: header_ok_def)
  have len: "length (body m) = unat ?len" using assms(4) by (simp add: unat_of_nat)
  have t: "transparent (\<lambda>h. (SetFlag PROXY h)\<lparr>peer_endpoint := receiver, payload_length := ?len\<rparr>) (header_of m)"
    by (simp add: transparent_def)
  have "ToBytes E (EnableProxy E receiver m) = MessageHeader_Serialize E ?h @ body m"
    unfolding EnableProxy_header ToBytes_body body_map_header [OF t] by simp
  then have d: "MessageHeader_Deserialize E (ToBytes E (EnableProxy E receiver m)) = Inr (?h, body m)"
    using header_parses [OF hok] by simp
  have "RelayMessage_parse ?h (body m) = Inr (r, [])"
    using RelayMessage_parse_exact [of "body m" ?h "[]"] len by (simp add: r_def)
  then have 1: "MessageParser_Parse E (ToBytes E (EnableProxy E receiver m)) = Inr (Relay r)"
    using assms(3) unfolding MessageParser_Parse_def d by (simp add: Parse_as_done)
  have 2: "nd_sent (Visit M E V sender (Relay r) n) = nd_sent n @ [(receiver, Relay r')]"
    using assms(5) by (simp add: Visitor_Relay_def r_def r'_def Node_Send_def Let_def)
  have t': "transparent (\<lambda>h. (SetFlag RELAY (SetFlag PROXY h))\<lparr>peer_endpoint := sender, payload_length := ?len\<rparr>) (header_of m)"
    by (simp add: transparent_def)
  have acc: "accepted E (relayed sender m)"
    using ok message_ok_map_header [OF t' no_relay] by (simp add: accepted_def relayed_def header_ok_def)
  have no_relay': "\<forall>x. relayed sender m \<noteq> Relay x" using no_relay by (cases m) (simp_all add: relayed_def)
  then have "wire E (relayed sender m) = ToBytes E (relayed sender m)" by (cases "relayed sender m") simp_all
  also have "\<dots> = MessageHeader_Serialize E (rl_header r') @ rl_payload r'"
    unfolding ToBytes_body relayed_def body_map_header [OF t'] by (cases "header_of m") (simp add: r'_def r_def SetFlag_def)
  also have "\<dots> = ToBytes E (Relay r')" by (simp add: RelayMessage_Serialize_def)
  finally have 3: "MessageParser_Parse E (ToBytes E (Relay r')) = Inr (relayed sender m)"
    using parser_accepts [OF acc] by simp
  from that [OF 1 2 3] show thesis .
qed


section \<open>Answers to queries\<close>

lemma SetStatus_fields [simp]:
  "qr_sequence (SetStatus st m) = qr_sequence m" "qr_account (SetStatus st m) = qr_account m"
  "qr_height (SetStatus st m) = qr_height m" "qr_hash (SetStatus st m) = qr_hash m" "qr_block (SetStatus st m) = qr_block m"
  "mh_type (qr_header (SetStatus st m)) = mh_type (qr_header m)" "GetFlag f (qr_header (SetStatus st m)) = GetFlag f (qr_header m)"
  "header_ok (qr_header (SetStatus st m)) = header_ok (qr_header m)"
  "payload_length (qr_header (SetStatus st m)) = payload_length (qr_header m)"
  by (simp_all add: SetStatus_def GetFlag_def header_ok_def)

lemma SetStatus_by: "QueryBy (qr_header (SetStatus st m)) = QueryBy (qr_header m)"
proof -
  have "(ucast (drop_bit 8 (or (and e 0xFF00) (ucast (v :: u8)))) :: u8) = ucast (drop_bit 8 (e :: u16))" for e v
  proof (rule bit_word_eqI)
    fix n assume "n < LENGTH(8)"
    then have n: "n < 8" by simp
    have "bit (0xFF00 :: u16) (8 + n)"
      using n by (simp add: bit_simps less_Suc_eq numeral_eq_Suc) auto
    moreover have "bit (255 :: u16) n" "bit (255 :: u8) n" using n by (auto simp: bit_simps less_Suc_eq numeral_eq_Suc)
    ultimately show "bit (ucast (drop_bit 8 (or (and e 0xFF00) (ucast v))) :: u8) n = bit (ucast (drop_bit 8 e) :: u8) n"
      using n by (auto simp: bit_simps dest: bit_imp_le_length)
  qed
  then show ?thesis by (simp add: SetStatus_def QueryBy_def)
qed

lemma SetStatus_status:
  assumes "st \<in> {STATUS_SUCCESS, STATUS_MISS, STATUS_PRUNED, STATUS_FORK}"
  shows "QueryStatus (qr_header (SetStatus st m)) = st"
proof -
  have "(ucast (or (and e 0xFF00) (ucast v)) :: u8) = v" for e :: u16 and v :: u8
  proof (rule bit_word_eqI)
    fix n assume "n < LENGTH(8)"
    then have n: "n < 8" by simp
    have "\<not> bit (0xFF00 :: u16) n"
      using n by (simp add: bit_simps less_Suc_eq numeral_eq_Suc) auto
    with n show "bit (ucast (or (and e 0xFF00) (ucast v)) :: u8) n = bit v n" by (auto simp: bit_simps)
  qed
  with assms show ?thesis by (auto simp: SetStatus_def QueryStatus_def word_le_nat_alt)
qed


text \<open>A query fits the ledger when the block it names, if stored, is where the query says.\<close>

definition query_fits :: "ledger_view \<Rightarrow> query_message \<Rightarrow> bool" where
  "query_fits L m \<longleftrightarrow> (\<forall>b. (\<exists>s. v_blocks L (qr_hash m) = Some (b, s)) \<or> v_rollbacks L (qr_hash m) = Some b \<longrightarrow>
     (if QueryBy (qr_header m) = BY_HASH
      then (qr_account m = 0 \<or> Account b = qr_account m) \<and> (qr_height m = INVALID_HEIGHT \<or> Height b = qr_height m)
      else if QueryBy (qr_header m) = BY_PREVIOUS then Account b = qr_account m \<and> Height b + 1 = qr_height m
      else True))"

text \<open>What the answer to a query says about its block.\<close>

definition answers :: "env \<Rightarrow> query_message \<Rightarrow> query_status \<times> block option \<Rightarrow> bool" where
  "answers E m a = (case a of
     (STATUS_SUCCESS, Some b) \<Rightarrow>
       (if QueryBy (qr_header m) = BY_HASH
        then (qr_account m = 0 \<or> Account b = qr_account m) \<and> (qr_height m = INVALID_HEIGHT \<or> Height b = qr_height m) \<and>
          Hash E b = qr_hash m
        else Account b = qr_account m \<and> Height b = qr_height m \<and>
          (QueryBy (qr_header m) = BY_PREVIOUS \<longrightarrow> Previous b = qr_hash m))
   | (STATUS_FORK, Some b) \<Rightarrow> QueryBy (qr_header m) = BY_PREVIOUS \<and> Account b = qr_account m \<and>
       Height b + 1 = qr_height m \<and> Hash E b \<noteq> qr_hash m
   | (st, None) \<Rightarrow> st = STATUS_MISS \<or> st = STATUS_PRUNED
   | _ \<Rightarrow> False)"

definition good_block :: "env \<Rightarrow> block set \<Rightarrow> query_status \<times> block option \<Rightarrow> bool" where
  "good_block E U a \<longleftrightarrow> (\<forall>b. snd a = Some b \<longrightarrow> b \<in> U)"

lemma Query_by_hash_answers:
  assumes rel: "ledger_rel M txn L" and r: "reachable E U g L" "universe E g U"
    and m: "QueryBy (qr_header m) = BY_HASH" "query_fits L m"
  shows "answers E m (Query_by_hash M txn m info) \<and> good_block E U (Query_by_hash M txn m info)"
proof -
  have inv: "blocks_inv E L" "rollbacks_inv E U L"
    using history_parts(7) [OF reachable_history [OF r]] reachable_rollbacks [OF r] by simp_all
  have stored: "answers E m (STATUS_SUCCESS, Some b) \<and> b \<in> U" if "v_blocks L (qr_hash m) = Some (b, s)" for b s
    using that m inv(1) reachable_stored [OF r] by (auto simp: answers_def query_fits_def blocks_inv_def)
  have rolled: "answers E m (STATUS_SUCCESS, Some b) \<and> b \<in> U" if "v_rollbacks L (qr_hash m) = Some b" for b
    using that m inv(2) by (auto simp: answers_def query_fits_def rollbacks_inv_def)
  have none: "answers E m (STATUS_MISS, None)" "answers E m (STATUS_PRUNED, None)" by (simp_all add: answers_def)
  show ?thesis
    using stored rolled none
    by (auto simp: Query_by_hash_def Let_def get_rels [OF rel] RollbackBlockGet_rel [OF rel] good_block_def split: option.split)
qed

lemma Query_by_height_answers:
  assumes rel: "ledger_rel M txn L" and r: "reachable E U g L" "universe E g U"
    and m: "QueryBy (qr_header m) = BY_HEIGHT" "Query_by_height M txn m info = Some a"
  shows "answers E m a \<and> good_block E U a"
proof -
  have stored: "answers E m (STATUS_SUCCESS, Some b) \<and> b \<in> U" if b: "BlockGet_height M txn (qr_account m) (qr_height m) = Some b" for b
    by (rule BlockGet_height_stored [OF rel b]) (use m(1) reachable_stored [OF r] in \<open>auto simp: answers_def\<close>)
  have none: "answers E m (STATUS_MISS, None)" "answers E m (STATUS_PRUNED, None)" by (simp_all add: answers_def)
  show ?thesis
    using m(2) stored none by (auto simp: Query_by_height_def good_block_def split: option.splits if_splits)
qed

lemma Query_by_previous_answers:
  assumes rel: "ledger_rel M txn L" and r: "reachable E U g L" "universe E g U"
    and m: "QueryBy (qr_header m) = BY_PREVIOUS" "query_fits L m" "Query_by_previous M txn m info = Some a"
  shows "answers E m a \<and> good_block E U a"
proof -
  have inv: "history_inv E g L" by (rule reachable_history [OF r])
  note i = history_parts [OF inv]
  have next_block: "answers E m (STATUS_SUCCESS, Some c) \<and> c \<in> U"
    if b: "v_blocks L (qr_hash m) = Some (b, s)" "s \<noteq> 0" "v_blocks L s = Some (c, t)" for b s c t
  proof -
    have c: "Previous c = qr_hash m" "Height c \<noteq> 0" using i(5) b unfolding successors_inv_def by fastforce+
    then obtain p where "stands L (Account c) (Height c - 1) (qr_hash m) p s"
      using stands_below [OF inv, of "Account c" "Height c" s c t] b(3) by (auto simp: stands_def)
    with b(1) have "Account b = Account c" "Height b = Height c - 1" by (auto simp: stands_def)
    with m(1,2) b c reachable_stored [OF r b(3)] show ?thesis by (auto simp: answers_def query_fits_def)
  qed
  have fork: "answers E m (STATUS_FORK, Some b) \<and> b \<in> U"
    if b: "v_blocks L (qr_hash m) = None" "BlockGet_height M txn (qr_account m) (qr_height m - 1) = Some b" for b
  proof (rule BlockGet_height_stored [OF rel b(2)])
    fix h s assume h: "v_blocks L h = Some (b, s)" "Account b = qr_account m" "Height b = qr_height m - 1"
    have "Hash E b = h" using i(7) h(1) unfolding blocks_inv_def by blast
    with h b(1) m(1) reachable_stored [OF r h(1)] show ?thesis by (auto simp: answers_def)
  qed
  have none: "answers E m (STATUS_MISS, None)" "answers E m (STATUS_PRUNED, None)" by (simp_all add: answers_def)
  show ?thesis
    using m(3) next_block fork none
    by (auto simp: Query_by_previous_def get_rels [OF rel] good_block_def split: option.splits if_splits)
qed

text \<open>An answer that says the truth is accepted.\<close>

lemma answer_accepted:
  assumes "accepted E (Query m)" "\<not> GetFlag ACK (qr_header m)" "\<not> GetFlag PROXY (qr_header m)"
    and a: "answers E m (st, b)" "good_block E U (st, b)" "\<forall>b \<in> U. block_ok E b"
    and r: "r = SetStatus st ((m\<lparr>qr_header := SetFlag ACK (ClearFlag RELAY (qr_header m))\<rparr>)\<lparr>qr_block := b\<rparr>)"
  shows "accepted E (Query r)"
proof -
  let ?h = "qr_header r"
  have which: "QueryBy ?h = QueryBy (qr_header m)" by (simp add: r SetStatus_by) (simp add: QueryBy_def)
  have st: "st \<in> {STATUS_SUCCESS, STATUS_MISS, STATUS_PRUNED, STATUS_FORK}"
    using a(1) by (cases st; cases b) (simp_all add: answers_def)
  have status: "QueryStatus ?h = st" unfolding r by (rule SetStatus_status [OF st])
  have flags: "GetFlag ACK ?h" "\<not> GetFlag RELAY ?h" "\<not> GetFlag PROXY ?h" "mh_type ?h = QUERY"
    using assms(1,3) by (simp_all add: r accepted_def)
  have "header_ok (SetFlag ACK (ClearFlag RELAY (qr_header m)))" using assms(1,3) by (simp add: accepted_def header_ok_def)
  then have "header_ok ?h" by (simp add: r)
  moreover have "qr_hash r = qr_hash m" "qr_account r = qr_account m" "qr_height r = qr_height m" "qr_block r = b"
    by (simp_all add: r)
  moreover have "QueryBy (qr_header m) \<noteq> BY_INVALID" "\<not> query_has_hash (qr_header m) \<longrightarrow> qr_hash m = 0"
    using assms(1) by (simp_all add: accepted_def)
  moreover have "b = Some x \<longrightarrow> block_ok E x" for x using a(2,3) by (simp add: good_block_def)
  ultimately show ?thesis
    using a(1) by (cases st; cases b; cases "QueryBy (qr_header m)")
      (auto simp: accepted_def flags which status query_has_hash_def query_has_block_def QueryMessage_Check_def answers_def
        Let_def split: if_splits)
qed


lemma query_answer_accepted:
  assumes rel: "ledger_rel M txn L" and r: "reachable E U g L" "universe E g U" and U: "\<forall>b \<in> U. \<not> CheckSignature E b"
    and m: "accepted E (Query m)" "\<not> GetFlag ACK (qr_header m)" "\<not> GetFlag PROXY (qr_header m)" "query_fits L m"
    and response: "query_response M txn m = Some response"
  shows "accepted E (Query response)"
proof -
  define info where "info = query_account_info M txn (qr_account m)"
  let ?m = "m\<lparr>qr_header := SetFlag ACK (ClearFlag RELAY (qr_header m))\<rparr>"
  have none: "qr_block m = None" using m(1,2) by (simp add: accepted_def)
  obtain st b where a: "(if QueryBy (qr_header m) = BY_HASH then Some (Query_by_hash M txn m info)
       else if QueryBy (qr_header m) = BY_HEIGHT then Query_by_height M txn m info
       else if QueryBy (qr_header m) = BY_PREVIOUS then Query_by_previous M txn m info else None) = Some (st, b)"
    and res: "response = SetStatus st (?m\<lparr>qr_block := b\<rparr>)"
  proof -
    have id: "(case b of None \<Rightarrow> None | Some x \<Rightarrow> Some x) = b" for b :: "block option" by (cases b) simp_all
    show thesis
      using response that unfolding query_response_def Let_def info_def [symmetric] none id by auto
  qed
  have "answers E m (st, b) \<and> good_block E U (st, b)"
    using a Query_by_hash_answers [OF rel r _ m(4), of info] Query_by_height_answers [OF rel r, of m info "(st, b)"]
      Query_by_previous_answers [OF rel r _ m(4), of info "(st, b)"]
    by (auto split: if_splits)
  moreover have "\<forall>b \<in> U. block_ok E b" using U r(2) by (simp add: universe_def admissible_def block_ok_def)
  ultimately show ?thesis using answer_accepted [OF m(1-3) _ _ _ res, of U] by blast
qed

text \<open>A height between the tail and the head of an account is always answered with the block.\<close>

lemma height_always_answered:
  assumes rel: "ledger_rel M txn L" and r: "reachable E U g L" "universe E g U"
    and m: "QueryBy (qr_header m) = BY_HEIGHT" "qr_account m \<noteq> 0" "v_accounts L (qr_account m) = Some info"
      "qr_height m \<le> ai_head_height info" "unat (ai_head_height info) + 8 < 2 ^ 64"
  shows "\<exists>response b. query_response M txn m = Some response \<and> QueryStatus (qr_header response) = STATUS_SUCCESS \<and>
    qr_block response = Some b \<and> Account b = qr_account m \<and> Height b = qr_height m"
proof -
  have inv: "history_inv E g L" by (rule reachable_history [OF r])
  have valid: "AccountInfo_Valid info" using history_parts(9) [OF inv] m(3) unfolding valid_inv_def by blast
  have tail: "ai_tail_height info = 0" using history_parts(6) [OF inv] m(3) by (simp add: stored_inv_def)
  have known: "qr_height m \<noteq> INVALID_HEIGHT" using m(4,5) 
    by (auto simp: INVALID_HEIGHT_def word_le_nat_alt unsigned_minus_1_eq_mask mask_eq_exp_minus_1)
  obtain b s where b: "BlockGet_height_successor M txn (qr_account m) (qr_height m) = Some (b, s)"
    using BlockGet_height_finds [OF rel r m(3-5)] by blast
  then have get: "BlockGet_height M txn (qr_account m) (qr_height m) = Some b" by (simp add: BlockGet_height_def)
  have "Account b = qr_account m \<and> Height b = qr_height m" by (rule BlockGet_height_stored [OF rel get]) simp
  moreover have "query_response M txn m = Some (SetStatus STATUS_SUCCESS
      (m\<lparr>qr_header := SetFlag ACK (ClearFlag RELAY (qr_header m)), qr_block := Some b\<rparr>))"
    using m(1,2,4) known tail valid get
    by (simp add: query_response_def Query_by_height_def query_account_info_def get_rels [OF rel] m(3) not_less)
  ultimately show ?thesis by (simp add: SetStatus_status)
qed

section \<open>Answers through a proxy\<close>

text \<open>
  The visitor answers a query that came through a proxy with the header of the query, whose payload length is that of the
  query. The proxy reads that many bytes and then expects the end of the message.
\<close>

lemma RelayMessage_parse_longer:
  "unat (payload_length h) \<le> length s \<Longrightarrow> RelayMessage_parse h s =
     Inr (\<lparr>rl_header = SetFlag RELAY h, rl_payload = take (unat (payload_length h)) s\<rparr>, drop (unat (payload_length h)) s)"
  using RelayMessage_parse_exact [of "take (unat (payload_length h)) s" h "drop (unat (payload_length h)) s"] by simp

lemma Serialize_not_Nil: "Serialize b \<noteq> []"
proof -
  have "length (Serialize b) > 0"
    by (cases b) (simp_all add: TxBlock_Serialize_def RepBlock_Serialize_def AdBlock_Serialize_def)
  then show ?thesis by auto
qed

lemma proxied_answer:
  assumes m: "accepted E (Query m)" "\<not> GetFlag ACK (qr_header m)" "GetFlag PROXY (qr_header m)"
      "payload_length (qr_header m) = of_nat (length (body (Query m)))"
    and response: "query_response M txn m = Some response"
      "GetFlag ACK (qr_header response) \<and> query_has_block (qr_header response) \<and> qr_block response \<noteq> None"
  shows "MessageParser_Parse E (ToBytes E (Query response)) = Inl (Code STREAM)"
proof -
  let ?h = "qr_header response"
  obtain st where res: "response = SetStatus st (m\<lparr>qr_header := SetFlag ACK (ClearFlag RELAY (qr_header m)), qr_block := qr_block response\<rparr>)"
    using response(1) unfolding query_response_def Let_def
    by (auto split: prod.splits option.split_asm simp: SetStatus_def)
  have flags: "GetFlag PROXY ?h" "\<not> GetFlag RELAY ?h" "payload_length ?h = of_nat (length (body (Query m)))"
    using m(3,4) by (subst res, simp)+
  have "header_ok (SetFlag ACK (ClearFlag RELAY (qr_header m)))" using m(1,3) by (simp add: accepted_def header_ok_def)
  then have ok: "header_ok ?h" by (subst res) simp
  have which: "query_has_hash ?h = query_has_hash (qr_header m)"
    by (subst res) (simp add: query_has_hash_def SetStatus_by, simp add: QueryBy_def)
  obtain b where b: "qr_block response = Some b" using response(2) by blast
  have none: "qr_block m = None" using m(1,2) by (simp add: accepted_def)
  have fields: "qr_sequence response = qr_sequence m" "qr_account response = qr_account m" "qr_height response = qr_height m"
    "qr_hash response = qr_hash m" by (subst res, simp)+
  have body: "body (Query response) = body (Query m) @ Serialize b"
    using response(2) by (simp add: fields which b none)
  have "length (body (Query m)) < 2 ^ 16" using none by (simp add: Write_def)
  then have len: "unat (payload_length ?h) = length (body (Query m))" by (simp add: flags(3) unat_of_nat del: body.simps)
  have "RelayMessage_parse ?h (body (Query response)) =
      Inr (\<lparr>rl_header = SetFlag RELAY ?h, rl_payload = body (Query m)\<rparr>, Serialize b)"
    using RelayMessage_parse_longer [of ?h "body (Query response)"] unfolding len body by simp
  moreover have "ToBytes E (Query response) = MessageHeader_Serialize E ?h @ body (Query response)"
    unfolding ToBytes_body by simp
  ultimately show ?thesis
    using header_parses [OF ok, of E "body (Query response)"] flags(1,2) Serialize_not_Nil [of b]
    by (simp add: MessageParser_Parse_def Parse_as_def StreamEnd_def del: body.simps)
qed

end
