(* ===== verification/ElectionBlocks.thy ===== *)
theory ElectionBlocks
  imports Consensus
begin

text \<open>
  Where the blocks of the elections come from: \<open>es_in U es\<close> says that every block an election holds, and every
  block it hands to the rest of the node, is one of \<open>U\<close>. Every operation keeps it when the blocks it is given are.
\<close>

definition el_in :: "block set \<Rightarrow> election \<Rightarrow> bool" where
  "el_in U e \<longleftrightarrow> (\<forall>h r. map_of (el_blocks e) h = Some r \<longrightarrow> br_block r \<in> U)"

fun ev_in :: "block set \<Rightarrow> election_event \<Rightarrow> bool" where
  "ev_in U (Force_Confirmed b) = (\<forall>x. b = Some x \<longrightarrow> x \<in> U)"
| "ev_in U (Force_Appended b) = (\<forall>x. b = Some x \<longrightarrow> x \<in> U)"
| "ev_in U (Confirm_Sent rep t s b) = (b \<in> U)"
| "ev_in U (Conflict_Sent rep t1 t2 s1 s2 b c) = (b \<in> U \<and> c \<in> U)"
| "ev_in U (Own_Confirm_Sent a n) = True"
| "ev_in U (Confirms_Requested_Except b reps) = (b \<in> U)"
| "ev_in U (Confirms_Requested_From b reps) = (b \<in> U)"
| "ev_in U (Election_Cutoff a) = True"
| "ev_in U Election_Assertion = True"
| "ev_in U Election_End_Read = True"

definition es_in :: "block set \<Rightarrow> elections \<Rightarrow> bool" where
  "es_in U es \<longleftrightarrow> (\<forall>e \<in> set (es_elections es). el_in U e) \<and> list_all (ev_in U) (es_events es)"

section \<open>One election\<close>

lemma el_inD: "el_in U e \<Longrightarrow> map_of (el_blocks e) h = Some r \<Longrightarrow> br_block r \<in> U"
  by (simp add: el_in_def)

lemma el_in_same: "el_blocks e' = el_blocks e \<Longrightarrow> el_in U e' = el_in U e"
  by (simp add: el_in_def)

lemma el_in_fields [simp]:
  "el_in U (e\<lparr>el_votes := v\<rparr>) = el_in U e" "el_in U (e\<lparr>el_conflicts := c\<rparr>) = el_in U e"
  "el_in U (e\<lparr>el_wakeup := w\<rparr>) = el_in U e" "el_in U (e\<lparr>el_broadcast := b\<rparr>) = el_in U e"
  "el_in U (e\<lparr>el_rounds := n\<rparr>) = el_in U e" "el_in U (e\<lparr>el_account := a\<rparr>) = el_in U e"
  "el_in U (e\<lparr>el_height := h\<rparr>) = el_in U e" "el_in U (count_round E st e) = el_in U e"
  "el_in U (Election_new N)"
  by (simp_all add: el_in_def count_round_def Election_new_def Let_def)

lemma el_in_AddBlock: "el_in U e \<Longrightarrow> b \<in> U \<Longrightarrow> el_in U (Election_AddBlock E N b e)"
  by (auto simp: el_in_def Election_AddBlock_def update_conv' Let_def split: option.split if_splits)

lemma el_in_DelBlock: "el_in U e \<Longrightarrow> el_in U (Election_DelBlock h e)"
  by (auto simp: el_in_def Election_DelBlock_def update_conv' delete_conv' Let_def split: option.split if_splits)

lemma el_in_PurgeOutdatedVotes: "el_in U e \<Longrightarrow> el_in U (PurgeOutdatedVotes E e)"
proof -
  have collect: "el_in U (snd (PurgeOutdatedVotes_collect E d is as e))" if "el_in U e" for d "is" as e
    using that by (induction E d "is" as e rule: PurgeOutdatedVotes_collect.induct) (simp_all add: el_in_DelBlock)
  have erase: "el_in U (fold (\<lambda>a e. e\<lparr>el_votes := AList.delete a (el_votes e)\<rparr>) as e) = el_in U e" for as e
    by (induction as arbitrary: e) simp_all
  assume "el_in U e"
  with collect [of e] show ?thesis by (simp add: PurgeOutdatedVotes_def erase case_prod_beta)
qed

section \<open>All elections\<close>

lemma es_in_find: "es_in U es \<Longrightarrow> el_find es a = Some e \<Longrightarrow> el_in U e"
  by (auto simp: es_in_def el_find_def dest: mi_find_mem)

lemma es_in_basic [simp]:
  "es_in U (es_emit ev es) \<longleftrightarrow> es_in U es \<and> ev_in U ev" "es_in U (es\<lparr>es_stats := st\<rparr>) = es_in U es"
  "es_in U (es\<lparr>es_weights_top := ws\<rparr>) = es_in U es" "es_in U (snd (TryConcurrency e es)) = es_in U es"
  "es_in U (UpdateWeightInfo E N es) = es_in U es" "es_in U (snd (TopOnlineReps p es)) = es_in U es"
  by (auto simp: es_in_def es_emit_def TryConcurrency_def UpdateWeightInfo_def TopOnlineReps_def Let_def split: option.split)

lemma es_in_Erase: "es_in U es \<Longrightarrow> es_in U (Elections_Erase a es)"
  by (auto simp: es_in_def Elections_Erase_def mi_erase_def)

lemma mi_modify_set: "x \<in> set (mi_modify key hash h f xs) \<Longrightarrow> x \<in> set xs \<or> (\<exists>y \<in> set xs. x = f y)"
  by (auto simp: mi_modify_def mi_erase_def Let_def dest: mi_find_mem split: option.splits if_splits)

lemma es_in_modify: "es_in U es \<Longrightarrow> (\<And>e. el_in U e \<Longrightarrow> el_in U (f e)) \<Longrightarrow> es_in U (el_modify a f es)"
  by (fastforce simp: es_in_def el_modify_def dest: mi_modify_set)

lemma es_in_with: "es_in U es \<Longrightarrow> (\<And>e. el_find es a = Some e \<Longrightarrow> el_in U e \<Longrightarrow> es_in U (f e)) \<Longrightarrow> es_in U (with_election a es f)"
  by (auto simp: with_election_def es_in_find split: option.split)

lemma es_in_fold: "es_in U es \<Longrightarrow> (\<And>x es. x \<in> set xs \<Longrightarrow> es_in U es \<Longrightarrow> es_in U (f x es)) \<Longrightarrow> es_in U (fold f xs es)"
  by (induction xs arbitrary: es) simp_all

lemma es_in_blocks:
  "es_in U es \<Longrightarrow> b \<in> U \<Longrightarrow> es_in U (Elections_AddBlock E N a b es)" "es_in U es \<Longrightarrow> es_in U (Elections_DelBlock a h es)"
  "es_in U es \<Longrightarrow> es_in U (AddConflict a rep v es)" "es_in U es \<Longrightarrow> es_in U (AddRepVoteInfo a rep info es)"
  by (auto simp: Elections_AddBlock_def Elections_DelBlock_def AddConflict_def AddRepVoteInfo_def Let_def
      split: option.split intro!: es_in_modify el_in_AddBlock el_in_DelBlock dest: es_in_find)

lemma GetBlock_in: "es_in U es \<Longrightarrow> Elections_GetBlock es a h = Some b \<Longrightarrow> b \<in> U"
  by (auto simp: Elections_GetBlock_def split: option.splits dest: es_in_find el_inD)

lemma Tally_in: "el_in U e \<Longrightarrow> st_block (Tally E es e) = Some b \<Longrightarrow> b \<in> U"
proof -
  have none: "st_block (ta_status (fold (Tally_vote E es d) vs ta)) = st_block (ta_status ta)" for d vs ta
    by (induction vs arbitrary: ta) (simp_all add: Tally_vote_def Let_def split: prod.split option.split)
  assume "el_in U e" "st_block (Tally E es e) = Some b"
  then show "b \<in> U"
    by (auto simp: Tally_def Tally_collect_def none ElectionStatus_new_def Let_def split: list.splits option.splits dest: el_inD)
qed

lemma es_in_requests: "es_in U es \<Longrightarrow> el_in U e \<Longrightarrow> es_in U (RequestConfirms E e es)"
proof -
  have targets: "es_in U (fold (RequestConfirms_target n) reps es)" if "es_in U es" for n reps es
    by (rule es_in_fold [OF that]) (simp add: RequestConfirms_target_def split: option.split)
  assume es: "es_in U es" "el_in U e"
  obtain reps es' where top: "TopOnlineReps 95 es = (reps, es')" by fastforce
  then have "es_in U es'" using es_in_basic(6) [of U 95 es] es(1) by simp
  moreover have "br_block r \<in> U" if "el_blocks e = (h, r) # rest" for h r rest
    using el_inD [OF es(2), of h r] that by simp
  ultimately show ?thesis
    using es(1) top by (auto simp: RequestConfirms_def Let_def targets split: list.split)
qed

lemma es_in_broadcasts: "es_in U es \<Longrightarrow> es_in U (BroadcastConfirms e es)"
  unfolding BroadcastConfirms_def
  by (rule es_in_fold) (auto simp: BroadcastConfirms_vote_def Let_def dest: GetBlock_in split: prod.split option.split)

section \<open>Operations\<close>

lemma es_in_ProcessElection:
  assumes "es_in U es"
  shows "es_in U (ProcessElection E N a es)"
proof -
  have restart: "es_in U (ProcessElection_restart N a es)" if "es_in U es" for es
    unfolding ProcessElection_restart_def by (rule es_in_modify [OF that]) (simp add: el_in_def)
  have plain: "es_in U (ProcessElection_plain E N a e st es)" if "es_in U es" "\<And>b. st_block st = Some b \<Longrightarrow> b \<in> U" for e st es
    using that by (auto simp: ProcessElection_plain_def Let_def intro!: es_in_Erase es_in_with es_in_modify es_in_requests)
  have fork: "es_in U (ProcessElection_fork E N a e st es)" if "es_in U es" "\<And>b. st_block st = Some b \<Longrightarrow> b \<in> U" for e st es
    using that by (auto simp: ProcessElection_fork_def Let_def
        intro!: es_in_Erase es_in_with es_in_modify es_in_requests es_in_broadcasts)
  show ?thesis
    unfolding ProcessElection_def Let_def
  proof (rule es_in_with)
    show "es_in U (el_modify a (PurgeOutdatedVotes E) es)" by (rule es_in_modify [OF assms el_in_PurgeOutdatedVotes])
    fix e assume e: "el_find (el_modify a (PurgeOutdatedVotes E) es) a = Some e" "el_in U e"
    obtain wait es' where t: "TryConcurrency e (el_modify a (PurgeOutdatedVotes E) es) = (wait, es')" by fastforce
    then have "es_in U es'"
      using es_in_basic(4) [of U e "el_modify a (PurgeOutdatedVotes E) es"] es_in_modify [OF assms el_in_PurgeOutdatedVotes]
      by simp
    with restart plain fork Tally_in [OF e(2)]
    show "es_in U (case TryConcurrency e (el_modify a (PurgeOutdatedVotes E) es) of (wait, es) \<Rightarrow>
        if wait then ProcessElection_restart N a es
        else if st_error (Tally E es e) then Elections_Erase a (es_emit Election_Assertion es)
        else if \<not> el_fork_found e then ProcessElection_plain E N a e (Tally E es e) es
        else ProcessElection_fork E N a e (Tally E es e) es)"
      by (simp add: t es_in_Erase)
  qed
qed

lemma es_in_Run_step: "es_in U es \<Longrightarrow> es_in U (Elections_Run_step E N es)"
  by (auto simp: Elections_Run_step_def Let_def es_in_ProcessElection split: list.split)

lemma es_in_Add:
  assumes "es_in U es" "set bs \<subseteq> U"
  shows "es_in U (Elections_Add E N bs es)"
proof -
  have blocks: "el_in U (fold (Election_AddBlock E N) bs e)" if "el_in U e" "set bs \<subseteq> U" for bs e
    using that by (induction bs arbitrary: e) (simp_all add: el_in_AddBlock)
  have start: "es_in U (es\<lparr>es_elections := snd (mi_insert el_wakeup el_account e (es_elections es))\<rparr>)"
    if "es_in U es" "el_in U e" for e es
    using that by (auto simp: es_in_def mi_insert_def split: option.split)
  have more: "es_in U (fold (Elections_AddBlock E N a) bs es)" if "es_in U es" for a es
    by (rule es_in_fold [OF that]) (use assms(2) in \<open>auto intro: es_in_blocks\<close>)
  show ?thesis
  proof (cases bs)
    case (Cons b rest)
    then have U: "b \<in> U" "set rest \<subseteq> U" using assms(2) by simp_all
    show ?thesis
      using assms(1) U more [of es] es_in_Erase [OF assms(1)]
      by (auto simp: Elections_Add_def Let_def Cons intro!: start blocks el_in_AddBlock split: option.split)
  qed (simp add: Elections_Add_def assms(1))
qed

lemma es_in_Confirm:
  assumes "es_in U es" "b \<in> U"
  shows "es_in U (ProcessConfirm E N rep t s b w es)"
  using assms
  by (auto simp: ProcessConfirm_def Let_def intro!: es_in_with es_in_blocks elim!: GetBlock_in [rotated] split: option.split)

lemma es_in_Conflict:
  assumes "es_in U es" "b \<in> U" "c \<in> U"
  shows "es_in U (ProcessConflict E N rep t1 t2 s1 s2 b c w es)"
  using assms
  by (auto simp: ProcessConflict_def Let_def intro!: es_in_with es_in_blocks split: option.split)

end
