(* ===== verification/NodeSound.thy ===== *)
theory NodeSound
  imports ElectionBlocks Node ForcedInv
begin

text \<open>
  The invariant of a whole node. The block processor is sound, the elections are sound and hold only known blocks, what waits
  to be done in the background is about known blocks, and the syncer and the queries agree on what is asked for: an account
  that waits for its next block has at most one query, for the height the syncer expects, and any other account has none. Every
  operation of the node keeps it, so no assertion of any part fails.
\<close>

section \<open>The invariant\<close>

fun job_ok :: "block set \<Rightarrow> job \<Rightarrow> bool" where
  "job_ok U (Notify_Block result b) = (b \<in> U)"
| "job_ok U (Broadcast_Message m) = True"
| "job_ok U (Start_Election bs) = (set bs \<subseteq> U \<and> length bs \<le> 2)"
| "job_ok U (Request_Confirms_Except b reps) = (b \<in> U)"
| "job_ok U (Request_Confirms_Of b reps) = (b \<in> U)"

text \<open>An answer that says it has a block has one, at the height that was asked for.\<close>

definition ack_ok :: "block set \<Rightarrow> block_query \<Rightarrow> query_ack \<Rightarrow> bool" where
  "ack_ok U q ack \<longleftrightarrow>
     (qa_status ack = STATUS_SUCCESS \<longrightarrow> (\<exists>b \<in> U. qa_block ack = Some b \<and> (bq_by q \<noteq> BY_HASH \<longrightarrow> Height b = bq_height q))) \<and>
     (qa_status ack = STATUS_FORK \<longrightarrow> (\<exists>b \<in> U. qa_block ack = Some b))"

fun callback_ok :: "block_query \<Rightarrow> query_callback \<Rightarrow> bool" where
  "callback_ok q (Processor_Callback n) = dyn n"
| "callback_ok q (Sync_Account_Callback a i c) = (bq_by q \<noteq> BY_HASH)"
| "callback_ok q (Sync_Hash_Callback i c) = True"

definition query_ok :: "block set \<Rightarrow> block_query \<Rightarrow> bool" where
  "query_ok U q \<longleftrightarrow> length (bq_from q) = length (bq_ack q) \<and> list_all (ack_ok U q) (bq_ack q) \<and> callback_ok q (bq_callback q) \<and>
     \<not> bq_only_specified_node q"

definition queries_ok :: "block set \<Rightarrow> block_query list \<Rightarrow> bool" where
  "queries_ok U qs \<longleftrightarrow> mi_ok bq_wakeup bq_sequence qs \<and> list_all (query_ok U) qs"

fun callback_account :: "query_callback \<Rightarrow> u256 option" where
  "callback_account (Sync_Account_Callback a i c) = Some a"
| "callback_account _ = None"

definition account_queries :: "u256 \<Rightarrow> block_query list \<Rightarrow> block_query list" where
  "account_queries a qs = filter (\<lambda>q. callback_account (bq_callback q) = Some a) qs"

text \<open>At most one query for an account that waits for a block, and none for another.\<close>

definition waits_for :: "sync_info option \<Rightarrow> block_query list \<Rightarrow> bool" where
  "waits_for i qs \<longleftrightarrow> qs = [] \<or> (\<exists>q info. qs = [q] \<and> i = Some info \<and> sy_status info = SYNC_QUERY \<and> bq_height q = sy_height info)"

definition sync_ok :: "syncer \<Rightarrow> block_query list \<Rightarrow> bool" where
  "sync_ok s qs \<longleftrightarrow> (\<forall>a. waits_for (sn_syncs s a) (account_queries a qs))"

definition node_sound :: "'db lmdb \<Rightarrow> env \<Rightarrow> block set \<Rightarrow> block \<Rightarrow> nat \<Rightarrow> 'db node \<Rightarrow> bool" where
  "node_sound M E U g k n \<longleftrightarrow> node_inv M E U g (nd_processor n) \<and> elections_ok E k (nd_elections n) \<and> es_in U (nd_elections n) \<and>
     list_all (job_ok U) (nd_background n) \<and> queries_ok U (qs_queries (nd_queries n)) \<and>
     sync_ok (nd_syncer n) (qs_queries (nd_queries n)) \<and> \<not> nd_asserted n"

lemma node_sound_fields [simp]:
  "node_sound M E U g k (n\<lparr>nd_sent := s\<rparr>) = node_sound M E U g k n"
  "node_sound M E U g k (n\<lparr>nd_confirms := c\<rparr>) = node_sound M E U g k n"
  "node_sound M E U g k (n\<lparr>nd_confirm_requests := r\<rparr>) = node_sound M E U g k n"
  "node_sound M E U g k (n\<lparr>nd_recent_blocks := b\<rparr>) = node_sound M E U g k n"
  "node_sound M E U g k (n\<lparr>nd_recent_forks := b\<rparr>) = node_sound M E U g k n"
  "node_sound M E U g k (n\<lparr>nd_active_accounts := a\<rparr>) = node_sound M E U g k n"
  by (simp_all add: node_sound_def)

lemma node_sound_mono: "node_sound M E U g k n \<Longrightarrow> k \<le> l \<Longrightarrow> node_sound M E U g l n"
  using elections_ok_mono by (auto simp: node_sound_def)

section \<open>Sending and posting work\<close>

lemma Background_sound [simp]: "job_ok U j \<Longrightarrow> node_sound M E U g k (Background j n) = node_sound M E U g k n"
  by (simp add: node_sound_def Background_def)

lemma Node_Send_sound [simp]: "node_sound M E U g k (Node_Send m e n) = node_sound M E U g k n"
  by (simp add: Node_Send_def)

lemma SendByRoute_sound [simp]: "node_sound M E U g k (snd (SendByRoute F r m n)) = node_sound M E U g k n"
  by (simp add: SendByRoute_def Let_def)

lemma SendByRoutes_sound [simp]: "node_sound M E U g k (SendByRoutes F rs m n) = node_sound M E U g k n"
proof (induction rs arbitrary: m n)
  case (Cons r rs)
  with SendByRoute_sound [of M E U g k F r m n] show ?case by (simp add: case_prod_beta)
qed simp

lemma Confirm_send_sound [simp]: "node_sound M E U g k (Confirm_send F V to m n) = node_sound M E U g k n"
proof (induction to arbitrary: m n)
  case (Cons i to)
  then show ?case by (simp add: case_prod_beta split: option.split)
qed simp

lemma Node_Confirm_sound [simp]: "node_sound M E U g k (Node_Confirm F V to b n) = node_sound M E U g k n"
  by (simp add: Node_Confirm_def Let_def case_prod_beta)

lemma broadcasts_sound [simp]:
  "node_sound M E U g k (Node_Broadcast F V m n) = node_sound M E U g k n"
  "node_sound M E U g k (BroadcastFork f s n) = node_sound M E U g k n"
  "node_sound M E U g k (BroadcastConfirm_signed rep t sg b n) = node_sound M E U g k n"
  "node_sound M E U g k (BroadcastConflict rep t1 t2 s1 s2 b c n) = node_sound M E U g k n"
  "node_sound M E U g k (Node_Publish b n) = node_sound M E U g k n"
  "node_sound M E U g k (BroadcastConfirm M' F a h n) = node_sound M E U g k n"
  "node_sound M E U g k (RequestConfirm F r b n) = node_sound M E U g k n"
  by (simp_all add: Node_Broadcast_def BroadcastFork_def BroadcastConfirm_signed_def BroadcastConflict_def Node_Publish_def
      BroadcastConfirm_def RequestConfirm_def Let_def case_prod_beta split: option.split)

lemma fold_sound: "(\<And>x n. x \<in> set xs \<Longrightarrow> node_sound M E U g k n \<Longrightarrow> node_sound M E U g k (f x n)) \<Longrightarrow>
    node_sound M E U g k n \<Longrightarrow> node_sound M E U g k (fold f xs n)"
  by (induction xs arbitrary: n) simp_all

section \<open>Work for the block processor\<close>

lemma node_sound_queues:
  assumes "node_sound M E U g k n" "queues_ok E U q"
  shows "node_sound M E U g k (n\<lparr>nd_processor := (nd_processor n)\<lparr>bp_queues := q\<rparr>\<rparr>)"
  using assms by (simp add: node_sound_def node_inv_def rest_inv_def)

lemma node_sound_has_queues: "node_sound M E U g k n \<Longrightarrow> queues_ok E U (bp_queues (nd_processor n))"
  by (simp add: node_sound_def node_inv_def rest_inv_def)

lemma Node_Add_sound:
  assumes "node_sound M E U g k n" "b \<in> U"
  shows "node_sound M E U g k (Node_Add (at_time E t) V b n)"
proof -
  obtain dropped q where add: "BlockProcessor_Add (at_time E t) (out_now V) (bp_queues (nd_processor n)) b = (dropped, q)" by fastforce
  have ok: "queues_ok E U (bp_queues (nd_processor n))" by (rule node_sound_has_queues [OF assms(1)])
  then have "queue_ok (at_time E t) (bp_queues (nd_processor n))" by (simp add: queues_ok_def)
  note a = BlockProcessor_Add_ok [OF this add]
  have "queues_ok E U q" "set dropped \<subseteq> U" using ok assms(2) a unfolding queues_ok_def by auto
  then show ?thesis
    unfolding Node_Add_def add prod.case
    by (intro fold_sound node_sound_queues assms(1)) auto
qed

lemma Node_AddForced_sound:
  assumes "node_sound M E U g k n" "fc_block f \<in> U"
    "fc_operation f \<in> {of_block_operation APPEND, of_block_operation CONFIRM} \<or> dyn (fc_operation f)"
  shows "node_sound M E U g k (Node_AddForced f n)"
  unfolding Node_AddForced_def
proof (rule node_sound_queues [OF assms(1)])
  have ok: "queues_ok E U (bp_queues (nd_processor n))" by (rule node_sound_has_queues [OF assms(1)])
  then have "queue_ok E (BlockProcessor_AddForced (bp_queues (nd_processor n)) f)"
    by (intro BlockProcessor_AddForced_ok) (simp add: queues_ok_def)
  with ok assms(2,3) show "queues_ok E U (BlockProcessor_AddForced (bp_queues (nd_processor n)) f)"
    by (auto simp: queues_ok_def BlockProcessor_AddForced_def queued_def)
qed

lemma Node_AddFork_sound:
  assumes "node_sound M E U g k n" "fk_first f \<in> U" "fk_second f \<in> U"
  shows "node_sound M E U g k (Node_AddFork f n)"
  unfolding Node_AddFork_def
proof (rule node_sound_queues [OF assms(1)])
  have ok: "queues_ok E U (bp_queues (nd_processor n))" by (rule node_sound_has_queues [OF assms(1)])
  then have "queue_ok E (BlockProcessor_AddFork (bp_queues (nd_processor n)) f)"
    by (intro BlockProcessor_AddFork_ok) (simp add: queues_ok_def)
  with ok assms(2,3) show "queues_ok E U (BlockProcessor_AddFork (bp_queues (nd_processor n)) f)"
    by (auto simp: queues_ok_def BlockProcessor_AddFork_def queued_def split: if_splits)
qed

lemma Force_sound:
  "node_sound M E U g k n \<Longrightarrow> b \<in> U \<Longrightarrow> node_sound M E U g k (ForceConfirmBlock b n)"
  "node_sound M E U g k n \<Longrightarrow> b \<in> U \<Longrightarrow> node_sound M E U g k (ForceAppendBlock b n)"
  by (simp_all add: ForceConfirmBlock_def ForceAppendBlock_def Node_AddForced_sound)

lemma ReceiveBlock_sound:
  assumes "node_sound M E U g k n" "b \<in> U"
  shows "node_sound M E U g k (ReceiveBlock (at_time E t) V b confirm_to n)"
  using assms by (auto simp: ReceiveBlock_def Let_def intro!: Node_Add_sound split: option.split)

lemma ReceiveBlockFork_sound:
  assumes "node_sound M E U g k n" "f \<in> U" "s \<in> U"
  shows "node_sound M E U g k (ReceiveBlockFork E' V f s n)"
  using assms by (auto simp: ReceiveBlockFork_def intro!: Node_AddFork_sound)

section \<open>Elections\<close>

lemma on_election_event_sound:
  assumes "node_sound M E U g k n" "event_fine ev" "ev_in U ev"
  shows "node_sound M E U g k (on_election_event M F ev n)"
  using assms by (cases ev) (auto intro: Force_sound)

lemma after_elections_sound:
  assumes "node_sound M E U g k n" "elections_ok E l es" "es_in U es" "k \<le> l"
  shows "node_sound M E U g l (after_elections M F (n\<lparr>nd_elections := es\<rparr>))"
proof -
  have ev: "event_fine ev \<and> ev_in U ev" if "ev \<in> set (es_events es)" for ev
    using that assms(2,3) by (auto simp: elections_ok_def around_def es_in_def list_all_iff)
  have "elections_ok E l (es\<lparr>es_events := []\<rparr>)"
    using assms(2) by (simp add: elections_ok_def around_def el_find_def slots_except_def weights_ok_def)
  moreover have "es_in U (es\<lparr>es_events := []\<rparr>)" using assms(3) by (simp add: es_in_def)
  ultimately have "node_sound M E U g l (n\<lparr>nd_elections := es\<lparr>es_events := []\<rparr>\<rparr>)"
    using assms(1) by (simp add: node_sound_def)
  then show ?thesis
    unfolding after_elections_def by (simp add: fold_sound on_election_event_sound ev)
qed

end
