(* ===== verification/SyncSound.thy ===== *)
theory SyncSound
  imports NodeSound
begin

text \<open>Queries, their callbacks and the syncer keep the node sound.\<close>

section \<open>Queries by account\<close>

lemma filter_place:
  "filter P (mi_place key x xs) = filter P (takeWhile (\<lambda>y. key y \<le> key x) xs) @ (if P x then [x] else []) @
     filter P (dropWhile (\<lambda>y. key y \<le> key x) xs)"
  by (simp add: mi_place_def)

lemma filter_parts: "filter P (takeWhile Q xs) @ filter P (dropWhile Q xs) = filter P xs"
  by (metis filter_append takeWhile_dropWhile_id)

lemma account_queries_place:
  "callback_account (bq_callback q) \<noteq> Some a \<Longrightarrow> account_queries a (mi_place key q qs) = account_queries a qs"
  "callback_account (bq_callback q) = Some a \<Longrightarrow> account_queries a qs = [] \<Longrightarrow> account_queries a (mi_place key q qs) = [q]"
proof -
  assume "callback_account (bq_callback q) \<noteq> Some a"
  then show "account_queries a (mi_place key q qs) = account_queries a qs"
    by (simp add: account_queries_def filter_place filter_parts)
next
  assume q: "callback_account (bq_callback q) = Some a" "account_queries a qs = []"
  have "filter P (takeWhile Q qs) = []" "filter P (dropWhile Q qs) = []" if "filter P qs = []" for P Q
    using filter_parts [of P Q qs] that by (metis append_is_Nil_conv)+
  with q show "account_queries a (mi_place key q qs) = [q]" by (simp add: account_queries_def filter_place)
qed

lemma waits_for_subset:
  assumes "waits_for i (filter P qs)"
  shows "waits_for i (filter P (filter R qs))"
proof -
  have "filter P (filter R qs) = filter R (filter P qs)" by (simp add: conj_commute)
  moreover have "filter R (filter P qs) = [] \<or> filter R (filter P qs) = filter P qs" if "length (filter P qs) \<le> 1"
    using that by (cases "filter P qs") auto
  ultimately show ?thesis using assms by (auto simp: waits_for_def)
qed

text \<open>A query that is about to be added: the syncer expects it, and no other one is there.\<close>

definition expected :: "syncer \<Rightarrow> block_query list \<Rightarrow> block_query \<Rightarrow> bool" where
  "expected s qs q \<longleftrightarrow> (\<forall>a. callback_account (bq_callback q) = Some a \<longrightarrow> account_queries a qs = [] \<and>
     (\<exists>info. sn_syncs s a = Some info \<and> sy_status info = SYNC_QUERY \<and> sy_height info = bq_height q))"

lemma sync_ok_place:
  assumes "sync_ok s qs" "expected s qs q"
  shows "sync_ok s (mi_place key q qs)"
  unfolding sync_ok_def
proof
  fix a
  show "waits_for (sn_syncs s a) (account_queries a (mi_place key q qs))"
  proof (cases "callback_account (bq_callback q) = Some a")
    case True
    with assms(2) show ?thesis by (auto simp: expected_def account_queries_place(2) waits_for_def)
  next
    case False
    with assms(1) show ?thesis by (simp add: account_queries_place(1) sync_ok_def)
  qed
qed

lemma insert_sound:
  assumes "node_sound M E U g k n" "query_ok U q" "expected (nd_syncer n) (qs_queries (nd_queries n)) q"
    "qs_queries qs = snd (mi_insert bq_wakeup bq_sequence q (qs_queries (nd_queries n)))"
  shows "node_sound M E U g k (n\<lparr>nd_queries := qs\<rparr>)"
proof -
  let ?qs = "qs_queries (nd_queries n)"
  have old: "queries_ok U ?qs" "sync_ok (nd_syncer n) ?qs" using assms(1) by (simp_all add: node_sound_def)
  have "queries_ok U (qs_queries qs) \<and> sync_ok (nd_syncer n) (qs_queries qs)"
  proof (cases "mi_find bq_sequence (bq_sequence q) ?qs")
    case None
    have eq: "qs_queries qs = mi_place bq_wakeup q ?qs" using assms(4) None by (simp add: mi_insert_def)
    obtain r ys where ins: "mi_insert bq_wakeup bq_sequence q ?qs = (r, ys)" by fastforce
    have "mi_ok bq_wakeup bq_sequence (qs_queries qs)"
      using mi_insert_ok(1) [OF _ ins] old(1) assms(4) ins by (simp add: queries_ok_def)
    moreover have "list_all (query_ok U) (qs_queries qs)"
      using old(1) assms(2) by (simp add: eq queries_ok_def list_all_iff)
    ultimately show ?thesis using sync_ok_place [OF old(2) assms(3)] by (simp add: eq queries_ok_def)
  next
    case (Some x)
    with old assms(4) show ?thesis by (simp add: mi_insert_def)
  qed
  with assms(1) show ?thesis by (simp add: node_sound_def)
qed

section \<open>New queries\<close>

lemma BlockQuery_new_ok:
  "callback_ok (BlockQuery_new now s kind a h hash full False [] c) c \<Longrightarrow>
     query_ok U (BlockQuery_new now s kind a h hash full False [] c)"
  by (simp add: query_ok_def BlockQuery_new_def)

lemma BlockQuery_new_fields [simp]:
  "bq_callback (BlockQuery_new now s kind a h hash full spec from c) = c" "bq_by (BlockQuery_new now s kind a h hash full spec from c) = kind"
  "bq_height (BlockQuery_new now s kind a h hash full spec from c) = h"
  by (simp_all add: BlockQuery_new_def)

lemma new_query_sound:
  assumes "node_sound M E U g k n" "callback_ok (BlockQuery_new now (qs_sequence (nd_queries n)) kind a h hash full False [] c) c"
    "expected (nd_syncer n) (qs_queries (nd_queries n)) (BlockQuery_new now (qs_sequence (nd_queries n)) kind a h hash full False [] c)"
    "f (nd_queries n) = Queries_Insert (BlockQuery_new now (qs_sequence (nd_queries n)) kind a h hash full False [] c)
       ((nd_queries n)\<lparr>qs_sequence := qs_sequence (nd_queries n) + 1\<rparr>)"
  shows "node_sound M E U g k (queries_update f n)"
  unfolding queries_update_def assms(4)
  by (rule insert_sound [OF assms(1) BlockQuery_new_ok [OF assms(2)] assms(3)]) (simp add: Queries_Insert_def)

lemma unrelated_expected: "callback_account (bq_callback q) = None \<Longrightarrow> expected s qs q"
  by (simp add: expected_def)

lemma QueryByHash_sound:
  assumes "node_sound M E U g k n" "callback_account c = None" "\<And>m. c = Processor_Callback m \<Longrightarrow> dyn m"
  shows "node_sound M E U g k (queries_update (QueryByHash now a h hash full c) n)"
  by (rule new_query_sound [OF assms(1), where kind = BY_HASH and now = now and a = a and h = h and hash = hash and full = full and c = c])
    (use assms(2,3) in \<open>cases c; auto simp: QueryByHash_def Sequence_def intro: unrelated_expected\<close>)+

section \<open>The syncer\<close>

lemma syncer_sound:
  assumes "node_sound M E U g k n" "sync_ok s (qs_queries (nd_queries n))"
  shows "node_sound M E U g k (n\<lparr>nd_syncer := s\<rparr>)"
  using assms by (simp add: node_sound_def)

lemma sync_ok_same: "sn_syncs s' = sn_syncs s \<Longrightarrow> sync_ok s' qs = sync_ok s qs"
  by (simp add: sync_ok_def)

lemma sync_ok_set:
  assumes "sync_ok s qs" "sn_syncs s' = (sn_syncs s)(a := i)" "waits_for i (account_queries a qs)"
  shows "sync_ok s' qs"
  using assms by (simp add: sync_ok_def)

lemma node_sound_sync: "node_sound M E U g k n \<Longrightarrow> sync_ok (nd_syncer n) (qs_queries (nd_queries n))"
  by (simp add: node_sound_def)

lemma idle_account:
  assumes "node_sound M E U g k n" "\<And>info. sn_syncs (nd_syncer n) a = Some info \<Longrightarrow> sy_status info \<noteq> SYNC_QUERY"
  shows "account_queries a (qs_queries (nd_queries n)) = []"
  using node_sound_sync [OF assms(1)] assms(2) unfolding sync_ok_def waits_for_def by metis

lemma AddQuery_syncs [simp]: "sn_syncs (snd (AddQuery b s)) = sn_syncs s"
proof -
  have "sn_syncs (snd (AddQuery_loop f q b s)) = sn_syncs s" for f q and s :: syncer
    by (induction f q b s rule: AddQuery_loop.induct) simp_all
  then show ?thesis by (simp add: AddQuery_def)
qed

lemma syncs_fields [simp]: "sn_syncs (EraseQuery q s) = sn_syncs s" "sn_syncs (Syncer_Erase a s) = (sn_syncs s)(a := None)"
  by (simp_all add: EraseQuery_def Syncer_Erase_def)

lemma EraseQuery_sound [simp]: "node_sound M E U g k (syncer_update (EraseQuery q) n) = node_sound M E U g k n"
  by (simp add: node_sound_def syncer_update_def sync_ok_def)

lemma Erase_sound:
  assumes "node_sound M E U g k n" "account_queries a (qs_queries (nd_queries n)) = []"
  shows "node_sound M E U g k (syncer_update (Syncer_Erase a) n)"
  unfolding syncer_update_def
  by (rule syncer_sound [OF assms(1) sync_ok_set [OF node_sound_sync [OF assms(1)], of _ a None]])
    (simp_all add: waits_for_def assms(2))

lemma set_sync_sound:
  assumes "node_sound M E U g k n" "account_queries a (qs_queries (nd_queries n)) = []" "sn_syncs s = (sn_syncs (nd_syncer n))(a \<mapsto> info)"
  shows "node_sound M E U g k (n\<lparr>nd_syncer := s\<rparr>)"
  by (rule syncer_sound [OF assms(1) sync_ok_set [OF node_sound_sync [OF assms(1)], of _ a "Some info"]])
    (simp_all add: waits_for_def assms(2,3))

lemma Syncer_BlockQuery_sound:
  assumes "node_sound M E U g k n" "account_queries a (qs_queries (nd_queries n)) = []"
    "sn_syncs (nd_syncer n) a = Some info" "sy_status info = SYNC_QUERY"
  shows "node_sound M E U g k (Syncer_BlockQuery V a info b n)"
proof -
  obtain q s where add: "AddQuery b (nd_syncer n) = (q, s)" by fastforce
  have same: "sn_syncs s = sn_syncs (nd_syncer n)" using AddQuery_syncs [of b "nd_syncer n"] add by simp
  let ?n = "n\<lparr>nd_syncer := s\<rparr>" and ?c = "Sync_Account_Callback a q 0"
  have n: "node_sound M E U g k ?n"
    using syncer_sound [OF assms(1)] node_sound_sync [OF assms(1)] sync_ok_same [OF same] by blast
  have ex: "expected (nd_syncer ?n) (qs_queries (nd_queries ?n)) (BlockQuery_new now i kind x (sy_height info) hash full False [] ?c)"
    for now i kind x hash full
    using assms(2-4) same by (simp add: expected_def)
  have height: "node_sound M E U g k (queries_update (QueryByHeight (out_now V) a (sy_height info) False ?c) ?n)"
    by (rule new_query_sound [OF n, where kind = BY_HEIGHT and now = "out_now V" and a = a and h = "sy_height info" and hash = 0
        and full = False and c = ?c]) (use ex in \<open>auto simp: QueryByHeight_def Sequence_def\<close>)
  have previous: "node_sound M E U g k
      (queries_update (QueryByPrevious (out_now V) a (sy_height info) (sy_previous info) False ?c) ?n)"
    by (rule new_query_sound [OF n, where kind = BY_PREVIOUS and now = "out_now V" and a = a and h = "sy_height info" and
        hash = "sy_previous info" and full = False and c = ?c]) (use ex in \<open>auto simp: QueryByPrevious_def Sequence_def\<close>)
  show ?thesis using height previous by (simp add: Syncer_BlockQuery_def add Let_def)
qed

lemma Syncer_BlockQuery_hash_sound:
  assumes "node_sound M E U g k n"
  shows "node_sound M E U g k (Syncer_BlockQuery_hash V hash b n)"
proof -
  obtain q s where add: "AddQuery b (nd_syncer n) = (q, s)" by fastforce
  have same: "sn_syncs s = sn_syncs (nd_syncer n)" using AddQuery_syncs [of b "nd_syncer n"] add by simp
  have "node_sound M E U g k (n\<lparr>nd_syncer := s\<rparr>)"
    using syncer_sound [OF assms] node_sound_sync [OF assms] sync_ok_same [OF same] by blast
  then show ?thesis unfolding Syncer_BlockQuery_hash_def add prod.case by (rule QueryByHash_sound) simp_all
qed

lemma Syncer_Add_sound:
  assumes "node_sound M E U g k n"
  shows "node_sound M E U g k (Syncer_Add V a h previous st b n)"
proof (cases "sn_syncs (nd_syncer n) a")
  case None
  let ?info = "\<lparr>sy_status = SYNC_QUERY, sy_first = st, sy_batch_id = b, sy_height = h, sy_previous = previous, sy_current = 0\<rparr>"
  let ?n = "syncer_update (\<lambda>s. s\<lparr>sn_syncs := (sn_syncs s)(a \<mapsto> ?info),
           sn_total := (if st then sn_total s + 1 else sn_total s)\<rparr>) n"
  have idle: "account_queries a (qs_queries (nd_queries n)) = []" by (rule idle_account [OF assms]) (simp add: None)
  have n: "node_sound M E U g k ?n"
    unfolding syncer_update_def by (rule set_sync_sound [OF assms idle]) simp
  have "node_sound M E U g k (Syncer_BlockQuery V a ?info b ?n)"
    by (rule Syncer_BlockQuery_sound [OF n]) (simp_all add: syncer_update_def idle)
  then show ?thesis using None by (simp add: Syncer_Add_def Let_def)
qed (use assms in \<open>simp add: Syncer_Add_def\<close>)

lemma SyncAccount_sound: "node_sound M E U g k n \<Longrightarrow> node_sound M E U g k (SyncAccount M' V txn a b n)"
  by (simp add: SyncAccount_def Syncer_Add_sound split: option.split)

lemma SyncRelated_sound:
  assumes "node_sound M E U g k n"
  shows "node_sound M E U g k (SyncRelated M' E' V block b n)"
  using assms by (simp add: SyncRelated_def SyncAccount_sound Let_def split: option.split)

lemma ProcessorCallback_sound:
  assumes "node_sound M E U g k n"
  shows "node_sound M E U g k (ProcessorCallback M' E' V result block n)"
proof (cases "sn_syncs (nd_syncer n) (Account block)")
  case None
  with assms show ?thesis by (simp add: ProcessorCallback_def)
next
  case (Some it)
  let ?a = "Account block"
  show ?thesis
  proof (cases "sy_status it")
    case SYNC_QUERY
    with Some assms show ?thesis by (simp add: ProcessorCallback_def)
  next
    case SYNC_PROCESS
    have idle: "account_queries ?a (qs_queries (nd_queries n)) = []"
      by (rule idle_account [OF assms]) (use Some SYNC_PROCESS in simp)
    have again: "node_sound M E U g k (Syncer_BlockQuery V ?a info b (syncer_update (\<lambda>s. s\<lparr>sn_syncs := (sn_syncs s)(?a \<mapsto> info)\<rparr>) n))"
      if "sy_status info = SYNC_QUERY" for info b
      by (rule Syncer_BlockQuery_sound)
        (use idle that in \<open>auto simp: syncer_update_def intro!: set_sync_sound [OF assms idle]\<close>)
    from again [THEN SyncRelated_sound] again Erase_sound [OF assms idle]
      Syncer_BlockQuery_hash_sound [OF Erase_sound [OF assms idle]] show ?thesis
      using assms Some SYNC_PROCESS by (simp add: ProcessorCallback_def Let_def)
  qed
qed

section \<open>Callbacks\<close>

lemma set_syncs_sound:
  assumes "node_sound M E U g k n" "account_queries a (qs_queries (nd_queries n)) = []" "sn_syncs (f (nd_syncer n)) = (sn_syncs (nd_syncer n))(a := i)"
  shows "node_sound M E U g k (syncer_update f n)"
  unfolding syncer_update_def
  by (rule syncer_sound [OF assms(1) sync_ok_set [OF node_sound_sync [OF assms(1)] assms(3)]]) (simp add: waits_for_def assms(2))

lemma Syncer_QueryCallback_sound:
  assumes "node_sound M E U g k n" "expected (nd_syncer n) (qs_queries (nd_queries n)) q" "callback_account (bq_callback q) = Some a"
    "bq_by q \<noteq> BY_HASH" "ack_ok U q ack" "qa_status ack \<in> {STATUS_SUCCESS, STATUS_FORK, STATUS_MISS}"
  shows "node_sound M E U g k (Syncer_QueryCallback (at_time E t) V a (qa_status ack) (qa_block ack) n)"
proof -
  obtain info where info: "sn_syncs (nd_syncer n) a = Some info" "sy_status info = SYNC_QUERY" "sy_height info = bq_height q"
    and idle: "account_queries a (qs_queries (nd_queries n)) = []"
    using assms(2,3) by (auto simp: expected_def)
  note set_sync = set_syncs_sound [OF assms(1) idle]
  consider b where "qa_status ack = STATUS_SUCCESS" "qa_block ack = Some b" "b \<in> U" "Height b = sy_height info"
    | b where "qa_status ack = STATUS_FORK" "qa_block ack = Some b" "b \<in> U" | "qa_status ack = STATUS_MISS"
    using assms(4-6) info(3) by (auto simp: ack_ok_def)
  then show ?thesis
  proof cases
    case 1
    then show ?thesis
      unfolding Syncer_QueryCallback_def info(1) option.case by (simp add: info(2) Let_def) (intro Node_Add_sound set_sync; simp)
  next
    case 2
    then show ?thesis
      unfolding Syncer_QueryCallback_def info(1) option.case by (simp add: info(2)) (intro Node_Add_sound set_sync; simp)
  next
    case 3
    then show ?thesis
      unfolding Syncer_QueryCallback_def info(1) option.case by (simp add: info(2)) (rule set_sync, simp)
  qed
qed

lemma first_success_block:
  assumes "first_success acks = Some ack" "list_all (ack_ok U q) acks"
  shows "\<exists>b \<in> U. qa_block ack = Some b"
proof -
  have "ack \<in> set acks \<and> qa_status ack = STATUS_SUCCESS"
    using assms(1) by (induction acks) (auto simp: first_success_def split: if_splits)
  with assms(2) show ?thesis by (auto simp: list_all_iff ack_ok_def)
qed

text \<open>A callback that wants the query to go on leaves the node as it is.\<close>

definition callback_done :: "('db node \<Rightarrow> bool) \<Rightarrow> block_query \<Rightarrow> 'db node \<Rightarrow> query_callback_status list \<Rightarrow> 'db node \<Rightarrow> bool" where
  "callback_done S q n rs n' \<longleftrightarrow> length rs = length (bq_ack q) \<and> (CALLBACK_CONTINUE \<in> set rs \<longrightarrow> n' = n) \<and> S n'"

lemma QueryCallback_processor_sound:
  assumes "node_sound M E U g k n" "query_ok U q" "bq_callback q = Processor_Callback o'"
    "QueryCallback_processor o' (bq_ack q) n = (rs, n')"
  shows "callback_done (node_sound M E U g k) q n rs n'"
proof (cases "first_success (bq_ack q)")
  case None
  with assms show ?thesis by (auto simp: QueryCallback_processor_def callback_done_def)
next
  case (Some ack)
  then obtain b where "b \<in> U" "qa_block ack = Some b"
    using first_success_block [OF Some] assms(2) by (auto simp: query_ok_def)
  with Some assms show ?thesis
    by (auto simp: QueryCallback_processor_def callback_done_def query_ok_def intro!: Node_AddForced_sound)
qed

lemma QueryCallbackByAccount_sound:
  assumes "node_sound M E U g k n" "query_ok U q" "expected (nd_syncer n) (qs_queries (nd_queries n)) q"
    "bq_callback q = Sync_Account_Callback a i c" "QueryCallbackByAccount (at_time E t) V a i c (bq_ack q) n = (rs, c', n')"
  shows "callback_done (node_sound M E U g k) q n rs n'"
proof -
  have idle: "account_queries a (qs_queries (nd_queries n)) = []" using assms(3,4) by (simp add: expected_def)
  have q: "callback_account (bq_callback q) = Some a" "bq_by q \<noteq> BY_HASH" "list_all (ack_ok U q) (bq_ack q)"
    using assms(2,4) by (simp_all add: query_ok_def)
  note erase = Erase_sound [OF assms(1) idle]
  note callback = Syncer_QueryCallback_sound [OF assms(1,3) q(1,2)]
  show ?thesis
  proof (cases "\<exists>ack. bq_ack q = [ack]")
    case True
    then obtain ack where ack: "bq_ack q = [ack]" "ack_ok U q ack" using q(3) by auto
    from callback [OF ack(2)] assms(1,5) erase show ?thesis
      unfolding QueryCallbackByAccount_def ack(1) list.case callback_done_def
      by (cases "qa_status ack") (auto split: if_splits)
  next
    case False
    then have "QueryCallbackByAccount (at_time E t) V a i c (bq_ack q) n =
        (replicate (length (bq_ack q)) CALLBACK_FINISH, c, syncer_update (EraseQuery i) (syncer_update (Syncer_Erase a) n))"
      by (auto simp: QueryCallbackByAccount_def split: list.split)
    with assms(5) erase show ?thesis by (auto simp: callback_done_def)
  qed
qed

lemma QueryCallbackByHash_sound:
  assumes "node_sound M E U g k n" "query_ok U q" "QueryCallbackByHash M' V i c (bq_ack q) n = (rs, c', n')"
  shows "callback_done (node_sound M E U g k) q n rs n'"
proof (cases "\<exists>ack. bq_ack q = [ack]")
  case True
  then obtain ack where ack: "bq_ack q = [ack]" "ack_ok U q ack" using assms(2) by (auto simp: query_ok_def)
  then have "qa_status ack = STATUS_SUCCESS \<Longrightarrow> \<exists>b. qa_block ack = Some b" by (auto simp: ack_ok_def)
  with assms(1,3) show ?thesis
    unfolding QueryCallbackByHash_def ack(1) list.case callback_done_def
    by (cases "qa_status ack") (auto simp: SyncAccount_sound split: if_splits option.split)
next
  case False
  then have "QueryCallbackByHash M' V i c (bq_ack q) n =
      (replicate (length (bq_ack q)) CALLBACK_FINISH, c, syncer_update (EraseQuery i) n)"
    by (auto simp: QueryCallbackByHash_def split: list.split)
  with assms(1,3) show ?thesis by (auto simp: callback_done_def)
qed

lemma run_callback_sound:
  assumes "node_sound M E U g k n" "query_ok U q" "expected (nd_syncer n) (qs_queries (nd_queries n)) q"
    "run_callback M' (at_time E t) V (bq_callback q) (bq_ack q) n = (rs, c, n')"
  shows "callback_done (node_sound M E U g k) q n rs n'" "callback_ok q c" "callback_account c = callback_account (bq_callback q)"
proof -
  have q: "callback_ok q (bq_callback q)" using assms(2) by (simp add: query_ok_def)
  have "callback_done (node_sound M E U g k) q n rs n' \<and> callback_ok q c \<and> callback_account c = callback_account (bq_callback q)"
  proof (cases "bq_callback q")
    case (Processor_Callback o')
    from assms(4) QueryCallback_processor_sound [OF assms(1,2) Processor_Callback] q show ?thesis
      unfolding Processor_Callback by (auto split: prod.splits)
  next
    case (Sync_Account_Callback a i c0)
    from assms(4) QueryCallbackByAccount_sound [OF assms(1-3) Sync_Account_Callback] q show ?thesis
      unfolding Sync_Account_Callback by (auto split: prod.splits)
  next
    case (Sync_Hash_Callback i c0)
    from assms(4) QueryCallbackByHash_sound [OF assms(1,2)] q show ?thesis
      unfolding Sync_Hash_Callback by (auto split: prod.splits)
  qed
  then show "callback_done (node_sound M E U g k) q n rs n'" "callback_ok q c" "callback_account c = callback_account (bq_callback q)"
    by simp_all
qed

section \<open>Turns of the queries\<close>

lemma sends_fields [simp]:
  "nd_queries (fold (\<lambda>(e, m). Node_Send m e) ms n) = nd_queries n" "nd_syncer (fold (\<lambda>(e, m). Node_Send m e) ms n) = nd_syncer n"
  "node_sound M E U g k (fold (\<lambda>(e, m). Node_Send m e) ms n) = node_sound M E U g k n"
  by (induction ms arbitrary: n) (auto simp: Node_Send_def)

lemma QueryAck_new_ok: "ack_ok U q QueryAck_new"
  by (simp add: ack_ok_def QueryAck_new_def)

lemma callback_ok_by: "bq_by q' = bq_by q \<Longrightarrow> callback_ok q' c = callback_ok q c"
  by (cases c) simp_all

lemma ack_ok_same: "bq_by q' = bq_by q \<Longrightarrow> bq_height q' = bq_height q \<Longrightarrow> ack_ok U q' = ack_ok U q"
  by (rule ext) (simp add: ack_ok_def)

lemma query_ok_change:
  assumes "query_ok U q" "bq_by q' = bq_by q" "bq_height q' = bq_height q" "bq_only_specified_node q' = bq_only_specified_node q"
    "length (bq_from q') = length (bq_ack q')" "list_all (ack_ok U q) (bq_ack q')" "callback_ok q (bq_callback q')"
  shows "query_ok U q'"
  using assms ack_ok_same [of q' q U] callback_ok_by [of q' q] by (simp add: query_ok_def)

lemma expected_change:
  "expected s qs q \<Longrightarrow> callback_account (bq_callback q') = callback_account (bq_callback q) \<Longrightarrow> bq_height q' = bq_height q \<Longrightarrow>
     expected s qs q'"
  by (simp add: expected_def)

lemma resend_sound:
  assumes "node_sound M E U g k n" "query_ok U q" "expected (nd_syncer n) (qs_queries (nd_queries n)) q"
  shows "node_sound M E U g k (resend E' V q n)"
proof -
  obtain ms q' where send: "SendQuery E' (out_random_peer V) q = Some (ms, q')"
    and same: "bq_by q' = bq_by q" "bq_height q' = bq_height q" "bq_only_specified_node q' = bq_only_specified_node q"
      "bq_callback q' = bq_callback q"
    and acks: "length (bq_from q') = length (bq_ack q')" "list_all (ack_ok U q) (bq_ack q')"
    using assms(2) QueryAck_new_ok by (cases "out_random_peer V (bq_only_full_node q)") (auto simp: SendQuery_def query_ok_def)
  let ?n = "fold (\<lambda>(e, m). Node_Send m e) ms n"
  let ?q = "UpdateWakeup (out_now V) (nd_queries ?n) q'"
  have q: "bq_by (UpdateWakeup t qs q') = bq_by q" "bq_height (UpdateWakeup t qs q') = bq_height q"
      "bq_only_specified_node (UpdateWakeup t qs q') = bq_only_specified_node q" "bq_callback (UpdateWakeup t qs q') = bq_callback q"
      "bq_from (UpdateWakeup t qs q') = bq_from q'" "bq_ack (UpdateWakeup t qs q') = bq_ack q'" for t qs
    by (simp_all add: UpdateWakeup_def same)
  have "node_sound M E U g k (?n\<lparr>nd_queries := Queries_Insert ?q (nd_queries ?n)\<rparr>)"
  proof (rule insert_sound)
    show "node_sound M E U g k ?n" using assms(1) by simp
    show "query_ok U ?q"
      by (rule query_ok_change [OF assms(2)]) (use assms(2) acks in \<open>simp_all add: q query_ok_def\<close>)
    show "expected (nd_syncer ?n) (qs_queries (nd_queries ?n)) ?q"
      using expected_change [OF assms(3), of ?q] by (simp add: q)
  qed (simp add: Queries_Insert_def)
  then show ?thesis by (simp add: resend_def send queries_update_def)
qed

lemma after_callback_sound:
  assumes "node_sound M E U g k n" "query_ok U q" "expected (nd_syncer n) (qs_queries (nd_queries n)) q"
    "\<And>ack. ack_ok U q ack \<Longrightarrow> ack_ok U q (reset ack)"
  shows "node_sound M E U g k (after_callback M' (at_time E t) V reset q n)"
proof -
  obtain rs c n' where run: "run_callback M' (at_time E t) V (bq_callback q) (bq_ack q) n = (rs, c, n')" by (metis prod_cases3)
  note r = run_callback_sound [OF assms(1-3) run]
  have len: "length rs = length (bq_ack q)" and sound: "node_sound M E U g k n'" using r(1) by (simp_all add: callback_done_def)
  let ?acks = "map2 (\<lambda>status ack. if status = CALLBACK_CONTINUE then reset ack else ack) rs (bq_ack q)"
  let ?q = "q\<lparr>bq_callback := c, bq_ack := ?acks\<rparr>"
  have acks: "list_all (ack_ok U q) ?acks"
    using assms(2,4) by (auto simp: query_ok_def list_all_iff dest: set_zip_rightD)
  have "query_ok U ?q"
    by (rule query_ok_change [OF assms(2)]) (use assms(2) r(2) len acks in \<open>simp_all add: query_ok_def\<close>)
  moreover have "n' = n" if "CALLBACK_CONTINUE \<in> set rs" using r(1) that by (simp add: callback_done_def)
  moreover have "expected (nd_syncer n) (qs_queries (nd_queries n)) ?q"
    by (rule expected_change [OF assms(3)]) (simp_all add: r(3))
  ultimately show ?thesis
    using sound len assms(1) by (auto simp: after_callback_def run Let_def intro: resend_sound)
qed

lemma ProcessQuery_sound:
  assumes "node_sound M E U g k n" "query_ok U q" "expected (nd_syncer n) (qs_queries (nd_queries n)) q"
  shows "node_sound M E U g k (ProcessQuery M' (at_time E t) V q n)"
proof (cases "bq_count q = 0")
  case True
  with resend_sound [OF assms] show ?thesis by (simp add: ProcessQuery_def)
next
  case False
  let ?acks = "map (\<lambda>ack. if qa_status ack = STATUS_PENDING then ack\<lparr>qa_status := STATUS_TIMEOUT\<rparr> else ack) (bq_ack q)"
  let ?q = "q\<lparr>bq_ack := ?acks, bq_only_full_node := (bq_only_full_node q \<or> STATUS_PRUNED \<in> set (map qa_status ?acks))\<rparr>"
  have "list_all (ack_ok U q) ?acks" using assms(2) by (auto simp: query_ok_def list_all_iff ack_ok_def)
  then have q: "query_ok U ?q" by (intro query_ok_change [OF assms(2)]) (use assms(2) in \<open>simp_all add: query_ok_def\<close>)
  have "expected (nd_syncer n) (qs_queries (nd_queries n)) ?q" by (rule expected_change [OF assms(3)]) simp_all
  then have "node_sound M E U g k (after_callback M' (at_time E t) V (\<lambda>ack. ack\<lparr>qa_status := STATUS_PENDING\<rparr>) ?q n)"
    by (rule after_callback_sound [OF assms(1) q]) (simp add: ack_ok_def)
  with False show ?thesis by (simp only: ProcessQuery_def if_False Let_def)
qed

text \<open>A query that was taken out is expected.\<close>

lemma sync_ok_taken:
  assumes "sync_ok s qs" "q \<in> set qs" "\<And>a. account_queries a qs' = filter R (account_queries a qs)" "\<not> R q"
  shows "sync_ok s qs'" "expected s qs' q"
proof -
  have few: "account_queries a qs = [] \<or> (\<exists>x. account_queries a qs = [x])" for a
    using assms(1) by (fastforce simp: sync_ok_def waits_for_def)
  show "sync_ok s qs'"
    unfolding sync_ok_def
  proof
    fix a
    have "account_queries a qs' = account_queries a qs \<or> account_queries a qs' = []"
      using few [of a] assms(3) [of a] by (auto split: if_splits)
    with assms(1) show "waits_for (sn_syncs s a) (account_queries a qs')" by (auto simp: sync_ok_def waits_for_def)
  qed
  show "expected s qs' q"
    unfolding expected_def
  proof (intro allI impI)
    fix a assume "callback_account (bq_callback q) = Some a"
    with assms(2) have "q \<in> set (account_queries a qs)" by (simp add: account_queries_def)
    moreover have "waits_for (sn_syncs s a) (account_queries a qs)" using assms(1) by (simp add: sync_ok_def)
    ultimately show "account_queries a qs' = [] \<and>
        (\<exists>info. sn_syncs s a = Some info \<and> sy_status info = SYNC_QUERY \<and> sy_height info = bq_height q)"
      using assms(3) [of a] assms(4) by (auto simp: waits_for_def)
  qed
qed

lemma Queries_Run_step_sound:
  assumes "node_sound M E U g k n"
  shows "node_sound M E U g k (Queries_Run_step M' (at_time E t) V n)"
proof (cases "qs_queries (nd_queries n)")
  case Nil
  with assms show ?thesis by (simp add: Queries_Run_step_def)
next
  case (Cons q rest)
  let ?n = "queries_update (\<lambda>qs. qs\<lparr>qs_queries := rest\<rparr>) n"
  have old: "queries_ok U (q # rest)" "sync_ok (nd_syncer n) (q # rest)" using assms Cons by (simp_all add: node_sound_def)
  have "distinct (map bq_sequence (q # rest))" using old(1) by (simp add: queries_ok_def mi_ok_def)
  then have rest: "filter (\<lambda>x. bq_sequence x \<noteq> bq_sequence q) (q # rest) = rest"
    by (force simp: filter_id_conv image_iff)
  have "account_queries a rest = filter (\<lambda>x. bq_sequence x \<noteq> bq_sequence q) (account_queries a (q # rest))" for a
    by (subst rest [symmetric]) (simp add: account_queries_def conj_commute)
  note taken = sync_ok_taken [OF old(2) list.set_intros(1) this]
  have ok: "queries_ok U rest" "query_ok U q" using old(1) by (simp_all add: queries_ok_def mi_ok_def)
  have n: "node_sound M E U g k ?n"
    using assms ok(1) taken(1) by (simp add: node_sound_def queries_update_def)
  have "expected (nd_syncer ?n) (qs_queries (nd_queries ?n)) q" using taken(2) by (simp add: queries_update_def)
  with ProcessQuery_sound [OF n ok(2)] assms Cons show ?thesis by (simp add: Queries_Run_step_def)
qed

lemma mi_modify_same:
  assumes "mi_ok key hash xs" "mi_find hash h xs = Some x" "key y = key x"
  shows "mi_modify key hash h (\<lambda>_. y) xs = map (\<lambda>z. if hash z = h then y else z) xs"
proof -
  have "z = x" if "z \<in> set xs" "hash z = h" for z using that assms(1,2) mi_found [OF assms(1), of h z] by simp
  then have "map key (map (\<lambda>z. if hash z = h then y else z) xs) = map key xs" using assms(3) by auto
  with assms(1,2) show ?thesis by (simp only: mi_modify_def option.case Let_def mi_ok_def simp_thms if_True)
qed

lemma replace_sound:
  assumes "node_sound M E U g k n" "mi_find bq_sequence (bq_sequence q) (qs_queries (nd_queries n)) = Some q"
    "query_ok U q'" "bq_wakeup q' = bq_wakeup q" "bq_sequence q' = bq_sequence q" "bq_callback q' = bq_callback q" "bq_height q' = bq_height q"
  shows "node_sound M E U g k
    (queries_update (\<lambda>qs. qs\<lparr>qs_queries := mi_modify bq_wakeup bq_sequence (bq_sequence q) (\<lambda>_. q') (qs_queries qs)\<rparr>) n)"
proof -
  let ?qs = "qs_queries (nd_queries n)" and ?f = "\<lambda>z. if bq_sequence z = bq_sequence q then q' else z"
  have old: "mi_ok bq_wakeup bq_sequence ?qs" "list_all (query_ok U) ?qs" "sync_ok (nd_syncer n) ?qs"
    using assms(1) by (simp_all add: node_sound_def queries_ok_def)
  have eq: "mi_modify bq_wakeup bq_sequence (bq_sequence q) (\<lambda>_. q') ?qs = map ?f ?qs"
    by (rule mi_modify_same [OF old(1) assms(2,4)])
  have only: "z = q" if "z \<in> set ?qs" "bq_sequence z = bq_sequence q" for z
    using that assms(2) mi_found [OF old(1), of "bq_sequence q" z] by simp
  have f: "bq_callback (?f z) = bq_callback z" "bq_height (?f z) = bq_height z" if "z \<in> set ?qs" for z
    using only [OF that] assms(6,7) by auto
  have account: "account_queries a (map ?f ?qs) = map ?f (account_queries a ?qs)" for a
    by (simp add: account_queries_def filter_map comp_def f cong: filter_cong)
  have "mi_ok bq_wakeup bq_sequence (map ?f ?qs)"
    using mi_modify_ok(1) [OF old(1), of "bq_sequence q" "\<lambda>_. q'"] assms(5) eq by simp
  moreover have "list_all (query_ok U) (map ?f ?qs)" using old(2) assms(3) by (auto simp: list_all_iff)
  moreover have "sync_ok (nd_syncer n) (map ?f ?qs)"
    unfolding sync_ok_def
  proof
    fix a
    have "set (account_queries a ?qs) \<subseteq> set ?qs" by (auto simp: account_queries_def)
    with old(3) f show "waits_for (sn_syncs (nd_syncer n) a) (account_queries a (map ?f ?qs))"
      unfolding account by (auto simp: sync_ok_def waits_for_def)
  qed
  ultimately show ?thesis using assms(1) by (simp add: node_sound_def queries_ok_def queries_update_def eq)
qed

text \<open>An answer as the parser lets it through.\<close>

definition answer_fits :: "block set \<Rightarrow> query_by \<Rightarrow> u64 \<Rightarrow> query_status \<Rightarrow> block option \<Rightarrow> bool" where
  "answer_fits U kind h st b \<longleftrightarrow>
     (st = STATUS_SUCCESS \<longrightarrow> (\<exists>x \<in> U. b = Some x \<and> (kind \<noteq> BY_HASH \<longrightarrow> Height x = h))) \<and>
     (st = STATUS_FORK \<longrightarrow> (\<exists>x \<in> U. b = Some x))"

lemma ProcessQueryAck_sound:
  assumes "node_sound M E U g k n" "answer_fits U kind h st b"
  shows "node_sound M E U g k (ProcessQueryAck M' (at_time E t) V i kind a h hash st b e proxy n)"
proof (cases "mi_find bq_sequence i (qs_queries (nd_queries n))")
  case None
  with assms show ?thesis by (simp add: ProcessQueryAck_def)
next
  case (Some q)
  let ?qs = "qs_queries (nd_queries n)" and ?from = "\<lparr>qf_endpoint = e, qf_proxy_endpoint = proxy\<rparr>"
  let ?acks = "map2 (\<lambda>f ack. if f = ?from then \<lparr>qa_status = st, qa_block = b\<rparr> else ack) (bq_from q) (bq_ack q)"
  let ?q = "q\<lparr>bq_ack := ?acks, bq_only_full_node := (bq_only_full_node q \<or> st = STATUS_PRUNED \<and> ?from \<in> set (bq_from q))\<rparr>"
  let ?n = "queries_update (\<lambda>qs. qs\<lparr>qs_queries := mi_erase bq_sequence i (qs_queries qs)\<rparr>) n"
  have q: "q \<in> set ?qs" "bq_sequence q = i" using mi_find_mem [OF Some] by simp_all
  have old: "queries_ok U ?qs" "sync_ok (nd_syncer n) ?qs" "query_ok U q"
    using assms(1) q(1) by (auto simp: node_sound_def queries_ok_def list_all_iff)
  show ?thesis
  proof (cases "bq_by q \<noteq> kind \<or> bq_account q \<noteq> a \<or> bq_height q \<noteq> h \<or> bq_hash q \<noteq> hash")
    case True
    with Some assms(1) show ?thesis by (simp add: ProcessQueryAck_def)
  next
    case False
    have "ack_ok U q \<lparr>qa_status = st, qa_block = b\<rparr>" using assms(2) False by (simp add: ack_ok_def answer_fits_def)
    then have "list_all (ack_ok U q) ?acks" using old(3) by (auto simp: query_ok_def list_all_iff dest: set_zip_rightD)
    then have ok: "query_ok U ?q" by (intro query_ok_change [OF old(3)]) (use old(3) in \<open>simp_all add: query_ok_def\<close>)
    have "account_queries a (mi_erase bq_sequence i ?qs) = filter (\<lambda>x. bq_sequence x \<noteq> i) (account_queries a ?qs)" for a
      by (simp add: account_queries_def mi_erase_def conj_commute)
    note taken = sync_ok_taken [OF old(2) q(1) this]
    have "queries_ok U (mi_erase bq_sequence i ?qs)"
      using old(1) mi_erase_ok(1) [of bq_wakeup bq_sequence ?qs i]
      by (simp add: queries_ok_def list_all_iff) (simp add: mi_erase_def)
    then have n: "node_sound M E U g k ?n" using assms(1) taken(1) q(2) by (simp add: node_sound_def queries_update_def)
    have ex: "expected (nd_syncer ?n) (qs_queries (nd_queries ?n)) ?q"
      by (rule expected_change [of _ _ q]) (use taken(2) q(2) in \<open>simp_all add: queries_update_def\<close>)
    have finish: "node_sound M E U g k (after_callback M' (at_time E t) V (\<lambda>_. \<lparr>qa_status = STATUS_PENDING, qa_block = None\<rparr>) ?q ?n)"
      by (rule after_callback_sound [OF n ok ex]) (simp add: ack_ok_def)
    have waits: "node_sound M E U g k
        (queries_update (\<lambda>qs. qs\<lparr>qs_queries := mi_modify bq_wakeup bq_sequence i (\<lambda>_. ?q) (qs_queries qs)\<rparr>) n)"
      using replace_sound [OF assms(1) _ ok, of q] Some q(2) by simp
    from finish waits show ?thesis
      unfolding ProcessQueryAck_def Some option.case if_not_P [OF False] Let_def by simp
  qed
qed

end
