(* ===== verification/NodeRun.thy ===== *)
theory NodeRun
  imports SyncSound
begin

text \<open>
  Runs of a whole node: messages from the network, turns of the threads of the block processor, the elections and the queries,
  posted work in any order and the alarm. Every step keeps the node sound, so a node that starts on a sound ledger never fails
  an assertion, never uses a null block and never leaves the ledgers that are reachable from the genesis block.
\<close>

section \<open>A new node\<close>

definition BlockProcessor_new :: "'db ledger \<Rightarrow> 'db processor" where
  "BlockProcessor_new l =
     \<lparr>bp_ledger = l, bp_operation = of_block_operation DYNAMIC_BEGIN, blocks_dynamic = (\<lambda>_. None),
      accounts_dynamic = (\<lambda>_. None), roots_dynamic = (\<lambda>_. None),
      bp_queues = \<lparr>wq_blocks = [], wq_forced = [], wq_fork = []\<rparr>, previous_gap_cache = [], receive_source_gap_cache = [],
      reward_source_gap_cache = [], bp_events = []\<rparr>"

definition BlockQueries_new :: block_queries where
  "BlockQueries_new = \<lparr>qs_sequence = 0, qs_queries = []\<rparr>"

definition Syncer_new :: syncer where
  "Syncer_new = \<lparr>sn_current_query_id = 0, sn_total = 0, sn_miss = 0, sn_syncs = (\<lambda>_. None), sn_queries = []\<rparr>"

definition Node_new :: "u256 \<Rightarrow> u256 \<Rightarrow> bool \<Rightarrow> nat \<Rightarrow> 'db ledger \<Rightarrow> 'db node" where
  "Node_new account private_key slow_reps concurrency l =
     \<lparr>nd_account = account, nd_private_key = private_key, nd_processor = BlockProcessor_new l, nd_recent_blocks = [],
      nd_recent_forks = [], nd_confirm_requests = (\<lambda>_. None), nd_confirms = [], nd_active_accounts = [],
      nd_queries = BlockQueries_new, nd_syncer = Syncer_new, nd_elections = Elections_new slow_reps concurrency,
      nd_background = [], nd_sent = [], nd_asserted = False\<rparr>"

lemma Node_new_sound:
  assumes "ledger_ok M E U g l"
  shows "node_sound M E U g 0 (Node_new account key slow_reps concurrency l)"
proof -
  have "rest_inv E U (BlockProcessor_new l)"
    by (simp add: rest_inv_def BlockProcessor_new_def queues_ok_def queue_ok_def queued_def mi_ok_def cache_ok_def)
  moreover have "bp_ledger (BlockProcessor_new l) = l" by (simp add: BlockProcessor_new_def)
  moreover have "es_in U (Elections_new slow_reps concurrency)" by (simp add: es_in_def Elections_new_def)
  moreover have "queries_ok U (qs_queries BlockQueries_new) \<and> sync_ok Syncer_new (qs_queries BlockQueries_new)"
    by (simp add: queries_ok_def mi_ok_def sync_ok_def account_queries_def waits_for_def BlockQueries_new_def)
  ultimately show ?thesis
    using assms Elections_new_ok by (simp add: node_sound_def node_inv_def Node_new_def)
qed

section \<open>Messages\<close>

fun message_blocks :: "message \<Rightarrow> block list" where
  "message_blocks (Publish m) = [pb_block m]"
| "message_blocks (Confirm m) = [cf_block m]"
| "message_blocks (Query m) = (case qr_block m of None \<Rightarrow> [] | Some b \<Rightarrow> [b])"
| "message_blocks (Fork m) = [fm_first m, fm_second m]"
| "message_blocks (Conflict m) = [cx_block_first m, cx_block_second m]"
| "message_blocks _ = []"

lemma CheckSignature_at_time [simp]: "CheckSignature (at_time E t) b = CheckSignature E b"
proof -
  have "ValidateMessage (at_time E t) = ValidateMessage E" by (simp add: at_time_def)
  then show ?thesis by (simp add: CheckSignature_def)
qed

lemma block_ok_at_time [simp]: "block_ok (at_time E t) b = block_ok E b"
  by (simp add: block_ok_def)

text \<open>Of the blocks that arrive, those with a good signature are in the universe.\<close>

definition arrivals_in :: "block set \<Rightarrow> env \<Rightarrow> message \<Rightarrow> bool" where
  "arrivals_in U E m \<longleftrightarrow> (\<forall>b \<in> set (message_blocks m). \<not> CheckSignature E b \<longrightarrow> b \<in> U)"

lemma ReceiveBlock_signed_sound:
  assumes "node_sound M E U g k n" "\<not> CheckSignature E b \<Longrightarrow> b \<in> U"
  shows "node_sound M E U g k (ReceiveBlock (at_time E t) V b confirm_to n)"
proof (cases "CheckSignature E b")
  case True
  with assms(1) show ?thesis by (auto simp: ReceiveBlock_def Let_def split: option.split)
next
  case False
  with ReceiveBlock_sound [OF assms] show ?thesis by blast
qed

lemma Visitor_Publish_sound:
  assumes "node_sound M E U g k n" "\<not> CheckSignature E (pb_block m) \<Longrightarrow> pb_block m \<in> U"
  shows "node_sound M E U g k (Visitor_Publish M' (at_time E t) V m n)"
  using assms by (auto simp: Visitor_Publish_def Let_def ReceiveBlock_signed_sound split: option.split)

lemma elections_sound:
  "node_sound M E U g k n \<Longrightarrow> elections_ok E k (nd_elections n) \<and> es_in U (nd_elections n)"
  by (simp add: node_sound_def)

lemma Visitor_Confirm_sound:
  assumes "node_sound M E U g k n" "cf_block m \<in> U" "Suc k < 2 ^ 32"
  shows "node_sound M E U g (Suc k) (Visitor_Confirm M (at_time E t) V m n)"
proof -
  let ?es = "ProcessConfirm (at_time E t) (out_around V) (cf_representative m) (cf_timestamp m) (cf_signature m) (cf_block m)
    (Node_RepWeight (cf_representative m) n) (nd_elections n)"
  have "elections_ok (at_time E t) (Suc k) ?es"
    by (rule ProcessConfirm_ok) (use assms(3) elections_sound [OF assms(1)] in simp_all)
  then have "elections_ok E (Suc k) ?es" by simp
  moreover have "es_in U ?es" by (rule es_in_Confirm) (use assms(2) elections_sound [OF assms(1)] in simp_all)
  ultimately have "node_sound M E U g (Suc k) (after_elections M (at_time E t) (n\<lparr>nd_elections := ?es\<rparr>))"
    by (rule after_elections_sound [OF assms(1)]) simp
  with node_sound_mono [OF assms(1), of "Suc k"] show ?thesis by (simp add: Visitor_Confirm_def Let_def)
qed

lemma Visitor_Conflict_sound:
  assumes "node_sound M E U g k n" "cx_block_first m \<in> U" "cx_block_second m \<in> U" "Suc (Suc k) < 2 ^ 32"
  shows "node_sound M E U g (Suc (Suc k)) (Visitor_Conflict M (at_time E t) V m n)"
proof -
  let ?es = "ProcessConflict (at_time E t) (out_around V) (cx_representative m) (cx_timestamp_first m) (cx_timestamp_second m)
    (cx_signature_first m) (cx_signature_second m) (cx_block_first m) (cx_block_second m)
    (Node_RepWeight (cx_representative m) n) (nd_elections n)"
  have "elections_ok (at_time E t) (Suc (Suc k)) ?es"
    by (rule ProcessConflict_ok) (use assms(4) elections_sound [OF assms(1)] in simp_all)
  then have "elections_ok E (Suc (Suc k)) ?es" by simp
  moreover have "es_in U ?es" by (rule es_in_Conflict) (use assms(2,3) elections_sound [OF assms(1)] in simp_all)
  ultimately have "node_sound M E U g (Suc (Suc k)) (after_elections M (at_time E t) (n\<lparr>nd_elections := ?es\<rparr>))"
    by (rule after_elections_sound [OF assms(1)]) simp
  with node_sound_mono [OF assms(1), of "Suc (Suc k)"] show ?thesis by (simp add: Visitor_Conflict_def Let_def)
qed

text \<open>The checks of the parser are those that the callbacks of a query assert.\<close>

lemma accepted_answer_fits:
  assumes "message_ok E' (Query m)" "GetFlag ACK (qr_header m)" "\<And>b. qr_block m = Some b \<Longrightarrow> block_ok E' b \<Longrightarrow> b \<in> U"
  shows "answer_fits U (QueryBy (qr_header m)) (qr_height m) (QueryStatus (qr_header m)) (qr_block m)"
proof (cases "query_has_block (qr_header m)")
  case True
  then obtain b where b: "qr_block m = Some b" "block_ok E' b" using assms(1,2) by auto
  have "QueryMessage_Check E' m = Code SUCCESS" using assms(1) by simp
  then have "Height b = qr_height m" if "QueryBy (qr_header m) \<noteq> BY_HASH" "QueryStatus (qr_header m) = STATUS_SUCCESS"
    using that b(1) by (auto simp: QueryMessage_Check_def Let_def split: if_splits)
  with b assms(3) show ?thesis by (auto simp: answer_fits_def)
qed (simp add: answer_fits_def query_has_block_def)

lemma Visitor_Query_sound:
  assumes "node_sound M E U g k n" "message_ok E' (Query m)" "\<And>b. qr_block m = Some b \<Longrightarrow> block_ok E' b \<Longrightarrow> b \<in> U"
  shows "node_sound M E U g k (Visitor_Query M' (at_time E t) V sender m n)"
proof (cases "GetFlag ACK (qr_header m)")
  case True
  from ProcessQueryAck_sound [OF assms(1) accepted_answer_fits [OF assms(2) True assms(3)]] True show ?thesis
    by (simp add: Visitor_Query_def Let_def)
next
  case False
  with assms(1) show ?thesis by (simp add: Visitor_Query_def Let_def split: option.split)
qed

lemma Visit_sound:
  assumes n: "node_sound M E U g k n" and m: "accepted (at_time E t) m" "arrivals_in U E m" and k: "k + 2 < 2 ^ 32"
  shows "node_sound M E U g (k + 2) (Visit M (at_time E t) V sender m n)"
proof -
  have ok: "message_ok (at_time E t) m" using m(1) by (simp add: accepted_def)
  have arrived: "b \<in> U" if "b \<in> set (message_blocks m)" "block_ok E b" for b
    using m(2) that by (simp add: arrivals_in_def block_ok_def)
  have later: "node_sound M E U g (k + 2) n'" if "node_sound M E U g l n'" "l \<le> k + 2" for l n'
    using that node_sound_mono by blast
  show ?thesis
  proof (cases m)
    case (Publish x)
    then have "\<not> CheckSignature E (pb_block x) \<Longrightarrow> pb_block x \<in> U" using m(2) by (simp add: arrivals_in_def)
    from later [OF Visitor_Publish_sound [OF n this]] show ?thesis by (simp add: Publish)
  next
    case (Confirm x)
    then have "cf_block x \<in> U" using ok arrived [of "cf_block x"] by simp
    from later [OF Visitor_Confirm_sound [OF n this]] k show ?thesis by (simp add: Confirm)
  next
    case (Query x)
    have "message_ok (at_time E t) (Query x)" using ok Query by blast
    from later [OF Visitor_Query_sound [OF n this]] arrived show ?thesis by (simp add: Query del: message_ok.simps)
  next
    case (Fork x)
    then have "fm_first x \<in> U" "fm_second x \<in> U" using ok arrived [of "fm_first x"] arrived [of "fm_second x"] by simp_all
    from later [OF ReceiveBlockFork_sound [OF n this]] show ?thesis by (simp add: Fork)
  next
    case (Conflict x)
    then have "cx_block_first x \<in> U" "cx_block_second x \<in> U"
      using ok arrived [of "cx_block_first x"] arrived [of "cx_block_second x"] by simp_all
    from Visitor_Conflict_sound [OF n this] k show ?thesis by (simp add: Conflict)
  qed (use later [OF n] n in \<open>simp_all add: Visitor_Relay_def Let_def\<close>)
qed

definition stream_in :: "block set \<Rightarrow> env \<Rightarrow> bytes \<Rightarrow> bool" where
  "stream_in U E s \<longleftrightarrow> (case MessageParser_Parse E s of Inl _ \<Rightarrow> True | Inr m \<Rightarrow> arrivals_in U E m)"

lemma ProcessMessage_sound:
  assumes "node_sound M E U g k n" "stream_in U (at_time E t) s" "k + 2 < 2 ^ 32"
  shows "node_sound M E U g (k + 2) (ProcessMessage M (at_time E t) V remote s n)"
proof (cases "MessageParser_Parse (at_time E t) s")
  case (Inl c)
  with node_sound_mono [OF assms(1)] show ?thesis by (simp add: ProcessMessage_def)
next
  case (Inr m)
  have "arrivals_in U E m" using assms(2) Inr by (simp add: stream_in_def arrivals_in_def)
  with Visit_sound [OF assms(1) _ _ assms(3)] parser_only [OF Inr] Inr show ?thesis by (simp add: ProcessMessage_def)
qed

section \<open>Processed blocks\<close>

lemma NextFork_in:
  assumes "reliable M" "ledger_ok M E U g l" "NextFork M (Transaction_new l False) a h = Some (a', h', f, s)"
  shows "f \<in> U \<and> s \<in> U"
proof -
  obtain L where L: "ledger_state M l L" "forks_in U L" using assms(2) by (auto simp: ledger_ok_def)
  have t: "table_rel M (l_store l) FORKS height_key enc_fork fork_ok (v_forks L)"
    using L(1) by (simp add: ledger_state_def ledger_rel_def)
  have laws: "lmdb_laws M" using assms(1) by (simp add: reliable_def)
  obtain key v where found: "(key, v) \<in> set (mdb_entries M (l_store l) FORKS)" and dec: "decode_fork v = Some (f, s)"
    using assms(3) by (auto simp: NextFork_def find_Some_iff split: option.splits prod.splits if_splits) (metis nth_mem)
  have get: "mdb_get M (l_store l) FORKS key = Some v" using found mdb_entries_get(1) [OF laws] by blast
  then obtain k where "key = height_key k" using t unfolding table_rel_def by fastforce
  with get table_rel_value [OF t] obtain x where "v_forks L k = Some x" "v = enc_fork x" "fork_ok x" by fastforce
  with dec L(2) show ?thesis by (cases x; cases k) (auto simp: fork_codec forks_in_def)
qed

lemma node_sound_ledger: "node_sound M E U g k n \<Longrightarrow> ledger_ok M E U g (nd_ledger n)"
  by (simp add: node_sound_def node_inv_def)

lemma ElectNextFork_sound:
  assumes "reliable M" "node_sound M E U g k n"
  shows "node_sound M E U g k (ElectNextFork M result b n)"
  using assms(2) NextFork_in [OF assms(1) node_sound_ledger [OF assms(2)]]
  by (auto simp: ElectNextFork_def read_transaction_def split: option.split)

lemma OnBlockProcessed_sound:
  assumes "reliable M" "node_sound M E U g k n" "b \<in> U"
  shows "node_sound M E U g k (OnBlockProcessed M E' V result b n)"
proof -
  have "node_sound M E U g k (ConfirmRequestAck E' V result b n)"
    using assms(2) by (simp add: ConfirmRequestAck_def split: prod.split)
  from ElectNextFork_sound [OF assms(1) this] assms(3) show ?thesis
    by (simp add: OnBlockProcessed_def Let_def UpdateActiveAccounts_def ProcessReceivable_def)
qed

section \<open>Turns\<close>

lemma fail_free: "node_sound M E U g k n \<Longrightarrow> \<not> nd_asserted n"
  by (simp add: node_sound_def)

lemma on_event_sound:
  assumes "node_sound M E U g k n" "event_ok U ev"
  shows "node_sound M E U g k (on_event V ev n)"
  using assms by (cases ev) (auto intro: QueryByHash_sound)

lemma Processor_turn_sound:
  assumes "reliable M" "universe E g U" "node_sound M E U g k n" "Processor_turn M (at_time E t) V fuel n = Some n'"
  shows "node_sound M E U g k n'"
proof -
  let ?p = "(nd_processor n)\<lparr>bp_events := []\<rparr>"
  obtain p where run: "Run_step M (at_time E t) (out_now V) fuel ?p = Some p"
    and n': "n' = fold (on_event V) (bp_events p) (n\<lparr>nd_processor := p\<lparr>bp_events := []\<rparr>\<rparr>)"
    using assms(4) by (auto simp: Processor_turn_def split: option.splits)
  have "node_inv M E U g ?p" using assms(3) by (simp add: node_sound_def node_inv_def rest_inv_def)
  note inv = Run_step_inv [OF assms(1,2) this run]
  then have "list_all (event_ok U) (bp_events p)" "node_inv M E U g (p\<lparr>bp_events := []\<rparr>)"
    by (simp_all add: node_inv_def rest_inv_def)
  moreover from this(2) have "node_sound M E U g k (n\<lparr>nd_processor := p\<lparr>bp_events := []\<rparr>\<rparr>)"
    using assms(3) by (simp add: node_sound_def)
  ultimately show ?thesis unfolding n' by (auto simp: list_all_iff intro!: fold_sound on_event_sound)
qed

lemma Elections_turn_sound:
  assumes "node_sound M E U g k n" "distinct (sr_peers (out_around V))"
  shows "node_sound M E U g k (Elections_turn M (at_time E t) V n)"
proof -
  let ?es = "Elections_Run_step (at_time E t) (out_around V) (nd_elections n)"
  have "elections_ok (at_time E t) k ?es"
    by (rule Elections_Run_step_ok [OF _ assms(2)]) (use elections_sound [OF assms(1)] in simp)
  moreover have "es_in U ?es" by (rule es_in_Run_step) (use elections_sound [OF assms(1)] in simp)
  ultimately show ?thesis unfolding Elections_turn_def by (intro after_elections_sound [OF assms(1)]) simp_all
qed

lemma Start_Election_sound:
  assumes "node_sound M E U g k n" "set bs \<subseteq> U" "k + length bs < 2 ^ 32"
  shows "node_sound M E U g (k + length bs)
    (after_elections M (at_time E t) (n\<lparr>nd_elections := Elections_Add (at_time E t) N bs (nd_elections n)\<rparr>))"
proof -
  let ?es = "Elections_Add (at_time E t) N bs (nd_elections n)"
  have "elections_ok (at_time E t) (k + length bs) ?es"
    by (rule Elections_Add_ok [OF _ assms(3)]) (use elections_sound [OF assms(1)] in simp)
  moreover have "es_in U ?es" by (rule es_in_Add [OF _ assms(2)]) (use elections_sound [OF assms(1)] in simp)
  ultimately show ?thesis by (intro after_elections_sound [OF assms(1)]) simp_all
qed

lemma do_job_sound:
  assumes "reliable M" "node_sound M E U g k n" "job_ok U j" "k + 2 < 2 ^ 32"
  shows "node_sound M E U g (k + 2) (do_job M (at_time E t) V j n)"
proof -
  have later: "node_sound M E U g (k + 2) n'" if "node_sound M E U g l n'" "l \<le> k + 2" for l n'
    using that node_sound_mono by blast
  show ?thesis
  proof (cases j)
    case (Notify_Block result b)
    with later [OF OnBlockProcessed_sound [OF assms(1) ProcessorCallback_sound [OF assms(2)]]] assms(3) show ?thesis by simp
  next
    case (Start_Election bs)
    with later [OF Start_Election_sound [OF assms(2)]] assms(3,4) show ?thesis by simp
  qed (use later [OF assms(2)] in \<open>simp_all add: fold_sound\<close>)
qed

lemma take_job_sound:
  assumes "node_sound M E U g k n" "take_job i n = Some (j, n')"
  shows "node_sound M E U g k n' \<and> job_ok U j"
  using assms
  by (auto simp: take_job_def node_sound_def list_all_iff split: if_splits dest!: in_set_takeD in_set_dropD)

lemma on_alarm_sound [simp]: "node_sound M E U g k (on_alarm E' V a n) = node_sound M E U g k n"
  by (cases a) simp_all

lemma AgeGapCaches_sound:
  assumes "node_sound M E U g k n"
  shows "node_sound M E U g k (AgeGapCaches M' V n)"
proof -
  let ?p = "nd_processor n"
  have aged: "cache_ok U (snd (GapCache_Age now c s))" if "cache_ok U c" for now c s
    using GapCache_Age_ok [of c now s] that set_dropWhileD by (fastforce simp: cache_ok_def GapCache_Age_def Let_def)
  obtain a1 c1 a2 c2 a3 c3 where ages: "GapCache_Age (out_now V) (previous_gap_cache ?p) 5 = (a1, c1)"
    "GapCache_Age (out_now V) (receive_source_gap_cache ?p) 5 = (a2, c2)"
    "GapCache_Age (out_now V) (reward_source_gap_cache ?p) 5 = (a3, c3)" by fastforce
  let ?n = "n\<lparr>nd_processor := ?p\<lparr>previous_gap_cache := c1, receive_source_gap_cache := c2, reward_source_gap_cache := c3\<rparr>\<rparr>"
  have "cache_ok U c1" "cache_ok U c2" "cache_ok U c3"
    using assms aged [of _ "out_now V" 5] ages by (metis node_sound_def node_inv_def rest_inv_def snd_conv)+
  then have n: "node_sound M E U g k ?n"
    using assms by (simp add: node_sound_def node_inv_def rest_inv_def)
  then have "node_sound M E U g k (fold (\<lambda>i. SyncAccount M' V txn (gap_account i) DEFAULT_BATCH_ID) (old :: gap_info list) ?n)" for txn old
    by (rule fold_sound [rotated]) (rule SyncAccount_sound)
  with n show ?thesis by (simp add: AgeGapCaches_def Let_def ages del: fold_append split: option.split)
qed

lemma ResetStat_sound:
  assumes "node_sound M E U g k n"
  shows "node_sound M E U g k (syncer_update ResetStat n)"
proof -
  have "waits_for (map_option (\<lambda>i. i\<lparr>sy_first := False\<rparr>) i) qs" if "waits_for i qs" for i qs
    using that by (auto simp: waits_for_def)
  with node_sound_sync [OF assms] show ?thesis
    unfolding syncer_update_def by (intro syncer_sound [OF assms]) (simp add: sync_ok_def ResetStat_def)
qed

section \<open>Runs\<close>

text \<open>
  A step of the node, at any time and with any peers: what arrives, a turn of one of its threads, any piece of the posted work,
  or the alarm; and what the parts that are not modelled ask for: accounts to look for and forks from the bootstrap, blocks from
  the RPC interface, blocks and elections of the rewarder. Blocks with a good signature that arrive are in the universe \<open>U\<close>.
\<close>

inductive node_step :: "'db lmdb \<Rightarrow> env \<Rightarrow> block set \<Rightarrow> 'db node \<Rightarrow> 'db node \<Rightarrow> bool" for M E U where
  arrival: "stream_in U (at_time E t) s \<Longrightarrow> node_step M E U n (ProcessMessage M (at_time E t) V remote s n)"
| processor: "Processor_turn M (at_time E t) V fuel n = Some n' \<Longrightarrow> node_step M E U n n'"
| elections: "distinct (sr_peers (out_around V)) \<Longrightarrow> node_step M E U n (Elections_turn M (at_time E t) V n)"
| queries: "node_step M E U n (Queries_Run_step M (at_time E t) V n)"
| work: "take_job i n = Some (j, n') \<Longrightarrow> node_step M E U n (do_job M (at_time E t) V j n')"
| alarm: "node_step M E U n (on_alarm (at_time E t) V a n)"
| gaps: "node_step M E U n (AgeGapCaches M V n)"
| bootstrap: "node_step M E U n (Syncer_Add V account height previous stat batch_id n)"
| bootstrap_fork: "fk_first f \<in> U \<Longrightarrow> fk_second f \<in> U \<Longrightarrow> node_step M E U n (Node_AddFork f n)"
| statistics: "node_step M E U n (syncer_update ResetStat n)"
| rpc_block: "\<not> CheckSignature E b \<longrightarrow> b \<in> U \<Longrightarrow> node_step M E U n (ReceiveBlock (at_time E t) V b None n)"
| own_block: "b \<in> U \<Longrightarrow> node_step M E U n (Node_Add (at_time E t) V b n)"
| election: "b \<in> U \<Longrightarrow> node_step M E U n (do_job M (at_time E t) V (Start_Election [b]) n)"

inductive node_run :: "'db lmdb \<Rightarrow> env \<Rightarrow> block set \<Rightarrow> 'db node \<Rightarrow> nat \<Rightarrow> 'db node \<Rightarrow> bool" for M E U n0 where
  start: "node_run M E U n0 0 n0"
| step: "node_run M E U n0 j n \<Longrightarrow> node_step M E U n n' \<Longrightarrow> node_run M E U n0 (Suc j) n'"

lemma node_step_sound:
  assumes "node_step M E U n n'" "reliable M" "universe E g U" "node_sound M E U g k n" "k + 2 < 2 ^ 32"
  shows "node_sound M E U g (k + 2) n'"
proof -
  have later: "node_sound M E U g (k + 2) n'" if "node_sound M E U g k n'" for n'
    using that node_sound_mono le_add1 by blast
  from assms(1) show ?thesis
  proof cases
    case (arrival t s V remote)
    with ProcessMessage_sound [OF assms(4) _ assms(5)] show ?thesis by simp
  next
    case (processor t V fuel)
    with later [OF Processor_turn_sound [OF assms(2-4)]] show ?thesis by blast
  next
    case (elections V t)
    with later [OF Elections_turn_sound [OF assms(4)]] show ?thesis by simp
  next
    case (work i j n1 t V)
    with do_job_sound [OF assms(2) _ _ assms(5)] take_job_sound [OF assms(4)] show ?thesis by blast
  next
    case (election b t V)
    with do_job_sound [OF assms(2,4) _ assms(5), of "Start_Election [b]"] show ?thesis by simp
  qed (use later assms(4) in \<open>simp_all add: Queries_Run_step_sound AgeGapCaches_sound Syncer_Add_sound Node_AddFork_sound
      ResetStat_sound ReceiveBlock_signed_sound Node_Add_sound\<close>)
qed

lemma node_run_sound:
  assumes "node_run M E U n0 j n" "reliable M" "universe E g U" "node_sound M E U g 0 n0" "2 * j < 2 ^ 32"
  shows "node_sound M E U g (2 * j) n"
  using assms(1,5)
proof induction
  case start
  with assms(4) show ?case by simp
next
  case (step j n n')
  then have "node_sound M E U g (2 * j) n" by simp
  from node_step_sound [OF step(2) assms(2,3) this] step.prems show ?case by simp
qed

end
