(* ===== verification/NodeSamples.thy ===== *)
theory NodeSamples
  imports Samples Relays NodeRun
begin

text \<open>Concrete queries and messages, for the hypotheses of the theorems about messages, votes and answers.\<close>

section \<open>The ledger of the samples\<close>

abbreviation sample_read :: "alist_db transaction" where
  "sample_read \<equiv> Transaction_new sample_ledger True"

abbreviation sample_stored :: ledger_view where
  "sample_stored \<equiv> commit_view sample_view"

lemma sample_read_rel: "ledger_rel alist_lmdb sample_read sample_stored"
  using sample_ledger_state by (simp add: ledger_state_def)

lemma sample_genesis_place: "Account sample_genesis = 5" "Height sample_genesis = 0"
  by (simp_all add: sample_genesis_def)

lemma sample_stored_genesis:
  "v_blocks sample_stored = [1 \<mapsto> (sample_genesis, 0)]" "v_accounts sample_stored a = Some info \<Longrightarrow> ai_head_height info = 0"
  "\<exists>info. v_accounts sample_stored 5 = Some info" "v_rollbacks sample_stored = Map.empty"
  by (auto simp: commit_view_def sample_view_def genesis_view_def empty_view_def sample_hashes sample_genesis_place
      first_view_def AccountInfo_new_def split: if_splits)

lemma sample_blocks_ok: "\<forall>b \<in> sample_universe. \<not> CheckSignature sample_env b" "block_ok sample_env sample_genesis"
    "block_ok sample_env sample_send"
  by (auto simp: CheckSignature_def sample_env_def block_ok_def sample_genesis_wf sample_send_wf)

section \<open>A query for the genesis block\<close>

definition sample_query :: query_message where
  "sample_query = QueryMessage_new 0 BY_HEIGHT 5 0 0"

definition sample_endpoint :: endpoint where
  "sample_endpoint = \<lparr>ep_ip = 1, ep_port = 7175\<rparr>"

lemma sample_query_fields [simp]:
  "qr_account sample_query = 5" "qr_height sample_query = 0" "qr_hash sample_query = 0" "qr_block sample_query = None"
  "qr_header sample_query = MessageHeader_new QUERY (ToExtention BY_HEIGHT STATUS_INVALID)"
  by (simp_all add: sample_query_def QueryMessage_new_def)

lemma sample_query_by: "mh_extension h = ToExtention BY_HEIGHT STATUS_INVALID \<Longrightarrow> QueryBy h = BY_HEIGHT"
  by (simp add: QueryBy_def ToExtention_def)

lemma sample_query_accepted: "accepted sample_env (Query sample_query)" "query_fits sample_stored sample_query"
  by (simp_all add: accepted_def sample_query_by query_fits_def query_has_hash_def query_has_block_def QueryMessage_Check_def)

definition sample_proxied :: query_message where
  "sample_proxied = sample_query\<lparr>qr_header := (SetFlag RELAY (SetFlag PROXY (qr_header sample_query)))
     \<lparr>peer_endpoint := sample_endpoint, payload_length := of_nat (length (body (Query sample_query)))\<rparr>\<rparr>"

lemma sample_proxied_fields:
  "qr_account sample_proxied = 5" "qr_height sample_proxied = 0" "QueryBy (qr_header sample_proxied) = BY_HEIGHT"
  "accepted sample_env (Query sample_proxied)" "\<not> GetFlag ACK (qr_header sample_proxied)" "GetFlag PROXY (qr_header sample_proxied)"
  "payload_length (qr_header sample_proxied) = of_nat (length (body (Query sample_proxied)))"
proof -
  have "QueryBy (qr_header sample_proxied) = BY_HEIGHT" by (rule sample_query_by) (simp add: sample_proxied_def)
  then show "qr_account sample_proxied = 5" "qr_height sample_proxied = 0" "QueryBy (qr_header sample_proxied) = BY_HEIGHT"
    "accepted sample_env (Query sample_proxied)" "\<not> GetFlag ACK (qr_header sample_proxied)" "GetFlag PROXY (qr_header sample_proxied)"
    "payload_length (qr_header sample_proxied) = of_nat (length (body (Query sample_proxied)))"
    using sample_query_accepted(1)
    by (simp_all add: sample_proxied_def accepted_def header_ok_def sample_query_by query_has_hash_def query_has_block_def
        QueryMessage_Check_def)
qed

lemma query_response_ack: "query_response M txn m = Some response \<Longrightarrow> GetFlag ACK (qr_header response)"
  by (auto simp: query_response_def Let_def split: prod.splits)

lemma sample_answered:
  assumes "qr_account m = 5" "qr_height m = 0" "QueryBy (qr_header m) = BY_HEIGHT"
  shows "\<exists>response b. query_response alist_lmdb sample_read m = Some response \<and>
    QueryStatus (qr_header response) = STATUS_SUCCESS \<and> qr_block response = Some b \<and> Account b = qr_account m \<and> Height b = qr_height m"
proof -
  obtain info where info: "v_accounts sample_stored (qr_account m) = Some info" using sample_stored_genesis(3) assms(1) by auto
  show ?thesis
    by (rule height_always_answered [OF sample_read_rel sample_reachable sample_universe_ok assms(3) _ info])
      (use assms sample_stored_genesis(2) [OF info] in simp_all)
qed

section \<open>Votes asked for\<close>

text \<open>Two different blocks for one height, the second asked for three seconds after the first, then the first again.\<close>

definition sample_asks :: "(u64 \<times> confirm_call) list" where
  "sample_asks = [(100, Ask_Vote 5 1 2), (103, Ask_Vote 5 1 3), (104, Age_Votes), (130, Ask_Vote 5 1 2)]"

lemma sample_asks_ok: "asks_ok sample_asks"
  by (simp add: sample_asks_def asks_ok_def)

lemma sample_asks_run:
  "confirm_run E sample_asks [] = [((5, 1), 100, 2), ((5, 1), 110, 3), ((5, 1), 130, 2)]"
  by (simp add: sample_asks_def GetTimestamp_def ConfirmManager_Age_def mi_find_def mi_insert_def mi_modify_def mi_erase_def mi_place_def ci_key_def MIN_CONFIRM_INTERVAL_def Let_def)

section \<open>Peers\<close>

definition sample_outside :: outside where
  "sample_outside = \<lparr>out_now = 0, out_around = sample_around 0, out_random_peer = (\<lambda>_. None), out_random_routes = [],
     out_route = (\<lambda>_. None), out_routes_except = (\<lambda>_. []), out_routes_of = (\<lambda>_. []), out_reachable = (\<lambda>_. True)\<rparr>"

section \<open>A run of a node\<close>

text \<open>A new node that hears of the sample block, is told by the bootstrap to look for account 6, and queries its peers.\<close>

definition sample_node :: "alist_db node" where
  "sample_node = Node_new 8 3 False 16 sample_ledger"

definition sample_published :: bytes where
  "sample_published = wire sample_env (Publish (PublishMessage_new sample_send))"

definition sample_after :: "alist_db node" where
  "sample_after = Queries_Run_step alist_lmdb (at_time sample_env 1) sample_outside
     (Syncer_Add sample_outside 6 0 0 True DEFAULT_BATCH_ID
       (ProcessMessage alist_lmdb (at_time sample_env 0) sample_outside sample_endpoint sample_published sample_node))"

lemma sample_stream_in: "stream_in sample_universe (at_time sample_env t) sample_published"
proof -
  have "accepted E (Publish (PublishMessage_new sample_send))" for E
    by (simp add: accepted_def PublishMessage_new_def sample_send_wf header_ok_def MessageHeader_new_def GetFlag_def
        PROTOCOL_VERSION_MIN_def PROTOCOL_VERSION_USING_def)
  then have "MessageParser_Parse (at_time sample_env t) (wire (at_time sample_env t) (Publish (PublishMessage_new sample_send))) =
      Inr (Publish (PublishMessage_new sample_send))" by (rule parser_accepts)
  moreover have "wire (at_time sample_env t) (Publish (PublishMessage_new sample_send)) = sample_published"
    by (simp add: sample_published_def PublishMessage_Serialize_def MessageHeader_Serialize_def at_time_def)
  ultimately show ?thesis
    by (simp add: stream_in_def arrivals_in_def PublishMessage_new_def sample_universe_def)
qed

lemma sample_node_run: "node_run alist_lmdb sample_env sample_universe sample_node 3 sample_after"
proof -
  have "node_run alist_lmdb sample_env sample_universe sample_node (Suc (Suc (Suc 0))) sample_after"
    unfolding sample_after_def
    by (rule node_run.step, rule node_run.step, rule node_run.step, rule node_run.start,
        rule node_step.arrival [OF sample_stream_in], rule node_step.bootstrap, rule node_step.queries)
  then show ?thesis by (simp add: numeral_3_eq_3)
qed

end
