(* ===== verification/AccountText.thy ===== *)
theory AccountText
  imports Streams
begin

text \<open>
  Accounts as text, \<open>EncodeAccount\<close> and \<open>DecodeAccount\<close> of \<open>rai/common/numbers.cpp\<close>: the prefix \<open>rai_\<close> and sixty
  characters of five bits each, for 256 bits of the account and a check of forty bits. The check is the BLAKE2b digest of five
  bytes, read as a little-endian number; it is the parameter \<open>check\<close>.
\<close>

section \<open>Characters\<close>

definition account_lookup :: string where
  "account_lookup = ''13456789abcdefghijkmnopqrstuwxyz''"

definition account_reverse :: string where
  "account_reverse = ''~0~1234567~~~~~~~~~~~~~~~~~~~~~~~~~~~~~~~~~~~~~~~89:;<=>?@AB~CDEFGHIJK~LMNO~~~~~''"

definition AccountCharEncode :: "u8 \<Rightarrow> char" where
  "AccountCharEncode value = (if unat value \<ge> length account_lookup then CHR ''~'' else account_lookup ! unat value)"

text \<open>
  \<open>strchr\<close> also finds the character 0 that ends the table; its place in \<open>account_reverse\<close> is before the array. \<open>None\<close> is a
  read out of bounds.
\<close>

definition AccountCharDecode :: "char \<Rightarrow> u8 option" where
  "AccountCharDecode value =
     (if value \<notin> set account_lookup \<and> value \<noteq> CHR 0x00 then Some 0xff
      else let i = of_char value - 0x30 :: int in
        if i < 0 \<or> i > int (length account_reverse) then None
        else Some (of_char (account_reverse ! nat i) - 0x30))"

section \<open>Encoding\<close>

fun encode_chars :: "nat \<Rightarrow> u512 \<Rightarrow> string" where
  "encode_chars 0 number = []"
| "encode_chars (Suc n) number = AccountCharEncode (ucast (and number 0x1f)) # encode_chars n (drop_bit 5 number)"

definition EncodeAccount :: "(bytes \<Rightarrow> 40 word) \<Rightarrow> u256 \<Rightarrow> string" where
  "EncodeAccount check account =
     (let number = or (push_bit 40 (ucast account)) (ucast (check (Write account))) in
      rev (encode_chars 60 number @ ''_iar''))"

section \<open>Decoding\<close>

datatype account_text = Not_An_Account | Decoded u256 | Out_Of_Bounds

fun decode_chars :: "string \<Rightarrow> u512 \<Rightarrow> (u512 option) option" where
  "decode_chars [] number = Some (Some number)"
| "decode_chars (c # text) number = (case AccountCharDecode c of
     None \<Rightarrow> None
   | Some byte \<Rightarrow> if byte = 0xff then Some None else decode_chars text (push_bit 5 number + ucast byte))"

definition DecodeAccount :: "(bytes \<Rightarrow> 40 word) \<Rightarrow> string \<Rightarrow> account_text" where
  "DecodeAccount check text =
     (if length text \<noteq> 64 \<or> take 4 text \<noteq> ''rai_'' then Not_An_Account
      else if text ! 4 \<noteq> CHR ''1'' \<and> text ! 4 \<noteq> CHR ''3'' then Not_An_Account
      else case decode_chars (drop 4 text) 0 of
        None \<Rightarrow> Out_Of_Bounds
      | Some None \<Rightarrow> Not_An_Account
      | Some (Some number) \<Rightarrow>
          let u = (ucast (drop_bit 40 number) :: u256) in
          if (ucast (and number 0xffffffffff) :: u64) \<noteq> ucast (check (Write u)) then Not_An_Account else Decoded u)"

section \<open>Digits\<close>

lemma account_chars:
  "list_all (\<lambda>n. AccountCharDecode (account_lookup ! n) = Some (of_nat n)) [0..<32]"
  "distinct account_lookup" "length account_lookup = 32" "CHR 0x00 \<notin> set account_lookup"
  by code_simp+

lemma AccountCharDecode_0: "AccountCharDecode (CHR 0x00) = None"
  by code_simp

lemma AccountCharDecode_char:
  assumes "d < 32"
  shows "AccountCharDecode (account_lookup ! d) = Some (of_nat d)" "AccountCharEncode (of_nat d) = account_lookup ! d"
  using assms account_chars(1,3) by (simp_all add: list_all_iff AccountCharEncode_def unat_of_nat)

lemma AccountCharDecode_cases:
  obtains "c = CHR 0x00" "AccountCharDecode c = None" | "c \<notin> set account_lookup" "AccountCharDecode c = Some 0xff"
    | d where "d < 32" "c = account_lookup ! d" "AccountCharDecode c = Some (of_nat d)"
proof (cases "c \<in> set account_lookup")
  case True
  then obtain d where "d < 32" "c = account_lookup ! d" using account_chars(3) by (auto simp: in_set_conv_nth)
  with AccountCharDecode_char(1) that(3) show thesis by blast
next
  case False
  with AccountCharDecode_0 that(1,2) show thesis by (cases "c = CHR 0x00") (auto simp: AccountCharDecode_def)
qed

text \<open>The value of a list of digits of five bits, the first one the most significant.\<close>

definition number_of :: "nat list \<Rightarrow> nat" where
  "number_of ds = foldl (\<lambda>n d. n * 32 + d) 0 ds"

fun digits :: "nat \<Rightarrow> nat \<Rightarrow> nat list" where
  "digits 0 n = []"
| "digits (Suc k) n = n mod 32 # digits k (n div 32)"

lemma digits_basic: "length (digits k n) = k" "d \<in> set (digits k n) \<Longrightarrow> d < 32"
  by (induction k arbitrary: n) auto

lemma number_of_snoc: "number_of (ds @ [d]) = number_of ds * 32 + d"
  by (simp add: number_of_def)

lemma number_of_digits: "number_of (rev (digits k n)) = n mod 32 ^ k"
proof (induction k arbitrary: n)
  case (Suc k)
  have "n mod 32 ^ Suc k = 32 * (n div 32 mod 32 ^ k) + n mod 32" by (simp add: mod_mult2_eq)
  with Suc show ?case by (simp add: number_of_snoc)
qed (simp add: number_of_def)

lemma number_of_Cons: "number_of (d # ds) = d * 32 ^ length ds + number_of ds"
proof (induction ds rule: rev_induct)
  case (snoc e ds)
  have "number_of (d # ds @ [e]) = number_of (d # ds) * 32 + e" using number_of_snoc [of "d # ds" e] by simp
  with snoc show ?case by (simp add: number_of_snoc algebra_simps)
qed (simp add: number_of_def)

lemma digits_number_of: "list_all (\<lambda>d. d < 32) ds \<Longrightarrow> digits (length ds) (number_of (rev ds)) = ds"
  by (induction ds) (simp_all add: number_of_snoc)

lemma number_of_bound: "list_all (\<lambda>d. d < 32) ds \<Longrightarrow> number_of ds < 32 ^ length ds"
proof (induction ds rule: rev_induct)
  case (snoc d ds)
  then have "number_of ds + 1 \<le> 32 ^ length ds" "d < 32" by simp_all
  then have "(number_of ds + 1) * 32 \<le> 32 ^ length ds * 32" by (intro mult_right_mono) simp_all
  with \<open>d < 32\<close> show ?case by (simp add: number_of_snoc algebra_simps)
qed (simp add: number_of_def)

lemma encode_chars_digits: "n < 2 ^ 512 \<Longrightarrow> encode_chars k (of_nat n) = map ((!) account_lookup) (digits k n)"
proof (induction k arbitrary: n)
  case (Suc k)
  have "and (of_nat n :: u512) 0x1f = of_nat (n mod 32)"
  proof -
    have "(0x1f :: u512) = mask 5" by (simp add: mask_eq_exp_minus_1)
    then have "and (of_nat n :: u512) 0x1f = take_bit 5 (of_nat n)" by (simp add: take_bit_eq_mask)
    also have "\<dots> = of_nat (take_bit 5 n)" by (rule take_bit_of_nat)
    finally show ?thesis by (simp add: take_bit_eq_mod)
  qed
  moreover have "n mod 32 < 32" by simp
  ultimately have "(ucast (and (of_nat n :: u512) 0x1f) :: u8) = of_nat (n mod 32)"
    by (simp add: word_eq_iff_unat unat_of_nat unat_ucast_down)
  moreover have "drop_bit 5 (of_nat n :: u512) = of_nat (n div 32)"
    using Suc.prems by (simp add: word_eq_iff_unat unat_drop_bit_eq drop_bit_eq_div unat_div_distrib unat_of_nat)
  moreover have "n div 32 < 2 ^ 512" using Suc.prems by (meson div_le_dividend le_less_trans)
  ultimately show ?case using Suc.IH AccountCharDecode_char(2) [of "n mod 32"] by simp
qed simp

lemma decode_chars_digits:
  "list_all (\<lambda>d. d < 32) ds \<Longrightarrow>
     decode_chars (map ((!) account_lookup) ds) (of_nat n) = Some (Some (of_nat (foldl (\<lambda>n d. n * 32 + d) n ds)))"
proof (induction ds arbitrary: n)
  case (Cons d ds)
  have small: "(of_nat d :: u8) \<noteq> 0xff" "(ucast (of_nat d :: u8) :: u512) = of_nat d"
    using Cons.prems by (simp_all add: word_eq_iff_unat unat_of_nat unat_ucast_up)
  have "push_bit 5 (of_nat n :: u512) + of_nat d = of_nat (n * 32 + d)" by (simp add: push_bit_eq_mult)
  with small Cons show ?case by (simp add: AccountCharDecode_char(1) del: of_nat_add of_nat_mult)
qed simp

lemma decode_chars_only:
  assumes "decode_chars cs n = Some (Some m)"
  obtains ds where "list_all (\<lambda>d. d < 32) ds" "cs = map ((!) account_lookup) ds"
  using assms
proof (induction cs arbitrary: n thesis)
  case (Cons c cs)
  then obtain d where d: "d < 32" "c = account_lookup ! d"
    by (cases c rule: AccountCharDecode_cases) (auto split: if_splits)
  obtain ds where "list_all (\<lambda>d. d < 32) ds" "cs = map ((!) account_lookup) ds"
    using Cons.IH Cons.prems(2) by (auto split: option.splits if_splits)
  with d Cons.prems(1) [of "d # ds"] show ?case by simp
qed simp

lemma decode_chars_None:
  "decode_chars cs n = None \<longleftrightarrow> (\<exists>k < length cs. cs ! k = CHR 0x00 \<and> set (take k cs) \<subseteq> set account_lookup)"
proof (induction cs arbitrary: n)
  case (Cons c cs)
  have split: "(\<exists>k < length (c # cs). (c # cs) ! k = CHR 0x00 \<and> set (take k (c # cs)) \<subseteq> set account_lookup) \<longleftrightarrow>
      c = CHR 0x00 \<or> c \<in> set account_lookup \<and> (\<exists>k < length cs. cs ! k = CHR 0x00 \<and> set (take k cs) \<subseteq> set account_lookup)"
    by (auto simp: Ex_less_Suc2)
  show ?case
    unfolding split
  proof (cases c rule: AccountCharDecode_cases)
    case (3 d)
    then have "c \<in> set account_lookup" "(of_nat d :: u8) \<noteq> 0xff"
      using account_chars(3) by (auto simp: word_eq_iff_unat unat_of_nat)
    moreover from this(1) have "c \<noteq> CHR 0x00" using account_chars(4) by blast
    ultimately have "c \<in> set account_lookup" "c \<noteq> CHR 0x00" "(of_nat d :: u8) \<noteq> 0xff" by simp_all
    with 3 Cons.IH show "decode_chars (c # cs) n = None \<longleftrightarrow> c = CHR 0x00 \<or> c \<in> set account_lookup \<and>
        (\<exists>k < length cs. cs ! k = CHR 0x00 \<and> set (take k cs) \<subseteq> set account_lookup)" by simp
  qed (use AccountCharDecode_0 in auto)
qed simp

section \<open>Reading undoes writing\<close>

definition account_number :: "(bytes \<Rightarrow> 40 word) \<Rightarrow> u256 \<Rightarrow> nat" where
  "account_number check a = unat a * 2 ^ 40 + unat (check (Write a))"

lemma account_number_bound: "account_number check a < 2 * 32 ^ 59"
proof -
  have "unat a + 1 \<le> 2 ^ 256" "unat (check (Write a)) < 2 ^ 40" using unat_less [of a] unat_less [of "check (Write a)"] by simp_all
  then have "account_number check a < (unat a + 1) * 2 ^ 40" by (simp add: account_number_def)
  also have "\<dots> \<le> 2 ^ 256 * 2 ^ 40" using \<open>unat a + 1 \<le> 2 ^ 256\<close> by (rule mult_right_mono) simp
  finally show ?thesis by simp
qed

lemma EncodeAccount_digits:
  "EncodeAccount check a = ''rai_'' @ map ((!) account_lookup) (rev (digits 60 (account_number check a)))"
proof -
  have "or (push_bit 40 (ucast a :: u512)) (ucast (check (Write a))) = of_nat (account_number check a)"
  proof -
    have v: "take_bit 40 (unat (check (Write a))) = unat (check (Write a))"
      using unat_less [of "check (Write a)"] by (simp add: take_bit_eq_mod)
    have "and (push_bit 40 (unat a)) (unat (check (Write a))) = 0"
      by (rule bit_eqI) (subst v [symmetric], auto simp: bit_and_iff bit_push_bit_iff bit_take_bit_iff)
    then have "or (push_bit 40 (unat a)) (unat (check (Write a))) = account_number check a"
      by (simp add: disjunctive_add_eq_or [symmetric] push_bit_eq_mult account_number_def)
    moreover have "(ucast x :: u512) = of_nat (unat x)" for x :: "'a::len word" by (simp add: unsigned_of_nat)
    ultimately show ?thesis by (metis of_nat_or_eq of_nat_push_bit)
  qed
  moreover have "account_number check a < 2 ^ 512" using account_number_bound [of check a] by (rule less_trans) simp
  ultimately show ?thesis by (simp add: EncodeAccount_def encode_chars_digits rev_map)
qed

lemma account_char_eq: "d < 32 \<Longrightarrow> e < 32 \<Longrightarrow> account_lookup ! d = account_lookup ! e \<longleftrightarrow> d = e"
  using account_chars(2,3) by (simp add: nth_eq_iff_index_eq)

lemma account_char_first: "d < 32 \<Longrightarrow> account_lookup ! d = CHR ''1'' \<or> account_lookup ! d = CHR ''3'' \<longleftrightarrow> d < 2"
proof -
  have "account_lookup ! 0 = CHR ''1''" "account_lookup ! 1 = CHR ''3''" by (simp_all add: account_lookup_def)
  then show "d < 32 \<Longrightarrow> account_lookup ! d = CHR ''1'' \<or> account_lookup ! d = CHR ''3'' \<longleftrightarrow> d < 2"
    using account_char_eq [of d 0] account_char_eq [of d 1] by auto
qed

lemma number_parts:
  assumes "n < 2 ^ 296"
  shows "unat (ucast (drop_bit 40 (of_nat n :: u512)) :: u256) = n div 2 ^ 40"
    "unat (ucast (and (of_nat n :: u512) 0xffffffffff) :: u64) = n mod 2 ^ 40"
proof -
  have n: "unat (of_nat n :: u512) = n" using assms by (simp add: unat_of_nat)
  have "n div 2 ^ 40 < 2 ^ 256" using assms by (simp add: less_mult_imp_div_less)
  then show "unat (ucast (drop_bit 40 (of_nat n :: u512)) :: u256) = n div 2 ^ 40"
    using n by (subst unat_ucast_down) (simp_all add: unat_drop_bit_eq drop_bit_eq_div unat_div_distrib)
  have "(0xffffffffff :: u512) = mask 40" by (simp add: mask_eq_exp_minus_1)
  then have "unat (and (of_nat n :: u512) 0xffffffffff) = n mod 2 ^ 40"
    using n by (metis take_bit_eq_mask take_bit_eq_mod unsigned_take_bit_eq)
  then show "unat (ucast (and (of_nat n :: u512) 0xffffffffff) :: u64) = n mod 2 ^ 40"
    by (subst unat_ucast_down) simp_all
qed

lemma Decode_number:
  assumes "n < 2 ^ 296" "number = (of_nat n :: u512)" "u = (ucast (drop_bit 40 number) :: u256)"
  shows "(ucast (and number 0xffffffffff) :: u64) = ucast (check (Write u)) \<longleftrightarrow> n = account_number check u"
proof -
  have "unat u = n div 2 ^ 40" "unat (ucast (and number 0xffffffffff) :: u64) = n mod 2 ^ 40"
    using number_parts [OF assms(1)] assms(2,3) by simp_all
  moreover have "n = n div 2 ^ 40 * 2 ^ 40 + n mod 2 ^ 40" by simp
  ultimately have "n mod 2 ^ 40 = unat (check (Write u)) \<longleftrightarrow> n = account_number check u"
    unfolding account_number_def by (metis add_left_cancel)
  with \<open>unat (ucast (and number 0xffffffffff) :: u64) = _\<close> show ?thesis
    by (simp only: word_eq_iff_unat) (simp add: unat_ucast_up)
qed

lemma last_digits: "last (digits (Suc k) n) = n div 32 ^ k mod 32"
proof (induction k arbitrary: n)
  case (Suc k)
  have "last (digits (Suc (Suc k)) n) = last (digits (Suc k) (n div 32))" by simp
  also have "\<dots> = n div 32 div 32 ^ k mod 32" by (rule Suc)
  finally show ?case by (simp add: div_mult2_eq)
qed simp

lemma DecodeAccount_exact: "DecodeAccount check s = Decoded a \<longleftrightarrow> s = EncodeAccount check a"
proof
  let ?n = "account_number check a"
  let ?ds = "rev (digits 60 ?n)"
  assume s: "s = EncodeAccount check a"
  then have s': "s = ''rai_'' @ map ((!) account_lookup) ?ds" by (simp add: EncodeAccount_digits)
  have ds: "list_all (\<lambda>d. d < 32) ?ds" "length ?ds = 60" by (simp_all add: list_all_iff digits_basic)
  have bound: "?n < 2 ^ 296" using account_number_bound [of check a] by simp
  then have val: "number_of ?ds = ?n" by (simp add: number_of_digits)
  have "hd ?ds = ?n div 32 ^ 59 mod 32" using last_digits [of 59 ?n] by (simp add: hd_rev)
  moreover have "?n div 32 ^ 59 < 2" using account_number_bound [of check a] by (simp add: less_mult_imp_div_less)
  ultimately have hd: "hd ?ds < 2" by simp
  have "s ! 4 = account_lookup ! hd ?ds" using ds(2) by (cases ?ds) (simp_all add: s')
  moreover have "hd ?ds < 32" using hd by simp
  ultimately have "s ! 4 = CHR ''1'' \<or> s ! 4 = CHR ''3''" using account_char_first hd by simp
  moreover have "decode_chars (drop 4 s) 0 = Some (Some (of_nat ?n))"
    using decode_chars_digits [OF ds(1), of 0] val by (simp add: s' number_of_def)
  moreover have "(ucast (drop_bit 40 (of_nat ?n :: u512)) :: u256) = a"
    using number_parts(1) [OF bound] unat_less [of "check (Write a)"] by (simp add: word_eq_iff_unat account_number_def)
  ultimately show "DecodeAccount check s = Decoded a"
    using Decode_number [OF bound refl refl, of check] ds(2) by (auto simp: DecodeAccount_def s' Let_def)
next
  assume dec: "DecodeAccount check s = Decoded a"
  then obtain m where m: "length s = 64" "take 4 s = ''rai_''" "s ! 4 = CHR ''1'' \<or> s ! 4 = CHR ''3''"
      "decode_chars (drop 4 s) 0 = Some (Some m)" and a: "a = ucast (drop_bit 40 m)"
      "(ucast (and m 0xffffffffff) :: u64) = ucast (check (Write a))"
    by (auto simp: DecodeAccount_def Let_def split: option.splits if_splits)
  obtain ds where ds: "list_all (\<lambda>d. d < 32) ds" "drop 4 s = map ((!) account_lookup) ds"
    by (rule decode_chars_only [OF m(4)])
  have len: "length ds = 60" using arg_cong [OF ds(2), of length] m(1) by simp
  then obtain d r where d: "ds = d # r" "d < 32" "length r = 59" "list_all (\<lambda>d. d < 32) r" using ds(1) by (cases ds) auto
  have s: "s = ''rai_'' @ map ((!) account_lookup) ds" using m(2) ds(2) append_take_drop_id [of 4 s] by simp
  have "s ! 4 = account_lookup ! d" by (simp add: s d(1))
  with m(3) have "d < 2" using account_char_first [OF d(2)] by simp
  let ?n = "number_of ds"
  have "number_of r + 1 \<le> 32 ^ 59" using number_of_bound [OF d(4)] d(3) by simp
  moreover have "d * 32 ^ 59 \<le> 1 * 32 ^ 59" using \<open>d < 2\<close> by (intro mult_right_mono) simp_all
  ultimately have bound: "?n < 2 ^ 296" using d(3) by (simp add: d(1) number_of_Cons)
  have n: "m = of_nat ?n" using m(4) decode_chars_digits [OF ds(1), of 0] ds(2) by (simp add: number_of_def)
  have "?n = account_number check a" using Decode_number [OF bound n a(1), of check] a(2) by simp
  moreover have "digits 60 ?n = rev ds" using digits_number_of [of "rev ds"] ds(1) len by simp
  ultimately show "s = EncodeAccount check a" by (simp add: EncodeAccount_digits s)
qed

text \<open>A character 0 that is reached is looked up before the table.\<close>

lemma DecodeAccount_out_of_bounds:
  "DecodeAccount check s = Out_Of_Bounds \<longleftrightarrow>
     length s = 64 \<and> take 4 s = ''rai_'' \<and> (s ! 4 = CHR ''1'' \<or> s ! 4 = CHR ''3'') \<and>
     (\<exists>k. 4 < k \<and> k < 64 \<and> s ! k = CHR 0x00 \<and> set (drop 4 (take k s)) \<subseteq> set account_lookup)"
proof -
  have shift: "(\<exists>k < length (drop 4 s). drop 4 s ! k = CHR 0x00 \<and> set (take k (drop 4 s)) \<subseteq> set account_lookup) \<longleftrightarrow>
      (\<exists>k. 4 < k \<and> k < 64 \<and> s ! k = CHR 0x00 \<and> set (drop 4 (take k s)) \<subseteq> set account_lookup)" (is "?L \<longleftrightarrow> ?R")
    if s: "length s = 64" "s ! 4 = CHR ''1'' \<or> s ! 4 = CHR ''3''"
  proof
    assume ?L
    then obtain k where k: "k < 60" "s ! (4 + k) = CHR 0x00" "set (take k (drop 4 s)) \<subseteq> set account_lookup" using s(1) by auto
    then have "k \<noteq> 0" using s(2) by (cases k) auto
    with k show ?R by (intro exI [of _ "4 + k"]) (simp add: drop_take)
  next
    assume ?R
    then obtain k where k: "4 < k" "k < 64" "s ! k = CHR 0x00" "set (drop 4 (take k s)) \<subseteq> set account_lookup" by blast
    with s(1) show ?L by (intro exI [of _ "k - 4"]) (simp add: drop_take)
  qed
  have "DecodeAccount check s = Out_Of_Bounds \<longleftrightarrow>
      length s = 64 \<and> take 4 s = ''rai_'' \<and> (s ! 4 = CHR ''1'' \<or> s ! 4 = CHR ''3'') \<and> decode_chars (drop 4 s) 0 = None"
    by (auto simp: DecodeAccount_def Let_def split: option.splits)
  with shift decode_chars_None show ?thesis by blast
qed

end
