(* ===== verification/Utf8.thy ===== *)
theory Utf8
  imports Streams
begin

text \<open>
  The check of UTF-8 strings, \<open>CheckUtf8\<close> of \<open>rai/common/util.cpp\<close>, and the encoding that it accepts: exactly the
  sequences of the shortest encodings of Unicode scalar values.
\<close>

section \<open>The check\<close>

text \<open>The number of units that a first byte announces, and the bits it contributes.\<close>

definition utf8_lead :: "u8 \<Rightarrow> (nat \<times> u32) option" where
  "utf8_lead byte =
     (if and byte 0x80 = 0 then Some (1, ucast (and byte 0x7F))
      else if and byte 0xE0 = 0xC0 then Some (2, ucast (and byte 0x1F))
      else if and byte 0xF0 = 0xE0 then Some (3, ucast (and byte 0x0F))
      else if and byte 0xF8 = 0xF0 then Some (4, ucast (and byte 0x07))
      else None)"

fun utf8_continue :: "nat \<Rightarrow> u32 \<Rightarrow> bytes \<Rightarrow> (u32 \<times> bytes) option" where
  "utf8_continue 0 code_point s = Some (code_point, s)"
| "utf8_continue (Suc n) code_point s = (case s of
     [] \<Rightarrow> None
   | byte # s' \<Rightarrow>
       if and byte 0xC0 \<noteq> 0x80 then None
       else utf8_continue n (or (push_bit 6 code_point) (ucast (and byte 0x3F))) s')"

definition utf8_bad :: "u32 \<Rightarrow> nat \<Rightarrow> bool" where
  "utf8_bad code_point units \<longleftrightarrow>
     code_point > 0x10FFFF \<or> code_point \<ge> 0xD800 \<and> code_point \<le> 0xDFFF \<or>
     code_point \<le> 0x007F \<and> units \<noteq> 1 \<or>
     code_point \<ge> 0x0080 \<and> code_point \<le> 0x07FF \<and> units \<noteq> 2 \<or>
     code_point \<ge> 0x0800 \<and> code_point \<le> 0xFFFF \<and> units \<noteq> 3 \<or>
     code_point \<ge> 0x10000 \<and> units \<noteq> 4"

definition utf8_control :: "u32 \<Rightarrow> bool" where
  "utf8_control code_point \<longleftrightarrow> code_point < 0x20 \<or> code_point \<ge> 0x7F \<and> code_point \<le> 0x9F"

lemma utf8_continue_length: "utf8_continue n c s = Some (c', s') \<Longrightarrow> length s' \<le> length s"
  by (induction n c s rule: utf8_continue.induct) (fastforce split: list.splits if_splits)+

text \<open>The result is the error flag with \<open>ctrl\<close>.\<close>

function CheckUtf8_loop :: "bytes \<Rightarrow> bool \<Rightarrow> bool \<times> bool" where
  "CheckUtf8_loop [] ctrl = (False, ctrl)"
| "CheckUtf8_loop (byte # s) ctrl = (case utf8_lead byte of
     None \<Rightarrow> (True, ctrl)
   | Some (units, code_point) \<Rightarrow>
       (case utf8_continue (units - 1) code_point s of
          None \<Rightarrow> (True, ctrl)
        | Some (code_point, s') \<Rightarrow>
            if utf8_bad code_point units then (True, ctrl)
            else CheckUtf8_loop s' (if utf8_control code_point then True else ctrl)))"
  by pat_completeness auto
termination
  by (relation "measure (length \<circ> fst)") (auto dest: utf8_continue_length)

definition CheckUtf8 :: "bytes \<Rightarrow> bool \<times> bool" where
  "CheckUtf8 bs = CheckUtf8_loop bs False"

section \<open>The encoding\<close>

definition scalar :: "nat \<Rightarrow> bool" where
  "scalar c \<longleftrightarrow> c \<le> 0x10FFFF \<and> \<not> (0xD800 \<le> c \<and> c \<le> 0xDFFF)"

definition control :: "nat \<Rightarrow> bool" where
  "control c \<longleftrightarrow> c < 0x20 \<or> 0x7F \<le> c \<and> c \<le> 0x9F"

definition code_units :: "nat \<Rightarrow> nat list" where
  "code_units c =
     (if c < 0x80 then [c]
      else if c < 0x800 then [192 + c div 64, 128 + c mod 64]
      else if c < 0x10000 then [224 + c div 4096, 128 + c div 64 mod 64, 128 + c mod 64]
      else [240 + c div 262144, 128 + c div 4096 mod 64, 128 + c div 64 mod 64, 128 + c mod 64])"

definition utf8_encode :: "nat \<Rightarrow> bytes" where
  "utf8_encode c = map of_nat (code_units c)"

lemma unat_utf8_encode: "scalar c \<Longrightarrow> map unat (utf8_encode c) = code_units c"
proof -
  assume "scalar c"
  then have "c < 1114112" by (simp add: scalar_def)
  then have "\<forall>n \<in> set (code_units c). n < 256" by (auto simp: code_units_def less_mult_imp_div_less intro: less_trans [OF mod_less_divisor])
  then show ?thesis by (simp add: utf8_encode_def map_idI unat_of_nat)
qed

section \<open>Bytes as numbers\<close>

lemma u8_all: "list_all (\<lambda>n. P (of_nat n :: u8)) [0..<256] \<Longrightarrow> P b"
proof -
  assume all: "list_all (\<lambda>n. P (of_nat n :: u8)) [0..<256]"
  have "unat b \<in> set [0..<256]" using unat_u8_less [of b] by simp
  with all have "P (of_nat (unat b))" unfolding list_all_iff by blast
  then show "P b" by (simp only: of_nat_unat ucast_id)
qed

definition lead_nat :: "nat \<Rightarrow> (nat \<times> nat) option" where
  "lead_nat n =
     (if n < 128 then Some (1, n) else if n < 192 then None else if n < 224 then Some (2, n - 192)
      else if n < 240 then Some (3, n - 224) else if n < 248 then Some (4, n - 240) else None)"

lemma utf8_lead_nat: "utf8_lead b = map_option (\<lambda>(k, c). (k, of_nat c)) (lead_nat (unat b))"
proof -
  have "list_all (\<lambda>n. utf8_lead (of_nat n) = map_option (\<lambda>(k, c). (k, of_nat c)) (lead_nat (unat (of_nat n :: u8)))) [0..<256]"
    by code_simp
  then show ?thesis by (rule u8_all)
qed

lemma continuation:
  "and b 0xC0 = (0x80 :: u8) \<longleftrightarrow> 128 \<le> unat b \<and> unat b < 192" "(ucast (and b 0x3F :: u8) :: u32) = of_nat (unat b mod 64)"
proof -
  have "list_all (\<lambda>n. (and (of_nat n) 0xC0 = (0x80 :: u8)) = (128 \<le> unat (of_nat n :: u8) \<and> unat (of_nat n :: u8) < 192)) [0..<256]"
    by code_simp
  then show "and b 0xC0 = 0x80 \<longleftrightarrow> 128 \<le> unat b \<and> unat b < 192" by (rule u8_all)
  have "list_all (\<lambda>n. (ucast (and (of_nat n) 0x3F :: u8) :: u32) = of_nat (unat (of_nat n :: u8) mod 64)) [0..<256]" by code_simp
  then show "(ucast (and b 0x3F) :: u32) = of_nat (unat b mod 64)" by (rule u8_all)
qed

lemma shift_in:
  assumes "v < 64"
  shows "or (push_bit 6 (of_nat c :: u32)) (of_nat v) = of_nat (c * 64 + v)"
proof -
  have v: "take_bit 6 v = v" using assms by (simp add: take_bit_eq_mod)
  have "and (push_bit 6 c) v = 0"
    by (rule bit_eqI) (subst v [symmetric], auto simp: bit_and_iff bit_push_bit_iff bit_take_bit_iff)
  then have "or (push_bit 6 c) v = push_bit 6 c + v" by (simp add: disjunctive_add_eq_or)
  then have "or (push_bit 6 c) v = c * 64 + v" by (simp add: push_bit_eq_mult)
  then show ?thesis by (metis of_nat_or_eq of_nat_push_bit)
qed

definition continues :: "nat list \<Rightarrow> bool" where
  "continues ns \<longleftrightarrow> list_all (\<lambda>n. 128 \<le> n \<and> n < 192) ns"

definition collect :: "nat \<Rightarrow> nat list \<Rightarrow> nat" where
  "collect c ns = foldl (\<lambda>c n. c * 64 + n mod 64) c ns"

lemma utf8_continue_nat:
  "utf8_continue k (of_nat c) s =
     (if k \<le> length s \<and> continues (take k (map unat s))
      then Some (of_nat (collect c (take k (map unat s))), drop k s) else None)"
proof (induction k arbitrary: c s)
  case (Suc k)
  then show ?case
    by (cases s) (simp_all add: continues_def collect_def continuation shift_in del: of_nat_add of_nat_mult)
qed (simp add: continues_def collect_def)

section \<open>One scalar value\<close>

definition utf8_first :: "bytes \<Rightarrow> (u32 \<times> bytes) option" where
  "utf8_first s = (case s of [] \<Rightarrow> None | byte # s \<Rightarrow>
     (case utf8_lead byte of None \<Rightarrow> None
      | Some (units, code_point) \<Rightarrow> (case utf8_continue (units - 1) code_point s of None \<Rightarrow> None
         | Some (code_point, s') \<Rightarrow> if utf8_bad code_point units then None else Some (code_point, s'))))"

lemma utf8_bad_nat:
  "c < 2 ^ 32 \<Longrightarrow> utf8_bad (of_nat c) units \<longleftrightarrow>
     \<not> scalar c \<or> units \<noteq> (if c < 0x80 then 1 else if c < 0x800 then 2 else if c < 0x10000 then 3 else 4)"
  by (auto simp: utf8_bad_def scalar_def word_le_nat_alt word_less_nat_alt unat_of_nat)

definition first_nat :: "nat list \<Rightarrow> (nat \<times> nat) option" where
  "first_nat ns = (case ns of [] \<Rightarrow> None | n # ns \<Rightarrow>
     (case lead_nat n of None \<Rightarrow> None
      | Some (k, c) \<Rightarrow>
          if k - 1 \<le> length ns \<and> continues (take (k - 1) ns) \<and> scalar (collect c (take (k - 1) ns)) \<and>
            length (code_units (collect c (take (k - 1) ns))) = k
          then Some (collect c (take (k - 1) ns), k) else None))"

lemma collect_bound: "length ns \<le> 3 \<Longrightarrow> c < 128 \<Longrightarrow> collect c ns < 2 ^ 32"
  by (cases ns; cases "tl ns"; cases "tl (tl ns)"; cases "tl (tl (tl ns))") (auto simp: collect_def)

lemma utf8_first_nat:
  "utf8_first s = map_option (\<lambda>(c, k). (of_nat c, drop k s)) (first_nat (map unat s))"
proof (cases s)
  case (Cons b r)
  show ?thesis
  proof (cases "lead_nat (unat b)")
    case (Some kc)
    then obtain k c where kc: "lead_nat (unat b) = Some (k, c)" by (cases kc) auto
    then have k: "1 \<le> k" "k \<le> 4" "c < 128" by (auto simp: lead_nat_def split: if_splits)
    let ?c = "collect c (take (k - 1) (map unat r))"
    have "?c < 2 ^ 32" by (rule collect_bound) (use k in auto)
    then have "utf8_bad (of_nat ?c) k \<longleftrightarrow> \<not> (scalar ?c \<and> length (code_units ?c) = k)"
      by (auto simp: utf8_bad_nat code_units_def)
    with Cons kc k(1) show ?thesis
      by (cases k) (simp_all add: utf8_first_def first_nat_def utf8_lead_nat utf8_continue_nat)
  qed (simp add: Cons utf8_first_def first_nat_def utf8_lead_nat)
qed (simp add: utf8_first_def first_nat_def)

lemma mod_128: "(128 + x) mod 64 = x mod (64 :: nat)"
  using mod_mult_self4 [of 64 2 x] by simp

lemma join_64: "c div 64 * 64 + (128 + c mod 64) mod 64 = (c :: nat)"
proof -
  have "(128 + c mod 64) mod 64 = c mod 64" unfolding mod_128 by simp
  then show ?thesis by simp
qed

lemma collect_units:
  "collect (c div 64) [128 + c mod 64] = c"
  "collect (c div 4096) [128 + c div 64 mod 64, 128 + c mod 64] = c"
  "collect (c div 262144) [128 + c div 4096 mod 64, 128 + c div 64 mod 64, 128 + c mod 64] = c"
proof -
  have d: "c div 4096 = c div 64 div 64" "c div 262144 = c div 64 div 64 div 64" by (simp_all add: div_mult2_eq [symmetric])
  show "collect (c div 64) [128 + c mod 64] = c" "collect (c div 4096) [128 + c div 64 mod 64, 128 + c mod 64] = c"
    "collect (c div 262144) [128 + c div 4096 mod 64, 128 + c div 64 mod 64, 128 + c mod 64] = c"
    unfolding collect_def foldl.simps d join_64 by (rule refl)+
qed

lemma split_64: "x < 64 \<Longrightarrow> (q * 64 + x) div 64 = (q :: nat)" "x < 64 \<Longrightarrow> (q * 64 + x) mod 64 = x"
  by simp_all

lemma units_of_collect:
  assumes "length (code_units (collect q ns)) = Suc (length ns)" "continues ns" "ns \<noteq> []"
  shows "code_units (collect q ns) = (case ns of [_] \<Rightarrow> 192 + q | [_, _] \<Rightarrow> 224 + q | _ \<Rightarrow> 240 + q) # ns"
proof -
  have unit: "\<exists>x < 64. n = 128 + x" if "n \<in> set ns" for n
  proof -
    have "128 \<le> n \<and> n < 192" using assms(2) that by (simp add: continues_def list_all_iff)
    then show ?thesis by (auto dest!: le_Suc_ex)
  qed
  have d: "c div 4096 = c div 64 div 64" "c div 262144 = c div 64 div 64 div 64" for c :: nat
    by (simp_all add: div_mult2_eq [symmetric])
  have "length (code_units (collect q ns)) \<le> 4" by (simp add: code_units_def)
  with assms(1) have "length ns \<le> 3" by simp
  with assms(3) consider n where "ns = [n]" | n m where "ns = [n, m]" | n m r where "ns = [n, m, r]"
    by (cases ns; cases "tl ns"; cases "tl (tl ns)"; cases "tl (tl (tl ns))") auto
  then show ?thesis
  proof cases
    case 1
    obtain x where "x < 64" "n = 128 + x" using unit [of n] 1 by auto
    with 1 assms(1) show ?thesis
      by (simp add: collect_def code_units_def mod_128 split_64 split: if_splits)
  next
    case 2
    obtain x y where "x < 64" "n = 128 + x" "y < 64" "m = 128 + y" using unit [of n] unit [of m] 2 by auto
    moreover define c where "c = (q * 64 + x) * 64 + y"
    ultimately have "c div 64 = q * 64 + x" "c mod 64 = y" "collect q ns = c"
      using 2 by (simp_all only: split_64 collect_def foldl.simps mod_128 mod_less)
    with 2 assms(1) \<open>x < 64\<close> \<open>n = _\<close> \<open>m = _\<close> show ?thesis by (simp add: code_units_def split_64 d split: if_splits)
  next
    case 3
    obtain x y z where "x < 64" "n = 128 + x" "y < 64" "m = 128 + y" "z < 64" "r = 128 + z"
      using unit [of n] unit [of m] unit [of r] 3 by auto
    moreover define c where "c = ((q * 64 + x) * 64 + y) * 64 + z"
    ultimately have "c div 64 = (q * 64 + x) * 64 + y" "c mod 64 = z" "collect q ns = c"
      using 3 by (simp_all only: split_64 collect_def foldl.simps mod_128 mod_less)
    moreover have "((q * 64 + x) * 64 + y) div 64 = q * 64 + x" "((q * 64 + x) * 64 + y) mod 64 = y"
      using \<open>y < 64\<close> by (simp_all only: split_64)
    ultimately show ?thesis
      using 3 assms(1) \<open>x < 64\<close> \<open>n = _\<close> \<open>m = _\<close> \<open>r = _\<close> by (simp add: code_units_def split_64 d split: if_splits)
  qed
qed

lemma continues_units: "continues [128 + a mod 64]" "continues [128 + a mod 64, 128 + b mod 64]"
  "continues [128 + a mod 64, 128 + b mod 64, 128 + d mod 64]"
proof -
  have "x mod 64 < 64" for x :: nat by simp
  then show "continues [128 + a mod 64]" "continues [128 + a mod 64, 128 + b mod 64]"
    "continues [128 + a mod 64, 128 + b mod 64, 128 + d mod 64]" by (simp_all add: continues_def)
qed

lemma first_nat_exact:
  "first_nat ns = Some (c, k) \<longleftrightarrow> scalar c \<and> k = length (code_units c) \<and> take k ns = code_units c"
proof
  assume "scalar c \<and> k = length (code_units c) \<and> take k ns = code_units c"
  then obtain r where ns: "ns = code_units c @ r" and c: "scalar c" "k = length (code_units c)" by (metis append_take_drop_id)
  have "c < 1114112" using c(1) by (simp add: scalar_def)
  then consider "c < 0x80" | "0x80 \<le> c" "c < 0x800" | "0x800 \<le> c" "c < 0x10000" | "0x10000 \<le> c" "c < 1114112" by linarith
  then show "first_nat ns = Some (c, k)"
  proof cases
    case 1
    with c show ?thesis by (simp add: ns first_nat_def code_units_def lead_nat_def continues_def collect_def)
  next
    case 2
    then have "lead_nat (192 + c div 64) = Some (2, c div 64)" by (simp add: lead_nat_def less_mult_imp_div_less)
    with 2 c show ?thesis by (simp add: ns first_nat_def code_units_def continues_units collect_units)
  next
    case 3
    then have "lead_nat (224 + c div 4096) = Some (3, c div 4096)" by (simp add: lead_nat_def less_mult_imp_div_less)
    with 3 c show ?thesis by (simp add: ns first_nat_def code_units_def continues_units collect_units)
  next
    case 4
    then have "lead_nat (240 + c div 262144) = Some (4, c div 262144)" by (simp add: lead_nat_def less_mult_imp_div_less)
    with 4 c show ?thesis by (simp add: ns first_nat_def code_units_def continues_units collect_units)
  qed
next
  assume first: "first_nat ns = Some (c, k)"
  then obtain n r c0 where ns: "ns = n # r" and lead: "lead_nat n = Some (k, c0)" and r: "k - 1 \<le> length r"
    "continues (take (k - 1) r)" "scalar c" "length (code_units c) = k" "c = collect c0 (take (k - 1) r)"
    by (auto simp: first_nat_def split: list.splits option.splits if_splits)
  from lead consider "n < 128" "k = 1" "c0 = n" | "192 \<le> n" "n < 224" "k = 2" "c0 = n - 192"
    | "224 \<le> n" "n < 240" "k = 3" "c0 = n - 224" | "240 \<le> n" "n < 248" "k = 4" "c0 = n - 240"
    by (auto simp: lead_nat_def split: if_splits)
  then have "take k ns = code_units c"
  proof cases
    case 1
    with r(5) show ?thesis by (simp add: ns collect_def code_units_def)
  next
    case 2
    with r(1) obtain m r' where "r = m # r'" by (cases r) auto
    with 2 r(2,4,5) units_of_collect [of c0 "[m]"] show ?thesis by (simp add: ns)
  next
    case 3
    with r(1) obtain m r' where m: "r = m # r'" by (cases r) auto
    with 3 r(1) obtain m2 r2 where "r' = m2 # r2" by (cases r') auto
    with m 3 r(2,4,5) units_of_collect [of c0 "[m, m2]"] show ?thesis by (simp add: ns eval_nat_numeral)
  next
    case 4
    with r(1) obtain m r' where m: "r = m # r'" by (cases r) auto
    with 4 r(1) obtain m2 r2 where m2: "r' = m2 # r2" by (cases r') auto
    with m 4 r(1) obtain m3 r3 where "r2 = m3 # r3" by (cases r2) auto
    with m m2 4 r(2,4,5) units_of_collect [of c0 "[m, m2, m3]"] show ?thesis by (simp add: ns eval_nat_numeral)
  qed
  with r(3,4) show "scalar c \<and> k = length (code_units c) \<and> take k ns = code_units c" by blast
qed

lemma utf8_first_exact:
  "utf8_first s = Some (cp, s') \<longleftrightarrow> (\<exists>c. scalar c \<and> cp = of_nat c \<and> s = utf8_encode c @ s')"
proof
  assume "utf8_first s = Some (cp, s')"
  then obtain c k where c: "scalar c" "k = length (code_units c)" "take k (map unat s) = code_units c" "cp = of_nat c" "s' = drop k s"
    unfolding utf8_first_nat by (auto simp: first_nat_exact)
  have "utf8_encode c = take k s"
    unfolding utf8_encode_def c(3) [symmetric] by (simp add: take_map map_idI)
  with c show "\<exists>c. scalar c \<and> cp = of_nat c \<and> s = utf8_encode c @ s'" by (metis append_take_drop_id)
next
  assume "\<exists>c. scalar c \<and> cp = of_nat c \<and> s = utf8_encode c @ s'"
  then obtain c where c: "scalar c" "cp = of_nat c" "s = utf8_encode c @ s'" by blast
  have "length (utf8_encode c) = length (code_units c)" by (simp add: utf8_encode_def)
  with c have "first_nat (map unat s) = Some (c, length (code_units c))"
    unfolding first_nat_exact by (simp add: unat_utf8_encode)
  with c \<open>length (utf8_encode c) = _\<close> show "utf8_first s = Some (cp, s')" by (simp add: utf8_first_nat)
qed

lemma utf8_encode_not_Nil: "utf8_encode c \<noteq> []"
  by (simp add: utf8_encode_def code_units_def)

lemma utf8_encode_unique:
  assumes "scalar c" "scalar d" "utf8_encode c @ s = utf8_encode d @ t"
  shows "c = d \<and> s = t"
proof -
  have "utf8_first (utf8_encode c @ s) = Some (of_nat c, s)" "utf8_first (utf8_encode d @ t) = Some (of_nat d, t)"
    using assms by (auto simp: utf8_first_exact)
  with assms(3) have same: "(of_nat c :: u32) = of_nat d" "s = t" by simp_all
  then have "unat (of_nat c :: u32) = unat (of_nat d :: u32)" by simp
  with assms(1,2) same(2) show ?thesis by (simp add: scalar_def unat_of_nat)
qed

section \<open>Strings\<close>

lemma utf8_control_nat: "scalar c \<Longrightarrow> utf8_control (of_nat c) = control c"
  by (auto simp: utf8_control_def control_def scalar_def word_le_nat_alt word_less_nat_alt unat_of_nat)

lemma CheckUtf8_loop_step:
  "CheckUtf8_loop (b # s) ctrl = (case utf8_first (b # s) of None \<Rightarrow> (True, ctrl)
     | Some (cp, s') \<Rightarrow> CheckUtf8_loop s' (ctrl \<or> utf8_control cp))"
  by (auto simp: utf8_first_def split: option.split)

declare CheckUtf8_loop.simps(2) [simp del]

lemma CheckUtf8_loop_exact:
  "CheckUtf8_loop s ctrl = (False, ctrl') \<longleftrightarrow>
     (\<exists>cs. list_all scalar cs \<and> s = concat (map utf8_encode cs) \<and> ctrl' = (ctrl \<or> list_ex control cs))"
proof (induction "length s" arbitrary: s ctrl rule: less_induct)
  case less
  show ?case
  proof (cases s)
    case Nil
    have "concat (map utf8_encode cs) = [] \<longleftrightarrow> cs = []" for cs by (cases cs) (simp_all add: utf8_encode_not_Nil)
    with Nil show ?thesis by auto
  next
    case (Cons b r)
    let ?R = "\<lambda>cs. list_all scalar cs \<and> s = concat (map utf8_encode cs) \<and> ctrl' = (ctrl \<or> list_ex control cs)"
    have first: "cs \<noteq> [] \<and> utf8_first s = Some (of_nat (hd cs), concat (map utf8_encode (tl cs)))" if "?R cs" for cs
      using that Cons by (cases cs) (auto simp: utf8_first_exact)
    show ?thesis
    proof (cases "utf8_first s")
      case None
      have "\<not> ?R cs" for cs
      proof
        assume "?R cs"
        from first [OF this] None show False by simp
      qed
      with None Cons show ?thesis by (simp add: CheckUtf8_loop_step)
    next
      case (Some x)
      then obtain c s' where c: "scalar c" "utf8_first s = Some (of_nat c, s')" "s = utf8_encode c @ s'"
        by (cases x) (auto simp: utf8_first_exact)
      have "length s' < length s" using c(3) utf8_encode_not_Nil [of c] by simp
      note IH = less [OF this, of "ctrl \<or> control c"]
      have step: "CheckUtf8_loop s ctrl = CheckUtf8_loop s' (ctrl \<or> control c)"
        using c(1,2) unfolding Cons CheckUtf8_loop_step by (simp add: utf8_control_nat)
      show ?thesis
        unfolding step IH
      proof
        assume "\<exists>cs. list_all scalar cs \<and> s' = concat (map utf8_encode cs) \<and> ctrl' = ((ctrl \<or> control c) \<or> list_ex control cs)"
        then obtain cs where "list_all scalar cs" "s' = concat (map utf8_encode cs)" "ctrl' = ((ctrl \<or> control c) \<or> list_ex control cs)"
          by blast
        with c have "?R (c # cs)" by auto
        then show "\<exists>cs. ?R cs" by blast
      next
        assume "\<exists>cs. ?R cs"
        then obtain d cs where R: "?R (d # cs)" using first by (metis list.exhaust)
        then have "scalar d" "utf8_encode c @ s' = utf8_encode d @ concat (map utf8_encode cs)" using c(3) by simp_all
        then have "c = d" "s' = concat (map utf8_encode cs)" using utf8_encode_unique [OF c(1)] by blast+
        with R show "\<exists>cs. list_all scalar cs \<and> s' = concat (map utf8_encode cs) \<and> ctrl' = ((ctrl \<or> control c) \<or> list_ex control cs)"
          by auto
      qed
    qed
  qed
qed

end
