(* ===== verification/Extensions.thy ===== *)
theory Extensions
  imports Utf8 Errors Parameters
begin

text \<open>
  Extensions of blocks, \<open>rai/common/extensions.cpp\<close> with \<open>rai/common/token.hpp\<close> and \<open>rai/common/chain.hpp\<close>: the list of types
  and values that a block carries, and the token operations a value of type \<open>TOKEN\<close> holds, with their writers, readers and
  checks. The JSON forms are left out. A reader returns the rest of the stream; a check returns the code it fails with.
\<close>

section \<open>Codes and readers\<close>

text \<open>The codes of this file; \<open>Shared\<close> are those that other parts return as well.\<close>

datatype (plugins only: code) extension_code =
    Shared error_code
  | UNEXPECTED
  | EXTENSION_TYPE
  | EXTENSION_VALUE
  | EXTENSIONS_BROKEN_STREAM
  | EXTENSION_PARSE_UNKNOWN
  | UTF8_CHECK
  | UTF8_CONTROL_CHARACTER
  | ALIAS_OP_INVALID
  | ALIAS_OP_UNKNOWN
  | ALIAS_RESERVED_CHARACTOR_AT
  | ALIAS_RESERVED_CHARACTOR_UNDERSCORE
  | TOKEN_OP_INVALID
  | TOKEN_OP_UNKNOWN
  | TOKEN_TYPE_INVALID
  | TOKEN_TYPE_UNKNOWN
  | TOKEN_CHAIN_INVALID
  | TOKEN_VALUE
  | TOKEN_NAME_UTF8_CHECK
  | TOKEN_SYMBOL_UTF8_CHECK
  | TOKEN_BASE_URI_UTF8_CHECK
  | TOKEN_URI_UTF8_CHECK
  | TOKEN_CAP_SUPPLY_EXCEEDED
  | TOKEN_MINT_TO
  | TOKEN_SEND_TO
  | TOKEN_SOURCE_INVALID
  | TOKEN_SOURCE_UNKNOWN
  | TOKEN_BLOCK_HEIGHT
  | TOKEN_UNWRAP_CHAIN
  | TOKEN_UNMAP_CHAIN
  | TOKEN_UNMAP_TO
  | TOKEN_WRAP_CHAIN
  | TOKEN_WRAP_TO
  | TOKEN_SWAP_SUB_OP_INVALID
  | TOKEN_SWAP_SUB_OP_UNKNOWN
  | TOKEN_SWAP_PAIR_EQUAL
  | TOKEN_SWAP_VALUE_OFFER
  | TOKEN_SWAP_VALUE_WANT
  | TOKEN_SWAP_MAX_OFFER
  | TOKEN_SWAP_MIN_OFFER
  | TOKEN_SWAP_MAKER
  | TOKEN_SWAP_TAKER
  | TOKEN_SWAP_SHARE
  | TOKEN_SWAP_ORDER_HEIGHT
  | TOKEN_SWAP_ACK_HEIGHT
  | TOKEN_SWAP_INQUIRY_HEIGHT
  | TOKEN_SWAP_TRADE_HEIGHT
  | TOKEN_SWAP_TAKE_HEIGHT

text \<open>A read followed by \<open>IF_ERROR_RETURN\<close> with \<open>STREAM\<close>; a check followed by \<open>IF_NOT_SUCCESS_RETURN\<close>, where \<open>None\<close> is success.\<close>

definition READ_OR :: "('a \<times> bytes) option \<Rightarrow> ('a \<Rightarrow> bytes \<Rightarrow> extension_code + 'b) \<Rightarrow> extension_code + 'b" where
  "READ_OR r k = (case r of None \<Rightarrow> Inl (Shared STREAM) | Some (x, s) \<Rightarrow> k x s)"

definition PARSE :: "extension_code + 'a \<times> bytes \<Rightarrow> ('a \<Rightarrow> bytes \<Rightarrow> extension_code + 'b) \<Rightarrow> extension_code + 'b" where
  "PARSE r k = (case r of Inl c \<Rightarrow> Inl c | Inr (x, s) \<Rightarrow> k x s)"

definition CHECKED :: "extension_code option \<Rightarrow> 'a \<times> bytes \<Rightarrow> extension_code + 'a \<times> bytes" where
  "CHECKED c r = (case c of None \<Rightarrow> Inr r | Some code \<Rightarrow> Inl code)"

definition THEN_CHECK :: "extension_code option \<Rightarrow> extension_code option \<Rightarrow> extension_code option" where
  "THEN_CHECK c d = (case c of None \<Rightarrow> d | Some code \<Rightarrow> Some code)"

text \<open>Strings have a length of one byte; a longer one is cut where it is still UTF-8.\<close>

function trim_utf8 :: "bytes \<Rightarrow> bytes" where
  "trim_utf8 s = (if s \<noteq> [] \<and> fst (CheckUtf8 s) then trim_utf8 (butlast s) else s)"
  by pat_completeness auto
termination by (relation "measure length") auto

declare trim_utf8.simps [simp del]

definition Write_string :: "bytes \<Rightarrow> bytes" where
  "Write_string str =
     (let str = (if length str > 255 then trim_utf8 (take 255 str) else str)
      in Write (of_nat (length str) :: u8) @ str)"

definition Read_string :: "bytes \<Rightarrow> (bytes \<times> bytes) option" where
  "Read_string s = (case (Read s :: (u8 \<times> bytes) option) of
     None \<Rightarrow> None
   | Some (n, s) \<Rightarrow> if n = 0 then Some ([], s) else Read_vector (unat n) [] s)"

section \<open>Lists of extensions\<close>

record extension =
  xt_type :: u16
  xt_value :: bytes

definition EXTENSION_SUB_ACCOUNT :: u16 where "EXTENSION_SUB_ACCOUNT = 1"
definition EXTENSION_NOTE :: u16 where "EXTENSION_NOTE = 2"
definition EXTENSION_ALIAS :: u16 where "EXTENSION_ALIAS = 3"
definition EXTENSION_TOKEN :: u16 where "EXTENSION_TOKEN = 4"
definition EXTENSION_RESERVED_MAX :: u16 where "EXTENSION_RESERVED_MAX = 1023"

definition Extension_SerialSize :: "extension \<Rightarrow> nat" where
  "Extension_SerialSize e = 2 + 2 + length (xt_value e)"

definition Extensions_SerialSize :: "extension list \<Rightarrow> nat" where
  "Extensions_SerialSize es = sum_list (map Extension_SerialSize es)"

definition Extensions_Append :: "extension \<Rightarrow> extension list \<Rightarrow> extension_code + extension list" where
  "Extensions_Append e es =
     (if xt_type e = 0 then Inl EXTENSION_TYPE
      else if Extensions_SerialSize es + Extension_SerialSize e > MAX_EXTENSIONS_SIZE then Inl (Shared EXTENSIONS_LENGTH)
      else Inr (es @ [e]))"

definition Extensions_Count :: "u16 \<Rightarrow> extension list \<Rightarrow> nat" where
  "Extensions_Count type es = length (filter (\<lambda>e. xt_type e = type) es)"

definition Extensions_Get :: "u16 \<Rightarrow> extension list \<Rightarrow> extension" where
  "Extensions_Get type es = (case find (\<lambda>e. xt_type e = type) es of Some e \<Rightarrow> e | None \<Rightarrow> \<lparr>xt_type = 0, xt_value = []\<rparr>)"

definition Extension_Bytes :: "extension \<Rightarrow> bytes" where
  "Extension_Bytes e = Write (xt_type e) @ Write (of_nat (length (xt_value e)) :: u16) @ xt_value e"

definition Extensions_Bytes :: "extension list \<Rightarrow> bytes" where
  "Extensions_Bytes es = concat (map Extension_Bytes es)"

text \<open>The loop of \<open>FromBytes\<close>. A read that fails has taken what was left of its two bytes.\<close>

function FromBytes_loop :: "bytes \<Rightarrow> nat \<Rightarrow> extension list \<Rightarrow> extension_code + nat \<times> extension list" where
  "FromBytes_loop s count es = (case (Read s :: (u16 \<times> bytes) option) of
     None \<Rightarrow> if \<not> StreamEnd (drop 2 s) then Inl EXTENSIONS_BROKEN_STREAM else Inr (count, es)
   | Some (type, s1) \<Rightarrow>
       if type = 0 then Inl EXTENSION_TYPE
       else (case (Read s1 :: (u16 \<times> bytes) option) of
           None \<Rightarrow> Inl EXTENSIONS_BROKEN_STREAM
         | Some (len, s2) \<Rightarrow> (case Read_vector (unat len) [] s2 of
             None \<Rightarrow> Inl EXTENSIONS_BROKEN_STREAM
           | Some (val, s3) \<Rightarrow>
               FromBytes_loop s3 (count + 2 + 2 + unat len) (es @ [\<lparr>xt_type = type, xt_value = val\<rparr>]))))"
  by pat_completeness auto
termination
  by (relation "measure (length \<circ> fst)") (auto dest!: Read_length Read_vector_Some)

declare FromBytes_loop.simps [simp del]

definition Extensions_FromBytes :: "bytes \<Rightarrow> extension list \<Rightarrow> extension_code + extension list" where
  "Extensions_FromBytes bs es =
     (if bs = [] then Inr es
      else if length bs > MAX_EXTENSIONS_SIZE then Inl (Shared EXTENSIONS_LENGTH)
      else case FromBytes_loop bs 0 [] of
        Inl code \<Rightarrow> Inl code
      | Inr (count, es) \<Rightarrow> if count \<noteq> length bs then Inl EXTENSIONS_BROKEN_STREAM else Inr es)"

text \<open>\<open>None\<close> is the error flag.\<close>

definition ExtensionAppend :: "extension \<Rightarrow> bytes \<Rightarrow> bytes option" where
  "ExtensionAppend e bs = (case Extensions_FromBytes bs [] of
     Inl _ \<Rightarrow> None
   | Inr es \<Rightarrow> (case Extensions_Append e es of Inl _ \<Rightarrow> None | Inr es \<Rightarrow> Some (Extensions_Bytes es)))"

section \<open>Aliases\<close>

text \<open>The operation of an alias is a byte: \<open>NAME\<close> is 1, \<open>DNS\<close> is 2.\<close>

record extension_alias =
  xl_op :: u8
  xl_op_value :: bytes

definition Alias_FromExtension :: "extension \<Rightarrow> extension_code + extension_alias" where
  "Alias_FromExtension e =
     (if xt_type e \<noteq> EXTENSION_ALIAS then Inl EXTENSION_TYPE
      else Inr \<lparr>xl_op = (case xt_value e of [] \<Rightarrow> 0 | op # _ \<Rightarrow> op),
                xl_op_value = (case xt_value e of [] \<Rightarrow> [] | _ # val \<Rightarrow> val)\<rparr>)"

definition Alias_Value :: "extension_alias \<Rightarrow> bytes" where
  "Alias_Value a = Write (xl_op a) @ xl_op_value a"

definition Alias_CheckData :: "extension_alias \<Rightarrow> extension_code option" where
  "Alias_CheckData a =
     (let utf8 = CheckUtf8 (xl_op_value a) in
      if xl_op a = 0 then Some ALIAS_OP_INVALID
      else if xl_op a = 1 then
        (if fst utf8 then Some UTF8_CHECK
         else if snd utf8 then Some UTF8_CONTROL_CHARACTER
         else if 0x40 \<in> set (xl_op_value a) then Some ALIAS_RESERVED_CHARACTOR_AT
         else None)
      else if xl_op a = 2 then
        (if fst utf8 then Some UTF8_CHECK
         else if snd utf8 then Some UTF8_CONTROL_CHARACTER
         else if 0x40 \<in> set (xl_op_value a) then Some ALIAS_RESERVED_CHARACTOR_AT
         else if 0x5F \<in> set (xl_op_value a) then Some ALIAS_RESERVED_CHARACTOR_UNDERSCORE
         else None)
      else Some ALIAS_OP_UNKNOWN)"

end
