(* ===== verification/TokenExtensions.thy ===== *)
theory TokenExtensions
  imports Extensions
begin

text \<open>
  The token operations that an extension of type \<open>TOKEN\<close> holds (\<open>rai/common/extensions.cpp\<close>): creating, minting, burning,
  sending, receiving, swapping, unmapping and wrapping tokens, each with its writer, its checks and its reader.
\<close>

section \<open>Types, sources and chains\<close>

datatype (plugins only: code) token_type = TYPE_INVALID | TYPE_20 | TYPE_721 | TYPE_OTHER u8

fun of_token_type :: "token_type \<Rightarrow> u8" where
  "of_token_type TYPE_INVALID = 0" | "of_token_type TYPE_20 = 1" | "of_token_type TYPE_721 = 2"
| "of_token_type (TYPE_OTHER v) = v"

definition token_type_of :: "u8 \<Rightarrow> token_type" where
  "token_type_of v = (if v = 0 then TYPE_INVALID else if v = 1 then TYPE_20 else if v = 2 then TYPE_721 else TYPE_OTHER v)"

datatype (plugins only: code) token_source =
  SOURCE_INVALID | SOURCE_SEND | SOURCE_MAP | SOURCE_UNWRAP | SOURCE_SWAP | SOURCE_MINT | SOURCE_REFUND | SOURCE_OTHER u8

fun of_token_source :: "token_source \<Rightarrow> u8" where
  "of_token_source SOURCE_INVALID = 0" | "of_token_source SOURCE_SEND = 1" | "of_token_source SOURCE_MAP = 2"
| "of_token_source SOURCE_UNWRAP = 3" | "of_token_source SOURCE_SWAP = 4" | "of_token_source SOURCE_MINT = 5"
| "of_token_source SOURCE_REFUND = 6" | "of_token_source (SOURCE_OTHER v) = v"

definition token_source_of :: "u8 \<Rightarrow> token_source" where
  "token_source_of v = (if v = 0 then SOURCE_INVALID else if v = 1 then SOURCE_SEND else if v = 2 then SOURCE_MAP
     else if v = 3 then SOURCE_UNWRAP else if v = 4 then SOURCE_SWAP else if v = 5 then SOURCE_MINT
     else if v = 6 then SOURCE_REFUND else SOURCE_OTHER v)"

definition Read_type :: "bytes \<Rightarrow> (token_type \<times> bytes) option" where
  "Read_type s = map_option (\<lambda>(v, s). (token_type_of v, s)) (Read s)"

definition Read_source :: "bytes \<Rightarrow> (token_source \<times> bytes) option" where
  "Read_source s = map_option (\<lambda>(v, s). (token_source_of v, s)) (Read s)"

text \<open>A chain is a number of 32 bits; any but \<open>INVALID\<close> has a name.\<close>

type_synonym chain_id = u32

definition CHAIN_INVALID :: chain_id where "CHAIN_INVALID = 0"
definition CHAIN_RAICOIN :: chain_id where "CHAIN_RAICOIN = 1"
definition CHAIN_RAICOIN_TEST :: chain_id where "CHAIN_RAICOIN_TEST = 10010"

definition IsRaicoin :: "chain_id \<Rightarrow> bool" where
  "IsRaicoin c \<longleftrightarrow> c = CHAIN_RAICOIN \<or> c = CHAIN_RAICOIN_TEST"

definition NativeAddress :: u256 where "NativeAddress = 1"

definition Token_CheckType :: "token_type \<Rightarrow> extension_code option" where
  "Token_CheckType t =
     (case t of TYPE_INVALID \<Rightarrow> Some TOKEN_TYPE_INVALID | TYPE_OTHER _ \<Rightarrow> Some TOKEN_TYPE_UNKNOWN | _ \<Rightarrow> None)"

definition Token_CheckChain :: "chain_id \<Rightarrow> extension_code option" where
  "Token_CheckChain c = (if c = CHAIN_INVALID then Some TOKEN_CHAIN_INVALID else None)"

definition Token_CheckValue :: "token_type \<Rightarrow> u256 \<Rightarrow> extension_code option" where
  "Token_CheckValue t v = (if t = TYPE_20 \<and> v = 0 then Some TOKEN_VALUE else None)"

definition Check_string :: "bytes \<Rightarrow> extension_code \<Rightarrow> extension_code option" where
  "Check_string str code = (if fst (CheckUtf8 str) then Some code else if snd (CheckUtf8 str) then Some code else None)"

section \<open>Creation\<close>

record token20_create =
  x20_name :: bytes
  x20_symbol :: bytes
  x20_init_supply :: u256
  x20_cap_supply :: u256
  x20_decimals :: u8
  x20_burnable :: bool
  x20_mintable :: bool
  x20_circulable :: bool

record token721_create =
  x721_name :: bytes
  x721_symbol :: bytes
  x721_base_uri :: bytes
  x721_cap_supply :: u256
  x721_burnable :: bool
  x721_circulable :: bool

datatype token_create = Create_20 token20_create | Create_721 token721_create

definition Token20Create_Serialize :: "token20_create \<Rightarrow> bytes" where
  "Token20Create_Serialize d = Write_string (x20_name d) @ Write_string (x20_symbol d) @ Write (x20_init_supply d) @
     Write (x20_cap_supply d) @ Write (x20_decimals d) @ Write_bool (x20_burnable d) @ Write_bool (x20_mintable d) @
     Write_bool (x20_circulable d)"

definition Token20Create_CheckData :: "token20_create \<Rightarrow> extension_code option" where
  "Token20Create_CheckData d =
     THEN_CHECK (Check_string (x20_name d) TOKEN_NAME_UTF8_CHECK)
    (THEN_CHECK (Check_string (x20_symbol d) TOKEN_SYMBOL_UTF8_CHECK)
       (if x20_cap_supply d \<noteq> 0 \<and> x20_init_supply d > x20_cap_supply d then Some TOKEN_CAP_SUPPLY_EXCEEDED else None))"

definition Token20Create_Deserialize :: "bytes \<Rightarrow> extension_code + token20_create \<times> bytes" where
  "Token20Create_Deserialize s =
     READ_OR (Read_string s) (\<lambda>name s. READ_OR (Read_string s) (\<lambda>symbol s.
     READ_OR (Read s) (\<lambda>init_supply s. READ_OR (Read s) (\<lambda>cap_supply s. READ_OR (Read s) (\<lambda>decimals s.
     READ_OR (Read_bool s) (\<lambda>burnable s. READ_OR (Read_bool s) (\<lambda>mintable s. READ_OR (Read_bool s) (\<lambda>circulable s.
     let d = \<lparr>x20_name = name, x20_symbol = symbol, x20_init_supply = init_supply, x20_cap_supply = cap_supply,
              x20_decimals = decimals, x20_burnable = burnable, x20_mintable = mintable, x20_circulable = circulable\<rparr>
     in CHECKED (Token20Create_CheckData d) (d, s)))))))))"

definition Token721Create_Serialize :: "token721_create \<Rightarrow> bytes" where
  "Token721Create_Serialize d = Write_string (x721_name d) @ Write_string (x721_symbol d) @ Write_string (x721_base_uri d) @
     Write (x721_cap_supply d) @ Write_bool (x721_burnable d) @ Write_bool (x721_circulable d)"

definition Token721Create_CheckData :: "token721_create \<Rightarrow> extension_code option" where
  "Token721Create_CheckData d =
     THEN_CHECK (Check_string (x721_name d) TOKEN_NAME_UTF8_CHECK)
    (THEN_CHECK (Check_string (x721_symbol d) TOKEN_SYMBOL_UTF8_CHECK)
       (Check_string (x721_base_uri d) TOKEN_BASE_URI_UTF8_CHECK))"

definition Token721Create_Deserialize :: "bytes \<Rightarrow> extension_code + token721_create \<times> bytes" where
  "Token721Create_Deserialize s =
     READ_OR (Read_string s) (\<lambda>name s. READ_OR (Read_string s) (\<lambda>symbol s. READ_OR (Read_string s) (\<lambda>base_uri s.
     READ_OR (Read s) (\<lambda>cap_supply s. READ_OR (Read_bool s) (\<lambda>burnable s. READ_OR (Read_bool s) (\<lambda>circulable s.
     let d = \<lparr>x721_name = name, x721_symbol = symbol, x721_base_uri = base_uri, x721_cap_supply = cap_supply,
              x721_burnable = burnable, x721_circulable = circulable\<rparr>
     in CHECKED (Token721Create_CheckData d) (d, s)))))))"

fun TokenCreate_Serialize :: "token_create \<Rightarrow> bytes" where
  "TokenCreate_Serialize (Create_20 d) = Write (of_token_type TYPE_20) @ Token20Create_Serialize d"
| "TokenCreate_Serialize (Create_721 d) = Write (of_token_type TYPE_721) @ Token721Create_Serialize d"

fun TokenCreate_CheckData :: "token_create \<Rightarrow> extension_code option" where
  "TokenCreate_CheckData (Create_20 d) = Token20Create_CheckData d"
| "TokenCreate_CheckData (Create_721 d) = Token721Create_CheckData d"

definition TokenCreate_Deserialize :: "bytes \<Rightarrow> extension_code + token_create \<times> bytes" where
  "TokenCreate_Deserialize s =
     READ_OR (Read_type s) (\<lambda>type s. (case Token_CheckType type of
       Some code \<Rightarrow> Inl code
     | None \<Rightarrow>
         if type = TYPE_20 then PARSE (Token20Create_Deserialize s) (\<lambda>d s. Inr (Create_20 d, s))
         else if type = TYPE_721 then PARSE (Token721Create_Deserialize s) (\<lambda>d s. Inr (Create_721 d, s))
         else Inl UNEXPECTED))"

section \<open>Minting and burning\<close>

record token_mint =
  xm_type :: token_type
  xm_to :: u256
  xm_value :: u256
  xm_uri :: bytes

definition TokenMint_Serialize :: "token_mint \<Rightarrow> bytes" where
  "TokenMint_Serialize d = Write (of_token_type (xm_type d)) @ Write (xm_to d) @ Write (xm_value d) @
     (if xm_type d = TYPE_721 then Write_string (xm_uri d) else [])"

definition TokenMint_CheckData :: "token_mint \<Rightarrow> extension_code option" where
  "TokenMint_CheckData d =
     THEN_CHECK (Token_CheckType (xm_type d))
    (THEN_CHECK (if xm_to d = 0 then Some TOKEN_MINT_TO else None)
    (THEN_CHECK (Token_CheckValue (xm_type d) (xm_value d))
       (Check_string (xm_uri d) TOKEN_URI_UTF8_CHECK)))"

definition TokenMint_Deserialize :: "bytes \<Rightarrow> extension_code + token_mint \<times> bytes" where
  "TokenMint_Deserialize s =
     READ_OR (Read_type s) (\<lambda>type s. READ_OR (Read s) (\<lambda>to s. READ_OR (Read s) (\<lambda>val s.
     READ_OR (if type = TYPE_721 then Read_string s else Some ([], s)) (\<lambda>uri s.
     let d = \<lparr>xm_type = type, xm_to = to, xm_value = val, xm_uri = uri\<rparr> in CHECKED (TokenMint_CheckData d) (d, s)))))"

record token_burn =
  xb_type :: token_type
  xb_value :: u256

definition TokenBurn_Serialize :: "token_burn \<Rightarrow> bytes" where
  "TokenBurn_Serialize d = Write (of_token_type (xb_type d)) @ Write (xb_value d)"

definition TokenBurn_CheckData :: "token_burn \<Rightarrow> extension_code option" where
  "TokenBurn_CheckData d = THEN_CHECK (Token_CheckType (xb_type d)) (Token_CheckValue (xb_type d) (xb_value d))"

definition TokenBurn_Deserialize :: "bytes \<Rightarrow> extension_code + token_burn \<times> bytes" where
  "TokenBurn_Deserialize s =
     READ_OR (Read_type s) (\<lambda>type s. READ_OR (Read s) (\<lambda>val s.
     let d = \<lparr>xb_type = type, xb_value = val\<rparr> in CHECKED (TokenBurn_CheckData d) (d, s)))"

section \<open>Sending and receiving\<close>

record token_info =
  xi_chain :: chain_id
  xi_type :: token_type
  xi_address :: u256

definition TokenInfo_Serialize :: "token_info \<Rightarrow> bytes" where
  "TokenInfo_Serialize d = Write (xi_chain d) @ Write (of_token_type (xi_type d)) @ Write (xi_address d)"

definition TokenInfo_CheckData :: "token_info \<Rightarrow> extension_code option" where
  "TokenInfo_CheckData d = THEN_CHECK (Token_CheckChain (xi_chain d)) (Token_CheckType (xi_type d))"

definition TokenInfo_Deserialize :: "bytes \<Rightarrow> extension_code + token_info \<times> bytes" where
  "TokenInfo_Deserialize s =
     READ_OR (Read s) (\<lambda>chain s. READ_OR (Read_type s) (\<lambda>type s. READ_OR (Read s) (\<lambda>address s.
     let d = \<lparr>xi_chain = chain, xi_type = type, xi_address = address\<rparr> in CHECKED (TokenInfo_CheckData d) (d, s))))"

definition Fungible :: "token_info \<Rightarrow> bool" where "Fungible d \<longleftrightarrow> xi_type d = TYPE_20"
definition NonFungible :: "token_info \<Rightarrow> bool" where "NonFungible d \<longleftrightarrow> xi_type d = TYPE_721"
definition IsNative :: "token_info \<Rightarrow> bool" where "IsNative d \<longleftrightarrow> NativeAddress = xi_address d"

record token_send =
  xs_token :: token_info
  xs_to :: u256
  xs_value :: u256

definition TokenSend_Serialize :: "token_send \<Rightarrow> bytes" where
  "TokenSend_Serialize d = TokenInfo_Serialize (xs_token d) @ Write (xs_to d) @ Write (xs_value d)"

definition TokenSend_CheckData :: "token_send \<Rightarrow> extension_code option" where
  "TokenSend_CheckData d =
     THEN_CHECK (TokenInfo_CheckData (xs_token d))
    (THEN_CHECK (if xs_to d = 0 then Some TOKEN_SEND_TO else None)
       (Token_CheckValue (xi_type (xs_token d)) (xs_value d)))"

definition TokenSend_Deserialize :: "bytes \<Rightarrow> extension_code + token_send \<times> bytes" where
  "TokenSend_Deserialize s =
     PARSE (TokenInfo_Deserialize s) (\<lambda>token s. READ_OR (Read s) (\<lambda>to s. READ_OR (Read s) (\<lambda>val s.
     let d = \<lparr>xs_token = token, xs_to = to, xs_value = val\<rparr> in CHECKED (TokenSend_CheckData d) (d, s))))"

text \<open>\<open>None\<close> for the index is a member that was never set: the constructor leaves it out, and the reader ignores a failed read.\<close>

record token_receive =
  xr_token :: token_info
  xr_source :: token_source
  xr_from :: u256
  xr_block_height :: u64
  xr_tx_hash :: u256
  xr_index :: "u64 option"
  xr_value :: u256
  xr_unwrap_chain :: chain_id

definition has_index :: "token_source \<Rightarrow> bool" where
  "has_index src \<longleftrightarrow> src = SOURCE_UNWRAP \<or> src = SOURCE_MAP"

definition TokenReceive_Serialize :: "token_receive \<Rightarrow> bytes" where
  "TokenReceive_Serialize d =
     TokenInfo_Serialize (xr_token d) @ Write (of_token_source (xr_source d)) @ Write (xr_from d) @ Write (xr_block_height d) @
     Write (xr_tx_hash d) @ Write (xr_value d) @
     (if xr_source d = SOURCE_UNWRAP then Write (xr_unwrap_chain d) else []) @
     (if has_index (xr_source d) then (case xr_index d of Some i \<Rightarrow> Write i | None \<Rightarrow> []) else [])"

definition TokenReceive_CheckData :: "token_receive \<Rightarrow> extension_code option" where
  "TokenReceive_CheckData d =
     THEN_CHECK (TokenInfo_CheckData (xr_token d))
    (THEN_CHECK (case xr_source d of SOURCE_INVALID \<Rightarrow> Some TOKEN_SOURCE_INVALID
       | SOURCE_OTHER _ \<Rightarrow> Some TOKEN_SOURCE_UNKNOWN | _ \<Rightarrow> None)
    (THEN_CHECK (if xr_block_height d = - 1 then Some TOKEN_BLOCK_HEIGHT else None)
    (THEN_CHECK (Token_CheckValue (xi_type (xr_token d)) (xr_value d))
    (THEN_CHECK (if xr_source d = SOURCE_MAP \<and> IsRaicoin (xi_chain (xr_token d)) \<and> \<not> IsNative (xr_token d)
       then Some TOKEN_SOURCE_INVALID else None)
       (if xr_source d = SOURCE_UNWRAP
        then THEN_CHECK (Token_CheckChain (xr_unwrap_chain d))
          (if xi_chain (xr_token d) = xr_unwrap_chain d then Some TOKEN_UNWRAP_CHAIN else None)
        else None)))))"

definition TokenReceive_Deserialize :: "bytes \<Rightarrow> extension_code + token_receive \<times> bytes" where
  "TokenReceive_Deserialize s =
     PARSE (TokenInfo_Deserialize s) (\<lambda>token s. READ_OR (Read_source s) (\<lambda>src s. READ_OR (Read s) (\<lambda>from s.
     READ_OR (Read s) (\<lambda>block_height s. READ_OR (Read s) (\<lambda>tx_hash s. READ_OR (Read s) (\<lambda>val s.
     READ_OR (if src = SOURCE_UNWRAP then Read s else Some (CHAIN_INVALID, s)) (\<lambda>unwrap_chain s.
     let (index, s) = (if has_index src
           then (case (Read s :: (u64 \<times> bytes) option) of Some (i, s) \<Rightarrow> (Some i, s) | None \<Rightarrow> (None, drop 8 s))
           else (None, s));
         d = \<lparr>xr_token = token, xr_source = src, xr_from = from, xr_block_height = block_height, xr_tx_hash = tx_hash,
              xr_index = index, xr_value = val, xr_unwrap_chain = unwrap_chain\<rparr>
     in CHECKED (TokenReceive_CheckData d) (d, s))))))))"

section \<open>Swaps\<close>

record swap_make =
  wm_token_offer :: token_info
  wm_token_want :: token_info
  wm_value_offer :: u256
  wm_value_want :: u256
  wm_min_offer :: u256
  wm_max_offer :: u256
  wm_timeout :: u64

definition FungiblePair :: "token_info \<Rightarrow> token_info \<Rightarrow> bool" where
  "FungiblePair offer want \<longleftrightarrow> Fungible offer \<and> Fungible want"

definition SwapMake_Serialize :: "swap_make \<Rightarrow> bytes" where
  "SwapMake_Serialize d =
     TokenInfo_Serialize (wm_token_offer d) @ TokenInfo_Serialize (wm_token_want d) @ Write (wm_value_offer d) @
     Write (wm_value_want d) @
     (if FungiblePair (wm_token_offer d) (wm_token_want d) then Write (wm_min_offer d) @ Write (wm_max_offer d) else []) @
     Write (wm_timeout d)"

text \<open>Whether an amount on offer is worth a whole amount of the wanted token; the product has 512 bits.\<close>

definition whole :: "swap_make \<Rightarrow> u256 \<Rightarrow> bool" where
  "whole d v \<longleftrightarrow> (ucast v :: u512) * ucast (wm_value_want d) mod ucast (wm_value_offer d) = 0"

definition SwapMake_CheckData :: "swap_make \<Rightarrow> extension_code option" where
  "SwapMake_CheckData d =
     THEN_CHECK (TokenInfo_CheckData (wm_token_offer d))
    (THEN_CHECK (TokenInfo_CheckData (wm_token_want d))
       (if wm_token_offer d = wm_token_want d \<and>
           (Fungible (wm_token_offer d) \<or> NonFungible (wm_token_offer d) \<and> wm_value_offer d = wm_value_want d)
        then Some TOKEN_SWAP_PAIR_EQUAL
        else if Fungible (wm_token_offer d) \<and> wm_value_offer d = 0 then Some TOKEN_SWAP_VALUE_OFFER
        else if Fungible (wm_token_want d) \<and> wm_value_want d = 0 then Some TOKEN_SWAP_VALUE_WANT
        else if FungiblePair (wm_token_offer d) (wm_token_want d)
        then (if wm_max_offer d = 0 then Some TOKEN_SWAP_MAX_OFFER
              else if \<not> whole d (wm_max_offer d) then Some TOKEN_SWAP_MAX_OFFER
              else if wm_min_offer d > wm_max_offer d then Some TOKEN_SWAP_MIN_OFFER
              else if \<not> whole d (wm_min_offer d) then Some TOKEN_SWAP_MIN_OFFER
              else None)
        else None))"

definition SwapMake_Deserialize :: "bytes \<Rightarrow> extension_code + swap_make \<times> bytes" where
  "SwapMake_Deserialize s =
     PARSE (TokenInfo_Deserialize s) (\<lambda>offer s. PARSE (TokenInfo_Deserialize s) (\<lambda>want s.
     READ_OR (Read s) (\<lambda>value_offer s. READ_OR (Read s) (\<lambda>value_want s.
     READ_OR (if FungiblePair offer want then Read s else Some (0, s)) (\<lambda>min_offer s.
     READ_OR (if FungiblePair offer want then Read s else Some (0, s)) (\<lambda>max_offer s.
     READ_OR (Read s) (\<lambda>timeout s.
     let d = \<lparr>wm_token_offer = offer, wm_token_want = want, wm_value_offer = value_offer, wm_value_want = value_want,
              wm_min_offer = min_offer, wm_max_offer = max_offer, wm_timeout = timeout\<rparr>
     in CHECKED (SwapMake_CheckData d) (d, s))))))))"

record swap_inquiry =
  wi_maker :: u256
  wi_order_height :: u64
  wi_ack_height :: u64
  wi_timeout :: u64
  wi_value :: u256
  wi_share :: u256

definition SwapInquiry_Serialize :: "swap_inquiry \<Rightarrow> bytes" where
  "SwapInquiry_Serialize d = Write (wi_maker d) @ Write (wi_order_height d) @ Write (wi_ack_height d) @ Write (wi_timeout d) @
     Write (wi_value d) @ Write (wi_share d)"

text \<open>\<open>valid_key\<close> is \<open>ValidPublicKey\<close>: the test of the X25519 library for keys of small order.\<close>

definition SwapInquiry_CheckData :: "(u256 \<Rightarrow> bool) \<Rightarrow> swap_inquiry \<Rightarrow> extension_code option" where
  "SwapInquiry_CheckData valid_key d =
     (if wi_maker d = 0 then Some TOKEN_SWAP_MAKER
      else if wi_order_height d = - 1 then Some TOKEN_SWAP_ORDER_HEIGHT
      else if wi_ack_height d = - 1 then Some TOKEN_SWAP_ACK_HEIGHT
      else if \<not> valid_key (wi_share d) then Some TOKEN_SWAP_SHARE
      else None)"

definition SwapInquiry_Deserialize :: "(u256 \<Rightarrow> bool) \<Rightarrow> bytes \<Rightarrow> extension_code + swap_inquiry \<times> bytes" where
  "SwapInquiry_Deserialize valid_key s =
     READ_OR (Read s) (\<lambda>maker s. READ_OR (Read s) (\<lambda>order_height s. READ_OR (Read s) (\<lambda>ack_height s.
     READ_OR (Read s) (\<lambda>timeout s. READ_OR (Read s) (\<lambda>val s. READ_OR (Read s) (\<lambda>share s.
     let d = \<lparr>wi_maker = maker, wi_order_height = order_height, wi_ack_height = ack_height, wi_timeout = timeout,
              wi_value = val, wi_share = share\<rparr>
     in CHECKED (SwapInquiry_CheckData valid_key d) (d, s)))))))"

record swap_inquiry_ack =
  wa_taker :: u256
  wa_inquiry_height :: u64
  wa_trade_height :: u64
  wa_share :: u256
  wa_signature :: u512

definition SwapInquiryAck_Serialize :: "swap_inquiry_ack \<Rightarrow> bytes" where
  "SwapInquiryAck_Serialize d = Write (wa_taker d) @ Write (wa_inquiry_height d) @ Write (wa_trade_height d) @
     Write (wa_share d) @ Write (wa_signature d)"

definition SwapInquiryAck_CheckData :: "(u256 \<Rightarrow> bool) \<Rightarrow> swap_inquiry_ack \<Rightarrow> extension_code option" where
  "SwapInquiryAck_CheckData valid_key d =
     (if wa_taker d = 0 then Some TOKEN_SWAP_TAKER
      else if wa_inquiry_height d = - 1 then Some TOKEN_SWAP_INQUIRY_HEIGHT
      else if wa_trade_height d = - 1 \<or> wa_trade_height d = 0 then Some TOKEN_SWAP_TRADE_HEIGHT
      else if \<not> valid_key (wa_share d) then Some TOKEN_SWAP_SHARE
      else None)"

definition SwapInquiryAck_Deserialize :: "(u256 \<Rightarrow> bool) \<Rightarrow> bytes \<Rightarrow> extension_code + swap_inquiry_ack \<times> bytes" where
  "SwapInquiryAck_Deserialize valid_key s =
     READ_OR (Read s) (\<lambda>taker s. READ_OR (Read s) (\<lambda>inquiry_height s. READ_OR (Read s) (\<lambda>trade_height s.
     READ_OR (Read s) (\<lambda>share s. READ_OR (Read s) (\<lambda>signature s.
     let d = \<lparr>wa_taker = taker, wa_inquiry_height = inquiry_height, wa_trade_height = trade_height, wa_share = share,
              wa_signature = signature\<rparr>
     in CHECKED (SwapInquiryAck_CheckData valid_key d) (d, s))))))"

record swap_take_ack =
  wt_taker :: u256
  wt_inquiry_height :: u64
  wt_take_height :: u64
  wt_value :: u256

definition SwapTakeAck_Serialize :: "swap_take_ack \<Rightarrow> bytes" where
  "SwapTakeAck_Serialize d = Write (wt_taker d) @ Write (wt_inquiry_height d) @ Write (wt_take_height d) @ Write (wt_value d)"

definition SwapTakeAck_CheckData :: "swap_take_ack \<Rightarrow> extension_code option" where
  "SwapTakeAck_CheckData d =
     (if wt_taker d = 0 then Some TOKEN_SWAP_TAKER
      else if wt_inquiry_height d = - 1 then Some TOKEN_SWAP_INQUIRY_HEIGHT
      else if wt_take_height d = - 1 then Some TOKEN_SWAP_TAKE_HEIGHT
      else if wt_take_height d \<le> wt_inquiry_height d then Some TOKEN_SWAP_TAKE_HEIGHT
      else None)"

definition SwapTakeAck_Deserialize :: "bytes \<Rightarrow> extension_code + swap_take_ack \<times> bytes" where
  "SwapTakeAck_Deserialize s =
     READ_OR (Read s) (\<lambda>taker s. READ_OR (Read s) (\<lambda>inquiry_height s. READ_OR (Read s) (\<lambda>take_height s.
     READ_OR (Read s) (\<lambda>val s.
     let d = \<lparr>wt_taker = taker, wt_inquiry_height = inquiry_height, wt_take_height = take_height, wt_value = val\<rparr>
     in CHECKED (SwapTakeAck_CheckData d) (d, s)))))"

text \<open>The other messages of a swap have one or two numbers.\<close>

datatype token_swap =
  Swap_Config u256
| Swap_Make swap_make
| Swap_Inquiry swap_inquiry
| Swap_Inquiry_Ack swap_inquiry_ack
| Swap_Take u64
| Swap_Take_Ack swap_take_ack
| Swap_Take_Nack u256 u64
| Swap_Cancel u64
| Swap_Ping u256
| Swap_Pong

definition SwapTake_CheckData :: "u64 \<Rightarrow> extension_code option" where
  "SwapTake_CheckData inquiry_height = (if inquiry_height = - 1 then Some TOKEN_SWAP_INQUIRY_HEIGHT else None)"

definition SwapTakeNack_CheckData :: "u256 \<Rightarrow> u64 \<Rightarrow> extension_code option" where
  "SwapTakeNack_CheckData taker inquiry_height =
     (if taker = 0 then Some TOKEN_SWAP_TAKER
      else if inquiry_height = - 1 then Some TOKEN_SWAP_INQUIRY_HEIGHT else None)"

definition SwapCancel_CheckData :: "u64 \<Rightarrow> extension_code option" where
  "SwapCancel_CheckData order_height = (if order_height = - 1 then Some TOKEN_SWAP_ORDER_HEIGHT else None)"

definition SwapPing_CheckData :: "u256 \<Rightarrow> extension_code option" where
  "SwapPing_CheckData maker = (if maker = 0 then Some TOKEN_SWAP_MAKER else None)"

fun sub_op :: "token_swap \<Rightarrow> u8" where
  "sub_op (Swap_Config _) = 1" | "sub_op (Swap_Make _) = 2" | "sub_op (Swap_Inquiry _) = 3" | "sub_op (Swap_Inquiry_Ack _) = 4"
| "sub_op (Swap_Take _) = 5" | "sub_op (Swap_Take_Ack _) = 6" | "sub_op (Swap_Take_Nack _ _) = 7" | "sub_op (Swap_Cancel _) = 8"
| "sub_op (Swap_Ping _) = 9" | "sub_op Swap_Pong = 10"

fun SwapData_Serialize :: "token_swap \<Rightarrow> bytes" where
  "SwapData_Serialize (Swap_Config main) = Write main"
| "SwapData_Serialize (Swap_Make d) = SwapMake_Serialize d"
| "SwapData_Serialize (Swap_Inquiry d) = SwapInquiry_Serialize d"
| "SwapData_Serialize (Swap_Inquiry_Ack d) = SwapInquiryAck_Serialize d"
| "SwapData_Serialize (Swap_Take inquiry_height) = Write inquiry_height"
| "SwapData_Serialize (Swap_Take_Ack d) = SwapTakeAck_Serialize d"
| "SwapData_Serialize (Swap_Take_Nack taker inquiry_height) = Write taker @ Write inquiry_height"
| "SwapData_Serialize (Swap_Cancel order_height) = Write order_height"
| "SwapData_Serialize (Swap_Ping maker) = Write maker"
| "SwapData_Serialize Swap_Pong = []"

definition TokenSwap_Serialize :: "token_swap \<Rightarrow> bytes" where
  "TokenSwap_Serialize d = Write (sub_op d) @ SwapData_Serialize d"

fun TokenSwap_CheckData :: "(u256 \<Rightarrow> bool) \<Rightarrow> token_swap \<Rightarrow> extension_code option" where
  "TokenSwap_CheckData valid_key (Swap_Config main) = None"
| "TokenSwap_CheckData valid_key (Swap_Make d) = SwapMake_CheckData d"
| "TokenSwap_CheckData valid_key (Swap_Inquiry d) = SwapInquiry_CheckData valid_key d"
| "TokenSwap_CheckData valid_key (Swap_Inquiry_Ack d) = SwapInquiryAck_CheckData valid_key d"
| "TokenSwap_CheckData valid_key (Swap_Take inquiry_height) = SwapTake_CheckData inquiry_height"
| "TokenSwap_CheckData valid_key (Swap_Take_Ack d) = SwapTakeAck_CheckData d"
| "TokenSwap_CheckData valid_key (Swap_Take_Nack taker inquiry_height) = SwapTakeNack_CheckData taker inquiry_height"
| "TokenSwap_CheckData valid_key (Swap_Cancel order_height) = SwapCancel_CheckData order_height"
| "TokenSwap_CheckData valid_key (Swap_Ping maker) = SwapPing_CheckData maker"
| "TokenSwap_CheckData valid_key Swap_Pong = None"

definition CheckSubOp :: "u8 \<Rightarrow> extension_code option" where
  "CheckSubOp op = (if op = 0 then Some TOKEN_SWAP_SUB_OP_INVALID else if op \<ge> 11 then Some TOKEN_SWAP_SUB_OP_UNKNOWN else None)"

definition TokenSwap_Deserialize :: "(u256 \<Rightarrow> bool) \<Rightarrow> bytes \<Rightarrow> extension_code + token_swap \<times> bytes" where
  "TokenSwap_Deserialize valid_key s =
     READ_OR (Read s) (\<lambda>op s. (case CheckSubOp op of
       Some code \<Rightarrow> Inl code
     | None \<Rightarrow>
         if op = 1 then READ_OR (Read s) (\<lambda>main s. Inr (Swap_Config main, s))
         else if op = 2 then PARSE (SwapMake_Deserialize s) (\<lambda>d s. Inr (Swap_Make d, s))
         else if op = 3 then PARSE (SwapInquiry_Deserialize valid_key s) (\<lambda>d s. Inr (Swap_Inquiry d, s))
         else if op = 4 then PARSE (SwapInquiryAck_Deserialize valid_key s) (\<lambda>d s. Inr (Swap_Inquiry_Ack d, s))
         else if op = 5 then READ_OR (Read s) (\<lambda>h s. CHECKED (SwapTake_CheckData h) (Swap_Take h, s))
         else if op = 6 then PARSE (SwapTakeAck_Deserialize s) (\<lambda>d s. Inr (Swap_Take_Ack d, s))
         else if op = 7 then READ_OR (Read s) (\<lambda>taker s. READ_OR (Read s) (\<lambda>h s.
           CHECKED (SwapTakeNack_CheckData taker h) (Swap_Take_Nack taker h, s)))
         else if op = 8 then READ_OR (Read s) (\<lambda>h s. CHECKED (SwapCancel_CheckData h) (Swap_Cancel h, s))
         else if op = 9 then READ_OR (Read s) (\<lambda>maker s. CHECKED (SwapPing_CheckData maker) (Swap_Ping maker, s))
         else if op = 10 then Inr (Swap_Pong, s)
         else Inl UNEXPECTED))"

section \<open>Unmapping and wrapping\<close>

record token_unmap =
  xu_token :: token_info
  xu_to :: u256
  xu_value :: u256
  xu_extra_data :: u64

definition TokenUnmap_Serialize :: "token_unmap \<Rightarrow> bytes" where
  "TokenUnmap_Serialize d = TokenInfo_Serialize (xu_token d) @ Write (xu_to d) @ Write (xu_value d) @ Write (xu_extra_data d)"

definition TokenUnmap_CheckData :: "token_unmap \<Rightarrow> extension_code option" where
  "TokenUnmap_CheckData d =
     THEN_CHECK (TokenInfo_CheckData (xu_token d))
    (THEN_CHECK (if IsRaicoin (xi_chain (xu_token d)) \<and> \<not> IsNative (xu_token d) then Some TOKEN_UNMAP_CHAIN else None)
    (THEN_CHECK (if xu_to d = 0 then Some TOKEN_UNMAP_TO else None)
       (Token_CheckValue (xi_type (xu_token d)) (xu_value d))))"

definition TokenUnmap_Deserialize :: "bytes \<Rightarrow> extension_code + token_unmap \<times> bytes" where
  "TokenUnmap_Deserialize s =
     PARSE (TokenInfo_Deserialize s) (\<lambda>token s. READ_OR (Read s) (\<lambda>to s. READ_OR (Read s) (\<lambda>val s. READ_OR (Read s) (\<lambda>extra s.
     let d = \<lparr>xu_token = token, xu_to = to, xu_value = val, xu_extra_data = extra\<rparr>
     in CHECKED (TokenUnmap_CheckData d) (d, s)))))"

record token_wrap =
  xw_token :: token_info
  xw_to_chain :: chain_id
  xw_to_account :: u256
  xw_value :: u256

definition TokenWrap_Serialize :: "token_wrap \<Rightarrow> bytes" where
  "TokenWrap_Serialize d = TokenInfo_Serialize (xw_token d) @ Write (xw_to_chain d) @ Write (xw_to_account d) @ Write (xw_value d)"

definition TokenWrap_CheckData :: "token_wrap \<Rightarrow> extension_code option" where
  "TokenWrap_CheckData d =
     THEN_CHECK (TokenInfo_CheckData (xw_token d))
    (THEN_CHECK (Token_CheckChain (xw_to_chain d))
    (THEN_CHECK (if xi_chain (xw_token d) = xw_to_chain d then Some TOKEN_WRAP_CHAIN else None)
    (THEN_CHECK (if xw_to_account d = 0 then Some TOKEN_WRAP_TO else None)
       (Token_CheckValue (xi_type (xw_token d)) (xw_value d)))))"

definition TokenWrap_Deserialize :: "bytes \<Rightarrow> extension_code + token_wrap \<times> bytes" where
  "TokenWrap_Deserialize s =
     PARSE (TokenInfo_Deserialize s) (\<lambda>token s. READ_OR (Read s) (\<lambda>chain s. READ_OR (Read s) (\<lambda>account s. READ_OR (Read s) (\<lambda>val s.
     let d = \<lparr>xw_token = token, xw_to_chain = chain, xw_to_account = account, xw_value = val\<rparr>
     in CHECKED (TokenWrap_CheckData d) (d, s)))))"

section \<open>The extension\<close>

datatype token_data =
  Token_Create token_create
| Token_Mint token_mint
| Token_Burn token_burn
| Token_Send token_send
| Token_Receive token_receive
| Token_Swap token_swap
| Token_Unmap token_unmap
| Token_Wrap token_wrap

fun token_op :: "token_data \<Rightarrow> u8" where
  "token_op (Token_Create _) = 1" | "token_op (Token_Mint _) = 2" | "token_op (Token_Burn _) = 3" | "token_op (Token_Send _) = 4"
| "token_op (Token_Receive _) = 5" | "token_op (Token_Swap _) = 6" | "token_op (Token_Unmap _) = 7" | "token_op (Token_Wrap _) = 8"

fun TokenData_Serialize :: "token_data \<Rightarrow> bytes" where
  "TokenData_Serialize (Token_Create d) = TokenCreate_Serialize d"
| "TokenData_Serialize (Token_Mint d) = TokenMint_Serialize d"
| "TokenData_Serialize (Token_Burn d) = TokenBurn_Serialize d"
| "TokenData_Serialize (Token_Send d) = TokenSend_Serialize d"
| "TokenData_Serialize (Token_Receive d) = TokenReceive_Serialize d"
| "TokenData_Serialize (Token_Swap d) = TokenSwap_Serialize d"
| "TokenData_Serialize (Token_Unmap d) = TokenUnmap_Serialize d"
| "TokenData_Serialize (Token_Wrap d) = TokenWrap_Serialize d"

definition Token_Value :: "token_data \<Rightarrow> bytes" where
  "Token_Value d = Write (token_op d) @ TokenData_Serialize d"

definition TokenData_Deserialize :: "(u256 \<Rightarrow> bool) \<Rightarrow> u8 \<Rightarrow> bytes \<Rightarrow> extension_code + token_data \<times> bytes" where
  "TokenData_Deserialize valid_key op s =
     (if op = 1 then PARSE (TokenCreate_Deserialize s) (\<lambda>d s. Inr (Token_Create d, s))
      else if op = 2 then PARSE (TokenMint_Deserialize s) (\<lambda>d s. Inr (Token_Mint d, s))
      else if op = 3 then PARSE (TokenBurn_Deserialize s) (\<lambda>d s. Inr (Token_Burn d, s))
      else if op = 4 then PARSE (TokenSend_Deserialize s) (\<lambda>d s. Inr (Token_Send d, s))
      else if op = 5 then PARSE (TokenReceive_Deserialize s) (\<lambda>d s. Inr (Token_Receive d, s))
      else if op = 6 then PARSE (TokenSwap_Deserialize valid_key s) (\<lambda>d s. Inr (Token_Swap d, s))
      else if op = 7 then PARSE (TokenUnmap_Deserialize s) (\<lambda>d s. Inr (Token_Unmap d, s))
      else if op = 8 then PARSE (TokenWrap_Deserialize s) (\<lambda>d s. Inr (Token_Wrap d, s))
      else Inl UNEXPECTED)"

definition Token_FromExtension :: "(u256 \<Rightarrow> bool) \<Rightarrow> extension \<Rightarrow> extension_code + token_data" where
  "Token_FromExtension valid_key e =
     (if xt_type e \<noteq> EXTENSION_TOKEN then Inl EXTENSION_TYPE
      else if length (xt_value e) \<le> 1 then Inl EXTENSION_VALUE
      else let op = hd (xt_value e) in
        if op = 0 then Inl TOKEN_OP_INVALID
        else if op \<ge> 9 then Inl TOKEN_OP_UNKNOWN
        else case TokenData_Deserialize valid_key op (tl (xt_value e)) of
          Inl code \<Rightarrow> Inl code
        | Inr (d, s) \<Rightarrow> if \<not> StreamEnd s then Inl (Shared STREAM) else Inr d)"

end
