(* ===== verification/ExtensionCodecs.thy ===== *)
theory ExtensionCodecs
  imports TokenExtensions
begin

text \<open>
  The readers of extensions and token operations accept exactly what the writers produce: a value is read from a stream if
  and only if its checks pass, its strings have at most 255 bytes, the members its type does not use have their defaults,
  and the stream begins with its serialisation. \<open>exact_codec\<close> is the contract; every class interprets it. The one
  exception is a receipt from a map or unwrap that lacks its index.
\<close>

section \<open>The contract\<close>

locale exact_codec =
  fixes ok :: "'a \<Rightarrow> bool"
    and enc :: "'a \<Rightarrow> bytes"
    and dec :: "bytes \<Rightarrow> extension_code + 'a \<times> bytes"
  assumes dec_exact: "dec s = Inr (x, rest) \<longleftrightarrow> ok x \<and> s = enc x @ rest"
begin

lemma dec_enc: "ok x \<Longrightarrow> dec (enc x @ rest) = Inr (x, rest)"
  by (simp add: dec_exact)

lemma enc_injective: "ok x \<Longrightarrow> ok y \<Longrightarrow> enc x @ r = enc y @ t \<Longrightarrow> x = y \<and> r = t"
  using dec_enc [of x r] dec_enc [of y t] by (metis Inr_inject prod.inject)

lemma dec_fails: "\<not> (\<exists>x rest. ok x \<and> s = enc x @ rest) \<longleftrightarrow> (\<exists>code. dec s = Inl code)"
  by (cases "dec s") (auto simp: dec_exact [symmetric])

end

named_theorems read_simps

lemma READ_OR_Inr [read_simps]: "READ_OR r k = Inr x \<longleftrightarrow> (\<exists>v s. r = Some (v, s) \<and> k v s = Inr x)"
  by (auto simp: READ_OR_def split: option.splits)

lemma PARSE_Inr [read_simps]: "PARSE r k = Inr x \<longleftrightarrow> (\<exists>v s. r = Inr (v, s) \<and> k v s = Inr x)"
  by (auto simp: PARSE_def split: sum.splits)

lemma CHECKED_Inr [read_simps]: "CHECKED c r = Inr x \<longleftrightarrow> c = None \<and> r = x"
  by (auto simp: CHECKED_def split: option.splits)

lemma case_Inr [read_simps]: "(case c of None \<Rightarrow> k | Some code \<Rightarrow> Inl code) = Inr x \<longleftrightarrow> c = None \<and> k = Inr x"
  by (cases c) simp_all

text \<open>A member that is read for some values of another one, and keeps its default for the rest.\<close>

lemma if_Some [read_simps]:
  "(if b then r else Some (y, s)) = Some (v, t) \<longleftrightarrow> b \<and> r = Some (v, t) \<or> \<not> b \<and> v = y \<and> t = s"
  by auto

lemma if_None [read_simps]: "(if b then Some code else c) = None \<longleftrightarrow> \<not> b \<and> c = None"
  by simp

lemma THEN_CHECK_None [simp]: "THEN_CHECK c d = None \<longleftrightarrow> c = None \<and> d = None"
  by (auto simp: THEN_CHECK_def split: option.splits)

section \<open>Numbers, flags, strings and enumerations\<close>

lemma Read_exact:
  assumes "8 dvd LENGTH('a)"
  shows "Read s = Some ((v :: 'a::len word), rest) \<longleftrightarrow> s = Write v @ rest"
  using Read_Write [OF assms, of v rest] Write_Read [OF assms, of s v rest] by auto

lemmas Read_exact_widths [read_simps] =
  Read_exact [where 'a = 8, simplified] Read_exact [where 'a = 16, simplified] Read_exact [where 'a = 32, simplified]
  Read_exact [where 'a = 64, simplified] Read_exact [where 'a = 256, simplified] Read_exact [where 'a = 512, simplified]

lemma Read_bool_exact [read_simps]: "Read_bool s = Some (b, rest) \<longleftrightarrow> s = Write_bool b @ rest"
  by (cases s) (auto simp: Read_bool_def Write_bool_def sgetn_def)

lemma Read_vector_iff: "Read_vector n [] s = Some (bs, rest) \<longleftrightarrow> length bs = n \<and> s = bs @ rest"
  using Read_vector_exact [of n bs rest] Read_vector_Some [of n "[]" s bs rest] by auto

lemma Write_string_short: "length str \<le> 255 \<Longrightarrow> Write_string str = Write (of_nat (length str) :: u8) @ str"
  by (simp add: Write_string_def)

lemma unat_length_u8: "length str \<le> 255 \<Longrightarrow> unat (of_nat (length str) :: u8) = length str"
  by (simp add: unat_of_nat)

lemma Read_string_exact [read_simps]:
  "Read_string s = Some (str, rest) \<longleftrightarrow> length str \<le> 255 \<and> s = Write_string str @ rest" (is "?l \<longleftrightarrow> ?r")
proof
  assume ?l
  then obtain n s' where n: "s = Write (n :: u8) @ s'"
    and str: "(if n = 0 then Some ([], s') else Read_vector (unat n) [] s') = Some (str, rest)"
    by (auto simp: Read_string_def Read_exact split: option.splits)
  have "length str = unat n \<and> s' = str @ rest"
    using str by (auto simp: Read_vector_iff split: if_splits)
  then show ?r
    using n unat_u8_less [of n] by (simp add: Write_string_short)
next
  assume ?r
  then show ?l
    by (auto simp: Read_string_def Write_string_short Read_Write_widths unat_length_u8 Read_vector_iff word_eq_iff_unat)
qed

lemma Token_CheckType_None [simp]: "Token_CheckType t = None \<longleftrightarrow> t = TYPE_20 \<or> t = TYPE_721"
  by (cases t) (simp_all add: Token_CheckType_def)

text \<open>A value that is read is one of the named ones or has a code none of them has.\<close>

definition type_read :: "token_type \<Rightarrow> bool" where
  "type_read t \<longleftrightarrow> token_type_of (of_token_type t) = t"

definition source_read :: "token_source \<Rightarrow> bool" where
  "source_read src \<longleftrightarrow> token_source_of (of_token_source src) = src"

lemma Read_type_exact [read_simps]:
  "Read_type s = Some (t, rest) \<longleftrightarrow> type_read t \<and> s = Write (of_token_type t) @ rest"
proof -
  have inv: "of_token_type (token_type_of v) = v" for v
    by (simp add: token_type_of_def)
  show ?thesis
    by (auto simp: Read_type_def Read_exact type_read_def inv)
qed

lemma Read_source_exact [read_simps]:
  "Read_source s = Some (src, rest) \<longleftrightarrow> source_read src \<and> s = Write (of_token_source src) @ rest"
proof -
  have inv: "of_token_source (token_source_of v) = v" for v
    by (simp add: token_source_of_def)
  show ?thesis
    by (auto simp: Read_source_def Read_exact source_read_def inv)
qed

lemma type_read_known [simp]: "type_read TYPE_20" "type_read TYPE_721"
  by (simp_all add: type_read_def token_type_of_def)

section \<open>Token operations\<close>

definition short :: "bytes \<Rightarrow> bool" where
  "short str \<longleftrightarrow> length str \<le> 255"

definition Token20Create_ok :: "token20_create \<Rightarrow> bool" where
  "Token20Create_ok d \<longleftrightarrow> Token20Create_CheckData d = None \<and> short (x20_name d) \<and> short (x20_symbol d)"

definition Token721Create_ok :: "token721_create \<Rightarrow> bool" where
  "Token721Create_ok d \<longleftrightarrow> Token721Create_CheckData d = None \<and> short (x721_name d) \<and> short (x721_symbol d) \<and> short (x721_base_uri d)"

interpretation create20: exact_codec Token20Create_ok Token20Create_Serialize Token20Create_Deserialize
proof
  fix s d rest
  show "Token20Create_Deserialize s = Inr (d, rest) \<longleftrightarrow> Token20Create_ok d \<and> s = Token20Create_Serialize d @ rest"
    by (cases d) (auto simp: Token20Create_Deserialize_def Token20Create_Serialize_def Token20Create_ok_def short_def Let_def read_simps)
qed

interpretation create721: exact_codec Token721Create_ok Token721Create_Serialize Token721Create_Deserialize
proof
  fix s d rest
  show "Token721Create_Deserialize s = Inr (d, rest) \<longleftrightarrow> Token721Create_ok d \<and> s = Token721Create_Serialize d @ rest"
    by (cases d) (auto simp: Token721Create_Deserialize_def Token721Create_Serialize_def Token721Create_ok_def short_def Let_def read_simps)
qed

fun TokenCreate_ok :: "token_create \<Rightarrow> bool" where
  "TokenCreate_ok (Create_20 d) = Token20Create_ok d"
| "TokenCreate_ok (Create_721 d) = Token721Create_ok d"

interpretation create: exact_codec TokenCreate_ok TokenCreate_Serialize TokenCreate_Deserialize
proof
  fix s d rest
  show "TokenCreate_Deserialize s = Inr (d, rest) \<longleftrightarrow> TokenCreate_ok d \<and> s = TokenCreate_Serialize d @ rest"
  proof (cases d)
    case (Create_20 c)
    then show ?thesis
      by (auto simp: TokenCreate_Deserialize_def read_simps create20.dec_exact intro!: exI [of _ TYPE_20] split: if_splits)
  next
    case (Create_721 c)
    then show ?thesis
      by (auto simp: TokenCreate_Deserialize_def read_simps create721.dec_exact intro!: exI [of _ TYPE_721] split: if_splits)
  qed
qed

definition TokenMint_ok :: "token_mint \<Rightarrow> bool" where
  "TokenMint_ok d \<longleftrightarrow> TokenMint_CheckData d = None \<and> short (xm_uri d) \<and> (xm_type d = TYPE_721 \<or> xm_uri d = [])"

interpretation mint: exact_codec TokenMint_ok TokenMint_Serialize TokenMint_Deserialize
proof
  fix s d rest
  show "TokenMint_Deserialize s = Inr (d, rest) \<longleftrightarrow> TokenMint_ok d \<and> s = TokenMint_Serialize d @ rest"
    by (cases d)
      (auto simp: TokenMint_Deserialize_def TokenMint_Serialize_def TokenMint_ok_def TokenMint_CheckData_def short_def Let_def
        read_simps)
qed

definition TokenBurn_ok :: "token_burn \<Rightarrow> bool" where
  "TokenBurn_ok d \<longleftrightarrow> TokenBurn_CheckData d = None"

interpretation burn: exact_codec TokenBurn_ok TokenBurn_Serialize TokenBurn_Deserialize
proof
  fix s d rest
  show "TokenBurn_Deserialize s = Inr (d, rest) \<longleftrightarrow> TokenBurn_ok d \<and> s = TokenBurn_Serialize d @ rest"
    by (cases d)
      (auto simp: TokenBurn_Deserialize_def TokenBurn_Serialize_def TokenBurn_ok_def TokenBurn_CheckData_def Let_def read_simps)
qed

definition TokenInfo_ok :: "token_info \<Rightarrow> bool" where
  "TokenInfo_ok d \<longleftrightarrow> TokenInfo_CheckData d = None"

interpretation info: exact_codec TokenInfo_ok TokenInfo_Serialize TokenInfo_Deserialize
proof
  fix s d rest
  show "TokenInfo_Deserialize s = Inr (d, rest) \<longleftrightarrow> TokenInfo_ok d \<and> s = TokenInfo_Serialize d @ rest"
    by (cases d)
      (auto simp: TokenInfo_Deserialize_def TokenInfo_Serialize_def TokenInfo_ok_def TokenInfo_CheckData_def Let_def read_simps)
qed

lemmas info_exact [read_simps] = info.dec_exact

lemmas write_simps = READ_OR_def PARSE_def CHECKED_def Read_Write_widths info.dec_enc

definition TokenSend_ok :: "token_send \<Rightarrow> bool" where
  "TokenSend_ok d \<longleftrightarrow> TokenSend_CheckData d = None"

interpretation send: exact_codec TokenSend_ok TokenSend_Serialize TokenSend_Deserialize
proof
  fix s d rest
  show "TokenSend_Deserialize s = Inr (d, rest) \<longleftrightarrow> TokenSend_ok d \<and> s = TokenSend_Serialize d @ rest"
    by (cases d)
      (auto simp: TokenSend_Deserialize_def TokenSend_Serialize_def TokenSend_ok_def TokenSend_CheckData_def TokenInfo_ok_def
        Let_def read_simps)
qed

definition TokenUnmap_ok :: "token_unmap \<Rightarrow> bool" where
  "TokenUnmap_ok d \<longleftrightarrow> TokenUnmap_CheckData d = None"

interpretation unmap: exact_codec TokenUnmap_ok TokenUnmap_Serialize TokenUnmap_Deserialize
proof
  fix s d rest
  show "TokenUnmap_Deserialize s = Inr (d, rest) \<longleftrightarrow> TokenUnmap_ok d \<and> s = TokenUnmap_Serialize d @ rest"
    by (cases d)
      (auto simp: TokenUnmap_Deserialize_def TokenUnmap_Serialize_def TokenUnmap_ok_def TokenUnmap_CheckData_def TokenInfo_ok_def
        Let_def read_simps)
qed

definition TokenWrap_ok :: "token_wrap \<Rightarrow> bool" where
  "TokenWrap_ok d \<longleftrightarrow> TokenWrap_CheckData d = None"

interpretation wrap: exact_codec TokenWrap_ok TokenWrap_Serialize TokenWrap_Deserialize
proof
  fix s d rest
  show "TokenWrap_Deserialize s = Inr (d, rest) \<longleftrightarrow> TokenWrap_ok d \<and> s = TokenWrap_Serialize d @ rest"
    by (cases d)
      (auto simp: TokenWrap_Deserialize_def TokenWrap_Serialize_def TokenWrap_ok_def TokenWrap_CheckData_def TokenInfo_ok_def
        Let_def read_simps)
qed

section \<open>Receipts\<close>

text \<open>A receipt whose source has an index that was not there: it is accepted with the member left as it was.\<close>

definition index_lost :: "token_receive \<Rightarrow> bool" where
  "index_lost d \<longleftrightarrow> has_index (xr_source d) \<and> xr_index d = None"

definition TokenReceive_ok :: "token_receive \<Rightarrow> bool" where
  "TokenReceive_ok d \<longleftrightarrow> TokenReceive_CheckData d = None \<and>
     (xr_source d = SOURCE_UNWRAP \<or> xr_unwrap_chain d = CHAIN_INVALID) \<and>
     (has_index (xr_source d) \<or> xr_index d = None)"

lemma source_read_known:
  "source_read SOURCE_SEND" "source_read SOURCE_MAP" "source_read SOURCE_UNWRAP" "source_read SOURCE_SWAP"
  "source_read SOURCE_MINT" "source_read SOURCE_REFUND"
  by (simp_all add: source_read_def token_source_of_def)

lemma source_checked: "TokenReceive_CheckData d = None \<Longrightarrow> source_read (xr_source d)"
  by (cases "xr_source d") (auto simp: TokenReceive_CheckData_def source_read_known)

definition Read_index :: "token_source \<Rightarrow> bytes \<Rightarrow> u64 option \<times> bytes" where
  "Read_index src s =
     (if has_index src
      then (case (Read s :: (u64 \<times> bytes) option) of Some (i, s) \<Rightarrow> (Some i, s) | None \<Rightarrow> (None, drop 8 s))
      else (None, s))"

lemma Read_u64_None: "(Read s :: (u64 \<times> bytes) option) = None \<longleftrightarrow> length s < 8"
  by (simp add: Read_def sgetn_def)

lemma case_prod_Inr: "(case p of (a, b) \<Rightarrow> k a b) = Inr x \<longleftrightarrow> (\<exists>a b. p = (a, b) \<and> k a b = Inr x)"
  by (cases p) simp

lemma Write_u64_eq: "Write (i :: u64) = Write j \<longleftrightarrow> i = j"
  by (rule u64_codec.enc_inject) simp_all

lemma Read_index_exact:
  "Read_index src s = (i, rest) \<longleftrightarrow>
     (if has_index src
      then (case i of Some n \<Rightarrow> s = Write n @ rest | None \<Rightarrow> length s < 8 \<and> rest = [])
      else i = None \<and> rest = s)"
  by (auto simp: Read_index_def Read_u64_None Write_u64_eq read_simps split: option.splits)

lemma TokenReceive_exact:
  "TokenReceive_Deserialize s = Inr (d, rest) \<longleftrightarrow>
     TokenReceive_ok d \<and>
     (\<exists>junk. s = TokenReceive_Serialize d @ junk \<and>
       (if index_lost d then length junk < 8 \<and> rest = [] else rest = junk))"
proof -
  have "TokenReceive_Deserialize s = Inr (d, rest) \<longleftrightarrow>
      TokenReceive_CheckData d = None \<and> TokenInfo_ok (xr_token d) \<and> source_read (xr_source d) \<and>
      (xr_source d = SOURCE_UNWRAP \<or> xr_unwrap_chain d = CHAIN_INVALID) \<and>
      (\<exists>t. s = TokenInfo_Serialize (xr_token d) @ Write (of_token_source (xr_source d)) @ Write (xr_from d) @
          Write (xr_block_height d) @ Write (xr_tx_hash d) @ Write (xr_value d) @
          (if xr_source d = SOURCE_UNWRAP then Write (xr_unwrap_chain d) else []) @ t \<and>
        Read_index (xr_source d) t = (xr_index d, rest))"
    unfolding TokenReceive_Deserialize_def Read_index_def [symmetric]
    by (cases d, auto simp: Let_def read_simps case_prod_Inr, (rule exI conjI refl | assumption | simp)+)
  then show ?thesis
    by (cases "xr_index d")
      (auto simp: TokenReceive_ok_def TokenReceive_Serialize_def Read_index_exact index_lost_def source_checked
        source_read_known TokenReceive_CheckData_def TokenInfo_ok_def split: if_splits)
qed

section \<open>Swaps\<close>

definition SwapMake_ok :: "swap_make \<Rightarrow> bool" where
  "SwapMake_ok d \<longleftrightarrow> SwapMake_CheckData d = None \<and>
     (FungiblePair (wm_token_offer d) (wm_token_want d) \<or> wm_min_offer d = 0 \<and> wm_max_offer d = 0)"

lemma SwapMake_tokens: "SwapMake_CheckData d = None \<Longrightarrow> TokenInfo_ok (wm_token_offer d) \<and> TokenInfo_ok (wm_token_want d)"
  by (simp add: SwapMake_CheckData_def TokenInfo_ok_def)

lemma SwapMake_reads:
  "SwapMake_ok d \<Longrightarrow> SwapMake_Deserialize (SwapMake_Serialize d @ rest) = Inr (d, rest)"
  using SwapMake_tokens [of d]
  by (cases d)
    (auto simp: SwapMake_Deserialize_def SwapMake_Serialize_def SwapMake_ok_def Let_def write_simps)

lemma SwapMake_read:
  "SwapMake_Deserialize s = Inr (d, rest) \<Longrightarrow> SwapMake_ok d \<and> s = SwapMake_Serialize d @ rest"
  by (auto simp: SwapMake_Deserialize_def SwapMake_Serialize_def SwapMake_ok_def Let_def read_simps)

interpretation swap_make_codec: exact_codec SwapMake_ok SwapMake_Serialize SwapMake_Deserialize
  by unfold_locales (auto simp: SwapMake_reads dest: SwapMake_read)

definition SwapInquiry_ok :: "(u256 \<Rightarrow> bool) \<Rightarrow> swap_inquiry \<Rightarrow> bool" where
  "SwapInquiry_ok valid_key d \<longleftrightarrow> SwapInquiry_CheckData valid_key d = None"

interpretation inquiry: exact_codec "SwapInquiry_ok valid_key" SwapInquiry_Serialize "SwapInquiry_Deserialize valid_key"
  for valid_key
proof
  fix s d rest
  show "SwapInquiry_Deserialize valid_key s = Inr (d, rest) \<longleftrightarrow> SwapInquiry_ok valid_key d \<and> s = SwapInquiry_Serialize d @ rest"
    by (cases d) (auto simp: SwapInquiry_Deserialize_def SwapInquiry_Serialize_def SwapInquiry_ok_def Let_def read_simps)
qed

definition SwapInquiryAck_ok :: "(u256 \<Rightarrow> bool) \<Rightarrow> swap_inquiry_ack \<Rightarrow> bool" where
  "SwapInquiryAck_ok valid_key d \<longleftrightarrow> SwapInquiryAck_CheckData valid_key d = None"

interpretation inquiry_ack: exact_codec "SwapInquiryAck_ok valid_key" SwapInquiryAck_Serialize
  "SwapInquiryAck_Deserialize valid_key" for valid_key
proof
  fix s d rest
  show "SwapInquiryAck_Deserialize valid_key s = Inr (d, rest) \<longleftrightarrow>
      SwapInquiryAck_ok valid_key d \<and> s = SwapInquiryAck_Serialize d @ rest"
    by (cases d)
      (auto simp: SwapInquiryAck_Deserialize_def SwapInquiryAck_Serialize_def SwapInquiryAck_ok_def Let_def read_simps)
qed

definition SwapTakeAck_ok :: "swap_take_ack \<Rightarrow> bool" where
  "SwapTakeAck_ok d \<longleftrightarrow> SwapTakeAck_CheckData d = None"

interpretation take_ack: exact_codec SwapTakeAck_ok SwapTakeAck_Serialize SwapTakeAck_Deserialize
proof
  fix s d rest
  show "SwapTakeAck_Deserialize s = Inr (d, rest) \<longleftrightarrow> SwapTakeAck_ok d \<and> s = SwapTakeAck_Serialize d @ rest"
    by (cases d) (auto simp: SwapTakeAck_Deserialize_def SwapTakeAck_Serialize_def SwapTakeAck_ok_def Let_def read_simps)
qed

lemma no_sub_op_11: "\<not> (11 :: u8) \<le> 1"
  by code_simp

fun TokenSwap_ok :: "(u256 \<Rightarrow> bool) \<Rightarrow> token_swap \<Rightarrow> bool" where
  "TokenSwap_ok valid_key (Swap_Make d) = SwapMake_ok d"
| "TokenSwap_ok valid_key d = (TokenSwap_CheckData valid_key d = None)"

interpretation swap: exact_codec "TokenSwap_ok valid_key" TokenSwap_Serialize "TokenSwap_Deserialize valid_key"
  for valid_key
proof
  fix s d rest
  show "TokenSwap_Deserialize valid_key s = Inr (d, rest) \<longleftrightarrow> TokenSwap_ok valid_key d \<and> s = TokenSwap_Serialize d @ rest"
    by (cases d)
      (auto simp: TokenSwap_Deserialize_def TokenSwap_Serialize_def CheckSubOp_def no_sub_op_11 read_simps swap_make_codec.dec_exact
        inquiry.dec_exact inquiry_ack.dec_exact take_ack.dec_exact SwapInquiry_ok_def SwapInquiryAck_ok_def SwapTakeAck_ok_def
        intro!: exI [of _ "sub_op d"] split: if_splits)
qed

section \<open>Token extensions\<close>

fun TokenData_ok :: "(u256 \<Rightarrow> bool) \<Rightarrow> token_data \<Rightarrow> bool" where
  "TokenData_ok valid_key (Token_Create d) = TokenCreate_ok d"
| "TokenData_ok valid_key (Token_Mint d) = TokenMint_ok d"
| "TokenData_ok valid_key (Token_Burn d) = TokenBurn_ok d"
| "TokenData_ok valid_key (Token_Send d) = TokenSend_ok d"
| "TokenData_ok valid_key (Token_Receive d) = TokenReceive_ok d"
| "TokenData_ok valid_key (Token_Swap d) = TokenSwap_ok valid_key d"
| "TokenData_ok valid_key (Token_Unmap d) = TokenUnmap_ok d"
| "TokenData_ok valid_key (Token_Wrap d) = TokenWrap_ok d"

text \<open>How many bytes may follow the operation: up to seven in the place of a lost index.\<close>

fun slack :: "token_data \<Rightarrow> nat" where
  "slack (Token_Receive d) = (if index_lost d then 7 else 0)"
| "slack _ = 0"

lemma TokenData_exact:
  "(\<exists>rest. TokenData_Deserialize valid_key op s = Inr (d, rest) \<and> StreamEnd rest) \<longleftrightarrow>
     op = token_op d \<and> TokenData_ok valid_key d \<and>
     (\<exists>junk. s = TokenData_Serialize d @ junk \<and> length junk \<le> slack d)"
  by (cases d)
    (auto simp: TokenData_Deserialize_def StreamEnd_def read_simps create.dec_exact mint.dec_exact burn.dec_exact send.dec_exact
      TokenReceive_exact swap.dec_exact unmap.dec_exact wrap.dec_exact)

lemma Token_Value_long: "TokenData_ok valid_key d \<Longrightarrow> 0 < length (TokenData_Serialize d)"
  by (cases d; cases "case d of Token_Create c \<Rightarrow> c | _ \<Rightarrow> undefined")
    (simp_all add: TokenMint_Serialize_def TokenBurn_Serialize_def TokenSend_Serialize_def TokenReceive_Serialize_def
      TokenInfo_Serialize_def TokenSwap_Serialize_def TokenUnmap_Serialize_def TokenWrap_Serialize_def)

lemma Token_FromExtension_exact:
  "Token_FromExtension valid_key e = Inr d \<longleftrightarrow>
     xt_type e = EXTENSION_TOKEN \<and> TokenData_ok valid_key d \<and>
     (\<exists>junk. xt_value e = Token_Value d @ junk \<and> length junk \<le> slack d)"
proof -
  have op: "token_op d \<noteq> 0 \<and> \<not> 9 \<le> token_op d"
    by (cases d) (simp_all add: word_le_nat_alt)
  have "Token_FromExtension valid_key e = Inr d \<longleftrightarrow>
      xt_type e = EXTENSION_TOKEN \<and> 1 < length (xt_value e) \<and> hd (xt_value e) \<noteq> 0 \<and> \<not> 9 \<le> hd (xt_value e) \<and>
      (\<exists>rest. TokenData_Deserialize valid_key (hd (xt_value e)) (tl (xt_value e)) = Inr (d, rest) \<and> StreamEnd rest)"
    by (auto simp: Token_FromExtension_def Let_def split: sum.splits if_splits)
  also have "\<dots> \<longleftrightarrow> xt_type e = EXTENSION_TOKEN \<and> 1 < length (xt_value e) \<and> hd (xt_value e) = token_op d \<and>
      TokenData_ok valid_key d \<and> (\<exists>junk. tl (xt_value e) = TokenData_Serialize d @ junk \<and> length junk \<le> slack d)"
    using op by (auto simp: TokenData_exact)
  also have "\<dots> \<longleftrightarrow> xt_type e = EXTENSION_TOKEN \<and> TokenData_ok valid_key d \<and>
      (\<exists>junk. xt_value e = Token_Value d @ junk \<and> length junk \<le> slack d)"
    using Token_Value_long [of valid_key d] by (cases "xt_value e") (auto simp: Token_Value_def Write_u8)
  finally show ?thesis .
qed

section \<open>Lists of extensions\<close>

definition extensions_ok :: "extension list \<Rightarrow> bool" where
  "extensions_ok es \<longleftrightarrow> 0 \<notin> xt_type ` set es \<and> Extensions_SerialSize es \<le> MAX_EXTENSIONS_SIZE"

lemma Extension_Bytes_length: "length (Extension_Bytes e) = Extension_SerialSize e"
  by (simp add: Extension_Bytes_def Extension_SerialSize_def)

lemma Extensions_Bytes_length: "length (Extensions_Bytes es) = Extensions_SerialSize es"
  by (induction es) (simp_all add: Extensions_Bytes_def Extensions_SerialSize_def Extension_Bytes_length)

lemma Extensions_Bytes_simps [simp]:
  "Extensions_Bytes [] = []" "Extensions_Bytes (e # es) = Extension_Bytes e @ Extensions_Bytes es"
  by (simp_all add: Extensions_Bytes_def)

text \<open>The loop counts the bytes it has read and collects what the writer would have written for them.\<close>

lemma FromBytes_loop_sound:
  "FromBytes_loop s count es = Inr (n, fs) \<Longrightarrow>
     \<exists>gs junk. fs = es @ gs \<and> 0 \<notin> xt_type ` set gs \<and> s = Extensions_Bytes gs @ junk \<and> length junk < 2 \<and>
       n = count + Extensions_SerialSize gs"
proof (induction s count es rule: FromBytes_loop.induct)
  case (1 s count es)
  show ?case
  proof (cases "Read s :: (u16 \<times> bytes) option")
    case None
    then have "length s < 2"
      by (auto simp: Read_def sgetn_def split: if_splits)
    then show ?thesis
      using 1(2) None by (auto simp: FromBytes_loop.simps [of s] Extensions_SerialSize_def split: if_splits)
  next
    case (Some p)
    obtain type s1 where p: "p = (type, s1)" by (cases p)
    obtain len :: u16 and s2 val s3
      where len: "Read s1 = Some (len, s2)" and val: "Read_vector (unat len) [] s2 = Some (val, s3)"
        and rest: "FromBytes_loop s3 (count + 2 + 2 + unat len) (es @ [\<lparr>xt_type = type, xt_value = val\<rparr>]) = Inr (n, fs)"
        and type: "type \<noteq> 0"
      using 1(2) Some p by (auto simp: FromBytes_loop.simps [of s] split: if_splits option.splits)
    obtain gs junk where gs: "fs = (es @ [\<lparr>xt_type = type, xt_value = val\<rparr>]) @ gs" "0 \<notin> xt_type ` set gs"
        "s3 = Extensions_Bytes gs @ junk" "length junk < 2" "n = count + 2 + 2 + unat len + Extensions_SerialSize gs"
      using 1(1) [OF Some p [symmetric] type len refl val refl rest] by blast
    have "s = Extension_Bytes \<lparr>xt_type = type, xt_value = val\<rparr> @ s3" "unat len = length val"
      using Some p len val by (auto simp: Extension_Bytes_def Read_exact Read_vector_iff)
    then show ?thesis
      using gs type
      by (intro exI [of _ "\<lparr>xt_type = type, xt_value = val\<rparr> # gs"] exI [of _ junk])
        (simp add: Extensions_SerialSize_def Extension_SerialSize_def)
  qed
qed

lemma FromBytes_loop_complete:
  "extensions_ok gs \<Longrightarrow>
     FromBytes_loop (Extensions_Bytes gs) count es = Inr (count + Extensions_SerialSize gs, es @ gs)"
proof (induction gs arbitrary: count es)
  case Nil
  then show ?case
    by (simp add: FromBytes_loop.simps [of "[]"] Read_def sgetn_def StreamEnd_def Extensions_SerialSize_def)
next
  case (Cons g gs)
  have g: "xt_type g \<noteq> 0" "length (xt_value g) < 65536" "extensions_ok gs"
    using Cons.prems by (auto simp: extensions_ok_def Extensions_SerialSize_def Extension_SerialSize_def MAX_EXTENSIONS_SIZE_def)
  then have "unat (of_nat (length (xt_value g)) :: u16) = length (xt_value g)"
    by (simp add: unat_of_nat)
  then show ?case
    using Cons.IH [OF g(3)] g(1)
    by (subst FromBytes_loop.simps)
      (simp add: Extension_Bytes_def Read_Write_widths Read_vector_exact Extensions_SerialSize_def Extension_SerialSize_def)
qed

lemma Extensions_FromBytes_exact:
  "Extensions_FromBytes bs [] = Inr es \<longleftrightarrow> extensions_ok es \<and> bs = Extensions_Bytes es"
proof
  assume l: "Extensions_FromBytes bs [] = Inr es"
  show "extensions_ok es \<and> bs = Extensions_Bytes es"
  proof (cases "bs = []")
    case True
    then show ?thesis
      using l by (simp add: Extensions_FromBytes_def extensions_ok_def Extensions_SerialSize_def)
  next
    case False
    then have size: "length bs \<le> MAX_EXTENSIONS_SIZE" and loop: "FromBytes_loop bs 0 [] = Inr (length bs, es)"
      using l by (auto simp: Extensions_FromBytes_def split: if_splits sum.splits)
    show ?thesis
      using FromBytes_loop_sound [OF loop] size by (auto simp: extensions_ok_def Extensions_Bytes_length)
  qed
next
  assume r: "extensions_ok es \<and> bs = Extensions_Bytes es"
  have "Extensions_Bytes es = [] \<Longrightarrow> es = []"
    by (cases es) (simp_all add: Extension_Bytes_def flip: length_0_conv)
  then show "Extensions_FromBytes bs [] = Inr es"
    using r FromBytes_loop_complete [of es 0 "[]"] Extensions_Bytes_length [of es]
    by (auto simp: Extensions_FromBytes_def extensions_ok_def)
qed

end
