(* ===== verification/Peers.thy ===== *)
theory Peers
  imports NodeState
begin

text \<open>
  The table of peers, \<open>rai/node/peer.cpp\<close> with \<open>Proxy\<close> and \<open>IsReservedIp\<close> of \<open>rai/node/network.cpp\<close>: peers in two
  containers by weight, cookies of handshakes, and the index of full nodes. A multi-index container is the list of
  its elements in the order of its random-access index. A random number of \<open>GenerateWord32 (0, n - 1)\<close> is a draw modulo
  \<open>n\<close>. An unordered set is iterated in the order of insertion. What the table sends is \<open>ps_sent\<close>.
\<close>

section \<open>Addresses and proxies\<close>

definition IsReservedIp :: "u32 \<Rightarrow> bool" where
  "IsReservedIp ip \<longleftrightarrow>
     ip \<ge> 0x00000000 \<and> ip \<le> 0x00ffffff \<or> ip \<ge> 0x7f000000 \<and> ip \<le> 0x7fffffff \<or>
     ip \<ge> 0x0a000000 \<and> ip \<le> 0x0affffff \<or> ip \<ge> 0xac100000 \<and> ip \<le> 0xac1fffff \<or>
     ip \<ge> 0xc0a80000 \<and> ip \<le> 0xc0a8ffff \<or> ip \<ge> 0xc0000200 \<and> ip \<le> 0xc00002ff \<or>
     ip \<ge> 0xc6336400 \<and> ip \<le> 0xc63364ff \<or> ip \<ge> 0xcb007100 \<and> ip \<le> 0xcb0071ff \<or>
     ip \<ge> 0x64400000 \<and> ip \<le> 0x647fffff \<or> ip \<ge> 0xe0000000 \<and> ip \<le> 0xefffffff \<or>
     ip \<ge> 0xf0000000 \<and> ip \<le> 0xffffffff"

definition InvalidIp :: u32 where "InvalidIp = 0xffffffff"

record proxy =
  px_endpoint :: endpoint
  px_priority :: u32

text \<open>The 32-bit words of an account as a little-endian machine sees its bytes.\<close>

definition dwords :: "u256 \<Rightarrow> u32 list" where
  "dwords account = map (\<lambda>i. of_nat (be_val (rev (take 4 (drop (4 * i) (Write account)))))) [0..<8]"

definition Priority_of :: "u32 \<Rightarrow> u256 \<Rightarrow> u256 \<Rightarrow> u32" where
  "Priority_of ip node_account target_account = fold xor (dwords node_account @ dwords target_account) ip"

definition Proxy_new :: "endpoint \<Rightarrow> u256 \<Rightarrow> u256 \<Rightarrow> proxy" where
  "Proxy_new endpoint node_account target_account =
     \<lparr>px_endpoint = endpoint, px_priority = Priority_of (ep_ip endpoint) node_account target_account\<rparr>"

definition Proxy_eq :: "proxy \<Rightarrow> proxy \<Rightarrow> bool" where
  "Proxy_eq x y \<longleftrightarrow> px_endpoint x = px_endpoint y"

section \<open>Cookies and peers\<close>

record cookie =
  ck_endpoint :: endpoint
  ck_cookie :: u256
  ck_learned_from :: "endpoint option"
  ck_account :: "u256 option"
  ck_cutoff_time :: time_point
  ck_attempts :: u32
  ck_use_proxy :: bool
  ck_syn_direct :: bool
  ck_syn_proxy :: bool

definition COOKIE_CUTOFF_TIME :: time_point where "COOKIE_CUTOFF_TIME = 3"
definition MAX_COOKIE_ATTEMPTS :: u32 where "MAX_COOKIE_ATTEMPTS = 4"
definition MAX_PEERS_PER_IP :: nat where "MAX_PEERS_PER_IP = 1"
definition MAX_PEERS_PER_PROXY :: nat where "MAX_PEERS_PER_PROXY = 2"
definition PEER_MAX_TIMESTAMP_DIFF :: u64 where "PEER_MAX_TIMESTAMP_DIFF = 300"
definition PEER_CUTOFF_TIME :: time_point where "PEER_CUTOFF_TIME = 300"
definition PEER_ATTEMPT_TIME :: time_point where "PEER_ATTEMPT_TIME = 60"
definition MAX_LOST_ACKS :: u8 where "MAX_LOST_ACKS = 5"

text \<open>The three constructors differ in what they know; \<open>rnd\<close> is the block of random bytes.\<close>

definition Cookie_new :: "time_point \<Rightarrow> u256 \<Rightarrow> endpoint \<Rightarrow> endpoint option \<Rightarrow> u256 option \<Rightarrow> cookie" where
  "Cookie_new now rnd remote learned_from account =
     \<lparr>ck_endpoint = remote, ck_cookie = rnd, ck_learned_from = learned_from, ck_account = account,
      ck_cutoff_time = now + COOKIE_CUTOFF_TIME, ck_attempts = 0, ck_use_proxy = False, ck_syn_direct = False,
      ck_syn_proxy = False\<rparr>"

record peer =
  pr_account :: u256
  pr_ip :: u32
  pr_port :: u16
  pr_version :: u8
  pr_version_min :: u8
  pr_lost_acks :: u8
  pr_light_node :: bool
  pr_rep_weight :: u128
  pr_proxy :: "proxy option"
  pr_proxy_secondary :: "proxy option"
  pr_timestamp :: u64
  pr_last_contact :: time_point
  pr_last_attempt :: time_point
  pr_last_hash :: u256

text \<open>A peer from a cookie. \<open>None\<close> is an optional that is read but not set.\<close>

definition Peer_new :: "time_point \<Rightarrow> cookie \<Rightarrow> u256 \<Rightarrow> u8 \<Rightarrow> u8 \<Rightarrow> u128 \<Rightarrow> peer option" where
  "Peer_new now cookie node_secure version vmin rep_weight =
     (case ck_account cookie of
        None \<Rightarrow> None
      | Some account \<Rightarrow>
          let p = \<lparr>pr_account = account, pr_ip = ep_ip (ck_endpoint cookie), pr_port = ep_port (ck_endpoint cookie),
                   pr_version = version, pr_version_min = vmin, pr_lost_acks = 0, pr_light_node = False,
                   pr_rep_weight = rep_weight, pr_proxy = None, pr_proxy_secondary = None, pr_timestamp = 0,
                   pr_last_contact = now, pr_last_attempt = 0, pr_last_hash = 0\<rparr>
          in if ck_use_proxy cookie
             then (case ck_learned_from cookie of
                None \<Rightarrow> None
              | Some from \<Rightarrow> Some (p\<lparr>pr_proxy := Some (Proxy_new from node_secure account)\<rparr>))
             else Some p)"

definition Peer_less :: "peer \<Rightarrow> peer \<Rightarrow> bool" where
  "Peer_less p q \<longleftrightarrow>
     (if pr_account p = pr_account q then False
      else if pr_proxy p \<noteq> None \<and> pr_proxy q = None then True
      else if pr_proxy p = None \<and> pr_proxy q \<noteq> None then False
      else if pr_rep_weight p \<noteq> pr_rep_weight q then pr_rep_weight p < pr_rep_weight q
      else pr_account p < pr_account q)"

text \<open>The flag is the one \<open>SetProxy\<close> returns: nothing was changed.\<close>

definition SetProxy :: "proxy \<Rightarrow> peer \<Rightarrow> bool \<times> peer" where
  "SetProxy proxy p =
     (case pr_proxy p of
        None \<Rightarrow> (False, p\<lparr>pr_proxy := Some proxy\<rparr>)
      | Some first \<Rightarrow>
          if Proxy_eq proxy first then (True, p)
          else if (case pr_proxy_secondary p of None \<Rightarrow> True | Some second \<Rightarrow> px_priority proxy > px_priority second)
          then (False, if px_priority proxy > px_priority first
                       then p\<lparr>pr_proxy := Some proxy, pr_proxy_secondary := Some first\<rparr>
                       else p\<lparr>pr_proxy_secondary := Some proxy\<rparr>)
          else (True, p))"

definition Peer_Endpoint :: "peer \<Rightarrow> endpoint" where
  "Peer_Endpoint p = \<lparr>ep_ip = pr_ip p, ep_port = pr_port p\<rparr>"

definition proxy_key :: "proxy option \<Rightarrow> u32" where
  "proxy_key x = (case x of None \<Rightarrow> InvalidIp | Some proxy \<Rightarrow> ep_ip (px_endpoint proxy))"

definition KeyProxy :: "peer \<Rightarrow> u32" where "KeyProxy p = proxy_key (pr_proxy p)"
definition KeyProxySecondary :: "peer \<Rightarrow> u32" where "KeyProxySecondary p = proxy_key (pr_proxy_secondary p)"

definition Peer_Route :: "peer \<Rightarrow> route" where
  "Peer_Route p = (case pr_proxy p of
     Some proxy \<Rightarrow> \<lparr>rt_use_proxy = True, rt_peer_endpoint = Peer_Endpoint p, rt_proxy_endpoint = px_endpoint proxy\<rparr>
   | None \<Rightarrow> \<lparr>rt_use_proxy = False, rt_peer_endpoint = Peer_Endpoint p, rt_proxy_endpoint = Endpoint_new\<rparr>)"

definition SwitchProxy :: "peer \<Rightarrow> peer" where
  "SwitchProxy p = p\<lparr>pr_proxy := pr_proxy_secondary p, pr_proxy_secondary := None\<rparr>"

definition LowWeightPeer :: "peer \<Rightarrow> bool" where
  "LowWeightPeer p \<longleftrightarrow> pr_rep_weight p < 256 * RAI"

section \<open>The table\<close>

record peers =
  ps_peers :: "peer list"
  ps_low_weight :: "peer list"
  ps_cookies :: "cookie list"
  ps_full_nodes :: "u256 list"
  ps_sent :: "(endpoint \<times> message) list"

definition Peers_new :: peers where
  "Peers_new = \<lparr>ps_peers = [], ps_low_weight = [], ps_cookies = [], ps_full_nodes = [], ps_sent = []\<rparr>"

text \<open>The peers of both containers, those of normal weight first.\<close>

definition all_peers :: "peers \<Rightarrow> peer list" where
  "all_peers ps = ps_peers ps @ ps_low_weight ps"

definition find_peer :: "u256 \<Rightarrow> peer list \<Rightarrow> peer option" where
  "find_peer account = find (\<lambda>p. pr_account p = account)"

definition Peers_Query :: "u256 \<Rightarrow> peers \<Rightarrow> peer option" where
  "Peers_Query account ps = (case find_peer account (ps_peers ps) of
     Some p \<Rightarrow> Some p
   | None \<Rightarrow> find_peer account (ps_low_weight ps))"

definition UpdateFullNodeIndex :: "peer \<Rightarrow> peers \<Rightarrow> peers" where
  "UpdateFullNodeIndex p ps =
     (if pr_light_node p then ps\<lparr>ps_full_nodes := filter (\<lambda>a. a \<noteq> pr_account p) (ps_full_nodes ps)\<rparr>
      else if pr_account p \<in> set (ps_full_nodes ps) then ps
      else ps\<lparr>ps_full_nodes := ps_full_nodes ps @ [pr_account p]\<rparr>)"

definition RemoveFullNodeIndex :: "u256 \<Rightarrow> peers \<Rightarrow> peers" where
  "RemoveFullNodeIndex account ps = ps\<lparr>ps_full_nodes := filter (\<lambda>a. a \<noteq> account) (ps_full_nodes ps)\<rparr>"

definition add_peer :: "peer \<Rightarrow> peer list \<Rightarrow> peer list" where
  "add_peer p xs = (if find_peer (pr_account p) xs = None then xs @ [p] else xs)"

definition Peers_insert :: "peer \<Rightarrow> peers \<Rightarrow> peers" where
  "Peers_insert p ps =
     (let ps = UpdateFullNodeIndex p ps in
      if LowWeightPeer p then ps\<lparr>ps_low_weight := add_peer p (ps_low_weight ps)\<rparr>
      else ps\<lparr>ps_peers := add_peer p (ps_peers ps)\<rparr>)"

definition erase_peer :: "u256 \<Rightarrow> peer list \<Rightarrow> peer list" where
  "erase_peer account = filter (\<lambda>p. pr_account p \<noteq> account)"

definition Peers_remove :: "u256 \<Rightarrow> peers \<Rightarrow> peers" where
  "Peers_remove account ps =
     (let ps = RemoveFullNodeIndex account ps in
      ps\<lparr>ps_peers := erase_peer account (ps_peers ps), ps_low_weight := erase_peer account (ps_low_weight ps)\<rparr>)"

definition put_peer :: "peer \<Rightarrow> peer list \<Rightarrow> peer list" where
  "put_peer p = map (\<lambda>q. if pr_account q = pr_account p then p else q)"

text \<open>The flag is the one \<open>Modify_\<close> returns: there is no such peer.\<close>

definition Peers_modify :: "peer \<Rightarrow> peers \<Rightarrow> bool \<times> peers" where
  "Peers_modify p ps =
     (let ps = UpdateFullNodeIndex p ps in
      if find_peer (pr_account p) (ps_peers ps) \<noteq> None then (False, ps\<lparr>ps_peers := put_peer p (ps_peers ps)\<rparr>)
      else if find_peer (pr_account p) (ps_low_weight ps) \<noteq> None
      then (False, ps\<lparr>ps_low_weight := put_peer p (ps_low_weight ps)\<rparr>)
      else (True, ps))"

definition CountByIp :: "u32 \<Rightarrow> peers \<Rightarrow> nat" where
  "CountByIp ip ps = length (filter (\<lambda>p. pr_ip p = ip) (all_peers ps))"

definition CountByProxy :: "u32 \<Rightarrow> peers \<Rightarrow> nat" where
  "CountByProxy ip ps =
     length (filter (\<lambda>p. KeyProxy p = ip) (all_peers ps)) + length (filter (\<lambda>p. KeyProxySecondary p = ip) (all_peers ps))"

section \<open>Limits per address\<close>

fun least_peer :: "peer option \<Rightarrow> peer list \<Rightarrow> peer option" where
  "least_peer best [] = best"
| "least_peer best (i # xs) =
     least_peer (case best of None \<Rightarrow> Some i | Some p \<Rightarrow> if Peer_less i p then Some i else Some p) xs"

definition PurgeByIp :: "u32 \<Rightarrow> peers \<Rightarrow> peers" where
  "PurgeByIp ip ps =
     (let on_ip = filter (\<lambda>p. pr_ip p = ip) in
      case least_peer None (on_ip (ps_peers ps) @ on_ip (ps_low_weight ps)) of
        None \<Rightarrow> ps
      | Some p \<Rightarrow> Peers_remove (pr_account p) ps)"

definition PurgeByProxy :: "u32 \<Rightarrow> peers \<Rightarrow> peers" where
  "PurgeByProxy ip ps =
     (let first = filter (\<lambda>p. KeyProxy p = ip); second = filter (\<lambda>p. KeyProxySecondary p = ip) in
      case least_peer None (first (ps_peers ps) @ second (ps_peers ps) @ first (ps_low_weight ps) @ second (ps_low_weight ps)) of
        None \<Rightarrow> ps
      | Some p \<Rightarrow> Peers_remove (pr_account p) ps)"

lemma least_peer_mem: "least_peer best xs = Some p \<Longrightarrow> best = Some p \<or> p \<in> set xs"
  by (induction xs arbitrary: best) (auto split: option.splits if_splits)

lemma least_peer_None: "least_peer best xs = None \<longleftrightarrow> best = None \<and> xs = []"
  by (induction xs arbitrary: best) (auto split: option.splits)

lemma all_peers_remove [simp]: "all_peers (Peers_remove account ps) = erase_peer account (all_peers ps)"
  by (simp add: all_peers_def Peers_remove_def RemoveFullNodeIndex_def erase_peer_def)

lemma length_erase_peer: "p \<in> set xs \<Longrightarrow> length (erase_peer (pr_account p) xs) < length xs"
  unfolding erase_peer_def by (rule length_filter_less) simp_all

lemma PurgeByIp_shrinks:
  assumes "0 < CountByIp ip ps"
  shows "length (all_peers (PurgeByIp ip ps)) < length (all_peers ps)"
proof -
  let ?xs = "filter (\<lambda>p. pr_ip p = ip) (ps_peers ps) @ filter (\<lambda>p. pr_ip p = ip) (ps_low_weight ps)"
  have "?xs \<noteq> []"
    using assms by (auto simp: CountByIp_def all_peers_def)
  then obtain p where p: "least_peer None ?xs = Some p"
    using least_peer_None [of None ?xs] by blast
  then have "p \<in> set (all_peers ps)"
    using least_peer_mem [OF p] by (auto simp: all_peers_def)
  then show ?thesis
    using p length_erase_peer by (simp add: PurgeByIp_def)
qed

lemma PurgeByProxy_shrinks:
  assumes "0 < CountByProxy ip ps"
  shows "length (all_peers (PurgeByProxy ip ps)) < length (all_peers ps)"
proof -
  let ?f = "filter (\<lambda>p. KeyProxy p = ip)" and ?s = "filter (\<lambda>p. KeyProxySecondary p = ip)"
  let ?xs = "?f (ps_peers ps) @ ?s (ps_peers ps) @ ?f (ps_low_weight ps) @ ?s (ps_low_weight ps)"
  have "?xs \<noteq> []"
    using assms by (auto simp: CountByProxy_def all_peers_def)
  then obtain p where p: "least_peer None ?xs = Some p"
    using least_peer_None [of None ?xs] by blast
  then have "p \<in> set (all_peers ps)"
    using least_peer_mem [OF p] by (auto simp: all_peers_def)
  then show ?thesis
    using p length_erase_peer by (simp add: PurgeByProxy_def)
qed

text \<open>The loop of \<open>Purge_\<close> returns: every turn that goes on removes a peer.\<close>

definition over_proxy :: "proxy option \<Rightarrow> peers \<Rightarrow> bool" where
  "over_proxy x ps \<longleftrightarrow> (case x of None \<Rightarrow> False | Some proxy \<Rightarrow> CountByProxy (ep_ip (px_endpoint proxy)) ps > MAX_PEERS_PER_PROXY)"

function Peers_purge :: "u256 \<Rightarrow> peers \<Rightarrow> peers" where
  "Peers_purge account ps = (case Peers_Query account ps of
     None \<Rightarrow> ps
   | Some p \<Rightarrow>
       if CountByIp (pr_ip p) ps > MAX_PEERS_PER_IP then Peers_purge account (PurgeByIp (pr_ip p) ps)
       else if over_proxy (pr_proxy p) ps then Peers_purge account (PurgeByProxy (KeyProxy p) ps)
       else if over_proxy (pr_proxy_secondary p) ps then Peers_purge account (PurgeByProxy (KeyProxySecondary p) ps)
       else ps)"
  by pat_completeness auto
termination
  by (relation "measure (\<lambda>(_, ps). length (all_peers ps))")
    (auto simp: over_proxy_def KeyProxy_def KeyProxySecondary_def proxy_key_def split: option.splits
      intro!: PurgeByIp_shrinks PurgeByProxy_shrinks)

declare Peers_purge.simps [simp del]

end
