(* ===== verification/PeerOps.thy ===== *)
theory PeerOps
  imports Peers
begin

text \<open>
  What the node asks of the table of peers, \<open>rai/node/peer.cpp\<close>, and how it answers handshakes and keeplives,
  \<open>NodeMessageVisitor::Handshake\<close> and \<open>NodeMessageVisitor::Keeplive\<close> of \<open>rai/node/node.cpp\<close> with the messages they send.
  \<open>self\<close> is the node: its account, its key and the secret \<open>secure_\<close>. \<open>now\<close> is the steady clock.
\<close>

record self =
  sf_account :: u256
  sf_private_key :: u256
  sf_secure :: u256

section \<open>Peers\<close>

text \<open>\<open>Peers::Insert\<close>: what happens to an account that is known, before the limits are applied.\<close>

datatype insertion = Keep_Old | Replace_Old | Change_Old peer

definition insertion_of :: "peer \<Rightarrow> peer \<Rightarrow> insertion" where
  "insertion_of old p = (case (pr_proxy old, pr_proxy p) of
     (None, Some _) \<Rightarrow> Keep_Old
   | (Some _, None) \<Rightarrow> Replace_Old
   | (None, None) \<Rightarrow>
       if pr_ip old < pr_ip p then Keep_Old
       else if pr_ip old > pr_ip p then Replace_Old
       else if pr_port old \<le> pr_port p then Keep_Old else Replace_Old
   | (Some first, Some proxy) \<Rightarrow>
       if pr_ip old = pr_ip p \<and> pr_port old = pr_port p
       then (case SetProxy proxy old of (ret, old) \<Rightarrow> if \<not> ret then Change_Old old else Keep_Old)
       else if px_priority proxy > px_priority first then Replace_Old else Keep_Old)"

definition Peers_Insert :: "peer \<Rightarrow> peers \<Rightarrow> peers" where
  "Peers_Insert p ps = (case Peers_Query (pr_account p) ps of
     None \<Rightarrow> Peers_purge (pr_account p) (Peers_insert p ps)
   | Some old \<Rightarrow> (case insertion_of old p of
       Keep_Old \<Rightarrow> ps
     | Replace_Old \<Rightarrow> Peers_purge (pr_account p) (Peers_insert p (Peers_remove (pr_account p) ps))
     | Change_Old old \<Rightarrow> Peers_purge (pr_account p) (snd (Peers_modify old ps))))"

definition SetPeerWeight :: "u256 \<Rightarrow> u128 \<Rightarrow> peers \<Rightarrow> peers" where
  "SetPeerWeight account amount ps = (case Peers_Query account ps of
     None \<Rightarrow> ps
   | Some old \<Rightarrow>
       let p = old\<lparr>pr_rep_weight := amount\<rparr> in
       if LowWeightPeer old = LowWeightPeer p then snd (Peers_modify p ps)
       else Peers_insert p (Peers_remove (pr_account old) ps))"

definition PeerWeights :: "peers \<Rightarrow> (u256 \<times> u128) list" where
  "PeerWeights ps = map (\<lambda>p. (pr_account p, pr_rep_weight p)) (ps_peers ps) @
     map (\<lambda>p. (pr_account p, pr_rep_weight p)) (ps_low_weight ps)"

text \<open>\<open>Node::UpdatePeerWeights\<close>; \<open>ledger_weight\<close> is the weight that the ledger has for an account, 0 for none.\<close>

definition UpdatePeerWeights :: "(u256 \<Rightarrow> u128) \<Rightarrow> peers \<Rightarrow> peers" where
  "UpdatePeerWeights ledger_weight ps =
     fold (\<lambda>(account, w) ps. if ledger_weight account \<noteq> w then SetPeerWeight account (ledger_weight account) ps else ps)
       (PeerWeights ps) ps"

definition CheckTimestamp :: "env \<Rightarrow> u256 \<Rightarrow> u64 \<Rightarrow> peers \<Rightarrow> bool" where
  "CheckTimestamp E account timestamp ps =
     (let now = CurrentTimestamp E; diff = (if now > timestamp then now - timestamp else timestamp - now) in
      if diff > PEER_MAX_TIMESTAMP_DIFF then True
      else case Peers_Query account ps of None \<Rightarrow> True | Some p \<Rightarrow> timestamp \<le> pr_timestamp p)"

definition Contact :: "time_point \<Rightarrow> u256 \<Rightarrow> u64 \<Rightarrow> u8 \<Rightarrow> u8 \<Rightarrow> peers \<Rightarrow> peers" where
  "Contact now account timestamp version vmin ps = (case Peers_Query account ps of
     None \<Rightarrow> ps
   | Some p \<Rightarrow> snd (Peers_modify
       (p\<lparr>pr_timestamp := timestamp, pr_last_contact := now, pr_version := version, pr_version_min := vmin\<rparr>) ps))"

definition ValidateKeepliveAck :: "u256 \<Rightarrow> u256 \<Rightarrow> peers \<Rightarrow> bool \<times> peers" where
  "ValidateKeepliveAck account hash ps = (case Peers_Query account ps of
     None \<Rightarrow> (True, ps)
   | Some p \<Rightarrow> if pr_last_hash p \<noteq> hash then (True, ps) else Peers_modify (p\<lparr>pr_lost_acks := 0\<rparr>) ps)"

definition Reachable_in :: "peer list \<Rightarrow> endpoint \<Rightarrow> bool" where
  "Reachable_in xs e \<longleftrightarrow> list_ex (\<lambda>p. pr_ip p = ep_ip e \<and> pr_port p = ep_port e \<and> pr_proxy p = None) xs"

definition Peers_Reachable :: "endpoint \<Rightarrow> peers \<Rightarrow> bool" where
  "Peers_Reachable e ps \<longleftrightarrow> \<not> IsReservedIp (ep_ip e) \<and> (Reachable_in (ps_peers ps) e \<or> Reachable_in (ps_low_weight ps) e)"

definition Peers_Route :: "u256 \<Rightarrow> peers \<Rightarrow> route option" where
  "Peers_Route rep ps = map_option Peer_Route (Peers_Query rep ps)"

definition by_weight :: "peer list \<Rightarrow> peer list" where
  "by_weight = sort_key (\<lambda>p. - int (unat (pr_rep_weight p)))"

definition Peers_List :: "peers \<Rightarrow> peer list" where
  "Peers_List ps = by_weight (ps_peers ps) @ by_weight (ps_low_weight ps)"

definition Routes_except :: "u256 list \<Rightarrow> bool \<Rightarrow> peers \<Rightarrow> route list" where
  "Routes_except excluded include_low_weight ps =
     (let routes = (\<lambda>xs. map Peer_Route (filter (\<lambda>p. pr_account p \<notin> set excluded) (by_weight xs))) in
      routes (ps_peers ps) @ (if include_low_weight then routes (ps_low_weight ps) else []))"

definition Routes_of :: "u256 list \<Rightarrow> peers \<Rightarrow> route list" where
  "Routes_of accounts ps = concat (map (\<lambda>a. case Peers_Route a ps of None \<Rightarrow> [] | Some r \<Rightarrow> [r]) accounts)"

section \<open>Random peers\<close>

definition insert_new :: "peer \<Rightarrow> peer list \<Rightarrow> peer list" where
  "insert_new p xs = (if find_peer (pr_account p) xs = None then xs @ [p] else xs)"

text \<open>The two loops stop when the set has \<open>n_max\<close> elements.\<close>

fun random_picks :: "(nat \<Rightarrow> nat) \<Rightarrow> peer list \<Rightarrow> nat \<Rightarrow> nat \<Rightarrow> nat \<Rightarrow> peer list \<Rightarrow> peer list" where
  "random_picks draw xs n_max i 0 result = result"
| "random_picks draw xs n_max i (Suc n) result =
     (if length result < n_max then random_picks draw xs n_max (Suc i) n (insert_new (xs ! (draw i mod length xs)) result)
      else result)"

fun fill_up :: "nat \<Rightarrow> peer list \<Rightarrow> peer list \<Rightarrow> peer list" where
  "fill_up n_max [] result = result"
| "fill_up n_max (p # xs) result = (if length result < n_max then fill_up n_max xs (insert_new p result) else result)"

definition RandomSet :: "(nat \<Rightarrow> nat) \<Rightarrow> peer list \<Rightarrow> nat \<Rightarrow> peer list" where
  "RandomSet draw xs n_max =
     (if length xs \<le> n_max then xs
      else fill_up n_max (rev (sort_key pr_last_contact xs)) (random_picks draw xs n_max 0 (2 * n_max) []))"

definition RandomPeers :: "(bool \<Rightarrow> nat \<Rightarrow> nat) \<Rightarrow> nat \<Rightarrow> peers \<Rightarrow> peer list" where
  "RandomPeers draw n_max ps =
     (let total = length (ps_peers ps) + length (ps_low_weight ps) in
      if total \<le> 1 \<or> n_max = 0 then []
      else let low = n_max * length (ps_low_weight ps) div total;
               low = (if low = 0 \<and> length (ps_low_weight ps) > 0 \<and> n_max > 1 then 1 else low);
               normal = n_max - low;
               (normal, low) = (if normal < n_max div 2
                 then (let normal = min (n_max div 2) (length (ps_peers ps)) in (normal, n_max - normal)) else (normal, low))
           in RandomSet (draw False) (ps_peers ps) normal @ RandomSet (draw True) (ps_low_weight ps) low)"

text \<open>A random peer other than the node itself: the loop draws until it finds one.\<close>

partial_function (option) RandomPeer_loop :: "(nat \<Rightarrow> nat) \<Rightarrow> nat \<Rightarrow> bool \<Rightarrow> u256 \<Rightarrow> peer list \<Rightarrow> peer option option" where
  "RandomPeer_loop draw i exclude_self me xs =
     (let p = xs ! (draw i mod length xs) in
      if \<not> exclude_self \<or> pr_account p \<noteq> me then Some (Some p)
      else if length xs = 1 then Some None
      else RandomPeer_loop draw (Suc i) exclude_self me xs)"

definition RandomPeer :: "(nat \<Rightarrow> nat) \<Rightarrow> bool \<Rightarrow> u256 \<Rightarrow> peers \<Rightarrow> peer option option" where
  "RandomPeer draw exclude_self me ps =
     (if all_peers ps = [] then Some None else RandomPeer_loop draw 0 exclude_self me (all_peers ps))"

text \<open>\<open>RandomFullNodePeer\<close>: an account of the index without a peer is reported as unexpected, \<open>Inl ()\<close>.\<close>

partial_function (option) RandomFullNodePeer_loop ::
  "(nat \<Rightarrow> nat) \<Rightarrow> nat \<Rightarrow> bool \<Rightarrow> u256 \<Rightarrow> peers \<Rightarrow> (unit + peer option) option" where
  "RandomFullNodePeer_loop draw i exclude_self me ps =
     (case Peers_Query (ps_full_nodes ps ! (draw i mod length (ps_full_nodes ps))) ps of
        None \<Rightarrow> Some (Inl ())
      | Some p \<Rightarrow>
          if \<not> exclude_self \<or> pr_account p \<noteq> me then Some (Inr (Some p))
          else if length (ps_full_nodes ps) = 1 then Some (Inr None)
          else RandomFullNodePeer_loop draw (Suc i) exclude_self me ps)"

definition RandomFullNodePeer :: "(nat \<Rightarrow> nat) \<Rightarrow> bool \<Rightarrow> u256 \<Rightarrow> peers \<Rightarrow> (unit + peer option) option" where
  "RandomFullNodePeer draw exclude_self me ps =
     (if ps_full_nodes ps = [] then Some (Inr None) else RandomFullNodePeer_loop draw 0 exclude_self me ps)"

section \<open>Messages\<close>

definition Peers_send :: "endpoint \<Rightarrow> message \<Rightarrow> peers \<Rightarrow> peers" where
  "Peers_send remote m ps = ps\<lparr>ps_sent := ps_sent ps @ [(remote, m)]\<rparr>"

text \<open>A message for an endpoint, through a proxy if one is given.\<close>

definition send_through :: "env \<Rightarrow> endpoint option \<Rightarrow> endpoint \<Rightarrow> message \<Rightarrow> peers \<Rightarrow> peers" where
  "send_through E proxy e m = (case proxy of
     None \<Rightarrow> Peers_send e m
   | Some receiver \<Rightarrow> Peers_send receiver (EnableProxy E e m))"

definition Peers_SendByRoute :: "env \<Rightarrow> route \<Rightarrow> message \<Rightarrow> peers \<Rightarrow> peers" where
  "Peers_SendByRoute E r m =
     (if rt_use_proxy r then Peers_send (rt_proxy_endpoint r) (EnableProxy E (rt_peer_endpoint r) m)
      else Peers_send (rt_peer_endpoint r) (DisableProxy m))"

definition HandshakeRequest :: "env \<Rightarrow> self \<Rightarrow> cookie \<Rightarrow> endpoint option \<Rightarrow> peers \<Rightarrow> peers" where
  "HandshakeRequest E me cookie proxy =
     send_through E proxy (ck_endpoint cookie) (Handshake (HandshakeMessage_request E (sf_account me) (ck_cookie cookie)))"

definition HandshakeResponse :: "env \<Rightarrow> self \<Rightarrow> endpoint \<Rightarrow> u256 \<Rightarrow> endpoint option \<Rightarrow> peers \<Rightarrow> peers" where
  "HandshakeResponse E me e cookie proxy =
     send_through E proxy e
       (Handshake (HandshakeMessage_response (sf_account me) (SignMessage E (sf_private_key me) (sf_account me) cookie)))"

definition KeepliveAck :: "env \<Rightarrow> endpoint \<Rightarrow> u256 \<Rightarrow> u256 \<Rightarrow> endpoint option \<Rightarrow> peers \<Rightarrow> peers" where
  "KeepliveAck E e hash account proxy = send_through E proxy e (Keeplive (KeepliveMessage_ack hash account))"

text \<open>\<open>Node::Keeplive\<close> up to the sending: the message with its hash; \<open>None\<close> is the exception of the constructor.\<close>

definition Node_Keeplive :: "env \<Rightarrow> self \<Rightarrow> peer list \<Rightarrow> (keeplive_message \<times> u256) option" where
  "Node_Keeplive E me peer_vec =
     (let entry = (\<lambda>p. (pr_account p, Peer_Endpoint p));
          direct = filter (\<lambda>p. pr_proxy p = None) peer_vec; proxied = filter (\<lambda>p. pr_proxy p \<noteq> None) peer_vec in
      case KeepliveMessage_new E (map entry direct @ map entry proxied) (sf_account me) (of_nat (length direct)) of
        None \<Rightarrow> None
      | Some m \<Rightarrow>
          let hash = KeepliveMessage_Hash E m
          in Some (m\<lparr>kl_signature := SignMessage E (sf_private_key me) (sf_account me) hash\<rparr>, hash))"

section \<open>Cookies\<close>

definition find_cookie :: "endpoint \<Rightarrow> peers \<Rightarrow> cookie option" where
  "find_cookie e ps = find (\<lambda>c. ck_endpoint c = e) (ps_cookies ps)"

definition erase_cookie :: "endpoint \<Rightarrow> peers \<Rightarrow> peers" where
  "erase_cookie e ps = ps\<lparr>ps_cookies := filter (\<lambda>c. ck_endpoint c \<noteq> e) (ps_cookies ps)\<rparr>"

definition modify_cookie :: "endpoint \<Rightarrow> (cookie \<Rightarrow> cookie) \<Rightarrow> peers \<Rightarrow> peers" where
  "modify_cookie e f ps = ps\<lparr>ps_cookies := map (\<lambda>c. if ck_endpoint c = e then f c else c) (ps_cookies ps)\<rparr>"

definition NeedSyn :: "self \<Rightarrow> cookie \<Rightarrow> peers \<Rightarrow> cookie" where
  "NeedSyn me cookie ps =
     (let cookie = cookie\<lparr>ck_syn_direct := False, ck_syn_proxy := False\<rparr> in
      if find_cookie (ck_endpoint cookie) ps \<noteq> None then cookie
      else case ck_account cookie of
        None \<Rightarrow> cookie\<lparr>ck_syn_direct := True\<rparr>
      | Some target_account \<Rightarrow> (case Peers_Query target_account ps of
          None \<Rightarrow> cookie\<lparr>ck_syn_direct := True, ck_syn_proxy := True\<rparr>
        | Some p \<Rightarrow> (case pr_proxy p of
            None \<Rightarrow>
              if ep_ip (ck_endpoint cookie) < pr_ip p then cookie\<lparr>ck_syn_direct := True\<rparr>
              else if ep_ip (ck_endpoint cookie) = pr_ip p \<and> ep_port (ck_endpoint cookie) < pr_port p
              then cookie\<lparr>ck_syn_direct := True\<rparr>
              else cookie
          | Some first \<Rightarrow>
              let cookie = cookie\<lparr>ck_syn_direct := True\<rparr> in
              case ck_learned_from cookie of
                None \<Rightarrow> cookie
              | Some from \<Rightarrow>
                  if CountByProxy (ep_ip from) ps \<ge> MAX_PEERS_PER_PROXY then cookie
                  else let proxy = Proxy_new from (sf_secure me) target_account in
                    if Proxy_eq proxy first then cookie
                    else if Peer_Endpoint p \<noteq> ck_endpoint cookie
                    then cookie\<lparr>ck_syn_proxy := px_priority proxy > px_priority first\<rparr>
                    else if (case pr_proxy_secondary p of None \<Rightarrow> True | Some second \<Rightarrow> px_priority second < px_priority proxy)
                    then cookie\<lparr>ck_syn_proxy := True\<rparr>
                    else cookie)))"

definition InsertCookie :: "self \<Rightarrow> cookie \<Rightarrow> peers \<Rightarrow> bool \<times> peers" where
  "InsertCookie me cookie ps =
     (let c = NeedSyn me cookie ps in
      if \<not> ck_syn_direct c \<and> \<not> ck_syn_proxy c then (True, ps)
      else if find_cookie (ck_endpoint c) ps \<noteq> None then (True, ps)
      else (False, ps\<lparr>ps_cookies := ps_cookies ps @ [c]\<rparr>))"

definition bump :: "time_point \<Rightarrow> cookie \<Rightarrow> cookie" where
  "bump now c = c\<lparr>ck_attempts := ck_attempts c + 1, ck_cutoff_time := now + COOKIE_CUTOFF_TIME\<rparr>"

definition IncreaseCookieAttempts :: "time_point \<Rightarrow> endpoint \<Rightarrow> peers \<Rightarrow> peers" where
  "IncreaseCookieAttempts now e = modify_cookie e (bump now)"

definition ValidateCookie :: "env \<Rightarrow> endpoint \<Rightarrow> u256 \<Rightarrow> u512 \<Rightarrow> peers \<Rightarrow> cookie option \<times> peers" where
  "ValidateCookie E e account signature ps = (case find_cookie e ps of
     None \<Rightarrow> (None, ps)
   | Some c \<Rightarrow>
       if ck_account c \<noteq> None \<and> ck_account c \<noteq> Some account then (None, ps)
       else if ValidateMessage E account (ck_cookie c) signature then (None, ps)
       else (Some (c\<lparr>ck_account := Some account\<rparr>), erase_cookie e ps))"

definition SynCookie :: "env \<Rightarrow> self \<Rightarrow> time_point \<Rightarrow> cookie \<Rightarrow> peers \<Rightarrow> peers" where
  "SynCookie E me now cookie ps = (case InsertCookie me cookie ps of (error, ps) \<Rightarrow>
     if error then ps else IncreaseCookieAttempts now (ck_endpoint cookie) (HandshakeRequest E me cookie None ps))"

text \<open>One endpoint of \<open>SynCookies\<close>; \<open>rnd\<close> is the new cookie if it is drawn.\<close>

definition SynCookies_one :: "env \<Rightarrow> self \<Rightarrow> time_point \<Rightarrow> u256 \<Rightarrow> endpoint \<Rightarrow> peers \<Rightarrow> peers" where
  "SynCookies_one E me now rnd e ps = (case find_cookie e ps of
     None \<Rightarrow> ps
   | Some c \<Rightarrow>
       let max_attempts = (if ck_learned_from c = None \<or> \<not> ck_syn_proxy c then MAX_COOKIE_ATTEMPTS div 2 else MAX_COOKIE_ATTEMPTS) in
       if ck_attempts c \<ge> max_attempts then erase_cookie e ps
       else let c = (if ck_attempts c = MAX_COOKIE_ATTEMPTS div 2 \<and> ck_learned_from c \<noteq> None \<and> ck_syn_proxy c
                     then c\<lparr>ck_use_proxy := True, ck_cookie := rnd\<rparr> else c)
         in HandshakeRequest E me c (if ck_use_proxy c then ck_learned_from c else None)
              (modify_cookie e (\<lambda>_. bump now c) ps))"

definition SynCookies :: "env \<Rightarrow> self \<Rightarrow> time_point \<Rightarrow> (endpoint \<Rightarrow> u256) \<Rightarrow> peers \<Rightarrow> peers" where
  "SynCookies E me now rnd ps =
     fold (\<lambda>e. SynCookies_one E me now (rnd e) e)
       (map ck_endpoint (sort_key ck_cutoff_time (filter (\<lambda>c. ck_cutoff_time c \<le> now) (ps_cookies ps)))) ps"

section \<open>Keeplives\<close>

definition container :: "bool \<Rightarrow> peers \<Rightarrow> peer list" where
  "container low ps = (if low then ps_low_weight ps else ps_peers ps)"

definition put_in :: "bool \<Rightarrow> peer \<Rightarrow> peers \<Rightarrow> peers" where
  "put_in low p ps =
     (if low then ps\<lparr>ps_low_weight := put_peer p (ps_low_weight ps)\<rparr> else ps\<lparr>ps_peers := put_peer p (ps_peers ps)\<rparr>)"

text \<open>One peer that is due: \<open>None\<close> is the exception of a keeplive with too many peers.\<close>

definition Keeplive_one ::
  "env \<Rightarrow> self \<Rightarrow> time_point \<Rightarrow> (bool \<Rightarrow> nat \<Rightarrow> nat) \<Rightarrow> bool \<Rightarrow> nat \<Rightarrow> u256 \<Rightarrow> peers \<Rightarrow> peers option" where
  "Keeplive_one E me now draw low max_peers account ps = (case find_peer account (container low ps) of
     None \<Rightarrow> Some ps
   | Some p \<Rightarrow>
       if pr_lost_acks p \<ge> MAX_LOST_ACKS then Some (Peers_remove account ps)
       else
         let p = (if pr_lost_acks p \<ge> MAX_LOST_ACKS div 2 then SwitchProxy p else p);
             ps = put_in low p ps in
         case Node_Keeplive E me (RandomPeers draw max_peers ps) of
           None \<Rightarrow> None
         | Some (m, hash) \<Rightarrow>
             let p = p\<lparr>pr_last_attempt := now, pr_last_hash := hash, pr_lost_acks := pr_lost_acks p + 1\<rparr>;
                 ps = put_in low p ps
             in Some (Peers_SendByRoute E (Peer_Route p) (Keeplive m) ps))"

fun Keeplive_each ::
  "env \<Rightarrow> self \<Rightarrow> time_point \<Rightarrow> (u256 \<Rightarrow> bool \<Rightarrow> nat \<Rightarrow> nat) \<Rightarrow> bool \<Rightarrow> nat \<Rightarrow> u256 list \<Rightarrow> peers \<Rightarrow> peers option" where
  "Keeplive_each E me now draw low max_peers [] ps = Some ps"
| "Keeplive_each E me now draw low max_peers (a # accounts) ps =
     (case Keeplive_one E me now (draw a) low max_peers a ps of
        None \<Rightarrow> None
      | Some ps \<Rightarrow> Keeplive_each E me now draw low max_peers accounts ps)"

definition Keeplive_container ::
  "env \<Rightarrow> self \<Rightarrow> time_point \<Rightarrow> (u256 \<Rightarrow> bool \<Rightarrow> nat \<Rightarrow> nat) \<Rightarrow> bool \<Rightarrow> nat \<Rightarrow> peers \<Rightarrow> peers option" where
  "Keeplive_container E me now draw low max_peers ps =
     (let silent = filter (\<lambda>p. pr_last_contact p < now - PEER_CUTOFF_TIME) (sort_key pr_last_contact (container low ps));
          ps = fold Peers_remove (map pr_account silent) ps;
          due = filter (\<lambda>p. pr_last_attempt p \<le> now - PEER_ATTEMPT_TIME) (sort_key pr_last_attempt (container low ps))
      in Keeplive_each E me now draw low max_peers (map pr_account due) ps)"

definition Peers_Keeplive :: "env \<Rightarrow> self \<Rightarrow> time_point \<Rightarrow> (u256 \<Rightarrow> bool \<Rightarrow> nat \<Rightarrow> nat) \<Rightarrow> nat \<Rightarrow> peers \<Rightarrow> peers option" where
  "Peers_Keeplive E me now draw max_peers ps = (case Keeplive_container E me now draw False max_peers ps of
     None \<Rightarrow> None
   | Some ps \<Rightarrow> Keeplive_container E me now draw True max_peers ps)"

section \<open>The visitor\<close>

text \<open>\<open>ledger_weight\<close> is \<open>RepWeight\<close>; the outer option is an optional that is read but not set.\<close>

definition Visitor_Handshake ::
  "env \<Rightarrow> self \<Rightarrow> (u256 \<Rightarrow> u128) \<Rightarrow> time_point \<Rightarrow> u256 \<Rightarrow> endpoint \<Rightarrow> handshake_message \<Rightarrow> peers \<Rightarrow> peers option" where
  "Visitor_Handshake E me ledger_weight now rnd sender m ps =
     (let from_proxy = GetFlag PROXY (hs_header m);
          e = (if from_proxy then peer_endpoint (hs_header m) else sender) in
      if from_proxy \<and> IsReservedIp (ep_ip e) then Some ps
      else if mh_extension (hs_header m) = REQUEST then
        (let t = CurrentTimestamp E; timestamp = hs_timestamp m; diff = (if t > timestamp then t - timestamp else timestamp - t) in
         if diff > PEER_MAX_TIMESTAMP_DIFF then Some ps
         else if from_proxy
         then Some (HandshakeResponse E me e (hs_cookie m) (Some sender)
                (SynCookie E me now (Cookie_new now rnd e (Some sender) (Some (hs_account m))) ps))
         else Some (HandshakeResponse E me sender (hs_cookie m) None
                (SynCookie E me now (Cookie_new now rnd sender None (Some (hs_account m))) ps)))
      else (case ValidateCookie E e (hs_account m) (hs_signature m) ps of
          (None, ps) \<Rightarrow> Some ps
        | (Some cookie, ps) \<Rightarrow>
            (case Peer_new now cookie (sf_secure me) (version_using (hs_header m)) (version_min (hs_header m)) (ledger_weight (hs_account m)) of
               None \<Rightarrow> None
             | Some p \<Rightarrow> Some (Peers_Insert p ps))))"

text \<open>The peers that a keeplive names; \<open>count\<close> has eight bits.\<close>

fun learn_peers :: "env \<Rightarrow> self \<Rightarrow> time_point \<Rightarrow> (nat \<Rightarrow> u256) \<Rightarrow> bool \<Rightarrow> endpoint \<Rightarrow> u8 \<Rightarrow> u8 \<Rightarrow>
    (u256 \<times> endpoint) list \<Rightarrow> peers \<Rightarrow> peers" where
  "learn_peers E me now rnd from_proxy e near count [] ps = ps"
| "learn_peers E me now rnd from_proxy e near count ((account, remote) # xs) ps =
     (let learned_from = (if \<not> from_proxy \<and> count < near \<and> e \<noteq> remote then Some e else None) in
      learn_peers E me now rnd from_proxy e near (count + 1) xs
        (if IsReservedIp (ep_ip remote) then ps
         else SynCookie E me now (Cookie_new now (rnd (unat count)) remote learned_from (Some account)) ps))"

definition Visitor_Keeplive ::
  "env \<Rightarrow> self \<Rightarrow> time_point \<Rightarrow> u256 \<Rightarrow> (nat \<Rightarrow> u256) \<Rightarrow> endpoint \<Rightarrow> keeplive_message \<Rightarrow> peers \<Rightarrow> peers" where
  "Visitor_Keeplive E me now rnd rnds sender m ps =
     (let from_proxy = GetFlag PROXY (kl_header m);
          e = (if from_proxy then peer_endpoint (kl_header m) else sender);
          known = Peers_Query (kl_account m) ps in
      if GetFlag ACK (kl_header m)
      then (if known = None then ps else snd (ValidateKeepliveAck (kl_account m) (kl_hash m) ps))
      else
        let ps = (if known = None \<or> map_option Peer_Endpoint known \<noteq> Some e
              then SynCookie E me now (Cookie_new now rnd e (if from_proxy then Some sender else None) (Some (kl_account m))) ps
              else ps) in
        case known of
          None \<Rightarrow> ps
        | Some p \<Rightarrow>
            if Peer_Endpoint p \<noteq> e \<and> pr_proxy p = None \<and> \<not> from_proxy then ps
            else if CheckTimestamp E (kl_account m) (kl_timestamp m) ps then ps
            else if KeepliveMessage_CheckSignature E m then ps
            else
              let ps = KeepliveAck E e (KeepliveMessage_Hash E m) (sf_account me) (if from_proxy then Some sender else None) ps;
                  ps = Contact now (kl_account m) (kl_timestamp m) (version_using (kl_header m)) (version_min (kl_header m)) ps
              in learn_peers E me now rnds from_proxy e (ReachablePeers (kl_header m)) 0 (kl_peers m) ps)"

text \<open>A resolved name of the configuration.\<close>

definition ResolvePeer :: "env \<Rightarrow> self \<Rightarrow> time_point \<Rightarrow> u256 \<Rightarrow> endpoint \<Rightarrow> peers \<Rightarrow> peers" where
  "ResolvePeer E me now rnd e = SynCookie E me now (Cookie_new now rnd e None None)"

end
