(* ===== verification/PeerInv.thy ===== *)
theory PeerInv
  imports PeerOps
begin

text \<open>
  The invariant of the table of peers: each account once, in the container of its weight, with the index of full nodes exact,
  at most one peer per address and at most two per proxy, and cookies that know whom they were learned from. Every
  operation keeps it.
\<close>

section \<open>Sums over the peers\<close>

definition total_of :: "(peer \<Rightarrow> nat) \<Rightarrow> peers \<Rightarrow> nat" where
  "total_of f ps = sum_list (map f (all_peers ps))"

definition on_ip :: "u32 \<Rightarrow> peer \<Rightarrow> nat" where
  "on_ip ip p = of_bool (pr_ip p = ip)"

definition on_proxy :: "u32 \<Rightarrow> peer \<Rightarrow> nat" where
  "on_proxy ip p = of_bool (KeyProxy p = ip) + of_bool (KeyProxySecondary p = ip)"

lemma length_filter_sum: "length (filter P xs) = sum_list (map (\<lambda>x. of_bool (P x)) xs)"
  by (induction xs) auto

lemma CountByIp_total: "CountByIp ip ps = total_of (on_ip ip) ps"
  by (simp add: CountByIp_def total_of_def on_ip_def [abs_def] length_filter_sum)

lemma CountByProxy_total: "CountByProxy ip ps = total_of (on_proxy ip) ps"
  by (simp add: CountByProxy_def total_of_def on_proxy_def [abs_def] length_filter_sum sum_list_addf)

section \<open>The invariant\<close>

abbreviation accounts :: "peer list \<Rightarrow> u256 list" where
  "accounts \<equiv> map pr_account"

definition table_ok :: "peers \<Rightarrow> bool" where
  "table_ok ps \<longleftrightarrow> distinct (accounts (all_peers ps)) \<and>
     (\<forall>p \<in> set (ps_peers ps). \<not> LowWeightPeer p) \<and> (\<forall>p \<in> set (ps_low_weight ps). LowWeightPeer p) \<and>
     distinct (ps_full_nodes ps) \<and> set (ps_full_nodes ps) = pr_account ` {p \<in> set (all_peers ps). \<not> pr_light_node p}"

definition proxy_ok :: "proxy option \<Rightarrow> bool" where
  "proxy_ok x \<longleftrightarrow> (case x of None \<Rightarrow> True | Some proxy \<Rightarrow> \<not> IsReservedIp (ep_ip (px_endpoint proxy)))"

definition peer_ok :: "peer \<Rightarrow> bool" where
  "peer_ok p \<longleftrightarrow> \<not> IsReservedIp (pr_ip p) \<and> proxy_ok (pr_proxy p) \<and> proxy_ok (pr_proxy_secondary p) \<and>
     (pr_proxy p = None \<longrightarrow> pr_proxy_secondary p = None) \<and> pr_lost_acks p \<le> MAX_LOST_ACKS"

definition limits_ok :: "peers \<Rightarrow> bool" where
  "limits_ok ps \<longleftrightarrow> (\<forall>ip. total_of (on_ip ip) ps \<le> MAX_PEERS_PER_IP) \<and>
     (\<forall>ip. \<not> IsReservedIp ip \<longrightarrow> total_of (on_proxy ip) ps \<le> MAX_PEERS_PER_PROXY)"

definition cookie_ok :: "cookie \<Rightarrow> bool" where
  "cookie_ok c \<longleftrightarrow> (case ck_learned_from c of None \<Rightarrow> \<not> ck_use_proxy c | Some from \<Rightarrow> \<not> IsReservedIp (ep_ip from)) \<and>
     ck_attempts c \<le> MAX_COOKIE_ATTEMPTS"

definition cookies_ok :: "peers \<Rightarrow> bool" where
  "cookies_ok ps \<longleftrightarrow> distinct (map ck_endpoint (ps_cookies ps)) \<and> (\<forall>c \<in> set (ps_cookies ps). cookie_ok c)"

definition peers_ok :: "peers \<Rightarrow> bool" where
  "peers_ok ps \<longleftrightarrow> table_ok ps \<and> limits_ok ps \<and> (\<forall>p \<in> set (all_peers ps). peer_ok p) \<and> cookies_ok ps"

text \<open>What the table says of peers and cookies apart from what was sent.\<close>

lemma same_table:
  assumes "ps_peers qs = ps_peers ps" "ps_low_weight qs = ps_low_weight ps" "ps_full_nodes qs = ps_full_nodes ps"
  shows "all_peers qs = all_peers ps" "table_ok qs = table_ok ps" "limits_ok qs = limits_ok ps"
  using assms by (simp_all add: all_peers_def table_ok_def limits_ok_def total_of_def)

section \<open>Finding\<close>

lemma find_peer_None: "find_peer account xs = None \<longleftrightarrow> account \<notin> pr_account ` set xs"
  by (auto simp: find_peer_def find_None_iff)

lemma find_peer_Some: "find_peer account xs = Some p \<Longrightarrow> p \<in> set xs \<and> pr_account p = account"
  unfolding find_peer_def by (induction xs) (auto split: if_splits)

lemma find_peer_append:
  "find_peer account (xs @ ys) = (case find_peer account xs of Some p \<Rightarrow> Some p | None \<Rightarrow> find_peer account ys)"
  unfolding find_peer_def by (induction xs) auto

lemma Query_all: "Peers_Query account ps = find_peer account (all_peers ps)"
  by (simp add: Peers_Query_def all_peers_def find_peer_append)

lemma Query_Some: "Peers_Query account ps = Some p \<Longrightarrow> p \<in> set (all_peers ps) \<and> pr_account p = account"
  unfolding Query_all by (rule find_peer_Some)

lemma Query_None: "Peers_Query account ps = None \<longleftrightarrow> account \<notin> pr_account ` set (all_peers ps)"
  unfolding Query_all by (rule find_peer_None)

section \<open>Removing, adding and changing\<close>

lemma accounts_inj: "distinct (accounts xs) \<Longrightarrow> p \<in> set xs \<Longrightarrow> q \<in> set xs \<Longrightarrow> pr_account p = pr_account q \<Longrightarrow> p = q"
  by (meson distinct_map inj_onD)

lemma set_erase_peer [simp]: "set (erase_peer account xs) = {p \<in> set xs. pr_account p \<noteq> account}"
  by (auto simp: erase_peer_def)

lemma distinct_erase_peer: "distinct (accounts xs) \<Longrightarrow> distinct (accounts (erase_peer account xs))"
  by (simp add: erase_peer_def distinct_map_filter)

lemma erase_peer_none: "account \<notin> pr_account ` set xs \<Longrightarrow> erase_peer account xs = xs"
  by (induction xs) (auto simp: erase_peer_def)

lemma sum_erase_peer:
  assumes "distinct (accounts xs)" "p \<in> set xs"
  shows "sum_list (map f xs) = sum_list (map f (erase_peer (pr_account p) xs)) + (f p :: nat)"
  using assms
proof (induction xs)
  case (Cons q xs)
  show ?case
  proof (cases "p = q")
    case True
    then have "pr_account p \<notin> pr_account ` set xs" using Cons.prems by simp
    then have "erase_peer (pr_account p) (q # xs) = xs" using True erase_peer_none [of "pr_account p" xs] by (simp add: erase_peer_def)
    then show ?thesis using True by simp
  next
    case False
    then have "p \<in> set xs" "pr_account q \<noteq> pr_account p" using Cons.prems by (auto simp: rev_image_eqI)
    then show ?thesis using Cons by (simp add: erase_peer_def)
  qed
qed simp

lemma sum_erase_le: "sum_list (map f (erase_peer account xs)) \<le> sum_list (map (f :: peer \<Rightarrow> nat) xs)"
  by (induction xs) (auto simp: erase_peer_def)

lemma map_put_peer [simp]: "accounts (put_peer p xs) = accounts xs"
  by (auto simp: put_peer_def)

lemma set_put_peer:
  "set (put_peer p xs) = {q \<in> set xs. pr_account q \<noteq> pr_account p} \<union> (if pr_account p \<in> pr_account ` set xs then {p} else {})"
  by (auto simp: put_peer_def image_iff)

lemma put_peer_none: "pr_account p \<notin> pr_account ` set xs \<Longrightarrow> put_peer p xs = xs"
  by (induction xs) (auto simp: put_peer_def)

lemma sum_put_peer:
  assumes "distinct (accounts xs)" "pr_account p \<in> pr_account ` set xs"
  shows "sum_list (map f (put_peer p xs)) = sum_list (map f (erase_peer (pr_account p) xs)) + (f p :: nat)"
  using assms
proof (induction xs)
  case (Cons q xs)
  show ?case
  proof (cases "pr_account q = pr_account p")
    case True
    then have none: "pr_account p \<notin> pr_account ` set xs" using Cons.prems by auto
    have "put_peer p (q # xs) = p # xs" "erase_peer (pr_account p) (q # xs) = xs"
      using True put_peer_none [OF none] erase_peer_none [OF none] by (simp_all add: put_peer_def erase_peer_def)
    then show ?thesis by simp
  next
    case False
    then have "pr_account p \<in> pr_account ` set xs" using Cons.prems by auto
    then show ?thesis using Cons False by (simp add: erase_peer_def put_peer_def)
  qed
qed simp

subsection \<open>Removal\<close>

lemma remove_fields [simp]:
  "ps_cookies (Peers_remove account ps) = ps_cookies ps" "ps_sent (Peers_remove account ps) = ps_sent ps"
  by (simp_all add: Peers_remove_def RemoveFullNodeIndex_def)

lemma table_remove: "table_ok ps \<Longrightarrow> table_ok (Peers_remove account ps)"
  unfolding table_ok_def
  by (auto simp: distinct_erase_peer) (auto simp: Peers_remove_def RemoveFullNodeIndex_def)

lemma total_remove: "total_of f (Peers_remove account ps) \<le> total_of f ps"
  by (simp add: total_of_def sum_erase_le)

lemma total_remove_peer:
  "table_ok ps \<Longrightarrow> p \<in> set (all_peers ps) \<Longrightarrow> total_of f ps = total_of f (Peers_remove (pr_account p) ps) + f p"
  unfolding total_of_def all_peers_remove by (rule sum_erase_peer) (simp_all add: table_ok_def)

lemma limits_remove: "limits_ok ps \<Longrightarrow> limits_ok (Peers_remove account ps)"
  unfolding limits_ok_def by (meson total_remove order.trans)

lemma remove_none: "account \<notin> pr_account ` set (all_peers ps) \<Longrightarrow> total_of f (Peers_remove account ps) = total_of f ps"
  by (simp add: total_of_def erase_peer_none)

lemma peers_ok_remove: "peers_ok ps \<Longrightarrow> peers_ok (Peers_remove account ps)"
  by (auto simp: peers_ok_def table_remove limits_remove cookies_ok_def)

subsection \<open>Insertion\<close>

lemma insert_fields [simp]:
  "ps_cookies (Peers_insert p ps) = ps_cookies ps" "ps_sent (Peers_insert p ps) = ps_sent ps"
  by (simp_all add: Peers_insert_def UpdateFullNodeIndex_def Let_def)

lemma all_peers_insert:
  assumes "pr_account p \<notin> pr_account ` set (all_peers ps)"
  shows "set (all_peers (Peers_insert p ps)) = insert p (set (all_peers ps))"
    "total_of f (Peers_insert p ps) = total_of f ps + f p"
    "distinct (accounts (all_peers (Peers_insert p ps))) = distinct (accounts (all_peers ps))"
  using assms
  by (auto simp: Peers_insert_def UpdateFullNodeIndex_def Let_def all_peers_def add_peer_def find_peer_None total_of_def)

lemma full_nodes_update:
  "set (ps_full_nodes (UpdateFullNodeIndex p ps)) =
     (if pr_light_node p then set (ps_full_nodes ps) - {pr_account p} else insert (pr_account p) (set (ps_full_nodes ps)))"
  "distinct (ps_full_nodes ps) \<Longrightarrow> distinct (ps_full_nodes (UpdateFullNodeIndex p ps))"
  by (auto simp: UpdateFullNodeIndex_def)

lemma insert_containers:
  "ps_full_nodes (Peers_insert p ps) = ps_full_nodes (UpdateFullNodeIndex p ps)"
  "set (ps_peers (Peers_insert p ps)) \<subseteq> set (ps_peers ps) \<union> (if LowWeightPeer p then {} else {p})"
  "set (ps_low_weight (Peers_insert p ps)) \<subseteq> set (ps_low_weight ps) \<union> (if LowWeightPeer p then {p} else {})"
  by (auto simp: Peers_insert_def Let_def UpdateFullNodeIndex_def add_peer_def split: if_splits)

lemma table_insert:
  assumes "table_ok ps" "pr_account p \<notin> pr_account ` set (all_peers ps)"
  shows "table_ok (Peers_insert p ps)"
proof -
  have full: "set (ps_full_nodes ps) = pr_account ` {p \<in> set (all_peers ps). \<not> pr_light_node p}"
    and d: "distinct (ps_full_nodes ps)" and da: "distinct (accounts (all_peers ps))"
    and cont: "\<forall>p \<in> set (ps_peers ps). \<not> LowWeightPeer p" "\<forall>p \<in> set (ps_low_weight ps). LowWeightPeer p"
    using assms(1) by (simp_all add: table_ok_def)
  have new: "pr_account p \<notin> set (ps_full_nodes ps)"
    using assms(2) unfolding full by blast
  have "{q \<in> insert p (set (all_peers ps)). \<not> pr_light_node q} =
      (if pr_light_node p then {} else {p}) \<union> {q \<in> set (all_peers ps). \<not> pr_light_node q}"
    by auto
  then have "set (ps_full_nodes (Peers_insert p ps)) = pr_account ` {q \<in> insert p (set (all_peers ps)). \<not> pr_light_node q}"
    using new by (simp add: insert_containers(1) full_nodes_update(1) flip: full)
  moreover have "\<forall>q \<in> set (ps_peers (Peers_insert p ps)). \<not> LowWeightPeer q"
    "\<forall>q \<in> set (ps_low_weight (Peers_insert p ps)). LowWeightPeer q"
    using insert_containers(2,3) [of p ps] cont by (auto split: if_splits)
  ultimately show ?thesis
    using da full_nodes_update(2) [OF d, of p] all_peers_insert(1,3) [OF assms(2)]
    by (simp add: table_ok_def insert_containers(1))
qed

subsection \<open>Changes in place\<close>

text \<open>\<open>p\<close> may take the place of a peer: same account, same container.\<close>

definition replaces :: "peer \<Rightarrow> peers \<Rightarrow> bool" where
  "replaces p ps \<longleftrightarrow> (\<exists>q \<in> set (all_peers ps). pr_account q = pr_account p \<and> LowWeightPeer q = LowWeightPeer p \<and>
     pr_light_node q = pr_light_node p)"

definition put :: "peer \<Rightarrow> peers \<Rightarrow> peers" where
  "put p ps = ps\<lparr>ps_peers := put_peer p (ps_peers ps), ps_low_weight := put_peer p (ps_low_weight ps)\<rparr>"

lemma all_peers_put: "all_peers (put p ps) = put_peer p (all_peers ps)"
  by (simp add: all_peers_def put_def put_peer_def)

lemma put_fields [simp]:
  "ps_cookies (put p ps) = ps_cookies ps" "ps_sent (put p ps) = ps_sent ps" "ps_full_nodes (put p ps) = ps_full_nodes ps"
  by (simp_all add: put_def)

lemma replacesE:
  assumes "table_ok ps" "replaces p ps"
  obtains q where "q \<in> set (all_peers ps)" "pr_account q = pr_account p" "LowWeightPeer q = LowWeightPeer p"
    "pr_light_node q = pr_light_node p" "\<And>r. r \<in> set (all_peers ps) \<Longrightarrow> pr_account r = pr_account p \<Longrightarrow> r = q"
  using assms accounts_inj [of "all_peers ps"] unfolding replaces_def table_ok_def by metis

lemma replaced_container:
  assumes "table_ok ps" "replaces p ps"
  shows "pr_account p \<in> pr_account ` set (if LowWeightPeer p then ps_low_weight ps else ps_peers ps)"
    "pr_account p \<notin> pr_account ` set (if LowWeightPeer p then ps_peers ps else ps_low_weight ps)"
proof -
  obtain q where q: "q \<in> set (all_peers ps)" "pr_account q = pr_account p" "LowWeightPeer q = LowWeightPeer p"
    "\<And>r. r \<in> set (all_peers ps) \<Longrightarrow> pr_account r = pr_account p \<Longrightarrow> r = q"
    by (rule replacesE [OF assms]) blast
  have cont: "\<And>r. r \<in> set (ps_peers ps) \<Longrightarrow> \<not> LowWeightPeer r" "\<And>r. r \<in> set (ps_low_weight ps) \<Longrightarrow> LowWeightPeer r"
    using assms(1) by (simp_all add: table_ok_def)
  have "q \<in> set (if LowWeightPeer p then ps_low_weight ps else ps_peers ps)"
    using q(1,3) cont by (auto simp: all_peers_def)
  then show "pr_account p \<in> pr_account ` set (if LowWeightPeer p then ps_low_weight ps else ps_peers ps)"
    unfolding q(2) [symmetric] by (rule imageI)
  show "pr_account p \<notin> pr_account ` set (if LowWeightPeer p then ps_peers ps else ps_low_weight ps)"
  proof
    assume "pr_account p \<in> pr_account ` set (if LowWeightPeer p then ps_peers ps else ps_low_weight ps)"
    then obtain r where r: "r \<in> set (if LowWeightPeer p then ps_peers ps else ps_low_weight ps)" "pr_account r = pr_account p"
      by auto
    then have "r = q" using q(4) by (auto simp: all_peers_def split: if_splits)
    with r(1) q(3) cont show False by (auto split: if_splits)
  qed
qed

lemma full_node_unique:
  assumes "table_ok ps" "replaces p ps"
  shows "pr_account p \<in> set (ps_full_nodes ps) \<longleftrightarrow> \<not> pr_light_node p"
proof -
  have full: "set (ps_full_nodes ps) = pr_account ` {p \<in> set (all_peers ps). \<not> pr_light_node p}"
    using assms(1) by (simp add: table_ok_def)
  obtain q where q: "q \<in> set (all_peers ps)" "pr_account q = pr_account p" "pr_light_node q = pr_light_node p"
    "\<And>r. r \<in> set (all_peers ps) \<Longrightarrow> pr_account r = pr_account p \<Longrightarrow> r = q"
    by (rule replacesE [OF assms]) blast
  show ?thesis
  proof
    assume "pr_account p \<in> set (ps_full_nodes ps)"
    then obtain r where "r \<in> set (all_peers ps)" "\<not> pr_light_node r" "pr_account r = pr_account p" unfolding full by auto
    with q(3,4) show "\<not> pr_light_node p" by blast
  next
    assume "\<not> pr_light_node p"
    with q(1-3) show "pr_account p \<in> set (ps_full_nodes ps)" unfolding full by (metis (mono_tags, lifting) imageI mem_Collect_eq)
  qed
qed

lemma modify_put:
  assumes "table_ok ps" "replaces p ps"
  shows "Peers_modify p ps = (False, put p ps)"
proof -
  have "filter (\<lambda>a. a \<noteq> pr_account p) (ps_full_nodes ps) = ps_full_nodes ps" if "pr_light_node p"
    using that full_node_unique [OF assms] by (intro filter_True) auto
  then have "UpdateFullNodeIndex p ps = ps"
    using full_node_unique [OF assms] by (simp add: UpdateFullNodeIndex_def)
  then show ?thesis
    using replaced_container [OF assms]
    by (cases "LowWeightPeer p") (simp_all add: Peers_modify_def put_def find_peer_None put_peer_none del: image_iff)
qed

lemma put_in_put:
  assumes "table_ok ps" "replaces p ps" "LowWeightPeer p = low"
  shows "put_in low p ps = put p ps"
  using replaced_container [OF assms(1,2)] assms(3) by (auto simp: put_in_def put_def put_peer_none)

lemma table_put:
  assumes "table_ok ps" "replaces p ps"
  shows "table_ok (put p ps)"
proof -
  obtain q where q: "q \<in> set (all_peers ps)" "pr_account q = pr_account p" "pr_light_node q = pr_light_node p"
    "\<And>r. r \<in> set (all_peers ps) \<Longrightarrow> pr_account r = pr_account p \<Longrightarrow> r = q"
    by (rule replacesE [OF assms]) blast
  have in_all: "pr_account p \<in> pr_account ` set (all_peers ps)" using q(1,2) by (metis imageI)
  have "pr_account ` {r \<in> set (put_peer p (all_peers ps)). \<not> pr_light_node r} =
      pr_account ` {r \<in> set (all_peers ps). pr_account r \<noteq> pr_account p \<and> \<not> pr_light_node r} \<union>
      (if pr_light_node p then {} else {pr_account p})"
    using in_all by (auto simp: set_put_peer)
  also have "\<dots> = pr_account ` {r \<in> set (all_peers ps). \<not> pr_light_node r}"
  proof -
    have "r \<in> set (all_peers ps) \<and> \<not> pr_light_node r \<longleftrightarrow>
        r \<in> set (all_peers ps) \<and> pr_account r \<noteq> pr_account p \<and> \<not> pr_light_node r \<or> \<not> pr_light_node p \<and> r = q" for r
      using q(1-3) q(4) [of r] by (cases "pr_account r = pr_account p") auto
    then have "{r \<in> set (all_peers ps). \<not> pr_light_node r} =
        {r \<in> set (all_peers ps). pr_account r \<noteq> pr_account p \<and> \<not> pr_light_node r} \<union> (if pr_light_node p then {} else {q})"
      by (simp add: set_eq_iff)
    then show ?thesis using q(2) by (simp add: image_Un split: if_splits)
  qed
  finally have "pr_account ` {r \<in> set (put_peer p (all_peers ps)). \<not> pr_light_node r} =
      pr_account ` {r \<in> set (all_peers ps). \<not> pr_light_node r}" .
  moreover have cont: "\<forall>r \<in> set (ps_peers ps). \<not> LowWeightPeer r" "\<forall>r \<in> set (ps_low_weight ps). LowWeightPeer r"
    using assms(1) by (simp_all add: table_ok_def)
  have "\<forall>r \<in> set (ps_peers (put p ps)). \<not> LowWeightPeer r" "\<forall>r \<in> set (ps_low_weight (put p ps)). LowWeightPeer r"
    using cont replaced_container(2) [OF assms] unfolding put_def
    by (cases "LowWeightPeer p"; simp add: set_put_peer)+
  ultimately show ?thesis
    using assms(1) by (simp add: table_ok_def all_peers_put)
qed

lemma total_put:
  assumes "table_ok ps" "replaces p ps"
  shows "total_of f (put p ps) = total_of f (Peers_remove (pr_account p) ps) + f p"
  unfolding total_of_def all_peers_put all_peers_remove
  using assms by (intro sum_put_peer) (auto simp: table_ok_def replaces_def intro: rev_image_eqI)

section \<open>Limits\<close>

lemma PurgeByIp_remove: "PurgeByIp ip ps = ps \<or> (\<exists>a. PurgeByIp ip ps = Peers_remove a ps)"
  by (auto simp: PurgeByIp_def Let_def split: option.splits)

lemma PurgeByProxy_remove: "PurgeByProxy ip ps = ps \<or> (\<exists>a. PurgeByProxy ip ps = Peers_remove a ps)"
  by (auto simp: PurgeByProxy_def Let_def split: option.splits)

lemma remove_twice: "total_of f (Peers_remove a (Peers_remove b ps)) \<le> total_of f (Peers_remove a ps)"
proof -
  have "erase_peer a (erase_peer b (all_peers ps)) = erase_peer b (erase_peer a (all_peers ps))"
    by (simp add: erase_peer_def conj_commute)
  then show ?thesis by (simp add: total_of_def sum_erase_le)
qed

lemma limits_mono: "limits_ok ps \<Longrightarrow> (\<And>f. total_of f qs \<le> total_of f ps) \<Longrightarrow> limits_ok qs"
  unfolding limits_ok_def by (meson order.trans)

text \<open>The loop removes peers until the limits hold, provided that they hold without the account.\<close>

definition purged :: "peers \<Rightarrow> peers \<Rightarrow> bool" where
  "purged ps qs \<longleftrightarrow> table_ok qs \<and> limits_ok qs \<and> set (all_peers qs) \<subseteq> set (all_peers ps) \<and>
     ps_cookies qs = ps_cookies ps \<and> ps_sent qs = ps_sent ps"

lemma purged_remove: "purged (Peers_remove a ps) qs \<Longrightarrow> purged ps qs"
  by (auto simp: purged_def)

lemma InvalidIp_reserved [simp]: "IsReservedIp InvalidIp"
  by (simp add: IsReservedIp_def InvalidIp_def)

lemma within_limits:
  assumes "table_ok ps" "limits_ok (Peers_remove account ps)" "Peers_Query account ps = Some p"
    "CountByIp (pr_ip p) ps \<le> MAX_PEERS_PER_IP" "\<not> over_proxy (pr_proxy p) ps" "\<not> over_proxy (pr_proxy_secondary p) ps"
  shows "limits_ok ps"
proof -
  have p: "p \<in> set (all_peers ps)" "pr_account p = account"
    using Query_Some [OF assms(3)] by simp_all
  note split = total_remove_peer [OF assms(1) p(1), unfolded p(2)]
  have "total_of (on_ip ip) ps \<le> MAX_PEERS_PER_IP" for ip
    using assms(2,4) split [of "on_ip ip"] by (cases "ip = pr_ip p") (auto simp: limits_ok_def CountByIp_total on_ip_def)
  moreover have "total_of (on_proxy ip) ps \<le> MAX_PEERS_PER_PROXY" if ip: "\<not> IsReservedIp ip" for ip
  proof (cases "on_proxy ip p = 0")
    case True
    then show ?thesis using assms(2) split [of "on_proxy ip"] ip by (auto simp: limits_ok_def)
  next
    case False
    moreover have "ip \<noteq> InvalidIp" using ip InvalidIp_reserved by blast
    ultimately have "(\<exists>x. pr_proxy p = Some x \<and> ep_ip (px_endpoint x) = ip) \<or>
        (\<exists>x. pr_proxy_secondary p = Some x \<and> ep_ip (px_endpoint x) = ip)"
      by (auto simp: on_proxy_def KeyProxy_def KeyProxySecondary_def proxy_key_def split: option.splits if_splits)
    then show ?thesis
      using assms(5,6) by (auto simp: over_proxy_def CountByProxy_total not_less)
  qed
  ultimately show ?thesis by (simp add: limits_ok_def)
qed

lemma purge_purged:
  "table_ok ps \<Longrightarrow> limits_ok (Peers_remove account ps) \<Longrightarrow> purged ps (Peers_purge account ps)"
proof (induction account ps rule: Peers_purge.induct)
  case (1 account ps)
  have step: "table_ok qs \<and> limits_ok (Peers_remove account qs)"
    if "qs = ps \<or> (\<exists>a. qs = Peers_remove a ps)" for qs
    using that 1(4,5) limits_mono [OF 1(5) remove_twice] table_remove by auto
  have keep: "purged ps rs" if "purged qs rs" "qs = ps \<or> (\<exists>a. qs = Peers_remove a ps)" for qs rs
    using that purged_remove by auto
  show ?case
  proof (cases "Peers_Query account ps")
    case None
    then have "limits_ok ps"
      using 1(5) remove_none [of account ps] by (simp add: Query_None limits_ok_def)
    then show ?thesis
      using None 1(4) by (simp add: Peers_purge.simps [of account ps] purged_def)
  next
    case (Some p)
    consider "CountByIp (pr_ip p) ps > MAX_PEERS_PER_IP"
      | "\<not> CountByIp (pr_ip p) ps > MAX_PEERS_PER_IP" "over_proxy (pr_proxy p) ps"
      | "\<not> CountByIp (pr_ip p) ps > MAX_PEERS_PER_IP" "\<not> over_proxy (pr_proxy p) ps" "over_proxy (pr_proxy_secondary p) ps"
      | "\<not> CountByIp (pr_ip p) ps > MAX_PEERS_PER_IP" "\<not> over_proxy (pr_proxy p) ps" "\<not> over_proxy (pr_proxy_secondary p) ps"
      by blast
    then show ?thesis
    proof cases
      case 1
      with "1.IH"(1) [OF Some 1] step [OF PurgeByIp_remove] keep [OF _ PurgeByIp_remove] Some show ?thesis
        by (simp add: Peers_purge.simps [of account ps])
    next
      case 2
      with "1.IH"(2) [OF Some 2] step [OF PurgeByProxy_remove] keep [OF _ PurgeByProxy_remove] Some show ?thesis
        by (simp add: Peers_purge.simps [of account ps])
    next
      case 3
      with "1.IH"(3) [OF Some 3] step [OF PurgeByProxy_remove] keep [OF _ PurgeByProxy_remove] Some show ?thesis
        by (simp add: Peers_purge.simps [of account ps])
    next
      case 4
      with within_limits [OF "1.prems" Some] "1.prems"(1) Some show ?thesis
        by (simp add: Peers_purge.simps [of account ps] purged_def not_less)
    qed
  qed
qed

end
