(* ===== verification/PeerSteps.thy ===== *)
theory PeerSteps
  imports PeerInv
begin

text \<open>
  Every operation on the table of peers keeps the invariant, adds no peer of its own accord, and never stores a cookie
  without sending it: the relation \<open>grows\<close>. Only an answered cookie adds a peer.
\<close>

section \<open>Requests that were sent\<close>

definition requested :: "(endpoint \<times> message) list \<Rightarrow> u256 \<Rightarrow> endpoint \<Rightarrow> bool" where
  "requested sent c e \<longleftrightarrow> (\<exists>dest hm. (dest, Handshake hm) \<in> set sent \<and> mh_extension (hs_header hm) = REQUEST \<and> hs_cookie hm = c \<and>
     (dest = e \<or> GetFlag PROXY (hs_header hm) \<and> peer_endpoint (hs_header hm) = e))"

definition sound :: "peers \<Rightarrow> bool" where
  "sound ps \<longleftrightarrow> peers_ok ps \<and> (\<forall>c \<in> set (ps_cookies ps). requested (ps_sent ps) (ck_cookie c) (ck_endpoint c))"

definition ids :: "peers \<Rightarrow> (u256 \<times> endpoint) set" where
  "ids ps = (\<lambda>p. (pr_account p, Peer_Endpoint p)) ` set (all_peers ps)"

definition grows :: "peers \<Rightarrow> peers \<Rightarrow> bool" where
  "grows ps qs \<longleftrightarrow> sound qs \<and> ids qs \<subseteq> ids ps \<and> set (ps_sent ps) \<subseteq> set (ps_sent qs)"

lemma requested_mono: "requested s c e \<Longrightarrow> set s \<subseteq> set t \<Longrightarrow> requested t c e"
  unfolding requested_def by blast

lemma grows_refl: "sound ps \<Longrightarrow> grows ps ps"
  by (simp add: grows_def)

lemma grows_trans: "grows ps qs \<Longrightarrow> grows qs rs \<Longrightarrow> grows ps rs"
  unfolding grows_def by blast

lemma grows_sound: "grows ps qs \<Longrightarrow> sound qs"
  by (simp add: grows_def)

lemma sound_ok: "sound ps \<Longrightarrow> peers_ok ps"
  by (simp add: sound_def)

lemma peers_okD:
  assumes "peers_ok ps"
  shows "table_ok ps" "limits_ok ps" "p \<in> set (all_peers ps) \<Longrightarrow> peer_ok p" "cookies_ok ps"
  using assms by (simp_all add: peers_ok_def)

lemma fold_grows:
  assumes "\<And>x ps. x \<in> set xs \<Longrightarrow> sound ps \<Longrightarrow> grows ps (f x ps)" "sound ps"
  shows "grows ps (fold f xs ps)"
  using assms
proof (induction xs arbitrary: ps)
  case (Cons x xs)
  then have "grows ps (f x ps)" by simp
  moreover have "grows (f x ps) (fold f xs (f x ps))"
    using Cons.IH [OF Cons.prems(1)] grows_sound [OF \<open>grows ps (f x ps)\<close>] by simp
  ultimately show ?case by (simp add: grows_trans)
qed (simp add: grows_refl)

section \<open>Peers\<close>

lemma grows_remove:
  assumes "sound ps"
  shows "grows ps (Peers_remove a ps)"
proof -
  have "ids (Peers_remove a ps) \<subseteq> ids ps" by (auto simp: ids_def)
  then show ?thesis
    using peers_ok_remove [OF sound_ok [OF assms], of a] assms by (simp add: grows_def sound_def)
qed

text \<open>A peer that is changed where it is: its identity stays, and it is on no more proxies.\<close>

definition renews :: "peer \<Rightarrow> peer \<Rightarrow> bool" where
  "renews q p \<longleftrightarrow> pr_account p = pr_account q \<and> pr_ip p = pr_ip q \<and> pr_port p = pr_port q \<and>
     LowWeightPeer p = LowWeightPeer q \<and> pr_light_node p = pr_light_node q \<and> peer_ok p \<and>
     (\<forall>ip. \<not> IsReservedIp ip \<longrightarrow> on_proxy ip p \<le> on_proxy ip q)"

lemma renews_replaces: "q \<in> set (all_peers ps) \<Longrightarrow> renews q p \<Longrightarrow> replaces p ps"
  by (auto simp: replaces_def renews_def)

lemma set_put:
  assumes "q \<in> set (all_peers ps)" "pr_account q = pr_account p"
  shows "set (all_peers (put p ps)) = insert p {r \<in> set (all_peers ps). pr_account r \<noteq> pr_account p}"
  using assms by (auto simp: all_peers_put set_put_peer image_iff)

lemma grows_put:
  assumes "sound ps" "q \<in> set (all_peers ps)" "renews q p"
  shows "grows ps (put p ps)"
proof -
  note ok = peers_okD [OF sound_ok [OF assms(1)]]
  note same = assms(3) [unfolded renews_def]
  have a: "pr_account q = pr_account p" using same by simp
  have total: "total_of f (put p ps) + f q = total_of f ps + f p" for f
    using total_put [OF ok(1) renews_replaces [OF assms(2,3)], of f] total_remove_peer [OF ok(1) assms(2), of f]
    unfolding a by simp
  have "total_of (on_ip ip) (put p ps) \<le> MAX_PEERS_PER_IP" for ip
    using total [of "on_ip ip"] ok(2) same by (simp add: limits_ok_def on_ip_def)
  moreover have "total_of (on_proxy ip) (put p ps) \<le> MAX_PEERS_PER_PROXY" if "\<not> IsReservedIp ip" for ip
  proof -
    have "on_proxy ip p \<le> on_proxy ip q" "total_of (on_proxy ip) ps \<le> MAX_PEERS_PER_PROXY"
      using same ok(2) that by (simp_all add: limits_ok_def)
    then show ?thesis using total [of "on_proxy ip"] by linarith
  qed
  ultimately have "limits_ok (put p ps)" by (simp add: limits_ok_def)
  moreover have "\<forall>r \<in> set (all_peers (put p ps)). peer_ok r"
    using same ok(3) by (auto simp: set_put [OF assms(2) a])
  moreover have "table_ok (put p ps)" by (rule table_put [OF ok(1) renews_replaces [OF assms(2,3)]])
  moreover have "ids (put p ps) \<subseteq> ids ps"
    using assms(2) same by (auto simp: ids_def set_put [OF assms(2) a] Peer_Endpoint_def image_iff intro!: bexI [of _ q])
  ultimately show ?thesis
    using assms(1) by (simp add: grows_def sound_def peers_ok_def cookies_ok_def)
qed

lemma modify_renews:
  assumes "sound ps" "Peers_Query account ps = Some q" "renews q p"
  shows "Peers_modify p ps = (False, put p ps)" "grows ps (put p ps)"
  using modify_put [OF peers_okD(1) [OF sound_ok [OF assms(1)]] renews_replaces] grows_put [OF assms(1)]
    Query_Some [OF assms(2)] assms(3) by blast+

lemma grows_Contact:
  assumes "sound ps"
  shows "grows ps (Contact now account timestamp version vmin ps)"
proof (cases "Peers_Query account ps")
  case (Some q)
  let ?p = "q\<lparr>pr_timestamp := timestamp, pr_last_contact := now, pr_version := version, pr_version_min := vmin\<rparr>"
  have "peer_ok q" using Query_Some [OF Some] peers_okD(3) [OF sound_ok [OF assms]] by blast
  then have "renews q ?p"
    by (simp add: renews_def peer_ok_def LowWeightPeer_def on_proxy_def KeyProxy_def KeyProxySecondary_def)
  from modify_renews [OF assms Some this] Some show ?thesis by (simp add: Contact_def)
qed (simp add: Contact_def grows_refl assms)

lemma grows_ValidateKeepliveAck:
  assumes "sound ps"
  shows "grows ps (snd (ValidateKeepliveAck account hash ps))"
proof (cases "Peers_Query account ps")
  case (Some q)
  let ?p = "q\<lparr>pr_lost_acks := 0\<rparr>"
  have "peer_ok q" using Query_Some [OF Some] peers_okD(3) [OF sound_ok [OF assms]] by blast
  then have "renews q ?p"
    by (simp add: renews_def peer_ok_def LowWeightPeer_def on_proxy_def KeyProxy_def KeyProxySecondary_def)
  from modify_renews [OF assms Some this] Some show ?thesis by (simp add: ValidateKeepliveAck_def grows_refl assms)
qed (simp add: ValidateKeepliveAck_def grows_refl assms)

subsection \<open>Insertion\<close>

definition adds :: "peer \<Rightarrow> peers \<Rightarrow> peers \<Rightarrow> bool" where
  "adds p ps qs \<longleftrightarrow> sound qs \<and> ids qs \<subseteq> insert (pr_account p, Peer_Endpoint p) (ids ps) \<and> set (ps_sent ps) \<subseteq> set (ps_sent qs)"

lemma grows_adds: "grows ps qs \<Longrightarrow> adds p ps qs"
  by (auto simp: grows_def adds_def)

lemma purged_sound:
  assumes "purged qs rs" "\<forall>p \<in> set (all_peers qs). peer_ok p" "sound ps" "ps_cookies qs = ps_cookies ps" "ps_sent qs = ps_sent ps"
  shows "sound rs" "ids rs \<subseteq> ids qs" "ps_sent rs = ps_sent ps"
  using assms by (auto simp: purged_def sound_def peers_ok_def cookies_ok_def ids_def)

lemma purge_insert:
  assumes "sound ps" "peer_ok p" "pr_account p \<notin> pr_account ` set (all_peers ps)"
  shows "adds p ps (Peers_purge (pr_account p) (Peers_insert p ps))"
proof -
  let ?qs = "Peers_insert p ps"
  note ok = peers_okD [OF sound_ok [OF assms(1)]]
  have t: "table_ok ?qs" by (rule table_insert [OF ok(1) assms(3)])
  have "p \<in> set (all_peers ?qs)" using all_peers_insert(1) [OF assms(3)] by simp
  then have "total_of f (Peers_remove (pr_account p) ?qs) = total_of f ps" for f
    using total_remove_peer [OF t, of p f] all_peers_insert(2) [OF assms(3), of f] by simp
  then have "limits_ok (Peers_remove (pr_account p) ?qs)" using ok(2) by (simp add: limits_ok_def)
  from purge_purged [OF t this] have "purged ?qs (Peers_purge (pr_account p) ?qs)" .
  from purged_sound [OF this _ assms(1)] show ?thesis
    using all_peers_insert(1) [OF assms(3)] assms(2) ok(3) by (auto simp: adds_def ids_def)
qed

lemma SetProxy_renewed:
  assumes "SetProxy x q = (False, p)" "peer_ok q" "\<not> IsReservedIp (ep_ip (px_endpoint x))"
  shows "pr_account p = pr_account q" "Peer_Endpoint p = Peer_Endpoint q" "LowWeightPeer p = LowWeightPeer q"
    "pr_light_node p = pr_light_node q" "peer_ok p"
  using assms
  by (auto simp: SetProxy_def Peer_Endpoint_def LowWeightPeer_def peer_ok_def proxy_ok_def split: option.splits if_splits)

lemma purge_put:
  assumes "sound ps" "q \<in> set (all_peers ps)" "pr_account p = pr_account q" "Peer_Endpoint p = Peer_Endpoint q"
    "LowWeightPeer p = LowWeightPeer q" "pr_light_node p = pr_light_node q" "peer_ok p"
  shows "Peers_modify p ps = (False, put p ps)" "grows ps (Peers_purge (pr_account p) (put p ps))"
proof -
  note ok = peers_okD [OF sound_ok [OF assms(1)]]
  have r: "replaces p ps" using assms(2-6) by (auto simp: replaces_def)
  show "Peers_modify p ps = (False, put p ps)" by (rule modify_put [OF ok(1) r])
  have t: "table_ok (put p ps)" by (rule table_put [OF ok(1) r])
  have s: "set (all_peers (put p ps)) = insert p {r \<in> set (all_peers ps). pr_account r \<noteq> pr_account p}"
    by (rule set_put [OF assms(2) assms(3) [symmetric]])
  have "total_of f (Peers_remove (pr_account p) (put p ps)) = total_of f (Peers_remove (pr_account p) ps)" for f
    using total_remove_peer [OF t, of p f] total_put [OF ok(1) r, of f] s by simp
  then have "limits_ok (Peers_remove (pr_account p) (put p ps))"
    using limits_remove [OF ok(2), of "pr_account p"] by (simp add: limits_ok_def)
  from purge_purged [OF t this] have "purged (put p ps) (Peers_purge (pr_account p) (put p ps))" .
  from purged_sound [OF this _ assms(1)] have "sound (Peers_purge (pr_account p) (put p ps))"
    "ids (Peers_purge (pr_account p) (put p ps)) \<subseteq> ids (put p ps)" "ps_sent (Peers_purge (pr_account p) (put p ps)) = ps_sent ps"
    using s assms(7) ok(3) by auto
  moreover have "ids (put p ps) \<subseteq> ids ps"
    using assms(2-4) by (auto simp: ids_def s image_iff intro!: bexI [of _ q])
  ultimately show "grows ps (Peers_purge (pr_account p) (put p ps))" by (auto simp: grows_def)
qed

lemma adds_Insert:
  assumes "sound ps" "peer_ok p"
  shows "adds p ps (Peers_Insert p ps)"
proof (cases "Peers_Query (pr_account p) ps")
  case None
  with purge_insert [OF assms None [unfolded Query_None]] show ?thesis by (simp add: Peers_Insert_def)
next
  case (Some old)
  note old = Query_Some [OF Some]
  show ?thesis
  proof (cases "insertion_of old p")
    case Keep_Old
    with Some assms(1) show ?thesis by (simp add: Peers_Insert_def grows_adds grows_refl)
  next
    case Replace_Old
    have g: "grows ps (Peers_remove (pr_account p) ps)" by (rule grows_remove [OF assms(1)])
    have "pr_account p \<notin> pr_account ` set (all_peers (Peers_remove (pr_account p) ps))" by auto
    then have "adds p (Peers_remove (pr_account p) ps) (Peers_Insert p ps)"
      using purge_insert [OF grows_sound [OF g] assms(2)] Some Replace_Old by (simp add: Peers_Insert_def)
    with g show ?thesis by (auto simp: adds_def grows_def)
  next
    case (Change_Old q)
    then obtain x where x: "SetProxy x old = (False, q)" "pr_proxy p = Some x"
      by (auto simp: insertion_of_def split: option.splits if_splits prod.splits)
    have "\<not> IsReservedIp (ep_ip (px_endpoint x))" "peer_ok old"
      using x(2) assms(2) peers_okD(3) [OF sound_ok [OF assms(1)]] old by (auto simp: peer_ok_def proxy_ok_def)
    note q = SetProxy_renewed [OF x(1) this(2,1)]
    from purge_put [OF assms(1) _ q] old have "Peers_Insert p ps = Peers_purge (pr_account p) (put q ps)"
      "grows ps (Peers_purge (pr_account p) (put q ps))"
      using Some Change_Old q(1) by (simp_all add: Peers_Insert_def)
    then show ?thesis by (simp add: grows_adds)
  qed
qed

subsection \<open>Weights\<close>

lemma grows_SetPeerWeight:
  assumes "sound ps"
  shows "grows ps (SetPeerWeight account amount ps)"
proof (cases "Peers_Query account ps")
  case (Some q)
  let ?p = "q\<lparr>pr_rep_weight := amount\<rparr>"
  note q = Query_Some [OF Some]
  note ok = peers_okD [OF sound_ok [OF assms]]
  have wf: "peer_ok ?p" using ok(3) q by (simp add: peer_ok_def)
  show ?thesis
  proof (cases "LowWeightPeer q = LowWeightPeer ?p")
    case True
    then have "renews q ?p" using wf by (simp add: renews_def on_proxy_def KeyProxy_def KeyProxySecondary_def)
    from modify_renews [OF assms Some this] Some True show ?thesis by (simp add: SetPeerWeight_def Let_def)
  next
    case False
    let ?rs = "Peers_remove (pr_account q) ps"
    have new: "pr_account ?p \<notin> pr_account ` set (all_peers ?rs)" by auto
    have "total_of (on_ip ip) (Peers_insert ?p ?rs) = total_of (on_ip ip) ps"
      "total_of (on_proxy ip) (Peers_insert ?p ?rs) = total_of (on_proxy ip) ps" for ip
      using all_peers_insert(2) [OF new] total_remove_peer [OF ok(1), of q] q
      by (simp_all add: on_ip_def on_proxy_def KeyProxy_def KeyProxySecondary_def)
    then have "limits_ok (Peers_insert ?p ?rs)" using ok(2) by (simp add: limits_ok_def)
    moreover have "table_ok (Peers_insert ?p ?rs)" by (rule table_insert [OF table_remove [OF ok(1)] new])
    moreover have "(pr_account q, Peer_Endpoint q) \<in> ids ps" using q by (auto simp: ids_def)
    then have "ids (Peers_insert ?p ?rs) \<subseteq> ids ps" by (auto simp: ids_def all_peers_insert(1) [OF new] Peer_Endpoint_def)
    moreover have "\<forall>r \<in> set (all_peers (Peers_insert ?p ?rs)). peer_ok r"
      using wf ok(3) all_peers_insert(1) [OF new] by auto
    moreover have "SetPeerWeight account amount ps = Peers_insert ?p ?rs"
      using Some False by (simp add: SetPeerWeight_def Let_def)
    ultimately show ?thesis
      using assms by (simp add: grows_def sound_def peers_ok_def cookies_ok_def)
  qed
qed (simp add: SetPeerWeight_def grows_refl assms)

lemma grows_UpdatePeerWeights: "sound ps \<Longrightarrow> grows ps (UpdatePeerWeights w ps)"
  unfolding UpdatePeerWeights_def by (rule fold_grows) (auto simp: grows_SetPeerWeight grows_refl)

section \<open>Cookies\<close>

lemma cookies_sound:
  assumes "sound ps" "ps_peers qs = ps_peers ps" "ps_low_weight qs = ps_low_weight ps" "ps_full_nodes qs = ps_full_nodes ps"
    "cookies_ok qs" "set (ps_sent ps) \<subseteq> set (ps_sent qs)"
    "\<And>c. c \<in> set (ps_cookies qs) \<Longrightarrow> requested (ps_sent qs) (ck_cookie c) (ck_endpoint c)"
  shows "grows ps qs"
  using assms same_table [OF assms(2-4)] by (simp add: grows_def sound_def peers_ok_def ids_def)

lemma send_fields [simp]:
  "ps_peers (send_through E x e m ps) = ps_peers ps" "ps_low_weight (send_through E x e m ps) = ps_low_weight ps"
  "ps_full_nodes (send_through E x e m ps) = ps_full_nodes ps" "ps_cookies (send_through E x e m ps) = ps_cookies ps"
  "set (ps_sent ps) \<subseteq> set (ps_sent (send_through E x e m ps))"
  by (auto simp: send_through_def Peers_send_def split: option.splits)

lemma grows_send: "sound ps \<Longrightarrow> grows ps (send_through E x e m ps)"
  by (rule cookies_sound) (auto simp: cookies_ok_def sound_def peers_ok_def intro: requested_mono [OF _ send_fields(5)])

text \<open>A request reaches its endpoint, or names it to a proxy.\<close>

lemma EnableProxy_handshake:
  "\<exists>h. EnableProxy E e (Handshake m) = Handshake (m\<lparr>hs_header := h\<rparr>) \<and> GetFlag PROXY h \<and> peer_endpoint h = e \<and>
     mh_extension h = mh_extension (hs_header m)"
  by (simp add: EnableProxy_def Let_def GetFlag_def SetFlag_def, rule exI, rule conjI, rule refl, simp add: bit_simps)

lemma HandshakeRequest_requested:
  "requested (ps_sent (HandshakeRequest E me c x ps)) (ck_cookie c) (ck_endpoint c)"
proof (cases x)
  case None
  then show ?thesis
    unfolding requested_def
    by (intro exI [of _ "ck_endpoint c"] exI [of _ "HandshakeMessage_request E (sf_account me) (ck_cookie c)"])
      (simp add: HandshakeRequest_def send_through_def Peers_send_def HandshakeMessage_request_def MessageHeader_new_def)
next
  case (Some r)
  let ?m = "HandshakeMessage_request E (sf_account me) (ck_cookie c)"
  obtain h where h: "EnableProxy E (ck_endpoint c) (Handshake ?m) = Handshake (?m\<lparr>hs_header := h\<rparr>)" "GetFlag PROXY h"
    "peer_endpoint h = ck_endpoint c" "mh_extension h = mh_extension (hs_header ?m)"
    using EnableProxy_handshake [of E "ck_endpoint c" ?m] by blast
  show ?thesis
    unfolding requested_def using h Some
    by (intro exI [of _ r] exI [of _ "?m\<lparr>hs_header := h\<rparr>"])
      (simp add: HandshakeRequest_def send_through_def Peers_send_def HandshakeMessage_request_def MessageHeader_new_def)
qed

lemma find_cookie_Some: "find_cookie e ps = Some c \<Longrightarrow> c \<in> set (ps_cookies ps) \<and> ck_endpoint c = e"
  unfolding find_cookie_def by (induction "ps_cookies ps" arbitrary: ps) (auto simp: find_Some_iff)

lemma find_cookie_None: "find_cookie e ps = None \<longleftrightarrow> e \<notin> ck_endpoint ` set (ps_cookies ps)"
  by (auto simp: find_cookie_def find_None_iff)

lemma grows_erase_cookie: "sound ps \<Longrightarrow> grows ps (erase_cookie e ps)"
  by (rule cookies_sound) (auto simp: erase_cookie_def cookies_ok_def sound_def peers_ok_def distinct_map_filter)

lemma NeedSyn_fields [simp]:
  "ck_endpoint (NeedSyn me c ps) = ck_endpoint c" "ck_cookie (NeedSyn me c ps) = ck_cookie c"
  "ck_learned_from (NeedSyn me c ps) = ck_learned_from c" "ck_use_proxy (NeedSyn me c ps) = ck_use_proxy c"
  "ck_attempts (NeedSyn me c ps) = ck_attempts c" "ck_account (NeedSyn me c ps) = ck_account c"
  by (simp_all add: NeedSyn_def Let_def split: option.splits)

lemma modify_cookie_fields [simp]:
  "ps_peers (modify_cookie e f ps) = ps_peers ps" "ps_low_weight (modify_cookie e f ps) = ps_low_weight ps"
  "ps_full_nodes (modify_cookie e f ps) = ps_full_nodes ps" "ps_sent (modify_cookie e f ps) = ps_sent ps"
  by (simp_all add: modify_cookie_def)

lemma distinct_modify_cookie:
  "(\<And>c. ck_endpoint c = e \<Longrightarrow> ck_endpoint (f c) = e) \<Longrightarrow>
     map ck_endpoint (ps_cookies (modify_cookie e f ps)) = map ck_endpoint (ps_cookies ps)"
  by (auto simp: modify_cookie_def)

lemma small_attempts: "n < MAX_COOKIE_ATTEMPTS \<Longrightarrow> n + 1 \<le> MAX_COOKIE_ATTEMPTS"
  by (simp add: MAX_COOKIE_ATTEMPTS_def inc_le)

text \<open>A new cookie: not tried yet, learned from an address that is not reserved.\<close>

definition fresh :: "cookie \<Rightarrow> bool" where
  "fresh c \<longleftrightarrow> ck_attempts c = 0 \<and> \<not> ck_use_proxy c \<and>
     (case ck_learned_from c of None \<Rightarrow> True | Some from \<Rightarrow> \<not> IsReservedIp (ep_ip from))"

lemma fresh_new:
  "fresh (Cookie_new now rnd e l a) \<longleftrightarrow> (case l of None \<Rightarrow> True | Some from \<Rightarrow> \<not> IsReservedIp (ep_ip from))"
  by (simp add: fresh_def Cookie_new_def)

lemma grows_SynCookie:
  assumes "sound ps" "fresh c"
  shows "grows ps (SynCookie E me now c ps)"
proof (cases "InsertCookie me c ps")
  case (Pair error qs)
  show ?thesis
  proof (cases error)
    case True
    then have "qs = ps" using Pair by (auto simp: InsertCookie_def Let_def split: if_splits)
    with True Pair show ?thesis by (simp add: SynCookie_def grows_refl assms(1))
  next
    case False
    let ?c = "NeedSyn me c ps" and ?e = "ck_endpoint c"
    have qs: "qs = ps\<lparr>ps_cookies := ps_cookies ps @ [?c]\<rparr>" and new: "?e \<notin> ck_endpoint ` set (ps_cookies ps)"
      using Pair False by (auto simp: InsertCookie_def Let_def find_cookie_None split: if_splits)
    let ?rs = "SynCookie E me now c ps"
    have rs: "?rs = IncreaseCookieAttempts now ?e (HandshakeRequest E me c None qs)"
      using Pair False by (simp add: SynCookie_def)
    have "map (\<lambda>x. if ck_endpoint x = ?e then bump now x else x) (ps_cookies ps) = ps_cookies ps"
      using new by (intro map_idI) (force simp: image_iff)
    then have cookies: "ps_cookies ?rs = ps_cookies ps @ [bump now ?c]"
      by (simp add: rs qs IncreaseCookieAttempts_def modify_cookie_def HandshakeRequest_def)
    have sent: "set (ps_sent ps) \<subseteq> set (ps_sent ?rs)" "requested (ps_sent ?rs) (ck_cookie c) ?e"
      using HandshakeRequest_requested [of E me c None qs] send_fields(5) [of qs]
      by (simp_all add: rs IncreaseCookieAttempts_def HandshakeRequest_def qs)
    have "cookie_ok (bump now ?c)"
      using assms(2) by (auto simp: cookie_ok_def fresh_def bump_def MAX_COOKIE_ATTEMPTS_def split: option.splits)
    then have "cookies_ok ?rs"
      using assms(1) new by (auto simp: cookies_ok_def cookies sound_def peers_ok_def bump_def)
    moreover have "requested (ps_sent ?rs) (ck_cookie x) (ck_endpoint x)" if "x \<in> set (ps_cookies ?rs)" for x
      using that sent assms(1) requested_mono [OF _ sent(1)] by (auto simp: cookies bump_def sound_def)
    ultimately show ?thesis
      using sent(1) by (intro cookies_sound [OF assms(1)]) (simp_all add: rs qs IncreaseCookieAttempts_def HandshakeRequest_def)
  qed
qed

lemma grows_SynCookies_one:
  assumes "sound ps"
  shows "grows ps (SynCookies_one E me now rnd e ps)"
proof (cases "find_cookie e ps")
  case (Some c)
  note c = find_cookie_Some [OF Some]
  have ok: "cookie_ok c" "distinct (map ck_endpoint (ps_cookies ps))"
    using assms c by (auto simp: sound_def peers_ok_def cookies_ok_def)
  let ?max = "if ck_learned_from c = None \<or> \<not> ck_syn_proxy c then MAX_COOKIE_ATTEMPTS div 2 else MAX_COOKIE_ATTEMPTS"
  show ?thesis
  proof (cases "ck_attempts c \<ge> ?max")
    case True
    with Some have "SynCookies_one E me now rnd e ps = erase_cookie e ps" by (simp add: SynCookies_one_def)
    with grows_erase_cookie [OF assms] show ?thesis by simp
  next
    case False
    define d where "d = (if ck_attempts c = MAX_COOKIE_ATTEMPTS div 2 \<and> ck_learned_from c \<noteq> None \<and> ck_syn_proxy c
      then c\<lparr>ck_use_proxy := True, ck_cookie := rnd\<rparr> else c)"
    let ?rs = "SynCookies_one E me now rnd e ps"
    have rs: "?rs = HandshakeRequest E me d (if ck_use_proxy d then ck_learned_from d else None) (modify_cookie e (\<lambda>_. bump now d) ps)"
      using Some False by (simp add: SynCookies_one_def d_def Let_def)
    have de: "ck_endpoint d = e" using c by (simp add: d_def)
    have "ck_attempts d < MAX_COOKIE_ATTEMPTS"
      using False by (auto simp: d_def not_le MAX_COOKIE_ATTEMPTS_def split: if_splits elim: less_trans)
    then have "cookie_ok (bump now d)"
      using ok(1) small_attempts [of "ck_attempts d"] by (auto simp: cookie_ok_def bump_def d_def split: option.splits)
    moreover have cookies: "ps_cookies ?rs = map (\<lambda>x. if ck_endpoint x = e then bump now d else x) (ps_cookies ps)"
      by (simp add: rs HandshakeRequest_def modify_cookie_def)
    moreover have "map ck_endpoint (ps_cookies ?rs) = map ck_endpoint (ps_cookies ps)"
      using de by (auto simp: cookies bump_def)
    then have "distinct (map ck_endpoint (ps_cookies ?rs))" using ok(2) by (simp only:)
    ultimately have "cookies_ok ?rs"
      using assms by (auto simp: cookies_ok_def sound_def peers_ok_def)
    moreover have sent: "set (ps_sent ps) \<subseteq> set (ps_sent ?rs)"
      using send_fields(5) [of "modify_cookie e (\<lambda>_. bump now d) ps"] by (simp add: rs HandshakeRequest_def)
    moreover have "requested (ps_sent ?rs) (ck_cookie d) e"
      using HandshakeRequest_requested [of E me d] de by (simp add: rs)
    moreover have "requested (ps_sent ?rs) (ck_cookie x) (ck_endpoint x)" if "x \<in> set (ps_cookies ?rs)" for x
      using that assms requested_mono [OF _ sent] de \<open>requested (ps_sent ?rs) (ck_cookie d) e\<close>
      by (auto simp: cookies bump_def sound_def split: if_splits)
    ultimately show ?thesis
      by (intro cookies_sound [OF assms]) (simp_all add: rs HandshakeRequest_def)
  qed
qed (simp add: SynCookies_one_def grows_refl assms)

lemma grows_SynCookies: "sound ps \<Longrightarrow> grows ps (SynCookies E me now rnd ps)"
  unfolding SynCookies_def by (rule fold_grows) (simp_all add: grows_SynCookies_one)

section \<open>Random peers\<close>

lemma insert_new_facts: "length (insert_new p xs) \<le> Suc (length xs)" "set (insert_new p xs) \<subseteq> insert p (set xs)"
  by (auto simp: insert_new_def)

lemma random_picks_facts:
  "length result \<le> k \<Longrightarrow> length (random_picks draw xs k i n result) \<le> k"
  "xs \<noteq> [] \<Longrightarrow> set result \<subseteq> set xs \<Longrightarrow> set (random_picks draw xs k i n result) \<subseteq> set xs"
proof (induction draw xs k i n result rule: random_picks.induct)
  case (2 draw xs k i n result)
  let ?r = "insert_new (xs ! (draw i mod length xs)) result"
  {
    case 1
    with 2(1) insert_new_facts(1) [of "xs ! (draw i mod length xs)" result] show ?case by (auto intro: le_trans)
  next
    case 2
    then have "xs ! (draw i mod length xs) \<in> set xs" by simp
    then have "set ?r \<subseteq> set xs" using insert_new_facts(2) 2 by fastforce
    with "2.IH"(2) 2 show ?case by auto
  }
qed auto

lemma fill_up_facts:
  "length result \<le> k \<Longrightarrow> length (fill_up k xs result) \<le> k"
  "set (fill_up k xs result) \<subseteq> set xs \<union> set result"
proof (induction k xs result rule: fill_up.induct)
  case (2 k p xs result)
  {
    case 1
    with 2(1) insert_new_facts(1) [of p result] show ?case by (auto intro: le_trans)
  next
    case 2
    with "2.IH"(2) insert_new_facts(2) [of p result] show ?case by auto
  }
qed auto

lemma RandomSet_facts: "length (RandomSet draw xs k) \<le> k" "set (RandomSet draw xs k) \<subseteq> set xs"
proof -
  show "length (RandomSet draw xs k) \<le> k"
    by (simp add: RandomSet_def fill_up_facts(1) random_picks_facts(1))
  show "set (RandomSet draw xs k) \<subseteq> set xs"
  proof (cases "length xs \<le> k")
    case False
    then have "xs \<noteq> []" by auto
    then have picks: "set (random_picks draw xs k 0 (2 * k) []) \<subseteq> set xs" by (rule random_picks_facts(2)) simp
    have "RandomSet draw xs k = fill_up k (rev (sort_key pr_last_contact xs)) (random_picks draw xs k 0 (2 * k) [])"
      using False by (simp add: RandomSet_def)
    then have "set (RandomSet draw xs k) \<subseteq> set (rev (sort_key pr_last_contact xs)) \<union> set (random_picks draw xs k 0 (2 * k) [])"
      using fill_up_facts(2) by metis
    with picks show ?thesis by auto
  qed (simp add: RandomSet_def)
qed

lemma RandomPeers_facts: "length (RandomPeers draw k ps) \<le> k" "set (RandomPeers draw k ps) \<subseteq> set (all_peers ps)"
proof -
  let ?total = "length (ps_peers ps) + length (ps_low_weight ps)"
  define low where "low = k * length (ps_low_weight ps) div ?total"
  define low1 where "low1 = (if low = 0 \<and> length (ps_low_weight ps) > 0 \<and> k > 1 then 1 else low)"
  define normal where "normal = (if k - low1 < k div 2 then min (k div 2) (length (ps_peers ps)) else k - low1)"
  define low2 where "low2 = (if k - low1 < k div 2 then k - normal else low1)"
  have split: "RandomPeers draw k ps = (if ?total \<le> 1 \<or> k = 0 then []
      else RandomSet (draw False) (ps_peers ps) normal @ RandomSet (draw True) (ps_low_weight ps) low2)"
  proof -
    have "RandomPeers draw k ps = (if ?total \<le> 1 \<or> k = 0 then []
        else case (if k - low1 < k div 2
                   then (min (k div 2) (length (ps_peers ps)), k - min (k div 2) (length (ps_peers ps))) else (k - low1, low1))
          of (normal, low) \<Rightarrow> RandomSet (draw False) (ps_peers ps) normal @ RandomSet (draw True) (ps_low_weight ps) low)"
      by (simp only: RandomPeers_def Let_def low_def low1_def)
    then show ?thesis by (cases "k - low1 < k div 2") (simp_all add: normal_def low2_def)
  qed
  have low: "low \<le> k" if "?total \<noteq> 0"
  proof -
    have "k * length (ps_low_weight ps) \<le> k * ?total" by simp
    then have "low \<le> k * ?total div ?total" unfolding low_def by (rule div_le_mono)
    then show ?thesis using that by (auto split: if_splits)
  qed
  have "normal + low2 \<le> k" if "\<not> (?total \<le> 1 \<or> k = 0)"
  proof -
    have "low \<le> k" by (rule low) (use that in linarith)
    then have "low1 \<le> k" using that by (simp add: low1_def)
    then show ?thesis by (auto simp: normal_def low2_def)
  qed
  with RandomSet_facts(1) [of "draw False" "ps_peers ps" normal] RandomSet_facts(1) [of "draw True" "ps_low_weight ps" low2]
  show "length (RandomPeers draw k ps) \<le> k"
    unfolding split by (auto intro: le_trans [OF add_mono])
  show "set (RandomPeers draw k ps) \<subseteq> set (all_peers ps)"
    using RandomSet_facts(2) [of "draw False" "ps_peers ps" normal] RandomSet_facts(2) [of "draw True" "ps_low_weight ps" low2]
    unfolding split by (auto simp: all_peers_def)
qed

section \<open>Keeplives\<close>

lemma Node_Keeplive_total:
  assumes "length xs \<le> MAX_PEERS"
  shows "Node_Keeplive E me xs \<noteq> None"
proof -
  have "length (filter (\<lambda>p. pr_proxy p = None) xs) + length (filter (\<lambda>p. pr_proxy p \<noteq> None) xs) = length xs"
    by (rule sum_length_filter_compl)
  then show ?thesis
    using assms by (simp add: Node_Keeplive_def KeepliveMessage_new_def Let_def)
qed

lemma SwitchProxy_renews: "peer_ok p \<Longrightarrow> renews p (SwitchProxy p)"
  by (auto simp: renews_def SwitchProxy_def peer_ok_def LowWeightPeer_def on_proxy_def KeyProxy_def KeyProxySecondary_def
      proxy_key_def proxy_ok_def)

lemma requested_append: "requested s c e \<Longrightarrow> requested (s @ t) c e"
  by (erule requested_mono) simp

lemma grows_SendByRoute: "sound ps \<Longrightarrow> grows ps (Peers_SendByRoute E r m ps)"
  by (rule cookies_sound)
    (auto simp: Peers_SendByRoute_def Peers_send_def cookies_ok_def sound_def peers_ok_def intro!: requested_append)

lemma put_in_all:
  assumes "sound ps" "q \<in> set (all_peers ps)" "renews q p" "LowWeightPeer q = low"
  shows "put_in low p ps = put p ps" "p \<in> set (all_peers (put p ps))"
proof -
  have a: "pr_account q = pr_account p" "LowWeightPeer p = low" using assms(3,4) by (simp_all add: renews_def)
  show "put_in low p ps = put p ps"
    by (rule put_in_put [OF peers_okD(1) [OF sound_ok [OF assms(1)]] renews_replaces [OF assms(2,3)] a(2)])
  show "p \<in> set (all_peers (put p ps))" by (simp add: set_put [OF assms(2) a(1)])
qed

lemma renews_refl: "peer_ok p \<Longrightarrow> renews p p"
  by (simp add: renews_def)

lemma attempted_renews:
  "peer_ok p \<Longrightarrow> pr_lost_acks p < MAX_LOST_ACKS \<Longrightarrow>
     renews p (p\<lparr>pr_last_attempt := now, pr_last_hash := hash, pr_lost_acks := pr_lost_acks p + 1\<rparr>)"
  by (simp add: renews_def peer_ok_def LowWeightPeer_def on_proxy_def KeyProxy_def KeyProxySecondary_def inc_le)

lemma Keeplive_one_grows:
  assumes "sound ps"
  shows "\<exists>qs. Keeplive_one E me now draw low MAX_PEERS account ps = Some qs \<and> grows ps qs"
proof (cases "find_peer account (container low ps)")
  case None
  then show ?thesis by (simp add: Keeplive_one_def grows_refl assms)
next
  case (Some p)
  note ok = peers_okD [OF sound_ok [OF assms]]
  have p: "p \<in> set (all_peers ps)" "pr_account p = account" "LowWeightPeer p = low"
    using find_peer_Some [OF Some] ok(1) by (auto simp: container_def all_peers_def table_ok_def split: if_splits)
  have wf: "peer_ok p" by (rule ok(3) [OF p(1)])
  show ?thesis
  proof (cases "pr_lost_acks p \<ge> MAX_LOST_ACKS")
    case True
    with Some grows_remove [OF assms] show ?thesis by (simp add: Keeplive_one_def)
  next
    case False
    define q where "q = (if pr_lost_acks p \<ge> MAX_LOST_ACKS div 2 then SwitchProxy p else p)"
    have q: "renews p q" using wf by (simp add: q_def SwitchProxy_renews renews_refl)
    have lost: "pr_lost_acks q = pr_lost_acks p" by (simp add: q_def SwitchProxy_def)
    have wq: "peer_ok q" "LowWeightPeer q = low" using q p(3) by (simp_all add: renews_def)
    note put1 = put_in_all [OF assms p(1) q p(3)]
    have g1: "grows ps (put q ps)" by (rule grows_put [OF assms p(1) q])
    note s1 = grows_sound [OF g1]
    obtain m hash where m: "Node_Keeplive E me (RandomPeers draw MAX_PEERS (put q ps)) = Some (m, hash)"
      using Node_Keeplive_total [OF RandomPeers_facts(1)] by fastforce
    define r where "r = q\<lparr>pr_last_attempt := now, pr_last_hash := hash, pr_lost_acks := pr_lost_acks q + 1\<rparr>"
    have r: "renews q r" unfolding r_def by (rule attempted_renews [OF wq(1)]) (use False lost in simp)
    note put2 = put_in_all [OF s1 put1(2) r wq(2)]
    have g2: "grows (put q ps) (put r (put q ps))" by (rule grows_put [OF s1 put1(2) r])
    have g3: "grows (put r (put q ps)) (Peers_SendByRoute E (Peer_Route r) (Keeplive m) (put r (put q ps)))"
      by (rule grows_SendByRoute [OF grows_sound [OF g2]])
    have "Keeplive_one E me now draw low MAX_PEERS account ps =
        Some (Peers_SendByRoute E (Peer_Route r) (Keeplive m) (put r (put q ps)))"
      using Some False m put1(1) put2(1) by (simp add: Keeplive_one_def Let_def q_def [symmetric] r_def [symmetric])
    with grows_trans [OF g1 grows_trans [OF g2 g3]] show ?thesis by blast
  qed
qed

lemma Keeplive_each_grows:
  "sound ps \<Longrightarrow> \<exists>qs. Keeplive_each E me now draw low MAX_PEERS as ps = Some qs \<and> grows ps qs"
proof (induction as arbitrary: ps)
  case (Cons a as)
  obtain qs where qs: "Keeplive_one E me now (draw a) low MAX_PEERS a ps = Some qs" "grows ps qs"
    using Keeplive_one_grows [OF Cons.prems] by blast
  obtain rs where "Keeplive_each E me now draw low MAX_PEERS as qs = Some rs" "grows qs rs"
    using Cons.IH [OF grows_sound [OF qs(2)]] by blast
  with qs grows_trans show ?case by auto
qed (simp add: grows_refl)

lemma Keeplive_container_grows:
  assumes "sound ps"
  shows "\<exists>qs. Keeplive_container E me now draw low MAX_PEERS ps = Some qs \<and> grows ps qs"
proof -
  have g: "grows ps (fold Peers_remove as ps)" for as
    by (rule fold_grows [OF _ assms]) (simp add: grows_remove)
  show ?thesis
    using Keeplive_each_grows [OF grows_sound [OF g]] grows_trans [OF g] unfolding Keeplive_container_def Let_def by blast
qed

lemma Peers_Keeplive_grows:
  assumes "sound ps"
  shows "\<exists>qs. Peers_Keeplive E me now draw MAX_PEERS ps = Some qs \<and> grows ps qs"
proof -
  obtain qs where qs: "Keeplive_container E me now draw False MAX_PEERS ps = Some qs" "grows ps qs"
    using Keeplive_container_grows [OF assms] by blast
  obtain rs where "Keeplive_container E me now draw True MAX_PEERS qs = Some rs" "grows qs rs"
    using Keeplive_container_grows [OF grows_sound [OF qs(2)]] by blast
  with qs grows_trans show ?thesis by (auto simp: Peers_Keeplive_def)
qed

end
