(* ===== verification/Handshakes.thy ===== *)
theory Handshakes
  imports PeerSteps Acceptance MessageCodecs Reachable
begin

text \<open>
  Runs of the table of peers with the messages a node receives, and what they guarantee: the invariant, that every peer has
  answered a cookie, and what a node signs for whoever sends it a handshake.
\<close>

section \<open>Messages\<close>

definition sender_of :: "message_header \<Rightarrow> endpoint \<Rightarrow> endpoint" where
  "sender_of h sender = (if GetFlag PROXY h then peer_endpoint h else sender)"

text \<open>The message answers a cookie that was sent to the endpoint, with the signature of the account.\<close>

definition answered_by :: "env \<Rightarrow> (endpoint \<times> message) list \<Rightarrow> endpoint \<Rightarrow> handshake_message \<Rightarrow> u256 \<Rightarrow> endpoint \<Rightarrow> bool" where
  "answered_by E sent sender m account e \<longleftrightarrow> mh_extension (hs_header m) \<noteq> REQUEST \<and> hs_account m = account \<and>
     sender_of (hs_header m) sender = e \<and>
     (\<exists>c. requested sent c e \<and> \<not> ValidateMessage E account c (hs_signature m))"

lemma ValidateCookie_Some:
  assumes "sound ps" "ValidateCookie E e account signature ps = (Some c, qs)"
  shows "grows ps qs" "ck_account c = Some account" "ck_endpoint c = e" "cookie_ok c" "requested (ps_sent ps) (ck_cookie c) e"
    "\<not> ValidateMessage E account (ck_cookie c) signature"
proof -
  obtain d where d: "find_cookie e ps = Some d" "c = d\<lparr>ck_account := Some account\<rparr>" "qs = erase_cookie e ps"
    "\<not> ValidateMessage E account (ck_cookie d) signature"
    using assms(2) by (auto simp: ValidateCookie_def split: option.splits if_splits)
  have "d \<in> set (ps_cookies ps)" "ck_endpoint d = e" using find_cookie_Some [OF d(1)] by simp_all
  with d assms(1) grows_erase_cookie [OF assms(1), of e]
  show "grows ps qs" "ck_account c = Some account" "ck_endpoint c = e" "cookie_ok c" "requested (ps_sent ps) (ck_cookie c) e"
    "\<not> ValidateMessage E account (ck_cookie c) signature"
    by (auto simp: sound_def peers_ok_def cookies_ok_def cookie_ok_def split: option.splits)
qed

lemma ValidateCookie_None: "ValidateCookie E e account signature ps = (None, qs) \<Longrightarrow> qs = ps"
  by (auto simp: ValidateCookie_def split: option.splits if_splits)

text \<open>A peer is made from every cookie that was answered.\<close>

lemma Peer_new_ok:
  assumes "cookie_ok c" "ck_account c = Some account" "\<not> IsReservedIp (ep_ip (ck_endpoint c))"
  obtains p where "Peer_new now c secure version vmin w = Some p" "pr_account p = account" "Peer_Endpoint p = ck_endpoint c" "peer_ok p"
  using assms
  by (cases "ck_use_proxy c")
    (auto simp: Peer_new_def Let_def cookie_ok_def peer_ok_def proxy_ok_def Proxy_new_def Peer_Endpoint_def split: option.splits)

lemma Handshake_step:
  assumes "sound ps" "\<not> IsReservedIp (ep_ip sender)"
  shows "\<exists>qs. Visitor_Handshake E me w now rnd sender m ps = Some qs \<and> sound qs \<and> set (ps_sent ps) \<subseteq> set (ps_sent qs) \<and>
    (\<forall>(a, e) \<in> ids qs. (a, e) \<in> ids ps \<or> answered_by E (ps_sent ps) sender m a e)"
proof -
  let ?e = "sender_of (hs_header m) sender"
  have grown: ?thesis if "Visitor_Handshake E me w now rnd sender m ps = Some qs" "grows ps qs" for qs
    using that by (auto simp: grows_def)
  consider (reserved) "GetFlag PROXY (hs_header m)" "IsReservedIp (ep_ip ?e)"
    | (request) "\<not> IsReservedIp (ep_ip ?e)" "mh_extension (hs_header m) = REQUEST"
    | (response) "\<not> IsReservedIp (ep_ip ?e)" "mh_extension (hs_header m) \<noteq> REQUEST"
    using assms(2) unfolding sender_of_def by metis
  then show ?thesis
  proof cases
    case reserved
    then have "Visitor_Handshake E me w now rnd sender m ps = Some ps"
      by (simp add: Visitor_Handshake_def sender_of_def)
    with grown grows_refl [OF assms(1)] show ?thesis by blast
  next
    case request
    have syn: "grows ps (HandshakeResponse E me e c x (SynCookie E me now (Cookie_new now rnd e' l a) ps))"
      if "l = None \<or> l = Some sender" for e c x e' l a
    proof -
      have g: "grows ps (SynCookie E me now (Cookie_new now rnd e' l a) ps)"
        using that assms by (intro grows_SynCookie) (auto simp: fresh_new)
      from grows_trans [OF g grows_send [OF grows_sound [OF g]]] show ?thesis unfolding HandshakeResponse_def by blast
    qed
    have "\<exists>qs. Visitor_Handshake E me w now rnd sender m ps = Some qs \<and> grows ps qs"
      using request syn grows_refl [OF assms(1)] by (auto simp: Visitor_Handshake_def Let_def sender_of_def split: if_splits)
    with grown show ?thesis by blast
  next
    case response
    obtain x qs where v: "ValidateCookie E ?e (hs_account m) (hs_signature m) ps = (x, qs)" by fastforce
    have V: "Visitor_Handshake E me w now rnd sender m ps = (case x of None \<Rightarrow> Some qs | Some cookie \<Rightarrow>
        (case Peer_new now cookie (sf_secure me) (version_using (hs_header m)) (version_min (hs_header m)) (w (hs_account m)) of
           None \<Rightarrow> None | Some p \<Rightarrow> Some (Peers_Insert p qs)))"
      using response v by (auto simp: Visitor_Handshake_def Let_def sender_of_def split: if_splits)
    show ?thesis
    proof (cases x)
      case None
      with v ValidateCookie_None have "qs = ps" by blast
      with V None grown grows_refl [OF assms(1)] show ?thesis by simp
    next
      case (Some c)
      note c = ValidateCookie_Some [OF assms(1) v [unfolded Some]]
      have "\<not> IsReservedIp (ep_ip (ck_endpoint c))" using response(1) c(3) by simp
      then obtain p where p: "Peer_new now c (sf_secure me) (version_using (hs_header m)) (version_min (hs_header m)) (w (hs_account m)) = Some p"
        "pr_account p = hs_account m" "Peer_Endpoint p = ck_endpoint c" "peer_ok p"
        using Peer_new_ok [OF c(4,2)] by metis
      have "answered_by E (ps_sent ps) sender m (hs_account m) ?e"
        using response(2) c(5,6) by (auto simp: answered_by_def)
      moreover have "adds p qs (Peers_Insert p qs)" by (rule adds_Insert [OF grows_sound [OF c(1)] p(4)])
      ultimately show ?thesis
        using V Some p c(1,3) by (auto simp: adds_def grows_def)
    qed
  qed
qed

lemma learn_peers_grows:
  "sound ps \<Longrightarrow> from_proxy \<or> \<not> IsReservedIp (ep_ip e) \<Longrightarrow> grows ps (learn_peers E me now rnd from_proxy e near count xs ps)"
proof (induction E me now rnd from_proxy e near count xs ps rule: learn_peers.induct)
  case (2 E me now rnd from_proxy e near count account remote xs ps)
  let ?l = "if \<not> from_proxy \<and> count < near \<and> e \<noteq> remote then Some e else None"
  let ?qs = "if IsReservedIp (ep_ip remote) then ps
    else SynCookie E me now (Cookie_new now (rnd (unat count)) remote ?l (Some account)) ps"
  have "fresh (Cookie_new now (rnd (unat count)) remote ?l (Some account))"
    using 2(3) by (auto simp: fresh_new)
  then have g: "grows ps ?qs" using grows_SynCookie [OF 2(2)] grows_refl [OF 2(2)] by simp
  have "grows ?qs (learn_peers E me now rnd from_proxy e near (count + 1) xs ?qs)"
    by (rule 2(1) [OF refl grows_sound [OF g] 2(3)])
  then have "grows ?qs (learn_peers E me now rnd from_proxy e near count ((account, remote) # xs) ps)"
    by (simp only: learn_peers.simps Let_def)
  with g show ?case by (rule grows_trans)
qed (simp add: grows_refl)

lemma Keeplive_step:
  assumes "sound ps" "\<not> IsReservedIp (ep_ip sender)"
  shows "grows ps (Visitor_Keeplive E me now rnd rnds sender m ps)"
proof -
  let ?e = "sender_of (kl_header m) sender" and ?proxy = "if GetFlag PROXY (kl_header m) then Some sender else None"
  define known where "known = Peers_Query (kl_account m) ps"
  define qs where "qs = (if known = None \<or> map_option Peer_Endpoint known \<noteq> Some ?e
    then SynCookie E me now (Cookie_new now rnd ?e ?proxy (Some (kl_account m))) ps else ps)"
  have g1: "grows ps qs"
    using grows_SynCookie [OF assms(1)] grows_refl [OF assms(1)] assms(2) by (simp add: qs_def fresh_new)
  define rs where "rs = KeepliveAck E ?e (KeepliveMessage_Hash E m) (sf_account me) ?proxy qs"
  have g2: "grows ps rs" using grows_trans [OF g1 grows_send [OF grows_sound [OF g1]]] by (simp add: rs_def KeepliveAck_def)
  define ts where "ts = Contact now (kl_account m) (kl_timestamp m) (version_using (kl_header m)) (version_min (kl_header m)) rs"
  have g3: "grows ps ts" using grows_trans [OF g2 grows_Contact [OF grows_sound [OF g2]]] by (simp add: ts_def)
  have "GetFlag PROXY (kl_header m) \<or> \<not> IsReservedIp (ep_ip ?e)" using assms(2) by (simp add: sender_of_def)
  from grows_trans [OF g3 learn_peers_grows [OF grows_sound [OF g3] this]]
  have g4: "grows ps (learn_peers E me now rnds (GetFlag PROXY (kl_header m)) ?e (ReachablePeers (kl_header m)) 0 (kl_peers m) ts)" .
  show ?thesis
    using g1 g4 grows_refl [OF assms(1)] grows_ValidateKeepliveAck [OF assms(1)]
    unfolding Visitor_Keeplive_def sender_of_def [symmetric] Let_def known_def [symmetric] qs_def [symmetric]
      rs_def [symmetric] ts_def [symmetric]
    by (simp split: option.splits)
qed

section \<open>Runs\<close>

text \<open>The messages received so far, each with its sender, and the table they led to. The clock, the weights of the ledger
  and the random numbers are arbitrary in every step; messages from reserved addresses are dropped by the network.\<close>

inductive peers_run :: "env \<Rightarrow> self \<Rightarrow> (endpoint \<times> message) list \<Rightarrow> peers \<Rightarrow> bool" for E me where
  start: "peers_run E me [] Peers_new"
| handshake: "peers_run E me r ps \<Longrightarrow> \<not> IsReservedIp (ep_ip sender) \<Longrightarrow>
    Visitor_Handshake (at_time E t) me w now rnd sender m ps = Some qs \<Longrightarrow> peers_run E me (r @ [(sender, Handshake m)]) qs"
| keeplive: "peers_run E me r ps \<Longrightarrow> \<not> IsReservedIp (ep_ip sender) \<Longrightarrow>
    peers_run E me (r @ [(sender, Keeplive k)]) (Visitor_Keeplive (at_time E t) me now rnd rnds sender k ps)"
| resolve: "peers_run E me r ps \<Longrightarrow> peers_run E me r (ResolvePeer (at_time E t) me now rnd e ps)"
| retry: "peers_run E me r ps \<Longrightarrow> peers_run E me r (SynCookies (at_time E t) me now rnd_of ps)"
| ping: "peers_run E me r ps \<Longrightarrow> Peers_Keeplive (at_time E t) me now draw MAX_PEERS ps = Some qs \<Longrightarrow> peers_run E me r qs"
| weights: "peers_run E me r ps \<Longrightarrow> peers_run E me r (UpdatePeerWeights w ps)"

lemma sound_new: "sound Peers_new"
  by (simp add: sound_def peers_ok_def table_ok_def limits_ok_def cookies_ok_def total_of_def all_peers_def Peers_new_def)

definition authentic :: "env \<Rightarrow> (endpoint \<times> message) list \<Rightarrow> (endpoint \<times> message) list \<Rightarrow> u256 \<Rightarrow> endpoint \<Rightarrow> bool" where
  "authentic E received sent account e \<longleftrightarrow>
     (\<exists>sender m. (sender, Handshake m) \<in> set received \<and> answered_by E sent sender m account e)"

lemma authentic_mono:
  "authentic E r s a e \<Longrightarrow> set r \<subseteq> set r' \<Longrightarrow> set s \<subseteq> set s' \<Longrightarrow> authentic E r' s' a e"
  unfolding authentic_def answered_by_def using requested_mono by blast

lemma answered_by_at_time [simp]: "answered_by (at_time E t) = answered_by E"
  by (simp add: answered_by_def fun_eq_iff at_time_def)

lemma run_grows:
  assumes "sound ps \<and> (\<forall>(a, e) \<in> ids ps. authentic E r (ps_sent ps) a e)" "grows ps qs" "set r \<subseteq> set r'"
  shows "sound qs \<and> (\<forall>(a, e) \<in> ids qs. authentic E r' (ps_sent qs) a e)"
  using assms authentic_mono [OF _ assms(3)] unfolding grows_def by blast

lemma run_sound: "peers_run E me r ps \<Longrightarrow> sound ps \<and> (\<forall>(a, e) \<in> ids ps. authentic E r (ps_sent ps) a e)"
proof (induction rule: peers_run.induct)
  case start
  then show ?case using sound_new by (simp add: ids_def all_peers_def Peers_new_def)
next
  case (handshake r ps sender t w now rnd m qs)
  then have s: "sound ps" by blast
  from Handshake_step [OF s handshake(2), of "at_time E t" me w now rnd m] handshake(3)
  have qs: "sound qs" "set (ps_sent ps) \<subseteq> set (ps_sent qs)"
    "\<forall>(a, e) \<in> ids qs. (a, e) \<in> ids ps \<or> answered_by E (ps_sent ps) sender m a e"
    by auto
  have "authentic E (r @ [(sender, Handshake m)]) (ps_sent qs) a e" if "(a, e) \<in> ids qs" for a e
  proof (cases "(a, e) \<in> ids ps")
    case True
    with handshake(4) have "authentic E r (ps_sent ps) a e" by blast
    then show ?thesis by (rule authentic_mono) (use qs(2) in auto)
  next
    case False
    with qs(3) that have "answered_by E (ps_sent ps) sender m a e" by blast
    then have "authentic E (r @ [(sender, Handshake m)]) (ps_sent ps) a e" by (auto simp: authentic_def)
    then show ?thesis by (rule authentic_mono) (use qs(2) in auto)
  qed
  with qs(1) show ?case by blast
next
  case (keeplive r ps sender k t now rnd rnds)
  show ?case by (rule run_grows [OF keeplive(3) Keeplive_step]) (use keeplive in auto)
next
  case (resolve r ps t now rnd e)
  have "fresh (Cookie_new now rnd e None None)" by (simp add: fresh_new)
  with resolve show ?case unfolding ResolvePeer_def by (intro run_grows [OF resolve(2)] grows_SynCookie) auto
next
  case (retry r ps t now rnd_of)
  show ?case by (rule run_grows [OF retry(2) grows_SynCookies]) (use retry in auto)
next
  case (ping r ps t now draw qs)
  then have "grows ps qs" using Peers_Keeplive_grows [of ps "at_time E t" me now draw] by auto
  from run_grows [OF ping(3) this] show ?case by blast
next
  case (weights r ps w)
  show ?case by (rule run_grows [OF weights(2) grows_UpdatePeerWeights]) (use weights in auto)
qed

section \<open>Full nodes\<close>

text \<open>The index of full nodes names peers only, so a draw from it is never unexpected.\<close>

lemma full_node_known: "table_ok ps \<Longrightarrow> a \<in> set (ps_full_nodes ps) \<Longrightarrow> Peers_Query a ps \<noteq> None"
  by (auto simp: table_ok_def Query_None)

lemma RandomFullNodePeer_expected:
  assumes "table_ok ps"
  shows "RandomFullNodePeer draw exclude_self me ps \<noteq> Some (Inl ())"
proof -
  have "table_ok ps \<longrightarrow> ps_full_nodes ps \<noteq> [] \<longrightarrow> r \<noteq> Inl ()"
    if "RandomFullNodePeer_loop draw i exclude_self me ps = Some r" for i r
  proof (rule RandomFullNodePeer_loop.raw_induct
      [where P = "\<lambda>d i x m ps r. table_ok ps \<longrightarrow> ps_full_nodes ps \<noteq> [] \<longrightarrow> r \<noteq> Inl ()", OF _ that])
    fix loop d j x m ps r
    assume "\<And>d i x m ps r. loop d i x m ps = Some r \<Longrightarrow> table_ok ps \<longrightarrow> ps_full_nodes ps \<noteq> [] \<longrightarrow> r \<noteq> Inl ()"
      and "(case Peers_Query (ps_full_nodes ps ! (d j mod length (ps_full_nodes ps))) ps of
        None \<Rightarrow> Some (Inl ())
      | Some p \<Rightarrow> if \<not> x \<or> pr_account p \<noteq> m then Some (Inr (Some p))
          else if length (ps_full_nodes ps) = 1 then Some (Inr None) else loop d (Suc j) x m ps) = Some r"
    moreover have "Peers_Query (ps_full_nodes ps ! (d j mod length (ps_full_nodes ps))) ps \<noteq> None"
      if "table_ok ps" "ps_full_nodes ps \<noteq> []"
      using that by (intro full_node_known) simp_all
    ultimately show "table_ok ps \<longrightarrow> ps_full_nodes ps \<noteq> [] \<longrightarrow> r \<noteq> Inl ()"
      by (auto split: option.splits if_splits)
  qed
  with assms show ?thesis by (auto simp: RandomFullNodePeer_def)
qed

section \<open>What a node signs\<close>

text \<open>A handshake request is answered with the signature of its cookie, whatever number the cookie is.\<close>

definition request_for :: "u64 \<Rightarrow> u256 \<Rightarrow> u256 \<Rightarrow> handshake_message" where
  "request_for timestamp account h =
     \<lparr>hs_header = MessageHeader_new HANDSHAKE REQUEST, hs_timestamp = timestamp, hs_cookie = h, hs_account = account, hs_signature = 0\<rparr>"

lemma request_answered:
  "\<exists>qs. Visitor_Handshake E me w now rnd sender (request_for (CurrentTimestamp E) account h) ps = Some qs \<and>
     (sender, Handshake (HandshakeMessage_response (sf_account me) (SignMessage E (sf_private_key me) (sf_account me) h)))
       \<in> set (ps_sent qs)"
  by (auto simp: Visitor_Handshake_def request_for_def MessageHeader_new_def GetFlag_def PEER_MAX_TIMESTAMP_DIFF_def Let_def
      HandshakeResponse_def send_through_def Peers_send_def)

lemma request_accepted: "accepted E (Handshake (request_for timestamp account h))"
  by (simp add: accepted_def request_for_def MessageHeader_new_def header_ok_def GetFlag_def
      PROTOCOL_VERSION_MIN_def PROTOCOL_VERSION_USING_def)

end
