(* ===== verification/PeerSamples.thy ===== *)
theory PeerSamples
  imports Samples Handshakes
begin

text \<open>A node that asks a resolved address for a handshake and gets its answer, for the hypotheses of the theorems about peers.\<close>

definition sample_self :: self where
  "sample_self = \<lparr>sf_account = 5, sf_private_key = 1, sf_secure = 2\<rparr>"

definition sample_remote :: endpoint where
  "sample_remote = \<lparr>ep_ip = 0x08080808, ep_port = 7175\<rparr>"

definition sample_asked :: peers where
  "sample_asked = ResolvePeer (at_time sample_env 0) sample_self 0 11 sample_remote Peers_new"

definition sample_answer :: handshake_message where
  "sample_answer = HandshakeMessage_response 9 7"

lemma sample_remote_public: "\<not> IsReservedIp (ep_ip sample_remote)"
  by (simp add: sample_remote_def IsReservedIp_def)

lemma sample_self_honest: "honest_key sample_env (sf_private_key sample_self) (sf_account sample_self)"
  by (simp add: honest_key_def sample_env_def)

lemma sample_met:
  "\<exists>ps p. peers_run sample_env sample_self [(sample_remote, Handshake sample_answer)] ps \<and> p \<in> set (all_peers ps) \<and>
     pr_account p = 9 \<and> Peer_Endpoint p = sample_remote"
proof -
  let ?E = "at_time sample_env 0"
  have asked: "find_cookie sample_remote sample_asked = Some (bump 0 (NeedSyn sample_self (Cookie_new 0 11 sample_remote None None) Peers_new))"
    "all_peers sample_asked = []"
    by (simp_all add: sample_asked_def ResolvePeer_def SynCookie_def InsertCookie_def NeedSyn_def Cookie_new_def Peers_new_def
        find_cookie_def HandshakeRequest_def send_through_def Peers_send_def IncreaseCookieAttempts_def modify_cookie_def
        bump_def all_peers_def Let_def)
  let ?c = "(bump 0 (NeedSyn sample_self (Cookie_new 0 11 sample_remote None None) Peers_new))\<lparr>ck_account := Some 9\<rparr>"
  have v: "ValidateCookie ?E sample_remote 9 7 sample_asked = (Some ?c, erase_cookie sample_remote sample_asked)"
    using asked(1) by (simp add: ValidateCookie_def NeedSyn_def Cookie_new_def bump_def find_cookie_def Peers_new_def Let_def
        at_time_def sample_env_def)
  obtain p where p: "Peer_new 1 ?c 2 PROTOCOL_VERSION_USING PROTOCOL_VERSION_MIN 0 = Some p" "pr_account p = 9"
    "Peer_Endpoint p = sample_remote" "pr_proxy p = None" "pr_proxy_secondary p = None"
    by (simp add: Peer_new_def NeedSyn_def Cookie_new_def bump_def find_cookie_def Peers_new_def Peer_Endpoint_def
        sample_remote_def Let_def)
  let ?qs = "Peers_insert p (erase_cookie sample_remote sample_asked)"
  have empty: "ps_peers (erase_cookie sample_remote sample_asked) = []" "ps_low_weight (erase_cookie sample_remote sample_asked) = []"
    using asked(2) by (simp_all add: erase_cookie_def all_peers_def)
  then have one: "all_peers ?qs = [p]"
    by (simp add: all_peers_def Peers_insert_def UpdateFullNodeIndex_def add_peer_def find_peer_def Let_def)
  then have "Peers_purge (pr_account p) ?qs = ?qs"
    using p(4,5) by (subst Peers_purge.simps)
      (simp add: Query_all find_peer_def CountByIp_def MAX_PEERS_PER_IP_def over_proxy_def)
  with one empty have met: "all_peers (Peers_Insert p (erase_cookie sample_remote sample_asked)) = [p]"
    by (simp add: Peers_Insert_def Peers_Query_def find_peer_def)
  define qs where "qs = Peers_Insert p (erase_cookie sample_remote sample_asked)"
  have "Visitor_Handshake ?E sample_self (\<lambda>_. 0) 1 0 sample_remote sample_answer sample_asked = Some qs"
    using v p by (simp add: Visitor_Handshake_def sample_answer_def HandshakeMessage_response_def MessageHeader_new_def
        GetFlag_def sample_self_def qs_def REQUEST_def RESPONSE_def)
  moreover have "peers_run sample_env sample_self [] sample_asked"
    unfolding sample_asked_def by (rule peers_run.resolve [OF peers_run.start])
  ultimately have "peers_run sample_env sample_self ([] @ [(sample_remote, Handshake sample_answer)]) qs"
    using sample_remote_public peers_run.handshake by blast
  moreover have "p \<in> set (all_peers qs)"
    by (simp add: qs_def met)
  ultimately show ?thesis using p by auto
qed

end
