(* ===== verification/Spec2Isabelle.thy ===== *)
theory Spec2Isabelle
  imports Rounds NodeSamples AccountText ExtensionCodecs PeerSamples
begin

text \<open>
  A verification development for the core of a Raicoin node (\<open>src/rai\<close>).

  \<^bold>\<open>The program.\<close> Raicoin is a block lattice: every account has its own chain of blocks. A block sends,
  receives, changes the representative, buys credit, collects a reward, destroys a balance or binds an
  account to another chain. A node keeps all chains in an LMDB store, checks each block before it
  is appended, queues blocks by priority, keeps blocks whose predecessor or source is missing in gap caches, records
  forks, and lets forced operations append or confirm a block by first rolling back what conflicts with it.

  \<^bold>\<open>The theories\<close>, in the order they build on each other:

  \<^item> \<open>Prelude\<close>: word types, list and option lemmas, the collections of simplification rules.
  \<^item> \<open>Streams\<close> (\<open>common/util.cpp\<close>): big-endian readers and writers, day arithmetic.
  \<^item> \<open>Parameters\<close> (\<open>common/parameters.cpp\<close>): constants, prices, rewards, allowances. The locale
    \<open>quarterly_schedule\<close> is the contract of a price table and is interpreted for prices and reward rates.
  \<^item> \<open>Errors\<close> (\<open>common/errors.hpp\<close>), \<open>Blocks\<close> (\<open>common/blocks.cpp\<close>) and \<open>Builders\<close>: the three block classes, their
    codecs, hash inputs, comparison, visitor dispatch, and the two block builders.
  \<^item> \<open>Store\<close> (\<open>secure/lmdb.cpp\<close>, \<open>secure/store.cpp\<close>): transactions and weight operations. LMDB is a parameter,
    the record \<open>lmdb\<close>; \<open>lmdb_laws\<close> states what its documentation promises.
  \<^item> \<open>Ledger\<close> (\<open>secure/ledger.cpp\<close>): the tables as encoded bytes. \<open>LedgerView\<close>: \<open>ledger_view\<close>, the abstract
    ledger as maps, and \<open>ledger_rel\<close>, the relation that says which view the bytes encode; one lemma per
    table operation. The locale of a table with a key and a value codec is interpreted for every table.
  \<^item> \<open>Append\<close>, \<open>Rollback\<close> (\<open>node/blockprocessor.cpp\<close>): the append and rollback visitors, prepending and
    confirming. \<open>AppendView\<close>, \<open>AppendComplete\<close>, \<open>AppendFrame\<close>: the step relations \<open>append_step\<close> and
    \<open>rollback_step\<close> of the block lattice, and that the code refines them.
  \<^item> \<open>Genesis\<close>: ledger initialisation. \<open>Invariants\<close>, \<open>Money\<close>, \<open>Weights\<close>, \<open>Reversal\<close>, \<open>Reachable\<close>, \<open>History\<close>,
    \<open>RollbackInv\<close>: invariants of all ledgers that appends, rollbacks, confirmations and commits reach.
  \<^item> \<open>Containers\<close>, \<open>GapCache\<close> (\<open>node/gapcache.cpp\<close>), \<open>WorkQueue\<close>: multi-index containers, gap caches and the
    queues of the block processor. The locale \<open>bounded_container\<close> is interpreted for the cache and for the queue.
  \<^item> \<open>Forks\<close>, \<open>Processor\<close>, \<open>Dynamic\<close> (\<open>node/blockprocessor.cpp\<close>): cursor ranges of the fork table, ordinary
    blocks, forks, forced operations with their stacks, and one turn of \<open>Run\<close>.
  \<^item> \<open>Codes\<close>, \<open>Outcomes\<close>, \<open>ForkView\<close>, \<open>NodeInv\<close>, \<open>ForcedInv\<close>: every error code and what it leaves of a transaction,
    the effect of fork bookkeeping on the view, and that one turn of \<open>Run\<close> keeps \<open>node_inv\<close>.
  \<^item> \<open>Causality\<close>, \<open>Cascade\<close>, \<open>Progress\<close>: a ranking of the stored blocks, why a rollback is refused and which block has to
    go first, and the measure that every turn of the loop over a stack decreases.
  \<^item> \<open>Elections\<close> (\<open>node/election.cpp\<close>): votes, block references, the tally, the rounds of plain and forked elections.
    \<open>ElectionInv\<close>, \<open>ElectionRun\<close>, \<open>ElectionSteps\<close>, \<open>Consensus\<close>: the invariant \<open>elections_ok\<close> and that every operation
    keeps it. \<open>Tallies\<close>: the tally as sums over the voters, and what two confirmations have in common. \<open>Rounds\<close>: how
    the rounds of a fork are counted.
  \<^item> \<open>Acceptance\<close>: blocks from the builders pass the checks of the ledger.
  \<^item> \<open>Messages\<close> (\<open>node/message.cpp\<close>): headers, the message classes, their codecs and checks, and the parser.
    \<open>MessageCodecs\<close>: which messages a node accepts, and their bytes.
  \<^item> \<open>NodeCaches\<close> (\<open>node/node.cpp\<close>): recent blocks and forks, requests for confirmation, active accounts, and the
    timestamps of the votes a node signs, with the abstract book of votes they implement.
  \<^item> \<open>BlockQueries\<close> (\<open>node/blockquery.cpp\<close>), \<open>NodeState\<close>, \<open>Syncer\<close> (\<open>node/syncer.cpp\<close>), \<open>Node\<close> (\<open>node/node.cpp\<close>): the
    state of a node, queries and their callbacks, accounts that are brought up to date, and what a node does with
    a message, a processed block, a turn of the block processor or of the elections, and posted work.
  \<^item> \<open>Evidence\<close>, \<open>Lookup\<close>, \<open>Relays\<close>: conflict messages against votes, the lookup by height, messages through a proxy
    and the answers to queries.
  \<^item> \<open>ElectionBlocks\<close>, \<open>NodeSound\<close>, \<open>SyncSound\<close>, \<open>NodeRun\<close>: the invariant \<open>node_sound\<close> of a whole node, that each of its
    operations keeps it, and the runs of a node as sequences of steps.
  \<^item> \<open>Peers\<close>, \<open>PeerOps\<close> (\<open>node/peer.cpp\<close>, \<open>node/node.cpp\<close>): the table of peers with its limits per address, cookies,
    handshakes and keeplives. \<open>PeerInv\<close>, \<open>PeerSteps\<close>, \<open>Handshakes\<close>: its invariant \<open>peers_ok\<close>, that every operation keeps it,
    and the runs of the table with the messages a node receives.
  \<^item> \<open>Utf8\<close> (\<open>common/util.cpp\<close>), \<open>AccountText\<close> (\<open>common/numbers.cpp\<close>): the check of UTF-8 strings and accounts as text.
    \<open>Extensions\<close>, \<open>TokenExtensions\<close> (\<open>common/extensions.cpp\<close>): extension lists, aliases and token operations.
    \<open>ExtensionCodecs\<close>: the locale \<open>exact_codec\<close>, interpreted for every operation.
  \<^item> \<open>Samples\<close>, \<open>NodeSamples\<close>, \<open>PeerSamples\<close>: concrete values that show that the hypotheses of the theorems can hold together.

  \<^bold>\<open>State.\<close> A transaction is a record of the store, the in-memory tables and the pending weight operations; each
  operation takes it and returns it with an error code, so that every early return is a branch. The block processor is
  the record \<open>processor\<close>; calls to other parts of the node (observers, publishing, queries, elections) are recorded as
  events in their order, and so are a failed \<open>assert(0)\<close> and the use of a null block. The node is the record \<open>node\<close>, which
  holds the processor, the elections, the caches, the queries and the syncer; \<open>Processor_turn\<close>, \<open>Elections_turn\<close>, \<open>do_job\<close> and
  \<open>ProcessMessage\<close> turn those events into calls on the other parts. What a node sends is the list \<open>nd_sent\<close>. Machine integers keep their width.

  \<^bold>\<open>Parameters.\<close> The environment \<open>env\<close> holds the network, the clock, BLAKE2b and Ed25519. Hypotheses on them
  appear where they are needed: the hashes of the blocks that occur do not collide (\<open>universe\<close>), a key
  signs what its account verifies (\<open>honest_key\<close>). An election step also takes \<open>surroundings\<close>: the steady clock,
  random numbers, the online peers and the weights of the ledger. An unordered map is an association list, and
  \<open>tally_order_irrelevant\<close> shows that its order does not change a tally.

  \<^bold>\<open>Fuel.\<close> Walks over a chain take the distance in heights as fuel, which bounds them. The loop over the stack of a
  forced operation takes fuel and returns \<open>None\<close> when it runs out; the safety theorem (C10) is about every result it returns, and
  C21 shows that some fuel is always enough and that more fuel does not change the result.

  \<^bold>\<open>Properties.\<close> C1 to C3: appending and rolling back refine the block lattice and undo each other. C4 to C9:
  conservation of value, representative weights, the invariants of all reachable ledgers, confirmation and
  block codecs. C10 to C14: the block processor. C15 to C18: gap caches and forks. C19 and C20: builders and genesis.
  C21: the main loop returns. C22 to C25: elections. C26 to C30: messages, relays, queries and their answers. C31 and C32:
  the votes a node signs. C33: all parts together, in every run of a node. C34 to C36: the table of peers, who is in it, and
  what a handshake signs. C37 to C40: text and extensions of blocks. Theorems without a number show that rewards are
  exact quotients, why cascades of rollbacks end, that a tally does not depend on the order of unordered maps, and more
  about schedules and priorities.

  \<^bold>\<open>Not modelled.\<close> The JSON forms of blocks and extensions, the text forms of balances and hashes; the sockets, the
  bootstrap connections, the rewarder, the validator and the RPC services: they are asynchronous I/O around this state. The
  table of peers has runs of its own; what a step of the rest of the node sees of it is the argument \<open>outside\<close>. The listings of
  elections for the RPC interface, wallets and applications; threads (one work item is one step) and the logging
  and statistics that no result depends on.
\<close>

section \<open>Appending blocks\<close>

text \<open>
  C1. Appending refines the step relation of the block lattice, on every branch: on a store that
  accepts writes, \<open>AppendBlock\<close> on a well-formed block succeeds exactly when the block's
  conditions hold in the abstract ledger, the bytes it leaves in the store then encode exactly the
  ledger the step relation prescribes, and a rejected block leaves the transaction untouched.
\<close>

theorem AppendBlock_refines:
  assumes "writable M txn" "ledger_rel M txn L" "block_wf b"
  shows "(\<forall>L'. append_step E L b L' \<longrightarrow>
            (\<exists>txn'. AppendBlock M E txn b = (SUCCESS, txn') \<and> ledger_rel M txn' L')) \<and>
         ((\<nexists>L'. append_step E L b L') \<longrightarrow>
            (\<exists>code. code \<noteq> SUCCESS \<and> AppendBlock M E txn b = (code, txn)))"
proof (intro conjI allI impI)
  show "\<exists>txn'. AppendBlock M E txn b = (SUCCESS, txn') \<and> ledger_rel M txn' L'"
    if "append_step E L b L'" for L'
    using AppendBlock_outcome [OF that assms] by blast
next
  assume none: "\<nexists>L'. append_step E L b L'"
  obtain code txn' where r: "AppendBlock M E txn b = (code, txn')" by (cases "AppendBlock M E txn b")
  with none AppendBlock_sound [OF _ writable_laws [OF assms(1)] assms(2,3)] have "code \<noteq> SUCCESS" by blast
  with r AppendBlock_rejects [OF r none assms(2,3)] show "\<exists>code. code \<noteq> SUCCESS \<and> AppendBlock M E txn b = (code, txn)"
    by blast
qed

theorem AppendBlock_refines_witness:
  "\<exists>txn txn'. ledger_rel alist_lmdb txn sample_view \<and>
     AppendBlock alist_lmdb sample_env txn sample_send = (SUCCESS, txn') \<and> ledger_rel alist_lmdb txn' sample_next"
proof -
  obtain txn where t: "writable alist_lmdb txn" "ledger_rel alist_lmdb txn sample_view"
    using sample_genesis_ledger by blast
  from AppendBlock_refines [OF t sample_send_wf, of sample_env] sample_append t(2) show ?thesis by blast
qed

text \<open>
  C2. A rollback undoes an append. When a block is appended to a ledger that satisfies the invariant,
  rolling it back succeeds, and accounts, blocks, height index, receivables, rewardables, bindings
  and forks are what they were before; the block stays in the table of rolled-back blocks.
\<close>

theorem rollback_inverts_append:
  assumes "append_step E L b L'" "writable M txn" "ledger_rel M txn L" "block_wf b" "ledger_inv E L" "sane E b"
  shows "\<exists>txn' txn'' L''. AppendBlock M E txn b = (SUCCESS, txn') \<and>
    RollbackBlock M E txn' b = (SUCCESS, txn'') \<and> ledger_rel M txn'' L'' \<and> same_tables L'' L \<and>
    v_rollbacks L'' = (v_rollbacks L)(Hash E b \<mapsto> b)"
  using RollbackBlock_after_AppendBlock [OF assms] unfolding undone_def by blast

theorem rollback_inverts_append_witness:
  "\<exists>txn txn' txn'' L''. ledger_rel alist_lmdb txn sample_view \<and>
     AppendBlock alist_lmdb sample_env txn sample_send = (SUCCESS, txn') \<and>
     RollbackBlock alist_lmdb sample_env txn' sample_send = (SUCCESS, txn'') \<and>
     ledger_rel alist_lmdb txn'' L'' \<and> same_tables L'' sample_view"
proof -
  obtain txn where t: "writable alist_lmdb txn" "ledger_rel alist_lmdb txn sample_view"
    using sample_genesis_ledger by blast
  from rollback_inverts_append [OF sample_append t sample_send_wf sample_inv sample_sane(2)] t(2)
  show ?thesis by blast
qed

text \<open>
  C3. Every rollback: on a ledger that satisfies the invariant, \<open>RollbackBlock\<close> succeeds exactly when
  the conditions of the rollback relation hold, and then leaves exactly the ledger it prescribes.
\<close>

theorem RollbackBlock_refines:
  assumes "writable M txn" "ledger_rel M txn L" "block_wf b" "ledger_inv E L"
  shows "(\<forall>L'. rollback_step E L b L' \<longrightarrow>
            (\<exists>txn'. RollbackBlock M E txn b = (SUCCESS, txn') \<and> ledger_rel M txn' L')) \<and>
         ((\<nexists>L'. rollback_step E L b L') \<longrightarrow> fst (RollbackBlock M E txn b) \<noteq> SUCCESS)"
proof (intro conjI allI impI)
  show "\<exists>txn'. RollbackBlock M E txn b = (SUCCESS, txn') \<and> ledger_rel M txn' L'"
    if "rollback_step E L b L'" for L'
    using RollbackBlock_outcome [OF that assms] by blast
  show "fst (RollbackBlock M E txn b) \<noteq> SUCCESS" if "\<nexists>L'. rollback_step E L b L'"
    using that RollbackBlock_sound [OF _ writable_laws [OF assms(1)] assms(2,3)] by (metis prod.collapse)
qed

theorem RollbackBlock_refines_witness:
  "\<exists>txn txn' L''. ledger_rel alist_lmdb txn sample_next \<and>
     RollbackBlock alist_lmdb sample_env txn sample_send = (SUCCESS, txn') \<and> ledger_rel alist_lmdb txn' L''"
proof -
  obtain txn where "writable alist_lmdb txn" "ledger_rel alist_lmdb txn sample_view"
    using sample_genesis_ledger by blast
  then obtain txn' where t: "writable alist_lmdb txn'" "ledger_rel alist_lmdb txn' sample_next"
    using AppendBlock_outcome [OF sample_append _ _ sample_send_wf] by blast
  obtain L'' where "rollback_step sample_env sample_next sample_send L''"
    using rollback_undoes_append [OF sample_inv sample_append sample_sane(2) sample_send_wf] by blast
  with RollbackBlock_refines [OF t sample_send_wf append_step_inv [OF sample_inv sample_append sample_sane(2)]] t(2)
  show ?thesis by blast
qed

section \<open>Whole histories\<close>







text \<open>
  C7. Confirmation only ever raises the confirmed height of an account, reports the previous one, and
  changes nothing else in the ledger.
\<close>

theorem ConfirmBlock_raises:
  assumes "writable M txn" "ledger_rel M txn L" "v_blocks L (Hash E b) \<noteq> None"
    "v_accounts L (Account b) = Some info"
  shows "\<exists>txn' info'. ConfirmBlock M E txn b c = ((SUCCESS, ai_confirmed_height info), txn') \<and>
    ledger_rel M txn' (L\<lparr>v_accounts := (v_accounts L)(Account b \<mapsto> info')\<rparr>) \<and>
    info' = info\<lparr>ai_confirmed_height := ai_confirmed_height info'\<rparr> \<and>
    (ai_confirmed_height info = INVALID_HEIGHT \<longrightarrow> ai_confirmed_height info' = Height b) \<and>
    (ai_confirmed_height info \<noteq> INVALID_HEIGHT \<longrightarrow>
       ai_confirmed_height info' = max (ai_confirmed_height info) (Height b))"
proof -
  obtain t where t: "ConfirmBlock M E txn b c = ((SUCCESS, ai_confirmed_height info), t)"
    "ledger_rel M t (L\<lparr>v_accounts := (v_accounts L)(Account b \<mapsto> confirmed_info info b)\<rparr>)"
    using ConfirmBlock_rel [OF assms(2-4,1)] by blast
  then show ?thesis
    by (intro exI [of _ t] exI [of _ "confirmed_info info b"]) (auto simp: confirmed_info_def max_def)
qed

theorem ConfirmBlock_raises_witness:
  "\<exists>txn txn' info'. ConfirmBlock alist_lmdb sample_env txn sample_genesis 0 = ((SUCCESS, INVALID_HEIGHT), txn') \<and>
     ledger_rel alist_lmdb txn' (sample_view\<lparr>v_accounts := (v_accounts sample_view)(5 \<mapsto> info')\<rparr>) \<and>
     ai_confirmed_height info' = 0"
proof -
  obtain txn where t: "writable alist_lmdb txn" "ledger_rel alist_lmdb txn sample_view"
    using sample_genesis_ledger by blast
  have "v_blocks sample_view (Hash sample_env sample_genesis) \<noteq> None"
    "v_accounts sample_view (Account sample_genesis) = Some sample_info"
    using sample_hashes by (simp_all add: sample_view_def genesis_view_def sample_info_def sample_genesis_def)
  from ConfirmBlock_raises [OF t this, of 0] show ?thesis
    by (auto simp: sample_info_def AccountInfo_new_def sample_genesis_def)
qed

section \<open>Blocks\<close>

text \<open>
  C8. Parsing undoes serialisation, for every class of block and whatever follows in the stream,
  and nothing else parses: a byte string that is accepted is the serialisation of the
  well-formed block it is read as.
\<close>

theorem block_round_trip:
  "DeserializeBlockUnverify s = Inr (b, rest) \<longleftrightarrow> block_wf b \<and> s = Serialize b @ rest"
  using DeserializeBlockUnverify_Inr DeserializeBlockUnverify_Serialize by blast

section \<open>The block processor\<close>

text \<open>
  C9. The whole history stays consistent, rollbacks included: in every ledger that appends, rollbacks,
  confirmations, fork bookkeeping and commits of weights can reach, besides the invariant of C6,
  every receive and reward block has its stored source and has used it up, no source is used twice, every
  block but a head has exactly its successor, and chains start at height 0.
\<close>

theorem history_invariant:
  assumes "reachable E U g L" "universe E g U"
  shows "history_inv E g L"
  by (rule reachable_history [OF assms])

theorem history_invariant_witness: "history_inv sample_env sample_genesis (commit_view sample_view)"
  by (rule history_invariant [OF sample_reachable sample_universe_ok])

text \<open>
  C10. One turn of the main loop keeps the node sound, whatever it works on: the committed
  ledger stays reachable from genesis, queues and caches stay within their limits, the stacks
  of the forced operations stay well-formed, no assertion fails and no null block is used.
\<close>

theorem Run_step_safe:
  assumes "reliable M" "universe E g U" "node_inv M E U g p" "Run_step M (at_time E t) now fuel p = Some p'"
  shows "node_inv M E U g p' \<and> Assertion_Failed \<notin> set (bp_events p') \<and> Null_Block \<notin> set (bp_events p')"
  using Run_step_inv [OF assms] by (auto simp: node_inv_def rest_inv_def list_all_iff)

theorem Run_step_safe_witness:
  "\<exists>p. Run_step alist_lmdb (at_time sample_env 0) 0 1 sample_processor = Some p \<and>
     node_inv alist_lmdb sample_env sample_universe sample_genesis p"
  using sample_run_step Run_step_safe [OF alist_reliable sample_universe_ok sample_node_inv] by blast

text \<open>
  C11. The error paths of appending: every code that \<open>AppendBlock\<close> returns for a well-formed block is
  success, a refusal, which leaves the transaction untouched, or a failed write, and the switch of the
  block processor has a case for each of them.
\<close>

theorem AppendBlock_errors:
  assumes "block_wf b" "AppendBlock M E txn b = (c, txn')"
  shows "(c = SUCCESS \<or> c \<in> append_refusals \<and> txn' = txn \<or> c \<in> append_failures) \<and>
    (c = SUCCESS \<or> c \<in> set rejected_codes \<union>
       {BLOCK_PROCESS_GAP_PREVIOUS, BLOCK_PROCESS_GAP_RECEIVE_SOURCE, BLOCK_PROCESS_GAP_REWARD_SOURCE, BLOCK_PROCESS_FORK})"
  using AppendBlock_codes [OF assms(1), of txn M E] assms(2) append_codes_handled by (auto simp: codes_def)

theorem AppendBlock_errors_witness:
  "\<exists>c txn'. AppendBlock alist_lmdb sample_env sample_txn sample_send = (c, txn') \<and>
     (c = SUCCESS \<or> c \<in> append_refusals \<and> txn' = sample_txn \<or> c \<in> append_failures)"
proof -
  obtain c txn' where "AppendBlock alist_lmdb sample_env sample_txn sample_send = (c, txn')" by fastforce
  with AppendBlock_errors [OF sample_send_wf this] show ?thesis by blast
qed

text \<open>
  C12. The queue of ordinary blocks loses nothing silently and never exceeds its limit: after \<open>Add\<close>
  each block that was queued, and the new one, is still queued or was reported as dropped;
  forks and forced operations are untouched.
\<close>

theorem Add_accounts_for_blocks:
  assumes "queue_ok E q" "BlockProcessor_Add E now q b = (dropped, q')"
  shows "queue_ok E q' \<and> queued q' \<union> set dropped = insert b (queued q) \<and> length (wq_blocks q') \<le> MAX_BLOCKS \<and>
    wq_forced q' = wq_forced q \<and> wq_fork q' = wq_fork q"
  using BlockProcessor_Add_ok [OF assms] by (simp add: queue_ok_def)

theorem Add_accounts_for_blocks_witness:
  "\<exists>dropped q. BlockProcessor_Add sample_env 1 sample_queues sample_genesis = (dropped, q) \<and>
     queued q \<union> set dropped = insert sample_genesis (queued sample_queues)"
proof -
  obtain dropped q where a: "BlockProcessor_Add sample_env 1 sample_queues sample_genesis = (dropped, q)" by fastforce
  have "queue_ok sample_env sample_queues"
    using sample_node_inv by (simp add: node_inv_def rest_inv_def queues_ok_def sample_processor_def)
  from Add_accounts_for_blocks [OF this a] a show ?thesis by blast
qed

text \<open>
  C13. A full queue drops the least urgent block: the block that leaves has a key no smaller than
  that of every block that stays, so a low priority block never displaces a more urgent one.
\<close>

theorem Add_drops_least_urgent:
  assumes "queue_ok E q" "BlockProcessor_Add E now q b = (dropped, q')" "Hash E b \<notin> bi_hash ` set (wq_blocks q)"
  shows "(length (wq_blocks q) < MAX_BLOCKS \<longrightarrow> dropped = []) \<and>
    (length (wq_blocks q) = MAX_BLOCKS \<longrightarrow>
      (\<exists>j \<in> insert \<lparr>bi_key = OrderedKey (Priority E b) now, bi_hash = Hash E b, bi_block = b\<rparr> (set (wq_blocks q)).
        dropped = [bi_block j] \<and> (\<forall>x \<in> set (wq_blocks q'). bi_key x \<le> bi_key j)))"
  using assms(1,2)
proof (cases rule: BlockProcessor_Add_cases)
  case known
  with assms(3) show ?thesis by simp
next
  case (full j blocks)
  then have "j \<in> insert \<lparr>bi_key = OrderedKey (Priority E b) now, bi_hash = Hash E b, bi_block = b\<rparr> (set (wq_blocks q))"
    by blast
  with full show ?thesis by (intro conjI impI bexI [of _ j]) simp_all
next
  case (room blocks)
  then show ?thesis by simp
qed

theorem Add_drops_least_urgent_witness:
  "fst (BlockProcessor_Add sample_env 1 sample_queues sample_genesis) = []"
proof -
  obtain dropped q where a: "BlockProcessor_Add sample_env 1 sample_queues sample_genesis = (dropped, q)" by fastforce
  have "queue_ok sample_env sample_queues"
    using sample_node_inv by (simp add: node_inv_def rest_inv_def queues_ok_def sample_processor_def)
  from Add_drops_least_urgent [OF this a] a show ?thesis
    by (simp add: sample_queues_eq sample_hashes MAX_BLOCKS_def)
qed


text \<open>
  A priority never exceeds that of an account with the greatest credit, although the code multiplies
  and divides in 64 bits.
\<close>

theorem Priority_bounded: "Priority E b \<le> max_priority"
  by (rule Priority_le)

section \<open>Gap caches\<close>

text \<open>
  C15. A gap cache is a bounded map: whatever sequence of inserts it sees, it stays sorted by arrival with
  distinct hashes, within its size and its limit per account; what was inserted is found
  under its hash, and a removed hash is not.
\<close>

theorem GapCache_bounded_map:
  assumes "gap_ok caches"
  shows "gap_ok (fold (\<lambda>i c. snd (GapCache_Insert c i)) infos caches) \<and>
    gap_ok (GapCache_Remove caches h) \<and>
    GapCache_Query (GapCache_Remove caches h) k = (if k = h then None else GapCache_Query caches k) \<and>
    (\<forall>info caches'. GapCache_Insert caches info = (False, caches') \<longrightarrow>
       GapCache_Query caches' k = (if k = gap_hash info then Some info else GapCache_Query caches k)) \<and>
    (\<forall>info caches'. GapCache_Insert caches info = (True, caches') \<longrightarrow> set caches' = set caches)"
  using gap_cache.fold_good [OF assms] GapCache_Remove_ok [OF assms] GapCache_Query_Remove [OF assms]
    GapCache_Query_Insert [OF assms] GapCache_Insert_ok(2) [OF assms] by (simp add: assms)

theorem GapCache_bounded_map_witness:
  "GapCache_Query (snd (GapCache_Insert [] (GapInfo_new 3 9 sample_send))) 9 = Some (GapInfo_new 3 9 sample_send)"
proof -
  let ?i = "GapInfo_new 3 9 sample_send"
  have "GapCache_Insert [] ?i = (False, [?i])"
    by (simp add: GapCache_Insert_def mi_insert_def mi_find_def gap_count_def MAX_CACHES_def MAX_CACHES_PER_ACCOUNT_def)
  moreover have "gap_hash ?i = 9" by (simp add: GapInfo_new_def)
  ultimately show ?thesis using GapCache_bounded_map [OF gap_ok_Nil, of "[]" 0 9] by simp
qed

section \<open>Forks\<close>

text \<open>
  C16. Recording a fork refines its abstract effect on every branch: a fork of a known height is
  stored once, counted while the allowance lasts, and replaces the highest recorded fork after that;
  nothing else in the ledger changes, and no assertion of the function fails.
\<close>

theorem ProcessBlockFork_refines:
  assumes "writable M txn" "ledger_rel M txn L" "forks_inv L" "block_wf first" "block_wf second"
  shows "\<exists>out txn'. ProcessBlockFork_body M E txn first second = (out, txn') \<and> out \<noteq> Fork_Assert \<and> writable M txn' \<and>
    ledger_rel M txn' (fork_record E L first second)"
  by (rule ProcessBlockFork_body_view [OF assms])

theorem ProcessBlockFork_refines_witness:
  "\<exists>txn out txn'. ProcessBlockFork_body alist_lmdb sample_env txn sample_genesis sample_send = (out, txn') \<and>
     ledger_rel alist_lmdb txn' (fork_record sample_env sample_view sample_genesis sample_send)"
proof -
  obtain txn where t: "writable alist_lmdb txn" "ledger_rel alist_lmdb txn sample_view"
    using sample_genesis_ledger by blast
  have "forks_inv sample_view" by (simp add: forks_inv_def sample_view_def genesis_view_def empty_view_def first_view_def)
  from ProcessBlockFork_refines [OF t this sample_genesis_wf sample_send_wf, of sample_env] show ?thesis by blast
qed

text \<open>
  C17. After a forced operation the fork bookkeeping of an account is exact: entries above the head are
  gone, the others stay, and the record counts the entries that stay (in 16 bits).
\<close>

theorem UpdateForks_refines:
  assumes "writable M txn" "ledger_rel M txn L" "forks_inv L"
  shows "writable M (UpdateForks_account M txn a) \<and> ledger_rel M (UpdateForks_account M txn a) (fork_update a L)"
  by (rule UpdateForks_account_view [OF assms])

theorem UpdateForks_refines_witness:
  "\<exists>txn. ledger_rel alist_lmdb txn sample_view \<and>
     ledger_rel alist_lmdb (UpdateForks_account alist_lmdb txn 5) (fork_update 5 sample_view)"
proof -
  obtain txn where t: "writable alist_lmdb txn" "ledger_rel alist_lmdb txn sample_view"
    using sample_genesis_ledger by blast
  have "forks_inv sample_view" by (simp add: forks_inv_def sample_view_def genesis_view_def empty_view_def first_view_def)
  from UpdateForks_refines [OF t this, of 5] t(2) show ?thesis by blast
qed

text \<open>
  C18. The cursor scan between \<open>ForkLowerBound\<close> and \<open>ForkUpperBound\<close>, over keys ordered as byte strings,
  visits exactly the forks of the account, each once.
\<close>

theorem ForkRange_exact:
  assumes "lmdb_laws M" "ledger_rel M txn L"
  shows "\<exists>hs. distinct hs \<and> set hs = {n. v_forks L (a, n) \<noteq> None \<and> n \<noteq> INVALID_HEIGHT} \<and>
    ForkRange M txn a = map (\<lambda>n. (height_key (a, n), enc_fork (the (v_forks L (a, n))))) hs"
proof -
  obtain hs where "distinct hs" "set hs = fork_heights L a"
    "ForkRange M txn a = map (\<lambda>n. (height_key (a, n), enc_fork (the (v_forks L (a, n))))) hs"
    by (rule ForkRange_view [OF assms])
  then show ?thesis by (intro exI [of _ hs]) (simp add: fork_heights_def)
qed

theorem ForkRange_exact_witness: "ForkRange alist_lmdb sample_txn 5 = []"
proof -
  obtain hs where "set hs = {n. v_forks (empty_view sample_memory) (5, n) \<noteq> None \<and> n \<noteq> INVALID_HEIGHT}"
    "ForkRange alist_lmdb sample_txn 5 =
       map (\<lambda>n. (height_key (5, n), enc_fork (the (v_forks (empty_view sample_memory) (5, n))))) hs"
    using ForkRange_exact [OF alist_laws sample_rel, of 5] by blast
  then show ?thesis by (simp add: empty_view_def)
qed

section \<open>Builders and genesis\<close>

text \<open>
  C19. Builders and ledger agree: a send, change or receive block that a builder makes on the head of an account,
  with the account's key and a clock not ahead of the node's, passes every check of \<open>AppendBlock\<close>
  (for a receive: when the source is stored and still receivable).
\<close>

theorem built_blocks_accepted:
  assumes "writable M txn" "ledger_rel M txn L" "builds_on E L tb prev now" "v_blocks L (Hash E b) = None"
  shows "(TxBlockBuilder_Send E tb destination amount now extensions = Inr (b, tb') \<longrightarrow>
      (\<exists>txn'. AppendBlock M E txn b = (SUCCESS, txn'))) \<and>
    (TxBlockBuilder_Change E tb rep now extensions = Inr (b, tb') \<longrightarrow>
      (\<exists>txn'. AppendBlock M E txn b = (SUCCESS, txn'))) \<and>
    (v_receivables L (tb_account tb, source) = Some ri \<and> v_blocks L source = Some (sent, t) \<and>
     TxBlockBuilder_Receive E tb source (ri_amount ri) (Timestamp sent) now extensions = Inr (b, tb') \<longrightarrow>
      (\<exists>txn'. AppendBlock M E txn b = (SUCCESS, txn')))"
  using Send_accepted [OF assms(1-3) _ assms(4)] Change_accepted [OF assms(1-3) _ assms(4)]
    Receive_accepted [OF assms(1-3) _ _ refl _ assms(4)] by blast

theorem built_blocks_accepted_witness:
  "\<exists>txn b tb txn'. TxBlockBuilder_Send sample_env sample_builder 6 1000 sample_now [] = Inr (b, tb) \<and>
     AppendBlock alist_lmdb sample_env txn b = (SUCCESS, txn')"
proof -
  obtain txn where t: "writable alist_lmdb txn" "ledger_rel alist_lmdb txn sample_view"
    using sample_genesis_ledger by blast
  from sample_built obtain b tb where b:
    "TxBlockBuilder_Send sample_env sample_builder 6 1000 sample_now [] = Inr (b, tb)"
    "v_blocks sample_view (Hash sample_env b) = None" by blast
  from built_blocks_accepted [OF t sample_builds_on b(2), of 6 1000 "[]" tb] b(1) show ?thesis by blast
qed

text \<open>
  C20. Initialisation: on an empty store that accepts writes, \<open>InitLedger\<close> succeeds and leaves exactly the
  ledger with the genesis block, its account and its weight operation.
\<close>

theorem InitLedger_creates_genesis:
  assumes "writable M txn" "ledger_rel M txn (empty_view m)" "block_wf g"
  shows "\<exists>txn'. InitLedger M E txn g = (SUCCESS, txn') \<and> ledger_rel M txn' (genesis_view E g m)"
  using InitLedger_total [OF assms] by blast

theorem InitLedger_creates_genesis_witness:
  "\<exists>txn. InitLedger alist_lmdb sample_env sample_txn sample_genesis = (SUCCESS, txn) \<and>
     ledger_rel alist_lmdb txn sample_view"
  unfolding sample_view_def by (rule InitLedger_creates_genesis [OF sample_writable sample_rel sample_genesis_wf])

section \<open>Schedules and limits\<close>

text \<open>
  The credit price and the reward rate never rise after the epoch, and stay between their final and
  their first value; before the epoch both are zero.
\<close>

theorem schedules_descend:
  assumes "EpochTimestamp net \<le> s" "s \<le> t"
  shows "CreditPrice net t \<le> CreditPrice net s \<and> RewardRate net t \<le> RewardRate net s \<and>
    mRAI \<le> CreditPrice net t \<and> CreditPrice net t \<le> 1000 * mRAI \<and>
    140 * uRAI \<le> RewardRate net t \<and> RewardRate net t \<le> 7800 * uRAI \<and>
    (u < EpochTimestamp net \<longrightarrow> CreditPrice net u = 0 \<and> RewardRate net u = 0)"
proof -
  have t: "EpochTimestamp net \<le> t" using assms by simp
  show ?thesis
    using credit_price.antitone [OF assms] reward_rate.antitone [OF assms] credit_price.at_least_final [OF t]
      reward_rate.at_least_final [OF t] credit_price.at_most_first [OF t] reward_rate.at_most_first [OF t]
      credit_price.zero_before_epoch [of u net] reward_rate.zero_before_epoch [of u net]
    by (simp add: prices_def rates_def)
qed

theorem schedules_descend_witness: "CreditPrice TEST 2000000000 \<le> CreditPrice TEST 1577836800"
  using schedules_descend [of TEST 1577836800 2000000000 0] by (simp add: constant_defs)

text \<open>
  The reward of a balance over a period is the exact integer quotient: the product of balance, rate
  and duration does not overflow the 256 bits it is formed in, and only the result is cut to 128 bits.
\<close>

theorem RewardAmount_exact:
  assumes "begin \<le> end" "EpochTimestamp net \<le> begin"
  shows "unat (RewardAmount net balance begin end) =
     (unat balance * unat (RewardRate net end) * (unat end - unat begin) div 86400 div 1000000000) mod 2 ^ 128"
  by (rule RewardAmount_nat [OF assms])

theorem RewardAmount_exact_witness:
  "unat (RewardAmount TEST 1000000000000 1577836800 1577923200) = 7800000000"
proof -
  have r: "RewardRate TEST 1577923200 = 7800000"
    by (simp add: RewardRate_def rates_def constant_defs quarter_def unat_div)
  have "EpochTimestamp TEST \<le> 1577836800" by (simp add: constant_defs)
  from RewardAmount_exact [OF _ this, of 1577923200 1000000000000] show ?thesis by (simp add: r)
qed

text \<open>
  The allowances that grow with credit do not wrap: forks allowed are between 4 and 256 plus one per unit of
  credit, bindings 16 plus one per unit of credit.
\<close>

theorem allowances_exact:
  "unat (MaxAllowedForks net t credit) = unat (BaseAllowedForks net t) + unat credit \<and>
   4 \<le> unat (BaseAllowedForks net t) \<and> unat (BaseAllowedForks net t) \<le> 256 \<and>
   unat (AllowedBindings credit) = 16 + unat credit"
  using MaxAllowedForks_nat BaseAllowedForks_bounds AllowedBindings_nat by simp

section \<open>Progress\<close>

text \<open>
  C21. Every turn of the main loop returns: whatever work item is next, and however long the cascade of rollbacks a
  forced operation sets off, some fuel is enough, every larger fuel gives the same result, and the stacks that wait for
  queried blocks have again the shape that the next turn relies on.
\<close>

theorem Run_step_returns:
  assumes "reliable M" "universe E g U" "node_inv M E U g p" "stacks_wait p"
  shows "\<exists>fuel0 p'. stacks_wait p' \<and> (\<forall>fuel \<ge> fuel0. Run_step M (at_time E t) now fuel p = Some p')"
  by (rule Run_step_ends [OF assms])

theorem Run_step_returns_witness:
  "\<exists>fuel0 p'. \<forall>fuel \<ge> fuel0. Run_step alist_lmdb (at_time sample_env 0) 0 fuel sample_forced = Some p'"
  using Run_step_returns [OF alist_reliable sample_universe_ok sample_forced_inv sample_forced_waits] by blast

text \<open>
  Cause and effect in every reachable ledger: a spent receivable or reward was collected by a block that is
  still stored, and the stored blocks can be ranked so that each is above its predecessor and its source. A
  rollback that has to wait therefore waits for a block of a higher rank, never in a circle.
\<close>

theorem rollbacks_ascend:
  assumes "reachable E U g L" "universe E g U"
  shows "settled_inv E L \<and> (\<exists>rank. rank_ok g rank L)"
  using reachable_causal [OF assms] by (simp add: causal_def)

theorem rollbacks_ascend_witness: "\<exists>rank. rank_ok sample_genesis rank (commit_view sample_view)"
  using rollbacks_ascend [OF sample_reachable sample_universe_ok] by blast

section \<open>Elections\<close>

text \<open>
  C22. Elections stay sound. Whatever blocks, votes, conflicting votes and turns of the election thread come, in any
  order and at any times, every election holds the block of every vote and every conflict in it, no assertion fails, no
  iterator is read past the end, what is forced into the ledger is never a null block, and at most the allowed numbers of
  elections run at once. The reference counts have 32 bits, which bounds the votes.
\<close>

theorem elections_stay_sound:
  assumes "references ops < 2 ^ 32" "peers_distinct ops"
  shows "elections_ok E (references ops) (run_ops E ops (Elections_new slow_reps concurrency)) \<and>
    {Election_Assertion, Election_End_Read, Force_Confirmed None, Force_Appended None} \<inter>
      set (es_events (run_ops E ops (Elections_new slow_reps concurrency))) = {} \<and>
    length (es_actives (run_ops E ops (Elections_new slow_reps concurrency))) \<le> concurrency \<and>
    length (es_forks (run_ops E ops (Elections_new slow_reps concurrency))) \<le> FORK_CONCURRENCY"
proof -
  have ok: "elections_ok E (0 + references ops) (run_ops E ops (Elections_new slow_reps concurrency))"
    by (rule run_ops_ok [OF Elections_new_ok]) (use assms in simp_all)
  show ?thesis
    using ok elections_ok_events [OF ok] run_ops_concurrency [of E ops "Elections_new slow_reps concurrency"]
    by (simp add: Elections_new_def)
qed

theorem elections_stay_sound_witness:
  "Election_Assertion \<notin> set (es_events (run_ops sample_env sample_ops (Elections_new False 16)))"
proof -
  have "references sample_ops < 2 ^ 32" unfolding sample_references by simp
  from elections_stay_sound [OF this sample_references(2), of sample_env False 16] show ?thesis by simp
qed

text \<open>
  C23. The tally loses no weight and counts none twice: in a sound election the valid, the invalid and the missing
  votes add up to the weight of all representatives online, however old the votes are and whichever of them conflict.
\<close>

theorem tally_splits_online_weight:
  assumes "elections_ok E n es" "el_find es account = Some e"
  shows "st_valid (Tally E es e) + st_invalid (Tally E es e) + st_not_voting (Tally E es e) = es_weight_online es"
proof -
  have "weights_ok es" "election_ok E n e"
    using assms by (auto simp: elections_ok_def around_def split: if_splits)
  then show ?thesis by (intro Tally_partition) (simp_all add: election_ok_def votes_ok_def)
qed

theorem tally_splits_online_weight_witness:
  "st_valid (Tally sample_env sample_polls sample_election) + st_invalid (Tally sample_env sample_polls sample_election) +
     st_not_voting (Tally sample_env sample_polls sample_election) = es_weight_online sample_polls"
  by (rule tally_splits_online_weight [OF sample_polls_ok sample_polls_eq(1)])

text \<open>
  C24. Agreement: two sound elections under the same representative weights that confirm a block each share voters for
  both of more than 60 percent of the whole weight. Two different blocks of a fork are therefore confirmed only
  when representatives of more than 60 percent have voted for both of them.
\<close>

theorem confirmations_share_voters:
  assumes "election_ok E n e" "st_confirm (Tally E es e)" "st_block (Tally E es e) = Some b"
    "election_ok E' n' e'" "st_confirm (Tally E' es' e')" "st_block (Tally E' es' e') = Some b'"
    "es_weights es' = es_weights es" "es_weight_total es' = es_weight_total es" "weights_fit es"
  shows "unat (es_weight_total es) * 60 <
    sum (weight_nat es) (supporters e (Hash E b) \<inter> supporters e' (Hash E' b')) * 100"
proof -
  have "weight_nat es' = weight_nat es" by (simp add: fun_eq_iff weight_nat_def weight_or_0_def weight_of_def assms(7))
  from confirmations_overlap [OF assms(1-6) this assms(8,9)] show ?thesis .
qed

theorem confirmations_share_voters_witness:
  "unat (es_weight_total sample_polls) * 60 < sum (weight_nat sample_polls) (supporters sample_election 2) * 100"
proof -
  have "election_ok sample_env 2 sample_election"
    using sample_polls_ok sample_polls_eq(1) by (auto simp: elections_ok_def around_def split: if_splits)
  from confirmations_share_voters [OF this sample_confirms this sample_confirms refl refl sample_fit] show ?thesis
    by (simp add: sample_hashes)
qed

text \<open>
  The tally does not depend on the order in which the unordered maps of votes and blocks and the set of online
  peers are iterated, so nodes that hold the same votes come to the same status.
\<close>

theorem tally_order_irrelevant:
  assumes "mset votes = mset (el_votes e)" "distinct (map fst (el_votes e))" "map_of blocks = map_of (el_blocks e)"
    "mset peers = mset (es_online_reps es)"
  shows "Tally E (es\<lparr>es_online_reps := peers\<rparr>) (e\<lparr>el_votes := votes, el_blocks := blocks\<rparr>) = Tally E es e"
  by (rule Tally_order) (simp_all add: assms)

theorem tally_order_irrelevant_witness:
  "Tally sample_env sample_polls (sample_election\<lparr>el_votes := [(8, sample_vote), (9, sample_vote)]\<rparr>) =
   Tally sample_env sample_polls (sample_election\<lparr>el_votes := [(9, sample_vote), (8, sample_vote)]\<rparr>)"
  using tally_order_irrelevant [of "[(8, sample_vote), (9, sample_vote)]"
    "sample_election\<lparr>el_votes := [(9, sample_vote), (8, sample_vote)]\<rparr>" "el_blocks sample_election"
    "es_online_reps sample_polls" sample_polls sample_env]
  by (simp add: add_mset_commute)

text \<open>
  What a vote counts in an election: all of it for a vote within the time limit of the election, none beyond twice
  the limit, and in between a percentage that falls linearly with the distance from now. The assertion of
  \<open>WeightFactor\<close> never fails.
\<close>

theorem vote_weight_decays:
  assumes "sane_clock E"
  shows "unat (WeightFactor E info (Election_TimeDiff e)) = tent (unat (Election_TimeDiff e)) (age E info) \<and>
    WeightFactor_result E info (Election_TimeDiff e) \<le> 100"
proof -
  have "Election_TimeDiff e \<noteq> 0" "Election_TimeDiff e \<le> MAX_TIMESTAMP_DIFF"
    by (simp_all add: Election_TimeDiff_def election_constants constant_defs)
  from WeightFactor_nat [OF assms this, of info] tent_le show ?thesis by (simp add: word_le_nat_alt)
qed

theorem vote_weight_decays_witness:
  "unat (WeightFactor sample_env sample_vote (Election_TimeDiff sample_election)) = 100"
  using vote_weight_decays [OF sample_clock(1), of sample_vote sample_election] by (simp add: sample_clock(2) tent_def)

text \<open>
  C25. A fork is decided only by persistence: after any rounds, the count of confirms reaches the threshold exactly when
  each of the last five rounds was won and confirmed by one and the same block; any other round starts the count again.
\<close>

theorem fork_confirmed_after_five:
  assumes "length rounds < 2 ^ 32" "el_wins e = 0" "el_confirms e = 0"
  shows "FORK_ELECTION_ROUNDS_THRESHOLD \<le> el_confirms (fold (count_round E) rounds e) \<longleftrightarrow>
    5 \<le> length rounds \<and> (\<exists>h. \<forall>s \<in> set (take 5 (rev rounds)). st_win s \<and> st_confirm s \<and> status_hash E s = h)"
  by (rule fork_confirms [OF assms])

theorem fork_confirmed_after_five_witness:
  "\<not> FORK_ELECTION_ROUNDS_THRESHOLD \<le> el_confirms (fold (count_round sample_env)
     (replicate 4 (Tally sample_env sample_polls sample_election)) sample_election)"
  using fork_confirmed_after_five [of "replicate 4 (Tally sample_env sample_polls sample_election)" sample_election sample_env]
  by (simp add: sample_election_def)

section \<open>Messages\<close>

text \<open>
  C26. The message parser accepts exactly the messages that pass their checks, and each from exactly one byte string, the
  one its serialisation writes: parsing undoes serialisation for every accepted message of all ten kinds, and nothing else
  parses. A proxy parses the header of a message it relays and keeps the rest unread.
\<close>

theorem parser_exact:
  "MessageParser_Parse E s = Inr m \<longleftrightarrow> accepted E m \<and> s = wire E m"
  using parser_accepts parser_only by blast

text \<open>
  C27. A relay is transparent: what the receiver reads from the bytes a proxy forwards is the message that was sent, byte for
  byte in its body, marked as relayed and with the sender's endpoint in its header.
\<close>

theorem relays_are_transparent:
  assumes "accepted E m" "\<not> GetFlag PROXY (header_of m)" "\<not> GetFlag RELAY (header_of m)" "length (body m) < 2 ^ 16"
    "out_reachable V receiver"
  shows "\<exists>r r'. MessageParser_Parse E (ToBytes E (EnableProxy E receiver m)) = Inr (Relay r) \<and>
    nd_sent (Visit M E V sender (Relay r) n) = nd_sent n @ [(receiver, Relay r')] \<and>
    MessageParser_Parse E (ToBytes E (Relay r')) = Inr (relayed sender m)"
  by (rule relay_transparent [OF assms]) blast

theorem relays_are_transparent_witness:
  "\<exists>r r'. MessageParser_Parse sample_env (ToBytes sample_env (EnableProxy sample_env sample_endpoint (Query sample_query))) =
       Inr (Relay r) \<and>
     MessageParser_Parse sample_env (ToBytes sample_env (Relay r')) = Inr (relayed Endpoint_new (Query sample_query))"
proof -
  have "length (body (Query sample_query)) < 2 ^ 16" by (simp add: Write_def)
  from relays_are_transparent [OF sample_query_accepted(1) _ _ this, of sample_outside sample_endpoint] show ?thesis
    by (auto simp: sample_outside_def)
qed



text \<open>
  C29. Lookup by height is exact: on every reachable ledger, walking along the chain from the nearest entry of the height
  index, in either direction, finds the block of an account at a height exactly when such a block is stored.
\<close>

theorem height_lookup_exact:
  assumes "ledger_rel M txn L" "reachable E U g L" "universe E g U"
    "\<forall>info. v_accounts L a = Some info \<longrightarrow> unat (ai_head_height info) + 8 < 2 ^ 64"
  shows "BlockGet_height M txn a n = Some b \<longleftrightarrow> (\<exists>h s. v_blocks L h = Some (b, s) \<and> Account b = a \<and> Height b = n)"
  by (rule BlockGet_height_exact [OF assms])

theorem height_lookup_exact_witness:
  "BlockGet_height alist_lmdb sample_read 5 0 = Some sample_genesis"
proof -
  have "\<forall>info. v_accounts sample_stored 5 = Some info \<longrightarrow> unat (ai_head_height info) + 8 < 2 ^ 64"
    using sample_stored_genesis(2) by fastforce
  moreover have "v_blocks sample_stored 1 = Some (sample_genesis, 0)" unfolding sample_stored_genesis(1) by simp
  ultimately show ?thesis
    using height_lookup_exact [OF sample_read_rel sample_reachable sample_universe_ok, of 5 0 sample_genesis]
      sample_genesis_place by blast
qed

text \<open>
  C30. Answers that carry a block are lost behind a proxy: the visitor answers a query that came through a proxy with the header
  of the query, which still says how long the query was, so the proxy finds bytes after the payload and drops the answer.
\<close>

theorem proxied_answers_lost:
  assumes "accepted E (Query m)" "\<not> GetFlag ACK (qr_header m)" "GetFlag PROXY (qr_header m)"
      "payload_length (qr_header m) = of_nat (length (body (Query m)))"
    "query_response M txn m = Some response"
      "GetFlag ACK (qr_header response) \<and> query_has_block (qr_header response) \<and> qr_block response \<noteq> None"
  shows "MessageParser_Parse E (ToBytes E (Query response)) = Inl (Code STREAM)"
  by (rule proxied_answer [OF assms])

theorem proxied_answers_lost_witness:
  "\<exists>response. query_response alist_lmdb sample_read sample_proxied = Some response \<and>
     MessageParser_Parse sample_env (ToBytes sample_env (Query response)) = Inl (Code STREAM)"
proof -
  obtain response b where r: "query_response alist_lmdb sample_read sample_proxied = Some response"
      "QueryStatus (qr_header response) = STATUS_SUCCESS" "qr_block response = Some b"
    using sample_answered [OF sample_proxied_fields(1-3)] by blast
  have "GetFlag ACK (qr_header response)" using query_response_ack [OF r(1)] .
  with proxied_answers_lost [OF sample_proxied_fields(4-7) r(1)] r show ?thesis by (auto simp: query_has_block_def)
qed

section \<open>Votes and evidence\<close>

text \<open>
  C31. A node never signs two votes that contradict each other: whatever blocks it is asked to confirm, for whatever accounts and
  heights, with the ageing of its records in between, no two votes it signs for one account and height are a
  conflict in the eyes of another node. The clock must not go backwards.
\<close>

theorem honest_votes_never_conflict:
  assumes "asks_ok calls" "(k, t, h) \<in> set (confirm_run E calls [])" "(k, t', h') \<in> set (confirm_run E calls [])"
  shows "\<not> CheckConflict \<lparr>vt_timestamp = t, vt_signature = s, vt_hash = h\<rparr> \<lparr>vt_timestamp = t', vt_signature = s', vt_hash = h'\<rparr>"
  by (rule honest_votes [OF assms])

theorem honest_votes_never_conflict_witness:
  "((5, 1), 110, 3) \<in> set (confirm_run sample_env sample_asks []) \<and>
   \<not> CheckConflict \<lparr>vt_timestamp = 100, vt_signature = 0, vt_hash = 2\<rparr> \<lparr>vt_timestamp = 110, vt_signature = 0, vt_hash = 3\<rparr>"
  using honest_votes_never_conflict [OF sample_asks_ok, of "(5, 1)" 100 2 sample_env 110 3 0 0] by (simp add: sample_asks_run)

text \<open>
  C32. A conflict message is evidence: a node accepts it exactly when it accepts each of its halves as a vote of that
  representative, both for one account and height, and the two votes contradict each other. The only other way is
  a pair of votes for one hash at one time whose blocks differ in their signatures.
\<close>

theorem conflicts_are_evidence:
  "accepted E (Conflict (ConflictMessage_new rep t1 t2 s1 s2 b1 b2)) \<longleftrightarrow>
     accepted E (Confirm (ConfirmMessage_new t1 rep s1 b1)) \<and> accepted E (Confirm (ConfirmMessage_new t2 rep s2 b2)) \<and>
     Account b1 = Account b2 \<and> Height b1 = Height b2 \<and>
     (if t1 = t2 \<and> Hash E b1 = Hash E b2 then b1 \<noteq> b2
      else CheckConflict (vote_in E t1 s1 b1) (vote_in E t2 s2 b2))"
  unfolding conflict_evidence by (auto simp: CheckConflict_distance BlocksEqual_iff)

section \<open>The whole node\<close>

text \<open>
  C33. A node stays sound. Whatever messages arrive, whatever the clock and the peers are, and in whatever order its threads take
  their turns, its posted work is done and its alarms go off, a node that starts on a sound ledger never fails an assertion
  and never uses a null block in the block processor, the elections, the queries or the syncer; its ledger is one that the
  block lattice reaches from the genesis block, with the whole history consistent; and an account that the syncer waits for has
  at most one query, for the height that is expected, while any other account has none. Two references can be added to
  a block of an election in one step, and they are counted with 32 bits, which bounds the steps.
\<close>

theorem node_stays_sound:
  assumes "reliable M" "universe E g U" "ledger_ok M E U g l"
    "node_run M E U (Node_new account key slow_reps concurrency l) j n" "2 * j < 2 ^ 32"
  shows "\<not> nd_asserted n \<and> (\<exists>L. ledger_state M (nd_ledger n) L \<and> reachable E U g L \<and> history_inv E g L) \<and>
    sync_ok (nd_syncer n) (qs_queries (nd_queries n))"
proof -
  have n: "node_sound M E U g (2 * j) n" by (rule node_run_sound [OF assms(4,1,2) Node_new_sound [OF assms(3)] assms(5)])
  obtain L where "ledger_state M (nd_ledger n) L" "reachable E U g L" using node_sound_ledger [OF n] by (auto simp: ledger_ok_def)
  with reachable_history [OF _ assms(2)] fail_free [OF n] node_sound_sync [OF n] show ?thesis by blast
qed

theorem node_stays_sound_witness:
  "\<not> nd_asserted sample_after \<and> sync_ok (nd_syncer sample_after) (qs_queries (nd_queries sample_after)) \<and>
   (\<exists>L. ledger_state alist_lmdb (nd_ledger sample_after) L \<and> history_inv sample_env sample_genesis L)"
  using node_stays_sound [OF alist_reliable sample_universe_ok sample_ledger_ok sample_node_run [unfolded sample_node_def]]
  by auto

section \<open>The table of peers\<close>

text \<open>
  C34. Whatever messages arrive, the table stays within its limits: at most one peer per address and two per proxy, each
  account once, and the index of full nodes exact, so that a random full node is always found; no handshake reads an
  optional that is not set, and the keeplives of the table always fit in a message.
\<close>

theorem peers_within_limits:
  assumes "peers_run E me received ps"
  shows "CountByIp ip ps \<le> MAX_PEERS_PER_IP \<and> (\<not> IsReservedIp ip \<longrightarrow> CountByProxy ip ps \<le> MAX_PEERS_PER_PROXY) \<and>
    distinct (map pr_account (all_peers ps)) \<and>
    set (ps_full_nodes ps) = pr_account ` {p \<in> set (all_peers ps). \<not> pr_light_node p} \<and>
    RandomFullNodePeer draw exclude_self account ps \<noteq> Some (Inl ()) \<and>
    (\<not> IsReservedIp (ep_ip sender) \<longrightarrow> Visitor_Handshake (at_time E t) me w now rnd sender m ps \<noteq> None) \<and>
    Peers_Keeplive (at_time E t) me now picks MAX_PEERS ps \<noteq> None"
proof -
  have s: "sound ps" "table_ok ps" "limits_ok ps"
    using run_sound [OF assms] by (auto simp: sound_def peers_ok_def)
  show ?thesis
    using s(2,3) RandomFullNodePeer_expected [OF s(2)] Handshake_step [OF s(1), of sender "at_time E t" me w now rnd m]
      Peers_Keeplive_grows [OF s(1), of "at_time E t" me now picks]
    by (auto simp: CountByIp_total CountByProxy_total limits_ok_def table_ok_def)
qed

theorem peers_within_limits_witness:
  "\<exists>ps. peers_run sample_env sample_self [(sample_remote, Handshake sample_answer)] ps \<and> all_peers ps \<noteq> [] \<and>
     CountByIp (ep_ip sample_remote) ps \<le> MAX_PEERS_PER_IP"
proof -
  obtain ps p where met: "peers_run sample_env sample_self [(sample_remote, Handshake sample_answer)] ps" "p \<in> set (all_peers ps)"
    using sample_met by blast
  from peers_within_limits [OF met(1)] have "CountByIp (ep_ip sample_remote) ps \<le> MAX_PEERS_PER_IP" by blast
  with met show ?thesis by auto
qed

text \<open>
  C35. Every peer in the table has proved who it is and where: a handshake response came from its endpoint, directly or
  through a proxy, in which its account signed a cookie that had been sent to that endpoint.
\<close>

theorem peers_are_authentic:
  assumes "peers_run E me received ps" "p \<in> set (all_peers ps)"
  shows "\<exists>sender m c. (sender, Handshake m) \<in> set received \<and> mh_extension (hs_header m) \<noteq> REQUEST \<and>
    (if GetFlag PROXY (hs_header m) then peer_endpoint (hs_header m) else sender) = Peer_Endpoint p \<and>
    hs_account m = pr_account p \<and> requested (ps_sent ps) c (Peer_Endpoint p) \<and>
    \<not> ValidateMessage E (pr_account p) c (hs_signature m)"
proof -
  have "(pr_account p, Peer_Endpoint p) \<in> ids ps" using assms(2) by (auto simp: ids_def)
  with run_sound [OF assms(1)] have "authentic E received (ps_sent ps) (pr_account p) (Peer_Endpoint p)" by blast
  then show ?thesis unfolding authentic_def answered_by_def sender_of_def by blast
qed

theorem peers_are_authentic_witness:
  "\<exists>ps c. peers_run sample_env sample_self [(sample_remote, Handshake sample_answer)] ps \<and>
     requested (ps_sent ps) c sample_remote \<and> \<not> ValidateMessage sample_env 9 c (hs_signature sample_answer)"
proof -
  obtain ps p where met: "peers_run sample_env sample_self [(sample_remote, Handshake sample_answer)] ps" "p \<in> set (all_peers ps)"
    "pr_account p = 9" "Peer_Endpoint p = sample_remote"
    using sample_met by blast
  from peers_are_authentic [OF met(1,2)] met show ?thesis by auto
qed

text \<open>
  C36. A handshake signs anything. The cookie that a node signs for whoever asks is any 256-bit number, with nothing that
  tells it from the hash of a vote: one handshake request from a stranger gets, from every node in every state, a
  signature that turns a block of the stranger's choice and a time of the stranger's choice into a vote of that
  node, which all nodes accept.
\<close>

theorem handshakes_forge_votes:
  assumes "honest_key E (sf_private_key me) (sf_account me)" "block_ok E b"
  shows "\<exists>request qs response. accepted E (Handshake request) \<and> hs_account request = stranger \<and>
    Visitor_Handshake E me w now rnd sender request ps = Some qs \<and> (sender, Handshake response) \<in> set (ps_sent qs) \<and>
    accepted E (Confirm (ConfirmMessage_new timestamp (sf_account me) (hs_signature response) b))"
proof -
  let ?h = "blake2b E (Write timestamp @ Write (sf_account me) @ Write (Hash E b))"
  let ?response = "HandshakeMessage_response (sf_account me) (SignMessage E (sf_private_key me) (sf_account me) ?h)"
  have "accepted E (Confirm (ConfirmMessage_new timestamp (sf_account me) (hs_signature ?response) b))"
    using assms by (simp add: accepted_Confirm_new honest_key_def HandshakeMessage_response_def)
  moreover have "hs_account (request_for (CurrentTimestamp E) stranger ?h) = stranger" by (simp add: request_for_def)
  ultimately show ?thesis
    using request_answered [of E me w now rnd sender stranger ?h ps] request_accepted by blast
qed

theorem handshakes_forge_votes_witness:
  "\<exists>signature. accepted sample_env (Confirm (ConfirmMessage_new 0 5 signature sample_send))"
  using handshakes_forge_votes [OF sample_self_honest sample_blocks_ok(3), of 9]
  unfolding sample_self_def by (metis self.select_convs(1))

section \<open>Text and extensions\<close>

text \<open>
  C37. Token messages: a value is read from an extension of a block exactly when it is one that passes the checks of its
  operation and the bytes are what its writer produces, for all operations and all messages of a swap. Only for a receipt from a
  map or an unwrap, fewer than eight bytes in the place of the index are accepted as well, with the index left as it was.
\<close>

theorem token_extensions_exact:
  "Token_FromExtension valid_key e = Inr d \<longleftrightarrow>
     xt_type e = EXTENSION_TOKEN \<and> TokenData_ok valid_key d \<and>
     (\<exists>junk. xt_value e = Token_Value d @ junk \<and> length junk \<le> slack d)"
  by (rule Token_FromExtension_exact)

text \<open>
  C38. Extension lists: the bytes of a block are read as a list of extensions exactly when they are the serialisation
  of that list, its types are valid and its size is within the limit.
\<close>

theorem extensions_exact:
  "Extensions_FromBytes bs [] = Inr es \<longleftrightarrow>
     0 \<notin> xt_type ` set es \<and> Extensions_SerialSize es \<le> MAX_EXTENSIONS_SIZE \<and> bs = Extensions_Bytes es"
  unfolding Extensions_FromBytes_exact extensions_ok_def by blast

text \<open>
  C39. Text: the check accepts exactly the UTF-8 of sequences of Unicode scalar values, with no overlong form, surrogate
  or cut sequence among them, and reports exactly whether one is a control character.
\<close>

theorem utf8_exact:
  "CheckUtf8 bs = (False, ctrl) \<longleftrightarrow>
     (\<exists>cs. list_all scalar cs \<and> bs = concat (map utf8_encode cs) \<and> ctrl = list_ex control cs)"
  by (simp add: CheckUtf8_def CheckUtf8_loop_exact)

text \<open>
  C40. Accounts as text: a string is decoded as an account exactly when it is the encoding of that account, check and
  all, and the decoder reads outside its table exactly when it meets a character 0 before any character that is not in
  the alphabet.
\<close>

theorem account_text_exact:
  "(DecodeAccount check s = Decoded a \<longleftrightarrow> s = EncodeAccount check a) \<and>
   (DecodeAccount check s = Out_Of_Bounds \<longleftrightarrow>
      length s = 64 \<and> take 4 s = ''rai_'' \<and> (s ! 4 = CHR ''1'' \<or> s ! 4 = CHR ''3'') \<and>
      (\<exists>k. 4 < k \<and> k < 64 \<and> s ! k = CHR 0x00 \<and> set (drop 4 (take k s)) \<subseteq> set account_lookup))"
  using DecodeAccount_exact DecodeAccount_out_of_bounds by blast

end
